(* ===== verification/Prelude.thy ===== *)
theory Prelude
  imports Main "HOL-Library.Word"
begin

text \<open>
  Shared vocabulary of the development: the widths of the C integer types the firmware uses,
  the named collections the component theories extend, C division and conversion of integers,
  and generic lemmas on lists and sorted keys.
\<close>

unbundle bit_operations_syntax

type_synonym u8 = "8 word"
type_synonym u16 = "16 word"
type_synonym u32 = "32 word"
type_synonym i32 = "32 word"

named_theorems model_defs \<open>definitions unfolded when an operation is executed symbolically\<close>
named_theorems frame_simps \<open>what an operation leaves alone\<close>

text \<open>
  C division of signed integers truncates towards zero.
\<close>

definition c_div :: "int \<Rightarrow> int \<Rightarrow> int" where
  "c_div a b = sgn a * sgn b * (\<bar>a\<bar> div \<bar>b\<bar>)"

lemma c_div_nonneg: "0 \<le> a \<Longrightarrow> 0 < b \<Longrightarrow> c_div a b = a div b"
  by (cases "a = 0") (simp_all add: c_div_def)

lemma div_less_pos: "0 < m \<Longrightarrow> d < b * m \<Longrightarrow> d div m < (b :: int)"
proof (rule ccontr)
  assume m: "0 < m" "d < b * m" and "\<not> d div m < b"
  then have "b * m \<le> d div m * m" by (simp add: mult_right_mono)
  also have "\<dots> \<le> d" using m by (metis minus_mod_eq_div_mult pos_mod_sign diff_ge_0_iff_ge add_diff_cancel_left' le_add_same_cancel1 diff_le_eq)
  finally show False using m by simp
qed

text \<open>Conversion of an integer to \<open>int\<close> / \<open>int32_t\<close>: two's complement truncation.\<close>

definition to_i32 :: "int \<Rightarrow> int" where
  "to_i32 x = sint (word_of_int x :: 32 word)"

lemma to_i32_small [simp]: "- (2 ^ 31) \<le> x \<Longrightarrow> x < 2 ^ 31 \<Longrightarrow> to_i32 x = x"
  by (simp add: to_i32_def sint_sbintrunc' signed_take_bit_int_eq_self)

lemma to_i32_range: "- (2 ^ 31) \<le> to_i32 x \<and> to_i32 x < 2 ^ 31"
  using sint_range_size [of "word_of_int x :: 32 word"]
  by (simp add: to_i32_def word_size)

text \<open>Sortedness of a projected key.\<close>

lemma sorted_map_Cons_iff:
  "sorted (map f (x # xs)) \<longleftrightarrow> (\<forall>y\<in>set xs. f x \<le> f y) \<and> sorted (map f xs)"
  by auto

lemma takeWhile_le_sorted:
  fixes t :: "'a::linorder"
  assumes "sorted (map f xs)"
  shows "takeWhile (\<lambda>x. f x \<le> t) xs = filter (\<lambda>x. f x \<le> t) xs"
  using assms
proof (induction xs)
  case (Cons x xs)
  show ?case
  proof (cases "f x \<le> t")
    case False
    with Cons.prems have "\<forall>y\<in>set xs. \<not> f y \<le> t" by fastforce
    with False show ?thesis by (simp add: filter_empty_conv)
  qed (use Cons in auto)
qed simp

text \<open>The first four elements of a list.\<close>

lemma list4_exhaust:
  assumes "4 \<le> length xs"
  obtains b0 b1 b2 b3 rest where "xs = [b0, b1, b2, b3] @ rest"
proof -
  have "xs = take 4 xs @ drop 4 xs" by simp
  moreover from assms have "length (take 4 xs) = 4" by simp
  then obtain b0 b1 b2 b3 where "take 4 xs = [b0, b1, b2, b3]"
    by (cases "take 4 xs"; cases "tl (take 4 xs)"; cases "tl (tl (take 4 xs))"; cases "tl (tl (tl (take 4 xs)))") auto
  ultimately show ?thesis using that by metis
qed

end
