(* ===== verification/Float_Values.thy ===== *)
theory Float_Values
  imports Complex_Main Prelude
begin

text \<open>
  Single-precision numbers. Where the code keeps away from infinities and NaN a number is a rational and an arbitrary
  \<open>rounding\<close> is applied after each operation; \<open>float_ok\<close> states what IEEE 754 promises of it. Where the code
  computes with NaN, infinities or signed zeros, a number is an \<open>fval\<close>.
\<close>

type_synonym float32 = rat
type_synonym rounding = "rat \<Rightarrow> rat"

definition float_ok :: "rounding \<Rightarrow> bool" where
  "float_ok fl \<longleftrightarrow>
     (\<forall>x. 1 / 2 ^ 20 \<le> \<bar>x\<bar> \<longrightarrow> \<bar>x\<bar> \<le> 2 ^ 64 \<longrightarrow> \<bar>fl x - x\<bar> \<le> \<bar>x\<bar> / 2 ^ 24) \<and>
     (\<forall>i :: int. \<bar>i\<bar> \<le> 2 ^ 24 \<longrightarrow> fl (of_int i) = of_int i)"

lemma float_ok_id: "float_ok id"
  by (simp add: float_ok_def)

lemma float_ok_bounds:
  assumes "float_ok fl" "1 / 2 ^ 20 \<le> x" "x \<le> 2 ^ 64"
  shows "x * (1 - 1 / 2 ^ 24) \<le> fl x" "fl x \<le> x * (1 + 1 / 2 ^ 24)"
proof -
  have "0 \<le> x" using assms(2) by (rule order_trans [rotated]) simp
  then have x: "\<bar>x\<bar> = x" by simp
  have "\<bar>fl x - x\<bar> \<le> \<bar>x\<bar> / 2 ^ 24"
    using assms(1) [unfolded float_ok_def, THEN conjunct1, rule_format, of x] assms(2,3) x by simp
  then have "fl x - x \<le> x / 2 ^ 24" "x - fl x \<le> x / 2 ^ 24" unfolding x by linarith+
  then show "x * (1 - 1 / 2 ^ 24) \<le> fl x" "fl x \<le> x * (1 + 1 / 2 ^ 24)"
    unfolding right_diff_distrib distrib_left by simp_all
qed

lemma float_okD:
  assumes "float_ok fl" "1 \<le> x" "x \<le> 2 ^ 64"
  shows "x * (1 - 1 / 2 ^ 24) \<le> fl x" "fl x \<le> x * (1 + 1 / 2 ^ 24)"
proof -
  have "1 / 2 ^ 20 \<le> x" using assms(2) by (rule order_trans [rotated]) simp
  from float_ok_bounds [OF assms(1) this assms(3)] show "x * (1 - 1 / 2 ^ 24) \<le> fl x" "fl x \<le> x * (1 + 1 / 2 ^ 24)" by blast+
qed

lemma float_ok_int: "float_ok fl \<Longrightarrow> \<bar>i\<bar> \<le> 2 ^ 24 \<Longrightarrow> fl (of_int i) = of_int i"
  by (simp add: float_ok_def)

text \<open>Whole numbers bound what a monotone rounding can do.\<close>

lemma round_between:
  assumes "mono fl" "float_ok fl" "of_int i \<le> x" "x \<le> of_int j" "\<bar>i\<bar> \<le> 2 ^ 24" "\<bar>j\<bar> \<le> 2 ^ 24"
  shows "of_int i \<le> fl x" "fl x \<le> of_int j"
  using monoD [OF assms(1) assms(3)] monoD [OF assms(1) assms(4)] float_ok_int [OF assms(2) assms(5)] float_ok_int [OF assms(2) assms(6)]
  by simp_all

subsection \<open>IEEE 754 values\<close>

text \<open>A finite number has a sign, which zero has too, and a magnitude.\<close>

datatype fval = FNaN | FInf bool | FNum bool rat

text \<open>The result of an operation: a zero gets the given sign, a magnitude from \<open>2 ^ 128\<close> on is infinite.\<close>

definition f_round :: "rounding \<Rightarrow> bool \<Rightarrow> rat \<Rightarrow> fval" where
  "f_round fl zero_sign x =
     (if x = 0 then FNum zero_sign 0 else if \<bar>fl x\<bar> \<ge> 2 ^ 128 then FInf (x < 0) else FNum (x < 0) \<bar>fl x\<bar>)"

fun f_rat :: "bool \<Rightarrow> rat \<Rightarrow> rat" where
  "f_rat s m = (if s then - m else m)"

definition f_int :: "rounding \<Rightarrow> int \<Rightarrow> fval" where
  "f_int fl i = f_round fl False (of_int i)"

definition f_bool :: "bool \<Rightarrow> fval" where
  "f_bool b = FNum False (of_bool b)"

fun f_neg :: "fval \<Rightarrow> fval" where
  "f_neg FNaN = FNaN"
| "f_neg (FInf s) = FInf (\<not> s)"
| "f_neg (FNum s m) = FNum (\<not> s) m"

fun f_add :: "rounding \<Rightarrow> fval \<Rightarrow> fval \<Rightarrow> fval" where
  "f_add fl FNaN y = FNaN"
| "f_add fl x FNaN = FNaN"
| "f_add fl (FInf s) (FInf t) = (if s = t then FInf s else FNaN)"
| "f_add fl (FInf s) (FNum t n) = FInf s"
| "f_add fl (FNum s m) (FInf t) = FInf t"
| "f_add fl (FNum s m) (FNum t n) = f_round fl (s \<and> t) (f_rat s m + f_rat t n)"

definition f_sub :: "rounding \<Rightarrow> fval \<Rightarrow> fval \<Rightarrow> fval" where
  "f_sub fl x y = f_add fl x (f_neg y)"

fun f_mul :: "rounding \<Rightarrow> fval \<Rightarrow> fval \<Rightarrow> fval" where
  "f_mul fl FNaN y = FNaN"
| "f_mul fl x FNaN = FNaN"
| "f_mul fl (FInf s) (FInf t) = FInf (s \<noteq> t)"
| "f_mul fl (FInf s) (FNum t n) = (if n = 0 then FNaN else FInf (s \<noteq> t))"
| "f_mul fl (FNum s m) (FInf t) = (if m = 0 then FNaN else FInf (s \<noteq> t))"
| "f_mul fl (FNum s m) (FNum t n) = f_round fl (s \<noteq> t) (f_rat s m * f_rat t n)"

fun f_div :: "rounding \<Rightarrow> fval \<Rightarrow> fval \<Rightarrow> fval" where
  "f_div fl FNaN y = FNaN"
| "f_div fl x FNaN = FNaN"
| "f_div fl (FInf s) (FInf t) = FNaN"
| "f_div fl (FInf s) (FNum t n) = FInf (s \<noteq> t)"
| "f_div fl (FNum s m) (FInf t) = FNum (s \<noteq> t) 0"
| "f_div fl (FNum s m) (FNum t n) =
     (if n = 0 then if m = 0 then FNaN else FInf (s \<noteq> t)
      else f_round fl (s \<noteq> t) (f_rat s m / f_rat t n))"

text \<open>The comparisons with NaN are false.\<close>

fun f_less :: "fval \<Rightarrow> fval \<Rightarrow> bool" where
  "f_less FNaN y = False"
| "f_less x FNaN = False"
| "f_less (FInf s) (FInf t) = (s \<and> \<not> t)"
| "f_less (FInf s) (FNum t n) = s"
| "f_less (FNum s m) (FInf t) = (\<not> t)"
| "f_less (FNum s m) (FNum t n) = (f_rat s m < f_rat t n)"

fun f_eq :: "fval \<Rightarrow> fval \<Rightarrow> bool" where
  "f_eq FNaN y = False"
| "f_eq x FNaN = False"
| "f_eq (FInf s) (FInf t) = (s = t)"
| "f_eq (FInf s) (FNum t n) = False"
| "f_eq (FNum s m) (FInf t) = False"
| "f_eq (FNum s m) (FNum t n) = (f_rat s m = f_rat t n)"

definition f_leq :: "fval \<Rightarrow> fval \<Rightarrow> bool" where
  "f_leq x y = (f_less x y \<or> f_eq x y)"

text \<open>The conversion to \<open>int\<close> of the FPU: towards zero, saturating, NaN to 0.\<close>

fun f_trunc :: "fval \<Rightarrow> int" where
  "f_trunc FNaN = 0"
| "f_trunc (FInf s) = (if s then - (2 ^ 31) else 2 ^ 31 - 1)"
| "f_trunc (FNum s m) = (if s then - min (2 ^ 31) \<lfloor>m\<rfloor> else min (2 ^ 31 - 1) \<lfloor>m\<rfloor>)"

text \<open>Whole numbers.\<close>

lemma f_int_exact:
  assumes "float_ok fl" "\<bar>i\<bar> \<le> 2 ^ 24"
  shows "f_int fl i = FNum (i < 0) \<bar>of_int i\<bar>"
proof -
  have "(of_int \<bar>i\<bar> :: rat) \<le> of_int (2 ^ 24)" using assms(2) by (simp only: of_int_le_iff)
  then have "\<bar>of_int i\<bar> < (2 ^ 128 :: rat)" by simp
  then show ?thesis using float_ok_int [OF assms] by (auto simp: f_int_def f_round_def)
qed

lemma f_int_value:
  assumes "mono fl" "float_ok fl" "\<bar>j\<bar> < 2 ^ 31"
  obtains s m where "f_int fl j = FNum s m" "f_rat s m = fl (of_int j)"
proof (cases "j = 0")
  case True
  then have "f_int fl j = FNum False 0" "fl (of_int j) = 0"
    using float_ok_int [OF assms(2), of 0] by (simp_all add: f_int_def f_round_def)
  then show ?thesis using that [of False 0] by simp
next
  case False
  define x where "x = (of_int j :: rat)"
  have "(of_int 1 :: rat) \<le> of_int \<bar>j\<bar>" "(of_int \<bar>j\<bar> :: rat) \<le> of_int (2 ^ 31)"
    using False assms(3) by (simp_all only: of_int_le_iff)
  then have x: "x \<noteq> 0" "1 \<le> \<bar>x\<bar>" "\<bar>x\<bar> \<le> 2 ^ 31" using False by (simp_all add: x_def)
  have "1 / 2 ^ 20 \<le> \<bar>x\<bar>" "\<bar>x\<bar> \<le> 2 ^ 64"
    by (rule order_trans [OF _ x(2)], simp) (rule order_trans [OF x(3)], simp)
  then have "\<bar>fl x - x\<bar> \<le> \<bar>x\<bar> / 2 ^ 24" using assms(2) by (simp add: float_ok_def)
  moreover have "\<bar>x\<bar> / 2 ^ 24 \<le> \<bar>x\<bar>" by simp
  ultimately have "\<bar>fl x\<bar> \<le> 2 ^ 31 + 2 ^ 31" using x(3) by linarith
  then have small: "\<bar>fl x\<bar> < 2 ^ 128" by (rule le_less_trans) simp
  have "x < 0 \<Longrightarrow> fl x \<le> 0" "0 < x \<Longrightarrow> 0 \<le> fl x"
    using monoD [OF assms(1), of x 0] monoD [OF assms(1), of 0 x] float_ok_int [OF assms(2), of 0] by simp_all
  then have "f_rat (x < 0) \<bar>fl x\<bar> = fl x" using x(1) by auto
  moreover have "f_int fl j = FNum (x < 0) \<bar>fl x\<bar>" using x(1) small by (simp add: f_int_def f_round_def x_def)
  ultimately show ?thesis using that by (simp add: x_def)
qed

text \<open>A whole number that is represented exactly compares with the rounding of another one as with itself.\<close>

lemma f_less_int:
  assumes "mono fl" "float_ok fl" "\<bar>i\<bar> < 2 ^ 24" "\<bar>j\<bar> < 2 ^ 31"
  shows "f_less (f_int fl i) (f_int fl j) \<longleftrightarrow> i < j" "f_less (f_int fl j) (f_int fl i) \<longleftrightarrow> j < i"
proof -
  have "\<bar>i\<bar> < 2 ^ 31" using assms(3) by simp
  then obtain s m where i: "f_int fl i = FNum s m" "f_rat s m = of_int i"
    using f_int_value [OF assms(1,2), of i] float_ok_int [OF assms(2), of i] assms(3) by (metis less_imp_le)
  obtain t n where j: "f_int fl j = FNum t n" "f_rat t n = fl (of_int j)" using f_int_value [OF assms(1,2,4)] .
  have "((of_int i :: rat) < fl (of_int j)) = (i < j) \<and> (fl (of_int j) < (of_int i :: rat)) = (j < i)"
  proof (cases "\<bar>j\<bar> \<le> 2 ^ 24")
    case True
    then show ?thesis using float_ok_int [OF assms(2) True] by simp
  next
    case False
    then consider "2 ^ 24 < j" | "j < - (2 ^ 24)" by linarith
    then show ?thesis
    proof cases
      case 1
      have "fl (of_int (2 ^ 24)) \<le> fl (of_int j)" by (rule monoD [OF assms(1)]) (use 1 in \<open>simp only: of_int_le_iff\<close>)
      then have "of_int (2 ^ 24) \<le> fl (of_int j)" using float_ok_int [OF assms(2), of "2 ^ 24"] by simp
      moreover have "(of_int i :: rat) < of_int (2 ^ 24)" using assms(3) by (simp only: of_int_less_iff)
      ultimately show ?thesis using 1 assms(3) by (auto simp: less_le_trans)
    next
      case 2
      have "fl (of_int j) \<le> fl (of_int (- (2 ^ 24)))" by (rule monoD [OF assms(1)]) (use 2 in \<open>simp only: of_int_le_iff\<close>)
      then have "fl (of_int j) \<le> of_int (- (2 ^ 24))" using float_ok_int [OF assms(2), of "- (2 ^ 24)"] by simp
      moreover have "(of_int (- (2 ^ 24)) :: rat) < of_int i" using assms(3) by (simp only: of_int_less_iff)
      ultimately show ?thesis using 2 assms(3) by (auto simp: le_less_trans)
    qed
  qed
  then show "f_less (f_int fl i) (f_int fl j) \<longleftrightarrow> i < j" "f_less (f_int fl j) (f_int fl i) \<longleftrightarrow> j < i"
    by (simp_all only: i j f_less.simps)
qed

end
