(* ===== verification/Efi_Lib.thy ===== *)
theory Efi_Lib
  imports Float_Values "HOL-Library.Char_ord"
begin

text \<open>
  The substitute for the C library, src/firmware/util/efilib.cpp: strings, numbers in decimal, minima and maxima.
  A string is the list of its characters before the terminating zero; a pointer into it is a suffix. \<open>int\<close> is
  an integer that wraps around at 32 bits. The histogram printer is left out.
\<close>

definition ERROR_CODE :: int where "ERROR_CODE = 311223344"

definition boolToString :: "bool \<Rightarrow> string" where
  "boolToString value = (if value then ''Yes'' else ''No'')"

definition minI :: "int \<Rightarrow> int \<Rightarrow> int" where "minI i1 i2 = (if i1 < i2 then i1 else i2)"
definition maxI :: "int \<Rightarrow> int \<Rightarrow> int" where "maxI i1 i2 = (if i1 > i2 then i1 else i2)"
definition absI :: "int \<Rightarrow> int" where "absI value = (if value \<ge> 0 then value else to_i32 (- value))"

definition absF :: "fval \<Rightarrow> fval" where
  "absF value = (if f_less (FNum False 0) value then value else f_neg value)"

definition maxF :: "fval \<Rightarrow> fval \<Rightarrow> fval" where "maxF i1 i2 = (if f_less i2 i1 then i1 else i2)"
definition minF :: "fval \<Rightarrow> fval \<Rightarrow> fval" where "minF i1 i2 = (if f_less i1 i2 then i1 else i2)"
definition clampF :: "fval \<Rightarrow> fval \<Rightarrow> fval \<Rightarrow> fval" where "clampF mn clamp mx = maxF mn (minF clamp mx)"

definition limitRateOfChange :: "rounding \<Rightarrow> fval \<Rightarrow> fval \<Rightarrow> fval \<Rightarrow> fval \<Rightarrow> fval \<Rightarrow> fval" where
  "limitRateOfChange fl newValue oldValue incrLimitPerSec decrLimitPerSec secsPassed =
     (if f_leq oldValue newValue then
        if f_leq incrLimitPerSec (FNum False 0) then newValue
        else f_add fl oldValue (minF (f_sub fl newValue oldValue) (f_mul fl incrLimitPerSec secsPassed))
      else
        if f_leq decrLimitPerSec (FNum False 0) then newValue
        else f_sub fl oldValue (minF (f_sub fl oldValue newValue) (f_mul fl decrLimitPerSec secsPassed)))"

subsection \<open>Strings\<close>

definition efiStrlen :: "string \<Rightarrow> nat" where "efiStrlen param = length param"

definition efiTrim :: "string \<Rightarrow> string" where
  "efiTrim param =
     (let param = dropWhile (\<lambda>c. c = CHR '' '') param
      in rev (dropWhile (\<lambda>c. c = CHR '' '') (rev param)))"

definition startsWith :: "string \<Rightarrow> string \<Rightarrow> bool" where
  "startsWith line prefix =
     (let len = efiStrlen prefix
      in if efiStrlen line < len then False
         else list_all (\<lambda>i. line ! i = prefix ! i) [0..<len])"

fun indexOf_loop :: "string \<Rightarrow> char \<Rightarrow> nat \<Rightarrow> nat option" where
  "indexOf_loop [] ch i = None"
| "indexOf_loop (c # cs) ch i = (if c = ch then Some i else indexOf_loop cs ch (i + 1))"

text \<open>None is -1.\<close>

definition indexOf :: "string \<Rightarrow> char \<Rightarrow> nat option" where
  "indexOf str ch = indexOf_loop str ch 0"

definition TO_LOWER :: "char \<Rightarrow> char" where
  "TO_LOWER x = (if CHR ''A'' \<le> x \<and> x \<le> CHR ''Z'' then char_of (of_char x - of_char (CHR ''A'') + of_char (CHR ''a'') :: nat) else x)"

definition strEqualCaseInsensitive :: "string \<Rightarrow> string \<Rightarrow> bool" where
  "strEqualCaseInsensitive str1 str2 =
     (if length str1 \<noteq> length str2 then False
      else list_all (\<lambda>i. TO_LOWER (str1 ! i) = TO_LOWER (str2 ! i)) [0..<length str1])"

definition strEqual :: "string \<Rightarrow> string \<Rightarrow> bool" where
  "strEqual str1 str2 =
     (if length str1 \<noteq> length str2 then False
      else list_all (\<lambda>i. str1 ! i = str2 ! i) [0..<length str1])"

subsection \<open>Integers in decimal\<close>

definition is_digit :: "char \<Rightarrow> bool" where
  "is_digit ch = (CHR ''0'' \<le> ch \<and> ch \<le> CHR ''9'')"

definition digit_value :: "char \<Rightarrow> int" where
  "digit_value ch = of_char ch - of_char (CHR ''0'')"

fun atoi_loop :: "string \<Rightarrow> int \<Rightarrow> int" where
  "atoi_loop [] result = result"
| "atoi_loop (ch # cs) result =
     (if \<not> is_digit ch then ERROR_CODE
      else atoi_loop cs (to_i32 (to_i32 (result * 10) + digit_value ch)))"

fun atoi :: "string \<Rightarrow> int" where
  "atoi [] = - ERROR_CODE"
| "atoi (ch # cs) = (if ch = CHR ''-'' then to_i32 (- atoi cs) else atoi_loop (ch # cs) 0)"

definition digit_char :: "nat \<Rightarrow> char" where
  "digit_char digit =
     (if digit < 10 then char_of (digit + of_char (CHR ''0'') :: nat) else char_of (digit + of_char (CHR ''a'') - 10 :: nat))"

definition ltoa_bufferLength :: nat where "ltoa_bufferLength = 10"

text \<open>
  The digits from the right; the second argument is \<open>idx + 1\<close>, the number of free places. None: the buffer is too
  short and the code goes on to write before it.
\<close>

fun ltoa_loop :: "nat \<Rightarrow> nat \<Rightarrow> nat \<Rightarrow> char list \<Rightarrow> (nat \<times> char list) option" where
  "ltoa_loop radix 0 num buffer = None"
| "ltoa_loop radix (Suc idx) num buffer =
     (let buffer = buffer[idx := digit_char (num mod radix)];
          num = num div radix
      in if num \<noteq> 0 then ltoa_loop radix idx num buffer else Some (idx, buffer))"

definition ltoa_internal :: "u32 \<Rightarrow> nat \<Rightarrow> string option" where
  "ltoa_internal num radix =
     (case ltoa_loop radix ltoa_bufferLength (unat num) (replicate ltoa_bufferLength (CHR 0x00)) of
        None \<Rightarrow> None
      | Some (idx, buffer) \<Rightarrow> Some (drop idx buffer))"

definition itoa_signed :: "int \<Rightarrow> nat \<Rightarrow> string option" where
  "itoa_signed num radix =
     (if num < 0 then
        (case ltoa_internal (word_of_int (- num)) radix of None \<Rightarrow> None | Some digits \<Rightarrow> Some (CHR ''-'' # digits))
      else ltoa_internal (word_of_int num) radix)"

definition itoa10 :: "int \<Rightarrow> string option" where
  "itoa10 num = itoa_signed num 10"

text \<open>The recursive call has the constant argument 9: outside 0 to 8 it never returns.\<close>

partial_function (option) efiPow10 :: "int \<Rightarrow> int option" where
  "efiPow10 param =
     (if param = 0 then Some 1 else if param = 1 then Some 10 else if param = 2 then Some 100
      else if param = 3 then Some 1000 else if param = 4 then Some 10000 else if param = 5 then Some 100000
      else if param = 6 then Some 1000000 else if param = 7 then Some 10000000 else if param = 8 then Some 100000000
      else Option.bind (efiPow10 (10 - 1)) (\<lambda>p. Some (to_i32 (10 * p))))"

subsection \<open>Decimal fractions\<close>

text \<open>\<open>divider * 10.0\<close> is exact in double precision; the assignment rounds it.\<close>

primrec divider :: "rounding \<Rightarrow> nat \<Rightarrow> fval \<Rightarrow> fval" where
  "divider fl 0 d = d"
| "divider fl (Suc n) d = divider fl n (f_mul fl d (FNum False 10))"

definition atoff :: "rounding \<Rightarrow> string \<Rightarrow> fval" where
  "atoff fl param =
     (if length param > 100 - 1 then FNaN
      else if indexOf param (CHR ''n'') \<noteq> None \<or> indexOf param (CHR ''N'') \<noteq> None then FNaN
      else
        case indexOf param (CHR ''.'') of
          None \<Rightarrow>
            let result = atoi param
            in if absI result = ERROR_CODE then FNaN else f_int fl result
        | Some dotIndex \<Rightarrow>
            let integerPart = atoi (take dotIndex param)
            in if absI integerPart = ERROR_CODE then FNaN
               else
                 let str = drop (dotIndex + 1) param;
                     decimalLen = length str;
                     decimal = atoi str
                 in if absI decimal = ERROR_CODE then FNaN
                    else f_add fl (f_int fl integerPart) (f_div fl (f_int fl decimal) (divider fl decimalLen (FNum False 1))))"

subsection \<open>Numbers and their decimal form\<close>

text \<open>The specification of the decimal form.\<close>

fun dec :: "nat \<Rightarrow> string" where
  "dec n = (if n < 10 then [digit_char n] else dec (n div 10) @ [digit_char (n mod 10)])"

declare dec.simps [simp del]

lemma digit_chars:
  "list_all (\<lambda>d. is_digit (digit_char d) \<and> digit_value (digit_char d) = int d \<and>
     digit_char d \<notin> set [CHR ''-'', CHR ''.'', CHR ''n'', CHR ''N'', CHR '' '']) [0..<10]"
  by code_simp

lemma digit_char_simps [simp]:
  assumes "d < 10"
  shows "is_digit (digit_char d)" "digit_value (digit_char d) = int d" "digit_char d \<noteq> CHR ''-''"
    "digit_char d \<noteq> CHR ''.''" "digit_char d \<noteq> CHR ''n''" "digit_char d \<noteq> CHR ''N''" "digit_char d \<noteq> CHR '' ''"
  using digit_chars assms by (simp_all add: list_all_iff del: upt_Suc upt_rec)

lemma dec_digits: "c \<in> set (dec n) \<Longrightarrow> \<exists>d < 10. c = digit_char d"
proof (induction n rule: dec.induct)
  case (1 n)
  have "(n < 10 \<and> c = digit_char n) \<or> (\<not> n < 10 \<and> (c \<in> set (dec (n div 10)) \<or> c = digit_char (n mod 10)))"
    using 1(2) by (auto simp: dec.simps [of n] split: if_splits)
  moreover have "n mod 10 < 10" by simp
  ultimately show ?case using 1(1) by blast
qed

lemma dec_nonempty [simp]: "dec n \<noteq> []"
  by (subst dec.simps) simp

lemma length_dec: "n < 10 ^ k \<Longrightarrow> 0 < k \<Longrightarrow> length (dec n) \<le> k"
proof (induction k arbitrary: n)
  case (Suc k)
  show ?case
  proof (cases "n < 10")
    case True
    then show ?thesis by (subst dec.simps) simp
  next
    case False
    then have "n div 10 < 10 ^ k" "0 < k" using Suc.prems by (auto simp: less_mult_imp_div_less mult.commute intro: gr0I)
    from Suc.IH [OF this] False show ?thesis by (subst dec.simps) simp
  qed
qed simp

lemma ltoa_loop_dec:
  "length (dec num) \<le> idx \<Longrightarrow> idx \<le> length buffer \<Longrightarrow>
   \<exists>buffer'. ltoa_loop 10 idx num buffer = Some (idx - length (dec num), buffer') \<and>
     drop (idx - length (dec num)) buffer' = dec num @ drop idx buffer"
proof (induction idx arbitrary: num buffer)
  case (Suc idx)
  let ?b = "buffer[idx := digit_char (num mod 10)]"
  have b: "drop idx ?b = digit_char (num mod 10) # drop (Suc idx) buffer"
    using Suc.prems(2) by (subst Cons_nth_drop_Suc [symmetric]) (simp_all add: drop_update_cancel)
  show ?case
  proof (cases "num < 10")
    case True
    then show ?thesis using b by (simp add: dec.simps [of num])
  next
    case False
    then have d: "dec num = dec (num div 10) @ [digit_char (num mod 10)]" by (subst dec.simps) simp
    then have "length (dec (num div 10)) \<le> idx" "idx \<le> length ?b" using Suc.prems by simp_all
    from Suc.IH [OF this] False b d show ?thesis by (auto simp: Let_def)
  qed
qed simp

lemma ltoa_internal_dec: "ltoa_internal num 10 = Some (dec (unat num))"
proof -
  have "unat num < 10 ^ 10" using unsigned_less [of num, where 'a = nat] by simp
  then have "length (dec (unat num)) \<le> 10" by (rule length_dec) simp
  from ltoa_loop_dec [OF this, of "replicate 10 (CHR 0x00)"] show ?thesis
    by (auto simp: ltoa_internal_def ltoa_bufferLength_def)
qed

lemma to_i32_of: "word_of_int (to_i32 x) = (word_of_int x :: 32 word)"
  by (simp add: to_i32_def)

lemma atoi_loop_append: "list_all is_digit xs \<Longrightarrow> atoi_loop (xs @ ys) r = atoi_loop ys (atoi_loop xs r)"
  by (induction xs arbitrary: r) simp_all

lemma dec_all_digits: "list_all is_digit (dec n)"
  using dec_digits by (fastforce simp: list_all_iff)

lemma atoi_loop_dec: "atoi_loop (dec n) 0 = to_i32 (int n)"
proof (induction n rule: dec.induct)
  case (1 n)
  show ?case
  proof (cases "n < 10")
    case True
    then show ?thesis by (subst dec.simps) simp
  next
    case False
    have "to_i32 (to_i32 (to_i32 (int (n div 10)) * 10) + int (n mod 10)) = to_i32 (int (n div 10) * 10 + int (n mod 10))"
      by (simp add: to_i32_def [of "_ + _"] to_i32_of)
    also have "int (n div 10) * 10 + int (n mod 10) = int n" by (simp add: zdiv_int zmod_int)
    finally show ?thesis using 1 False by (subst dec.simps) (simp add: atoi_loop_append dec_all_digits)
  qed
qed

lemma atoi_dec: "atoi (dec n) = to_i32 (int n)"
proof (cases "dec n")
  case (Cons c cs)
  then obtain d where "d < 10" "c = digit_char d" using dec_digits [of c n] by auto
  then show ?thesis using Cons atoi_loop_dec [of n] by simp
qed simp

text \<open>
  C28: numbers survive printing. For every \<open>int\<close>, the most negative one included, \<open>itoa10\<close> stays within its
  buffer of ten digits, the text has at most eleven characters, and \<open>atoi\<close> reads the number back.
\<close>

theorem atoi_itoa10:
  assumes "- (2 ^ 31) \<le> num" "num < 2 ^ 31"
  shows "\<exists>text. itoa10 num = Some text \<and> length text \<le> 11 \<and> atoi text = num"
proof -
  have len: "length (dec (unat (w :: u32))) \<le> 10" for w
  proof -
    have "unat w < 10 ^ 10" using unsigned_less [of w, where 'a = nat] by simp
    then show ?thesis by (rule length_dec) simp
  qed
  show ?thesis
  proof (cases "num < 0")
    case True
    have u: "int (unat (word_of_int (- num) :: u32)) = - num"
      using True assms(1) by (simp only: unat_eq_nat_uint uint_word_of_int) simp
    have "to_i32 (- to_i32 (- num)) = to_i32 num" by (simp add: to_i32_def [of "- _"] to_i32_of) (simp add: to_i32_def)
    then show ?thesis using True assms len u by (simp add: itoa10_def itoa_signed_def ltoa_internal_dec atoi_dec)
  next
    case False
    have "int (unat (word_of_int num :: u32)) = num" using False assms(2) by (simp add: uint_word_of_int)
    moreover have "length (dec (unat (word_of_int num :: u32))) \<le> 11" by (rule order_trans [OF len]) simp
    ultimately show ?thesis using False assms by (simp add: itoa10_def itoa_signed_def ltoa_internal_dec atoi_dec)
  qed
qed

theorem atoi_itoa10_witness:
  "\<exists>text. itoa10 (- 2147483648) = Some text \<and> length text \<le> 11 \<and> atoi text = - 2147483648"
  using atoi_itoa10 [of "- 2147483648"] by simp

subsection \<open>Decimal fractions\<close>

text \<open>Exact arithmetic: the rounding is the identity and nothing overflows.\<close>

lemma f_round_id: "\<bar>x\<bar> < 2 ^ 128 \<Longrightarrow> \<exists>s m. f_round id b x = FNum s m \<and> f_rat s m = x \<and> 0 \<le> m"
  by (auto simp: f_round_def)

lemma indexOf_none: "ch \<notin> set str \<Longrightarrow> indexOf_loop str ch i = None"
  by (induction str arbitrary: i) auto

lemma indexOf_first: "ch \<notin> set xs \<Longrightarrow> indexOf_loop (xs @ ch # ys) ch i = Some (i + length xs)"
  by (induction xs arbitrary: i) auto

lemma divider_id: "n \<le> 38 \<Longrightarrow> k + n \<le> 38 \<Longrightarrow> divider id n (FNum False (10 ^ k)) = FNum False (10 ^ (k + n))"
proof (induction n arbitrary: k)
  case (Suc n)
  have "(10 :: rat) ^ Suc k \<le> 10 ^ 38" by (rule power_increasing) (use Suc.prems in simp_all)
  also have "\<dots> < 2 ^ 128" by simp
  finally have "f_mul id (FNum False (10 ^ k)) (FNum False 10) = FNum False (10 ^ Suc k)"
    by (simp add: f_round_def mult.commute)
  moreover have "divider id n (FNum False (10 ^ Suc k)) = FNum False (10 ^ (Suc k + n))" by (rule Suc.IH) (use Suc.prems in simp_all)
  ultimately show ?case by (simp only: divider.simps add_Suc add_Suc_right)
qed simp

lemma zero_digits: "list_all is_digit (replicate z (CHR ''0''))"
  by (simp add: list_all_iff is_digit_def)

lemma atoi_zeros: "atoi (replicate z (CHR ''0'') @ dec f) = to_i32 (int f)"
proof (cases z)
  case (Suc n)
  have "atoi_loop (replicate k (CHR ''0'')) 0 = 0" for k
    by (induction k) (simp_all add: is_digit_def digit_value_def to_i32_def)
  then have "atoi_loop (replicate z (CHR ''0'') @ dec f) 0 = to_i32 (int f)"
    by (simp add: atoi_loop_append [OF zero_digits] atoi_loop_dec)
  then show ?thesis using Suc by simp
qed (simp add: atoi_dec)

lemma digits_no: "c \<in> {CHR ''-'', CHR ''.'', CHR ''n'', CHR ''N'', CHR '' ''} \<Longrightarrow> c \<notin> set (dec n)"
proof
  assume c: "c \<in> {CHR ''-'', CHR ''.'', CHR ''n'', CHR ''N'', CHR '' ''}" and "c \<in> set (dec n)"
  then obtain d where "c = digit_char d" "d < 10" using dec_digits by blast
  with c digit_char_simps(3-7) [OF this(2), THEN not_sym] show False by auto
qed

lemma no_nan:
  assumes "c \<in> {CHR ''n'', CHR ''N''}"
  shows "c \<notin> set (CHR ''-'' # dec i @ ''.'' @ replicate z (CHR ''0'') @ dec f)"
    "c \<notin> set (dec i @ ''.'' @ replicate z (CHR ''0'') @ dec f)"
proof -
  have d: "c \<notin> set (dec n)" for n using assms by (intro digits_no) blast
  have "c \<noteq> CHR ''-''" "c \<noteq> CHR ''.''" "c \<noteq> CHR ''0''" using assms by (elim insertE emptyE; simp)+
  then show "c \<notin> set (CHR ''-'' # dec i @ ''.'' @ replicate z (CHR ''0'') @ dec f)"
    "c \<notin> set (dec i @ ''.'' @ replicate z (CHR ''0'') @ dec f)"
    using d by simp_all
qed

text \<open>
  Decimal fractions in exact arithmetic (the code computes in single precision). \<open>atoff\<close> reads \<open>i.f\<close> as the whole part plus
  the fraction, with any leading zeros of the fraction; but of \<open>-i.f\<close> only the whole part is negated, so the fraction is added: -1.5
  becomes -0.5.
\<close>

lemma atoff_fraction:
  assumes "i < 2 ^ 31" "f < 2 ^ 31" "int i \<noteq> ERROR_CODE" "int f \<noteq> ERROR_CODE" "z \<le> 20"
    and "str = dec i @ ''.'' @ replicate z (CHR ''0'') @ dec f" "x = (of_nat f / 10 ^ (z + length (dec f)) :: rat)"
  shows "(\<exists>s m. atoff id str = FNum s m \<and> f_rat s m = of_nat i + x) \<and>
    (\<exists>s m. atoff id (CHR ''-'' # str) = FNum s m \<and> f_rat s m = - of_nat i + x)"
proof -
  define k where "k = z + length (dec f)"
  have "length (dec i) \<le> 10" "length (dec f) \<le> 10" using assms(1,2) by (auto intro!: length_dec)
  then have len: "\<not> length (CHR ''-'' # str) > 100 - 1" "k \<le> 38" "\<not> length str > 100 - 1" using assms(5,6) by (simp_all add: k_def)
  have no: "indexOf (CHR ''-'' # str) c = None" "indexOf str c = None" if "c \<in> {CHR ''n'', CHR ''N''}" for c
    unfolding indexOf_def assms(6) by (rule indexOf_none [OF no_nan(1) [OF that]], rule indexOf_none [OF no_nan(2) [OF that]])
  have dot: "indexOf (CHR ''-'' # str) (CHR ''.'') = Some (1 + length (dec i))" "indexOf str (CHR ''.'') = Some (length (dec i))"
    using indexOf_first [of "CHR ''.''" "CHR ''-'' # dec i"] indexOf_first [of "CHR ''.''" "dec i"] digits_no [of "CHR ''.''" i]
    by (simp_all add: indexOf_def assms(6))
  have ip: "atoi (dec i) = int i" "atoi (CHR ''-'' # dec i) = - int i" "atoi (replicate z (CHR ''0'') @ dec f) = int f"
    using assms(1,2) by (simp_all add: atoi_dec atoi_zeros)
  have err: "absI (int i) \<noteq> ERROR_CODE" "absI (- int i) \<noteq> ERROR_CODE" "absI (int f) \<noteq> ERROR_CODE"
    using assms(1-4) by (simp_all add: absI_def)
  have small: "\<bar>rat_of_nat n\<bar> \<le> 2 ^ 31" if "n < 2 ^ 31" for n
  proof -
    have "rat_of_nat n \<le> rat_of_nat (2 ^ 31)" using that by (simp only: of_nat_le_iff)
    then show ?thesis by simp
  qed
  have x: "0 \<le> x" "x \<le> 2 ^ 31"
  proof -
    have "x * 1 \<le> x * 10 ^ k" by (rule mult_left_mono) (simp_all add: assms(7))
    also have "\<dots> = of_nat f" by (simp add: assms(7) k_def)
    finally show "x \<le> 2 ^ 31" using small [OF assms(2)] by simp
  qed (simp add: assms(7))
  have big: "y < 2 ^ 128" if "y \<le> 2 ^ 31 + 2 ^ 31" for y :: rat by (rule le_less_trans [OF that]) simp
  have fi: "\<exists>s m. f_int id j = FNum s m \<and> f_rat s m = of_int j" if "\<bar>of_int j\<bar> \<le> (2 ^ 31 :: rat)" for j
  proof -
    have "\<bar>of_int j\<bar> < (2 ^ 128 :: rat)" by (rule le_less_trans [OF that]) simp
    from f_round_id [OF this, of False] show ?thesis unfolding f_int_def by blast
  qed
  obtain sf mf where ff: "f_int id (int f) = FNum sf mf" "f_rat sf mf = of_nat f"
    using fi [of "int f"] small [OF assms(2)] by auto
  have "f_div id (f_int id (int f)) (FNum False (10 ^ k)) = f_round id sf (f_rat sf mf / 10 ^ k)" by (simp add: ff(1))
  also have "\<dots> = f_round id sf x" by (simp only: ff(2) assms(7) k_def)
  finally have div: "f_div id (f_int id (int f)) (FNum False (10 ^ k)) = f_round id sf x" .
  then obtain sq mq where q: "f_div id (f_int id (int f)) (divider id k (FNum False 1)) = FNum sq mq" "f_rat sq mq = x"
    using f_round_id [of x sf] big [of "\<bar>x\<bar>"] x divider_id [of k 0] len(2) div by (auto simp del: f_rat.simps)
  have sum: "\<exists>s m. f_add id (f_int id j) (FNum sq mq) = FNum s m \<and> f_rat s m = of_int j + x" if "\<bar>of_int j\<bar> \<le> (2 ^ 31 :: rat)" for j
  proof -
    from fi [OF that] obtain s m where j: "f_int id j = FNum s m" "f_rat s m = of_int j" by blast
    define y where "y = (of_int j :: rat)"
    have y: "\<bar>y\<bar> \<le> 2 ^ 31" using that by (simp add: y_def)
    have "\<bar>y + x\<bar> \<le> \<bar>y\<bar> + \<bar>x\<bar>" by (rule abs_triangle_ineq)
    also have "\<dots> \<le> 2 ^ 31 + 2 ^ 31" by (rule add_mono [OF y]) (use x in simp)
    finally have "\<bar>y + x\<bar> < 2 ^ 128" by (rule big)
    moreover have "f_add id (f_int id j) (FNum sq mq) = f_round id (s \<and> sq) (y + x)"
      by (simp only: j(1) f_add.simps j(2) q(2) y_def)
    ultimately show ?thesis using f_round_id [of "y + x" "s \<and> sq"] unfolding y_def by metis
  qed
  have "atoff id str = f_add id (f_int id (int i)) (FNum sq mq)"
    using len no dot ip err q(1) by (simp add: atoff_def Let_def assms(6) k_def)
  moreover have "atoff id (CHR ''-'' # str) = f_add id (f_int id (- int i)) (FNum sq mq)"
    using len no dot ip err q(1) by (simp add: atoff_def Let_def assms(6) k_def)
  ultimately show ?thesis using sum [of "int i"] sum [of "- int i"] small [OF assms(1)] by simp
qed

lemma atoff_fraction_witness:
  "\<exists>s m. atoff id ''-1.5'' = FNum s m \<and> f_rat s m = - 1 + 5 / 10"
proof -
  have "dec 1 = ''1''" "dec 5 = ''5''" by code_simp+
  then show ?thesis
    using conjunct2 [OF atoff_fraction [of 1 5 0 "''1.5''" "5 / 10"]] by (simp add: ERROR_CODE_def del: f_rat.simps)
qed

text \<open>\<open>efiPow10\<close> never returns for exponents outside 0 to 8.\<close>

lemma efiPow10_domain:
  assumes "efiPow10 n = Some p"
  shows "0 \<le> n \<and> n \<le> 8"
proof (rule efiPow10.raw_induct [OF _ assms, of "\<lambda>n p. 0 \<le> n \<and> n \<le> 8"])
  fix f :: "int \<Rightarrow> int option" and n p :: int
  assume "\<And>n p. f n = Some p \<Longrightarrow> 0 \<le> n \<and> n \<le> 8"
  from this [of 9] have "f 9 = None" by (cases "f 9") auto
  moreover assume "(if n = 0 then Some 1 else if n = 1 then Some 10 else if n = 2 then Some 100
      else if n = 3 then Some 1000 else if n = 4 then Some 10000 else if n = 5 then Some 100000
      else if n = 6 then Some 1000000 else if n = 7 then Some 10000000 else if n = 8 then Some 100000000
      else Option.bind (f (10 - 1)) (\<lambda>p. Some (to_i32 (10 * p)))) = Some p"
  ultimately show "0 \<le> n \<and> n \<le> 8" by (auto split: if_splits)
qed

lemma efiPow10_diverges: "n < 0 \<or> 8 < n \<Longrightarrow> efiPow10 n = None"
  using efiPow10_domain [of n] by fastforce

end
