(* ===== verification/Containers.thy ===== *)
theory Containers
  imports Prelude
begin

text \<open>
  The containers of src/firmware/util/containers: \<open>cyclic_buffer\<close> (cyclic_buffer.h, for \<open>int\<close>
  elements), \<open>FLStack\<close> and \<open>ArrayList\<close> (fl_stack.h) and the listener array (listener_array.h).
  A C array is a list of its capacity; a call of \<open>firmwareError\<close> is an element of the error log the
  operation returns.
\<close>

subsection \<open>Cyclic buffer\<close>

definition CB_MAX_SIZE :: nat where "CB_MAX_SIZE = 128"
definition BUFFER_MAX_VALUE :: int where "BUFFER_MAX_VALUE = 200123"

record cyclic_buffer =
  elements :: "int list"
  currentIndex :: nat
  count :: nat
  cb_size :: nat

definition cb_clear :: "cyclic_buffer \<Rightarrow> cyclic_buffer" where
  "cb_clear b = b\<lparr>elements := replicate (length (elements b)) 0, count := 0, currentIndex := 0\<rparr>"

definition cb_setSize :: "nat \<Rightarrow> cyclic_buffer \<Rightarrow> cyclic_buffer" where
  "cb_setSize sz b =
     (let b = cb_clear b in b\<lparr>cb_size := (if sz < length (elements b) then sz else length (elements b))\<rparr>)"

text \<open>The constructors; \<open>maxSize\<close> is the template argument.\<close>

definition cyclic_buffer_new :: "nat \<Rightarrow> nat \<Rightarrow> cyclic_buffer" where
  "cyclic_buffer_new maxSize sz =
     cb_setSize sz \<lparr>elements = replicate maxSize 0, currentIndex = 0, count = 0, cb_size = 0\<rparr>"

definition cb_add :: "int \<Rightarrow> cyclic_buffer \<Rightarrow> cyclic_buffer" where
  "cb_add v b =
     (let b = b\<lparr>elements := (elements b)[currentIndex b := v], currentIndex := currentIndex b + 1\<rparr>;
          b = (if currentIndex b = cb_size b then b\<lparr>currentIndex := 0\<rparr> else b)
      in b\<lparr>count := count b + 1\<rparr>)"

fun cb_contains_loop :: "int \<Rightarrow> int list \<Rightarrow> nat \<Rightarrow> nat \<Rightarrow> bool" where
  "cb_contains_loop v es i 0 = False"
| "cb_contains_loop v es i (Suc k) = (if es ! i = v then True else cb_contains_loop v es (i + 1) k)"

definition cb_contains :: "int \<Rightarrow> cyclic_buffer \<Rightarrow> bool" where
  "cb_contains v b = cb_contains_loop v (elements b) 0 (currentIndex b)"

text \<open>The loops \<open>while (index < 0) index += size\<close>, for a positive size.\<close>

function wrap_index :: "int \<Rightarrow> nat \<Rightarrow> nat" where
  "wrap_index index sz = (if index < 0 \<and> 0 < sz then wrap_index (index + int sz) sz else nat index)"
  by pat_completeness auto
termination by (relation "measure (\<lambda>(index, sz). nat (- index))") auto

declare wrap_index.simps [simp del]

definition clip_length :: "nat \<Rightarrow> cyclic_buffer \<Rightarrow> nat" where
  "clip_length len b = (if len > count b then count b else len)"

fun cb_fold :: "(int \<Rightarrow> int \<Rightarrow> int) \<Rightarrow> cyclic_buffer \<Rightarrow> nat \<Rightarrow> nat \<Rightarrow> int \<Rightarrow> int" where
  "cb_fold g b i 0 result = result"
| "cb_fold g b i (Suc k) result =
     cb_fold g b (i + 1) k (g (elements b ! wrap_index (int (currentIndex b) - int i - 1) (cb_size b)) result)"

definition cb_sum :: "nat \<Rightarrow> cyclic_buffer \<Rightarrow> int" where
  "cb_sum len b = cb_fold (\<lambda>e result. result + e) b 0 (clip_length len b) 0"

definition cb_maxValue :: "nat \<Rightarrow> cyclic_buffer \<Rightarrow> int" where
  "cb_maxValue len b = cb_fold (\<lambda>e result. if e > result then e else result) b 0 (clip_length len b) (- BUFFER_MAX_VALUE)"

definition cb_minValue :: "nat \<Rightarrow> cyclic_buffer \<Rightarrow> int" where
  "cb_minValue len b = cb_fold (\<lambda>e result. if e < result then e else result) b 0 (clip_length len b) BUFFER_MAX_VALUE"

function drop_index :: "int \<Rightarrow> nat \<Rightarrow> int" where
  "drop_index index sz = (if index \<ge> int sz \<and> 0 < sz then drop_index (index - int sz) sz else index)"
  by pat_completeness auto
termination by (relation "measure (\<lambda>(index, sz). nat index)") auto

declare drop_index.simps [simp del]

definition cb_get :: "int \<Rightarrow> cyclic_buffer \<Rightarrow> int" where
  "cb_get index b = elements b ! nat (drop_index (int (wrap_index index (cb_size b))) (cb_size b))"

subsection \<open>Stack and array list\<close>

record 'a FLStack =
  currentSize :: nat
  fl_values :: "'a list"

definition fl_new :: "nat \<Rightarrow> 'a \<Rightarrow> 'a FLStack" where
  "fl_new MAXSIZE zero = \<lparr>currentSize = 0, fl_values = replicate MAXSIZE zero\<rparr>"

definition fl_reset :: "'a FLStack \<Rightarrow> 'a FLStack" where
  "fl_reset s = s\<lparr>currentSize := 0\<rparr>"

definition fl_isEmpty :: "'a FLStack \<Rightarrow> bool" where
  "fl_isEmpty s = (currentSize s = 0)"

definition fl_push :: "'a \<Rightarrow> 'a FLStack \<Rightarrow> 'a FLStack \<times> string list" where
  "fl_push v s =
     (if currentSize s \<ge> length (fl_values s) then (s, [''FLstack overflow''])
      else (s\<lparr>fl_values := (fl_values s)[currentSize s := v], currentSize := currentSize s + 1\<rparr>, []))"

text \<open>Popping an empty stack goes on to read \<open>values[-1]\<close> after the error; the result is None.\<close>

definition fl_pop :: "'a FLStack \<Rightarrow> ('a \<times> 'a FLStack) option \<times> string list" where
  "fl_pop s =
     (if currentSize s = 0 then (None, [''FLStack is empty''])
      else (Some (fl_values s ! (currentSize s - 1), s\<lparr>currentSize := currentSize s - 1\<rparr>), []))"

fun fl_remove_loop :: "'a \<Rightarrow> nat \<Rightarrow> nat \<Rightarrow> 'a FLStack \<Rightarrow> bool \<times> 'a FLStack" where
  "fl_remove_loop v i 0 s = (False, s)"
| "fl_remove_loop v i (Suc k) s =
     (if fl_values s ! i = v
      then (True, s\<lparr>fl_values := (fl_values s)[0 := fl_values s ! (currentSize s - 1)], currentSize := currentSize s - 1\<rparr>)
      else fl_remove_loop v (i + 1) k s)"

definition fl_remove :: "'a \<Rightarrow> 'a FLStack \<Rightarrow> bool \<times> 'a FLStack" where
  "fl_remove v s = fl_remove_loop v 0 (currentSize s) s"

definition fl_get :: "int \<Rightarrow> 'a FLStack \<Rightarrow> 'a \<times> string list" where
  "fl_get index s =
     (if \<not> (index \<ge> 0 \<and> index < int (length (fl_values s))) then (fl_values s ! 0, [''FLget''])
      else (fl_values s ! nat index, []))"

record 'a ArrayList =
  al_size :: nat
  al_elements :: "'a list"

definition al_reset :: "'a ArrayList \<Rightarrow> 'a ArrayList" where
  "al_reset a = a\<lparr>al_size := 0\<rparr>"

text \<open>\<open>add\<close> returns the address of the new element: its index.\<close>

definition al_add :: "'a ArrayList \<Rightarrow> nat option \<times> 'a ArrayList \<times> string list" where
  "al_add a =
     (if \<not> al_size a < length (al_elements a) then (None, a, [''add() too many elements''])
      else (Some (al_size a), a\<lparr>al_size := al_size a + 1\<rparr>, []))"

definition al_removeAt :: "'a \<Rightarrow> int \<Rightarrow> 'a ArrayList \<Rightarrow> 'a ArrayList \<times> string list" where
  "al_removeAt zero index a =
     (if \<not> (index \<ge> 0 \<and> index < int (al_size a)) then (a, [''invalid index''])
      else
        let es = (al_elements a)[nat index := al_elements a ! (al_size a - 1)];
            es = es[al_size a - 1 := zero]
        in (a\<lparr>al_elements := es, al_size := al_size a - 1\<rparr>, []))"

subsection \<open>Listener array\<close>

record 'h listeners =
  currentListenersCount :: nat
  callbacks :: "'h list"

definition registerCallback :: "'h \<Rightarrow> 'h listeners \<Rightarrow> 'h listeners \<times> string list" where
  "registerCallback handler ls =
     (if \<not> currentListenersCount ls < length (callbacks ls) then (ls, [''Too many callbacks''])
      else (ls\<lparr>currentListenersCount := currentListenersCount ls + 1,
              callbacks := (callbacks ls)[currentListenersCount ls := handler]\<rparr>, []))"

definition clearCallbacks :: "'h listeners \<Rightarrow> 'h listeners" where
  "clearCallbacks ls = ls\<lparr>currentListenersCount := 0\<rparr>"

text \<open>Invoking the callbacks, in the order they were registered, on a state.\<close>

definition invokeCallbacks :: "('h \<Rightarrow> 's \<Rightarrow> 's) \<Rightarrow> 'h listeners \<Rightarrow> 's \<Rightarrow> 's" where
  "invokeCallbacks run ls s = fold run (take (currentListenersCount ls) (callbacks ls)) s"

subsection \<open>A window on the last values\<close>

text \<open>What a client of the cyclic buffer relies on: the values added since it was cleared, newest first.\<close>

locale sample_window =
  fixes window :: "'b \<Rightarrow> int list \<Rightarrow> bool"
    and clear :: "'b \<Rightarrow> 'b"
    and add :: "int \<Rightarrow> 'b \<Rightarrow> 'b"
    and total :: "nat \<Rightarrow> 'b \<Rightarrow> int"
    and capacity :: "'b \<Rightarrow> nat"
  assumes window_clear: "window b h \<Longrightarrow> window (clear b) []"
    and window_add: "window b h \<Longrightarrow> window (add v b) (v # h)"
    and capacity_keeps: "window b h \<Longrightarrow> capacity (add v b) = capacity b \<and> capacity (clear b) = capacity b"
    and window_total: "window b h \<Longrightarrow> k \<le> capacity b \<Longrightarrow> total k b = sum_list (take k h)"
begin

lemma window_adds: "window b h \<Longrightarrow> window (fold add vs b) (rev vs @ h)"
  by (induction vs arbitrary: b h) (simp_all add: window_add)

lemma capacity_adds: "window b h \<Longrightarrow> capacity (fold add vs b) = capacity b"
proof (induction vs arbitrary: b h)
  case (Cons v vs)
  from Cons.IH [OF window_add [OF Cons.prems]] capacity_keeps [OF Cons.prems] show ?case by simp
qed simp

text \<open>A counter of failures: how many of the last \<open>k\<close> checks failed.\<close>

lemma failures:
  assumes "window b h" "k \<le> capacity b"
  shows "total k (fold add (map of_bool fs) b) = int (length (filter id (take k (rev fs)))) + sum_list (take (k - length fs) h)"
proof -
  have "sum_list (map of_bool bs) = int (length (filter id bs))" for bs by (induction bs) auto
  moreover have "total k (fold add (map of_bool fs) b) = sum_list (take k (rev (map of_bool fs) @ h))"
    by (rule window_total) (use assms in \<open>simp_all add: window_adds capacity_adds\<close>)
  moreover have "take k (rev (map of_bool fs) @ h) = map of_bool (take k (rev fs)) @ take (k - length fs) h"
    by (simp add: rev_map take_map)
  ultimately show ?thesis by simp
qed

end

definition ring :: "cyclic_buffer \<Rightarrow> int list \<Rightarrow> bool" where
  "ring b h \<longleftrightarrow> 0 < cb_size b \<and> cb_size b \<le> length (elements b) \<and> count b = length h \<and>
     currentIndex b = length h mod cb_size b \<and>
     (\<forall>j < min (cb_size b) (length h). elements b ! ((length h - 1 - j) mod cb_size b) = h ! j)"

lemma wrap_index_once: "- int sz \<le> i \<Longrightarrow> i < int sz \<Longrightarrow> wrap_index i sz = nat (i mod int sz)"
proof (cases "i < 0")
  case True
  moreover assume "- int sz \<le> i" "i < int sz"
  ultimately have "0 < sz" "0 \<le> i + int sz" "i + int sz < int sz" by linarith+
  then have "i mod int sz = i + int sz" using mod_add_self2 [of i "int sz"] mod_pos_pos_trivial [of "i + int sz" "int sz"] by simp
  moreover have "wrap_index i sz = wrap_index (i + int sz) sz" using True \<open>0 < sz\<close> by (subst wrap_index.simps) simp
  moreover have "wrap_index (i + int sz) sz = nat (i + int sz)" using \<open>0 \<le> i + int sz\<close> by (subst wrap_index.simps) simp
  ultimately show ?thesis by simp
next
  case False
  moreover assume "- int sz \<le> i" "i < int sz"
  ultimately show ?thesis by (subst wrap_index.simps) simp
qed

text \<open>The slot of the value added \<open>j + 1\<close> additions ago.\<close>

lemma ring_slot:
  assumes "j < sz" "j < c"
  shows "wrap_index (int (c mod sz) - int j - 1) sz = (c - 1 - j) mod sz"
proof -
  have "wrap_index (int (c mod sz) - int j - 1) sz = nat ((int (c mod sz) - int j - 1) mod int sz)"
  proof (rule wrap_index_once)
    have "c mod sz < sz" using assms(1) by simp
    then show "int (c mod sz) - int j - 1 < int sz" by linarith
    show "- int sz \<le> int (c mod sz) - int j - 1" using assms(1) by linarith
  qed
  also have "(int (c mod sz) - int j - 1) mod int sz = int ((c - 1 - j) mod sz)"
  proof -
    have "int (c - 1 - j) = int c - (int j + 1)" using assms(2) by linarith
    then show ?thesis by (simp add: zmod_int diff_diff_eq mod_diff_left_eq)
  qed
  finally show ?thesis by simp
qed

lemma ring_add:
  assumes "ring b h"
  shows "ring (cb_add v b) (v # h)"
proof -
  let ?s = "cb_size b" and ?c = "length h"
  have r: "0 < ?s" "?s \<le> length (elements b)" "count b = ?c" "currentIndex b = ?c mod ?s"
    "\<And>j. j < ?s \<Longrightarrow> j < ?c \<Longrightarrow> elements b ! ((?c - 1 - j) mod ?s) = h ! j"
    using assms by (simp_all add: ring_def)
  have e: "elements (cb_add v b) = (elements b)[?c mod ?s := v]" "count (cb_add v b) = Suc ?c" "cb_size (cb_add v b) = ?s"
    by (simp_all add: cb_add_def Let_def r)
  have "Suc (?c mod ?s) = ?s \<longleftrightarrow> Suc ?c mod ?s = 0" using r(1) mod_Suc [of ?c ?s] by (auto simp: mod_less_divisor)
  then have i: "currentIndex (cb_add v b) = Suc ?c mod ?s"
    by (simp add: cb_add_def Let_def r(4) mod_Suc)
  have "(elements b)[?c mod ?s := v] ! ((?c - j) mod ?s) = (v # h) ! j" if j: "j < ?s" "j < Suc ?c" for j
  proof (cases j)
    case 0
    have "?c mod ?s < length (elements b)" using r(1,2) mod_less_divisor [of ?s ?c] by linarith
    with 0 show ?thesis by simp
  next
    case (Suc i)
    have "(?c - j) mod ?s \<noteq> ?c mod ?s"
    proof
      assume "(?c - j) mod ?s = ?c mod ?s"
      then have "?s dvd ?c - (?c - j)" by (metis diff_le_self mod_eq_dvd_iff_nat)
      then show False using j Suc by (auto dest: dvd_imp_le)
    qed
    moreover have "?c - j = ?c - 1 - i" using Suc by simp
    ultimately show ?thesis using r(5) [of i] j Suc by (simp add: nth_list_update_neq)
  qed
  then show ?thesis using r(1,2) by (simp add: ring_def e i)
qed

lemma ring_clear: "ring b h \<Longrightarrow> ring (cb_clear b) []"
  by (simp add: ring_def cb_clear_def)

lemma cb_fold_sum:
  assumes "ring b h" "i + k \<le> length h" "i + k \<le> cb_size b"
  shows "cb_fold (\<lambda>e result. result + e) b i k r = r + sum_list (take k (drop i h))"
  using assms(2,3)
proof (induction k arbitrary: i r)
  case (Suc k)
  have "elements b ! wrap_index (int (currentIndex b) - int i - 1) (cb_size b) = h ! i"
    using assms(1) Suc.prems ring_slot [of i "cb_size b" "length h"] by (simp add: ring_def)
  moreover have "take (Suc k) (drop i h) = h ! i # take k (drop (Suc i) h)"
    using Suc.prems by (simp add: Cons_nth_drop_Suc [symmetric])
  ultimately show ?case using Suc.IH [of "Suc i"] Suc.prems by simp
qed simp

lemma ring_sum:
  assumes "ring b h" "k \<le> cb_size b"
  shows "cb_sum k b = sum_list (take k h)"
proof -
  have "count b = length h" using assms(1) by (simp add: ring_def)
  then have l: "clip_length k b = min k (length h)" by (simp add: clip_length_def)
  have "cb_sum k b = sum_list (take (min k (length h)) h)"
    using cb_fold_sum [OF assms(1), of 0 "min k (length h)" 0] assms(2) by (simp add: cb_sum_def l)
  also have "take (min k (length h)) h = take k h" by (simp add: min_def)
  finally show ?thesis .
qed

lemma ring_new: "0 < sz \<Longrightarrow> sz \<le> maxSize \<Longrightarrow> ring (cyclic_buffer_new maxSize sz) []"
  by (auto simp: ring_def cyclic_buffer_new_def cb_setSize_def cb_clear_def)

lemma cb_size_keeps: "cb_size (cb_add v b) = cb_size b \<and> cb_size (cb_clear b) = cb_size b"
  by (simp add: cb_add_def cb_clear_def Let_def)

interpretation cyclic: sample_window ring cb_clear cb_add cb_sum cb_size
proof
  show "ring b h \<Longrightarrow> ring (cb_clear b) []" for b h by (rule ring_clear)
  show "ring b h \<Longrightarrow> ring (cb_add v b) (v # h)" for b h v by (rule ring_add)
  show "ring b h \<Longrightarrow> cb_size (cb_add v b) = cb_size b \<and> cb_size (cb_clear b) = cb_size b" for b h v by (rule cb_size_keeps)
  show "ring b h \<Longrightarrow> k \<le> cb_size b \<Longrightarrow> cb_sum k b = sum_list (take k h)" for b h k by (rule ring_sum)
qed

end
