(* ===== verification/Fsio_Core.thy ===== *)
theory Fsio_Core
  imports Efi_Lib Containers
begin

text \<open>
  The language of the flexible inputs and outputs, src/firmware/controllers/core/fsio_core.cpp: expressions in reverse Polish
  notation are parsed into linked elements of a fixed pool and evaluated on a stack of 32 numbers. A pointer to an element is
  its index in the pool. \<open>warning\<close> and \<open>firmwareError\<close> go to a log. What the evaluation reads of the engine is
  the environment \<open>fsio_env\<close>.
\<close>

datatype fsio_generated_e =
    FSIO_SETTING_FANONTEMPERATURE | FSIO_SETTING_FANOFFTEMPERATURE | FSIO_SETTING_BOOSTPID_OFFSET
  | FSIO_SETTING_BOOSTPID_MINVALUE | FSIO_SETTING_VVT_VVTPID_OFFSET | FSIO_SETTING_VVT_VVTPID_MINVALUE
  | FSIO_SETTING_ALTERNATORCONTROL_OFFSET | FSIO_SETTING_ALTERNATORCONTROL_MINVALUE | FSIO_SETTING_ETB_OFFSET
  | FSIO_SETTING_ETB_MINVALUE | FSIO_SETTING_IDLERPMPID_OFFSET | FSIO_SETTING_IDLERPMPID_MINVALUE
  | FSIO_SETTING_STARTUPFUELPUMPDURATION | FSIO_SETTING_FUELCLOSEDLOOPPID_OFFSET | FSIO_SETTING_FUELCLOSEDLOOPPID_MINVALUE
  | FSIO_SETTING_AUXPID1_OFFSET | FSIO_SETTING_AUXPID1_MINVALUE | FSIO_SETTING_AUXPID2_OFFSET | FSIO_SETTING_AUXPID2_MINVALUE
  | FSIO_SETTING_AUXPID3_OFFSET | FSIO_SETTING_AUXPID3_MINVALUE | FSIO_SETTING_AUXPID4_OFFSET | FSIO_SETTING_AUXPID4_MINVALUE
  | FSIO_SETTING_IDLETIMINGPID_OFFSET | FSIO_SETTING_IDLETIMINGPID_MINVALUE | FSIO_SETTING_IDLERPMPID2_OFFSET
  | FSIO_SETTING_IDLERPMPID2_MINVALUE

datatype le_action_e =
    LE_UNDEFINED | LE_NUMERIC_VALUE
  | LE_OPERATOR_LESS | LE_OPERATOR_MORE | LE_OPERATOR_LESS_OR_EQUAL | LE_OPERATOR_MORE_OR_EQUAL
  | LE_OPERATOR_AND | LE_OPERATOR_OR | LE_OPERATOR_NOT
  | LE_OPERATOR_ADDITION | LE_OPERATOR_SUBTRACTION | LE_OPERATOR_MULTIPLICATION | LE_OPERATOR_DIVISION
  | LE_METHOD_MAX | LE_METHOD_MIN | LE_METHOD_IF
  | LE_METHOD_RPM | LE_METHOD_COOLANT | LE_METHOD_FAN | LE_METHOD_TIME_SINCE_BOOT | LE_METHOD_TPS | LE_METHOD_MAF
  | LE_METHOD_INTAKE_AIR | LE_METHOD_VBATT | LE_METHOD_AC_TOGGLE | LE_METHOD_TIME_SINCE_AC_TOGGLE | LE_METHOD_KNOCK
  | LE_METHOD_FSIO_TABLE | LE_METHOD_SELF | LE_METHOD_MAP | LE_METHOD_FSIO_ANALOG_INPUT | LE_METHOD_INTAKE_VVT
  | LE_METHOD_EXHAUST_VVT | LE_METHOD_IS_COOLANT_BROKEN | LE_METHOD_CRANKING_RPM | LE_METHOD_STARTUP_FUEL_PUMP_DURATION
  | LE_METHOD_IN_SHUTDOWN | LE_METHOD_FSIO_DIGITAL_INPUT | LE_METHOD_FSIO_SETTING | LE_METHOD_PPS
  | LE_GENERATED fsio_generated_e

type_synonym LENameOrdinalPair = "le_action_e \<times> string"

record LEElement =
  le_action :: le_action_e
  fValue :: fval
  iValue :: int
  le_next :: "nat option"

definition LEElement_clear :: LEElement where
  "LEElement_clear = \<lparr>le_action = LE_UNDEFINED, fValue = FNaN, iValue = 0, le_next = None\<rparr>"

subsection \<open>The pool of elements\<close>

record LEElementPool =
  le_pool :: "LEElement list"
  le_index :: nat
  le_size :: nat
  pool_log :: "string list"

definition LEElementPool_new :: "LEElement list \<Rightarrow> LEElementPool" where
  "LEElementPool_new els = \<lparr>le_pool = els, le_index = 0, le_size = length els, pool_log = []\<rparr>"

definition LEElementPool_reset :: "LEElementPool \<Rightarrow> LEElementPool" where
  "LEElementPool_reset p = p\<lparr>le_index := 0\<rparr>"

definition LEElementPool_getSize :: "LEElementPool \<Rightarrow> nat" where
  "LEElementPool_getSize p = le_index p"

definition LEElementPool_next :: "LEElementPool \<Rightarrow> nat option \<times> LEElementPool" where
  "LEElementPool_next p =
     (if le_index p \<ge> le_size p then (None, p\<lparr>pool_log := pool_log p @ [''LE_ELEMENT_POOL_SIZE overflow'']\<rparr>)
      else (Some (le_index p), p\<lparr>le_pool := (le_pool p)[le_index p := LEElement_clear], le_index := le_index p + 1\<rparr>))"

subsection \<open>Parsing\<close>

definition isNumeric :: "string \<Rightarrow> bool" where
  "isNumeric line = (line \<noteq> [] \<and> CHR ''0'' \<le> hd line \<and> hd line \<le> CHR ''9'')"

definition skip_spaces :: "string \<Rightarrow> string" where
  "skip_spaces line = dropWhile (\<lambda>c. c = CHR '' '') line"

text \<open>The token and the rest of the line; an error is the second component.\<close>

definition getNextToken :: "string \<Rightarrow> nat \<Rightarrow> (string \<times> string) option \<times> string list" where
  "getNextToken line bufferSize =
     (let line = skip_spaces line
      in if line = [] then (None, [])
         else
           let tokenLen = (case indexOf line (CHR '' '') of None \<Rightarrow> length line | Some i \<Rightarrow> i)
           in if \<not> tokenLen < bufferSize then (None, [''token overflow''])
              else (Some (take tokenLen line, drop tokenLen line), []))"

fun parseAction :: "LENameOrdinalPair list \<Rightarrow> string \<Rightarrow> le_action_e" where
  "parseAction [] line = LE_UNDEFINED"
| "parseAction (pair # pairs) line =
     (if strEqualCaseInsensitive (snd pair) line then fst pair else parseAction pairs line)"

definition parsingBufferSize :: nat where "parsingBufferSize = 64"

lemma indexOf_loop_some:
  "indexOf_loop xs ch i = Some k \<Longrightarrow> i \<le> k \<and> k < i + length xs \<and> xs ! (k - i) = ch"
proof (induction xs arbitrary: i)
  case (Cons x xs)
  show ?case
  proof (cases "x = ch")
    case False
    then have "indexOf_loop xs ch (i + 1) = Some k" using Cons.prems by simp
    note ih = Cons.IH [OF this]
    then have "k - i = Suc (k - (i + 1))" by linarith
    then have "(x # xs) ! (k - i) = ch" using ih by (simp only: nth_Cons_Suc)
    moreover have "i \<le> k" "k < i + length (x # xs)" using ih by simp_all
    ultimately show ?thesis by blast
  qed (use Cons.prems in simp)
qed simp

lemma skip_spaces_hd: "skip_spaces line \<noteq> [] \<Longrightarrow> skip_spaces line ! 0 \<noteq> CHR '' ''"
  using hd_dropWhile [of "\<lambda>c. c = CHR '' ''" line] by (simp add: skip_spaces_def hd_conv_nth)

lemma length_skip_spaces: "length (skip_spaces line) \<le> length line"
  by (simp add: skip_spaces_def length_dropWhile_le)

lemma getNextToken_shorter:
  assumes "getNextToken line n = (Some (tok, rest), e)"
  shows "length rest < length line"
proof -
  define l where "l = skip_spaces line"
  define k where "k = (case indexOf l (CHR '' '') of None \<Rightarrow> length l | Some i \<Rightarrow> i)"
  have g: "getNextToken line n = (if l = [] then (None, []) else if \<not> k < n then (None, [''token overflow''])
      else (Some (take k l, drop k l), []))"
    by (simp only: getNextToken_def Let_def l_def k_def)
  then have l: "l \<noteq> []" using assms by (cases "l = []") simp_all
  have "0 < k"
  proof (cases "indexOf l (CHR '' '')")
    case (Some j)
    from indexOf_loop_some [OF this [unfolded indexOf_def]] skip_spaces_hd [of line] l have "j \<noteq> 0" by (intro notI) (simp add: l_def)
    with Some show ?thesis by (simp add: k_def)
  qed (use l in \<open>simp add: k_def\<close>)
  moreover have "rest = drop k l" using assms g l by (simp split: if_splits)
  ultimately have "length rest < length l" using l by simp
  then show ?thesis using length_skip_spaces [of line] by (simp add: l_def)
qed

text \<open>The new element becomes the first one or follows the last one.\<close>

definition link_element :: "nat option \<Rightarrow> nat option \<Rightarrow> nat \<Rightarrow> LEElementPool \<Rightarrow> nat option \<times> LEElementPool" where
  "link_element front back n p =
     (case front of
        None \<Rightarrow> (Some n, p)
      | Some f \<Rightarrow> (Some f, p\<lparr>le_pool := (le_pool p)[the back := (le_pool p ! the back)\<lparr>le_next := Some n\<rparr>]\<rparr>))"

text \<open>
  The loop of \<open>parseExpression\<close>. A line without further tokens, a token of 64 characters or more and a full pool
  end it with what has been parsed; an unknown token gives null, and the elements stay in the pool.
\<close>

function parse_loop ::
    "LENameOrdinalPair list \<Rightarrow> rounding \<Rightarrow> string \<Rightarrow> nat option \<Rightarrow> nat option \<Rightarrow> LEElementPool \<Rightarrow> nat option \<times> LEElementPool" where
  "parse_loop names fl line front back p =
     (case getNextToken line parsingBufferSize of
        (None, err) \<Rightarrow> (front, p\<lparr>pool_log := pool_log p @ err\<rparr>)
      | (Some (parsingBuffer, line), err) \<Rightarrow>
          (case LEElementPool_next p of
             (None, p) \<Rightarrow> (front, p)
           | (Some n, p) \<Rightarrow>
               if isNumeric parsingBuffer then
                 (case link_element front back n
                    (p\<lparr>le_pool := (le_pool p)[n := (le_pool p ! n)\<lparr>le_action := LE_NUMERIC_VALUE, fValue := atoff fl parsingBuffer\<rparr>]\<rparr>) of
                    (front, p) \<Rightarrow> parse_loop names fl line front (Some n) p)
               else
                 let action = parseAction names parsingBuffer
                 in if action = LE_UNDEFINED then (None, p\<lparr>pool_log := pool_log p @ [''unrecognized'']\<rparr>)
                    else
                      (case link_element front back n (p\<lparr>le_pool := (le_pool p)[n := (le_pool p ! n)\<lparr>le_action := action\<rparr>]\<rparr>) of
                         (front, p) \<Rightarrow> parse_loop names fl line front (Some n) p)))"
  by pat_completeness auto
termination
  by (relation "measure (\<lambda>(names, fl, line, front, back, p). length line)") (auto dest: getNextToken_shorter [OF sym])

definition parseExpression :: "LENameOrdinalPair list \<Rightarrow> rounding \<Rightarrow> string \<Rightarrow> LEElementPool \<Rightarrow> nat option \<times> LEElementPool" where
  "parseExpression names fl line p = parse_loop names fl line None None p"

subsection \<open>The calculator\<close>

definition MAX_STACK_DEPTH :: nat where "MAX_STACK_DEPTH = 32"
definition MAX_CALC_LOG :: nat where "MAX_CALC_LOG = 64"
definition MAX_TABLE_INDEX :: int where "MAX_TABLE_INDEX = 4"
definition FSIO_COMMAND_COUNT :: nat where "FSIO_COMMAND_COUNT = 16"

record LECalculator =
  calc_first :: "nat option"
  calc_stack :: "fval FLStack"
  calcLogAction :: "le_action_e list"
  calcLogValue :: "fval list"
  currentCalculationLogPosition :: nat
  calc_log :: "string list"

text \<open>
  What an expression reads: \<open>getEngineValue\<close> with its warnings, the user settings, the tables (index, x, y), the analog
  input, the knock counter, and whether the stack of the thread has more than 64 bytes left.
\<close>

record fsio_env =
  fsio_fl :: rounding
  engineValue :: "le_action_e \<Rightarrow> fval \<times> string list"
  fsio_setting :: "fval list"
  fsio_table :: "int \<Rightarrow> fval \<Rightarrow> fval \<Rightarrow> fval"
  fsioAdc_voltage :: fval
  env_knockCount :: int
  fsio_stack_ok :: bool

definition calc_report :: "string list \<Rightarrow> LECalculator \<Rightarrow> LECalculator" where
  "calc_report msgs c = c\<lparr>calc_log := calc_log c @ msgs\<rparr>"

definition LECalculator_reset :: "LECalculator \<Rightarrow> LECalculator" where
  "LECalculator_reset c =
     c\<lparr>calc_first := None, calc_stack := fl_reset (calc_stack c), currentCalculationLogPosition := 0,
       calcLogAction := replicate MAX_CALC_LOG LE_UNDEFINED\<rparr>"

text \<open>\<open>add\<close> appends an element; with a cyclic chain it does not return.\<close>

partial_function (option) last_element :: "LEElement list \<Rightarrow> nat \<Rightarrow> nat option" where
  "last_element els i = (case le_next (els ! i) of None \<Rightarrow> Some i | Some j \<Rightarrow> last_element els j)"

definition LECalculator_add :: "nat \<Rightarrow> LEElement list \<times> LECalculator \<Rightarrow> (LEElement list \<times> LECalculator) option" where
  "LECalculator_add element =
     (\<lambda>(els, c). case calc_first c of
        None \<Rightarrow> Some (els, c\<lparr>calc_first := Some element\<rparr>)
      | Some first \<Rightarrow>
          (case last_element els first of
             None \<Rightarrow> None
           | Some l \<Rightarrow> Some (els[l := (els ! l)\<lparr>le_next := Some element\<rparr>], c)))"

definition LECalculator_reset_element :: "nat \<Rightarrow> LECalculator \<Rightarrow> LECalculator" where
  "LECalculator_reset_element element c = (LECalculator_reset c)\<lparr>calc_first := Some element\<rparr>"

definition float2bool :: "fval \<Rightarrow> bool" where
  "float2bool v = (\<not> f_eq v (FNum False 0))"

definition calc_pop :: "LECalculator \<Rightarrow> fval \<times> LECalculator" where
  "calc_pop c =
     (if currentSize (calc_stack c) = 0 then (FNaN, calc_report [''empty stack''] c)
      else case fl_pop (calc_stack c) of
             (Some (v, st), err) \<Rightarrow> (v, calc_report err (c\<lparr>calc_stack := st\<rparr>))
           | (None, err) \<Rightarrow> (FNaN, calc_report err c))"

definition calc_push :: "le_action_e \<Rightarrow> fval \<Rightarrow> LECalculator \<Rightarrow> LECalculator" where
  "calc_push action value c =
     (case fl_push value (calc_stack c) of
        (st, err) \<Rightarrow>
          let c = calc_report err (c\<lparr>calc_stack := st\<rparr>);
              i = currentCalculationLogPosition c
          in if i < MAX_CALC_LOG
             then c\<lparr>calcLogAction := (calcLogAction c)[i := action], calcLogValue := (calcLogValue c)[i := value],
                    currentCalculationLogPosition := i + 1\<rparr>
             else c)"

text \<open>An operator with two operands, which are on the stack in reverse order.\<close>

definition binary :: "le_action_e \<Rightarrow> (fval \<Rightarrow> fval \<Rightarrow> fval) \<Rightarrow> LECalculator \<Rightarrow> LECalculator" where
  "binary action f c =
     (case calc_pop c of (v2, c) \<Rightarrow> (case calc_pop c of (v1, c) \<Rightarrow> calc_push action (f v1 v2) c))"

definition processElement :: "fsio_env \<Rightarrow> LEElement \<Rightarrow> LECalculator \<Rightarrow> bool \<times> LECalculator" where
  "processElement env element c =
     (let fl = fsio_fl env; action = le_action element
      in if \<not> fsio_stack_ok env then (False, calc_report [''FSIO logic''] c)
         else case action of
           LE_NUMERIC_VALUE \<Rightarrow> (False, calc_push action (fValue element) c)
         | LE_OPERATOR_AND \<Rightarrow> (False, binary action (\<lambda>v1 v2. f_bool (float2bool v1 \<and> float2bool v2)) c)
         | LE_OPERATOR_OR \<Rightarrow> (False, binary action (\<lambda>v1 v2. f_bool (float2bool v1 \<or> float2bool v2)) c)
         | LE_OPERATOR_LESS \<Rightarrow> (False, binary action (\<lambda>v1 v2. f_bool (f_less v1 v2)) c)
         | LE_OPERATOR_NOT \<Rightarrow> (case calc_pop c of (v, c) \<Rightarrow> (False, calc_push action (f_bool (\<not> float2bool v)) c))
         | LE_OPERATOR_MORE \<Rightarrow> (False, binary action (\<lambda>v1 v2. f_bool (f_less v2 v1)) c)
         | LE_OPERATOR_ADDITION \<Rightarrow> (False, binary action (f_add fl) c)
         | LE_OPERATOR_SUBTRACTION \<Rightarrow> (False, binary action (f_sub fl) c)
         | LE_OPERATOR_MULTIPLICATION \<Rightarrow> (False, binary action (f_mul fl) c)
         | LE_OPERATOR_DIVISION \<Rightarrow> (False, binary action (f_div fl) c)
         | LE_OPERATOR_LESS_OR_EQUAL \<Rightarrow> (False, binary action (\<lambda>v1 v2. f_bool (f_leq v1 v2)) c)
         | LE_OPERATOR_MORE_OR_EQUAL \<Rightarrow> (False, binary action (\<lambda>v1 v2. f_bool (f_leq v2 v1)) c)
         | LE_METHOD_IF \<Rightarrow>
             (case calc_pop c of (vFalse, c) \<Rightarrow> (case calc_pop c of (vTrue, c) \<Rightarrow> (case calc_pop c of (vCond, c) \<Rightarrow>
                (False, calc_push action (if float2bool vCond then vTrue else vFalse) c))))
         | LE_METHOD_MAX \<Rightarrow> (False, binary action maxF c)
         | LE_METHOD_MIN \<Rightarrow> (False, binary action minF c)
         | LE_METHOD_FSIO_SETTING \<Rightarrow>
             (case calc_pop c of (humanIndex, c) \<Rightarrow>
                let index = to_i32 (f_trunc humanIndex - 1)
                in (False, calc_push action
                      (if index \<ge> 0 \<and> index < int FSIO_COMMAND_COUNT then fsio_setting env ! nat index else FNaN) c))
         | LE_METHOD_FSIO_TABLE \<Rightarrow>
             (case calc_pop c of (i, c) \<Rightarrow> (case calc_pop c of (yValue, c) \<Rightarrow> (case calc_pop c of (xValue, c) \<Rightarrow>
                let index = f_trunc i
                in (False, calc_push action
                      (if index < 1 \<or> index > MAX_TABLE_INDEX then FNaN else fsio_table env index xValue yValue) c))))
         | LE_METHOD_FSIO_DIGITAL_INPUT \<Rightarrow> (False, calc_push action (fsioAdc_voltage env) c)
         | LE_METHOD_FSIO_ANALOG_INPUT \<Rightarrow> (False, calc_push action (fsioAdc_voltage env) c)
         | LE_METHOD_KNOCK \<Rightarrow> (False, calc_push action (f_int fl (env_knockCount env)) c)
         | LE_UNDEFINED \<Rightarrow> (True, calc_report [''FSIO undefined action''] c)
         | _ \<Rightarrow> (case engineValue env action of (v, err) \<Rightarrow> (False, calc_push action v (calc_report err c))))"

text \<open>
  The loop of \<open>getValue\<close>; the number counts down from the limit of 200 elements. Some value: the loop returned
  it early.
\<close>

fun calc_loop ::
    "fsio_env \<Rightarrow> LEElement list \<Rightarrow> fval \<Rightarrow> nat \<Rightarrow> nat option \<Rightarrow> LECalculator \<Rightarrow> fval option \<times> LECalculator" where
  "calc_loop env els selfValue n None c = (None, c)"
| "calc_loop env els selfValue 0 (Some i) c = (Some FNaN, calc_report [''FSIOcount''] c)"
| "calc_loop env els selfValue (Suc n) (Some i) c =
     (if le_action (els ! i) = LE_METHOD_SELF
      then calc_loop env els selfValue n (le_next (els ! i)) (calc_push (le_action (els ! i)) selfValue c)
      else case processElement env (els ! i) c of
             (isError, c) \<Rightarrow> if isError then (Some FNaN, c) else calc_loop env els selfValue n (le_next (els ! i)) c)"

definition FSIO_COUNT_LIMIT :: nat where "FSIO_COUNT_LIMIT = 200"

definition LECalculator_getValue :: "fsio_env \<Rightarrow> LEElement list \<Rightarrow> fval \<Rightarrow> LECalculator \<Rightarrow> fval \<times> LECalculator" where
  "LECalculator_getValue env els selfValue c =
     (if calc_first c = None then (FNaN, calc_report [''no FSIO code''] c)
      else
        case calc_loop env els selfValue FSIO_COUNT_LIMIT (calc_first c) (c\<lparr>calc_stack := fl_reset (calc_stack c)\<rparr>) of
          (Some v, c) \<Rightarrow> (v, c)
        | (None, c) \<Rightarrow>
            if currentSize (calc_stack c) \<noteq> 1 then (FNaN, calc_report [''unexpected FSIO stack size''] c)
            else calc_pop c)"

definition LECalculator_getValue2 :: "fsio_env \<Rightarrow> LEElement list \<Rightarrow> fval \<Rightarrow> nat \<Rightarrow> LECalculator \<Rightarrow> fval \<times> LECalculator" where
  "LECalculator_getValue2 env els selfValue fistElementInList c =
     LECalculator_getValue env els selfValue (LECalculator_reset_element fistElementInList c)"

end
