(* ===== verification/Fsio_Eval.thy ===== *)
theory Fsio_Eval
  imports Fsio_Core
begin

text \<open>
  What an expression means. The specification is the expression tree: \<open>unparse\<close> writes it in reverse Polish notation and
  \<open>meaning\<close> is its value. The parser and the calculator of fsio_core.cpp together compute that value from that text.
\<close>

datatype fsio_expr = Node string "fsio_expr list"

fun arity :: "le_action_e \<Rightarrow> nat" where
  "arity LE_OPERATOR_LESS = 2" | "arity LE_OPERATOR_MORE = 2" | "arity LE_OPERATOR_LESS_OR_EQUAL = 2"
| "arity LE_OPERATOR_MORE_OR_EQUAL = 2" | "arity LE_OPERATOR_AND = 2" | "arity LE_OPERATOR_OR = 2" | "arity LE_OPERATOR_NOT = 1"
| "arity LE_OPERATOR_ADDITION = 2" | "arity LE_OPERATOR_SUBTRACTION = 2" | "arity LE_OPERATOR_MULTIPLICATION = 2"
| "arity LE_OPERATOR_DIVISION = 2" | "arity LE_METHOD_MAX = 2" | "arity LE_METHOD_MIN = 2" | "arity LE_METHOD_IF = 3"
| "arity LE_METHOD_FSIO_SETTING = 1" | "arity LE_METHOD_FSIO_TABLE = 3"
| "arity _ = 0"

text \<open>The value of an operation from the values of its operands, in the order they are written.\<close>

definition setting_value :: "fsio_env \<Rightarrow> fval \<Rightarrow> fval" where
  "setting_value env x =
     (let i = to_i32 (f_trunc x - 1) in if 0 \<le> i \<and> i < int FSIO_COMMAND_COUNT then fsio_setting env ! nat i else FNaN)"

definition table_value :: "fsio_env \<Rightarrow> fval \<Rightarrow> fval \<Rightarrow> fval \<Rightarrow> fval" where
  "table_value env x y i =
     (if f_trunc i < 1 \<or> f_trunc i > MAX_TABLE_INDEX then FNaN else fsio_table env (f_trunc i) x y)"

definition apply_action :: "fsio_env \<Rightarrow> fval \<Rightarrow> le_action_e \<Rightarrow> fval list \<Rightarrow> fval" where
  "apply_action env self act args =
     (let x = args ! 0; y = args ! 1; z = args ! 2; fl = fsio_fl env
      in case act of
           LE_OPERATOR_LESS \<Rightarrow> f_bool (f_less x y)
         | LE_OPERATOR_MORE \<Rightarrow> f_bool (f_less y x)
         | LE_OPERATOR_LESS_OR_EQUAL \<Rightarrow> f_bool (f_leq x y)
         | LE_OPERATOR_MORE_OR_EQUAL \<Rightarrow> f_bool (f_leq y x)
         | LE_OPERATOR_AND \<Rightarrow> f_bool (float2bool x \<and> float2bool y)
         | LE_OPERATOR_OR \<Rightarrow> f_bool (float2bool x \<or> float2bool y)
         | LE_OPERATOR_NOT \<Rightarrow> f_bool (\<not> float2bool x)
         | LE_OPERATOR_ADDITION \<Rightarrow> f_add fl x y
         | LE_OPERATOR_SUBTRACTION \<Rightarrow> f_sub fl x y
         | LE_OPERATOR_MULTIPLICATION \<Rightarrow> f_mul fl x y
         | LE_OPERATOR_DIVISION \<Rightarrow> f_div fl x y
         | LE_METHOD_MAX \<Rightarrow> maxF x y
         | LE_METHOD_MIN \<Rightarrow> minF x y
         | LE_METHOD_IF \<Rightarrow> (if float2bool x then y else z)
         | LE_METHOD_FSIO_SETTING \<Rightarrow> setting_value env x
         | LE_METHOD_FSIO_TABLE \<Rightarrow> table_value env x y z
         | LE_METHOD_SELF \<Rightarrow> self
         | LE_METHOD_FSIO_ANALOG_INPUT \<Rightarrow> fsioAdc_voltage env
         | LE_METHOD_FSIO_DIGITAL_INPUT \<Rightarrow> fsioAdc_voltage env
         | LE_METHOD_KNOCK \<Rightarrow> f_int fl (env_knockCount env)
         | _ \<Rightarrow> fst (engineValue env act))"

fun meaning :: "LENameOrdinalPair list \<Rightarrow> fsio_env \<Rightarrow> fval \<Rightarrow> fsio_expr \<Rightarrow> fval" where
  "meaning names env self (Node tok args) =
     (if isNumeric tok then atoff (fsio_fl env) tok
      else apply_action env self (parseAction names tok) (map (meaning names env self) args))"

text \<open>The tokens in the order of the notation, and the text.\<close>

fun tokens :: "fsio_expr \<Rightarrow> string list" where
  "tokens (Node tok args) = concat (map tokens args) @ [tok]"

definition tail_text :: "string list \<Rightarrow> string" where
  "tail_text ts = concat (map (\<lambda>t. CHR '' '' # t) ts)"

definition unparse :: "fsio_expr \<Rightarrow> string" where
  "unparse e = tl (tail_text (tokens e))"

text \<open>The places on the stack an expression needs.\<close>

fun depth :: "fsio_expr \<Rightarrow> nat" and depths :: "nat \<Rightarrow> fsio_expr list \<Rightarrow> nat" where
  "depth (Node tok args) = max 1 (depths 0 args)"
| "depths i [] = 0"
| "depths i (a # as) = max (i + depth a) (depths (Suc i) as)"

text \<open>Expressions the language has: every token is a number or a known name, with as many operands as it takes.\<close>

definition token_ok :: "LENameOrdinalPair list \<Rightarrow> string \<Rightarrow> bool" where
  "token_ok names t \<longleftrightarrow> t \<noteq> [] \<and> CHR '' '' \<notin> set t \<and> length t < parsingBufferSize \<and>
     (isNumeric t \<or> parseAction names t \<notin> {LE_UNDEFINED, LE_NUMERIC_VALUE})"

definition token_arity :: "LENameOrdinalPair list \<Rightarrow> string \<Rightarrow> nat" where
  "token_arity names t = (if isNumeric t then 0 else arity (parseAction names t))"

fun well_formed_expr :: "LENameOrdinalPair list \<Rightarrow> fsio_expr \<Rightarrow> bool" where
  "well_formed_expr names (Node tok args) =
     (token_ok names tok \<and> length args = token_arity names tok \<and> list_all (well_formed_expr names) args)"

subsection \<open>Tokens\<close>

lemma isNumeric_Cons: "isNumeric (c # cs) = (CHR ''0'' \<le> c \<and> c \<le> CHR ''9'')"
  by (simp add: isNumeric_def)

lemma indexOf_token: "CHR '' '' \<notin> set t \<Longrightarrow>
  (case indexOf (t @ tail_text ts) (CHR '' '') of None \<Rightarrow> length (t @ tail_text ts) | Some i \<Rightarrow> i) = length t"
proof (cases ts)
  case (Cons u us)
  assume "CHR '' '' \<notin> set t"
  with Cons show ?thesis using indexOf_first [of "CHR '' ''" t "u @ tail_text us" 0] by (simp add: indexOf_def tail_text_def)
qed (simp add: indexOf_def indexOf_none tail_text_def)

lemma skip_spaces_token:
  assumes "t \<noteq> []" "CHR '' '' \<notin> set t"
  shows "skip_spaces (t @ xs) = t @ xs" "skip_spaces (CHR '' '' # t @ xs) = t @ xs"
proof -
  obtain c cs where t: "t = c # cs" using assms(1) by (cases t) blast+
  have "CHR '' '' \<noteq> c" using assms(2) unfolding t by (metis list.set_intros(1))
  then have c: "(c = CHR '' '') = False" by (simp only: eq_commute [of c] simp_thms)
  show "skip_spaces (t @ xs) = t @ xs" "skip_spaces (CHR '' '' # t @ xs) = t @ xs"
    by (simp_all only: skip_spaces_def t append_Cons dropWhile.simps c if_False if_True refl)
qed

lemma getNextToken_token:
  assumes "token_ok names t"
  shows "getNextToken (t @ tail_text ts) parsingBufferSize = (Some (t, tail_text ts), [])"
    "getNextToken (tail_text (t # ts)) parsingBufferSize = (Some (t, tail_text ts), [])"
proof -
  have t: "t \<noteq> []" "CHR '' '' \<notin> set t" "length t < parsingBufferSize" using assms by (simp_all add: token_ok_def)
  have l: "tail_text (t # ts) = CHR '' '' # t @ tail_text ts" by (simp add: tail_text_def)
  note n = indexOf_token [OF t(2), of ts]
  show "getNextToken (t @ tail_text ts) parsingBufferSize = (Some (t, tail_text ts), [])"
    unfolding getNextToken_def skip_spaces_token(1) [OF t(1,2)] Let_def n using t by simp
  show "getNextToken (tail_text (t # ts)) parsingBufferSize = (Some (t, tail_text ts), [])"
    unfolding l getNextToken_def skip_spaces_token(2) [OF t(1,2)] Let_def n using t by simp
qed

lemma getNextToken_end: "getNextToken (tail_text []) parsingBufferSize = (None, [])"
  by (simp add: getNextToken_def tail_text_def skip_spaces_def)

subsection \<open>The chain of elements\<close>

definition element_of :: "LENameOrdinalPair list \<Rightarrow> rounding \<Rightarrow> string \<Rightarrow> LEElement" where
  "element_of names fl t =
     (if isNumeric t then LEElement_clear\<lparr>le_action := LE_NUMERIC_VALUE, fValue := atoff fl t\<rparr>
      else LEElement_clear\<lparr>le_action := parseAction names t\<rparr>)"

text \<open>The elements of the tokens, one after the other from \<open>f\<close> on.\<close>

definition chained :: "LEElement list \<Rightarrow> nat \<Rightarrow> LEElement list \<Rightarrow> bool" where
  "chained pool f es \<longleftrightarrow> f + length es \<le> length pool \<and>
     (\<forall>i < length es. pool ! (f + i) = (es ! i)\<lparr>le_next := (if Suc i < length es then Some (f + Suc i) else None)\<rparr>)"

lemma chained_snoc:
  assumes "chained pool f es" "es \<noteq> []" "f + length es < length pool" "le_next e = None"
  shows "chained (pool[f + length es := e, f + length es - 1 := (pool ! (f + length es - 1))\<lparr>le_next := Some (f + length es)\<rparr>])
     f (es @ [e])"
  unfolding chained_def
proof (intro conjI allI impI)
  fix i assume i: "i < length (es @ [e])"
  define n where "n = length es"
  have n: "0 < n" using assms(2) by (simp add: n_def)
  consider "i = n" | "Suc i = n" | "Suc i < n" using i by (fastforce simp: n_def)
  then show "pool[f + length es := e, f + length es - 1 := (pool ! (f + length es - 1))\<lparr>le_next := Some (f + length es)\<rparr>] ! (f + i) =
      ((es @ [e]) ! i)\<lparr>le_next := (if Suc i < length (es @ [e]) then Some (f + Suc i) else None)\<rparr>"
  proof cases
    case 1
    have "e\<lparr>le_next := None\<rparr> = e" using assms(4) by (cases e) simp
    moreover have "f + length es \<noteq> f + length es - 1" using n unfolding n_def by linarith
    ultimately show ?thesis using 1 assms(3) by (simp add: n_def)
  next
    case 2
    then have "pool ! (f + i) = (es ! i)\<lparr>le_next := None\<rparr>" using assms(1) by (simp add: chained_def n_def)
    moreover have "f + length es - 1 = f + i" using 2 by (simp add: n_def)
    ultimately show ?thesis using 2 assms(3) by (simp add: n_def nth_append)
  next
    case 3
    then have "pool ! (f + i) = (es ! i)\<lparr>le_next := Some (f + Suc i)\<rparr>" using assms(1) by (simp add: chained_def n_def)
    moreover have "f + i \<noteq> f + length es - 1" "f + i \<noteq> f + length es" using 3 by (simp_all add: n_def)
    ultimately show ?thesis using 3 by (simp add: n_def nth_append)
  qed
qed (use assms in \<open>simp add: chained_def\<close>)

lemma element_next [simp]: "le_next (element_of names fl t) = None"
  by (simp add: element_of_def LEElement_clear_def)

declare parse_loop.simps [simp del]

lemma parse_step:
  assumes "getNextToken line parsingBufferSize = (Some (t, rest), [])" "token_ok names t" "le_index p < le_size p"
  shows "front = None \<Longrightarrow> le_index p < length (le_pool p) \<Longrightarrow> parse_loop names fl line front back p =
      parse_loop names fl rest (Some (le_index p)) (Some (le_index p))
        (p\<lparr>le_index := le_index p + 1, le_pool := (le_pool p)[le_index p := element_of names fl t]\<rparr>)"
    "front = Some f \<Longrightarrow> back = Some b \<Longrightarrow> b \<noteq> le_index p \<Longrightarrow> le_index p < length (le_pool p) \<Longrightarrow> parse_loop names fl line front back p =
      parse_loop names fl rest (Some f) (Some (le_index p))
        (p\<lparr>le_index := le_index p + 1,
           le_pool := (le_pool p)[le_index p := element_of names fl t, b := (le_pool p ! b)\<lparr>le_next := Some (le_index p)\<rparr>]\<rparr>)"
proof -
  have k: "\<not> isNumeric t \<Longrightarrow> parseAction names t \<noteq> LE_UNDEFINED" using assms(2) by (simp add: token_ok_def)
  have n: "LEElementPool_next p = (Some (le_index p), p\<lparr>le_pool := (le_pool p)[le_index p := LEElement_clear], le_index := le_index p + 1\<rparr>)"
    using assms(3) by (simp add: LEElementPool_next_def)
  show "front = None \<Longrightarrow> le_index p < length (le_pool p) \<Longrightarrow> parse_loop names fl line front back p =
      parse_loop names fl rest (Some (le_index p)) (Some (le_index p))
        (p\<lparr>le_index := le_index p + 1, le_pool := (le_pool p)[le_index p := element_of names fl t]\<rparr>)"
    by (subst parse_loop.simps) (simp add: assms(1) n k link_element_def element_of_def Let_def)
  show "front = Some f \<Longrightarrow> back = Some b \<Longrightarrow> b \<noteq> le_index p \<Longrightarrow> le_index p < length (le_pool p) \<Longrightarrow> parse_loop names fl line front back p =
      parse_loop names fl rest (Some f) (Some (le_index p))
        (p\<lparr>le_index := le_index p + 1,
           le_pool := (le_pool p)[le_index p := element_of names fl t, b := (le_pool p ! b)\<lparr>le_next := Some (le_index p)\<rparr>]\<rparr>)"
    by (subst parse_loop.simps) (simp add: assms(1) n k link_element_def element_of_def Let_def)
qed

text \<open>Parsing leaves the elements in front of the expression alone.\<close>

definition same_below :: "nat \<Rightarrow> LEElementPool \<Rightarrow> LEElementPool \<Rightarrow> bool" where
  "same_below f p p' \<longleftrightarrow> le_size p' = le_size p \<and> length (le_pool p') = length (le_pool p) \<and>
     (\<forall>i < f. le_pool p' ! i = le_pool p ! i)"

lemma chained_frame:
  "chained pool f es \<Longrightarrow> length pool' = length pool \<Longrightarrow> f + length es \<le> n \<Longrightarrow> (\<And>i. i < n \<Longrightarrow> pool' ! i = pool ! i) \<Longrightarrow>
   chained pool' f es"
  by (simp add: chained_def)

lemma parse_chain:
  "list_all (token_ok names) ts \<Longrightarrow> chained (le_pool p) f es \<Longrightarrow> es \<noteq> [] \<Longrightarrow> le_index p = f + length es \<Longrightarrow>
   le_size p = length (le_pool p) \<Longrightarrow> le_index p + length ts \<le> le_size p \<Longrightarrow>
   \<exists>p'. parse_loop names fl (tail_text ts) (Some f) (Some (f + length es - 1)) p = (Some f, p') \<and>
     chained (le_pool p') f (es @ map (element_of names fl) ts) \<and> pool_log p' = pool_log p \<and>
     le_index p' = le_index p + length ts \<and> same_below f p p'"
proof (induction ts arbitrary: p es)
  case Nil
  then show ?case by (subst parse_loop.simps) (simp add: getNextToken_end same_below_def)
next
  case (Cons t ts)
  let ?n = "le_index p" and ?b = "f + length es - 1"
  define p1 where "p1 = p\<lparr>le_index := ?n + 1,
      le_pool := (le_pool p)[?n := element_of names fl t, ?b := (le_pool p ! ?b)\<lparr>le_next := Some ?n\<rparr>]\<rparr>"
  have t: "token_ok names t" "?n < le_size p" "?n < length (le_pool p)" using Cons.prems by simp_all
  have "0 < length es" using Cons.prems(3) by simp
  then have b: "?b \<noteq> ?n" using Cons.prems(4) by linarith
  have b2: "?n + 1 = f + length (es @ [element_of names fl t])" using Cons.prems(4) by simp
  have step: "parse_loop names fl (tail_text (t # ts)) (Some f) (Some ?b) p = parse_loop names fl (tail_text ts) (Some f) (Some ?n) p1"
    unfolding p1_def by (rule parse_step(2) [OF getNextToken_token(2) [OF t(1)] t(1,2) refl refl b t(3)])
  have "chained (le_pool p1) f (es @ [element_of names fl t])"
    using chained_snoc [OF Cons.prems(2,3), of "element_of names fl t"] t(3) Cons.prems(4) by (simp add: p1_def)
  moreover have "le_index p1 = f + length (es @ [element_of names fl t])" "le_size p1 = length (le_pool p1)"
    "le_index p1 + length ts \<le> le_size p1" "pool_log p1 = pool_log p"
    using b2 Cons.prems(5,6) by (simp_all add: p1_def)
  moreover have "list_all (token_ok names) ts" using Cons.prems(1) by simp
  moreover have below: "same_below f p p1"
  proof -
    have "?n \<noteq> i" "?b \<noteq> i" if "i < f" for i using that Cons.prems(4) \<open>0 < length es\<close> by linarith+
    then show ?thesis by (simp add: same_below_def p1_def nth_list_update_neq)
  qed
  ultimately obtain p' where
    "parse_loop names fl (tail_text ts) (Some f) (Some (f + length (es @ [element_of names fl t]) - 1)) p1 = (Some f, p')"
    "chained (le_pool p') f ((es @ [element_of names fl t]) @ map (element_of names fl) ts)" "pool_log p' = pool_log p"
    "le_index p' = le_index p1 + length ts" "same_below f p1 p'"
    using Cons.IH [of p1 "es @ [element_of names fl t]"] by auto
  then show ?case using step Cons.prems(4) below by (simp add: same_below_def p1_def)
qed

lemma parse_tokens:
  assumes "list_all (token_ok names) (t # ts)" "le_size p = length (le_pool p)" "le_index p + length (t # ts) \<le> le_size p"
  shows "\<exists>p'. parseExpression names fl (tl (tail_text (t # ts))) p = (Some (le_index p), p') \<and>
    chained (le_pool p') (le_index p) (map (element_of names fl) (t # ts)) \<and> pool_log p' = pool_log p \<and>
    le_index p' = le_index p + length (t # ts) \<and> same_below (le_index p) p p'"
proof -
  let ?n = "le_index p"
  define p1 where "p1 = p\<lparr>le_index := ?n + 1, le_pool := (le_pool p)[?n := element_of names fl t]\<rparr>"
  have t: "token_ok names t" "?n < le_size p" "?n < length (le_pool p)" using assms by simp_all
  have l: "tl (tail_text (t # ts)) = t @ tail_text ts" by (simp add: tail_text_def)
  have step: "parseExpression names fl (tl (tail_text (t # ts))) p = parse_loop names fl (tail_text ts) (Some ?n) (Some ?n) p1"
    unfolding parseExpression_def l p1_def by (rule parse_step(1) [OF getNextToken_token(1) [OF t(1)] t(1,2) refl t(3)])
  have "(element_of names fl t)\<lparr>le_next := None\<rparr> = element_of names fl t" by (simp add: element_of_def LEElement_clear_def)
  then have "chained (le_pool p1) ?n [element_of names fl t]" using t(3) by (simp add: chained_def p1_def)
  moreover have "same_below ?n p p1" by (simp add: same_below_def p1_def)
  ultimately show ?thesis
    using parse_chain [of names ts p1 ?n "[element_of names fl t]" fl] assms by (auto simp: step p1_def same_below_def)
qed

subsection \<open>Running the elements\<close>

definition calc_step :: "fsio_env \<Rightarrow> fval \<Rightarrow> LEElement \<Rightarrow> LECalculator \<Rightarrow> LECalculator" where
  "calc_step env self e c =
     (if le_action e = LE_METHOD_SELF then calc_push (le_action e) self c else snd (processElement env e c))"

definition run_elements :: "fsio_env \<Rightarrow> fval \<Rightarrow> LEElement list \<Rightarrow> LECalculator \<Rightarrow> LECalculator" where
  "run_elements env self es c = fold (calc_step env self) es c"

lemma processElement_next: "processElement env (e\<lparr>le_next := x\<rparr>) c = processElement env e c"
proof -
  have "le_action (e\<lparr>le_next := x\<rparr>) = le_action e" "fValue (e\<lparr>le_next := x\<rparr>) = fValue e" by simp_all
  then show ?thesis unfolding processElement_def by (simp only:)
qed

lemma processElement_no_error: "le_action e \<noteq> LE_UNDEFINED \<Longrightarrow> \<not> fst (processElement env e c)"
  by (cases "le_action e") (simp_all add: processElement_def Let_def split: prod.splits)

lemma calc_loop_run:
  assumes "chained pool f es" "list_all (\<lambda>e. le_action e \<noteq> LE_UNDEFINED) es"
  shows "length es - i \<le> n \<Longrightarrow> i \<le> length es \<Longrightarrow>
    calc_loop env pool self n (if i < length es then Some (f + i) else None) c = (None, run_elements env self (drop i es) c)"
proof (induction n arbitrary: i c)
  case 0
  then show ?case by (simp add: run_elements_def)
next
  case (Suc n)
  show ?case
  proof (cases "i < length es")
    case True
    let ?e = "pool ! (f + i)"
    have e: "?e = (es ! i)\<lparr>le_next := (if Suc i < length es then Some (f + Suc i) else None)\<rparr>"
      using assms(1) True by (simp add: chained_def)
    have a: "le_action ?e = le_action (es ! i)" "le_next ?e = (if Suc i < length es then Some (f + Suc i) else None)" by (simp_all add: e)
    have p: "processElement env ?e c = processElement env (es ! i) c" by (simp add: e processElement_next)
    have "le_action (es ! i) \<noteq> LE_UNDEFINED" using assms(2) True by (simp add: list_all_length)
    then have ok: "\<not> fst (processElement env (es ! i) c)" by (rule processElement_no_error)
    have d: "drop i es = es ! i # drop (Suc i) es" using True by (rule Cons_nth_drop_Suc [symmetric])
    have "calc_loop env pool self (Suc n) (Some (f + i)) c =
        calc_loop env pool self n (if Suc i < length es then Some (f + Suc i) else None) (calc_step env self (es ! i) c)"
      using ok by (simp only: calc_loop.simps a p calc_step_def split_beta if_False split: if_splits) simp
    moreover have "length es - Suc i \<le> n" "Suc i \<le> length es" using Suc.prems True by simp_all
    ultimately show ?thesis using Suc.IH True by (simp only: d run_elements_def fold.simps comp_apply if_True)
  qed (use Suc.prems in \<open>simp add: run_elements_def\<close>)
qed

text \<open>The stack of the calculator, top first.\<close>

definition on_stack :: "LECalculator \<Rightarrow> fval list \<Rightarrow> bool" where
  "on_stack c vs \<longleftrightarrow> length (fl_values (calc_stack c)) = MAX_STACK_DEPTH \<and> currentSize (calc_stack c) = length vs \<and>
     length vs \<le> MAX_STACK_DEPTH \<and> take (length vs) (fl_values (calc_stack c)) = rev vs"

lemma on_stack_report [simp]: "on_stack (calc_report msgs c) vs = on_stack c vs"
  by (simp add: on_stack_def calc_report_def)

lemma on_stack_push:
  assumes "on_stack c vs" "length vs < MAX_STACK_DEPTH"
  shows "on_stack (calc_push action v c) (v # vs)"
  using assms by (simp add: on_stack_def calc_push_def fl_push_def calc_report_def Let_def take_Suc_conv_app_nth)

lemma on_stack_pop:
  assumes "on_stack c (v # vs)"
  shows "fst (calc_pop c) = v" "on_stack (snd (calc_pop c)) vs"
proof -
  have s: "length (fl_values (calc_stack c)) = MAX_STACK_DEPTH" "currentSize (calc_stack c) = Suc (length vs)"
    "Suc (length vs) \<le> MAX_STACK_DEPTH" "take (Suc (length vs)) (fl_values (calc_stack c)) = rev vs @ [v]"
    using assms by (simp_all add: on_stack_def)
  have t: "take (length vs) (fl_values (calc_stack c)) @ [fl_values (calc_stack c) ! length vs] = rev vs @ [v]"
    using s by (simp flip: take_Suc_conv_app_nth)
  then have "fl_values (calc_stack c) ! length vs = v" "take (length vs) (fl_values (calc_stack c)) = rev vs" by simp_all
  with s show "fst (calc_pop c) = v" "on_stack (snd (calc_pop c)) vs"
    by (simp_all add: calc_pop_def fl_pop_def calc_report_def on_stack_def)
qed

lemma pop_cases:
  assumes "on_stack c (v # vs)"
  obtains c' where "calc_pop c = (v, c')" "on_stack c' vs"
  using on_stack_pop [OF assms] by (metis surjective_pairing)

lemma on_stack_binary:
  assumes "on_stack c (y # x # vs)"
  shows "on_stack (binary action f c) (f x y # vs)"
proof -
  obtain c1 where c1: "calc_pop c = (y, c1)" "on_stack c1 (x # vs)" using pop_cases [OF assms] .
  obtain c2 where c2: "calc_pop c1 = (x, c2)" "on_stack c2 vs" using pop_cases [OF c1(2)] .
  have "length vs < MAX_STACK_DEPTH" using assms by (simp add: on_stack_def)
  from on_stack_push [OF c2(2) this] show ?thesis by (simp add: binary_def c1 c2)
qed

text \<open>One element: its operands, the last one on top, are replaced by its value.\<close>

lemma calc_step_action:
  assumes c: "on_stack c (rev args @ vs)" and n: "length args = arity (le_action e)"
    and a: "le_action e \<notin> {LE_UNDEFINED, LE_NUMERIC_VALUE}" and ok: "fsio_stack_ok env"
    and room: "length vs < MAX_STACK_DEPTH"
  shows "on_stack (calc_step env self e c) (apply_action env self (le_action e) args # vs)"
proof -
  consider "arity (le_action e) = 0" | "arity (le_action e) = 1" | "arity (le_action e) = 2" | "arity (le_action e) = 3"
    by (cases "le_action e") simp_all
  then show ?thesis
  proof cases
    case 1
    then have args: "args = []" using n by simp
    then have s: "on_stack c vs" "on_stack (calc_report m c) vs" for m using c by simp_all
    from on_stack_push [OF s(1) room] on_stack_push [OF s(2) room] 1 a ok args show ?thesis
      by (cases "le_action e") (simp_all add: calc_step_def processElement_def apply_action_def Let_def split_beta)
  next
    case 2
    then obtain x where args: "args = [x]" using n by (cases args) auto
    then obtain c1 where c1: "calc_pop c = (x, c1)" "on_stack c1 vs" using c pop_cases [of c x vs] by auto
    from on_stack_push [OF this(2) room] 2 a ok args c1(1) show ?thesis
      by (cases "le_action e") (simp_all add: calc_step_def processElement_def apply_action_def setting_value_def Let_def)
  next
    case 3
    then obtain x y where args: "args = [x, y]" using n by (auto simp: length_Suc_conv numeral_2_eq_2)
    then have "on_stack c (y # x # vs)" using c by simp
    from on_stack_binary [OF this] 3 a ok args show ?thesis
      by (cases "le_action e") (simp_all add: calc_step_def processElement_def apply_action_def Let_def)
  next
    case 4
    then obtain x y z where args: "args = [x, y, z]" using n by (auto simp: length_Suc_conv numeral_3_eq_3)
    then have "on_stack c (z # y # x # vs)" using c by simp
    then obtain c1 where c1: "calc_pop c = (z, c1)" "on_stack c1 (y # x # vs)" by (rule pop_cases)
    obtain c2 where c2: "calc_pop c1 = (y, c2)" "on_stack c2 (x # vs)" using pop_cases [OF c1(2)] .
    obtain c3 where c3: "calc_pop c2 = (x, c3)" "on_stack c3 vs" using pop_cases [OF c2(2)] .
    from on_stack_push [OF c3(2) room] 4 a ok args c1(1) c2(1) c3(1) show ?thesis
      by (cases "le_action e") (simp_all add: calc_step_def processElement_def apply_action_def table_value_def Let_def)
  qed
qed

lemma run_append: "run_elements env self (xs @ ys) c = run_elements env self ys (run_elements env self xs c)"
  by (simp add: run_elements_def)

lemma run_tokens:
  "well_formed_expr names e \<Longrightarrow> depth e + length vs \<le> MAX_STACK_DEPTH \<Longrightarrow> fsio_stack_ok env \<Longrightarrow> on_stack c vs \<Longrightarrow>
     on_stack (run_elements env self (map (element_of names (fsio_fl env)) (tokens e)) c) (meaning names env self e # vs)"
  "list_all (well_formed_expr names) as \<Longrightarrow> depths i as + length vs \<le> MAX_STACK_DEPTH + i \<Longrightarrow> fsio_stack_ok env \<Longrightarrow> i \<le> length vs \<Longrightarrow>
     on_stack c vs \<Longrightarrow> length vs \<le> MAX_STACK_DEPTH + i \<Longrightarrow>
     on_stack (run_elements env self (map (element_of names (fsio_fl env)) (concat (map tokens as))) c)
       (rev (map (meaning names env self) as) @ vs)"
proof (induction e and i as arbitrary: c vs and c vs rule: depth_depths.induct)
  case (1 tok args)
  define c1 where "c1 = run_elements env self (map (element_of names (fsio_fl env)) (concat (map tokens args))) c"
  have wf: "token_ok names tok" "length args = token_arity names tok" "list_all (well_formed_expr names) args" using "1.prems"(1) by simp_all
  have room: "length vs < MAX_STACK_DEPTH" "depths 0 args + length vs \<le> MAX_STACK_DEPTH" using "1.prems"(2) by simp_all
  have c1: "on_stack c1 (rev (map (meaning names env self) args) @ vs)"
    unfolding c1_def by (rule "1.IH") (use wf(3) room "1.prems" in simp_all)
  have "run_elements env self (map (element_of names (fsio_fl env)) (tokens (Node tok args))) c =
      calc_step env self (element_of names (fsio_fl env) tok) c1"
    by (simp add: run_append c1_def) (simp add: run_elements_def)
  moreover have "on_stack (calc_step env self (element_of names (fsio_fl env) tok) c1) (meaning names env self (Node tok args) # vs)"
  proof (cases "isNumeric tok")
    case True
    then have "args = []" using wf(2) by (simp add: token_arity_def)
    then have "on_stack c1 vs" using c1 by simp
    from on_stack_push [OF this room(1)] True "1.prems"(3) show ?thesis
      by (simp add: calc_step_def element_of_def processElement_def Let_def)
  next
    case False
    let ?e = "element_of names (fsio_fl env) tok"
    have e: "le_action ?e = parseAction names tok" using False by (simp add: element_of_def)
    have "parseAction names tok \<notin> {LE_UNDEFINED, LE_NUMERIC_VALUE}" using wf(1) False by (simp add: token_ok_def)
    then have "on_stack (calc_step env self ?e c1) (apply_action env self (le_action ?e) (map (meaning names env self) args) # vs)"
      using calc_step_action [OF c1, of ?e env self] wf(2) False "1.prems"(3) room(1) by (simp add: e token_arity_def)
    then show ?thesis using False by (simp add: e)
  qed
  ultimately show ?case by simp
next
  case (3 i a as)
  define c1 where "c1 = run_elements env self (map (element_of names (fsio_fl env)) (tokens a)) c"
  have d: "depth a + length vs \<le> MAX_STACK_DEPTH" "depths (Suc i) as + length vs \<le> MAX_STACK_DEPTH + i"
    using "3.prems"(2) by (simp_all add: max_def split: if_splits)
  have c1: "on_stack c1 (meaning names env self a # vs)" unfolding c1_def by (rule "3.IH"(1)) (use "3.prems" d in simp_all)
  have "length (meaning names env self a # vs) \<le> MAX_STACK_DEPTH + Suc i" using "3.prems"(6) by simp
  then have "on_stack (run_elements env self (map (element_of names (fsio_fl env)) (concat (map tokens as))) c1)
      (rev (map (meaning names env self) as) @ (meaning names env self a # vs))"
    by (intro "3.IH"(2)) (use "3.prems" d c1 in simp_all)
  then show ?case by (simp add: run_append c1_def)
qed (simp_all add: run_elements_def)

lemma tokens_ok:
  "well_formed_expr names e \<Longrightarrow> list_all (token_ok names) (tokens e)"
  by (induction e rule: tokens.induct) (auto simp: list_all_iff)

lemma tokens_nonempty [simp]: "tokens e \<noteq> []"
  by (cases e) simp

lemma expression_chain:
  assumes "well_formed_expr names e" "le_size p = length (le_pool p)" "le_index p + length (tokens e) \<le> le_size p"
  shows "\<exists>p'. parseExpression names fl (unparse e) p = (Some (le_index p), p') \<and>
    chained (le_pool p') (le_index p) (map (element_of names fl) (tokens e)) \<and> pool_log p' = pool_log p \<and>
    le_index p' = le_index p + length (tokens e) \<and> same_below (le_index p) p p'"
proof -
  obtain t ts where ts: "tokens e = t # ts" by (cases "tokens e") simp_all
  show ?thesis using parse_tokens [of names t ts p fl] tokens_ok [OF assms(1)] assms(2,3) by (simp add: ts unparse_def)
qed

text \<open>The calculator on a chain of elements, from whatever a previous evaluation left in it.\<close>

lemma chain_value:
  assumes "well_formed_expr names e" "depth e \<le> MAX_STACK_DEPTH" "length (tokens e) \<le> FSIO_COUNT_LIMIT"
    and "chained els f (map (element_of names (fsio_fl env)) (tokens e))"
    and "length (fl_values (calc_stack c)) = MAX_STACK_DEPTH" "fsio_stack_ok env"
  shows "fst (LECalculator_getValue2 env els self f c) = meaning names env self e"
proof -
  let ?els = "map (element_of names (fsio_fl env)) (tokens e)"
  define c0 where "c0 = (let c = LECalculator_reset_element f c in c\<lparr>calc_stack := fl_reset (calc_stack c)\<rparr>)"
  define c1 where "c1 = run_elements env self ?els c0"
  have "list_all (\<lambda>e. le_action e \<noteq> LE_UNDEFINED) ?els"
    using tokens_ok [OF assms(1)] by (auto simp: list_all_iff element_of_def token_ok_def)
  moreover obtain t ts where ts: "tokens e = t # ts" by (cases "tokens e") simp_all
  ultimately have loop: "calc_loop env els self FSIO_COUNT_LIMIT (Some f) c0 = (None, c1)"
    using calc_loop_run [OF assms(4), of 0 FSIO_COUNT_LIMIT env self c0] assms(3) by (simp add: c1_def)
  have "on_stack c0 []"
    using assms(5) by (simp add: on_stack_def c0_def LECalculator_reset_element_def LECalculator_reset_def fl_reset_def Let_def)
  from run_tokens(1) [OF assms(1) _ assms(6) this, of self] assms(2)
  have s: "on_stack c1 [meaning names env self e]" by (simp add: c1_def)
  then have "fst (calc_pop c1) = meaning names env self e" "currentSize (calc_stack c1) = 1"
    using on_stack_pop(1) [OF s] s by (simp_all add: on_stack_def)
  then show ?thesis
    using loop by (simp add: LECalculator_getValue2_def LECalculator_getValue_def c0_def Let_def LECalculator_reset_element_def)
qed

text \<open>
  C4: the language computes what it says. For every well-formed expression that needs at most 32 places on the stack and has at most 200
  tokens, and every pool with room for it, the parser turns its text into a chain of elements without an error, and the
  calculator, from whatever a previous evaluation left in it, returns the value of the expression tree.
\<close>

theorem fsio_expression_value:
  assumes "well_formed_expr names e" "depth e \<le> MAX_STACK_DEPTH" "length (tokens e) \<le> FSIO_COUNT_LIMIT"
    and "le_size p = length (le_pool p)" "le_index p + length (tokens e) \<le> le_size p"
    and "length (fl_values (calc_stack c)) = MAX_STACK_DEPTH" "fsio_stack_ok env"
  shows "\<exists>f p'. parseExpression names (fsio_fl env) (unparse e) p = (Some f, p') \<and> pool_log p' = pool_log p \<and>
    fst (LECalculator_getValue2 env (le_pool p') self f c) = meaning names env self e"
  using expression_chain [OF assms(1,4,5)] chain_value [OF assms(1,2,3) _ assms(6,7)] by fastforce

end
