(* ===== verification/Output_Pins.thy ===== *)
theory Output_Pins
  imports Prelude
begin

text \<open>
  The outputs of the controller, src/firmware/controllers/system/efi_gpio.cpp, and the opening and closing of the injectors,
  controllers/engine_cycle/main_trigger_callback.cpp. An output lives on a pin of the microcontroller (port and pad) or on a
  pin of an external chip. The production build is modelled; what the code asks of the hardware goes to a log.
\<close>

datatype pin_output_mode_e = OM_DEFAULT | OM_INVERTED | OM_OPENDRAIN | OM_OPENDRAIN_INVERTED

datatype pin_io =
    WritePad nat nat int
  | GpiochipsWritePad nat int
  | SetPadMode nat bool
  | MarkUnused nat
  | OutputPinConflict

record OutputPin =
  op_port :: "nat option"
  op_pad :: nat
  op_brainPin :: nat
  op_ext :: bool
  currentLogicValue :: int
  op_mode :: pin_output_mode_e

definition INITIAL_PIN_STATE :: int where "INITIAL_PIN_STATE = -1"

definition to_i8 :: "int \<Rightarrow> int" where
  "to_i8 x = sint (word_of_int x :: u8)"

definition OutputPin_new :: OutputPin where
  "OutputPin_new =
     \<lparr>op_port = None, op_pad = 0, op_brainPin = 0, op_ext = False, currentLogicValue = INITIAL_PIN_STATE, op_mode = OM_DEFAULT\<rparr>"

definition getElectricalValue0 :: "pin_output_mode_e \<Rightarrow> int" where
  "getElectricalValue0 mode = of_bool (mode = OM_INVERTED \<or> mode = OM_OPENDRAIN_INVERTED)"

definition getElectricalValue1 :: "pin_output_mode_e \<Rightarrow> int" where
  "getElectricalValue1 mode = of_bool (mode = OM_DEFAULT \<or> mode = OM_OPENDRAIN)"

definition getElectricalValue :: "int \<Rightarrow> pin_output_mode_e \<Rightarrow> int" where
  "getElectricalValue logicalValue mode = (if logicalValue \<noteq> 0 then getElectricalValue1 mode else getElectricalValue0 mode)"

text \<open>The level is written only when the tracked value differs from the new one.\<close>

definition setPinValue :: "OutputPin \<Rightarrow> nat \<Rightarrow> int \<Rightarrow> int \<Rightarrow> OutputPin \<times> pin_io list" where
  "setPinValue p port electricalValue logicValue =
     (if currentLogicValue p \<noteq> logicValue
      then (p\<lparr>currentLogicValue := to_i8 logicValue\<rparr>, [WritePad port (op_pad p) electricalValue])
      else (p, []))"

definition isInitialized :: "OutputPin \<Rightarrow> bool" where
  "isInitialized p = (op_ext p \<or> op_port p \<noteq> None)"

definition setValue :: "int \<Rightarrow> OutputPin \<Rightarrow> OutputPin \<times> pin_io list" where
  "setValue logicValue p =
     (let eValue = getElectricalValue logicValue (op_mode p)
      in if \<not> op_ext p then
           (case op_port p of None \<Rightarrow> (p, []) | Some port \<Rightarrow> setPinValue p port eValue logicValue)
         else (p\<lparr>currentLogicValue := to_i8 logicValue\<rparr>, [GpiochipsWritePad (op_brainPin p) logicValue]))"

text \<open>The conversion to \<open>bool\<close> makes the initial state -1 true.\<close>

definition getLogicValue :: "OutputPin \<Rightarrow> bool" where
  "getLogicValue p = (currentLogicValue p \<noteq> 0)"

definition toggle :: "OutputPin \<Rightarrow> OutputPin \<times> pin_io list" where
  "toggle p = setValue (of_bool (\<not> getLogicValue p)) p"

definition getAndSet :: "int \<Rightarrow> OutputPin \<Rightarrow> bool \<times> OutputPin \<times> pin_io list" where
  "getAndSet logicValue p = (currentLogicValue p \<noteq> 0, setValue logicValue p)"

definition setDefaultPinState :: "pin_output_mode_e \<Rightarrow> OutputPin \<Rightarrow> OutputPin \<times> pin_io list" where
  "setDefaultPinState outputMode p = setValue 0 (p\<lparr>op_mode := outputMode\<rparr>)"

text \<open>
  \<open>onchip\<close> is the port and pad of the brain pin on the microcontroller: None for a pin of an external chip, \<open>(None, _)\<close> when
  the pin has no port. An output that is already on another pad stays there.
\<close>

definition initPin ::
    "nat \<Rightarrow> bool \<Rightarrow> (nat option \<times> nat) option \<Rightarrow> pin_output_mode_e \<Rightarrow> OutputPin \<Rightarrow> OutputPin \<times> pin_io list" where
  "initPin brainPin unassigned onchip outputMode p =
     (if unassigned then (p, [])
      else
        let pushpull = (outputMode = OM_DEFAULT \<or> outputMode = OM_INVERTED);
            p = p\<lparr>op_ext := False\<rparr>;
            start = (\<lambda>p. case setDefaultPinState outputMode (p\<lparr>currentLogicValue := INITIAL_PIN_STATE\<rparr>) of
                           (p, io) \<Rightarrow> (p, io @ [SetPadMode brainPin pushpull]))
        in case onchip of
             Some (None, _) \<Rightarrow> (p\<lparr>op_port := None\<rparr>, [])
           | Some (Some port, pad) \<Rightarrow>
               if op_port p \<noteq> None \<and> (op_port p \<noteq> Some port \<or> op_pad p \<noteq> pad) then (p, [OutputPinConflict])
               else start (p\<lparr>op_port := Some port, op_pad := pad\<rparr>)
           | None \<Rightarrow> start (p\<lparr>op_ext := True, op_brainPin := brainPin\<rparr>))"

definition unregisterOutput :: "nat \<Rightarrow> bool \<Rightarrow> OutputPin \<Rightarrow> OutputPin \<times> pin_io list" where
  "unregisterOutput oldPin unassigned p = (if unassigned then (p, []) else (p\<lparr>op_port := None\<rparr>, [MarkUnused oldPin]))"

definition NamedOutputPin_stop :: "OutputPin \<Rightarrow> bool \<times> OutputPin \<times> pin_io list" where
  "NamedOutputPin_stop p = (if isInitialized p \<and> getLogicValue p then (True, setValue 0 p) else (False, p, []))"

subsection \<open>Injectors\<close>

record InjectorOutputPin =
  inj_pin :: OutputPin
  overlappingCounter :: int

definition InjectorOutputPin_reset :: "InjectorOutputPin \<Rightarrow> InjectorOutputPin" where
  "InjectorOutputPin_reset o1 = o1\<lparr>overlappingCounter := 0, inj_pin := (inj_pin o1)\<lparr>currentLogicValue := INITIAL_PIN_STATE\<rparr>\<rparr>"

definition turnInjectionPinHigh :: "InjectorOutputPin \<Rightarrow> InjectorOutputPin \<times> pin_io list" where
  "turnInjectionPinHigh out =
     (let out = out\<lparr>overlappingCounter := to_i8 (overlappingCounter out + 1)\<rparr>
      in if overlappingCounter out > 1 then (out, [])
         else case setValue 1 (inj_pin out) of (p, io) \<Rightarrow> (out\<lparr>inj_pin := p\<rparr>, io))"

definition turnInjectionPinLow :: "InjectorOutputPin \<Rightarrow> InjectorOutputPin \<times> pin_io list" where
  "turnInjectionPinLow out =
     (let out = out\<lparr>overlappingCounter := to_i8 (overlappingCounter out - 1)\<rparr>
      in if overlappingCounter out > 0 then (out, [])
         else case setValue 0 (inj_pin out) of (p, io) \<Rightarrow> (out\<lparr>inj_pin := p\<rparr>, io))"

text \<open>An injection event drives one or two outputs; \<open>MAX_WIRES_COUNT\<close> is 2.\<close>

fun event_outputs ::
    "(InjectorOutputPin \<Rightarrow> InjectorOutputPin \<times> pin_io list) \<Rightarrow> nat option list \<Rightarrow> InjectorOutputPin list \<times> pin_io list \<Rightarrow>
     InjectorOutputPin list \<times> pin_io list" where
  "event_outputs turn [] s = s"
| "event_outputs turn (None # os) s = event_outputs turn os s"
| "event_outputs turn (Some i # os) (injectors, io) =
     (case turn (injectors ! i) of (out, io') \<Rightarrow> event_outputs turn os (injectors[i := out], io @ io'))"

definition startSimultaniousInjection :: "nat \<Rightarrow> InjectorOutputPin list \<times> pin_io list \<Rightarrow> InjectorOutputPin list \<times> pin_io list" where
  "startSimultaniousInjection cylindersCount s =
     fold (\<lambda>i (injectors, io). case setValue 1 (inj_pin (injectors ! i)) of
       (p, io') \<Rightarrow> (injectors[i := (injectors ! i)\<lparr>inj_pin := p\<rparr>], io @ io')) [0..<cylindersCount] s"

definition endSimultaniousInjectionOnlyTogglePins ::
    "nat \<Rightarrow> InjectorOutputPin list \<times> pin_io list \<Rightarrow> InjectorOutputPin list \<times> pin_io list" where
  "endSimultaniousInjectionOnlyTogglePins cylindersCount s =
     fold (\<lambda>i (injectors, io). case setValue 0 (inj_pin (injectors ! i)) of
       (p, io') \<Rightarrow> (injectors[i := (injectors ! i)\<lparr>inj_pin := p\<rparr>], io @ io')) [0..<cylindersCount] s"

definition turnAllPinsOff :: "OutputPin list \<times> OutputPin list \<Rightarrow> OutputPin list \<times> OutputPin list \<times> pin_io list" where
  "turnAllPinsOff =
     (\<lambda>(injectors, coils). (map (fst \<circ> setValue 0) injectors, map (fst \<circ> setValue 0) coils,
        concat (map (snd \<circ> setValue 0) injectors) @ concat (map (snd \<circ> setValue 0) coils)))"

subsection \<open>The injector is open while an injection is under way\<close>

text \<open>The level the last write of an on-chip pad left, given the level before.\<close>

fun pad_level :: "int \<Rightarrow> pin_io list \<Rightarrow> int" where
  "pad_level v [] = v"
| "pad_level v (WritePad port pad w # ios) = pad_level w ios"
| "pad_level v (_ # ios) = pad_level v ios"

datatype injection_edge = Open | Close

fun injection_edges :: "injection_edge list \<Rightarrow> InjectorOutputPin \<Rightarrow> InjectorOutputPin \<times> pin_io list" where
  "injection_edges [] out = (out, [])"
| "injection_edges (e # es) out =
     (case (case e of Open \<Rightarrow> turnInjectionPinHigh out | Close \<Rightarrow> turnInjectionPinLow out) of
        (out, io) \<Rightarrow> (case injection_edges es out of (out, io') \<Rightarrow> (out, io @ io')))"

text \<open>Never more closed than opened, and at most \<open>n\<close> open at a time.\<close>

fun balanced :: "nat \<Rightarrow> nat \<Rightarrow> injection_edge list \<Rightarrow> bool" where
  "balanced n k [] = True"
| "balanced n k (Open # es) = (k < n \<and> balanced n (k + 1) es)"
| "balanced n k (Close # es) = (0 < k \<and> balanced n (k - 1) es)"

fun still_open :: "nat \<Rightarrow> injection_edge list \<Rightarrow> nat" where
  "still_open k [] = k"
| "still_open k (Open # es) = still_open (k + 1) es"
| "still_open k (Close # es) = still_open (k - 1) es"

lemma to_i8_small [simp]: "- 128 \<le> x \<Longrightarrow> x < 128 \<Longrightarrow> to_i8 x = x"
  by (simp add: to_i8_def sint_sbintrunc' signed_take_bit_int_eq_self)

definition injector_inv :: "nat \<Rightarrow> int \<Rightarrow> InjectorOutputPin \<Rightarrow> bool" where
  "injector_inv k level out \<longleftrightarrow> overlappingCounter out = int k \<and> \<not> op_ext (inj_pin out) \<and> op_port (inj_pin out) \<noteq> None \<and>
     currentLogicValue (inj_pin out) = of_bool (0 < k) \<and> level = getElectricalValue (of_bool (0 < k)) (op_mode (inj_pin out))"

lemma pad_level_append: "pad_level v (xs @ ys) = pad_level (pad_level v xs) ys"
  by (induction v xs rule: pad_level.induct) simp_all

lemma injection_step:
  assumes inv: "injector_inv k level out" and k: "k < 127"
  shows "injector_inv (k + 1) (pad_level level (snd (turnInjectionPinHigh out))) (fst (turnInjectionPinHigh out)) \<and>
      op_mode (inj_pin (fst (turnInjectionPinHigh out))) = op_mode (inj_pin out)"
proof -
  obtain port where p: "op_port (inj_pin out) = Some port" using inv by (auto simp: injector_inv_def)
  have c: "to_i8 (overlappingCounter out + 1) = int k + 1" using inv k by (simp add: injector_inv_def)
  show ?thesis
    using inv k c p
    by (cases "k = 0") (simp_all add: injector_inv_def turnInjectionPinHigh_def setValue_def setPinValue_def Let_def)
qed

lemma injection_step_close:
  assumes inv: "injector_inv k level out" and k: "0 < k" "k \<le> 127"
  shows "injector_inv (k - 1) (pad_level level (snd (turnInjectionPinLow out))) (fst (turnInjectionPinLow out)) \<and>
      op_mode (inj_pin (fst (turnInjectionPinLow out))) = op_mode (inj_pin out)"
proof -
  obtain port where p: "op_port (inj_pin out) = Some port" using inv by (auto simp: injector_inv_def)
  have c: "to_i8 (overlappingCounter out - 1) = int (k - 1)" using inv k by (simp add: injector_inv_def of_nat_diff)
  show ?thesis
    using inv k c p
    by (cases "k = 1") (simp_all add: injector_inv_def turnInjectionPinLow_def setValue_def setPinValue_def Let_def)
qed

lemma injection_edges_inv:
  "injector_inv k level out \<Longrightarrow> balanced 127 k es \<Longrightarrow> k \<le> 127 \<Longrightarrow> injection_edges es out = (out', io) \<Longrightarrow>
   injector_inv (still_open k es) (pad_level level io) out' \<and> op_mode (inj_pin out') = op_mode (inj_pin out)"
proof (induction es arbitrary: k level out io)
  case (Cons e es)
  show ?case
  proof (cases e)
    case Open
    obtain o1 io1 where h: "turnInjectionPinHigh out = (o1, io1)" by fastforce
    obtain io2 where r: "injection_edges es o1 = (out', io2)" "io = io1 @ io2" using Cons.prems(4) h Open by (auto split: prod.splits)
    have "injector_inv (k + 1) (pad_level level io1) o1" "op_mode (inj_pin o1) = op_mode (inj_pin out)"
      using injection_step [OF Cons.prems(1)] Cons.prems(2) Open h by simp_all
    from Cons.IH [OF this(1) _ _ r(1)] this(2) Cons.prems(2) Open r(2) show ?thesis by (simp add: pad_level_append)
  next
    case Close
    obtain o1 io1 where h: "turnInjectionPinLow out = (o1, io1)" by fastforce
    obtain io2 where r: "injection_edges es o1 = (out', io2)" "io = io1 @ io2" using Cons.prems(4) h Close by (auto split: prod.splits)
    have "injector_inv (k - 1) (pad_level level io1) o1" "op_mode (inj_pin o1) = op_mode (inj_pin out)"
      using injection_step_close [OF Cons.prems(1)] Cons.prems(2,3) Close h by simp_all
    from Cons.IH [OF this(1) _ _ r(1)] this(2) Cons.prems(2,3) Close r(2) show ?thesis by (simp add: pad_level_append)
  qed
qed simp

text \<open>
  C20: an injector is open exactly while an injection is under way. For every interleaving of overlapping injections on a pad, with
  up to 127 of them under way at a time, the level of the pad in the configured mode is the active one exactly when more
  injections have been started than ended.
\<close>

theorem injector_open_while_injecting:
  assumes "op_port (inj_pin out) = Some port" "\<not> op_ext (inj_pin out)" "currentLogicValue (inj_pin out) = 0" "overlappingCounter out = 0"
    and "balanced 127 0 es" "injection_edges es out = (out', io)"
  shows "pad_level (getElectricalValue 0 (op_mode (inj_pin out))) io =
      getElectricalValue (of_bool (0 < still_open 0 es)) (op_mode (inj_pin out)) \<and>
    getLogicValue (inj_pin out') = (0 < still_open 0 es)"
proof -
  have "injector_inv 0 (getElectricalValue 0 (op_mode (inj_pin out))) out" using assms by (simp add: injector_inv_def)
  from injection_edges_inv [OF this assms(5) _ assms(6)] show ?thesis
    by (auto simp: injector_inv_def getLogicValue_def)
qed

definition closed_injector :: InjectorOutputPin where
  "closed_injector = \<lparr>inj_pin = OutputPin_new\<lparr>op_port := Some 3, op_pad := 7, currentLogicValue := 0, op_mode := OM_INVERTED\<rparr>, overlappingCounter = 0\<rparr>"

theorem injector_open_while_injecting_witness:
  "pad_level 1 (snd (injection_edges [Open, Open, Close] closed_injector)) = 0 \<and>
   pad_level 1 (snd (injection_edges [Open, Open, Close, Close] closed_injector)) = 1"
  using injector_open_while_injecting [of closed_injector 3 "[Open, Open, Close]" "fst (injection_edges [Open, Open, Close] closed_injector)"
      "snd (injection_edges [Open, Open, Close] closed_injector)"]
    injector_open_while_injecting [of closed_injector 3 "[Open, Open, Close, Close]"
      "fst (injection_edges [Open, Open, Close, Close] closed_injector)" "snd (injection_edges [Open, Open, Close, Close] closed_injector)"]
  by (simp add: closed_injector_def OutputPin_new_def getElectricalValue_def getElectricalValue0_def getElectricalValue1_def del: injection_edges.simps)

text \<open>
  C40: swapped edges leave an injector open. When the end of an injection is executed before its start, as the comment of
  \<open>handleFuelInjectionEvent\<close> fears for very short ones, the injector stays open with no injection under way and the counter
  back at zero; and every later complete injection ends with the injector closed again.
\<close>

theorem swapped_injection_stays_open:
  assumes "op_port (inj_pin out) = Some port" "\<not> op_ext (inj_pin out)" "currentLogicValue (inj_pin out) = 0" "overlappingCounter out = 0"
    and "injection_edges [Close, Open] out = (out1, io1)" "injection_edges [Close, Open, Open, Close] out = (out2, io2)"
  shows "getLogicValue (inj_pin out1) \<and> overlappingCounter out1 = 0 \<and>
    pad_level (getElectricalValue 0 (op_mode (inj_pin out))) io1 = getElectricalValue 1 (op_mode (inj_pin out)) \<and>
    \<not> getLogicValue (inj_pin out2)"
  using assms
  by (auto simp: turnInjectionPinHigh_def turnInjectionPinLow_def setValue_def setPinValue_def getLogicValue_def Let_def)

theorem swapped_injection_stays_open_witness:
  "getLogicValue (inj_pin (fst (injection_edges [Close, Open] closed_injector))) \<and>
   \<not> getLogicValue (inj_pin (fst (injection_edges [Close, Open, Open, Close] closed_injector)))"
  using swapped_injection_stays_open [of closed_injector 3 "fst (injection_edges [Close, Open] closed_injector)"
      "snd (injection_edges [Close, Open] closed_injector)" "fst (injection_edges [Close, Open, Open, Close] closed_injector)"
      "snd (injection_edges [Close, Open, Open, Close] closed_injector)"]
  by (simp add: closed_injector_def OutputPin_new_def del: injection_edges.simps)

end
