(* ===== verification/Gpio_Core.thy ===== *)
theory Gpio_Core
  imports Prelude
begin

text \<open>
  The registry of external GPIO chips, src/firmware/hw_layer/drivers/gpio/core.c (with
  \<open>BOARD_EXT_GPIOCHIPS > 0\<close>, the length of \<open>chips\<close>).  A driver is a record of optional operations
  over a state \<open>'s\<close> of its own; a \<open>void *\<close> is an optional index.  Pins are the values of the
  packed, 8-bit \<open>brain_pin_e\<close>.
\<close>

type_synonym brain_pin = nat

definition BRAIN_PIN_LAST_ONCHIP :: brain_pin where
  "BRAIN_PIN_LAST_ONCHIP = 129"

definition EXT_GPIOS_FIRST :: brain_pin where
  "EXT_GPIOS_FIRST = BRAIN_PIN_LAST_ONCHIP + 1"

definition EFI_ERROR_CODE :: int where
  "EFI_ERROR_CODE = to_i32 0xffffffff"

type_synonym brain_pin_diag = u8

definition PIN_OK :: brain_pin_diag where "PIN_OK = 0"
definition PIN_OPEN :: brain_pin_diag where "PIN_OPEN = 0x01"
definition PIN_SHORT_TO_GND :: brain_pin_diag where "PIN_SHORT_TO_GND = 0x02"
definition PIN_SHORT_TO_BAT :: brain_pin_diag where "PIN_SHORT_TO_BAT = 0x04"
definition PIN_OVERLOAD :: brain_pin_diag where "PIN_OVERLOAD = 0x08"
definition PIN_DRIVER_OVERTEMP :: brain_pin_diag where "PIN_DRIVER_OVERTEMP = 0x10"
definition PIN_INVALID :: brain_pin_diag where "PIN_INVALID = 0x80"

lemmas pin_diag_defs = PIN_OK_def PIN_OPEN_def PIN_SHORT_TO_GND_def PIN_SHORT_TO_BAT_def
  PIN_OVERLOAD_def PIN_DRIVER_OVERTEMP_def PIN_INVALID_def

record 's gpiochip_ops =
  op_setPadMode :: "(nat option \<Rightarrow> nat \<Rightarrow> int \<Rightarrow> 's \<Rightarrow> int \<times> 's) option"
  op_writePad :: "(nat option \<Rightarrow> nat \<Rightarrow> int \<Rightarrow> 's \<Rightarrow> int \<times> 's) option"
  op_readPad :: "(nat option \<Rightarrow> nat \<Rightarrow> 's \<Rightarrow> int \<times> 's) option"
  op_getDiag :: "(nat option \<Rightarrow> nat \<Rightarrow> 's \<Rightarrow> brain_pin_diag) option"
  op_init :: "(nat option \<Rightarrow> 's \<Rightarrow> int \<times> 's) option"
  op_deinit :: "(nat option \<Rightarrow> 's \<Rightarrow> int \<times> 's) option"

record 's gpiochip =
  base :: brain_pin
  chip_size :: nat
  ops :: "'s gpiochip_ops option"
  chip_name :: string
  gpio_names :: "string option list option"
  priv :: "nat option"

record 's gpio_core =
  chips :: "'s gpiochip list"
  gpio_base_free :: brain_pin

definition no_chip :: "'s gpiochip" where
  "no_chip = \<lparr>base = 0, chip_size = 0, ops = None, chip_name = [], gpio_names = None, priv = None\<rparr>"

text \<open>The static state before any chip is registered, for \<open>n\<close> slots.\<close>

definition gpio_core_start :: "nat \<Rightarrow> 's gpio_core" where
  "gpio_core_start n = \<lparr>chips = replicate n no_chip, gpio_base_free = EXT_GPIOS_FIRST\<rparr>"

fun gpiochip_find_loop :: "'s gpiochip list \<Rightarrow> nat \<Rightarrow> brain_pin \<Rightarrow> nat option" where
  "gpiochip_find_loop [] i pin = None"
| "gpiochip_find_loop (chip # cs) i pin =
     (if base chip \<le> pin \<and> pin < base chip + chip_size chip then Some i
      else gpiochip_find_loop cs (Suc i) pin)"

definition gpiochip_find :: "'s gpio_core \<Rightarrow> brain_pin \<Rightarrow> nat option" where
  "gpiochip_find gc pin = gpiochip_find_loop (chips gc) 0 pin"

definition gpiochips_getPinOffset :: "'s gpio_core \<Rightarrow> brain_pin \<Rightarrow> int" where
  "gpiochips_getPinOffset gc pin =
     (case gpiochip_find gc pin of
        Some i \<Rightarrow> int pin - int (base (chips gc ! i))
      | None \<Rightarrow> EFI_ERROR_CODE)"

definition gpiochips_getChipName :: "'s gpio_core \<Rightarrow> brain_pin \<Rightarrow> string option" where
  "gpiochips_getChipName gc pin = map_option (\<lambda>i. chip_name (chips gc ! i)) (gpiochip_find gc pin)"

definition gpiochips_getPinName :: "'s gpio_core \<Rightarrow> brain_pin \<Rightarrow> string option" where
  "gpiochips_getPinName gc pin =
     (case gpiochip_find gc pin of
        None \<Rightarrow> None
      | Some i \<Rightarrow>
          let chip = chips gc ! i; off = pin - base chip
          in case gpio_names chip of None \<Rightarrow> None | Some names \<Rightarrow> names ! off)"

text \<open>\<open>gpio_base_free\<close> is a packed enum of one byte.\<close>

definition gpiochip_use_gpio_base :: "nat \<Rightarrow> 's gpio_core \<Rightarrow> 's gpio_core" where
  "gpiochip_use_gpio_base sz gc = gc\<lparr>gpio_base_free := (gpio_base_free gc + sz) mod 256\<rparr>"

fun free_slot :: "'s gpiochip list \<Rightarrow> nat \<Rightarrow> nat option" where
  "free_slot [] i = None"
| "free_slot (chip # cs) i = (if base chip = 0 then Some i else free_slot cs (Suc i))"

definition gpiochip_register ::
    "string \<Rightarrow> 's gpiochip_ops option \<Rightarrow> nat \<Rightarrow> nat option \<Rightarrow> 's gpio_core \<Rightarrow> int \<times> 's gpio_core" where
  "gpiochip_register nm opsp sz pr gc =
     (case opsp of
        None \<Rightarrow> (-1, gc)
      | Some op \<Rightarrow>
          if sz = 0 then (-1, gc)
          else if op_writePad op = None \<and> op_readPad op = None then (-1, gc)
          else
            (case free_slot (chips gc) 0 of
               None \<Rightarrow> (-1, gc)
             | Some i \<Rightarrow>
                 let chip = (chips gc ! i)\<lparr>chip_name := nm, ops := Some op, base := gpio_base_free gc,
                                chip_size := sz, priv := pr\<rparr>;
                     gc = gpiochip_use_gpio_base sz (gc\<lparr>chips := (chips gc)[i := chip]\<rparr>)
                 in (int (base chip), gc)))"

definition gpiochips_setPinNames :: "brain_pin \<Rightarrow> string option list \<Rightarrow> 's gpio_core \<Rightarrow> int \<times> 's gpio_core" where
  "gpiochips_setPinNames pin names gc =
     (case gpiochip_find gc pin of
        None \<Rightarrow> (-1, gc)
      | Some i \<Rightarrow> (0, gc\<lparr>chips := (chips gc)[i := (chips gc ! i)\<lparr>gpio_names := Some names\<rparr>]\<rparr>))"

text \<open>
  The loop of \<open>gpiochips_init\<close>: \<open>ret\<close> is declared outside it, so a chip without an \<open>init\<close> operation
  is judged by what the chip before it returned (\<open>-1\<close> at first).
\<close>

fun gpiochips_init_loop ::
    "'s gpiochip list \<Rightarrow> int \<Rightarrow> int \<Rightarrow> 's \<Rightarrow> int \<times> 's gpiochip list \<times> 's" where
  "gpiochips_init_loop [] ret pins_added s = (pins_added, [], s)"
| "gpiochips_init_loop (chip # cs) ret pins_added s =
     (if base chip = 0 then
        (case gpiochips_init_loop cs ret pins_added s of (n, cs', s') \<Rightarrow> (n, chip # cs', s'))
      else
        let (ret, s) = (case ops chip of
                          None \<Rightarrow> (ret, s)
                        | Some op \<Rightarrow> (case op_init op of None \<Rightarrow> (ret, s) | Some f \<Rightarrow> f (priv chip) s))
        in if ret < 0
           then (case gpiochips_init_loop cs ret pins_added s of (n, cs', s') \<Rightarrow> (n, chip\<lparr>base := 0\<rparr> # cs', s'))
           else (case gpiochips_init_loop cs ret (pins_added + int (chip_size chip)) s of
                   (n, cs', s') \<Rightarrow> (n, chip # cs', s')))"

definition gpiochips_init :: "'s gpio_core \<Rightarrow> 's \<Rightarrow> int \<times> 's gpio_core \<times> 's" where
  "gpiochips_init gc s =
     (case gpiochips_init_loop (chips gc) (-1) 0 s of (n, cs, s') \<Rightarrow> (n, gc\<lparr>chips := cs\<rparr>, s'))"

definition gpiochips_setPadMode :: "'s gpio_core \<Rightarrow> brain_pin \<Rightarrow> int \<Rightarrow> 's \<Rightarrow> int \<times> 's" where
  "gpiochips_setPadMode gc pin mode s =
     (case gpiochip_find gc pin of
        None \<Rightarrow> (-1, s)
      | Some i \<Rightarrow>
          (case Option.bind (ops (chips gc ! i)) op_setPadMode of
             Some f \<Rightarrow> f (priv (chips gc ! i)) (pin - base (chips gc ! i)) mode s
           | None \<Rightarrow> (-1, s)))"

definition gpiochips_writePad :: "'s gpio_core \<Rightarrow> brain_pin \<Rightarrow> int \<Rightarrow> 's \<Rightarrow> int \<times> 's" where
  "gpiochips_writePad gc pin v s =
     (case gpiochip_find gc pin of
        None \<Rightarrow> (-1, s)
      | Some i \<Rightarrow>
          (case Option.bind (ops (chips gc ! i)) op_writePad of
             Some f \<Rightarrow> f (priv (chips gc ! i)) (pin - base (chips gc ! i)) v s
           | None \<Rightarrow> (-1, s)))"

definition gpiochips_readPad :: "'s gpio_core \<Rightarrow> brain_pin \<Rightarrow> 's \<Rightarrow> int \<times> 's" where
  "gpiochips_readPad gc pin s =
     (case gpiochip_find gc pin of
        None \<Rightarrow> (-1, s)
      | Some i \<Rightarrow>
          (case Option.bind (ops (chips gc ! i)) op_readPad of
             Some f \<Rightarrow> f (priv (chips gc ! i)) (pin - base (chips gc ! i)) s
           | None \<Rightarrow> (-1, s)))"

definition gpiochips_getDiag :: "'s gpio_core \<Rightarrow> brain_pin \<Rightarrow> 's \<Rightarrow> brain_pin_diag" where
  "gpiochips_getDiag gc pin s =
     (case gpiochip_find gc pin of
        None \<Rightarrow> PIN_INVALID
      | Some i \<Rightarrow>
          (case Option.bind (ops (chips gc ! i)) op_getDiag of
             Some f \<Rightarrow> f (priv (chips gc ! i)) (pin - base (chips gc ! i)) s
           | None \<Rightarrow> PIN_OK))"

definition gpiochips_get_total_pins :: "'s gpio_core \<Rightarrow> int" where
  "gpiochips_get_total_pins gc = int (gpio_base_free gc) - int EXT_GPIOS_FIRST"

subsection \<open>Lookup and slots\<close>

definition in_chip :: "'s gpiochip \<Rightarrow> brain_pin \<Rightarrow> bool" where
  "in_chip c pin \<longleftrightarrow> base c \<le> pin \<and> pin < base c + chip_size c"

lemma gpiochip_find_loop_Some:
  "gpiochip_find_loop cs k pin = Some i \<longleftrightarrow>
     (\<exists>j < length cs. i = k + j \<and> in_chip (cs ! j) pin \<and> (\<forall>l < j. \<not> in_chip (cs ! l) pin))"
proof (induction cs arbitrary: k)
  case (Cons c cs)
  show ?case
  proof (cases "in_chip c pin")
    case True
    then have "gpiochip_find_loop (c # cs) k pin = Some k" by (simp add: in_chip_def)
    moreover have "(\<exists>j < length (c # cs). i = k + j \<and> in_chip ((c # cs) ! j) pin \<and>
        (\<forall>l < j. \<not> in_chip ((c # cs) ! l) pin)) \<longleftrightarrow> i = k"
      using True by (auto intro: exI [of _ 0]) (metis less_nat_zero_code nth_Cons_0 not_gr_zero)
    ultimately show ?thesis by auto
  next
    case False
    then have "gpiochip_find_loop (c # cs) k pin = gpiochip_find_loop cs (Suc k) pin"
      by (auto simp: in_chip_def)
    also have "\<dots> = Some i \<longleftrightarrow> (\<exists>j < length cs. i = Suc k + j \<and> in_chip (cs ! j) pin \<and>
        (\<forall>l < j. \<not> in_chip (cs ! l) pin))" by (rule Cons.IH)
    also have "\<dots> \<longleftrightarrow> (\<exists>j < length (c # cs). i = k + j \<and> in_chip ((c # cs) ! j) pin \<and>
        (\<forall>l < j. \<not> in_chip ((c # cs) ! l) pin))"
      using False by (auto simp: Ex_less_Suc2 All_less_Suc2)
    finally show ?thesis .
  qed
qed simp

lemma gpiochip_find_Some:
  "gpiochip_find gc pin = Some i \<longleftrightarrow>
     i < length (chips gc) \<and> in_chip (chips gc ! i) pin \<and> (\<forall>l < i. \<not> in_chip (chips gc ! l) pin)"
  by (auto simp: gpiochip_find_def gpiochip_find_loop_Some)

lemma gpiochip_find_None:
  "gpiochip_find gc pin = None \<longleftrightarrow> (\<forall>i < length (chips gc). \<not> in_chip (chips gc ! i) pin)"
proof
  assume none: "gpiochip_find gc pin = None"
  show "\<forall>i < length (chips gc). \<not> in_chip (chips gc ! i) pin"
  proof (rule ccontr)
    assume "\<not> ?thesis"
    then obtain i where "i < length (chips gc) \<and> in_chip (chips gc ! i) pin"
      and "\<forall>l < i. \<not> (l < length (chips gc) \<and> in_chip (chips gc ! l) pin)"
      using exists_least_iff [of "\<lambda>i. i < length (chips gc) \<and> in_chip (chips gc ! i) pin"] by auto
    then have "gpiochip_find gc pin = Some i" by (auto simp: gpiochip_find_Some)
    with none show False by simp
  qed
next
  assume "\<forall>i < length (chips gc). \<not> in_chip (chips gc ! i) pin"
  then show "gpiochip_find gc pin = None"
    by (metis gpiochip_find_Some option.exhaust)
qed

lemma free_slot_loop_Some:
  "free_slot cs k = Some i \<Longrightarrow> \<exists>j < length cs. i = k + j \<and> base (cs ! j) = 0"
proof (induction cs arbitrary: k)
  case (Cons c cs)
  show ?case
  proof (cases "base c = 0")
    case False
    with Cons.prems have "free_slot cs (Suc k) = Some i" by simp
    from Cons.IH [OF this] show ?thesis by (auto simp: Ex_less_Suc2)
  qed (use Cons.prems in \<open>auto intro: exI [of _ 0]\<close>)
qed simp

lemma free_slot_Some: "free_slot cs 0 = Some i \<Longrightarrow> i < length cs \<and> base (cs ! i) = 0"
  using free_slot_loop_Some [of cs 0 i] by auto

subsection \<open>The registry invariant\<close>

text \<open>
  Before any \<open>init\<close> has failed: a slot is either untouched or holds a chip with operations whose
  pins lie between the on-chip pins and \<open>gpio_base_free\<close>, and no two chips share a pin.
\<close>

definition slot_ok :: "brain_pin \<Rightarrow> 's gpiochip \<Rightarrow> bool" where
  "slot_ok lim c \<longleftrightarrow> (if base c = 0 then chip_size c = 0
     else EXT_GPIOS_FIRST \<le> base c \<and> 0 < chip_size c \<and> base c + chip_size c \<le> lim \<and> ops c \<noteq> None)"

definition apart :: "'s gpiochip \<Rightarrow> 's gpiochip \<Rightarrow> bool" where
  "apart c d \<longleftrightarrow> (\<forall>pin. \<not> (in_chip c pin \<and> in_chip d pin))"

definition core_ok :: "'s gpio_core \<Rightarrow> bool" where
  "core_ok gc \<longleftrightarrow> EXT_GPIOS_FIRST \<le> gpio_base_free gc \<and>
     (\<forall>c\<in>set (chips gc). slot_ok (gpio_base_free gc) c) \<and>
     (\<forall>i < length (chips gc). \<forall>j < length (chips gc). i \<noteq> j \<longrightarrow> apart (chips gc ! i) (chips gc ! j))"

lemma core_ok_start: "core_ok (gpio_core_start n)"
  by (auto simp: core_ok_def gpio_core_start_def slot_ok_def no_chip_def apart_def in_chip_def)

lemma core_ok_find:
  assumes "core_ok gc"
  shows "gpiochip_find gc pin = Some i \<longleftrightarrow> i < length (chips gc) \<and> in_chip (chips gc ! i) pin"
proof -
  have "\<not> in_chip (chips gc ! l) pin" if "in_chip (chips gc ! i) pin" "i < length (chips gc)" "l < i" for l
    using assms that unfolding core_ok_def apart_def by auto
  then show ?thesis unfolding gpiochip_find_Some by blast
qed

lemma slot_ok_mono: "slot_ok lim c \<Longrightarrow> lim \<le> lim' \<Longrightarrow> slot_ok lim' c"
  by (auto simp: slot_ok_def split: if_splits)

lemma slot_below: "slot_ok lim c \<Longrightarrow> in_chip c pin \<Longrightarrow> pin < lim"
  by (auto simp: slot_ok_def in_chip_def split: if_splits)

text \<open>Putting a chip on the first free pins into an unused slot keeps the registry in order.\<close>

lemma core_ok_add:
  assumes ok: "core_ok gc" and i: "i < length (chips gc)"
    and c: "base c = gpio_base_free gc" "0 < chip_size c" "ops c \<noteq> None"
  shows "core_ok (gc\<lparr>chips := (chips gc)[i := c], gpio_base_free := gpio_base_free gc + chip_size c\<rparr>)"
    (is "core_ok ?gc'")
proof -
  let ?b = "gpio_base_free gc"
  have b: "EXT_GPIOS_FIRST \<le> ?b" and slots: "\<forall>d\<in>set (chips gc). slot_ok ?b d"
    and ap: "\<forall>k < length (chips gc). \<forall>j < length (chips gc). k \<noteq> j \<longrightarrow> apart (chips gc ! k) (chips gc ! j)"
    using ok by (simp_all add: core_ok_def)
  have "slot_ok (?b + chip_size c) c" using b c by (simp add: slot_ok_def EXT_GPIOS_FIRST_def)
  then have "\<forall>d\<in>set (chips ?gc'). slot_ok (?b + chip_size c) d"
    using slots set_update_subset_insert [of "chips gc" i c] by (auto intro: slot_ok_mono [OF _ le_add1] dest!: subsetD)
  moreover have far: "apart c (chips gc ! j) \<and> apart (chips gc ! j) c" if "j < length (chips gc)" for j
  proof -
    have "slot_ok ?b (chips gc ! j)" using slots that by simp
    then have "\<not> (in_chip c pin \<and> in_chip (chips gc ! j) pin)" for pin
      using slot_below [of ?b "chips gc ! j" pin] c by (auto simp: in_chip_def [of c])
    then show ?thesis by (auto simp: apart_def)
  qed
  ultimately show ?thesis using b ap i by (auto simp: core_ok_def nth_list_update)
qed

lemma gpiochip_register_cases:
  assumes "gpiochip_register nm opsp sz pr gc = (r, gc')"
  shows "(r = -1 \<and> gc' = gc) \<or>
    (\<exists>op i c. opsp = Some op \<and> 0 < sz \<and> (op_writePad op \<noteq> None \<or> op_readPad op \<noteq> None) \<and>
       free_slot (chips gc) 0 = Some i \<and> r = int (gpio_base_free gc) \<and>
       c = (chips gc ! i)\<lparr>chip_name := nm, ops := Some op, base := gpio_base_free gc,
              chip_size := sz, priv := pr\<rparr> \<and>
       gc' = gc\<lparr>chips := (chips gc)[i := c], gpio_base_free := (gpio_base_free gc + sz) mod 256\<rparr>)"
  using assms
  by (auto simp: gpiochip_register_def gpiochip_use_gpio_base_def Let_def split: option.splits if_splits)

lemma gpiochip_register_ok:
  assumes ok: "core_ok gc" and room: "gpio_base_free gc + sz < 256"
    and reg: "gpiochip_register nm (Some op) sz pr gc = (r, gc')" and r: "r \<noteq> -1"
  shows "\<exists>i < length (chips gc). core_ok gc' \<and> r = int (gpio_base_free gc) \<and>
    chips gc' = (chips gc)[i := (chips gc ! i)\<lparr>chip_name := nm, ops := Some op,
      base := gpio_base_free gc, chip_size := sz, priv := pr\<rparr>] \<and>
    (\<forall>pin. gpiochip_find gc' pin =
       (if gpio_base_free gc \<le> pin \<and> pin < gpio_base_free gc + sz then Some i else gpiochip_find gc pin))"
proof -
  obtain i c where i: "free_slot (chips gc) 0 = Some i" and sz: "0 < sz" and rr: "r = int (gpio_base_free gc)"
    and c: "c = (chips gc ! i)\<lparr>chip_name := nm, ops := Some op, base := gpio_base_free gc,
              chip_size := sz, priv := pr\<rparr>"
    and gc': "gc' = gc\<lparr>chips := (chips gc)[i := c], gpio_base_free := gpio_base_free gc + sz\<rparr>"
    using gpiochip_register_cases [OF reg] r room by auto
  note i = free_slot_Some [OF i]
  have ok': "core_ok gc'" using core_ok_add [OF ok, of i c] i c sz gc' by simp
  have slot: "chip_size (chips gc ! i) = 0"
    using ok i unfolding core_ok_def slot_ok_def by (metis nth_mem)
  have "gpiochip_find gc' pin =
       (if gpio_base_free gc \<le> pin \<and> pin < gpio_base_free gc + sz then Some i else gpiochip_find gc pin)" for pin
  proof (cases "in_chip c pin")
    case True
    then have "gpiochip_find gc' pin = Some i" unfolding core_ok_find [OF ok'] using i gc' by simp
    with True c show ?thesis by (simp add: in_chip_def)
  next
    case False
    have "\<not> in_chip (chips gc ! i) pin" using slot by (simp add: in_chip_def)
    then have "gpiochip_find gc' pin = Some k \<longleftrightarrow> gpiochip_find gc pin = Some k" for k
      unfolding core_ok_find [OF ok'] core_ok_find [OF ok] using False i gc'
      by (cases "k = i") simp_all
    then have "gpiochip_find gc' pin = gpiochip_find gc pin" by (metis option.exhaust)
    with False c show ?thesis by (auto simp: in_chip_def)
  qed
  with i rr ok' c gc' show ?thesis by auto
qed

subsection \<open>Initialisation\<close>

text \<open>What initialisation leaves of one slot: its pins stay, its base is cleared on failure.\<close>

definition init_slot :: "'s gpiochip \<Rightarrow> 's gpiochip \<Rightarrow> bool" where
  "init_slot c c' \<longleftrightarrow> c' = c \<or> c' = c\<lparr>base := 0\<rparr>"

lemma gpiochips_init_loop_slots:
  "gpiochips_init_loop cs ret n s = (n', cs', s') \<Longrightarrow>
     list_all2 init_slot cs cs' \<and>
     n' = n + int (sum_list (map chip_size (filter (\<lambda>c. base c \<noteq> 0) cs')))"
proof (induction cs ret n s arbitrary: n' cs' s' rule: gpiochips_init_loop.induct)
  case (2 chip cs ret n s)
  show ?case
  proof (cases "base chip = 0")
    case True
    with "2.prems" obtain cs1 where "gpiochips_init_loop cs ret n s = (n', cs1, s')" "cs' = chip # cs1"
      by (auto split: prod.splits)
    with "2.IH"(1) [OF True this(1)] True show ?thesis by (simp add: init_slot_def)
  next
    case False
    obtain r s1 where rs: "(case ops chip of None \<Rightarrow> (ret, s)
        | Some op \<Rightarrow> (case op_init op of None \<Rightarrow> (ret, s) | Some f \<Rightarrow> f (priv chip) s)) = (r, s1)"
      by (metis surj_pair)
    show ?thesis
    proof (cases "r < 0")
      case True
      with "2.prems" False rs obtain cs1
        where l: "gpiochips_init_loop cs r n s1 = (n', cs1, s')" "cs' = chip\<lparr>base := 0\<rparr> # cs1"
        by (auto split: prod.splits)
      show ?thesis using "2.IH"(2) [OF False rs [symmetric] refl True l(1)] l(2) by (simp add: init_slot_def)
    next
      case F: False
      with "2.prems" False rs obtain cs1
        where l: "gpiochips_init_loop cs r (n + int (chip_size chip)) s1 = (n', cs1, s')" "cs' = chip # cs1"
        by (auto split: prod.splits)
      show ?thesis using "2.IH"(3) [OF False rs [symmetric] refl F l(1)] l(2) False by (simp add: init_slot_def)
    qed
  qed
qed simp

lemma init_slot_native:
  assumes "slot_ok lim c" "init_slot c c'" "pin < EXT_GPIOS_FIRST"
  shows "in_chip c' pin \<longleftrightarrow> base c \<noteq> 0 \<and> base c' = 0 \<and> pin < chip_size c"
  using assms by (auto simp: slot_ok_def init_slot_def in_chip_def split: if_splits)

subsection \<open>The contract of a driver\<close>

text \<open>
  What the registry expects of a driver with \<open>pins\<close> pins: an access outside them, or without a
  device, is refused and changes nothing; an access inside keeps the driver's invariant.
\<close>

locale gpiochip_driver =
  fixes drv :: "'s gpiochip_ops" and pins :: nat and inv :: "'s \<Rightarrow> bool"
    and live :: "nat option \<Rightarrow> 's \<Rightarrow> bool"
  assumes has_io: "op_writePad drv \<noteq> None \<or> op_readPad drv \<noteq> None"
    and has_pins: "0 < pins"
    and write_outside: "op_writePad drv = Some f \<Longrightarrow> pins \<le> pin \<or> d = None \<Longrightarrow> f d pin v s = (-1, s)"
    and diag_outside: "op_getDiag drv = Some g \<Longrightarrow> pins \<le> pin \<or> d = None \<Longrightarrow> g d pin s = PIN_INVALID"
    and write_inside: "op_writePad drv = Some f \<Longrightarrow> pin < pins \<Longrightarrow> inv s \<Longrightarrow> live d s \<Longrightarrow>
      inv (snd (f d pin v s)) \<and> live d (snd (f d pin v s))"
    and read_inside: "op_readPad drv = Some h \<Longrightarrow> pin < pins \<Longrightarrow> inv s \<Longrightarrow> live d s \<Longrightarrow>
      inv (snd (h d pin s)) \<and> live d (snd (h d pin s))"

context gpiochip_driver
begin

lemma routed:
  assumes "core_ok gc" and "gpio_base_free gc + pins < 256"
    and "gpiochip_register nm (Some drv) pins d gc = (r, gc')" and "r \<noteq> -1"
    and "gpio_base_free gc \<le> pin" and "pin < gpio_base_free gc + pins"
    and "op_writePad drv = Some f"
  shows "gpiochips_writePad gc' pin v s = f d (pin - gpio_base_free gc) v s"
proof -
  obtain i where i: "i < length (chips gc)" "gpiochip_find gc' pin = Some i"
    "chips gc' = (chips gc)[i := (chips gc ! i)\<lparr>chip_name := nm, ops := Some drv,
      base := gpio_base_free gc, chip_size := pins, priv := d\<rparr>]"
    using gpiochip_register_ok [OF assms(1-4)] assms(5,6) by auto
  then show ?thesis using assms(7) by (simp add: gpiochips_writePad_def)
qed

text \<open>Any series of writes through the registry to a registered driver keeps its invariant.\<close>

lemma writes_inv:
  assumes "core_ok gc" and "gpio_base_free gc + pins < 256"
    and "gpiochip_register nm (Some drv) pins d gc = (r, gc')" and "r \<noteq> -1"
    and "op_writePad drv = Some f" and "inv s" and "live d s"
    and "\<forall>(pin, v)\<in>set ws. gpio_base_free gc \<le> pin \<and> pin < gpio_base_free gc + pins"
  shows "inv (fold (\<lambda>(pin, v) s. snd (gpiochips_writePad gc' pin v s)) ws s)"
  using assms(6-8)
proof (induction ws arbitrary: s)
  case (Cons w ws)
  obtain pin v where w: "w = (pin, v)" by fastforce
  with Cons.prems have p: "gpio_base_free gc \<le> pin" "pin < gpio_base_free gc + pins" by auto
  have "pin - gpio_base_free gc < pins" using p by simp
  with write_inside [OF assms(5) this Cons.prems(1,2), of v]
  show ?case using Cons w by (simp add: routed [OF assms(1-4) p assms(5)])
qed simp

end

subsection \<open>Properties\<close>

text \<open>
  C31: registering a chip keeps the registry in order; on success the chip gets the next free
  pins, exactly these are looked up to it, and every other pin is looked up as before.
\<close>

theorem gpiochip_register_maps:
  assumes "core_ok gc" and "gpio_base_free gc + sz < 256"
    and "gpiochip_register nm opsp sz pr gc = (r, gc')"
  shows "core_ok gc' \<and> (r = -1 \<longrightarrow> gc' = gc) \<and>
    (r \<noteq> -1 \<longrightarrow> r = int (gpio_base_free gc) \<and>
      (\<exists>i < length (chips gc). priv (chips gc' ! i) = pr \<and> ops (chips gc' ! i) = opsp \<and>
        (\<forall>pin. gpiochip_find gc' pin =
           (if gpio_base_free gc \<le> pin \<and> pin < gpio_base_free gc + sz then Some i
            else gpiochip_find gc pin))))"
proof (cases "r = -1")
  case True
  then show ?thesis using gpiochip_register_cases [OF assms(3)] assms(1) by auto
next
  case False
  then obtain op where op: "opsp = Some op" using gpiochip_register_cases [OF assms(3)] by auto
  from gpiochip_register_ok [OF assms(1,2) assms(3) [unfolded op] False] obtain i
    where "i < length (chips gc)" "core_ok gc'" "r = int (gpio_base_free gc)"
      "chips gc' = (chips gc)[i := (chips gc ! i)\<lparr>chip_name := nm, ops := Some op,
        base := gpio_base_free gc, chip_size := sz, priv := pr\<rparr>]"
      "\<forall>pin. gpiochip_find gc' pin =
        (if gpio_base_free gc \<le> pin \<and> pin < gpio_base_free gc + sz then Some i else gpiochip_find gc pin)"
    by blast
  with False op show ?thesis by auto
qed

definition demo_ops :: "int gpiochip_ops" where
  "demo_ops = \<lparr>op_setPadMode = None, op_writePad = Some (\<lambda>d pin v s. (0, s)), op_readPad = None,
     op_getDiag = None, op_init = Some (\<lambda>d s. (-2, s)), op_deinit = None\<rparr>"

definition demo_core :: "int gpio_core" where
  "demo_core = \<lparr>chips = [\<lparr>base = 130, chip_size = 16, ops = Some demo_ops, chip_name = ''demo'',
     gpio_names = None, priv = Some 0\<rparr>, no_chip], gpio_base_free = 146\<rparr>"

lemma pin_numbers: "EXT_GPIOS_FIRST = 130"
  by (simp add: EXT_GPIOS_FIRST_def BRAIN_PIN_LAST_ONCHIP_def)

lemma demo_register:
  "gpiochip_register ''demo'' (Some demo_ops) 16 (Some 0) (gpio_core_start 2) = (130, demo_core)"
proof -
  have "(gpio_core_start 2 :: int gpio_core) = \<lparr>chips = [no_chip, no_chip], gpio_base_free = 130\<rparr>"
    by (simp add: gpio_core_start_def numeral_2_eq_2 pin_numbers)
  then show ?thesis
    by (simp only:) (simp add: gpiochip_register_def gpiochip_use_gpio_base_def demo_core_def no_chip_def demo_ops_def)
qed

theorem gpiochip_register_maps_witness: "core_ok demo_core \<and> gpiochip_find demo_core 131 \<noteq> None"
  using gpiochip_register_maps [OF core_ok_start _ demo_register]
  by (simp add: gpio_core_start_def pin_numbers) auto

text \<open>
  Initialisation counts the pins of the chips that came up, and the lookup of a pin of the
  microcontroller itself (number below 130, also "unassigned") then answers with an external
  chip exactly when a chip with more pins than that number failed to come up: its base is
  cleared but its size is not.
\<close>

theorem gpiochips_init_native_pins:
  assumes "core_ok gc" and "gpiochips_init gc s = (n, gc', s')"
  shows "n = int (sum_list (map chip_size (filter (\<lambda>c. base c \<noteq> 0) (chips gc')))) \<and>
    (pin < EXT_GPIOS_FIRST \<longrightarrow>
      (gpiochip_find gc' pin \<noteq> None \<longleftrightarrow>
        (\<exists>i < length (chips gc). base (chips gc ! i) \<noteq> 0 \<and> base (chips gc' ! i) = 0 \<and>
           pin < chip_size (chips gc ! i))))"
proof -
  obtain cs' where l: "gpiochips_init_loop (chips gc) (-1) 0 s = (n, cs', s')" and gc': "gc' = gc\<lparr>chips := cs'\<rparr>"
    using assms(2) by (auto simp: gpiochips_init_def split: prod.splits)
  note a = gpiochips_init_loop_slots [OF l]
  have "in_chip (chips gc' ! i) pin \<longleftrightarrow> base (chips gc ! i) \<noteq> 0 \<and> base (chips gc' ! i) = 0 \<and>
      pin < chip_size (chips gc ! i)" if "i < length (chips gc)" "pin < EXT_GPIOS_FIRST" for i
    using a that assms(1) gc'
    by (intro init_slot_native [of "gpio_base_free gc"]) (simp_all add: core_ok_def list_all2_conv_all_nth)
  moreover have "length (chips gc') = length (chips gc)"
    using a gc' by (auto dest: list_all2_lengthD)
  ultimately show ?thesis using a gc' gpiochip_find_None [of gc' pin] by auto
qed

theorem gpiochips_init_native_pins_witness:
  "\<exists>gc'. gpiochips_init demo_core 7 = (0, gc', 7) \<and> gpiochip_find gc' 0 \<noteq> None"
proof -
  have "gpio_base_free (gpio_core_start 2 :: int gpio_core) + 16 < 256" "(130 :: int) \<noteq> -1"
    by (simp_all add: gpio_core_start_def pin_numbers)
  from gpiochip_register_ok [OF core_ok_start this(1) demo_register this(2)]
  have ok: "core_ok demo_core" by blast
  have "\<exists>gc'. gpiochips_init demo_core 7 = (0, gc', 7) \<and> base (chips gc' ! 0) = 0"
    by (simp add: demo_core_def gpiochips_init_def demo_ops_def no_chip_def)
  then obtain gc' where i: "gpiochips_init demo_core 7 = (0, gc', 7)" "base (chips gc' ! 0) = 0" by blast
  have q: "\<exists>i < length (chips demo_core). base (chips demo_core ! i) \<noteq> 0 \<and>
      base (chips gc' ! i) = 0 \<and> 0 < chip_size (chips demo_core ! i)"
    by (rule exI [of _ 0]) (use i in \<open>simp add: demo_core_def\<close>)
  have z: "0 < EXT_GPIOS_FIRST" by (simp add: pin_numbers)
  from gpiochips_init_native_pins [OF ok i(1), of 0, THEN conjunct2, THEN mp, OF z, THEN iffD2, OF q] i(1)
  show ?thesis by blast
qed

end
