(* ===== verification/Pin_Repository.thy ===== *)
theory Pin_Repository
  imports Gpio_Core Efi_Lib
begin

text \<open>
  Who owns which pin: src/firmware/hw_layer/pin_repository.cpp over the STM32 port table of
  hw_layer/ports/stm32/stm32_pins.cpp.  A port is 0 for \<open>NULL\<close> and 1 to 8 for \<open>GPIOA\<close> to \<open>GPIOH\<close>;
  \<open>PIN_USED\<close> is indexed by integers, so that an index outside the array is visible as such.
  The board record also holds the trace of what the drivers did to the hardware, oldest first; the
  devices on the other side of the bus are a function from that trace to the word they answer.
\<close>

type_synonym ioportid = nat

datatype board_error = CUSTOM_ERR_ASSERT | CUSTOM_ERR_PIN_REPO | CUSTOM_ERR_PIN_ALREADY_USED_1
  | CUSTOM_ERR_UNKNOWN_PORT | CUSTOM_ERR_INVALID_PIN | OBD_PCM_Processor_Fault

datatype hw_event = Spi nat u16 | PalSet ioportid nat | PalClear ioportid nat | Sleep nat

record board =
  trace :: "hw_event list"
  PIN_USED :: "int \<Rightarrow> string option"
  totalPinsUsed :: int
  repo_initialized :: bool
  boardErr :: "board_error option"

text \<open>Which driver chips the board has (\<open>BOARD_*_COUNT\<close>).\<close>

record board_cfg =
  TLE6240_COUNT :: nat
  MC33972_COUNT :: nat
  TLE8888_COUNT :: nat

definition board_firmwareError :: "board_error \<Rightarrow> 'z board_scheme \<Rightarrow> 'z board_scheme" where
  "board_firmwareError err b = (case boardErr b of None \<Rightarrow> b\<lparr>boardErr := Some err\<rparr> | Some _ \<Rightarrow> b)"

text \<open>
  \<open>spiPolledExchange\<close> between select and unselect of the chip \<open>c\<close> (its bus and SPI configuration);
  \<open>palSetPort\<close> / \<open>palClearPort\<close> of one bit; \<open>chThdSleepMilliseconds\<close>.
\<close>

type_synonym device = "hw_event list \<Rightarrow> u16"

definition emit :: "hw_event \<Rightarrow> 'z board_scheme \<Rightarrow> 'z board_scheme" where
  "emit e b = b\<lparr>trace := trace b @ [e]\<rparr>"

definition spi_exchange :: "device \<Rightarrow> nat \<Rightarrow> u16 \<Rightarrow> 'z board_scheme \<Rightarrow> u16 \<times> 'z board_scheme" where
  "spi_exchange dev c tx b = (dev (trace b @ [Spi c tx]), emit (Spi c tx) b)"

lemma emit_simps [simp]:
  "trace (emit e b) = trace b @ [e]" "PIN_USED (emit e b) = PIN_USED b"
  "totalPinsUsed (emit e b) = totalPinsUsed b" "repo_initialized (emit e b) = repo_initialized b"
  "boardErr (emit e b) = boardErr b" "board.more (emit e b) = board.more b"
  by (simp_all add: emit_def)

definition PORT_SIZE :: nat where "PORT_SIZE = 16"
definition GPIO_UNASSIGNED :: brain_pin where "GPIO_UNASSIGNED = 0"
definition GPIO_INVALID :: brain_pin where "GPIO_INVALID = 1"
definition GPIOA_0 :: brain_pin where "GPIOA_0 = 2"
definition TLE6240_PIN_1 :: brain_pin where "TLE6240_PIN_1 = 130"
definition TLE6240_PIN_16 :: brain_pin where "TLE6240_PIN_16 = 145"
definition MC33972_PIN_1 :: brain_pin where "MC33972_PIN_1 = 146"
definition MC33972_PIN_22 :: brain_pin where "MC33972_PIN_22 = 167"
definition TLE8888_PIN_1 :: brain_pin where "TLE8888_PIN_1 = 168"
definition TLE8888_PIN_28 :: brain_pin where "TLE8888_PIN_28 = 195"

lemmas pin_defs = PORT_SIZE_def GPIO_UNASSIGNED_def GPIO_INVALID_def GPIOA_0_def TLE6240_PIN_1_def
  TLE6240_PIN_16_def MC33972_PIN_1_def MC33972_PIN_22_def TLE8888_PIN_1_def TLE8888_PIN_28_def
  BRAIN_PIN_LAST_ONCHIP_def

definition BOARD_EXT_PINREPOPINS :: "board_cfg \<Rightarrow> nat" where
  "BOARD_EXT_PINREPOPINS cfg = TLE6240_COUNT cfg * 16 + MC33972_COUNT cfg * 22 + TLE8888_COUNT cfg * 28"

subsection \<open>Ports\<close>

text \<open>All eight ports exist (\<open>STM32_HAS_GPIOE\<close> to \<open>STM32_HAS_GPIOH\<close>).\<close>

definition portname :: "ioportid \<Rightarrow> string" where
  "portname port = (if 1 \<le> port \<and> port \<le> 8 then [CHR ''P'', ''ABCDEFGH'' ! (port - 1)] else ''unknown'')"

definition getPortIndex :: "ioportid \<Rightarrow> 'z board_scheme \<Rightarrow> int \<times> 'z board_scheme" where
  "getPortIndex port b =
     (if port = 0 then (-1, board_firmwareError CUSTOM_ERR_ASSERT b)
      else if port \<le> 8 then (int port - 1, b)
      else (-1, board_firmwareError CUSTOM_ERR_UNKNOWN_PORT b))"

definition getBrainPort :: "brain_pin \<Rightarrow> ioportid" where
  "getBrainPort brainPin = (brainPin - GPIOA_0) div PORT_SIZE + 1"

definition getBrainPinIndex :: "brain_pin \<Rightarrow> nat" where
  "getBrainPinIndex brainPin = (brainPin - GPIOA_0) mod PORT_SIZE"

definition getBrainIndex :: "ioportid \<Rightarrow> nat \<Rightarrow> 'z board_scheme \<Rightarrow> int \<times> 'z board_scheme" where
  "getBrainIndex port pin b =
     (case getPortIndex port b of (portIndex, b) \<Rightarrow> (portIndex * int PORT_SIZE + int pin, b))"

definition getNumBrainPins :: nat where
  "getNumBrainPins = 8 * PORT_SIZE"

definition initBrainUsedPins :: "'z board_scheme \<Rightarrow> 'z board_scheme" where
  "initBrainUsedPins b = b\<lparr>PIN_USED := (\<lambda>_. None)\<rparr>"

definition brain_pin_is_onchip :: "brain_pin \<Rightarrow> bool" where
  "brain_pin_is_onchip brainPin \<longleftrightarrow> \<not> (brainPin < GPIOA_0 \<or> brainPin > BRAIN_PIN_LAST_ONCHIP)"

definition brain_pin_is_ext :: "brain_pin \<Rightarrow> bool" where
  "brain_pin_is_ext brainPin \<longleftrightarrow> brainPin > BRAIN_PIN_LAST_ONCHIP"

definition getHwPort :: "brain_pin \<Rightarrow> 'z board_scheme \<Rightarrow> ioportid \<times> 'z board_scheme" where
  "getHwPort brainPin b =
     (if brainPin = GPIO_UNASSIGNED \<or> brainPin = GPIO_INVALID then (0, b)
      else if brainPin < GPIOA_0 \<or> brainPin > BRAIN_PIN_LAST_ONCHIP
      then (0, board_firmwareError CUSTOM_ERR_INVALID_PIN b)
      else ((brainPin - GPIOA_0) div PORT_SIZE + 1, b))"

definition getHwPin :: "brain_pin \<Rightarrow> 'z board_scheme \<Rightarrow> int \<times> 'z board_scheme" where
  "getHwPin brainPin b =
     (if brainPin = GPIO_UNASSIGNED \<or> brainPin = GPIO_INVALID then (EFI_ERROR_CODE, b)
      else if brain_pin_is_onchip brainPin then (int (getBrainPinIndex brainPin), b)
      else (EFI_ERROR_CODE, board_firmwareError CUSTOM_ERR_INVALID_PIN b))"

subsection \<open>Names of pins\<close>

definition parseBrainPin :: "string \<Rightarrow> brain_pin" where
  "parseBrainPin str =
     (if str = ''none'' then GPIO_UNASSIGNED
      else case str of
        c # port # pinStr \<Rightarrow>
          if c \<noteq> CHR ''p'' \<and> c \<noteq> CHR ''P'' then GPIO_INVALID
          else
            let p = of_char port :: nat; pin = atoi pinStr
            in if 97 \<le> p \<and> p \<le> 122
               then nat ((int GPIOA_0 + int PORT_SIZE * int (p - 97) + pin) mod 256)
               else if 65 \<le> p \<and> p \<le> 90
               then nat ((int GPIOA_0 + int PORT_SIZE * int (p - 65) + pin) mod 256)
               else GPIO_INVALID
      | _ \<Rightarrow> GPIO_INVALID)"

text \<open>The \<open>%d\<close> of \<open>chprintf\<close>.\<close>

function show_nat :: "nat \<Rightarrow> string" where
  "show_nat n = (if n < 10 then [char_of (48 + n)] else show_nat (n div 10) @ [char_of (48 + n mod 10)])"
  by pat_completeness auto
termination by (relation "measure id") auto

declare show_nat.simps [simp del]

definition show_int :: "int \<Rightarrow> string" where
  "show_int i = (if i < 0 then CHR ''-'' # show_nat (nat (- i)) else show_nat (nat i))"

text \<open>\<open>hwPortname\<close>, with the chip and pin names of the external chips read from the registry.\<close>

definition hwPortname :: "'s gpio_core \<Rightarrow> brain_pin \<Rightarrow> string" where
  "hwPortname gc brainPin =
     (if brainPin = GPIO_INVALID then ''INVALID''
      else if brainPin = GPIO_UNASSIGNED then ''NONE''
      else if brain_pin_is_onchip brainPin then
        portname (getBrainPort brainPin) @ show_nat (getBrainPinIndex brainPin)
      else
        (case gpiochips_getPinName gc brainPin of
           Some pin_name \<Rightarrow> ''ext:'' @ pin_name
         | None \<Rightarrow> ''ext:'' @ (case gpiochips_getChipName gc brainPin of Some n \<Rightarrow> n | None \<Rightarrow> ''(null)'') @
             ''.'' @ show_int (gpiochips_getPinOffset gc brainPin)))"

subsection \<open>Indices of pins\<close>

text \<open>The final test compares the index as an unsigned number.\<close>

definition brainPin_to_index :: "board_cfg \<Rightarrow> brain_pin \<Rightarrow> int" where
  "brainPin_to_index cfg brainPin =
     (if brainPin < GPIOA_0 then -1
      else
        let index = int brainPin - int GPIOA_0
        in if index < int getNumBrainPins then index
           else
             let index = (if brainPin \<ge> TLE8888_PIN_1 \<and> TLE8888_COUNT cfg = 0
                          then index - int (TLE8888_PIN_28 - TLE8888_PIN_1 + 1) else index);
                 index = (if brainPin \<ge> MC33972_PIN_1 \<and> MC33972_COUNT cfg = 0
                          then index - int (MC33972_PIN_22 - MC33972_PIN_1 + 1) else index);
                 index = (if brainPin \<ge> TLE6240_PIN_1 \<and> TLE6240_COUNT cfg = 0
                          then index - int (TLE6240_PIN_16 - TLE6240_PIN_1 + 1) else index)
             in if index mod 2 ^ 32 \<ge> int (getNumBrainPins + BOARD_EXT_PINREPOPINS cfg) then -1
                else index)"

definition index_to_brainPin :: "board_cfg \<Rightarrow> nat \<Rightarrow> brain_pin" where
  "index_to_brainPin cfg i =
     (let brainPin = GPIOA_0 + i
      in if i < getNumBrainPins then brainPin mod 256
         else
           let brainPin = (if TLE6240_COUNT cfg = 0 then brainPin + (TLE6240_PIN_16 - TLE6240_PIN_1 + 1) else brainPin);
               brainPin = (if MC33972_COUNT cfg = 0 then brainPin + (MC33972_PIN_22 - MC33972_PIN_1 + 1) else brainPin);
               brainPin = (if TLE8888_COUNT cfg = 0 then brainPin + (TLE8888_PIN_28 - TLE8888_PIN_1 + 1) else brainPin)
           in brainPin mod 256)"

subsection \<open>Ownership\<close>

definition initPinRepository :: "'z board_scheme \<Rightarrow> 'z board_scheme" where
  "initPinRepository b = (initBrainUsedPins b)\<lparr>repo_initialized := True\<rparr>"

definition brain_pin_markUsed ::
    "board_cfg \<Rightarrow> brain_pin \<Rightarrow> string \<Rightarrow> 'z board_scheme \<Rightarrow> bool \<times> 'z board_scheme" where
  "brain_pin_markUsed cfg brainPin msg b =
     (if \<not> repo_initialized b then (False, board_firmwareError CUSTOM_ERR_PIN_REPO b)
      else
        let index = brainPin_to_index cfg brainPin
        in if index < 0 then (True, b)
           else if PIN_USED b index \<noteq> None
           then (True, board_firmwareError CUSTOM_ERR_PIN_ALREADY_USED_1 b)
           else (False, b\<lparr>PIN_USED := (PIN_USED b)(index := Some msg), totalPinsUsed := totalPinsUsed b + 1\<rparr>))"

definition brain_pin_markUnused ::
    "board_cfg \<Rightarrow> brain_pin \<Rightarrow> 'z board_scheme \<Rightarrow> 'z board_scheme" where
  "brain_pin_markUnused cfg brainPin b =
     (if \<not> repo_initialized b then board_firmwareError CUSTOM_ERR_PIN_REPO b
      else
        let index = brainPin_to_index cfg brainPin
        in if index < 0 then b
           else
             let b = (if PIN_USED b index \<noteq> None then b\<lparr>totalPinsUsed := totalPinsUsed b - 1\<rparr> else b)
             in b\<lparr>PIN_USED := (PIN_USED b)(index := None)\<rparr>)"

definition gpio_pin_markUsed ::
    "ioportid \<Rightarrow> nat \<Rightarrow> string \<Rightarrow> 'z board_scheme \<Rightarrow> bool \<times> 'z board_scheme" where
  "gpio_pin_markUsed port pin msg b =
     (if \<not> repo_initialized b then (False, board_firmwareError CUSTOM_ERR_PIN_REPO b)
      else
        (case getBrainIndex port pin b of (index, b) \<Rightarrow>
          if PIN_USED b index \<noteq> None
          then (True, board_firmwareError CUSTOM_ERR_PIN_ALREADY_USED_1 b)
          else (False, b\<lparr>PIN_USED := (PIN_USED b)(index := Some msg), totalPinsUsed := totalPinsUsed b + 1\<rparr>)))"

definition gpio_pin_markUnused :: "ioportid \<Rightarrow> nat \<Rightarrow> 'z board_scheme \<Rightarrow> 'z board_scheme" where
  "gpio_pin_markUnused port pin b =
     (if \<not> repo_initialized b then board_firmwareError CUSTOM_ERR_PIN_REPO b
      else
        (case getBrainIndex port pin b of (index, b) \<Rightarrow>
          let b = (if PIN_USED b index \<noteq> None then b\<lparr>totalPinsUsed := totalPinsUsed b - 1\<rparr> else b)
          in b\<lparr>PIN_USED := (PIN_USED b)(index := None)\<rparr>))"

definition getPinFunction :: "board_cfg \<Rightarrow> brain_pin \<Rightarrow> 'z board_scheme \<Rightarrow> string option" where
  "getPinFunction cfg brainPin b =
     (let index = brainPin_to_index cfg brainPin in if index < 0 then None else PIN_USED b index)"

subsection \<open>Indices of the pins a board has\<close>

definition small_cfg :: "board_cfg \<Rightarrow> bool" where
  "small_cfg cfg \<longleftrightarrow> TLE6240_COUNT cfg \<le> 1 \<and> MC33972_COUNT cfg \<le> 1 \<and> TLE8888_COUNT cfg \<le> 1"

definition pin_present :: "board_cfg \<Rightarrow> brain_pin \<Rightarrow> bool" where
  "pin_present cfg p \<longleftrightarrow> (2 \<le> p \<and> p \<le> 129) \<or> (130 \<le> p \<and> p \<le> 145 \<and> 0 < TLE6240_COUNT cfg) \<or>
     (146 \<le> p \<and> p \<le> 167 \<and> 0 < MC33972_COUNT cfg) \<or> (168 \<le> p \<and> p \<le> 195 \<and> 0 < TLE8888_COUNT cfg)"

text \<open>How many pins of absent chips lie below a pin.\<close>

definition absent_below :: "board_cfg \<Rightarrow> brain_pin \<Rightarrow> nat" where
  "absent_below cfg p = (if 146 \<le> p \<and> TLE6240_COUNT cfg = 0 then 16 else 0) +
     (if 168 \<le> p \<and> MC33972_COUNT cfg = 0 then 22 else 0)"

lemma index_present:
  assumes "small_cfg cfg" "pin_present cfg p"
  shows "brainPin_to_index cfg p = int p - 2 - int (absent_below cfg p)"
    and "absent_below cfg p + 2 \<le> p"
    and "p < 130 + BOARD_EXT_PINREPOPINS cfg + absent_below cfg p"
  using assms
  by (auto simp: brainPin_to_index_def pin_defs getNumBrainPins_def absent_below_def pin_present_def small_cfg_def
      Let_def BOARD_EXT_PINREPOPINS_def)

lemma absent_below_inj:
  assumes "pin_present cfg p" "pin_present cfg q" "p < q"
  shows "p - absent_below cfg p < q - absent_below cfg q"
  using assms by (auto simp: pin_present_def absent_below_def)

lemma index_present_inj:
  assumes "small_cfg cfg" "pin_present cfg p" "pin_present cfg q"
    and "brainPin_to_index cfg p = brainPin_to_index cfg q"
  shows "p = q"
proof (rule ccontr)
  assume "p \<noteq> q"
  then consider "p < q" | "q < p" by linarith
  then show False
    using absent_below_inj [of cfg p q] absent_below_inj [of cfg q p] assms
      index_present [of cfg p] index_present [of cfg q] by cases auto
qed

lemma index_present_range:
  assumes "small_cfg cfg" "pin_present cfg p"
  shows "0 \<le> brainPin_to_index cfg p \<and>
    brainPin_to_index cfg p < int (getNumBrainPins + BOARD_EXT_PINREPOPINS cfg)"
  using index_present [OF assms] by (simp add: getNumBrainPins_def PORT_SIZE_def)

text \<open>A pin with a given index, for the indices in range.\<close>

definition pin_at :: "board_cfg \<Rightarrow> nat \<Rightarrow> brain_pin" where
  "pin_at cfg i =
     (let p = i + 2;
          p = (if 130 \<le> p \<and> TLE6240_COUNT cfg = 0 then p + 16 else p);
          p = (if 146 \<le> p \<and> MC33972_COUNT cfg = 0 then p + 22 else p)
      in p)"

lemma pin_at_present:
  assumes "small_cfg cfg" "i < 128 + BOARD_EXT_PINREPOPINS cfg"
  shows "pin_present cfg (pin_at cfg i) \<and> brainPin_to_index cfg (pin_at cfg i) = int i"
proof -
  have "pin_present cfg (pin_at cfg i) \<and> int (pin_at cfg i) - 2 - int (absent_below cfg (pin_at cfg i)) = int i"
    using assms by (auto simp: pin_at_def pin_present_def absent_below_def small_cfg_def
        BOARD_EXT_PINREPOPINS_def Let_def)
  with index_present(1) [OF assms(1)] show ?thesis by auto
qed

lemma index_absent:
  assumes "small_cfg cfg" "130 \<le> p" "p \<le> 195" "\<not> pin_present cfg p"
  shows "\<exists>i < 128 + BOARD_EXT_PINREPOPINS cfg. brainPin_to_index cfg p = int i"
proof -
  have "0 \<le> brainPin_to_index cfg p \<and> brainPin_to_index cfg p < 128 + int (BOARD_EXT_PINREPOPINS cfg)"
    using assms
    by (auto simp: brainPin_to_index_def pin_defs getNumBrainPins_def pin_present_def small_cfg_def
        Let_def BOARD_EXT_PINREPOPINS_def le_Suc_eq)
  then show ?thesis by (intro exI [of _ "nat (brainPin_to_index cfg p)"]) auto
qed

subsection \<open>The contract of a pin registry\<close>

text \<open>
  What the drivers rely on: a free pin can be claimed once, a claim does not disturb other pins,
  a taken pin is reported and left alone, and releasing a pin frees it whoever owns it.
\<close>

locale pin_registry =
  fixes mark :: "'p \<Rightarrow> string \<Rightarrow> 'b \<Rightarrow> bool \<times> 'b" and unmark :: "'p \<Rightarrow> 'b \<Rightarrow> 'b"
    and owner :: "'b \<Rightarrow> 'p \<Rightarrow> string option" and total :: "'b \<Rightarrow> int"
    and valid :: "'p \<Rightarrow> bool" and ready :: "'b \<Rightarrow> bool"
  assumes mark_free: "ready b \<Longrightarrow> valid p \<Longrightarrow> owner b p = None \<Longrightarrow>
      \<not> fst (mark p m b) \<and> ready (snd (mark p m b)) \<and> total (snd (mark p m b)) = total b + 1 \<and>
      (\<forall>q. valid q \<longrightarrow> owner (snd (mark p m b)) q = (if q = p then Some m else owner b q))"
    and mark_taken: "ready b \<Longrightarrow> valid p \<Longrightarrow> owner b p \<noteq> None \<Longrightarrow>
      fst (mark p m b) \<and> ready (snd (mark p m b)) \<and> total (snd (mark p m b)) = total b \<and>
      owner (snd (mark p m b)) = owner b"
    and unmark: "ready b \<Longrightarrow> valid p \<Longrightarrow>
      ready (unmark p b) \<and> total (unmark p b) = total b - (if owner b p = None then 0 else 1) \<and>
      (\<forall>q. valid q \<longrightarrow> owner (unmark p b) q = (if q = p then None else owner b q))"

context pin_registry
begin

text \<open>The pattern of every driver: claim a list of pins, release the list when one was taken.\<close>

fun claim :: "('p \<times> string) list \<Rightarrow> 'b \<Rightarrow> bool \<times> 'b" where
  "claim [] b = (False, b)"
| "claim ((p, m) # ps) b =
     (case mark p m b of (r, b) \<Rightarrow> case claim ps b of (r', b) \<Rightarrow> (r \<or> r', b))"

definition release :: "'p list \<Rightarrow> 'b \<Rightarrow> 'b" where
  "release ps b = fold unmark ps b"

lemma claim_ready: "ready b \<Longrightarrow> \<forall>p\<in>set (map fst ps). valid p \<Longrightarrow> ready (snd (claim ps b))"
proof (induction ps arbitrary: b)
  case (Cons pm ps)
  obtain p m where pm: "pm = (p, m)" by fastforce
  with Cons have "ready (snd (mark p m b))" using mark_free [of b p m] mark_taken [of b p m] by auto
  with Cons pm show ?case by (simp add: split_beta)
qed simp

lemma claim_free:
  "ready b \<Longrightarrow> distinct (map fst ps) \<Longrightarrow> \<forall>p\<in>set (map fst ps). valid p \<and> owner b p = None \<Longrightarrow>
     \<not> fst (claim ps b) \<and> total (snd (claim ps b)) = total b + int (length ps) \<and>
     (\<forall>q. valid q \<longrightarrow> owner (snd (claim ps b)) q = (case map_of ps q of Some m \<Rightarrow> Some m | None \<Rightarrow> owner b q))"
proof (induction ps arbitrary: b)
  case (Cons pm ps)
  obtain p m where pm: "pm = (p, m)" by fastforce
  let ?b = "snd (mark p m b)"
  have p: "\<not> fst (mark p m b)" "ready ?b" "total ?b = total b + 1"
    "\<forall>q. valid q \<longrightarrow> owner ?b q = (if q = p then Some m else owner b q)"
    using mark_free [of b p m] Cons.prems pm by auto
  have f: "\<forall>q\<in>set (map fst ps). valid q \<and> owner ?b q = None" using p(4) Cons.prems pm by auto
  have "map_of ps p = None" using Cons.prems(2) pm by (simp add: map_of_eq_None_iff)
  with Cons.IH [OF p(2) _ f] Cons.prems p pm show ?case by (auto simp: split_beta split: option.splits)
qed simp

lemma claim_taken:
  "ready b \<Longrightarrow> \<forall>p\<in>set (map fst ps). valid p \<Longrightarrow> q \<in> set (map fst ps) \<Longrightarrow> owner b q \<noteq> None \<Longrightarrow> fst (claim ps b)"
proof (induction ps arbitrary: b)
  case (Cons pm ps)
  obtain p m where pm: "pm = (p, m)" by fastforce
  let ?b = "snd (mark p m b)"
  show ?case
  proof (cases "p = q")
    case False
    have "ready ?b" "owner ?b q \<noteq> None"
      using mark_free [of b p m] mark_taken [of b p m] Cons.prems pm by (cases "owner b p", auto)+
    with Cons False pm show ?thesis by (auto simp: split_beta)
  qed (use mark_taken [of b p m] Cons.prems pm in \<open>simp add: split_beta\<close>)
qed simp

lemma release_owner:
  "ready b \<Longrightarrow> \<forall>p\<in>set ps. valid p \<Longrightarrow>
     ready (release ps b) \<and> (\<forall>q. valid q \<longrightarrow> owner (release ps b) q = (if q \<in> set ps then None else owner b q))"
proof (induction ps arbitrary: b)
  case (Cons p ps)
  let ?b = "unmark p b"
  have "ready ?b" "\<forall>q. valid q \<longrightarrow> owner ?b q = (if q = p then None else owner b q)"
    using unmark [of b p] Cons.prems by auto
  with Cons.IH [of ?b] Cons.prems show ?case by (auto simp: release_def)
qed (simp add: release_def)

text \<open>After a failed attempt the pin of the earlier owner is free: it has been taken from it.\<close>

lemma failed_claim_steals:
  assumes "ready b" "\<forall>p\<in>set (map fst ps). valid p" "q \<in> set (map fst ps)" "owner b q = Some other"
  shows "fst (claim ps b)" and "owner (release (map fst ps) (snd (claim ps b))) q = None"
proof -
  show "fst (claim ps b)" using claim_taken [OF assms(1,2,3)] assms(4) by simp
  have "valid q" using assms(2,3) by blast
  then show "owner (release (map fst ps) (snd (claim ps b))) q = None"
    using release_owner [OF claim_ready [OF assms(1,2)] assms(2)] assms(3) by metis
qed

end

subsection \<open>The repository keeps the contract\<close>

lemma board_firmwareError_simps [simp]:
  "PIN_USED (board_firmwareError err b) = PIN_USED b"
  "totalPinsUsed (board_firmwareError err b) = totalPinsUsed b"
  "repo_initialized (board_firmwareError err b) = repo_initialized b"
  "trace (board_firmwareError err b) = trace b"
  "board.more (board_firmwareError err b) = board.more b"
  by (simp_all add: board_firmwareError_def split: option.splits)

definition gpio_valid :: "ioportid \<times> nat \<Rightarrow> bool" where
  "gpio_valid p \<longleftrightarrow> 1 \<le> fst p \<and> fst p \<le> 8 \<and> snd p < 16"

definition gpio_index :: "ioportid \<times> nat \<Rightarrow> int" where
  "gpio_index p = (int (fst p) - 1) * 16 + int (snd p)"

lemma getBrainIndex_valid: "gpio_valid (port, pin) \<Longrightarrow> getBrainIndex port pin b = (gpio_index (port, pin), b)"
  by (simp add: getBrainIndex_def getPortIndex_def gpio_valid_def gpio_index_def PORT_SIZE_def)

lemma gpio_index_inj: "gpio_valid p \<Longrightarrow> gpio_valid q \<Longrightarrow> gpio_index p = gpio_index q \<longleftrightarrow> p = q"
proof -
  have d: "gpio_index r mod 16 = int (snd r) \<and> gpio_index r div 16 = int (fst r) - 1" if "gpio_valid r" for r
  proof -
    have v: "gpio_valid r" by (rule that)
    then obtain k where "fst r = Suc k" by (cases "fst r") (auto simp: gpio_valid_def)
    with v show ?thesis by (simp add: gpio_valid_def gpio_index_def)
  qed
  show "gpio_valid p \<Longrightarrow> gpio_valid q \<Longrightarrow> gpio_index p = gpio_index q \<longleftrightarrow> p = q"
    using d [of p] d [of q] by (metis prod_eq_iff add_right_cancel diff_add_cancel of_nat_eq_iff)
qed

lemma gpio_index_range: "gpio_valid p \<Longrightarrow> 0 \<le> gpio_index p \<and> gpio_index p < int getNumBrainPins"
  by (cases p) (auto simp: gpio_valid_def gpio_index_def getNumBrainPins_def PORT_SIZE_def)

interpretation gpio_pins: pin_registry
  "\<lambda>p. gpio_pin_markUsed (fst p) (snd p)" "\<lambda>p. gpio_pin_markUnused (fst p) (snd p)"
  "\<lambda>b p. PIN_USED b (gpio_index p)" "totalPinsUsed" gpio_valid
  "repo_initialized :: 'z board_scheme \<Rightarrow> bool"
proof unfold_locales
  fix b :: "'z board_scheme" and p :: "ioportid \<times> nat" and m :: string
  assume r: "repo_initialized b" and v: "gpio_valid p"
  have i: "getBrainIndex (fst p) (snd p) b = (gpio_index p, b)" using getBrainIndex_valid [of "fst p" "snd p" b] v by simp
  show "PIN_USED b (gpio_index p) = None \<Longrightarrow>
      \<not> fst (gpio_pin_markUsed (fst p) (snd p) m b) \<and> repo_initialized (snd (gpio_pin_markUsed (fst p) (snd p) m b)) \<and>
      totalPinsUsed (snd (gpio_pin_markUsed (fst p) (snd p) m b)) = totalPinsUsed b + 1 \<and>
      (\<forall>q. gpio_valid q \<longrightarrow> PIN_USED (snd (gpio_pin_markUsed (fst p) (snd p) m b)) (gpio_index q) =
        (if q = p then Some m else PIN_USED b (gpio_index q)))"
    using r v i by (auto simp: gpio_pin_markUsed_def gpio_index_inj)
  show "PIN_USED b (gpio_index p) \<noteq> None \<Longrightarrow>
      fst (gpio_pin_markUsed (fst p) (snd p) m b) \<and> repo_initialized (snd (gpio_pin_markUsed (fst p) (snd p) m b)) \<and>
      totalPinsUsed (snd (gpio_pin_markUsed (fst p) (snd p) m b)) = totalPinsUsed b \<and>
      (\<lambda>q. PIN_USED (snd (gpio_pin_markUsed (fst p) (snd p) m b)) (gpio_index q)) = (\<lambda>q. PIN_USED b (gpio_index q))"
    using r i by (auto simp: gpio_pin_markUsed_def)
  show "repo_initialized (gpio_pin_markUnused (fst p) (snd p) b) \<and>
      totalPinsUsed (gpio_pin_markUnused (fst p) (snd p) b) =
        totalPinsUsed b - (if PIN_USED b (gpio_index p) = None then 0 else 1) \<and>
      (\<forall>q. gpio_valid q \<longrightarrow> PIN_USED (gpio_pin_markUnused (fst p) (snd p) b) (gpio_index q) =
        (if q = p then None else PIN_USED b (gpio_index q)))"
    using r v i by (auto simp: gpio_pin_markUnused_def gpio_index_inj Let_def)
qed

text \<open>The pins of the whole chip set, claimed by their \<open>brain_pin_e\<close>.\<close>

definition full_cfg :: board_cfg where
  "full_cfg = \<lparr>TLE6240_COUNT = 1, MC33972_COUNT = 1, TLE8888_COUNT = 1\<rparr>"

lemma small_full_cfg: "small_cfg full_cfg"
  by (simp add: small_cfg_def full_cfg_def)

interpretation brain_pins: pin_registry
  "brain_pin_markUsed full_cfg" "brain_pin_markUnused full_cfg"
  "\<lambda>b p. PIN_USED b (brainPin_to_index full_cfg p)" "totalPinsUsed" "pin_present full_cfg"
  "repo_initialized :: 'z board_scheme \<Rightarrow> bool"
proof unfold_locales
  fix b :: "'z board_scheme" and p :: brain_pin and m :: string
  assume r: "repo_initialized b" and v: "pin_present full_cfg p"
  note rng = index_present_range [OF small_full_cfg v]
  have inj: "brainPin_to_index full_cfg q = brainPin_to_index full_cfg p \<longleftrightarrow> q = p" if "pin_present full_cfg q" for q
    using index_present_inj [OF small_full_cfg that v] by auto
  show "PIN_USED b (brainPin_to_index full_cfg p) = None \<Longrightarrow>
      \<not> fst (brain_pin_markUsed full_cfg p m b) \<and> repo_initialized (snd (brain_pin_markUsed full_cfg p m b)) \<and>
      totalPinsUsed (snd (brain_pin_markUsed full_cfg p m b)) = totalPinsUsed b + 1 \<and>
      (\<forall>q. pin_present full_cfg q \<longrightarrow>
        PIN_USED (snd (brain_pin_markUsed full_cfg p m b)) (brainPin_to_index full_cfg q) =
          (if q = p then Some m else PIN_USED b (brainPin_to_index full_cfg q)))"
    using r rng inj by (auto simp: brain_pin_markUsed_def Let_def)
  show "PIN_USED b (brainPin_to_index full_cfg p) \<noteq> None \<Longrightarrow>
      fst (brain_pin_markUsed full_cfg p m b) \<and> repo_initialized (snd (brain_pin_markUsed full_cfg p m b)) \<and>
      totalPinsUsed (snd (brain_pin_markUsed full_cfg p m b)) = totalPinsUsed b \<and>
      (\<lambda>q. PIN_USED (snd (brain_pin_markUsed full_cfg p m b)) (brainPin_to_index full_cfg q)) =
        (\<lambda>q. PIN_USED b (brainPin_to_index full_cfg q))"
    using r rng by (auto simp: brain_pin_markUsed_def Let_def)
  show "repo_initialized (brain_pin_markUnused full_cfg p b) \<and>
      totalPinsUsed (brain_pin_markUnused full_cfg p b) =
        totalPinsUsed b - (if PIN_USED b (brainPin_to_index full_cfg p) = None then 0 else 1) \<and>
      (\<forall>q. pin_present full_cfg q \<longrightarrow>
        PIN_USED (brain_pin_markUnused full_cfg p b) (brainPin_to_index full_cfg q) =
          (if q = p then None else PIN_USED b (brainPin_to_index full_cfg q)))"
    using r rng inj by (auto simp: brain_pin_markUnused_def Let_def)
qed

subsection \<open>Properties\<close>

definition counted :: "'z board_scheme \<Rightarrow> bool" where
  "counted b \<longleftrightarrow> finite {i. PIN_USED b i \<noteq> None} \<and> totalPinsUsed b = int (card {i. PIN_USED b i \<noteq> None})"

lemma counted_mark:
  assumes "counted b" "PIN_USED b i = None"
  shows "counted (b\<lparr>PIN_USED := (PIN_USED b)(i := Some m), totalPinsUsed := totalPinsUsed b + 1\<rparr>)"
proof -
  have "{j. ((PIN_USED b)(i := Some m)) j \<noteq> None} = insert i {j. PIN_USED b j \<noteq> None}" by auto
  with assms show ?thesis by (simp add: counted_def)
qed

lemma counted_unmark:
  assumes "counted b"
  shows "counted ((if PIN_USED b i \<noteq> None then b\<lparr>totalPinsUsed := totalPinsUsed b - 1\<rparr> else b)
    \<lparr>PIN_USED := (PIN_USED b)(i := None)\<rparr>)"
proof -
  have e: "{j. ((PIN_USED b)(i := None)) j \<noteq> None} = {j. PIN_USED b j \<noteq> None} - {i}" by auto
  show ?thesis
  proof (cases "PIN_USED b i = None")
    case False
    then have "0 < card {j. PIN_USED b j \<noteq> None}" using assms by (auto simp: counted_def card_gt_0_iff)
    with False assms show ?thesis
      by (simp add: counted_def e card_Diff_singleton of_nat_diff del: fun_upd_apply not_None_eq)
  qed (use assms in \<open>simp add: counted_def e del: fun_upd_apply not_None_eq\<close>)
qed

lemma counted_error [simp]: "counted (board_firmwareError err b) = counted b"
  by (simp add: counted_def)

lemma getBrainIndex_counted: "getBrainIndex port pin b = (i, b') \<Longrightarrow> counted b \<Longrightarrow> counted b'"
  by (auto simp: getBrainIndex_def getPortIndex_def split: if_splits)

text \<open>
  C32: \<open>totalPinsUsed\<close> is the number of pins with an owner: true after the repository is set up,
  and kept by claiming and releasing a pin by port and pad or by its \<open>brain_pin_e\<close>, the error
  branches included.
\<close>

theorem pin_repository_counts:
  "(totalPinsUsed b = 0 \<longrightarrow> counted (initPinRepository b)) \<and>
   (counted b \<longrightarrow> counted (snd (gpio_pin_markUsed port pin m b)) \<and> counted (gpio_pin_markUnused port pin b) \<and>
     counted (snd (brain_pin_markUsed cfg p m b)) \<and> counted (brain_pin_markUnused cfg p b))"
proof (intro conjI impI)
  show "totalPinsUsed b = 0 \<Longrightarrow> counted (initPinRepository b)"
    by (simp add: counted_def initPinRepository_def initBrainUsedPins_def)
  assume c: "counted b"
  obtain i b' where i: "getBrainIndex port pin b = (i, b')" by fastforce
  note c' = getBrainIndex_counted [OF i c]
  show "counted (snd (gpio_pin_markUsed port pin m b))"
    using c c' counted_mark [OF c', of i m] by (auto simp: gpio_pin_markUsed_def i)
  show "counted (gpio_pin_markUnused port pin b)"
    using c counted_unmark [OF c', of i] by (simp add: gpio_pin_markUnused_def i Let_def split: if_splits)
  show "counted (snd (brain_pin_markUsed cfg p m b))"
    using c counted_mark [OF c, of "brainPin_to_index cfg p" m] by (auto simp: brain_pin_markUsed_def Let_def)
  show "counted (brain_pin_markUnused cfg p b)"
    using c counted_unmark [OF c, of "brainPin_to_index cfg p"]
    by (simp add: brain_pin_markUnused_def Let_def split: if_splits)
qed

definition demo_board :: "board" where
  "demo_board = \<lparr>trace = [], PIN_USED = (\<lambda>_. None), totalPinsUsed = 0, repo_initialized = False, boardErr = None\<rparr>"

theorem pin_repository_counts_witness:
  "counted (snd (gpio_pin_markUsed 1 3 ''CS'' (initPinRepository demo_board)))"
proof -
  have "counted (initPinRepository demo_board)"
    using pin_repository_counts [of demo_board] by (simp add: demo_board_def)
  then show ?thesis using pin_repository_counts [of "initPinRepository demo_board"] by blast
qed

text \<open>When an index is turned back into its pin.\<close>

definition absent_first :: "board_cfg \<Rightarrow> bool" where
  "absent_first cfg \<longleftrightarrow> (TLE8888_COUNT cfg = 0 \<longrightarrow> TLE6240_COUNT cfg = 0 \<and> MC33972_COUNT cfg = 0) \<and>
     (MC33972_COUNT cfg = 0 \<longrightarrow> TLE6240_COUNT cfg = 0)"

definition all_absent :: "board_cfg \<Rightarrow> nat" where
  "all_absent cfg = (if TLE6240_COUNT cfg = 0 then 16 else 0) + (if MC33972_COUNT cfg = 0 then 22 else 0) +
     (if TLE8888_COUNT cfg = 0 then 28 else 0)"

lemma index_to_brainPin_back:
  assumes "small_cfg cfg" "pin_present cfg p"
  shows "index_to_brainPin cfg (nat (brainPin_to_index cfg p)) = p \<longleftrightarrow>
    p < 130 \<or> absent_below cfg p = all_absent cfg"
proof -
  have n: "nat (brainPin_to_index cfg p) = p - 2 - absent_below cfg p"
    using index_present [OF assms] by simp
  show ?thesis
  proof (cases "p < 130")
    case True
    then have "absent_below cfg p = 0" by (simp add: absent_below_def)
    with True assms(2) show ?thesis unfolding n
      by (auto simp: index_to_brainPin_def pin_defs getNumBrainPins_def pin_present_def Let_def)
  next
    case False
    have ge: "130 + absent_below cfg p \<le> p" using assms(2) False
      by (auto simp: pin_present_def absent_below_def)
    then obtain k where k: "p = 130 + absent_below cfg p + k" using le_Suc_ex by blast
    then have "nat (brainPin_to_index cfg p) = 128 + k" "p - absent_below cfg p = 130 + k" unfolding n by simp_all
    then have "index_to_brainPin cfg (nat (brainPin_to_index cfg p)) = (p - absent_below cfg p + all_absent cfg) mod 256"
      by (simp add: index_to_brainPin_def pin_defs getNumBrainPins_def all_absent_def Let_def)
    moreover have "absent_below cfg p \<le> all_absent cfg" "all_absent cfg \<le> 66"
      by (auto simp: absent_below_def all_absent_def)
    moreover have "p - absent_below cfg p + all_absent cfg < 256"
      using assms False by (auto simp: pin_present_def absent_below_def all_absent_def)
    ultimately show ?thesis using False ge by auto
  qed
qed

lemma absent_first_iff:
  "(\<forall>p. pin_present cfg p \<longrightarrow> p < 130 \<or> absent_below cfg p = all_absent cfg) \<longleftrightarrow> absent_first cfg"
proof
  assume l: "\<forall>p. pin_present cfg p \<longrightarrow> p < 130 \<or> absent_below cfg p = all_absent cfg"
  from l [rule_format, of 130] l [rule_format, of 146] l [rule_format, of 168]
  show "absent_first cfg"
    by (cases "TLE6240_COUNT cfg = 0"; cases "MC33972_COUNT cfg = 0"; cases "TLE8888_COUNT cfg = 0")
      (simp_all add: pin_present_def absent_below_def all_absent_def absent_first_def)
qed (auto simp: pin_present_def absent_below_def all_absent_def absent_first_def)

text \<open>
  On a board with at most one chip of each kind the pins that exist have distinct indices
  inside the ownership array, and all of them are got back from their index exactly when no absent
  chip is numbered above a present one; but a pin of an absent chip is given the index of an
  existing pin, so claiming it claims that one.
\<close>

theorem brain_pin_index_sharing:
  assumes cfg: "small_cfg cfg"
  shows "(pin_present cfg p \<and> pin_present cfg q \<and> p \<noteq> q \<longrightarrow> brainPin_to_index cfg p \<noteq> brainPin_to_index cfg q) \<and>
    (pin_present cfg p \<longrightarrow> 0 \<le> brainPin_to_index cfg p \<and>
       brainPin_to_index cfg p < int (getNumBrainPins + BOARD_EXT_PINREPOPINS cfg)) \<and>
    ((\<forall>p. pin_present cfg p \<longrightarrow> index_to_brainPin cfg (nat (brainPin_to_index cfg p)) = p) \<longleftrightarrow> absent_first cfg) \<and>
    (130 \<le> p \<and> p \<le> 195 \<and> \<not> pin_present cfg p \<longrightarrow>
       (\<exists>q. pin_present cfg q \<and> brainPin_to_index cfg p = brainPin_to_index cfg q))"
proof (intro conjI)
  show "pin_present cfg p \<and> pin_present cfg q \<and> p \<noteq> q \<longrightarrow> brainPin_to_index cfg p \<noteq> brainPin_to_index cfg q"
    using index_present_inj [OF cfg] by blast
  show "(\<forall>p. pin_present cfg p \<longrightarrow> index_to_brainPin cfg (nat (brainPin_to_index cfg p)) = p) \<longleftrightarrow> absent_first cfg"
    using index_to_brainPin_back [OF cfg] absent_first_iff [of cfg] by auto
  show "130 \<le> p \<and> p \<le> 195 \<and> \<not> pin_present cfg p \<longrightarrow>
      (\<exists>q. pin_present cfg q \<and> brainPin_to_index cfg p = brainPin_to_index cfg q)"
    using index_absent [OF cfg, of p] pin_at_present [OF cfg] by metis
qed (use index_present_range [OF cfg] in blast)+

theorem brain_pin_index_sharing_witness:
  "\<exists>q. pin_present \<lparr>TLE6240_COUNT = 0, MC33972_COUNT = 1, TLE8888_COUNT = 1\<rparr> q \<and>
     brainPin_to_index \<lparr>TLE6240_COUNT = 0, MC33972_COUNT = 1, TLE8888_COUNT = 1\<rparr> 130 =
     brainPin_to_index \<lparr>TLE6240_COUNT = 0, MC33972_COUNT = 1, TLE8888_COUNT = 1\<rparr> q"
  using brain_pin_index_sharing [of "\<lparr>TLE6240_COUNT = 0, MC33972_COUNT = 1, TLE8888_COUNT = 1\<rparr>" 130 0]
  by (auto simp: small_cfg_def pin_present_def)

lemma atoi_show_pin: "i < 16 \<Longrightarrow> atoi (show_nat i) = int i"
proof -
  assume i: "i < 16"
  have "list_all (\<lambda>i. atoi (show_nat i) = int i) [0..<16]" by code_simp
  with i show ?thesis unfolding list_all_iff by (metis atLeastLessThan_iff atLeastLessThan_upt zero_le)
qed

lemma port_letter: "a < 8 \<Longrightarrow> of_char (''ABCDEFGH'' ! a) = (65 + a :: nat)"
proof -
  assume a: "a < 8"
  have "list_all (\<lambda>a. of_char (''ABCDEFGH'' ! a) = (65 + a :: nat)) [0..<8]" by code_simp
  with a show ?thesis unfolding list_all_iff by (metis atLeastLessThan_iff atLeastLessThan_upt zero_le)
qed

lemma parse_port_pin:
  assumes "a < 8" "i < 16"
  shows "parseBrainPin ([CHR ''P'', ''ABCDEFGH'' ! a] @ show_nat i) = 2 + 16 * a + i"
proof -
  have "int (2 + 16 * a + i) < 256" using assms by simp
  then have "nat ((2 + 16 * int a + int i) mod 256) = 2 + 16 * a + i" by simp
  with assms show ?thesis
    by (simp add: parseBrainPin_def port_letter atoi_show_pin pin_defs Let_def)
qed

text \<open>
  C33: the name printed for a pin of the microcontroller is parsed back to that pin.
\<close>

theorem parse_hwPortname:
  assumes "brain_pin_is_onchip p"
  shows "parseBrainPin (hwPortname gc p) = p"
proof -
  have p: "2 \<le> p" "p < 130" using assms by (auto simp: brain_pin_is_onchip_def pin_defs)
  define a i where "a = (p - 2) div 16" and "i = (p - 2) mod 16"
  have "a < 8" "i < 16" "2 + 16 * a + i = p" using p by (simp_all add: a_def i_def)
  with parse_port_pin [of a i] p assms show ?thesis
    by (simp add: hwPortname_def portname_def getBrainPort_def getBrainPinIndex_def pin_defs
        flip: a_def i_def)
qed

theorem parse_hwPortname_witness: "parseBrainPin (hwPortname (gpio_core_start 3) 45) = 45"
  using parse_hwPortname [of 45] by (simp add: brain_pin_is_onchip_def pin_defs)

end
