(* ===== verification/Fsio_Impl.thy ===== *)
theory Fsio_Impl
  imports Fsio_Eval Output_Pins Pin_Repository
begin

text \<open>
  The flexible logic of the controller, src/firmware/controllers/core/fsio_impl.cpp with the system expressions of
  controllers/system_fsio.h: the names of the language, what they read of the engine, the user formulas, the relays the
  expressions drive, and the hard-coded logic of builds without the language. Sensors are a view of the engine; the console
  reports are left out.
\<close>

subsection \<open>Names\<close>

text \<open>Each constructor puts its name in front of the list; the names of the generated settings are in fsio_names.def.\<close>

definition core_names :: "LENameOrdinalPair list" where
  "core_names =
     [(LE_OPERATOR_AND, ''and''), (LE_OPERATOR_AND, ''&''), (LE_OPERATOR_OR, ''or''),
      (LE_OPERATOR_OR, ''|''), (LE_OPERATOR_NOT, ''not''), (LE_OPERATOR_ADDITION, ''+''),
      (LE_OPERATOR_SUBTRACTION, ''-''), (LE_OPERATOR_MULTIPLICATION, ''*''), (LE_OPERATOR_DIVISION, ''/''),
      (LE_OPERATOR_MORE, ''>''), (LE_OPERATOR_MORE_OR_EQUAL, ''>=''), (LE_OPERATOR_LESS, ''<''),
      (LE_OPERATOR_LESS_OR_EQUAL, ''<=''), (LE_METHOD_MAX, ''max''), (LE_METHOD_MIN, ''min''),
      (LE_METHOD_IF, ''if''), (LE_METHOD_SELF, ''self'')]"

definition impl_names :: "LENameOrdinalPair list" where
  "impl_names =
     [(LE_METHOD_RPM, ''rpm''), (LE_METHOD_TPS, ''tps''), (LE_METHOD_PPS, ''pps''),
      (LE_METHOD_MAF, ''maf''), (LE_METHOD_MAP, ''map''), (LE_METHOD_VBATT, ''vbatt''),
      (LE_METHOD_FAN, ''fan''), (LE_METHOD_COOLANT, ''coolant''), (LE_METHOD_IS_COOLANT_BROKEN, ''is_clt_broken''),
      (LE_METHOD_AC_TOGGLE, ''ac_on_switch''), (LE_METHOD_TIME_SINCE_AC_TOGGLE, ''time_since_ac_on_switch''), (LE_METHOD_TIME_SINCE_BOOT, ''time_since_boot''),
      (LE_METHOD_FSIO_SETTING, ''fsio_setting''), (LE_METHOD_FSIO_TABLE, ''fsio_table''), (LE_METHOD_FSIO_ANALOG_INPUT, ''fsio_analog_input''),
      (LE_METHOD_FSIO_DIGITAL_INPUT, ''fsio_digital_input''), (LE_METHOD_KNOCK, ''knock''), (LE_METHOD_INTAKE_VVT, ''ivvt''),
      (LE_METHOD_EXHAUST_VVT, ''evvt''), (LE_METHOD_CRANKING_RPM, ''cranking_rpm''), (LE_METHOD_STARTUP_FUEL_PUMP_DURATION, ''startup_fuel_pump_duration''),
      (LE_METHOD_IN_SHUTDOWN, ''in_shutdown'')]"

definition generated_names :: "LENameOrdinalPair list" where
  "generated_names =
     [(LE_GENERATED FSIO_SETTING_FANONTEMPERATURE, ''cfg_fanOnTemperature''), (LE_GENERATED FSIO_SETTING_FANOFFTEMPERATURE, ''cfg_fanOffTemperature''),
      (LE_GENERATED FSIO_SETTING_BOOSTPID_OFFSET, ''cfg_boostPid_offset''), (LE_GENERATED FSIO_SETTING_BOOSTPID_MINVALUE, ''cfg_boostPid_minValue''),
      (LE_GENERATED FSIO_SETTING_VVT_VVTPID_OFFSET, ''cfg_vvt_vvtPid_offset''), (LE_GENERATED FSIO_SETTING_VVT_VVTPID_MINVALUE, ''cfg_vvt_vvtPid_minValue''),
      (LE_GENERATED FSIO_SETTING_ALTERNATORCONTROL_OFFSET, ''cfg_alternatorControl_offset''), (LE_GENERATED FSIO_SETTING_ALTERNATORCONTROL_MINVALUE, ''cfg_alternatorControl_minValue''),
      (LE_GENERATED FSIO_SETTING_ETB_OFFSET, ''cfg_etb_offset''), (LE_GENERATED FSIO_SETTING_ETB_MINVALUE, ''cfg_etb_minValue''),
      (LE_GENERATED FSIO_SETTING_IDLERPMPID_OFFSET, ''cfg_idleRpmPid_offset''), (LE_GENERATED FSIO_SETTING_IDLERPMPID_MINVALUE, ''cfg_idleRpmPid_minValue''),
      (LE_GENERATED FSIO_SETTING_STARTUPFUELPUMPDURATION, ''cfg_startUpFuelPumpDuration''), (LE_GENERATED FSIO_SETTING_FUELCLOSEDLOOPPID_OFFSET, ''cfg_fuelClosedLoopPid_offset''),
      (LE_GENERATED FSIO_SETTING_FUELCLOSEDLOOPPID_MINVALUE, ''cfg_fuelClosedLoopPid_minValue''), (LE_GENERATED FSIO_SETTING_AUXPID1_OFFSET, ''cfg_auxPid1_offset''),
      (LE_GENERATED FSIO_SETTING_AUXPID1_MINVALUE, ''cfg_auxPid1_minValue''), (LE_GENERATED FSIO_SETTING_AUXPID2_OFFSET, ''cfg_auxPid2_offset''),
      (LE_GENERATED FSIO_SETTING_AUXPID2_MINVALUE, ''cfg_auxPid2_minValue''), (LE_GENERATED FSIO_SETTING_AUXPID3_OFFSET, ''cfg_auxPid3_offset''),
      (LE_GENERATED FSIO_SETTING_AUXPID3_MINVALUE, ''cfg_auxPid3_minValue''), (LE_GENERATED FSIO_SETTING_AUXPID4_OFFSET, ''cfg_auxPid4_offset''),
      (LE_GENERATED FSIO_SETTING_AUXPID4_MINVALUE, ''cfg_auxPid4_minValue''), (LE_GENERATED FSIO_SETTING_IDLETIMINGPID_OFFSET, ''cfg_idleTimingPid_offset''),
      (LE_GENERATED FSIO_SETTING_IDLETIMINGPID_MINVALUE, ''cfg_idleTimingPid_minValue''), (LE_GENERATED FSIO_SETTING_IDLERPMPID2_OFFSET, ''cfg_idleRpmPid2_offset''),
      (LE_GENERATED FSIO_SETTING_IDLERPMPID2_MINVALUE, ''cfg_idleRpmPid2_minValue'')]"

definition LE_FIRST :: "LENameOrdinalPair list" where
  "LE_FIRST = rev (core_names @ impl_names @ generated_names)"

subsection \<open>System expressions\<close>

definition FAN_CONTROL_LOGIC :: string where
  "FAN_CONTROL_LOGIC = ''fan coolant cfg_fanOffTemperature > and coolant cfg_fanOnTemperature > | is_clt_broken |''"

definition FUEL_PUMP_LOGIC :: string where
  "FUEL_PUMP_LOGIC = ''time_since_boot startup_fuel_pump_duration < rpm 0 > |''"

definition ALTERNATOR_LOGIC :: string where
  "ALTERNATOR_LOGIC = ''vbatt 14.5 <''"

definition AC_RELAY_LOGIC :: string where
  "AC_RELAY_LOGIC = ''ac_on_switch rpm & 850 >''"

definition MAIN_RELAY_LOGIC :: string where
  "MAIN_RELAY_LOGIC = ''time_since_boot 2 < vbatt 5 > | in_shutdown |''"

definition STARTER_RELAY_LOGIC :: string where
  "STARTER_RELAY_LOGIC = ''rpm cranking_rpm <''"

definition BOOST_CONTROLLER :: string where
  "BOOST_CONTROLLER = ''3 rpm map fsio_table 100 /''"

definition ANALOG_CONDITION :: string where
  "ANALOG_CONDITION = ''0 fsio_setting 20 > 0 10 if''"

subsection \<open>What the language reads of the engine\<close>

text \<open>A sensor without a valid value is None; the generated settings are read from the configuration.\<close>

record engine_view =
  view_fan :: bool
  view_timeSinceAcToggle :: fval
  view_acToggle :: bool
  view_clt :: "fval option"
  view_iat :: "fval option"
  view_rpm :: int
  view_maf :: fval
  view_map :: fval
  view_vvtPosition :: fval
  view_timeNowSeconds :: int
  view_startUpFuelPumpDuration :: int
  view_crankingRpm :: int
  view_inShutdown :: bool
  view_vbatt :: fval
  view_tps :: "fval option"
  view_isRunning :: bool
  view_isCltBroken :: bool
  view_generated :: "fsio_generated_e \<Rightarrow> fval"

definition value_or :: "fval option \<Rightarrow> fval \<Rightarrow> fval" where
  "value_or v d = (case v of None \<Rightarrow> d | Some x \<Rightarrow> x)"

definition getEngineValue :: "rounding \<Rightarrow> engine_view \<Rightarrow> le_action_e \<Rightarrow> fval \<times> string list" where
  "getEngineValue fl v action =
     (case action of
        LE_METHOD_FAN \<Rightarrow> (f_bool (view_fan v), [])
      | LE_METHOD_TIME_SINCE_AC_TOGGLE \<Rightarrow> (view_timeSinceAcToggle v, [])
      | LE_METHOD_AC_TOGGLE \<Rightarrow> (f_bool (view_acToggle v), [])
      | LE_METHOD_COOLANT \<Rightarrow> (value_or (view_clt v) (FNum False 0), [])
      | LE_METHOD_IS_COOLANT_BROKEN \<Rightarrow> (f_bool (view_clt v = None), [])
      | LE_METHOD_INTAKE_AIR \<Rightarrow> (value_or (view_iat v) (FNum False 0), [])
      | LE_METHOD_RPM \<Rightarrow> (f_int fl (view_rpm v), [])
      | LE_METHOD_MAF \<Rightarrow> (view_maf v, [])
      | LE_METHOD_MAP \<Rightarrow> (view_map v, [])
      | LE_METHOD_INTAKE_VVT \<Rightarrow> (view_vvtPosition v, [])
      | LE_METHOD_EXHAUST_VVT \<Rightarrow> (view_vvtPosition v, [])
      | LE_METHOD_TIME_SINCE_BOOT \<Rightarrow> (f_int fl (view_timeNowSeconds v), [])
      | LE_METHOD_STARTUP_FUEL_PUMP_DURATION \<Rightarrow> (f_int fl (view_startUpFuelPumpDuration v), [])
      | LE_METHOD_CRANKING_RPM \<Rightarrow> (f_int fl (view_crankingRpm v), [])
      | LE_METHOD_IN_SHUTDOWN \<Rightarrow> (f_bool (view_inShutdown v), [])
      | LE_METHOD_VBATT \<Rightarrow> (view_vbatt v, [])
      | LE_METHOD_TPS \<Rightarrow> (value_or (view_tps v) (FNum False 0), [])
      | LE_GENERATED g \<Rightarrow> (view_generated v g, [])
      | _ \<Rightarrow> (FNaN, [''FSIO ERROR no data for action'']))"

subsection \<open>The state\<close>

definition NO_PWM :: int where "NO_PWM = 0"
definition LE_COMMAND_LENGTH :: nat where "LE_COMMAND_LENGTH = 200"
definition LE_EVAL_POOL_SIZE :: nat where "LE_EVAL_POOL_SIZE = 32"
definition SYS_ELEMENT_POOL_SIZE :: nat where "SYS_ELEMENT_POOL_SIZE = 128"
definition UD_ELEMENT_POOL_SIZE :: nat where "UD_ELEMENT_POOL_SIZE = 128"
definition FSIO_ANALOG_INPUT_COUNT :: nat where "FSIO_ANALOG_INPUT_COUNT = 4"
definition AUX_PID_COUNT :: nat where "AUX_PID_COUNT = 4"
definition MAGIC_OFFSET_FOR_ENGINE_WARNING :: nat where "MAGIC_OFFSET_FOR_ENGINE_WARNING = 4"
definition MAGIC_OFFSET_FOR_CRITICAL_ENGINE :: nat where "MAGIC_OFFSET_FOR_CRITICAL_ENGINE = 5"
definition MAGIC_OFFSET_FOR_IDLE_OFFSET :: nat where "MAGIC_OFFSET_FOR_IDLE_OFFSET = 12"
definition MAGIC_OFFSET_FOR_IDLE_MIN_VALUE :: nat where "MAGIC_OFFSET_FOR_IDLE_MIN_VALUE = 13"
definition MAGIC_OFFSET_FOR_IDLE_TARGET_RPM :: nat where "MAGIC_OFFSET_FOR_IDLE_TARGET_RPM = 14"
definition MAGIC_OFFSET_FOR_TIMING_FSIO :: nat where "MAGIC_OFFSET_FOR_TIMING_FSIO = 15"

text \<open>What the code asks of the rest of the controller, in order.\<close>

datatype fsio_effect =
    PinEffect "pin_io list"
  | SetDutyCycle nat fval
  | StartPwm nat brain_pin int
  | SetInputMode brain_pin
  | ScheduleStopEngine
  | EvaluateResult fval
  | FsioWarning string

text \<open>The expressions of \<open>fsioLogics\<close> live in the user pool, the others in the system pool.\<close>

record fsio_state =
  calc :: LECalculator
  evalCalc :: LECalculator
  sysPool :: LEElementPool
  userPool :: LEElementPool
  evalPool :: LEElementPool
  fsioLogics :: "nat option list"
  acRelayLogic :: "nat option"
  fuelPumpLogic :: "nat option"
  radiatorFanLogic :: "nat option"
  alternatorLogic :: "nat option"
  starterRelayDisableLogic :: "nat option"
  mainRelayLogic :: "nat option"
  fsioLastValue :: "fval list"
  servoValues :: "fval list"
  isEngineWarning :: fval
  isCriticalEngineCondition :: fval
  fsioIdleOffset :: fval
  fsioIdleMinValue :: fval
  fsioIdleTargetRPMAdjustment :: fval
  fsioTimingAdjustment :: fval
  fsioOutputPins :: "brain_pin list"
  fsioFrequency :: "int list"
  fsioFormulas :: "string list"
  fsio_settings :: "fval list"
  fsioAdc :: "brain_pin list"
  fsioDigitalInputs :: "brain_pin list"
  auxPidPins :: "brain_pin list"
  fsioOutputs :: "OutputPin list"
  fuelPumpRelay :: OutputPin
  mainRelay :: OutputPin
  starterRelayDisable :: OutputPin
  o2heater :: OutputPin
  acRelay :: OutputPin
  fanRelay :: OutputPin
  fsio_log :: "fsio_effect list"

text \<open>The part of the configuration this code reads only, and the build flag \<open>EFI_MAIN_RELAY_CONTROL\<close>.\<close>

record fsio_config =
  fuelPumpPin :: brain_pin
  mainRelayPin :: brain_pin
  starterRelayDisablePin :: brain_pin
  acRelayPin :: brain_pin
  fanPin :: brain_pin
  useFSIO4ForSeriousEngineWarning :: bool
  useFSIO5ForCriticalIssueEngineStop :: bool
  useFSIO12ForIdleOffset :: bool
  useFSIO13ForIdleMinValue :: bool
  useFSIO15ForIdleRpmAdjustment :: bool
  useFSIO16ForTimingAdjustment :: bool
  useFSIO8ForServo1 :: bool
  useFSIO9ForServo2 :: bool
  useFSIO10ForServo3 :: bool
  useFSIO11ForServo4 :: bool
  useFSIO12ForServo5 :: bool
  main_relay_control :: bool

text \<open>The inputs of one invocation.\<close>

record fsio_input =
  in_fl :: rounding
  in_view :: engine_view
  in_table :: "int \<Rightarrow> fval \<Rightarrow> fval \<Rightarrow> fval"
  in_adc_voltage :: fval
  in_knockCount :: int
  in_stack_ok :: bool
  in_benchTest :: bool

definition fsio_environment :: "fsio_input \<Rightarrow> fsio_state \<Rightarrow> fsio_env" where
  "fsio_environment i s =
     \<lparr>fsio_fl = in_fl i, engineValue = getEngineValue (in_fl i) ((in_view i)\<lparr>view_fan := getLogicValue (fanRelay s)\<rparr>),
      fsio_setting = fsio_settings s, fsio_table = in_table i, fsioAdc_voltage = in_adc_voltage i,
      env_knockCount = in_knockCount i, fsio_stack_ok = in_stack_ok i\<rparr>"

definition fsio_effects :: "fsio_effect list \<Rightarrow> fsio_state \<Rightarrow> fsio_state" where
  "fsio_effects es s = s\<lparr>fsio_log := fsio_log s @ es\<rparr>"

subsection \<open>User formulas\<close>

text \<open>A formula that is too long leaves the new pin with the old formula.\<close>

definition setFsioExt :: "nat \<Rightarrow> brain_pin \<Rightarrow> string \<Rightarrow> int \<Rightarrow> fsio_state \<Rightarrow> fsio_state" where
  "setFsioExt index pin formula pwmFrequency s =
     (let s = s\<lparr>fsioOutputPins := (fsioOutputPins s)[index := pin]\<rparr>
      in if length formula \<ge> LE_COMMAND_LENGTH then s
         else s\<lparr>fsioFormulas := (fsioFormulas s)[index := formula], fsioFrequency := (fsioFrequency s)[index := pwmFrequency]\<rparr>)"

definition setFsio :: "nat \<Rightarrow> brain_pin \<Rightarrow> string \<Rightarrow> fsio_state \<Rightarrow> fsio_state" where
  "setFsio index pin formula s = setFsioExt index pin formula NO_PWM s"

definition apply_formula :: "rounding \<Rightarrow> nat \<Rightarrow> fsio_state \<Rightarrow> fsio_state" where
  "apply_formula fl i s =
     (case parseExpression LE_FIRST fl (fsioFormulas s ! i) (userPool s) of
        (logic, pool) \<Rightarrow>
          let s = s\<lparr>userPool := pool\<rparr>;
              s = (if fsioOutputPins s ! i \<noteq> GPIO_UNASSIGNED \<and> logic = None then fsio_effects [FsioWarning ''parsing''] s else s)
          in s\<lparr>fsioLogics := (fsioLogics s)[i := logic]\<rparr>)"

definition applyFsioConfiguration :: "rounding \<Rightarrow> fsio_state \<Rightarrow> fsio_state" where
  "applyFsioConfiguration fl s =
     fold (apply_formula fl) [0..<FSIO_COMMAND_COUNT] (s\<lparr>userPool := LEElementPool_reset (userPool s)\<rparr>)"

text \<open>
  For a line that is a single quote the code shortens the line to the empty one and returns the pointer behind its terminator, so the caller
  reads beyond the string; here the result is the empty string.
\<close>

definition unquote :: "string \<Rightarrow> string" where
  "unquote line =
     (if line \<noteq> [] \<and> hd line = CHR 0x22 \<and> List.last line = CHR 0x22 then tl (butlast line) else line)"

definition setFsioExpression :: "rounding \<Rightarrow> string \<Rightarrow> string \<Rightarrow> fsio_state \<Rightarrow> fsio_state" where
  "setFsioExpression fl indexStr quotedLine s =
     (let index = to_i32 (atoi indexStr - 1)
      in if index < 0 \<or> index \<ge> int FSIO_COMMAND_COUNT then s
         else let l = unquote quotedLine
              in if length l > LE_COMMAND_LENGTH - 1 then s
                 else applyFsioConfiguration fl (s\<lparr>fsioFormulas := (fsioFormulas s)[nat index := l]\<rparr>))"

text \<open>The pins and settings from the console; the printed pin names are not shown.\<close>

definition fsio_index :: "string \<Rightarrow> nat \<Rightarrow> nat option" where
  "fsio_index indexStr n =
     (let index = to_i32 (atoi indexStr - 1) in if index < 0 \<or> index \<ge> int n then None else Some (nat index))"

definition setFsioAnalogInputPin :: "string \<Rightarrow> string \<Rightarrow> fsio_state \<Rightarrow> fsio_state" where
  "setFsioAnalogInputPin indexStr pinName s =
     (case fsio_index indexStr FSIO_ANALOG_INPUT_COUNT of
        None \<Rightarrow> s
      | Some index \<Rightarrow>
          let pin = parseBrainPin pinName
          in if pin = GPIO_INVALID then s else s\<lparr>fsioAdc := (fsioAdc s)[index := pin]\<rparr>)"

definition setFsioDigitalInputPin :: "string \<Rightarrow> string \<Rightarrow> fsio_state \<Rightarrow> fsio_state" where
  "setFsioDigitalInputPin indexStr pinName s =
     (case fsio_index indexStr FSIO_COMMAND_COUNT of
        None \<Rightarrow> s
      | Some index \<Rightarrow>
          let pin = parseBrainPin pinName
          in if pin = GPIO_INVALID then s else s\<lparr>fsioDigitalInputs := (fsioDigitalInputs s)[index := pin]\<rparr>)"

definition setFsioPidOutputPin :: "string \<Rightarrow> string \<Rightarrow> fsio_state \<Rightarrow> fsio_state" where
  "setFsioPidOutputPin indexStr pinName s =
     (case fsio_index indexStr AUX_PID_COUNT of
        None \<Rightarrow> s
      | Some index \<Rightarrow>
          let pin = parseBrainPin pinName
          in if pin = GPIO_INVALID then s else s\<lparr>auxPidPins := (auxPidPins s)[index := pin]\<rparr>)"

definition setFsioOutputPin :: "string \<Rightarrow> string \<Rightarrow> fsio_state \<Rightarrow> fsio_state" where
  "setFsioOutputPin indexStr pinName s =
     (case fsio_index indexStr FSIO_COMMAND_COUNT of
        None \<Rightarrow> s
      | Some index \<Rightarrow>
          let pin = parseBrainPin pinName
          in if pin = GPIO_INVALID then s else s\<lparr>fsioOutputPins := (fsioOutputPins s)[index := pin]\<rparr>)"

definition setFsioFrequency :: "int \<Rightarrow> int \<Rightarrow> fsio_state \<Rightarrow> fsio_state" where
  "setFsioFrequency index frequency s =
     (let index = to_i32 (index - 1)
      in if index < 0 \<or> index \<ge> int FSIO_COMMAND_COUNT then s
         else s\<lparr>fsioFrequency := (fsioFrequency s)[nat index := frequency]\<rparr>)"

definition setFsioSetting :: "fval \<Rightarrow> fval \<Rightarrow> fsio_state \<Rightarrow> fsio_state" where
  "setFsioSetting humanIndexF v s =
     (let index = to_i32 (f_trunc humanIndexF - 1)
      in if index < 0 \<or> index \<ge> int FSIO_COMMAND_COUNT then s
         else s\<lparr>fsio_settings := (fsio_settings s)[nat index := v]\<rparr>)"

subsection \<open>Evaluation\<close>

definition getFsioOutputValue :: "fsio_input \<Rightarrow> nat \<Rightarrow> fsio_state \<Rightarrow> fval \<times> fsio_state" where
  "getFsioOutputValue i index s =
     (case fsioLogics s ! index of
        None \<Rightarrow> (FNaN, fsio_effects [FsioWarning ''no FSIO''] s)
      | Some logic \<Rightarrow>
          (case LECalculator_getValue2 (fsio_environment i s) (le_pool (userPool s)) (fsioLastValue s ! index) logic (calc s) of
             (v, c) \<Rightarrow> (v, s\<lparr>calc := c\<rparr>)))"

definition handleFsio :: "fsio_input \<Rightarrow> nat \<Rightarrow> fsio_state \<Rightarrow> fsio_state" where
  "handleFsio i index s =
     (if fsioOutputPins s ! index = GPIO_UNASSIGNED then s\<lparr>fsioLastValue := (fsioLastValue s)[index := FNaN]\<rparr>
      else
        let isPwmMode = (fsioFrequency s ! index \<noteq> NO_PWM)
        in case getFsioOutputValue i index s of
             (fvalue, s) \<Rightarrow>
               let s = s\<lparr>fsioLastValue := (fsioLastValue s)[index := fvalue]\<rparr>
               in if isPwmMode then fsio_effects [SetDutyCycle index fvalue] s
                  else
                    let v = f_trunc fvalue; out = fsioOutputs s ! index
                    in if v \<noteq> of_bool (getLogicValue out)
                       then case setValue v out of
                              (out, io) \<Rightarrow> fsio_effects [PinEffect io] (s\<lparr>fsioOutputs := (fsioOutputs s)[index := out]\<rparr>)
                       else s)"

text \<open>A relay follows its expression unless a bench test runs.\<close>

definition setPinState :: "fsio_input \<Rightarrow> nat option \<Rightarrow> OutputPin \<Rightarrow> fsio_state \<Rightarrow> OutputPin \<times> fsio_state" where
  "setPinState i element pin s =
     (if in_benchTest i then (pin, s)
      else case element of
        None \<Rightarrow> (pin, fsio_effects [FsioWarning ''invalid expression''] s)
      | Some e \<Rightarrow>
          (case LECalculator_getValue2 (fsio_environment i s) (le_pool (sysPool s)) (f_bool (getLogicValue pin)) e (calc s) of
             (result, c) \<Rightarrow>
               let s = s\<lparr>calc := c\<rparr>; v = f_trunc result
               in if isInitialized pin \<and> v \<noteq> of_bool (getLogicValue pin)
                  then case setValue v pin of (pin, io) \<Rightarrow> (pin, fsio_effects [PinEffect io] s)
                  else (pin, s)))"

definition updateValueOrWarning :: "fsio_input \<Rightarrow> nat \<Rightarrow> fval \<Rightarrow> fsio_state \<Rightarrow> bool \<times> fval \<times> fsio_state" where
  "updateValueOrWarning i fsioIndex beforeValue s =
     (case fsioLogics s ! fsioIndex of
        None \<Rightarrow> (False, beforeValue, fsio_effects [FsioWarning ''invalid expression''] s)
      | Some element \<Rightarrow>
          (case LECalculator_getValue2 (fsio_environment i s) (le_pool (userPool s)) beforeValue element (calc s) of
             (v, c) \<Rightarrow> (\<not> f_eq beforeValue v, v, s\<lparr>calc := c\<rparr>)))"

definition useFsioForServo :: "fsio_input \<Rightarrow> nat \<Rightarrow> fsio_state \<Rightarrow> fsio_state" where
  "useFsioForServo i servoIndex s =
     (case updateValueOrWarning i (8 - 1 + servoIndex) (servoValues s ! servoIndex) s of
        (_, v, s) \<Rightarrow> s\<lparr>servoValues := (servoValues s)[servoIndex := v]\<rparr>)"

text \<open>\<open>runFsio\<close>: the user outputs, the relays, then the values for the rest of the controller.\<close>

definition run_relays :: "fsio_config \<Rightarrow> fsio_input \<Rightarrow> fsio_state \<Rightarrow> fsio_state" where
  "run_relays cfg i s =
     (let s = (if fuelPumpPin cfg \<noteq> GPIO_UNASSIGNED
               then case setPinState i (fuelPumpLogic s) (fuelPumpRelay s) s of (pin, s) \<Rightarrow> s\<lparr>fuelPumpRelay := pin\<rparr> else s);
          s = (if mainRelayPin cfg \<noteq> GPIO_UNASSIGNED then
                 if main_relay_control cfg
                 then case setPinState i (mainRelayLogic s) (mainRelay s) s of (pin, s) \<Rightarrow> s\<lparr>mainRelay := pin\<rparr>
                 else case setValue 1 (mainRelay s) of (pin, io) \<Rightarrow> fsio_effects [PinEffect io] (s\<lparr>mainRelay := pin\<rparr>)
               else s);
          s = (if starterRelayDisablePin cfg \<noteq> GPIO_UNASSIGNED
               then case setPinState i (starterRelayDisableLogic s) (starterRelayDisable s) s of (pin, s) \<Rightarrow> s\<lparr>starterRelayDisable := pin\<rparr>
               else s);
          s = (case setValue (of_bool (view_isRunning (in_view i))) (o2heater s) of
                 (pin, io) \<Rightarrow> fsio_effects [PinEffect io] (s\<lparr>o2heater := pin\<rparr>));
          s = (if acRelayPin cfg \<noteq> GPIO_UNASSIGNED
               then case setPinState i (acRelayLogic s) (acRelay s) s of (pin, s) \<Rightarrow> s\<lparr>acRelay := pin\<rparr> else s)
      in if fanPin cfg \<noteq> GPIO_UNASSIGNED
         then case setPinState i (radiatorFanLogic s) (fanRelay s) s of (pin, s) \<Rightarrow> s\<lparr>fanRelay := pin\<rparr> else s)"

definition run_values :: "fsio_config \<Rightarrow> fsio_input \<Rightarrow> fsio_state \<Rightarrow> fsio_state" where
  "run_values cfg i s =
     (let s = (if useFSIO4ForSeriousEngineWarning cfg
               then case updateValueOrWarning i MAGIC_OFFSET_FOR_ENGINE_WARNING (isEngineWarning s) s of
                      (_, v, s) \<Rightarrow> s\<lparr>isEngineWarning := v\<rparr> else s);
          s = (if useFSIO5ForCriticalIssueEngineStop cfg
               then case updateValueOrWarning i MAGIC_OFFSET_FOR_CRITICAL_ENGINE (isCriticalEngineCondition s) s of
                      (changed, v, s) \<Rightarrow>
                        let s = s\<lparr>isCriticalEngineCondition := v\<rparr>
                        in if changed \<and> float2bool v then fsio_effects [ScheduleStopEngine] s else s
               else s);
          s = (if useFSIO12ForIdleOffset cfg
               then case updateValueOrWarning i MAGIC_OFFSET_FOR_IDLE_OFFSET (fsioIdleOffset s) s of
                      (_, v, s) \<Rightarrow> s\<lparr>fsioIdleOffset := v\<rparr> else s);
          s = (if useFSIO13ForIdleMinValue cfg
               then case updateValueOrWarning i MAGIC_OFFSET_FOR_IDLE_MIN_VALUE (fsioIdleMinValue s) s of
                      (_, v, s) \<Rightarrow> s\<lparr>fsioIdleMinValue := v\<rparr> else s);
          s = (if useFSIO15ForIdleRpmAdjustment cfg
               then case updateValueOrWarning i MAGIC_OFFSET_FOR_IDLE_TARGET_RPM (fsioIdleTargetRPMAdjustment s) s of
                      (_, v, s) \<Rightarrow> s\<lparr>fsioIdleTargetRPMAdjustment := v\<rparr> else s);
          s = (if useFSIO16ForTimingAdjustment cfg
               then case updateValueOrWarning i MAGIC_OFFSET_FOR_TIMING_FSIO (fsioTimingAdjustment s) s of
                      (_, v, s) \<Rightarrow> s\<lparr>fsioTimingAdjustment := v\<rparr> else s);
          s = (if useFSIO8ForServo1 cfg then useFsioForServo i 0 s else s);
          s = (if useFSIO9ForServo2 cfg then useFsioForServo i 1 s else s);
          s = (if useFSIO10ForServo3 cfg then useFsioForServo i 2 s else s);
          s = (if useFSIO11ForServo4 cfg then useFsioForServo i 3 s else s)
      in if useFSIO12ForServo5 cfg then useFsioForServo i 4 s else s)"

definition runFsio :: "fsio_config \<Rightarrow> fsio_input \<Rightarrow> fsio_state \<Rightarrow> fsio_state" where
  "runFsio cfg i s = run_values cfg i (run_relays cfg i (fold (handleFsio i) [0..<FSIO_COMMAND_COUNT] s))"

definition rpnEval :: "fsio_input \<Rightarrow> string \<Rightarrow> fsio_state \<Rightarrow> fsio_state" where
  "rpnEval i line s =
     (let s = s\<lparr>evalPool := LEElementPool_reset (evalPool s)\<rparr>
      in case parseExpression LE_FIRST (in_fl i) (unquote line) (evalPool s) of
           (None, pool) \<Rightarrow> fsio_effects [FsioWarning ''parsing failed''] (s\<lparr>evalPool := pool\<rparr>)
         | (Some e, pool) \<Rightarrow>
             (case LECalculator_getValue2 (fsio_environment i s) (le_pool pool) (FNum False 0) e (evalCalc s) of
                (result, c) \<Rightarrow> fsio_effects [EvaluateResult result] (s\<lparr>evalPool := pool, evalCalc := c\<rparr>)))"

subsection \<open>Start\<close>

definition parse_system :: "rounding \<Rightarrow> string \<Rightarrow> fsio_state \<Rightarrow> nat option \<times> fsio_state" where
  "parse_system fl text s =
     (case parseExpression LE_FIRST fl text (sysPool s) of (logic, pool) \<Rightarrow> (logic, s\<lparr>sysPool := pool\<rparr>))"

text \<open>\<open>onchip\<close> is what \<open>initPin\<close> looks up of a brain pin.\<close>

definition init_output :: "(brain_pin \<Rightarrow> (nat option \<times> nat) option) \<Rightarrow> nat \<Rightarrow> fsio_state \<Rightarrow> fsio_state" where
  "init_output onchip i s =
     (let brainPin = fsioOutputPins s ! i
      in if brainPin \<noteq> GPIO_UNASSIGNED then
           let frequency = fsioFrequency s ! i
           in if frequency = 0
              then case initPin brainPin False (onchip brainPin) OM_DEFAULT (fsioOutputs s ! i) of
                     (out, io) \<Rightarrow> fsio_effects [PinEffect io] (s\<lparr>fsioOutputs := (fsioOutputs s)[i := out]\<rparr>)
              else fsio_effects [StartPwm i brainPin frequency] s
         else s)"

definition init_input :: "nat \<Rightarrow> fsio_state \<Rightarrow> fsio_state" where
  "init_input i s =
     (if fsioDigitalInputs s ! i \<noteq> GPIO_UNASSIGNED then fsio_effects [SetInputMode (fsioDigitalInputs s ! i)] s else s)"

definition initFsioImpl :: "fsio_config \<Rightarrow> rounding \<Rightarrow> (brain_pin \<Rightarrow> (nat option \<times> nat) option) \<Rightarrow> fsio_state \<Rightarrow> fsio_state" where
  "initFsioImpl cfg fl onchip s =
     (let s = (case parse_system fl FUEL_PUMP_LOGIC s of (e, s) \<Rightarrow> s\<lparr>fuelPumpLogic := e\<rparr>);
          s = (case parse_system fl AC_RELAY_LOGIC s of (e, s) \<Rightarrow> s\<lparr>acRelayLogic := e\<rparr>);
          s = (case parse_system fl FAN_CONTROL_LOGIC s of (e, s) \<Rightarrow> s\<lparr>radiatorFanLogic := e\<rparr>);
          s = (case parse_system fl ALTERNATOR_LOGIC s of (e, s) \<Rightarrow> s\<lparr>alternatorLogic := e\<rparr>);
          s = (if main_relay_control cfg \<and> mainRelayPin cfg \<noteq> GPIO_UNASSIGNED
               then case parse_system fl MAIN_RELAY_LOGIC s of (e, s) \<Rightarrow> s\<lparr>mainRelayLogic := e\<rparr> else s);
          s = (if starterRelayDisablePin cfg \<noteq> GPIO_UNASSIGNED
               then case parse_system fl STARTER_RELAY_LOGIC s of (e, s) \<Rightarrow> s\<lparr>starterRelayDisableLogic := e\<rparr> else s)
      in fold init_input [0..<FSIO_COMMAND_COUNT] (fold (init_output onchip) [0..<FSIO_COMMAND_COUNT] s))"

subsection \<open>Builds without the language\<close>

definition hardcoded_fan :: "engine_view \<Rightarrow> OutputPin \<Rightarrow> bool" where
  "hardcoded_fan v fan =
     (case view_clt v of
        None \<Rightarrow> True
      | Some clt \<Rightarrow>
          (getLogicValue fan \<and> f_less (view_generated v FSIO_SETTING_FANOFFTEMPERATURE) clt) \<or>
          f_less (view_generated v FSIO_SETTING_FANONTEMPERATURE) clt \<or> view_isCltBroken v)"

definition hardcoded_relay ::
    "brain_pin \<Rightarrow> bool \<Rightarrow> (fsio_state \<Rightarrow> OutputPin) \<Rightarrow> (OutputPin \<Rightarrow> fsio_state \<Rightarrow> fsio_state) \<Rightarrow> fsio_state \<Rightarrow> fsio_state" where
  "hardcoded_relay pin on get_pin set_pin s =
     (if pin \<noteq> GPIO_UNASSIGNED
      then case setValue (of_bool on) (get_pin s) of (p, io) \<Rightarrow> fsio_effects [PinEffect io] (set_pin p s) else s)"

definition runHardcodedFsio :: "fsio_config \<Rightarrow> engine_view \<Rightarrow> fsio_state \<Rightarrow> fsio_state" where
  "runHardcodedFsio cfg v s =
     (let s = hardcoded_relay (mainRelayPin cfg)
                (view_timeNowSeconds v < 2 \<or> f_less (FNum False 5) (view_vbatt v) \<or> view_inShutdown v)
                mainRelay (\<lambda>p s. s\<lparr>mainRelay := p\<rparr>) s;
          s = hardcoded_relay (starterRelayDisablePin cfg) (view_rpm v < view_crankingRpm v)
                starterRelayDisable (\<lambda>p s. s\<lparr>starterRelayDisable := p\<rparr>) s;
          s = hardcoded_relay (fanPin cfg) (hardcoded_fan v (fanRelay s)) fanRelay (\<lambda>p s. s\<lparr>fanRelay := p\<rparr>) s;
          s = hardcoded_relay (acRelayPin cfg) (view_acToggle v \<and> view_rpm v > 850) acRelay (\<lambda>p s. s\<lparr>acRelay := p\<rparr>) s;
          s = hardcoded_relay (fuelPumpPin cfg) (view_timeNowSeconds v < view_startUpFuelPumpDuration v \<or> view_rpm v > 0)
                fuelPumpRelay (\<lambda>p s. s\<lparr>fuelPumpRelay := p\<rparr>) s
      in case setValue (of_bool (view_isRunning v)) (o2heater s) of
           (p, io) \<Rightarrow> fsio_effects [PinEffect io] (s\<lparr>o2heater := p\<rparr>))"

end
