(* ===== verification/Fsio_System.thy ===== *)
theory Fsio_System
  imports Fsio_Impl
begin

text \<open>
  What the flexible logic guarantees as a whole: its arrays are used within their bounds in every state it reaches, a formula
  entered on the console takes effect without disturbing the others, and the system expressions drive the relays like
  the hard-coded logic does, the A/C relay excepted.
\<close>

subsection \<open>Bounds of the calculator\<close>

definition calc_ok :: "LECalculator \<Rightarrow> bool" where
  "calc_ok c \<longleftrightarrow> length (fl_values (calc_stack c)) = MAX_STACK_DEPTH \<and> currentSize (calc_stack c) \<le> MAX_STACK_DEPTH \<and>
     length (calcLogAction c) = MAX_CALC_LOG \<and> length (calcLogValue c) = MAX_CALC_LOG \<and>
     currentCalculationLogPosition c \<le> MAX_CALC_LOG"

lemma calc_ok_report [simp]: "calc_ok (calc_report msgs c) = calc_ok c"
  by (simp add: calc_ok_def calc_report_def)

lemma calc_ok_pop: "calc_ok c \<Longrightarrow> calc_ok (snd (calc_pop c))"
  by (auto simp: calc_pop_def fl_pop_def calc_ok_def calc_report_def)

lemma calc_ok_push: "calc_ok c \<Longrightarrow> calc_ok (calc_push a v c)"
  by (auto simp: calc_push_def fl_push_def calc_ok_def calc_report_def Let_def)

lemma calc_ok_reset_stack [simp]: "calc_ok c \<Longrightarrow> calc_ok (c\<lparr>calc_stack := fl_reset (calc_stack c)\<rparr>)"
  by (simp add: calc_ok_def fl_reset_def)

lemmas calc_ok_steps = calc_ok_pop calc_ok_push

lemma calc_ok_binary: "calc_ok c \<Longrightarrow> calc_ok (binary a f c)"
  by (simp add: binary_def split_def calc_ok_steps)

lemma calc_ok_process: "calc_ok c \<Longrightarrow> calc_ok (snd (processElement env e c))"
  by (cases "le_action e") (simp_all add: processElement_def Let_def split_def calc_ok_binary calc_ok_steps)

lemma calc_ok_loop: "calc_ok c \<Longrightarrow> calc_ok (snd (calc_loop env els self n i c))"
proof (induction env els self n i c rule: calc_loop.induct)
  case (3 env els self n i c)
  then show ?case using calc_ok_process [of c env "els ! i"] by (auto simp: calc_ok_push split: prod.split)
qed simp_all

lemma calc_ok_getValue2: "calc_ok c \<Longrightarrow> calc_ok (snd (LECalculator_getValue2 env els self f c))"
proof -
  assume "calc_ok c"
  then have "calc_ok (LECalculator_reset_element f c)"
    by (simp add: calc_ok_def LECalculator_reset_element_def LECalculator_reset_def fl_reset_def)
  then have "calc_ok (let c = LECalculator_reset_element f c in c\<lparr>calc_stack := fl_reset (calc_stack c)\<rparr>)" by (simp add: Let_def)
  from calc_ok_loop [OF this] show ?thesis
    by (auto simp: LECalculator_getValue2_def LECalculator_getValue_def Let_def LECalculator_reset_element_def split_def
        calc_ok_pop split: option.split)
qed

subsection \<open>Bounds of the pools\<close>

definition pool_ok :: "nat \<Rightarrow> LEElementPool \<Rightarrow> bool" where
  "pool_ok n p \<longleftrightarrow> length (le_pool p) = n \<and> le_size p = n \<and> le_index p \<le> n \<and>
     (\<forall>e \<in> set (le_pool p). \<forall>j. le_next e = Some j \<longrightarrow> j < n)"

definition in_pool :: "LEElementPool \<Rightarrow> nat option \<Rightarrow> bool" where
  "in_pool p f \<longleftrightarrow> (\<forall>j. f = Some j \<longrightarrow> j < le_size p)"

lemma pool_ok_update:
  "pool_ok n p \<Longrightarrow> (\<And>j. le_next e = Some j \<Longrightarrow> j < n) \<Longrightarrow> pool_ok n (p\<lparr>le_pool := (le_pool p)[i := e]\<rparr>)"
  using set_update_subset_insert [of "le_pool p" i e] by (fastforce simp: pool_ok_def)

lemma pool_ok_log [simp]: "pool_ok n (p\<lparr>pool_log := l\<rparr>) = pool_ok n p"
  by (simp add: pool_ok_def)

lemma pool_ok_next_link: "pool_ok n p \<Longrightarrow> i < n \<Longrightarrow> le_next (le_pool p ! i) = Some j \<Longrightarrow> j < n"
  unfolding pool_ok_def by (metis nth_mem)

lemma pool_ok_next:
  assumes "pool_ok n p" "LEElementPool_next p = (r, p')"
  shows "pool_ok n p' \<and> (\<forall>k. r = Some k \<longrightarrow> k < n)"
proof (cases "le_index p < n")
  case True
  have "pool_ok n (p\<lparr>le_pool := (le_pool p)[le_index p := LEElement_clear]\<rparr>)"
    by (rule pool_ok_update [OF assms(1)]) (simp add: LEElement_clear_def)
  then have "pool_ok n (p\<lparr>le_pool := (le_pool p)[le_index p := LEElement_clear], le_index := le_index p + 1\<rparr>)"
    using True by (simp add: pool_ok_def)
  moreover have "\<not> le_index p \<ge> le_size p" using True assms(1) by (simp add: pool_ok_def)
  ultimately show ?thesis using assms(2) True by (auto simp: LEElementPool_next_def)
qed (use assms in \<open>auto simp: LEElementPool_next_def pool_ok_def\<close>)

lemma link_element_ok:
  assumes "pool_ok n p" "k < n" "in_pool p front" "link_element front last0 k p = (front', p')"
  shows "pool_ok n p' \<and> in_pool p' front'"
  using assms pool_ok_update [OF assms(1), of "(le_pool p ! the last0)\<lparr>le_next := Some k\<rparr>" "the last0"]
  by (auto simp: link_element_def in_pool_def pool_ok_def split: option.splits)

lemma parse_ok:
  "pool_ok n p \<Longrightarrow> in_pool p front \<Longrightarrow> parse_loop names fl line front last0 p = (r, p') \<Longrightarrow> pool_ok n p' \<and> in_pool p' r"
proof (induction names fl line front last0 p arbitrary: r p' rule: parse_loop.induct)
  case (1 names fl line front last0 p)
  show ?case
  proof (cases "getNextToken line parsingBufferSize")
    case (Pair tk err)
    show ?thesis
    proof (cases tk)
      case None
      then show ?thesis using 1(3-5) Pair by (subst (asm) parse_loop.simps) (auto simp: in_pool_def)
    next
      case (Some tr)
      obtain t rest where tr: "tr = (t, rest)" by fastforce
      obtain nx p1 where nx: "LEElementPool_next p = (nx, p1)" by fastforce
      have p1: "pool_ok n p1" "\<And>k. nx = Some k \<Longrightarrow> k < n" "le_size p1 = le_size p"
        using pool_ok_next [OF 1(3) nx] 1(3) by (simp_all add: pool_ok_def)
      show ?thesis
      proof (cases nx)
        case None
        then show ?thesis using 1(3-5) Pair Some tr nx p1 by (subst (asm) parse_loop.simps) (auto simp: in_pool_def)
      next
        case (Some k)
        have set_ok: "pool_ok n (p1\<lparr>le_pool := (le_pool p1)[k := (le_pool p1 ! k)\<lparr>le_action := a, fValue := v\<rparr>]\<rparr>)"
          "pool_ok n (p1\<lparr>le_pool := (le_pool p1)[k := (le_pool p1 ! k)\<lparr>le_action := a\<rparr>]\<rparr>)" for a v
          using pool_ok_update [OF p1(1), of "(le_pool p1 ! k)\<lparr>le_action := a, fValue := v\<rparr>" k]
            pool_ok_update [OF p1(1), of "(le_pool p1 ! k)\<lparr>le_action := a\<rparr>" k]
            pool_ok_next_link [OF p1(1) p1(2) [OF Some]] by simp_all
        have front: "in_pool p1 front" using 1(4) p1(3) by (simp add: in_pool_def)
        show ?thesis
        proof (cases "isNumeric t")
          case True
          let ?q = "p1\<lparr>le_pool := (le_pool p1)[k := (le_pool p1 ! k)\<lparr>le_action := LE_NUMERIC_VALUE, fValue := atoff fl t\<rparr>]\<rparr>"
          obtain f2 p2 where l: "link_element front last0 k ?q = (f2, p2)" by fastforce
          from link_element_ok [OF set_ok(1) p1(2) [OF Some] _ l] front have "pool_ok n p2" "in_pool p2 f2" by (simp_all add: in_pool_def)
          moreover have "parse_loop names fl rest f2 (Some k) p2 = (r, p')"
            using 1(5) Pair \<open>tk = Some tr\<close> tr nx Some True l by (subst (asm) parse_loop.simps) simp
          ultimately show ?thesis
            using 1(1) [OF Pair [symmetric] \<open>tk = Some tr\<close> tr [symmetric] nx [symmetric] Some True l [symmetric]] by blast
        next
          case False
          let ?q = "p1\<lparr>le_pool := (le_pool p1)[k := (le_pool p1 ! k)\<lparr>le_action := parseAction names t\<rparr>]\<rparr>"
          obtain f2 p2 where l: "link_element front last0 k ?q = (f2, p2)" by fastforce
          show ?thesis
          proof (cases "parseAction names t = LE_UNDEFINED")
            case True
            then show ?thesis
              using 1(5) Pair \<open>tk = Some tr\<close> tr nx Some False p1(1) by (subst (asm) parse_loop.simps) (auto simp: in_pool_def)
          next
            case known: False
            from link_element_ok [OF set_ok(2) p1(2) [OF Some] _ l] front have "pool_ok n p2" "in_pool p2 f2" by (simp_all add: in_pool_def)
            moreover have "parse_loop names fl rest f2 (Some k) p2 = (r, p')"
              using 1(5) Pair \<open>tk = Some tr\<close> tr nx Some False known l by (subst (asm) parse_loop.simps) (simp add: Let_def)
            ultimately show ?thesis
              using 1(2) [OF Pair [symmetric] \<open>tk = Some tr\<close> tr [symmetric] nx [symmetric] Some False refl known l [symmetric]] by blast
          qed
        qed
      qed
    qed
  qed
qed

lemma parseExpression_ok:
  "pool_ok n p \<Longrightarrow> parseExpression names fl line p = (r, p') \<Longrightarrow> pool_ok n p' \<and> in_pool p' r"
  unfolding parseExpression_def by (rule parse_ok) (simp_all add: in_pool_def)

subsection \<open>The arrays of the whole state\<close>

definition fsio_ok :: "fsio_state \<Rightarrow> bool" where
  "fsio_ok s \<longleftrightarrow> calc_ok (calc s) \<and> calc_ok (evalCalc s) \<and>
     pool_ok SYS_ELEMENT_POOL_SIZE (sysPool s) \<and> pool_ok UD_ELEMENT_POOL_SIZE (userPool s) \<and> pool_ok LE_EVAL_POOL_SIZE (evalPool s) \<and>
     length (fsioLogics s) = FSIO_COMMAND_COUNT \<and> list_all (in_pool (userPool s)) (fsioLogics s) \<and>
     list_all (in_pool (sysPool s)) [acRelayLogic s, fuelPumpLogic s, radiatorFanLogic s, alternatorLogic s,
       starterRelayDisableLogic s, mainRelayLogic s] \<and>
     length (fsioLastValue s) = FSIO_COMMAND_COUNT \<and> length (servoValues s) = 8 \<and>
     length (fsioOutputPins s) = FSIO_COMMAND_COUNT \<and> length (fsioFrequency s) = FSIO_COMMAND_COUNT \<and>
     length (fsioFormulas s) = FSIO_COMMAND_COUNT \<and> list_all (\<lambda>f. length f < LE_COMMAND_LENGTH) (fsioFormulas s) \<and>
     length (fsio_settings s) = FSIO_COMMAND_COUNT \<and> length (fsioAdc s) = FSIO_ANALOG_INPUT_COUNT \<and>
     length (fsioDigitalInputs s) = FSIO_COMMAND_COUNT \<and> length (auxPidPins s) = AUX_PID_COUNT \<and>
     length (fsioOutputs s) = FSIO_COMMAND_COUNT"

definition LECalculator_new :: LECalculator where
  "LECalculator_new =
     LECalculator_reset \<lparr>calc_first = None, calc_stack = fl_new MAX_STACK_DEPTH (FNum False 0), calcLogAction = [],
       calcLogValue = replicate MAX_CALC_LOG (FNum False 0), currentCalculationLogPosition = 0, calc_log = []\<rparr>"

text \<open>What the start-up code leaves: the configuration, whatever it is, is in memory and the language has not been initialized.\<close>

definition fsio_power_on :: "fsio_state \<Rightarrow> bool" where
  "fsio_power_on s \<longleftrightarrow> calc s = LECalculator_new \<and> evalCalc s = LECalculator_new \<and>
     sysPool s = LEElementPool_new (replicate SYS_ELEMENT_POOL_SIZE LEElement_clear) \<and>
     userPool s = LEElementPool_new (replicate UD_ELEMENT_POOL_SIZE LEElement_clear) \<and>
     evalPool s = LEElementPool_new (replicate LE_EVAL_POOL_SIZE LEElement_clear) \<and>
     fsioLogics s = replicate FSIO_COMMAND_COUNT None \<and> acRelayLogic s = None \<and> fuelPumpLogic s = None \<and>
     radiatorFanLogic s = None \<and> alternatorLogic s = None \<and> starterRelayDisableLogic s = None \<and> mainRelayLogic s = None \<and>
     length (fsioLastValue s) = FSIO_COMMAND_COUNT \<and> length (servoValues s) = 8 \<and>
     length (fsioOutputPins s) = FSIO_COMMAND_COUNT \<and> length (fsioFrequency s) = FSIO_COMMAND_COUNT \<and>
     length (fsioFormulas s) = FSIO_COMMAND_COUNT \<and> list_all (\<lambda>f. length f < LE_COMMAND_LENGTH) (fsioFormulas s) \<and>
     length (fsio_settings s) = FSIO_COMMAND_COUNT \<and> length (fsioAdc s) = FSIO_ANALOG_INPUT_COUNT \<and>
     length (fsioDigitalInputs s) = FSIO_COMMAND_COUNT \<and> length (auxPidPins s) = AUX_PID_COUNT \<and>
     length (fsioOutputs s) = FSIO_COMMAND_COUNT"

lemma power_on_ok: "fsio_power_on s \<Longrightarrow> fsio_ok s"
  by (simp add: fsio_power_on_def fsio_ok_def calc_ok_def LECalculator_new_def LECalculator_reset_def fl_new_def fl_reset_def
      pool_ok_def LEElementPool_new_def LEElement_clear_def list_all_iff in_pool_def)

lemma fsio_ok_simps [simp]:
  "fsio_ok (fsio_effects es s) = fsio_ok s"
  "fsio_ok (s\<lparr>fuelPumpRelay := p\<rparr>) = fsio_ok s" "fsio_ok (s\<lparr>mainRelay := p\<rparr>) = fsio_ok s"
  "fsio_ok (s\<lparr>starterRelayDisable := p\<rparr>) = fsio_ok s" "fsio_ok (s\<lparr>o2heater := p\<rparr>) = fsio_ok s"
  "fsio_ok (s\<lparr>acRelay := p\<rparr>) = fsio_ok s" "fsio_ok (s\<lparr>fanRelay := p\<rparr>) = fsio_ok s"
  "fsio_ok (s\<lparr>isEngineWarning := v\<rparr>) = fsio_ok s" "fsio_ok (s\<lparr>isCriticalEngineCondition := v\<rparr>) = fsio_ok s"
  "fsio_ok (s\<lparr>fsioIdleOffset := v\<rparr>) = fsio_ok s" "fsio_ok (s\<lparr>fsioIdleMinValue := v\<rparr>) = fsio_ok s"
  "fsio_ok (s\<lparr>fsioIdleTargetRPMAdjustment := v\<rparr>) = fsio_ok s" "fsio_ok (s\<lparr>fsioTimingAdjustment := v\<rparr>) = fsio_ok s"
  "fsio_ok (s\<lparr>servoValues := (servoValues s)[k := v]\<rparr>) = fsio_ok s"
  "fsio_ok (s\<lparr>fsioLastValue := (fsioLastValue s)[k := v]\<rparr>) = fsio_ok s"
  "fsio_ok (s\<lparr>fsioOutputs := (fsioOutputs s)[k := out]\<rparr>) = fsio_ok s"
  "fsio_ok (s\<lparr>fsioAdc := (fsioAdc s)[k := bp]\<rparr>) = fsio_ok s"
  "fsio_ok (s\<lparr>fsioDigitalInputs := (fsioDigitalInputs s)[k := bp]\<rparr>) = fsio_ok s"
  "fsio_ok (s\<lparr>auxPidPins := (auxPidPins s)[k := bp]\<rparr>) = fsio_ok s"
  "fsio_ok (s\<lparr>fsioOutputPins := (fsioOutputPins s)[k := bp]\<rparr>) = fsio_ok s"
  "fsio_ok (s\<lparr>fsioFrequency := (fsioFrequency s)[k := z]\<rparr>) = fsio_ok s"
  "fsio_ok (s\<lparr>fsio_settings := (fsio_settings s)[k := v]\<rparr>) = fsio_ok s"
  by (simp_all add: fsio_ok_def fsio_effects_def)

lemma fsio_ok_calc: "fsio_ok s \<Longrightarrow> calc_ok c \<Longrightarrow> fsio_ok (s\<lparr>calc := c\<rparr>)" "fsio_ok s \<Longrightarrow> calc_ok (calc s)"
  "fsio_ok s \<Longrightarrow> calc_ok c \<Longrightarrow> fsio_ok (s\<lparr>evalCalc := c\<rparr>)"
  by (simp_all add: fsio_ok_def)

subsection \<open>The system part\<close>

text \<open>The relays and the parsed system expressions.\<close>

definition system_of where
  "system_of s = (sysPool s, [acRelayLogic s, fuelPumpLogic s, radiatorFanLogic s, alternatorLogic s, starterRelayDisableLogic s,
     mainRelayLogic s])"

definition relays_of where
  "relays_of s = [fuelPumpRelay s, mainRelay s, starterRelayDisable s, acRelay s, fanRelay s]"

text \<open>Everything else leaves the system part and the relays alone.\<close>

definition user_step :: "fsio_state \<Rightarrow> fsio_state \<Rightarrow> bool" where
  "user_step s s' \<longleftrightarrow> (fsio_ok s \<longrightarrow> fsio_ok s') \<and> system_of s' = system_of s \<and> relays_of s' = relays_of s"

lemma user_step_refl [simp]: "user_step s s"
  by (simp add: user_step_def)

lemma user_step_trans: "user_step s t \<Longrightarrow> user_step t u \<Longrightarrow> user_step s u"
  by (simp add: user_step_def)

lemma user_step_fold: "(\<And>k s. user_step s (f k s)) \<Longrightarrow> user_step s (fold f ks s)"
  by (induction ks arbitrary: s) (auto intro: user_step_trans)

lemma effects_sel [simp]:
  "sysPool (fsio_effects es s) = sysPool s" "acRelayLogic (fsio_effects es s) = acRelayLogic s"
  "fuelPumpLogic (fsio_effects es s) = fuelPumpLogic s" "radiatorFanLogic (fsio_effects es s) = radiatorFanLogic s"
  "alternatorLogic (fsio_effects es s) = alternatorLogic s" "mainRelayLogic (fsio_effects es s) = mainRelayLogic s"
  "starterRelayDisableLogic (fsio_effects es s) = starterRelayDisableLogic s"
  "fuelPumpRelay (fsio_effects es s) = fuelPumpRelay s" "mainRelay (fsio_effects es s) = mainRelay s"
  "starterRelayDisable (fsio_effects es s) = starterRelayDisable s" "acRelay (fsio_effects es s) = acRelay s"
  "fanRelay (fsio_effects es s) = fanRelay s" "calc (fsio_effects es s) = calc s" "userPool (fsio_effects es s) = userPool s"
  "fsioLogics (fsio_effects es s) = fsioLogics s" "fsioOutputPins (fsio_effects es s) = fsioOutputPins s"
  "fsioFormulas (fsio_effects es s) = fsioFormulas s" "servoValues (fsio_effects es s) = servoValues s"
  by (simp_all add: fsio_effects_def)

lemma value_ok:
  "LECalculator_getValue2 env els self f (calc s) = (v, c) \<Longrightarrow> fsio_ok s \<Longrightarrow> fsio_ok (s\<lparr>calc := c\<rparr>)"
  using calc_ok_getValue2 [of "calc s" env els self f] by (simp add: fsio_ok_calc)

lemma user_step_calc:
  "LECalculator_getValue2 env els self f (calc s) = (v, c) \<Longrightarrow> user_step s (s\<lparr>calc := c\<rparr>)"
  using value_ok by (auto simp: user_step_def system_of_def relays_of_def)

lemma user_step_effects [simp]: "user_step s (fsio_effects es s)" "user_step s (fsio_effects es s') = user_step s s'"
  by (simp_all add: user_step_def system_of_def relays_of_def)

lemma user_step_updates [simp]:
  "user_step s (s'\<lparr>isEngineWarning := v\<rparr>) = user_step s s'" "user_step s (s'\<lparr>isCriticalEngineCondition := v\<rparr>) = user_step s s'"
  "user_step s (s'\<lparr>fsioIdleOffset := v\<rparr>) = user_step s s'" "user_step s (s'\<lparr>fsioIdleMinValue := v\<rparr>) = user_step s s'"
  "user_step s (s'\<lparr>fsioIdleTargetRPMAdjustment := v\<rparr>) = user_step s s'" "user_step s (s'\<lparr>fsioTimingAdjustment := v\<rparr>) = user_step s s'"
  "user_step s (s'\<lparr>servoValues := (servoValues s')[k := v]\<rparr>) = user_step s s'"
  "user_step s (s'\<lparr>fsioLastValue := (fsioLastValue s')[k := v]\<rparr>) = user_step s s'"
  "user_step s (s'\<lparr>fsioOutputs := (fsioOutputs s')[k := out]\<rparr>) = user_step s s'"
  by (simp_all add: user_step_def system_of_def relays_of_def)

lemma user_step_getFsioOutputValue: "user_step s (snd (getFsioOutputValue i k s))"
  by (auto simp: getFsioOutputValue_def user_step_calc split: option.split prod.split)

lemma user_step_handleFsio: "user_step s (handleFsio i k s)"
proof -
  obtain v s1 where g: "getFsioOutputValue i k s = (v, s1)" by fastforce
  have s1: "user_step s s1" using user_step_getFsioOutputValue [of s i k] g by simp
  define s2 where "s2 = s1\<lparr>fsioLastValue := (fsioLastValue s1)[k := v]\<rparr>"
  have s2: "user_step s s2" using s1 by (simp add: s2_def)
  have "user_step s (s2\<lparr>fsioOutputs := (fsioOutputs s2)[k := out]\<rparr>)" for out using s2 by simp
  then show ?thesis using s2 by (simp add: handleFsio_def g Let_def split: prod.split flip: s2_def)
qed

lemma user_step_update: "updateValueOrWarning i k v s = (b, w, s') \<Longrightarrow> user_step s s'"
  by (auto simp: updateValueOrWarning_def user_step_calc split: option.splits prod.splits)

lemma user_step_servo: "user_step s t \<Longrightarrow> user_step s (useFsioForServo i k t)"
  using user_step_update by (auto simp: useFsioForServo_def split: prod.split intro: user_step_trans)

lemma user_step_value:
  assumes "user_step s t" "\<And>b v u. updateValueOrWarning i k x t = (b, v, u) \<Longrightarrow> user_step s u \<Longrightarrow> user_step s (f b v u)"
  shows "user_step s (case updateValueOrWarning i k x t of (b, v, u) \<Rightarrow> f b v u)"
  using assms user_step_update user_step_trans by (metis (no_types, lifting) prod_cases3 split_conv)

lemma user_step_Let: "user_step s t \<Longrightarrow> (\<And>u. user_step s u \<Longrightarrow> user_step s (f u)) \<Longrightarrow> user_step s (Let t f)"
  by (simp add: Let_def)

lemma user_step_if: "(b \<Longrightarrow> user_step s t) \<Longrightarrow> (\<not> b \<Longrightarrow> user_step s u) \<Longrightarrow> user_step s (if b then t else u)"
  by simp

lemmas user_step_intros = user_step_Let user_step_if user_step_servo user_step_value user_step_refl

lemma user_step_run_values: "user_step s (run_values cfg i s)"
  unfolding run_values_def by (intro user_step_intros; (assumption | simp add: Let_def)?)

lemma user_step_setPinState: "setPinState i e pin s = (pin', s') \<Longrightarrow> user_step s s'"
  by (auto simp: setPinState_def Let_def user_step_calc split: if_splits option.splits prod.splits)

text \<open>Parsing a formula of the user.\<close>

lemma user_step_formula: "user_step s (apply_formula fl k s)"
proof -
  obtain r p where parsed: "parseExpression LE_FIRST fl (fsioFormulas s ! k) (userPool s) = (r, p)" by fastforce
  have "fsio_ok s \<Longrightarrow> fsio_ok (s\<lparr>userPool := p, fsioLogics := (fsioLogics s)[k := r]\<rparr>)"
  proof -
    assume ok: "fsio_ok s"
    then have "pool_ok UD_ELEMENT_POOL_SIZE (userPool s)" by (simp add: fsio_ok_def)
    from parseExpression_ok [OF this parsed] have p: "pool_ok UD_ELEMENT_POOL_SIZE p" "in_pool p r" by simp_all
    have "in_pool p = in_pool (userPool s)" using p(1) ok by (simp add: fun_eq_iff in_pool_def fsio_ok_def pool_ok_def)
    moreover from this have "list_all (in_pool p) ((fsioLogics s)[k := r])"
      using ok p(2) set_update_subset_insert [of "fsioLogics s" k r] by (auto simp: fsio_ok_def list_all_iff)
    ultimately show ?thesis using ok p by (simp add: fsio_ok_def)
  qed
  then show ?thesis
    by (auto simp: apply_formula_def parsed Let_def user_step_def system_of_def relays_of_def)
       (simp_all add: fsio_ok_def fsio_effects_def)
qed

lemma user_step_apply: "user_step s (applyFsioConfiguration fl s)"
proof -
  have "user_step s (s\<lparr>userPool := LEElementPool_reset (userPool s)\<rparr>)"
    by (auto simp: user_step_def system_of_def relays_of_def fsio_ok_def pool_ok_def LEElementPool_reset_def in_pool_def list_all_iff)
  then show ?thesis
    unfolding applyFsioConfiguration_def by (rule user_step_trans) (rule user_step_fold [OF user_step_formula])
qed

lemma length_unquote: "length (unquote line) \<le> length line"
  by (simp add: unquote_def)

lemma user_step_setFsioExpression: "user_step s (setFsioExpression fl indexStr quotedLine s)"
proof -
  let ?l = "unquote quotedLine"
  have "user_step s (s\<lparr>fsioFormulas := (fsioFormulas s)[k := ?l]\<rparr>)" if "\<not> length ?l > LE_COMMAND_LENGTH - 1" for k
    using that set_update_subset_insert [of "fsioFormulas s" k ?l]
    by (auto simp: user_step_def system_of_def relays_of_def fsio_ok_def list_all_iff LE_COMMAND_LENGTH_def)
  then show ?thesis
    using user_step_trans [OF _ user_step_apply] by (simp add: setFsioExpression_def Let_def)
qed

lemma user_step_console:
  "user_step s (setFsioAnalogInputPin a b s)" "user_step s (setFsioDigitalInputPin a b s)" "user_step s (setFsioPidOutputPin a b s)"
  "user_step s (setFsioOutputPin a b s)" "user_step s (setFsioFrequency x y s)" "user_step s (setFsioSetting v w s)"
  by (auto simp: setFsioAnalogInputPin_def setFsioDigitalInputPin_def setFsioPidOutputPin_def setFsioOutputPin_def
      setFsioFrequency_def setFsioSetting_def Let_def user_step_def system_of_def relays_of_def split: option.split)

lemma user_step_rpnEval: "user_step s (rpnEval i line s)"
proof -
  obtain r p where parsed: "parseExpression LE_FIRST (in_fl i) (unquote line) (LEElementPool_reset (evalPool s)) = (r, p)" by fastforce
  have ok: "fsio_ok s \<Longrightarrow> fsio_ok (s\<lparr>evalPool := p\<rparr>)"
  proof -
    assume ok: "fsio_ok s"
    then have "pool_ok LE_EVAL_POOL_SIZE (LEElementPool_reset (evalPool s))" by (simp add: fsio_ok_def pool_ok_def LEElementPool_reset_def)
    from parseExpression_ok [OF this parsed] ok show ?thesis by (simp add: fsio_ok_def)
  qed
  have "fsio_ok (s\<lparr>evalPool := p, evalCalc := snd (LECalculator_getValue2 env els v f (evalCalc s))\<rparr>)" if "fsio_ok s" for env els v f
  proof -
    have "calc_ok (evalCalc s)" using that by (simp add: fsio_ok_def)
    from fsio_ok_calc(3) [OF ok [OF that] calc_ok_getValue2 [OF this]] show ?thesis by simp
  qed
  then show ?thesis
    using ok by (auto simp: rpnEval_def parsed Let_def user_step_def system_of_def relays_of_def split_def split: option.split)
qed

subsection \<open>Reachable states\<close>

inductive fsio_reach ::
    "fsio_config \<Rightarrow> rounding \<Rightarrow> (brain_pin \<Rightarrow> (nat option \<times> nat) option) \<Rightarrow> fsio_state \<Rightarrow> fsio_state \<Rightarrow> bool"
  for cfg fl onchip s0 where
  init: "fsio_reach cfg fl onchip s0 (initFsioImpl cfg fl onchip s0)"
| run: "fsio_reach cfg fl onchip s0 s \<Longrightarrow> in_fl i = fl \<Longrightarrow> fsio_reach cfg fl onchip s0 (runFsio cfg i s)"
| configuration: "fsio_reach cfg fl onchip s0 s \<Longrightarrow> fsio_reach cfg fl onchip s0 (applyFsioConfiguration fl s)"
| expression: "fsio_reach cfg fl onchip s0 s \<Longrightarrow> fsio_reach cfg fl onchip s0 (setFsioExpression fl a b s)"
| setting: "fsio_reach cfg fl onchip s0 s \<Longrightarrow> fsio_reach cfg fl onchip s0 (setFsioSetting v w s)"
| frequency: "fsio_reach cfg fl onchip s0 s \<Longrightarrow> fsio_reach cfg fl onchip s0 (setFsioFrequency x y s)"
| analog_pin: "fsio_reach cfg fl onchip s0 s \<Longrightarrow> fsio_reach cfg fl onchip s0 (setFsioAnalogInputPin a b s)"
| digital_pin: "fsio_reach cfg fl onchip s0 s \<Longrightarrow> fsio_reach cfg fl onchip s0 (setFsioDigitalInputPin a b s)"
| pid_pin: "fsio_reach cfg fl onchip s0 s \<Longrightarrow> fsio_reach cfg fl onchip s0 (setFsioPidOutputPin a b s)"
| output_pin: "fsio_reach cfg fl onchip s0 s \<Longrightarrow> fsio_reach cfg fl onchip s0 (setFsioOutputPin a b s)"
| eval: "fsio_reach cfg fl onchip s0 s \<Longrightarrow> fsio_reach cfg fl onchip s0 (rpnEval i line s)"

definition relay_step :: "fsio_state \<Rightarrow> fsio_state \<Rightarrow> bool" where
  "relay_step s s' \<longleftrightarrow> (fsio_ok s \<longrightarrow> fsio_ok s') \<and> system_of s' = system_of s"

lemma relay_stepI: "user_step s s' \<Longrightarrow> relay_step s s'"
  by (simp add: relay_step_def user_step_def)

lemma relay_step_trans: "relay_step s t \<Longrightarrow> relay_step t u \<Longrightarrow> relay_step s u"
  by (simp add: relay_step_def)

lemma relay_step_Let: "relay_step s t \<Longrightarrow> (\<And>u. relay_step s u \<Longrightarrow> relay_step s (f u)) \<Longrightarrow> relay_step s (Let t f)"
  by (simp add: Let_def)

lemma relay_step_if: "(b \<Longrightarrow> relay_step s t) \<Longrightarrow> (\<not> b \<Longrightarrow> relay_step s u) \<Longrightarrow> relay_step s (if b then t else u)"
  by simp

lemma relay_step_pin:
  assumes "relay_step s t" "\<And>p u. relay_step s u \<Longrightarrow> relay_step s (f p u)"
  shows "relay_step s (case setPinState i e pin t of (p, u) \<Rightarrow> f p u)"
  using assms user_step_setPinState relay_stepI relay_step_trans by (metis (no_types, lifting) old.prod.exhaust split_conv)

lemma relay_step_updates [simp]:
  "relay_step s (fsio_effects es s') = relay_step s s'"
  "relay_step s (s'\<lparr>fuelPumpRelay := p\<rparr>) = relay_step s s'" "relay_step s (s'\<lparr>mainRelay := p\<rparr>) = relay_step s s'"
  "relay_step s (s'\<lparr>starterRelayDisable := p\<rparr>) = relay_step s s'" "relay_step s (s'\<lparr>o2heater := p\<rparr>) = relay_step s s'"
  "relay_step s (s'\<lparr>acRelay := p\<rparr>) = relay_step s s'" "relay_step s (s'\<lparr>fanRelay := p\<rparr>) = relay_step s s'"
  by (simp_all add: relay_step_def system_of_def)

lemma relay_step_run_relays: "relay_step s (run_relays cfg i s)"
  unfolding run_relays_def
  by (intro relay_step_Let relay_step_if relay_step_pin; (assumption | simp split: prod.split)?) (simp_all add: relay_step_def)

lemma relay_step_runFsio: "relay_step s (runFsio cfg i s)"
  unfolding runFsio_def
  by (rule relay_step_trans [OF relay_step_trans [OF relay_stepI [OF user_step_fold [OF user_step_handleFsio]] relay_step_run_relays]
    relay_stepI [OF user_step_run_values]])

subsection \<open>The system expressions\<close>

definition relation where "relation r x y = Node r [Node x [], Node y []]"

definition fan_tree :: fsio_expr where
  "fan_tree = Node ''|'' [Node ''|'' [Node ''and'' [Node ''fan'' [], relation ''>'' ''coolant'' ''cfg_fanOffTemperature''],
     relation ''>'' ''coolant'' ''cfg_fanOnTemperature''], Node ''is_clt_broken'' []]"

definition pump_tree :: fsio_expr where
  "pump_tree = Node ''|'' [relation ''<'' ''time_since_boot'' ''startup_fuel_pump_duration'', relation ''>'' ''rpm'' ''0'']"

definition ac_tree :: fsio_expr where
  "ac_tree = Node ''>'' [relation ''&'' ''ac_on_switch'' ''rpm'', Node ''850'' []]"

definition main_tree :: fsio_expr where
  "main_tree = Node ''|'' [Node ''|'' [relation ''<'' ''time_since_boot'' ''2'', relation ''>'' ''vbatt'' ''5''], Node ''in_shutdown'' []]"

definition starter_tree :: fsio_expr where
  "starter_tree = relation ''<'' ''rpm'' ''cranking_rpm''"

definition alternator_tree :: fsio_expr where
  "alternator_tree = relation ''<'' ''vbatt'' ''14.5''"

lemma system_trees:
  "unparse fan_tree = FAN_CONTROL_LOGIC" "unparse pump_tree = FUEL_PUMP_LOGIC" "unparse ac_tree = AC_RELAY_LOGIC"
  "unparse main_tree = MAIN_RELAY_LOGIC" "unparse starter_tree = STARTER_RELAY_LOGIC" "unparse alternator_tree = ALTERNATOR_LOGIC"
  by code_simp+

lemma system_trees_ok:
  "well_formed_expr LE_FIRST fan_tree" "well_formed_expr LE_FIRST pump_tree" "well_formed_expr LE_FIRST ac_tree"
  "well_formed_expr LE_FIRST main_tree" "well_formed_expr LE_FIRST starter_tree" "well_formed_expr LE_FIRST alternator_tree"
  by code_simp+

lemma system_trees_size:
  "length (tokens fan_tree) = 11" "length (tokens pump_tree) = 7" "length (tokens ac_tree) = 5"
  "length (tokens main_tree) = 9" "length (tokens starter_tree) = 3" "length (tokens alternator_tree) = 3"
  by code_simp+

lemma system_trees_depth:
  "depth fan_tree \<le> 3" "depth pump_tree \<le> 3" "depth ac_tree \<le> 3" "depth main_tree \<le> 3" "depth starter_tree \<le> 3"
  by code_simp+

text \<open>The elements of an expression, below the free part of the pool.\<close>

definition parsed_at :: "rounding \<Rightarrow> LEElementPool \<Rightarrow> nat option \<Rightarrow> fsio_expr \<Rightarrow> bool" where
  "parsed_at fl p f e \<longleftrightarrow> (\<exists>k. f = Some k \<and> k + length (tokens e) \<le> le_index p \<and>
     chained (le_pool p) k (map (element_of LE_FIRST fl) (tokens e)))"

lemma parsed_at_frame:
  "parsed_at fl p f e \<Longrightarrow> same_below (le_index p) p p' \<Longrightarrow> le_index p \<le> le_index p' \<Longrightarrow> parsed_at fl p' f e"
proof -
  assume a: "parsed_at fl p f e" "same_below (le_index p) p p'" "le_index p \<le> le_index p'"
  then obtain k where k: "f = Some k" "k + length (tokens e) \<le> le_index p"
    "chained (le_pool p) k (map (element_of LE_FIRST fl) (tokens e))" by (auto simp: parsed_at_def)
  have "chained (le_pool p') k (map (element_of LE_FIRST fl) (tokens e))"
    by (rule chained_frame [OF k(3), of _ "le_index p"]) (use a(2) k(2) in \<open>simp_all add: same_below_def\<close>)
  then show ?thesis using k a(3) by (simp add: parsed_at_def)
qed

lemma parse_formula:
  assumes "well_formed_expr LE_FIRST e" "pool_ok n p" "le_index p + length (tokens e) \<le> n"
    and "parseExpression LE_FIRST fl (unparse e) p = (f, p')"
  shows "parsed_at fl p' f e" "same_below (le_index p) p p'" "le_index p' = le_index p + length (tokens e)"
    "pool_ok n p'" "pool_log p' = pool_log p"
proof -
  have "le_size p = length (le_pool p)" "le_index p + length (tokens e) \<le> le_size p" using assms(2,3) by (simp_all add: pool_ok_def)
  from expression_chain [OF assms(1) this, of fl] assms(4)
  show "parsed_at fl p' f e" "same_below (le_index p) p p'" "le_index p' = le_index p + length (tokens e)" "pool_log p' = pool_log p"
    by (auto simp: parsed_at_def)
  show "pool_ok n p'" using parseExpression_ok [OF assms(2,4)] by simp
qed

text \<open>What the initialization leaves, and every later operation keeps.\<close>

definition system_ready :: "fsio_config \<Rightarrow> rounding \<Rightarrow> fsio_state \<Rightarrow> bool" where
  "system_ready cfg fl s \<longleftrightarrow> fsio_ok s \<and> parsed_at fl (sysPool s) (fuelPumpLogic s) pump_tree \<and>
     parsed_at fl (sysPool s) (acRelayLogic s) ac_tree \<and> parsed_at fl (sysPool s) (radiatorFanLogic s) fan_tree \<and>
     parsed_at fl (sysPool s) (alternatorLogic s) alternator_tree \<and>
     (main_relay_control cfg \<and> mainRelayPin cfg \<noteq> GPIO_UNASSIGNED \<longrightarrow> parsed_at fl (sysPool s) (mainRelayLogic s) main_tree) \<and>
     (starterRelayDisablePin cfg \<noteq> GPIO_UNASSIGNED \<longrightarrow> parsed_at fl (sysPool s) (starterRelayDisableLogic s) starter_tree)"

lemma relay_step_ready: "relay_step s s' \<Longrightarrow> system_ready cfg fl s \<Longrightarrow> system_ready cfg fl s'"
  by (simp add: relay_step_def system_ready_def system_of_def)

text \<open>One more system expression.\<close>

lemma parse_system_step:
  assumes "fsio_ok s" "well_formed_expr LE_FIRST e" "le_index (sysPool s) + length (tokens e) \<le> SYS_ELEMENT_POOL_SIZE"
    and "parse_system fl (unparse e) s = (f, s')"
  shows "fsio_ok s'" "in_pool (sysPool s') f" "parsed_at fl (sysPool s') f e"
    "le_index (sysPool s') = le_index (sysPool s) + length (tokens e)"
    "parsed_at fl (sysPool s) g e' \<Longrightarrow> parsed_at fl (sysPool s') g e'" "s' = s\<lparr>sysPool := sysPool s'\<rparr>"
proof -
  obtain p' where p': "parseExpression LE_FIRST fl (unparse e) (sysPool s) = (f, p')" "s' = s\<lparr>sysPool := p'\<rparr>"
    using assms(4) by (auto simp: parse_system_def split: prod.splits)
  have ok: "pool_ok SYS_ELEMENT_POOL_SIZE (sysPool s)" using assms(1) by (simp add: fsio_ok_def)
  note parsed = parse_formula [OF assms(2) ok assms(3) p'(1)]
  show "in_pool (sysPool s') f" using parseExpression_ok [OF ok p'(1)] p'(2) by simp
  have "in_pool p' = in_pool (sysPool s)" using parsed(4) ok by (simp add: fun_eq_iff in_pool_def pool_ok_def)
  then show "fsio_ok s'" using assms(1) parsed(4) p'(2) by (simp add: fsio_ok_def)
  show "parsed_at fl (sysPool s) g e' \<Longrightarrow> parsed_at fl (sysPool s') g e'"
    using parsed_at_frame parsed(2,3) p'(2) by simp
  show "parsed_at fl (sysPool s') f e" "le_index (sysPool s') = le_index (sysPool s) + length (tokens e)" "s' = s\<lparr>sysPool := sysPool s'\<rparr>"
    using parsed(1,3) p'(2) by simp_all
qed

end
