(* ===== verification/Fsio_Relays.thy ===== *)
theory Fsio_Relays
  imports Fsio_System
begin

text \<open>
  The relays under the flexible logic: the initialization parses every system expression into the pool for good, and the
  expressions then switch the relays like the hard-coded logic of builds without the language, the A/C relay excepted.
\<close>

lemma user_step_init_pins: "user_step s (init_output onchip k s)" "user_step s (init_input k s)"
  by (auto simp: init_output_def init_input_def Let_def split: prod.split)

lemma system_room: "SYS_ELEMENT_POOL_SIZE = 128" "UD_ELEMENT_POOL_SIZE = 128"
  by (simp_all add: SYS_ELEMENT_POOL_SIZE_def UD_ELEMENT_POOL_SIZE_def)

text \<open>The system expressions parsed so far; each step of the initialization adds one.\<close>

definition sys_progress :: "rounding \<Rightarrow> nat \<Rightarrow> (nat option \<times> fsio_expr) list \<Rightarrow> fsio_state \<Rightarrow> bool" where
  "sys_progress fl n fes s \<longleftrightarrow> fsio_ok s \<and> le_index (sysPool s) = n \<and> list_all (\<lambda>(f, e). parsed_at fl (sysPool s) f e) fes"

lemma sys_progress_step:
  assumes "sys_progress fl n fes s" "well_formed_expr LE_FIRST e" "n + length (tokens e) \<le> 128" "unparse e = t"
  obtains f p where "parse_system fl t s = (f, s\<lparr>sysPool := p\<rparr>)" "in_pool p f"
    "sys_progress fl (n + length (tokens e)) ((f, e) # fes) (s\<lparr>sysPool := p\<rparr>)"
proof -
  obtain f s' where p: "parse_system fl (unparse e) s = (f, s')" by fastforce
  have "fsio_ok s" "le_index (sysPool s) + length (tokens e) \<le> SYS_ELEMENT_POOL_SIZE"
    using assms(1,3) by (simp_all add: sys_progress_def system_room)
  note st = parse_system_step [OF this(1) assms(2) this(2) p]
  have "sys_progress fl (n + length (tokens e)) ((f, e) # fes) s'"
    using st(1,3,4,5) assms(1) by (auto simp: sys_progress_def list_all_iff)
  then show ?thesis using that [of f "sysPool s'"] p st(2,6) assms(4) by simp
qed

lemma sys_progress_store:
  "sys_progress fl n fes s \<Longrightarrow> in_pool (sysPool s) f \<Longrightarrow> sys_progress fl n fes (s\<lparr>fuelPumpLogic := f\<rparr>)"
  "sys_progress fl n fes s \<Longrightarrow> in_pool (sysPool s) f \<Longrightarrow> sys_progress fl n fes (s\<lparr>acRelayLogic := f\<rparr>)"
  "sys_progress fl n fes s \<Longrightarrow> in_pool (sysPool s) f \<Longrightarrow> sys_progress fl n fes (s\<lparr>radiatorFanLogic := f\<rparr>)"
  "sys_progress fl n fes s \<Longrightarrow> in_pool (sysPool s) f \<Longrightarrow> sys_progress fl n fes (s\<lparr>alternatorLogic := f\<rparr>)"
  "sys_progress fl n fes s \<Longrightarrow> in_pool (sysPool s) f \<Longrightarrow> sys_progress fl n fes (s\<lparr>mainRelayLogic := f\<rparr>)"
  "sys_progress fl n fes s \<Longrightarrow> in_pool (sysPool s) f \<Longrightarrow> sys_progress fl n fes (s\<lparr>starterRelayDisableLogic := f\<rparr>)"
  by (simp_all add: sys_progress_def fsio_ok_def)

lemma init_ready:
  assumes "fsio_power_on s"
  shows "system_ready cfg fl (initFsioImpl cfg fl onchip s)"
proof -
  note size = system_trees_size
  have s0: "sys_progress fl 0 [] s"
    using power_on_ok [OF assms] assms by (simp add: sys_progress_def fsio_power_on_def LEElementPool_new_def)
  obtain f1 p1 where 1: "parse_system fl FUEL_PUMP_LOGIC s = (f1, s\<lparr>sysPool := p1\<rparr>)" "in_pool p1 f1"
    "sys_progress fl 7 [(f1, pump_tree)] (s\<lparr>sysPool := p1\<rparr>)"
    using sys_progress_step [OF s0 system_trees_ok(2) _ system_trees(2)] size by auto
  define s1 where "s1 = s\<lparr>sysPool := p1, fuelPumpLogic := f1\<rparr>"
  have s1: "sys_progress fl 7 [(f1, pump_tree)] s1" using sys_progress_store(1) [OF 1(3)] 1(2) by (simp add: s1_def)
  obtain f2 p2 where 2: "parse_system fl AC_RELAY_LOGIC s1 = (f2, s1\<lparr>sysPool := p2\<rparr>)" "in_pool p2 f2"
    "sys_progress fl 12 [(f2, ac_tree), (f1, pump_tree)] (s1\<lparr>sysPool := p2\<rparr>)"
    using sys_progress_step [OF s1 system_trees_ok(3) _ system_trees(3)] size by auto
  define s2 where "s2 = s1\<lparr>sysPool := p2, acRelayLogic := f2\<rparr>"
  have s2: "sys_progress fl 12 [(f2, ac_tree), (f1, pump_tree)] s2" using sys_progress_store(2) [OF 2(3)] 2(2) by (simp add: s2_def)
  obtain f3 p3 where 3: "parse_system fl FAN_CONTROL_LOGIC s2 = (f3, s2\<lparr>sysPool := p3\<rparr>)" "in_pool p3 f3"
    "sys_progress fl 23 [(f3, fan_tree), (f2, ac_tree), (f1, pump_tree)] (s2\<lparr>sysPool := p3\<rparr>)"
    using sys_progress_step [OF s2 system_trees_ok(1) _ system_trees(1)] size by auto
  define s3 where "s3 = s2\<lparr>sysPool := p3, radiatorFanLogic := f3\<rparr>"
  have s3: "sys_progress fl 23 [(f3, fan_tree), (f2, ac_tree), (f1, pump_tree)] s3"
    using sys_progress_store(3) [OF 3(3)] 3(2) by (simp add: s3_def)
  obtain f4 p4 where 4: "parse_system fl ALTERNATOR_LOGIC s3 = (f4, s3\<lparr>sysPool := p4\<rparr>)" "in_pool p4 f4"
    "sys_progress fl 26 [(f4, alternator_tree), (f3, fan_tree), (f2, ac_tree), (f1, pump_tree)] (s3\<lparr>sysPool := p4\<rparr>)"
    using sys_progress_step [OF s3 system_trees_ok(6) _ system_trees(6)] size by auto
  define s4 where "s4 = s3\<lparr>sysPool := p4, alternatorLogic := f4\<rparr>"
  let ?four = "[(f4, alternator_tree), (f3, fan_tree), (f2, ac_tree), (f1, pump_tree)]"
  have s4: "sys_progress fl 26 ?four s4" using sys_progress_store(4) [OF 4(3)] 4(2) by (simp add: s4_def)
  let ?main = "main_relay_control cfg \<and> mainRelayPin cfg \<noteq> GPIO_UNASSIGNED"
  define s5 where "s5 = (if ?main then case parse_system fl MAIN_RELAY_LOGIC s4 of (e, s) \<Rightarrow> s\<lparr>mainRelayLogic := e\<rparr> else s4)"
  have s5: "\<exists>n \<le> 35. sys_progress fl n ?four s5 \<and> (?main \<longrightarrow> parsed_at fl (sysPool s5) (mainRelayLogic s5) main_tree) \<and>
      fuelPumpLogic s5 = f1 \<and> acRelayLogic s5 = f2 \<and> radiatorFanLogic s5 = f3 \<and> alternatorLogic s5 = f4"
  proof (cases ?main)
    case True
    obtain f5 p5 where 5: "parse_system fl MAIN_RELAY_LOGIC s4 = (f5, s4\<lparr>sysPool := p5\<rparr>)" "in_pool p5 f5"
      "sys_progress fl 35 ((f5, main_tree) # ?four) (s4\<lparr>sysPool := p5\<rparr>)"
      using sys_progress_step [OF s4 system_trees_ok(4) _ system_trees(4)] size by auto
    from sys_progress_store(5) [OF 5(3), of f5] 5(1,2) True show ?thesis
      by (intro exI [of _ 35]) (simp add: s5_def sys_progress_def, simp add: s4_def s3_def s2_def s1_def)
  next
    case False
    then show ?thesis using s4 by (intro exI [of _ 26]) (auto simp: s5_def s4_def s3_def s2_def s1_def)
  qed
  then obtain n where n: "n \<le> 35" "sys_progress fl n ?four s5" by blast
  let ?starter = "starterRelayDisablePin cfg \<noteq> GPIO_UNASSIGNED"
  define s6 where "s6 = (if ?starter then case parse_system fl STARTER_RELAY_LOGIC s5 of (e, s) \<Rightarrow> s\<lparr>starterRelayDisableLogic := e\<rparr> else s5)"
  have "system_ready cfg fl s6"
  proof (cases ?starter)
    case True
    obtain f6 s6' where 6: "parse_system fl (unparse starter_tree) s5 = (f6, s6')" by fastforce
    have "fsio_ok s5" "le_index (sysPool s5) + length (tokens starter_tree) \<le> SYS_ELEMENT_POOL_SIZE"
      using n size by (simp_all add: sys_progress_def system_room)
    note st = parse_system_step [OF this(1) system_trees_ok(5) this(2) 6]
    have "s6 = s6'\<lparr>starterRelayDisableLogic := f6\<rparr>" using 6 True by (simp add: s6_def system_trees)
    moreover have "fsio_ok (s6'\<lparr>starterRelayDisableLogic := f6\<rparr>)" using st(1,2) by (simp add: fsio_ok_def)
    moreover obtain q where "s6' = s5\<lparr>sysPool := q\<rparr>" using st(6) by blast
    then have "fuelPumpLogic s6' = f1" "acRelayLogic s6' = f2" "radiatorFanLogic s6' = f3" "alternatorLogic s6' = f4"
      "mainRelayLogic s6' = mainRelayLogic s5" using s5 by auto
    ultimately show ?thesis using st(3) st(5) s5 True by (auto simp: system_ready_def sys_progress_def)
  qed (use s5 in \<open>auto simp: system_ready_def sys_progress_def s6_def\<close>)
  moreover have stores: "(case parse_system fl FUEL_PUMP_LOGIC s of (e, s) \<Rightarrow> s\<lparr>fuelPumpLogic := e\<rparr>) = s1"
    "(case parse_system fl AC_RELAY_LOGIC s1 of (e, s) \<Rightarrow> s\<lparr>acRelayLogic := e\<rparr>) = s2"
    "(case parse_system fl FAN_CONTROL_LOGIC s2 of (e, s) \<Rightarrow> s\<lparr>radiatorFanLogic := e\<rparr>) = s3"
    "(case parse_system fl ALTERNATOR_LOGIC s3 of (e, s) \<Rightarrow> s\<lparr>alternatorLogic := e\<rparr>) = s4"
    unfolding 1(1) 2(1) 3(1) 4(1) by (simp_all add: s1_def s2_def s3_def s4_def)
  moreover have "initFsioImpl cfg fl onchip s =
      fold init_input [0..<FSIO_COMMAND_COUNT] (fold (init_output onchip) [0..<FSIO_COMMAND_COUNT] s6)"
    by (simp only: initFsioImpl_def Let_def stores flip: s5_def s6_def)
  ultimately show ?thesis
    using relay_step_ready [OF relay_stepI [OF user_step_trans [OF user_step_fold user_step_fold]]] user_step_init_pins by metis
qed

lemma reach_ready: "fsio_reach cfg fl onchip s0 s \<Longrightarrow> fsio_power_on s0 \<Longrightarrow> system_ready cfg fl s"
proof (induction rule: fsio_reach.induct)
  case init
  then show ?case by (rule init_ready)
qed (auto elim!: relay_step_ready [rotated] intro: relay_step_runFsio relay_stepI user_step_apply user_step_setFsioExpression
    user_step_console user_step_rpnEval)

text \<open>
  In every state reached from power-on the stack and the trace of the calculators stay within their 32 and 64 places, and every link and
  every logic points into its pool.
\<close>

lemma fsio_arrays_in_bounds:
  assumes "fsio_power_on s0" "fsio_reach cfg fl onchip s0 s"
  shows "fsio_ok s"
  using reach_ready [OF assms(2,1)] by (simp add: system_ready_def)

subsection \<open>The meaning of the system expressions\<close>

lemma system_actions [simp]:
  "parseAction LE_FIRST ''|'' = LE_OPERATOR_OR" "parseAction LE_FIRST ''&'' = LE_OPERATOR_AND" "parseAction LE_FIRST ''and'' = LE_OPERATOR_AND"
  "parseAction LE_FIRST ''>'' = LE_OPERATOR_MORE" "parseAction LE_FIRST ''<'' = LE_OPERATOR_LESS" "parseAction LE_FIRST ''fan'' = LE_METHOD_FAN"
  "parseAction LE_FIRST ''coolant'' = LE_METHOD_COOLANT" "parseAction LE_FIRST ''is_clt_broken'' = LE_METHOD_IS_COOLANT_BROKEN"
  "parseAction LE_FIRST ''cfg_fanOffTemperature'' = LE_GENERATED FSIO_SETTING_FANOFFTEMPERATURE"
  "parseAction LE_FIRST ''cfg_fanOnTemperature'' = LE_GENERATED FSIO_SETTING_FANONTEMPERATURE"
  "parseAction LE_FIRST ''time_since_boot'' = LE_METHOD_TIME_SINCE_BOOT" "parseAction LE_FIRST ''rpm'' = LE_METHOD_RPM"
  "parseAction LE_FIRST ''startup_fuel_pump_duration'' = LE_METHOD_STARTUP_FUEL_PUMP_DURATION"
  "parseAction LE_FIRST ''cranking_rpm'' = LE_METHOD_CRANKING_RPM" "parseAction LE_FIRST ''in_shutdown'' = LE_METHOD_IN_SHUTDOWN"
  "parseAction LE_FIRST ''vbatt'' = LE_METHOD_VBATT" "parseAction LE_FIRST ''ac_on_switch'' = LE_METHOD_AC_TOGGLE"
  by code_simp+

lemma system_numbers [simp]: "isNumeric ''0''" "isNumeric ''2''" "isNumeric ''5''" "isNumeric ''850''"
  by code_simp+

lemma system_names [simp]:
  "\<not> isNumeric ''|''" "\<not> isNumeric ''&''" "\<not> isNumeric ''and''" "\<not> isNumeric ''>''" "\<not> isNumeric ''<''" "\<not> isNumeric ''fan''"
  "\<not> isNumeric ''coolant''" "\<not> isNumeric ''is_clt_broken''" "\<not> isNumeric ''cfg_fanOffTemperature''"
  "\<not> isNumeric ''cfg_fanOnTemperature''" "\<not> isNumeric ''time_since_boot''" "\<not> isNumeric ''rpm''"
  "\<not> isNumeric ''startup_fuel_pump_duration''" "\<not> isNumeric ''cranking_rpm''" "\<not> isNumeric ''in_shutdown''"
  "\<not> isNumeric ''vbatt''" "\<not> isNumeric ''ac_on_switch''"
  by code_simp+

lemma atoff_whole:
  assumes "length t < 99" "indexOf t (CHR ''n'') = None" "indexOf t (CHR ''N'') = None" "indexOf t (CHR ''.'') = None"
    and "atoi t = i" "absI i \<noteq> ERROR_CODE"
  shows "atoff fl t = f_int fl i"
  using assms unfolding atoff_def by (simp add: Let_def)

lemma system_values [simp]:
  "atoff fl ''0'' = f_int fl 0" "atoff fl ''2'' = f_int fl 2" "atoff fl ''5'' = f_int fl 5" "atoff fl ''850'' = f_int fl 850"
  by (rule atoff_whole; code_simp)+

lemma float2bool_bool [simp]: "float2bool (f_bool b) = b"
  by (simp add: float2bool_def f_bool_def)

lemma getEngineValue_bool [simp]:
  "fst (getEngineValue fl v LE_METHOD_FAN) = f_bool (view_fan v)" "fst (getEngineValue fl v LE_METHOD_IN_SHUTDOWN) = f_bool (view_inShutdown v)"
  "fst (getEngineValue fl v LE_METHOD_IS_COOLANT_BROKEN) = f_bool (view_clt v = None)"
  "fst (getEngineValue fl v LE_METHOD_AC_TOGGLE) = f_bool (view_acToggle v)"
  "fst (getEngineValue fl v LE_METHOD_RPM) = f_int fl (view_rpm v)"
  "fst (getEngineValue fl v LE_METHOD_CRANKING_RPM) = f_int fl (view_crankingRpm v)"
  "fst (getEngineValue fl v LE_METHOD_TIME_SINCE_BOOT) = f_int fl (view_timeNowSeconds v)"
  "fst (getEngineValue fl v LE_METHOD_STARTUP_FUEL_PUMP_DURATION) = f_int fl (view_startUpFuelPumpDuration v)"
  "fst (getEngineValue fl v LE_METHOD_VBATT) = view_vbatt v"
  "fst (getEngineValue fl v LE_METHOD_COOLANT) = value_or (view_clt v) (FNum False 0)"
  "fst (getEngineValue fl v (LE_GENERATED g)) = view_generated v g"
  by (simp_all add: getEngineValue_def)

text \<open>The values the expressions read are in the ranges of their types: seconds and RPM are \<open>int\<close>, the two settings 16 bits.\<close>

definition view_in_range :: "engine_view \<Rightarrow> bool" where
  "view_in_range v \<longleftrightarrow> \<bar>view_rpm v\<bar> < 2 ^ 31 \<and> \<bar>view_timeNowSeconds v\<bar> < 2 ^ 31 \<and>
     \<bar>view_startUpFuelPumpDuration v\<bar> < 2 ^ 15 \<and> \<bar>view_crankingRpm v\<bar> < 2 ^ 15"

text \<open>The hard-coded conditions.\<close>

definition pump_on where
  "pump_on v = (view_timeNowSeconds v < view_startUpFuelPumpDuration v \<or> view_rpm v > 0)"

definition main_on where
  "main_on v = (view_timeNowSeconds v < 2 \<or> f_less (FNum False 5) (view_vbatt v) \<or> view_inShutdown v)"

definition fan_on where
  "fan_on v fan \<longleftrightarrow> fan \<and> f_less (view_generated v FSIO_SETTING_FANOFFTEMPERATURE) (value_or (view_clt v) (FNum False 0)) \<or>
     f_less (view_generated v FSIO_SETTING_FANONTEMPERATURE) (value_or (view_clt v) (FNum False 0)) \<or> view_clt v = None"

lemma hardcoded_fan: "(view_isCltBroken v \<Longrightarrow> view_clt v = None) \<Longrightarrow> hardcoded_fan v fan = fan_on v (getLogicValue fan)"
  by (auto simp: hardcoded_fan_def fan_on_def value_or_def split: option.split)

lemma meaning_system:
  assumes "mono (in_fl i)" "float_ok (in_fl i)" "view_in_range (in_view i)"
  shows "meaning LE_FIRST (fsio_environment i s) self pump_tree = f_bool (pump_on (in_view i))"
    "meaning LE_FIRST (fsio_environment i s) self main_tree = f_bool (main_on (in_view i))"
    "meaning LE_FIRST (fsio_environment i s) self starter_tree = f_bool (view_rpm (in_view i) < view_crankingRpm (in_view i))"
    "meaning LE_FIRST (fsio_environment i s) self fan_tree = f_bool (fan_on (in_view i) (getLogicValue (fanRelay s)))"
proof -
  let ?v = "in_view i"
  note less = f_less_int [OF assms(1,2)]
  have two: "f_int (in_fl i) 5 = FNum False 5" using f_int_exact [OF assms(2), of 5] by simp
  show "meaning LE_FIRST (fsio_environment i s) self pump_tree = f_bool (pump_on ?v)"
    using less [of "view_startUpFuelPumpDuration ?v" "view_timeNowSeconds ?v"] less [of 0 "view_rpm ?v"] assms(3)
    by (simp add: pump_tree_def relation_def apply_action_def fsio_environment_def view_in_range_def pump_on_def Let_def)
  show "meaning LE_FIRST (fsio_environment i s) self main_tree = f_bool (main_on ?v)"
    using less [of 2 "view_timeNowSeconds ?v"] assms(3) two
    by (simp add: main_tree_def relation_def apply_action_def fsio_environment_def view_in_range_def main_on_def Let_def)
  show "meaning LE_FIRST (fsio_environment i s) self starter_tree = f_bool (view_rpm ?v < view_crankingRpm ?v)"
    using less [of "view_crankingRpm ?v" "view_rpm ?v"] assms(3)
    by (simp add: starter_tree_def relation_def apply_action_def fsio_environment_def view_in_range_def Let_def)
  show "meaning LE_FIRST (fsio_environment i s) self fan_tree = f_bool (fan_on ?v (getLogicValue (fanRelay s)))"
    by (simp add: fan_tree_def relation_def apply_action_def fsio_environment_def fan_on_def Let_def)
qed

lemma meaning_ac:
  assumes "mono (in_fl i)" "float_ok (in_fl i)"
  shows "meaning LE_FIRST (fsio_environment i s) self ac_tree = f_bool False"
proof -
  have "f_bool b = f_int (in_fl i) (of_bool b)" for b
    using f_int_exact [OF assms(2), of "of_bool b"] by (simp add: f_bool_def)
  then have "\<not> f_less (f_int (in_fl i) 850) (f_bool b)" for b
    using f_less_int [OF assms, of 850 "of_bool b"] by simp
  then show ?thesis by (simp add: ac_tree_def relation_def apply_action_def fsio_environment_def Let_def)
qed

subsection \<open>Switching a relay\<close>

lemma setValue_logic: "isInitialized p \<Longrightarrow> getLogicValue (fst (setValue (of_bool b) p)) = b"
  by (auto simp: setValue_def setPinValue_def isInitialized_def getLogicValue_def Let_def split: option.split)

lemma setPinState_relay:
  assumes "fsio_ok s" "parsed_at (in_fl i) (sysPool s) e t" "well_formed_expr LE_FIRST t" "depth t \<le> 3" "length (tokens t) \<le> 11"
    and "in_stack_ok i" "\<not> in_benchTest i" "isInitialized pin"
    and "\<And>self. meaning LE_FIRST (fsio_environment i s) self t = f_bool b"
  shows "getLogicValue (fst (setPinState i e pin s)) = b"
proof -
  obtain f where f: "e = Some f" "chained (le_pool (sysPool s)) f (map (element_of LE_FIRST (in_fl i)) (tokens t))"
    using assms(2) by (auto simp: parsed_at_def)
  have "fsio_fl (fsio_environment i s) = in_fl i" "fsio_stack_ok (fsio_environment i s)"
    using assms(6) by (simp_all add: fsio_environment_def)
  moreover have "length (fl_values (calc_stack (calc s))) = MAX_STACK_DEPTH" using assms(1) by (simp add: fsio_ok_def calc_ok_def)
  moreover obtain v c where
    v: "LECalculator_getValue2 (fsio_environment i s) (le_pool (sysPool s)) (f_bool (getLogicValue pin)) f (calc s) = (v, c)"
    by fastforce
  ultimately have "v = f_bool b"
    using chain_value [of LE_FIRST t "le_pool (sysPool s)" f "fsio_environment i s" "calc s" "f_bool (getLogicValue pin)"] f(2) assms(3-5,9)
    by (simp add: MAX_STACK_DEPTH_def FSIO_COUNT_LIMIT_def)
  then have "f_trunc v = of_bool b" by (simp add: f_bool_def)
  moreover obtain p io where "setValue (of_bool b) pin = (p, io)" by fastforce
  ultimately show ?thesis
    using setValue_logic [OF assms(8), of b] assms(7,8) by (simp add: setPinState_def f(1) v Let_def)
qed

text \<open>The relays after the periodic run, each from the state its expression is evaluated in.\<close>

definition relay_pin where
  "relay_pin i on e pin u = (if on then fst (setPinState i e pin u) else pin)"

lemma pin_stage:
  assumes "setPinState i e pin u = (pin', u')"
  shows "system_of u' = system_of u" "relays_of u' = relays_of u"
  using user_step_setPinState [OF assms] by (simp_all add: user_step_def)

lemma relay_step_refl [simp]: "relay_step s s"
  by (simp add: relay_step_def)

lemmas stage_simps = system_of_def relays_of_def relay_pin_def

definition hard_relay where
  "hard_relay assigned on pin = (if assigned then fst (setValue (of_bool on) pin) else pin)"

lemma run_relays_pins:
  "\<exists>u1 u2 u3 u4 u5. let t = run_relays cfg i s in
     fuelPumpRelay t = relay_pin i (fuelPumpPin cfg \<noteq> GPIO_UNASSIGNED) (fuelPumpLogic s) (fuelPumpRelay s) u1 \<and>
     (main_relay_control cfg \<longrightarrow>
        mainRelay t = relay_pin i (mainRelayPin cfg \<noteq> GPIO_UNASSIGNED) (mainRelayLogic s) (mainRelay s) u2) \<and>
     (\<not> main_relay_control cfg \<longrightarrow> mainRelay t = hard_relay (mainRelayPin cfg \<noteq> GPIO_UNASSIGNED) True (mainRelay s)) \<and>
     starterRelayDisable t =
       relay_pin i (starterRelayDisablePin cfg \<noteq> GPIO_UNASSIGNED) (starterRelayDisableLogic s) (starterRelayDisable s) u3 \<and>
     acRelay t = relay_pin i (acRelayPin cfg \<noteq> GPIO_UNASSIGNED) (acRelayLogic s) (acRelay s) u4 \<and>
     fanRelay t = relay_pin i (fanPin cfg \<noteq> GPIO_UNASSIGNED) (radiatorFanLogic s) (fanRelay s) u5 \<and>
     (\<forall>u \<in> {u1, u2, u3, u4, u5}. relay_step s u \<and> fanRelay u = fanRelay s)"
proof -
  define s1 where "s1 = (if fuelPumpPin cfg \<noteq> GPIO_UNASSIGNED
      then case setPinState i (fuelPumpLogic s) (fuelPumpRelay s) s of (pin, s) \<Rightarrow> s\<lparr>fuelPumpRelay := pin\<rparr> else s)"
  have 1: "relay_step s s1" unfolding s1_def by (intro relay_step_if relay_step_pin; simp)
  have r1: "relays_of s1 = (relays_of s)[0 := relay_pin i (fuelPumpPin cfg \<noteq> GPIO_UNASSIGNED) (fuelPumpLogic s) (fuelPumpRelay s) s]"
    by (auto simp: s1_def stage_simps split: prod.split dest: pin_stage [unfolded stage_simps])
  define s2 where "s2 = (if mainRelayPin cfg \<noteq> GPIO_UNASSIGNED then
        if main_relay_control cfg
        then case setPinState i (mainRelayLogic s1) (mainRelay s1) s1 of (pin, s) \<Rightarrow> s\<lparr>mainRelay := pin\<rparr>
        else case setValue 1 (mainRelay s1) of (pin, io) \<Rightarrow> fsio_effects [PinEffect io] (s1\<lparr>mainRelay := pin\<rparr>)
      else s1)"
  have 2: "relay_step s s2" unfolding s2_def
    by (intro relay_step_if relay_step_pin; (rule 1)?) (use 1 in \<open>simp_all split: prod.split\<close>)
  have r2: "\<exists>p. relays_of s2 = (relays_of s1)[1 := p] \<and>
      (main_relay_control cfg \<longrightarrow> p = relay_pin i (mainRelayPin cfg \<noteq> GPIO_UNASSIGNED) (mainRelayLogic s1) (mainRelay s1) s1) \<and>
      (\<not> main_relay_control cfg \<longrightarrow> p = hard_relay (mainRelayPin cfg \<noteq> GPIO_UNASSIGNED) True (mainRelay s1))"
    by (auto simp: s2_def stage_simps hard_relay_def split: prod.split dest: pin_stage [unfolded stage_simps])
  define s3 where "s3 = (if starterRelayDisablePin cfg \<noteq> GPIO_UNASSIGNED
      then case setPinState i (starterRelayDisableLogic s2) (starterRelayDisable s2) s2 of (pin, s) \<Rightarrow> s\<lparr>starterRelayDisable := pin\<rparr>
      else s2)"
  have 3: "relay_step s s3" unfolding s3_def by (intro relay_step_if relay_step_pin; (rule 2)?; simp)
  have r3: "relays_of s3 = (relays_of s2)[2 :=
      relay_pin i (starterRelayDisablePin cfg \<noteq> GPIO_UNASSIGNED) (starterRelayDisableLogic s2) (starterRelayDisable s2) s2]"
    by (auto simp: s3_def stage_simps split: prod.split dest: pin_stage [unfolded stage_simps])
  define s4 where "s4 = (case setValue (of_bool (view_isRunning (in_view i))) (o2heater s3) of
      (pin, io) \<Rightarrow> fsio_effects [PinEffect io] (s3\<lparr>o2heater := pin\<rparr>))"
  have 4: "relay_step s s4" "relays_of s4 = relays_of s3" using 3 by (simp_all add: s4_def relays_of_def split: prod.split)
  define s5 where "s5 = (if acRelayPin cfg \<noteq> GPIO_UNASSIGNED
      then case setPinState i (acRelayLogic s4) (acRelay s4) s4 of (pin, s) \<Rightarrow> s\<lparr>acRelay := pin\<rparr> else s4)"
  have 5: "relay_step s s5" unfolding s5_def by (intro relay_step_if relay_step_pin; (rule 4)?; simp)
  have r5: "relays_of s5 = (relays_of s4)[3 := relay_pin i (acRelayPin cfg \<noteq> GPIO_UNASSIGNED) (acRelayLogic s4) (acRelay s4) s4]"
    by (auto simp: s5_def stage_simps split: prod.split dest: pin_stage [unfolded stage_simps])
  have t: "run_relays cfg i s = (if fanPin cfg \<noteq> GPIO_UNASSIGNED
      then case setPinState i (radiatorFanLogic s5) (fanRelay s5) s5 of (pin, s) \<Rightarrow> s\<lparr>fanRelay := pin\<rparr> else s5)"
    unfolding run_relays_def Let_def s1_def [symmetric] s2_def [symmetric] s3_def [symmetric] s4_def [symmetric] s5_def [symmetric] ..
  have r6: "relays_of (run_relays cfg i s) =
      (relays_of s5)[4 := relay_pin i (fanPin cfg \<noteq> GPIO_UNASSIGNED) (radiatorFanLogic s5) (fanRelay s5) s5]"
    by (auto simp: t stage_simps split: prod.split dest: pin_stage [unfolded stage_simps])
  note sys = 1 2 3 4(1) 5
  have logics: "mainRelayLogic s1 = mainRelayLogic s" "starterRelayDisableLogic s2 = starterRelayDisableLogic s"
    "acRelayLogic s4 = acRelayLogic s" "radiatorFanLogic s5 = radiatorFanLogic s"
    using sys by (simp_all add: relay_step_def system_of_def)
  obtain p where p: "relays_of s2 = (relays_of s1)[1 := p]"
    "main_relay_control cfg \<longrightarrow> p = relay_pin i (mainRelayPin cfg \<noteq> GPIO_UNASSIGNED) (mainRelayLogic s1) (mainRelay s1) s1"
    "\<not> main_relay_control cfg \<longrightarrow> p = hard_relay (mainRelayPin cfg \<noteq> GPIO_UNASSIGNED) True (mainRelay s1)"
    using r2 by blast
  have m: "mainRelay s1 = mainRelay s" "fanRelay s1 = fanRelay s" using r1 by (simp_all add: relays_of_def)
  have st: "starterRelayDisable s2 = starterRelayDisable s" "fanRelay s2 = fanRelay s" using p(1) r1 by (simp_all add: relays_of_def)
  have ac: "acRelay s4 = acRelay s" "fanRelay s4 = fanRelay s" using 4(2) r3 p(1) r1 by (simp_all add: relays_of_def)
  have fan: "fanRelay s5 = fanRelay s" using r5 ac(2) by (simp add: relays_of_def)
  define t where "t = run_relays cfg i s"
  have "relays_of t = [relay_pin i (fuelPumpPin cfg \<noteq> GPIO_UNASSIGNED) (fuelPumpLogic s) (fuelPumpRelay s) s, p,
      relay_pin i (starterRelayDisablePin cfg \<noteq> GPIO_UNASSIGNED) (starterRelayDisableLogic s) (starterRelayDisable s) s2,
      relay_pin i (acRelayPin cfg \<noteq> GPIO_UNASSIGNED) (acRelayLogic s) (acRelay s) s4,
      relay_pin i (fanPin cfg \<noteq> GPIO_UNASSIGNED) (radiatorFanLogic s) (fanRelay s) s5]"
    unfolding t_def r6 r5 4(2) r3 p(1) r1 logics m st ac fan by (simp add: relays_of_def)
  then have pins: "fuelPumpRelay t = relay_pin i (fuelPumpPin cfg \<noteq> GPIO_UNASSIGNED) (fuelPumpLogic s) (fuelPumpRelay s) s"
    "mainRelay t = p"
    "starterRelayDisable t = relay_pin i (starterRelayDisablePin cfg \<noteq> GPIO_UNASSIGNED) (starterRelayDisableLogic s) (starterRelayDisable s) s2"
    "acRelay t = relay_pin i (acRelayPin cfg \<noteq> GPIO_UNASSIGNED) (acRelayLogic s) (acRelay s) s4"
    "fanRelay t = relay_pin i (fanPin cfg \<noteq> GPIO_UNASSIGNED) (radiatorFanLogic s) (fanRelay s) s5"
    by (simp_all only: relays_of_def list.inject)
  have "\<forall>u \<in> {s, s1, s2, s4, s5}. relay_step s u \<and> fanRelay u = fanRelay s" using sys m st ac fan by simp
  then show ?thesis
    using pins p(2,3) unfolding t_def logics m Let_def by blast
qed

lemma hardcoded_relays:
  "relays_of (runHardcodedFsio cfg v s) =
     [hard_relay (fuelPumpPin cfg \<noteq> GPIO_UNASSIGNED) (pump_on v) (fuelPumpRelay s),
      hard_relay (mainRelayPin cfg \<noteq> GPIO_UNASSIGNED) (main_on v) (mainRelay s),
      hard_relay (starterRelayDisablePin cfg \<noteq> GPIO_UNASSIGNED) (view_rpm v < view_crankingRpm v) (starterRelayDisable s),
      hard_relay (acRelayPin cfg \<noteq> GPIO_UNASSIGNED) (view_acToggle v \<and> view_rpm v > 850) (acRelay s),
      hard_relay (fanPin cfg \<noteq> GPIO_UNASSIGNED) (hardcoded_fan v (fanRelay s)) (fanRelay s)]"
proof -
  define s1 where "s1 = hardcoded_relay (mainRelayPin cfg) (main_on v) mainRelay (\<lambda>p s. s\<lparr>mainRelay := p\<rparr>) s"
  define s2 where "s2 = hardcoded_relay (starterRelayDisablePin cfg) (view_rpm v < view_crankingRpm v)
      starterRelayDisable (\<lambda>p s. s\<lparr>starterRelayDisable := p\<rparr>) s1"
  define s3 where "s3 = hardcoded_relay (fanPin cfg) (hardcoded_fan v (fanRelay s2)) fanRelay (\<lambda>p s. s\<lparr>fanRelay := p\<rparr>) s2"
  define s4 where "s4 = hardcoded_relay (acRelayPin cfg) (view_acToggle v \<and> view_rpm v > 850) acRelay (\<lambda>p s. s\<lparr>acRelay := p\<rparr>) s3"
  define s5 where "s5 = hardcoded_relay (fuelPumpPin cfg) (pump_on v) fuelPumpRelay (\<lambda>p s. s\<lparr>fuelPumpRelay := p\<rparr>) s4"
  note stage = hardcoded_relay_def hard_relay_def relays_of_def split_def
  have 1: "relays_of s1 = (relays_of s)[1 := hard_relay (mainRelayPin cfg \<noteq> GPIO_UNASSIGNED) (main_on v) (mainRelay s)]"
    by (simp add: s1_def stage)
  have 2: "relays_of s2 = (relays_of s1)[2 :=
      hard_relay (starterRelayDisablePin cfg \<noteq> GPIO_UNASSIGNED) (view_rpm v < view_crankingRpm v) (starterRelayDisable s1)]"
    by (simp add: s2_def stage)
  have 3: "relays_of s3 = (relays_of s2)[4 := hard_relay (fanPin cfg \<noteq> GPIO_UNASSIGNED) (hardcoded_fan v (fanRelay s2)) (fanRelay s2)]"
    by (simp add: s3_def stage)
  have 4: "relays_of s4 = (relays_of s3)[3 :=
      hard_relay (acRelayPin cfg \<noteq> GPIO_UNASSIGNED) (view_acToggle v \<and> view_rpm v > 850) (acRelay s3)]"
    by (simp add: s4_def stage)
  have 5: "relays_of s5 = (relays_of s4)[0 := hard_relay (fuelPumpPin cfg \<noteq> GPIO_UNASSIGNED) (pump_on v) (fuelPumpRelay s4)]"
    by (simp add: s5_def stage)
  have "starterRelayDisable s1 = starterRelayDisable s" using 1 by (simp add: relays_of_def)
  moreover have "fanRelay s2 = fanRelay s" using 2 1 by (simp add: relays_of_def)
  moreover have "acRelay s3 = acRelay s" using 3 2 1 by (simp add: relays_of_def)
  moreover have "fuelPumpRelay s4 = fuelPumpRelay s" using 4 3 2 1 by (simp add: relays_of_def)
  moreover have "relays_of (runHardcodedFsio cfg v s) = relays_of s5"
    unfolding runHardcodedFsio_def Let_def pump_on_def [symmetric] main_on_def [symmetric]
      s1_def [symmetric] s2_def [symmetric] s3_def [symmetric] s4_def [symmetric] s5_def [symmetric]
    by (simp add: relays_of_def split_def)
  ultimately show ?thesis using 5 4 3 2 1 by (simp add: relays_of_def)
qed

lemma run_pins:
  assumes "fsio_power_on s0" "fsio_reach cfg fl onchip s0 s" "in_fl i = fl" "mono fl" "float_ok fl" "view_in_range (in_view i)"
    and "in_stack_ok i" "\<not> in_benchTest i"
  defines "t \<equiv> runFsio cfg i s" and "v \<equiv> in_view i"
  shows "fuelPumpPin cfg \<noteq> GPIO_UNASSIGNED \<Longrightarrow> isInitialized (fuelPumpRelay s) \<Longrightarrow> getLogicValue (fuelPumpRelay t) = pump_on v"
    "main_relay_control cfg \<Longrightarrow> mainRelayPin cfg \<noteq> GPIO_UNASSIGNED \<Longrightarrow> isInitialized (mainRelay s) \<Longrightarrow>
       getLogicValue (mainRelay t) = main_on v"
    "starterRelayDisablePin cfg \<noteq> GPIO_UNASSIGNED \<Longrightarrow> isInitialized (starterRelayDisable s) \<Longrightarrow>
       getLogicValue (starterRelayDisable t) = (view_rpm v < view_crankingRpm v)"
    "acRelayPin cfg \<noteq> GPIO_UNASSIGNED \<Longrightarrow> isInitialized (acRelay s) \<Longrightarrow> getLogicValue (acRelay t) = False"
    "fanPin cfg \<noteq> GPIO_UNASSIGNED \<Longrightarrow> isInitialized (fanRelay s) \<Longrightarrow> getLogicValue (fanRelay t) = fan_on v (getLogicValue (fanRelay s))"
    "fuelPumpPin cfg = GPIO_UNASSIGNED \<Longrightarrow> fuelPumpRelay t = fuelPumpRelay s"
    "main_relay_control cfg \<Longrightarrow> mainRelayPin cfg = GPIO_UNASSIGNED \<Longrightarrow> mainRelay t = mainRelay s"
    "starterRelayDisablePin cfg = GPIO_UNASSIGNED \<Longrightarrow> starterRelayDisable t = starterRelayDisable s"
    "fanPin cfg = GPIO_UNASSIGNED \<Longrightarrow> fanRelay t = fanRelay s"
    "\<not> main_relay_control cfg \<Longrightarrow> mainRelay t = hard_relay (mainRelayPin cfg \<noteq> GPIO_UNASSIGNED) True (mainRelay s)"
proof -
  define h where "h = fold (handleFsio i) [0..<FSIO_COMMAND_COUNT] s"
  have h: "user_step s h" unfolding h_def by (rule user_step_fold [OF user_step_handleFsio])
  have pins: "fuelPumpRelay h = fuelPumpRelay s" "mainRelay h = mainRelay s" "starterRelayDisable h = starterRelayDisable s"
    "acRelay h = acRelay s" "fanRelay h = fanRelay s" using h by (simp_all add: user_step_def relays_of_def)
  have ready: "system_ready cfg fl h" using reach_ready [OF assms(2,1)] relay_step_ready [OF relay_stepI [OF h]] by blast
  obtain u1 u2 u3 u4 u5 where u:
    "fuelPumpRelay (run_relays cfg i h) = relay_pin i (fuelPumpPin cfg \<noteq> GPIO_UNASSIGNED) (fuelPumpLogic h) (fuelPumpRelay h) u1"
    "main_relay_control cfg \<longrightarrow>
        mainRelay (run_relays cfg i h) = relay_pin i (mainRelayPin cfg \<noteq> GPIO_UNASSIGNED) (mainRelayLogic h) (mainRelay h) u2"
    "\<not> main_relay_control cfg \<longrightarrow>
        mainRelay (run_relays cfg i h) = hard_relay (mainRelayPin cfg \<noteq> GPIO_UNASSIGNED) True (mainRelay h)"
    "starterRelayDisable (run_relays cfg i h) =
       relay_pin i (starterRelayDisablePin cfg \<noteq> GPIO_UNASSIGNED) (starterRelayDisableLogic h) (starterRelayDisable h) u3"
    "acRelay (run_relays cfg i h) = relay_pin i (acRelayPin cfg \<noteq> GPIO_UNASSIGNED) (acRelayLogic h) (acRelay h) u4"
    "fanRelay (run_relays cfg i h) = relay_pin i (fanPin cfg \<noteq> GPIO_UNASSIGNED) (radiatorFanLogic h) (fanRelay h) u5"
    "\<forall>u \<in> {u1, u2, u3, u4, u5}. relay_step h u \<and> fanRelay u = fanRelay h"
    using run_relays_pins [of cfg i h] unfolding Let_def by blast
  have "relays_of t = relays_of (run_relays cfg i h)"
    using user_step_run_values [of "run_relays cfg i h" cfg i] by (simp add: t_def runFsio_def h_def user_step_def)
  then have t: "fuelPumpRelay t = fuelPumpRelay (run_relays cfg i h)" "mainRelay t = mainRelay (run_relays cfg i h)"
    "starterRelayDisable t = starterRelayDisable (run_relays cfg i h)" "acRelay t = acRelay (run_relays cfg i h)"
    "fanRelay t = fanRelay (run_relays cfg i h)" by (simp_all add: relays_of_def)
  have ready': "system_ready cfg (in_fl i) u" "system_of u = system_of h" "fanRelay u = fanRelay s" if "u \<in> {u1, u2, u3, u4, u5}" for u
    using u(7) that relay_step_ready ready pins(5) assms(3) by (auto simp: relay_step_def)
  have logics: "fuelPumpLogic u1 = fuelPumpLogic h" "mainRelayLogic u2 = mainRelayLogic h"
    "starterRelayDisableLogic u3 = starterRelayDisableLogic h" "acRelayLogic u4 = acRelayLogic h" "radiatorFanLogic u5 = radiatorFanLogic h"
    using ready'(2) by (auto simp: system_of_def)
  have num: "mono (in_fl i)" "float_ok (in_fl i)" using assms(3-5) by simp_all
  note meanings = meaning_system [OF num assms(6)] meaning_ac [OF num]
  note relay = setPinState_relay [OF _ _ _ _ _ assms(7,8)]
  note sizes = system_trees_ok system_trees_depth system_trees_size
  show "fuelPumpPin cfg \<noteq> GPIO_UNASSIGNED \<Longrightarrow> isInitialized (fuelPumpRelay s) \<Longrightarrow> getLogicValue (fuelPumpRelay t) = pump_on v"
    using relay [OF _ _ sizes(2) _ _ _ meanings(1), of u1 "fuelPumpLogic u1" "fuelPumpRelay s"] ready'(1) [of u1] sizes
    by (simp add: t u(1) relay_pin_def pins logics v_def system_ready_def)
  show "main_relay_control cfg \<Longrightarrow> mainRelayPin cfg \<noteq> GPIO_UNASSIGNED \<Longrightarrow> isInitialized (mainRelay s) \<Longrightarrow>
       getLogicValue (mainRelay t) = main_on v"
    using relay [OF _ _ sizes(4) _ _ _ meanings(2), of u2 "mainRelayLogic u2" "mainRelay s"] ready'(1) [of u2] sizes
    by (simp add: t u(2) relay_pin_def pins logics v_def system_ready_def)
  show "starterRelayDisablePin cfg \<noteq> GPIO_UNASSIGNED \<Longrightarrow> isInitialized (starterRelayDisable s) \<Longrightarrow>
       getLogicValue (starterRelayDisable t) = (view_rpm v < view_crankingRpm v)"
    using relay [OF _ _ sizes(5) _ _ _ meanings(3), of u3 "starterRelayDisableLogic u3" "starterRelayDisable s"] ready'(1) [of u3] sizes
    by (simp add: t u(4) relay_pin_def pins logics v_def system_ready_def)
  show "acRelayPin cfg \<noteq> GPIO_UNASSIGNED \<Longrightarrow> isInitialized (acRelay s) \<Longrightarrow> getLogicValue (acRelay t) = False"
    using relay [OF _ _ sizes(3) _ _ _ meanings(5), of u4 "acRelayLogic u4" "acRelay s"] ready'(1) [of u4] sizes
    by (simp add: t u(5) relay_pin_def pins logics v_def system_ready_def)
  show "fanPin cfg \<noteq> GPIO_UNASSIGNED \<Longrightarrow> isInitialized (fanRelay s) \<Longrightarrow> getLogicValue (fanRelay t) = fan_on v (getLogicValue (fanRelay s))"
    using relay [OF _ _ sizes(1) _ _ _ meanings(4), of u5 "radiatorFanLogic u5" "fanRelay s"] ready'(1,3) [of u5] sizes
    by (simp add: t u(6) relay_pin_def pins logics v_def system_ready_def)
  show "fuelPumpPin cfg = GPIO_UNASSIGNED \<Longrightarrow> fuelPumpRelay t = fuelPumpRelay s"
    "main_relay_control cfg \<Longrightarrow> mainRelayPin cfg = GPIO_UNASSIGNED \<Longrightarrow> mainRelay t = mainRelay s"
    "starterRelayDisablePin cfg = GPIO_UNASSIGNED \<Longrightarrow> starterRelayDisable t = starterRelayDisable s"
    "fanPin cfg = GPIO_UNASSIGNED \<Longrightarrow> fanRelay t = fanRelay s"
    "\<not> main_relay_control cfg \<Longrightarrow> mainRelay t = hard_relay (mainRelayPin cfg \<noteq> GPIO_UNASSIGNED) True (mainRelay s)"
    using u(1,2,3,4,6) by (simp_all add: t relay_pin_def pins)
qed


text \<open>
  C39: the A/C relay never switches on. Whatever the engine does, a periodic run leaves the A/C relay off, because its
  expression compares a truth value with 850; the hard-coded logic switches it with the toggle above 850 RPM.
\<close>

theorem ac_relay_stays_off:
  assumes "fsio_power_on s0" "fsio_reach cfg fl onchip s0 s" "in_fl i = fl" "mono fl" "float_ok fl" "view_in_range (in_view i)"
    and "in_stack_ok i" "\<not> in_benchTest i" "acRelayPin cfg \<noteq> GPIO_UNASSIGNED" "isInitialized (acRelay s)"
  shows "\<not> getLogicValue (acRelay (runFsio cfg i s)) \<and>
    getLogicValue (acRelay (runHardcodedFsio cfg (in_view i) s)) = (view_acToggle (in_view i) \<and> view_rpm (in_view i) > 850)"
proof -
  have "acRelay (runHardcodedFsio cfg (in_view i) s) =
      hard_relay True (view_acToggle (in_view i) \<and> view_rpm (in_view i) > 850) (acRelay s)"
    using hardcoded_relays [of cfg "in_view i" s] assms(9) by (simp add: relays_of_def)
  then show ?thesis
    using run_pins(4) [OF assms(1-8)] assms(9,10) setValue_logic [OF assms(10)] by (simp add: hard_relay_def)
qed

subsection \<open>Formulas of the user\<close>

fun formula_text :: "fsio_expr option \<Rightarrow> string" where
  "formula_text None = []"
| "formula_text (Some e) = unparse e"

fun formula_size :: "fsio_expr option \<Rightarrow> nat" where
  "formula_size None = 0"
| "formula_size (Some e) = length (tokens e)"

fun formula_ok :: "fsio_expr option \<Rightarrow> bool" where
  "formula_ok None = True"
| "formula_ok (Some e) = (well_formed_expr LE_FIRST e \<and> depth e \<le> MAX_STACK_DEPTH)"

text \<open>The logic of an output is its formula, parsed; an output without a formula has none.\<close>

fun logic_of :: "rounding \<Rightarrow> fsio_state \<Rightarrow> nat \<Rightarrow> fsio_expr option \<Rightarrow> bool" where
  "logic_of fl s i None = (fsioLogics s ! i = None)"
| "logic_of fl s i (Some e) = parsed_at fl (userPool s) (fsioLogics s ! i) e"

lemma parse_empty: "parseExpression names fl [] p = (None, p)"
proof -
  have "getNextToken [] parsingBufferSize = (None, [])" by (simp add: getNextToken_def skip_spaces_def)
  then show ?thesis unfolding parseExpression_def by (subst parse_loop.simps) simp
qed

lemma apply_formula_step:
  fixes fl :: rounding
  assumes "fsio_ok s" "fsioFormulas s ! i = formula_text e" "formula_ok e" "i < FSIO_COMMAND_COUNT"
    and "le_index (userPool s) + formula_size e \<le> UD_ELEMENT_POOL_SIZE"
  defines "t \<equiv> apply_formula fl i s"
  shows "logic_of fl t i e" "le_index (userPool t) = le_index (userPool s) + formula_size e"
    "j \<noteq> i \<Longrightarrow> logic_of fl s j e' \<Longrightarrow> logic_of fl t j e'" "fsioFormulas t = fsioFormulas s"
proof -
  obtain f p where parsed: "parseExpression LE_FIRST fl (formula_text e) (userPool s) = (f, p)" by fastforce
  have t: "fsioLogics t = (fsioLogics s)[i := f]" "userPool t = p" "fsioFormulas t = fsioFormulas s"
    by (simp_all add: t_def apply_formula_def assms(2) parsed Let_def)
  have len: "i < length (fsioLogics s)" "pool_ok UD_ELEMENT_POOL_SIZE (userPool s)" using assms(1,4) by (simp_all add: fsio_ok_def)
  have "logic_of fl t i e \<and> le_index p = le_index (userPool s) + formula_size e \<and>
      same_below (le_index (userPool s)) (userPool s) p"
  proof (cases e)
    case None
    then show ?thesis using parsed t len by (auto simp: parse_empty same_below_def)
  next
    case (Some x)
    have "well_formed_expr LE_FIRST x" "le_index (userPool s) + length (tokens x) \<le> UD_ELEMENT_POOL_SIZE"
      using assms(3,5) Some by simp_all
    from parse_formula [OF this(1) len(2) this(2)] parsed t len Some show ?thesis by simp
  qed
  then have step: "logic_of fl t i e" "le_index p = le_index (userPool s) + formula_size e"
    "same_below (le_index (userPool s)) (userPool s) p" by simp_all
  show "logic_of fl t i e" "le_index (userPool t) = le_index (userPool s) + formula_size e" "fsioFormulas t = fsioFormulas s"
    using step t by simp_all
  show "j \<noteq> i \<Longrightarrow> logic_of fl s j e' \<Longrightarrow> logic_of fl t j e'"
    using parsed_at_frame step t by (cases e') auto
qed

lemma apply_formulas:
  fixes fl :: rounding
  assumes "fsio_ok s" "\<And>i. i < FSIO_COMMAND_COUNT \<Longrightarrow> fsioFormulas s ! i = formula_text (es ! i)"
    and "length es = FSIO_COMMAND_COUNT" "list_all formula_ok es" "sum_list (map formula_size es) \<le> UD_ELEMENT_POOL_SIZE"
    and "le_index (userPool s) = 0" "n \<le> FSIO_COMMAND_COUNT"
  defines "t \<equiv> fold (apply_formula fl) [0..<n] s"
  shows "fsio_ok t \<and> fsioFormulas t = fsioFormulas s \<and> le_index (userPool t) = sum_list (map formula_size (take n es)) \<and>
    (\<forall>i < n. logic_of fl t i (es ! i))"
  using assms(7) unfolding t_def
proof (induction n)
  case (Suc n)
  define u where "u = fold (apply_formula fl) [0..<n] s"
  have u: "fsio_ok u" "fsioFormulas u = fsioFormulas s" "le_index (userPool u) = sum_list (map formula_size (take n es))"
    "\<forall>i < n. logic_of fl u i (es ! i)" using Suc by (simp_all add: u_def)
  have n: "n < FSIO_COMMAND_COUNT" "n < length es" using Suc.prems assms(3) by simp_all
  have take: "sum_list (map formula_size (take (Suc n) es)) = le_index (userPool u) + formula_size (es ! n)"
    using u(3) by (simp add: take_Suc_conv_app_nth [OF n(2)])
  moreover have "sum_list (map formula_size es) =
      sum_list (map formula_size (take (Suc n) es)) + sum_list (map formula_size (drop (Suc n) es))"
    by (metis append_take_drop_id map_append sum_list_append)
  ultimately have room: "le_index (userPool u) + formula_size (es ! n) \<le> UD_ELEMENT_POOL_SIZE" using assms(5) by linarith
  have f: "fsioFormulas u ! n = formula_text (es ! n)" "formula_ok (es ! n)"
    using u(2) assms(2) [OF n(1)] assms(4) n(2) by (simp_all add: list_all_length)
  note step = apply_formula_step [OF u(1) f n(1) room, where fl = fl]
  have "fold (apply_formula fl) [0..<Suc n] s = apply_formula fl n u" by (simp add: u_def)
  then show ?case
    using step u take user_step_formula [where s = u and k = n and fl = fl] by (simp add: less_Suc_eq user_step_def)
qed (use assms in simp)

text \<open>
  C19: a formula entered on the console takes effect and disturbs no other. When all formulas are well-formed and together have at
  most 128 tokens, \<open>set_rpn_expression\<close> with a quoted formula of fewer than 200 characters makes its output compute the value of that formula,
  every other output the value of its own, and outputs without a formula NaN.
\<close>

theorem formulas_take_effect:
  assumes "fsio_ok s" "length es = FSIO_COMMAND_COUNT" "list_all formula_ok es" "sum_list (map formula_size es) \<le> UD_ELEMENT_POOL_SIZE"
    and "\<forall>i < FSIO_COMMAND_COUNT. i \<noteq> k \<longrightarrow> fsioFormulas s ! i = formula_text (es ! i)"
    and "k < FSIO_COMMAND_COUNT" "atoi indexStr = int k + 1" "unquote quotedLine = formula_text (es ! k)"
    and "length (formula_text (es ! k)) < LE_COMMAND_LENGTH" "in_stack_ok i" "j < FSIO_COMMAND_COUNT"
  shows "fst (getFsioOutputValue i j (setFsioExpression (in_fl i) indexStr quotedLine s)) =
    (case es ! j of None \<Rightarrow> FNaN | Some e \<Rightarrow> meaning LE_FIRST (fsio_environment i s) (fsioLastValue s ! j) e)"
proof -
  let ?s0 = "s\<lparr>fsioFormulas := (fsioFormulas s)[k := formula_text (es ! k)]\<rparr>"
  let ?s1 = "?s0\<lparr>userPool := LEElementPool_reset (userPool ?s0)\<rparr>"
  define t where "t = setFsioExpression (in_fl i) indexStr quotedLine s"
  have k: "to_i32 (atoi indexStr - 1) = int k" using assms(6,7) by (simp add: FSIO_COMMAND_COUNT_def)
  have t: "t = fold (apply_formula (in_fl i)) [0..<FSIO_COMMAND_COUNT] ?s1"
    using assms(6,9) by (simp add: t_def setFsioExpression_def k assms(8) Let_def LE_COMMAND_LENGTH_def applyFsioConfiguration_def)
  have "length (fsioFormulas s) = FSIO_COMMAND_COUNT" using assms(1) by (simp add: fsio_ok_def)
  then have f: "fsioFormulas ?s1 ! j = formula_text (es ! j)" if "j < FSIO_COMMAND_COUNT" for j
    using that assms(5,6) by (simp add: nth_list_update)
  have "fsio_ok ?s0"
    using assms(1,9) set_update_subset_insert [of "fsioFormulas s" k "formula_text (es ! k)"] by (auto simp: fsio_ok_def list_all_iff)
  then have ok1: "fsio_ok ?s1"
    by (auto simp: fsio_ok_def pool_ok_def LEElementPool_reset_def in_pool_def list_all_iff)
  have "le_index (userPool ?s1) = 0" by (simp add: LEElementPool_reset_def)
  from apply_formulas [OF ok1 f assms(2-4) this order_refl, of "in_fl i"] assms(11)
  have r: "fsio_ok t" "logic_of (in_fl i) t j (es ! j)" unfolding t by blast+
  have "user_step ?s1 t" unfolding t by (rule user_step_fold [OF user_step_formula])
  then have fan: "fanRelay t = fanRelay s" by (simp add: user_step_def relays_of_def)
  have keep: "fsio_settings (fold (apply_formula fl) ks u) = fsio_settings u \<and> fsioLastValue (fold (apply_formula fl) ks u) = fsioLastValue u" for fl ks u
    by (induction ks arbitrary: u) (simp_all add: apply_formula_def Let_def fsio_effects_def split_def)
  have env: "fsio_environment i t = fsio_environment i s" "fsioLastValue t = fsioLastValue s"
    using fan keep by (simp_all add: fsio_environment_def t)
  show ?thesis
  proof (cases "es ! j")
    case None
    then show ?thesis using r(2) by (simp add: getFsioOutputValue_def flip: t_def)
  next
    case (Some e)
    obtain f where f: "fsioLogics t ! j = Some f" "chained (le_pool (userPool t)) f (map (element_of LE_FIRST (in_fl i)) (tokens e))"
      using r(2) Some by (auto simp: parsed_at_def)
    have "formula_ok (Some e)" using assms(2,3,11) Some by (metis list_all_length)
    moreover have "length (tokens e) \<le> FSIO_COUNT_LIMIT"
      using f(2) r(1) by (simp add: chained_def fsio_ok_def pool_ok_def UD_ELEMENT_POOL_SIZE_def FSIO_COUNT_LIMIT_def)
    moreover have "fsio_fl (fsio_environment i s) = in_fl i" "fsio_stack_ok (fsio_environment i s)"
      "length (fl_values (calc_stack (calc t))) = MAX_STACK_DEPTH"
      using assms(10) r(1) by (simp_all add: fsio_environment_def fsio_ok_def calc_ok_def)
    ultimately have "fst (LECalculator_getValue2 (fsio_environment i s) (le_pool (userPool t)) self f (calc t)) =
        meaning LE_FIRST (fsio_environment i s) self e" for self
      using chain_value [of LE_FIRST e "le_pool (userPool t)" f "fsio_environment i s" "calc t" self] f(2) by simp
    then show ?thesis using Some by (simp add: getFsioOutputValue_def f(1) env split_def flip: t_def)
  qed
qed

subsection \<open>An example\<close>

definition example_pin :: OutputPin where
  "example_pin = OutputPin_new\<lparr>op_port := Some 3, currentLogicValue := 0\<rparr>"

definition example_state :: fsio_state where
  "example_state =
     \<lparr>calc = LECalculator_new, evalCalc = LECalculator_new,
      sysPool = LEElementPool_new (replicate SYS_ELEMENT_POOL_SIZE LEElement_clear),
      userPool = LEElementPool_new (replicate UD_ELEMENT_POOL_SIZE LEElement_clear),
      evalPool = LEElementPool_new (replicate LE_EVAL_POOL_SIZE LEElement_clear),
      fsioLogics = replicate FSIO_COMMAND_COUNT None, acRelayLogic = None, fuelPumpLogic = None, radiatorFanLogic = None,
      alternatorLogic = None, starterRelayDisableLogic = None, mainRelayLogic = None,
      fsioLastValue = replicate FSIO_COMMAND_COUNT FNaN, servoValues = replicate 8 (FNum False 0),
      isEngineWarning = FNum False 0, isCriticalEngineCondition = FNum False 0, fsioIdleOffset = FNum False 0,
      fsioIdleMinValue = FNum False 0, fsioIdleTargetRPMAdjustment = FNum False 0, fsioTimingAdjustment = FNum False 0,
      fsioOutputPins = replicate FSIO_COMMAND_COUNT GPIO_UNASSIGNED, fsioFrequency = replicate FSIO_COMMAND_COUNT NO_PWM,
      fsioFormulas = replicate FSIO_COMMAND_COUNT [], fsio_settings = replicate FSIO_COMMAND_COUNT (FNum False 0),
      fsioAdc = replicate FSIO_ANALOG_INPUT_COUNT GPIO_UNASSIGNED, fsioDigitalInputs = replicate FSIO_COMMAND_COUNT GPIO_UNASSIGNED,
      auxPidPins = replicate AUX_PID_COUNT GPIO_UNASSIGNED, fsioOutputs = replicate FSIO_COMMAND_COUNT OutputPin_new,
      fuelPumpRelay = example_pin, mainRelay = example_pin, starterRelayDisable = example_pin, o2heater = example_pin,
      acRelay = example_pin, fanRelay = example_pin, fsio_log = []\<rparr>"

definition example_config :: fsio_config where
  "example_config =
     \<lparr>fuelPumpPin = 20, mainRelayPin = 21, starterRelayDisablePin = 22, acRelayPin = 23, fanPin = 24,
      useFSIO4ForSeriousEngineWarning = True, useFSIO5ForCriticalIssueEngineStop = False, useFSIO12ForIdleOffset = False,
      useFSIO13ForIdleMinValue = False, useFSIO15ForIdleRpmAdjustment = True, useFSIO16ForTimingAdjustment = False,
      useFSIO8ForServo1 = True, useFSIO9ForServo2 = False, useFSIO10ForServo3 = False, useFSIO11ForServo4 = False,
      useFSIO12ForServo5 = False, main_relay_control = False\<rparr>"

text \<open>A hot engine at 3000 RPM with the A/C switched on.\<close>

definition example_view :: engine_view where
  "example_view =
     \<lparr>view_fan = False, view_timeSinceAcToggle = FNum False 9, view_acToggle = True, view_clt = Some (FNum False 100),
      view_iat = Some (FNum False 30), view_rpm = 3000, view_maf = FNum False 0, view_map = FNum False 80,
      view_vvtPosition = FNum False 0, view_timeNowSeconds = 60, view_startUpFuelPumpDuration = 4, view_crankingRpm = 500,
      view_inShutdown = False, view_vbatt = FNum False 14, view_tps = None, view_isRunning = True, view_isCltBroken = False,
      view_generated = (\<lambda>g. if g = FSIO_SETTING_FANONTEMPERATURE then FNum False 95 else FNum False 90)\<rparr>"

definition example_input :: fsio_input where
  "example_input =
     \<lparr>in_fl = id, in_view = example_view, in_table = (\<lambda>_ _ _. FNaN), in_adc_voltage = FNum False 0, in_knockCount = 0,
      in_stack_ok = True, in_benchTest = False\<rparr>"


definition example_start :: fsio_state where
  "example_start = initFsioImpl example_config id (\<lambda>_. None) example_state"

lemma example_power_on: "fsio_power_on example_state"
  by (simp add: fsio_power_on_def example_state_def list_all_iff LE_COMMAND_LENGTH_def)

lemma init_relays: "relays_of (initFsioImpl cfg fl onchip s) = relays_of s"
proof -
  have pins: "relays_of (fold init_input ks (fold (init_output onchip) js t)) = relays_of t" for ks js t
    using user_step_trans [OF user_step_fold user_step_fold] user_step_init_pins unfolding user_step_def by metis
  show ?thesis unfolding initFsioImpl_def Let_def pins by (simp add: parse_system_def split_def relays_of_def)
qed

lemma example_relays:
  "fuelPumpRelay example_start = example_pin" "mainRelay example_start = example_pin" "starterRelayDisable example_start = example_pin"
  "acRelay example_start = example_pin" "fanRelay example_start = example_pin"
  using init_relays [of example_config id "\<lambda>_. None" example_state]
  by (simp_all add: example_start_def relays_of_def example_state_def)

lemma example_reach: "fsio_reach example_config id (\<lambda>_. None) example_state example_start"
  unfolding example_start_def by (rule fsio_reach.init)

lemma example_rounding: "mono (id :: rounding)" "float_ok (id :: rounding)" "in_fl example_input = id" "view_in_range (in_view example_input)"
  "in_stack_ok example_input" "\<not> in_benchTest example_input"
  "view_isCltBroken (in_view example_input) \<Longrightarrow> view_clt (in_view example_input) = None" "isInitialized example_pin"
  by (simp_all add: mono_def float_ok_id example_input_def example_view_def view_in_range_def isInitialized_def
      example_pin_def)


theorem ac_relay_stays_off_witness:
  "\<not> getLogicValue (acRelay (runFsio example_config example_input example_start)) \<and>
   getLogicValue (acRelay (runHardcodedFsio example_config (in_view example_input) example_start))"
proof -
  have "acRelayPin example_config \<noteq> GPIO_UNASSIGNED" "isInitialized (acRelay example_start)"
    by (simp_all add: example_config_def GPIO_UNASSIGNED_def example_relays example_rounding)
  from ac_relay_stays_off [OF example_power_on example_reach example_rounding(3,1,2,4-6) this] show ?thesis
    by (simp add: example_input_def example_view_def)
qed

theorem formulas_take_effect_witness:
  "fst (getFsioOutputValue example_input 0 (setFsioExpression id ''1'' ([CHR 0x22] @ ''rpm 850 >'' @ [CHR 0x22]) example_start)) =
    meaning LE_FIRST (fsio_environment example_input example_start) (fsioLastValue example_start ! 0) (relation ''>'' ''rpm'' ''850'')"
proof -
  let ?e = "relation ''>'' ''rpm'' ''850''"
  let ?es = "Some ?e # replicate 15 None"
  have e: "unparse ?e = ''rpm 850 >''" "well_formed_expr LE_FIRST ?e" "depth ?e \<le> MAX_STACK_DEPTH" "length (tokens ?e) = 3" by code_simp+
  have "fsioFormulas example_start = fsioFormulas example_state"
  proof -
    have "fsioFormulas (fold init_input ks (fold (init_output onchip) js t)) = fsioFormulas t" for ks js t onchip
    proof -
      have "fsioFormulas (fold (init_output onchip) js t) = fsioFormulas t" for js t
        by (induction js arbitrary: t) (simp_all add: init_output_def Let_def split_def)
      moreover have "fsioFormulas (fold init_input ks t) = fsioFormulas t" for ks t
        by (induction ks arbitrary: t) (simp_all add: init_input_def)
      ultimately show ?thesis by simp
    qed
    then show ?thesis by (simp add: example_start_def initFsioImpl_def Let_def parse_system_def split_def)
  qed
  then have f: "fsioFormulas example_start = replicate FSIO_COMMAND_COUNT []" by (simp add: example_state_def)
  have "fst (getFsioOutputValue example_input 0 (setFsioExpression (in_fl example_input) ''1'' ([CHR 0x22] @ ''rpm 850 >'' @ [CHR 0x22]) example_start)) =
    (case ?es ! 0 of None \<Rightarrow> FNaN | Some e \<Rightarrow> meaning LE_FIRST (fsio_environment example_input example_start) (fsioLastValue example_start ! 0) e)"
  proof (rule formulas_take_effect)
    show "fsio_ok example_start"
      using reach_ready [OF example_reach example_power_on] by (simp add: system_ready_def)
    show "\<forall>i<FSIO_COMMAND_COUNT. i \<noteq> 0 \<longrightarrow> fsioFormulas example_start ! i = formula_text (?es ! i)"
      by (simp add: f FSIO_COMMAND_COUNT_def nth_Cons')
    show "atoi ''1'' = int 0 + 1" by code_simp
    have "unquote ([CHR 0x22] @ ''rpm 850 >'' @ [CHR 0x22]) = ''rpm 850 >''" by code_simp
    then show "unquote ([CHR 0x22] @ ''rpm 850 >'' @ [CHR 0x22]) = formula_text (?es ! 0)" by (simp only: e nth_Cons_0 formula_text.simps)
    show "list_all formula_ok ?es" using e by (simp add: list_all_iff)
    show "length (formula_text (?es ! 0)) < LE_COMMAND_LENGTH" by (simp add: e LE_COMMAND_LENGTH_def)
  qed (use e example_rounding in \<open>simp_all add: FSIO_COMMAND_COUNT_def UD_ELEMENT_POOL_SIZE_def sum_list_replicate\<close>)
  then show ?thesis by (simp add: example_rounding)
qed

theorem fsio_expression_value_witness:
  "\<exists>f p'. parseExpression LE_FIRST id (unparse (relation ''>'' ''rpm'' ''850'')) (userPool example_state) = (Some f, p') \<and>
    pool_log p' = [] \<and> fst (LECalculator_getValue2 (fsio_environment example_input example_start) (le_pool p') FNaN f LECalculator_new) = f_bool True"
proof -
  let ?e = "relation ''>'' ''rpm'' ''850''" and ?env = "fsio_environment example_input example_start"
  have e: "well_formed_expr LE_FIRST ?e" "depth ?e \<le> MAX_STACK_DEPTH" "length (tokens ?e) \<le> FSIO_COUNT_LIMIT" "length (tokens ?e) = 3"
    by code_simp+
  have m: "meaning LE_FIRST ?env FNaN ?e = f_bool True"
    using f_less_int(1) [OF example_rounding(1,2), of 850 3000]
    by (simp add: relation_def apply_action_def fsio_environment_def example_input_def example_view_def Let_def)
  have p: "userPool example_state = LEElementPool_new (replicate 128 LEElement_clear)"
    by (simp add: example_state_def UD_ELEMENT_POOL_SIZE_def)
  have "length (fl_values (calc_stack LECalculator_new)) = MAX_STACK_DEPTH" "fsio_stack_ok ?env" "fsio_fl ?env = id"
    by (simp_all add: LECalculator_new_def LECalculator_reset_def fl_new_def fl_reset_def fsio_environment_def example_input_def)
  with fsio_expression_value [OF e(1-3), of "userPool example_state" LECalculator_new ?env FNaN] m e(4) show ?thesis
    by (simp add: p LEElementPool_new_def)
qed

end
