(* ===== verification/Event_Queue.thy ===== *)
theory Event_Queue
  imports Prelude
begin

text \<open>
  The pending-event queue of the firmware: \<open>EventQueue\<close> of
  src/firmware/controllers/system/timer/event_queue.cpp over the records of scheduler.h.
  The queue is an intrusive singly linked list through \<open>nextScheduling_s\<close>; the store maps
  an address to its \<open>scheduling_s\<close> record, so aliasing and re-use of a record are visible.
  Time stamps (\<open>efitime_t\<close>, a signed 64-bit count) are integers; the code only compares them
  and adds the late delay.  A loop over pointers is option-valued: None is a loop that never
  ends (a cyclic list).
\<close>

type_synonym addr = nat

record action_s =
  callback :: "nat option"
  param :: nat

record scheduling_s =
  momentX :: int
  isScheduled :: bool
  nextScheduling_s :: "addr option"
  action :: action_s

datatype fw_error = CUSTOM_ERR_ASSERT | CUSTOM_ERR_6623 | CUSTOM_ERR_6624 | CUSTOM_ERR_6625
  | CUSTOM_ERR_TASK_TIMER_OVERFLOW | CUSTOM_ERR_TIMER_OVERFLOW | CUSTOM_ERR_LOCK_ISSUE
  | CUSTOM_OBD_LOCAL_FREEZE | CUSTOM_DELTA_NOT_POSITIVE | CUSTOM_HW_TIMER
  | CUSTOM_ERR_LOOPED_QUEUE | CUSTOM_RE_ADDING_INTO_EXECUTION_QUEUE | OBD_PCM_Processor_Fault
  | CUSTOM_ERR_6574 | CUSTOM_ERR_6575 | CUSTOM_ERR_6545 | CUSTOM_UNEXPECTED_TDC_ANGLE | CUSTOM_INVALID_GLOBAL_OFFSET
  | CUSTOM_OBD_ANGLE_CONSTRAINT_VIOLATION | CUSTOM_OUT_OF_ORDER_COIL | CUSTOM_OBD_COIL_PIN_NOT_ASSIGNED | CUSTOM_ERR_6566
  | CUSTOM_SPARK_ANGLE_9 | CUSTOM_ERR_6590 | CUSTOM_ERR_6550 | CUSTOM_OBD_SKIPPED_SPARK | CUSTOM_DWELL | CUSTOM_ERR_6688
  | CUSTOM_ERR_6549 | CUSTOM_ERR_6592 | CUSTOM_ZERO_DWELL | CUSTOM_DWELL_TOO_LONG
  | CUSTOM_OBD_UNKNOWN_FIRING_ORDER | CUSTOM_ERR_6687 | CUSTOM_OBD_WRONG_FIRING_ORDER | CUSTOM_ERR_6686
  | CUSTOM_OBD_IGNITION_MODE | CUSTOM_ERR_IGNITION_MODE | CUSTOM_ERR_INVALID_INJECTION_MODE

record event_queue =
  mem :: "addr \<Rightarrow> scheduling_s"
  head :: "addr option"
  lateDelay :: int
  firmwareErr :: "fw_error option"
  warningLog :: "fw_error list"

definition EMPTY_QUEUE :: int where
  "EMPTY_QUEUE = 0x0FFFFFFFFFFFFFFF"

definition null_action :: action_s where
  "null_action = \<lparr>callback = None, param = 0\<rparr>"

definition fresh_scheduling :: scheduling_s where
  "fresh_scheduling = \<lparr>momentX = 0, isScheduled = False, nextScheduling_s = None,
     action = null_action\<rparr>"

text \<open>The constructor: no head, a late delay of 100.\<close>

definition setLateDelay :: "int \<Rightarrow> 'w event_queue_scheme \<Rightarrow> 'w event_queue_scheme" where
  "setLateDelay v q = q\<lparr>lateDelay := v\<rparr>"

definition EventQueue_init :: "'w event_queue_scheme \<Rightarrow> 'w event_queue_scheme" where
  "EventQueue_init q = setLateDelay 100 (q\<lparr>head := None\<rparr>)"

definition clear :: "'w event_queue_scheme \<Rightarrow> 'w event_queue_scheme" where
  "clear q = q\<lparr>head := None\<rparr>"

text \<open>
  \<open>firmwareError\<close> keeps the first critical error and ignores later ones (the flag
  \<open>hasFirmwareErrorFlag\<close> is \<open>firmwareErr \<noteq> None\<close>); warnings are logged in order.
\<close>

definition firmwareError :: "fw_error \<Rightarrow> 'w event_queue_scheme \<Rightarrow> 'w event_queue_scheme" where
  "firmwareError e q = (if firmwareErr q \<noteq> None then q else q\<lparr>firmwareErr := Some e\<rparr>)"

definition hasFirmwareError :: "'w event_queue_scheme \<Rightarrow> bool" where
  "hasFirmwareError q = (firmwareErr q \<noteq> None)"

definition warning :: "fw_error \<Rightarrow> 'w event_queue_scheme \<Rightarrow> 'w event_queue_scheme" where
  "warning e q = (if firmwareErr q \<noteq> None then q else q\<lparr>warningLog := warningLog q @ [e]\<rparr>)"

subsection \<open>Operations\<close>

text \<open>The linear search of \<open>insertTask\<close> for the record the new one goes after.\<close>

partial_function (option) insertPosition ::
    "(addr \<Rightarrow> scheduling_s) \<Rightarrow> int \<Rightarrow> addr \<Rightarrow> addr option" where
  "insertPosition m timeX p =
     (case nextScheduling_s (m p) of
        None \<Rightarrow> Some p
      | Some n \<Rightarrow> if momentX (m n) < timeX then insertPosition m timeX n else Some p)"

definition insertTask ::
    "'w event_queue_scheme \<Rightarrow> addr \<Rightarrow> int \<Rightarrow> action_s \<Rightarrow> (bool \<times> 'w event_queue_scheme) option" where
  "insertTask q s timeX act =
    (if callback act = None then Some (False, firmwareError CUSTOM_ERR_ASSERT q)
     else if isScheduled (mem q s) then Some (False, q)
     else
       let m = (mem q)(s := (mem q s)\<lparr>momentX := timeX, action := act, isScheduled := True\<rparr>) in
       case head q of
         None \<Rightarrow>
           Some (True, q\<lparr>mem := m(s := (m s)\<lparr>nextScheduling_s := head q\<rparr>), head := Some s\<rparr>)
       | Some h \<Rightarrow>
           if timeX < momentX (m h) then
             Some (True, q\<lparr>mem := m(s := (m s)\<lparr>nextScheduling_s := head q\<rparr>), head := Some s\<rparr>)
           else
             (case insertPosition m timeX h of
                None \<Rightarrow> None
              | Some p \<Rightarrow>
                  let m1 = m(s := (m s)\<lparr>nextScheduling_s := nextScheduling_s (m p)\<rparr>) in
                  Some (False, q\<lparr>mem := m1(p := (m1 p)\<lparr>nextScheduling_s := Some s\<rparr>)\<rparr>)))"

definition getNextEventTime :: "'w event_queue_scheme \<Rightarrow> int \<Rightarrow> int" where
  "getNextEventTime q nowX =
     (case head q of
        Some h \<Rightarrow>
          if momentX (mem q h) \<le> nowX then nowX + lateDelay q else momentX (mem q h)
      | None \<Rightarrow> EMPTY_QUEUE)"

text \<open>
  \<open>executeAll\<close>: the callbacks are function pointers of the whole firmware, so running one is
  a parameter \<open>exec\<close> that may change the world, the store and the queue.
\<close>

definition unlinkHead :: "'w event_queue_scheme \<Rightarrow> addr \<Rightarrow> 'w event_queue_scheme" where
  "unlinkHead q c = q\<lparr>head := nextScheduling_s (mem q c),
     mem := (mem q)(c := (mem q c)\<lparr>nextScheduling_s := None, isScheduled := False\<rparr>)\<rparr>"

partial_function (option) executeAll_loop ::
    "(action_s \<Rightarrow> 'w event_queue_scheme \<Rightarrow> 'w event_queue_scheme) \<Rightarrow> int \<Rightarrow> nat
       \<Rightarrow> 'w event_queue_scheme \<Rightarrow> (nat \<times> 'w event_queue_scheme) option" where
  "executeAll_loop exec now n q =
     (case head q of
        None \<Rightarrow> Some (n, q)
      | Some c \<Rightarrow>
          if now < momentX (mem q c) then Some (n, q)
          else executeAll_loop exec now (Suc n) (exec (action (mem q c)) (unlinkHead q c)))"

definition executeAll ::
    "(action_s \<Rightarrow> 'w event_queue_scheme \<Rightarrow> 'w event_queue_scheme) \<Rightarrow> int
       \<Rightarrow> 'w event_queue_scheme \<Rightarrow> (nat \<times> 'w event_queue_scheme) option" where
  "executeAll exec now q = executeAll_loop exec now 0 q"

partial_function (option) size_loop ::
    "(addr \<Rightarrow> scheduling_s) \<Rightarrow> nat \<Rightarrow> addr option \<Rightarrow> nat option" where
  "size_loop m n p =
     (case p of None \<Rightarrow> Some n | Some a \<Rightarrow> size_loop m (Suc n) (nextScheduling_s (m a)))"

definition queue_size :: "'w event_queue_scheme \<Rightarrow> nat option" where
  "queue_size q = size_loop (mem q) 0 (head q)"

text \<open>\<open>assertListIsSorted\<close>: the first pair out of order is reported and the walk stops.\<close>

partial_function (option) assertSorted_loop ::
    "(addr \<Rightarrow> scheduling_s) \<Rightarrow> addr option \<Rightarrow> bool option" where
  "assertSorted_loop m p =
     (case p of
        None \<Rightarrow> Some True
      | Some a \<Rightarrow>
          (case nextScheduling_s (m a) of
             None \<Rightarrow> Some True
           | Some b \<Rightarrow>
               if momentX (m a) \<le> momentX (m b) then assertSorted_loop m (Some b) else Some False))"

definition assertListIsSorted :: "'w event_queue_scheme \<Rightarrow> 'w event_queue_scheme option" where
  "assertListIsSorted q =
     map_option (\<lambda>ok. if ok then q else firmwareError CUSTOM_ERR_6623 q)
       (assertSorted_loop (mem q) (head q))"

text \<open>\<open>checkIfPending\<close>: the walk gives up after \<open>QUEUE_LENGTH_LIMIT\<close> elements.\<close>

definition QUEUE_LENGTH_LIMIT :: nat where
  "QUEUE_LENGTH_LIMIT = 1000"

fun notInList_loop :: "(addr \<Rightarrow> scheduling_s) \<Rightarrow> addr \<Rightarrow> nat \<Rightarrow> addr option \<Rightarrow> fw_error option \<times> bool" where
  "notInList_loop m el fuel None = (None, False)"
| "notInList_loop m el 0 (Some a) = (Some CUSTOM_ERR_LOOPED_QUEUE, False)"
| "notInList_loop m el (Suc fuel) (Some a) =
     (if a = el then (Some CUSTOM_RE_ADDING_INTO_EXECUTION_QUEUE, True)
      else notInList_loop m el fuel (nextScheduling_s (m a)))"

definition checkIfPending :: "'w event_queue_scheme \<Rightarrow> addr \<Rightarrow> bool \<times> 'w event_queue_scheme" where
  "checkIfPending q s =
     (case notInList_loop (mem q) s QUEUE_LENGTH_LIMIT (head q) of
        (None, r) \<Rightarrow> (r, q)
      | (Some e, True) \<Rightarrow> (True, warning e q)
      | (Some e, False) \<Rightarrow> (False, firmwareError e q))"

partial_function (option) elementAt_loop ::
    "(addr \<Rightarrow> scheduling_s) \<Rightarrow> int \<Rightarrow> addr option \<Rightarrow> addr option option" where
  "elementAt_loop m i p =
     (case p of
        None \<Rightarrow> Some None
      | Some a \<Rightarrow> if i = 0 then Some (Some a) else elementAt_loop m (i - 1) (nextScheduling_s (m a)))"

definition getElementAtIndexForUnitText :: "'w event_queue_scheme \<Rightarrow> int \<Rightarrow> addr option option" where
  "getElementAtIndexForUnitText q i = elementAt_loop (mem q) i (head q)"


subsection \<open>The list a pointer denotes\<close>

fun chain :: "(addr \<Rightarrow> scheduling_s) \<Rightarrow> addr option \<Rightarrow> addr list \<Rightarrow> bool" where
  "chain m p [] \<longleftrightarrow> p = None"
| "chain m p (a # as) \<longleftrightarrow> p = Some a \<and> chain m (nextScheduling_s (m a)) as"

lemma chain_cong:
  "(\<And>a. a \<in> set as \<Longrightarrow> nextScheduling_s (m a) = nextScheduling_s (m' a)) \<Longrightarrow>
     chain m p as = chain m' p as"
  by (induction as arbitrary: p) simp_all

lemma chain_upd_other [simp]: "s \<notin> set as \<Longrightarrow> chain (m(s := v)) p as = chain m p as"
  by (rule chain_cong) auto

lemma chain_None [simp]: "chain m None as \<longleftrightarrow> as = []"
  by (cases as) simp_all

lemma chain_unique: "chain m p as \<Longrightarrow> chain m p bs \<Longrightarrow> as = bs"
proof (induction as arbitrary: p bs)
  case Nil
  then show ?case by (cases bs) simp_all
next
  case (Cons a as)
  then show ?case by (cases bs) auto
qed

lemma chain_append:
  "chain m p (as @ b # bs) \<Longrightarrow> chain m (Some b) (b # bs)"
  by (induction as arbitrary: p) auto

lemma chain_not_again: "chain m (nextScheduling_s (m a)) as \<Longrightarrow> a \<notin> set as"
proof
  assume c: "chain m (nextScheduling_s (m a)) as" and "a \<in> set as"
  then obtain xs ys where as: "as = xs @ a # ys" by (auto simp: in_set_conv_decomp)
  with c have "chain m (nextScheduling_s (m a)) ys"
    using chain_append by fastforce
  with c have "as = ys" by (rule chain_unique)
  with as show False by simp
qed

lemma chain_distinct: "chain m p as \<Longrightarrow> distinct as"
  by (induction as arbitrary: p) (auto simp: chain_not_again)

lemma chain_insert_after:
  assumes "chain m p (xs @ rest)" "xs \<noteq> []" "s \<notin> set (xs @ rest)"
    and f_s: "nextScheduling_s (f s) = nextScheduling_s (m (last xs))"
    and f_last: "nextScheduling_s (f (last xs)) = Some s"
    and f_other: "\<And>a. a \<noteq> s \<Longrightarrow> a \<noteq> last xs \<Longrightarrow> nextScheduling_s (f a) = nextScheduling_s (m a)"
  shows "chain f p (xs @ s # rest)"
  using assms chain_distinct [OF assms(1)]
proof (induction xs arbitrary: p)
  case (Cons a xs)
  show ?case
  proof (cases "xs = []")
    case True
    have "b \<noteq> s \<and> b \<noteq> last (a # xs)" if "b \<in> set rest" for b
      using that Cons.prems True by auto
    then have "chain f (nextScheduling_s (m a)) rest = chain m (nextScheduling_s (m a)) rest"
      using Cons.prems(6) by (intro chain_cong) blast
    with True Cons.prems show ?thesis by simp
  next
    case False
    then have "last xs \<in> set xs" by simp
    with Cons.prems have "last xs \<noteq> a" "s \<noteq> a" by auto
    with False Cons.prems Cons.IH [of "nextScheduling_s (m a)"] show ?thesis by simp
  qed
qed simp

subsection \<open>Loops over a well-formed list return\<close>

lemma insertPosition_chain:
  "chain m (nextScheduling_s (m p)) as \<Longrightarrow>
     insertPosition m t p = Some (last (p # takeWhile (\<lambda>a. momentX (m a) < t) as))"
proof (induction as arbitrary: p)
  case Nil
  then show ?case by (simp add: insertPosition.simps)
next
  case (Cons a as)
  then show ?case by (simp add: insertPosition.simps [of m t p])
qed

lemma size_loop_chain: "chain m p as \<Longrightarrow> size_loop m n p = Some (n + length as)"
proof (induction as arbitrary: p n)
  case Nil
  then show ?case by (simp add: size_loop.simps)
next
  case (Cons a as)
  then show ?case by (simp add: size_loop.simps [of m n "Some a"])
qed

lemma assertSorted_loop_chain:
  "chain m p as \<Longrightarrow> assertSorted_loop m p = Some (sorted (map (\<lambda>a. momentX (m a)) as))"
proof (induction as arbitrary: p)
  case Nil
  then show ?case by (simp add: assertSorted_loop.simps)
next
  case (Cons a as)
  show ?case
  proof (cases as)
    case Nil
    with Cons.prems show ?thesis by (simp add: assertSorted_loop.simps [of m "Some a"])
  next
    case (Cons b bs)
    with Cons.prems Cons.IH [of "Some b"] show ?thesis
      by (auto simp: assertSorted_loop.simps [of m "Some a"])
  qed
qed

lemma elementAt_loop_chain:
  "chain m p as \<Longrightarrow> 0 \<le> i \<Longrightarrow>
     elementAt_loop m i p = Some (if i < int (length as) then Some (as ! nat i) else None)"
proof (induction as arbitrary: p i)
  case Nil
  then show ?case by (simp add: elementAt_loop.simps)
next
  case (Cons a as)
  show ?case
  proof (cases "i = 0")
    case True
    with Cons.prems show ?thesis by (simp add: elementAt_loop.simps [of m 0 "Some a"])
  next
    case False
    then have "nat i = Suc (nat (i - 1))" using Cons.prems by simp
    with False Cons.prems Cons.IH [of "nextScheduling_s (m a)" "i - 1"] show ?thesis
      by (simp add: elementAt_loop.simps [of m i "Some a"])
  qed
qed

lemma notInList_loop_chain:
  "chain m p as \<Longrightarrow> length as \<le> n \<Longrightarrow>
     notInList_loop m s n p =
       (if s \<in> set as then (Some CUSTOM_RE_ADDING_INTO_EXECUTION_QUEUE, True) else (None, False))"
proof (induction as arbitrary: p n)
  case (Cons a as)
  then show ?case by (cases n) auto
qed simp

subsection \<open>The agenda the queue represents\<close>

datatype entry = Entry (etime: int) (eact: action_s) (eaddr: addr)

text \<open>Among later entries the new one goes before the first that is not strictly earlier.\<close>

fun ins_before :: "entry \<Rightarrow> entry list \<Rightarrow> entry list" where
  "ins_before x [] = [x]"
| "ins_before x (y # ys) = (if etime y < etime x then y # ins_before x ys else x # y # ys)"

fun agenda_insert :: "entry \<Rightarrow> entry list \<Rightarrow> entry list" where
  "agenda_insert x [] = [x]"
| "agenda_insert x (y # ys) = (if etime x < etime y then x # y # ys else y # ins_before x ys)"

lemma ins_before_split:
  "ins_before x ys = takeWhile (\<lambda>y. etime y < etime x) ys @ x # dropWhile (\<lambda>y. etime y < etime x) ys"
  by (induction ys) simp_all

lemma set_ins_before [simp]: "set (ins_before x ys) = insert x (set ys)"
  by (induction ys) auto

lemma set_agenda_insert [simp]: "set (agenda_insert x ys) = insert x (set ys)"
  by (cases ys) auto

lemma length_agenda_insert [simp]: "length (agenda_insert x ys) = Suc (length ys)"
proof -
  have "length (ins_before x zs) = Suc (length zs)" for zs by (induction zs) simp_all
  then show ?thesis by (cases ys) simp_all
qed

lemma agenda_insert_Nil_iff [simp]: "agenda_insert x ys \<noteq> []"
  by (cases ys) simp_all

lemma sorted_ins_before: "sorted (map etime ys) \<Longrightarrow> sorted (map etime (ins_before x ys))"
  by (induction ys) (auto intro: less_imp_le order_trans)

lemma sorted_agenda_insert: "sorted (map etime ys) \<Longrightarrow> sorted (map etime (agenda_insert x ys))"
  by (cases ys) (auto simp: sorted_ins_before intro: less_imp_le order_trans)

definition queue_rep :: "'w event_queue_scheme \<Rightarrow> entry list \<Rightarrow> bool" where
  "queue_rep q xs \<longleftrightarrow>
     chain (mem q) (head q) (map eaddr xs) \<and>
     (\<forall>x\<in>set xs. momentX (mem q (eaddr x)) = etime x \<and> action (mem q (eaddr x)) = eact x
        \<and> callback (eact x) \<noteq> None) \<and>
     (\<forall>a. isScheduled (mem q a) \<longleftrightarrow> a \<in> eaddr ` set xs) \<and>
     sorted (map etime xs)"


lemma queue_rep_emptyI:
  "head q = None \<Longrightarrow> (\<And>a. \<not> isScheduled (mem q a)) \<Longrightarrow> queue_rep q []"
  by (simp add: queue_rep_def)

lemma queue_rep_sorted: "queue_rep q xs \<Longrightarrow> sorted (map etime xs)"
  by (simp add: queue_rep_def)

lemma queue_rep_distinct: "queue_rep q xs \<Longrightarrow> distinct (map eaddr xs)"
  by (auto simp: queue_rep_def dest: chain_distinct)

lemma queue_rep_scheduled: "queue_rep q xs \<Longrightarrow> isScheduled (mem q a) \<longleftrightarrow> a \<in> eaddr ` set xs"
  by (simp add: queue_rep_def)

lemma queue_rep_head:
  "queue_rep q xs \<Longrightarrow> head q = (case xs of [] \<Rightarrow> None | x # _ \<Rightarrow> Some (eaddr x))"
  by (cases xs) (auto simp: queue_rep_def)

lemma queue_rep_entry:
  "queue_rep q xs \<Longrightarrow> x \<in> set xs \<Longrightarrow>
     momentX (mem q (eaddr x)) = etime x \<and> action (mem q (eaddr x)) = eact x"
  by (simp add: queue_rep_def)

lemma queue_rep_first:
  assumes "queue_rep q (x # xs)"
  shows "head q = Some (eaddr x)" "momentX (mem q (eaddr x)) = etime x"
    "action (mem q (eaddr x)) = eact x"
  using assms by (simp_all add: queue_rep_def)

text \<open>Rebuilding the representation after a store update.\<close>

lemma queue_repI:
  assumes "chain (mem q) (head q) (map eaddr xs)"
    "\<And>x. x \<in> set xs \<Longrightarrow> momentX (mem q (eaddr x)) = etime x \<and> action (mem q (eaddr x)) = eact x
        \<and> callback (eact x) \<noteq> None"
    "\<And>a. isScheduled (mem q a) \<longleftrightarrow> a \<in> eaddr ` set xs"
    "sorted (map etime xs)"
  shows "queue_rep q xs"
  using assms by (simp add: queue_rep_def)

lemma insertTask_null: "callback act = None \<Longrightarrow> insertTask q s t act = Some (False, firmwareError CUSTOM_ERR_ASSERT q)"
  by (simp add: insertTask_def)

lemma insertTask_pending:
  "callback act \<noteq> None \<Longrightarrow> isScheduled (mem q s) \<Longrightarrow> insertTask q s t act = Some (False, q)"
  by (auto simp: insertTask_def)

lemma insertTask_front:
  assumes rep: "queue_rep q xs" and cb: "callback act \<noteq> None" and new: "\<not> isScheduled (mem q s)"
    and front: "xs = [] \<or> t < etime (hd xs)"
  shows "\<exists>q'. insertTask q s t act = Some (True, q') \<and> queue_rep q' (Entry t act s # xs)"
proof -
  define v where "v = (mem q s)\<lparr>momentX := t, action := act, isScheduled := True,
    nextScheduling_s := head q\<rparr>"
  define q' where "q' = q\<lparr>mem := (mem q)(s := v), head := Some s\<rparr>"
  have notin: "s \<notin> eaddr ` set xs" using rep new by (simp add: queue_rep_def)
  have "insertTask q s t act = Some (True, q')"
  proof (cases xs)
    case Nil
    with rep have "head q = None" by (simp add: queue_rep_head)
    with cb new show ?thesis by (simp add: insertTask_def Let_def q'_def v_def)
  next
    case (Cons x ys)
    with rep have h: "head q = Some (eaddr x)" by (simp add: queue_rep_head)
    have "eaddr x \<noteq> s" using notin Cons by auto
    moreover have "momentX (mem q (eaddr x)) = etime x" using queue_rep_entry [OF rep] Cons by simp
    ultimately show ?thesis using cb new front Cons h
      by (simp add: insertTask_def Let_def q'_def v_def)
  qed
  moreover have "queue_rep q' (Entry t act s # xs)"
  proof (rule queue_repI)
    show "chain (mem q') (head q') (map eaddr (Entry t act s # xs))"
      using rep notin by (simp add: q'_def v_def queue_rep_def)
    show "sorted (map etime (Entry t act s # xs))"
      using front queue_rep_sorted [OF rep] by (cases xs) auto
  qed (use rep notin cb in \<open>auto simp: q'_def v_def queue_rep_def\<close>)
  ultimately show ?thesis by blast
qed

lemma insertTask_behind:
  assumes rep: "queue_rep q (x # xs)" and cb: "callback act \<noteq> None" and new: "\<not> isScheduled (mem q s)"
    and behind: "etime x \<le> t"
  shows "\<exists>q'. insertTask q s t act = Some (False, q') \<and>
    queue_rep q' (x # ins_before (Entry t act s) xs)"
proof -
  let ?E = "Entry t act s"
  let ?pre = "takeWhile (\<lambda>y. etime y < t) xs" and ?post = "dropWhile (\<lambda>y. etime y < t) xs"
  define m where "m = (mem q)(s := (mem q s)\<lparr>momentX := t, action := act, isScheduled := True\<rparr>)"
  have notin: "s \<notin> eaddr ` set (x # xs)" using rep new by (simp add: queue_rep_def)
  have h: "head q = Some (eaddr x)" using rep by (simp add: queue_rep_head)
  have other: "a \<noteq> s \<Longrightarrow> m a = mem q a" for a by (simp add: m_def)
  have ch: "chain m (Some (eaddr x)) (map eaddr (x # xs))"
    using rep notin by (simp add: m_def queue_rep_def)
  have mom: "momentX (m (eaddr y)) = etime y" if "y \<in> set (x # xs)" for y
    using that queue_rep_entry [OF rep that] notin other [of "eaddr y"] by (metis imageI)
  have tw: "takeWhile (\<lambda>a. momentX (m a) < t) (map eaddr xs) = map eaddr ?pre"
    by (simp add: takeWhile_map o_def mom cong: takeWhile_cong)
  define p where "p = last (map eaddr (x # ?pre))"
  have ip: "insertPosition m t (eaddr x) = Some p"
    using insertPosition_chain [of m "eaddr x" "map eaddr xs" t] ch tw by (simp add: p_def)
  have p_in: "p \<in> eaddr ` set (x # xs)"
    unfolding p_def using last_in_set [of "map eaddr (x # ?pre)"] set_takeWhileD by fastforce
  with notin have p_s: "p \<noteq> s" by metis
  define f where "f = m(s := (m s)\<lparr>nextScheduling_s := nextScheduling_s (m p)\<rparr>,
    p := (m p)\<lparr>nextScheduling_s := Some s\<rparr>)"
  define q' where "q' = q\<lparr>mem := f\<rparr>"
  have momx: "\<not> t < momentX (m (eaddr x))" using mom behind by simp
  have "insertTask q s t act = Some (False, q')"
    unfolding insertTask_def m_def [symmetric] Let_def
    using cb new h momx ip p_s by (auto simp: q'_def f_def)
  moreover have "queue_rep q' (x # ins_before ?E xs)"
  proof (rule queue_repI)
    have "chain f (Some (eaddr x)) (map eaddr (x # ?pre) @ s # map eaddr ?post)"
    proof (rule chain_insert_after)
      show "chain m (Some (eaddr x)) (map eaddr (x # ?pre) @ map eaddr ?post)"
        using ch by (simp flip: map_append)
      show "s \<notin> set (map eaddr (x # ?pre) @ map eaddr ?post)"
        using notin by (auto dest: set_takeWhileD set_dropWhileD)
      show "nextScheduling_s (f s) = nextScheduling_s (m (last (map eaddr (x # ?pre))))"
        unfolding p_def [symmetric] using p_s by (simp add: f_def)
      show "nextScheduling_s (f (last (map eaddr (x # ?pre)))) = Some s"
        unfolding p_def [symmetric] by (simp add: f_def)
      show "nextScheduling_s (f a) = nextScheduling_s (m a)"
        if "a \<noteq> s" "a \<noteq> last (map eaddr (x # ?pre))" for a
        using that unfolding p_def [symmetric] by (simp add: f_def)
    qed simp
    then show "chain (mem q') (head q') (map eaddr (x # ins_before ?E xs))"
      by (simp add: q'_def h ins_before_split)
    show "sorted (map etime (x # ins_before ?E xs))"
      using behind queue_rep_sorted [OF rep] by (auto simp: sorted_ins_before)
    have f_eq: "momentX (f a) = momentX (m a) \<and> action (f a) = action (m a)
        \<and> isScheduled (f a) = isScheduled (m a)" for a
      by (simp add: f_def)
    show "isScheduled (mem q' a) \<longleftrightarrow> a \<in> eaddr ` set (x # ins_before ?E xs)" for a
      using queue_rep_scheduled [OF rep] f_eq by (auto simp: q'_def m_def)
    show "momentX (mem q' (eaddr y)) = etime y \<and> action (mem q' (eaddr y)) = eact y
        \<and> callback (eact y) \<noteq> None" if "y \<in> set (x # ins_before ?E xs)" for y
    proof (cases "y = ?E")
      case True
      with cb f_eq show ?thesis by (simp add: q'_def m_def)
    next
      case False
      with that have y: "y \<in> set (x # xs)" by auto
      with notin have "eaddr y \<noteq> s" by auto
      with y rep f_eq show ?thesis by (auto simp: q'_def m_def queue_rep_def)
    qed
  qed
  ultimately show ?thesis by blast
qed

lemma insertTask_agenda:
  assumes "queue_rep q xs" and "callback act \<noteq> None" and "\<not> isScheduled (mem q s)"
  shows "\<exists>q'. insertTask q s t act = Some (xs = [] \<or> t < etime (hd xs), q') \<and>
    queue_rep q' (agenda_insert (Entry t act s) xs)"
proof (cases "xs = [] \<or> t < etime (hd xs)")
  case True
  then have "agenda_insert (Entry t act s) xs = Entry t act s # xs" by (cases xs) auto
  with True insertTask_front [OF assms True] show ?thesis by simp
next
  case False
  then obtain x ys where xs: "xs = x # ys" and "etime x \<le> t" by (cases xs) auto
  with assms insertTask_behind [of q x ys act s t] show ?thesis by simp
qed


lemma insertTask_frame:
  "insertTask q s t act = Some (b, q') \<Longrightarrow>
     lateDelay q' = lateDelay q \<and> event_queue.more q' = event_queue.more q \<and>
     (callback act \<noteq> None \<longrightarrow> firmwareErr q' = firmwareErr q)"
  by (auto simp: insertTask_def Let_def firmwareError_def split: if_splits option.splits)

subsection \<open>Executing what is due\<close>

abbreviation due :: "int \<Rightarrow> entry \<Rightarrow> bool" where
  "due now x \<equiv> etime x \<le> now"

lemma queue_rep_unlinkHead:
  assumes "queue_rep q (x # xs)"
  shows "queue_rep (unlinkHead q (eaddr x)) xs"
proof (rule queue_repI)
  have d: "eaddr x \<notin> eaddr ` set xs" using queue_rep_distinct [OF assms] by auto
  show "chain (mem (unlinkHead q (eaddr x))) (head (unlinkHead q (eaddr x))) (map eaddr xs)"
    using assms d by (simp add: unlinkHead_def queue_rep_def)
qed (use assms queue_rep_distinct [OF assms] in \<open>auto simp: unlinkHead_def queue_rep_def\<close>)

lemma unlinkHead_frame [frame_simps]:
  "event_queue.more (unlinkHead q c) = event_queue.more q" "lateDelay (unlinkHead q c) = lateDelay q"
  by (simp_all add: unlinkHead_def)

text \<open>
  A callback is arbitrary firmware code.  It is orderly for a time \<open>now\<close> when it keeps the
  queue a represented one and leaves the entries that are already due alone: what it adds or
  removes lies strictly after \<open>now\<close>.
\<close>

definition orderly :: "(action_s \<Rightarrow> 'w event_queue_scheme \<Rightarrow> 'w event_queue_scheme) \<Rightarrow> int \<Rightarrow> bool" where
  "orderly exec now \<longleftrightarrow>
     (\<forall>act q xs. queue_rep q xs \<longrightarrow>
        (\<exists>ys. queue_rep (exec act q) ys \<and> filter (due now) ys = filter (due now) xs))"

lemma orderlyD:
  "orderly exec now \<Longrightarrow> queue_rep q xs \<Longrightarrow>
     \<exists>ys. queue_rep (exec act q) ys \<and> filter (due now) ys = filter (due now) xs"
  by (simp add: orderly_def)

lemma filter_due_Cons:
  assumes "sorted (map etime xs)" and "filter (due now) xs = d # ds"
  shows "\<exists>ys. xs = d # ys \<and> filter (due now) ys = ds \<and> etime d \<le> now"
proof (cases xs)
  case (Cons x ys)
  have "etime x \<le> now"
  proof (rule ccontr)
    assume "\<not> etime x \<le> now"
    with assms(1) Cons have "filter (due now) xs = []" by (auto simp: filter_empty_conv)
    with assms(2) show False by simp
  qed
  with assms(2) Cons show ?thesis by simp
qed (use assms in simp)

lemma filter_due_mono:
  "now \<le> h \<Longrightarrow> filter (due h) xs = filter (due h) ys \<Longrightarrow> filter (due now) xs = filter (due now) ys"
proof -
  assume "now \<le> h" and eq: "filter (due h) xs = filter (due h) ys"
  then have "filter (due now) zs = filter (due now) (filter (due h) zs)" for zs
    by (auto intro: filter_cong)
  with eq show ?thesis by metis
qed

lemma orderly_mono:
  assumes "orderly exec h" "now \<le> h"
  shows "orderly exec now"
  unfolding orderly_def
proof (intro allI impI)
  fix act and q :: "'a event_queue_scheme" and xs
  assume "queue_rep q xs"
  with orderlyD [OF assms(1)] obtain ys
    where ys: "queue_rep (exec act q) ys" "filter (due h) ys = filter (due h) xs" by blast
  with assms(2) show "\<exists>ys. queue_rep (exec act q) ys \<and> filter (due now) ys = filter (due now) xs"
    by (metis filter_due_mono)
qed

text \<open>
  What it means that the tasks \<open>ds\<close> were served from a queue, one after the other: each was the head of the queue, and its
  callback was started in the state \<open>p\<close> where it had just been taken off: the others are still queued, its own record is free to be scheduled
  again, and nothing else has changed.
\<close>

inductive executed ::
    "(action_s \<Rightarrow> 'w event_queue_scheme \<Rightarrow> 'w event_queue_scheme) \<Rightarrow> entry list
       \<Rightarrow> 'w event_queue_scheme \<Rightarrow> 'w event_queue_scheme \<Rightarrow> bool" for exec where
  none: "executed exec [] q q"
| serve: "queue_rep q (d # ys) \<Longrightarrow> queue_rep p ys \<Longrightarrow> \<not> isScheduled (mem p (eaddr d)) \<Longrightarrow>
    nextScheduling_s (mem p (eaddr d)) = None \<Longrightarrow> p = q\<lparr>mem := mem p, head := head p\<rparr> \<Longrightarrow>
    executed exec ds (exec (eact d) p) q' \<Longrightarrow> executed exec (d # ds) q q'"

inductive_cases executed_one: "executed exec [d] q q'"
inductive_cases executed_none: "executed exec [] q q'"

lemma executed_unlink:
  assumes "queue_rep q (d # ys)" "executed exec ds (exec (eact d) (unlinkHead q (eaddr d))) q'"
  shows "executed exec (d # ds) q q'"
  using assms by (intro executed.serve [OF assms(1) queue_rep_unlinkHead [OF assms(1)]]) (simp_all add: unlinkHead_def)

text \<open>
  The loop under an orderly callback, with an invariant \<open>I\<close> indexed by what has run so far.
\<close>

lemma executeAll_loop_orderly:
  assumes ord: "orderly exec h" and h: "now \<le> h"
    and unl: "\<And>hist q c. I hist q \<Longrightarrow> I hist (unlinkHead q c)"
    and run: "\<And>hist q act. I hist q \<Longrightarrow> I (hist @ [act]) (exec act q)"
  shows "queue_rep q xs \<Longrightarrow> filter (due now) xs = ds \<Longrightarrow> I hist q \<Longrightarrow>
    \<exists>q' ys. executeAll_loop exec now n q = Some (n + length ds, q') \<and> queue_rep q' ys \<and>
      (\<forall>y\<in>set ys. now < etime y) \<and> I (hist @ map eact ds) q' \<and>
      filter (due h) ys = drop (length ds) (filter (due h) xs) \<and> executed exec ds q q'"
proof (induction ds arbitrary: q xs n hist)
  case Nil
  have late: "\<forall>y\<in>set xs. now < etime y" using Nil.prems(2) by (auto simp: filter_empty_conv not_le)
  have "executeAll_loop exec now n q = Some (n, q)"
  proof (cases xs)
    case Nil
    with \<open>queue_rep q xs\<close> show ?thesis
      by (simp add: executeAll_loop.simps [of exec now n q] queue_rep_head)
  next
    case (Cons x ys)
    with \<open>queue_rep q xs\<close> have "head q = Some (eaddr x)" "momentX (mem q (eaddr x)) = etime x"
      using queue_rep_first by blast+
    with late Cons show ?thesis by (simp add: executeAll_loop.simps [of exec now n q])
  qed
  with Nil.prems late show ?case by (auto intro: executed.none)
next
  case (Cons d ds)
  obtain ys where xs: "xs = d # ys" and ds: "filter (due now) ys = ds" and d: "etime d \<le> now"
    using filter_due_Cons [OF queue_rep_sorted [OF Cons.prems(1)] Cons.prems(2)] by blast
  let ?c = "eaddr d" and ?q1 = "unlinkHead q (eaddr d)"
  let ?q2 = "exec (eact d) ?q1"
  have rep: "queue_rep q (d # ys)" using Cons.prems(1) xs by simp
  have hd: "head q = Some ?c" and e: "momentX (mem q ?c) = etime d" "action (mem q ?c) = eact d"
    by (rule queue_rep_first [OF rep])+
  obtain zs where zs: "queue_rep ?q2 zs" and zh: "filter (due h) zs = filter (due h) ys"
    using orderlyD [OF ord queue_rep_unlinkHead [OF rep]] by metis
  have zn: "filter (due now) zs = ds" using filter_due_mono [OF h zh] ds by simp
  have dh: "filter (due h) xs = d # filter (due h) zs" using xs zh d h by simp
  have "executeAll_loop exec now n q = executeAll_loop exec now (Suc n) ?q2"
    using hd e d by (simp add: executeAll_loop.simps [of exec now n q])
  moreover have "I (hist @ [eact d]) ?q2"
    using Cons.prems(3) by (intro run unl)
  ultimately show ?case
    using Cons.IH [OF zs zn, of "hist @ [eact d]" "Suc n"] dh executed_unlink [OF rep, of exec ds] by fastforce
qed

subsection \<open>The interface other components rely on\<close>

text \<open>
  A timer queue: an agenda sorted by time, insertion that says whether the earliest deadline
  is the new one, and the time of the next wake-up.
\<close>

locale timer_queue =
  fixes rep :: "'q \<Rightarrow> entry list \<Rightarrow> bool"
    and ins :: "'q \<Rightarrow> addr \<Rightarrow> int \<Rightarrow> action_s \<Rightarrow> (bool \<times> 'q) option"
    and nxt :: "'q \<Rightarrow> int \<Rightarrow> int"
    and late :: "'q \<Rightarrow> int"
  assumes rep_sorted: "rep q xs \<Longrightarrow> sorted (map etime xs)"
    and ins_new: "rep q xs \<Longrightarrow> callback act \<noteq> None \<Longrightarrow> s \<notin> eaddr ` set xs \<Longrightarrow>
      \<exists>q'. ins q s t act = Some (xs = [] \<or> t < etime (hd xs), q') \<and>
           rep q' (agenda_insert (Entry t act s) xs)"
    and ins_old: "rep q xs \<Longrightarrow> callback act \<noteq> None \<Longrightarrow> s \<in> eaddr ` set xs \<Longrightarrow>
      ins q s t act = Some (False, q)"
    and ins_late: "ins q s t act = Some (b, q') \<Longrightarrow> late q' = late q"
    and nxt_spec: "rep q xs \<Longrightarrow> nxt q now =
      (case xs of [] \<Rightarrow> EMPTY_QUEUE
       | x # _ \<Rightarrow> if etime x \<le> now then now + late q else etime x)"
begin

lemma ins_total: "rep q xs \<Longrightarrow> callback act \<noteq> None \<Longrightarrow> \<exists>b q' ys. ins q s t act = Some (b, q') \<and> rep q' ys"
  using ins_new [of q xs act s t] ins_old [of q xs act s t] by blast

text \<open>When insertion does not report a new head, the wake-up time has not moved.\<close>

lemma nxt_unmoved:
  assumes "rep q xs" "callback act \<noteq> None" "ins q s t act = Some (False, q')"
  shows "nxt q' now = nxt q now"
proof (cases "s \<in> eaddr ` set xs")
  case True
  with assms ins_old [of q xs act s t] show ?thesis by simp
next
  case False
  with assms ins_new [of q xs act s t] obtain x ys where xs: "xs = x # ys" "\<not> t < etime x"
    and rep': "rep q' (agenda_insert (Entry t act s) xs)"
    by (cases xs) auto
  then have "rep q' (x # ins_before (Entry t act s) ys)" by simp
  from nxt_spec [OF this] nxt_spec [OF assms(1)] ins_late [OF assms(3)] xs show ?thesis by simp
qed

text \<open>When it does, the new time stamp is the wake-up time (if it is not in the past).\<close>

lemma nxt_moved:
  assumes "rep q xs" "callback act \<noteq> None" "ins q s t act = Some (True, q')" "now < t"
  shows "nxt q' now = t"
proof -
  have "s \<notin> eaddr ` set xs" using assms ins_old [of q xs act s t] by auto
  with assms ins_new [of q xs act s t] have
    "xs = [] \<or> t < etime (hd xs)" "rep q' (agenda_insert (Entry t act s) xs)" by auto
  moreover from this have "agenda_insert (Entry t act s) xs = Entry t act s # xs"
    by (cases xs) auto
  ultimately have "rep q' (Entry t act s # xs)" by simp
  from nxt_spec [OF this] assms(4) show ?thesis by simp
qed

lemma nxt_future: "rep q xs \<Longrightarrow> 0 < late q \<Longrightarrow> now < EMPTY_QUEUE \<Longrightarrow> now < nxt q now"
  by (cases xs) (auto simp: nxt_spec)

text \<open>The wake-up is never after the earliest pending deadline that lies in the future.\<close>

lemma nxt_not_late:
  assumes "rep q xs" "x \<in> set xs" "\<forall>y\<in>set xs. now < etime y"
  shows "nxt q now \<le> etime x"
proof (cases xs)
  case (Cons y ys)
  with rep_sorted [OF assms(1)] assms(2) have "etime y \<le> etime x" by auto
  with Cons assms nxt_spec [OF assms(1)] show ?thesis by auto
qed (use assms in simp)

end

lemma getNextEventTime_rep:
  "queue_rep q xs \<Longrightarrow> getNextEventTime q now =
     (case xs of [] \<Rightarrow> EMPTY_QUEUE
      | x # _ \<Rightarrow> if etime x \<le> now then now + lateDelay q else etime x)"
  by (cases xs) (simp_all add: getNextEventTime_def queue_rep_head queue_rep_entry)

lemma getNextEventTime_cong:
  "mem q = mem q' \<Longrightarrow> head q = head q' \<Longrightarrow> lateDelay q = lateDelay q' \<Longrightarrow>
     getNextEventTime q now = getNextEventTime q' now"
  by (cases "head q'") (simp_all add: getNextEventTime_def)

interpretation eq: timer_queue queue_rep insertTask getNextEventTime lateDelay
proof
  show "insertTask q s t act = Some (False, q)"
    if "queue_rep q xs" "callback act \<noteq> None" "s \<in> eaddr ` set xs" for q :: "'a event_queue_scheme" and xs act s t
    using that by (intro insertTask_pending) (simp_all add: queue_rep_scheduled)
  show "\<exists>q'. insertTask q s t act = Some (xs = [] \<or> t < etime (hd xs), q') \<and>
      queue_rep q' (agenda_insert (Entry t act s) xs)"
    if "queue_rep q xs" "callback act \<noteq> None" "s \<notin> eaddr ` set xs" for q :: "'a event_queue_scheme" and xs act s t
    using that by (intro insertTask_agenda) (simp_all add: queue_rep_scheduled)
qed (simp_all add: queue_rep_sorted insertTask_frame getNextEventTime_rep)

subsection \<open>Properties\<close>

text \<open>
  C13: inserting a task that is not pending refines insertion into a time-sorted agenda: the
  search ends, the record is linked behind every strictly earlier one, the result says
  whether it became the head, and the linked list again represents the agenda.
\<close>

theorem insertTask_refines:
  assumes "queue_rep q xs" and "callback act \<noteq> None" and "\<not> isScheduled (mem q s)"
  shows "\<exists>q'. insertTask q s t act = Some (xs = [] \<or> t < etime (hd xs), q') \<and>
    queue_rep q' (agenda_insert (Entry t act s) xs)"
  using assms by (rule insertTask_agenda)

definition demo_queue :: "action_s list event_queue_scheme" where
  "demo_queue = \<lparr>mem = (\<lambda>_. fresh_scheduling), head = None, lateDelay = 100, firmwareErr = None,
     warningLog = [], \<dots> = []\<rparr>"

definition demo_action :: action_s where
  "demo_action = \<lparr>callback = Some 7, param = 0\<rparr>"

lemma demo_queue_rep: "queue_rep demo_queue []"
  by (simp add: queue_rep_def demo_queue_def fresh_scheduling_def)

theorem insertTask_refines_witness:
  "queue_rep demo_queue [] \<and>
   (\<exists>q'. insertTask demo_queue 3 500 demo_action = Some (True, q') \<and>
      queue_rep q' [Entry 500 demo_action 3])"
  using insertTask_refines [of demo_queue "[]" demo_action 3 500] demo_queue_rep
  by (simp add: demo_queue_def demo_action_def fresh_scheduling_def)

text \<open>
  C14: with orderly callbacks \<open>executeAll\<close> returns, and it serves exactly the tasks that were due, in agenda order: each is taken
  off the queue and marked as not scheduled before its callback runs (so that the callback can schedule the same record again), and nothing else
  happens in between. The result is how many there were, and only tasks of the future are left.
\<close>

theorem executeAll_runs_due:
  assumes "orderly exec now" and "queue_rep q xs"
  shows "\<exists>q' ys. executeAll exec now q = Some (length (filter (due now) xs), q') \<and>
    executed exec (filter (due now) xs) q q' \<and> queue_rep q' ys \<and> (\<forall>y\<in>set ys. now < etime y)"
  using executeAll_loop_orderly [OF assms(1) order_refl, of "\<lambda>_ _. True" q xs _ "[]" 0] assms(2)
  by (auto simp: executeAll_def)

text \<open>A callback that schedules its record 3 again, for the time 900.\<close>

definition periodic_exec :: "action_s \<Rightarrow> 'w event_queue_scheme \<Rightarrow> 'w event_queue_scheme" where
  "periodic_exec act q = (case insertTask q 3 900 act of None \<Rightarrow> q | Some (_, q') \<Rightarrow> q')"

lemma filter_due_insert: "now < etime x \<Longrightarrow> filter (due now) (agenda_insert x xs) = filter (due now) xs"
proof -
  assume "now < etime x"
  then have "filter (due now) (ins_before x ys) = filter (due now) ys" for ys by (induction ys) auto
  with \<open>now < etime x\<close> show ?thesis by (cases xs) auto
qed

lemma periodic_exec_orderly:
  assumes "now < 900"
  shows "orderly periodic_exec now"
  unfolding orderly_def
proof (intro allI impI)
  fix act and q :: "'a event_queue_scheme" and xs
  assume rep: "queue_rep q xs"
  show "\<exists>ys. queue_rep (periodic_exec act q) ys \<and> filter (due now) ys = filter (due now) xs"
  proof (cases "callback act = None \<or> isScheduled (mem q 3)")
    case True
    then show ?thesis using rep
      by (intro exI [of _ xs]) (auto simp: periodic_exec_def insertTask_def queue_rep_def firmwareError_def)
  next
    case False
    then obtain b q' where "insertTask q 3 900 act = Some (b, q')" "queue_rep q' (agenda_insert (Entry 900 act 3) xs)"
      using insertTask_agenda [OF rep, of act 3 900] by auto
    with assms show ?thesis
      by (intro exI [of _ "agenda_insert (Entry 900 act 3) xs"]) (simp add: periodic_exec_def filter_due_insert)
  qed
qed

theorem executeAll_runs_due_witness:
  "\<exists>q q'. insertTask demo_queue 3 500 demo_action = Some (True, q) \<and>
     executeAll periodic_exec 600 q = Some (1, q') \<and> queue_rep q' [Entry 900 demo_action 3]"
proof -
  obtain q where q: "insertTask demo_queue 3 500 demo_action = Some (True, q)"
      "queue_rep q [Entry 500 demo_action 3]"
    using insertTask_agenda [of demo_queue "[]" demo_action 3 500] demo_queue_rep
    by (auto simp: demo_queue_def demo_action_def fresh_scheduling_def)
  obtain q' where q': "executeAll periodic_exec 600 q = Some (1, q')" "executed periodic_exec [Entry 500 demo_action 3] q q'"
    using executeAll_runs_due [OF periodic_exec_orderly q(2), of 600] by auto
  from q'(2) obtain ys p where p: "queue_rep q (Entry 500 demo_action 3 # ys)" "queue_rep p ys" "\<not> isScheduled (mem p 3)"
    "q' = periodic_exec demo_action p"
    by (elim executed_one executed_none) auto
  have "ys = []" using p(1) q(2) by (simp add: queue_rep_def chain.simps split: option.splits)
  with p insertTask_agenda [of p "[]" demo_action 3 900] have "queue_rep q' [Entry 900 demo_action 3]"
    by (auto simp: periodic_exec_def demo_action_def)
  with q q' show ?thesis by auto
qed

end
