(* ===== verification/Executor.thy ===== *)
theory Executor
  imports Event_Queue
begin

text \<open>
  \<open>SingleTimerExecutor\<close> (src/firmware/controllers/system/timer/single_timer_executor.cpp) on top of
  the event queue, with \<open>lockAnyContext\<close> of util/os_util.c and \<open>setHardwareUsTimer\<close> of
  hw_layer/microsecond_timer.cpp.  The cycle counter is a stream of readings consumed in order;
  the general purpose timer driver (ChibiOS) is the parameter \<open>gpt\<close>: the state it is in after
  a stop and after a one-shot start.  The callback runner \<open>exec\<close> is a parameter as in
  \<open>executeAll\<close>.
\<close>

datatype gpt_state = GPT_STOP | GPT_READY | GPT_CONTINUOUS | GPT_ONESHOT | GPT_UNINIT

record gpt_driver =
  after_stop :: "gpt_state \<Rightarrow> gpt_state"
  after_oneshot :: "gpt_state \<Rightarrow> gpt_state"

record executor = event_queue +
  timerCallbackCounter :: int
  scheduleCounter :: int
  doExecuteCounter :: int
  reentrantFlag :: bool
  lastExecutionCount :: int
  nextEventTimeNt :: int
  locked :: bool
  readings :: "nat \<Rightarrow> int"
  readCount :: nat
  ntPerUs :: int
  hwStarted :: bool
  gptState :: gpt_state
  setHwTimerCounter :: int
  timerFreezeCounter :: int
  alarms :: "int list"

type_synonym 'w runner = "action_s \<Rightarrow> 'w executor_scheme \<Rightarrow> 'w executor_scheme"

definition US2NT :: "'w executor_scheme \<Rightarrow> int \<Rightarrow> int" where
  "US2NT e us = us * ntPerUs e"

definition NT2US :: "'w executor_scheme \<Rightarrow> int \<Rightarrow> int" where
  "NT2US e nt = c_div nt (ntPerUs e)"

definition TOO_FAR_INTO_FUTURE_US :: int where
  "TOO_FAR_INTO_FUTURE_US = 10 * 1000000"

definition getTimeNowNt :: "'w executor_scheme \<Rightarrow> int \<times> 'w executor_scheme" where
  "getTimeNowNt e = (readings e (readCount e), e\<lparr>readCount := Suc (readCount e)\<rparr>)"

definition lockAnyContext :: "'w executor_scheme \<Rightarrow> bool \<times> 'w executor_scheme" where
  "lockAnyContext e = (if locked e then (True, e) else (False, e\<lparr>locked := True\<rparr>))"

definition unlockAnyContext :: "'w executor_scheme \<Rightarrow> 'w executor_scheme" where
  "unlockAnyContext e = e\<lparr>locked := False\<rparr>"

definition SingleTimerExecutor_init :: "'w executor_scheme \<Rightarrow> 'w executor_scheme" where
  "SingleTimerExecutor_init e0 =
     (let e = EventQueue_init e0;
          e = e\<lparr>reentrantFlag := False, doExecuteCounter := 0, scheduleCounter := 0,
                timerCallbackCounter := 0\<rparr>
      in setLateDelay (US2NT e 100) e)"

subsection \<open>Arming the hardware timer\<close>

text \<open>
  The code also notes the time of the call in \<open>lastSetTimerTimeNt\<close>, for a check that runs elsewhere; that reading of the counter is
  not taken from the stream, so the readings counted here are those the executor bases its decisions on.
\<close>

definition setHardwareUsTimer :: "gpt_driver \<Rightarrow> int \<Rightarrow> 'w executor_scheme \<Rightarrow> 'w executor_scheme" where
  "setHardwareUsTimer gpt delta0 e0 =
    (if \<not> hwStarted e0 then firmwareError OBD_PCM_Processor_Fault e0
     else
       let e = e0\<lparr>setHwTimerCounter := setHwTimerCounter e0 + 1\<rparr>;
           e = (if delta0 \<le> 0
                then warning CUSTOM_OBD_LOCAL_FREEZE (e\<lparr>timerFreezeCounter := timerFreezeCounter e + 1\<rparr>)
                else e);
           delta = (if delta0 < 2 then 2 else delta0)
       in if \<not> delta > 0 then firmwareError CUSTOM_DELTA_NOT_POSITIVE e
          else if delta \<ge> TOO_FAR_INTO_FUTURE_US then firmwareError CUSTOM_ERR_TIMER_OVERFLOW e
          else
            let e = (if gptState e = GPT_ONESHOT
                     then e\<lparr>gptState := after_stop gpt (gptState e)\<rparr> else e)
            in if gptState e \<noteq> GPT_READY then firmwareError CUSTOM_HW_TIMER e
               else if hasFirmwareError e then e
               else e\<lparr>gptState := after_oneshot gpt (gptState e), alarms := alarms e @ [delta]\<rparr>)"

definition scheduleTimerCallback :: "gpt_driver \<Rightarrow> 'w executor_scheme \<Rightarrow> 'w executor_scheme" where
  "scheduleTimerCallback gpt e0 =
     (let (nowNt, e) = getTimeNowNt e0;
          e = e\<lparr>nextEventTimeNt := getNextEventTime e nowNt\<rparr>
      in if \<not> nextEventTimeNt e > nowNt then firmwareError CUSTOM_ERR_6625 e
         else if nextEventTimeNt e = EMPTY_QUEUE then e
         else
           let hwAlarmTime = NT2US e (to_i32 (to_i32 (nextEventTimeNt e) - to_i32 nowNt))
           in setHardwareUsTimer gpt (if hwAlarmTime = 0 then 1 else hwAlarmTime) e)"

subsection \<open>Executing and scheduling\<close>

partial_function (option) doExecute_loop ::
    "'w runner \<Rightarrow> int \<Rightarrow> 'w executor_scheme \<Rightarrow> (int \<times> 'w executor_scheme) option" where
  "doExecute_loop exec acc e =
     (case executeAll exec (fst (getTimeNowNt e)) (snd (getTimeNowNt e)) of
        None \<Rightarrow> None
      | Some r \<Rightarrow>
          if 0 < fst r then doExecute_loop exec (acc + int (fst r)) (snd r)
          else Some (acc, snd r))"

definition doExecute :: "'w runner \<Rightarrow> 'w executor_scheme \<Rightarrow> 'w executor_scheme option" where
  "doExecute exec e0 =
     (let e = e0\<lparr>doExecuteCounter := doExecuteCounter e0 + 1, reentrantFlag := True\<rparr>
      in case doExecute_loop exec 0 e of
           None \<Rightarrow> None
         | Some (totalExecuted, e) \<Rightarrow>
             let e = e\<lparr>lastExecutionCount := totalExecuted\<rparr>
             in Some (if \<not> locked e then firmwareError CUSTOM_ERR_LOCK_ISSUE e
                      else e\<lparr>reentrantFlag := False\<rparr>))"

definition scheduleByTimestampNt ::
    "gpt_driver \<Rightarrow> 'w runner \<Rightarrow> addr \<Rightarrow> int \<Rightarrow> action_s \<Rightarrow> 'w executor_scheme
       \<Rightarrow> 'w executor_scheme option" where
  "scheduleByTimestampNt gpt exec s nt act e0 =
     (let (nowNt, e) = getTimeNowNt e0;
          deltaTimeUs = to_i32 (NT2US e (nt - nowNt))
      in if deltaTimeUs \<ge> TOO_FAR_INTO_FUTURE_US
         then Some (firmwareError CUSTOM_ERR_TASK_TIMER_OVERFLOW e)
         else
           let e = e\<lparr>scheduleCounter := scheduleCounter e + 1\<rparr>;
               (alreadyLocked, e) = (if \<not> reentrantFlag e then lockAnyContext e else (True, e))
           in case insertTask e s nt act of
                None \<Rightarrow> None
              | Some (needToResetTimer, e) \<Rightarrow>
                  if \<not> reentrantFlag e then
                    (case doExecute exec e of
                       None \<Rightarrow> None
                     | Some e \<Rightarrow>
                         let e = (if needToResetTimer then scheduleTimerCallback gpt e else e)
                         in Some (if \<not> alreadyLocked then unlockAnyContext e else e))
                  else Some e)"

definition scheduleByTimestamp ::
    "gpt_driver \<Rightarrow> 'w runner \<Rightarrow> addr \<Rightarrow> int \<Rightarrow> action_s \<Rightarrow> 'w executor_scheme
       \<Rightarrow> 'w executor_scheme option" where
  "scheduleByTimestamp gpt exec s timeUs act e =
     scheduleByTimestampNt gpt exec s (US2NT e timeUs) act e"

text \<open>\<open>getTimeNowUs\<close> is \<open>NT2US(getTimeNowNt())\<close>.\<close>

definition scheduleForLater ::
    "gpt_driver \<Rightarrow> 'w runner \<Rightarrow> addr \<Rightarrow> int \<Rightarrow> action_s \<Rightarrow> 'w executor_scheme
       \<Rightarrow> 'w executor_scheme option" where
  "scheduleForLater gpt exec s delayUs act e0 =
     (let (nowNt, e) = getTimeNowNt e0
      in scheduleByTimestamp gpt exec s (NT2US e nowNt + delayUs) act e)"

definition onTimerCallback ::
    "gpt_driver \<Rightarrow> 'w runner \<Rightarrow> 'w executor_scheme \<Rightarrow> 'w executor_scheme option" where
  "onTimerCallback gpt exec e0 =
     (let e = e0\<lparr>timerCallbackCounter := timerCallbackCounter e0 + 1\<rparr>;
          (alreadyLocked, e) = lockAnyContext e
      in case doExecute exec e of
           None \<Rightarrow> None
         | Some e \<Rightarrow>
             let e = scheduleTimerCallback gpt e
             in Some (if \<not> alreadyLocked then unlockAnyContext e else e))"


subsection \<open>Frame lemmas\<close>

lemma queue_rep_executor_upd [simp]:
  "queue_rep (e\<lparr>readCount := r\<rparr>) xs \<longleftrightarrow> queue_rep e xs"
  "queue_rep (e\<lparr>reentrantFlag := b\<rparr>) xs \<longleftrightarrow> queue_rep e xs"
  "queue_rep (e\<lparr>doExecuteCounter := i\<rparr>) xs \<longleftrightarrow> queue_rep e xs"
  "queue_rep (e\<lparr>scheduleCounter := i\<rparr>) xs \<longleftrightarrow> queue_rep e xs"
  "queue_rep (e\<lparr>timerCallbackCounter := i\<rparr>) xs \<longleftrightarrow> queue_rep e xs"
  "queue_rep (e\<lparr>lastExecutionCount := i\<rparr>) xs \<longleftrightarrow> queue_rep e xs"
  "queue_rep (e\<lparr>nextEventTimeNt := i\<rparr>) xs \<longleftrightarrow> queue_rep e xs"
  "queue_rep (e\<lparr>locked := b\<rparr>) xs \<longleftrightarrow> queue_rep e xs"
  "queue_rep (e\<lparr>setHwTimerCounter := i\<rparr>) xs \<longleftrightarrow> queue_rep e xs"
  "queue_rep (e\<lparr>timerFreezeCounter := i\<rparr>) xs \<longleftrightarrow> queue_rep e xs"
  "queue_rep (e\<lparr>gptState := g\<rparr>) xs \<longleftrightarrow> queue_rep e xs"
  "queue_rep (e\<lparr>alarms := al\<rparr>) xs \<longleftrightarrow> queue_rep e xs"
  by (simp_all add: queue_rep_def)

lemma queue_rep_errors [simp]:
  "queue_rep (firmwareError err e) xs \<longleftrightarrow> queue_rep e xs"
  "queue_rep (warning err e) xs \<longleftrightarrow> queue_rep e xs"
  by (simp_all add: queue_rep_def firmwareError_def warning_def)

lemma unlinkHead_executor [simp]:
  "locked (unlinkHead e c) = locked e" "readings (unlinkHead e c) = readings e"
  "readCount (unlinkHead e c) = readCount e"
  by (simp_all add: unlinkHead_def)

lemma queue_rep_setHardwareUsTimer [simp]:
  "queue_rep (setHardwareUsTimer gpt d e) xs \<longleftrightarrow> queue_rep e xs"
  by (simp add: setHardwareUsTimer_def Let_def)

lemma queue_rep_scheduleTimerCallback [simp]:
  "queue_rep (scheduleTimerCallback gpt e) xs \<longleftrightarrow> queue_rep e xs"
  by (simp add: scheduleTimerCallback_def getTimeNowNt_def Let_def)

subsection \<open>The execution loop ends\<close>

text \<open>
  A callback is tame for a horizon \<open>h\<close>: it is orderly up to \<open>h\<close>, gives the kernel lock back as
  it found it, cannot wind back the counter and reads it at most \<open>c\<close> times.
\<close>

definition tame :: "'w runner \<Rightarrow> int \<Rightarrow> nat \<Rightarrow> bool" where
  "tame exec h c \<longleftrightarrow> orderly exec h \<and>
     (\<forall>act e. locked (exec act e) = locked e \<and> readings (exec act e) = readings e \<and>
        readCount e \<le> readCount (exec act e) \<and> readCount (exec act e) \<le> readCount e + c)"

lemma filter_due_length: "now \<le> h \<Longrightarrow> length (filter (due now) xs) \<le> length (filter (due h) xs)"
  by (induction xs) auto

lemma filter_due_prefix:
  assumes "sorted (map etime xs)" "now \<le> h"
  shows "take (length (filter (due now) xs)) (filter (due h) xs) = filter (due now) xs"
  using assms(1)
proof (induction xs)
  case (Cons x xs)
  show ?case
  proof (cases "etime x \<le> now")
    case True
    with Cons assms(2) show ?thesis by simp
  next
    case False
    with Cons.prems have "filter (due now) (x # xs) = []" by (auto simp: filter_empty_conv)
    then show ?thesis by simp
  qed
qed simp

text \<open>
  A series of passes over the queue: each reads the clock and serves at least one task.  What the callbacks keep is kept by the whole series.
\<close>

inductive served :: "'w runner \<Rightarrow> entry list \<Rightarrow> 'w executor_scheme \<Rightarrow> 'w executor_scheme \<Rightarrow> bool" for exec where
  stop: "served exec [] e e"
| pass: "ds \<noteq> [] \<Longrightarrow> executed exec ds (snd (getTimeNowNt e)) e1 \<Longrightarrow> served exec ds' e1 e2 \<Longrightarrow> served exec (ds @ ds') e e2"

lemma executed_keeps:
  fixes e :: "'w executor_scheme"
  assumes "executed exec ds e e'" "P e" "\<And>act e. P e \<Longrightarrow> P (exec act e)" "\<And>e m a. P e \<Longrightarrow> P (e\<lparr>mem := m, head := a\<rparr>)"
  shows "P e'"
  using assms(1,2)
proof (induction rule: executed.induct)
  case (serve q d ys p ds q')
  have "P p" by (subst serve.hyps(5)) (rule assms(4) [OF serve.prems])
  then show ?case using serve.IH assms(3) by blast
qed

lemma served_keeps:
  fixes e :: "'w executor_scheme"
  assumes "served exec ds e e'" "P e" "\<And>act e. P e \<Longrightarrow> P (exec act e)" "\<And>e m a. P e \<Longrightarrow> P (e\<lparr>mem := m, head := a\<rparr>)"
    and "\<And>e n. P e \<Longrightarrow> P (e\<lparr>readCount := n\<rparr>)"
  shows "P e'"
  using assms(1,2)
proof (induction rule: served.induct)
  case (pass ds e e1 ds' e2)
  have "P (snd (getTimeNowNt e))" using assms(5) pass.prems by (simp add: getTimeNowNt_def)
  from executed_keeps [OF pass.hyps(2) this assms(3,4)] pass.IH show ?case by blast
qed

lemma executeAll_tame:
  fixes e :: "'w executor_scheme"
  assumes tame: "tame exec h c" and h: "now \<le> h" and rep: "queue_rep e xs"
  shows "\<exists>e' ys. executeAll exec now e = Some (length (filter (due now) xs), e') \<and> queue_rep e' ys \<and>
    (\<forall>y\<in>set ys. now < etime y) \<and>
    length (filter (due h) ys) = length (filter (due h) xs) - length (filter (due now) xs) \<and>
    locked e' = locked e \<and> readings e' = readings e \<and> readCount e \<le> readCount e' \<and>
    readCount e' \<le> readCount e + length (filter (due now) xs) * c \<and>
    filter (due h) ys = drop (length (filter (due now) xs)) (filter (due h) xs) \<and>
    executed exec (take (length (filter (due now) xs)) (filter (due h) xs)) e e'"
proof -
  define I where "I = (\<lambda>(hist :: action_s list) (q :: 'w executor_scheme). locked q = locked e \<and> readings q = readings e \<and>
    readCount e \<le> readCount q \<and> readCount q \<le> readCount e + length hist * c)"
  have unl: "I hist (unlinkHead q a)" if "I hist q" for hist q a
    using that by (simp add: I_def)
  have run: "I (hist @ [act]) (exec act q)" if "I hist q" for hist q act
  proof -
    from tame have "locked (exec act q) = locked q" "readings (exec act q) = readings q"
      "readCount q \<le> readCount (exec act q)" "readCount (exec act q) \<le> readCount q + c"
      by (simp_all add: tame_def)
    with that show ?thesis by (simp add: I_def)
  qed
  have "orderly exec h" "I [] e" using tame by (simp_all add: tame_def I_def)
  from executeAll_loop_orderly [of exec h now I, OF this(1) h unl run rep refl this(2), of 0]
  obtain e' ys where e': "executeAll exec now e = Some (length (filter (due now) xs), e')"
    "queue_rep e' ys" "\<forall>y\<in>set ys. now < etime y" "I (map eact (filter (due now) xs)) e'"
    "filter (due h) ys = drop (length (filter (due now) xs)) (filter (due h) xs)"
    "executed exec (filter (due now) xs) e e'"
    by (auto simp: executeAll_def)
  then show ?thesis
    using filter_due_prefix [OF queue_rep_sorted [OF rep] h] by (intro exI [of _ e'] exI [of _ ys]) (simp add: I_def)
qed

lemma doExecute_loop_returns:
  assumes tame: "tame exec h c"
  shows "queue_rep e xs \<Longrightarrow> length (filter (due h) xs) = n \<Longrightarrow>
    (\<forall>k \<le> readCount e + n * Suc c. readings e k \<le> h) \<Longrightarrow>
    \<exists>m e' ys. doExecute_loop exec acc e = Some (acc + int m, e') \<and> queue_rep e' ys \<and>
      locked e' = locked e \<and> readings e' = readings e \<and> readCount e < readCount e' \<and>
      (\<forall>y\<in>set ys. readings e (readCount e' - 1) < etime y) \<and>
      filter (due h) ys = drop m (filter (due h) xs) \<and> m \<le> n \<and>
      (\<exists>e''. served exec (take m (filter (due h) xs)) e e'' \<and> e' = snd (getTimeNowNt e''))"
proof (induction n arbitrary: e xs acc rule: less_induct)
  case (less n)
  define now where "now = readings e (readCount e)"
  define e1 where "e1 = snd (getTimeNowNt e)"
  have e1: "queue_rep e1 xs" "readings e1 = readings e" "locked e1 = locked e"
      "readCount e1 = Suc (readCount e)" and now: "fst (getTimeNowNt e) = now"
    using less.prems(1) by (simp_all add: e1_def getTimeNowNt_def now_def)
  have h: "now \<le> h" using less.prems(3) by (simp add: now_def)
  let ?k = "length (filter (due now) xs)"
  obtain e2 ys where e2: "executeAll exec now e1 = Some (?k, e2)" "queue_rep e2 ys"
      "\<forall>y\<in>set ys. now < etime y" "length (filter (due h) ys) = n - ?k"
      "locked e2 = locked e" "readings e2 = readings e" "Suc (readCount e) \<le> readCount e2"
      "readCount e2 \<le> Suc (readCount e) + ?k * c"
      "filter (due h) ys = drop ?k (filter (due h) xs)" "executed exec (take ?k (filter (due h) xs)) e1 e2"
    using executeAll_tame [OF tame h e1(1)] e1 less.prems(2) by auto
  have kn: "?k \<le> n" using less.prems(2) h by (auto intro!: filter_due_length)
  have served: "served exec (take ?k (filter (due h) xs) @ ds) e e'" if "served exec ds e2 e'" "?k \<noteq> 0" for ds e'
  proof (rule served.pass)
    show "take ?k (filter (due h) xs) \<noteq> []" using that(2) kn less.prems(2) by (cases "filter (due h) xs") auto
  qed (use e2(10) that(1) in \<open>simp_all add: e1_def\<close>)
  show ?case
  proof (cases "?k = 0")
    case True
    with e2 have "readCount e2 - 1 = readCount e" by simp
    moreover have "e2 = e1" using True e2(10) by (auto elim: executed_none)
    ultimately show ?thesis using True e2 served.stop [of exec e]
      by (intro exI [of _ 0] exI [of _ e2] exI [of _ ys])
        (auto simp add: doExecute_loop.simps [of exec acc e] now e1_def [symmetric] now_def)
  next
    case False
    have mul: "n * Suc c = ?k * Suc c + (n - ?k) * Suc c"
      using kn by (simp flip: add_mult_distrib)
    have rd: "\<forall>k \<le> readCount e2 + (n - ?k) * Suc c. readings e2 k \<le> h"
    proof (intro allI impI)
      fix k assume "k \<le> readCount e2 + (n - ?k) * Suc c"
      also have "\<dots> \<le> readCount e + n * Suc c"
      proof -
        have "?k * Suc c = ?k + ?k * c" by simp
        moreover have "1 \<le> ?k" using False by linarith
        ultimately show ?thesis using e2(8) mul by linarith
      qed
      finally show "readings e2 k \<le> h" using less.prems(3) e2(6) by simp
    qed
    have lt: "n - ?k < n" using False kn by linarith
    have "doExecute_loop exec acc e = doExecute_loop exec (acc + int ?k) e2"
      using False e2(1) by (simp add: doExecute_loop.simps [of exec acc e] now e1_def [symmetric])
    moreover obtain m e' zs where IH: "doExecute_loop exec (acc + int ?k) e2 = Some (acc + int ?k + int m, e')"
        "queue_rep e' zs" "locked e' = locked e2" "readings e' = readings e2" "readCount e2 < readCount e'"
        "\<forall>y\<in>set zs. readings e2 (readCount e' - 1) < etime y"
        "filter (due h) zs = drop m (filter (due h) ys)" "m \<le> n - ?k" "\<exists>e''. served exec (take m (filter (due h) ys)) e2 e'' \<and> e' = snd (getTimeNowNt e'')"
      using less.IH [OF lt e2(2,4) rd] by blast
    moreover have "\<exists>e''. served exec (take (?k + m) (filter (due h) xs)) e e'' \<and> e' = snd (getTimeNowNt e'')"
      using IH(9) served [of "take m (filter (due h) ys)"] False by (auto simp: take_add e2(9))
    moreover have "?k + m \<le> n" using IH(8) kn by simp
    ultimately show ?thesis using e2
      by (intro exI [of _ "?k + m"] exI [of _ e'] exI [of _ zs]) (simp add: add.commute [of m])
  qed
qed


subsection \<open>Arming the alarm for a deadline\<close>

text \<open>
  The alarm is computed from the low 32 bits of the two counter values; the difference is right
  as long as the distance fits a signed 32-bit number.
\<close>

lemma to_i32_diff:
  assumes "- (2 ^ 31) \<le> a - b" "a - b < 2 ^ 31"
  shows "to_i32 (to_i32 a - to_i32 b) = a - b"
proof -
  have "(word_of_int (to_i32 a - to_i32 b) :: 32 word) = word_of_int (a - b)"
    by (simp add: to_i32_def)
  then show ?thesis using assms to_i32_small [of "a - b"] by (simp add: to_i32_def)
qed

text \<open>The general purpose timer is usable: started, no critical error, ready after a stop.\<close>

definition timer_ready :: "gpt_driver \<Rightarrow> 'w executor_scheme \<Rightarrow> bool" where
  "timer_ready gpt e \<longleftrightarrow> hwStarted e \<and> \<not> hasFirmwareError e \<and>
     (gptState e = GPT_READY \<or> gptState e = GPT_ONESHOT \<and> after_stop gpt GPT_ONESHOT = GPT_READY)"

lemma setHardwareUsTimer_ready:
  "timer_ready gpt e \<Longrightarrow> 0 < d \<Longrightarrow> d < TOO_FAR_INTO_FUTURE_US \<Longrightarrow>
     alarms (setHardwareUsTimer gpt d e) = alarms e @ [max 2 d]"
  by (auto simp: setHardwareUsTimer_def timer_ready_def Let_def hasFirmwareError_def
      TOO_FAR_INTO_FUTURE_US_def)

lemma scheduleTimerCallback_arms:
  assumes ready: "timer_ready gpt e"
    and now: "now = readings e (readCount e)" and nxt: "getNextEventTime e now = t"
    and t: "now < t" "t - now < 2 ^ 31" "t \<noteq> EMPTY_QUEUE"
    and mult: "0 < ntPerUs e" "t - now < TOO_FAR_INTO_FUTURE_US * ntPerUs e"
  shows "alarms (scheduleTimerCallback gpt e) = alarms e @ [max 2 ((t - now) div ntPerUs e)]"
proof -
  define e1 where "e1 = e\<lparr>readCount := Suc (readCount e), nextEventTimeNt := t\<rparr>"
  define d where "d = (t - now) div ntPerUs e"
  have "getNextEventTime (e\<lparr>readCount := Suc (readCount e)\<rparr>) now = t"
    using nxt by (subst getNextEventTime_cong [of _ e]) simp_all
  moreover have "to_i32 (to_i32 t - to_i32 now) = t - now" using t by (intro to_i32_diff) simp_all
  ultimately have "scheduleTimerCallback gpt e = setHardwareUsTimer gpt (if d = 0 then 1 else d) e1"
    using t mult
    by (simp add: scheduleTimerCallback_def getTimeNowNt_def now [symmetric] e1_def Let_def
        NT2US_def c_div_nonneg d_def)
  moreover have "0 \<le> d" using t mult by (simp add: d_def pos_imp_zdiv_nonneg_iff)
  moreover have "d < TOO_FAR_INTO_FUTURE_US" using mult by (simp add: d_def div_less_pos)
  moreover have "timer_ready gpt e1" "alarms e1 = alarms e"
    using ready by (simp_all add: timer_ready_def e1_def hasFirmwareError_def)
  ultimately show ?thesis
    using setHardwareUsTimer_ready [of gpt e1 "if d = 0 then 1 else d"]
    by (auto simp: d_def [symmetric] TOO_FAR_INTO_FUTURE_US_def)
qed

text \<open>With nothing due, an execution pass changes no more than its counters.\<close>

lemma doExecute_idle:
  assumes rep: "queue_rep e xs" and fut: "\<forall>x\<in>set xs. readings e (readCount e) < etime x"
    and lk: "locked e"
  shows "doExecute exec e = Some (e\<lparr>doExecuteCounter := doExecuteCounter e + 1, reentrantFlag := False,
    readCount := Suc (readCount e), lastExecutionCount := 0\<rparr>)"
proof -
  define e1 where "e1 = e\<lparr>doExecuteCounter := doExecuteCounter e + 1, reentrantFlag := True,
    readCount := Suc (readCount e)\<rparr>"
  have "executeAll exec (readings e (readCount e)) e1 = Some (0, e1)"
  proof (cases xs)
    case Nil
    with rep have "head e1 = None" by (simp add: e1_def queue_rep_def)
    then show ?thesis by (simp add: executeAll_def executeAll_loop.simps)
  next
    case (Cons x ys)
    with rep fut have "head e1 = Some (eaddr x)" "readings e (readCount e) < momentX (mem e1 (eaddr x))"
      by (simp_all add: e1_def queue_rep_def)
    then show ?thesis by (simp add: executeAll_def executeAll_loop.simps)
  qed
  with lk show ?thesis
    by (simp add: doExecute_def doExecute_loop.simps getTimeNowNt_def e1_def Let_def)
qed

lemma scheduleTimerCallback_frame:
  "reentrantFlag (scheduleTimerCallback gpt e) = reentrantFlag e"
  "locked (scheduleTimerCallback gpt e) = locked e"
  by (simp_all add: scheduleTimerCallback_def setHardwareUsTimer_def getTimeNowNt_def firmwareError_def
      warning_def Let_def)

lemma same_more:
  assumes "event_queue.more e = event_queue.more (e' :: 'w executor_scheme)"
  shows "readings e = readings e'" "readCount e = readCount e'" "locked e = locked e'"
    "reentrantFlag e = reentrantFlag e'" "ntPerUs e = ntPerUs e'" "alarms e = alarms e'"
    "hwStarted e = hwStarted e'" "gptState e = gptState e'" "scheduleCounter e = scheduleCounter e'"
  using assms by (cases e; cases e'; simp)+

lemma small_delta:
  assumes "0 \<le> d" "0 < ntPerUs e" "d < TOO_FAR_INTO_FUTURE_US * ntPerUs e"
  shows "to_i32 (NT2US e d) = d div ntPerUs e" "d div ntPerUs e < TOO_FAR_INTO_FUTURE_US"
proof -
  show lt: "d div ntPerUs e < TOO_FAR_INTO_FUTURE_US" using assms by (simp add: div_less_pos)
  have "0 \<le> d div ntPerUs e" using assms by (simp add: pos_imp_zdiv_nonneg_iff)
  with lt have "to_i32 (d div ntPerUs e) = d div ntPerUs e"
    by (intro to_i32_small) (simp_all add: TOO_FAR_INTO_FUTURE_US_def)
  with assms show "to_i32 (NT2US e d) = d div ntPerUs e" by (simp add: NT2US_def c_div_nonneg)
qed

subsection \<open>Properties\<close>

lemma doExecute_serves:
  assumes "tame exec h c" and "queue_rep e xs" and "locked e"
    and "\<forall>k \<le> readCount e + length (filter (due h) xs) * Suc c. readings e k \<le> h"
  shows "\<exists>m e1 e2 ys. doExecute exec e = Some (e2\<lparr>lastExecutionCount := int m, reentrantFlag := False\<rparr>) \<and>
    locked e2 \<and> queue_rep e2 ys \<and> readings e2 = readings e \<and> readCount e < readCount e2 \<and>
    (\<forall>y\<in>set ys. readings e (readCount e2 - 1) < etime y) \<and> filter (due h) ys = drop m (filter (due h) xs) \<and> m \<le> length (filter (due h) xs) \<and>
    served exec (take m (filter (due h) xs)) (e\<lparr>doExecuteCounter := doExecuteCounter e + 1, reentrantFlag := True\<rparr>) e1 \<and>
    e2 = snd (getTimeNowNt e1)"
proof -
  let ?e = "e\<lparr>doExecuteCounter := doExecuteCounter e + 1, reentrantFlag := True\<rparr>"
  obtain m e1 e2 ys where "doExecute_loop exec 0 ?e = Some (int m, e2)" "queue_rep e2 ys" "readings e2 = readings e"
      "locked e2" "readCount e < readCount e2" "\<forall>y\<in>set ys. readings e (readCount e2 - 1) < etime y"
      "filter (due h) ys = drop m (filter (due h) xs)" "m \<le> length (filter (due h) xs)" "served exec (take m (filter (due h) xs)) ?e e1" "e2 = snd (getTimeNowNt e1)"
    using doExecute_loop_returns [OF assms(1), of ?e xs _ 0] assms(2-4) by auto
  then show ?thesis
    by (intro exI [of _ m] exI [of _ e1] exI [of _ e2] exI [of _ ys]) (simp add: doExecute_def Let_def)
qed

text \<open>
  C29: a pass of the executor ends for tame callbacks: it returns with the re-entrance flag
  cleared and the lock held, and nothing that was due at its last reading of the clock is left.
\<close>

theorem doExecute_returns:
  assumes "tame exec h c" and "queue_rep e xs" and "locked e"
    and "\<forall>k \<le> readCount e + length (filter (due h) xs) * Suc c. readings e k \<le> h"
  shows "\<exists>e' ys. doExecute exec e = Some e' \<and> \<not> reentrantFlag e' \<and> locked e' \<and> queue_rep e' ys \<and>
    (\<forall>y\<in>set ys. readings e (readCount e' - 1) < etime y)"
proof -
  obtain m e1 ys where "doExecute exec e = Some (e1\<lparr>lastExecutionCount := int m, reentrantFlag := False\<rparr>)"
    "locked e1" "queue_rep e1 ys" "\<forall>y\<in>set ys. readings e (readCount e1 - 1) < etime y"
    using doExecute_serves [OF assms] by blast
  then show ?thesis by (intro exI conjI) (assumption | simp)+
qed

definition idle_exec :: "'w runner" where
  "idle_exec act e = e"

definition demo_executor :: "int \<Rightarrow> executor" where
  "demo_executor mult = \<lparr>mem = (\<lambda>_. fresh_scheduling), head = None, lateDelay = 100 * mult,
     firmwareErr = None, warningLog = [], timerCallbackCounter = 0, scheduleCounter = 0,
     doExecuteCounter = 0, reentrantFlag = False, lastExecutionCount = 0, nextEventTimeNt = 0,
     locked = False, readings = (\<lambda>k. 1000 + int k), readCount = 0, ntPerUs = mult, hwStarted = True,
     gptState = GPT_READY, setHwTimerCounter = 0, timerFreezeCounter = 0, alarms = []\<rparr>"

definition demo_gpt :: gpt_driver where
  "demo_gpt = \<lparr>after_stop = (\<lambda>_. GPT_READY), after_oneshot = (\<lambda>_. GPT_ONESHOT)\<rparr>"

lemma demo_executor_rep: "queue_rep (demo_executor m) []"
  by (simp add: queue_rep_def demo_executor_def fresh_scheduling_def)

lemma idle_exec_tame: "tame idle_exec h 0"
  by (auto simp: tame_def orderly_def idle_exec_def)

lemma demo_executor_simps [simp]:
  "readings (demo_executor m) k = 1000 + int k" "readCount (demo_executor m) = 0"
  "reentrantFlag (demo_executor m) = False" "ntPerUs (demo_executor m) = m"
  "alarms (demo_executor m) = []" "locked (demo_executor m) = False"
  "isScheduled (mem (demo_executor m) s) = False"
  by (simp_all add: demo_executor_def fresh_scheduling_def)

theorem doExecute_returns_witness:
  "\<exists>e' ys. doExecute idle_exec ((demo_executor 168)\<lparr>locked := True\<rparr>) = Some e' \<and>
     \<not> reentrantFlag e' \<and> locked e' \<and> queue_rep e' ys"
proof -
  have "queue_rep ((demo_executor 168)\<lparr>locked := True\<rparr>) []" by (simp add: demo_executor_rep)
  from doExecute_returns [OF idle_exec_tame this, of 1000] show ?thesis by auto
qed

text \<open>
  C15: scheduling a task for the future from outside the executor, with nothing due: the call
  returns, the task is on the agenda, and the hardware alarm is re-armed exactly when the task is
  the new earliest one, for its deadline rounded down to microseconds (at least 2).
\<close>

theorem schedule_future_arms:
  fixes e :: "'w executor_scheme"
  defines "now k \<equiv> readings e (readCount e + k)"
  assumes rep: "queue_rep e xs" and idle: "\<not> reentrantFlag e"
    and act: "callback act \<noteq> None" and new: "\<not> isScheduled (mem e s)"
    and ready: "timer_ready gpt e" and mult: "0 < ntPerUs e"
    and fut: "\<forall>x\<in>set xs. now 1 < etime x" and nt: "now 0 \<le> nt" "now 1 < nt" "now 2 < nt" "nt \<noteq> EMPTY_QUEUE"
    and near: "nt - now 0 < TOO_FAR_INTO_FUTURE_US * ntPerUs e" "nt - now 2 < 2 ^ 31"
      "nt - now 2 < TOO_FAR_INTO_FUTURE_US * ntPerUs e"
  shows "\<exists>e'. scheduleByTimestampNt gpt exec s nt act e = Some e' \<and>
    queue_rep e' (agenda_insert (Entry nt act s) xs) \<and> \<not> reentrantFlag e' \<and> locked e' = locked e \<and>
    alarms e' = alarms e @ (if xs = [] \<or> nt < etime (hd xs)
                            then [max 2 ((nt - now 2) div ntPerUs e)] else [])"
proof -
  define e3 where "e3 = e\<lparr>readCount := Suc (readCount e), scheduleCounter := scheduleCounter e + 1,
    locked := True\<rparr>"
  have e3: "queue_rep e3 xs" "\<not> isScheduled (mem e3 s)" using rep new by (simp_all add: e3_def)
  let ?ag = "agenda_insert (Entry nt act s) xs" and ?b = "xs = [] \<or> nt < etime (hd xs)"
  obtain e4 where e4: "insertTask e3 s nt act = Some (?b, e4)" "queue_rep e4 ?ag"
    using insertTask_agenda [OF e3(1) act e3(2)] by blast
  from insertTask_frame [OF e4(1)] act
  have "event_queue.more e4 = event_queue.more e3" and err: "firmwareErr e4 = firmwareErr e3" by simp_all
  note e4f = same_more [OF this(1)]
  define e5 where "e5 = e4\<lparr>doExecuteCounter := doExecuteCounter e4 + 1, reentrantFlag := False,
    readCount := Suc (readCount e4), lastExecutionCount := 0\<rparr>"
  have e5: "doExecute exec e4 = Some e5"
    unfolding e5_def using fut nt e4f
    by (intro doExecute_idle [OF e4(2)]) (auto simp: e3_def now_def)
  have rep5: "queue_rep e5 ?ag" using e4(2) by (simp add: e5_def)
  define e6 where "e6 = (if ?b then scheduleTimerCallback gpt e5 else e5)"
  define e7 where "e7 = (if \<not> locked e then unlockAnyContext e6 else e6)"
  have "to_i32 (NT2US e (nt - now 0)) = (nt - now 0) div ntPerUs e"
    "(nt - now 0) div ntPerUs e < TOO_FAR_INTO_FUTURE_US"
    using small_delta [of "nt - now 0" e] nt near mult by simp_all
  moreover have "lockAnyContext (e\<lparr>readCount := Suc (readCount e), scheduleCounter := scheduleCounter e + 1\<rparr>)
      = (locked e, e3)"
    by (cases e) (simp add: lockAnyContext_def e3_def)
  moreover have "\<not> reentrantFlag e4" using idle e4f by (simp add: e3_def)
  ultimately have "scheduleByTimestampNt gpt exec s nt act e = Some e7"
    using idle e4(1) e5
    by (simp add: scheduleByTimestampNt_def getTimeNowNt_def now_def Let_def e7_def e6_def NT2US_def)
  moreover have "alarms e6 = alarms e @ (if ?b then [max 2 ((nt - now 2) div ntPerUs e)] else [])"
  proof (cases ?b)
    case True
    then have "?ag = Entry nt act s # xs" by (cases xs) auto
    with rep5 have "getNextEventTime e5 (now 2) = nt" using nt by (simp add: getNextEventTime_rep)
    moreover have "timer_ready gpt e5" using ready e4f err
      by (simp add: timer_ready_def hasFirmwareError_def e5_def e3_def)
    ultimately have "alarms (scheduleTimerCallback gpt e5) = alarms e5 @ [max 2 ((nt - now 2) div ntPerUs e5)]"
      using nt near mult e4f
      by (intro scheduleTimerCallback_arms) (simp_all add: e5_def e3_def now_def)
    with True show ?thesis using e4f by (simp add: e6_def e5_def e3_def)
  qed (use e4f in \<open>simp add: e6_def e5_def e3_def\<close>)
  moreover have "queue_rep e7 ?ag" "\<not> reentrantFlag e7" "locked e7 = locked e" "alarms e7 = alarms e6"
    using rep5 e4f
    by (simp_all add: e7_def e6_def unlockAnyContext_def scheduleTimerCallback_frame e5_def e3_def)
  ultimately show ?thesis by (intro exI [of _ e7]) simp
qed

theorem schedule_future_arms_witness:
  "\<exists>e'. scheduleByTimestampNt demo_gpt idle_exec 1 200000 \<lparr>callback = Some 7, param = 0\<rparr> (demo_executor 168) = Some e' \<and>
     queue_rep e' [Entry 200000 \<lparr>callback = Some 7, param = 0\<rparr> 1] \<and> alarms e' = [1184]"
proof -
  have "timer_ready demo_gpt (demo_executor 168)"
    by (simp add: timer_ready_def demo_executor_def demo_gpt_def hasFirmwareError_def)
  from schedule_future_arms [OF demo_executor_rep [of 168], of "\<lparr>callback = Some 7, param = 0\<rparr>" 1 demo_gpt 200000 idle_exec] this
  show ?thesis by (auto simp: TOO_FAR_INTO_FUTURE_US_def EMPTY_QUEUE_def)
qed

lemma schedule_reentrant_inserts_aux:
  assumes rep: "queue_rep e xs" and re: "reentrantFlag e" and act: "callback act \<noteq> None"
    and new: "\<not> isScheduled (mem e s)"
    and near: "to_i32 (NT2US e (nt - readings e (readCount e))) < TOO_FAR_INTO_FUTURE_US"
  shows "\<exists>e'. scheduleByTimestampNt gpt exec s nt act e = Some e' \<and>
    queue_rep e' (agenda_insert (Entry nt act s) xs) \<and> reentrantFlag e' \<and> locked e' = locked e \<and>
    alarms e' = alarms e \<and> doExecuteCounter e' = doExecuteCounter e \<and> firmwareErr e' = firmwareErr e"
proof -
  define e3 where "e3 = e\<lparr>readCount := Suc (readCount e), scheduleCounter := scheduleCounter e + 1\<rparr>"
  have e3: "queue_rep e3 xs" "\<not> isScheduled (mem e3 s)" using rep new by (simp_all add: e3_def)
  obtain b e4 where e4: "insertTask e3 s nt act = Some (b, e4)" "queue_rep e4 (agenda_insert (Entry nt act s) xs)"
    using insertTask_agenda [OF e3(1) act e3(2)] by blast
  from insertTask_frame [OF e4(1)] act
  have more: "event_queue.more e4 = event_queue.more e3" and err: "firmwareErr e4 = firmwareErr e3" by simp_all
  note f = same_more [OF more]
  have "doExecuteCounter e4 = doExecuteCounter e3" using more by (cases e4; cases e3; simp)
  then show ?thesis using e4 f err re near
    by (intro exI [of _ e4])
      (simp add: scheduleByTimestampNt_def getTimeNowNt_def Let_def e3_def NT2US_def)
qed

text \<open>
  A callback that schedules (the re-entrance flag is up) only inserts: the task is put on the
  agenda, and nothing is executed, no alarm is armed and the lock is not touched.
\<close>

theorem schedule_reentrant_inserts:
  assumes rep: "queue_rep e xs" and re: "reentrantFlag e" and act: "callback act \<noteq> None"
    and new: "\<not> isScheduled (mem e s)"
    and near: "to_i32 (NT2US e (nt - readings e (readCount e))) < TOO_FAR_INTO_FUTURE_US"
  shows "\<exists>e'. scheduleByTimestampNt gpt exec s nt act e = Some e' \<and>
    queue_rep e' (agenda_insert (Entry nt act s) xs) \<and> reentrantFlag e' \<and> locked e' = locked e \<and>
    alarms e' = alarms e \<and> doExecuteCounter e' = doExecuteCounter e \<and> firmwareErr e' = firmwareErr e"
  using assms by (rule schedule_reentrant_inserts_aux)

theorem schedule_reentrant_inserts_witness:
  "\<exists>e'. scheduleByTimestampNt demo_gpt idle_exec 1 200000 \<lparr>callback = Some 7, param = 0\<rparr>
       ((demo_executor 168)\<lparr>reentrantFlag := True\<rparr>) = Some e' \<and>
     queue_rep e' [Entry 200000 \<lparr>callback = Some 7, param = 0\<rparr> 1] \<and> alarms e' = []"
proof -
  have "queue_rep ((demo_executor 168)\<lparr>reentrantFlag := True\<rparr>) []" by (simp add: demo_executor_rep)
  from schedule_reentrant_inserts [OF this, of "\<lparr>callback = Some 7, param = 0\<rparr>" 1 200000 demo_gpt idle_exec]
  show ?thesis by (auto simp: TOO_FAR_INTO_FUTURE_US_def NT2US_def c_div_def)
qed

lemma to_i32_wrap:
  assumes "2 ^ 31 \<le> x" "x < 2 ^ 32"
  shows "to_i32 x = x - 2 ^ 32"
proof -
  have "(word_of_int x :: 32 word) = word_of_int (x - 2 ^ 32)"
    by (rule word_of_int_eq_iff [THEN iffD2]) (simp add: take_bit_eq_mod)
  then have "to_i32 x = to_i32 (x - 2 ^ 32)" by (simp only: to_i32_def)
  also have "\<dots> = x - 2 ^ 32" using assms by (intro to_i32_small) auto
  finally show ?thesis .
qed

lemma NT2US_div: "0 < ntPerUs e \<Longrightarrow> 0 \<le> d div ntPerUs e \<Longrightarrow> NT2US e d = d div ntPerUs e"
  by (simp add: NT2US_def c_div_nonneg pos_imp_zdiv_nonneg_iff)

lemma schedule_refused:
  assumes "0 < ntPerUs e" and "TOO_FAR_INTO_FUTURE_US \<le> (nt - readings e (readCount e)) div ntPerUs e"
    and "(nt - readings e (readCount e)) div ntPerUs e < 2 ^ 31"
  shows "scheduleByTimestampNt gpt exec s nt act e =
    Some (firmwareError CUSTOM_ERR_TASK_TIMER_OVERFLOW (snd (getTimeNowNt e)))"
proof -
  let ?us = "(nt - readings e (readCount e)) div ntPerUs e"
  have "0 \<le> ?us" using assms by (simp add: TOO_FAR_INTO_FUTURE_US_def)
  with assms have "to_i32 (NT2US e (nt - readings e (readCount e))) = ?us" by (simp add: NT2US_div)
  with assms show ?thesis by (simp add: scheduleByTimestampNt_def getTimeNowNt_def NT2US_def)
qed

lemma schedule_wrapped_near:
  assumes "0 < ntPerUs e" and "2 ^ 31 \<le> (nt - readings e (readCount e)) div ntPerUs e"
    and "(nt - readings e (readCount e)) div ntPerUs e < 2 ^ 32"
  shows "to_i32 (NT2US e (nt - readings e (readCount e))) < TOO_FAR_INTO_FUTURE_US"
proof -
  let ?us = "(nt - readings e (readCount e)) div ntPerUs e"
  have "to_i32 (NT2US e (nt - readings e (readCount e))) = ?us - 2 ^ 32"
    using assms by (simp add: NT2US_div to_i32_wrap)
  with assms show ?thesis by (simp add: TOO_FAR_INTO_FUTURE_US_def)
qed

text \<open>
  The guard against a deadline more than ten seconds ahead works only below \<open>2 ^ 31\<close>
  microseconds: between ten seconds and that bound the call is refused with a critical error and
  leaves the queue alone; from there to \<open>2 ^ 32\<close> the distance, stored in an \<open>int\<close>, turns
  negative and the task is accepted (stated for a call from a callback).
\<close>

theorem schedule_too_far:
  assumes rep: "queue_rep e xs" and mult: "0 < ntPerUs e" and re: "reentrantFlag e"
    and act: "callback act \<noteq> None" and new: "\<not> isScheduled (mem e s)"
    and us: "us = (nt - readings e (readCount e)) div ntPerUs e"
  shows "(TOO_FAR_INTO_FUTURE_US \<le> us \<and> us < 2 ^ 31 \<longrightarrow>
      scheduleByTimestampNt gpt exec s nt act e =
        Some (firmwareError CUSTOM_ERR_TASK_TIMER_OVERFLOW (snd (getTimeNowNt e)))) \<and>
    (2 ^ 31 \<le> us \<and> us < 2 ^ 32 \<longrightarrow>
      (\<exists>e'. scheduleByTimestampNt gpt exec s nt act e = Some e' \<and>
        queue_rep e' (agenda_insert (Entry nt act s) xs) \<and> firmwareErr e' = firmwareErr e))"
  using schedule_refused [OF mult, of nt gpt exec s act]
    schedule_reentrant_inserts_aux [OF rep re act new schedule_wrapped_near [OF mult, of nt], of gpt exec]
  unfolding us by blast

theorem schedule_too_far_witness:
  "\<exists>e'. scheduleByTimestampNt demo_gpt idle_exec 1 (168 * 2200000000 + 1000) \<lparr>callback = Some 7, param = 0\<rparr>
       ((demo_executor 168)\<lparr>reentrantFlag := True\<rparr>) = Some e' \<and>
     queue_rep e' [Entry (168 * 2200000000 + 1000) \<lparr>callback = Some 7, param = 0\<rparr> 1] \<and>
     firmwareErr e' = None"
proof -
  have "queue_rep ((demo_executor 168)\<lparr>reentrantFlag := True\<rparr>) []" by (simp add: demo_executor_rep)
  from schedule_too_far [OF this, of "\<lparr>callback = Some 7, param = 0\<rparr>" 1 2200000000 "168 * 2200000000 + 1000"
      demo_gpt idle_exec]
  show ?thesis by (auto simp: demo_executor_def fresh_scheduling_def)
qed

subsection \<open>The timer interrupt\<close>

text \<open>
  What callbacks that only schedule and compute leave alone: whether the hardware timer is ready, the unit of the counter, the delay for
  late tasks and the alarms set so far.
\<close>

definition timer_as :: "gpt_driver \<Rightarrow> 'w executor_scheme \<Rightarrow> 'v executor_scheme \<Rightarrow> bool" where
  "timer_as gpt e0 e \<longleftrightarrow> (timer_ready gpt e0 \<longrightarrow> timer_ready gpt e) \<and> ntPerUs e = ntPerUs e0 \<and>
     lateDelay e = lateDelay e0 \<and> alarms e = alarms e0"

lemma timer_as_upd [simp]:
  "timer_as gpt e0 (e\<lparr>mem := m, head := a\<rparr>) = timer_as gpt e0 e" "timer_as gpt e0 (e\<lparr>readCount := n\<rparr>) = timer_as gpt e0 e"
  "timer_as gpt e0 (e\<lparr>lastExecutionCount := i\<rparr>) = timer_as gpt e0 e" "timer_as gpt e0 (e\<lparr>reentrantFlag := b\<rparr>) = timer_as gpt e0 e"
  "timer_as gpt e0 (e\<lparr>timerCallbackCounter := i\<rparr>) = timer_as gpt e0 e" "timer_as gpt e0 (e\<lparr>locked := b\<rparr>) = timer_as gpt e0 e"
  "timer_as gpt e0 (e\<lparr>doExecuteCounter := i\<rparr>) = timer_as gpt e0 e" "timer_as gpt e e"
  by (auto simp: timer_as_def timer_ready_def hasFirmwareError_def)

lemma timer_as_trans: "timer_as gpt e0 e1 \<Longrightarrow> timer_as gpt e1 e2 \<Longrightarrow> timer_as gpt e0 e2"
  by (simp add: timer_as_def)

text \<open>The time of the next wake-up, for the tasks \<open>ys\<close> left on the agenda.\<close>

fun wakeup :: "int \<Rightarrow> int \<Rightarrow> entry list \<Rightarrow> int" where
  "wakeup now late [] = EMPTY_QUEUE"
| "wakeup now late (y # ys) = (if etime y \<le> now then now + late else etime y)"

lemma getNextEventTime_wakeup: "queue_rep q ys \<Longrightarrow> getNextEventTime q now = wakeup now (lateDelay q) ys"
  by (cases ys) (simp_all add: getNextEventTime_rep)

text \<open>The alarm set for the wake-up time \<open>t\<close>: none for the empty agenda.\<close>

definition rearmed :: "int \<Rightarrow> int \<Rightarrow> int \<Rightarrow> int list" where
  "rearmed now t mult = (if t = EMPTY_QUEUE then [] else [max 2 ((t - now) div mult)])"

lemma scheduleTimerCallback_rearms:
  assumes "timer_ready gpt e" "queue_rep e ys" "0 < ntPerUs e"
  defines "now \<equiv> readings e (readCount e)"
  defines "t \<equiv> wakeup now (lateDelay e) ys"
  assumes near: "now < t" "t = EMPTY_QUEUE \<or> t - now < 2 ^ 31 \<and> t - now < TOO_FAR_INTO_FUTURE_US * ntPerUs e"
  shows "alarms (scheduleTimerCallback gpt e) = alarms e @ rearmed now t (ntPerUs e)"
    "nextEventTimeNt (scheduleTimerCallback gpt e) = t"
proof -
  have n: "getNextEventTime e now = t" using getNextEventTime_wakeup [OF assms(2)] by (simp add: t_def)
  have n': "getNextEventTime (e\<lparr>readCount := Suc (readCount e)\<rparr>) now = t"
    using n by (subst getNextEventTime_cong [of _ e]) simp_all
  show "alarms (scheduleTimerCallback gpt e) = alarms e @ rearmed now t (ntPerUs e)"
  proof (cases "t = EMPTY_QUEUE")
    case True
    with n' near(1) show ?thesis by (simp add: scheduleTimerCallback_def getTimeNowNt_def now_def [symmetric] rearmed_def Let_def)
  next
    case False
    then show ?thesis
      using scheduleTimerCallback_arms [of gpt e now t] assms(1,3) n near by (simp add: rearmed_def now_def)
  qed
  show "nextEventTimeNt (scheduleTimerCallback gpt e) = t"
    using n' by (simp add: scheduleTimerCallback_def getTimeNowNt_def now_def [symmetric] setHardwareUsTimer_def
        firmwareError_def warning_def Let_def)
qed

lemma scheduleTimerCallback_counts [simp]:
  "readCount (scheduleTimerCallback gpt e) = Suc (readCount e)"
  "lastExecutionCount (scheduleTimerCallback gpt e) = lastExecutionCount e"
  "executor.more (scheduleTimerCallback gpt e) = executor.more e"
  "mem (scheduleTimerCallback gpt e) = mem e" "head (scheduleTimerCallback gpt e) = head e"
  by (simp_all add: scheduleTimerCallback_def setHardwareUsTimer_def getTimeNowNt_def firmwareError_def
      warning_def Let_def)

text \<open>
  C16: the timer interrupt serves what is due and re-arms the timer. For tame callbacks the handler returns with the re-entrance flag
  down and the lock as it found it; with the lock held and the flag up it has served, in agenda order, the first \<open>m\<close> of the tasks due up to
  the horizon; a task left on the agenda lies after the first reading of the clock that follows the last callback. The wake-up time is the one
  for the next reading, the last of the handler, and when it is less than ten seconds (and 2^31 ticks) away the alarm is set for it, rounded down
  to microseconds but at least 2; for an empty agenda no alarm is set.
\<close>

theorem onTimerCallback_returns:
  assumes "tame exec h c" and "queue_rep e xs"
    and "\<forall>k \<le> readCount e + length (filter (due h) xs) * Suc c. readings e k \<le> h"
    and "\<And>act e. timer_as gpt e (exec act e)" and "timer_ready gpt e" "0 < ntPerUs e"
  shows "\<exists>e1 e' ys m. onTimerCallback gpt exec e = Some e' \<and> \<not> reentrantFlag e' \<and> locked e' = locked e \<and>
    served exec (take m (filter (due h) xs))
      (e\<lparr>timerCallbackCounter := timerCallbackCounter e + 1, locked := True,
        doExecuteCounter := doExecuteCounter e + 1, reentrantFlag := True\<rparr>) e1 \<and>
    executor.more e' = executor.more e1 \<and> lastExecutionCount e' = int m \<and>
    mem e' = mem e1 \<and> head e' = head e1 \<and> queue_rep e' ys \<and>
    m \<le> length (filter (due h) xs) \<and> filter (due h) ys = drop m (filter (due h) xs) \<and>
    readCount e \<le> readCount e1 \<and> readCount e' = readCount e1 + 2 \<and>
    (\<forall>y\<in>set ys. readings e (readCount e1) < etime y) \<and>
    (let now = readings e (readCount e1 + 1); t = wakeup now (lateDelay e) ys in
       now < t \<and> (t = EMPTY_QUEUE \<or> t - now < 2 ^ 31 \<and> t - now < TOO_FAR_INTO_FUTURE_US * ntPerUs e) \<longrightarrow>
       nextEventTimeNt e' = t \<and> alarms e' = alarms e @ rearmed now t (ntPerUs e))"
proof -
  define e0 where "e0 = e\<lparr>timerCallbackCounter := timerCallbackCounter e + 1, locked := True\<rparr>"
  have e0: "queue_rep e0 xs" "locked e0" "readings e0 = readings e" "readCount e0 = readCount e"
    using assms(2) by (simp_all add: e0_def)
  have lk: "lockAnyContext (e\<lparr>timerCallbackCounter := timerCallbackCounter e + 1\<rparr>) = (locked e, e0)"
    by (cases e) (simp add: lockAnyContext_def e0_def)
  obtain m e1 e2 ys where e2: "doExecute exec e0 = Some (e2\<lparr>lastExecutionCount := int m, reentrantFlag := False\<rparr>)"
      "locked e2" "queue_rep e2 ys" "readings e2 = readings e" "readCount e < readCount e2"
      "\<forall>y\<in>set ys. readings e (readCount e2 - 1) < etime y" "filter (due h) ys = drop m (filter (due h) xs)"
      "m \<le> length (filter (due h) xs)"
      "served exec (take m (filter (due h) xs)) (e0\<lparr>doExecuteCounter := doExecuteCounter e0 + 1, reentrantFlag := True\<rparr>) e1"
      "e2 = snd (getTimeNowNt e1)"
    using doExecute_serves [OF assms(1) e0(1,2)] assms(3) e0(3,4) by auto
  define e3 where "e3 = e2\<lparr>lastExecutionCount := int m, reentrantFlag := False\<rparr>"
  define e' where "e' = (if locked e then scheduleTimerCallback gpt e3 else unlockAnyContext (scheduleTimerCallback gpt e3))"
  have "timer_as gpt e (exec act q)" if "timer_as gpt e q" for act q
    using timer_as_trans [OF that assms(4)] .
  from served_keeps [where P = "timer_as gpt e", OF e2(9) _ this] have "timer_as gpt e e1" by (simp add: e0_def)
  then have "timer_as gpt e e3" by (simp add: e3_def e2(10) getTimeNowNt_def)
  then have timer: "timer_ready gpt e3" "ntPerUs e3 = ntPerUs e" "lateDelay e3 = lateDelay e" "alarms e3 = alarms e"
    using assms(5) by (simp_all add: timer_as_def)
  have rep3: "queue_rep e3 ys" using e2(3) by (simp add: e3_def)
  have rd: "readings e3 = readings e" "readCount e3 = readCount e1 + 1" "readCount e2 = readCount e1 + 1" "executor.more e3 = executor.more e1"
    "mem e3 = mem e1" "head e3 = head e1"
    using e2(4) by (simp_all add: e3_def e2(10) getTimeNowNt_def)
  have "onTimerCallback gpt exec e = Some e'"
    using e2(1) by (simp add: onTimerCallback_def lk Let_def e'_def e3_def)
  moreover have "\<not> reentrantFlag e'" "locked e' = locked e" "queue_rep e' ys" "readCount e' = readCount e1 + 2"
    "lastExecutionCount e' = int m" "executor.more e' = executor.more e1"
    using rep3 e2(2) rd by (simp_all add: e'_def scheduleTimerCallback_frame unlockAnyContext_def) (simp_all add: e3_def)
  moreover have "mem e' = mem e1" "head e' = head e1"
    using rd(5,6) by (simp_all add: e'_def unlockAnyContext_def)
  moreover have "nextEventTimeNt e' = nextEventTimeNt (scheduleTimerCallback gpt e3)" "alarms e' = alarms (scheduleTimerCallback gpt e3)"
    by (simp_all add: e'_def unlockAnyContext_def)
  moreover note scheduleTimerCallback_rearms [OF timer(1) rep3]
  ultimately show ?thesis
    using e2(5-9) timer assms(6) rd
    by (intro exI [of _ e1] exI [of _ e'] exI [of _ ys] exI [of _ m]) (simp add: e0_def Let_def)
qed

text \<open>A task due at 1000 and one for 200000; the first takes no further reading of the clock.\<close>

lemma queue_rep_unique: "queue_rep q xs \<Longrightarrow> queue_rep q ys \<Longrightarrow> xs = ys"
proof (induction xs arbitrary: ys q)
  case Nil
  then show ?case by (cases ys) (simp_all add: queue_rep_def)
next
  case (Cons x xs)
  then obtain y zs where ys: "ys = y # zs" by (cases ys) (simp_all add: queue_rep_def)
  note first = queue_rep_first [OF Cons.prems(1)] queue_rep_first [OF Cons.prems(2) [unfolded ys]]
  have "x = y" using first by (cases x; cases y) auto
  moreover have "xs = zs"
    using Cons.IH queue_rep_unlinkHead [OF Cons.prems(1)] queue_rep_unlinkHead [OF Cons.prems(2) [unfolded ys]] \<open>x = y\<close> by blast
  ultimately show ?case using ys by simp
qed

inductive_cases served_none: "served exec [] e e'"
inductive_cases served_one: "served exec [d] e e'"

lemma idle_exec_served:
  assumes "served idle_exec [d] e e1" "queue_rep e (d # ys)"
  shows "queue_rep e1 ys" "readCount e1 = Suc (readCount e)"
proof -
  obtain ds ds' e2 where split: "[d] = ds @ ds'" "ds \<noteq> []"
    and e2': "executed idle_exec ds (snd (getTimeNowNt e)) e2" "served idle_exec ds' e2 e1"
    using assms(1) by (rule served_one)
  have "ds = [d]" "ds' = []" using split by (cases ds; simp)+
  with e2' have e2: "executed idle_exec [d] (snd (getTimeNowNt e)) e2" "served idle_exec [] e2 e1" by simp_all
  have e1: "e1 = e2" using e2(2) by (auto elim: served_none)
  from e2(1) obtain zs p where p: "queue_rep (snd (getTimeNowNt e)) (d # zs)" "queue_rep p zs"
    "p = (snd (getTimeNowNt e))\<lparr>mem := mem p, head := head p\<rparr>" "e2 = idle_exec (eact d) p"
    by (elim executed_one executed_none) auto
  have "zs = ys" using queue_rep_unique [of e] p(1) assms(2) by (auto simp: getTimeNowNt_def)
  moreover have "readCount p = Suc (readCount e)" by (subst p(3)) (simp add: getTimeNowNt_def)
  ultimately show "queue_rep e1 ys" "readCount e1 = Suc (readCount e)" using p(2,4) e1 by (simp_all add: idle_exec_def)
qed

lemma idle_exec_timer_as: "timer_as gpt e (idle_exec act e)"
  by (simp add: idle_exec_def)

theorem onTimerCallback_returns_witness:
  "\<exists>e e' a. insertTask (demo_executor 168) 1 200000 \<lparr>callback = Some 7, param = 0\<rparr> = Some (True, a) \<and>
     insertTask a 2 1000 \<lparr>callback = Some 8, param = 0\<rparr> = Some (True, e) \<and>
     onTimerCallback demo_gpt idle_exec e = Some e' \<and> \<not> reentrantFlag e' \<and> \<not> locked e' \<and>
     queue_rep e' [Entry 200000 \<lparr>callback = Some 7, param = 0\<rparr> 1] \<and> lastExecutionCount e' = 1 \<and>
     nextEventTimeNt e' = 200000 \<and> alarms e' = [1184]"
proof -
  let ?E = "demo_executor 168" and ?x = "Entry 1000 \<lparr>callback = Some 8, param = 0\<rparr> 2"
    and ?y = "Entry 200000 \<lparr>callback = Some 7, param = 0\<rparr> 1"
  obtain a where a: "insertTask ?E 1 200000 \<lparr>callback = Some 7, param = 0\<rparr> = Some (True, a)" "queue_rep a [?y]"
    using insertTask_agenda [OF demo_executor_rep [of 168], of "\<lparr>callback = Some 7, param = 0\<rparr>" 1 200000] by auto
  have "\<not> isScheduled (mem a 2)" using queue_rep_scheduled [OF a(2)] by simp
  then obtain e where e: "insertTask a 2 1000 \<lparr>callback = Some 8, param = 0\<rparr> = Some (True, e)" "queue_rep e [?x, ?y]"
    using insertTask_agenda [OF a(2), of "\<lparr>callback = Some 8, param = 0\<rparr>" 2 1000] by auto
  have same: "event_queue.more e = event_queue.more ?E" "firmwareErr e = None" "lateDelay e = 16800"
    using insertTask_frame [OF a(1)] insertTask_frame [OF e(1)] by (simp_all add: demo_executor_def)
  note f = same_more [OF same(1)]
  have ready: "timer_ready demo_gpt e"
    using f same(2) by (simp add: timer_ready_def hasFirmwareError_def) (simp add: demo_executor_def)
  have "\<forall>k \<le> readCount e + length (filter (due 1005) [?x, ?y]) * Suc 0. readings e k \<le> 1005" using f by simp
  from onTimerCallback_returns [OF idle_exec_tame e(2) this idle_exec_timer_as ready] f
  obtain e1 e' ys m where t: "onTimerCallback demo_gpt idle_exec e = Some e'" "\<not> reentrantFlag e'" "\<not> locked e'"
    "served idle_exec (take m [?x]) (e\<lparr>timerCallbackCounter := timerCallbackCounter e + 1, locked := True,
        doExecuteCounter := doExecuteCounter e + 1, reentrantFlag := True\<rparr>) e1"
    "lastExecutionCount e' = int m" "mem e' = mem e1" "head e' = head e1" "queue_rep e' ys" "m \<le> 1"
    "filter (due 1005) ys = drop m [?x]" "\<forall>y\<in>set ys. 1000 + int (readCount e1) < etime y"
    "let now = 1000 + int (readCount e1 + 1); t = wakeup now 16800 ys in
       now < t \<and> (t = EMPTY_QUEUE \<or> t - now < 2 ^ 31 \<and> t - now < TOO_FAR_INTO_FUTURE_US * 168) \<longrightarrow>
       nextEventTimeNt e' = t \<and> alarms e' = rearmed now t 168"
    by (auto simp: same(3))
  have "m \<noteq> 0"
  proof
    assume "m = 0"
    with t(10) have "?x \<in> set (filter (due 1005) ys)" by simp
    then have "?x \<in> set ys" by simp
    with t(11) show False by fastforce
  qed
  with t(9) have m: "m = 1" by simp
  note s = idle_exec_served [OF t(4) [unfolded m, simplified], of "[?y]"]
  have ys: "ys = [?y]" using queue_rep_unique [OF t(8), of "[?y]"] s(1) e(2) t(6,7) by (simp add: queue_rep_def)
  have "readCount e1 = 1" using s(2) e(2) f by simp
  then have "nextEventTimeNt e' = 200000" "alarms e' = [1184]"
    using t(12) unfolding ys by (simp_all add: Let_def rearmed_def EMPTY_QUEUE_def TOO_FAR_INTO_FUTURE_US_def)
  with t ys m a(1) e(1) show ?thesis by auto
qed

end
