(* ===== verification/Flash_Int.thy ===== *)
theory Flash_Int
  imports Prelude
begin

text \<open>
  The internal flash memory, src/firmware/hw_layer/ports/stm32/flash_int.c.  The memory is a map from
  addresses to bytes; a \<open>flashdata_t\<close> (32 bits, for a supply of 2.7 to 3.6 V) is its four bytes in
  memory order.  What the flash controller does with an erase or program operation is a parameter
  \<open>hw\<close>; the operations issued are logged.  The size of a sector (\<open>flashSectorSize\<close>, one
  implementation for each of the STM32F4 and F7) is a parameter \<open>ssz\<close>.
\<close>

type_synonym mem = "nat \<Rightarrow> u8"

datatype flash_op = Erase nat | Program nat "u8 list"

type_synonym flash_hw = "flash_op \<Rightarrow> mem \<Rightarrow> mem"

record flash_state =
  fmem :: mem
  CR_LOCK :: bool
  unlock_works :: bool
  ops :: "flash_op list"

definition FLASH_BASE :: nat where "FLASH_BASE = 0x08000000"
definition FLASH_RETURN_SUCCESS :: int where "FLASH_RETURN_SUCCESS = 0"
definition FLASH_RETURN_NO_PERMISSION :: int where "FLASH_RETURN_NO_PERMISSION = -1"
definition FLASH_RETURN_BAD_FLASH :: int where "FLASH_RETURN_BAD_FLASH = -11"

lemmas flash_ret_defs = FLASH_RETURN_SUCCESS_def FLASH_RETURN_NO_PERMISSION_def FLASH_RETURN_BAD_FLASH_def

definition flashSectorSize_f4 :: "nat \<Rightarrow> nat" where
  "flashSectorSize_f4 sector =
     (if sector \<le> 3 \<or> (sector \<ge> 12 \<and> sector \<le> 15) then 16 * 1024
      else if sector = 4 \<or> sector = 16 then 64 * 1024
      else if (sector \<ge> 5 \<and> sector \<le> 11) \<or> (sector \<ge> 17 \<and> sector \<le> 23) then 128 * 1024
      else 0)"

definition flashSectorSize_f7 :: "nat \<Rightarrow> nat" where
  "flashSectorSize_f7 sector =
     (if sector \<le> 3 \<or> (sector \<ge> 12 \<and> sector \<le> 15) then 32 * 1024
      else if sector = 4 \<or> sector = 16 then 128 * 1024
      else if (sector \<ge> 5 \<and> sector \<le> 11) \<or> (sector \<ge> 17 \<and> sector \<le> 23) then 256 * 1024
      else 0)"

subsection \<open>Sectors\<close>

fun sectorBegin_loop :: "(nat \<Rightarrow> nat) \<Rightarrow> nat \<Rightarrow> nat \<Rightarrow> nat" where
  "sectorBegin_loop ssz 0 address = address"
| "sectorBegin_loop ssz (Suc sector) address = sectorBegin_loop ssz sector (address + ssz sector)"

definition intFlashSectorBegin :: "(nat \<Rightarrow> nat) \<Rightarrow> nat \<Rightarrow> nat" where
  "intFlashSectorBegin ssz sector = sectorBegin_loop ssz sector FLASH_BASE"

text \<open>A sector number is an 8-bit integer: the one after 255 is 0.\<close>

definition intFlashSectorEnd :: "(nat \<Rightarrow> nat) \<Rightarrow> nat \<Rightarrow> nat" where
  "intFlashSectorEnd ssz sector = intFlashSectorBegin ssz ((sector + 1) mod 256)"

partial_function (option) sectorAt_loop :: "(nat \<Rightarrow> nat) \<Rightarrow> nat \<Rightarrow> nat \<Rightarrow> nat option" where
  "sectorAt_loop ssz address sector =
     (if address \<ge> intFlashSectorEnd ssz sector then sectorAt_loop ssz address ((sector + 1) mod 256)
      else Some sector)"

definition intFlashSectorAt :: "(nat \<Rightarrow> nat) \<Rightarrow> nat \<Rightarrow> nat option" where
  "intFlashSectorAt ssz address = sectorAt_loop ssz address 0"

subsection \<open>Reading\<close>

definition read4 :: "mem \<Rightarrow> nat \<Rightarrow> u8 list" where
  "read4 m a = map m [a..<a + 4]"

fun intFlashIsErased :: "mem \<Rightarrow> nat \<Rightarrow> nat \<Rightarrow> bool" where
  "intFlashIsErased m address sz =
     (if sz \<ge> 4 then
        if read4 m address \<noteq> replicate 4 0xFF then False else intFlashIsErased m (address + 4) (sz - 4)
      else if sz > 0 then
        if m address \<noteq> 0xFF then False else intFlashIsErased m (address + 1) (sz - 1)
      else True)"

fun intFlashCompare :: "mem \<Rightarrow> nat \<Rightarrow> u8 list \<Rightarrow> nat \<Rightarrow> bool" where
  "intFlashCompare m address buffer sz =
     (if sz \<ge> 4 then
        if read4 m address \<noteq> take 4 buffer then False
        else intFlashCompare m (address + 4) (drop 4 buffer) (sz - 4)
      else if sz > 0 then
        if m address \<noteq> buffer ! 0 then False
        else intFlashCompare m (address + 1) (drop 1 buffer) (sz - 1)
      else True)"

declare intFlashIsErased.simps [simp del] intFlashCompare.simps [simp del]

definition intFlashRead :: "mem \<Rightarrow> nat \<Rightarrow> nat \<Rightarrow> int \<times> u8 list" where
  "intFlashRead m address sz = (FLASH_RETURN_SUCCESS, map m [address..<address + sz])"

subsection \<open>Erasing and writing\<close>

definition hw_do :: "flash_hw \<Rightarrow> flash_op \<Rightarrow> flash_state \<Rightarrow> flash_state" where
  "hw_do hw op s = s\<lparr>fmem := hw op (fmem s), ops := ops s @ [op]\<rparr>"

text \<open>\<open>unlock_works\<close>: the controller accepts the unlock sequence. True is \<open>HAL_SUCCESS\<close>.\<close>

definition intFlashUnlock :: "flash_state \<Rightarrow> bool \<times> flash_state" where
  "intFlashUnlock s =
     (if \<not> CR_LOCK s then (True, s)
      else let s = s\<lparr>CR_LOCK := \<not> unlock_works s\<rparr> in (\<not> CR_LOCK s, s))"

definition intFlashLock :: "flash_state \<Rightarrow> flash_state" where
  "intFlashLock s = s\<lparr>CR_LOCK := True\<rparr>"

text \<open>The bits SNB(4:0) of the control register name the sector.\<close>

definition intFlashSectorErase ::
    "flash_hw \<Rightarrow> (nat \<Rightarrow> nat) \<Rightarrow> nat \<Rightarrow> flash_state \<Rightarrow> int \<times> flash_state" where
  "intFlashSectorErase hw ssz sector s =
     (case intFlashUnlock s of (ok, s) \<Rightarrow>
        if \<not> ok then (FLASH_RETURN_NO_PERMISSION, s)
        else
          let snb = sector mod 32;
              s = intFlashLock (hw_do hw (Erase snb) s)
          in if \<not> intFlashIsErased (fmem s) (intFlashSectorBegin ssz sector) (ssz sector)
             then (FLASH_RETURN_BAD_FLASH, s) else (FLASH_RETURN_SUCCESS, s))"

partial_function (option) intFlashErase ::
    "flash_hw \<Rightarrow> (nat \<Rightarrow> nat) \<Rightarrow> nat \<Rightarrow> nat \<Rightarrow> flash_state \<Rightarrow> (int \<times> flash_state) option" where
  "intFlashErase hw ssz address sz s =
     (if sz > 0 then
        (case intFlashSectorAt ssz address of
           None \<Rightarrow> None
         | Some sector \<Rightarrow>
             (case intFlashSectorErase hw ssz sector s of (err, s) \<Rightarrow>
                if err \<noteq> FLASH_RETURN_SUCCESS then Some (err, s)
                else if ssz sector \<ge> sz then Some (FLASH_RETURN_SUCCESS, s)
                else intFlashErase hw ssz (intFlashSectorEnd ssz sector) (sz - ssz sector) s))
      else Some (FLASH_RETURN_SUCCESS, s))"

definition intFlashWriteData :: "flash_hw \<Rightarrow> nat \<Rightarrow> u8 list \<Rightarrow> flash_state \<Rightarrow> flash_state" where
  "intFlashWriteData hw address dat s = hw_do hw (Program address dat) s"

fun write_words :: "flash_hw \<Rightarrow> nat \<Rightarrow> u8 list \<Rightarrow> flash_state \<Rightarrow> nat \<times> u8 list \<times> flash_state" where
  "write_words hw address (b0 # b1 # b2 # b3 # buffer) s =
     write_words hw (address + 4) buffer (intFlashWriteData hw address [b0, b1, b2, b3] s)"
| "write_words hw address buffer s = (address, buffer, s)"

definition write_head :: "flash_hw \<Rightarrow> nat \<Rightarrow> u8 list \<Rightarrow> flash_state \<Rightarrow> nat \<times> u8 list \<times> flash_state" where
  "write_head hw address buffer s =
     (let alignOffset = address mod 4
      in if alignOffset \<noteq> 0 then
           let alignedFlashAddress = address - alignOffset;
               tmp = read4 (fmem s) alignedFlashAddress;
               chunkSize = (if 4 - alignOffset > length buffer then length buffer else 4 - alignOffset);
               tmp = take alignOffset tmp @ take chunkSize buffer @ drop (alignOffset + chunkSize) tmp
           in (address + chunkSize, drop chunkSize buffer, intFlashWriteData hw alignedFlashAddress tmp s)
         else (address, buffer, s))"

text \<open>\<open>size\<close> is the length of the buffer.\<close>

definition intFlashWrite :: "flash_hw \<Rightarrow> nat \<Rightarrow> u8 list \<Rightarrow> flash_state \<Rightarrow> int \<times> flash_state" where
  "intFlashWrite hw address buffer s =
     (case intFlashUnlock s of (ok, s) \<Rightarrow>
        if \<not> ok then (FLASH_RETURN_NO_PERMISSION, s)
        else
          let (address, buffer, s) = write_head hw address buffer s;
              (address, buffer, s) = write_words hw address buffer s;
              s = (if length buffer > 0 then
                     let tmp = buffer @ drop (length buffer) (read4 (fmem s) address)
                     in intFlashWriteData hw address tmp s
                   else s)
          in (FLASH_RETURN_SUCCESS, intFlashLock s))"

subsection \<open>Sectors of the two controllers\<close>

lemma sectorBegin_loop_add: "sectorBegin_loop ssz n (a + b) = sectorBegin_loop ssz n a + b"
proof (induction n arbitrary: a)
  case (Suc n)
  then show ?case using Suc [of "a + ssz n"] by (simp add: ac_simps)
qed simp

lemma sectorBegin_Suc: "intFlashSectorBegin ssz (Suc n) = intFlashSectorBegin ssz n + ssz n"
  by (simp add: intFlashSectorBegin_def sectorBegin_loop_add)

lemma sectorBegin_0: "intFlashSectorBegin ssz 0 = FLASH_BASE"
  by (simp add: intFlashSectorBegin_def)

lemma sectorBegin_numeral:
  "intFlashSectorBegin ssz (numeral k) = intFlashSectorBegin ssz (pred_numeral k) + ssz (pred_numeral k)"
  by (simp add: numeral_eq_Suc sectorBegin_Suc)

lemma sectorBegin_1: "intFlashSectorBegin ssz 1 = FLASH_BASE + ssz 0"
  using sectorBegin_Suc [of ssz 0] by (simp add: sectorBegin_0)

lemmas sectorBegin_eval = sectorBegin_numeral sectorBegin_0 sectorBegin_1 sectorBegin_Suc FLASH_BASE_def

lemma sectorBegin_mono: "m \<le> n \<Longrightarrow> intFlashSectorBegin ssz m \<le> intFlashSectorBegin ssz n"
  by (rule lift_Suc_mono_le) (simp_all add: sectorBegin_Suc)

lemma sectorEnd_eq: "n < 255 \<Longrightarrow> intFlashSectorEnd ssz n = intFlashSectorBegin ssz n + ssz n"
  by (simp add: intFlashSectorEnd_def sectorBegin_Suc)

text \<open>The end of a flash of \<open>n\<close> sectors: the sectors behind them have size 0.\<close>

definition sectors :: "nat \<Rightarrow> (nat \<Rightarrow> nat) \<Rightarrow> bool" where
  "sectors n ssz \<longleftrightarrow> n < 32 \<and> (\<forall>i. 0 < ssz i \<longleftrightarrow> i < n) \<and> (\<forall>i. ssz i mod 4 = 0)"

definition flash_end :: "nat \<Rightarrow> (nat \<Rightarrow> nat) \<Rightarrow> nat" where
  "flash_end n ssz = intFlashSectorBegin ssz n"

lemma sectors_f4: "sectors 24 flashSectorSize_f4"
  by (auto simp: sectors_def flashSectorSize_f4_def)

lemma sectors_f7: "sectors 24 flashSectorSize_f7"
  by (auto simp: sectors_def flashSectorSize_f7_def)

lemma sectorAt_step:
  "sectorAt_loop ssz a i = (if a \<ge> intFlashSectorEnd ssz i then sectorAt_loop ssz a ((i + 1) mod 256) else Some i)"
  by (rule sectorAt_loop.simps)

lemma sectorAt_in:
  assumes "sectors n ssz" "k < n" "intFlashSectorBegin ssz k \<le> a" "a < intFlashSectorBegin ssz k + ssz k"
  shows "intFlashSectorAt ssz a = Some k"
proof -
  have n: "n < 32" using assms(1) by (simp add: sectors_def)
  have "sectorAt_loop ssz a i = Some k" if "i \<le> k" for i
    using that
  proof (induction "k - i" arbitrary: i)
    case 0
    then have "i = k" by simp
    then show ?case using assms n by (simp add: sectorAt_step [of ssz a k] sectorEnd_eq)
  next
    case (Suc d)
    then have "i < k" by simp
    then have "intFlashSectorBegin ssz (Suc i) \<le> a" using sectorBegin_mono [of "Suc i" k ssz] assms(3) by simp
    moreover have "(i + 1) mod 256 = Suc i" using \<open>i < k\<close> assms(2) n by simp
    ultimately have "sectorAt_loop ssz a i = sectorAt_loop ssz a (Suc i)"
      by (subst sectorAt_step) (simp add: intFlashSectorEnd_def)
    also have "\<dots> = Some k" using Suc.hyps(1) [of "Suc i"] Suc.hyps(2) \<open>i < k\<close> by simp
    finally show ?case .
  qed
  from this [of 0] show ?thesis by (simp add: intFlashSectorAt_def)
qed

text \<open>Beyond the end the search does not return: every sector it looks at ends before the address.\<close>

lemma sectorAt_beyond:
  assumes "\<forall>i < 256. intFlashSectorEnd ssz i \<le> a" "i < 256"
  shows "sectorAt_loop ssz a i = None"
proof -
  have "sectorAt_loop s x j = Some y \<Longrightarrow> (\<forall>i < 256. intFlashSectorEnd s i \<le> x) \<longrightarrow> j < 256 \<longrightarrow> False" for s x j y
  proof (erule sectorAt_loop.raw_induct [rotated], goal_cases)
    case (1 f u v w z)
    show ?case using 1(1) [of u v "(w + 1) mod 256" z] 1(2) by (auto split: if_splits)
  qed
  with assms show ?thesis by (cases "sectorAt_loop ssz a i") auto
qed

lemma sector_of:
  assumes "sectors n ssz" "FLASH_BASE \<le> a" "a < flash_end n ssz"
  shows "\<exists>k < n. intFlashSectorBegin ssz k \<le> a \<and> a < intFlashSectorBegin ssz k + ssz k"
proof -
  have "\<exists>k < m. intFlashSectorBegin ssz k \<le> a \<and> a < intFlashSectorBegin ssz k + ssz k"
    if "a < intFlashSectorBegin ssz m" for m
    using that
  proof (induction m)
    case 0
    then show ?case using assms(2) by (simp add: sectorBegin_0)
  next
    case (Suc m)
    then show ?case
      by (cases "a < intFlashSectorBegin ssz m") (auto simp: sectorBegin_Suc less_Suc_eq)
  qed
  with assms(3) show ?thesis by (simp add: flash_end_def)
qed

lemma sectorBegin_above:
  assumes "sectors n ssz" "n \<le> i"
  shows "intFlashSectorBegin ssz i = flash_end n ssz"
proof -
  have z: "ssz j = 0" if "n \<le> j" for j
    using assms(1) that unfolding sectors_def by (metis neq0_conv not_le)
  show ?thesis using assms(2)
    by (induction rule: dec_induct) (simp_all add: flash_end_def sectorBegin_Suc z)
qed

lemma sectorAt_outside:
  assumes "sectors n ssz" "flash_end n ssz \<le> a"
  shows "intFlashSectorAt ssz a = None"
proof -
  have "intFlashSectorEnd ssz i \<le> a" if "i < 256" for i
  proof -
    have "intFlashSectorBegin ssz j \<le> flash_end n ssz" for j
      using sectorBegin_above [OF assms(1), of j] sectorBegin_mono [of j n ssz]
      by (cases "n \<le> j") (simp_all add: flash_end_def)
    with assms(2) show ?thesis by (metis intFlashSectorEnd_def le_trans)
  qed
  then show ?thesis by (simp add: intFlashSectorAt_def sectorAt_beyond)
qed

subsection \<open>Reading\<close>

lemma length_read4 [simp]: "length (read4 m a) = 4"
  by (simp add: read4_def)

lemma read4_nth: "i < 4 \<Longrightarrow> read4 m a ! i = m (a + i)"
  by (simp add: read4_def)

lemma read4_eq_iff: "length d = 4 \<Longrightarrow> read4 m a = d \<longleftrightarrow> (\<forall>i < 4. m (a + i) = d ! i)"
  by (auto simp: read4_nth list_eq_iff_nth_eq)

lemma all_less_split:
  fixes n :: nat
  assumes "c \<le> n"
  shows "(\<forall>i < n. P i) \<longleftrightarrow> (\<forall>i < c. P i) \<and> (\<forall>i < n - c. P (c + i))"
proof -
  have "P i" if "\<forall>i < c. P i" "\<forall>i < n - c. P (c + i)" "i < n" for i
  proof (cases "i < c")
    case False
    then have "i - c < n - c" "c + (i - c) = i" using that(3) by auto
    with that(2) show ?thesis by metis
  qed (use that in blast)
  with assms show ?thesis by auto
qed

lemma intFlashIsErased_iff: "intFlashIsErased m a n \<longleftrightarrow> (\<forall>i < n. m (a + i) = 0xFF)"
proof (induction m a n rule: intFlashIsErased.induct)
  case (1 m a n)
  consider "4 \<le> n" | "0 < n" "n < 4" | "n = 0" by linarith
  then show ?case
  proof cases
    assume n: "4 \<le> n"
    have "read4 m a = replicate 4 0xFF \<longleftrightarrow> (\<forall>i < 4. m (a + i) = 0xFF)" by (simp add: read4_eq_iff)
    then show ?thesis using 1(1) n all_less_split [OF n, of "\<lambda>i. m (a + i) = 0xFF"]
      by (subst intFlashIsErased.simps) (auto simp: add.assoc)
  next
    assume n: "0 < n" "n < 4"
    then have "1 \<le> n" by simp
    then show ?thesis using 1(2) n all_less_split [OF \<open>1 \<le> n\<close>, of "\<lambda>i. m (a + i) = 0xFF"]
      by (subst intFlashIsErased.simps) (auto simp: add.assoc)
  qed (simp add: intFlashIsErased.simps)
qed

lemma intFlashCompare_iff: "length buf = n \<Longrightarrow> intFlashCompare m a buf n \<longleftrightarrow> (\<forall>i < n. m (a + i) = buf ! i)"
proof (induction m a buf n rule: intFlashCompare.induct)
  case (1 m a buf n)
  consider "4 \<le> n" | "0 < n" "n < 4" | "n = 0" by linarith
  then show ?case
  proof cases
    assume n: "4 \<le> n"
    have "read4 m a = take 4 buf \<longleftrightarrow> (\<forall>i < 4. m (a + i) = buf ! i)" using n 1(3) by (simp add: read4_eq_iff)
    then show ?thesis using 1(1,3) n all_less_split [OF n, of "\<lambda>i. m (a + i) = buf ! i"]
      by (subst intFlashCompare.simps) (auto simp: add.assoc)
  next
    assume n: "0 < n" "n < 4"
    then have "1 \<le> n" by simp
    then show ?thesis using 1(2,3) n all_less_split [OF \<open>1 \<le> n\<close>, of "\<lambda>i. m (a + i) = buf ! i"]
      by (subst intFlashCompare.simps) (auto simp: add.assoc)
  qed (simp add: intFlashCompare.simps)
qed

subsection \<open>What the controller promises\<close>

text \<open>
  An operation only changes its sector or word; on a flash in order, erasing sets all bits of the
  sector and programming clears the bits that are 0 in the data.
\<close>

locale flash_frame =
  fixes hw :: flash_hw and ssz :: "nat \<Rightarrow> nat" and n :: nat
  assumes sectors: "sectors n ssz"
    and erase_frame: "i < n \<Longrightarrow> \<not> (intFlashSectorBegin ssz i \<le> x \<and> x < intFlashSectorBegin ssz i + ssz i) \<Longrightarrow>
      hw (Erase i) m x = m x"
    and program_frame: "\<not> (a \<le> x \<and> x < a + 4) \<Longrightarrow> hw (Program a d) m x = m x"

locale nor_flash = flash_frame +
  assumes erase_ones: "i < n \<Longrightarrow> intFlashSectorBegin ssz i \<le> x \<Longrightarrow> x < intFlashSectorBegin ssz i + ssz i \<Longrightarrow>
      hw (Erase i) m x = 0xFF"
    and program_and: "length d = 4 \<Longrightarrow> j < 4 \<Longrightarrow> hw (Program a d) m (a + j) = m (a + j) AND d ! j"

definition can_unlock :: "flash_state \<Rightarrow> bool" where
  "can_unlock s \<longleftrightarrow> \<not> CR_LOCK s \<or> unlock_works s"

lemma unlock_effect:
  "intFlashUnlock s = (ok, s') \<Longrightarrow> ok = can_unlock s \<and> fmem s' = fmem s \<and> ops s' = ops s \<and> unlock_works s' = unlock_works s"
  by (auto simp: intFlashUnlock_def can_unlock_def split: if_splits)

lemma hw_do_simps [simp]:
  "fmem (hw_do hw op s) = hw op (fmem s)" "ops (hw_do hw op s) = ops s @ [op]" "unlock_works (hw_do hw op s) = unlock_works s"
  "fmem (intFlashLock s) = fmem s" "ops (intFlashLock s) = ops s" "unlock_works (intFlashLock s) = unlock_works s"
  by (simp_all add: hw_do_def intFlashLock_def)

text \<open>Memory with a buffer stored at an address.\<close>

definition stored :: "mem \<Rightarrow> nat \<Rightarrow> u8 list \<Rightarrow> mem" where
  "stored m a buf = (\<lambda>x. if a \<le> x \<and> x < a + length buf then buf ! (x - a) else m x)"

lemma stored_Nil [simp]: "stored m a [] = m"
  by (rule ext) (auto simp: stored_def)

lemma stored_append: "stored (stored m a b1) (a + length b1) b2 = stored m a (b1 @ b2)"
proof
  fix x
  have "x - (a + length b1) = x - a - length b1" by simp
  then show "stored (stored m a b1) (a + length b1) b2 x = stored m a (b1 @ b2) x"
    by (auto simp: stored_def nth_append)
qed

definition blank :: "mem \<Rightarrow> nat \<Rightarrow> nat \<Rightarrow> bool" where
  "blank m a k \<longleftrightarrow> (\<forall>i < k. m (a + i) = 0xFF)"

lemma and_ones [simp]: "0xFF AND (w :: u8) = w"
proof -
  have "(0xFF :: u8) = - 1" by simp
  then show ?thesis by (simp only: and.left_neutral)
qed

lemma blank_split:
  assumes "blank m a (length (b1 @ b2))"
  shows "blank m a (length b1)" "blank (stored m a b1) (a + length b1) (length b2)"
proof -
  show "blank m a (length b1)" using assms by (simp add: blank_def)
  have "m (a + (length b1 + i)) = 0xFF" if "i < length b2" for i using assms that by (simp add: blank_def)
  then show "blank (stored m a b1) (a + length b1) (length b2)" by (simp add: blank_def stored_def add.assoc)
qed

text \<open>The words programmed by a write.\<close>

definition word_in :: "nat \<Rightarrow> nat \<Rightarrow> flash_op \<Rightarrow> bool" where
  "word_in lo hi op \<longleftrightarrow> (\<exists>a d. op = Program a d \<and> lo \<le> a \<and> a + 4 \<le> hi)"

context nor_flash
begin

lemma program_patch:
  assumes "off + length c \<le> 4" and b: "blank m (al + off) (length c)"
  shows "hw (Program al (take off (read4 m al) @ c @ drop (off + length c) (read4 m al))) m = stored m (al + off) c"
proof
  fix x
  let ?d = "take off (read4 m al) @ c @ drop (off + length c) (read4 m al)"
  show "hw (Program al ?d) m x = stored m (al + off) c x"
  proof (cases "al \<le> x \<and> x < al + 4")
    case True
    then obtain j where j: "x = al + j" "j < 4" by (metis le_iff_add nat_add_left_cancel_less)
    have len: "length ?d = 4" using assms(1) by simp
    have e: "hw (Program al ?d) m x = m (al + j) AND ?d ! j" using program_and [OF len j(2)] j(1) by simp
    consider "j < off" | "off \<le> j" "j < off + length c" | "off + length c \<le> j" by linarith
    then show ?thesis
    proof cases
      assume "j < off"
      then have "?d ! j = m (al + j)" using j(2) assms(1) by (simp add: nth_append read4_nth)
      with e \<open>j < off\<close> show ?thesis by (simp add: stored_def j(1))
    next
      assume jj: "off \<le> j" "j < off + length c"
      then have "j - off < length c" by linarith
      then have "?d ! j = c ! (j - off)" using assms(1) jj by (simp add: nth_append)
      moreover have "m (al + off + (j - off)) = 0xFF" using b jj unfolding blank_def by (metis add.commute less_diff_conv2)
      ultimately show ?thesis using e jj by (simp add: stored_def j(1))
    next
      assume jj: "off + length c \<le> j"
      then have "\<not> j - off < length c" "off \<le> j" by linarith+
      then have "?d ! j = m (al + j)" using j(2) assms(1) jj by (simp add: nth_append read4_nth)
      moreover have "\<not> j < off + length c" using jj by simp
      ultimately show ?thesis using e by (simp add: stored_def j(1) less_diff_conv2)
    qed
  next
    case False
    with program_frame [of al x ?d m] assms(1) show ?thesis by (auto simp: stored_def)
  qed
qed

lemma write_words_effect:
  "blank (fmem s) a (length buf) \<Longrightarrow> write_words hw a buf s = (a', buf', s') \<Longrightarrow>
    \<exists>b1 ps. buf = b1 @ buf' \<and> a' = a + length b1 \<and> length b1 mod 4 = 0 \<and> length buf' < 4 \<and>
      fmem s' = stored (fmem s) a b1 \<and> ops s' = ops s @ ps \<and> (\<forall>p\<in>set ps. word_in a a' p) \<and> unlock_works s' = unlock_works s"
proof (induction buf arbitrary: a s rule: measure_induct_rule [where f = length])
  case (less buf)
  show ?case
  proof (cases "4 \<le> length buf")
    case False
    then consider "buf = []" | x where "buf = [x]" | x y where "buf = [x, y]" | x y z where "buf = [x, y, z]"
      by (cases buf; cases "tl buf"; cases "tl (tl buf)"; cases "tl (tl (tl buf))") auto
    then have "write_words hw a buf s = (a, buf, s)" by cases simp_all
    with less.prems False show ?thesis by auto
  next
    case True
    then obtain b0 b1 b2 b3 rest where buf: "buf = [b0, b1, b2, b3] @ rest" by (rule list4_exhaust)
    let ?w = "[b0, b1, b2, b3]"
    define t where "t = intFlashWriteData hw a ?w s"
    note bl = blank_split [OF less.prems(1) [unfolded buf]]
    have "fmem t = stored (fmem s) a ?w"
      using program_patch [of 0 ?w "fmem s" a] bl(1) by (simp add: t_def intFlashWriteData_def)
    moreover have "ops t = ops s @ [Program a ?w]" "unlock_works t = unlock_works s"
      by (simp_all add: t_def intFlashWriteData_def)
    ultimately have t: "fmem t = stored (fmem s) a ?w" "ops t = ops s @ [Program a ?w]" "unlock_works t = unlock_works s" .
    have w: "write_words hw (a + 4) rest t = (a', buf', s')" using less.prems(2) by (simp add: buf t_def)
    have "a + length ?w = a + 4" by simp
    with bl(2) have "blank (fmem t) (a + 4) (length rest)" by (metis t(1))
    from less.IH [OF _ this w] obtain c ps where r: "rest = c @ buf'" "a' = a + 4 + length c" "length c mod 4 = 0"
      "length buf' < 4" "fmem s' = stored (fmem t) (a + 4) c" "ops s' = ops t @ ps" "\<forall>p\<in>set ps. word_in (a + 4) a' p"
      "unlock_works s' = unlock_works t" by (auto simp: buf)
    have "\<forall>p\<in>set (Program a ?w # ps). word_in a a' p" using r(2,7) by (fastforce simp: word_in_def)
    moreover have "fmem s' = stored (fmem s) a (?w @ c)"
      using r(5) t(1) stored_append [of "fmem s" a ?w c] \<open>a + length ?w = a + 4\<close> by metis
    ultimately show ?thesis using r t buf
      by (intro exI [of _ "?w @ c"] exI [of _ "Program a ?w # ps"]) simp
  qed
qed

lemma intFlashWrite_effect:
  assumes b: "blank (fmem s) a (length buf)" and u: "can_unlock s"
    and w: "intFlashWrite hw a buf s = (ret, s')"
  shows "ret = FLASH_RETURN_SUCCESS" "fmem s' = stored (fmem s) a buf" "unlock_works s' = unlock_works s" "CR_LOCK s'"
    "\<exists>ps. ops s' = ops s @ ps \<and> (\<forall>p\<in>set ps. word_in (a - a mod 4) (a + length buf + 3) p)"
proof -
  obtain ok s0 where s0: "intFlashUnlock s = (ok, s0)" by fastforce
  note un = unlock_effect [OF s0]
  obtain a1 buf1 s1 where h: "write_head hw a buf s0 = (a1, buf1, s1)" by (metis prod_cases3)
  have head: "\<exists>b0 ps. buf = b0 @ buf1 \<and> a1 = a + length b0 \<and> fmem s1 = stored (fmem s) a b0 \<and> ops s1 = ops s @ ps \<and>
      unlock_works s1 = unlock_works s \<and> (\<forall>p\<in>set ps. word_in (a - a mod 4) (a + length buf + 3) p) \<and> (buf1 = [] \<or> a1 mod 4 = 0)"
  proof (cases "a mod 4 = 0 \<or> buf = []")
    case True
    show ?thesis
    proof (cases "a mod 4 = 0")
      case True
      then have "a1 = a" "buf1 = buf" "s1 = s0" using h by (simp_all add: write_head_def)
      with un True show ?thesis by (intro exI [of _ "[]"]) simp
    next
      case False
      with True have e: "buf = []" by simp
      let ?al = "a - a mod 4"
      have p: "hw (Program ?al (read4 (fmem s0) ?al)) (fmem s0) = fmem s0"
        using program_patch [of 0 "[]" "fmem s0" ?al] by (simp add: blank_def)
      have "take (a mod 4) (read4 (fmem s0) ?al) @ drop (a mod 4) (read4 (fmem s0) ?al) = read4 (fmem s0) ?al" by simp
      then have "a1 = a" "buf1 = []" "s1 = intFlashWriteData hw ?al (read4 (fmem s0) ?al) s0"
        using h False e by (auto simp: write_head_def Let_def)
      moreover have "word_in ?al (a + 3) (Program ?al d)" for d 
      proof -
        have "a - a mod 4 + 4 \<le> a + 3" using False mod_less_eq_dividend [of a 4] by linarith
        then show ?thesis unfolding word_in_def by blast
      qed
      ultimately show ?thesis using un p e
        by (intro exI [of _ "[]"] exI [of _ "[Program ?al (read4 (fmem s0) ?al)]"]) (simp add: intFlashWriteData_def)
    qed
  next
    case False
    let ?o = "a mod 4"
    let ?al = "a - ?o"
    let ?k = "min (4 - ?o) (length buf)"
    let ?tmp = "take ?o (read4 (fmem s0) ?al) @ take ?k buf @ drop (?o + ?k) (read4 (fmem s0) ?al)"
    have o: "0 < ?o" "?o < 4" "?o \<le> a" "?al + ?o = a" using False by simp_all
    have e: "a1 = a + ?k" "buf1 = drop ?k buf" "s1 = intFlashWriteData hw ?al ?tmp s0"
      using h False by (auto simp: write_head_def Let_def min_def split: if_splits)
    have lk: "length (take ?k buf) = ?k" "?o + ?k \<le> 4" using o(2) by auto
    have "blank (fmem s0) (?al + ?o) (length (take ?k buf))"
      using b un unfolding o(4) blank_def lk(1) by simp
    from program_patch [OF _ this] lk have p: "fmem s1 = stored (fmem s) a (take ?k buf)"
      using un o(4) by (simp add: e(3) intFlashWriteData_def)
    have "word_in ?al (a + length buf + 3) (Program ?al ?tmp)"
      unfolding word_in_def using o by (intro exI [of _ ?al] exI [of _ ?tmp]) auto
    moreover have "buf1 = [] \<or> a1 mod 4 = 0"
    proof (cases "length buf \<le> 4 - ?o")
      case False
      then have "a1 = a + (4 - ?o)" by (simp add: e(1))
      also have "\<dots> = ?al + 4" using o by linarith
      finally show ?thesis using minus_mod_eq_mult_div [of a 4] by (simp add: mod_add_self2)
    qed (simp add: e(2))
    moreover have "buf = take ?k buf @ buf1" "a1 = a + length (take ?k buf)" by (simp_all only: e append_take_drop_id lk(1))
    moreover have "ops s1 = ops s @ [Program ?al ?tmp]" "unlock_works s1 = unlock_works s"
      by (simp_all only: e(3) intFlashWriteData_def hw_do_simps un)
    moreover have "\<forall>p\<in>set [Program ?al ?tmp]. word_in ?al (a + length buf + 3) p" using calculation(1) by simp
    ultimately show ?thesis using p
      by - (rule exI [of _ "take ?k buf"], rule exI [of _ "[Program ?al ?tmp]"], intro conjI)
  qed
  then obtain b0 ps0 where h1: "buf = b0 @ buf1" "a1 = a + length b0" "fmem s1 = stored (fmem s) a b0" "ops s1 = ops s @ ps0"
    "unlock_works s1 = unlock_works s" "\<forall>p\<in>set ps0. word_in (a - a mod 4) (a + length buf + 3) p" "buf1 = [] \<or> a1 mod 4 = 0"
    by (elim exE conjE) (rule that; assumption)
  obtain a2 buf2 s2 where w2: "write_words hw a1 buf1 s1 = (a2, buf2, s2)" by (metis prod_cases3)
  have bl1: "blank (fmem s1) a1 (length buf1)" using blank_split(2) [OF b [unfolded h1(1)]] by (simp only: h1(2,3))
  from write_words_effect [OF bl1 w2] obtain b1 ps1 where m: "buf1 = b1 @ buf2" "a2 = a1 + length b1" "length b1 mod 4 = 0"
    "length buf2 < 4" "fmem s2 = stored (fmem s1) a1 b1" "ops s2 = ops s1 @ ps1" "\<forall>p\<in>set ps1. word_in a1 a2 p"
    "unlock_works s2 = unlock_works s1" by (elim exE conjE) (rule that; assumption)
  have m2: "fmem s2 = stored (fmem s) a (b0 @ b1)" using m(5) h1(2,3) by (simp add: stored_append)
  have bl2: "blank (fmem s2) a2 (length buf2)"
    using blank_split(2) [OF b [unfolded h1(1) m(1) append_assoc [symmetric]]]
    by (simp only: m2 m(2) h1(2) length_append add.assoc)
  define tmp where "tmp = buf2 @ drop (length buf2) (read4 (fmem s2) a2)"
  define s3 where "s3 = (if length buf2 > 0 then intFlashWriteData hw a2 tmp s2 else s2)"
  have "hw (Program a2 tmp) (fmem s2) = stored (fmem s2) a2 buf2"
    using program_patch [of 0 buf2 "fmem s2" a2] m(4) bl2 by (simp add: tmp_def)
  then have f3: "fmem s3 = stored (fmem s2) a2 buf2" by (auto simp: s3_def intFlashWriteData_def)
  have "length buf = length b0 + length b1 + length buf2" by (simp add: h1(1) m(1))
  then have end3: "a2 + length buf2 = a + length buf" using h1(2) m(2) by simp
  have wi: "word_in (a - a mod 4) (a + length buf + 3) p" if "p \<in> set ps1" for p
    using m(7) that end3 h1(2) unfolding word_in_def by fastforce
  have wl: "word_in (a - a mod 4) (a + length buf + 3) (Program a2 tmp)" if "buf2 \<noteq> []"
  proof -
    have "1 \<le> length buf2" using that by (cases buf2) simp_all
    then have "a - a mod 4 \<le> a2" "a2 + 4 \<le> a + length buf + 3" using end3 h1(2) m(2) by linarith+
    then show ?thesis by (auto simp: word_in_def)
  qed
  have r: "ret = FLASH_RETURN_SUCCESS" "s' = intFlashLock s3"
    using w u un h w2 by (auto simp: intFlashWrite_def s0 Let_def s3_def tmp_def split: if_splits)
  show "ret = FLASH_RETURN_SUCCESS" "CR_LOCK s'" by (simp_all add: r intFlashLock_def)
  show "fmem s' = stored (fmem s) a buf"
    using f3 m2 stored_append [of "fmem s" a "b0 @ b1" buf2] h1(1,2) m(1,2) by (simp add: r(2) add.assoc)
  show "unlock_works s' = unlock_works s" using m(8) h1(5) by (simp add: r(2) s3_def intFlashWriteData_def)
  show "\<exists>ps. ops s' = ops s @ ps \<and> (\<forall>p\<in>set ps. word_in (a - a mod 4) (a + length buf + 3) p)"
    using h1(4,6) m(6) wi wl
    by (intro exI [of _ "ps0 @ ps1 @ (if buf2 = [] then [] else [Program a2 tmp])"]) (auto simp: r(2) s3_def intFlashWriteData_def)
qed

text \<open>The memory after the addresses from \<open>lo\<close> to \<open>hi\<close> were erased.\<close>

lemma erase_sector: "k < n \<Longrightarrow>
    hw (Erase k) m = (\<lambda>x. if intFlashSectorBegin ssz k \<le> x \<and> x < intFlashSectorBegin ssz (Suc k) then 0xFF else m x)"
  using erase_ones [of k] erase_frame [of k] by (auto simp: sectorBegin_Suc)

lemma intFlashSectorErase_effect:
  assumes "k < n" "can_unlock s"
  shows "\<exists>s'. intFlashSectorErase hw ssz k s = (FLASH_RETURN_SUCCESS, s') \<and> fmem s' = hw (Erase k) (fmem s) \<and>
    ops s' = ops s @ [Erase k] \<and> unlock_works s' = unlock_works s \<and> CR_LOCK s'"
proof -
  obtain ok s0 where s0: "intFlashUnlock s = (ok, s0)" by fastforce
  note un = unlock_effect [OF s0]
  have "k mod 32 = k" using assms(1) sectors by (simp add: sectors_def)
  moreover have "intFlashIsErased (hw (Erase k) (fmem s)) (intFlashSectorBegin ssz k) (ssz k)"
    using assms(1) by (simp add: intFlashIsErased_iff erase_ones)
  ultimately show ?thesis using un assms(2)
    by (simp add: intFlashSectorErase_def s0 Let_def) (simp add: intFlashLock_def)
qed

lemma begin_sector: "k < n \<Longrightarrow> intFlashSectorAt ssz (intFlashSectorBegin ssz k) = Some k"
  using sectorAt_in [OF sectors, of k "intFlashSectorBegin ssz k"] sectors by (simp add: sectors_def)

lemma intFlashErase_effect:
  assumes "0 < sz" "k < n" "intFlashSectorBegin ssz k + sz \<le> flash_end n ssz" "unlock_works s"
  shows "\<exists>j s'. intFlashErase hw ssz (intFlashSectorBegin ssz k) sz s = Some (FLASH_RETURN_SUCCESS, s') \<and>
    k \<le> j \<and> j < n \<and> intFlashSectorBegin ssz j < intFlashSectorBegin ssz k + sz \<and>
    intFlashSectorBegin ssz k + sz \<le> intFlashSectorBegin ssz (Suc j) \<and>
    ops s' = ops s @ map Erase [k..<Suc j] \<and> unlock_works s' \<and>
    fmem s' = (\<lambda>x. if intFlashSectorBegin ssz k \<le> x \<and> x < intFlashSectorBegin ssz (Suc j) then 0xFF else fmem s x)"
  using assms
proof (induction sz arbitrary: k s rule: less_induct)
  case (less sz)
  let ?b = "intFlashSectorBegin ssz"
  have "can_unlock s" using less.prems(4) by (simp add: can_unlock_def)
  from intFlashSectorErase_effect [OF less.prems(2) this] obtain s1 where
    e: "intFlashSectorErase hw ssz k s = (FLASH_RETURN_SUCCESS, s1)" and f: "fmem s1 = hw (Erase k) (fmem s)"
    and o1: "ops s1 = ops s @ [Erase k]" "unlock_works s1 = unlock_works s" by blast
  have en: "intFlashSectorEnd ssz k = ?b (Suc k)" using less.prems(2) sectors by (simp add: sectorEnd_eq sectorBegin_Suc sectors_def)
  have pos: "0 < ssz k" using less.prems(2) sectors by (simp add: sectors_def)
  have unf: "intFlashErase hw ssz (?b k) sz s =
      (if ssz k \<ge> sz then Some (FLASH_RETURN_SUCCESS, s1) else intFlashErase hw ssz (?b (Suc k)) (sz - ssz k) s1)"
    using less.prems(1,2) by (subst intFlashErase.simps) (simp add: begin_sector e en)
  show ?case
  proof (cases "ssz k \<ge> sz")
    case True
    then show ?thesis
      using unf o1 f less.prems by (intro exI [of _ k] exI [of _ s1]) (auto simp: erase_sector sectorBegin_Suc)
  next
    case False
    have nx: "?b (Suc k) + (sz - ssz k) = ?b k + sz" using False by (simp add: sectorBegin_Suc)
    have "Suc k \<noteq> n"
    proof
      assume "Suc k = n"
      then have "flash_end n ssz = ?b k + ssz k" unfolding flash_end_def sectorBegin_Suc [symmetric] by simp
      with False less.prems(3) show False by simp
    qed
    with less.prems(2) have "Suc k < n" by simp
    moreover have "0 < sz - ssz k" "sz - ssz k < sz" using False pos by simp_all
    ultimately obtain j s' where r: "intFlashErase hw ssz (?b (Suc k)) (sz - ssz k) s1 = Some (FLASH_RETURN_SUCCESS, s')"
      "Suc k \<le> j" "j < n" "?b j < ?b k + sz" "?b k + sz \<le> ?b (Suc j)" "ops s' = ops s1 @ map Erase [Suc k..<Suc j]" "unlock_works s'"
      "fmem s' = (\<lambda>x. if ?b (Suc k) \<le> x \<and> x < ?b (Suc j) then 0xFF else fmem s1 x)"
      using less.IH [of "sz - ssz k" "Suc k" s1] less.prems(3,4) o1(2) unfolding nx by auto
    have "?b k \<le> ?b (Suc k)" "?b (Suc k) \<le> ?b (Suc j)" using r(2) by (simp_all add: sectorBegin_mono)
    then have "fmem s' = (\<lambda>x. if ?b k \<le> x \<and> x < ?b (Suc j) then 0xFF else fmem s x)"
      unfolding r(8) f erase_sector [OF less.prems(2)] by (intro ext) auto
    moreover have "ops s' = ops s @ map Erase [k..<Suc j]"
      using r(2) by (simp add: r(6) o1 upt_conv_Cons)
    ultimately show ?thesis using r False unf by (intro exI [of _ j] exI [of _ s']) simp
  qed
qed

end

text \<open>A flash in order, for the witnesses: erased cells are ones, programming clears bits.\<close>

fun nor_apply :: "(nat \<Rightarrow> nat) \<Rightarrow> flash_hw" where
  "nor_apply ssz (Erase i) m =
     (\<lambda>x. if intFlashSectorBegin ssz i \<le> x \<and> x < intFlashSectorBegin ssz i + ssz i then 0xFF else m x)"
| "nor_apply ssz (Program a d) m = (\<lambda>x. if a \<le> x \<and> x < a + 4 then m x AND d ! (x - a) else m x)"

lemma nor_apply_flash: "sectors n ssz \<Longrightarrow> nor_flash (nor_apply ssz) ssz n"
  by unfold_locales auto

interpretation f4_flash: nor_flash "nor_apply flashSectorSize_f4" flashSectorSize_f4 24
  by (rule nor_apply_flash) (rule sectors_f4)

interpretation f7_flash: nor_flash "nor_apply flashSectorSize_f7" flashSectorSize_f7 24
  by (rule nor_apply_flash) (rule sectors_f7)

text \<open>The address only selects the first sector.\<close>

lemma intFlashErase_same_sector:
  assumes "sectors n ssz" "k < n" "intFlashSectorBegin ssz k \<le> a" "a < intFlashSectorBegin ssz (Suc k)"
  shows "intFlashErase hw ssz a sz s = intFlashErase hw ssz (intFlashSectorBegin ssz k) sz s"
proof -
  have "intFlashSectorAt ssz a = Some k" using assms by (simp add: sectorAt_in sectorBegin_Suc)
  moreover have "intFlashSectorAt ssz (intFlashSectorBegin ssz k) = Some k"
    using assms by (simp add: sectorAt_in sectorBegin_Suc)
  ultimately show ?thesis by (subst (1 2) intFlashErase.simps) simp
qed

subsection \<open>Properties\<close>

text \<open>
  C37: termination of the sector search. On a flash of \<open>n\<close> sectors (24 for the F4 and F7), the search
  returns exactly for the addresses below the end of the flash, and returns the one sector that
  contains the address. For an address at or above the end the 8-bit sector number wraps and the
  search never returns.
\<close>

theorem intFlashSectorAt_returns:
  assumes "sectors n ssz" "FLASH_BASE \<le> a"
  shows "(intFlashSectorAt ssz a = Some k \<longleftrightarrow>
            k < n \<and> intFlashSectorBegin ssz k \<le> a \<and> a < intFlashSectorEnd ssz k) \<and>
         (intFlashSectorAt ssz a = None \<longleftrightarrow> flash_end n ssz \<le> a)"
proof (rule conjI)
  have en: "intFlashSectorEnd ssz i = intFlashSectorBegin ssz i + ssz i" if "i < n" for i
    using assms(1) that by (simp add: sectorEnd_eq sectors_def)
  have ex: "\<exists>i < n. intFlashSectorAt ssz a = Some i \<and> intFlashSectorBegin ssz i \<le> a \<and> a < intFlashSectorEnd ssz i"
    if "a < flash_end n ssz"
    using sector_of [OF assms that] sectorAt_in [OF assms(1)] en by metis
  show "intFlashSectorAt ssz a = Some k \<longleftrightarrow>
      k < n \<and> intFlashSectorBegin ssz k \<le> a \<and> a < intFlashSectorEnd ssz k"
    using ex sectorAt_in [OF assms(1), of k a] en [of k] sectorAt_outside [OF assms(1), of a]
    by (metis not_less option.distinct(1) option.inject)
  show "intFlashSectorAt ssz a = None \<longleftrightarrow> flash_end n ssz \<le> a"
    using ex sectorAt_outside [OF assms(1)] by (metis not_less option.distinct(1))
qed

theorem intFlashSectorAt_returns_witness:
  "intFlashSectorAt flashSectorSize_f4 0x080E0000 = Some 11 \<and> intFlashSectorAt flashSectorSize_f4 0x08200000 = None"
proof -
  have "intFlashSectorBegin flashSectorSize_f4 11 = 0x080E0000" "intFlashSectorEnd flashSectorSize_f4 11 = 0x08100000"
    "flash_end 24 flashSectorSize_f4 = 0x08200000"
    by (simp_all add: flash_end_def intFlashSectorEnd_def sectorBegin_eval flashSectorSize_f4_def)
  then show ?thesis
    using intFlashSectorAt_returns [OF sectors_f4, of "0x080E0000" 11] intFlashSectorAt_returns [OF sectors_f4, of "0x08200000"]
    by (simp add: FLASH_BASE_def)
qed

text \<open>
  The effect of an erase, against the contract of a flash in order. For any address in
  sector \<open>k\<close>, erasing succeeds and blanks the whole sectors from \<open>k\<close> up to the one that holds
  \<open>start of sector k + sz\<close>, each erased once and in order, and changes nothing else. The span the
  comment promises, \<open>sz\<close> bytes from \<open>address\<close>, is blank if the address is the start of a sector;
  otherwise its tail can lie in a sector that was not erased.
\<close>

theorem intFlashErase_clears_sectors:
  assumes "nor_flash hw ssz n" "0 < sz" "k < n" "intFlashSectorBegin ssz k \<le> a" "a < intFlashSectorBegin ssz (Suc k)"
    "intFlashSectorBegin ssz k + sz \<le> flash_end n ssz" "unlock_works s"
  shows "\<exists>j s'. intFlashErase hw ssz a sz s = Some (FLASH_RETURN_SUCCESS, s') \<and> k \<le> j \<and> j < n \<and>
    intFlashSectorBegin ssz j < intFlashSectorBegin ssz k + sz \<and> intFlashSectorBegin ssz k + sz \<le> intFlashSectorBegin ssz (Suc j) \<and>
    ops s' = ops s @ map Erase [k..<Suc j] \<and>
    fmem s' = (\<lambda>x. if intFlashSectorBegin ssz k \<le> x \<and> x < intFlashSectorBegin ssz (Suc j) then 0xFF else fmem s x)"
proof -
  have "sectors n ssz" using assms(1) by (simp add: nor_flash_def flash_frame_def)
  from intFlashErase_same_sector [OF this assms(3-5)] nor_flash.intFlashErase_effect [OF assms(1-3,6,7)]
  show ?thesis by (elim exE) (intro exI, elim conjE, intro conjI; (assumption | simp))
qed

text \<open>16 KB from the middle of sector 0 of an F4: sector 1, with half of the span, is not erased.\<close>

theorem intFlashErase_clears_sectors_witness:
  "\<exists>s'. intFlashErase (nor_apply flashSectorSize_f4) flashSectorSize_f4 0x08002000 0x4000
      \<lparr>fmem = \<lambda>x. 0, CR_LOCK = True, unlock_works = True, ops = []\<rparr> = Some (FLASH_RETURN_SUCCESS, s') \<and>
    ops s' = [Erase 0] \<and> fmem s' 0x08004000 = 0"
proof -
  let ?b = "intFlashSectorBegin flashSectorSize_f4"
  have b: "?b 0 = 0x08000000" "?b 1 = 0x08004000" "?b (Suc 0) = 0x08004000" by (simp_all add: sectorBegin_eval flashSectorSize_f4_def)
  have "?b 1 \<le> ?b 24" by (rule sectorBegin_mono) simp
  then have "0x08004000 \<le> flash_end 24 flashSectorSize_f4" by (simp add: flash_end_def b)
  then obtain j s' where r: "intFlashErase (nor_apply flashSectorSize_f4) flashSectorSize_f4 0x08002000 0x4000
      \<lparr>fmem = \<lambda>x. 0, CR_LOCK = True, unlock_works = True, ops = []\<rparr> = Some (FLASH_RETURN_SUCCESS, s')"
    "?b j < 0x08004000" "ops s' = map Erase [0..<Suc j]"
    "fmem s' = (\<lambda>x. if 0x08000000 \<le> x \<and> x < ?b (Suc j) then 0xFF
       else fmem \<lparr>fmem = \<lambda>x. 0, CR_LOCK = True, unlock_works = True, ops = []\<rparr> x)"
    using intFlashErase_clears_sectors [OF f4_flash.nor_flash_axioms, where sz = "0x4000" and k = "0" and a = "0x08002000" and s =
        "\<lparr>fmem = \<lambda>x. 0, CR_LOCK = True, unlock_works = True, ops = []\<rparr>"] by (auto simp: b)
  have "j = 0" using r(2) b(2) sectorBegin_mono [of 1 j flashSectorSize_f4] by (cases "1 \<le> j") simp_all
  with r show ?thesis by (intro exI [of _ s']) (simp add: b)
qed

text \<open>
  C21: the effect of a write, at any alignment and for any length, on memory that is blank where the
  buffer goes: it succeeds and stores exactly the buffer, the neighbouring bytes of the first and
  last word included, and programs only words that meet the span.
\<close>

theorem intFlashWrite_stores:
  assumes "nor_flash hw ssz n" "blank (fmem s) a (length buf)" "can_unlock s" "intFlashWrite hw a buf s = (ret, s')"
  shows "ret = FLASH_RETURN_SUCCESS \<and>
    fmem s' = (\<lambda>x. if a \<le> x \<and> x < a + length buf then buf ! (x - a) else fmem s x) \<and>
    (\<exists>ps. ops s' = ops s @ ps \<and> (\<forall>p\<in>set ps. word_in (a - a mod 4) (a + length buf + 3) p)) \<and> CR_LOCK s'"
  using nor_flash.intFlashWrite_effect [OF assms] by (simp_all add: stored_def)

theorem intFlashWrite_stores_witness:
  "fmem (snd (intFlashWrite (nor_apply flashSectorSize_f4) 0x08000003 [1, 2, 3, 4, 5, 6, 7]
      \<lparr>fmem = \<lambda>x. 0xFF, CR_LOCK = True, unlock_works = True, ops = []\<rparr>)) 0x08000009 = 7"
proof -
  let ?s = "\<lparr>fmem = \<lambda>x. 0xFF, CR_LOCK = True, unlock_works = True, ops = []\<rparr>"
  obtain ret s' where w: "intFlashWrite (nor_apply flashSectorSize_f4) 0x08000003 [1, 2, 3, 4, 5, 6, 7] ?s = (ret, s')" by fastforce
  show ?thesis unfolding w
    using intFlashWrite_stores [OF f4_flash.nor_flash_axioms _ _ w] by (simp add: blank_def can_unlock_def)
qed

end
