(* ===== verification/Crc.thy ===== *)
theory Crc
  imports Prelude
begin

text \<open>
  The checksums of src/firmware/util/math/crc.c: the bitwise \<open>calc_crc\<close> that guards the persistent
  settings, and the table-driven \<open>crc32\<close> / \<open>crc32inc\<close> of the tuning protocol.  A buffer is the
  list of its bytes; the lengths are arguments as in the code.
\<close>

definition TOPBIT :: u8 where
  "TOPBIT = 0x80"

definition POLYNOMIAL :: u8 where
  "POLYNOMIAL = 0xD8"

text \<open>The inner loop of \<open>calc_crc\<close> (\<open>n\<close> is the counter) and the loop over the bytes.\<close>

primrec calc_crc_bits :: "nat \<Rightarrow> u8 \<Rightarrow> u8" where
  "calc_crc_bits 0 remainder = remainder"
| "calc_crc_bits (Suc n) remainder =
     calc_crc_bits n (if remainder AND TOPBIT \<noteq> 0 then push_bit 1 remainder XOR POLYNOMIAL
                        else push_bit 1 remainder)"

primrec calc_crc_loop :: "u8 list \<Rightarrow> u8 \<Rightarrow> u8" where
  "calc_crc_loop [] remainder = remainder"
| "calc_crc_loop (b # bs) remainder = calc_crc_loop bs (calc_crc_bits 8 (remainder XOR b))"

definition calc_crc :: "u8 list \<Rightarrow> int \<Rightarrow> u8" where
  "calc_crc message nBytes = calc_crc_loop (take (nat nBytes) message) 0"

definition crc32_tab :: "u32 list" where
  "crc32_tab =
    [0x00000000, 0x77073096, 0xee0e612c, 0x990951ba, 0x076dc419, 0x706af48f, 0xe963a535, 0x9e6495a3,
     0x0edb8832, 0x79dcb8a4, 0xe0d5e91e, 0x97d2d988, 0x09b64c2b, 0x7eb17cbd, 0xe7b82d07, 0x90bf1d91,
     0x1db71064, 0x6ab020f2, 0xf3b97148, 0x84be41de, 0x1adad47d, 0x6ddde4eb, 0xf4d4b551, 0x83d385c7,
     0x136c9856, 0x646ba8c0, 0xfd62f97a, 0x8a65c9ec, 0x14015c4f, 0x63066cd9, 0xfa0f3d63, 0x8d080df5,
     0x3b6e20c8, 0x4c69105e, 0xd56041e4, 0xa2677172, 0x3c03e4d1, 0x4b04d447, 0xd20d85fd, 0xa50ab56b,
     0x35b5a8fa, 0x42b2986c, 0xdbbbc9d6, 0xacbcf940, 0x32d86ce3, 0x45df5c75, 0xdcd60dcf, 0xabd13d59,
     0x26d930ac, 0x51de003a, 0xc8d75180, 0xbfd06116, 0x21b4f4b5, 0x56b3c423, 0xcfba9599, 0xb8bda50f,
     0x2802b89e, 0x5f058808, 0xc60cd9b2, 0xb10be924, 0x2f6f7c87, 0x58684c11, 0xc1611dab, 0xb6662d3d,
     0x76dc4190, 0x01db7106, 0x98d220bc, 0xefd5102a, 0x71b18589, 0x06b6b51f, 0x9fbfe4a5, 0xe8b8d433,
     0x7807c9a2, 0x0f00f934, 0x9609a88e, 0xe10e9818, 0x7f6a0dbb, 0x086d3d2d, 0x91646c97, 0xe6635c01,
     0x6b6b51f4, 0x1c6c6162, 0x856530d8, 0xf262004e, 0x6c0695ed, 0x1b01a57b, 0x8208f4c1, 0xf50fc457,
     0x65b0d9c6, 0x12b7e950, 0x8bbeb8ea, 0xfcb9887c, 0x62dd1ddf, 0x15da2d49, 0x8cd37cf3, 0xfbd44c65,
     0x4db26158, 0x3ab551ce, 0xa3bc0074, 0xd4bb30e2, 0x4adfa541, 0x3dd895d7, 0xa4d1c46d, 0xd3d6f4fb,
     0x4369e96a, 0x346ed9fc, 0xad678846, 0xda60b8d0, 0x44042d73, 0x33031de5, 0xaa0a4c5f, 0xdd0d7cc9,
     0x5005713c, 0x270241aa, 0xbe0b1010, 0xc90c2086, 0x5768b525, 0x206f85b3, 0xb966d409, 0xce61e49f,
     0x5edef90e, 0x29d9c998, 0xb0d09822, 0xc7d7a8b4, 0x59b33d17, 0x2eb40d81, 0xb7bd5c3b, 0xc0ba6cad,
     0xedb88320, 0x9abfb3b6, 0x03b6e20c, 0x74b1d29a, 0xead54739, 0x9dd277af, 0x04db2615, 0x73dc1683,
     0xe3630b12, 0x94643b84, 0x0d6d6a3e, 0x7a6a5aa8, 0xe40ecf0b, 0x9309ff9d, 0x0a00ae27, 0x7d079eb1,
     0xf00f9344, 0x8708a3d2, 0x1e01f268, 0x6906c2fe, 0xf762575d, 0x806567cb, 0x196c3671, 0x6e6b06e7,
     0xfed41b76, 0x89d32be0, 0x10da7a5a, 0x67dd4acc, 0xf9b9df6f, 0x8ebeeff9, 0x17b7be43, 0x60b08ed5,
     0xd6d6a3e8, 0xa1d1937e, 0x38d8c2c4, 0x4fdff252, 0xd1bb67f1, 0xa6bc5767, 0x3fb506dd, 0x48b2364b,
     0xd80d2bda, 0xaf0a1b4c, 0x36034af6, 0x41047a60, 0xdf60efc3, 0xa867df55, 0x316e8eef, 0x4669be79,
     0xcb61b38c, 0xbc66831a, 0x256fd2a0, 0x5268e236, 0xcc0c7795, 0xbb0b4703, 0x220216b9, 0x5505262f,
     0xc5ba3bbe, 0xb2bd0b28, 0x2bb45a92, 0x5cb36a04, 0xc2d7ffa7, 0xb5d0cf31, 0x2cd99e8b, 0x5bdeae1d,
     0x9b64c2b0, 0xec63f226, 0x756aa39c, 0x026d930a, 0x9c0906a9, 0xeb0e363f, 0x72076785, 0x05005713,
     0x95bf4a82, 0xe2b87a14, 0x7bb12bae, 0x0cb61b38, 0x92d28e9b, 0xe5d5be0d, 0x7cdcefb7, 0x0bdbdf21,
     0x86d3d2d4, 0xf1d4e242, 0x68ddb3f8, 0x1fda836e, 0x81be16cd, 0xf6b9265b, 0x6fb077e1, 0x18b74777,
     0x88085ae6, 0xff0f6a70, 0x66063bca, 0x11010b5c, 0x8f659eff, 0xf862ae69, 0x616bffd3, 0x166ccf45,
     0xa00ae278, 0xd70dd2ee, 0x4e048354, 0x3903b3c2, 0xa7672661, 0xd06016f7, 0x4969474d, 0x3e6e77db,
     0xaed16a4a, 0xd9d65adc, 0x40df0b66, 0x37d83bf0, 0xa9bcae53, 0xdebb9ec5, 0x47b2cf7f, 0x30b5ffe9,
     0xbdbdf21c, 0xcabac28a, 0x53b39330, 0x24b4a3a6, 0xbad03605, 0xcdd70693, 0x54de5729, 0x23d967bf,
     0xb3667a2e, 0xc4614ab8, 0x5d681b02, 0x2a6f2b94, 0xb40bbe37, 0xc30c8ea1, 0x5a05df1b, 0x2d02ef8d]"

primrec crc32inc_loop :: "nat \<Rightarrow> u8 list \<Rightarrow> u32 \<Rightarrow> u32" where
  "crc32inc_loop 0 p crc = crc"
| "crc32inc_loop (Suc n) p crc =
     crc32inc_loop n (tl p) (crc32_tab ! unat ((crc XOR ucast (hd p)) AND 0xFF) XOR drop_bit 8 crc)"

definition crc32inc :: "u8 list \<Rightarrow> u32 \<Rightarrow> u32 \<Rightarrow> u32" where
  "crc32inc buf crc sz = crc32inc_loop (unat sz) buf (crc XOR 0xFFFFFFFF) XOR 0xFFFFFFFF"

definition crc32 :: "u8 list \<Rightarrow> u32 \<Rightarrow> u32" where
  "crc32 buf sz = crc32inc buf 0 sz"

subsection \<open>The 8-bit checksum is linear\<close>

text \<open>
  The combinations of a list of words, in the order of the table index whose bits select them;
  a linear map commutes with it, which turns a table of 256 entries into eight evaluations.
\<close>

primrec xor_span :: "'a::len word list \<Rightarrow> 'a word list" where
  "xor_span [] = [0]"
| "xor_span (c # cs) = xor_span cs @ map (\<lambda>x. x XOR c) (xor_span cs)"

lemma map_xor_span:
  assumes "\<And>a b. f (a XOR b) = f a XOR f b" "f 0 = 0"
  shows "map f (xor_span cs) = xor_span (map f cs)"
proof (induction cs)
  case (Cons c cs)
  have "map f (map (\<lambda>x. x XOR c) xs) = map (\<lambda>x. x XOR f c) (map f xs)" for xs
    by (simp add: assms(1) o_def)
  with Cons show ?case by (simp del: map_map)
qed (simp add: assms(2))

lemma bytes_upt: "[0..<256] = 0 # 1 # [2..<256]"
  by (simp add: upt_conv_Cons)

lemma xor_span_u8: "map word_of_nat [0..<256] = xor_span [128, 64, 32, 16, 8, 4, 2, 1 :: u8]"
  unfolding bytes_upt by simp

lemma xor_span_u32: "map word_of_nat [0..<256] = xor_span [128, 64, 32, 16, 8, 4, 2, 1 :: u32]"
  unfolding bytes_upt by simp

lemma u8_span: "x \<in> set (xor_span [128, 64, 32, 16, 8, 4, 2, 1 :: u8])"
proof -
  have "unat x < 256" using unsigned_less [of x] by simp
  then have "word_of_nat (unat x) \<in> (word_of_nat :: nat \<Rightarrow> u8) ` set [0..<256]"
    by (intro imageI) simp
  then show ?thesis by (simp only: flip: xor_span_u8 set_map) simp
qed

lemma zip_map_self: "x \<in> set xs \<Longrightarrow> (x, f x) \<in> set (zip xs (map f xs))"
  by (induction xs) auto

definition crc_bit :: "u8 \<Rightarrow> u8" where
  "crc_bit r = (if bit r 7 then push_bit 1 r XOR POLYNOMIAL else push_bit 1 r)"

lemma and_TOPBIT: "r AND TOPBIT \<noteq> 0 \<longleftrightarrow> bit r 7"
  by (simp add: TOPBIT_def and_exp_eq_0_iff_not_bit [of _ 7, simplified])

lemma calc_crc_bits_iterate: "calc_crc_bits n r = (crc_bit ^^ n) r"
  by (induction n arbitrary: r) (simp_all add: crc_bit_def and_TOPBIT funpow_swap1)

lemma crc_bit_xor: "crc_bit (a XOR b) = crc_bit a XOR crc_bit b"
  by (auto simp: crc_bit_def push_bit_xor bit_xor_iff ac_simps)

lemma crc_bits_xor: "(crc_bit ^^ n) (a XOR b) = (crc_bit ^^ n) a XOR (crc_bit ^^ n) b"
  by (induction n) (simp_all add: crc_bit_xor)

definition crc_byte :: "u8 \<Rightarrow> u8" where
  "crc_byte r = (crc_bit ^^ 8) r"

lemma crc_byte_xor: "crc_byte (a XOR b) = crc_byte a XOR crc_byte b"
  by (simp only: crc_byte_def crc_bits_xor)

lemma crc_byte_0 [simp]: "crc_byte 0 = 0"
  using crc_byte_xor [of 0 0] by simp

lemma calc_crc_loop_Cons: "calc_crc_loop (b # bs) r = calc_crc_loop bs (crc_byte (r XOR b))"
  by (simp only: calc_crc_loop.simps calc_crc_bits_iterate crc_byte_def)

lemma calc_crc_loop_append: "calc_crc_loop (a @ b) r = calc_crc_loop b (calc_crc_loop a r)"
  by (induction a arbitrary: r) simp_all

text \<open>
  The generator has a factor \<open>x\<^sup>3\<close>: the multiples of its other factor vanish in the register,
  and what is left there has three trailing zeros.
\<close>

definition crc_kernel :: "u8 list" where
  "crc_kernel = [0x00, 0x3B, 0x76, 0x4D, 0xEC, 0xD7, 0x9A, 0xA1]"

lemma crc_byte_span:
  "map crc_byte (xor_span [128, 64, 32, 16, 8, 4, 2, 1]) =
   xor_span [0xE0, 0x70, 0x38, 0xF0, 0x78, 0xD0, 0x68, 0xD8]"
proof -
  have p: "(crc_bit ^^ 8) r = crc_bit (crc_bit (crc_bit (crc_bit (crc_bit (crc_bit (crc_bit (crc_bit r)))))))" for r
    by (simp add: eval_nat_numeral)
  have "map crc_byte [128, 64, 32, 16, 8, 4, 2, 1] = [0xE0, 0x70, 0x38, 0xF0, 0x78, 0xD0, 0x68, 0xD8]"
    by (simp add: crc_byte_def p crc_bit_def POLYNOMIAL_def)
  then show ?thesis by (simp only: map_xor_span crc_byte_xor crc_byte_0)
qed

lemma crc_byte_good: "crc_byte x AND 7 = 0 \<and> (crc_byte x = 0) = (x \<in> set crc_kernel)"
proof -
  let ?B = "[128, 64, 32, 16, 8, 4, 2, 1 :: u8]"
  let ?P = "\<lambda>(x, y). y AND 7 = 0 \<and> (y = 0) = (x \<in> set crc_kernel)"
  have "list_all ?P (zip (xor_span ?B) (map crc_byte (xor_span ?B)))"
    unfolding crc_byte_span by code_simp
  then have "?P (x, crc_byte x)"
    unfolding list_all_iff by (rule bspec) (rule zip_map_self [OF u8_span])
  then show ?thesis by simp
qed

lemma crc_byte_low: "crc_byte x AND 7 = 0"
  and crc_byte_eq_0: "crc_byte x = 0 \<longleftrightarrow> x \<in> set crc_kernel"
  using crc_byte_good [of x] by simp_all

lemma calc_crc_loop_xor:
  "calc_crc_loop ys (r XOR r') = calc_crc_loop ys r XOR (crc_byte ^^ length ys) r'"
proof (induction ys arbitrary: r r')
  case (Cons y ys)
  have "crc_byte ((r XOR r') XOR y) = crc_byte (r XOR y) XOR crc_byte r'"
    by (simp add: crc_byte_xor ac_simps)
  then show ?case by (simp only: calc_crc_loop_Cons Cons list.size funpow_Suc_right o_def add_Suc_right add_0_right)
qed simp

lemma crc_byte_survives: "x AND 7 = 0 \<Longrightarrow> (crc_byte ^^ n) x = 0 \<longleftrightarrow> x = 0"
proof (induction n arbitrary: x)
  case (Suc n)
  have "x \<in> set crc_kernel \<longleftrightarrow> x = 0" using Suc.prems by (auto simp: crc_kernel_def)
  with Suc.IH [OF crc_byte_low [of x]] show ?case
    by (simp add: funpow_Suc_right crc_byte_eq_0 del: funpow.simps)
qed simp

lemma xor_eq_self: "a XOR b = a \<longleftrightarrow> b = (0 :: 'a::len word)"
  by (metis xor.right_neutral xor.left_neutral xor_self_eq xor.assoc)

lemma xor_right_cancel: "a XOR c = b XOR c \<longleftrightarrow> a = (b :: 'a::len word)"
  by (metis xor.assoc xor_self_eq xor.right_neutral)

lemma xor_eq_0: "a XOR b = 0 \<longleftrightarrow> a = (b :: 'a::len word)"
  by (metis xor.left_neutral xor.right_neutral xor.assoc xor_self_eq)

subsection \<open>The 32-bit checksum against its bitwise definition\<close>

definition crc32_bit :: "u32 \<Rightarrow> u32" where
  "crc32_bit r = (if bit r 0 then drop_bit 1 r XOR 0xEDB88320 else drop_bit 1 r)"

definition crc32_byte :: "u32 \<Rightarrow> u32" where
  "crc32_byte r = (crc32_bit ^^ 8) r"

primrec crc32_reference :: "u8 list \<Rightarrow> u32 \<Rightarrow> u32" where
  "crc32_reference [] r = r"
| "crc32_reference (b # bs) r = crc32_reference bs (crc32_byte (r XOR ucast b))"

lemma crc32_bit_xor: "crc32_bit (a XOR b) = crc32_bit a XOR crc32_bit b"
  by (auto simp: crc32_bit_def drop_bit_xor bit_xor_iff ac_simps)

lemma crc32_bits_xor: "(crc32_bit ^^ n) (a XOR b) = (crc32_bit ^^ n) a XOR (crc32_bit ^^ n) b"
  by (induction n) (simp_all add: crc32_bit_xor)

lemma crc32_byte_xor: "crc32_byte (a XOR b) = crc32_byte a XOR crc32_byte b"
  by (simp only: crc32_byte_def crc32_bits_xor)

lemma crc32_byte_0 [simp]: "crc32_byte 0 = 0"
  using crc32_byte_xor [of 0 0] by simp

lemma crc32_tab_bytes: "crc32_tab = map crc32_byte (map word_of_nat [0..<256])"
proof -
  have p: "(crc32_bit ^^ 8) r = crc32_bit (crc32_bit (crc32_bit (crc32_bit (crc32_bit (crc32_bit (crc32_bit (crc32_bit r)))))))" for r
    by (simp add: eval_nat_numeral)
  have "map crc32_byte [128, 64, 32, 16, 8, 4, 2, 1] =
      [0xedb88320, 0x76dc4190, 0x3b6e20c8, 0x1db71064, 0x0edb8832, 0x076dc419, 0xee0e612c, 0x77073096]"
    by (simp add: crc32_byte_def p crc32_bit_def)
  then show ?thesis
    by (simp only: xor_span_u32 map_xor_span crc32_byte_xor crc32_byte_0) (simp add: crc32_tab_def)
qed

lemma crc32_tab_nth: "i < 256 \<Longrightarrow> crc32_tab ! i = crc32_byte (word_of_nat i)"
  by (simp add: crc32_tab_bytes)

lemma crc32_bit_shift:
  assumes "\<And>i. 31 - k \<le> i \<Longrightarrow> \<not> bit y i" and "k < 31"
  shows "crc32_bit (push_bit (Suc k) y) = push_bit k y"
proof -
  have "\<not> bit (push_bit (Suc k) y) 0" by (simp only: bit_push_bit_iff) simp
  then have "crc32_bit (push_bit (Suc k) y) = drop_bit 1 (push_bit (Suc k) y)"
    by (simp only: crc32_bit_def if_False)
  also have "\<dots> = push_bit k y"
  proof (rule bit_eqI)
    fix n assume n: "possible_bit TYPE(32 word) n"
    show "bit (drop_bit 1 (push_bit (Suc k) y)) n = bit (push_bit k y) n"
    proof (cases "Suc n < 32")
      case True
      with n show ?thesis unfolding bit_drop_bit_eq o_apply bit_push_bit_iff
        by (simp add: bit_push_bit_iff possible_bit_word)
    next
      case False
      with n have "n = 31" by simp
      with assms show ?thesis unfolding bit_drop_bit_eq o_apply bit_push_bit_iff by simp
    qed
  qed
  finally show ?thesis .
qed

lemma crc32_bits_shift:
  assumes "\<And>i. 24 \<le> i \<Longrightarrow> \<not> bit y i"
  shows "k \<le> 8 \<Longrightarrow> (crc32_bit ^^ k) (push_bit k y) = y"
proof (induction k)
  case (Suc k)
  have "(crc32_bit ^^ Suc k) (push_bit (Suc k) y) = (crc32_bit ^^ k) (crc32_bit (push_bit (Suc k) y))"
    by (simp only: funpow_Suc_right o_apply)
  also have "crc32_bit (push_bit (Suc k) y) = push_bit k y"
    using Suc.prems assms by (intro crc32_bit_shift) auto
  finally show ?case using Suc by simp
qed simp

lemma low_byte_split: "r = (r AND 0xFF) XOR push_bit 8 (drop_bit 8 r)" for r :: u32
proof (rule bit_eqI)
  have m: "(0xFF :: u32) = mask 8" by (simp add: mask_eq_exp_minus_1)
  fix n assume "possible_bit TYPE(32 word) n"
  then show "bit r n = bit ((r AND 0xFF) XOR push_bit 8 (drop_bit 8 r)) n"
    unfolding m bit_xor_iff bit_and_iff bit_mask_iff bit_push_bit_iff bit_drop_bit_eq o_apply by auto
qed

text \<open>One step of the table loop is eight steps of the bitwise division.\<close>

lemma table_step:
  "crc32_tab ! unat ((r XOR ucast b) AND 0xFF) XOR drop_bit 8 r = crc32_byte (r XOR ucast (b :: u8))"
proof -
  define x where "x = r XOR (ucast b :: u32)"
  have hi: "drop_bit 8 x = drop_bit 8 r" unfolding x_def
    by (rule bit_eqI) (auto simp: bit_simps dest: bit_imp_le_length)
  have lt: "unat (x AND 0xFF) < 256"
    using word_and_le1 [of x "0xFF"] by (simp add: word_le_nat_alt)
  have "crc32_byte x = crc32_byte (x AND 0xFF) XOR crc32_byte (push_bit 8 (drop_bit 8 x))"
    using low_byte_split [of x] crc32_byte_xor by metis
  also have "crc32_byte (push_bit 8 (drop_bit 8 x)) = drop_bit 8 x"
    unfolding crc32_byte_def
    by (rule crc32_bits_shift) (auto simp: bit_drop_bit_eq dest: bit_imp_le_length)
  also have "crc32_byte (x AND 0xFF) = crc32_tab ! unat (x AND 0xFF)"
    using crc32_tab_nth [OF lt] by simp
  finally show ?thesis using hi by (simp add: x_def)
qed

lemma crc32inc_loop_reference: "n \<le> length p \<Longrightarrow> crc32inc_loop n p r = crc32_reference (take n p) r"
proof (induction n arbitrary: p r)
  case (Suc n)
  then obtain b bs where "p = b # bs" by (cases p) auto
  with Suc show ?case by (simp add: table_step)
qed simp

lemma crc32_reference_append: "crc32_reference (a @ b) r = crc32_reference b (crc32_reference a r)"
  by (induction a arbitrary: r) simp_all

lemma crc32_reference_xor:
  "crc32_reference ys (r XOR r') = crc32_reference ys r XOR (crc32_byte ^^ length ys) r'"
proof (induction ys arbitrary: r r')
  case (Cons y ys)
  have "crc32_byte ((r XOR r') XOR ucast y) = crc32_byte (r XOR ucast y) XOR crc32_byte r'"
    by (simp add: crc32_byte_xor ac_simps)
  then show ?case
    by (simp only: crc32_reference.simps Cons list.size funpow_Suc_right o_def add_Suc_right add_0_right)
qed simp

lemma crc32_bit_eq_0: "crc32_bit r = 0 \<longleftrightarrow> r = 0"
proof
  assume z: "crc32_bit r = 0"
  have "\<not> bit r 0"
  proof
    assume "bit r 0"
    with z have "drop_bit 1 r = 0xEDB88320" unfolding crc32_bit_def by (simp only: if_True xor_eq_0)
    moreover have "\<not> bit (drop_bit 1 r) 31" unfolding bit_drop_bit_eq o_apply
      by (auto dest: bit_imp_le_length)
    ultimately show False by simp
  qed
  with z have d: "drop_bit 1 r = 0" by (simp add: crc32_bit_def)
  show "r = 0"
  proof (rule bit_eqI)
    fix n
    show "bit r n = bit 0 n"
    proof (cases n)
      case (Suc m)
      have "bit (drop_bit 1 r) m = False" using d by simp
      with Suc show ?thesis by (simp add: bit_drop_bit_eq)
    qed (use \<open>\<not> bit r 0\<close> in simp)
  qed
qed (simp add: crc32_bit_def)

lemma crc32_bits_eq_0: "(crc32_bit ^^ n) r = 0 \<longleftrightarrow> r = 0"
  by (induction n) (simp_all add: crc32_bit_eq_0)

lemma crc32_bytes_eq_0: "(crc32_byte ^^ n) r = 0 \<longleftrightarrow> r = 0"
  by (induction n) (simp_all add: crc32_byte_def crc32_bits_eq_0)

subsection \<open>Properties\<close>

text \<open>
  C22: the table-driven loop computes the CRC-32 of its bitwise definition (reflected generator
  0xEDB88320), for every buffer, start value and length within the buffer.
\<close>

theorem crc32inc_bitwise:
  assumes "unat n \<le> length buf"
  shows "crc32inc buf crc n =
    crc32_reference (take (unat n) buf) (crc XOR 0xFFFFFFFF) XOR 0xFFFFFFFF"
  using assms by (simp add: crc32inc_def crc32inc_loop_reference)

theorem crc32inc_bitwise_witness:
  "crc32inc [0x41, 0x42] 0 2 = crc32_reference [0x41, 0x42] 0xFFFFFFFF XOR 0xFFFFFFFF"
  using crc32inc_bitwise [of 2 "[0x41, 0x42]" 0] by simp

text \<open>
  The packet checksum of the tuning protocol: computed over the command byte and then,
  with \<open>crc32inc\<close>, over the payload, it is the CRC of the two put together.
\<close>

theorem crc32inc_concat:
  assumes "length a + length b < 2 ^ 32"
  shows "crc32inc b (crc32inc a crc (word_of_nat (length a))) (word_of_nat (length b)) =
    crc32inc (a @ b) crc (word_of_nat (length a + length b))"
proof -
  have u: "unat (word_of_nat n :: u32) = n" if "n < 2 ^ 32" for n
    using that by (simp add: unsigned_of_nat take_bit_nat_eq_self)
  have "crc32inc_loop (length xs) xs r = crc32_reference xs r" for xs r
    by (simp add: crc32inc_loop_reference)
  moreover have "crc32inc_loop (length a + length b) (a @ b) r = crc32_reference (a @ b) r" for r
    by (simp add: crc32inc_loop_reference)
  moreover have "unat (word_of_nat (length a) :: u32) = length a" "unat (word_of_nat (length b) :: u32) = length b"
    "unat (word_of_nat (length a + length b) :: u32) = length a + length b"
    using assms u by (auto simp del: of_nat_add)
  ultimately show ?thesis
    by (simp only: crc32inc_def crc32_reference_append) (simp add: ac_simps)
qed

theorem crc32inc_concat_witness:
  "crc32inc [0x42, 0x43] (crc32inc [0x41] 0 1) 2 = crc32inc [0x41, 0x42, 0x43] 0 3"
  using crc32inc_concat [of "[0x41]" "[0x42, 0x43]" 0] by simp

text \<open>
  C30: \<open>crc32\<close> detects every change of a single byte, wherever it is in the buffer.
\<close>

theorem crc32_detects_byte:
  assumes "unat n = length xs + 1 + length ys"
  shows "crc32 (xs @ b # ys) n = crc32 (xs @ b' # ys) n \<longleftrightarrow> b = b'"
proof
  assume eq: "crc32 (xs @ b # ys) n = crc32 (xs @ b' # ys) n"
  define r where "r = crc32_reference xs 0xFFFFFFFF"
  define z where "z = crc32_byte (r XOR ucast b)"
  define d where "d = crc32_byte (ucast b XOR ucast b')"
  have "r XOR (ucast b' :: u32) = (r XOR ucast b) XOR (ucast b XOR ucast b')"
    by (simp add: xor.assoc [symmetric]) (simp add: xor.assoc)
  then have z': "crc32_byte (r XOR ucast b') = z XOR d" by (simp only: crc32_byte_xor z_def d_def)
  have "crc32_reference (xs @ c # ys) 0xFFFFFFFF = crc32_reference ys (crc32_byte (r XOR ucast c))" for c
    by (simp add: crc32_reference_append r_def)
  then have crc: "crc32 (xs @ c # ys) n = crc32_reference ys (crc32_byte (r XOR ucast c)) XOR 0xFFFFFFFF" for c
    using assms by (simp add: crc32_def crc32inc_def crc32inc_loop_reference del: crc32inc_loop.simps)
  have "crc32_reference ys z XOR 0xFFFFFFFF = crc32_reference ys (z XOR d) XOR 0xFFFFFFFF"
    using eq unfolding crc z' z_def .
  then have "crc32_reference ys z XOR (crc32_byte ^^ length ys) d = crc32_reference ys z"
    unfolding xor_right_cancel crc32_reference_xor by (rule sym)
  then have "(crc32_byte ^^ length ys) d = 0" by (simp only: xor_eq_self)
  then have "(ucast b XOR ucast b' :: u32) = 0"
    by (simp add: crc32_bytes_eq_0 d_def crc32_byte_def crc32_bits_eq_0)
  then have "(ucast b :: u32) = ucast b'" by (simp only: xor_eq_0)
  moreover have "ucast (ucast x :: u32) = x" for x :: u8
    by (rule bit_eqI) (simp add: bit_simps)
  ultimately show "b = b'" by metis
qed simp

theorem crc32_detects_byte_witness: "crc32 [0x10, 0x20, 0x30] 3 \<noteq> crc32 [0x10, 0x21, 0x30] 3"
  using crc32_detects_byte [of 3 "[0x10]" "[0x30]" "0x20" "0x21"] by simp

text \<open>
  The settings checksum \<open>calc_crc\<close> misses exactly the changes of a byte by one of the
  seven non-zero members of \<open>crc_kernel\<close>, and its three low bits are always zero: it has 32
  values, not 256, because the generator lacks the constant term.
\<close>

theorem calc_crc_detects_byte:
  "(calc_crc (xs @ (b XOR d) # ys) (int (length xs + 1 + length ys)) =
      calc_crc (xs @ b # ys) (int (length xs + 1 + length ys)) \<longleftrightarrow> d \<in> set crc_kernel) \<and>
   calc_crc message nBytes AND 7 = 0"
proof -
  define r where "r = calc_crc_loop xs 0"
  have e: "calc_crc (xs @ c # ys) (int (length xs + 1 + length ys)) = calc_crc_loop ys (crc_byte (r XOR c))" for c
    by (simp add: calc_crc_def calc_crc_loop_append calc_crc_loop_Cons r_def nat_add_distrib
        del: calc_crc_loop.simps(2))
  have x: "crc_byte (r XOR (b XOR d)) = crc_byte (r XOR b) XOR crc_byte d"
    by (simp add: crc_byte_xor ac_simps)
  have "(crc_byte ^^ length ys) (crc_byte d) = 0 \<longleftrightarrow> crc_byte d = 0"
    by (rule crc_byte_survives [OF crc_byte_low])
  then have "calc_crc (xs @ (b XOR d) # ys) (int (length xs + 1 + length ys)) =
      calc_crc (xs @ b # ys) (int (length xs + 1 + length ys)) \<longleftrightarrow> d \<in> set crc_kernel"
    unfolding e x calc_crc_loop_xor xor_eq_self by (simp add: crc_byte_eq_0)
  moreover have "r AND 7 = 0 \<Longrightarrow> calc_crc_loop m r AND 7 = 0" for m r
    by (induction m arbitrary: r) (simp_all only: calc_crc_loop.simps(1) calc_crc_loop_Cons crc_byte_low)
  then have "calc_crc message nBytes AND 7 = 0" by (simp add: calc_crc_def)
  ultimately show ?thesis by blast
qed

end
