(* ===== verification/Flash_Main.thy ===== *)
theory Flash_Main
  imports Flash_Int Crc
begin

text \<open>
  The persistent settings, src/firmware/controllers/flash_main.cpp with flash_main.h and
  controllers/core/persistent_configuration.h: the container with version, size and checksum, its two copies
  in flash, the pending-write flag, and what is read at start-up.  The settings themselves
  (\<open>persistent_config_s\<close>, a generated structure of 20000 bytes) are their bytes; the routines that
  reset, apply and check them are the functions of \<open>config_ops\<close>.
\<close>

definition FLASH_DATA_VERSION :: i32 where "FLASH_DATA_VERSION = 10001"

datatype persisted_configuration_state_e =
  PC_OK | CRC_FAILED | INCOMPATIBLE_VERSION | RESET_REQUESTED | PC_ERROR

text \<open>The checksum is one byte; the compiler pads the structure to a multiple of four.\<close>

record container =
  version :: i32
  csize :: i32
  persistentConfiguration :: "u8 list"
  crc_value :: u8
  padding :: "u8 list"

definition i32_bytes :: "i32 \<Rightarrow> u8 list" where
  "i32_bytes w = [ucast w, ucast (drop_bit 8 w), ucast (drop_bit 16 w), ucast (drop_bit 24 w)]"

definition i32_of_bytes :: "u8 list \<Rightarrow> i32" where
  "i32_of_bytes b = ucast (b ! 0) OR push_bit 8 (ucast (b ! 1)) OR push_bit 16 (ucast (b ! 2)) OR push_bit 24 (ucast (b ! 3))"

definition container_bytes :: "container \<Rightarrow> u8 list" where
  "container_bytes c =
     i32_bytes (version c) @ i32_bytes (csize c) @ persistentConfiguration c @ [crc_value c] @ padding c"

definition container_of :: "nat \<Rightarrow> u8 list \<Rightarrow> container" where
  "container_of cfgLen b =
     \<lparr>version = i32_of_bytes (take 4 b), csize = i32_of_bytes (take 4 (drop 4 b)),
      persistentConfiguration = take cfgLen (drop 8 b), crc_value = b ! (8 + cfgLen), padding = drop (9 + cfgLen) b\<rparr>"

definition container_size :: "nat \<Rightarrow> nat" where
  "container_size cfgLen = cfgLen + 12"

record max_values =
  maxEventCallbackDuration :: u32
  triggerMaxDuration :: u32
  maxSchedulingPrecisionLoss :: u32
  maxLockedDuration :: u32
  maxPrecisionCallbackDuration :: u32

definition resetMaxValues :: "max_values \<Rightarrow> max_values" where
  "resetMaxValues v = v\<lparr>maxEventCallbackDuration := 0, triggerMaxDuration := 0, maxSchedulingPrecisionLoss := 0,
     maxLockedDuration := 0, maxPrecisionCallbackDuration := 0\<rparr>"

record settings_state =
  flash :: flash_state
  persistentState :: container
  needToWriteConfiguration :: bool
  maxima :: max_values
  console :: "string list"
  reports :: "string list"

record config_ops =
  engineType :: "u8 list \<Rightarrow> int"
  resetConfigurationExt :: "int \<Rightarrow> u8 list \<Rightarrow> u8 list"
  applyNonPersistentConfiguration :: "u8 list \<Rightarrow> u8 list"
  setFirmwareVersion :: "u8 list \<Rightarrow> u8 list"
  validateConfiguration :: "u8 list \<Rightarrow> u8 list"

text \<open>The board: the flash, its sectors, where the copies are, and the length of the settings.\<close>

record flash_board =
  controller :: flash_hw
  sectorSize :: "nat \<Rightarrow> nat"
  firstCopy :: nat
  secondCopy :: nat
  configLen :: nat

definition getFlashAddrFirstCopy_f4 :: nat where "getFlashAddrFirstCopy_f4 = 0x080E0000"
definition getFlashAddrSecondCopy_f4 :: nat where "getFlashAddrSecondCopy_f4 = 0x080C0000"
definition getFlashAddrFirstCopy_f7 :: nat where "getFlashAddrFirstCopy_f7 = 0x08100000"
definition getFlashAddrSecondCopy_f7 :: nat where "getFlashAddrSecondCopy_f7 = 0x08140000"
definition TOTAL_CONFIG_SIZE :: nat where "TOTAL_CONFIG_SIZE = 20000"

definition f4_board :: "flash_hw \<Rightarrow> flash_board" where
  "f4_board hw = \<lparr>controller = hw, sectorSize = flashSectorSize_f4, firstCopy = getFlashAddrFirstCopy_f4,
     secondCopy = getFlashAddrSecondCopy_f4, configLen = TOTAL_CONFIG_SIZE\<rparr>"

definition f7_board :: "flash_hw \<Rightarrow> flash_board" where
  "f7_board hw = \<lparr>controller = hw, sectorSize = flashSectorSize_f7, firstCopy = getFlashAddrFirstCopy_f7,
     secondCopy = getFlashAddrSecondCopy_f7, configLen = TOTAL_CONFIG_SIZE\<rparr>"

definition printMsg :: "string \<Rightarrow> settings_state \<Rightarrow> settings_state" where
  "printMsg msg s = s\<lparr>console := console s @ [msg]\<rparr>"

definition flashStateCrc :: "container \<Rightarrow> nat \<Rightarrow> u8" where
  "flashStateCrc state len = calc_crc (persistentConfiguration state) (int len)"

definition FLASH_SUCCESS_MSG :: string where "FLASH_SUCCESS_MSG = ''FLASH_SUCESS''"
definition FLASH_FAILED_MSG :: string where "FLASH_FAILED_MSG = ''Flashing failed''"

subsection \<open>Writing\<close>

definition eraseAndFlashCopy :: "flash_board \<Rightarrow> nat \<Rightarrow> u8 list \<Rightarrow> flash_state \<Rightarrow> (int \<times> flash_state) option" where
  "eraseAndFlashCopy bd storageAddress dat f =
     (case intFlashErase (controller bd) (sectorSize bd) storageAddress (length dat) f of
        None \<Rightarrow> None
      | Some (_, f) \<Rightarrow> Some (intFlashWrite (controller bd) storageAddress dat f))"

definition prepared :: "nat \<Rightarrow> container \<Rightarrow> container" where
  "prepared cfgLen c =
     (let c = c\<lparr>csize := word_of_nat (container_size cfgLen)\<rparr>;
          c = c\<lparr>version := FLASH_DATA_VERSION\<rparr>
      in c\<lparr>crc_value := flashStateCrc c cfgLen\<rparr>)"

definition writeToFlashNow :: "flash_board \<Rightarrow> settings_state \<Rightarrow> settings_state option" where
  "writeToFlashNow bd s =
     (let s = printMsg '' !!!!!!!!!!!!!!!!!!!! BE SURE NOT WRITE WITH IGNITION ON !!!!!!!!!!!!!!!!!!!!'' s;
          s = s\<lparr>persistentState := prepared (configLen bd) (persistentState s)\<rparr>;
          dat = container_bytes (persistentState s)
      in case eraseAndFlashCopy bd (firstCopy bd) dat (flash s) of
           None \<Rightarrow> None
         | Some (result1, f) \<Rightarrow>
             (case eraseAndFlashCopy bd (secondCopy bd) dat f of
                None \<Rightarrow> None
              | Some (result2, f) \<Rightarrow>
                  let s = s\<lparr>flash := f\<rparr>;
                      isSuccess = (result1 = FLASH_RETURN_SUCCESS \<and> result2 = FLASH_RETURN_SUCCESS);
                      s = printMsg (if isSuccess then FLASH_SUCCESS_MSG else FLASH_FAILED_MSG) s
                  in Some (s\<lparr>maxima := resetMaxValues (maxima s)\<rparr>)))"

definition setNeedToWriteConfiguration :: "settings_state \<Rightarrow> settings_state" where
  "setNeedToWriteConfiguration s = (printMsg ''Scheduling configuration write'' s)\<lparr>needToWriteConfiguration := True\<rparr>"

definition getNeedToWriteConfiguration :: "settings_state \<Rightarrow> bool" where
  "getNeedToWriteConfiguration s = needToWriteConfiguration s"

definition writeToFlashIfPending :: "flash_board \<Rightarrow> settings_state \<Rightarrow> settings_state option" where
  "writeToFlashIfPending bd s =
     (if \<not> getNeedToWriteConfiguration s then Some s
      else
        let s = s\<lparr>needToWriteConfiguration := False\<rparr>
        in writeToFlashNow bd (printMsg ''Writing pending configuration'' s))"

subsection \<open>Reading\<close>

definition isValidCrc :: "container \<Rightarrow> nat \<Rightarrow> bool" where
  "isValidCrc state len = (flashStateCrc state len = crc_value state)"

definition doReadConfiguration ::
    "flash_board \<Rightarrow> nat \<Rightarrow> settings_state \<Rightarrow> persisted_configuration_state_e \<times> settings_state" where
  "doReadConfiguration bd address s =
     (let s = printMsg ''readFromFlash'' s;
          len = container_size (configLen bd);
          p = container_of (configLen bd) (snd (intFlashRead (fmem (flash s)) address len));
          s = s\<lparr>persistentState := p\<rparr>
      in if \<not> isValidCrc p (configLen bd) then (CRC_FAILED, s)
         else if version p \<noteq> FLASH_DATA_VERSION \<or> csize p \<noteq> word_of_nat len then (INCOMPATIBLE_VERSION, s)
         else (PC_OK, s))"

definition on_config :: "(u8 list \<Rightarrow> u8 list) \<Rightarrow> settings_state \<Rightarrow> settings_state" where
  "on_config g s = s\<lparr>persistentState := (persistentState s)\<lparr>persistentConfiguration := g (persistentConfiguration (persistentState s))\<rparr>\<rparr>"

text \<open>\<open>stack\<close>: the remaining stack; \<open>DEFAULT_ENGINE_TYPE\<close> depends on the board (\<open>dflt\<close>).\<close>

definition EXPECTED_REMAINING_STACK :: int where "EXPECTED_REMAINING_STACK = 128"

definition engine_type_now :: "config_ops \<Rightarrow> settings_state \<Rightarrow> int" where
  "engine_type_now co s = engineType co (persistentConfiguration (persistentState s))"

definition readConfiguration ::
    "config_ops \<Rightarrow> int \<Rightarrow> flash_board \<Rightarrow> int \<Rightarrow> settings_state \<Rightarrow> persisted_configuration_state_e \<times> settings_state" where
  "readConfiguration co dflt bd stack s =
     (if \<not> stack > EXPECTED_REMAINING_STACK then (PC_ERROR, s\<lparr>reports := reports s @ [''read f'']\<rparr>)
      else
        let (result, s) = doReadConfiguration bd (firstCopy bd) s;
            (result, s) = (if result \<noteq> PC_OK
                           then doReadConfiguration bd (secondCopy bd) (printMsg ''Reading second configuration copy'' s)
                           else (result, s));
            s = (if result = CRC_FAILED
                 then on_config (resetConfigurationExt co dflt) (s\<lparr>reports := reports s @ [''flash CRC failed'']\<rparr>)
                 else if result = INCOMPATIBLE_VERSION then on_config (resetConfigurationExt co (engine_type_now co s)) s
                 else on_config (applyNonPersistentConfiguration co) s);
            s = on_config (setFirmwareVersion co) s
        in (result, on_config (validateConfiguration co) s))"

definition readFromFlash ::
    "config_ops \<Rightarrow> int \<Rightarrow> flash_board \<Rightarrow> int \<Rightarrow> settings_state \<Rightarrow> settings_state" where
  "readFromFlash co dflt bd stack s =
     (case readConfiguration co dflt bd stack s of (result, s) \<Rightarrow>
        if result = CRC_FAILED then printMsg ''Need to reset flash to default due to CRC'' s
        else if result = INCOMPATIBLE_VERSION then printMsg ''Resetting but saving engine type'' s
        else printMsg ''Got valid configuration from flash!'' s)"

definition doResetConfiguration :: "config_ops \<Rightarrow> settings_state \<Rightarrow> settings_state" where
  "doResetConfiguration co s = on_config (resetConfigurationExt co (engine_type_now co s)) s"

definition rewriteConfig :: "config_ops \<Rightarrow> flash_board \<Rightarrow> settings_state \<Rightarrow> settings_state option" where
  "rewriteConfig co bd s = writeToFlashNow bd (doResetConfiguration co s)"

text \<open>\<open>syncTunerStudioCopy\<close> is the function \<open>sync\<close>.\<close>

definition writeConfigCommand ::
    "(u8 list \<Rightarrow> u8 list) \<Rightarrow> flash_board \<Rightarrow> settings_state \<Rightarrow> settings_state option" where
  "writeConfigCommand sync bd s = writeToFlashNow bd (on_config sync s)"

lemmas settings_defs = printMsg_def on_config_def setNeedToWriteConfiguration_def getNeedToWriteConfiguration_def

subsection \<open>The container as bytes\<close>

lemma length_i32_bytes [simp]: "length (i32_bytes w) = 4"
  by (simp add: i32_bytes_def)

lemma i32_roundtrip: "i32_of_bytes (i32_bytes w) = w"
proof (rule bit_word_eqI)
  fix k assume k: "k < LENGTH(32)"
  consider "k < 8" | "8 \<le> k" "k < 16" | "16 \<le> k" "k < 24" | "24 \<le> k" "k < 32" using k by fastforce
  then show "bit (i32_of_bytes (i32_bytes w)) k = bit w k"
    by cases (auto simp: i32_of_bytes_def i32_bytes_def bit_simps)
qed

lemma length_container_bytes:
  "length (container_bytes c) = 9 + length (persistentConfiguration c) + length (padding c)"
  by (simp add: container_bytes_def)

lemma container_roundtrip:
  assumes "length (persistentConfiguration c) = len"
  shows "container_of len (container_bytes c) = c"
  using assms by (simp add: container_of_def container_bytes_def i32_roundtrip nth_append)

lemma prepared_simps [simp]:
  "version (prepared len c) = FLASH_DATA_VERSION" "csize (prepared len c) = word_of_nat (container_size len)"
  "persistentConfiguration (prepared len c) = persistentConfiguration c" "padding (prepared len c) = padding c"
  "isValidCrc (prepared len c) len"
  by (simp_all add: prepared_def Let_def isValidCrc_def flashStateCrc_def)

text \<open>A memory image: the bytes at an address.\<close>

definition holds_at :: "mem \<Rightarrow> nat \<Rightarrow> u8 list \<Rightarrow> bool" where
  "holds_at m a b \<longleftrightarrow> (\<forall>i < length b. m (a + i) = b ! i)"

lemma holds_at_read: "holds_at m a b \<Longrightarrow> map m [a..<a + length b] = b"
  by (rule nth_equalityI) (simp_all add: holds_at_def)

lemma holds_at_cong: "holds_at m a b \<Longrightarrow> (\<And>i. i < length b \<Longrightarrow> m' (a + i) = m (a + i)) \<Longrightarrow> holds_at m' a b"
  by (simp add: holds_at_def)

definition well_formed_container :: "nat \<Rightarrow> container \<Rightarrow> bool" where
  "well_formed_container len c \<longleftrightarrow> length (persistentConfiguration c) = len \<and> length (padding c) = 3"

lemma well_formed_length:
  "well_formed_container len c \<Longrightarrow> length (container_bytes (prepared len c)) = container_size len"
  by (simp add: well_formed_container_def length_container_bytes container_size_def)

lemma doReadConfiguration_image:
  assumes "holds_at (fmem (flash t)) a (container_bytes (prepared len c))" "well_formed_container len c" "configLen bd = len"
  shows "doReadConfiguration bd a t = (PC_OK, (printMsg ''readFromFlash'' t)\<lparr>persistentState := prepared len c\<rparr>)"
proof -
  have "snd (intFlashRead (fmem (flash t)) a (container_size len)) = container_bytes (prepared len c)"
    using holds_at_read [OF assms(1)] by (simp add: intFlashRead_def well_formed_length [OF assms(2)])
  moreover have "container_of len (container_bytes (prepared len c)) = prepared len c"
    using assms(2) by (simp add: container_roundtrip well_formed_container_def)
  ultimately show ?thesis using assms(3)
    by (simp add: doReadConfiguration_def Let_def printMsg_def)
qed

text \<open>What is read is a function of the bytes at the address.\<close>

lemma doReadConfiguration_local:
  assumes "\<And>i. i < container_size (configLen bd) \<Longrightarrow> m' (a + i) = fmem (flash t) (a + i)"
  shows "fst (doReadConfiguration bd a (t\<lparr>flash := (flash t)\<lparr>fmem := m'\<rparr>\<rparr>)) = fst (doReadConfiguration bd a t) \<and>
    persistentState (snd (doReadConfiguration bd a (t\<lparr>flash := (flash t)\<lparr>fmem := m'\<rparr>\<rparr>))) =
      persistentState (snd (doReadConfiguration bd a t))"
proof -
  have "map m' [a..<a + container_size (configLen bd)] = map (fmem (flash t)) [a..<a + container_size (configLen bd)]"
  proof (rule map_cong [OF refl])
    fix x assume "x \<in> set [a..<a + container_size (configLen bd)]"
    then have "x - a < container_size (configLen bd)" "a + (x - a) = x" by auto
    then show "m' x = fmem (flash t) x" using assms by metis
  qed
  then have "intFlashRead m' a (container_size (configLen bd)) = intFlashRead (fmem (flash t)) a (container_size (configLen bd))"
    by (simp only: intFlashRead_def)
  then show ?thesis by (simp add: doReadConfiguration_def Let_def printMsg_def)
qed

subsection \<open>Every change of the memory is in the log\<close>

definition logged :: "flash_hw \<Rightarrow> flash_state \<Rightarrow> flash_state \<Rightarrow> bool" where
  "logged hw f f' \<longleftrightarrow> (\<exists>qs. ops f' = ops f @ qs \<and> fmem f' = fold hw qs (fmem f)) \<and> unlock_works f' = unlock_works f"

lemma logged_refl: "logged hw f f"
  by (simp add: logged_def)

lemma logged_trans: "logged hw f g \<Longrightarrow> logged hw g h \<Longrightarrow> logged hw f h"
  unfolding logged_def by (metis append.assoc comp_apply fold_append)

lemma logged_do: "logged hw f (hw_do hw p f)"
  by (auto simp: logged_def intro: exI [of _ "[p]"])

lemma logged_lock: "logged hw f g \<Longrightarrow> logged hw f (intFlashLock g)"
  by (simp add: logged_def)

lemma logged_unlock: "intFlashUnlock f = (ok, g) \<Longrightarrow> logged hw f g"
  by (drule unlock_effect) (simp add: logged_def)

lemmas logged_intros = logged_refl logged_do logged_lock logged_unlock

lemma logged_data: "logged hw f g \<Longrightarrow> logged hw f (intFlashWriteData hw a d g)"
  unfolding intFlashWriteData_def by (rule logged_trans [OF _ logged_do])

lemma logged_head: "write_head hw a buf f = (a', buf', g) \<Longrightarrow> logged hw f g"
  by (auto simp: write_head_def Let_def logged_refl intro: logged_data split: if_splits)

lemma logged_words: "logged hw f (snd (snd (write_words hw a buf f)))"
  by (induction hw a buf f rule: write_words.induct)
    (auto simp: logged_refl intro: logged_trans [OF logged_data [OF logged_refl]])

lemma logged_write: "logged hw f (snd (intFlashWrite hw a buf f))"
proof -
  obtain ok f0 where u: "intFlashUnlock f = (ok, f0)" by fastforce
  obtain a1 b1 f1 where h: "write_head hw a buf f0 = (a1, b1, f1)" by (metis prod_cases3)
  obtain a2 b2 f2 where w: "write_words hw a1 b1 f1 = (a2, b2, f2)" by (metis prod_cases3)
  have "logged hw f f2"
    using logged_trans [OF logged_trans [OF logged_unlock [OF u] logged_head [OF h]] logged_words [of hw f1 a1 b1]] w by simp
  then show ?thesis using logged_unlock [OF u, of hw]
    by (simp add: intFlashWrite_def u h w Let_def logged_lock logged_data)
qed

lemma logged_sector: "logged hw f (snd (intFlashSectorErase hw ssz k f))"
proof -
  obtain ok f0 where u: "intFlashUnlock f = (ok, f0)" by fastforce
  note l = logged_unlock [OF u, of hw]
  then show ?thesis using logged_lock [OF logged_trans [OF l logged_do]]
    by (simp add: intFlashSectorErase_def u Let_def)
qed

text \<open>An erase of at most one sector, from its start, on any controller.\<close>

lemma intFlashErase_one:
  assumes "sectors n ssz" "k < n" "0 < sz" "sz \<le> ssz k"
  shows "intFlashErase hw ssz (intFlashSectorBegin ssz k) sz f = Some (intFlashSectorErase hw ssz k f)"
proof -
  have "intFlashSectorAt ssz (intFlashSectorBegin ssz k) = Some k"
    using assms sectorAt_in [OF assms(1,2), of "intFlashSectorBegin ssz k"] by simp
  then show ?thesis using assms(3,4)
    by (subst intFlashErase.simps) (auto split: prod.split)
qed

lemma eraseAndFlashCopy_one:
  assumes "sectors n (sectorSize bd)" "k < n" "a = intFlashSectorBegin (sectorSize bd) k" "dat \<noteq> []" "length dat \<le> sectorSize bd k"
  shows "eraseAndFlashCopy bd a dat f =
    Some (intFlashWrite (controller bd) a dat (snd (intFlashSectorErase (controller bd) (sectorSize bd) k f)))"
  using assms by (simp add: eraseAndFlashCopy_def intFlashErase_one [OF assms(1,2)] split: prod.split)

lemma eraseAndFlashCopy_logged:
  assumes "sectors n (sectorSize bd)" "k < n" "a = intFlashSectorBegin (sectorSize bd) k" "dat \<noteq> []" "length dat \<le> sectorSize bd k"
    "eraseAndFlashCopy bd a dat f = Some (r, f')"
  shows "logged (controller bd) f f'"
proof -
  have "f' = snd (intFlashWrite (controller bd) a dat (snd (intFlashSectorErase (controller bd) (sectorSize bd) k f)))"
    using assms(6) unfolding eraseAndFlashCopy_one [OF assms(1-5)] by simp
  then show ?thesis by (simp only: logged_trans [OF logged_sector logged_write])
qed

text \<open>The area an operation may change.\<close>

fun op_area :: "(nat \<Rightarrow> nat) \<Rightarrow> flash_op \<Rightarrow> nat \<Rightarrow> bool" where
  "op_area ssz (Erase i) x = (intFlashSectorBegin ssz i \<le> x \<and> x < intFlashSectorBegin ssz i + ssz i)"
| "op_area ssz (Program a d) x = (a \<le> x \<and> x < a + 4)"

definition op_in_sector :: "nat \<Rightarrow> (nat \<Rightarrow> nat) \<Rightarrow> nat \<Rightarrow> flash_op \<Rightarrow> bool" where
  "op_in_sector n ssz k p \<longleftrightarrow> (\<forall>x. op_area ssz p x \<longrightarrow> op_area ssz (Erase k) x) \<and> (\<forall>i. p = Erase i \<longrightarrow> i < n)"

lemma sectorBegin_mod4: "sectors n ssz \<Longrightarrow> intFlashSectorBegin ssz k mod 4 = 0"
proof (induction k)
  case (Suc k)
  then have "ssz k mod 4 = 0" by (simp add: sectors_def)
  with Suc show ?case by (simp add: sectorBegin_Suc) presburger
qed (simp add: sectorBegin_0 FLASH_BASE_def)

lemma sectors_apart:
  assumes "k1 \<noteq> k2" "op_area ssz (Erase k1) x"
  shows "\<not> op_area ssz (Erase k2) x"
  using assms sectorBegin_mono [of "Suc k1" k2 ssz] sectorBegin_mono [of "Suc k2" k1 ssz]
  by (cases "k1 < k2") (auto simp: sectorBegin_Suc)

context flash_frame
begin

lemma area_frame: "\<not> op_area ssz p x \<Longrightarrow> \<forall>i. p = Erase i \<longrightarrow> i < n \<Longrightarrow> hw p m x = m x"
  by (cases p) (simp_all add: erase_frame program_frame)

lemma op_frame: "op_in_sector n ssz k p \<Longrightarrow> \<not> op_area ssz (Erase k) x \<Longrightarrow> hw p m x = m x"
  unfolding op_in_sector_def by (elim conjE) (rule area_frame, blast+)

lemma fold_frame:
  "\<forall>p\<in>set ps. op_in_sector n ssz k p \<Longrightarrow> \<not> op_area ssz (Erase k) x \<Longrightarrow> fold hw ps m x = m x"
  by (induction ps arbitrary: m) (simp_all add: op_frame [where k = k] del: op_area.simps)

end

context nor_flash
begin

text \<open>Erasing and writing one copy within its sector.\<close>

lemma eraseAndFlashCopy_effect:
  assumes bd: "controller bd = hw" "sectorSize bd = ssz" and k: "k < n" "a = intFlashSectorBegin ssz k"
    and dat: "dat \<noteq> []" "length dat + 3 \<le> ssz k" and u: "unlock_works f"
  shows "\<exists>f' ps. eraseAndFlashCopy bd a dat f = Some (FLASH_RETURN_SUCCESS, f') \<and> holds_at (fmem f') a dat \<and>
    ops f' = ops f @ ps \<and> fmem f' = fold hw ps (fmem f) \<and> (\<forall>p\<in>set ps. op_in_sector n ssz k p) \<and> unlock_works f' \<and>
    (\<exists>qs. ps = Erase k # qs)"
proof -
  have cu: "can_unlock f" using u by (simp add: can_unlock_def)
  from intFlashSectorErase_effect [OF k(1) cu] obtain f1 where
    e: "intFlashSectorErase hw ssz k f = (FLASH_RETURN_SUCCESS, f1)" "fmem f1 = hw (Erase k) (fmem f)"
    "ops f1 = ops f @ [Erase k]" "unlock_works f1 = unlock_works f" by blast
  have bl: "blank (fmem f1) a (length dat)"
    using dat(2) k(2) by (simp add: blank_def e(2) erase_sector [OF k(1)] sectorBegin_Suc)
  have cu1: "can_unlock f1" using u e(4) by (simp add: can_unlock_def)
  obtain r f' where w: "intFlashWrite hw a dat f1 = (r, f')" by fastforce
  note eff = intFlashWrite_effect [OF bl cu1 w]
  have one: "eraseAndFlashCopy bd a dat f = Some (r, f')"
    using eraseAndFlashCopy_one [of n bd k a dat f] bd k dat sectors e(1) w by simp
  have al: "a mod 4 = 0" using sectorBegin_mod4 [OF sectors] k(2) by simp
  from eff(5) obtain ps where ps: "ops f' = ops f1 @ ps" "\<forall>p\<in>set ps. word_in a (a + length dat + 3) p"
    using al by auto
  have "logged hw f f'"
    using eraseAndFlashCopy_logged [of n bd k a dat f r f'] bd k dat sectors one by simp
  then have lg: "fmem f' = fold hw (Erase k # ps) (fmem f)"
    unfolding logged_def using ps(1) e(3) by auto
  have "op_in_sector n ssz k p" if "p \<in> set ps" for p
    using ps(2) that dat(2) k(2) unfolding word_in_def op_in_sector_def by fastforce
  moreover have "op_in_sector n ssz k (Erase k)" using k(1) by (simp add: op_in_sector_def)
  ultimately have "\<forall>p\<in>set (Erase k # ps). op_in_sector n ssz k p" by simp
  moreover have "holds_at (fmem f') a dat" by (simp add: holds_at_def eff(2) stored_def)
  moreover have "unlock_works f'" using eff(3) e(4) u by simp
  ultimately show ?thesis using one eff(1) lg ps(1) e(3)
    by (intro exI [of _ f'] exI [of _ "Erase k # ps"]) simp
qed

end

text \<open>The layout the settings need: two sectors, each with room for the container.\<close>

definition board_layout :: "nat \<Rightarrow> flash_board \<Rightarrow> nat \<Rightarrow> nat \<Rightarrow> bool" where
  "board_layout n bd k1 k2 \<longleftrightarrow> k1 < n \<and> k2 < n \<and> k1 \<noteq> k2 \<and>
     firstCopy bd = intFlashSectorBegin (sectorSize bd) k1 \<and> secondCopy bd = intFlashSectorBegin (sectorSize bd) k2 \<and>
     container_size (configLen bd) + 3 \<le> sectorSize bd k1 \<and> container_size (configLen bd) + 3 \<le> sectorSize bd k2"

lemma board_layout_f4: "board_layout 24 (f4_board hw) 11 10"
  by (simp add: board_layout_def f4_board_def getFlashAddrFirstCopy_f4_def getFlashAddrSecondCopy_f4_def
      TOTAL_CONFIG_SIZE_def container_size_def sectorBegin_eval flashSectorSize_f4_def)

lemma board_layout_f7: "board_layout 24 (f7_board hw) 8 9"
  by (simp add: board_layout_def f7_board_def getFlashAddrFirstCopy_f7_def getFlashAddrSecondCopy_f7_def
      TOTAL_CONFIG_SIZE_def container_size_def sectorBegin_eval flashSectorSize_f7_def)

lemma writeToFlashNow_effect:
  assumes hw: "nor_flash (controller bd) (sectorSize bd) n" and lay: "board_layout n bd k1 k2"
    and wf: "well_formed_container (configLen bd) (persistentState s)" and u: "unlock_works (flash s)"
  defines "c \<equiv> prepared (configLen bd) (persistentState s)"
  shows "\<exists>s' ps1 ps2. writeToFlashNow bd s = Some s' \<and> last (console s') = FLASH_SUCCESS_MSG \<and> persistentState s' = c \<and>
    ops (flash s') = ops (flash s) @ ps1 @ ps2 \<and> fmem (flash s') = fold (controller bd) (ps1 @ ps2) (fmem (flash s)) \<and>
    (\<forall>p\<in>set ps1. op_in_sector n (sectorSize bd) k1 p) \<and> (\<forall>p\<in>set ps2. op_in_sector n (sectorSize bd) k2 p) \<and>
    (\<exists>qs. ps1 = Erase k1 # qs) \<and>
    holds_at (fold (controller bd) ps1 (fmem (flash s))) (firstCopy bd) (container_bytes c) \<and>
    holds_at (fmem (flash s')) (secondCopy bd) (container_bytes c)"
proof -
  let ?dat = "container_bytes c"
  have len: "length ?dat = container_size (configLen bd)" using well_formed_length [OF wf] by (simp add: c_def)
  then have ne: "?dat \<noteq> []" by (auto simp: container_size_def)
  note l = lay [unfolded board_layout_def]
  obtain f1 ps1 where 1: "eraseAndFlashCopy bd (firstCopy bd) ?dat (flash s) = Some (FLASH_RETURN_SUCCESS, f1)"
    "holds_at (fmem f1) (firstCopy bd) ?dat" "ops f1 = ops (flash s) @ ps1" "fmem f1 = fold (controller bd) ps1 (fmem (flash s))"
    "\<forall>p\<in>set ps1. op_in_sector n (sectorSize bd) k1 p" "unlock_works f1" "\<exists>qs. ps1 = Erase k1 # qs"
    using nor_flash.eraseAndFlashCopy_effect [OF hw refl refl _ _ ne _ u, of k1 "firstCopy bd"] l len that
    by fastforce
  obtain f2 ps2 where 2: "eraseAndFlashCopy bd (secondCopy bd) ?dat f1 = Some (FLASH_RETURN_SUCCESS, f2)"
    "holds_at (fmem f2) (secondCopy bd) ?dat" "ops f2 = ops f1 @ ps2" "fmem f2 = fold (controller bd) ps2 (fmem f1)"
    "\<forall>p\<in>set ps2. op_in_sector n (sectorSize bd) k2 p" "unlock_works f2"
    using nor_flash.eraseAndFlashCopy_effect [OF hw refl refl _ _ ne _ 1(6), of k2 "secondCopy bd"] l len that
    by fastforce
  define s' where "s' = (printMsg FLASH_SUCCESS_MSG ((printMsg '' !!!!!!!!!!!!!!!!!!!! BE SURE NOT WRITE WITH IGNITION ON !!!!!!!!!!!!!!!!!!!!'' s)
    \<lparr>persistentState := c, flash := f2\<rparr>))\<lparr>maxima := resetMaxValues (maxima s)\<rparr>"
  have "writeToFlashNow bd s = Some s'"
    using 1(1) 2(1) by (simp add: writeToFlashNow_def Let_def printMsg_def s'_def c_def)
  moreover have "last (console s') = FLASH_SUCCESS_MSG" "persistentState s' = c" "flash s' = f2" by (simp_all add: s'_def printMsg_def)
  ultimately show ?thesis using 1 2
    by (intro exI [of _ s'] exI [of _ ps1] exI [of _ ps2]) (simp add: fold_append)
qed

text \<open>While one sector is worked on, an image in the other one stays.\<close>

lemma other_sector_same:
  assumes "\<And>x. \<not> op_area ssz (Erase k1) x \<Longrightarrow> m' x = m x" "k1 \<noteq> k2" "a = intFlashSectorBegin ssz k2" "i < ssz k2"
  shows "m' (a + i) = m (a + i)"
proof -
  have "op_area ssz (Erase k2) (a + i)" using assms(3,4) by simp
  then have "\<not> op_area ssz (Erase k1) (a + i)" using sectors_apart assms(2) by metis
  then show ?thesis by (rule assms(1))
qed

context flash_frame
begin

lemma fold_other_sector:
  assumes "\<forall>p\<in>set ps. op_in_sector n ssz k1 p" "k1 \<noteq> k2" "a = intFlashSectorBegin ssz k2" "i < ssz k2"
  shows "fold hw ps m (a + i) = m (a + i)"
  using other_sector_same [OF fold_frame [OF assms(1)] assms(2-4)] .

end

text \<open>On any controller that can be unlocked, one container is erased and written "successfully".\<close>

lemma intFlashWrite_unlocked:
  assumes "unlock_works f"
  shows "\<exists>f'. intFlashWrite hw a dat f = (FLASH_RETURN_SUCCESS, f') \<and> unlock_works f'"
proof -
  obtain ok f0 where u: "intFlashUnlock f = (ok, f0)" by fastforce
  obtain a1 b1 f1 where h: "write_head hw a dat f0 = (a1, b1, f1)" by (metis prod_cases3)
  obtain a2 b2 f2 where w: "write_words hw a1 b1 f1 = (a2, b2, f2)" by (metis prod_cases3)
  have "ok" using unlock_effect [OF u] assms by (simp add: can_unlock_def)
  then have "fst (intFlashWrite hw a dat f) = FLASH_RETURN_SUCCESS"
    by (simp add: intFlashWrite_def u h w Let_def)
  moreover have "unlock_works (snd (intFlashWrite hw a dat f))" using logged_write [of hw f a dat] assms by (simp add: logged_def)
  ultimately show ?thesis by (metis prod.collapse)
qed

lemma eraseAndFlashCopy_blind:
  assumes "sectors n (sectorSize bd)" "k < n" "a = intFlashSectorBegin (sectorSize bd) k" "dat \<noteq> []" "length dat \<le> sectorSize bd k"
    "unlock_works f"
  shows "\<exists>f'. eraseAndFlashCopy bd a dat f = Some (FLASH_RETURN_SUCCESS, f') \<and> unlock_works f' \<and> logged (controller bd) f f'"
proof -
  have "unlock_works (snd (intFlashSectorErase (controller bd) (sectorSize bd) k f))"
    using logged_sector [of "controller bd" f "sectorSize bd" k] assms(6) by (simp add: logged_def)
  from intFlashWrite_unlocked [OF this, of "controller bd" a dat] obtain f' where
    "eraseAndFlashCopy bd a dat f = Some (FLASH_RETURN_SUCCESS, f')" "unlock_works f'"
    unfolding eraseAndFlashCopy_one [OF assms(1-5)] by auto
  then show ?thesis using eraseAndFlashCopy_logged [OF assms(1-5)] by simp
qed

text \<open>A machine to start from: the settings written as zeros, a given memory.\<close>

definition zero_container :: container where
  "zero_container = \<lparr>version = 0, csize = 0, persistentConfiguration = replicate TOTAL_CONFIG_SIZE 0, crc_value = 0, padding = [0, 0, 0]\<rparr>"

definition boot_state :: "mem \<Rightarrow> settings_state" where
  "boot_state m = \<lparr>flash = \<lparr>fmem = m, CR_LOCK = True, unlock_works = True, ops = []\<rparr>, persistentState = zero_container,
     needToWriteConfiguration = False,
     maxima = \<lparr>maxEventCallbackDuration = 0, triggerMaxDuration = 0, maxSchedulingPrecisionLoss = 0, maxLockedDuration = 0,
       maxPrecisionCallbackDuration = 0\<rparr>, console = [], reports = []\<rparr>"

lemma boot_simps [simp]:
  "fmem (flash (boot_state m)) = m" "unlock_works (flash (boot_state m))" "ops (flash (boot_state m)) = []"
  "persistentState (boot_state m) = zero_container"
  by (simp_all add: boot_state_def)

lemma zero_container_wf [simp]: "well_formed_container TOTAL_CONFIG_SIZE zero_container"
  by (simp add: well_formed_container_def zero_container_def)

lemma f4_board_simps [simp]:
  "controller (f4_board hw) = hw" "sectorSize (f4_board hw) = flashSectorSize_f4" "configLen (f4_board hw) = TOTAL_CONFIG_SIZE"
  "firstCopy (f4_board hw) = getFlashAddrFirstCopy_f4" "secondCopy (f4_board hw) = getFlashAddrSecondCopy_f4"
  by (simp_all add: f4_board_def)

subsection \<open>Properties\<close>

text \<open>
  C2: writing and reading back. On a flash in order, with the two copies in different sectors (as on
  the F4 and F7), \<open>writeToFlashNow\<close> ends and reports success; reading either copy afterwards gives
  \<open>PC_OK\<close> and exactly the container that was written, settings and checksum included.
\<close>

theorem settings_roundtrip:
  assumes "nor_flash (controller bd) (sectorSize bd) n" "board_layout n bd k1 k2"
    and "well_formed_container (configLen bd) (persistentState s)" "unlock_works (flash s)"
  shows "\<exists>s'. writeToFlashNow bd s = Some s' \<and> last (console s') = FLASH_SUCCESS_MSG \<and>
    persistentConfiguration (persistentState s') = persistentConfiguration (persistentState s) \<and>
    (\<forall>a\<in>{firstCopy bd, secondCopy bd}.
       fst (doReadConfiguration bd a s') = PC_OK \<and>
       persistentState (snd (doReadConfiguration bd a s')) = persistentState s')"
proof -
  let ?c = "prepared (configLen bd) (persistentState s)"
  note l = assms(2) [unfolded board_layout_def]
  note len = well_formed_length [OF assms(3)]
  have fr: "flash_frame (controller bd) (sectorSize bd) n" using assms(1) by (simp add: nor_flash_def)
  obtain s' ps1 ps2 where w: "writeToFlashNow bd s = Some s'" "last (console s') = FLASH_SUCCESS_MSG" "persistentState s' = ?c"
    "fmem (flash s') = fold (controller bd) (ps1 @ ps2) (fmem (flash s))"
    "\<forall>p\<in>set ps2. op_in_sector n (sectorSize bd) k2 p"
    "holds_at (fold (controller bd) ps1 (fmem (flash s))) (firstCopy bd) (container_bytes ?c)"
    "holds_at (fmem (flash s')) (secondCopy bd) (container_bytes ?c)"
    using writeToFlashNow_effect [OF assms] by blast
  have "holds_at (fmem (flash s')) (firstCopy bd) (container_bytes ?c)"
  proof (rule holds_at_cong [OF w(6)])
    fix i assume "i < length (container_bytes ?c)"
    then have "i < sectorSize bd k1" using l len by simp
    from flash_frame.fold_other_sector [OF fr w(5) _ _ this, of "firstCopy bd"]
    show "fmem (flash s') (firstCopy bd + i) = fold (controller bd) ps1 (fmem (flash s)) (firstCopy bd + i)"
      using l by (simp add: w(4))
  qed
  note r = doReadConfiguration_image [OF this assms(3) refl] doReadConfiguration_image [OF w(7) assms(3) refl]
  show ?thesis using w(1-3) by (intro exI [of _ s']) (simp add: r)
qed

theorem settings_roundtrip_witness:
  "\<exists>s'. writeToFlashNow (f4_board (nor_apply flashSectorSize_f4)) (boot_state (\<lambda>x. 0)) = Some s' \<and>
     fst (doReadConfiguration (f4_board (nor_apply flashSectorSize_f4)) 0x080E0000 s') = PC_OK"
proof -
  let ?b = "f4_board (nor_apply flashSectorSize_f4)"
  have "nor_flash (controller ?b) (sectorSize ?b) 24" using f4_flash.nor_flash_axioms by simp
  from settings_roundtrip [OF this board_layout_f4, of "boot_state (\<lambda>x. 0)"]
  show ?thesis by (auto simp: getFlashAddrFirstCopy_f4_def)
qed

text \<open>
  C1: a loss of power while the settings are written. Whatever operation it interrupts, and whatever
  that operation then left in the sector or word it was working on, the second copy still reads as
  the valid settings it held before, or the first copy reads as the new settings.
\<close>

theorem settings_survive_power_loss:
  assumes "nor_flash (controller bd) (sectorSize bd) n" "board_layout n bd k1 k2"
    and "well_formed_container (configLen bd) (persistentState s)" "unlock_works (flash s)"
    and w: "writeToFlashNow bd s = Some s'" "ops (flash s') = ops (flash s) @ finished @ op # rest"
    and torn: "\<forall>x. \<not> op_area (sectorSize bd) op x \<longrightarrow> m x = fold (controller bd) finished (fmem (flash s)) x"
    and old: "doReadConfiguration bd (secondCopy bd) s = (PC_OK, r)"
    and t: "t = s\<lparr>flash := (flash s)\<lparr>fmem := m\<rparr>\<rparr>"
  shows "(fst (doReadConfiguration bd (secondCopy bd) t) = PC_OK \<and>
           persistentState (snd (doReadConfiguration bd (secondCopy bd) t)) = persistentState r) \<or>
         (fst (doReadConfiguration bd (firstCopy bd) t) = PC_OK \<and>
           persistentState (snd (doReadConfiguration bd (firstCopy bd) t)) = prepared (configLen bd) (persistentState s))"
proof -
  let ?c = "prepared (configLen bd) (persistentState s)"
  note l = assms(2) [unfolded board_layout_def]
  note len = well_formed_length [OF assms(3)]
  have fr: "flash_frame (controller bd) (sectorSize bd) n" using assms(1) by (simp add: nor_flash_def)
  obtain ps1 ps2 where e: "ops (flash s') = ops (flash s) @ ps1 @ ps2" "\<forall>p\<in>set ps1. op_in_sector n (sectorSize bd) k1 p"
    "\<forall>p\<in>set ps2. op_in_sector n (sectorSize bd) k2 p"
    "holds_at (fold (controller bd) ps1 (fmem (flash s))) (firstCopy bd) (container_bytes ?c)"
    using writeToFlashNow_effect [OF assms(1-4)] w(1) by auto
  then have sp: "finished @ op # rest = ps1 @ ps2" using w(2) by simp
  have keep: "m (a + i) = m0 (a + i)"
    if "\<forall>p\<in>set qs. op_in_sector n (sectorSize bd) k p" "op_in_sector n (sectorSize bd) k op"
      "fold (controller bd) finished (fmem (flash s)) = fold (controller bd) qs m0"
      "k \<noteq> k'" "a = intFlashSectorBegin (sectorSize bd) k'" "i < sectorSize bd k'" for qs k k' a i m0
  proof (rule other_sector_same [OF _ that(4-6)])
    fix x assume x: "\<not> op_area (sectorSize bd) (Erase k) x"
    then have "m x = fold (controller bd) finished (fmem (flash s)) x"
      using torn that(2) unfolding op_in_sector_def by blast
    also have "\<dots> = m0 x" using flash_frame.fold_frame [OF fr that(1) x] that(3) by simp
    finally show "m x = m0 x" .
  qed
  have f: "fmem (flash t) = m" by (simp add: t)
  from sp consider rest1 where "ps1 = finished @ op # rest1" | done2 where "finished = ps1 @ done2" "ps2 = done2 @ op # rest"
    by (auto simp: append_eq_append_conv2 Cons_eq_append_conv)
  then show ?thesis
  proof cases
    case 1
    have "m (secondCopy bd + i) = fmem (flash s) (secondCopy bd + i)" if "i < container_size (configLen bd)" for i
      using keep [of finished k1 "fmem (flash s)" k2 "secondCopy bd" i] e(2) 1 l that by simp
    from doReadConfiguration_local [of bd m "secondCopy bd" s, OF this] old show ?thesis by (simp add: t)
  next
    case 2
    have "holds_at (fmem (flash t)) (firstCopy bd) (container_bytes ?c)"
      unfolding f
    proof (rule holds_at_cong [OF e(4)])
      fix i assume "i < length (container_bytes ?c)"
      then show "m (firstCopy bd + i) = fold (controller bd) ps1 (fmem (flash s)) (firstCopy bd + i)"
        using keep [of done2 k2 "fold (controller bd) ps1 (fmem (flash s))" k1 "firstCopy bd" i] e(3) 2 l len
        by (simp add: fold_append)
    qed
    from doReadConfiguration_image [OF this assms(3) refl] show ?thesis by simp
  qed
qed

text \<open>The power fails while the first copy is erased, and leaves arbitrary contents \<open>g\<close> in its sector.\<close>

definition old_memory :: mem where
  "old_memory = stored (\<lambda>x. 0) getFlashAddrSecondCopy_f4 (container_bytes (prepared TOTAL_CONFIG_SIZE zero_container))"

lemma old_memory_holds:
  "holds_at old_memory getFlashAddrSecondCopy_f4 (container_bytes (prepared TOTAL_CONFIG_SIZE zero_container))"
  by (simp add: holds_at_def old_memory_def stored_def)

theorem settings_survive_power_loss_witness:
  "\<exists>s' rest. writeToFlashNow (f4_board (nor_apply flashSectorSize_f4)) (boot_state old_memory) = Some s' \<and>
     ops (flash s') = Erase 11 # rest \<and>
     (\<forall>m. (\<forall>x. \<not> (0x080E0000 \<le> x \<and> x < 0x08100000) \<longrightarrow> m x = old_memory x) \<longrightarrow>
        fst (doReadConfiguration (f4_board (nor_apply flashSectorSize_f4)) 0x080C0000 (boot_state m)) = PC_OK \<or>
        fst (doReadConfiguration (f4_board (nor_apply flashSectorSize_f4)) 0x080E0000 (boot_state m)) = PC_OK)"
proof -
  let ?b = "f4_board (nor_apply flashSectorSize_f4)"
  have hw: "nor_flash (controller ?b) (sectorSize ?b) 24" using f4_flash.nor_flash_axioms by simp
  have wf: "well_formed_container (configLen ?b) (persistentState (boot_state old_memory))" by simp
  obtain s' ps1 ps2 where "writeToFlashNow ?b (boot_state old_memory) = Some s'" "ops (flash s') = ps1 @ ps2" "\<exists>qs. ps1 = Erase 11 # qs"
    using writeToFlashNow_effect [OF hw board_layout_f4 wf] by auto
  then obtain rest where w: "writeToFlashNow ?b (boot_state old_memory) = Some s'" "ops (flash s') = Erase 11 # rest" by auto
  obtain r where old: "doReadConfiguration ?b (secondCopy ?b) (boot_state old_memory) = (PC_OK, r)"
    using doReadConfiguration_image [of "boot_state old_memory" "secondCopy ?b" TOTAL_CONFIG_SIZE zero_container ?b] old_memory_holds by simp
  have b: "intFlashSectorBegin flashSectorSize_f4 11 = 0x080E0000" "flashSectorSize_f4 11 = 0x20000"
    by (simp_all add: sectorBegin_eval flashSectorSize_f4_def)
  have t: "boot_state m = boot_state old_memory\<lparr>flash := (flash (boot_state old_memory))\<lparr>fmem := m\<rparr>\<rparr>" for m
    by (simp add: boot_state_def)
  have "fst (doReadConfiguration ?b 0x080C0000 (boot_state m)) = PC_OK \<or> fst (doReadConfiguration ?b 0x080E0000 (boot_state m)) = PC_OK"
    if "\<forall>x. \<not> (0x080E0000 \<le> x \<and> x < 0x08100000) \<longrightarrow> m x = old_memory x" for m
    using settings_survive_power_loss [OF hw board_layout_f4 wf _ w(1) _ _ old t, of "[]" "Erase 11" rest m] w(2) that
    by (simp add: b getFlashAddrFirstCopy_f4_def getFlashAddrSecondCopy_f4_def) blast
  with w show ?thesis by blast
qed

text \<open>
  C38: the result of the erase is not looked at. On any controller that can be unlocked, whatever
  its erase and program operations \<open>qs\<close> do to the memory, \<open>writeToFlashNow\<close> ends and reports
  \<open>FLASH_SUCESS\<close> on the console: the failure message needs a refused unlock.
\<close>

theorem writeToFlashNow_reports_success:
  assumes "sectors n (sectorSize bd)" "board_layout n bd k1 k2"
    and "well_formed_container (configLen bd) (persistentState s)" "unlock_works (flash s)"
  shows "\<exists>s' qs. writeToFlashNow bd s = Some s' \<and> last (console s') = FLASH_SUCCESS_MSG \<and>
    fmem (flash s') = fold (controller bd) qs (fmem (flash s))"
proof -
  let ?dat = "container_bytes (prepared (configLen bd) (persistentState s))"
  note l = assms(2) [unfolded board_layout_def]
  note len = well_formed_length [OF assms(3)]
  have ne: "?dat \<noteq> []" using len by (auto simp: container_size_def)
  obtain f1 where 1: "eraseAndFlashCopy bd (firstCopy bd) ?dat (flash s) = Some (FLASH_RETURN_SUCCESS, f1)" "unlock_works f1"
    "logged (controller bd) (flash s) f1"
    using eraseAndFlashCopy_blind [OF assms(1) _ _ ne _ assms(4), of k1 "firstCopy bd"] l len by auto
  obtain f2 where 2: "eraseAndFlashCopy bd (secondCopy bd) ?dat f1 = Some (FLASH_RETURN_SUCCESS, f2)" "logged (controller bd) f1 f2"
    using eraseAndFlashCopy_blind [OF assms(1) _ _ ne _ 1(2), of k2 "secondCopy bd"] l len by auto
  show ?thesis using 1(1) 2(1) logged_trans [OF 1(3) 2(2)] by (auto simp: writeToFlashNow_def Let_def printMsg_def logged_def)
qed

text \<open>A flash that ignores every operation: success is reported, and no settings are there afterwards.\<close>

theorem writeToFlashNow_reports_success_witness:
  "\<exists>s'. writeToFlashNow (f4_board (\<lambda>op m. m)) (boot_state (\<lambda>x. 0)) = Some s' \<and> last (console s') = ''FLASH_SUCESS'' \<and>
     fst (doReadConfiguration (f4_board (\<lambda>op m. m)) 0x080E0000 s') \<noteq> PC_OK"
proof -
  obtain s' qs where w: "writeToFlashNow (f4_board (\<lambda>op m. m)) (boot_state (\<lambda>x. 0)) = Some s'" "last (console s') = FLASH_SUCCESS_MSG"
    "fmem (flash s') = fold (\<lambda>(op :: flash_op) m. m) qs (\<lambda>x. 0)"
    using writeToFlashNow_reports_success [of 24 "f4_board (\<lambda>op m. m)" 11 10 "boot_state (\<lambda>x. 0)", OF _ board_layout_f4]
    by (simp add: sectors_f4) blast
  have "fold (\<lambda>(op :: flash_op) m. m) qs m = m" for m :: mem by (induction qs) simp_all
  with w(3) have "fmem (flash s') = (\<lambda>x. 0)" by simp
  then have "intFlashRead (fmem (flash s')) a k = (FLASH_RETURN_SUCCESS, replicate k 0)" for a k
    by (simp add: intFlashRead_def map_replicate_const)
  moreover have "version (container_of TOTAL_CONFIG_SIZE (replicate (container_size TOTAL_CONFIG_SIZE) 0)) \<noteq> FLASH_DATA_VERSION"
    by (simp add: container_of_def container_size_def TOTAL_CONFIG_SIZE_def i32_of_bytes_def FLASH_DATA_VERSION_def)
  ultimately show ?thesis using w(1,2) by (simp add: FLASH_SUCCESS_MSG_def doReadConfiguration_def Let_def printMsg_def)
qed

end
