(* ===== verification/Spi_Bus.thy ===== *)
theory Spi_Bus
  imports Pin_Repository
begin

text \<open>
  What the drivers of the SPI chips share: reading the state of the outside world off the trace of
  hardware events (the level a pad was last driven to, the last word a chip was sent), and claiming
  the pins of a chip in the pin repository.
\<close>

lemma and_bit_iff: "m AND push_bit n 1 \<noteq> 0 \<longleftrightarrow> bit m n" for m :: u16
  by (simp only: bit_iff_and_push_bit_not_eq_0)

lemma and_power_iff: "m AND 2 ^ n = 0 \<longleftrightarrow> \<not> bit m n" for m :: u16
  by (metis and_bit_iff push_bit_of_1)

definition last_such :: "('a \<Rightarrow> bool) \<Rightarrow> 'a list \<Rightarrow> 'a option" where
  "last_such P tr = (case filter P tr of [] \<Rightarrow> None | x # xs \<Rightarrow> Some (last (x # xs)))"

lemma last_such_Nil [simp]: "last_such P [] = None"
  by (simp add: last_such_def)

lemma last_such_snoc [simp]: "last_such P (tr @ [e]) = (if P e then Some e else last_such P tr)"
  by (cases "filter P tr") (simp_all add: last_such_def)

lemma last_such_skip: "\<forall>e\<in>set es. \<not> P e \<Longrightarrow> last_such P (tr @ es) = last_such P tr"
  by (simp add: last_such_def)

definition on_pad :: "ioportid \<times> nat \<Rightarrow> hw_event \<Rightarrow> bool" where
  "on_pad p e \<longleftrightarrow> e = PalSet (fst p) (snd p) \<or> e = PalClear (fst p) (snd p)"

text \<open>The level a pad was last driven to, if it ever was.\<close>

definition pad_level :: "ioportid \<times> nat \<Rightarrow> hw_event list \<Rightarrow> bool option" where
  "pad_level p tr = map_option (\<lambda>e. e = PalSet (fst p) (snd p)) (last_such (on_pad p) tr)"

lemma pad_level_snoc [simp]:
  "pad_level p (tr @ [Spi c w]) = pad_level p tr"
  "pad_level p (tr @ [Sleep n]) = pad_level p tr"
  "pad_level p (tr @ [PalSet port pad]) = (if p = (port, pad) then Some True else pad_level p tr)"
  "pad_level p (tr @ [PalClear port pad]) = (if p = (port, pad) then Some False else pad_level p tr)"
  by (cases p; auto simp: pad_level_def on_pad_def)+

definition spi_to :: "nat \<Rightarrow> (u16 \<Rightarrow> bool) \<Rightarrow> hw_event \<Rightarrow> bool" where
  "spi_to c P e = (case e of Spi d w \<Rightarrow> d = c \<and> P w | _ \<Rightarrow> False)"

fun spi_word :: "hw_event \<Rightarrow> u16" where
  "spi_word (Spi c w) = w"
| "spi_word _ = 0"

text \<open>The last word with property \<open>P\<close> sent to chip \<open>c\<close>.\<close>

definition last_spi :: "nat \<Rightarrow> (u16 \<Rightarrow> bool) \<Rightarrow> hw_event list \<Rightarrow> u16 option" where
  "last_spi c P tr = map_option spi_word (last_such (spi_to c P) tr)"

lemma last_spi_snoc [simp]:
  "last_spi c P (tr @ [Spi d w]) = (if d = c \<and> P w then Some w else last_spi c P tr)"
  "last_spi c P (tr @ [Sleep n]) = last_spi c P tr"
  "last_spi c P (tr @ [PalSet port pad]) = last_spi c P tr"
  "last_spi c P (tr @ [PalClear port pad]) = last_spi c P tr"
  by (simp_all add: last_spi_def spi_to_def)

lemma last_spi_other: "c \<noteq> d \<Longrightarrow> last_spi c P (tr @ map (Spi d) ws) = last_spi c P tr"
  unfolding last_spi_def by (subst last_such_skip) (auto simp: spi_to_def)

lemma last_spi_words:
  "last_spi c P (tr @ map (Spi c) (ws @ [w])) = (if P w then Some w else last_spi c P (tr @ map (Spi c) ws))"
  by (simp flip: append_assoc)

lemma pad_level_spis [simp]: "pad_level p (tr @ map (Spi d) ws) = pad_level p tr"
  unfolding pad_level_def by (subst last_such_skip) (auto simp: on_pad_def)

lemma pad_level_spi_words [simp]: "pad_level p (tr @ Spi c w # map (Spi d) ws) = pad_level p tr"
  unfolding pad_level_def by (subst last_such_skip) (auto simp: on_pad_def)

subsection \<open>Claiming the pins of a chip\<close>

text \<open>\<open>ret |= gpio_pin_markUsed(\<dots>)\<close> over a list of pads with their owners' names, skipping those without a port.\<close>

fun mark_pads :: "((ioportid \<times> nat) \<times> string) list \<Rightarrow> 'z board_scheme \<Rightarrow> bool \<times> 'z board_scheme" where
  "mark_pads [] b = (False, b)"
| "mark_pads ((p, msg) # ps) b =
     (if fst p \<noteq> 0 then
        (case gpio_pin_markUsed (fst p) (snd p) msg b of
           (r, b) \<Rightarrow> case mark_pads ps b of (r', b) \<Rightarrow> (r \<or> r', b))
      else mark_pads ps b)"

lemma mark_pads_Cons: "mark_pads (p # ps) b =
    (if fst (fst p) \<noteq> 0 then
       (case gpio_pin_markUsed (fst (fst p)) (snd (fst p)) (snd p) b of
          (r, b) \<Rightarrow> case mark_pads ps b of (r', b) \<Rightarrow> (r \<or> r', b))
     else mark_pads ps b)"
  by (cases p) simp

fun unmark_pads :: "(ioportid \<times> nat) list \<Rightarrow> 'z board_scheme \<Rightarrow> 'z board_scheme" where
  "unmark_pads [] b = b"
| "unmark_pads (p # ps) b =
     unmark_pads ps (if fst p \<noteq> 0 then gpio_pin_markUnused (fst p) (snd p) b else b)"

definition real_pads :: "(ioportid \<times> nat) list \<Rightarrow> (ioportid \<times> nat) list" where
  "real_pads ps = filter (\<lambda>p. fst p \<noteq> 0) ps"

lemma real_pads_append [simp]: "real_pads (ps @ qs) = real_pads ps @ real_pads qs"
  by (simp add: real_pads_def)

definition named_pads :: "((ioportid \<times> nat) \<times> string) list \<Rightarrow> ((ioportid \<times> nat) \<times> string) list" where
  "named_pads ps = filter (\<lambda>p. fst (fst p) \<noteq> 0) ps"

lemma named_real: "map fst (named_pads ps) = real_pads (map fst ps)"
  by (simp add: named_pads_def real_pads_def filter_map comp_def)

lemma mark_pads_claim: "mark_pads ps b = gpio_pins.claim (named_pads ps) b"
proof (induction ps arbitrary: b)
  case (Cons p ps)
  then show ?case by (cases p) (simp add: named_pads_def split_beta)
qed (simp add: named_pads_def)

lemma unmark_pads_release: "unmark_pads ps b = gpio_pins.release (real_pads ps) b"
  by (induction ps arbitrary: b) (simp_all add: real_pads_def gpio_pins.release_def)

definition pads_valid :: "(ioportid \<times> nat) list \<Rightarrow> bool" where
  "pads_valid ps \<longleftrightarrow> (\<forall>p\<in>set (real_pads ps). gpio_valid p)"

lemma mark_pads_none: "\<forall>p\<in>set ps. fst (fst p) = 0 \<Longrightarrow> mark_pads ps b = (False, b)"
  by (induction ps arbitrary: b) (simp_all add: mark_pads_Cons)

text \<open>The owner of a pad.\<close>

definition pad_owner :: "'z board_scheme \<Rightarrow> ioportid \<times> nat \<Rightarrow> string option" where
  "pad_owner b p = PIN_USED b (gpio_index p)"

lemma gpio_mark_frame [simp]:
  "trace (snd (gpio_pin_markUsed port pin m b)) = trace b"
  "board.more (snd (gpio_pin_markUsed port pin m b)) = board.more b"
  "repo_initialized (snd (gpio_pin_markUsed port pin m b)) = repo_initialized b"
  "trace (gpio_pin_markUnused port pin b) = trace b"
  "board.more (gpio_pin_markUnused port pin b) = board.more b"
  "repo_initialized (gpio_pin_markUnused port pin b) = repo_initialized b"
  by (simp_all add: gpio_pin_markUsed_def gpio_pin_markUnused_def getBrainIndex_def getPortIndex_def Let_def
      split: prod.splits)

lemma mark_pads_frame [simp]:
  "trace (snd (mark_pads ps b)) = trace b"
  "board.more (snd (mark_pads ps b)) = board.more b"
  "repo_initialized (snd (mark_pads ps b)) = repo_initialized b"
  by (induction ps arbitrary: b) (simp_all add: mark_pads_Cons split_beta)

lemma unmark_pads_frame [simp]:
  "trace (unmark_pads ps b) = trace b"
  "board.more (unmark_pads ps b) = board.more b"
  "repo_initialized (unmark_pads ps b) = repo_initialized b"
  by (induction ps arbitrary: b) simp_all

text \<open>An initialisation that finds a pad taken and cleans up takes the pad from its owner.\<close>

lemma mark_taken_then_unmark:
  assumes "repo_initialized b" "pads_valid (map fst ps)" "q \<in> set (map fst ps)" "fst q \<noteq> 0" "pad_owner b q = Some other"
  shows "fst (mark_pads ps b)" "pad_owner (unmark_pads (map fst ps) (snd (mark_pads ps b))) q = None"
proof -
  have "q \<in> set (map fst (named_pads ps))" "\<forall>p\<in>set (map fst (named_pads ps)). gpio_valid p"
    using assms(2-4) unfolding named_real by (simp_all add: real_pads_def pads_valid_def)
  note st = gpio_pins.failed_claim_steals [of b "named_pads ps" q other, OF assms(1) this(2,1) assms(5) [unfolded pad_owner_def]]
  show "fst (mark_pads ps b)" using st(1) by (simp only: mark_pads_claim)
  show "pad_owner (unmark_pads (map fst ps) (snd (mark_pads ps b))) q = None"
    using st(2) by (simp only: mark_pads_claim unmark_pads_release pad_owner_def named_real)
qed

lemma mark_free_pads:
  assumes "repo_initialized b" "pads_valid (map fst ps)" "distinct (real_pads (map fst ps))"
    and "\<forall>p\<in>set (real_pads (map fst ps)). pad_owner b p = None"
  shows "\<not> fst (mark_pads ps b)"
    "gpio_valid q \<Longrightarrow> pad_owner (snd (mark_pads ps b)) q =
      (case map_of (named_pads ps) q of Some m \<Rightarrow> Some m | None \<Rightarrow> pad_owner b q)"
proof -
  have "\<forall>p\<in>set (map fst (named_pads ps)). gpio_valid p \<and> PIN_USED b (gpio_index p) = None"
    "distinct (map fst (named_pads ps))"
    using assms(2-4) unfolding named_real by (simp_all add: pads_valid_def pad_owner_def)
  note c = gpio_pins.claim_free [of b "named_pads ps", OF assms(1) this(2,1)]
  show "\<not> fst (mark_pads ps b)" using conjunct1 [OF c] by (simp only: mark_pads_claim not_False_eq_True)
  show "gpio_valid q \<Longrightarrow> pad_owner (snd (mark_pads ps b)) q =
      (case map_of (named_pads ps) q of Some m \<Rightarrow> Some m | None \<Rightarrow> pad_owner b q)"
    using c by (simp only: mark_pads_claim pad_owner_def)
qed

end
