(* ===== verification/Tle6240.thy ===== *)
theory Tle6240
  imports Spi_Bus
begin

text \<open>
  The driver of the 16-channel low-side switch TLE6240,
  src/firmware/hw_layer/drivers/gpio/tle6240.c.  A chip function takes the chip's private record
  and the board and returns its \<open>int\<close> with both; the exported operations look the chip up in the
  static array by the index their \<open>void *\<close> stands for.  The wake-up semaphore is a counter.
\<close>

definition TLE6240_OUTPUTS :: nat where "TLE6240_OUTPUTS = 16"
definition TLE6240_DIRECT_OUTPUTS :: nat where "TLE6240_DIRECT_OUTPUTS = 8"

record tle6240_config =
  spi_bus :: "nat option"
  spi_config :: nat
  direct_io :: "(ioportid \<times> nat) list"
  reset :: "ioportid \<times> nat"

datatype tle6240_drv_state = TLE6240_DISABLED | TLE6240_WAIT_INIT | TLE6240_READY | TLE6240_FAILED

record tle6240_priv =
  cfg :: "tle6240_config option"
  o_state_cached :: u16
  o_state :: u16
  o_direct_mask :: u16
  diag0 :: u16
  diag1 :: u16
  diag_8_reguested :: bool
  drv_state :: tle6240_drv_state

record tle6240_state = board +
  tle6240_chips :: "tle6240_priv list"
  tle6240_wake :: int
  drv_task_ready :: bool

definition CMD_CHIP :: "nat \<Rightarrow> u16" where
  "CMD_CHIP ch = (if ch < 8 then 0x00 else 0x0f)"

definition CMD_FULL_DIAG :: "nat \<Rightarrow> u16" where
  "CMD_FULL_DIAG ch = push_bit 8 (0x00 OR CMD_CHIP ch)"

definition CMD_IO_SHORTDIAG :: "nat \<Rightarrow> u16" where
  "CMD_IO_SHORTDIAG ch = push_bit 8 (0xc0 OR CMD_CHIP ch)"

definition CMD_ECHO :: "nat \<Rightarrow> u16" where
  "CMD_ECHO ch = push_bit 8 (0xA0 OR CMD_CHIP ch)"

definition CMD_OR_DIAG :: "nat \<Rightarrow> u16 \<Rightarrow> u16" where
  "CMD_OR_DIAG ch dat = push_bit 8 (0x30 OR CMD_CHIP ch) OR (dat AND 0xff)"

definition CMD_AND_DIAG :: "nat \<Rightarrow> u16 \<Rightarrow> u16" where
  "CMD_AND_DIAG ch dat = push_bit 8 (0xf0 OR CMD_CHIP ch) OR (dat AND 0xff)"

definition the_cfg :: "tle6240_priv \<Rightarrow> tle6240_config" where
  "the_cfg chip = (case cfg chip of Some c \<Rightarrow> c | None \<Rightarrow> \<lparr>spi_bus = None, spi_config = 0, direct_io = [], reset = (0, 0)\<rparr>)"

definition tle6240_spi_rw ::
    "device \<Rightarrow> tle6240_priv \<Rightarrow> u16 \<Rightarrow> 'z board_scheme \<Rightarrow> int \<times> u16 \<times> 'z board_scheme" where
  "tle6240_spi_rw dev chip tx b =
     (case spi_exchange dev (spi_config (the_cfg chip)) tx b of (rxb, b) \<Rightarrow> (0, rxb, b))"

definition ret_or :: "int \<Rightarrow> int \<Rightarrow> int" where
  "ret_or r r' = r OR r'"

definition tle6240_update_output_and_diag ::
    "device \<Rightarrow> tle6240_priv \<Rightarrow> 'z board_scheme \<Rightarrow> int \<times> tle6240_priv \<times> 'z board_scheme" where
  "tle6240_update_output_and_diag dev chip b =
     (let out_data = o_state chip AND NOT (o_direct_mask chip);
          (ret, chip, b) =
            (if diag_8_reguested chip then
               let (ret, rx, b) = tle6240_spi_rw dev chip (CMD_OR_DIAG 0 (out_data AND 0xff)) b;
                   chip = chip\<lparr>diag1 := rx\<rparr>;
                   (r, rx, b) = tle6240_spi_rw dev chip (CMD_OR_DIAG 8 (drop_bit 8 out_data AND 0xff)) b;
                   chip = chip\<lparr>diag0 := rx\<rparr>
               in (ret_or ret r, chip, b)
             else
               let (ret, rx, b) = tle6240_spi_rw dev chip (CMD_OR_DIAG 0 (out_data AND 0xff)) b;
                   (r, rx, b) = tle6240_spi_rw dev chip (CMD_OR_DIAG 8 (drop_bit 8 out_data AND 0xff)) b;
                   chip = chip\<lparr>diag0 := rx\<rparr>;
                   (r', rx, b) = tle6240_spi_rw dev chip (CMD_OR_DIAG 8 (drop_bit 8 out_data AND 0xff)) b;
                   chip = chip\<lparr>diag1 := rx\<rparr>
               in (ret_or (ret_or ret r) r', chip, b));
          chip = chip\<lparr>diag_8_reguested := False\<rparr>;
          chip = (if ret = 0 then chip\<lparr>o_state_cached := out_data, diag_8_reguested := True\<rparr> else chip)
      in (ret, chip, b))"

text \<open>The bit of direct input \<open>n\<close>, and the loops that drive all direct outputs low or high.\<close>

definition direct_bit :: "nat \<Rightarrow> nat" where
  "direct_bit n = (if n < 4 then n else n + 4)"

fun set_direct :: "(ioportid \<Rightarrow> nat \<Rightarrow> hw_event) \<Rightarrow> tle6240_priv \<Rightarrow> nat list \<Rightarrow> 'z board_scheme \<Rightarrow> 'z board_scheme" where
  "set_direct ev chip [] b = b"
| "set_direct ev chip (n # ns) b =
     (let i = direct_bit n
      in set_direct ev chip ns
           (if o_direct_mask chip AND push_bit i 1 \<noteq> 0
            then (case direct_io (the_cfg chip) ! n of (port, pad) \<Rightarrow> emit (ev port pad) b) else b))"

definition tle6240_pads :: "tle6240_config \<Rightarrow> ((ioportid \<times> nat) \<times> string) list" where
  "tle6240_pads c = (reset c, ''tle6240 RST'') #
     map (\<lambda>p. (p, ''tle6240 DIRECT IO'')) (take TLE6240_DIRECT_OUTPUTS (direct_io c))"

definition io_mask :: "u16 \<Rightarrow> u16" where
  "io_mask rx = (drop_bit 4 rx AND 0x0f00) OR (drop_bit 8 rx AND 0x000f)"

text \<open>
  The checks of \<open>tle6240_chip_init\<close> from the release of the reset line on; a negative result goes
  to \<open>err_gpios\<close>.
\<close>

definition tle6240_chip_test ::
    "device \<Rightarrow> tle6240_priv \<Rightarrow> 'z board_scheme \<Rightarrow> int \<times> tle6240_priv \<times> 'z board_scheme" where
  "tle6240_chip_test dev chip b =
     (let c = the_cfg chip; ns = [0..<TLE6240_DIRECT_OUTPUTS];
          b = (if fst (reset c) \<noteq> 0
               then emit (Sleep 10) (emit (PalSet (fst (reset c)) (snd (reset c)))
                      (emit (Sleep 1) (emit (PalClear (fst (reset c)) (snd (reset c))) b)))
               else b);
          (ret, rx, b) = tle6240_spi_rw dev chip (CMD_ECHO 0) b;
          (r, rx, b) = tle6240_spi_rw dev chip 0x5555 b;
          ret = ret_or ret r
      in if ret \<noteq> 0 \<or> rx \<noteq> 0x5555 then (-2, chip, b)
         else
           let b = set_direct PalClear chip ns b;
               (ret, rx, b) = tle6240_spi_rw dev chip (CMD_AND_DIAG 0 0x00) b;
               (r, rx, b) = tle6240_spi_rw dev chip (CMD_AND_DIAG 8 0x00) b;
               chip = chip\<lparr>diag0 := rx\<rparr>; ret = ret_or ret r;
               (r, rx, b) = tle6240_spi_rw dev chip (CMD_IO_SHORTDIAG 0) b;
               chip = chip\<lparr>diag1 := rx\<rparr>; ret = ret_or ret r;
               (r, rx, b) = tle6240_spi_rw dev chip (CMD_IO_SHORTDIAG 0) b;
               ret = ret_or ret r; rx = io_mask rx
           in if ret \<noteq> 0 \<or> rx AND o_direct_mask chip \<noteq> 0 then (-3, chip, b)
              else
                let b = set_direct PalSet chip ns b;
                    (r, rx, b) = tle6240_spi_rw dev chip (CMD_IO_SHORTDIAG 0) b;
                    ret = ret_or ret r; rx = io_mask rx AND o_direct_mask chip
                in if ret \<noteq> 0 \<or> rx \<noteq> o_direct_mask chip then (-4, chip, b)
                   else
                     let (ret, chip, b) = tle6240_update_output_and_diag dev chip b
                     in if ret \<noteq> 0 then (-5, chip, b) else (0, chip, b))"

definition tle6240_chip_init ::
    "device \<Rightarrow> tle6240_priv \<Rightarrow> 'z board_scheme \<Rightarrow> int \<times> tle6240_priv \<times> 'z board_scheme" where
  "tle6240_chip_init dev chip b =
     (let pads = tle6240_pads (the_cfg chip);
          (taken, b) = mark_pads pads b;
          (ret, chip, b) = (if taken then (-1, chip, b) else tle6240_chip_test dev chip b)
      in if ret = 0 then (0, chip, b) else (ret, chip, unmark_pads (map fst pads) b))"

subsection \<open>The driver thread and the exported operations\<close>

definition upd_chip :: "nat \<Rightarrow> tle6240_priv \<Rightarrow> 'z tle6240_state_scheme \<Rightarrow> 'z tle6240_state_scheme" where
  "upd_chip i chip s = s\<lparr>tle6240_chips := (tle6240_chips s)[i := chip]\<rparr>"

text \<open>In interrupt context and outside it, the semaphore is signalled once.\<close>

definition tle6240_wake_driver :: "'z tle6240_state_scheme \<Rightarrow> 'z tle6240_state_scheme" where
  "tle6240_wake_driver s = s\<lparr>tle6240_wake := tle6240_wake s + 1\<rparr>"

definition tle6240_thread_chip :: "device \<Rightarrow> nat \<Rightarrow> 'z tle6240_state_scheme \<Rightarrow> 'z tle6240_state_scheme" where
  "tle6240_thread_chip dev i s =
     (let chip = tle6240_chips s ! i
      in if cfg chip = None \<or> drv_state chip = TLE6240_DISABLED \<or> drv_state chip = TLE6240_FAILED then s
         else (case tle6240_update_output_and_diag dev chip s of (ret, chip, s) \<Rightarrow> upd_chip i chip s))"

text \<open>One turn of the thread's endless loop, after the semaphore or the poll interval woke it.\<close>

definition tle6240_driver_thread :: "device \<Rightarrow> 'z tle6240_state_scheme \<Rightarrow> 'z tle6240_state_scheme" where
  "tle6240_driver_thread dev s = fold (tle6240_thread_chip dev) [0..<length (tle6240_chips s)] s"

definition tle6240_writePad ::
    "nat option \<Rightarrow> nat \<Rightarrow> int \<Rightarrow> 'z tle6240_state_scheme \<Rightarrow> int \<times> 'z tle6240_state_scheme" where
  "tle6240_writePad dat pin v s =
     (case dat of
        None \<Rightarrow> (-1, s)
      | Some k \<Rightarrow>
          if pin \<ge> TLE6240_OUTPUTS then (-1, s)
          else
            let chip = tle6240_chips s ! k;
                chip = (if v \<noteq> 0 then chip\<lparr>o_state := o_state chip OR push_bit pin 1\<rparr>
                        else chip\<lparr>o_state := o_state chip AND NOT (push_bit pin 1)\<rparr>);
                s = upd_chip k chip s
            in if o_direct_mask chip AND push_bit pin 1 \<noteq> 0 then
                 let n = (if pin < 8 then pin else pin - 4);
                     (port, pad) = direct_io (the_cfg chip) ! n
                 in (0, emit (if v \<noteq> 0 then PalSet port pad else PalClear port pad) s)
               else (0, tle6240_wake_driver s))"

definition tle6240_getDiag :: "nat option \<Rightarrow> nat \<Rightarrow> 'z tle6240_state_scheme \<Rightarrow> brain_pin_diag" where
  "tle6240_getDiag dat pin s =
     (case dat of
        None \<Rightarrow> PIN_INVALID
      | Some k \<Rightarrow>
          if pin \<ge> TLE6240_OUTPUTS then PIN_INVALID
          else
            let chip = tle6240_chips s ! k;
                val = drop_bit ((pin mod 8) * 2) (if pin > 7 then diag1 chip else diag0 chip) AND 0x03
            in if val = 0x3 then PIN_OK
               else if val = 0x2 then PIN_OVERLOAD OR PIN_DRIVER_OVERTEMP
               else if val = 0x1 then PIN_OPEN
               else PIN_SHORT_TO_GND)"

text \<open>\<open>tle6240_init\<close> is only called with the \<open>priv\<close> it was registered with.\<close>

definition tle6240_init ::
    "device \<Rightarrow> nat option \<Rightarrow> 'z tle6240_state_scheme \<Rightarrow> int \<times> 'z tle6240_state_scheme" where
  "tle6240_init dev dat s =
     (case dat of
        None \<Rightarrow> (-1, s)
      | Some k \<Rightarrow>
          (case tle6240_chip_init dev (tle6240_chips s ! k) s of
             (ret, chip, s) \<Rightarrow>
               if ret \<noteq> 0 then (ret, upd_chip k chip s)
               else (0, (upd_chip k (chip\<lparr>drv_state := TLE6240_READY\<rparr>) s)\<lparr>drv_task_ready := True\<rparr>)))"

definition tle6240_deinit :: "nat option \<Rightarrow> 'z tle6240_state_scheme \<Rightarrow> int \<times> 'z tle6240_state_scheme" where
  "tle6240_deinit dat s = (0, s)"

definition tle6240_ops :: "device \<Rightarrow> 'z tle6240_state_scheme gpiochip_ops" where
  "tle6240_ops dev = \<lparr>op_setPadMode = None, op_writePad = Some tle6240_writePad, op_readPad = None,
     op_getDiag = Some tle6240_getDiag, op_init = Some (tle6240_init dev), op_deinit = Some tle6240_deinit\<rparr>"

definition direct_mask_of :: "tle6240_config \<Rightarrow> u16" where
  "direct_mask_of c = fold (\<lambda>i m. if fst (direct_io c ! i) \<noteq> 0 then m OR push_bit (direct_bit i) 1 else m)
     [0..<TLE6240_DIRECT_OUTPUTS] 0"

definition tle6240_pin_names :: "string option list" where
  "tle6240_pin_names = map (\<lambda>n. Some (''tle6240.OUT'' @ show_nat n)) [1..<17]"

definition tle6240_add ::
    "device \<Rightarrow> nat \<Rightarrow> tle6240_config option \<Rightarrow> 'z tle6240_state_scheme gpio_core \<Rightarrow> 'z tle6240_state_scheme
       \<Rightarrow> int \<times> 'z tle6240_state_scheme gpio_core \<times> 'z tle6240_state_scheme" where
  "tle6240_add dev index c gc s =
     (case c of
        None \<Rightarrow> (-1, gc, s)
      | Some conf \<Rightarrow>
          if spi_bus conf = None \<or> index \<ge> length (tle6240_chips s) then (-1, gc, s)
          else if cfg (tle6240_chips s ! index) \<noteq> None then (-1, gc, s)
          else
            let chip = (tle6240_chips s ! index)\<lparr>cfg := Some conf, o_state := 0, o_state_cached := 0,
                          o_direct_mask := direct_mask_of conf, drv_state := TLE6240_WAIT_INIT\<rparr>;
                s = upd_chip index chip s;
                (ret, gc) = gpiochip_register ''tle6240'' (Some (tle6240_ops dev)) TLE6240_OUTPUTS (Some index) gc
            in (ret, snd (gpiochips_setPinNames (nat (ret mod 256)) tle6240_pin_names gc), s))"

subsection \<open>What a pass over a chip sends\<close>

lemma tle6240_spi_rw_eq [simp]:
  "tle6240_spi_rw dev chip tx b =
     (0, dev (trace b @ [Spi (spi_config (the_cfg chip)) tx]), emit (Spi (spi_config (the_cfg chip)) tx) b)"
  by (simp add: tle6240_spi_rw_def spi_exchange_def)

lemma ret_or_0 [simp]: "ret_or 0 r = r"
  by (simp add: ret_or_def)

lemma the_cfg_upd [simp]:
  "the_cfg (chip\<lparr>diag0 := x\<rparr>) = the_cfg chip" "the_cfg (chip\<lparr>diag1 := x\<rparr>) = the_cfg chip"
  "the_cfg (chip\<lparr>o_state := y\<rparr>) = the_cfg chip" "the_cfg (chip\<lparr>drv_state := d\<rparr>) = the_cfg chip"
  by (simp_all add: the_cfg_def)

text \<open>The two words that carry the outputs a chip should have.\<close>

definition out_low :: "tle6240_priv \<Rightarrow> u16" where
  "out_low chip = CMD_OR_DIAG 0 ((o_state chip AND NOT (o_direct_mask chip)) AND 0xff)"

definition out_high :: "tle6240_priv \<Rightarrow> u16" where
  "out_high chip = CMD_OR_DIAG 8 (drop_bit 8 (o_state chip AND NOT (o_direct_mask chip)) AND 0xff)"

definition out_words :: "tle6240_priv \<Rightarrow> u16 list" where
  "out_words chip = (if diag_8_reguested chip then [out_low chip, out_high chip]
     else [out_low chip, out_high chip, out_high chip])"

lemma emit_trace_Spis: "trace (emit (Spi c w) b) = trace b @ map (Spi c) [w]"
  by simp

lemma tle6240_update_eq:
  assumes "tle6240_update_output_and_diag dev chip b = (ret, chip', b')"
  shows "ret = 0" "trace b' = trace b @ map (Spi (spi_config (the_cfg chip))) (out_words chip)"
    "board.more b' = board.more b" "PIN_USED b' = PIN_USED b" "repo_initialized b' = repo_initialized b"
    "cfg chip' = cfg chip" "o_state chip' = o_state chip" "o_direct_mask chip' = o_direct_mask chip"
    "drv_state chip' = drv_state chip" "o_state_cached chip' = o_state chip AND NOT (o_direct_mask chip)"
    "diag_8_reguested chip'"
  using assms
  by (auto simp: tle6240_update_output_and_diag_def out_words_def out_low_def out_high_def Let_def split: if_splits)

text \<open>The level the chip was last told for an output, by an OR or an AND command for its group.\<close>

definition out_cmd :: "nat \<Rightarrow> u16 \<Rightarrow> bool" where
  "out_cmd g w \<longleftrightarrow> drop_bit 8 w = (if g = 0 then 0x30 else 0x3f) \<or> drop_bit 8 w = (if g = 0 then 0xf0 else 0xff)"

definition commanded :: "nat \<Rightarrow> hw_event list \<Rightarrow> nat \<Rightarrow> bool option" where
  "commanded c tr pin = map_option (\<lambda>w. bit w (pin mod 8)) (last_spi c (out_cmd (pin div 8)) tr)"

lemma cmd_or_high: "drop_bit 8 (CMD_OR_DIAG ch dat) = (if ch < 8 then 0x30 else 0x3f)"
proof -
  have "drop_bit 8 (dat AND 0xff) = (0 :: u16)" by (rule bit_eqI) (simp add: bit_simps)
  then show ?thesis by (simp add: CMD_OR_DIAG_def CMD_CHIP_def drop_bit_or)
qed

lemma cmd_or_low: "i < 8 \<Longrightarrow> bit (CMD_OR_DIAG ch dat) i = bit dat i"
proof -
  assume i: "i < 8"
  have m: "(0xff :: u16) = mask 8" by (simp add: mask_eq_exp_minus_1)
  show ?thesis unfolding CMD_OR_DIAG_def m bit_or_iff bit_and_iff bit_mask_iff bit_push_bit_iff using i by simp
qed

lemma out_cmd_words:
  "out_cmd 0 (out_low chip)" "\<not> out_cmd (Suc 0) (out_low chip)" "out_cmd (Suc 0) (out_high chip)" "\<not> out_cmd 0 (out_high chip)"
  by (simp_all add: out_cmd_def out_low_def out_high_def cmd_or_high)

lemma out_bits:
  "i < 8 \<Longrightarrow> bit (out_low chip) i = bit (o_state chip AND NOT (o_direct_mask chip)) i"
  "i < 8 \<Longrightarrow> bit (out_high chip) i = bit (o_state chip AND NOT (o_direct_mask chip)) (i + 8)"
proof -
  have m: "(0xff :: u16) = mask 8" by (simp add: mask_eq_exp_minus_1)
  show "i < 8 \<Longrightarrow> bit (out_low chip) i = bit (o_state chip AND NOT (o_direct_mask chip)) i"
    unfolding out_low_def m by (simp add: cmd_or_low bit_and_iff bit_mask_iff)
  show "i < 8 \<Longrightarrow> bit (out_high chip) i = bit (o_state chip AND NOT (o_direct_mask chip)) (i + 8)"
    unfolding out_high_def m by (simp add: cmd_or_low bit_and_iff bit_mask_iff bit_drop_bit_eq add.commute)
qed

lemma commanded_out_words:
  assumes "pin < 16"
  shows "commanded c (tr @ map (Spi c) (out_words chip)) pin =
    Some (bit (o_state chip AND NOT (o_direct_mask chip)) pin)"
proof -
  have w: "out_words chip = (if diag_8_reguested chip then ([] @ [out_low chip]) @ [out_high chip]
      else (([] @ [out_low chip]) @ [out_high chip]) @ [out_high chip])" by (simp add: out_words_def)
  have "pin div 8 = 0 \<and> pin mod 8 = pin \<or> pin div 8 = 1 \<and> pin = pin mod 8 + 8" using assms by presburger
  then show ?thesis
    unfolding w commanded_def
    by (auto simp: last_spi_words out_cmd_words out_bits simp del: map_append append_Nil append.simps append_assoc)
qed

subsection \<open>A turn of the thread\<close>

definition same_out :: "tle6240_priv \<Rightarrow> tle6240_priv \<Rightarrow> bool" where
  "same_out a b \<longleftrightarrow> cfg b = cfg a \<and> o_state b = o_state a \<and> o_direct_mask b = o_direct_mask a \<and>
     drv_state b = drv_state a"

lemma same_out_refl [simp]: "same_out a a"
  by (simp add: same_out_def)

lemma same_out_trans: "same_out a b \<Longrightarrow> same_out b c \<Longrightarrow> same_out a c"
  by (simp add: same_out_def)

definition active :: "tle6240_priv \<Rightarrow> bool" where
  "active chip \<longleftrightarrow> cfg chip \<noteq> None \<and> drv_state chip \<noteq> TLE6240_DISABLED \<and> drv_state chip \<noteq> TLE6240_FAILED"

definition chip_bus :: "tle6240_priv \<Rightarrow> nat" where
  "chip_bus chip = spi_config (the_cfg chip)"

lemma same_out_simps:
  assumes "same_out a b"
  shows "active b = active a" "chip_bus b = chip_bus a" "o_state b = o_state a" "o_direct_mask b = o_direct_mask a"
    "cfg b = cfg a"
  using assms by (simp_all add: same_out_def active_def chip_bus_def the_cfg_def)

definition buses_distinct :: "'z tle6240_state_scheme \<Rightarrow> bool" where
  "buses_distinct s \<longleftrightarrow> (\<forall>i < length (tle6240_chips s). \<forall>j < length (tle6240_chips s).
     i \<noteq> j \<and> active (tle6240_chips s ! i) \<and> active (tle6240_chips s ! j) \<longrightarrow>
     chip_bus (tle6240_chips s ! i) \<noteq> chip_bus (tle6240_chips s ! j))"

lemma board_more_state:
  assumes "board.more s' = board.more (s :: 'z tle6240_state_scheme)"
  shows "tle6240_chips s' = tle6240_chips s" "tle6240_wake s' = tle6240_wake s" "drv_task_ready s' = drv_task_ready s"
  using assms by (cases s; cases s'; simp)+

lemma upd_chip_simps [simp]:
  "trace (upd_chip i chip s) = trace s" "tle6240_chips (upd_chip i chip s) = (tle6240_chips s)[i := chip]"
  "PIN_USED (upd_chip i chip s) = PIN_USED s" "repo_initialized (upd_chip i chip s) = repo_initialized s"
  "tle6240_wake (upd_chip i chip s) = tle6240_wake s"
  by (simp_all add: upd_chip_def)

lemma thread_chip_idle: "\<not> active (tle6240_chips s ! i) \<Longrightarrow> tle6240_thread_chip dev i s = s"
  by (auto simp: tle6240_thread_chip_def active_def Let_def)

lemma thread_chip_active:
  assumes act: "active (tle6240_chips s ! i)" and i: "i < length (tle6240_chips s)"
  shows "\<exists>chip'. same_out (tle6240_chips s ! i) chip' \<and>
    tle6240_chips (tle6240_thread_chip dev i s) = (tle6240_chips s)[i := chip'] \<and>
    trace (tle6240_thread_chip dev i s) = trace s @ map (Spi (chip_bus (tle6240_chips s ! i))) (out_words (tle6240_chips s ! i))"
proof -
  let ?c = "tle6240_chips s ! i"
  obtain ret chip' s' where u: "tle6240_update_output_and_diag dev ?c s = (ret, chip', s')"
    by (metis prod_cases3)
  note e = tle6240_update_eq [OF u]
  have t: "tle6240_thread_chip dev i s = upd_chip i chip' s'"
    using act u by (auto simp: tle6240_thread_chip_def active_def Let_def)
  show ?thesis
    by (rule exI [of _ chip']) (simp add: t e same_out_def chip_bus_def board_more_state [OF e(3)])
qed

lemma thread_upto:
  assumes "buses_distinct s" and "n \<le> length (tle6240_chips s)"
    and "s' = fold (tle6240_thread_chip dev) [0..<n] s"
  shows "length (tle6240_chips s') = length (tle6240_chips s) \<and>
    (\<forall>k < length (tle6240_chips s). same_out (tle6240_chips s ! k) (tle6240_chips s' ! k)) \<and>
    (\<forall>k \<ge> n. tle6240_chips s' ! k = tle6240_chips s ! k) \<and> (\<forall>p. pad_level p (trace s') = pad_level p (trace s)) \<and>
    (\<forall>k < n. active (tle6240_chips s ! k) \<longrightarrow> (\<forall>pin < 16.
       commanded (chip_bus (tle6240_chips s ! k)) (trace s') pin =
         Some (bit (o_state (tle6240_chips s ! k) AND NOT (o_direct_mask (tle6240_chips s ! k))) pin)))"
  using assms(2) unfolding assms(3)
proof (induction n)
  case (Suc n)
  define t where "t = fold (tle6240_thread_chip dev) [0..<n] s"
  let ?t' = "tle6240_thread_chip dev n t" and ?c = "tle6240_chips s ! n"
  note IH = Suc.IH [folded t_def]
  have n: "n < length (tle6240_chips t)" and cn: "tle6240_chips t ! n = ?c" using IH Suc.prems by auto
  have f: "fold (tle6240_thread_chip dev) [0..<Suc n] s = ?t'" by (simp add: t_def)
  show ?case
  proof (cases "active ?c")
    case False
    then show ?thesis unfolding f using IH Suc.prems thread_chip_idle [of t n dev] cn
      by (auto simp: less_Suc_eq)
  next
    case True
    then obtain chip' where c': "same_out ?c chip'" "tle6240_chips ?t' = (tle6240_chips t)[n := chip']"
      "trace ?t' = trace t @ map (Spi (chip_bus ?c)) (out_words ?c)"
      using thread_chip_active [of t n dev] n cn by auto
    have cmd: "commanded (chip_bus (tle6240_chips s ! k)) (trace ?t') pin =
        Some (bit (o_state (tle6240_chips s ! k) AND NOT (o_direct_mask (tle6240_chips s ! k))) pin)"
      if "k < Suc n" "active (tle6240_chips s ! k)" "pin < 16" for k pin
    proof (cases "k = n")
      case True
      with that show ?thesis unfolding c'(3) by (simp add: commanded_out_words)
    next
      case False
      have "chip_bus (tle6240_chips s ! k) \<noteq> chip_bus ?c"
        using assms(1) that False Suc.prems \<open>active ?c\<close> by (simp add: buses_distinct_def)
      with False that IH Suc.prems show ?thesis
        unfolding c'(3) by (simp add: commanded_def last_spi_other)
    qed
    have "\<forall>k < length (tle6240_chips s). same_out (tle6240_chips s ! k) (tle6240_chips ?t' ! k)"
      unfolding c'(2) using IH Suc.prems n c'(1) by (auto simp: nth_list_update)
    moreover have "\<forall>p. pad_level p (trace ?t') = pad_level p (trace s)" unfolding c'(3) using IH Suc.prems by simp
    ultimately show ?thesis unfolding f using IH Suc.prems cmd by (auto simp: c'(2))
  qed
qed simp

subsection \<open>Writing pins\<close>

definition direct_pad :: "tle6240_priv \<Rightarrow> nat \<Rightarrow> ioportid \<times> nat" where
  "direct_pad chip pin = direct_io (the_cfg chip) ! (if pin < 8 then pin else pin - 4)"

lemma state_frame [simp]:
  "tle6240_chips (emit e s) = tle6240_chips s" "tle6240_chips (tle6240_wake_driver s) = tle6240_chips s"
  "trace (tle6240_wake_driver s) = trace s"
  by (simp_all add: emit_def tle6240_wake_driver_def)

lemma writePad_effect:
  assumes "k < length (tle6240_chips s)" "pin < 16"
  defines "chip \<equiv> tle6240_chips s ! k"
  shows "\<exists>chip'. tle6240_chips (snd (tle6240_writePad (Some k) pin v s)) = (tle6240_chips s)[k := chip'] \<and>
    chip' = chip\<lparr>o_state := o_state chip'\<rparr> \<and>
    (\<forall>q < 16. bit (o_state chip') q = (if q = pin then v \<noteq> 0 else bit (o_state chip) q)) \<and>
    trace (snd (tle6240_writePad (Some k) pin v s)) = trace s @
      (if bit (o_direct_mask chip) pin
       then [(if v \<noteq> 0 then PalSet else PalClear) (fst (direct_pad chip pin)) (snd (direct_pad chip pin))] else [])"
proof -
  define st where "st = (if v \<noteq> 0 then o_state chip OR push_bit pin 1 else o_state chip AND NOT (push_bit pin 1))"
  let ?chip = "chip\<lparr>o_state := st\<rparr>"
  have b: "\<forall>q < 16. bit st q = (if q = pin then v \<noteq> 0 else bit (o_state chip) q)"
    using assms(2) by (auto simp: st_def bit_simps)
  have c: "(if v \<noteq> 0 then chip\<lparr>o_state := o_state chip OR push_bit pin 1\<rparr>
        else chip\<lparr>o_state := o_state chip AND NOT (push_bit pin 1)\<rparr>) = ?chip" by (simp add: st_def)
  have w: "snd (tle6240_writePad (Some k) pin v s) =
      (if bit (o_direct_mask chip) pin
       then emit ((if v \<noteq> 0 then PalSet else PalClear) (fst (direct_pad chip pin)) (snd (direct_pad chip pin))) (upd_chip k ?chip s)
       else tle6240_wake_driver (upd_chip k ?chip s))"
    using assms(2) c
    by (simp add: tle6240_writePad_def TLE6240_OUTPUTS_def and_power_iff direct_pad_def Let_def split_beta
        flip: chip_def)
  show ?thesis using b by (intro exI [of _ ?chip]) (simp add: w)
qed

definition tle6240_writes :: "nat \<Rightarrow> (nat \<times> int) list \<Rightarrow> 'z tle6240_state_scheme \<Rightarrow> 'z tle6240_state_scheme" where
  "tle6240_writes k ws s = fold (\<lambda>(pin, v) s. snd (tle6240_writePad (Some k) pin v s)) ws s"

text \<open>The last value a list of writes gives to a pin.\<close>

definition last_write :: "(nat \<times> int) list \<Rightarrow> nat \<Rightarrow> bool \<Rightarrow> bool" where
  "last_write ws pin before = fold (\<lambda>(p, v) a. if p = pin then v \<noteq> 0 else a) ws before"

lemma writes_effect:
  assumes "k < length (tle6240_chips s)" and "\<forall>w\<in>set ws. fst w < 16"
  defines "chip \<equiv> tle6240_chips s ! k"
  shows "\<exists>chip'. tle6240_chips (tle6240_writes k ws s) = (tle6240_chips s)[k := chip'] \<and>
    chip' = chip\<lparr>o_state := o_state chip'\<rparr> \<and>
    (\<forall>q < 16. bit (o_state chip') q = last_write ws q (bit (o_state chip) q)) \<and>
    (\<forall>q < 16. bit (o_direct_mask chip) q \<and>
        (\<forall>p < 16. bit (o_direct_mask chip) p \<and> p \<noteq> q \<longrightarrow> direct_pad chip p \<noteq> direct_pad chip q) \<longrightarrow>
      pad_level (direct_pad chip q) (trace (tle6240_writes k ws s)) =
        (if q \<in> fst ` set ws then Some (last_write ws q (bit (o_state chip) q))
         else pad_level (direct_pad chip q) (trace s)))"
  using assms(2)
proof (induction ws rule: rev_induct)
  case Nil
  then show ?case unfolding tle6240_writes_def chip_def
    by (intro exI [of _ "tle6240_chips s ! k"]) (simp add: last_write_def)
next
  case (snoc w ws)
  obtain pin v where w: "w = (pin, v)" by fastforce
  with snoc.prems have pin: "pin < 16" and ws: "\<forall>w\<in>set ws. fst w < 16" by auto
  define t where "t = tle6240_writes k ws s"
  obtain c1 where c1: "tle6240_chips t = (tle6240_chips s)[k := c1]" "c1 = chip\<lparr>o_state := o_state c1\<rparr>"
    "\<forall>q < 16. bit (o_state c1) q = last_write ws q (bit (o_state chip) q)"
    and lv: "\<forall>q < 16. bit (o_direct_mask chip) q \<and>
        (\<forall>p < 16. bit (o_direct_mask chip) p \<and> p \<noteq> q \<longrightarrow> direct_pad chip p \<noteq> direct_pad chip q) \<longrightarrow>
      pad_level (direct_pad chip q) (trace t) =
        (if q \<in> fst ` set ws then Some (last_write ws q (bit (o_state chip) q))
         else pad_level (direct_pad chip q) (trace s))"
    using snoc.IH [OF ws] unfolding t_def by blast
  have k: "k < length (tle6240_chips t)" and ck: "tle6240_chips t ! k = c1" using c1(1) assms(1) by simp_all
  have dm: "o_direct_mask c1 = o_direct_mask chip" and dp: "direct_pad c1 q = direct_pad chip q" for q
    using c1(2) by (metis tle6240_priv.select_convs(4) tle6240_priv.surjective tle6240_priv.update_convs(3),
      simp add: direct_pad_def the_cfg_def) (metis c1(2) tle6240_priv.select_convs(1) tle6240_priv.surjective tle6240_priv.update_convs(3))
  have u: "tle6240_writes k (ws @ [w]) s = snd (tle6240_writePad (Some k) pin v t)"
    by (simp add: tle6240_writes_def t_def w)
  obtain c2 where c2: "tle6240_chips (tle6240_writes k (ws @ [w]) s) = (tle6240_chips t)[k := c2]"
    "c2 = c1\<lparr>o_state := o_state c2\<rparr>"
    "\<forall>q < 16. bit (o_state c2) q = (if q = pin then v \<noteq> 0 else bit (o_state c1) q)"
    "trace (tle6240_writes k (ws @ [w]) s) = trace t @
      (if bit (o_direct_mask chip) pin
       then [(if v \<noteq> 0 then PalSet else PalClear) (fst (direct_pad chip pin)) (snd (direct_pad chip pin))] else [])"
    using writePad_effect [OF k pin, of v] unfolding u ck dm dp by blast
  have lw: "last_write (ws @ [w]) q a = (if q = pin then v \<noteq> 0 else last_write ws q a)" for q a
    by (simp add: last_write_def w)
  have "c2 = chip\<lparr>o_state := o_state c2\<rparr>" using c1(2) c2(2)
    by (metis tle6240_priv.surjective tle6240_priv.update_convs(3))
  moreover have "tle6240_chips (tle6240_writes k (ws @ [w]) s) = (tle6240_chips s)[k := c2]"
    by (simp add: c2(1) c1(1))
  moreover have "\<forall>q < 16. bit (o_state c2) q = last_write (ws @ [w]) q (bit (o_state chip) q)"
    using c2(3) c1(3) by (simp add: lw)
  moreover have "pad_level (direct_pad chip q) (trace (tle6240_writes k (ws @ [w]) s)) =
        (if q \<in> fst ` set (ws @ [w]) then Some (last_write (ws @ [w]) q (bit (o_state chip) q))
         else pad_level (direct_pad chip q) (trace s))"
    if q: "q < 16" "bit (o_direct_mask chip) q"
      "\<forall>p < 16. bit (o_direct_mask chip) p \<and> p \<noteq> q \<longrightarrow> direct_pad chip p \<noteq> direct_pad chip q" for q
  proof (cases "q = pin")
    case True
    with q show ?thesis unfolding c2(4) by (simp add: lw) (simp add: w)
  next
    case False
    with q pin have "bit (o_direct_mask chip) pin \<longrightarrow> direct_pad chip q \<noteq> (fst (direct_pad chip pin), snd (direct_pad chip pin))"
      by auto
    then have "pad_level (direct_pad chip q) (trace (tle6240_writes k (ws @ [w]) s)) = pad_level (direct_pad chip q) (trace t)"
      unfolding c2(4) by auto
    with lv q False show ?thesis by (simp add: lw) (simp add: w)
  qed
  ultimately show ?case by blast
qed

subsection \<open>Initialisation\<close>

lemma set_direct_upd [simp]:
  "set_direct ev (chip\<lparr>diag0 := x\<rparr>) ns b = set_direct ev chip ns b"
  "set_direct ev (chip\<lparr>diag1 := x\<rparr>) ns b = set_direct ev chip ns b"
  by (induction ns arbitrary: b) (simp_all add: Let_def)

lemma set_direct_frame [simp]:
  "board.more (set_direct ev chip ns b) = board.more b" "repo_initialized (set_direct ev chip ns b) = repo_initialized b"
  "PIN_USED (set_direct ev chip ns b) = PIN_USED b"
  by (induction ns arbitrary: b) (simp_all add: Let_def split_beta)

lemma set_direct_pads:
  assumes "pad_level q (trace b) = Some True"
  shows "pad_level q (trace (set_direct PalSet chip ns b)) = Some True"
  using assms
proof (induction ns arbitrary: b)
  case (Cons n ns)
  show ?case
    by (simp add: Let_def split_beta) (intro conjI impI Cons.IH; simp add: Cons.prems)
qed simp

lemma set_direct_high:
  assumes "n \<in> set ns" "bit (o_direct_mask chip) (direct_bit n)"
  shows "pad_level (direct_io (the_cfg chip) ! n) (trace (set_direct PalSet chip ns b)) = Some True"
  using assms(1)
proof (induction ns arbitrary: b)
  case (Cons m ns)
  show ?case
  proof (cases "n = m")
    case True
    with assms(2) show ?thesis
      by (simp add: Let_def split_beta and_power_iff set_direct_pads)
  qed (use Cons in \<open>simp add: Let_def split_beta\<close>)
qed simp

lemma chip_test_frame:
  assumes "tle6240_chip_test dev chip b = (ret, chip', b')"
  shows "board.more b' = board.more b" "repo_initialized b' = repo_initialized b" "PIN_USED b' = PIN_USED b"
  using assms
  by (auto simp: tle6240_chip_test_def Let_def tle6240_update_output_and_diag_def split: if_splits)

lemma emit_spi_pads: "pad_level p (trace (emit (Spi c w) b)) = pad_level p (trace b)"
  by simp

lemma chip_test_success:
  assumes t: "tle6240_chip_test dev chip b = (0, chip', b')"
  shows "same_out chip chip'" "diag_8_reguested chip'"
    and "n < 8 \<Longrightarrow> bit (o_direct_mask chip) (direct_bit n) \<Longrightarrow>
      pad_level (direct_io (the_cfg chip) ! n) (trace b') = Some True"
proof -
  obtain b0 x y w where u: "tle6240_update_output_and_diag dev (chip\<lparr>diag0 := x, diag1 := y\<rparr>)
      (emit (Spi (spi_config (the_cfg chip)) w) (set_direct PalSet chip [0..<TLE6240_DIRECT_OUTPUTS] b0)) = (0, chip', b')"
    using t by (auto simp: tle6240_chip_test_def Let_def split: if_splits prod.splits)
  note e = tle6240_update_eq [OF u]
  show "same_out chip chip'" "diag_8_reguested chip'" using e by (simp_all add: same_out_def)
  assume "n < 8" "bit (o_direct_mask chip) (direct_bit n)"
  then have "pad_level (direct_io (the_cfg chip) ! n)
      (trace (set_direct PalSet chip [0..<TLE6240_DIRECT_OUTPUTS] b0)) = Some True"
    by (intro set_direct_high) (simp_all add: TLE6240_DIRECT_OUTPUTS_def)
  then show "pad_level (direct_io (the_cfg chip) ! n) (trace b') = Some True" by (simp add: e(2))
qed

lemma direct_bit_mask:
  "n < 8 \<Longrightarrow> bit (direct_mask_of c) (direct_bit n) \<longleftrightarrow> fst (direct_io c ! n) \<noteq> 0"
proof -
  assume n: "n < 8"
  have u: "[0..<TLE6240_DIRECT_OUTPUTS] = [0, 1, 2, 3, 4, 5, 6, 7]"
    by (simp add: TLE6240_DIRECT_OUTPUTS_def upt_rec)
  have "n \<in> {0, 1, 2, 3, 4, 5, 6, 7}" using n by auto
  then show ?thesis unfolding direct_mask_of_def u
    by (elim insertE) (simp_all add: direct_bit_def bit_simps numeral_2_eq_2 [symmetric])
qed

lemma init_cases:
  assumes "tle6240_chip_init dev chip b = (ret, chip', b')"
  defines "pads \<equiv> tle6240_pads (the_cfg chip)"
  shows "if fst (mark_pads pads b)
    then ret = -1 \<and> chip' = chip \<and> b' = unmark_pads (map fst pads) (snd (mark_pads pads b))
    else \<exists>b1. tle6240_chip_test dev chip (snd (mark_pads pads b)) = (ret, chip', b1) \<and>
      b' = (if ret = 0 then b1 else unmark_pads (map fst pads) b1)"
  using assms(1) unfolding pads_def [symmetric]
  by (auto simp: tle6240_chip_init_def Let_def pads_def split: prod.splits if_splits)

subsection \<open>The driver keeps the registry's contract\<close>

text \<open>Every configured chip has the direct mask its configuration asks for.\<close>

definition tle6240_inv :: "'z tle6240_state_scheme \<Rightarrow> bool" where
  "tle6240_inv s \<longleftrightarrow> (\<forall>chip\<in>set (tle6240_chips s). \<forall>c. cfg chip = Some c \<longrightarrow> o_direct_mask chip = direct_mask_of c)"

definition tle6240_live :: "nat option \<Rightarrow> 'z tle6240_state_scheme \<Rightarrow> bool" where
  "tle6240_live d s \<longleftrightarrow> (\<exists>k < length (tle6240_chips s). d = Some k \<and> cfg (tle6240_chips s ! k) \<noteq> None)"

lemma tle6240_write_keeps:
  assumes "pin < TLE6240_OUTPUTS" "tle6240_inv s" "tle6240_live d s"
  shows "tle6240_inv (snd (tle6240_writePad d pin v s)) \<and> tle6240_live d (snd (tle6240_writePad d pin v s))"
proof -
  obtain k where k: "d = Some k" "k < length (tle6240_chips s)" "cfg (tle6240_chips s ! k) \<noteq> None"
    using assms(3) by (auto simp: tle6240_live_def)
  have pin: "pin < 16" using assms(1) by (simp add: TLE6240_OUTPUTS_def)
  obtain chip' where c': "tle6240_chips (snd (tle6240_writePad d pin v s)) = (tle6240_chips s)[k := chip']"
      "chip' = (tle6240_chips s ! k)\<lparr>o_state := o_state chip'\<rparr>"
    using writePad_effect [OF k(2) pin, of v] k(1) by auto
  have f: "cfg chip' = cfg (tle6240_chips s ! k)" "o_direct_mask chip' = o_direct_mask (tle6240_chips s ! k)"
    by (subst c'(2), simp)+
  have "\<forall>c. cfg chip' = Some c \<longrightarrow> o_direct_mask chip' = direct_mask_of c"
    using assms(2) k(2) unfolding f tle6240_inv_def by simp
  then have "tle6240_inv (snd (tle6240_writePad d pin v s))"
    using assms(2) set_update_subset_insert [of "tle6240_chips s" k chip'] by (auto simp: tle6240_inv_def c'(1))
  moreover have "tle6240_live d (snd (tle6240_writePad d pin v s))"
    using k f c'(1) by (auto simp: tle6240_live_def)
  ultimately show ?thesis by blast
qed

interpretation tle6240: gpiochip_driver "tle6240_ops dev" TLE6240_OUTPUTS tle6240_inv tle6240_live
proof unfold_locales
  fix f pin and d :: "nat option" and v and s :: "'a tle6240_state_scheme"
  show "op_writePad (tle6240_ops dev :: 'a tle6240_state_scheme gpiochip_ops) \<noteq> None \<or>
      op_readPad (tle6240_ops dev :: 'a tle6240_state_scheme gpiochip_ops) \<noteq> None"
    by (simp add: tle6240_ops_def)
  show "0 < TLE6240_OUTPUTS" by (simp add: TLE6240_OUTPUTS_def)
  show "op_writePad (tle6240_ops dev) = Some f \<Longrightarrow> TLE6240_OUTPUTS \<le> pin \<or> d = None \<Longrightarrow> f d pin v s = (-1, s)"
    by (auto simp: tle6240_ops_def tle6240_writePad_def split: option.splits)
  show "op_writePad (tle6240_ops dev) = Some f \<Longrightarrow> pin < TLE6240_OUTPUTS \<Longrightarrow> tle6240_inv s \<Longrightarrow> tle6240_live d s \<Longrightarrow>
      tle6240_inv (snd (f d pin v s)) \<and> tle6240_live d (snd (f d pin v s))"
    using tle6240_write_keeps [of pin s d v] by (auto simp: tle6240_ops_def)
next
  fix g pin and d :: "nat option" and s :: "'a tle6240_state_scheme"
  show "op_getDiag (tle6240_ops dev) = Some g \<Longrightarrow> TLE6240_OUTPUTS \<le> pin \<or> d = None \<Longrightarrow> g d pin s = PIN_INVALID"
    by (auto simp: tle6240_ops_def tle6240_getDiag_def split: option.splits)
next
  fix h pin and d :: "nat option" and s :: "'a tle6240_state_scheme"
  show "op_readPad (tle6240_ops dev) = Some h \<Longrightarrow> pin < TLE6240_OUTPUTS \<Longrightarrow> tle6240_inv s \<Longrightarrow> tle6240_live d s \<Longrightarrow>
      tle6240_inv (snd (h d pin s)) \<and> tle6240_live d (snd (h d pin s))"
    by (simp add: tle6240_ops_def)
qed

subsection \<open>Properties\<close>

lemma buses_distinct_upd:
  assumes "buses_distinct s" "k < length (tle6240_chips s)" "chip' = (tle6240_chips s ! k)\<lparr>o_state := x\<rparr>"
    and "tle6240_chips t = (tle6240_chips s)[k := chip']"
  shows "buses_distinct t"
proof -
  have e: "active chip' = active (tle6240_chips s ! k)" "chip_bus chip' = chip_bus (tle6240_chips s ! k)"
    by (simp_all add: assms(3) active_def chip_bus_def)
  have "active (tle6240_chips t ! i) = active (tle6240_chips s ! i) \<and>
      chip_bus (tle6240_chips t ! i) = chip_bus (tle6240_chips s ! i)" if "i < length (tle6240_chips s)" for i
    using that e assms(2) by (cases "i = k") (simp_all add: assms(4))
  with assms(1) show ?thesis by (simp add: buses_distinct_def assms(4))
qed

text \<open>
  C24: after any writes to the pins of a running chip and one turn of the driver thread, the chip
  has last been told, for every output it switches over SPI, the value last written to it (the
  old one if there was none); an output driven directly has that value on its pad as soon as it
  was written.
\<close>

theorem tle6240_outputs_follow_writes:
  assumes s: "buses_distinct s" "k < length (tle6240_chips s)" "active (tle6240_chips s ! k)"
    and ws: "\<forall>w\<in>set ws. fst w < 16" and pin: "pin < 16"
  defines "chip \<equiv> tle6240_chips s ! k"
  assumes pads: "\<forall>p < 16. bit (o_direct_mask chip) p \<and> p \<noteq> pin \<longrightarrow> direct_pad chip p \<noteq> direct_pad chip pin"
  shows "if bit (o_direct_mask chip) pin
    then pin \<in> fst ` set ws \<longrightarrow>
      pad_level (direct_pad chip pin) (trace (tle6240_driver_thread dev (tle6240_writes k ws s))) =
        Some (last_write ws pin (bit (o_state chip) pin))
    else commanded (chip_bus chip) (trace (tle6240_driver_thread dev (tle6240_writes k ws s))) pin =
        Some (last_write ws pin (bit (o_state chip) pin))"
proof -
  define t where "t = tle6240_writes k ws s"
  obtain chip' where c': "tle6240_chips t = (tle6240_chips s)[k := chip']"
    "chip' = chip\<lparr>o_state := o_state chip'\<rparr>"
    "\<forall>q < 16. bit (o_state chip') q = last_write ws q (bit (o_state chip) q)"
    "bit (o_direct_mask chip) pin \<longrightarrow> pad_level (direct_pad chip pin) (trace t) =
        (if pin \<in> fst ` set ws then Some (last_write ws pin (bit (o_state chip) pin))
         else pad_level (direct_pad chip pin) (trace s))"
    using writes_effect [OF s(2) ws, folded t_def chip_def] pads pin by blast
  have f: "active chip' = active chip" "chip_bus chip' = chip_bus chip" "o_direct_mask chip' = o_direct_mask chip"
    by (subst c'(2), simp add: active_def chip_bus_def)+
  have t: "buses_distinct t" "k < length (tle6240_chips t)" "tle6240_chips t ! k = chip'" "active chip'"
    using buses_distinct_upd [OF s(1,2) c'(2) [unfolded chip_def] c'(1)] c'(1) s f by (simp_all add: chip_def)
  note tu = thread_upto [OF t(1) le_refl refl, of dev]
  have "commanded (chip_bus chip') (trace (tle6240_driver_thread dev t)) pin =
      Some (bit (o_state chip' AND NOT (o_direct_mask chip')) pin)"
    using tu t(2-4) pin unfolding tle6240_driver_thread_def by blast
  moreover have "pad_level (direct_pad chip pin) (trace (tle6240_driver_thread dev t)) = pad_level (direct_pad chip pin) (trace t)"
    using tu unfolding tle6240_driver_thread_def by blast
  ultimately show ?thesis using c'(3,4) pin f by (simp add: t_def bit_and_iff bit_not_iff_eq)
qed

text \<open>
  A successful initialisation leaves every directly driven output switched on: the pad was
  last set for the wiring test and is not cleared again, although the requested state of the pin
  has not changed (it is off after \<open>tle6240_add\<close>).
\<close>

theorem tle6240_init_leaves_direct_high:
  assumes "tle6240_init dev (Some k) s = (0, s')" and "k < length (tle6240_chips s)"
    and "n < 8" and "bit (o_direct_mask (tle6240_chips s ! k)) (direct_bit n)"
  shows "pad_level (direct_io (the_cfg (tle6240_chips s ! k)) ! n) (trace s') = Some True \<and>
    o_state (tle6240_chips s' ! k) = o_state (tle6240_chips s ! k) \<and>
    drv_state (tle6240_chips s' ! k) = TLE6240_READY"
proof -
  let ?chip = "tle6240_chips s ! k"
  obtain chip1 b1 where i: "tle6240_chip_init dev ?chip s = (0, chip1, b1)"
    and s': "s' = (upd_chip k (chip1\<lparr>drv_state := TLE6240_READY\<rparr>) b1)\<lparr>drv_task_ready := True\<rparr>"
    using assms(1) by (auto simp: tle6240_init_def split: prod.splits if_splits)
  have t: "tle6240_chip_test dev ?chip (snd (mark_pads (tle6240_pads (the_cfg ?chip)) s)) = (0, chip1, b1)"
    using init_cases [OF i] by (auto split: if_splits)
  have "board.more b1 = board.more s" using chip_test_frame(1) [OF t] by simp
  then have "tle6240_chips b1 = tle6240_chips s" by (rule board_more_state)
  with chip_test_success [OF t] assms show ?thesis by (simp add: s' same_out_def)
qed

text \<open>
  When one of the chip's pins already belongs to somebody else, initialisation fails with
  -1, and its clean-up takes that pin away from its owner.
\<close>

theorem tle6240_init_taken_pin:
  assumes "repo_initialized s" and "k < length (tle6240_chips s)"
    and "pads_valid (map fst (tle6240_pads (the_cfg (tle6240_chips s ! k))))"
    and "q \<in> set (map fst (tle6240_pads (the_cfg (tle6240_chips s ! k))))" "fst q \<noteq> 0" "pad_owner s q = Some other"
  shows "fst (tle6240_init dev (Some k) s) = -1 \<and> pad_owner (snd (tle6240_init dev (Some k) s)) q = None"
proof -
  let ?chip = "tle6240_chips s ! k"
  obtain ret chip1 b1 where i: "tle6240_chip_init dev ?chip s = (ret, chip1, b1)" by (metis prod_cases3)
  note m = mark_taken_then_unmark [OF assms(1,3-6)]
  have r: "ret = -1" "b1 = unmark_pads (map fst (tle6240_pads (the_cfg ?chip))) (snd (mark_pads (tle6240_pads (the_cfg ?chip)) s))"
    using init_cases [OF i] m(1) by auto
  have "tle6240_init dev (Some k) s = (-1, upd_chip k chip1 b1)" using i r(1) by (simp add: tle6240_init_def)
  with m(2) r(2) show ?thesis by (simp add: pad_owner_def)
qed

text \<open>
  The chip answers a word with the diagnosis its previous word asked for (tle6240.c: "full
  diagnostic output on next access"): \<open>a0\<close> for outputs 1 to 8, \<open>a1\<close> for 9 to 16.
\<close>

definition pipelined :: "device \<Rightarrow> nat \<Rightarrow> u16 \<Rightarrow> u16 \<Rightarrow> bool" where
  "pipelined dev c a0 a1 \<longleftrightarrow> (\<forall>tr w tx. last_spi c (\<lambda>_. True) tr = Some w \<longrightarrow>
     (drop_bit 8 w = 0x30 \<longrightarrow> dev (tr @ [Spi c tx]) = a0) \<and> (drop_bit 8 w = 0x3f \<longrightarrow> dev (tr @ [Spi c tx]) = a1))"

text \<open>When the driver believes group 2 was asked for last, it was.\<close>

definition diag_sync :: "tle6240_priv \<Rightarrow> hw_event list \<Rightarrow> bool" where
  "diag_sync chip tr \<longleftrightarrow> (diag_8_reguested chip \<longrightarrow>
     (\<exists>w. last_spi (chip_bus chip) (\<lambda>_. True) tr = Some w \<and> drop_bit 8 w = 0x3f))"

lemma update_diag:
  assumes u: "tle6240_update_output_and_diag dev chip b = (ret, chip', b')"
    and p: "pipelined dev (chip_bus chip) a0 a1" and d: "diag_sync chip (trace b)"
  shows "diag0 chip' = a0" "diag1 chip' = a1" "diag_sync chip' (trace b')"
proof -
  let ?c = "spi_config (the_cfg chip)"
  have cb: "chip_bus chip = ?c" "chip_bus chip' = ?c"
    using tle6240_update_eq(6) [OF u] by (simp_all add: chip_bus_def the_cfg_def)
  have hi: "drop_bit 8 (out_low chip) = 0x30" "drop_bit 8 (out_high chip) = 0x3f"
    by (simp_all add: out_low_def out_high_def cmd_or_high)
  have r: "dev (tr @ [Spi ?c tx]) = (if drop_bit 8 w = 0x30 then a0 else a1)"
    if "last_spi ?c (\<lambda>_. True) tr = Some w" "drop_bit 8 w = 0x30 \<or> drop_bit 8 w = 0x3f" for tr tx w
    using p that unfolding pipelined_def cb by auto
  have r2: "dev (tr @ [Spi ?c w, Spi ?c tx]) = (if drop_bit 8 w = 0x30 then a0 else a1)"
    if "drop_bit 8 w = 0x30 \<or> drop_bit 8 w = 0x3f" for tr tx w
    using r [of "tr @ [Spi ?c w]" w tx] that by simp
  have r3: "dev (tr @ [Spi ?c v, Spi ?c w, Spi ?c tx]) = (if drop_bit 8 w = 0x30 then a0 else a1)"
    if "drop_bit 8 w = 0x30 \<or> drop_bit 8 w = 0x3f" for tr tx v w
    using r2 [of w "tr @ [Spi ?c v]" tx] that by simp
  have "diag0 chip' = a0 \<and> diag1 chip' = a1"
  proof (cases "diag_8_reguested chip")
    case True
    with d obtain w where w: "last_spi ?c (\<lambda>_. True) (trace b) = Some w" "drop_bit 8 w = 0x3f"
      by (auto simp: diag_sync_def cb)
    have "diag1 chip' = dev (trace b @ [Spi ?c (out_low chip)])"
      "diag0 chip' = dev (trace b @ [Spi ?c (out_low chip), Spi ?c (out_high chip)])"
      using u True by (auto simp: tle6240_update_output_and_diag_def Let_def out_low_def out_high_def)
    then show ?thesis using r [OF w(1), of "out_low chip"] w(2) r2 [of "out_low chip"] hi by simp
  next
    case False
    have "diag0 chip' = dev (trace b @ [Spi ?c (out_low chip), Spi ?c (out_high chip)])"
      "diag1 chip' = dev (trace b @ [Spi ?c (out_low chip), Spi ?c (out_high chip), Spi ?c (out_high chip)])"
      using u False by (auto simp: tle6240_update_output_and_diag_def Let_def out_low_def out_high_def)
    then show ?thesis using r2 [of "out_low chip"] r3 [of "out_high chip"] hi by simp
  qed
  then show "diag0 chip' = a0" "diag1 chip' = a1" by auto
  have "last_spi ?c (\<lambda>_. True) (trace b') = Some (out_high chip)"
    unfolding tle6240_update_eq(2) [OF u] out_words_def
    using last_spi_words [of ?c "\<lambda>_. True" "trace b" "[out_low chip]" "out_high chip"]
      last_spi_words [of ?c "\<lambda>_. True" "trace b" "[out_low chip, out_high chip]" "out_high chip"]
    by simp
  with hi show "diag_sync chip' (trace b')" by (simp add: diag_sync_def cb)
qed

text \<open>
  The fault reported for an output after the thread has served its chip is decoded from the two
  bits the chip answered for that output in this turn, whether or not the driver could save the
  extra transfer; and the turn leaves it able to save it next time.
\<close>

theorem tle6240_diag_current:
  assumes "active (tle6240_chips s ! k)" "k < length (tle6240_chips s)" "pin < 16"
    and "pipelined dev (chip_bus (tle6240_chips s ! k)) a0 a1" and "diag_sync (tle6240_chips s ! k) (trace s)"
  shows "let s' = tle6240_thread_chip dev k s;
      val = drop_bit ((pin mod 8) * 2) (if pin > 7 then a1 else a0) AND 0x03
    in tle6240_getDiag (Some k) pin s' =
        (if val = 3 then PIN_OK else if val = 2 then PIN_OVERLOAD OR PIN_DRIVER_OVERTEMP
         else if val = 1 then PIN_OPEN else PIN_SHORT_TO_GND) \<and>
      diag_sync (tle6240_chips s' ! k) (trace s') \<and> diag_8_reguested (tle6240_chips s' ! k)"
proof -
  obtain ret chip' s1 where u: "tle6240_update_output_and_diag dev (tle6240_chips s ! k) s = (ret, chip', s1)"
    by (metis prod_cases3)
  note d = update_diag [OF u assms(4,5)]
  have t: "tle6240_thread_chip dev k s = upd_chip k chip' s1"
    using assms(1) u by (auto simp: tle6240_thread_chip_def active_def Let_def)
  have "tle6240_chips s1 = tle6240_chips s" using tle6240_update_eq(3) [OF u] by (rule board_more_state)
  then show ?thesis using assms(2,3) d tle6240_update_eq(11) [OF u]
    by (simp add: t Let_def tle6240_getDiag_def TLE6240_OUTPUTS_def)
qed

subsection \<open>Witnesses\<close>

text \<open>A board with one chip whose first output is also driven from pad 3 of port 1.\<close>

definition demo_cfg :: tle6240_config where
  "demo_cfg = \<lparr>spi_bus = Some 1, spi_config = 5, direct_io = (1, 3) # replicate 7 (0, 0), reset = (0, 0)\<rparr>"

definition demo_chip :: tle6240_priv where
  "demo_chip = \<lparr>cfg = Some demo_cfg, o_state_cached = 0, o_state = 0, o_direct_mask = 1, diag0 = 0, diag1 = 0,
     diag_8_reguested = False, drv_state = TLE6240_WAIT_INIT\<rparr>"

definition demo_state :: tle6240_state where
  "demo_state = \<lparr>trace = [], PIN_USED = (\<lambda>_. None), totalPinsUsed = 0, repo_initialized = True, boardErr = None,
     tle6240_chips = [demo_chip], tle6240_wake = 0, drv_task_ready = False\<rparr>"

text \<open>Echoes the loop-back word and reports the input as the pad drives it.\<close>

definition demo_dev :: device where
  "demo_dev tr = (if last tr = Spi 5 0x5555 then 0x5555 else if pad_level (1, 3) tr = Some True then 0x0100 else 0)"

lemma demo_simps [simp]:
  "tle6240_chips demo_state = [demo_chip]" "trace demo_state = []" "repo_initialized demo_state"
  "o_direct_mask demo_chip = 1" "o_state demo_chip = 0" "the_cfg demo_chip = demo_cfg" "active demo_chip"
  "direct_io demo_cfg = (1, 3) # replicate 7 (0, 0)" "reset demo_cfg = (0, 0)" "spi_config demo_cfg = 5"
  "chip_bus demo_chip = 5" "buses_distinct demo_state" "\<not> diag_8_reguested demo_chip"
  by (simp_all add: demo_state_def demo_chip_def the_cfg_def active_def demo_cfg_def chip_bus_def buses_distinct_def)

theorem tle6240_outputs_follow_writes_witness:
  "commanded 5 (trace (tle6240_driver_thread demo_dev (tle6240_writes 0 [(9, 1), (2, 1), (9, 0)] demo_state))) 2 = Some True"
  using tle6240_outputs_follow_writes [of demo_state 0 "[(9, 1), (2, 1), (9, 0)]" 2 demo_dev]
  by (simp add: last_write_def bit_1_iff direct_pad_def)

theorem tle6240_diag_current_witness:
  "tle6240_getDiag (Some 0) 9 (tle6240_thread_chip (\<lambda>tr. if last_spi 5 (\<lambda>_. True) (butlast tr) = None then 0
      else if drop_bit 8 (the (last_spi 5 (\<lambda>_. True) (butlast tr))) = 0x30 then 0xFFFF else 0xFFF7) 0 demo_state) = PIN_OPEN"
proof -
  let ?dev = "\<lambda>tr. if last_spi 5 (\<lambda>_. True) (butlast tr) = None then 0
      else if drop_bit 8 (the (last_spi 5 (\<lambda>_. True) (butlast tr))) = 0x30 then 0xFFFF else 0xFFF7 :: u16"
  have "pipelined ?dev 5 0xFFFF 0xFFF7" by (auto simp: pipelined_def)
  moreover have "diag_sync demo_chip []" by (simp add: diag_sync_def)
  ultimately show ?thesis using tle6240_diag_current [of demo_state 0 9 ?dev "0xFFFF" "0xFFF7"]
    by (simp add: Let_def)
qed

lemma upt_8: "[0..<TLE6240_DIRECT_OUTPUTS] = [0, 1, 2, 3, 4, 5, 6, 7]"
  by (simp add: TLE6240_DIRECT_OUTPUTS_def upt_rec)

lemma demo_mark: "mark_pads (tle6240_pads demo_cfg) demo_state =
    (False, demo_state\<lparr>PIN_USED := (\<lambda>_. None)(3 := Some ''tle6240 DIRECT IO''), totalPinsUsed := 1\<rparr>)"
  by (simp add: tle6240_pads_def TLE6240_DIRECT_OUTPUTS_def gpio_pin_markUsed_def getBrainIndex_def getPortIndex_def
      PORT_SIZE_def mark_pads_none) (simp add: demo_state_def)

theorem tle6240_init_leaves_direct_high_witness:
  "\<exists>s'. tle6240_init demo_dev (Some 0) demo_state = (0, s') \<and> pad_level (1, 3) (trace s') = Some True \<and>
     o_state (tle6240_chips s' ! 0) = 0"
proof -
  have "fst (tle6240_init demo_dev (Some 0) demo_state) = 0"
    by (simp add: tle6240_init_def tle6240_chip_init_def demo_mark tle6240_chip_test_def Let_def upt_8 direct_bit_def
        demo_dev_def io_mask_def split_beta pad_level_def last_such_def on_pad_def CMD_IO_SHORTDIAG_def
        CMD_CHIP_def tle6240_update_output_and_diag_def)
  then obtain s' where s': "tle6240_init demo_dev (Some 0) demo_state = (0, s')" by (metis prod.collapse)
  from tle6240_init_leaves_direct_high [OF this, of 0] s' show ?thesis
    by (simp add: direct_bit_def bit_1_iff)
qed

theorem tle6240_init_taken_pin_witness:
  "let s = demo_state\<lparr>PIN_USED := (\<lambda>_. None)(3 := Some ''CAN'')\<rparr>; r = tle6240_init demo_dev (Some 0) s
   in pad_owner s (1, 3) = Some ''CAN'' \<and> fst r = -1 \<and> pad_owner (snd r) (1, 3) = None"
  using tle6240_init_taken_pin [of "demo_state\<lparr>PIN_USED := (\<lambda>_. None)(3 := Some ''CAN'')\<rparr>" 0 "(1, 3)" "''CAN''" demo_dev]
  by (simp add: Let_def pads_valid_def real_pads_def tle6240_pads_def TLE6240_DIRECT_OUTPUTS_def gpio_valid_def
      pad_owner_def gpio_index_def)

end
