(* ===== verification/Mc33972.thy ===== *)
theory Mc33972
  imports Spi_Bus
begin

text \<open>
  The driver of the 22-input switch monitor MC33972,
  src/firmware/hw_layer/drivers/gpio/mc33972.c.  A command is three bytes, most significant first;
  the chip answers every command with its 24 status bits, which the driver keeps.
\<close>

definition MC33972_INPUTS :: nat where "MC33972_INPUTS = 22"

record mc33972_config =
  spi_bus :: "nat option"
  spi_config :: nat
  ssport :: ioportid

datatype mc33972_drv_state = MC33972_DISABLED | MC33972_WAIT_INIT | MC33972_READY | MC33972_FAILED

record mc33972_priv =
  cfg :: "mc33972_config option"
  i_state :: u32
  analog_ch :: u8
  drv_state :: mc33972_drv_state

record mc33972_state = board +
  mc33972_chips :: "mc33972_priv list"
  mc33972_task_ready :: bool

definition CMD :: "u32 \<Rightarrow> u32 \<Rightarrow> u32" where
  "CMD c dat = push_bit 16 c OR dat"

definition CMD_STATUS :: u32 where "CMD_STATUS = CMD 0x00 0x00"
definition CMD_METALLIC :: "nat \<Rightarrow> u32 \<Rightarrow> u32" where "CMD_METALLIC i m = CMD (if i \<noteq> 0 then 0x05 else 0x04) m"
definition CMD_TRI_STATE :: "nat \<Rightarrow> u32 \<Rightarrow> u32" where "CMD_TRI_STATE i m = CMD (if i \<noteq> 0 then 0x0a else 0x09) m"
definition CMD_RST :: u32 where "CMD_RST = CMD 0x7f 0x00"
definition FLAG_THERM :: u32 where "FLAG_THERM = push_bit 23 1"
definition FLAG_PIN :: "nat \<Rightarrow> u32" where "FLAG_PIN pin = push_bit pin 1"

lemmas mc33972_cmd_defs = CMD_def CMD_STATUS_def CMD_METALLIC_def CMD_TRI_STATE_def CMD_RST_def

definition the_cfg72 :: "mc33972_priv \<Rightarrow> mc33972_config" where
  "the_cfg72 chip = (case cfg chip of Some c \<Rightarrow> c | None \<Rightarrow> \<lparr>spi_bus = None, spi_config = 0, ssport = 0\<rparr>)"

definition mc33972_spi_w ::
    "device \<Rightarrow> mc33972_priv \<Rightarrow> u32 \<Rightarrow> 'z board_scheme \<Rightarrow> int \<times> mc33972_priv \<times> 'z board_scheme" where
  "mc33972_spi_w dev chip tx b =
     (let c = spi_config (the_cfg72 chip);
          (rx0, b) = spi_exchange dev c (ucast (drop_bit 16 tx AND 0xff)) b;
          (rx1, b) = spi_exchange dev c (ucast (drop_bit 8 tx AND 0xff)) b;
          (rx2, b) = spi_exchange dev c (ucast (tx AND 0xff)) b;
          rxb0 = ucast rx0 :: u8; rxb1 = ucast rx1 :: u8; rxb2 = ucast rx2 :: u8
      in (0, chip\<lparr>i_state := push_bit 16 (ucast rxb0) OR push_bit 8 (ucast rxb1) OR ucast rxb2\<rparr>, b))"

definition mc33972_update_status ::
    "device \<Rightarrow> mc33972_priv \<Rightarrow> 'z board_scheme \<Rightarrow> int \<times> mc33972_priv \<times> 'z board_scheme" where
  "mc33972_update_status dev chip b = mc33972_spi_w dev chip CMD_STATUS b"

definition mc33972_chip_init ::
    "device \<Rightarrow> mc33972_priv \<Rightarrow> 'z board_scheme \<Rightarrow> int \<times> mc33972_priv \<times> 'z board_scheme" where
  "mc33972_chip_init dev chip b =
     (let (ret, chip, b) = mc33972_spi_w dev chip CMD_RST b
      in if ret \<noteq> 0 then (ret, chip, b)
         else
           let b = emit (Sleep 3) b;
               (ret, chip, b) = mc33972_spi_w dev chip (CMD_TRI_STATE 0 0) b;
               (r, chip, b) = mc33972_spi_w dev chip (CMD_TRI_STATE 1 0) b;
               ret = ret OR r
           in if ret \<noteq> 0 then (ret, chip, b)
              else
                let (ret, chip, b) = mc33972_spi_w dev chip (CMD_METALLIC 0 0) b;
                    (r, chip, b) = mc33972_spi_w dev chip (CMD_METALLIC 1 0) b
                in (ret OR r, chip, b))"

definition upd_chip72 :: "nat \<Rightarrow> mc33972_priv \<Rightarrow> 'z mc33972_state_scheme \<Rightarrow> 'z mc33972_state_scheme" where
  "upd_chip72 i chip s = s\<lparr>mc33972_chips := (mc33972_chips s)[i := chip]\<rparr>"

definition mc33972_thread_chip :: "device \<Rightarrow> nat \<Rightarrow> 'z mc33972_state_scheme \<Rightarrow> 'z mc33972_state_scheme" where
  "mc33972_thread_chip dev i s =
     (let chip = mc33972_chips s ! i
      in if cfg chip = None \<or> drv_state chip = MC33972_DISABLED \<or> drv_state chip = MC33972_FAILED then s
         else (case mc33972_update_status dev chip s of (ret, chip, s) \<Rightarrow> upd_chip72 i chip s))"

text \<open>One turn of the thread's endless loop.\<close>

definition mc33972_driver_thread :: "device \<Rightarrow> 'z mc33972_state_scheme \<Rightarrow> 'z mc33972_state_scheme" where
  "mc33972_driver_thread dev s = fold (mc33972_thread_chip dev) [0..<length (mc33972_chips s)] s"

definition mc33972_readPad ::
    "nat option \<Rightarrow> nat \<Rightarrow> 'z mc33972_state_scheme \<Rightarrow> int \<times> 'z mc33972_state_scheme" where
  "mc33972_readPad dat pin s =
     (case dat of
        None \<Rightarrow> (-1, s)
      | Some k \<Rightarrow>
          if pin \<ge> MC33972_INPUTS then (-1, s)
          else (if i_state (mc33972_chips s ! k) AND FLAG_PIN pin \<noteq> 0 then 1 else 0, s))"

definition mc33972_getDiag :: "nat option \<Rightarrow> nat \<Rightarrow> 'z mc33972_state_scheme \<Rightarrow> brain_pin_diag" where
  "mc33972_getDiag dat pin s =
     (case dat of
        None \<Rightarrow> PIN_INVALID
      | Some k \<Rightarrow>
          if pin \<ge> MC33972_INPUTS then PIN_INVALID
          else if i_state (mc33972_chips s ! k) AND FLAG_THERM \<noteq> 0 then PIN_DRIVER_OVERTEMP else PIN_OK)"

definition mc33972_init ::
    "device \<Rightarrow> nat option \<Rightarrow> 'z mc33972_state_scheme \<Rightarrow> int \<times> 'z mc33972_state_scheme" where
  "mc33972_init dev dat s =
     (case dat of
        None \<Rightarrow> (-1, s)
      | Some k \<Rightarrow>
          (case mc33972_chip_init dev (mc33972_chips s ! k) s of
             (ret, chip, s) \<Rightarrow>
               if ret \<noteq> 0 then (ret, upd_chip72 k chip s)
               else (0, (upd_chip72 k (chip\<lparr>drv_state := MC33972_READY\<rparr>) s)\<lparr>mc33972_task_ready := True\<rparr>)))"

definition mc33972_deinit :: "nat option \<Rightarrow> 'z mc33972_state_scheme \<Rightarrow> int \<times> 'z mc33972_state_scheme" where
  "mc33972_deinit dat s = (0, s)"

definition mc33972_ops :: "device \<Rightarrow> 'z mc33972_state_scheme gpiochip_ops" where
  "mc33972_ops dev = \<lparr>op_setPadMode = None, op_writePad = None, op_readPad = Some mc33972_readPad,
     op_getDiag = Some mc33972_getDiag, op_init = Some (mc33972_init dev), op_deinit = Some mc33972_deinit\<rparr>"

definition mc33972_add ::
    "device \<Rightarrow> nat \<Rightarrow> mc33972_config option \<Rightarrow> 'z mc33972_state_scheme gpio_core \<Rightarrow> 'z mc33972_state_scheme
       \<Rightarrow> int \<times> 'z mc33972_state_scheme gpio_core \<times> 'z mc33972_state_scheme" where
  "mc33972_add dev index c gc s =
     (case c of
        None \<Rightarrow> (-1, gc, s)
      | Some conf \<Rightarrow>
          if spi_bus conf = None \<or> index \<ge> length (mc33972_chips s) then (-1, gc, s)
          else if ssport conf = 0 then (-1, gc, s)
          else if cfg (mc33972_chips s ! index) \<noteq> None then (-1, gc, s)
          else
            let s = upd_chip72 index ((mc33972_chips s ! index)\<lparr>cfg := Some conf, i_state := 0,
                      drv_state := MC33972_WAIT_INIT\<rparr>) s;
                (ret, gc) = gpiochip_register ''mc33972'' (Some (mc33972_ops dev)) MC33972_INPUTS (Some index) gc
            in (ret, gc, s))"

subsection \<open>Transfers\<close>

text \<open>The bytes of a command, and the status word put together from three answers.\<close>

definition cmd_bytes :: "u32 \<Rightarrow> u16 list" where
  "cmd_bytes tx = [ucast (drop_bit 16 tx AND 0xff), ucast (drop_bit 8 tx AND 0xff), ucast (tx AND 0xff)]"

definition status_word :: "u16 \<Rightarrow> u16 \<Rightarrow> u16 \<Rightarrow> u32" where
  "status_word r0 r1 r2 = push_bit 16 (ucast (ucast r0 :: u8)) OR push_bit 8 (ucast (ucast r1 :: u8)) OR ucast (ucast r2 :: u8)"

definition answer :: "device \<Rightarrow> nat \<Rightarrow> hw_event list \<Rightarrow> u16 list \<Rightarrow> nat \<Rightarrow> u16" where
  "answer dev c tr ws i = dev (tr @ map (Spi c) (take (Suc i) ws))"

lemma mc33972_spi_w_eq:
  assumes "mc33972_spi_w dev chip tx b = (ret, chip', b')"
  defines "c \<equiv> spi_config (the_cfg72 chip)"
  shows "ret = 0" "trace b' = trace b @ map (Spi c) (cmd_bytes tx)" "board.more b' = board.more b"
    "chip' = chip\<lparr>i_state := status_word (answer dev c (trace b) (cmd_bytes tx) 0)
       (answer dev c (trace b) (cmd_bytes tx) 1) (answer dev c (trace b) (cmd_bytes tx) 2)\<rparr>"
  using assms(1)
  by (auto simp: mc33972_spi_w_def spi_exchange_def Let_def cmd_bytes_def status_word_def answer_def c_def numeral_2_eq_2)

lemma the_cfg72_upd [simp]: "the_cfg72 (chip\<lparr>i_state := x\<rparr>) = the_cfg72 chip"
  by (simp add: the_cfg72_def)

lemma status_bits:
  "pin < 8 \<Longrightarrow> bit (status_word r0 r1 r2) pin = bit r2 pin"
  "8 \<le> pin \<Longrightarrow> pin < 16 \<Longrightarrow> bit (status_word r0 r1 r2) pin = bit r1 (pin - 8)"
  "16 \<le> pin \<Longrightarrow> pin < 24 \<Longrightarrow> bit (status_word r0 r1 r2) pin = bit r0 (pin - 16)"
  unfolding status_word_def by (auto simp: bit_simps)

lemma mc33972_state_frame:
  assumes "board.more s' = board.more (s :: 'z mc33972_state_scheme)"
  shows "mc33972_chips s' = mc33972_chips s"
  using assms by (cases s; cases s'; simp)

lemma upd_chip72_simps [simp]:
  "trace (upd_chip72 i chip s) = trace s" "mc33972_chips (upd_chip72 i chip s) = (mc33972_chips s)[i := chip]"
  by (simp_all add: upd_chip72_def)

definition polled72 :: "mc33972_priv \<Rightarrow> bool" where
  "polled72 chip \<longleftrightarrow> cfg chip \<noteq> None \<and> drv_state chip \<noteq> MC33972_DISABLED \<and> drv_state chip \<noteq> MC33972_FAILED"

lemma mc33972_thread_chip_eq:
  assumes "polled72 (mc33972_chips s ! i)"
  defines "c \<equiv> spi_config (the_cfg72 (mc33972_chips s ! i))"
  shows "mc33972_chips (mc33972_thread_chip dev i s) = (mc33972_chips s)[i := (mc33972_chips s ! i)
      \<lparr>i_state := status_word (answer dev c (trace s) [0, 0, 0] 0) (answer dev c (trace s) [0, 0, 0] 1)
         (answer dev c (trace s) [0, 0, 0] 2)\<rparr>] \<and>
    trace (mc33972_thread_chip dev i s) = trace s @ map (Spi c) [0, 0, 0]"
proof -
  obtain ret chip' s1 where u: "mc33972_spi_w dev (mc33972_chips s ! i) CMD_STATUS s = (ret, chip', s1)"
    by (metis prod_cases3)
  have b: "cmd_bytes CMD_STATUS = [0, 0, 0]" by (simp add: cmd_bytes_def mc33972_cmd_defs)
  note e = mc33972_spi_w_eq [OF u, folded c_def, unfolded b]
  have "mc33972_thread_chip dev i s = upd_chip72 i chip' s1"
    using assms(1) u by (auto simp: mc33972_thread_chip_def polled72_def Let_def mc33972_update_status_def)
  then show ?thesis using e mc33972_state_frame [OF e(3)] by simp
qed

lemma mc33972_thread_idle: "\<not> polled72 (mc33972_chips s ! i) \<Longrightarrow> mc33972_thread_chip dev i s = s"
  by (auto simp: mc33972_thread_chip_def polled72_def Let_def)

text \<open>What a chip holds is what it answered to a status command at some point of the trace.\<close>

definition sampled72 :: "device \<Rightarrow> hw_event list \<Rightarrow> mc33972_priv \<Rightarrow> hw_event list \<Rightarrow> mc33972_priv \<Rightarrow> bool" where
  "sampled72 dev tr0 chip tr' chip' \<longleftrightarrow>
     (\<exists>mid rest. tr' = (tr0 @ mid) @ map (Spi (spi_config (the_cfg72 chip))) [0, 0, 0] @ rest \<and>
       i_state chip' = status_word (answer dev (spi_config (the_cfg72 chip)) (tr0 @ mid) [0, 0, 0] 0)
         (answer dev (spi_config (the_cfg72 chip)) (tr0 @ mid) [0, 0, 0] 1)
         (answer dev (spi_config (the_cfg72 chip)) (tr0 @ mid) [0, 0, 0] 2))"

lemma sampled72_later: "sampled72 dev tr0 chip tr' chip' \<Longrightarrow> sampled72 dev tr0 chip (tr' @ es) chip'"
  by (fastforce simp: sampled72_def)

lemma mc33972_thread_upto:
  "n \<le> length (mc33972_chips s) \<Longrightarrow>
    length (mc33972_chips (fold (mc33972_thread_chip dev) [0..<n] s)) = length (mc33972_chips s) \<and>
    (\<exists>es. trace (fold (mc33972_thread_chip dev) [0..<n] s) = trace s @ es) \<and>
    (\<forall>k \<ge> n. mc33972_chips (fold (mc33972_thread_chip dev) [0..<n] s) ! k = mc33972_chips s ! k) \<and>
    (\<forall>k < n. polled72 (mc33972_chips s ! k) \<longrightarrow> sampled72 dev (trace s) (mc33972_chips s ! k)
       (trace (fold (mc33972_thread_chip dev) [0..<n] s)) (mc33972_chips (fold (mc33972_thread_chip dev) [0..<n] s) ! k))"
proof (induction n)
  case (Suc n)
  define t where "t = fold (mc33972_thread_chip dev) [0..<n] s"
  let ?t' = "mc33972_thread_chip dev n t" and ?c = "mc33972_chips s ! n"
  have f: "fold (mc33972_thread_chip dev) [0..<Suc n] s = ?t'" by (simp add: t_def)
  note IH = Suc.IH [folded t_def]
  then obtain es where es: "trace t = trace s @ es" and cn: "mc33972_chips t ! n = ?c"
    and len: "length (mc33972_chips t) = length (mc33972_chips s)" using Suc.prems by auto
  show ?case
  proof (cases "polled72 ?c")
    case False
    then show ?thesis unfolding f using IH Suc.prems mc33972_thread_idle [of t n dev] cn
      by (auto simp: less_Suc_eq)
  next
    case True
    note e = mc33972_thread_chip_eq [of t n dev, unfolded cn, OF True]
    have "sampled72 dev (trace s) ?c (trace ?t') (mc33972_chips ?t' ! n)"
      using e len Suc.prems unfolding es sampled72_def by (intro exI [of _ es] exI [of _ "[]"]) simp
    moreover have "sampled72 dev (trace s) (mc33972_chips s ! k) (trace ?t') (mc33972_chips ?t' ! k)"
      if "k < n" "polled72 (mc33972_chips s ! k)" for k
    proof -
      have "sampled72 dev (trace s) (mc33972_chips s ! k) (trace t) (mc33972_chips t ! k)"
        using IH Suc.prems that by simp
      from sampled72_later [OF this] that show ?thesis by (simp add: conjunct1 [OF e] conjunct2 [OF e])
    qed
    ultimately show ?thesis unfolding f using IH Suc.prems e es by (auto simp: less_Suc_eq)
  qed
qed simp

subsection \<open>The driver keeps the registry's contract\<close>

definition mc33972_live :: "nat option \<Rightarrow> 'z mc33972_state_scheme \<Rightarrow> bool" where
  "mc33972_live d s \<longleftrightarrow> (\<exists>k < length (mc33972_chips s). d = Some k \<and> cfg (mc33972_chips s ! k) \<noteq> None)"

text \<open>Only 24 bits of the kept status word are in use.\<close>

definition mc33972_inv :: "'z mc33972_state_scheme \<Rightarrow> bool" where
  "mc33972_inv s \<longleftrightarrow> (\<forall>chip\<in>set (mc33972_chips s). \<forall>i \<ge> 24. \<not> bit (i_state chip) i)"

interpretation mc33972: gpiochip_driver "mc33972_ops dev" MC33972_INPUTS mc33972_inv mc33972_live
  by unfold_locales
    (auto simp: mc33972_ops_def MC33972_INPUTS_def mc33972_readPad_def mc33972_getDiag_def split: option.splits)

subsection \<open>Properties\<close>

lemma flag_pin_bit: "(x AND FLAG_PIN pin \<noteq> 0) = bit x pin" "(x AND FLAG_THERM \<noteq> 0) = bit x 23"
  unfolding FLAG_PIN_def FLAG_THERM_def by (simp_all only: bit_iff_and_push_bit_not_eq_0)

text \<open>
  After a turn of the driver thread the level read for each of the 22 inputs of a running chip
  is the bit the chip answered for it to a status command sent in that turn (inputs 0 to 7 in the
  third byte), and its diagnosis is the over-temperature flag of the same answer.
\<close>

theorem mc33972_inputs_sampled:
  assumes "k < length (mc33972_chips s)" and "polled72 (mc33972_chips s ! k)"
  defines "c \<equiv> spi_config (the_cfg72 (mc33972_chips s ! k))"
  shows "\<exists>mid rest. trace (mc33972_driver_thread dev s) = (trace s @ mid) @ map (Spi c) [0, 0, 0] @ rest \<and>
    (\<forall>pin < 22. fst (mc33972_readPad (Some k) pin (mc33972_driver_thread dev s)) =
        (if bit (answer dev c (trace s @ mid) [0, 0, 0] (2 - pin div 8)) (pin mod 8) then 1 else 0) \<and>
      mc33972_getDiag (Some k) pin (mc33972_driver_thread dev s) =
        (if bit (answer dev c (trace s @ mid) [0, 0, 0] 0) 7 then PIN_DRIVER_OVERTEMP else PIN_OK))"
proof -
  let ?s = "mc33972_driver_thread dev s"
  have "sampled72 dev (trace s) (mc33972_chips s ! k) (trace ?s) (mc33972_chips ?s ! k)"
    using mc33972_thread_upto [of "length (mc33972_chips s)" s dev] assms(1,2)
    by (simp add: mc33972_driver_thread_def)
  then obtain mid rest where tr: "trace ?s = (trace s @ mid) @ map (Spi c) [0, 0, 0] @ rest"
    and st: "i_state (mc33972_chips ?s ! k) = status_word (answer dev c (trace s @ mid) [0, 0, 0] 0)
         (answer dev c (trace s @ mid) [0, 0, 0] 1) (answer dev c (trace s @ mid) [0, 0, 0] 2)"
    unfolding sampled72_def c_def by blast
  define r where "r = answer dev c (trace s @ mid) [0, 0, 0]"
  have st': "i_state (mc33972_chips ?s ! k) = status_word (r 0) (r 1) (r 2)" by (simp add: st r_def)
  have pins: "bit (status_word (r 0) (r 1) (r 2)) pin = bit (r (2 - pin div 8)) (pin mod 8)" if "pin < 24" for pin
  proof -
    consider "pin < 8" | i where "pin = 8 + i" "i < 8" | i where "pin = 16 + i" "i < 8"
    proof -
      assume a: "pin < 8 \<Longrightarrow> thesis" "\<And>i. pin = 8 + i \<Longrightarrow> i < 8 \<Longrightarrow> thesis" "\<And>i. pin = 16 + i \<Longrightarrow> i < 8 \<Longrightarrow> thesis"
      show thesis using \<open>pin < 24\<close> a(1) a(2) [of "pin - 8"] a(3) [of "pin - 16"] by force
    qed
    moreover have "(8 + i) div 8 = 1" "(8 + i) mod 8 = i" "(16 + i) div 8 = 2" "(16 + i) mod 8 = i" if "i < 8" for i :: nat
      using that div_mult_self1 [of 8 i 2] mod_mult_self1 [of i 2 8] by (simp_all add: add.commute [of 16])
    ultimately show ?thesis by (cases, simp_all add: status_bits)
  qed
  have "fst (mc33972_readPad (Some k) pin ?s) = (if bit (r (2 - pin div 8)) (pin mod 8) then 1 else 0) \<and>
      mc33972_getDiag (Some k) pin ?s = (if bit (r 0) 7 then PIN_DRIVER_OVERTEMP else PIN_OK)" if "pin < 22" for pin
    using that pins [of pin] pins [of 23]
    by (simp add: mc33972_readPad_def mc33972_getDiag_def MC33972_INPUTS_def flag_pin_bit st')
  then have "\<forall>pin < 22. fst (mc33972_readPad (Some k) pin ?s) = (if bit (r (2 - pin div 8)) (pin mod 8) then 1 else 0) \<and>
      mc33972_getDiag (Some k) pin ?s = (if bit (r 0) 7 then PIN_DRIVER_OVERTEMP else PIN_OK)" by blast
  with tr show ?thesis unfolding r_def by (intro exI [of _ mid] exI [of _ rest]) (rule conjI)
qed

definition demo_state72 :: mc33972_state where
  "demo_state72 = \<lparr>trace = [], PIN_USED = (\<lambda>_. None), totalPinsUsed = 0, repo_initialized = True, boardErr = None,
     mc33972_chips = [\<lparr>cfg = Some \<lparr>spi_bus = Some 1, spi_config = 4, ssport = 2\<rparr>, i_state = 0, analog_ch = 0,
       drv_state = MC33972_READY\<rparr>], mc33972_task_ready = True\<rparr>"

theorem mc33972_inputs_sampled_witness:
  "\<exists>mid. fst (mc33972_readPad (Some 0) 9 (mc33972_driver_thread (\<lambda>tr. if length tr = 2 then 2 else 0) demo_state72)) =
     (if bit (answer (\<lambda>tr. if length tr = 2 then 2 else 0) 4 mid [0, 0, 0] 1) 1 then 1 else 0)"
proof -
  have d: "0 < length (mc33972_chips demo_state72)" "polled72 (mc33972_chips demo_state72 ! 0)"
    "spi_config (the_cfg72 (mc33972_chips demo_state72 ! 0)) = 4" "trace demo_state72 = []"
    by (simp_all add: demo_state72_def polled72_def the_cfg72_def)
  have "(9 :: nat) < 22" "2 - (9 :: nat) div 8 = 1" "(9 :: nat) mod 8 = 1" by simp_all
  with mc33972_inputs_sampled [OF d(1,2), of "\<lambda>tr. if length tr = 2 then 2 else 0", unfolded d(3,4)]
  show ?thesis by metis
qed

end
