(* ===== verification/Mc33810.thy ===== *)
theory Mc33810
  imports Spi_Bus
begin

text \<open>
  The driver of the engine control chip MC33810 (four injector and four ignition drivers),
  src/firmware/hw_layer/drivers/gpio/mc33810.c.  The chip answers a word with what the previous one
  asked for, and answers most commands with its status, so the driver tracks whether the next
  answer will be the status word.
\<close>

definition MC33810_OUTPUTS :: nat where "MC33810_OUTPUTS = 8"
definition MC33810_DIRECT_OUTPUTS :: nat where "MC33810_DIRECT_OUTPUTS = 8"

record mc33810_config =
  spi_bus :: "nat option"
  spi_config :: nat
  direct_io :: "(ioportid \<times> nat) list"
  en :: "ioportid \<times> nat"

datatype mc33810_drv_state = MC33810_DISABLED | MC33810_WAIT_INIT | MC33810_READY | MC33810_FAILED

record mc33810_priv =
  cfg :: "mc33810_config option"
  o_state_cached :: u8
  o_state :: u8
  o_direct_mask :: u8
  all_status_requested :: bool
  all_status_updated :: bool
  all_status_value :: u16
  out_fault0 :: u16
  out_fault1 :: u16
  gpgd_fault :: u16
  ign_fault :: u16
  drv_state :: mc33810_drv_state

record mc33810_state = board +
  mc33810_chips :: "mc33810_priv list"
  mc33810_wake :: int
  mc33810_task_ready :: bool

definition CMD_READ_REG :: "u16 \<Rightarrow> u16" where
  "CMD_READ_REG reg = 0x0a00 OR push_bit 4 (reg AND 0x0f)"

definition CMD_SPI_CHECK :: u16 where "CMD_SPI_CHECK = 0x0f00"

definition CMD_DRIVER_EN :: "u16 \<Rightarrow> u16" where
  "CMD_DRIVER_EN e = 0x3000 OR (e AND 0x00ff)"

definition TX_GET_CMD :: "u16 \<Rightarrow> u16" where
  "TX_GET_CMD v = drop_bit 12 v AND 0x000f"

definition REG_ALL_STAT :: u16 where "REG_ALL_STAT = 0x0"
definition REG_OUT10_FAULT :: u16 where "REG_OUT10_FAULT = 0x1"
definition REG_OUT32_FAULT :: u16 where "REG_OUT32_FAULT = 0x2"
definition REG_GPGD_FAULT :: u16 where "REG_GPGD_FAULT = 0x3"
definition REG_IGN_FAULT :: u16 where "REG_IGN_FAULT = 0x4"
definition REG_REV :: u16 where "REG_REV = 0xf"
definition SPI_CHECK_ACK :: u16 where "SPI_CHECK_ACK = 0x0d0a"

lemmas mc33810_regs = REG_ALL_STAT_def REG_OUT10_FAULT_def REG_OUT32_FAULT_def REG_GPGD_FAULT_def
  REG_IGN_FAULT_def REG_REV_def

definition the_cfg10 :: "mc33810_priv \<Rightarrow> mc33810_config" where
  "the_cfg10 chip = (case cfg chip of Some c \<Rightarrow> c | None \<Rightarrow> \<lparr>spi_bus = None, spi_config = 0, direct_io = [], en = (0, 0)\<rparr>)"

text \<open>Is the answer to the next word the status word?\<close>

definition asks_status :: "u16 \<Rightarrow> bool" where
  "asks_status tx \<longleftrightarrow> (TX_GET_CMD tx \<ge> 0x1 \<and> TX_GET_CMD tx \<le> 0xa) \<or> tx = CMD_READ_REG REG_ALL_STAT"

definition mc33810_spi_rw ::
    "device \<Rightarrow> mc33810_priv \<Rightarrow> u16 \<Rightarrow> 'z board_scheme \<Rightarrow> int \<times> u16 \<times> mc33810_priv \<times> 'z board_scheme" where
  "mc33810_spi_rw dev chip tx b =
     (let (rxb, b) = spi_exchange dev (spi_config (the_cfg10 chip)) tx b;
          chip = (if all_status_requested chip
                  then chip\<lparr>all_status_value := rxb, all_status_updated := True\<rparr> else chip);
          chip = chip\<lparr>all_status_requested := asks_status tx\<rparr>
      in (0, rxb, chip, b))"

text \<open>
  \<open>mc33810_update_output_and_diag\<close>: the part that sends the outputs and gets a fresh status word,
  and the three parts that follow up the faults it flags.  A transfer never fails
  (\<open>mc33810_spi_rw\<close> returns 0), so the early returns on an error are not taken.
\<close>

definition mc33810_get_status :: "device \<Rightarrow> mc33810_priv \<Rightarrow> 'z board_scheme \<Rightarrow> mc33810_priv \<times> 'z board_scheme" where
  "mc33810_get_status dev chip b =
     (let chip = chip\<lparr>all_status_updated := False\<rparr>;
          (chip, b) =
            (if o_direct_mask chip \<noteq> 0xff then
               let out_data = ucast (o_state chip AND NOT (o_direct_mask chip)) :: u16;
                   (ret, rx, chip, b) = mc33810_spi_rw dev chip (CMD_DRIVER_EN out_data) b
               in (chip\<lparr>o_state_cached := o_state chip\<rparr>, b)
             else (chip, b));
          (chip, b) =
            (if \<not> all_status_requested chip then
               (case mc33810_spi_rw dev chip (CMD_READ_REG REG_ALL_STAT) b of (ret, rx, chip, b) \<Rightarrow> (chip, b))
             else (chip, b))
      in if \<not> all_status_updated chip then
           (case mc33810_spi_rw dev chip (CMD_READ_REG REG_ALL_STAT) b of (ret, rx, chip, b) \<Rightarrow> (chip, b))
         else (chip, b))"

definition mc33810_check_out :: "device \<Rightarrow> mc33810_priv \<Rightarrow> 'z board_scheme \<Rightarrow> mc33810_priv \<times> 'z board_scheme" where
  "mc33810_check_out dev chip b =
     (if all_status_value chip AND 0x000f \<noteq> 0 then
        let (ret, rx, chip, b) = mc33810_spi_rw dev chip (CMD_READ_REG REG_OUT10_FAULT) b;
            (ret, rx, chip, b) = mc33810_spi_rw dev chip (CMD_READ_REG REG_OUT32_FAULT) b;
            chip = chip\<lparr>out_fault0 := rx\<rparr>;
            (ret, rx, chip, b) = mc33810_spi_rw dev chip (CMD_READ_REG REG_ALL_STAT) b
        in (chip\<lparr>out_fault1 := rx\<rparr>, b)
      else (chip, b))"

definition mc33810_check_gpgd :: "device \<Rightarrow> mc33810_priv \<Rightarrow> 'z board_scheme \<Rightarrow> mc33810_priv \<times> 'z board_scheme" where
  "mc33810_check_gpgd dev chip b =
     (if all_status_value chip AND 0x00f0 \<noteq> 0 then
        let (ret, rx, chip, b) = mc33810_spi_rw dev chip (CMD_READ_REG REG_GPGD_FAULT) b;
            (ret, rx, chip, b) = mc33810_spi_rw dev chip (CMD_READ_REG REG_ALL_STAT) b
        in (chip\<lparr>gpgd_fault := rx\<rparr>, b)
      else (chip, b))"

definition mc33810_check_ign :: "device \<Rightarrow> mc33810_priv \<Rightarrow> 'z board_scheme \<Rightarrow> mc33810_priv \<times> 'z board_scheme" where
  "mc33810_check_ign dev chip b =
     (if all_status_value chip AND 0x0f00 \<noteq> 0 then
        let (ret, rx, chip, b) = mc33810_spi_rw dev chip (CMD_READ_REG REG_IGN_FAULT) b;
            (ret, rx, chip, b) = mc33810_spi_rw dev chip (CMD_READ_REG REG_ALL_STAT) b
        in (chip\<lparr>ign_fault := rx\<rparr>, b)
      else (chip, b))"

definition mc33810_update_output_and_diag ::
    "device \<Rightarrow> mc33810_priv \<Rightarrow> 'z board_scheme \<Rightarrow> int \<times> mc33810_priv \<times> 'z board_scheme" where
  "mc33810_update_output_and_diag dev chip b =
     (let (chip, b) = mc33810_get_status dev chip b;
          (chip, b) = mc33810_check_out dev chip b;
          (chip, b) = mc33810_check_gpgd dev chip b;
          (chip, b) = mc33810_check_ign dev chip b
      in (0, chip, b))"

definition mc33810_pads :: "mc33810_config \<Rightarrow> ((ioportid \<times> nat) \<times> string) list" where
  "mc33810_pads c = (en c, ''mc33810 EN'') #
     map (\<lambda>p. (p, ''mc33810 DIRECT IO'')) (take MC33810_DIRECT_OUTPUTS (direct_io c))"

definition mc33810_chip_test ::
    "device \<Rightarrow> mc33810_priv \<Rightarrow> 'z board_scheme \<Rightarrow> int \<times> mc33810_priv \<times> 'z board_scheme" where
  "mc33810_chip_test dev chip b =
     (let c = the_cfg10 chip;
          (ret, rx, chip, b) = mc33810_spi_rw dev chip CMD_SPI_CHECK b;
          (r, rx, chip, b) = mc33810_spi_rw dev chip (CMD_READ_REG REG_REV) b;
          ret = ret OR r
      in if ret \<noteq> 0 then (-1, chip, b)
         else if rx \<noteq> SPI_CHECK_ACK then (-2, chip, b)
         else
           let (ret, rx, chip, b) = mc33810_spi_rw dev chip (CMD_READ_REG REG_ALL_STAT) b
           in if ret \<noteq> 0 then (-1, chip, b)
              else if rx AND push_bit 14 1 \<noteq> 0 then (-3, chip, b)
              else (0, chip, if fst (en c) \<noteq> 0 then emit (PalSet (fst (en c)) (snd (en c))) b else b))"

definition mc33810_chip_init ::
    "device \<Rightarrow> mc33810_priv \<Rightarrow> 'z board_scheme \<Rightarrow> int \<times> mc33810_priv \<times> 'z board_scheme" where
  "mc33810_chip_init dev chip b =
     (let pads = mc33810_pads (the_cfg10 chip);
          (taken, b) = mark_pads pads b;
          (ret, chip, b) = (if taken then (-1, chip, b) else mc33810_chip_test dev chip b)
      in if ret = 0 then (0, chip, b) else (ret, chip, unmark_pads (map fst pads) b))"

definition upd_chip10 :: "nat \<Rightarrow> mc33810_priv \<Rightarrow> 'z mc33810_state_scheme \<Rightarrow> 'z mc33810_state_scheme" where
  "upd_chip10 i chip s = s\<lparr>mc33810_chips := (mc33810_chips s)[i := chip]\<rparr>"

definition mc33810_wake_driver :: "'z mc33810_state_scheme \<Rightarrow> 'z mc33810_state_scheme" where
  "mc33810_wake_driver s = s\<lparr>mc33810_wake := mc33810_wake s + 1\<rparr>"

definition mc33810_thread_chip :: "device \<Rightarrow> nat \<Rightarrow> 'z mc33810_state_scheme \<Rightarrow> 'z mc33810_state_scheme" where
  "mc33810_thread_chip dev i s =
     (let chip = mc33810_chips s ! i
      in if cfg chip = None \<or> drv_state chip = MC33810_DISABLED \<or> drv_state chip = MC33810_FAILED then s
         else (case mc33810_update_output_and_diag dev chip s of (ret, chip, s) \<Rightarrow> upd_chip10 i chip s))"

text \<open>One turn of the thread's endless loop.\<close>

definition mc33810_driver_thread :: "device \<Rightarrow> 'z mc33810_state_scheme \<Rightarrow> 'z mc33810_state_scheme" where
  "mc33810_driver_thread dev s = fold (mc33810_thread_chip dev) [0..<length (mc33810_chips s)] s"

definition mc33810_writePad ::
    "nat option \<Rightarrow> nat \<Rightarrow> int \<Rightarrow> 'z mc33810_state_scheme \<Rightarrow> int \<times> 'z mc33810_state_scheme" where
  "mc33810_writePad dat pin v s =
     (case dat of
        None \<Rightarrow> (-1, s)
      | Some k \<Rightarrow>
          if pin \<ge> MC33810_OUTPUTS then (-1, s)
          else
            let chip = mc33810_chips s ! k;
                chip = (if v \<noteq> 0 then chip\<lparr>o_state := o_state chip OR push_bit pin 1\<rparr>
                        else chip\<lparr>o_state := o_state chip AND NOT (push_bit pin 1)\<rparr>);
                s = upd_chip10 k chip s
            in if o_direct_mask chip AND push_bit pin 1 \<noteq> 0 then
                 let (port, pad) = direct_io (the_cfg10 chip) ! pin
                 in (0, emit (if v \<noteq> 0 then PalSet port pad else PalClear port pad) s)
               else (0, mc33810_wake_driver s))"

definition BIT :: "nat \<Rightarrow> u16" where "BIT n = push_bit n 1"

definition mc33810_getDiag :: "nat option \<Rightarrow> nat \<Rightarrow> 'z mc33810_state_scheme \<Rightarrow> brain_pin_diag" where
  "mc33810_getDiag dat pin s =
     (case dat of
        None \<Rightarrow> PIN_INVALID
      | Some k \<Rightarrow>
          if pin \<ge> MC33810_DIRECT_OUTPUTS then PIN_INVALID
          else
            let chip = mc33810_chips s ! k
            in if pin < 4 then
                 let val = drop_bit (4 * (pin mod 2)) (if pin < 2 then out_fault0 chip else out_fault1 chip);
                     d = PIN_OK;
                     d = (if val AND BIT 0 \<noteq> 0 then d OR PIN_OPEN else d);
                     d = (if val AND BIT 1 \<noteq> 0 then d OR PIN_OPEN else d);
                     d = (if val AND BIT 2 \<noteq> 0 then d OR PIN_SHORT_TO_BAT else d)
                 in if val AND BIT 3 \<noteq> 0 then d OR PIN_DRIVER_OVERTEMP else d
               else
                 let val = drop_bit (3 * (pin - 4)) (ign_fault chip);
                     d = PIN_OK;
                     d = (if val AND BIT 0 \<noteq> 0 then d OR PIN_OPEN else d);
                     d = (if val AND BIT 1 \<noteq> 0 then d OR PIN_OVERLOAD else d)
                 in if val AND BIT 2 \<noteq> 0 then d OR PIN_OVERLOAD else d)"

definition mc33810_init ::
    "device \<Rightarrow> nat option \<Rightarrow> 'z mc33810_state_scheme \<Rightarrow> int \<times> 'z mc33810_state_scheme" where
  "mc33810_init dev dat s =
     (case dat of
        None \<Rightarrow> (-1, s)
      | Some k \<Rightarrow>
          (case mc33810_chip_init dev (mc33810_chips s ! k) s of
             (ret, chip, s) \<Rightarrow>
               if ret \<noteq> 0 then (ret, upd_chip10 k chip s)
               else (0, (upd_chip10 k (chip\<lparr>drv_state := MC33810_READY\<rparr>) s)\<lparr>mc33810_task_ready := True\<rparr>)))"

definition mc33810_deinit :: "nat option \<Rightarrow> 'z mc33810_state_scheme \<Rightarrow> int \<times> 'z mc33810_state_scheme" where
  "mc33810_deinit dat s = (0, s)"

definition mc33810_ops :: "device \<Rightarrow> 'z mc33810_state_scheme gpiochip_ops" where
  "mc33810_ops dev = \<lparr>op_setPadMode = None, op_writePad = Some mc33810_writePad, op_readPad = None,
     op_getDiag = Some mc33810_getDiag, op_init = Some (mc33810_init dev), op_deinit = Some mc33810_deinit\<rparr>"

definition mc33810_direct_mask :: "mc33810_config \<Rightarrow> u8" where
  "mc33810_direct_mask c = fold (\<lambda>i m. if fst (direct_io c ! i) \<noteq> 0 then m OR push_bit i 1 else m)
     [0..<MC33810_DIRECT_OUTPUTS] 0"

definition mc33810_pin_names :: "string option list" where
  "mc33810_pin_names = map Some [''mc33810.OUT1'', ''mc33810.OUT2'', ''mc33810.OUT3'', ''mc33810.OUT4'',
     ''mc33810.GD0'', ''mc33810.GD1'', ''mc33810.GD2'', ''mc33810.GD3'']"

definition mc33810_add ::
    "device \<Rightarrow> nat \<Rightarrow> mc33810_config option \<Rightarrow> 'z mc33810_state_scheme gpio_core \<Rightarrow> 'z mc33810_state_scheme
       \<Rightarrow> int \<times> 'z mc33810_state_scheme gpio_core \<times> 'z mc33810_state_scheme" where
  "mc33810_add dev index c gc s =
     (case c of
        None \<Rightarrow> (-1, gc, s)
      | Some conf \<Rightarrow>
          if spi_bus conf = None \<or> index \<ge> length (mc33810_chips s) then (-1, gc, s)
          else if cfg (mc33810_chips s ! index) \<noteq> None then (-1, gc, s)
          else
            let chip = (mc33810_chips s ! index)\<lparr>cfg := Some conf, o_state := 0, o_state_cached := 0,
                          o_direct_mask := mc33810_direct_mask conf, drv_state := MC33810_WAIT_INIT\<rparr>;
                s = upd_chip10 index chip s
            in if o_direct_mask chip AND 0xf0 \<noteq> 0xf0 then (-1, gc, s)
               else
                 let (ret, gc) = gpiochip_register ''mc33810'' (Some (mc33810_ops dev)) MC33810_OUTPUTS (Some index) gc
                 in if ret < 0 then (ret, gc, s)
                    else (ret, snd (gpiochips_setPinNames (nat ret) mc33810_pin_names gc), s))"

subsection \<open>One transfer\<close>

definition bus10 :: "mc33810_priv \<Rightarrow> nat" where
  "bus10 chip = spi_config (the_cfg10 chip)"

abbreviation last_word :: "nat \<Rightarrow> hw_event list \<Rightarrow> u16 option" where
  "last_word c \<equiv> last_spi c (\<lambda>_. True)"

text \<open>
  The chip's side, for the time its state does not change: the answer to the next word is the status
  \<open>st\<close> after a command that asks for it, and \<open>f w\<close> after any other word \<open>w\<close>.
\<close>

definition answers10 :: "device \<Rightarrow> nat \<Rightarrow> u16 \<Rightarrow> (u16 \<Rightarrow> u16) \<Rightarrow> bool" where
  "answers10 dev c st f \<longleftrightarrow> (\<forall>tr w tx. last_word c tr = Some w \<longrightarrow>
     dev (tr @ [Spi c tx]) = (if asks_status w then st else f w))"

text \<open>The driver knows whether the next answer is the status.\<close>

definition sync10 :: "mc33810_priv \<Rightarrow> hw_event list \<Rightarrow> bool" where
  "sync10 chip tr \<longleftrightarrow> (all_status_requested chip \<longleftrightarrow> (\<exists>w. last_word (bus10 chip) tr = Some w \<and> asks_status w))"

lemma rw10:
  assumes r: "mc33810_spi_rw dev chip tx b = (ret, rx, chip', b')"
    and a: "answers10 dev (bus10 chip) st f" and s: "sync10 chip (trace b)"
  shows "trace b' = trace b @ [Spi (bus10 chip) tx]" "board.more b' = board.more b" "PIN_USED b' = PIN_USED b"
    "repo_initialized b' = repo_initialized b"
    "chip' = chip\<lparr>all_status_value := (if all_status_requested chip then st else all_status_value chip),
       all_status_updated := all_status_updated chip \<or> all_status_requested chip,
       all_status_requested := asks_status tx\<rparr>"
    "bus10 chip' = bus10 chip" "sync10 chip' (trace b')" "last_word (bus10 chip) (trace b') = Some tx"
    "last_word (bus10 chip) (trace b) = Some w \<Longrightarrow> rx = (if asks_status w then st else f w)"
proof -
  let ?c = "bus10 chip"
  have rx: "rx = dev (trace b @ [Spi ?c tx])" and b': "b' = emit (Spi ?c tx) b"
    using r by (auto simp: mc33810_spi_rw_def spi_exchange_def bus10_def Let_def)
  have st: "rx = st" if "all_status_requested chip"
    using that s a rx by (auto simp: sync10_def answers10_def)
  show c': "chip' = chip\<lparr>all_status_value := (if all_status_requested chip then st else all_status_value chip),
       all_status_updated := all_status_updated chip \<or> all_status_requested chip,
       all_status_requested := asks_status tx\<rparr>"
    using r st rx by (auto simp: mc33810_spi_rw_def spi_exchange_def bus10_def Let_def)
  show bus: "bus10 chip' = ?c" by (simp add: c' bus10_def the_cfg10_def)
  show "trace b' = trace b @ [Spi ?c tx]" "board.more b' = board.more b" "PIN_USED b' = PIN_USED b"
    "repo_initialized b' = repo_initialized b" "last_word ?c (trace b') = Some tx"
    by (simp_all add: b')
  show "sync10 chip' (trace b')" unfolding sync10_def bus by (simp add: b' c')
  show "last_word ?c (trace b) = Some w \<Longrightarrow> rx = (if asks_status w then st else f w)"
    using a rx by (simp add: answers10_def)
qed

text \<open>What the parts of a turn keep, and the invariant between them: the status is known.\<close>

definition same_chip10 :: "mc33810_priv \<Rightarrow> mc33810_priv \<Rightarrow> bool" where
  "same_chip10 a b \<longleftrightarrow> cfg b = cfg a \<and> o_state b = o_state a \<and> o_direct_mask b = o_direct_mask a \<and> drv_state b = drv_state a"

definition faults10 :: "mc33810_priv \<Rightarrow> u16 \<times> u16 \<times> u16 \<times> u16" where
  "faults10 chip = (out_fault0 chip, out_fault1 chip, gpgd_fault chip, ign_fault chip)"

lemma same_bus10: "same_chip10 a b \<Longrightarrow> bus10 b = bus10 a"
  by (simp add: same_chip10_def bus10_def the_cfg10_def)

lemma asks_words:
  "asks_status (CMD_DRIVER_EN e)" "asks_status (CMD_READ_REG REG_ALL_STAT)"
  "\<not> asks_status (CMD_READ_REG REG_OUT10_FAULT)" "\<not> asks_status (CMD_READ_REG REG_OUT32_FAULT)"
  "\<not> asks_status (CMD_READ_REG REG_GPGD_FAULT)" "\<not> asks_status (CMD_READ_REG REG_IGN_FAULT)"
proof -
  have "drop_bit 12 (e AND 0x00ff) = (0 :: u16)" by (rule bit_eqI) (simp add: bit_simps)
  then have "TX_GET_CMD (CMD_DRIVER_EN e) = 3" by (simp add: TX_GET_CMD_def CMD_DRIVER_EN_def drop_bit_or)
  then show "asks_status (CMD_DRIVER_EN e)" by (simp add: asks_status_def)
qed (simp_all add: asks_status_def CMD_READ_REG_def mc33810_regs TX_GET_CMD_def)

definition is_enable :: "u16 \<Rightarrow> bool" where
  "is_enable w \<longleftrightarrow> TX_GET_CMD w = 3"

lemma enable_words:
  "is_enable (CMD_DRIVER_EN e)" "\<not> is_enable (CMD_READ_REG REG_ALL_STAT)"
  "\<not> is_enable (CMD_READ_REG REG_OUT10_FAULT)" "\<not> is_enable (CMD_READ_REG REG_OUT32_FAULT)"
  "\<not> is_enable (CMD_READ_REG REG_GPGD_FAULT)" "\<not> is_enable (CMD_READ_REG REG_IGN_FAULT)"
proof -
  have "drop_bit 12 (e AND 0x00ff) = (0 :: u16)" by (rule bit_eqI) (simp add: bit_simps)
  then show "is_enable (CMD_DRIVER_EN e)" by (simp add: is_enable_def TX_GET_CMD_def CMD_DRIVER_EN_def drop_bit_or)
qed (simp_all add: is_enable_def CMD_READ_REG_def mc33810_regs TX_GET_CMD_def)

subsection \<open>The parts of a turn\<close>

definition settled10 :: "u16 \<Rightarrow> mc33810_priv \<Rightarrow> hw_event list \<Rightarrow> bool" where
  "settled10 st chip tr \<longleftrightarrow> all_status_value chip = st \<and> sync10 chip tr"

lemma get_status10:
  assumes a: "answers10 dev (bus10 chip) st f" and s: "sync10 chip (trace b)"
    and g: "mc33810_get_status dev chip b = (chip', b')"
  shows "same_chip10 chip chip'" "faults10 chip' = faults10 chip" "settled10 st chip' (trace b')"
    "board.more b' = board.more b"
    "last_spi (bus10 chip) is_enable (trace b') = (if o_direct_mask chip \<noteq> 0xff
       then Some (CMD_DRIVER_EN (ucast (o_state chip AND NOT (o_direct_mask chip))))
       else last_spi (bus10 chip) is_enable (trace b))"
proof -
  let ?c = "bus10 chip" and ?chip0 = "chip\<lparr>all_status_updated := False\<rparr>"
  define en where "en = (if o_direct_mask chip \<noteq> 0xff
       then Some (CMD_DRIVER_EN (ucast (o_state chip AND NOT (o_direct_mask chip))))
       else last_spi (bus10 chip) is_enable (trace b))"
  define good where "good = (\<lambda>x (y :: 'a board_scheme). same_chip10 chip x \<and> faults10 x = faults10 chip \<and>
    board.more y = board.more b \<and> sync10 x (trace y) \<and> bus10 x = ?c \<and>
    (all_status_updated x \<longrightarrow> all_status_value x = st))"
  have step: "good x' y'" "all_status_requested x' = asks_status tx"
      "all_status_updated x' = (all_status_updated x \<or> all_status_requested x)" "trace y' = trace y @ [Spi ?c tx]"
    if "mc33810_spi_rw dev x tx y = (ret, rx, x', y')" "good x y" for x tx y ret rx x' y'
  proof -
    have "answers10 dev (bus10 x) st f" "sync10 x (trace y)" "bus10 x = ?c" using that(2) a by (simp_all add: good_def)
    note r = rw10 [OF that(1) this(1,2)] this(3)
    show "good x' y'" using that(2) r unfolding good_def
      by (auto simp: same_chip10_def faults10_def)
    show "all_status_requested x' = asks_status tx" "trace y' = trace y @ [Spi ?c tx]"
      "all_status_updated x' = (all_status_updated x \<or> all_status_requested x)" using r by simp_all
  qed
  have g0: "good ?chip0 b" using s
    by (simp add: good_def same_chip10_def faults10_def sync10_def bus10_def the_cfg10_def)
  define r1 where "r1 = (if o_direct_mask chip \<noteq> 0xff then
      (case mc33810_spi_rw dev ?chip0 (CMD_DRIVER_EN (ucast (o_state chip AND NOT (o_direct_mask chip)))) b of
        (ret, rx, x, y) \<Rightarrow> (x\<lparr>o_state_cached := o_state x\<rparr>, y)) else (?chip0, b))"
  obtain x1 y1 where e1: "r1 = (x1, y1)" by fastforce
  have cached: "good (x\<lparr>o_state_cached := z\<rparr>) y = good x y" for x z y
    by (simp add: good_def same_chip10_def faults10_def sync10_def bus10_def the_cfg10_def)
  have g1: "good x1 y1 \<and> last_spi ?c is_enable (trace y1) = en \<and> (all_status_updated x1 \<longrightarrow> all_status_requested x1)"
  proof (cases "o_direct_mask chip = 0xff")
    case True
    then have "x1 = ?chip0" "y1 = b" using e1 by (simp_all add: r1_def)
    with True g0 show ?thesis by (simp add: en_def)
  next
    case False
    obtain ret rx x y where w: "mc33810_spi_rw dev ?chip0 (CMD_DRIVER_EN (ucast (o_state chip AND NOT (o_direct_mask chip)))) b
        = (ret, rx, x, y)" by (metis prod_cases4)
    have "x1 = x\<lparr>o_state_cached := o_state x\<rparr>" "y1 = y" using e1 False w by (simp_all add: r1_def)
    with step [OF w g0] False show ?thesis by (simp add: cached en_def enable_words asks_words)
  qed
  define r2 where "r2 = (if \<not> all_status_requested x1 then
      (case mc33810_spi_rw dev x1 (CMD_READ_REG REG_ALL_STAT) y1 of (ret, rx, x, y) \<Rightarrow> (x, y)) else (x1, y1))"
  obtain x2 y2 where e2: "r2 = (x2, y2)" by fastforce
  have g2: "good x2 y2" "last_spi ?c is_enable (trace y2) = en" "all_status_requested x2"
    using e2 g1 step [OF _ conjunct1 [OF g1]] by (auto simp: r2_def enable_words asks_words split: if_splits prod.splits)
  define r3 where "r3 = (if \<not> all_status_updated x2 then
      (case mc33810_spi_rw dev x2 (CMD_READ_REG REG_ALL_STAT) y2 of (ret, rx, x, y) \<Rightarrow> (x, y)) else (x2, y2))"
  have "r3 = (chip', b')"
  proof -
    have "mc33810_get_status dev chip b = (case r1 of (x1, y1) \<Rightarrow>
       (case (if \<not> all_status_requested x1 then
        (case mc33810_spi_rw dev x1 (CMD_READ_REG REG_ALL_STAT) y1 of (ret, rx, x, y) \<Rightarrow> (x, y)) else (x1, y1)) of (x2, y2) \<Rightarrow>
        (if \<not> all_status_updated x2 then
        (case mc33810_spi_rw dev x2 (CMD_READ_REG REG_ALL_STAT) y2 of (ret, rx, x, y) \<Rightarrow> (x, y)) else (x2, y2))))"
      unfolding mc33810_get_status_def r1_def Let_def by (auto split: prod.splits)
    with g e1 e2 show ?thesis by (simp add: r2_def r3_def)
  qed
  then have g3: "good chip' b'" "last_spi ?c is_enable (trace b') = en" "all_status_updated chip'"
    using g2 step [OF _ g2(1)] by (auto simp: r3_def enable_words asks_words split: if_splits prod.splits)
  show "same_chip10 chip chip'" "faults10 chip' = faults10 chip" "settled10 st chip' (trace b')"
    "board.more b' = board.more b" using g3 by (simp_all add: good_def settled10_def)
  show "last_spi (bus10 chip) is_enable (trace b') = (if o_direct_mask chip \<noteq> 0xff
       then Some (CMD_DRIVER_EN (ucast (o_state chip AND NOT (o_direct_mask chip))))
       else last_spi (bus10 chip) is_enable (trace b))" using g3(2) by (simp add: en_def)
qed

text \<open>A transfer in a settled state, with a command that does not set the outputs.\<close>

lemma rw10_settled:
  assumes a: "answers10 dev c st f" and s: "settled10 st x (trace y)" and c: "bus10 x = c"
    and r: "mc33810_spi_rw dev x tx y = (ret, rx, x', y')" and n: "\<not> is_enable tx"
  shows "settled10 st x' (trace y')" "bus10 x' = c" "same_chip10 x x'" "faults10 x' = faults10 x"
    "board.more y' = board.more y" "last_spi c is_enable (trace y') = last_spi c is_enable (trace y)"
    "last_word c (trace y') = Some tx"
    "last_word c (trace y) = Some w \<Longrightarrow> rx = (if asks_status w then st else f w)"
  using rw10 [OF r a [folded c]] s n c
  by (auto simp: settled10_def same_chip10_def faults10_def)

lemma settled10_upd [simp]:
  "settled10 st (x\<lparr>out_fault0 := v\<rparr>) tr = settled10 st x tr" "settled10 st (x\<lparr>out_fault1 := v\<rparr>) tr = settled10 st x tr"
  "settled10 st (x\<lparr>gpgd_fault := v\<rparr>) tr = settled10 st x tr" "settled10 st (x\<lparr>ign_fault := v\<rparr>) tr = settled10 st x tr"
  "bus10 (x\<lparr>out_fault0 := v\<rparr>) = bus10 x" "bus10 (x\<lparr>out_fault1 := v\<rparr>) = bus10 x"
  "bus10 (x\<lparr>gpgd_fault := v\<rparr>) = bus10 x" "bus10 (x\<lparr>ign_fault := v\<rparr>) = bus10 x"
  by (simp_all add: settled10_def sync10_def bus10_def the_cfg10_def)

text \<open>The result of a part: \<open>fs\<close> are the fault registers it leaves.\<close>

definition part10 ::
    "u16 \<Rightarrow> mc33810_priv \<Rightarrow> 'z board_scheme \<Rightarrow> u16 \<times> u16 \<times> u16 \<times> u16 \<Rightarrow> mc33810_priv \<Rightarrow> 'z board_scheme \<Rightarrow> bool" where
  "part10 st x y fs x' y' \<longleftrightarrow> settled10 st x' (trace y') \<and> same_chip10 x x' \<and> board.more y' = board.more y \<and>
     last_spi (bus10 x) is_enable (trace y') = last_spi (bus10 x) is_enable (trace y) \<and> faults10 x' = fs"

lemma check_out10:
  assumes a: "answers10 dev (bus10 x) st f" and s: "settled10 st x (trace y)"
    and r: "mc33810_check_out dev x y = (x', y')"
  shows "part10 st x y (if st AND 0x000f \<noteq> 0
    then (f (CMD_READ_REG REG_OUT10_FAULT), f (CMD_READ_REG REG_OUT32_FAULT), gpgd_fault x, ign_fault x)
    else faults10 x) x' y'"
proof (cases "st AND 0x000f = 0")
  case False
  obtain r1 v1 x1 y1 where e1: "mc33810_spi_rw dev x (CMD_READ_REG REG_OUT10_FAULT) y = (r1, v1, x1, y1)" by (metis prod_cases4)
  note f1 = rw10_settled [OF a s refl e1 enable_words(3)]
  obtain r2 v2 x2 y2 where e2: "mc33810_spi_rw dev x1 (CMD_READ_REG REG_OUT32_FAULT) y1 = (r2, v2, x2, y2)" by (metis prod_cases4)
  note f2 = rw10_settled [OF a f1(1,2) e2 enable_words(4)]
  have s2: "settled10 st (x2\<lparr>out_fault0 := v2\<rparr>) (trace y2)" "bus10 (x2\<lparr>out_fault0 := v2\<rparr>) = bus10 x" using f2 by simp_all
  obtain r3 v3 x3 y3 where e3: "mc33810_spi_rw dev (x2\<lparr>out_fault0 := v2\<rparr>) (CMD_READ_REG REG_ALL_STAT) y2 = (r3, v3, x3, y3)"
    by (metis prod_cases4)
  note f3 = rw10_settled [OF a s2 e3 enable_words(2)]
  have v: "v2 = f (CMD_READ_REG REG_OUT10_FAULT)" "v3 = f (CMD_READ_REG REG_OUT32_FAULT)"
    using f2(8) [OF f1(7)] f3(8) [OF f2(7)] by (simp_all add: asks_words)
  have "all_status_value x = st" using s by (simp add: settled10_def)
  then have "x' = x3\<lparr>out_fault1 := v3\<rparr>" "y' = y3" using r e1 e2 e3 False by (simp_all add: mc33810_check_out_def)
  with f1 f2 f3 v False show ?thesis by (simp add: part10_def faults10_def same_chip10_def)
qed (use r s in \<open>simp add: mc33810_check_out_def part10_def settled10_def same_chip10_def\<close>)

lemma check_gpgd10:
  assumes a: "answers10 dev (bus10 x) st f" and s: "settled10 st x (trace y)"
    and r: "mc33810_check_gpgd dev x y = (x', y')"
  shows "part10 st x y (if st AND 0x00f0 \<noteq> 0
    then (out_fault0 x, out_fault1 x, f (CMD_READ_REG REG_GPGD_FAULT), ign_fault x) else faults10 x) x' y'"
proof (cases "st AND 0x00f0 = 0")
  case False
  obtain r1 v1 x1 y1 where e1: "mc33810_spi_rw dev x (CMD_READ_REG REG_GPGD_FAULT) y = (r1, v1, x1, y1)" by (metis prod_cases4)
  note f1 = rw10_settled [OF a s refl e1 enable_words(5)]
  obtain r2 v2 x2 y2 where e2: "mc33810_spi_rw dev x1 (CMD_READ_REG REG_ALL_STAT) y1 = (r2, v2, x2, y2)" by (metis prod_cases4)
  note f2 = rw10_settled [OF a f1(1,2) e2 enable_words(2)]
  have v: "v2 = f (CMD_READ_REG REG_GPGD_FAULT)" using f2(8) [OF f1(7)] by (simp add: asks_words)
  have "all_status_value x = st" using s by (simp add: settled10_def)
  then have "x' = x2\<lparr>gpgd_fault := v2\<rparr>" "y' = y2" using r e1 e2 False by (simp_all add: mc33810_check_gpgd_def)
  with f1 f2 v False show ?thesis by (simp add: part10_def faults10_def same_chip10_def)
qed (use r s in \<open>simp add: mc33810_check_gpgd_def part10_def settled10_def same_chip10_def\<close>)

lemma check_ign10:
  assumes a: "answers10 dev (bus10 x) st f" and s: "settled10 st x (trace y)"
    and r: "mc33810_check_ign dev x y = (x', y')"
  shows "part10 st x y (if st AND 0x0f00 \<noteq> 0
    then (out_fault0 x, out_fault1 x, gpgd_fault x, f (CMD_READ_REG REG_IGN_FAULT)) else faults10 x) x' y'"
proof (cases "st AND 0x0f00 = 0")
  case False
  obtain r1 v1 x1 y1 where e1: "mc33810_spi_rw dev x (CMD_READ_REG REG_IGN_FAULT) y = (r1, v1, x1, y1)" by (metis prod_cases4)
  note f1 = rw10_settled [OF a s refl e1 enable_words(6)]
  obtain r2 v2 x2 y2 where e2: "mc33810_spi_rw dev x1 (CMD_READ_REG REG_ALL_STAT) y1 = (r2, v2, x2, y2)" by (metis prod_cases4)
  note f2 = rw10_settled [OF a f1(1,2) e2 enable_words(2)]
  have v: "v2 = f (CMD_READ_REG REG_IGN_FAULT)" using f2(8) [OF f1(7)] by (simp add: asks_words)
  have "all_status_value x = st" using s by (simp add: settled10_def)
  then have "x' = x2\<lparr>ign_fault := v2\<rparr>" "y' = y2" using r e1 e2 False by (simp_all add: mc33810_check_ign_def)
  with f1 f2 v False show ?thesis by (simp add: part10_def faults10_def same_chip10_def)
qed (use r s in \<open>simp add: mc33810_check_ign_def part10_def settled10_def same_chip10_def\<close>)

lemma turn10:
  assumes a: "answers10 dev (bus10 x) st f" and s: "sync10 x (trace y)"
    and r: "mc33810_update_output_and_diag dev x y = (ret, x', y')"
  shows "ret = 0" "settled10 st x' (trace y')" "same_chip10 x x'" "board.more y' = board.more y"
    "last_spi (bus10 x) is_enable (trace y') = (if o_direct_mask x \<noteq> 0xff
       then Some (CMD_DRIVER_EN (ucast (o_state x AND NOT (o_direct_mask x))))
       else last_spi (bus10 x) is_enable (trace y))"
    "out_fault0 x' = (if st AND 0x000f \<noteq> 0 then f (CMD_READ_REG REG_OUT10_FAULT) else out_fault0 x)"
    "out_fault1 x' = (if st AND 0x000f \<noteq> 0 then f (CMD_READ_REG REG_OUT32_FAULT) else out_fault1 x)"
    "gpgd_fault x' = (if st AND 0x00f0 \<noteq> 0 then f (CMD_READ_REG REG_GPGD_FAULT) else gpgd_fault x)"
    "ign_fault x' = (if st AND 0x0f00 \<noteq> 0 then f (CMD_READ_REG REG_IGN_FAULT) else ign_fault x)"
proof -
  obtain x1 y1 where e1: "mc33810_get_status dev x y = (x1, y1)" by fastforce
  obtain x2 y2 where e2: "mc33810_check_out dev x1 y1 = (x2, y2)" by fastforce
  obtain x3 y3 where e3: "mc33810_check_gpgd dev x2 y2 = (x3, y3)" by fastforce
  obtain x4 y4 where e4: "mc33810_check_ign dev x3 y3 = (x4, y4)" by fastforce
  have e: "ret = 0" "x' = x4" "y' = y4"
    using r e1 e2 e3 e4 by (simp_all add: mc33810_update_output_and_diag_def)
  note p1 = get_status10 [OF a s e1]
  have b1: "bus10 x1 = bus10 x" using p1(1) by (rule same_bus10)
  note p2 = check_out10 [OF a [folded b1] p1(3) e2, unfolded part10_def]
  have b2: "bus10 x2 = bus10 x1" using p2 same_bus10 by blast
  note p3 = check_gpgd10 [OF a [folded b1, folded b2] conjunct1 [OF p2] e3, unfolded part10_def]
  have b3: "bus10 x3 = bus10 x2" using p3 same_bus10 by blast
  note p4 = check_ign10 [OF a [folded b1, folded b2, folded b3] conjunct1 [OF p3] e4, unfolded part10_def]
  note all = p1 p2 p3 p4
  show "ret = 0" by (rule e)
  show "settled10 st x' (trace y')" "same_chip10 x x'" "board.more y' = board.more y"
    using all by (simp_all add: e same_chip10_def)
  show "last_spi (bus10 x) is_enable (trace y') = (if o_direct_mask x \<noteq> 0xff
       then Some (CMD_DRIVER_EN (ucast (o_state x AND NOT (o_direct_mask x))))
       else last_spi (bus10 x) is_enable (trace y))"
    using p1(5) p2 p3 p4 by (simp add: e b1 b2 b3)
  show "out_fault0 x' = (if st AND 0x000f \<noteq> 0 then f (CMD_READ_REG REG_OUT10_FAULT) else out_fault0 x)"
    "out_fault1 x' = (if st AND 0x000f \<noteq> 0 then f (CMD_READ_REG REG_OUT32_FAULT) else out_fault1 x)"
    "gpgd_fault x' = (if st AND 0x00f0 \<noteq> 0 then f (CMD_READ_REG REG_GPGD_FAULT) else gpgd_fault x)"
    "ign_fault x' = (if st AND 0x0f00 \<noteq> 0 then f (CMD_READ_REG REG_IGN_FAULT) else ign_fault x)"
    using all by (auto simp: e faults10_def split: if_splits)
qed

subsection \<open>The driver keeps the registry's contract\<close>

lemma board_more_state10:
  "board.more b = board.more s \<Longrightarrow> mc33810_chips b = mc33810_chips s"
  "board.more b = board.more s \<Longrightarrow> mc33810_task_ready b = mc33810_task_ready s"
  by (cases b; cases s; simp)+

definition mc33810_inv :: "'z mc33810_state_scheme \<Rightarrow> bool" where
  "mc33810_inv s \<longleftrightarrow> (\<forall>chip\<in>set (mc33810_chips s). \<forall>c. cfg chip = Some c \<longrightarrow> o_direct_mask chip = mc33810_direct_mask c)"

definition mc33810_live :: "nat option \<Rightarrow> 'z mc33810_state_scheme \<Rightarrow> bool" where
  "mc33810_live d s \<longleftrightarrow> (\<exists>k < length (mc33810_chips s). d = Some k \<and> cfg (mc33810_chips s ! k) \<noteq> None)"

lemma mc33810_emit_chips [simp]:
  "mc33810_chips (emit e s) = mc33810_chips s" "mc33810_chips (mc33810_wake_driver s) = mc33810_chips s"
  "trace (mc33810_wake_driver s) = trace s" "trace (upd_chip10 k c s) = trace s"
  "mc33810_chips (upd_chip10 k c s) = (mc33810_chips s)[k := c]"
  by (cases s, simp add: emit_def mc33810_wake_driver_def upd_chip10_def)+

lemma mc33810_write_effect:
  assumes "k < length (mc33810_chips s)" "pin < 8"
  defines "chip \<equiv> mc33810_chips s ! k"
  shows "\<exists>chip'. mc33810_chips (snd (mc33810_writePad (Some k) pin v s)) = (mc33810_chips s)[k := chip'] \<and>
     chip' = chip\<lparr>o_state := o_state chip'\<rparr> \<and>
     o_state chip' = (if v \<noteq> 0 then o_state chip OR push_bit pin 1 else o_state chip AND NOT (push_bit pin 1)) \<and>
     trace (snd (mc33810_writePad (Some k) pin v s)) = trace s @
       (if o_direct_mask chip AND push_bit pin 1 \<noteq> 0 then
          [if v \<noteq> 0 then PalSet (fst (direct_io (the_cfg10 chip) ! pin)) (snd (direct_io (the_cfg10 chip) ! pin))
           else PalClear (fst (direct_io (the_cfg10 chip) ! pin)) (snd (direct_io (the_cfg10 chip) ! pin))] else [])"
  using assms
  by (intro exI [of _ "chip\<lparr>o_state := if v \<noteq> 0 then o_state chip OR push_bit pin 1 else o_state chip AND NOT (push_bit pin 1)\<rparr>"])
    (simp add: mc33810_writePad_def MC33810_OUTPUTS_def Let_def split_beta the_cfg10_def)

lemma mc33810_write_keeps:
  assumes "pin < MC33810_OUTPUTS" "mc33810_inv s" "mc33810_live d s"
  shows "mc33810_inv (snd (mc33810_writePad d pin v s)) \<and> mc33810_live d (snd (mc33810_writePad d pin v s))"
proof -
  obtain k where k: "d = Some k" "k < length (mc33810_chips s)" "cfg (mc33810_chips s ! k) \<noteq> None"
    using assms(3) by (auto simp: mc33810_live_def)
  have pin: "pin < 8" using assms(1) by (simp add: MC33810_OUTPUTS_def)
  obtain chip' where c': "mc33810_chips (snd (mc33810_writePad d pin v s)) = (mc33810_chips s)[k := chip']"
      "chip' = (mc33810_chips s ! k)\<lparr>o_state := o_state chip'\<rparr>"
    using mc33810_write_effect [OF k(2) pin, of v] k(1) by auto
  have f: "cfg chip' = cfg (mc33810_chips s ! k)" "o_direct_mask chip' = o_direct_mask (mc33810_chips s ! k)"
    by (subst c'(2), simp)+
  have "\<forall>c. cfg chip' = Some c \<longrightarrow> o_direct_mask chip' = mc33810_direct_mask c"
    using assms(2) k(2) unfolding f mc33810_inv_def by simp
  then have "mc33810_inv (snd (mc33810_writePad d pin v s))"
    using assms(2) set_update_subset_insert [of "mc33810_chips s" k chip'] by (auto simp: mc33810_inv_def c'(1))
  moreover have "mc33810_live d (snd (mc33810_writePad d pin v s))"
    using k f c'(1) by (auto simp: mc33810_live_def)
  ultimately show ?thesis by blast
qed

interpretation mc33810: gpiochip_driver "mc33810_ops dev" MC33810_OUTPUTS mc33810_inv mc33810_live
proof unfold_locales
  fix f pin and d :: "nat option" and v and s :: "'a mc33810_state_scheme"
  show "op_writePad (mc33810_ops dev :: 'a mc33810_state_scheme gpiochip_ops) \<noteq> None \<or>
      op_readPad (mc33810_ops dev :: 'a mc33810_state_scheme gpiochip_ops) \<noteq> None"
    by (simp add: mc33810_ops_def)
  show "0 < MC33810_OUTPUTS" by (simp add: MC33810_OUTPUTS_def)
  show "op_writePad (mc33810_ops dev) = Some f \<Longrightarrow> MC33810_OUTPUTS \<le> pin \<or> d = None \<Longrightarrow> f d pin v s = (-1, s)"
    by (auto simp: mc33810_ops_def mc33810_writePad_def split: option.splits)
  show "op_writePad (mc33810_ops dev) = Some f \<Longrightarrow> pin < MC33810_OUTPUTS \<Longrightarrow> mc33810_inv s \<Longrightarrow> mc33810_live d s \<Longrightarrow>
      mc33810_inv (snd (f d pin v s)) \<and> mc33810_live d (snd (f d pin v s))"
    using mc33810_write_keeps [of pin s d v] by (auto simp: mc33810_ops_def)
next
  fix g pin and d :: "nat option" and s :: "'a mc33810_state_scheme"
  show "op_getDiag (mc33810_ops dev) = Some g \<Longrightarrow> MC33810_OUTPUTS \<le> pin \<or> d = None \<Longrightarrow> g d pin s = PIN_INVALID"
    by (auto simp: mc33810_ops_def mc33810_getDiag_def MC33810_OUTPUTS_def MC33810_DIRECT_OUTPUTS_def split: option.splits)
next
  fix h pin and d :: "nat option" and s :: "'a mc33810_state_scheme"
  show "op_readPad (mc33810_ops dev) = Some h \<Longrightarrow> pin < MC33810_OUTPUTS \<Longrightarrow> mc33810_inv s \<Longrightarrow> mc33810_live d s \<Longrightarrow>
      mc33810_inv (snd (h d pin s)) \<and> mc33810_live d (snd (h d pin s))"
    by (simp add: mc33810_ops_def)
qed

subsection \<open>Properties\<close>

lemma thread_chip10:
  assumes "k < length (mc33810_chips s)" "cfg (mc33810_chips s ! k) \<noteq> None"
    and "drv_state (mc33810_chips s ! k) \<in> {MC33810_WAIT_INIT, MC33810_READY}"
    and "answers10 dev (bus10 (mc33810_chips s ! k)) st f" "sync10 (mc33810_chips s ! k) (trace s)"
  defines "chip \<equiv> mc33810_chips s ! k" and "s' \<equiv> mc33810_thread_chip dev k s"
  shows "\<exists>chip'. mc33810_chips s' = (mc33810_chips s)[k := chip'] \<and> settled10 st chip' (trace s') \<and>
    same_chip10 chip chip' \<and>
    (o_direct_mask chip \<noteq> 0xff \<longrightarrow> last_spi (bus10 chip) is_enable (trace s') =
       Some (CMD_DRIVER_EN (ucast (o_state chip AND NOT (o_direct_mask chip))))) \<and>
    (out_fault0 chip', out_fault1 chip') = (if st AND 0x000f \<noteq> 0
       then (f (CMD_READ_REG REG_OUT10_FAULT), f (CMD_READ_REG REG_OUT32_FAULT)) else (out_fault0 chip, out_fault1 chip)) \<and>
    ign_fault chip' = (if st AND 0x0f00 \<noteq> 0 then f (CMD_READ_REG REG_IGN_FAULT) else ign_fault chip)"
proof -
  obtain ret chip' s1 where u: "mc33810_update_output_and_diag dev (mc33810_chips s ! k) s = (ret, chip', s1)"
    by (metis prod_cases3)
  note t = turn10 [OF assms(4,5) u]
  have s': "s' = upd_chip10 k chip' s1" using assms(2,3) u by (auto simp: s'_def mc33810_thread_chip_def)
  have "mc33810_chips s1 = mc33810_chips s" using t(4) by (rule board_more_state10)
  then show ?thesis using t by (intro exI [of _ chip']) (simp add: s' chip_def)
qed

text \<open>
  C34: a turn of the driver thread leaves the chip's current status in \<open>all_status_value\<close> however
  many transfers it could save, tells the chip the outputs switched over SPI, and reads the fault
  registers of the injector or ignition group when the status flags a fault there; when it flags
  none, the faults read earlier stay, and \<open>mc33810_getDiag\<close> goes on reporting them.
\<close>

theorem mc33810_turn_reports_faults:
  assumes "k < length (mc33810_chips s)" "cfg (mc33810_chips s ! k) \<noteq> None"
    and "drv_state (mc33810_chips s ! k) \<in> {MC33810_WAIT_INIT, MC33810_READY}"
    and "answers10 dev (bus10 (mc33810_chips s ! k)) st f" "sync10 (mc33810_chips s ! k) (trace s)"
  shows "let chip = mc33810_chips s ! k; s' = mc33810_thread_chip dev k s; chip' = mc33810_chips s' ! k in
    all_status_value chip' = st \<and> sync10 chip' (trace s') \<and>
    (o_direct_mask chip \<noteq> 0xff \<longrightarrow> last_spi (bus10 chip) is_enable (trace s') =
       Some (CMD_DRIVER_EN (ucast (o_state chip AND NOT (o_direct_mask chip))))) \<and>
    (st AND 0x000f \<noteq> 0 \<longrightarrow>
       out_fault0 chip' = f (CMD_READ_REG REG_OUT10_FAULT) \<and> out_fault1 chip' = f (CMD_READ_REG REG_OUT32_FAULT)) \<and>
    (st AND 0x000f = 0 \<longrightarrow> (\<forall>pin < 4. mc33810_getDiag (Some k) pin s' = mc33810_getDiag (Some k) pin s)) \<and>
    (st AND 0x0f00 \<noteq> 0 \<longrightarrow> ign_fault chip' = f (CMD_READ_REG REG_IGN_FAULT)) \<and>
    (st AND 0x0f00 = 0 \<longrightarrow> (\<forall>pin\<in>{4..<8}. mc33810_getDiag (Some k) pin s' = mc33810_getDiag (Some k) pin s))"
proof -
  define s' where "s' = mc33810_thread_chip dev k s"
  obtain chip' where c: "mc33810_chips s' = (mc33810_chips s)[k := chip']" "settled10 st chip' (trace s')"
    "o_direct_mask (mc33810_chips s ! k) \<noteq> 0xff \<longrightarrow> last_spi (bus10 (mc33810_chips s ! k)) is_enable (trace s') =
       Some (CMD_DRIVER_EN (ucast (o_state (mc33810_chips s ! k) AND NOT (o_direct_mask (mc33810_chips s ! k)))))"
    "(out_fault0 chip', out_fault1 chip') = (if st AND 0x000f \<noteq> 0
       then (f (CMD_READ_REG REG_OUT10_FAULT), f (CMD_READ_REG REG_OUT32_FAULT))
       else (out_fault0 (mc33810_chips s ! k), out_fault1 (mc33810_chips s ! k)))"
    "ign_fault chip' = (if st AND 0x0f00 \<noteq> 0 then f (CMD_READ_REG REG_IGN_FAULT) else ign_fault (mc33810_chips s ! k))"
    using thread_chip10 [OF assms] unfolding s'_def by blast
  have n: "mc33810_chips s' ! k = chip'" using c(1) assms(1) by simp
  have o: "\<forall>pin < 4. mc33810_getDiag (Some k) pin s' = mc33810_getDiag (Some k) pin s" if "st AND 0x000f = 0"
    using c(4) that by (simp add: mc33810_getDiag_def n)
  have i: "\<forall>pin\<in>{4..<8}. mc33810_getDiag (Some k) pin s' = mc33810_getDiag (Some k) pin s" if "st AND 0x0f00 = 0"
    using c(5) that by (simp add: mc33810_getDiag_def n)
  have "out_fault0 chip' = f (CMD_READ_REG REG_OUT10_FAULT) \<and> out_fault1 chip' = f (CMD_READ_REG REG_OUT32_FAULT)"
    if "st AND 0x000f \<noteq> 0" using c(4) that by simp
  then show ?thesis using c(2,3,5) o i by (simp add: n Let_def settled10_def flip: s'_def)
qed

text \<open>
  A configuration whose ignition outputs are not all driven directly is refused with -1 and
  nothing is registered, but the chip's slot stays occupied by it: every later attempt for that
  slot is refused too, with a good configuration as well, and the driver thread polls the chip.
\<close>

theorem mc33810_add_refused_keeps_slot:
  assumes "spi_bus c \<noteq> None" "index < length (mc33810_chips s)" "cfg (mc33810_chips s ! index) = None"
    and "n \<in> {4..<8}" "fst (direct_io c ! n) = 0"
  shows "\<exists>s'. mc33810_add dev index (Some c) gc s = (-1, gc, s') \<and>
     (\<forall>c' gc'. mc33810_add dev index (Some c') gc' s' = (-1, gc', s')) \<and>
     cfg (mc33810_chips s' ! index) = Some c \<and> drv_state (mc33810_chips s' ! index) = MC33810_WAIT_INIT"
proof -
  have u: "[0..<MC33810_DIRECT_OUTPUTS] = [0, 1, 2, 3, 4, 5, 6, 7]"
    by (simp add: MC33810_DIRECT_OUTPUTS_def upt_rec)
  have "n \<in> {4, 5, 6, 7}" using assms(4) by auto
  then have b: "\<not> bit (mc33810_direct_mask c) n" using assms(5) unfolding mc33810_direct_mask_def u
    by (elim insertE) (simp_all add: bit_simps)
  have "mc33810_direct_mask c AND 0xf0 \<noteq> 0xf0"
  proof
    assume "mc33810_direct_mask c AND 0xf0 = 0xf0"
    then have "bit (mc33810_direct_mask c AND 0xf0) n = bit (0xf0 :: u8) n" by simp
    moreover have "bit (0xf0 :: u8) n" using \<open>n \<in> {4, 5, 6, 7}\<close> by (elim insertE) simp_all
    ultimately show False using b by (simp add: bit_and_iff)
  qed
  with assms show ?thesis by (auto simp: mc33810_add_def Let_def split: option.splits)
qed

subsection \<open>Witnesses\<close>

definition demo_cfg10 :: mc33810_config where
  "demo_cfg10 = \<lparr>spi_bus = Some 1, spi_config = 5, direct_io = replicate 8 (0, 0), en = (0, 0)\<rparr>"

definition demo_chip10 :: mc33810_priv where
  "demo_chip10 = \<lparr>cfg = Some demo_cfg10, o_state_cached = 0, o_state = 3, o_direct_mask = 0xf0,
     all_status_requested = False, all_status_updated = False, all_status_value = 0,
     out_fault0 = 0, out_fault1 = 8, gpgd_fault = 0, ign_fault = 1, drv_state = MC33810_READY\<rparr>"

definition demo_state10 :: "mc33810_priv \<Rightarrow> mc33810_state" where
  "demo_state10 chip = \<lparr>trace = [], PIN_USED = (\<lambda>_. None), totalPinsUsed = 0, repo_initialized = True, boardErr = None,
     mc33810_chips = [chip], mc33810_wake = 0, mc33810_task_ready = False\<rparr>"

text \<open>A chip with no fault now, that had an open ignition coil before.\<close>

definition quiet_dev :: "u16 \<Rightarrow> (u16 \<Rightarrow> u16) \<Rightarrow> device" where
  "quiet_dev st f tr = (case last_word 5 (butlast tr) of None \<Rightarrow> 0 | Some w \<Rightarrow> if asks_status w then st else f w)"

lemma quiet_dev_answers: "answers10 (quiet_dev st f) 5 st f"
  by (simp add: answers10_def quiet_dev_def)

theorem mc33810_turn_reports_faults_witness:
  "let s' = mc33810_thread_chip (quiet_dev 0x0001 (\<lambda>_. 0x0012)) 0 (demo_state10 demo_chip10) in
     mc33810_getDiag (Some 0) 0 s' = PIN_OPEN \<and> mc33810_getDiag (Some 0) 4 s' = PIN_OPEN"
proof -
  let ?s = "demo_state10 demo_chip10" and ?dev = "quiet_dev 0x0001 (\<lambda>_. 0x0012)"
  define s' where "s' = mc33810_thread_chip ?dev 0 ?s"
  have d: "mc33810_chips ?s = [demo_chip10]" "trace ?s = []" "cfg demo_chip10 \<noteq> None" "bus10 demo_chip10 = 5"
    "drv_state demo_chip10 = MC33810_READY" "sync10 demo_chip10 []"
    by (simp_all add: demo_state10_def demo_chip10_def demo_cfg10_def bus10_def the_cfg10_def sync10_def last_spi_def)
  have f: "out_fault0 (mc33810_chips s' ! 0) = 0x0012"
    "\<forall>pin\<in>{4..<8}. mc33810_getDiag (Some 0) pin s' = mc33810_getDiag (Some 0) pin ?s"
    using mc33810_turn_reports_faults [of 0 ?s ?dev 1 "\<lambda>_. 0x0012", folded s'_def]
      quiet_dev_answers [of 1 "\<lambda>_. 0x0012"] by (simp_all add: d Let_def)
  have "mc33810_getDiag (Some 0) 0 s' = PIN_OPEN"
    by (simp add: mc33810_getDiag_def MC33810_DIRECT_OUTPUTS_def f(1) BIT_def PIN_OK_def PIN_OPEN_def)
  moreover have "mc33810_getDiag (Some 0) 4 ?s = PIN_OPEN"
    by (simp add: mc33810_getDiag_def MC33810_DIRECT_OUTPUTS_def d(1)) (simp add: demo_chip10_def BIT_def PIN_OK_def PIN_OPEN_def)
  ultimately show ?thesis using f(2) by (simp flip: s'_def)
qed

theorem mc33810_add_refused_keeps_slot_witness:
  "\<exists>s'. mc33810_add (quiet_dev 0 id) 0 (Some demo_cfg10) (gpio_core_start 1) (demo_state10 (demo_chip10\<lparr>cfg := None\<rparr>)) = (-1, gpio_core_start 1, s') \<and>
     cfg (mc33810_chips s' ! 0) = Some demo_cfg10"
  using mc33810_add_refused_keeps_slot [of demo_cfg10 0 "demo_state10 (demo_chip10\<lparr>cfg := None\<rparr>)" 4 "quiet_dev 0 id" "gpio_core_start 1"]
  by (auto simp: demo_cfg10_def demo_state10_def)

end
