(* ===== verification/Tle8888.thy ===== *)
theory Tle8888
  imports Spi_Bus
begin

text \<open>
  The driver of the engine management chip TLE8888 (28 outputs, two watchdogs),
  src/firmware/hw_layer/drivers/gpio/tle8888.c.  The chip holds its outputs off until its watchdogs
  have been served; it answers a word with the register the previous word addressed.  Most of the
  driver's state is global, so the functions take the whole state and the index of the chip.
  The time is a function of what has happened so far, like the answers of the device.
\<close>

definition TLE8888_OUTPUTS :: nat where "TLE8888_OUTPUTS = 28"
definition TLE8888_DIRECT_MISC :: nat where "TLE8888_DIRECT_MISC = 4"

record tle8888_io =
  io_port :: ioportid
  io_pad :: nat
  io_output :: int

record tle8888_config =
  spi_bus :: "nat option"
  spi_config :: nat
  ssport :: ioportid
  reset :: "ioportid \<times> nat"
  direct_io :: "tle8888_io list"
  mode :: nat

datatype tle8888_drv_state = TLE8888_DISABLED | TLE8888_WAIT_INIT | TLE8888_READY | TLE8888_FAILED

record tle8888_priv =
  cfg :: "tle8888_config option"
  o_state_cached :: u32
  o_state :: u32
  o_direct_mask :: u32
  o_oe_mask :: u32
  drv_state :: tle8888_drv_state
  OpStat1 :: u16

record tle8888_state = board +
  tle8888_chips :: "tle8888_priv list"
  tle8888_wake :: int
  tle8888_task_ready :: bool
  lastWindowWatchdogTimeNt :: int
  lastFunctionWatchdogTimeNt :: int
  WindowWatchdogErrorCounterValue :: u16
  FunctionalWatchdogPassCounterValue :: u16
  TotalErrorCounterValue :: u16
  maybeFirstResponse :: u16
  functionWDrx :: u16
  wdDiagResponse :: u16
  needInitialSpi :: bool
  isWatchdogHappy :: bool
  wasWatchdogHappy :: bool
  selfResetCounter :: int
  lowVoltageResetCounter :: int
  requestedResetCounter :: int
  tle8888reinitializationCounter :: int
  tle8888SpiCounter :: int
  tle8888initResponsesAccumulator :: int
  initResponse0 :: int
  initResponse1 :: int
  spiRxb :: u16
  spiTxb :: u16

subsection \<open>Commands\<close>

definition CMD_WR :: "u16 \<Rightarrow> u16 \<Rightarrow> u16" where
  "CMD_WR a d = 1 OR push_bit 1 (a AND 0x7f) OR push_bit 8 (d AND 0xff)"

definition CMD_R :: "u16 \<Rightarrow> u16" where
  "CMD_R a = push_bit 1 (a AND 0x7f)"

definition CMD_WWDServiceCmd :: u16 where "CMD_WWDServiceCmd = CMD_WR 0x15 0x03"
definition FWDRespCmd :: "u16 \<Rightarrow> u16" where "FWDRespCmd d = CMD_WR 0x16 d"
definition FWDRespSyncCmd :: "u16 \<Rightarrow> u16" where "FWDRespSyncCmd d = CMD_WR 0x17 d"
definition CMD_SR :: u16 where "CMD_SR = CMD_WR 0x1a 0x03"
definition CMD_OE_SET :: u16 where "CMD_OE_SET = CMD_WR 0x1c 0x02"
definition CMD_UNLOCK :: u16 where "CMD_UNLOCK = CMD_WR 0x1e 0x01"
definition WWDStat :: u16 where "WWDStat = 0x36"
definition FWDStat0 :: u16 where "FWDStat0 = 0x37"
definition FWDStat1 :: u16 where "FWDStat1 = 0x38"
definition CMD_OPSTAT1 :: u16 where "CMD_OPSTAT1 = CMD_R 0x35"
definition CMD_WWDSTAT :: u16 where "CMD_WWDSTAT = CMD_R WWDStat"
definition CMD_FWDSTAT0 :: u16 where "CMD_FWDSTAT0 = CMD_R FWDStat0"
definition CMD_FWDSTAT1 :: u16 where "CMD_FWDSTAT1 = CMD_R FWDStat1"
definition CMD_TECSTAT :: u16 where "CMD_TECSTAT = CMD_R 0x39"
definition CMD_WdDiag :: u16 where "CMD_WdDiag = CMD_R 0x2e"
definition CMD_OUTCONFIG :: "u16 \<Rightarrow> u16 \<Rightarrow> u16" where "CMD_OUTCONFIG n d = CMD_WR (0x40 + n) d"
definition CMD_VRSCONFIG1 :: "u16 \<Rightarrow> u16" where "CMD_VRSCONFIG1 d = CMD_WR 0x4a d"
definition CMD_INCONFIG :: "u16 \<Rightarrow> u16 \<Rightarrow> u16" where "CMD_INCONFIG n d = CMD_WR (0x53 + (n AND 0x03)) d"
definition CMD_DDCONFIG :: "u16 \<Rightarrow> u16 \<Rightarrow> u16" where "CMD_DDCONFIG n d = CMD_WR (0x57 + (n AND 0x03)) d"
definition CMD_OECONFIG :: "u16 \<Rightarrow> u16 \<Rightarrow> u16" where "CMD_OECONFIG n d = CMD_WR (0x5b + (n AND 0x03)) d"
definition CMD_CONT :: "u16 \<Rightarrow> u16 \<Rightarrow> u16" where "CMD_CONT n d = CMD_WR (0x7b + (n AND 0x03)) d"

lemmas cmd88_defs = CMD_WWDServiceCmd_def FWDRespCmd_def FWDRespSyncCmd_def CMD_SR_def CMD_OE_SET_def
  CMD_UNLOCK_def WWDStat_def FWDStat0_def FWDStat1_def CMD_OPSTAT1_def CMD_WWDSTAT_def CMD_FWDSTAT0_def
  CMD_FWDSTAT1_def CMD_TECSTAT_def CMD_WdDiag_def CMD_OUTCONFIG_def CMD_VRSCONFIG1_def CMD_INCONFIG_def
  CMD_DDCONFIG_def CMD_OECONFIG_def CMD_CONT_def

text \<open>The answers to the 16 questions of the functional watchdog, in reverse order.\<close>

definition watchDogResponses :: "u16 list list" where
  "watchDogResponses =
    [[0xFF, 0x0F, 0xF0, 0x00],
     [0xB0, 0x40, 0xBF, 0x4F],
     [0xE9, 0x19, 0xE6, 0x16],
     [0xA6, 0x56, 0xA9, 0x59],
     [0x75, 0x85, 0x7A, 0x8A],
     [0x3A, 0xCA, 0x35, 0xC5],
     [0x63, 0x93, 0x6C, 0x9C],
     [0x2C, 0xDC, 0x23, 0xD3],
     [0xD2, 0x22, 0xDD, 0x2D],
     [0x9D, 0x6D, 0x92, 0x62],
     [0xC4, 0x34, 0xCB, 0x3B],
     [0x8B, 0x7B, 0x84, 0x74],
     [0x58, 0xA8, 0x57, 0xA7],
     [0x17, 0xE7, 0x18, 0xE8],
     [0x4E, 0xBE, 0x41, 0xB1],
     [0x01, 0xF1, 0x0E, 0xFE]]"

definition getRegisterFromResponse :: "u16 \<Rightarrow> u16" where
  "getRegisterFromResponse x = drop_bit 1 x AND 0x7f"

definition counter6 :: "u16 \<Rightarrow> u16" where
  "counter6 v = drop_bit 8 v AND 0x3f"

definition getWindowWatchdog :: "'z tle8888_state_scheme \<Rightarrow> u16" where
  "getWindowWatchdog s = counter6 (WindowWatchdogErrorCounterValue s)"

definition getFunctionalWatchdog :: "'z tle8888_state_scheme \<Rightarrow> u16" where
  "getFunctionalWatchdog s = counter6 (FunctionalWatchdogPassCounterValue s)"

subsection \<open>Transfers\<close>

definition the_cfg88 :: "tle8888_priv \<Rightarrow> tle8888_config" where
  "the_cfg88 chip = (case cfg chip of Some c \<Rightarrow> c
     | None \<Rightarrow> \<lparr>spi_bus = None, spi_config = 0, ssport = 0, reset = (0, 0), direct_io = [], mode = 0\<rparr>)"

definition upd_chip88 :: "nat \<Rightarrow> (tle8888_priv \<Rightarrow> tle8888_priv) \<Rightarrow> 'z tle8888_state_scheme \<Rightarrow> 'z tle8888_state_scheme" where
  "upd_chip88 k f s = s\<lparr>tle8888_chips := (tle8888_chips s)[k := f (tle8888_chips s ! k)]\<rparr>"

definition tle8888_spi_rw ::
    "device \<Rightarrow> nat \<Rightarrow> u16 \<Rightarrow> 'z tle8888_state_scheme \<Rightarrow> int \<times> u16 \<times> 'z tle8888_state_scheme" where
  "tle8888_spi_rw dev k tx s =
     (let (rx, s) = spi_exchange dev (spi_config (the_cfg88 (tle8888_chips s ! k))) tx s;
          s = s\<lparr>spiRxb := rx, spiTxb := tx, tle8888SpiCounter := tle8888SpiCounter s + 1\<rparr>
      in (0, rx, s))"

text \<open>A transfer whose answer and result are ignored (\<open>rx\<close> is \<open>NULL\<close>), and a series of them.\<close>

definition send88 :: "device \<Rightarrow> nat \<Rightarrow> u16 \<Rightarrow> 'z tle8888_state_scheme \<Rightarrow> 'z tle8888_state_scheme" where
  "send88 dev k tx s = (case tle8888_spi_rw dev k tx s of (ret, rx, s) \<Rightarrow> s)"

definition sends88 :: "device \<Rightarrow> nat \<Rightarrow> u16 list \<Rightarrow> 'z tle8888_state_scheme \<Rightarrow> 'z tle8888_state_scheme" where
  "sends88 dev k txs s = fold (send88 dev k) txs s"

definition byte_of :: "u32 \<Rightarrow> nat \<Rightarrow> u16" where
  "byte_of x i = ucast (drop_bit (8 * i) x AND 0xff)"

definition tle8888_update_output ::
    "device \<Rightarrow> nat \<Rightarrow> 'z tle8888_state_scheme \<Rightarrow> int \<times> 'z tle8888_state_scheme" where
  "tle8888_update_output dev k s =
     (let chip = tle8888_chips s ! k;
          out_data = o_state chip AND NOT (o_direct_mask chip);
          (ret, s) = fold (\<lambda>i (ret, s). case tle8888_spi_rw dev k (CMD_CONT (of_nat i) (byte_of out_data i)) s of
                         (r, rx, s) \<Rightarrow> (ret OR r, s)) [0..<4] (0, s)
      in (ret, if ret = 0 then upd_chip88 k (\<lambda>chip. chip\<lparr>o_state_cached := out_data\<rparr>) s else s))"

definition tle8888_update_status ::
    "device \<Rightarrow> nat \<Rightarrow> 'z tle8888_state_scheme \<Rightarrow> int \<times> 'z tle8888_state_scheme" where
  "tle8888_update_status dev k s =
     (let (ret, rx, s) = tle8888_spi_rw dev k CMD_OPSTAT1 s
      in if ret \<noteq> 0 then (ret, s)
         else
           let (ret, rx, s) = tle8888_spi_rw dev k CMD_OPSTAT1 s
           in if ret \<noteq> 0 then (ret, s) else (ret, upd_chip88 k (\<lambda>chip. chip\<lparr>OpStat1 := rx\<rparr>) s))"

fun find_direct :: "int \<Rightarrow> tle8888_io list \<Rightarrow> tle8888_io option" where
  "find_direct out [] = None"
| "find_direct out (io # ios) = (if io_output io = out then Some io else find_direct out ios)"

definition tle8888_update_direct_output ::
    "nat \<Rightarrow> nat \<Rightarrow> int \<Rightarrow> 'z tle8888_state_scheme \<Rightarrow> int \<times> 'z tle8888_state_scheme" where
  "tle8888_update_direct_output k pin v s =
     (case find_direct (int pin + 1) (take TLE8888_DIRECT_MISC (direct_io (the_cfg88 (tle8888_chips s ! k)))) of
        Some io \<Rightarrow> (0, emit (if v \<noteq> 0 then PalSet (io_port io) (io_pad io) else PalClear (io_port io) (io_pad io)) s)
      | None \<Rightarrow> (-1, s))"

definition tle8888_wake_driver :: "'z tle8888_state_scheme \<Rightarrow> int \<times> 'z tle8888_state_scheme" where
  "tle8888_wake_driver s = (0, s\<lparr>tle8888_wake := tle8888_wake s + 1\<rparr>)"

subsection \<open>Start-up and watchdogs\<close>

definition handleFWDStat1 ::
    "device \<Rightarrow> nat \<Rightarrow> u16 \<Rightarrow> u16 \<Rightarrow> 'z tle8888_state_scheme \<Rightarrow> 'z tle8888_state_scheme" where
  "handleFWDStat1 dev k registerNum dat s =
     (if registerNum \<noteq> FWDStat1 then s
      else
        let FWDQUEST = unat (dat AND 0xF);
            FWDRESPC = unat (drop_bit 4 dat AND 3);
            response = watchDogResponses ! FWDQUEST ! (3 - FWDRESPC);
            s = (if FWDRESPC \<noteq> 0 then send88 dev k (FWDRespCmd response) s
                 else send88 dev k (FWDRespSyncCmd response) s);
            s = send88 dev k CMD_WdDiag s;
            (ret, rx, s) = tle8888_spi_rw dev k CMD_WdDiag s
        in s\<lparr>wdDiagResponse := rx\<rparr>)"

text \<open>
  The loop over \<open>direct_io\<close>.  An output above 32 shifts by more than the width, which C leaves
  undefined; the properties are about outputs up to 32.
\<close>

fun map_direct :: "device \<Rightarrow> nat \<Rightarrow> nat list \<Rightarrow> 'z tle8888_state_scheme \<Rightarrow> int \<times> 'z tle8888_state_scheme" where
  "map_direct dev k [] s = (0, s)"
| "map_direct dev k (i # is) s =
     (let chip = tle8888_chips s ! k; out = io_output (direct_io (the_cfg88 chip) ! i)
      in if out = 0 then map_direct dev k is s
         else if out < 5 then (-1, s)
         else
           let mask = push_bit (nat (out - 1)) 1
           in if o_direct_mask chip AND mask \<noteq> 0 then (-1, s)
              else
                let s = upd_chip88 k (\<lambda>chip. chip\<lparr>o_direct_mask := o_direct_mask chip OR mask,
                                           o_oe_mask := o_oe_mask chip OR mask\<rparr>) s
                in map_direct dev k is (send88 dev k (CMD_INCONFIG (of_nat i) (word_of_int (out - 5))) s))"

definition startup_words :: "tle8888_priv \<Rightarrow> u16 list" where
  "startup_words chip =
     concat (map (\<lambda>i. [CMD_OECONFIG (of_nat i) (byte_of (o_oe_mask chip) i),
                       CMD_DDCONFIG (of_nat i) (byte_of (o_direct_mask chip) i)]) [0..<4]) @
     map (\<lambda>i. CMD_OUTCONFIG (of_nat i) 0) [0..<6] @
     [CMD_OE_SET] @
     (if mode (the_cfg88 chip) > 0 then [CMD_VRSCONFIG1 (of_nat (mode (the_cfg88 chip) * 4))] else [])"

definition startupConfiguration ::
    "device \<Rightarrow> nat \<Rightarrow> 'z tle8888_state_scheme \<Rightarrow> int \<times> 'z tle8888_state_scheme" where
  "startupConfiguration dev k s =
     (let (ret, response, s) = tle8888_spi_rw dev k CMD_UNLOCK s;
          s = (if response = 53 then s\<lparr>tle8888initResponsesAccumulator := tle8888initResponsesAccumulator s + 8\<rparr> else s);
          s = s\<lparr>initResponse1 := uint response\<rparr>;
          s = upd_chip88 k (\<lambda>chip. chip\<lparr>o_direct_mask := 0 OR 0x0000000f OR 0x0f000000,
                                     o_oe_mask := 0 OR 0x0000000f OR 0x0f000000\<rparr>) s;
          (ret, s) = map_direct dev k [0..<TLE8888_DIRECT_MISC] s
      in if ret \<noteq> 0 then (ret, s)
         else
           let s = upd_chip88 k (\<lambda>chip. chip\<lparr>o_oe_mask := o_oe_mask chip OR 0x0ffffff0\<rparr>) s
           in (0, sends88 dev k (startup_words (tle8888_chips s ! k)) s))"

text \<open>
  \<open>MS2NT\<close> of the closed window (100.8 ms) and of the functional watchdog's period (20 ms), for
  \<open>m\<close> ticks per microsecond (\<open>US_TO_NT_MULTIPLIER\<close>).
\<close>

definition Window_watchdog_close_window_time_nt :: "int \<Rightarrow> int" where
  "Window_watchdog_close_window_time_nt m = 100800 * m"

definition Functional_Watchdog_PERIOD_NT :: "int \<Rightarrow> int" where
  "Functional_Watchdog_PERIOD_NT m = 20 * 1000 * m"

definition service_window :: "device \<Rightarrow> int \<Rightarrow> int \<Rightarrow> nat \<Rightarrow> 'z tle8888_state_scheme \<Rightarrow> 'z tle8888_state_scheme" where
  "service_window dev m nowNt k s =
     (if nowNt - lastWindowWatchdogTimeNt s > Window_watchdog_close_window_time_nt m then
        let (ret, rx, s) = tle8888_spi_rw dev k CMD_WWDServiceCmd s
        in s\<lparr>maybeFirstResponse := rx, lastWindowWatchdogTimeNt := nowNt\<rparr>
      else s)"

definition service_function :: "device \<Rightarrow> int \<Rightarrow> int \<Rightarrow> nat \<Rightarrow> 'z tle8888_state_scheme \<Rightarrow> 'z tle8888_state_scheme" where
  "service_function dev m nowNt k s =
     (if nowNt - lastFunctionWatchdogTimeNt s > Functional_Watchdog_PERIOD_NT m then
        let (ret, rx, s) = tle8888_spi_rw dev k CMD_FWDSTAT1 s;
            s = s\<lparr>maybeFirstResponse := rx\<rparr>;
            (ret, rx, s) = tle8888_spi_rw dev k CMD_WdDiag s;
            s = s\<lparr>functionWDrx := rx\<rparr>;
            s = handleFWDStat1 dev k (getRegisterFromResponse rx) (drop_bit 8 rx AND 0xff) s
        in s\<lparr>lastFunctionWatchdogTimeNt := nowNt\<rparr>
      else s)"

definition watchdogLogic ::
    "device \<Rightarrow> (hw_event list \<Rightarrow> int) \<Rightarrow> int \<Rightarrow> nat \<Rightarrow> 'z tle8888_state_scheme \<Rightarrow> 'z tle8888_state_scheme" where
  "watchdogLogic dev clock m k s =
     (let nowNt = clock (trace s);
          s = service_window dev m nowNt k s;
          s = service_function dev m nowNt k s;
          s = send88 dev k CMD_WWDSTAT s;
          (ret, rx, s) = tle8888_spi_rw dev k CMD_FWDSTAT0 s;
          s = s\<lparr>WindowWatchdogErrorCounterValue := rx\<rparr>;
          (ret, rx, s) = tle8888_spi_rw dev k CMD_TECSTAT s;
          s = s\<lparr>FunctionalWatchdogPassCounterValue := rx\<rparr>;
          (ret, rx, s) = tle8888_spi_rw dev k CMD_TECSTAT s;
          s = s\<lparr>TotalErrorCounterValue := rx\<rparr>
      in if getRegisterFromResponse (WindowWatchdogErrorCounterValue s) = WWDStat \<and>
            getRegisterFromResponse (FunctionalWatchdogPassCounterValue s) = FWDStat0 then
           let s = s\<lparr>wasWatchdogHappy := isWatchdogHappy s\<rparr>;
               s = s\<lparr>isWatchdogHappy := (getWindowWatchdog s = 0 \<and> getFunctionalWatchdog s = 0)\<rparr>
           in if \<not> wasWatchdogHappy s \<and> isWatchdogHappy s then snd (startupConfiguration dev k s) else s
         else s)"

definition tle8888_read_reg :: "device \<Rightarrow> u16 \<Rightarrow> 'z tle8888_state_scheme \<Rightarrow> u16 \<times> 'z tle8888_state_scheme" where
  "tle8888_read_reg dev reg s = (case tle8888_spi_rw dev 0 (CMD_R reg) s of (ret, rx, s) \<Rightarrow> (rx, s))"

text \<open>\<open>tle8888_dump_regs\<close> of pin_repository.cpp: what it reads; the messages are not modelled.\<close>

definition tle8888_dump_regs :: "device \<Rightarrow> 'z tle8888_state_scheme \<Rightarrow> 'z tle8888_state_scheme" where
  "tle8888_dump_regs dev s =
     fold (\<lambda>request s. snd (tle8888_read_reg dev (of_nat request) s)) [0..<0x7e + 1] (snd (tle8888_read_reg dev 0 s))"

definition tle8888SpiStartupExchange ::
    "device \<Rightarrow> (hw_event list \<Rightarrow> int) \<Rightarrow> int \<Rightarrow> bool \<Rightarrow> nat \<Rightarrow> 'z tle8888_state_scheme \<Rightarrow> int \<times> 'z tle8888_state_scheme" where
  "tle8888SpiStartupExchange dev clock m verboseTLE8888 k s =
     (let s = s\<lparr>tle8888reinitializationCounter := tle8888reinitializationCounter s + 1,
                tle8888initResponsesAccumulator := 0\<rparr>;
          s = emit (Sleep 50) s;
          s = watchdogLogic dev clock m k s;
          (ret, response, s) = tle8888_spi_rw dev k CMD_SR s;
          s = (if response = 253 then s\<lparr>tle8888initResponsesAccumulator := tle8888initResponsesAccumulator s + 4\<rparr>
               else if response = 2408 then s\<lparr>tle8888initResponsesAccumulator := tle8888initResponsesAccumulator s + 100\<rparr>
               else s);
          s = s\<lparr>initResponse0 := uint response\<rparr>;
          s = emit (Sleep 3) s;
          (ret, s) = startupConfiguration dev k s
      in (0, if verboseTLE8888 then tle8888_dump_regs dev s else s))"

subsection \<open>The driver thread\<close>

definition tle8888_thread_chip :: "device \<Rightarrow> nat \<Rightarrow> 'z tle8888_state_scheme \<Rightarrow> 'z tle8888_state_scheme" where
  "tle8888_thread_chip dev i s =
     (let chip = tle8888_chips s ! i
      in if cfg chip = None \<or> drv_state chip = TLE8888_DISABLED \<or> drv_state chip = TLE8888_FAILED then s
         else
           let (ret, s) = tle8888_update_output dev i s;
               (ret, s) = tle8888_update_status dev i s
           in if OpStat1 (tle8888_chips s ! i) AND push_bit 6 1 = 0
              then s\<lparr>needInitialSpi := True, selfResetCounter := selfResetCounter s + 1\<rparr>
              else s)"

text \<open>One turn of the thread's endless loop; \<open>low\<close> is \<open>vBattForTle8888 < 7\<close>.\<close>

definition tle8888_driver_thread ::
    "device \<Rightarrow> (hw_event list \<Rightarrow> int) \<Rightarrow> int \<Rightarrow> bool \<Rightarrow> bool \<Rightarrow> 'z tle8888_state_scheme \<Rightarrow> 'z tle8888_state_scheme" where
  "tle8888_driver_thread dev clock m verbose low s =
     (if low then
        (if \<not> needInitialSpi s
         then s\<lparr>needInitialSpi := True, lowVoltageResetCounter := lowVoltageResetCounter s + 1\<rparr> else s)
      else
        let n = length (tle8888_chips s);
            s = (if needInitialSpi s then
                   fold (\<lambda>i s. snd (tle8888SpiStartupExchange dev clock m verbose i s)) [0..<n]
                     (s\<lparr>wasWatchdogHappy := False, isWatchdogHappy := False, needInitialSpi := False\<rparr>)
                 else s);
            s = watchdogLogic dev clock m 0 s
        in fold (tle8888_thread_chip dev) [0..<n] s)"

definition requestTLE8888initialization :: "'z tle8888_state_scheme \<Rightarrow> 'z tle8888_state_scheme" where
  "requestTLE8888initialization s = s\<lparr>needInitialSpi := True, requestedResetCounter := requestedResetCounter s + 1\<rparr>"

subsection \<open>The exported operations\<close>

definition tle8888_writePad ::
    "nat option \<Rightarrow> nat \<Rightarrow> int \<Rightarrow> 'z tle8888_state_scheme \<Rightarrow> int \<times> 'z tle8888_state_scheme" where
  "tle8888_writePad dat pin v s =
     (case dat of
        None \<Rightarrow> (-1, s)
      | Some k \<Rightarrow>
          if pin \<ge> TLE8888_OUTPUTS then (-1, s)
          else
            let s = upd_chip88 k (\<lambda>chip. if v \<noteq> 0 then chip\<lparr>o_state := o_state chip OR push_bit pin 1\<rparr>
                                   else chip\<lparr>o_state := o_state chip AND NOT (push_bit pin 1)\<rparr>) s
            in if o_direct_mask (tle8888_chips s ! k) AND push_bit pin 1 \<noteq> 0
               then tle8888_update_direct_output k pin v s
               else tle8888_wake_driver s)"

definition tle8888_pads :: "tle8888_config \<Rightarrow> ((ioportid \<times> nat) \<times> string) list" where
  "tle8888_pads c = (reset c, ''tle8888 RST'') #
     map (\<lambda>io. ((io_port io, io_pad io), ''tle8888 DIRECT IO'')) (take TLE8888_DIRECT_MISC (direct_io c))"

definition tle8888_chip_init :: "nat \<Rightarrow> 'z tle8888_state_scheme \<Rightarrow> int \<times> 'z tle8888_state_scheme" where
  "tle8888_chip_init k s =
     (let pads = tle8888_pads (the_cfg88 (tle8888_chips s ! k));
          (taken, s) = mark_pads pads s;
          ret = (if taken then -1 else 0)
      in (ret, unmark_pads (map fst pads) s))"

definition tle8888_init :: "nat option \<Rightarrow> 'z tle8888_state_scheme \<Rightarrow> int \<times> 'z tle8888_state_scheme" where
  "tle8888_init dat s =
     (case dat of
        None \<Rightarrow> (-1, s)
      | Some k \<Rightarrow>
          if drv_state (tle8888_chips s ! k) \<noteq> TLE8888_WAIT_INIT then (-1, s)
          else
            (case tle8888_chip_init k s of
               (ret, s) \<Rightarrow>
                 if ret \<noteq> 0 then (ret, s)
                 else (0, (upd_chip88 k (\<lambda>chip. chip\<lparr>drv_state := TLE8888_READY\<rparr>) s)\<lparr>tle8888_task_ready := True\<rparr>)))"

definition tle8888_deinit :: "nat option \<Rightarrow> 'z tle8888_state_scheme \<Rightarrow> int \<times> 'z tle8888_state_scheme" where
  "tle8888_deinit dat s = (0, s)"

definition tle8888_ops :: "'z tle8888_state_scheme gpiochip_ops" where
  "tle8888_ops = \<lparr>op_setPadMode = None, op_writePad = Some tle8888_writePad, op_readPad = None,
     op_getDiag = None, op_init = Some tle8888_init, op_deinit = Some tle8888_deinit\<rparr>"

definition tle8888_pin_names :: "string option list" where
  "tle8888_pin_names =
     map (\<lambda>n. Some (''TLE8888.INJ'' @ show_nat n)) [1..<5] @
     map (\<lambda>n. Some (''TLE8888.OUT'' @ show_nat n)) [5..<25] @
     map (\<lambda>n. Some (''TLE8888.IGN'' @ show_nat n)) [1..<5]"

text \<open>Without a configuration the assertion reports and returns 0 before the check that returns -1.\<close>

definition tle8888_add ::
    "nat \<Rightarrow> tle8888_config option \<Rightarrow> 'z tle8888_state_scheme gpio_core \<Rightarrow> 'z tle8888_state_scheme
       \<Rightarrow> int \<times> 'z tle8888_state_scheme gpio_core \<times> 'z tle8888_state_scheme" where
  "tle8888_add index c gc s =
     (case c of
        None \<Rightarrow> (0, gc, board_firmwareError OBD_PCM_Processor_Fault s)
      | Some conf \<Rightarrow>
          if spi_bus conf = None \<or> index \<ge> length (tle8888_chips s) then (-1, gc, s)
          else if ssport conf = 0 then (-1, gc, s)
          else if cfg (tle8888_chips s ! index) \<noteq> None then (-1, gc, s)
          else
            let s = upd_chip88 index (\<lambda>chip. chip\<lparr>cfg := Some conf, o_state := 0, o_state_cached := 0,
                          o_direct_mask := 0, drv_state := TLE8888_WAIT_INIT\<rparr>) s;
                (ret, gc) = gpiochip_register ''tle8888'' (Some tle8888_ops) TLE8888_OUTPUTS (Some index) gc
            in (ret, snd (gpiochips_setPinNames (nat (ret mod 256)) tle8888_pin_names gc), s))"

subsection \<open>The registers of the chip\<close>

definition bus88 :: "nat \<Rightarrow> 'z tle8888_state_scheme \<Rightarrow> nat" where
  "bus88 k s = spi_config (the_cfg88 (tle8888_chips s ! k))"

definition writes_reg :: "u16 \<Rightarrow> u16 \<Rightarrow> bool" where
  "writes_reg a w \<longleftrightarrow> w AND 0xff = CMD_WR a 0"

text \<open>What register \<open>a\<close> of chip \<open>c\<close> was last written with since the last software reset.\<close>

definition reg88 :: "nat \<Rightarrow> u16 \<Rightarrow> hw_event list \<Rightarrow> u16 option" where
  "reg88 c a tr = (case last_spi c (\<lambda>w. writes_reg a w \<or> w = CMD_SR) tr of
     Some w \<Rightarrow> if writes_reg a w then Some (drop_bit 8 w) else None
   | None \<Rightarrow> None)"

lemma low_bits: "x AND 0x7f = take_bit 7 x" "x AND 0xff = take_bit 8 x" for x :: u16
  by (simp_all add: take_bit_eq_mask mask_eq_exp_minus_1)

lemma bit_CMD_WR: "bit (CMD_WR a d) n \<longleftrightarrow> n = 0 \<or> 1 \<le> n \<and> n < 8 \<and> bit a (n - 1) \<or> 8 \<le> n \<and> n < 16 \<and> bit d (n - 8)"
proof -
  have "bit (CMD_WR a d) n \<longleftrightarrow> bit (1 :: u16) n \<or> bit (push_bit 1 (take_bit 7 a)) n \<or> bit (push_bit 8 (take_bit 8 d)) n"
    by (simp only: CMD_WR_def low_bits bit_or_iff disj_assoc)
  also have "\<dots> \<longleftrightarrow> n = 0 \<or> 1 \<le> n \<and> n < 8 \<and> bit a (n - 1) \<or> 8 \<le> n \<and> n < 16 \<and> bit d (n - 8)"
    by (auto simp only: bit_push_bit_iff bit_take_bit_iff bit_1_iff possible_bit_def) auto
  finally show ?thesis .
qed

lemma CMD_WR_low: "CMD_WR a d AND 0xff = CMD_WR a 0"
  by (rule bit_eqI) (auto simp: low_bits(2) bit_take_bit_iff bit_CMD_WR)

lemma CMD_WR_inj: "CMD_WR a 0 = CMD_WR b 0 \<longleftrightarrow> a AND 0x7f = b AND 0x7f"
proof -
  have d: "drop_bit 1 (CMD_WR x 0) = x AND 0x7f" for x
    by (rule bit_eqI) (auto simp: low_bits(1) bit_take_bit_iff bit_drop_bit_eq bit_CMD_WR)
  have "CMD_WR a 0 = CMD_WR b 0 \<Longrightarrow> a AND 0x7f = b AND 0x7f" by (metis d)
  then show ?thesis by (metis CMD_WR_def)
qed

lemma writes_reg_WR [simp]: "writes_reg a (CMD_WR b d) \<longleftrightarrow> a AND 0x7f = b AND 0x7f"
  unfolding writes_reg_def CMD_WR_low by (auto simp: CMD_WR_inj)

lemma writes_reg_R [simp]: "\<not> writes_reg a (CMD_R b)"
proof
  assume "writes_reg a (CMD_R b)"
  then have "bit (CMD_R b AND 0xff) 0 = bit (CMD_WR a 0) 0" by (simp only: writes_reg_def)
  then show False by (simp only: bit_CMD_WR) (simp add: CMD_R_def bit_and_iff)
qed

lemma CMD_WR_data [simp]: "drop_bit 8 (CMD_WR a d) = d AND 0xff"
  by (rule bit_eqI) (auto simp: low_bits(2) bit_take_bit_iff bit_drop_bit_eq bit_CMD_WR)

lemma byte_of_mask [simp]: "byte_of x i AND 0xff = byte_of x i"
proof -
  have "byte_of x i = ucast (drop_bit (8 * i) x) AND 0xff"
    by (rule bit_eqI) (auto simp: byte_of_def bit_simps dest: bit_imp_le_length)
  then show ?thesis by (simp add: and.assoc)
qed

lemma reg88_snoc [simp]:
  "reg88 c a (tr @ [Spi d w]) = (if d = c \<and> writes_reg a w then Some (drop_bit 8 w) else if d = c \<and> w = CMD_SR then None else reg88 c a tr)"
  "reg88 c a (tr @ [Sleep n]) = reg88 c a tr" "reg88 c a (tr @ [PalSet port pad]) = reg88 c a tr"
  "reg88 c a (tr @ [PalClear port pad]) = reg88 c a tr"
  by (auto simp: reg88_def)

lemma reg88_append: "reg88 c a (tr @ map (Spi c) (ws @ [w])) =
    (if writes_reg a w then Some (drop_bit 8 w) else if w = CMD_SR then None else reg88 c a (tr @ map (Spi c) ws))"
  using reg88_snoc(1) [of c a "tr @ map (Spi c) ws" c w] by simp

lemma reg88_skip: "\<forall>w\<in>set ws. \<not> writes_reg a w \<and> w \<noteq> CMD_SR \<Longrightarrow> reg88 c a (tr @ map (Spi c) ws) = reg88 c a tr"
proof (induction ws rule: rev_induct)
  case (snoc w ws)
  then show ?case by (simp only: reg88_append) simp
qed simp

lemma find_app: "find P (xs @ ys) = (case find P xs of Some x \<Rightarrow> Some x | None \<Rightarrow> find P ys)"
  by (induction xs) simp_all

lemma reg88_find: "CMD_SR \<notin> set ws \<Longrightarrow> reg88 c a (tr @ map (Spi c) ws) =
    (case find (writes_reg a) (rev ws) of Some w \<Rightarrow> Some (drop_bit 8 w) | None \<Rightarrow> reg88 c a tr)"
proof (induction ws rule: rev_induct)
  case (snoc w ws)
  then show ?case by (simp only: reg88_append) auto
qed simp

text \<open>No word that writes another register is the reset command.\<close>

lemma not_SR: "\<not> writes_reg 0x1a w \<Longrightarrow> w \<noteq> CMD_SR"
  by (auto simp: CMD_SR_def)

subsection \<open>Transfers and start-up\<close>

lemma send88_effect [simp]:
  "trace (send88 dev k tx s) = trace s @ [Spi (bus88 k s) tx]"
  "tle8888_chips (send88 dev k tx s) = tle8888_chips s"
  "needInitialSpi (send88 dev k tx s) = needInitialSpi s"
  "lastWindowWatchdogTimeNt (send88 dev k tx s) = lastWindowWatchdogTimeNt s"
  "lastFunctionWatchdogTimeNt (send88 dev k tx s) = lastFunctionWatchdogTimeNt s"
  by (cases s; simp add: send88_def tle8888_spi_rw_def spi_exchange_def emit_def bus88_def Let_def)+

lemma rw88: "tle8888_spi_rw dev k tx s = (0, dev (trace s @ [Spi (bus88 k s) tx]), send88 dev k tx s)"
  by (simp add: send88_def tle8888_spi_rw_def spi_exchange_def bus88_def Let_def)

lemma bus88_send [simp]: "bus88 j (send88 dev k tx s) = bus88 j s"
  by (simp add: bus88_def)

lemma sends88_effect [simp]:
  "trace (sends88 dev k txs s) = trace s @ map (Spi (bus88 k s)) txs"
  "tle8888_chips (sends88 dev k txs s) = tle8888_chips s"
  "needInitialSpi (sends88 dev k txs s) = needInitialSpi s"
  unfolding sends88_def by (induction txs arbitrary: s) simp_all

lemma upd_chip88_effect [simp]:
  "trace (upd_chip88 k f s) = trace s"
  "tle8888_chips (upd_chip88 k f s) = (tle8888_chips s)[k := f (tle8888_chips s ! k)]"
  "needInitialSpi (upd_chip88 k f s) = needInitialSpi s"
  by (cases s; simp add: upd_chip88_def)+

lemma emit88_effect [simp]:
  "tle8888_chips (emit e s) = tle8888_chips s" "needInitialSpi (emit e s) = needInitialSpi s"
  by (cases s; simp add: emit_def)+

text \<open>What a chip keeps whatever the driver does to it, and what a start-up makes of it.\<close>

definition same88 :: "tle8888_priv \<Rightarrow> tle8888_priv \<Rightarrow> bool" where
  "same88 a b \<longleftrightarrow> cfg b = cfg a \<and> o_state b = o_state a \<and> drv_state b = drv_state a"

lemma same88_refl [simp]: "same88 a a"
  by (simp add: same88_def)

lemma same88_trans: "same88 a b \<Longrightarrow> same88 b c \<Longrightarrow> same88 a c"
  by (simp add: same88_def)

lemma same88_cfg: "same88 a b \<Longrightarrow> the_cfg88 b = the_cfg88 a"
  by (simp add: same88_def the_cfg88_def)

definition out_mask :: "int \<Rightarrow> u32 \<Rightarrow> u32" where
  "out_mask out m = (if out = 0 then m else m OR push_bit (nat (out - 1)) 1)"

definition outs88 :: "tle8888_config \<Rightarrow> int list" where
  "outs88 c = map (\<lambda>i. io_output (direct_io c ! i)) [0..<TLE8888_DIRECT_MISC]"

definition in_words :: "tle8888_config \<Rightarrow> nat list \<Rightarrow> u16 list" where
  "in_words c is = concat (map (\<lambda>i. if io_output (direct_io c ! i) = 0 then []
     else [CMD_INCONFIG (of_nat i) (word_of_int (io_output (direct_io c ! i) - 5))]) is)"

text \<open>Outputs a configuration may map: not one of the dedicated ones, and each once.\<close>

definition mappable :: "int list \<Rightarrow> u32 \<Rightarrow> bool" where
  "mappable outs m \<longleftrightarrow> (\<forall>out\<in>set outs. out \<noteq> 0 \<longrightarrow> 5 \<le> out \<and> out \<le> 32 \<and> \<not> bit m (nat (out - 1))) \<and>
     distinct (filter (\<lambda>out. out \<noteq> 0) outs)"

lemma mask32_iff: "m AND push_bit n 1 \<noteq> 0 \<longleftrightarrow> bit m n" for m :: u32
  by (simp only: bit_iff_and_push_bit_not_eq_0)

lemma mappable_Cons:
  assumes "out \<le> 32" "\<forall>o'\<in>set outs. o' \<le> 32"
  shows "mappable (out # outs) m \<longleftrightarrow>
    (if out = 0 then mappable outs m else 5 \<le> out \<and> \<not> bit m (nat (out - 1)) \<and> mappable outs (out_mask out m))"
proof (cases "out = 0 \<or> out < 5")
  case False
  have "bit (out_mask out m) (nat (o' - 1)) \<longleftrightarrow> bit m (nat (o' - 1)) \<or> o' = out"
    if "5 \<le> o'" "o' \<le> 32" for o' :: int
    using that False by (auto simp: out_mask_def bit_simps bit_1_iff dest: bit_imp_le_length)
  with False assms show ?thesis by (auto simp: mappable_def)
qed (auto simp: mappable_def)

lemma map_direct_effect:
  assumes "k < length (tle8888_chips s)" "\<forall>i\<in>set is. io_output (direct_io (the_cfg88 (tle8888_chips s ! k)) ! i) \<le> 32"
  defines "chip \<equiv> tle8888_chips s ! k"
  defines "c \<equiv> the_cfg88 chip"
  defines "outs \<equiv> map (\<lambda>i. io_output (direct_io c ! i)) is"
  shows "if mappable outs (o_direct_mask chip)
    then \<exists>s'. map_direct dev k is s = (0, s') \<and> trace s' = trace s @ map (Spi (bus88 k s)) (in_words c is) \<and>
      tle8888_chips s' = (tle8888_chips s)[k := chip\<lparr>o_direct_mask := fold out_mask outs (o_direct_mask chip),
                                                   o_oe_mask := fold out_mask outs (o_oe_mask chip)\<rparr>] \<and>
      needInitialSpi s' = needInitialSpi s
    else \<exists>s' chip'. map_direct dev k is s = (-1, s') \<and> same88 chip chip' \<and>
      (\<exists>ws. trace s' = trace s @ map (Spi (bus88 k s)) ws) \<and>
      tle8888_chips s' = (tle8888_chips s)[k := chip'] \<and> needInitialSpi s' = needInitialSpi s"
  using assms(1,2) unfolding outs_def c_def chip_def
proof (induction "is" arbitrary: s)
  case Nil
  then show ?case by (simp add: mappable_def in_words_def)
next
  case (Cons i "is" s)
  let ?chip = "tle8888_chips s ! k"
  let ?out = "io_output (direct_io (the_cfg88 ?chip) ! i)"
  let ?outs = "map (\<lambda>i. io_output (direct_io (the_cfg88 ?chip) ! i)) is"
  have le: "?out \<le> 32" "\<forall>o'\<in>set ?outs. o' \<le> 32" using Cons.prems by auto
  note m = mappable_Cons [OF le, of "o_direct_mask ?chip"]
  show ?case
  proof (cases "?out = 0 \<or> ?out < 5 \<or> bit (o_direct_mask ?chip) (nat (?out - 1))")
    case True
    show ?thesis
    proof (cases "?out = 0")
      case True
      then have "in_words (the_cfg88 ?chip) (i # is) = in_words (the_cfg88 ?chip) is" "map_direct dev k (i # is) s = map_direct dev k is s"
        "fold out_mask (?out # ?outs) x = fold out_mask ?outs x" for x by (simp_all add: in_words_def out_mask_def Let_def)
      moreover have "mappable (?out # ?outs) (o_direct_mask ?chip) = mappable ?outs (o_direct_mask ?chip)" using m True by simp
      ultimately show ?thesis using Cons.IH [of s] Cons.prems by (simp only: list.map) simp
    next
      case False
      with True have "\<not> mappable (?out # ?outs) (o_direct_mask ?chip)" "map_direct dev k (i # is) s = (-1, s)"
        using m mask32_iff [of "o_direct_mask ?chip" "nat (?out - 1)"] by (auto simp: Let_def)
      then show ?thesis by (auto intro!: exI [of _ s] exI [of _ ?chip] exI [of _ "[]"])
    qed
  next
    case False
    let ?w = "CMD_INCONFIG (of_nat i) (word_of_int (?out - 5))"
    define t where "t = send88 dev k ?w (upd_chip88 k (\<lambda>chip. chip\<lparr>o_direct_mask := out_mask ?out (o_direct_mask chip),
        o_oe_mask := out_mask ?out (o_oe_mask chip)\<rparr>) s)"
    have e: "map_direct dev k (i # is) s = map_direct dev k is t"
      using False mask32_iff [of "o_direct_mask ?chip" "nat (?out - 1)"] by (simp add: Let_def t_def out_mask_def)
    define chip1 where "chip1 = ?chip\<lparr>o_direct_mask := out_mask ?out (o_direct_mask ?chip),
        o_oe_mask := out_mask ?out (o_oe_mask ?chip)\<rparr>"
    have c1: "the_cfg88 chip1 = the_cfg88 ?chip" "same88 ?chip chip1" by (simp_all add: chip1_def the_cfg88_def same88_def)
    have t: "tle8888_chips t = (tle8888_chips s)[k := chip1]" "tle8888_chips t ! k = chip1" "needInitialSpi t = needInitialSpi s"
      using Cons.prems(1) by (simp_all add: t_def chip1_def)
    have b: "bus88 k t = bus88 k s" using Cons.prems(1) by (simp add: bus88_def t c1)
    have "trace t = trace s @ [Spi (bus88 k t) ?w]" using Cons.prems(1) unfolding b
      by (simp add: t_def bus88_def the_cfg88_def)
    note tr = this [unfolded b]
    have ma: "mappable (?out # ?outs) (o_direct_mask ?chip) = mappable ?outs (o_direct_mask chip1)"
      using False m by (simp add: chip1_def)
    have "\<forall>i\<in>set is. io_output (direct_io (the_cfg88 (tle8888_chips t ! k)) ! i) \<le> 32" "k < length (tle8888_chips t)"
      using Cons.prems by (simp_all add: t c1)
    note IH = Cons.IH [OF this(2,1), unfolded t(2) c1(1) b t(3)]
    have w: "in_words (the_cfg88 ?chip) (i # is) = ?w # in_words (the_cfg88 ?chip) is" using False by (simp add: in_words_def)
    show ?thesis
    proof (cases "mappable ?outs (o_direct_mask chip1)")
      case True
      with IH obtain s' where "map_direct dev k is t = (0, s')"
        "trace s' = trace t @ map (Spi (bus88 k s)) (in_words (the_cfg88 ?chip) is)"
        "tle8888_chips s' = (tle8888_chips t)[k := chip1\<lparr>o_direct_mask := fold out_mask ?outs (o_direct_mask chip1),
                                                   o_oe_mask := fold out_mask ?outs (o_oe_mask chip1)\<rparr>]"
        "needInitialSpi s' = needInitialSpi s" by auto
      with True show ?thesis using e w tr by (simp add: ma t(1)) (simp add: chip1_def)
    next
      case False
      with IH obtain s' chip' ws where r: "map_direct dev k is t = (-1, s')" "same88 chip1 chip'"
        "trace s' = trace t @ map (Spi (bus88 k s)) ws" "tle8888_chips s' = (tle8888_chips t)[k := chip']"
        "needInitialSpi s' = needInitialSpi s" by auto
      have tr': "trace s' = trace s @ map (Spi (bus88 k s)) (?w # ws)" using r(3) tr by simp
      have ch: "tle8888_chips s' = (tle8888_chips s)[k := chip']" using r(4) t(1) by simp
      have n: "mappable (?out # ?outs) (o_direct_mask ?chip) = False" using False ma by simp
      have "map_direct dev k (i # is) s = (-1, s')" using e r(1) by (simp only:)
      then have "\<exists>s' chip'. map_direct dev k (i # is) s = (-1, s') \<and> same88 ?chip chip' \<and>
          (\<exists>ws. trace s' = trace s @ map (Spi (bus88 k s)) ws) \<and>
          tle8888_chips s' = (tle8888_chips s)[k := chip'] \<and> needInitialSpi s' = needInitialSpi s"
        using tr' ch same88_trans [OF c1(2) r(2)] r(5) by blast
      then show ?thesis by (simp only: list.map n if_False)
    qed
  qed
qed

definition direct_mask88 :: "tle8888_config \<Rightarrow> u32" where
  "direct_mask88 c = fold out_mask (outs88 c) 0x0f00000f"

definition valid88 :: "tle8888_config \<Rightarrow> bool" where
  "valid88 c \<longleftrightarrow> mappable (outs88 c) 0x0f00000f"

text \<open>
  The chip is set up as its configuration asks: the driver's masks are the configured ones, and since the last software reset the chip was
  last told the driver modes, the output enables and the input of every mapped output, the output configuration, that its outputs are
  enabled, and the mode of the sensor input.
\<close>

definition configured88 :: "nat \<Rightarrow> 'z tle8888_state_scheme \<Rightarrow> bool" where
  "configured88 k s \<longleftrightarrow>
     (let chip = tle8888_chips s ! k; c = the_cfg88 chip; b = bus88 k s in
        o_direct_mask chip = direct_mask88 c \<and> o_oe_mask chip = direct_mask88 c OR 0x0ffffff0 \<and>
        (\<forall>i < 4. reg88 b (0x57 + of_nat i) (trace s) = Some (byte_of (o_direct_mask chip) i) \<and>
                 reg88 b (0x5b + of_nat i) (trace s) = Some (byte_of (o_oe_mask chip) i) \<and>
                 (io_output (direct_io c ! i) \<noteq> 0 \<longrightarrow>
                    reg88 b (0x53 + of_nat i) (trace s) = Some (word_of_int (io_output (direct_io c ! i) - 5) AND 0xff))) \<and>
        (\<forall>i < 6. reg88 b (0x40 + of_nat i) (trace s) = Some 0) \<and> reg88 b 0x1c (trace s) = Some 2 \<and>
        (mode c > 0 \<longrightarrow> reg88 b 0x4a (trace s) = Some (of_nat (mode c * 4) AND 0xff)))"

text \<open>A step that changes none of that: it sends words that write none of these registers and do not reset the chip.\<close>

definition cfg_regs :: "u16 list" where
  "cfg_regs = [0x53, 0x54, 0x55, 0x56, 0x57, 0x58, 0x59, 0x5a, 0x5b, 0x5c, 0x5d, 0x5e,
     0x40, 0x41, 0x42, 0x43, 0x44, 0x45, 0x1c, 0x4a]"

definition harmless :: "u16 \<Rightarrow> bool" where
  "harmless w \<longleftrightarrow> w \<noteq> CMD_SR \<and> (\<forall>a\<in>set cfg_regs. \<not> writes_reg a w)"

lemma less_4: "(i :: nat) < 4 \<longleftrightarrow> i \<in> {0, 1, 2, 3}"
  by auto

lemma less_6: "(i :: nat) < 6 \<longleftrightarrow> i \<in> {0, 1, 2, 3, 4, 5}"
  by auto

lemma all_less_4: "(\<forall>i < 4. P i) \<longleftrightarrow> P 0 \<and> P 1 \<and> P 2 \<and> P (3 :: nat)"
  by (auto simp: less_4)

lemma upt_4: "[0..<4] = [0, 1, 2, 3]" "[0..<6] = [0, 1, 2, 3, 4, 5]" "[0..<TLE8888_DIRECT_MISC] = [0, 1, 2, 3]"
  by (simp_all add: upt_rec TLE8888_DIRECT_MISC_def)

lemma startup_regs:
  assumes "tr' = tr @ map (Spi c) (in_words (the_cfg88 chip) [0..<TLE8888_DIRECT_MISC] @ startup_words chip)"
  shows "\<forall>i < 4. reg88 c (0x57 + of_nat i) tr' = Some (byte_of (o_direct_mask chip) i) \<and>
     reg88 c (0x5b + of_nat i) tr' = Some (byte_of (o_oe_mask chip) i) \<and>
     (io_output (direct_io (the_cfg88 chip) ! i) \<noteq> 0 \<longrightarrow>
        reg88 c (0x53 + of_nat i) tr' = Some (word_of_int (io_output (direct_io (the_cfg88 chip) ! i) - 5) AND 0xff))"
    "\<forall>i < 6. reg88 c (0x40 + of_nat i) tr' = Some 0" "reg88 c 0x1c tr' = Some 2"
    "mode (the_cfg88 chip) > 0 \<longrightarrow> reg88 c 0x4a tr' = Some (of_nat (mode (the_cfg88 chip) * 4) AND 0xff)"
proof -
  let ?cf = "the_cfg88 chip"
  have ws: "rev (in_words ?cf [0..<TLE8888_DIRECT_MISC] @ startup_words chip) =
      (if mode ?cf > 0 then [CMD_VRSCONFIG1 (of_nat (mode ?cf * 4))] else []) @
      [CMD_OE_SET, CMD_OUTCONFIG 5 0, CMD_OUTCONFIG 4 0, CMD_OUTCONFIG 3 0, CMD_OUTCONFIG 2 0, CMD_OUTCONFIG 1 0, CMD_OUTCONFIG 0 0,
       CMD_DDCONFIG 3 (byte_of (o_direct_mask chip) 3), CMD_OECONFIG 3 (byte_of (o_oe_mask chip) 3),
       CMD_DDCONFIG 2 (byte_of (o_direct_mask chip) 2), CMD_OECONFIG 2 (byte_of (o_oe_mask chip) 2),
       CMD_DDCONFIG 1 (byte_of (o_direct_mask chip) 1), CMD_OECONFIG 1 (byte_of (o_oe_mask chip) 1),
       CMD_DDCONFIG 0 (byte_of (o_direct_mask chip) 0), CMD_OECONFIG 0 (byte_of (o_oe_mask chip) 0)] @
      rev (in_words ?cf [0..<TLE8888_DIRECT_MISC])"
    by (simp add: startup_words_def upt_4)
  have ins: "find (writes_reg (0x53 + of_nat i)) (rev (in_words ?cf [0..<TLE8888_DIRECT_MISC])) =
      Some (CMD_INCONFIG (of_nat i) (word_of_int (io_output (direct_io ?cf ! i) - 5)))"
    if "i < 4" "io_output (direct_io ?cf ! i) \<noteq> 0" for i
  proof -
    have f: "find (writes_reg (0x53 + of_nat i)) (rev (in_words ?cf [0, 1, 2, 3])) =
      find (writes_reg (0x53 + of_nat i)) (rev (in_words ?cf [3]) @ rev (in_words ?cf [2]) @ rev (in_words ?cf [1]) @ rev (in_words ?cf [0]))"
      by (simp add: in_words_def)
    have one: "find (writes_reg (0x53 + of_nat i)) (rev (in_words ?cf [j])) =
        (if j = i then Some (CMD_INCONFIG (of_nat i) (word_of_int (io_output (direct_io ?cf ! i) - 5))) else None)"
      if "j < 4" for j
      using that \<open>i < 4\<close> \<open>io_output (direct_io ?cf ! i) \<noteq> 0\<close>
      by (elim less_4 [THEN iffD1, elim_format] insertE) (simp_all add: in_words_def cmd88_defs)
    show ?thesis unfolding upt_4(3) f find_app using that(1) by (simp add: one less_4) auto
  qed
  have fs: "find (writes_reg (0x57 + of_nat i)) (rev (in_words ?cf [0..<TLE8888_DIRECT_MISC] @ startup_words chip)) =
      Some (CMD_DDCONFIG (of_nat i) (byte_of (o_direct_mask chip) i))"
    "find (writes_reg (0x5b + of_nat i)) (rev (in_words ?cf [0..<TLE8888_DIRECT_MISC] @ startup_words chip)) =
      Some (CMD_OECONFIG (of_nat i) (byte_of (o_oe_mask chip) i))"
    "find (writes_reg (0x53 + of_nat i)) (rev (in_words ?cf [0..<TLE8888_DIRECT_MISC] @ startup_words chip)) =
      find (writes_reg (0x53 + of_nat i)) (rev (in_words ?cf [0..<TLE8888_DIRECT_MISC]))" if "i < 4" for i
    using that unfolding ws by (auto simp: less_4 cmd88_defs)
  have sr: "CMD_SR \<notin> set (in_words ?cf [0..<TLE8888_DIRECT_MISC] @ startup_words chip)"
  proof -
    have "\<forall>w\<in>set (rev (in_words ?cf [0..<TLE8888_DIRECT_MISC] @ startup_words chip)). \<not> writes_reg 0x1a w"
      unfolding ws by (auto simp: upt_4 in_words_def cmd88_defs)
    then show ?thesis using not_SR by auto
  qed
  have out: "find (writes_reg (0x40 + of_nat i)) (rev (in_words ?cf [0..<TLE8888_DIRECT_MISC] @ startup_words chip)) =
      Some (CMD_OUTCONFIG (of_nat i) 0)" if "i < 6" for i
    using that unfolding ws by (auto simp: less_6 cmd88_defs)
  have oe: "find (writes_reg 0x1c) (rev (in_words ?cf [0..<TLE8888_DIRECT_MISC] @ startup_words chip)) = Some CMD_OE_SET"
    unfolding ws by (auto simp: cmd88_defs)
  have vrs: "find (writes_reg 0x4a) (rev (in_words ?cf [0..<TLE8888_DIRECT_MISC] @ startup_words chip)) =
      Some (CMD_VRSCONFIG1 (of_nat (mode ?cf * 4)))" if "mode ?cf > 0"
    using that unfolding ws by (simp add: cmd88_defs)
  show "\<forall>i < 6. reg88 c (0x40 + of_nat i) tr' = Some 0" "reg88 c 0x1c tr' = Some 2"
    "mode ?cf > 0 \<longrightarrow> reg88 c 0x4a tr' = Some (of_nat (mode ?cf * 4) AND 0xff)"
    unfolding assms reg88_find [OF sr] oe using out vrs by (simp_all del: rev_append only: option.case) (simp_all add: cmd88_defs)
  have "reg88 c (0x57 + of_nat i) tr' = Some (byte_of (o_direct_mask chip) i)"
    "reg88 c (0x5b + of_nat i) tr' = Some (byte_of (o_oe_mask chip) i)" if "i < 4" for i
    using that unfolding assms reg88_find [OF sr] fs [OF that] by (simp_all add: cmd88_defs)
  moreover have "reg88 c (0x53 + of_nat i) tr' = Some (word_of_int (io_output (direct_io ?cf ! i) - 5) AND 0xff)"
    if "i < 4" "io_output (direct_io ?cf ! i) \<noteq> 0" for i
    using that unfolding assms reg88_find [OF sr] fs(3) [OF that(1)] ins [OF that] by (simp add: cmd88_defs)
  ultimately show "\<forall>i < 4. reg88 c (0x57 + of_nat i) tr' = Some (byte_of (o_direct_mask chip) i) \<and>
     reg88 c (0x5b + of_nat i) tr' = Some (byte_of (o_oe_mask chip) i) \<and>
     (io_output (direct_io ?cf ! i) \<noteq> 0 \<longrightarrow>
        reg88 c (0x53 + of_nat i) tr' = Some (word_of_int (io_output (direct_io ?cf ! i) - 5) AND 0xff))" by blast
qed

lemma startup_effect:
  assumes k: "k < length (tle8888_chips s)" and le: "\<forall>out\<in>set (outs88 (the_cfg88 (tle8888_chips s ! k))). out \<le> 32"
    and u: "startupConfiguration dev k s = (ret, s')"
  shows "ret = (if valid88 (the_cfg88 (tle8888_chips s ! k)) then 0 else -1)"
    "length (tle8888_chips s') = length (tle8888_chips s)" "same88 (tle8888_chips s ! k) (tle8888_chips s' ! k)"
    "needInitialSpi s' = needInitialSpi s"
    "valid88 (the_cfg88 (tle8888_chips s ! k)) \<Longrightarrow> configured88 k s'"
proof -
  let ?chip = "tle8888_chips s ! k" and ?b = "bus88 k s"
  let ?c = "the_cfg88 ?chip"
  define chip1 where "chip1 = ?chip\<lparr>o_direct_mask := 0x0f00000f, o_oe_mask := 0x0f00000f\<rparr>"
  define rx where "rx = dev (trace s @ [Spi ?b CMD_UNLOCK])"
  define s0 where "s0 = (if rx = 53
      then (send88 dev k CMD_UNLOCK s)\<lparr>tle8888initResponsesAccumulator := tle8888initResponsesAccumulator (send88 dev k CMD_UNLOCK s) + 8\<rparr>
      else send88 dev k CMD_UNLOCK s)\<lparr>initResponse1 := uint rx\<rparr>"
  define s1 where "s1 = upd_chip88 k (\<lambda>chip. chip\<lparr>o_direct_mask := 0 OR 0x0000000f OR 0x0f000000,
      o_oe_mask := 0 OR 0x0000000f OR 0x0f000000\<rparr>) s0"
  have s0: "tle8888_chips s0 = tle8888_chips s" "needInitialSpi s0 = needInitialSpi s"
    by (simp_all add: s0_def)
  have c1: "the_cfg88 chip1 = ?c" "same88 ?chip chip1" by (simp_all add: chip1_def the_cfg88_def same88_def)
  have s1: "tle8888_chips s1 = (tle8888_chips s)[k := chip1]" "tle8888_chips s1 ! k = chip1" "needInitialSpi s1 = needInitialSpi s"
    using k by (simp_all add: s1_def s0 chip1_def)
  have b1: "bus88 k s1 = ?b" using k by (simp add: bus88_def s1 c1)
  obtain r t where m: "map_direct dev k [0..<TLE8888_DIRECT_MISC] s1 = (r, t)" by fastforce
  have u': "startupConfiguration dev k s = (if r \<noteq> 0 then (r, t)
     else (0, sends88 dev k (startup_words (tle8888_chips (upd_chip88 k (\<lambda>chip. chip\<lparr>o_oe_mask := o_oe_mask chip OR 0x0ffffff0\<rparr>) t) ! k))
       (upd_chip88 k (\<lambda>chip. chip\<lparr>o_oe_mask := o_oe_mask chip OR 0x0ffffff0\<rparr>) t)))"
    using m unfolding startupConfiguration_def rw88 Let_def prod.case s1_def s0_def rx_def by (simp only: prod.case split: if_splits)
  have "\<forall>i\<in>set [0..<TLE8888_DIRECT_MISC]. io_output (direct_io (the_cfg88 (tle8888_chips s1 ! k)) ! i) \<le> 32"
    "k < length (tle8888_chips s1)" using le k by (simp_all add: outs88_def s1 c1)
  note d = map_direct_effect [OF this(2,1), of dev, unfolded s1(2) c1(1) b1, folded outs88_def, unfolded m]
  have v: "mappable (outs88 ?c) (o_direct_mask chip1) = valid88 ?c" by (simp add: valid88_def chip1_def)
  show "ret = (if valid88 ?c then 0 else -1)" using d u u' by (auto simp: v split: if_splits)
  show "length (tle8888_chips s') = length (tle8888_chips s)" using d u u' s1(1) by (auto simp: v split: if_splits)
  show "needInitialSpi s' = needInitialSpi s" using d u u' s1(3) by (auto simp: v split: if_splits)
  have st: "tle8888_chips s' ! k = chip1\<lparr>o_direct_mask := direct_mask88 ?c, o_oe_mask := direct_mask88 ?c OR 0x0ffffff0\<rparr> \<and>
      trace s' = trace s1 @ map (Spi ?b) (in_words ?c [0..<TLE8888_DIRECT_MISC] @
        startup_words (chip1\<lparr>o_direct_mask := direct_mask88 ?c, o_oe_mask := direct_mask88 ?c OR 0x0ffffff0\<rparr>))"
    if "valid88 ?c"
  proof -
    have om: "o_direct_mask chip1 = 0x0f00000f" "o_oe_mask chip1 = 0x0f00000f" by (simp_all add: chip1_def)
    from d [unfolded v, unfolded om, folded direct_mask88_def] that
    have t: "r = 0" "trace t = trace s1 @ map (Spi ?b) (in_words ?c [0..<TLE8888_DIRECT_MISC])"
      "tle8888_chips t = (tle8888_chips s1)[k := chip1\<lparr>o_direct_mask := direct_mask88 ?c, o_oe_mask := direct_mask88 ?c\<rparr>]"
      by auto
    have "map_direct dev k [0..<TLE8888_DIRECT_MISC] s1 = (0, t)" using m t(1) by simp
    note t = t this
    have k': "k < length (tle8888_chips s1)" using k s1(1) by simp
    let ?t = "upd_chip88 k (\<lambda>chip. chip\<lparr>o_oe_mask := o_oe_mask chip OR 0x0ffffff0\<rparr>) t"
    let ?chip2 = "chip1\<lparr>o_direct_mask := direct_mask88 ?c, o_oe_mask := direct_mask88 ?c OR 0x0ffffff0\<rparr>"
    have tt: "tle8888_chips ?t ! k = ?chip2" "trace ?t = trace t" using k' t(3) by simp_all
    have "the_cfg88 ?chip2 = ?c" using c1(1) by (simp add: the_cfg88_def)
    then have bt: "bus88 k ?t = ?b" by (simp only: bus88_def tt)
    have "s' = sends88 dev k (startup_words ?chip2) ?t" using u u' t(1,4) m tt(1) by simp
    then show ?thesis by (simp only: sends88_effect tt bt t(2)) simp
  qed
  have n: "tle8888_chips s' ! k = chip'" if "\<not> valid88 ?c" "map_direct dev k [0..<TLE8888_DIRECT_MISC] s1 = (-1, t')"
     "tle8888_chips t' = (tle8888_chips s1)[k := chip']" for chip' t'
    using that u u' m k s1(1) by simp
  show "same88 ?chip (tle8888_chips s' ! k)"
  proof (cases "valid88 ?c")
    case True
    then show ?thesis using st c1(2) by (simp add: same88_def)
  next
    case False
    with d obtain chip' where "map_direct dev k [0..<TLE8888_DIRECT_MISC] s1 = (-1, t)" "same88 chip1 chip'"
      "tle8888_chips t = (tle8888_chips s1)[k := chip']" using m by (auto simp: v)
    with n [OF False] same88_trans [OF c1(2)] show ?thesis by simp
  qed
  assume val: "valid88 ?c"
  define chip2 where "chip2 = chip1\<lparr>o_direct_mask := direct_mask88 ?c, o_oe_mask := direct_mask88 ?c OR 0x0ffffff0\<rparr>"
  have c2: "the_cfg88 chip2 = ?c" using c1(1) by (simp add: chip2_def the_cfg88_def)
  note st' = st [OF val, folded chip2_def]
  have b': "bus88 k s' = ?b" unfolding bus88_def using conjunct1 [OF st'] c2 by simp
  have m2: "o_direct_mask chip2 = direct_mask88 ?c" "o_oe_mask chip2 = direct_mask88 ?c OR 0x0ffffff0" by (simp_all add: chip2_def)
  note R = startup_regs [of "trace s'" "trace s1" ?b chip2, unfolded c2, OF conjunct2 [OF st']]
  show "configured88 k s'"
    unfolding configured88_def Let_def b' conjunct1 [OF st'] c2 by (intro conjI m2 R)
qed

subsection \<open>What a turn keeps\<close>

text \<open>A step that keeps the number of chips, what chip \<open>k\<close> is, and its set-up.\<close>

definition keeps88 :: "nat \<Rightarrow> 'z tle8888_state_scheme \<Rightarrow> 'z tle8888_state_scheme \<Rightarrow> bool" where
  "keeps88 k s t \<longleftrightarrow> length (tle8888_chips t) = length (tle8888_chips s) \<and>
     same88 (tle8888_chips s ! k) (tle8888_chips t ! k) \<and> (configured88 k s \<longrightarrow> configured88 k t)"

lemma keeps88_refl [simp]: "keeps88 k s s"
  by (simp add: keeps88_def)

lemma keeps88_trans [trans]: "keeps88 k s t \<Longrightarrow> keeps88 k t u \<Longrightarrow> keeps88 k s u"
  using same88_trans by (auto simp: keeps88_def)

lemma keeps88_bus: "keeps88 k s t \<Longrightarrow> bus88 k t = bus88 k s"
  using same88_cfg [of "tle8888_chips s ! k" "tle8888_chips t ! k"] by (simp add: keeps88_def bus88_def)

lemma configured88_cong:
  "trace t = trace s \<Longrightarrow> tle8888_chips t = tle8888_chips s \<Longrightarrow> configured88 k t = configured88 k s"
  by (simp add: configured88_def bus88_def)

lemma keeps88_core: "trace t = trace s \<Longrightarrow> tle8888_chips t = tle8888_chips s \<Longrightarrow> keeps88 k s t"
  using configured88_cong [of t s k] by (simp add: keeps88_def)

lemma cfg_regs_mem: "i < 4 \<Longrightarrow> 0x53 + of_nat i \<in> set cfg_regs \<and> 0x57 + of_nat i \<in> set cfg_regs \<and> 0x5b + of_nat i \<in> set cfg_regs"
  "i < 6 \<Longrightarrow> 0x40 + of_nat i \<in> set cfg_regs" "0x1c \<in> set cfg_regs" "0x4a \<in> set cfg_regs"
  by (auto simp: less_4 less_6 cfg_regs_def)

lemma configured88_trace:
  assumes "trace t = trace s @ [e]" "tle8888_chips t = tle8888_chips s"
    and "(\<exists>n. e = Sleep n) \<or> (\<exists>w. e = Spi (bus88 k s) w \<and> harmless w)"
  shows "configured88 k t = configured88 k s"
proof -
  have "bus88 k t = bus88 k s" by (simp add: bus88_def assms(2))
  moreover have "reg88 (bus88 k s) a (trace t) = reg88 (bus88 k s) a (trace s)" if "a \<in> set cfg_regs" for a
    using assms(3) that by (auto simp: assms(1) harmless_def)
  ultimately show ?thesis using cfg_regs_mem by (simp add: configured88_def assms(2))
qed

lemma keeps88_send: "harmless w \<Longrightarrow> keeps88 k s (send88 dev k w s)"
  using configured88_trace [of "send88 dev k w s" s "Spi (bus88 k s) w" k] by (simp add: keeps88_def)

lemma keeps88_sleep: "keeps88 k s (emit (Sleep n) s)"
  using configured88_trace [of "emit (Sleep n) s" s "Sleep n" k] by (simp add: keeps88_def)

lemma harmless_R [simp]: "harmless (CMD_R a)"
  using not_SR [of "CMD_R a"] by (simp add: harmless_def)

lemma harmless_cmds [simp]:
  "harmless CMD_WWDServiceCmd" "harmless (FWDRespCmd d)" "harmless (FWDRespSyncCmd d)"
  "harmless CMD_OPSTAT1" "harmless CMD_WWDSTAT" "harmless CMD_FWDSTAT0" "harmless CMD_FWDSTAT1" "harmless CMD_TECSTAT"
  "harmless CMD_WdDiag" "i < 4 \<Longrightarrow> harmless (CMD_CONT (of_nat i) d)"
  by (auto simp: cmd88_defs harmless_def cfg_regs_def less_4 intro!: not_SR [unfolded cmd88_defs])

text \<open>Outputs a configuration may ask for at all, so that no shift exceeds the width.\<close>

definition within88 :: "nat \<Rightarrow> 'z tle8888_state_scheme \<Rightarrow> bool" where
  "within88 k s \<longleftrightarrow> k < length (tle8888_chips s) \<and> valid88 (the_cfg88 (tle8888_chips s ! k))"

lemma within88_keeps: "keeps88 k s t \<Longrightarrow> within88 k s \<Longrightarrow> within88 k t"
  using same88_cfg by (fastforce simp: keeps88_def within88_def)

lemma within88_le: "within88 k s \<Longrightarrow> \<forall>out\<in>set (outs88 (the_cfg88 (tle8888_chips s ! k))). out \<le> 32"
  by (auto simp: within88_def valid88_def mappable_def)

lemma keeps88_startup:
  assumes "within88 k s"
  shows "keeps88 k s (snd (startupConfiguration dev k s))"
    "configured88 k (snd (startupConfiguration dev k s))"
    "needInitialSpi (snd (startupConfiguration dev k s)) = needInitialSpi s"
proof -
  have u: "startupConfiguration dev k s = (fst (startupConfiguration dev k s), snd (startupConfiguration dev k s))" by simp
  have v: "k < length (tle8888_chips s)" "valid88 (the_cfg88 (tle8888_chips s ! k))"
    using assms by (simp_all add: within88_def)
  note e = startup_effect [OF v(1) within88_le [OF assms] u]
  show c: "configured88 k (snd (startupConfiguration dev k s))" by (rule e(5) [OF v(2)])
  show "keeps88 k s (snd (startupConfiguration dev k s))" unfolding keeps88_def using e(2,3) c by blast
  show "needInitialSpi (snd (startupConfiguration dev k s)) = needInitialSpi s" by (rule e(4))
qed

lemma handle_keeps: "keeps88 k s (handleFWDStat1 dev k r d s)" "needInitialSpi (handleFWDStat1 dev k r d s) = needInitialSpi s"
proof -
  let ?q = "watchDogResponses ! unat (d AND 0xF) ! (3 - unat (drop_bit 4 d AND 3))"
  define s1 where "s1 = (if unat (drop_bit 4 d AND 3) \<noteq> 0 then send88 dev k (FWDRespCmd ?q) s else send88 dev k (FWDRespSyncCmd ?q) s)"
  define s3 where "s3 = send88 dev k CMD_WdDiag (send88 dev k CMD_WdDiag s1)"
  have e: "handleFWDStat1 dev k r d s = (if r \<noteq> FWDStat1 then s else s3\<lparr>wdDiagResponse := dev (trace (send88 dev k CMD_WdDiag s1) @ [Spi (bus88 k s1) CMD_WdDiag])\<rparr>)"
    by (simp add: handleFWDStat1_def Let_def s1_def s3_def rw88 del: send88_effect)
  have "keeps88 k s s1" unfolding s1_def by (auto intro: keeps88_send)
  also have "keeps88 k s1 s3" unfolding s3_def by (rule keeps88_trans; rule keeps88_send; simp)
  also have "keeps88 k s3 (s3\<lparr>wdDiagResponse := v\<rparr>)" for v by (rule keeps88_core) simp_all
  finally show "keeps88 k s (handleFWDStat1 dev k r d s)" by (simp add: e)
  show "needInitialSpi (handleFWDStat1 dev k r d s) = needInitialSpi s" by (simp add: e s3_def s1_def)
qed

lemma service_keeps:
  "keeps88 k s (service_window dev m now k s)" "needInitialSpi (service_window dev m now k s) = needInitialSpi s"
  "keeps88 k s (service_function dev m now k s)" "needInitialSpi (service_function dev m now k s) = needInitialSpi s"
proof -
  have core: "keeps88 k u (u\<lparr>maybeFirstResponse := v, lastWindowWatchdogTimeNt := w\<rparr>)"
    "keeps88 k u (u\<lparr>maybeFirstResponse := v\<rparr>)" "keeps88 k u (u\<lparr>functionWDrx := v\<rparr>)"
    "keeps88 k u (u\<lparr>lastFunctionWatchdogTimeNt := w\<rparr>)" for u :: "'a tle8888_state_scheme" and v w
    by (rule keeps88_core; simp)+
  show "keeps88 k s (service_window dev m now k s)"
    unfolding service_window_def rw88 Let_def prod.case
    by (auto intro!: keeps88_trans [OF keeps88_send core(1)])
  show "needInitialSpi (service_window dev m now k s) = needInitialSpi s"
    by (simp add: service_window_def rw88 Let_def)
  show "keeps88 k s (service_function dev m now k s)"
  proof (cases "now - lastFunctionWatchdogTimeNt s > Functional_Watchdog_PERIOD_NT m")
    case True
    define s1 where "s1 = (send88 dev k CMD_FWDSTAT1 s)\<lparr>maybeFirstResponse := dev (trace s @ [Spi (bus88 k s) CMD_FWDSTAT1])\<rparr>"
    define rx where "rx = dev (trace s1 @ [Spi (bus88 k s1) CMD_WdDiag])"
    define s2 where "s2 = (send88 dev k CMD_WdDiag s1)\<lparr>functionWDrx := rx\<rparr>"
    define s3 where "s3 = handleFWDStat1 dev k (getRegisterFromResponse rx) (drop_bit 8 rx AND 0xff) s2"
    have "service_function dev m now k s = s3\<lparr>lastFunctionWatchdogTimeNt := now\<rparr>"
      unfolding service_function_def rw88 Let_def prod.case s3_def s2_def rx_def s1_def using True by simp
    moreover have "keeps88 k s (send88 dev k CMD_FWDSTAT1 s)" "keeps88 k (send88 dev k CMD_FWDSTAT1 s) s1"
      "keeps88 k s1 (send88 dev k CMD_WdDiag s1)" "keeps88 k (send88 dev k CMD_WdDiag s1) s2" "keeps88 k s2 s3"
      unfolding s1_def s2_def s3_def by (simp_all add: keeps88_send core handle_keeps)
    ultimately show ?thesis using core(4) [of s3 now] by (metis keeps88_trans)
  qed (simp add: service_function_def)
  show "needInitialSpi (service_function dev m now k s) = needInitialSpi s"
    by (simp add: service_function_def rw88 Let_def handle_keeps)
qed

lemma watchdog_keeps:
  assumes "within88 k s"
  shows "keeps88 k s (watchdogLogic dev clock m k s)" "needInitialSpi (watchdogLogic dev clock m k s) = needInitialSpi s"
proof -
  let ?now = "clock (trace s)"
  define s1 where "s1 = service_function dev m ?now k (service_window dev m ?now k s)"
  define s2 where "s2 = send88 dev k CMD_FWDSTAT0 (send88 dev k CMD_WWDSTAT s1)"
  define s3 where "s3 = send88 dev k CMD_TECSTAT (send88 dev k CMD_TECSTAT s2)"
  have "keeps88 k s s1" unfolding s1_def using keeps88_trans [OF service_keeps(1) service_keeps(3)] .
  also have "keeps88 k s1 s2" unfolding s2_def by (rule keeps88_trans; rule keeps88_send; simp)
  also have "keeps88 k s2 s3" unfolding s3_def by (rule keeps88_trans; rule keeps88_send; simp)
  finally have k3: "keeps88 k s s3" .
  have n3: "needInitialSpi s3 = needInitialSpi s" by (simp add: s3_def s2_def s1_def service_keeps)
  obtain t where t: "trace t = trace s3" "tle8888_chips t = tle8888_chips s3" "needInitialSpi t = needInitialSpi s3"
    "watchdogLogic dev clock m k s = t \<or> watchdogLogic dev clock m k s = snd (startupConfiguration dev k t)"
  proof -
    define rx1 where "rx1 = dev (trace (send88 dev k CMD_WWDSTAT s1) @ [Spi (bus88 k (send88 dev k CMD_WWDSTAT s1)) CMD_FWDSTAT0])"
    define a where "a = s2\<lparr>WindowWatchdogErrorCounterValue := rx1\<rparr>"
    define rx2 where "rx2 = dev (trace a @ [Spi (bus88 k a) CMD_TECSTAT])"
    define b where "b = (send88 dev k CMD_TECSTAT a)\<lparr>FunctionalWatchdogPassCounterValue := rx2\<rparr>"
    define rx3 where "rx3 = dev (trace b @ [Spi (bus88 k b) CMD_TECSTAT])"
    define c where "c = (send88 dev k CMD_TECSTAT b)\<lparr>TotalErrorCounterValue := rx3\<rparr>"
    define d where "d = c\<lparr>wasWatchdogHappy := isWatchdogHappy c\<rparr>"
    define e where "e = d\<lparr>isWatchdogHappy := (getWindowWatchdog d = 0 \<and> getFunctionalWatchdog d = 0)\<rparr>"
    have w: "watchdogLogic dev clock m k s = (if getRegisterFromResponse (WindowWatchdogErrorCounterValue c) = WWDStat \<and>
            getRegisterFromResponse (FunctionalWatchdogPassCounterValue c) = FWDStat0 then
            if \<not> wasWatchdogHappy e \<and> isWatchdogHappy e then snd (startupConfiguration dev k e) else e
         else c)"
      unfolding watchdogLogic_def rw88 Let_def prod.case s1_def [symmetric] s2_def [symmetric] rx1_def [symmetric] a_def [symmetric]
        rx2_def [symmetric] b_def [symmetric] rx3_def [symmetric] c_def [symmetric] d_def [symmetric] e_def [symmetric] ..
    have bb: "bus88 k a = bus88 k s2" "bus88 k b = bus88 k s2" by (simp_all add: b_def a_def bus88_def)
    have cc: "trace c = trace s3" "tle8888_chips c = tle8888_chips s3" "needInitialSpi c = needInitialSpi s3"
      by (simp_all add: c_def bb) (simp_all add: b_def bb a_def bb(1) [unfolded a_def] s3_def)
    have ee: "trace e = trace s3" "tle8888_chips e = tle8888_chips s3" "needInitialSpi e = needInitialSpi s3"
      by (simp_all add: e_def d_def cc)
    show thesis
    proof (cases "watchdogLogic dev clock m k s = c")
      case False
      then show thesis using that [OF ee] w by (auto split: if_splits)
    qed (use that [OF cc] in blast)
  qed
  have kt: "keeps88 k s t" using keeps88_trans [OF k3 keeps88_core [OF t(1,2)]] .
  have wt: "within88 k t" using within88_keeps [OF kt assms] .
  show "keeps88 k s (watchdogLogic dev clock m k s)"
    using t(4) kt keeps88_trans [OF kt keeps88_startup(1) [OF wt, of dev]] by auto
  show "needInitialSpi (watchdogLogic dev clock m k s) = needInitialSpi s"
    using t(3,4) n3 keeps88_startup(3) [OF wt, of dev] by auto
qed

subsection \<open>A turn of the thread\<close>

lemma dump_keeps: "keeps88 0 s (tle8888_dump_regs dev s)" "needInitialSpi (tle8888_dump_regs dev s) = needInitialSpi s"
proof -
  have r: "snd (tle8888_read_reg dev reg s) = send88 dev 0 (CMD_R reg) s" for reg and s :: "'a tle8888_state_scheme"
    by (simp add: tle8888_read_reg_def rw88)
  have "keeps88 0 s (fold (\<lambda>q. send88 dev 0 (CMD_R (of_nat q))) qs s) \<and>
      needInitialSpi (fold (\<lambda>q. send88 dev 0 (CMD_R (of_nat q))) qs s) = needInitialSpi s" for qs :: "nat list" and s :: "'a tle8888_state_scheme"
  proof (induction qs arbitrary: s)
    case (Cons q qs)
    from Cons.IH [of "send88 dev 0 (CMD_R (of_nat q)) s"] keeps88_trans [OF keeps88_send [OF harmless_R]]
    show ?case unfolding fold_Cons o_def send88_effect(3) by blast
  qed simp
  from this [where qs = "[0..<0x7e + 1]" and s = "send88 dev 0 (CMD_R 0) s"] keeps88_trans [OF keeps88_send [OF harmless_R]]
  show "keeps88 0 s (tle8888_dump_regs dev s)" "needInitialSpi (tle8888_dump_regs dev s) = needInitialSpi s"
    unfolding tle8888_dump_regs_def r by (blast, simp only: send88_effect)
qed

lemma exchange_effect:
  fixes dev :: device and clock :: "hw_event list \<Rightarrow> int" and m :: int and verbose :: bool and s :: "'z tle8888_state_scheme"
  assumes "within88 0 s"
  defines "t \<equiv> snd (tle8888SpiStartupExchange dev clock m verbose 0 s)"
  shows "keeps88 0 s t" "configured88 0 t" "needInitialSpi t = needInitialSpi s"
proof -
  define s1 where "s1 = watchdogLogic dev clock m 0 (emit (Sleep 50)
     (s\<lparr>tle8888reinitializationCounter := tle8888reinitializationCounter s + 1, tle8888initResponsesAccumulator := 0\<rparr>))"
  have "keeps88 0 s (s\<lparr>tle8888reinitializationCounter := tle8888reinitializationCounter s + 1, tle8888initResponsesAccumulator := 0\<rparr>)"
    by (rule keeps88_core) simp_all
  also note keeps88_sleep [of 0 _ 50]
  finally have k0: "keeps88 0 s (emit (Sleep 50) (s\<lparr>tle8888reinitializationCounter := tle8888reinitializationCounter s + 1, tle8888initResponsesAccumulator := 0\<rparr>))" .
  note w0 = watchdog_keeps [OF within88_keeps [OF k0 assms(1)], of dev clock m, folded s1_def]
  have k1: "keeps88 0 s s1" using keeps88_trans [OF k0 w0(1)] .
  have n1: "needInitialSpi s1 = needInitialSpi s" using w0(2) by simp
  define rx where "rx = dev (trace s1 @ [Spi (bus88 0 s1) CMD_SR])"
  define a where "a = (if rx = 253 then (send88 dev 0 CMD_SR s1)\<lparr>tle8888initResponsesAccumulator := tle8888initResponsesAccumulator (send88 dev 0 CMD_SR s1) + 4\<rparr>
      else if rx = 2408 then (send88 dev 0 CMD_SR s1)\<lparr>tle8888initResponsesAccumulator := tle8888initResponsesAccumulator (send88 dev 0 CMD_SR s1) + 100\<rparr>
      else send88 dev 0 CMD_SR s1)"
  define b where "b = emit (Sleep 3) (a\<lparr>initResponse0 := uint rx\<rparr>)"
  have ca: "trace a = trace (send88 dev 0 CMD_SR s1)" "tle8888_chips a = tle8888_chips (send88 dev 0 CMD_SR s1)"
    "needInitialSpi a = needInitialSpi s1" by (simp_all add: a_def)
  have "tle8888_chips b = tle8888_chips s1" by (simp add: b_def ca)
  then have kb: "length (tle8888_chips b) = length (tle8888_chips s)" "same88 (tle8888_chips s ! 0) (tle8888_chips b ! 0)"
    using k1 by (simp_all add: keeps88_def)
  have wb: "within88 0 b" using kb assms(1) same88_cfg by (fastforce simp: within88_def)
  have nb: "needInitialSpi b = needInitialSpi s" by (simp add: b_def ca n1)
  define u where "u = snd (startupConfiguration dev 0 b)"
  note st = keeps88_startup [OF wb, of dev, folded u_def]
  have ku: "keeps88 0 s u" using st(1,2) kb same88_trans [OF kb(2)] by (simp add: keeps88_def)
  have "t = (if verbose then tle8888_dump_regs dev u else u)"
    unfolding t_def tle8888SpiStartupExchange_def Let_def rw88 prod.case s1_def [symmetric] rx_def [symmetric]
      a_def [symmetric] b_def [symmetric] by (simp add: u_def split: prod.splits)
  then show "keeps88 0 s t" "configured88 0 t" "needInitialSpi t = needInitialSpi s"
    using ku keeps88_trans [OF ku dump_keeps(1)] st(2,3) nb dump_keeps [where s = u and dev = dev]
    by (auto simp: keeps88_def)
qed

lemma update_output_eq: "tle8888_update_output dev k s = (0, upd_chip88 k (\<lambda>chip. chip\<lparr>o_state_cached :=
    o_state (tle8888_chips s ! k) AND NOT (o_direct_mask (tle8888_chips s ! k))\<rparr>)
    (sends88 dev k (map (\<lambda>i. CMD_CONT (of_nat i)
       (byte_of (o_state (tle8888_chips s ! k) AND NOT (o_direct_mask (tle8888_chips s ! k))) i)) [0..<4]) s))"
  by (simp add: tle8888_update_output_def Let_def upt_4 rw88 sends88_def)

text \<open>The output registers hold what the chip should switch.\<close>

definition outputs_sent :: "nat \<Rightarrow> 'z tle8888_state_scheme \<Rightarrow> bool" where
  "outputs_sent k s \<longleftrightarrow> (let chip = tle8888_chips s ! k in
     \<forall>i < 4. reg88 (bus88 k s) (0x7b + of_nat i) (trace s) = Some (byte_of (o_state chip AND NOT (o_direct_mask chip)) i))"

lemma thread_chip_effect:
  fixes dev :: device and s :: "'z tle8888_state_scheme"
  assumes k: "k < length (tle8888_chips s)" and c: "cfg (tle8888_chips s ! k) \<noteq> None"
    and d: "drv_state (tle8888_chips s ! k) = TLE8888_WAIT_INIT \<or> drv_state (tle8888_chips s ! k) = TLE8888_READY"
  defines "t \<equiv> tle8888_thread_chip dev k s"
  shows "keeps88 k s t" "outputs_sent k t"
    "needInitialSpi t \<longleftrightarrow> needInitialSpi s \<or> OpStat1 (tle8888_chips t ! k) AND push_bit 6 1 = 0"
    "OpStat1 (tle8888_chips t ! k) = dev (trace t)"
proof -
  let ?chip = "tle8888_chips s ! k" and ?b = "bus88 k s"
  define out where "out = o_state ?chip AND NOT (o_direct_mask ?chip)"
  define ws where "ws = map (\<lambda>i. CMD_CONT (of_nat i) (byte_of out i)) [0..<4] @ [CMD_OPSTAT1, CMD_OPSTAT1]"
  define tr where "tr = trace s @ map (Spi ?b) ws"
  define chip' where "chip' = ?chip\<lparr>o_state_cached := out, OpStat1 := dev tr\<rparr>"
  define u where "u = snd (tle8888_update_status dev k (snd (tle8888_update_output dev k s)))"
  let ?s1 = "snd (tle8888_update_output dev k s)"
  have s1: "trace ?s1 = trace s @ map (Spi ?b) (map (\<lambda>i. CMD_CONT (of_nat i) (byte_of out i)) [0..<4])"
    "tle8888_chips ?s1 = (tle8888_chips s)[k := ?chip\<lparr>o_state_cached := out\<rparr>]" "needInitialSpi ?s1 = needInitialSpi s"
    by (simp_all add: update_output_eq out_def)
  have b1: "bus88 k ?s1 = ?b" using k by (simp add: bus88_def s1 the_cfg88_def)
  have u: "trace u = tr" "tle8888_chips u = (tle8888_chips s)[k := chip']" "needInitialSpi u = needInitialSpi s"
    using k by (simp_all add: u_def tle8888_update_status_def Let_def rw88 b1 s1 tr_def ws_def chip'_def)
  have "t = (if OpStat1 (tle8888_chips u ! k) AND push_bit 6 1 = 0
              then u\<lparr>needInitialSpi := True, selfResetCounter := selfResetCounter u + 1\<rparr> else u)"
    using c d unfolding t_def tle8888_thread_chip_def u_def Let_def by (auto split: prod.splits)
  then have t: "trace t = tr" "tle8888_chips t = (tle8888_chips s)[k := chip']"
    "needInitialSpi t \<longleftrightarrow> needInitialSpi s \<or> OpStat1 (tle8888_chips t ! k) AND push_bit 6 1 = 0"
    using u by auto
  have same: "same88 ?chip chip'" "the_cfg88 chip' = the_cfg88 ?chip" by (simp_all add: chip'_def same88_def the_cfg88_def)
  have bt: "bus88 k t = ?b" using k by (simp add: bus88_def t same)
  have h: "\<forall>w\<in>set ws. harmless w" by (auto simp: ws_def)
  have "reg88 ?b a tr = reg88 ?b a (trace s)" if "a \<in> set cfg_regs" for a
    unfolding tr_def using h that by (intro reg88_skip) (auto simp: harmless_def)
  then have "configured88 k s \<Longrightarrow> configured88 k t" unfolding configured88_def Let_def bt t(1)
    using k cfg_regs_mem same by (simp add: t(2)) (simp add: chip'_def)
  then show "keeps88 k s t" using k same by (simp add: keeps88_def t(2))
  have "find (writes_reg (0x7b + of_nat i)) (rev ws) = Some (CMD_CONT (of_nat i) (byte_of out i))" if "i < 4" for i
    using that unfolding ws_def upt_4 by (auto simp: less_4 cmd88_defs)
  moreover have "CMD_SR \<notin> set ws" using h by (auto simp: harmless_def)
  ultimately have "reg88 ?b (0x7b + of_nat i) tr = Some (byte_of out i)" if "i < 4" for i
    using that by (simp add: tr_def reg88_find) (simp add: cmd88_defs)
  then show "outputs_sent k t" unfolding outputs_sent_def Let_def bt t(1) using k by (simp add: t(2) chip'_def out_def)
  show "needInitialSpi t \<longleftrightarrow> needInitialSpi s \<or> OpStat1 (tle8888_chips t ! k) AND push_bit 6 1 = 0" by (rule t(3))
  show "OpStat1 (tle8888_chips t ! k) = dev (trace t)" using k by (simp add: t(1,2) chip'_def)
qed

subsection \<open>Writing a pin\<close>

lemma wake88_effect [simp]:
  "trace (snd (tle8888_wake_driver s)) = trace s" "tle8888_chips (snd (tle8888_wake_driver s)) = tle8888_chips s"
  "needInitialSpi (snd (tle8888_wake_driver s)) = needInitialSpi s" "fst (tle8888_wake_driver s) = 0"
  by (simp_all add: tle8888_wake_driver_def)

lemma write88_effect:
  fixes s :: "'z tle8888_state_scheme" and v :: int
  assumes k: "k < length (tle8888_chips s)" and pin: "pin < TLE8888_OUTPUTS"
  defines "chip \<equiv> tle8888_chips s ! k" and "r \<equiv> tle8888_writePad (Some k) pin v s"
  shows "tle8888_chips (snd r) = (tle8888_chips s)[k := chip\<lparr>o_state := if v \<noteq> 0 then o_state chip OR push_bit pin 1
       else o_state chip AND NOT (push_bit pin 1)\<rparr>]"
    "needInitialSpi (snd r) = needInitialSpi s"
    "fst r = (if bit (o_direct_mask chip) pin \<and> find_direct (int pin + 1) (take TLE8888_DIRECT_MISC (direct_io (the_cfg88 chip))) = None
       then -1 else 0)"
    "trace (snd r) = (if bit (o_direct_mask chip) pin
       then (case find_direct (int pin + 1) (take TLE8888_DIRECT_MISC (direct_io (the_cfg88 chip))) of
               None \<Rightarrow> trace s
             | Some io \<Rightarrow> trace s @ [if v \<noteq> 0 then PalSet (io_port io) (io_pad io) else PalClear (io_port io) (io_pad io)])
       else trace s)"
proof -
  define s1 where "s1 = upd_chip88 k (\<lambda>chip. if v \<noteq> 0 then chip\<lparr>o_state := o_state chip OR push_bit pin 1\<rparr>
                                   else chip\<lparr>o_state := o_state chip AND NOT (push_bit pin 1)\<rparr>) s"
  have s1: "tle8888_chips s1 = (tle8888_chips s)[k := chip\<lparr>o_state := if v \<noteq> 0 then o_state chip OR push_bit pin 1
       else o_state chip AND NOT (push_bit pin 1)\<rparr>]" "trace s1 = trace s" "needInitialSpi s1 = needInitialSpi s"
    by (simp_all add: s1_def chip_def)
  have c1: "o_direct_mask (tle8888_chips s1 ! k) = o_direct_mask chip" "the_cfg88 (tle8888_chips s1 ! k) = the_cfg88 chip"
    using k by (simp_all add: s1 the_cfg88_def)
  have r: "r = (if bit (o_direct_mask chip) pin then tle8888_update_direct_output k pin v s1 else tle8888_wake_driver s1)"
    using pin by (simp add: r_def tle8888_writePad_def Let_def mask32_iff c1(1) del: push_bit_of_1 flip: s1_def)
  define io where "io = find_direct (int pin + 1) (take TLE8888_DIRECT_MISC (direct_io (the_cfg88 chip)))"
  have "tle8888_update_direct_output k pin v s1 = (case io of
      Some io \<Rightarrow> (0, emit (if v \<noteq> 0 then PalSet (io_port io) (io_pad io) else PalClear (io_port io) (io_pad io)) s1)
    | None \<Rightarrow> (-1, s1))" by (simp only: tle8888_update_direct_output_def c1(2) io_def)
  then have ud: "tle8888_chips (snd (tle8888_update_direct_output k pin v s1)) = tle8888_chips s1"
    "needInitialSpi (snd (tle8888_update_direct_output k pin v s1)) = needInitialSpi s1"
    "fst (tle8888_update_direct_output k pin v s1) = (if io = None then -1 else 0)"
    "trace (snd (tle8888_update_direct_output k pin v s1)) = (case io of None \<Rightarrow> trace s1
       | Some io \<Rightarrow> trace s1 @ [if v \<noteq> 0 then PalSet (io_port io) (io_pad io) else PalClear (io_port io) (io_pad io)])"
    by (simp_all split: option.splits)
  show "tle8888_chips (snd r) = (tle8888_chips s)[k := chip\<lparr>o_state := if v \<noteq> 0 then o_state chip OR push_bit pin 1
       else o_state chip AND NOT (push_bit pin 1)\<rparr>]" "needInitialSpi (snd r) = needInitialSpi s"
    "fst r = (if bit (o_direct_mask chip) pin \<and> find_direct (int pin + 1) (take TLE8888_DIRECT_MISC (direct_io (the_cfg88 chip))) = None
       then -1 else 0)"
    "trace (snd r) = (if bit (o_direct_mask chip) pin
       then (case find_direct (int pin + 1) (take TLE8888_DIRECT_MISC (direct_io (the_cfg88 chip))) of
               None \<Rightarrow> trace s
             | Some io \<Rightarrow> trace s @ [if v \<noteq> 0 then PalSet (io_port io) (io_pad io) else PalClear (io_port io) (io_pad io)])
       else trace s)"
    unfolding r io_def [symmetric] by (simp_all add: ud s1 split: option.split)
qed

lemma write88_configured:
  assumes "k < length (tle8888_chips s)" "pin < TLE8888_OUTPUTS" "j < length (tle8888_chips s)"
  shows "configured88 j (snd (tle8888_writePad (Some k) pin v s)) = configured88 j s"
proof -
  let ?t = "snd (tle8888_writePad (Some k) pin v s)"
  note e = write88_effect [OF assms(1,2), of v]
  have f: "o_direct_mask (tle8888_chips ?t ! j) = o_direct_mask (tle8888_chips s ! j)"
    "o_oe_mask (tle8888_chips ?t ! j) = o_oe_mask (tle8888_chips s ! j)"
    "the_cfg88 (tle8888_chips ?t ! j) = the_cfg88 (tle8888_chips s ! j)"
    using assms by (cases "j = k"; simp add: e(1) the_cfg88_def)+
  have r: "reg88 c a (trace ?t) = reg88 c a (trace s)" for c a
    unfolding e(4) by (simp split: option.splits)
  have "bus88 j ?t = bus88 j s" by (simp only: bus88_def f)
  then show ?thesis by (simp only: configured88_def Let_def f r)
qed

subsection \<open>The driver keeps the registry's contract\<close>

definition tle8888_inv :: "'z tle8888_state_scheme \<Rightarrow> bool" where
  "tle8888_inv s \<longleftrightarrow> needInitialSpi s \<or> (\<forall>k < length (tle8888_chips s). cfg (tle8888_chips s ! k) \<noteq> None \<longrightarrow> configured88 k s)"

definition tle8888_live :: "nat option \<Rightarrow> 'z tle8888_state_scheme \<Rightarrow> bool" where
  "tle8888_live d s \<longleftrightarrow> (\<exists>k < length (tle8888_chips s). d = Some k \<and> cfg (tle8888_chips s ! k) \<noteq> None)"

lemma write88_keeps:
  assumes "pin < TLE8888_OUTPUTS" "tle8888_inv s" "tle8888_live d s"
  shows "tle8888_inv (snd (tle8888_writePad d pin v s)) \<and> tle8888_live d (snd (tle8888_writePad d pin v s))"
proof -
  obtain k where k: "d = Some k" "k < length (tle8888_chips s)" "cfg (tle8888_chips s ! k) \<noteq> None"
    using assms(3) by (auto simp: tle8888_live_def)
  let ?t = "snd (tle8888_writePad (Some k) pin v s)"
  note e = write88_effect [OF k(2) assms(1), of v]
  have l: "length (tle8888_chips ?t) = length (tle8888_chips s)" by (simp add: e(1))
  have c: "cfg (tle8888_chips ?t ! j) = cfg (tle8888_chips s ! j)" for j
    using k(2) by (cases "j = k"; simp add: e(1))
  have "tle8888_inv ?t" using assms(2) write88_configured [OF k(2) assms(1), of _ v]
    unfolding tle8888_inv_def e(2) l c by blast
  moreover have "tle8888_live d ?t" using k unfolding tle8888_live_def l c by blast
  ultimately show ?thesis by (simp add: k(1))
qed

interpretation tle8888: gpiochip_driver "tle8888_ops" TLE8888_OUTPUTS tle8888_inv tle8888_live
proof unfold_locales
  fix f pin and d :: "nat option" and v and s :: "'a tle8888_state_scheme"
  show "op_writePad (tle8888_ops :: 'a tle8888_state_scheme gpiochip_ops) \<noteq> None \<or>
      op_readPad (tle8888_ops :: 'a tle8888_state_scheme gpiochip_ops) \<noteq> None"
    by (simp add: tle8888_ops_def)
  show "0 < TLE8888_OUTPUTS" by (simp add: TLE8888_OUTPUTS_def)
  show "op_writePad tle8888_ops = Some f \<Longrightarrow> TLE8888_OUTPUTS \<le> pin \<or> d = None \<Longrightarrow> f d pin v s = (-1, s)"
    by (auto simp: tle8888_ops_def tle8888_writePad_def split: option.splits)
  show "op_writePad tle8888_ops = Some f \<Longrightarrow> pin < TLE8888_OUTPUTS \<Longrightarrow> tle8888_inv s \<Longrightarrow> tle8888_live d s \<Longrightarrow>
      tle8888_inv (snd (f d pin v s)) \<and> tle8888_live d (snd (f d pin v s))"
    using write88_keeps [of pin s d v] by (auto simp: tle8888_ops_def)
next
  fix g pin and d :: "nat option" and s :: "'a tle8888_state_scheme"
  show "op_getDiag tle8888_ops = Some g \<Longrightarrow> TLE8888_OUTPUTS \<le> pin \<or> d = None \<Longrightarrow> g d pin s = PIN_INVALID"
    by (simp add: tle8888_ops_def)
next
  fix h pin and d :: "nat option" and s :: "'a tle8888_state_scheme"
  show "op_readPad tle8888_ops = Some h \<Longrightarrow> pin < TLE8888_OUTPUTS \<Longrightarrow> tle8888_inv s \<Longrightarrow> tle8888_live d s \<Longrightarrow>
      tle8888_inv (snd (h d pin s)) \<and> tle8888_live d (snd (h d pin s))"
    by (simp add: tle8888_ops_def)
qed

subsection \<open>Reachable states\<close>

text \<open>A board with one running chip whose configuration is valid.\<close>

definition one88 :: "'z tle8888_state_scheme \<Rightarrow> bool" where
  "one88 s \<longleftrightarrow> length (tle8888_chips s) = 1 \<and> within88 0 s \<and> cfg (tle8888_chips s ! 0) \<noteq> None \<and>
     drv_state (tle8888_chips s ! 0) = TLE8888_READY"

text \<open>
  What happens to it: a turn of the thread, with any answers of the chip, any clock and any supply; a
  write to a pin; a request to initialise it again.
\<close>

inductive step88 :: "'z tle8888_state_scheme \<Rightarrow> 'z tle8888_state_scheme \<Rightarrow> bool" where
  turn: "step88 s (tle8888_driver_thread dev clock m verbose low s)"
| wr_pad: "pin < TLE8888_OUTPUTS \<Longrightarrow> step88 s (snd (tle8888_writePad (Some 0) pin v s))"
| request: "step88 s (requestTLE8888initialization s)"

inductive reach88 :: "'z tle8888_state_scheme \<Rightarrow> bool" where
  start: "one88 s \<Longrightarrow> needInitialSpi s \<Longrightarrow> reach88 s"
| step: "reach88 s \<Longrightarrow> step88 s t \<Longrightarrow> reach88 t"

inductive_cases step88E: "step88 s t"

definition safe88 :: "'z tle8888_state_scheme \<Rightarrow> bool" where
  "safe88 s \<longleftrightarrow> one88 s \<and> (needInitialSpi s \<or> configured88 0 s)"

lemma keeps88_one: "keeps88 0 s t \<Longrightarrow> one88 s \<Longrightarrow> one88 t"
  using within88_keeps [of 0 s t] by (simp add: keeps88_def one88_def same88_def)

lemma good_turn:
  fixes s :: "'z tle8888_state_scheme" and dev :: device and clock m verbose
  assumes "safe88 s"
  defines "t \<equiv> tle8888_driver_thread dev clock m verbose False s"
  shows "keeps88 0 s t" "configured88 0 t" "outputs_sent 0 t"
    "needInitialSpi t \<longleftrightarrow> OpStat1 (tle8888_chips t ! 0) AND push_bit 6 1 = 0" "OpStat1 (tle8888_chips t ! 0) = dev (trace t)"
proof -
  have one: "length (tle8888_chips s) = 1" "within88 0 s" "one88 s" using assms(1) by (simp_all add: safe88_def one88_def)
  define s0 where "s0 = s\<lparr>wasWatchdogHappy := False, isWatchdogHappy := False, needInitialSpi := False\<rparr>"
  define s1 where "s1 = (if needInitialSpi s then snd (tle8888SpiStartupExchange dev clock m verbose 0 s0) else s)"
  define s2 where "s2 = watchdogLogic dev clock m 0 s1"
  have k0: "keeps88 0 s s0" by (rule keeps88_core) (simp_all add: s0_def)
  have n0: "\<not> needInitialSpi s0" by (simp add: s0_def)
  note x = exchange_effect [OF within88_keeps [OF k0 one(2)], of dev clock m verbose]
  have k1: "keeps88 0 s s1" using keeps88_trans [OF k0 x(1)] by (simp add: s1_def)
  have c1: "configured88 0 s1" "\<not> needInitialSpi s1" using assms(1) x(2,3) n0 by (auto simp: s1_def safe88_def)
  note w = watchdog_keeps [OF within88_keeps [OF k1 one(2)], of dev clock m, folded s2_def]
  have k2: "keeps88 0 s s2" using keeps88_trans [OF k1 w(1)] .
  have c2: "configured88 0 s2" "\<not> needInitialSpi s2" using w c1 by (auto simp: keeps88_def)
  have o2: "one88 s2" using keeps88_one [OF k2 one(3)] .
  then have "0 < length (tle8888_chips s2)" "cfg (tle8888_chips s2 ! 0) \<noteq> None" "drv_state (tle8888_chips s2 ! 0) = TLE8888_READY"
    by (simp_all add: one88_def)
  note tc = thread_chip_effect [OF this(1,2) disjI2, OF this(3), of dev]
  have "t = tle8888_thread_chip dev 0 s2"
    using one(1) by (simp add: t_def tle8888_driver_thread_def Let_def s2_def s1_def s0_def)
  then show "keeps88 0 s t" "configured88 0 t" "outputs_sent 0 t"
    "needInitialSpi t \<longleftrightarrow> OpStat1 (tle8888_chips t ! 0) AND push_bit 6 1 = 0" "OpStat1 (tle8888_chips t ! 0) = dev (trace t)"
    using tc keeps88_trans [OF k2 tc(1)] c2 by (auto simp: keeps88_def)
qed

lemma step88_safe:
  assumes "step88 s t" "safe88 s"
  shows "safe88 t"
  using assms(1)
proof (rule step88E)
  fix dev clock m verbose low
  assume 1: "t = tle8888_driver_thread dev clock m verbose low s"
  show ?thesis
  proof (cases low)
    case True
    then have "trace t = trace s \<and> tle8888_chips t = tle8888_chips s \<and> needInitialSpi t"
      by (simp add: 1 tle8888_driver_thread_def)
    then show ?thesis using keeps88_one [OF keeps88_core] assms(2) by (auto simp: safe88_def)
  next
    case False
    with good_turn [OF assms(2), of dev clock m verbose] keeps88_one [of s t] assms(2)
    show ?thesis by (simp add: 1 safe88_def)
  qed
next
  fix pin v
  assume 2: "t = snd (tle8888_writePad (Some 0) pin v s)" "pin < TLE8888_OUTPUTS"
  have k: "0 < length (tle8888_chips s)" using assms(2) by (simp add: safe88_def one88_def)
  note e = write88_effect [OF k 2(2), of v] write88_configured [OF k 2(2) k, of v]
  have "one88 t" using k assms(2) by (simp add: safe88_def one88_def within88_def 2(1) e the_cfg88_def)
  then show ?thesis using assms(2) e(2,5) by (simp add: safe88_def 2(1))
next
  assume "t = requestTLE8888initialization s"
  then have "trace t = trace s \<and> tle8888_chips t = tle8888_chips s \<and> needInitialSpi t"
    by (simp add: requestTLE8888initialization_def)
  then show ?thesis using keeps88_one [OF keeps88_core] assms(2) by (auto simp: safe88_def)
qed

lemma reach88_safe: "reach88 s \<Longrightarrow> safe88 s"
proof (induction rule: reach88.induct)
  case (start s)
  then show ?case by (simp add: safe88_def)
next
  case (step s t)
  then show ?case using step88_safe by blast
qed

subsection \<open>Properties\<close>

text \<open>
  C23: what a turn of the driver's thread leaves, and what it never asks for. Whatever a running chip answers and however its supply, its
  pins and requests to initialise it alternate, after a turn that finds the supply good the chip is set up as its configuration asks, and
  its four output registers hold the requested states of the outputs not driven directly. But when the word the turn read last is a reply
  with the address of the register it had asked for (OPSTAT1, 0x35), the turn never makes the next one start the chip up, whatever the reply
  says of the outputs being enabled: bit 6, which the code tests, is a bit of that address and always set. A turn that finds the supply low
  sends nothing and makes the next good one start the chip up.
\<close>

theorem tle8888_reachable_turn:
  assumes "reach88 s"
  shows "(let t = tle8888_driver_thread dev clock m verbose False s in
      configured88 0 t \<and> outputs_sent 0 t \<and> o_state (tle8888_chips t ! 0) = o_state (tle8888_chips s ! 0) \<and>
      (getRegisterFromResponse (dev (trace t)) = 0x35 \<longrightarrow> \<not> needInitialSpi t)) \<and>
    (let t = tle8888_driver_thread dev clock m verbose True s in trace t = trace s \<and> needInitialSpi t)"
proof -
  note g = good_turn [OF reach88_safe [OF assms], of dev clock m verbose]
  have "needInitialSpi (tle8888_driver_thread dev clock m verbose False s) \<longleftrightarrow>
      \<not> bit (dev (trace (tle8888_driver_thread dev clock m verbose False s))) 6"
    using g(4) unfolding g(5) by (metis and_bit_iff)
  moreover have "bit x 6" if "getRegisterFromResponse x = 0x35" for x
  proof -
    have "bit (getRegisterFromResponse x) 5" by (simp add: that)
    then show ?thesis by (simp add: getRegisterFromResponse_def bit_simps)
  qed
  moreover have "let t = tle8888_driver_thread dev clock m verbose True s in trace t = trace s \<and> needInitialSpi t"
    by (simp add: tle8888_driver_thread_def)
  ultimately show ?thesis using g(1-3) unfolding Let_def keeps88_def same88_def by blast
qed

text \<open>
  C35: \<open>startupConfiguration\<close> accepts a configuration, and then sets up the chip, exactly when no output it maps is mapped twice and
  all of them (numbered from 1) are among 5 to 24 and 29 to 32; it refuses any other with -1. The dedicated outputs 1 to 4 and 25 to 28
  are refused, as intended, but 29 to 32 are accepted although the chip has only 28 outputs: nothing compares an output with
  \<open>TLE8888_OUTPUTS\<close>. An output above 32 would be shifted by more than the width of the mask, which C leaves undefined; the theorem
  says nothing about such a configuration.
\<close>

theorem startupConfiguration_checks:
  assumes "k < length (tle8888_chips s)" "\<forall>out\<in>set (outs88 (the_cfg88 (tle8888_chips s ! k))). out \<le> 32"
  shows "(let (ret, t) = startupConfiguration dev k s; outs = filter (\<lambda>out. out \<noteq> 0) (outs88 (the_cfg88 (tle8888_chips s ! k)))
    in if distinct outs \<and> set outs \<subseteq> {5..24} \<union> {29..32} then ret = 0 \<and> configured88 k t else ret = -1)"
proof -
  let ?c = "the_cfg88 (tle8888_chips s ! k)"
  obtain ret t where u: "startupConfiguration dev k s = (ret, t)" by fastforce
  have b: "bit (0x0f00000f :: u32) n \<longleftrightarrow> n < 4 \<or> 24 \<le> n \<and> n < 28" if "n < 32" for n
  proof -
    have "\<forall>n\<in>set [0..<32]. bit (0x0f00000f :: u32) n \<longleftrightarrow> n < 4 \<or> 24 \<le> n \<and> n < 28" by (simp add: upt_rec)
    with that show ?thesis by simp
  qed
  have "5 \<le> out \<and> out \<le> 32 \<and> \<not> bit (0x0f00000f :: u32) (nat (out - 1)) \<longleftrightarrow> out \<in> {5..24} \<union> {29..32}"
    if "out \<in> set (outs88 ?c)" for out
  proof (cases "5 \<le> out")
    case True
    then have "nat (out - 1) < 32" using assms(2) that by fastforce
    with b [OF this] True assms(2) that show ?thesis by auto
  qed simp
  then have "valid88 ?c \<longleftrightarrow> distinct (filter (\<lambda>out. out \<noteq> 0) (outs88 ?c)) \<and>
      set (filter (\<lambda>out. out \<noteq> 0) (outs88 ?c)) \<subseteq> {5..24} \<union> {29..32}"
    unfolding valid88_def mappable_def by auto
  with startup_effect [OF assms(1,2) u] show ?thesis by (simp add: u Let_def)
qed

text \<open>The base answer to a question, and the four answers made of it.\<close>

definition answer88 :: "nat \<Rightarrow> nat \<Rightarrow> u16" where
  "answer88 q c = (let r = watchDogResponses ! q ! 3 in
     if c = 0 then r else if c = 1 then r XOR 0xF0 else if c = 2 then (r XOR 0xFF) XOR 0xF0 else r XOR 0xFF)"

lemma watchDogResponses_answers:
  assumes "q < 16" "c < 4"
  shows "watchDogResponses ! q ! (3 - c) = answer88 q c"
proof -
  have "\<forall>q\<in>set [0..<16]. \<forall>c\<in>set [0..<4]. watchDogResponses ! q ! (3 - c) = answer88 q c"
    by (simp add: upt_rec watchDogResponses_def answer88_def)
  with assms show ?thesis by simp
qed

lemma handle_trace:
  assumes "r = FWDStat1" "unat (d AND 0xF) = q" "unat (drop_bit 4 d AND 3) = c" "q < 16" "c < 4"
  shows "trace (handleFWDStat1 dev k r d s) = trace s @ map (Spi (bus88 k s))
      [if c = 0 then FWDRespSyncCmd (answer88 q 0) else FWDRespCmd (answer88 q c), CMD_WdDiag, CMD_WdDiag]"
  using watchDogResponses_answers [OF assms(4,5)] assms(1-3) by (auto simp: handleFWDStat1_def Let_def rw88)

text \<open>
  C36: when the functional watchdog is due and the chip reports question \<open>q\<close> and response counter
  \<open>c\<close>, the driver sends it the answer to \<open>q\<close> that is expected at \<open>c\<close> (the base answer, its high
  nibble inverted, its low nibble inverted, all inverted), for counter 0 with the command that
  restarts the heartbeat; when it is not due, or another register is reported, it sends no answer.
\<close>

theorem tle8888_answers_watchdog:
  assumes "nowNt - lastFunctionWatchdogTimeNt s > Functional_Watchdog_PERIOD_NT m"
  shows "let b = bus88 k s; tr = trace s @ map (Spi b) [CMD_FWDSTAT1, CMD_WdDiag]; rx = dev tr;
      q = unat (drop_bit 8 rx AND 0xF); c = unat (drop_bit 12 rx AND 3); t = service_function dev m nowNt k s
    in lastFunctionWatchdogTimeNt t = nowNt \<and>
      (getRegisterFromResponse rx = FWDStat1 \<longrightarrow> trace t = tr @ map (Spi b)
         [if c = 0 then FWDRespSyncCmd (answer88 q 0) else FWDRespCmd (answer88 q c), CMD_WdDiag, CMD_WdDiag]) \<and>
      (getRegisterFromResponse rx \<noteq> FWDStat1 \<longrightarrow> trace t = tr) \<and>
      (\<forall>n. n - lastFunctionWatchdogTimeNt t \<le> Functional_Watchdog_PERIOD_NT m \<longrightarrow> service_function dev m n k t = t)"
proof -
  define b where "b = bus88 k s"
  define s1 where "s1 = (send88 dev k CMD_FWDSTAT1 s)\<lparr>maybeFirstResponse := dev (trace s @ [Spi b CMD_FWDSTAT1])\<rparr>"
  have b1: "bus88 k s1 = b" by (simp add: s1_def b_def bus88_def)
  define rx where "rx = dev (trace s1 @ [Spi (bus88 k s1) CMD_WdDiag])"
  define s2 where "s2 = (send88 dev k CMD_WdDiag s1)\<lparr>functionWDrx := rx\<rparr>"
  have rx: "rx = dev (trace s @ map (Spi b) [CMD_FWDSTAT1, CMD_WdDiag])" by (simp add: rx_def b1) (simp add: s1_def b_def)
  have s2: "trace s2 = trace s @ map (Spi b) [CMD_FWDSTAT1, CMD_WdDiag]" "bus88 k s2 = b"
    using b1 by (simp_all add: s2_def bus88_def) (simp add: s1_def b_def bus88_def)
  have t: "service_function dev m nowNt k s =
      (handleFWDStat1 dev k (getRegisterFromResponse rx) (drop_bit 8 rx AND 0xff) s2)\<lparr>lastFunctionWatchdogTimeNt := nowNt\<rparr>"
    unfolding service_function_def rw88 Let_def prod.case s2_def rx_def s1_def b_def using assms by simp
  have q: "(drop_bit 8 rx AND 0xff) AND 0xF = drop_bit 8 rx AND 0xF" "drop_bit 4 (drop_bit 8 rx AND 0xff) AND 3 = drop_bit 12 rx AND 3"
  proof -
    have m: "x AND 0xF = take_bit 4 x" "x AND 3 = take_bit 2 x" for x :: u16
      by (simp_all add: take_bit_eq_mask mask_eq_exp_minus_1)
    show "(drop_bit 8 rx AND 0xff) AND 0xF = drop_bit 8 rx AND 0xF"
      unfolding m low_bits by (rule bit_eqI) (auto simp: bit_take_bit_iff)
    show "drop_bit 4 (drop_bit 8 rx AND 0xff) AND 3 = drop_bit 12 rx AND 3"
      unfolding m low_bits by (rule bit_eqI) (auto simp: bit_take_bit_iff bit_drop_bit_eq add.commute)
  qed
  have lt: "unat (x AND 0xF) < 16" "unat (x AND 3) < 4" for x :: u16
    by (rule order_le_less_trans [OF word_le_nat_alt [THEN iffD1, OF word_and_le1]], simp)+
  have r: "trace (handleFWDStat1 dev k (getRegisterFromResponse rx) (drop_bit 8 rx AND 0xff) s2) =
      trace s2 @ map (Spi b) [if unat (drop_bit 12 rx AND 3) = 0 then FWDRespSyncCmd (answer88 (unat (drop_bit 8 rx AND 0xF)) 0)
         else FWDRespCmd (answer88 (unat (drop_bit 8 rx AND 0xF)) (unat (drop_bit 12 rx AND 3))), CMD_WdDiag, CMD_WdDiag]"
    if "getRegisterFromResponse rx = FWDStat1"
    using handle_trace [OF that, of "drop_bit 8 rx AND 0xff" _ _ dev k s2, unfolded q s2(2), OF refl refl lt(1) lt(2)] .
  have n: "trace (handleFWDStat1 dev k (getRegisterFromResponse rx) (drop_bit 8 rx AND 0xff) s2) = trace s2"
    if "getRegisterFromResponse rx \<noteq> FWDStat1" using that by (simp add: handleFWDStat1_def)
  have l: "lastFunctionWatchdogTimeNt (service_function dev m nowNt k s) = nowNt" by (simp add: t)
  have tt: "trace (service_function dev m nowNt k s) = trace (handleFWDStat1 dev k (getRegisterFromResponse rx) (drop_bit 8 rx AND 0xff) s2)"
    by (simp add: t)
  have idle: "\<forall>n. n - nowNt \<le> Functional_Watchdog_PERIOD_NT m \<longrightarrow>
      service_function dev m n k (service_function dev m nowNt k s) = service_function dev m nowNt k s"
    by (simp add: service_function_def [of dev m _ k "service_function dev m nowNt k s"] l)
  show ?thesis unfolding Let_def b_def [symmetric] rx [symmetric] l tt using r n idle unfolding s2(1) by blast
qed

lemma direct_mask88_dedicated: "n \<in> {0..<4} \<union> {24..<28} \<Longrightarrow> bit (direct_mask88 c) n"
proof -
  assume n: "n \<in> {0..<4} \<union> {24..<28}"
  have keep: "bit m n \<Longrightarrow> bit (fold out_mask outs m) n" for outs m
    by (induction outs arbitrary: m) (simp_all add: out_mask_def bit_or_iff)
  from n have "n \<in> {0, 1, 2, 3, 24, 25, 26, 27}" by auto
  then have "bit (0x0f00000f :: u32) n" by (elim insertE) simp_all
  with keep show ?thesis by (simp add: direct_mask88_def)
qed

lemma find_direct_None: "\<forall>io\<in>set ios. io_output io \<noteq> out \<Longrightarrow> find_direct out ios = None"
  by (induction ios) auto

text \<open>
  Once the chip is set up, a write to one of the eight outputs with dedicated inputs (1 to 4 and
  25 to 28) is answered with -1 and drives no pad; only the requested state is recorded.
\<close>

theorem tle8888_dedicated_outputs_fail:
  assumes "k < length (tle8888_chips s)" "configured88 k s" "valid88 (the_cfg88 (tle8888_chips s ! k))"
    and "length (direct_io (the_cfg88 (tle8888_chips s ! k))) = TLE8888_DIRECT_MISC" and "pin \<in> {0..<4} \<union> {24..<28}"
  shows "fst (tle8888_writePad (Some k) pin v s) = -1 \<and> trace (snd (tle8888_writePad (Some k) pin v s)) = trace s \<and>
    bit (o_state (tle8888_chips (snd (tle8888_writePad (Some k) pin v s)) ! k)) pin = (v \<noteq> 0)"
proof -
  let ?chip = "tle8888_chips s ! k" and ?c = "the_cfg88 (tle8888_chips s ! k)"
  have pin: "pin < TLE8888_OUTPUTS" using assms(5) by (auto simp: TLE8888_OUTPUTS_def)
  have b: "bit (o_direct_mask ?chip) pin" using assms(2,5) direct_mask88_dedicated by (simp add: configured88_def Let_def)
  have "io_output io \<noteq> int pin + 1" if io: "io \<in> set (direct_io ?c)" for io
  proof
    assume o: "io_output io = int pin + 1"
    obtain i where "i < TLE8888_DIRECT_MISC" "io = direct_io ?c ! i" using io assms(4) by (metis in_set_conv_nth)
    then have "io_output io \<in> set (outs88 ?c)" by (simp add: outs88_def)
    with assms(3) o have "5 \<le> int pin + 1" "\<not> bit (0x0f00000f :: u32) (nat (int pin + 1 - 1))"
      by (fastforce simp: valid88_def mappable_def)+
    then have "24 \<le> pin" "\<not> bit (0x0f00000f :: u32) pin" using assms(5) by auto
    moreover have "pin \<in> {24, 25, 26, 27}" using assms(5) \<open>24 \<le> pin\<close> by auto
    ultimately show False by auto
  qed
  then have "find_direct (int pin + 1) (take TLE8888_DIRECT_MISC (direct_io ?c)) = None"
    by (intro find_direct_None) (auto dest: in_set_takeD)
  with write88_effect [OF assms(1) pin, of v] b assms(1) pin show ?thesis
    by (simp add: bit_or_iff bit_and_iff bit_not_iff_eq bit_exp_iff TLE8888_OUTPUTS_def)
qed

text \<open>
  Initialisation releases the chip's pins whether or not it could claim them: after it
  succeeded too, none of them is marked as used.
\<close>

theorem tle8888_init_releases_pins:
  assumes "repo_initialized s" and "k < length (tle8888_chips s)"
    and "drv_state (tle8888_chips s ! k) = TLE8888_WAIT_INIT"
    and "pads_valid (map fst (tle8888_pads (the_cfg88 (tle8888_chips s ! k))))"
    and "q \<in> set (map fst (tle8888_pads (the_cfg88 (tle8888_chips s ! k))))" "fst q \<noteq> 0"
  shows "pad_owner (snd (tle8888_init (Some k) s)) q = None"
proof -
  define pads where "pads = tle8888_pads (the_cfg88 (tle8888_chips s ! k))"
  have q1: "q \<in> set (real_pads (map fst pads))" using assms(5,6) by (simp add: pads_def real_pads_def)
  have q2: "\<forall>p\<in>set (real_pads (map fst pads)). gpio_valid p" using assms(4) by (simp only: pads_def pads_valid_def)
  note q = q1 bspec [OF q2 q1] q2
  have "repo_initialized (snd (mark_pads pads s))" using assms(1) by simp
  note rel = spec [OF conjunct2 [OF gpio_pins.release_owner [OF this q(3)]], of q]
  have f: "pad_owner (unmark_pads (map fst pads) (snd (mark_pads pads s))) q = None"
    using rel q(1,2) by (simp only: pad_owner_def unmark_pads_release simp_thms if_True)
  have "PIN_USED (snd (tle8888_init (Some k) s)) = PIN_USED (unmark_pads (map fst pads) (snd (mark_pads pads s)))"
    using assms(3) by (simp add: tle8888_init_def tle8888_chip_init_def Let_def pads_def upd_chip88_def split: prod.splits)
  with f show ?thesis by (simp add: pad_owner_def)
qed

subsection \<open>Witnesses\<close>

definition demo_io :: "int \<Rightarrow> tle8888_io" where
  "demo_io out = \<lparr>io_port = 1, io_pad = 5, io_output = out\<rparr>"

definition demo_cfg88 :: tle8888_config where
  "demo_cfg88 = \<lparr>spi_bus = Some 1, spi_config = 7, ssport = 1, reset = (0, 0),
     direct_io = [demo_io 9, demo_io 0, demo_io 10, demo_io 0], mode = 2\<rparr>"

definition demo_chip88 :: tle8888_priv where
  "demo_chip88 = \<lparr>cfg = Some demo_cfg88, o_state_cached = 0, o_state = 0x20, o_direct_mask = 0, o_oe_mask = 0,
     drv_state = TLE8888_READY, OpStat1 = 0\<rparr>"

definition demo_state88 :: "tle8888_priv \<Rightarrow> tle8888_state" where
  "demo_state88 chip = \<lparr>trace = [], PIN_USED = (\<lambda>_. None), totalPinsUsed = 0, repo_initialized = True, boardErr = None,
     tle8888_chips = [chip], tle8888_wake = 0, tle8888_task_ready = False,
     lastWindowWatchdogTimeNt = 0, lastFunctionWatchdogTimeNt = 0, WindowWatchdogErrorCounterValue = 0,
     FunctionalWatchdogPassCounterValue = 0, TotalErrorCounterValue = 0, maybeFirstResponse = 0, functionWDrx = 0,
     wdDiagResponse = 0, needInitialSpi = True, isWatchdogHappy = False, wasWatchdogHappy = False,
     selfResetCounter = 0, lowVoltageResetCounter = 0, requestedResetCounter = 0, tle8888reinitializationCounter = 0,
     tle8888SpiCounter = 0, tle8888initResponsesAccumulator = 0, initResponse0 = 0, initResponse1 = 0,
     spiRxb = 0, spiTxb = 0\<rparr>"

lemma demo88 [simp]:
  "tle8888_chips (demo_state88 chip) = [chip]" "trace (demo_state88 chip) = []" "needInitialSpi (demo_state88 chip)"
  "repo_initialized (demo_state88 chip)" "lastFunctionWatchdogTimeNt (demo_state88 chip) = 0"
  "the_cfg88 demo_chip88 = demo_cfg88" "outs88 demo_cfg88 = [9, 0, 10, 0]" "o_state demo_chip88 = 0x20"
  "bus88 0 (demo_state88 demo_chip88) = 7"
  by (simp_all add: demo_state88_def demo_chip88_def the_cfg88_def outs88_def upt_4 demo_cfg88_def demo_io_def bus88_def)

lemma demo_valid88: "valid88 demo_cfg88"
proof -
  have "\<not> bit (0x0f00000f :: u32) 8 \<and> \<not> bit (0x0f00000f :: u32) 9" by simp
  then show ?thesis by (simp add: valid88_def mappable_def)
qed

text \<open>
  The pin 2 is switched on, and the chip always answers 0x006A: an OPSTAT1 reply without a data bit set.
\<close>

theorem tle8888_reachable_turn_witness:
  "\<exists>s :: tle8888_state. reach88 s \<and> (let t = tle8888_driver_thread (\<lambda>_. 0x006A) (\<lambda>_. 0) 168 False False s in
     outputs_sent 0 t \<and> o_state (tle8888_chips t ! 0) = 0x24 \<and> \<not> needInitialSpi t)"
proof -
  let ?s0 = "demo_state88 demo_chip88"
  have one: "one88 ?s0" using demo_valid88 by (simp add: one88_def within88_def) (simp add: demo_chip88_def)
  define s where "s = snd (tle8888_writePad (Some 0) 2 1 ?s0)"
  have r: "reach88 s" unfolding s_def
    by (rule reach88.step [OF reach88.start [OF one] step88.wr_pad]) (simp_all add: TLE8888_OUTPUTS_def)
  have "o_state (tle8888_chips s ! 0) = 0x24"
    using write88_effect(1) [of 0 ?s0 2 1] by (simp add: s_def TLE8888_OUTPUTS_def)
  moreover have "getRegisterFromResponse 0x006A = 0x35" by (simp add: getRegisterFromResponse_def)
  ultimately show ?thesis using r tle8888_reachable_turn [OF r, of "\<lambda>_. 0x006A" "\<lambda>_. 0" 168 False] by (auto simp: Let_def)
qed

theorem startupConfiguration_checks_witness:
  "fst (startupConfiguration (\<lambda>_. 0) 0 (demo_state88 demo_chip88)) = 0 \<and>
   fst (startupConfiguration (\<lambda>_. 0) 0 (demo_state88 (demo_chip88\<lparr>cfg := Some (demo_cfg88\<lparr>direct_io := replicate 4 (demo_io 9)\<rparr>)\<rparr>))) = -1 \<and>
   fst (startupConfiguration (\<lambda>_. 0) 0 (demo_state88 (demo_chip88\<lparr>cfg := Some (demo_cfg88\<lparr>direct_io := map demo_io [29, 30, 31, 32]\<rparr>)\<rparr>))) = 0"
proof -
  let ?c2 = "demo_chip88\<lparr>cfg := Some (demo_cfg88\<lparr>direct_io := replicate 4 (demo_io 9)\<rparr>)\<rparr>"
  let ?c3 = "demo_chip88\<lparr>cfg := Some (demo_cfg88\<lparr>direct_io := map demo_io [29, 30, 31, 32]\<rparr>)\<rparr>"
  have "outs88 (the_cfg88 ?c2) = [9, 9, 9, 9]" "outs88 (the_cfg88 ?c3) = [29, 30, 31, 32]"
    by (simp_all add: the_cfg88_def outs88_def upt_4 demo_io_def eval_nat_numeral)
  then show ?thesis
    using startupConfiguration_checks [of 0 "demo_state88 demo_chip88" "\<lambda>_. 0"]
      startupConfiguration_checks [of 0 "demo_state88 ?c2" "\<lambda>_. 0"] startupConfiguration_checks [of 0 "demo_state88 ?c3" "\<lambda>_. 0"]
    by (simp add: split_beta Let_def)
qed

theorem tle8888_answers_watchdog_witness:
  "trace (service_function (\<lambda>_. 0x1471) 168 10000000 0 (demo_state88 demo_chip88)) =
     map (Spi 7) [CMD_FWDSTAT1, CMD_WdDiag, FWDRespCmd 0x7A, CMD_WdDiag, CMD_WdDiag]"
proof -
  have "answer88 4 1 = 0x7A" by (simp_all add: answer88_def watchDogResponses_def)
  then show ?thesis
    using tle8888_answers_watchdog [where nowNt = 10000000 and s = "demo_state88 demo_chip88" and m = 168 and k = 0 and dev = "\<lambda>_. 0x1471"]
    by (simp add: Functional_Watchdog_PERIOD_NT_def Let_def getRegisterFromResponse_def FWDStat1_def)
qed

theorem tle8888_dedicated_outputs_fail_witness:
  "fst (tle8888_writePad (Some 0) 25 1 (snd (startupConfiguration (\<lambda>_. 0) 0 (demo_state88 demo_chip88)))) = -1"
proof -
  let ?s = "demo_state88 demo_chip88"
  have w: "within88 0 ?s" using demo_valid88 by (simp add: within88_def)
  note k = keeps88_startup [OF w, of "\<lambda>_. 0"]
  have "the_cfg88 (tle8888_chips (snd (startupConfiguration (\<lambda>_. 0) 0 ?s)) ! 0) = demo_cfg88"
    "0 < length (tle8888_chips (snd (startupConfiguration (\<lambda>_. 0) 0 ?s)))"
    using k(1) same88_cfg by (fastforce simp: keeps88_def)+
  with tle8888_dedicated_outputs_fail [of 0 "snd (startupConfiguration (\<lambda>_. 0) 0 ?s)" 25 1] k(2) demo_valid88
  show ?thesis by (simp add: demo_cfg88_def TLE8888_DIRECT_MISC_def)
qed

theorem tle8888_init_releases_pins_witness:
  "let r = tle8888_init (Some 0) (demo_state88 (demo_chip88\<lparr>drv_state := TLE8888_WAIT_INIT\<rparr>))
   in pad_owner (snd r) (1, 5) = None"
  using tle8888_init_releases_pins [of "demo_state88 (demo_chip88\<lparr>drv_state := TLE8888_WAIT_INIT\<rparr>)" 0 "(1, 5)"]
  by (simp add: Let_def the_cfg88_def demo_chip88_def demo_cfg88_def tle8888_pads_def demo_io_def TLE8888_DIRECT_MISC_def
      pads_valid_def real_pads_def gpio_valid_def)

end
