(* ===== verification/Trigger_Shape.thy ===== *)
theory Trigger_Shape
  imports Float_Values
begin

text \<open>
  The description of a trigger wheel: \<open>MultiChannelStateSequence\<close>
  (src/firmware/controllers/core/state_sequence.cpp) and \<open>TriggerWaveform\<close>
  (controllers/trigger/decoders/trigger_structure.cpp, trigger_universal.cpp).  A \<open>float\<close> is a
  rational; \<open>fl\<close> is the rounding of a single-precision operation, and \<open>None\<close> is NaN where the
  code uses it.  Calls of \<open>firmwareError\<close> and \<open>warning\<close> go to the log of the shape.
\<close>


datatype trigger_value_e = TV_FALL | TV_RISE
datatype trigger_wheel_e = T_PRIMARY | T_SECONDARY | T_CHANNEL_3 | T_NONE

definition wheel_index :: "trigger_wheel_e \<Rightarrow> nat" where
  "wheel_index w = (case w of T_PRIMARY \<Rightarrow> 0 | T_SECONDARY \<Rightarrow> 1 | T_CHANNEL_3 \<Rightarrow> 2 | T_NONE \<Rightarrow> 15)"

datatype operation_mode_e = OM_NONE | FOUR_STROKE_CRANK_SENSOR | FOUR_STROKE_CAM_SENSOR | TWO_STROKE
  | FOUR_STROKE_SYMMETRICAL_CRANK_SENSOR | FOUR_STROKE_THREE_TIMES_CRANK_SENSOR

definition PWM_PHASE_MAX_COUNT :: nat where "PWM_PHASE_MAX_COUNT = 280"
definition PWM_PHASE_MAX_WAVE_PER_PWM :: nat where "PWM_PHASE_MAX_WAVE_PER_PWM = 3"
definition GAP_TRACKING_LENGTH :: nat where "GAP_TRACKING_LENGTH = 4"
definition EPS :: rat where "EPS = 1 / 10000"

subsection \<open>The state sequence\<close>

record multi_wave =
  waveCount :: int
  switchTimes :: "float32 list"
  pinStates :: "trigger_value_e list list"

definition wave_reset :: "multi_wave \<Rightarrow> multi_wave" where
  "wave_reset w = w\<lparr>waveCount := 0\<rparr>"

definition getSwitchTime :: "multi_wave \<Rightarrow> nat \<Rightarrow> float32" where
  "getSwitchTime w index = switchTimes w ! index"

definition setSwitchTime :: "nat \<Rightarrow> float32 \<Rightarrow> multi_wave \<Rightarrow> multi_wave" where
  "setSwitchTime index v w = w\<lparr>switchTimes := (switchTimes w)[index := v]\<rparr>"

definition getChannelState :: "multi_wave \<Rightarrow> nat \<Rightarrow> nat \<Rightarrow> trigger_value_e" where
  "getChannelState w channelIndex phaseIndex = pinStates w ! channelIndex ! phaseIndex"

definition setState :: "nat \<Rightarrow> nat \<Rightarrow> trigger_value_e \<Rightarrow> multi_wave \<Rightarrow> multi_wave" where
  "setState channelIndex switchIndex state w =
     w\<lparr>pinStates := (pinStates w)[channelIndex := (pinStates w ! channelIndex)[switchIndex := state]]\<rparr>"

text \<open>\<open>k\<close> is the number of elements still to be compared.\<close>

fun checkSwitchTimes_loop :: "float32 list \<Rightarrow> nat \<Rightarrow> nat \<Rightarrow> string list" where
  "checkSwitchTimes_loop ts i 0 = []"
| "checkSwitchTimes_loop ts i (Suc k) =
     (if ts ! i \<ge> ts ! (i + 1) then [''invalid switchTimes''] else []) @ checkSwitchTimes_loop ts (i + 1) k"

definition checkSwitchTimes :: "multi_wave \<Rightarrow> nat \<Rightarrow> string list" where
  "checkSwitchTimes w sz =
     (if switchTimes w ! (sz - 1) \<noteq> 1 then [''last switch time has to be 1'']
      else checkSwitchTimes_loop (switchTimes w) 0 (sz - 1))"

fun findInsertionAngle :: "float32 list \<Rightarrow> float32 \<Rightarrow> nat \<Rightarrow> nat" where
  "findInsertionAngle ts angle 0 = 0"
| "findInsertionAngle ts angle (Suc i) = (if angle > ts ! i then i + 1 else findInsertionAngle ts angle i)"

definition isSameF :: "rounding \<Rightarrow> float32 \<Rightarrow> float32 \<Rightarrow> bool" where
  "isSameF fl v1 v2 = (\<bar>fl (v1 - v2)\<bar> < EPS)"

fun findAngleMatch_loop :: "rounding \<Rightarrow> float32 list \<Rightarrow> float32 \<Rightarrow> nat \<Rightarrow> nat \<Rightarrow> nat option" where
  "findAngleMatch_loop fl ts angle i 0 = None"
| "findAngleMatch_loop fl ts angle i (Suc k) =
     (if isSameF fl (ts ! i) angle then Some i else findAngleMatch_loop fl ts angle (i + 1) k)"

text \<open>None is \<open>EFI_ERROR_CODE\<close>.\<close>

definition findAngleMatch :: "rounding \<Rightarrow> multi_wave \<Rightarrow> float32 \<Rightarrow> nat \<Rightarrow> nat option" where
  "findAngleMatch fl w angle sz = findAngleMatch_loop fl (switchTimes w) angle 0 sz"

subsection \<open>The wave form\<close>

record trigger_waveform =
  isSynchronizationNeeded :: bool
  shapeWithoutTdc :: bool
  needSecondTriggerInput :: bool
  shapeDefinitionError :: bool
  bothFrontsRequired :: bool
  shape_version :: nat
  expectedDutyCycle :: "float32 list"
  eventAngles :: "float32 list"
  triggerIndexByAngle :: "int list"
  syncronizationRatioFrom :: "float32 option list"
  syncronizationRatioTo :: "float32 list"
  syncRatioAvg :: int
  tdcPosition :: "float32 option"
  useOnlyPrimaryForSync :: bool
  useRiseEdge :: bool
  gapBothDirections :: bool
  expectedEventCount :: "u32 list"
  wave :: multi_wave
  initialState :: "trigger_value_e list"
  isRiseEvent :: "bool list"
  riseOnlyIndexes :: "int list"
  invertOnAdd :: bool
  privateTriggerDefinitionSize :: nat
  useOnlyRisingEdgeForTriggerTemp :: bool
  triggerShapeSynchPointIndex :: nat
  previousAngle :: float32
  operationMode :: operation_mode_e
  shape_log :: "string list"

definition shape_report :: "string \<Rightarrow> trigger_waveform \<Rightarrow> trigger_waveform" where
  "shape_report msg s = s\<lparr>shape_log := shape_log s @ [msg]\<rparr>"

definition setShapeDefinitionError :: "bool \<Rightarrow> trigger_waveform \<Rightarrow> trigger_waveform" where
  "setShapeDefinitionError v s = s\<lparr>shapeDefinitionError := v\<rparr>"

definition FOUR_STROKE_ENGINE_CYCLE :: nat where "FOUR_STROKE_ENGINE_CYCLE = 720"

definition getEngineCycle :: "operation_mode_e \<Rightarrow> nat" where
  "getEngineCycle om = (if om = TWO_STROKE then 360 else FOUR_STROKE_ENGINE_CYCLE)"

definition cycle_duration :: "operation_mode_e \<Rightarrow> nat" where
  "cycle_duration om =
     (case om of
        FOUR_STROKE_THREE_TIMES_CRANK_SENSOR \<Rightarrow> 120
      | FOUR_STROKE_SYMMETRICAL_CRANK_SENSOR \<Rightarrow> 180
      | FOUR_STROKE_CRANK_SENSOR \<Rightarrow> 360
      | TWO_STROKE \<Rightarrow> 360
      | _ \<Rightarrow> 720)"

definition getCycleDuration :: "trigger_waveform \<Rightarrow> nat" where
  "getCycleDuration s = cycle_duration (operationMode s)"

definition getSize :: "trigger_waveform \<Rightarrow> nat" where
  "getSize s = privateTriggerDefinitionSize s"

definition getLength :: "trigger_waveform \<Rightarrow> nat" where
  "getLength s =
     (let multiplier = getEngineCycle (operationMode s) div getCycleDuration s
      in multiplier * getSize s)"

text \<open>\<open>rintf\<close> rounds to the nearest integer, ties to even.\<close>

definition rintf :: "rat \<Rightarrow> int" where
  "rintf x =
     (let f = \<lfloor>x\<rfloor>; d = x - of_int f
      in if d < 1 / 2 then f else if d > 1 / 2 then f + 1 else if even f then f else f + 1)"

definition setTriggerSynchronizationGap3 ::
    "rounding \<Rightarrow> nat \<Rightarrow> float32 option \<Rightarrow> float32 \<Rightarrow> trigger_waveform \<Rightarrow> trigger_waveform" where
  "setTriggerSynchronizationGap3 fl gapIndex syncRatioFrom syncRatioTo s =
     (let s = s\<lparr>isSynchronizationNeeded := True,
                syncronizationRatioFrom := (syncronizationRatioFrom s)[gapIndex := syncRatioFrom],
                syncronizationRatioTo := (syncronizationRatioTo s)[gapIndex := syncRatioTo]\<rparr>
      in case syncRatioFrom of
           Some from \<Rightarrow>
             if gapIndex = 0 then s\<lparr>syncRatioAvg := rintf (fl (fl (from + syncRatioTo) * (1 / 2)))\<rparr> else s
         | None \<Rightarrow> s)"

definition setTriggerSynchronizationGap2 :: "rounding \<Rightarrow> float32 \<Rightarrow> float32 \<Rightarrow> trigger_waveform \<Rightarrow> trigger_waveform" where
  "setTriggerSynchronizationGap2 fl syncRatioFrom syncRatioTo = setTriggerSynchronizationGap3 fl 0 (Some syncRatioFrom) syncRatioTo"

definition setTriggerSynchronizationGap :: "rounding \<Rightarrow> float32 \<Rightarrow> trigger_waveform \<Rightarrow> trigger_waveform" where
  "setTriggerSynchronizationGap fl syncRatio =
     setTriggerSynchronizationGap3 fl 0 (Some (fl (syncRatio * (3 / 4)))) (fl (syncRatio * (5 / 4)))"

definition setSecondTriggerSynchronizationGap2 :: "rounding \<Rightarrow> float32 \<Rightarrow> float32 \<Rightarrow> trigger_waveform \<Rightarrow> trigger_waveform" where
  "setSecondTriggerSynchronizationGap2 fl syncRatioFrom syncRatioTo =
     setTriggerSynchronizationGap3 fl 1 (Some syncRatioFrom) syncRatioTo"

definition setSecondTriggerSynchronizationGap :: "rounding \<Rightarrow> float32 \<Rightarrow> trigger_waveform \<Rightarrow> trigger_waveform" where
  "setSecondTriggerSynchronizationGap fl syncRatio =
     setTriggerSynchronizationGap3 fl 1 (Some (fl (syncRatio * (3 / 4)))) (fl (syncRatio * (5 / 4)))"

definition setThirdTriggerSynchronizationGap :: "rounding \<Rightarrow> float32 \<Rightarrow> trigger_waveform \<Rightarrow> trigger_waveform" where
  "setThirdTriggerSynchronizationGap fl syncRatio =
     setTriggerSynchronizationGap3 fl 2 (Some (fl (syncRatio * (3 / 4)))) (fl (syncRatio * (5 / 4)))"

text \<open>The loop over the gaps 1 to 3: NaN, not used.\<close>

definition initialize :: "rounding \<Rightarrow> operation_mode_e \<Rightarrow> trigger_waveform \<Rightarrow> trigger_waveform" where
  "initialize fl om s =
     (let s = s\<lparr>isSynchronizationNeeded := True, bothFrontsRequired := False, needSecondTriggerInput := False,
                shapeWithoutTdc := False, expectedDutyCycle := replicate PWM_PHASE_MAX_WAVE_PER_PWM 0,
                eventAngles := replicate PWM_PHASE_MAX_COUNT 0\<rparr>;
          s = setTriggerSynchronizationGap fl 2 s;
          s = fold (\<lambda>gapIndex. setTriggerSynchronizationGap3 fl gapIndex None 100000) [1..<GAP_TRACKING_LENGTH] s
      in s\<lparr>tdcPosition := Some 0, shapeDefinitionError := False, useOnlyPrimaryForSync := False, useRiseEdge := True,
           gapBothDirections := False, invertOnAdd := False, operationMode := om, privateTriggerDefinitionSize := 0,
           triggerShapeSynchPointIndex := 0, initialState := replicate PWM_PHASE_MAX_WAVE_PER_PWM TV_FALL,
           wave := wave_reset ((wave s)\<lparr>switchTimes := replicate PWM_PHASE_MAX_COUNT 0\<rparr>),
           expectedEventCount := replicate PWM_PHASE_MAX_WAVE_PER_PWM 0, previousAngle := 0,
           riseOnlyIndexes := replicate PWM_PHASE_MAX_COUNT 0, isRiseEvent := replicate PWM_PHASE_MAX_COUNT False\<rparr>)"

text \<open>A new object: its members before the constructor runs are zero, as static storage is.\<close>

definition blank_waveform :: trigger_waveform where
  "blank_waveform =
     \<lparr>isSynchronizationNeeded = False, shapeWithoutTdc = False, needSecondTriggerInput = False,
      shapeDefinitionError = False, bothFrontsRequired = False, shape_version = 0,
      expectedDutyCycle = replicate PWM_PHASE_MAX_WAVE_PER_PWM 0, eventAngles = replicate PWM_PHASE_MAX_COUNT 0,
      triggerIndexByAngle = replicate 720 0, syncronizationRatioFrom = replicate GAP_TRACKING_LENGTH (Some 0),
      syncronizationRatioTo = replicate GAP_TRACKING_LENGTH 0, syncRatioAvg = 0, tdcPosition = Some 0,
      useOnlyPrimaryForSync = False, useRiseEdge = False, gapBothDirections = False,
      expectedEventCount = replicate PWM_PHASE_MAX_WAVE_PER_PWM 0,
      wave = \<lparr>waveCount = 0, switchTimes = replicate PWM_PHASE_MAX_COUNT 0,
              pinStates = replicate PWM_PHASE_MAX_WAVE_PER_PWM (replicate PWM_PHASE_MAX_COUNT TV_FALL)\<rparr>,
      initialState = replicate PWM_PHASE_MAX_WAVE_PER_PWM TV_FALL, isRiseEvent = replicate PWM_PHASE_MAX_COUNT False,
      riseOnlyIndexes = replicate PWM_PHASE_MAX_COUNT 0, invertOnAdd = False, privateTriggerDefinitionSize = 0,
      useOnlyRisingEdgeForTriggerTemp = False, triggerShapeSynchPointIndex = 0, previousAngle = 0,
      operationMode = OM_NONE, shape_log = []\<rparr>"

definition trigger_waveform_new :: "rounding \<Rightarrow> trigger_waveform" where
  "trigger_waveform_new fl = initialize fl OM_NONE blank_waveform"

subsection \<open>Adding events\<close>

definition count_event :: "nat \<Rightarrow> u32 list \<Rightarrow> u32 list" where
  "count_event i cs = cs[i := cs ! i + 1]"

text \<open>The first event, and the states of the channels when another one follows.\<close>

definition add_first ::
    "float32 \<Rightarrow> nat \<Rightarrow> trigger_value_e \<Rightarrow> trigger_value_e \<Rightarrow> trigger_waveform \<Rightarrow> trigger_waveform" where
  "add_first angle channel stateParam state s =
     (let w = fold (\<lambda>i. setState i 0 (initialState s ! i)) [0..<PWM_PHASE_MAX_WAVE_PER_PWM] (wave s)
      in s\<lparr>privateTriggerDefinitionSize := 1, isRiseEvent := (isRiseEvent s)[0 := TV_RISE = stateParam],
           wave := setState channel 0 state (setSwitchTime 0 angle w)\<rparr>)"

definition add_next ::
    "rounding \<Rightarrow> float32 \<Rightarrow> nat \<Rightarrow> trigger_value_e \<Rightarrow> trigger_value_e \<Rightarrow> trigger_waveform \<Rightarrow> trigger_waveform" where
  "add_next fl angle channel stateParam state s =
     (if findAngleMatch fl (wave s) angle (privateTriggerDefinitionSize s) \<noteq> None
      then setShapeDefinitionError True (shape_report ''same angle: not supported'' s)
      else
        let index = findInsertionAngle (switchTimes (wave s)) angle (privateTriggerDefinitionSize s);
            s = s\<lparr>isRiseEvent := (isRiseEvent s)[index := TV_RISE = stateParam]\<rparr>;
            s = (if index \<noteq> privateTriggerDefinitionSize s then shape_report ''are we ever here?'' s else s);
            s = s\<lparr>privateTriggerDefinitionSize := privateTriggerDefinitionSize s + 1\<rparr>;
            w = fold (\<lambda>i w. setState i index (getChannelState w i (index - 1)) w) [0..<PWM_PHASE_MAX_WAVE_PER_PWM] (wave s)
        in s\<lparr>wave := setState channel index state (setSwitchTime index angle w)\<rparr>)"

definition addEvent ::
    "rounding \<Rightarrow> float32 \<Rightarrow> trigger_wheel_e \<Rightarrow> trigger_value_e \<Rightarrow> trigger_waveform \<Rightarrow> trigger_waveform" where
  "addEvent fl angle channelIndex stateParam s =
     (if \<not> operationMode s \<noteq> OM_NONE then shape_report ''operationMode not set'' s
      else
        let s = (if channelIndex = T_SECONDARY then s\<lparr>needSecondTriggerInput := True\<rparr> else s);
            state = (if invertOnAdd s then (if stateParam = TV_FALL then TV_RISE else TV_FALL) else stateParam);
            channel = wheel_index channelIndex;
            s = (if \<not> useOnlyRisingEdgeForTriggerTemp s \<or> stateParam = TV_RISE
                 then s\<lparr>expectedEventCount := count_event channel (expectedEventCount s)\<rparr> else s)
        in if \<not> angle > 0 then shape_report ''angle should be positive'' s
           else if privateTriggerDefinitionSize s > 0 \<and> angle \<le> previousAngle s
           then setShapeDefinitionError True (shape_report ''invalid angle order'' s)
           else
             let s = s\<lparr>previousAngle := angle\<rparr>
             in if privateTriggerDefinitionSize s = 0 then add_first angle channel stateParam state s
                else add_next fl angle channel stateParam state s)"

definition addEvent720 ::
    "rounding \<Rightarrow> float32 \<Rightarrow> trigger_wheel_e \<Rightarrow> trigger_value_e \<Rightarrow> trigger_waveform \<Rightarrow> trigger_waveform" where
  "addEvent720 fl angle channelIndex state = addEvent fl (fl (angle / 720)) channelIndex state"

definition addEventAngle ::
    "rounding \<Rightarrow> float32 \<Rightarrow> trigger_wheel_e \<Rightarrow> trigger_value_e \<Rightarrow> trigger_waveform \<Rightarrow> trigger_waveform" where
  "addEventAngle fl angle channelIndex state s =
     addEvent fl (fl (angle / of_nat (getCycleDuration s))) channelIndex state s"

definition addEventClamped ::
    "rounding \<Rightarrow> float32 \<Rightarrow> trigger_wheel_e \<Rightarrow> trigger_value_e \<Rightarrow> float32 \<Rightarrow> float32 \<Rightarrow> trigger_waveform \<Rightarrow> trigger_waveform" where
  "addEventClamped fl angle channelIndex stateParam filterLeft filterRight s =
     (if angle > filterLeft \<and> angle < filterRight
      then addEvent fl (fl (angle / of_nat (getEngineCycle (operationMode s)))) channelIndex stateParam s
      else s)"

subsection \<open>Angles and indexes\<close>

definition getSwitchAngle :: "rounding \<Rightarrow> trigger_waveform \<Rightarrow> nat \<Rightarrow> float32" where
  "getSwitchAngle fl s index = fl (of_nat (getCycleDuration s) * getSwitchTime (wave s) index)"

text \<open>None is the NaN of the failed assertion.\<close>

definition getAngle :: "rounding \<Rightarrow> trigger_waveform \<Rightarrow> nat \<Rightarrow> float32 option" where
  "getAngle fl s index =
     (if operationMode s = FOUR_STROKE_CAM_SENSOR then Some (getSwitchAngle fl s index)
      else if privateTriggerDefinitionSize s = 0 then None
      else
        let crankCycle = index div privateTriggerDefinitionSize s;
            remainder = index mod privateTriggerDefinitionSize s
        in Some (fl (fl (of_nat (getCycleDuration s) * of_nat crankCycle) + getSwitchAngle fl s remainder)))"

definition calculateExpectedEventCounts :: "bool \<Rightarrow> trigger_waveform \<Rightarrow> trigger_waveform" where
  "calculateExpectedEventCounts useOnlyRisingEdgeForTrigger s =
     (let isSingleToothOnPrimaryChannel =
            (if useOnlyRisingEdgeForTrigger then expectedEventCount s ! 0 = 1 else expectedEventCount s ! 0 = 2)
      in if \<not> shapeWithoutTdc s \<and> isSingleToothOnPrimaryChannel \<noteq> (\<not> isSynchronizationNeeded s)
         then shape_report ''trigger constraint violation'' s else s)"

text \<open>
  The binary search of \<open>findAngleIndex\<close>. \<open>left\<close> and \<open>right\<close> are \<open>uint32_t\<close>: with \<open>middle = 0\<close>,
  \<open>middle - 1\<close> is \<open>2 ^ 32 - 1\<close>. None: an element beyond the array is read.
\<close>

partial_function (option) findAngleIndex_loop :: "float32 list \<Rightarrow> float32 \<Rightarrow> u32 \<Rightarrow> u32 \<Rightarrow> int option" where
  "findAngleIndex_loop angles target left right =
     (if left \<le> right then
        let middle = (left + right) div 2
        in if unat middle \<ge> length angles then None
           else
             let eventAngle = angles ! unat middle
             in if eventAngle < target then findAngleIndex_loop angles target (middle + 1) right
                else if eventAngle > target then findAngleIndex_loop angles target left (middle - 1)
                else Some (sint middle)
      else Some (sint (left - 1)))"

text \<open>The assertion that fails logs an error and returns 0.\<close>

definition findAngleIndex :: "trigger_waveform \<Rightarrow> float32 \<Rightarrow> int option" where
  "findAngleIndex s target =
     (let engineCycleEventCount = getLength s
      in if \<not> engineCycleEventCount > 0 then Some 0
         else findAngleIndex_loop (eventAngles s) target 0 (word_of_nat (engineCycleEventCount - 1)))"

text \<open>\<open>triggerShapeIndex & 0xFFFFFFFE\<close>, assigned to an \<open>int\<close>.\<close>

definition front_only_index :: "bool \<Rightarrow> int \<Rightarrow> int" where
  "front_only_index rise i = (if rise then sint ((word_of_int i :: u32) AND 0xFFFFFFFE) else i)"

fun prepareShape_loop :: "nat \<Rightarrow> nat \<Rightarrow> trigger_waveform \<Rightarrow> trigger_waveform option" where
  "prepareShape_loop angle 0 s = Some s"
| "prepareShape_loop angle (Suc k) s =
     (case findAngleIndex s (of_nat angle) of
        None \<Rightarrow> None
      | Some i \<Rightarrow>
          prepareShape_loop (angle + 1) k
            (s\<lparr>triggerIndexByAngle := (triggerIndexByAngle s)[angle := front_only_index (useOnlyRisingEdgeForTriggerTemp s) i]\<rparr>))"

definition prepareShape :: "trigger_waveform \<Rightarrow> trigger_waveform option" where
  "prepareShape s = prepareShape_loop 0 (getEngineCycle (operationMode s)) s"

text \<open>
  \<open>fixAngle2\<close>: NaN and angles out of range become 0, then the loops shift the angle into the cycle.
  With a rounding that makes no progress they do not end.
\<close>

partial_function (option) fixAngle_up :: "rounding \<Rightarrow> float32 \<Rightarrow> float32 \<Rightarrow> float32 option" where
  "fixAngle_up fl cycle angle = (if angle < 0 then fixAngle_up fl cycle (fl (angle + cycle)) else Some angle)"

partial_function (option) fixAngle_down :: "rounding \<Rightarrow> float32 \<Rightarrow> float32 \<Rightarrow> float32 option" where
  "fixAngle_down fl cycle angle =
     (if angle \<ge> cycle then fixAngle_down fl cycle (fl (angle - cycle)) else Some angle)"

definition assertAngleRange :: "float32 \<Rightarrow> float32" where
  "assertAngleRange angle = (if angle > 10000000 \<or> angle < -10000000 then 0 else angle)"

definition fixAngle2 :: "rounding \<Rightarrow> float32 option \<Rightarrow> nat \<Rightarrow> float32 option" where
  "fixAngle2 fl angle engineCycle =
     (let angle = (case angle of None \<Rightarrow> 0 | Some a \<Rightarrow> a);
          angle = assertAngleRange angle
      in case fixAngle_up fl (of_nat engineCycle) angle of
           None \<Rightarrow> None
         | Some angle \<Rightarrow> fixAngle_down fl (of_nat engineCycle) angle)"

record event_trigger_position_s =
  triggerEventIndex :: int
  angleOffsetFromTriggerEvent :: float32

text \<open>
  The outer None is a loop that does not end. The inner option is the early return of an assertion or
  of the warning: the position is not assigned.
\<close>

definition findTriggerPosition ::
    "rounding \<Rightarrow> trigger_waveform \<Rightarrow> float32 option \<Rightarrow> float32 option \<Rightarrow> event_trigger_position_s option option" where
  "findTriggerPosition fl s angle globalTriggerAngleOffset =
     (case (angle, tdcPosition s, globalTriggerAngleOffset) of
        (Some angle, Some tdc, Some goff) \<Rightarrow>
          let angle = assertAngleRange angle;
              tdc = assertAngleRange tdc;
              goff = assertAngleRange goff;
              angle = fl (angle + fl (tdc + goff))
          in (case fixAngle2 fl (Some angle) (getEngineCycle (operationMode s)) of
                None \<Rightarrow> None
              | Some angle \<Rightarrow>
                  let triggerEventIndex = triggerIndexByAngle s ! nat \<lfloor>angle\<rfloor>;
                      triggerEventAngle = eventAngles s ! nat triggerEventIndex
                  in if angle < triggerEventAngle then Some None
                     else Some (Some \<lparr>triggerEventIndex = triggerEventIndex,
                                      angleOffsetFromTriggerEvent = fl (angle - triggerEventAngle)\<rparr>))
      | _ \<Rightarrow> Some None)"

subsection \<open>Universal wheels\<close>

definition NO_LEFT_FILTER :: float32 where "NO_LEFT_FILTER = -1"
definition NO_RIGHT_FILTER :: float32 where "NO_RIGHT_FILTER = 1000"

fun skipped_teeth_loop ::
    "rounding \<Rightarrow> trigger_wheel_e \<Rightarrow> int \<Rightarrow> float32 \<Rightarrow> float32 \<Rightarrow> float32 \<Rightarrow> float32 \<Rightarrow> float32 \<Rightarrow> nat \<Rightarrow> nat \<Rightarrow> trigger_waveform \<Rightarrow> trigger_waveform" where
  "skipped_teeth_loop fl wheel teeth toothWidth offset engineCycle filterLeft filterRight i 0 s = s"
| "skipped_teeth_loop fl wheel teeth toothWidth offset engineCycle filterLeft filterRight i (Suc k) s =
     (let angleDown = fl (fl (engineCycle / of_int teeth) * fl (of_nat i + fl (1 - toothWidth)));
          angleUp = fl (fl (engineCycle / of_int teeth) * of_nat (i + 1));
          s = addEventClamped fl (fl (offset + angleDown)) wheel TV_RISE filterLeft filterRight s;
          s = addEventClamped fl (fl (offset + angleUp)) wheel TV_FALL filterLeft filterRight s
      in skipped_teeth_loop fl wheel teeth toothWidth offset engineCycle filterLeft filterRight (i + 1) k s)"

definition addSkippedToothTriggerEvents ::
    "rounding \<Rightarrow> trigger_wheel_e \<Rightarrow> int \<Rightarrow> int \<Rightarrow> float32 \<Rightarrow> float32 \<Rightarrow> float32 \<Rightarrow> float32 \<Rightarrow> float32 \<Rightarrow> trigger_waveform \<Rightarrow> trigger_waveform" where
  "addSkippedToothTriggerEvents fl wheel totalTeethCount skippedCount toothWidth offset engineCycle filterLeft filterRight s =
     (if \<not> totalTeethCount > 0 then shape_report ''total count'' s
      else if \<not> skippedCount \<ge> 0 then shape_report ''skipped count'' s
      else
        let s = skipped_teeth_loop fl wheel totalTeethCount toothWidth offset engineCycle filterLeft filterRight 0
                  (nat (totalTeethCount - skippedCount - 1)) s;
            angleDown = fl (fl (engineCycle / of_int totalTeethCount) *
                            fl (of_int (totalTeethCount - skippedCount - 1) + fl (1 - toothWidth)));
            s = addEventClamped fl (fl (offset + angleDown)) wheel TV_RISE filterLeft filterRight s
        in addEventClamped fl (fl (offset + engineCycle)) wheel TV_FALL filterLeft filterRight s)"

definition initializeSkippedToothTriggerWaveformExt ::
    "rounding \<Rightarrow> int \<Rightarrow> int \<Rightarrow> operation_mode_e \<Rightarrow> trigger_waveform \<Rightarrow> trigger_waveform" where
  "initializeSkippedToothTriggerWaveformExt fl totalTeethCount skippedCount om s =
     (if totalTeethCount \<le> 0
      then setShapeDefinitionError True (shape_report ''totalTeethCount is zero or less'' s)
      else
        let s = initialize fl om s;
            s = setTriggerSynchronizationGap fl (of_int (skippedCount + 1)) s;
            s = s\<lparr>shapeWithoutTdc := totalTeethCount > 1 \<and> skippedCount = 0,
                  isSynchronizationNeeded := totalTeethCount > 2 \<and> skippedCount \<noteq> 0\<rparr>
        in addSkippedToothTriggerEvents fl T_PRIMARY totalTeethCount skippedCount (1 / 2) 0
             (of_nat (getEngineCycle om)) NO_LEFT_FILTER NO_RIGHT_FILTER s)"

definition setToothedWheelConfiguration ::
    "rounding \<Rightarrow> int \<Rightarrow> int \<Rightarrow> operation_mode_e \<Rightarrow> trigger_waveform \<Rightarrow> trigger_waveform" where
  "setToothedWheelConfiguration fl teeth skipped om s =
     initializeSkippedToothTriggerWaveformExt fl teeth skipped om (s\<lparr>useRiseEdge := True\<rparr>)"

definition add720s ::
    "rounding \<Rightarrow> (float32 \<times> trigger_wheel_e \<times> trigger_value_e) list \<Rightarrow> trigger_waveform \<Rightarrow> trigger_waveform" where
  "add720s fl = fold (\<lambda>(angle, wheel, v). addEvent720 fl angle wheel v)"

definition configureOnePlusOne :: "rounding \<Rightarrow> trigger_waveform \<Rightarrow> trigger_waveform" where
  "configureOnePlusOne fl s =
     (let s = initialize fl FOUR_STROKE_CAM_SENSOR s;
          s = add720s fl [(180, T_PRIMARY, TV_RISE), (360, T_PRIMARY, TV_FALL),
                          (540, T_SECONDARY, TV_RISE), (720, T_SECONDARY, TV_FALL)] s
      in s\<lparr>isSynchronizationNeeded := False, useOnlyPrimaryForSync := True\<rparr>)"

definition configureOnePlus60_2 :: "rounding \<Rightarrow> trigger_waveform \<Rightarrow> trigger_waveform" where
  "configureOnePlus60_2 fl s =
     (let totalTeethCount = 60; skippedCount = 2;
          s = initialize fl FOUR_STROKE_CAM_SENSOR s;
          s = addEvent720 fl 2 T_PRIMARY TV_RISE s;
          s = addSkippedToothTriggerEvents fl T_SECONDARY totalTeethCount skippedCount (1 / 2) 0 360 2 20 s;
          s = addEvent720 fl 20 T_PRIMARY TV_FALL s;
          s = addSkippedToothTriggerEvents fl T_SECONDARY totalTeethCount skippedCount (1 / 2) 0 360 20 NO_RIGHT_FILTER s;
          s = addSkippedToothTriggerEvents fl T_SECONDARY totalTeethCount skippedCount (1 / 2) 360 360
                NO_LEFT_FILTER NO_RIGHT_FILTER s
      in s\<lparr>isSynchronizationNeeded := False, useOnlyPrimaryForSync := True\<rparr>)"

text \<open>\<open>crankW\<close> is 60; each \<open>a += crankW\<close> is exact.\<close>

definition configure3_1_cam :: "rounding \<Rightarrow> trigger_waveform \<Rightarrow> trigger_waveform" where
  "configure3_1_cam fl s =
     (let crankW = 60; crank = T_SECONDARY;
          s = initialize fl FOUR_STROKE_CAM_SENSOR s;
          s = add720s fl [(10, T_PRIMARY, TV_RISE), (50, T_PRIMARY, TV_FALL),
                (3 * crankW, crank, TV_RISE), (4 * crankW, crank, TV_FALL),
                (5 * crankW, crank, TV_RISE), (6 * crankW, crank, TV_FALL),
                (9 * crankW, crank, TV_RISE), (10 * crankW, crank, TV_FALL),
                (11 * crankW, crank, TV_RISE), (12 * crankW, crank, TV_FALL)] s
      in s\<lparr>isSynchronizationNeeded := False\<rparr>)"

definition configureQuickStartSenderWheel :: "rounding \<Rightarrow> trigger_waveform \<Rightarrow> trigger_waveform" where
  "configureQuickStartSenderWheel fl s =
     (let s = initialize fl FOUR_STROKE_CAM_SENSOR s;
          s = s\<lparr>useRiseEdge := False, gapBothDirections := False\<rparr>;
          offset = 2 * 20;
          s = setTriggerSynchronizationGap3 fl 0 (Some 2) 3 s
      in fold (\<lambda>(angle, v). addEventAngle fl angle T_PRIMARY v)
           [(offset + 2 * 0, TV_RISE), (offset + 2 * 70, TV_FALL), (offset + 2 * 90, TV_RISE), (offset + 2 * 110, TV_FALL),
            (offset + 2 * 180, TV_RISE), (offset + 2 * 200, TV_FALL), (offset + 2 * 270, TV_RISE), (offset + 2 * 340, TV_FALL)] s)"

subsection \<open>Single precision\<close>

text \<open>
  Rounding to nearest with 24 places, for numbers well within the range of the format: a relative error of
  at most half a unit in the last place, and none for the integers that fit.
\<close>

text \<open>\<open>x\<close> is \<open>y\<close> up to \<open>n\<close> roundings.\<close>

definition app :: "nat \<Rightarrow> rat \<Rightarrow> rat \<Rightarrow> bool" where
  "app n x y \<longleftrightarrow> 0 < y \<and> y * (1 - 1 / 2 ^ 24) ^ n \<le> x \<and> x \<le> y * (1 + 1 / 2 ^ 24) ^ n"

lemma app_refl: "0 < y \<Longrightarrow> app n y y"
  by (simp add: app_def power_le_one mult_left_le one_le_power)

lemma app_pos: "app n x y \<Longrightarrow> 0 < x"
  unfolding app_def by (elim conjE) (erule less_le_trans [rotated], simp)

lemma app_mono:
  assumes "app n x y" "n \<le> n'"
  shows "app n' x y"
proof -
  have "(1 - 1 / 2 ^ 24 :: rat) ^ n' \<le> (1 - 1 / 2 ^ 24) ^ n" by (rule power_decreasing [OF assms(2)]) simp_all
  moreover have "(1 + 1 / 2 ^ 24 :: rat) ^ n \<le> (1 + 1 / 2 ^ 24) ^ n'" by (rule power_increasing [OF assms(2)]) simp
  ultimately show ?thesis using assms(1) unfolding app_def
    by (meson less_imp_le mult_left_mono order_trans)
qed

lemma app_mult: "app a x y \<Longrightarrow> app b x' y' \<Longrightarrow> app (a + b) (x * x') (y * y')"
  using mult_mono [of "y * (1 - 1 / 2 ^ 24) ^ a" x "y' * (1 - 1 / 2 ^ 24) ^ b" x']
    mult_mono [of x "y * (1 + 1 / 2 ^ 24) ^ a" x' "y' * (1 + 1 / 2 ^ 24) ^ b"] app_pos [of a x y] app_pos [of b x' y']
  by (simp add: app_def power_add ac_simps)

lemma app_add: "app n x y \<Longrightarrow> app n x' y' \<Longrightarrow> app n (x + x') (y + y')"
  by (simp add: app_def distrib_right add_mono)

lemma app_scale: "app n x y \<Longrightarrow> 0 < c \<Longrightarrow> app n (x / c) (y / c)"
  by (simp add: app_def field_simps)

lemma app_fl:
  assumes fl: "float_ok fl" and x: "app n x y" and n: "n \<le> 8" and y: "1 / 2 ^ 19 \<le> y" "y \<le> 2 ^ 63"
  shows "app (Suc n) (fl x) y"
proof -
  have h: "y * (1 - 1 / 2 ^ 24) ^ 8 \<le> x" "x \<le> y * (1 + 1 / 2 ^ 24) ^ 8"
    using app_mono [OF x n] by (simp_all only: app_def)
  have y0: "0 \<le> y" using x by (simp add: app_def)
  have "1 / 2 ^ 20 \<le> 1 / 2 ^ 19 * (1 - 1 / 2 ^ 24 :: rat) ^ 8" by (simp add: power_divide)
  also have "\<dots> \<le> y * (1 - 1 / 2 ^ 24) ^ 8" by (rule mult_right_mono [OF y(1)]) simp
  finally have 1: "1 / 2 ^ 20 \<le> x" using h(1) by (rule order_trans)
  have "y * (1 + 1 / 2 ^ 24) ^ 8 \<le> 2 ^ 63 * (1 + 1 / 2 ^ 24) ^ 8" by (rule mult_right_mono [OF y(2)]) simp
  also have "\<dots> \<le> (2 ^ 64 :: rat)" by (simp add: power_divide)
  finally have 2: "x \<le> 2 ^ 64" using h(2) by (rule order_trans [rotated])
  note b = float_ok_bounds [OF fl 1 2]
  have "y * (1 - 1 / 2 ^ 24) ^ n * (1 - 1 / 2 ^ 24) \<le> x * (1 - 1 / 2 ^ 24)"
    using x by (intro mult_right_mono) (simp_all add: app_def)
  moreover have "x * (1 + 1 / 2 ^ 24) \<le> y * (1 + 1 / 2 ^ 24) ^ n * (1 + 1 / 2 ^ 24)"
    using x by (intro mult_right_mono) (simp_all add: app_def)
  ultimately show ?thesis using x b unfolding app_def by (simp only: power_Suc2 mult.assoc) (meson order_trans)
qed

lemma app_6:
  assumes "app 6 x y"
  shows "y * (1 - 1 / 2 ^ 20) \<le> x" "x \<le> y * (1 + 1 / 2 ^ 20)"
proof -
  have y: "0 \<le> y" using assms by (simp add: app_def)
  have "y * (1 - 1 / 2 ^ 20) \<le> y * (1 - 1 / 2 ^ 24) ^ 6" by (rule mult_left_mono [OF _ y]) (simp add: power_divide)
  then show "y * (1 - 1 / 2 ^ 20) \<le> x" using assms by (simp only: app_def) (meson order_trans)
  have "y * (1 + 1 / 2 ^ 24) ^ 6 \<le> y * (1 + 1 / 2 ^ 20)" by (rule mult_left_mono [OF _ y]) (simp add: power_divide)
  then show "x \<le> y * (1 + 1 / 2 ^ 20)" using assms by (simp only: app_def) (meson order_trans)
qed

subsection \<open>Angles in the cycle\<close>

lemma fixAngle_up_returns:
  assumes fl: "mono fl" "float_ok fl" and n: "0 < n" "n \<le> 1000"
  shows "of_int (- i) \<le> x \<Longrightarrow> 0 \<le> i \<Longrightarrow> i \<le> 10000000 \<Longrightarrow>
    \<exists>a. fixAngle_up fl (of_int n) x = Some a \<and> 0 \<le> a \<and> (a \<le> x \<or> a \<le> of_int n)"
proof (induction "nat i" arbitrary: i x rule: less_induct)
  case less
  show ?case
  proof (cases "x < 0")
    case True
    have "of_int (n - i) \<le> x + of_int n" "x + of_int n \<le> of_int n" using less.prems True by simp_all
    moreover have "\<bar>n - i\<bar> \<le> 2 ^ 24" "\<bar>n\<bar> \<le> 2 ^ 24" using less.prems n by simp_all
    ultimately have y: "of_int (n - i) \<le> fl (x + of_int n)" "fl (x + of_int n) \<le> of_int n"
      using round_between [OF fl] by blast+
    have "0 < i" using less.prems True by (cases "i = 0") simp_all
    then have "nat (max 0 (i - n)) < nat i" "0 \<le> max 0 (i - n)" "max 0 (i - n) \<le> 10000000" using n less.prems by simp_all
    moreover have "of_int (- max 0 (i - n)) \<le> fl (x + of_int n) \<or> 0 \<le> fl (x + of_int n)" using y(1) by (cases "n \<le> i") simp_all
    ultimately have "\<exists>a. fixAngle_up fl (of_int n) (fl (x + of_int n)) = Some a \<and> 0 \<le> a \<and> (a \<le> fl (x + of_int n) \<or> a \<le> of_int n)"
      using less.hyps [of "max 0 (i - n)" "fl (x + of_int n)"] by (auto simp: fixAngle_up.simps [of fl "of_int n" "fl (x + of_int n)"])
    then show ?thesis using True y(2) by (subst fixAngle_up.simps) force
  qed (subst fixAngle_up.simps, simp)
qed

lemma fixAngle_down_returns:
  assumes fl: "mono fl" "float_ok fl" and n: "0 < n" "n \<le> 1000"
  shows "0 \<le> x \<Longrightarrow> x \<le> of_int i \<Longrightarrow> 0 \<le> i \<Longrightarrow> i \<le> 10000000 \<Longrightarrow>
    \<exists>a. fixAngle_down fl (of_int n) x = Some a \<and> 0 \<le> a \<and> a < of_int n"
proof (induction "nat i" arbitrary: i x rule: less_induct)
  case less
  show ?case
  proof (cases "of_int n \<le> x")
    case True
    have "(of_int n :: rat) \<le> of_int i" using True less.prems(2) by (rule order_trans)
    then have i: "n \<le> i" by simp
    have "of_int 0 \<le> x - of_int n" "x - of_int n \<le> of_int (i - n)" using less.prems True by simp_all
    moreover have "\<bar>i - n\<bar> \<le> 2 ^ 24" using less.prems n by simp
    ultimately have y: "of_int 0 \<le> fl (x - of_int n)" "fl (x - of_int n) \<le> of_int (i - n)"
      using round_between [OF fl, of 0 "x - of_int n" "i - n"] by simp_all
    have "nat (i - n) < nat i" using n i by simp
    from less.hyps [OF this, of "fl (x - of_int n)"] y i n less.prems show ?thesis
      using True by (subst fixAngle_down.simps) simp
  qed (subst fixAngle_down.simps, use less.prems in simp)
qed

lemma fixAngle2_range:
  assumes "mono fl" "float_ok fl" "0 < n" "n \<le> 1000"
  shows "\<exists>a. fixAngle2 fl x n = Some a \<and> 0 \<le> a \<and> a < of_nat n"
proof -
  let ?x = "assertAngleRange (case x of None \<Rightarrow> 0 | Some a \<Rightarrow> a)"
  have x: "of_int (- 10000000) \<le> ?x" "?x \<le> of_int 10000000" by (simp_all add: assertAngleRange_def split: option.splits)
  have n: "0 < int n" "int n \<le> 1000" using assms(3,4) by simp_all
  from fixAngle_up_returns [OF assms(1,2) n x(1)] obtain a where
    a: "fixAngle_up fl (of_nat n) ?x = Some a" "0 \<le> a" "a \<le> ?x \<or> a \<le> of_nat n" by auto
  have "a \<le> of_int 10000000" using a(3) x(2) assms(4) by (auto intro: order_trans)
  from fixAngle_down_returns [OF assms(1,2) n a(2) this] a(1) show ?thesis by (simp add: fixAngle2_def Let_def)
qed

text \<open>
  \<open>fixAngle2\<close> returns, in the cycle. For every input, NaN and infinities included, and any monotone rounding to
  single precision that is exact on whole numbers up to \<open>2 ^ 24\<close>, both loops end and the angle is at least 0
  and less than the engine cycle.
\<close>

theorem fixAngle2_returns:
  assumes "mono fl" "float_ok fl" "0 < n" "n \<le> 1000"
  shows "\<exists>a. fixAngle2 fl x n = Some a \<and> 0 \<le> a \<and> a < of_nat n"
  by (rule fixAngle2_range [OF assms])

theorem fixAngle2_returns_witness:
  "\<exists>a. fixAngle2 id (Some (- 1000)) 720 = Some a \<and> 0 \<le> a \<and> a < 720"
  using fixAngle2_returns [of id 720 "Some (- 1000)"] float_ok_id by (simp add: monoI)

end
