(* ===== verification/Trigger_Makes.thy ===== *)
theory Trigger_Makes
  imports Trigger_Shape
begin

text \<open>
  The trigger wheels of particular engines (src/firmware/controllers/trigger/decoders/trigger_*.cpp), and the
  choice of the wheel by \<open>initializeTriggerWaveform\<close> (trigger_structure.cpp). A constant that the
  code writes in double precision is rounded once, where it becomes a \<open>float\<close>. The channel of an event
  and the edge are those of the code; a run of \<open>addEvent720\<close> calls is one \<open>add720s\<close>.
\<close>

text \<open>The conversion of a \<open>float\<close> to \<open>int\<close> cuts towards zero.\<close>

definition c_int :: "float32 \<Rightarrow> int" where
  "c_int x = (if x < 0 then - \<lfloor>- x\<rfloor> else \<lfloor>x\<rfloor>)"

subsection \<open>Mazda (trigger\_mazda.cpp)\<close>

definition initializeMazdaMiataNaShape :: "rounding \<Rightarrow> trigger_waveform \<Rightarrow> trigger_waveform" where
  "initializeMazdaMiataNaShape fl s =
     (let s = initialize fl FOUR_STROKE_CAM_SENSOR s;
          s = setTriggerSynchronizationGap2 fl (fl (1493 / 1000 * fl (6 / 10))) (fl (1493 / 1000 * fl (13 / 10))) s;
          s = s\<lparr>useRiseEdge := False, bothFrontsRequired := True, tdcPosition := Some 294, isSynchronizationNeeded := True\<rparr>;
          s = add720s fl
                [(fl (52960405 / 1000000), T_SECONDARY, TV_RISE), (fl (122635956 / 1000000), T_SECONDARY, TV_FALL),
                 (fl (216897031 / 1000000), T_PRIMARY, TV_RISE), (fl (232640068 / 1000000), T_SECONDARY, TV_RISE),
                 (fl (288819688 / 1000000), T_PRIMARY, TV_FALL), (fl (302646323 / 1000000), T_SECONDARY, TV_FALL),
                 (fl (412448056 / 1000000), T_SECONDARY, TV_RISE), (fl (482816719 / 1000000), T_SECONDARY, TV_FALL),
                 (fl (577035495 / 1000000), T_PRIMARY, TV_RISE), (fl (592878113 / 1000000), T_SECONDARY, TV_RISE),
                 (fl (662899708 / 1000000), T_SECONDARY, TV_FALL), (720, T_PRIMARY, TV_FALL)] s
      in s\<lparr>useOnlyPrimaryForSync := True\<rparr>)"

definition initialize_Mazda_Engine_z5_Shape :: "rounding \<Rightarrow> trigger_waveform \<Rightarrow> trigger_waveform" where
  "initialize_Mazda_Engine_z5_Shape fl s =
     (let s = initialize fl FOUR_STROKE_CAM_SENSOR s;
          s = s\<lparr>useRiseEdge := False, tdcPosition := Some 0\<rparr>;
          s = setTriggerSynchronizationGap fl (fl (7 / 10)) s
      in add720s fl
           [(60, T_PRIMARY, TV_FALL), (180, T_PRIMARY, TV_RISE), (240, T_PRIMARY, TV_FALL), (360, T_PRIMARY, TV_RISE),
            (420, T_PRIMARY, TV_FALL), (540, T_PRIMARY, TV_RISE), (618, T_PRIMARY, TV_FALL), (720, T_PRIMARY, TV_RISE)] s)"

definition initializeMazdaMiataNb2Crank :: "rounding \<Rightarrow> trigger_waveform \<Rightarrow> trigger_waveform" where
  "initializeMazdaMiataNb2Crank fl s =
     (let s = initialize fl FOUR_STROKE_SYMMETRICAL_CRANK_SENSOR s;
          o_off = 40;
          s = s\<lparr>tdcPosition := Some (60 + 655)\<rparr>;
          s = setTriggerSynchronizationGap2 fl (fl (35 / 100)) (fl (98 / 100)) s;
          s = addEventAngle fl (fl (o_off + 56)) T_PRIMARY TV_FALL s;
          s = addEventAngle fl (fl (o_off + 60)) T_PRIMARY TV_RISE s;
          s = addEventAngle fl (fl (o_off + 136)) T_PRIMARY TV_FALL s
      in addEventAngle fl (fl (o_off + 140)) T_PRIMARY TV_RISE s)"

definition initializeMazdaMiataNb1ShapeWithOffset :: "rounding \<Rightarrow> float32 \<Rightarrow> trigger_waveform \<Rightarrow> trigger_waveform" where
  "initializeMazdaMiataNb1ShapeWithOffset fl offset s =
     (let s = initialize fl FOUR_STROKE_CAM_SENSOR s;
          s = setTriggerSynchronizationGap3 fl 0 (Some (fl (65 / 1000))) (fl (17 / 100)) s;
          s = s\<lparr>useRiseEdge := False, bothFrontsRequired := True, useOnlyPrimaryForSync := True\<rparr>
      in if \<not> gapBothDirections s = False then shape_report ''NB1 trigger measures on FALL events'' s
         else
           let s = s\<lparr>tdcPosition := Some 276\<rparr>
           in add720s fl
                [(20, T_PRIMARY, TV_FALL), (fl (offset + 66), T_SECONDARY, TV_RISE),
                 (fl (offset + 70), T_SECONDARY, TV_FALL), (fl (offset + 136), T_SECONDARY, TV_RISE),
                 (fl (offset + 140), T_SECONDARY, TV_FALL), (fl (offset + 246), T_SECONDARY, TV_RISE),
                 (fl (offset + 250), T_SECONDARY, TV_FALL), (fl (offset + 316), T_SECONDARY, TV_RISE),
                 (fl (offset + 320), T_SECONDARY, TV_FALL), (340, T_PRIMARY, TV_RISE), (360, T_PRIMARY, TV_FALL),
                 (380, T_PRIMARY, TV_RISE), (400, T_PRIMARY, TV_FALL), (fl (offset + 426), T_SECONDARY, TV_RISE),
                 (fl (offset + 430), T_SECONDARY, TV_FALL), (fl (offset + 496), T_SECONDARY, TV_RISE),
                 (fl (offset + 500), T_SECONDARY, TV_FALL), (fl (offset + 606), T_SECONDARY, TV_RISE),
                 (fl (offset + 610), T_SECONDARY, TV_FALL), (fl (offset + 676), T_SECONDARY, TV_RISE),
                 (fl (offset + 680), T_SECONDARY, TV_FALL), (720, T_PRIMARY, TV_RISE)] s)"

definition initializeMazdaMiataNb1Shape :: "rounding \<Rightarrow> trigger_waveform \<Rightarrow> trigger_waveform" where
  "initializeMazdaMiataNb1Shape fl s = initializeMazdaMiataNb1ShapeWithOffset fl 0 s"

definition initializeMazdaMiataVVtTestShape :: "rounding \<Rightarrow> trigger_waveform \<Rightarrow> trigger_waveform" where
  "initializeMazdaMiataVVtTestShape fl s = initializeMazdaMiataNb1ShapeWithOffset fl (-22) s"

definition configureMazdaProtegeSOHC :: "rounding \<Rightarrow> trigger_waveform \<Rightarrow> trigger_waveform" where
  "configureMazdaProtegeSOHC fl s =
     (let s = initialize fl FOUR_STROKE_CAM_SENSOR s;
          s = s\<lparr>bothFrontsRequired := True\<rparr>;
          z = fl (93 / 1000);
          a = 180;
          s = add720s fl [(fl (a - fl (z * 720)), T_PRIMARY, TV_RISE), (a, T_PRIMARY, TV_FALL)] s;
          a = fl (a + 180);
          s = add720s fl [(fl (a - fl (z * 720)), T_PRIMARY, TV_RISE), (a, T_PRIMARY, TV_FALL)] s;
          a = fl (a + 180);
          s = add720s fl [(fl (a - fl (z * 720)), T_PRIMARY, TV_RISE), (a, T_PRIMARY, TV_FALL)] s;
          a = fl (a + 180);
          s = add720s fl [(fl (a - fl (z * 720)), T_PRIMARY, TV_RISE), (a, T_PRIMARY, TV_FALL)] s
      in s\<lparr>isSynchronizationNeeded := False, shapeWithoutTdc := True\<rparr>)"

definition configureMazdaProtegeLx :: "rounding \<Rightarrow> trigger_waveform \<Rightarrow> trigger_waveform" where
  "configureMazdaProtegeLx fl s =
     (let s = initialize fl FOUR_STROKE_CAM_SENSOR s;
          s = s\<lparr>useOnlyPrimaryForSync := True\<rparr>;
          s = add720s fl
                [(fl (95329254 / 1000000), T_PRIMARY, TV_RISE),
                 (fl (95329254 / 1000000 + 14876692 / 1000000), T_SECONDARY, TV_RISE),
                 (fl (95329254 / 1000000 + 82693557 / 1000000), T_SECONDARY, TV_FALL),
                 (fl (95329254 / 1000000 + 137119154 / 1000000), T_PRIMARY, TV_FALL),
                 (fl (95329254 / 1000000 + 192378308 / 1000000), T_SECONDARY, TV_RISE),
                 (fl (95329254 / 1000000 + 261556418 / 1000000), T_SECONDARY, TV_FALL),
                 (fl (95329254 / 1000000 + 373060597 / 1000000), T_SECONDARY, TV_RISE),
                 (fl (95329254 / 1000000 + 443503184 / 1000000), T_SECONDARY, TV_FALL),
                 (fl (95329254 / 1000000 + 555349776 / 1000000), T_SECONDARY, TV_RISE), (720, T_SECONDARY, TV_FALL)] s
      in s\<lparr>tdcPosition := Some (fl (137119154 / 1000000)), isSynchronizationNeeded := False\<rparr>)"

definition initializeMazdaMiataVVtCamShape :: "rounding \<Rightarrow> trigger_waveform \<Rightarrow> trigger_waveform" where
  "initializeMazdaMiataVVtCamShape fl s =
     (let s = initialize fl FOUR_STROKE_CAM_SENSOR s;
          s = setTriggerSynchronizationGap2 fl (fl (85 / 10 * (75 / 100))) 14 s
      in add720s fl
           [(325, T_PRIMARY, TV_FALL), (360, T_PRIMARY, TV_RISE), (641, T_PRIMARY, TV_FALL), (677, T_PRIMARY, TV_RISE),
            (700, T_PRIMARY, TV_FALL), (720, T_PRIMARY, TV_RISE)] s)"

subsection \<open>Renix (trigger\_renix.cpp)\<close>

text \<open>
  The loop that adds a tooth and its gap \<open>k\<close> times, and moves the angle by a tooth each time.
\<close>

definition renix_teeth :: "rounding \<Rightarrow> float32 \<Rightarrow> nat \<Rightarrow> trigger_waveform \<times> float32 \<Rightarrow> trigger_waveform \<times> float32" where
  "renix_teeth fl tooth k = fold (\<lambda>i (s, currentAngle).
     let s = addEventAngle fl (fl (currentAngle + fl (tooth / 2))) T_PRIMARY TV_RISE s;
         s = addEventAngle fl (fl (currentAngle + tooth)) T_PRIMARY TV_FALL s
     in (s, fl (currentAngle + tooth))) [0..<k]"

definition commonRenix :: "rounding \<Rightarrow> trigger_waveform \<Rightarrow> trigger_waveform" where
  "commonRenix fl s =
     (let count = 22;
          tooth = fl (of_nat (getCycleDuration s) / count);
          (s, currentAngle) = renix_teeth fl tooth 20 (s, 0);
          s = addEventAngle fl (fl (currentAngle + tooth)) T_PRIMARY TV_RISE s
      in addEventAngle fl (of_nat (getCycleDuration s)) T_PRIMARY TV_FALL s)"

definition initializeRenix44_2_2 :: "rounding \<Rightarrow> trigger_waveform \<Rightarrow> trigger_waveform" where
  "initializeRenix44_2_2 fl s = commonRenix fl (initialize fl FOUR_STROKE_SYMMETRICAL_CRANK_SENSOR s)"

definition initializeRenix66_2_2 :: "rounding \<Rightarrow> trigger_waveform \<Rightarrow> trigger_waveform" where
  "initializeRenix66_2_2 fl s = commonRenix fl (initialize fl FOUR_STROKE_THREE_TIMES_CRANK_SENSOR s)"

subsection \<open>Chrysler and Jeep (trigger\_chrysler.cpp)\<close>

definition initDodgeRam :: "rounding \<Rightarrow> trigger_waveform \<Rightarrow> trigger_waveform" where
  "initDodgeRam fl s =
     (let s = initialize fl FOUR_STROKE_CAM_SENSOR s;
          s = s\<lparr>useRiseEdge := True, isSynchronizationNeeded := False\<rparr>;
          s = addSkippedToothTriggerEvents fl T_SECONDARY 8 0 (fl (6 / 100)) (- 25) 360 0 720 s;
          s = addEvent720 fl 360 T_PRIMARY TV_RISE s;
          s = addSkippedToothTriggerEvents fl T_SECONDARY 8 0 (fl (6 / 100)) (360 - 25) 360 0 720 s;
          s = addEvent720 fl 720 T_PRIMARY TV_FALL s
      in s\<lparr>useOnlyPrimaryForSync := True\<rparr>)"

definition CRANK_MODE_MULTIPLIER :: float32 where "CRANK_MODE_MULTIPLIER = 2"

definition configureNeon2003TriggerWaveformCrank :: "rounding \<Rightarrow> trigger_waveform \<Rightarrow> trigger_waveform" where
  "configureNeon2003TriggerWaveformCrank fl s =
     (let s = initialize fl FOUR_STROKE_CRANK_SENSOR s;
          s = s\<lparr>useRiseEdge := True\<rparr>;
          s = setTriggerSynchronizationGap fl 3 s;
          m = of_int \<lfloor>CRANK_MODE_MULTIPLIER\<rfloor>
      in add720s fl
           [(m * 25, T_PRIMARY, TV_FALL), (m * 30, T_PRIMARY, TV_RISE), (m * 35, T_PRIMARY, TV_FALL),
            (m * 40, T_PRIMARY, TV_RISE), (m * 45, T_PRIMARY, TV_FALL), (m * 50, T_PRIMARY, TV_RISE),
            (m * 55, T_PRIMARY, TV_FALL), (m * 60, T_PRIMARY, TV_RISE), (m * 65, T_PRIMARY, TV_FALL),
            (m * 70, T_PRIMARY, TV_RISE), (m * 75, T_PRIMARY, TV_FALL), (m * 80, T_PRIMARY, TV_RISE),
            (m * 85, T_PRIMARY, TV_FALL), (m * 90, T_PRIMARY, TV_RISE), (m * 95, T_PRIMARY, TV_FALL),
            (m * 100, T_PRIMARY, TV_RISE), (m * 105, T_PRIMARY, TV_FALL), (m * 110, T_PRIMARY, TV_RISE),
            (m * 115, T_PRIMARY, TV_FALL), (m * 120, T_PRIMARY, TV_RISE), (m * 125, T_PRIMARY, TV_FALL),
            (m * 130, T_PRIMARY, TV_RISE), (m * 135, T_PRIMARY, TV_FALL), (m * 140, T_PRIMARY, TV_RISE),
            (m * 145, T_PRIMARY, TV_FALL), (m * 150, T_PRIMARY, TV_RISE), (m * 155, T_PRIMARY, TV_FALL),
            (m * 160, T_PRIMARY, TV_RISE), (m * 165, T_PRIMARY, TV_FALL), (m * 170, T_PRIMARY, TV_RISE),
            (m * 175, T_PRIMARY, TV_FALL), (m * 180, T_PRIMARY, TV_RISE), (m * 185, T_PRIMARY, TV_FALL),
            (m * 210, T_PRIMARY, TV_RISE), (m * 215, T_PRIMARY, TV_FALL), (m * 220, T_PRIMARY, TV_RISE),
            (m * 225, T_PRIMARY, TV_FALL), (m * 230, T_PRIMARY, TV_RISE), (m * 235, T_PRIMARY, TV_FALL),
            (m * 240, T_PRIMARY, TV_RISE), (m * 245, T_PRIMARY, TV_FALL), (m * 250, T_PRIMARY, TV_RISE),
            (m * 255, T_PRIMARY, TV_FALL), (m * 260, T_PRIMARY, TV_RISE), (m * 265, T_PRIMARY, TV_FALL),
            (m * 270, T_PRIMARY, TV_RISE), (m * 275, T_PRIMARY, TV_FALL), (m * 280, T_PRIMARY, TV_RISE),
            (m * 285, T_PRIMARY, TV_FALL), (m * 290, T_PRIMARY, TV_RISE), (m * 295, T_PRIMARY, TV_FALL),
            (m * 300, T_PRIMARY, TV_RISE), (m * 305, T_PRIMARY, TV_FALL), (m * 310, T_PRIMARY, TV_RISE),
            (m * 315, T_PRIMARY, TV_FALL), (m * 320, T_PRIMARY, TV_RISE), (m * 325, T_PRIMARY, TV_FALL),
            (m * 330, T_PRIMARY, TV_RISE), (m * 335, T_PRIMARY, TV_FALL), (m * 340, T_PRIMARY, TV_RISE),
            (m * 345, T_PRIMARY, TV_FALL), (m * 350, T_PRIMARY, TV_RISE), (m * 355, T_PRIMARY, TV_FALL),
            (m * 360, T_PRIMARY, TV_RISE)] s)"

definition configureNeon2003TriggerWaveformCam :: "rounding \<Rightarrow> trigger_waveform \<Rightarrow> trigger_waveform" where
  "configureNeon2003TriggerWaveformCam fl s =
     (let useOnlyPrimary = True;
          s = initialize fl FOUR_STROKE_CAM_SENSOR s;
          s = s\<lparr>useRiseEdge := True, tdcPosition := Some 496\<rparr>;
          s = setTriggerSynchronizationGap2 fl (fl (75 / 100)) (fl (15 / 10)) s;
          s = setTriggerSynchronizationGap3 fl 1 (Some (fl (65 / 100))) (fl (125 / 100)) s;
          EPS_ANGLE = fl (3 / 10);
          s = s\<lparr>useOnlyPrimaryForSync := True\<rparr>
      in if useOnlyPrimary
         then add720s fl
                [(144, T_PRIMARY, TV_RISE), (180, T_PRIMARY, TV_FALL), (216, T_PRIMARY, TV_RISE),
                 (252, T_PRIMARY, TV_FALL), (288, T_PRIMARY, TV_RISE), (324, T_PRIMARY, TV_FALL),
                 (360, T_PRIMARY, TV_RISE), (504, T_PRIMARY, TV_FALL), (540, T_PRIMARY, TV_RISE),
                 (576, T_PRIMARY, TV_FALL), (612, T_PRIMARY, TV_RISE), (648, T_PRIMARY, TV_FALL),
                 (684, T_PRIMARY, TV_RISE), (720, T_PRIMARY, TV_FALL)] s
         else add720s fl
                [(25, T_SECONDARY, TV_FALL), (30, T_SECONDARY, TV_RISE), (35, T_SECONDARY, TV_FALL),
                 (40, T_SECONDARY, TV_RISE), (45, T_SECONDARY, TV_FALL), (50, T_SECONDARY, TV_RISE),
                 (55, T_SECONDARY, TV_FALL), (60, T_SECONDARY, TV_RISE), (65, T_SECONDARY, TV_FALL),
                 (70, T_SECONDARY, TV_RISE), (75, T_SECONDARY, TV_FALL), (80, T_SECONDARY, TV_RISE),
                 (85, T_SECONDARY, TV_FALL), (90, T_SECONDARY, TV_RISE), (95, T_SECONDARY, TV_FALL),
                 (100, T_SECONDARY, TV_RISE), (105, T_SECONDARY, TV_FALL), (110, T_SECONDARY, TV_RISE),
                 (115, T_SECONDARY, TV_FALL), (120, T_SECONDARY, TV_RISE), (125, T_SECONDARY, TV_FALL),
                 (130, T_SECONDARY, TV_RISE), (135, T_SECONDARY, TV_FALL), (140, T_SECONDARY, TV_RISE),
                 (144, T_PRIMARY, TV_RISE), (145, T_SECONDARY, TV_FALL), (150, T_SECONDARY, TV_RISE),
                 (155, T_SECONDARY, TV_FALL), (160, T_SECONDARY, TV_RISE), (165, T_SECONDARY, TV_FALL),
                 (170, T_SECONDARY, TV_RISE), (175, T_SECONDARY, TV_FALL),
                 (fl (180 - EPS_ANGLE), T_SECONDARY, TV_RISE), (180, T_PRIMARY, TV_FALL), (185, T_SECONDARY, TV_FALL),
                 (210, T_SECONDARY, TV_RISE), (215, T_SECONDARY, TV_FALL), (216, T_PRIMARY, TV_RISE),
                 (220, T_SECONDARY, TV_RISE), (225, T_SECONDARY, TV_FALL), (230, T_SECONDARY, TV_RISE),
                 (235, T_SECONDARY, TV_FALL), (240, T_SECONDARY, TV_RISE), (245, T_SECONDARY, TV_FALL),
                 (250, T_SECONDARY, TV_RISE), (252, T_PRIMARY, TV_FALL), (255, T_SECONDARY, TV_FALL),
                 (260, T_SECONDARY, TV_RISE), (265, T_SECONDARY, TV_FALL), (270, T_SECONDARY, TV_RISE),
                 (275, T_SECONDARY, TV_FALL), (280, T_SECONDARY, TV_RISE), (285, T_SECONDARY, TV_FALL),
                 (288, T_PRIMARY, TV_RISE), (290, T_SECONDARY, TV_RISE), (295, T_SECONDARY, TV_FALL),
                 (300, T_SECONDARY, TV_RISE), (305, T_SECONDARY, TV_FALL), (310, T_SECONDARY, TV_RISE),
                 (315, T_SECONDARY, TV_FALL), (320, T_SECONDARY, TV_RISE), (324, T_PRIMARY, TV_FALL),
                 (325, T_SECONDARY, TV_FALL), (330, T_SECONDARY, TV_RISE), (335, T_SECONDARY, TV_FALL),
                 (340, T_SECONDARY, TV_RISE), (345, T_SECONDARY, TV_FALL), (350, T_SECONDARY, TV_RISE),
                 (355, T_SECONDARY, TV_FALL), (fl (360 - EPS_ANGLE), T_SECONDARY, TV_RISE), (360, T_PRIMARY, TV_RISE),
                 (385, T_SECONDARY, TV_FALL), (390, T_SECONDARY, TV_RISE), (395, T_SECONDARY, TV_FALL),
                 (400, T_SECONDARY, TV_RISE), (405, T_SECONDARY, TV_FALL), (410, T_SECONDARY, TV_RISE),
                 (415, T_SECONDARY, TV_FALL), (420, T_SECONDARY, TV_RISE), (425, T_SECONDARY, TV_FALL),
                 (430, T_SECONDARY, TV_RISE), (435, T_SECONDARY, TV_FALL), (440, T_SECONDARY, TV_RISE),
                 (445, T_SECONDARY, TV_FALL), (450, T_SECONDARY, TV_RISE), (455, T_SECONDARY, TV_FALL),
                 (460, T_SECONDARY, TV_RISE), (465, T_SECONDARY, TV_FALL), (470, T_SECONDARY, TV_RISE),
                 (475, T_SECONDARY, TV_FALL), (480, T_SECONDARY, TV_RISE), (485, T_SECONDARY, TV_FALL),
                 (490, T_SECONDARY, TV_RISE), (495, T_SECONDARY, TV_FALL), (500, T_SECONDARY, TV_RISE),
                 (504, T_PRIMARY, TV_FALL), (505, T_SECONDARY, TV_FALL), (510, T_SECONDARY, TV_RISE),
                 (515, T_SECONDARY, TV_FALL), (520, T_SECONDARY, TV_RISE), (525, T_SECONDARY, TV_FALL),
                 (530, T_SECONDARY, TV_RISE), (535, T_SECONDARY, TV_FALL),
                 (fl (540 - EPS_ANGLE), T_SECONDARY, TV_RISE), (540, T_PRIMARY, TV_RISE), (545, T_SECONDARY, TV_FALL),
                 (570, T_SECONDARY, TV_RISE), (575, T_SECONDARY, TV_FALL), (576, T_PRIMARY, TV_FALL),
                 (580, T_SECONDARY, TV_RISE), (585, T_SECONDARY, TV_FALL), (590, T_SECONDARY, TV_RISE),
                 (595, T_SECONDARY, TV_FALL), (600, T_SECONDARY, TV_RISE), (605, T_SECONDARY, TV_FALL),
                 (610, T_SECONDARY, TV_RISE), (612, T_PRIMARY, TV_RISE), (615, T_SECONDARY, TV_FALL),
                 (620, T_SECONDARY, TV_RISE), (625, T_SECONDARY, TV_FALL), (630, T_SECONDARY, TV_RISE),
                 (635, T_SECONDARY, TV_FALL), (640, T_SECONDARY, TV_RISE), (645, T_SECONDARY, TV_FALL),
                 (648, T_PRIMARY, TV_FALL), (650, T_SECONDARY, TV_RISE), (655, T_SECONDARY, TV_FALL),
                 (660, T_SECONDARY, TV_RISE), (665, T_SECONDARY, TV_FALL), (670, T_SECONDARY, TV_RISE),
                 (675, T_SECONDARY, TV_FALL), (680, T_SECONDARY, TV_RISE), (684, T_PRIMARY, TV_RISE),
                 (685, T_SECONDARY, TV_FALL), (690, T_SECONDARY, TV_RISE), (695, T_SECONDARY, TV_FALL),
                 (700, T_SECONDARY, TV_RISE), (705, T_SECONDARY, TV_FALL), (710, T_SECONDARY, TV_RISE),
                 (715, T_SECONDARY, TV_FALL), (fl (720 - EPS_ANGLE), T_SECONDARY, TV_RISE), (720, T_PRIMARY, TV_FALL)] s)"

definition configureDodgeStratusTriggerWaveform :: "rounding \<Rightarrow> trigger_waveform \<Rightarrow> trigger_waveform" where
  "configureDodgeStratusTriggerWaveform fl s =
     (let s = initialize fl FOUR_STROKE_CAM_SENSOR s;
          s = s\<lparr>isSynchronizationNeeded := True, tdcPosition := Some 150\<rparr>;
          w = 7; g = 20;
          s = setTriggerSynchronizationGap2 fl (fl (15 / 10 - 25 / 100)) (fl (15 / 10 + 4 / 10)) s;
          base = 0;
          angle = fl (base + 120 - w);
          s = add720s fl [(angle, T_PRIMARY, TV_RISE), (fl (angle + w), T_PRIMARY, TV_FALL)] s;
          angle = fl (angle + g);
          s = add720s fl [(angle, T_PRIMARY, TV_RISE), (fl (angle + w), T_PRIMARY, TV_FALL)] s;
          base = fl (base + 120);
          angle = fl (base + 120 - w);
          s = add720s fl [(angle, T_PRIMARY, TV_RISE), (fl (angle + w), T_PRIMARY, TV_FALL)] s;
          angle = fl (angle + g);
          s = add720s fl [(angle, T_PRIMARY, TV_RISE), (fl (angle + w), T_PRIMARY, TV_FALL)] s;
          angle = fl (angle + g);
          s = add720s fl [(angle, T_PRIMARY, TV_RISE), (fl (angle + w), T_PRIMARY, TV_FALL)] s;
          base = fl (base + 120);
          angle = fl (base + 120 - w);
          s = add720s fl [(angle, T_PRIMARY, TV_RISE), (fl (angle + w), T_PRIMARY, TV_FALL)] s;
          angle = fl (angle + g);
          s = add720s fl [(angle, T_PRIMARY, TV_RISE), (fl (angle + w), T_PRIMARY, TV_FALL)] s;
          base = fl (base + 120);
          angle = fl (base + 120 - w);
          s = add720s fl [(angle, T_PRIMARY, TV_RISE), (fl (angle + w), T_PRIMARY, TV_FALL)] s;
          base = fl (base + 120);
          angle = fl (base + 120 - w);
          s = add720s fl [(angle, T_PRIMARY, TV_RISE), (fl (angle + w), T_PRIMARY, TV_FALL)] s;
          angle = fl (angle + g);
          s = add720s fl [(angle, T_PRIMARY, TV_RISE), (fl (angle + w), T_PRIMARY, TV_FALL)] s;
          angle = fl (angle + g);
          s = add720s fl [(angle, T_PRIMARY, TV_RISE), (fl (angle + w), T_PRIMARY, TV_FALL)] s;
          base = fl (base + 120);
          angle = fl (base + 120 - w);
          s = add720s fl [(angle, T_PRIMARY, TV_RISE), (fl (angle + w), T_PRIMARY, TV_FALL)] s
      in s)"

definition configureNeon1995TriggerWaveformCommon :: "rounding \<Rightarrow> bool \<Rightarrow> trigger_waveform \<Rightarrow> trigger_waveform" where
  "configureNeon1995TriggerWaveformCommon fl withCam s =
     (let crank = (if withCam then T_SECONDARY else T_PRIMARY);
          base = (if withCam then 720 - 560 else 360 - 135) :: int;
          m = (if withCam then 1 else 2);
          s = add720s fl
                [(fl (m * of_int (base - 120)), crank, TV_RISE), (fl (m * of_int (base - 116)), crank, TV_FALL),
                 (fl (m * of_int (base - 720 + 616)), crank, TV_RISE), (fl (m * of_int (base - 100)), crank, TV_FALL),
                 (fl (m * of_int (base - 720 + 643)), crank, TV_RISE),
                 (fl (m * of_int (base - 720 + 648)), crank, TV_FALL),
                 (fl (m * of_int (base - 720 + 671)), crank, TV_RISE), (fl (m * of_int (base - 44)), crank, TV_FALL)] s;
          s = (if withCam then addEvent720 fl (of_int (base + 0)) T_PRIMARY TV_FALL s else s);
          s = add720s fl
                [(fl (m * of_int (base + 20)), crank, TV_RISE), (fl (m * of_int (base + 60)), crank, TV_FALL),
                 (fl (m * of_int (base + 75)), crank, TV_RISE), (fl (m * of_int (base + 79)), crank, TV_FALL),
                 (fl (m * of_int (base + 101)), crank, TV_RISE), (fl (m * of_int (base + 106)), crank, TV_FALL),
                 (fl (m * of_int (base + 130)), crank, TV_RISE), (fl (m * of_int (base + 135)), crank, TV_FALL)] s
      in if withCam
         then add720s fl
                [(of_int (base + 200), T_PRIMARY, TV_RISE), (of_int (base + 236), crank, TV_RISE),
                 (of_int (base + 239), crank, TV_FALL), (of_int (base + 250), crank, TV_RISE),
                 (of_int (base + 255), crank, TV_FALL), (of_int (base + 277), crank, TV_RISE),
                 (of_int (base + 282), crank, TV_FALL), (of_int (base + 305), crank, TV_RISE),
                 (of_int (base + 310), crank, TV_FALL), (of_int (base + 374), crank, TV_RISE),
                 (of_int (base + 395), T_PRIMARY, TV_FALL), (of_int (base + 418), crank, TV_FALL),
                 (of_int (base + 436), crank, TV_RISE), (of_int (base + 441), crank, TV_FALL),
                 (of_int (base + 463), crank, TV_RISE), (of_int (base + 468), crank, TV_FALL),
                 (of_int (base + 492), crank, TV_RISE), (of_int (base + 497), crank, TV_FALL),
                 (of_int (base + 560), T_PRIMARY, TV_RISE)] s
         else s)"

definition configureNeon1995TriggerWaveformOnlyCrank :: "rounding \<Rightarrow> trigger_waveform \<Rightarrow> trigger_waveform" where
  "configureNeon1995TriggerWaveformOnlyCrank fl s =
     (let s = initialize fl FOUR_STROKE_CRANK_SENSOR s;
          s = setTriggerSynchronizationGap fl (fl (379 / 100)) s;
          s = s\<lparr>tdcPosition := Some 279\<rparr>
      in configureNeon1995TriggerWaveformCommon fl False s)"

definition configureNeon1995TriggerWaveform :: "rounding \<Rightarrow> trigger_waveform \<Rightarrow> trigger_waveform" where
  "configureNeon1995TriggerWaveform fl s =
     (let s = initialize fl FOUR_STROKE_CAM_SENSOR s;
          s = setTriggerSynchronizationGap fl (fl (8227 / 10000)) s;
          s = s\<lparr>useRiseEdge := False, initialState := (initialState s)[wheel_index T_PRIMARY := TV_RISE]\<rparr>;
          s = configureNeon1995TriggerWaveformCommon fl True s
      in s\<lparr>useOnlyPrimaryForSync := True\<rparr>)"

definition initJeep18_2_2_2 :: "rounding \<Rightarrow> trigger_waveform \<Rightarrow> trigger_waveform" where
  "initJeep18_2_2_2 fl s =
     (let s = initialize fl FOUR_STROKE_CAM_SENSOR s;
          s = s\<lparr>isSynchronizationNeeded := False, tdcPosition := Some 581\<rparr>;
          off = 212
      in add720s fl
           [(fl (534 - 720 + off), T_SECONDARY, TV_RISE), (fl (536 - 720 + off), T_SECONDARY, TV_FALL),
            (fl (554 - 720 + off), T_SECONDARY, TV_RISE), (fl (556 - 720 + off), T_SECONDARY, TV_FALL),
            (fl (574 - 720 + off), T_SECONDARY, TV_RISE), (fl (576 - 720 + off), T_SECONDARY, TV_FALL),
            (fl (594 - 720 + off), T_SECONDARY, TV_RISE), (fl (596 - 720 + off), T_SECONDARY, TV_FALL),
            (fl (654 - 720 + off), T_SECONDARY, TV_RISE), (fl (656 - 720 + off), T_SECONDARY, TV_FALL),
            (fl (674 - 720 + off), T_SECONDARY, TV_RISE), (fl (676 - 720 + off), T_SECONDARY, TV_FALL),
            (fl (694 - 720 + off), T_SECONDARY, TV_RISE), (fl (696 - 720 + off), T_SECONDARY, TV_FALL),
            (fl (714 - 720 + off), T_SECONDARY, TV_RISE), (fl (716 - 720 + off), T_SECONDARY, TV_FALL),
            (fl (54 + off), T_SECONDARY, TV_RISE), (fl (56 + off), T_SECONDARY, TV_FALL),
            (fl (74 + off), T_SECONDARY, TV_RISE), (fl (76 + off), T_SECONDARY, TV_FALL),
            (fl (94 + off), T_SECONDARY, TV_RISE), (fl (96 + off), T_SECONDARY, TV_FALL),
            (fl (114 + off), T_SECONDARY, TV_RISE), (fl (116 + off), T_SECONDARY, TV_FALL),
            (fl (148 + off), T_PRIMARY, TV_RISE), (fl (174 + off), T_SECONDARY, TV_RISE),
            (fl (176 + off), T_SECONDARY, TV_FALL), (fl (194 + off), T_SECONDARY, TV_RISE),
            (fl (196 + off), T_SECONDARY, TV_FALL), (fl (214 + off), T_SECONDARY, TV_RISE),
            (fl (216 + off), T_SECONDARY, TV_FALL), (fl (234 + off), T_SECONDARY, TV_RISE),
            (fl (236 + off), T_SECONDARY, TV_FALL), (fl (294 + off), T_SECONDARY, TV_RISE),
            (fl (296 + off), T_SECONDARY, TV_FALL), (fl (314 + off), T_SECONDARY, TV_RISE),
            (fl (316 + off), T_SECONDARY, TV_FALL), (fl (334 + off), T_SECONDARY, TV_RISE),
            (fl (336 + off), T_SECONDARY, TV_FALL), (fl (354 + off), T_SECONDARY, TV_RISE),
            (fl (356 + off), T_SECONDARY, TV_FALL), (fl (414 + off), T_SECONDARY, TV_RISE),
            (fl (416 + off), T_SECONDARY, TV_FALL), (fl (434 + off), T_SECONDARY, TV_RISE),
            (fl (436 + off), T_SECONDARY, TV_FALL), (fl (454 + off), T_SECONDARY, TV_RISE),
            (fl (456 + off), T_SECONDARY, TV_FALL), (fl (474 + off), T_SECONDARY, TV_RISE),
            (fl (476 + off), T_SECONDARY, TV_FALL), (fl (508 + off), T_PRIMARY, TV_FALL)] s)"

definition add4cylblock :: "rounding \<Rightarrow> int \<Rightarrow> trigger_waveform \<Rightarrow> trigger_waveform" where
  "add4cylblock fl off s =
     add720s fl
       [(of_int (114 + off), T_SECONDARY, TV_RISE), (of_int (114 + off + 2), T_SECONDARY, TV_FALL),
        (of_int (134 + off), T_SECONDARY, TV_RISE), (of_int (134 + off + 2), T_SECONDARY, TV_FALL),
        (of_int (154 + off), T_SECONDARY, TV_RISE), (of_int (154 + off + 2), T_SECONDARY, TV_FALL),
        (of_int (174 + off), T_SECONDARY, TV_RISE), (of_int (174 + off + 2), T_SECONDARY, TV_FALL)] s"

definition initJeep_XJ_4cyl_2500 :: "rounding \<Rightarrow> trigger_waveform \<Rightarrow> trigger_waveform" where
  "initJeep_XJ_4cyl_2500 fl s =
     (let s = initialize fl FOUR_STROKE_CAM_SENSOR s;
          s = s\<lparr>isSynchronizationNeeded := False, tdcPosition := Some (720 - 236)\<rparr>;
          offset = 124;
          s = add4cylblock fl (c_int (fl (offset - 180))) s;
          s = add4cylblock fl (c_int offset) s;
          s = addEvent720 fl (fl (236 + offset)) T_PRIMARY TV_RISE s;
          s = add4cylblock fl (c_int (fl (offset + 180))) s;
          s = add4cylblock fl (c_int (fl (offset + 360))) s
      in addEvent720 fl (fl (596 + offset)) T_PRIMARY TV_FALL s)"

subsection \<open>Ford and Mitsubishi (trigger\_mitsubishi.cpp)\<close>

definition configureFordAspireTriggerWaveform :: "rounding \<Rightarrow> trigger_waveform \<Rightarrow> trigger_waveform" where
  "configureFordAspireTriggerWaveform fl s =
     (let s = initialize fl FOUR_STROKE_CAM_SENSOR s;
          s = s\<lparr>isSynchronizationNeeded := False\<rparr>;
          x_off = fl (12190 / 100); y_off = fl (11086 / 100);
          s = add720s fl
                [(fl (fl (x_off + y_off) - 180), T_SECONDARY, TV_RISE), (x_off, T_SECONDARY, TV_FALL),
                 (fl (x_off + y_off), T_SECONDARY, TV_RISE), (fl (x_off + 180), T_SECONDARY, TV_FALL),
                 (360, T_PRIMARY, TV_RISE), (fl (fl (x_off + 180) + y_off), T_SECONDARY, TV_RISE),
                 (fl (x_off + 360), T_SECONDARY, TV_FALL), (fl (fl (x_off + 360) + y_off), T_SECONDARY, TV_RISE),
                 (fl (x_off + 540), T_SECONDARY, TV_FALL), (720, T_PRIMARY, TV_FALL)] s
      in s\<lparr>useOnlyPrimaryForSync := True\<rparr>)"

definition initializeMitsubishi4g18 :: "rounding \<Rightarrow> trigger_waveform \<Rightarrow> trigger_waveform" where
  "initializeMitsubishi4g18 fl s =
     (let s = initialize fl FOUR_STROKE_CAM_SENSOR s;
          s = s\<lparr>useRiseEdge := False\<rparr>;
          s = setTriggerSynchronizationGap fl (fl (16666 / 10000)) s;
          s = add720s fl
                [(fl (10677999999999997 / 100000000000000), T_PRIMARY, TV_FALL),
                 (fl (12009999999999998 / 100000000000000), T_SECONDARY, TV_RISE),
                 (fl (1880775 / 10000), T_SECONDARY, TV_FALL), (fl (28633 / 100), T_PRIMARY, TV_RISE),
                 (fl (298875 / 1000), T_SECONDARY, TV_RISE),
                 (fl (35491999999999996 / 100000000000000), T_PRIMARY, TV_FALL),
                 (fl (3666825 / 10000), T_SECONDARY, TV_FALL), (fl (47645 / 100), T_SECONDARY, TV_RISE),
                 (fl (5439749999999999 / 10000000000000), T_SECONDARY, TV_FALL),
                 (fl (63952 / 100), T_PRIMARY, TV_RISE), (fl (65315 / 100), T_SECONDARY, TV_RISE),
                 (720, T_SECONDARY, TV_FALL)] s
      in s\<lparr>useOnlyPrimaryForSync := True\<rparr>)"

subsection \<open>GM (trigger\_gm.cpp)\<close>

definition configureGmTriggerWaveform :: "rounding \<Rightarrow> trigger_waveform \<Rightarrow> trigger_waveform" where
  "configureGmTriggerWaveform fl s =
     (let s = initialize fl FOUR_STROKE_CRANK_SENSOR s;
          w = 10;
          m = CRANK_MODE_MULTIPLIER;
          s = add720s fl
                [(fl (fl (m * 60) - w), T_PRIMARY, TV_RISE), (fl (m * 60), T_PRIMARY, TV_FALL),
                 (fl (fl (m * 120) - w), T_PRIMARY, TV_RISE), (fl (m * 120), T_PRIMARY, TV_FALL),
                 (fl (fl (m * 180) - w), T_PRIMARY, TV_RISE), (fl (m * 180), T_PRIMARY, TV_FALL),
                 (fl (fl (m * 240) - w), T_PRIMARY, TV_RISE), (fl (m * 240), T_PRIMARY, TV_FALL),
                 (fl (fl (m * 300) - w), T_PRIMARY, TV_RISE), (fl (m * 300), T_PRIMARY, TV_FALL),
                 (fl (fl (m * 350) - w), T_PRIMARY, TV_RISE), (fl (m * 350), T_PRIMARY, TV_FALL),
                 (fl (fl (m * 360) - w), T_PRIMARY, TV_RISE), (fl (m * 360), T_PRIMARY, TV_FALL)] s
      in setTriggerSynchronizationGap fl 6 s)"

definition gm_tooth_pair ::
    "rounding \<Rightarrow> float32 \<Rightarrow> bool \<Rightarrow> trigger_waveform \<Rightarrow> int \<Rightarrow> trigger_waveform \<times> int" where
  "gm_tooth_pair fl startAngle isShortLong s mult =
     (let window = (if isShortLong then 5 else 10) * mult;
          end_angle = c_int (fl (startAngle + of_int (mult * 15)));
          s = addEvent720 fl (fl (startAngle + of_int window)) T_PRIMARY TV_RISE s;
          s = addEvent720 fl (of_int end_angle) T_PRIMARY TV_FALL s
      in (s, end_angle))"

fun gm_ls_loop :: "rounding \<Rightarrow> nat \<Rightarrow> u32 \<Rightarrow> int \<Rightarrow> trigger_waveform \<Rightarrow> trigger_waveform" where
  "gm_ls_loop fl 0 code angle s = s"
| "gm_ls_loop fl (Suc k) code angle s =
     (let bit_on = (code AND 0x000001 \<noteq> 0);
          code = drop_bit 1 code;
          (s, angle) = gm_tooth_pair fl (of_int angle) bit_on s \<lfloor>CRANK_MODE_MULTIPLIER\<rfloor>
      in gm_ls_loop fl k code angle s)"

definition initGmLS24 :: "rounding \<Rightarrow> trigger_waveform \<Rightarrow> trigger_waveform" where
  "initGmLS24 fl s =
     (let s = initialize fl FOUR_STROKE_CRANK_SENSOR s;
          code = 0x0A33BE;
          s = gm_ls_loop fl 24 code 0 s;
          s = s\<lparr>useOnlyPrimaryForSync := True\<rparr>;
          s = setTriggerSynchronizationGap fl 2 s;
          s = setSecondTriggerSynchronizationGap fl (fl (5 / 10)) s
      in setThirdTriggerSynchronizationGap fl 2 s)"

subsection \<open>Mini Cooper (trigger\_bmw.cpp)\<close>

definition addPair :: "rounding \<Rightarrow> trigger_waveform \<Rightarrow> float32 \<Rightarrow> float32 \<Rightarrow> trigger_waveform \<times> float32" where
  "addPair fl s a w =
     (let s = addEvent720 fl a T_SECONDARY TV_RISE s;
          a = fl (a + w);
          s = addEvent720 fl a T_SECONDARY TV_FALL s;
          a = fl (a + w)
      in (s, a))"

definition addPairs :: "rounding \<Rightarrow> float32 \<Rightarrow> nat \<Rightarrow> trigger_waveform \<times> float32 \<Rightarrow> trigger_waveform \<times> float32" where
  "addPairs fl w k = fold (\<lambda>i (s, a). addPair fl s a w) [0..<k]"

definition configureMiniCooperTriggerWaveform :: "rounding \<Rightarrow> trigger_waveform \<Rightarrow> trigger_waveform" where
  "configureMiniCooperTriggerWaveform fl s =
     (let s = initialize fl FOUR_STROKE_CAM_SENSOR s;
          w = fl (360 / 121);
          a = fl (w / 2);
          s = addEvent720 fl a T_SECONDARY TV_FALL s;
          a = fl (a + w);
          (s, a) = addPairs fl w 23 (s, a);
          a = fl (a + fl (3 * w));
          firstGapAngle = a;
          s = addEvent720 fl a T_SECONDARY TV_RISE s;
          a = fl (a + fl (3 * w));
          s = addEvent720 fl a T_SECONDARY TV_FALL s;
          a = fl (a + w);
          (s, a) = addPairs fl w 36 (s, a);
          s = addEvent720 fl 376 T_PRIMARY TV_RISE s;
          (s, a) = addPairs fl w 21 (s, a);
          a = fl (a + fl (3 * w))
      in if \<not> \<bar>fl (fl (firstGapAngle + 360) - a)\<bar> < 1 / 10 then shape_report ''shape constraint'' s
         else
           let s = addEvent720 fl a T_SECONDARY TV_RISE s;
               a = fl (a + fl (3 * w));
               s = addEvent720 fl a T_SECONDARY TV_FALL s;
               a = fl (a + w);
               (s, a) = addPairs fl w 33 (s, a)
           in if \<not> \<bar>fl (fl (720 - fl (w / 2)) - a)\<bar> < 1 / 10 then shape_report ''shape constraint'' s
              else
                let s = addEvent720 fl a T_SECONDARY TV_RISE s;
                    s = addEvent720 fl 720 T_PRIMARY TV_FALL s
                in s\<lparr>isSynchronizationNeeded := False, useOnlyPrimaryForSync := True\<rparr>)"

subsection \<open>Volkswagen (trigger\_vw.cpp)\<close>

definition setVwConfiguration :: "rounding \<Rightarrow> trigger_waveform \<Rightarrow> trigger_waveform" where
  "setVwConfiguration fl s =
     (let s = initialize fl FOUR_STROKE_CRANK_SENSOR s;
          s = s\<lparr>isSynchronizationNeeded := True\<rparr>;
          totalTeethCount = 60; skippedCount = 2;
          engineCycle = of_nat FOUR_STROKE_ENGINE_CYCLE;
          toothWidth = fl (5 / 10);
          s = addSkippedToothTriggerEvents fl T_PRIMARY 60 2 toothWidth 0 engineCycle NO_LEFT_FILTER 690 s;
          angleDown = fl (fl (engineCycle / of_int totalTeethCount) *
                          fl (of_int (totalTeethCount - skippedCount - 1) + fl (1 - toothWidth)));
          s = addEventClamped fl (fl (fl (0 + angleDown) + 12)) T_PRIMARY TV_RISE NO_LEFT_FILTER NO_RIGHT_FILTER s;
          s = addEventClamped fl (fl (0 + engineCycle)) T_PRIMARY TV_FALL NO_LEFT_FILTER NO_RIGHT_FILTER s
      in setTriggerSynchronizationGap2 fl (fl (16 / 10)) 4 s)"

subsection \<open>Honda (trigger\_honda.cpp)\<close>

definition S24 :: float32 where "S24 = 15"

definition addAccordPair ::
    "rounding \<Rightarrow> trigger_waveform \<Rightarrow> float32 \<Rightarrow> trigger_wheel_e \<Rightarrow> trigger_waveform \<times> float32" where
  "addAccordPair fl s sb channelIndex =
     (let s = addEvent720 fl sb channelIndex TV_RISE s;
          sb = fl (sb + S24);
          s = addEvent720 fl sb channelIndex TV_FALL s;
          sb = fl (sb + S24)
      in (s, sb))"

text \<open>A run of calls \<open>sb = addAccordPair(s, sb, T_SECONDARY)\<close>.\<close>

definition addAccordPairs :: "rounding \<Rightarrow> nat \<Rightarrow> trigger_waveform \<times> float32 \<Rightarrow> trigger_waveform \<times> float32" where
  "addAccordPairs fl k = fold (\<lambda>i (s, sb). addAccordPair fl s sb T_SECONDARY) [0..<k]"

definition DIP :: float32 where "DIP = 75 / 10"

definition addAccordPair3 :: "rounding \<Rightarrow> trigger_waveform \<Rightarrow> float32 \<Rightarrow> trigger_waveform \<times> float32" where
  "addAccordPair3 fl s sb =
     (let sb = fl (sb + DIP);
          s = addEvent720 fl sb T_CHANNEL_3 TV_RISE s;
          sb = fl (sb + DIP);
          s = addEvent720 fl sb T_CHANNEL_3 TV_FALL s;
          sb = fl (sb + 2 * DIP)
      in (s, sb))"

text \<open>The three calls of \<open>addAccordPair3\<close> of a quarter of a turn; the angle they return is not used.\<close>

definition addAccordPairs3 :: "rounding \<Rightarrow> float32 \<Rightarrow> trigger_waveform \<Rightarrow> trigger_waveform" where
  "addAccordPairs3 fl sb s =
     (let (s, sb) = addAccordPair3 fl s sb;
          (s, sb) = addAccordPair3 fl s sb;
          (s, sb) = addAccordPair3 fl s sb
      in s)"

definition configureHondaAccordCDDip :: "rounding \<Rightarrow> trigger_waveform \<Rightarrow> trigger_waveform" where
  "configureHondaAccordCDDip fl s =
     (let s = initialize fl FOUR_STROKE_CAM_SENSOR s;
          s = s\<lparr>initialState := (initialState s)[wheel_index T_SECONDARY := TV_RISE]\<rparr>;
          s = addAccordPairs3 fl 0 s;
          s = addEvent720 fl 90 T_SECONDARY TV_FALL s;
          s = addAccordPairs3 fl 90 s;
          s = addEvent720 fl 180 T_SECONDARY TV_RISE s;
          s = addAccordPairs3 fl 180 s;
          s = addEvent720 fl 270 T_SECONDARY TV_FALL s;
          s = addAccordPairs3 fl 270 s;
          s = addEvent720 fl (fl (360 - DIP)) T_PRIMARY TV_RISE s;
          s = addEvent720 fl 360 T_SECONDARY TV_RISE s;
          s = addAccordPairs3 fl 360 s;
          s = addEvent720 fl 450 T_SECONDARY TV_FALL s;
          s = addAccordPairs3 fl 450 s;
          s = addEvent720 fl 540 T_SECONDARY TV_RISE s;
          s = addAccordPairs3 fl 540 s;
          s = addEvent720 fl 630 T_SECONDARY TV_FALL s;
          s = addAccordPairs3 fl 630 s;
          s = addEvent720 fl (fl (720 - DIP)) T_PRIMARY TV_FALL s;
          s = addEvent720 fl 720 T_SECONDARY TV_RISE s
      in s\<lparr>isSynchronizationNeeded := False, useOnlyPrimaryForSync := True\<rparr>)"

definition event_if ::
    "rounding \<Rightarrow> bool \<Rightarrow> float32 \<Rightarrow> trigger_wheel_e \<Rightarrow> trigger_value_e \<Rightarrow> trigger_waveform \<Rightarrow> trigger_waveform" where
  "event_if fl b angle channel v s = (if b then addEvent720 fl angle channel v s else s)"

definition honda_quarter ::
    "rounding \<Rightarrow> bool \<Rightarrow> trigger_wheel_e \<Rightarrow> float32 \<Rightarrow> float32 \<Rightarrow> nat \<Rightarrow> trigger_waveform \<times> float32 \<Rightarrow> trigger_waveform \<times> float32" where
  "honda_quarter fl withFourEventSignal fourEventWave prfx tdcWidth i =
     (\<lambda>(s, sb).
        let s = event_if fl withFourEventSignal (fl (fl (fl (of_nat i * 180) + prfx) - tdcWidth)) fourEventWave TV_RISE s;
            (s, sb) = addAccordPair fl s sb T_SECONDARY;
            s = event_if fl withFourEventSignal (fl (fl (of_nat i * 180) + prfx)) fourEventWave TV_FALL s
        in (s, sb))"

definition configureHonda_1_4_24 ::
    "rounding \<Rightarrow> bool \<Rightarrow> bool \<Rightarrow> trigger_wheel_e \<Rightarrow> trigger_wheel_e \<Rightarrow> float32 \<Rightarrow> trigger_waveform \<Rightarrow> trigger_waveform" where
  "configureHonda_1_4_24 fl withOneEventSignal withFourEventSignal oneEventWave fourEventWave prfx s =
     (let s = initialize fl FOUR_STROKE_CAM_SENSOR s;
          sb = fl (5 + prfx);
          tdcWidth = fl (1854 / 10000 * 720 / 4);
          s = s\<lparr>isSynchronizationNeeded := False\<rparr>;
          (s, sb) = addAccordPair fl s sb T_SECONDARY;
          s = event_if fl withOneEventSignal (fl (sb - S24 / 2)) oneEventWave TV_RISE s;
          (s, sb) = addAccordPairs fl 2 (s, sb);
          s = event_if fl withOneEventSignal (fl (sb - S24 / 2)) oneEventWave TV_FALL s;
          (s, sb) = addAccordPairs fl 2 (s, sb);
          (s, sb) = honda_quarter fl withFourEventSignal fourEventWave prfx tdcWidth 1 (s, sb);
          (s, sb) = addAccordPairs fl 5 (s, sb);
          (s, sb) = honda_quarter fl withFourEventSignal fourEventWave prfx tdcWidth 2 (s, sb);
          (s, sb) = fold (\<lambda>i (s, sb). honda_quarter fl withFourEventSignal fourEventWave prfx tdcWidth i
                             (addAccordPairs fl 5 (s, sb))) [3..<5] (s, sb)
      in s\<lparr>useOnlyPrimaryForSync := True\<rparr>)"

definition configureHondaCbr600 :: "rounding \<Rightarrow> trigger_waveform \<Rightarrow> trigger_waveform" where
  "configureHondaCbr600 fl s =
     (let s = initialize fl FOUR_STROKE_CAM_SENSOR s;
          s = s\<lparr>useOnlyPrimaryForSync := True, isSynchronizationNeeded := True\<rparr>;
          s = setTriggerSynchronizationGap fl 6 s;
          totalTeethCount = 24; skippedCount = 0;
          s = addSkippedToothTriggerEvents fl T_SECONDARY totalTeethCount skippedCount (1 / 2) 0 720 0 349 s;
          s = add720s fl [(350, T_PRIMARY, TV_FALL), (360, T_PRIMARY, TV_RISE),
                          (fl (360 + 2 / 10), T_SECONDARY, TV_FALL)] s;
          s = addSkippedToothTriggerEvents fl T_SECONDARY totalTeethCount skippedCount (1 / 2) 0 720 361 649 s;
          s = add720s fl [(650, T_PRIMARY, TV_FALL), (660, T_PRIMARY, TV_RISE),
                          (fl (660 + 2 / 10), T_SECONDARY, TV_FALL)] s;
          s = addSkippedToothTriggerEvents fl T_SECONDARY totalTeethCount skippedCount (1 / 2) 0 720 661 709 s
      in add720s fl [(710, T_PRIMARY, TV_FALL), (fl (720 - 1), T_SECONDARY, TV_FALL), (720, T_PRIMARY, TV_RISE)] s)"

text \<open>A loop of \<open>k\<close> rounds, each with a rise and a fall at the next two multiples of \<open>w\<close>.\<close>

definition cbr_teeth :: "rounding \<Rightarrow> float32 \<Rightarrow> nat \<Rightarrow> trigger_waveform \<times> float32 \<Rightarrow> trigger_waveform \<times> float32" where
  "cbr_teeth fl w k = fold (\<lambda>i (s, a).
     let a = fl (a + w);
         s = addEvent720 fl a T_SECONDARY TV_RISE s;
         a = fl (a + w);
         s = addEvent720 fl a T_SECONDARY TV_FALL s
     in (s, a)) [0..<k]"

definition configureHondaCbr600custom :: "rounding \<Rightarrow> trigger_waveform \<Rightarrow> trigger_waveform" where
  "configureHondaCbr600custom fl s =
     (let w = of_int (720 div 2 div 24);
          s = initialize fl FOUR_STROKE_CAM_SENSOR s;
          s = s\<lparr>useOnlyPrimaryForSync := True, isSynchronizationNeeded := True\<rparr>;
          s = setTriggerSynchronizationGap2 fl (fl (7 / 10)) (fl (11 / 10)) s;
          a = 0;
          a = fl (a + w);
          s = addEvent720 fl a T_SECONDARY TV_RISE s;
          a = fl (a + w);
          s = addEvent720 fl (fl (a - 1)) T_SECONDARY TV_FALL s;
          a = fl (a + w);
          s = addEvent720 fl a T_SECONDARY TV_RISE s;
          s = addEvent720 fl (fl (524 / 10)) T_PRIMARY TV_FALL s;
          a = fl (a + w);
          s = addEvent720 fl (fl (a - 1)) T_SECONDARY TV_FALL s;
          (s, a) = cbr_teeth fl w 10 (s, a);
          a = fl (a + w);
          s = addEvent720 fl a T_SECONDARY TV_RISE s;
          s = addEvent720 fl (fl (38134 / 100)) T_PRIMARY TV_RISE s;
          a = fl (a + w);
          s = addEvent720 fl (fl (a - 1)) T_SECONDARY TV_FALL s;
          (s, a) = cbr_teeth fl w 1 (s, a);
          a = fl (a + w);
          s = addEvent720 fl a T_SECONDARY TV_RISE s;
          s = addEvent720 fl (fl (4491 / 10)) T_PRIMARY TV_FALL s;
          a = fl (a + w);
          s = addEvent720 fl a T_SECONDARY TV_FALL s;
          (s, a) = cbr_teeth fl w 8 (s, a);
          a = fl (a + w);
          s = addEvent720 fl a T_SECONDARY TV_RISE s;
          a = fl (a + w);
          s = addEvent720 fl (fl (a - 1)) T_SECONDARY TV_FALL s
      in addEvent720 fl 720 T_PRIMARY TV_RISE s)"

definition configureHondaAccordShifted :: "rounding \<Rightarrow> trigger_waveform \<Rightarrow> trigger_waveform" where
  "configureHondaAccordShifted fl s =
     (let s = initialize fl FOUR_STROKE_CAM_SENSOR s;
          sb = S24;
          s = addEvent720 fl (fl (S24 + 1 / 1000)) T_SECONDARY TV_RISE s;
          s = addEvent720 fl (fl (S24 + 1 / 10)) T_PRIMARY TV_RISE s;
          sb = fl (sb + S24);
          s = addEvent720 fl sb T_SECONDARY TV_FALL s;
          sb = fl (sb + S24);
          s = addEvent720 fl (fl (S24 + 22)) T_PRIMARY TV_FALL s;
          (s, sb) = addAccordPairs fl 23 (s, sb)
      in s\<lparr>useOnlyPrimaryForSync := True, isSynchronizationNeeded := False\<rparr>)"

definition configureOnePlus16 :: "rounding \<Rightarrow> trigger_waveform \<Rightarrow> trigger_waveform" where
  "configureOnePlus16 fl s =
     (let s = initialize fl FOUR_STROKE_CAM_SENSOR s;
          totalTeethCount = 16; skippedCount = 0;
          s = addEvent720 fl 2 T_PRIMARY TV_RISE s;
          s = addSkippedToothTriggerEvents fl T_SECONDARY totalTeethCount skippedCount (1 / 2) 0 360 2 20 s;
          s = addEvent720 fl 20 T_PRIMARY TV_FALL s;
          s = addSkippedToothTriggerEvents fl T_SECONDARY totalTeethCount skippedCount (1 / 2) 0 360 20 NO_RIGHT_FILTER s;
          s = addSkippedToothTriggerEvents fl T_SECONDARY totalTeethCount skippedCount (1 / 2) 360 360
                NO_LEFT_FILTER NO_RIGHT_FILTER s
      in s\<lparr>isSynchronizationNeeded := False, useOnlyPrimaryForSync := True\<rparr>)"

definition configureHondaK_12_1 :: "rounding \<Rightarrow> trigger_waveform \<Rightarrow> trigger_waveform" where
  "configureHondaK_12_1 fl s =
     (let s = initialize fl FOUR_STROKE_CRANK_SENSOR s;
          s = setTriggerSynchronizationGap fl 3 s;
          n = 12;
          tooth = fl (of_nat (getCycleDuration s) / of_nat n);
          width = 4;
          s = addEventAngle fl (fl (20 - width)) T_PRIMARY TV_RISE s;
          s = addEventAngle fl 20 T_PRIMARY TV_FALL s
      in fold (\<lambda>i s. addEventAngle fl (fl (tooth * of_nat i)) T_PRIMARY TV_FALL
                       (addEventAngle fl (fl (fl (tooth * of_nat i) - width)) T_PRIMARY TV_RISE s)) [1..<n + 1] s)"

subsection \<open>Subaru and Rover (trigger\_subaru.cpp, trigger\_rover.cpp)\<close>

text \<open>A loop of \<open>k\<close> rounds, each with a rise in the middle of a tooth and a fall at its end.\<close>

definition middle_teeth :: "rounding \<Rightarrow> float32 \<Rightarrow> nat \<Rightarrow> trigger_waveform \<times> float32 \<Rightarrow> trigger_waveform \<times> float32" where
  "middle_teeth fl tooth k = fold (\<lambda>i (s, base).
     let s = addEvent720 fl (fl (base + fl (tooth / 2))) T_PRIMARY TV_RISE s;
         s = addEvent720 fl (fl (base + tooth)) T_PRIMARY TV_FALL s
     in (s, fl (base + tooth))) [0..<k]"

definition initialize36_2_2_2 :: "rounding \<Rightarrow> trigger_waveform \<Rightarrow> trigger_waveform" where
  "initialize36_2_2_2 fl s =
     (let s = initialize fl FOUR_STROKE_CAM_SENSOR s;
          wide = 30 * 2; narrow = 10 * 2;
          s = s\<lparr>isSynchronizationNeeded := True\<rparr>;
          s = setTriggerSynchronizationGap fl (fl (5 / 10)) s;
          s = setSecondTriggerSynchronizationGap fl 1 s;
          base = 0;
          (s, base) = middle_teeth fl narrow 12 (s, base);
          s = addEvent720 fl (fl (base + fl (wide / 2))) T_PRIMARY TV_RISE s;
          s = addEvent720 fl (fl (base + wide)) T_PRIMARY TV_FALL s;
          base = fl (base + wide);
          (s, base) = middle_teeth fl narrow 15 (s, base);
          s = add720s fl [(fl (fl (720 - wide) - fl (wide / 2)), T_PRIMARY, TV_RISE), (fl (720 - wide), T_PRIMARY, TV_FALL),
                          (fl (720 - fl (wide / 2)), T_PRIMARY, TV_RISE), (720, T_PRIMARY, TV_FALL)] s
      in s\<lparr>useOnlyPrimaryForSync := True\<rparr>)"

definition initializeSubaru7_6 :: "rounding \<Rightarrow> trigger_waveform \<Rightarrow> trigger_waveform" where
  "initializeSubaru7_6 fl s =
     (let s = initialize fl FOUR_STROKE_CAM_SENSOR s;
          magic = 333;
          width = 5;
          s = add720s fl
                [(fl (25 - width), T_PRIMARY, TV_RISE), (25, T_PRIMARY, TV_FALL),
                 (fl (fl (fl (magic - 180) - 87) - width), T_SECONDARY, TV_RISE),
                 (fl (fl (magic - 180) - 87), T_SECONDARY, TV_FALL),
                 (fl (fl (fl (magic - 180) - 55) - width), T_SECONDARY, TV_RISE),
                 (fl (fl (magic - 180) - 55), T_SECONDARY, TV_FALL),
                 (fl (fl (magic - 180) - width), T_SECONDARY, TV_RISE), (fl (magic - 180), T_SECONDARY, TV_FALL),
                 (fl (182 - width), T_PRIMARY, TV_RISE), (182, T_PRIMARY, TV_FALL),
                 (fl (fl (magic - 87) - width), T_SECONDARY, TV_RISE), (fl (magic - 87), T_SECONDARY, TV_FALL),
                 (fl (fl (magic - 55) - width), T_SECONDARY, TV_RISE), (fl (magic - 55), T_SECONDARY, TV_FALL),
                 (fl (magic - width), T_SECONDARY, TV_RISE), (magic, T_SECONDARY, TV_FALL),
                 (fl (343 - width), T_PRIMARY, TV_RISE), (343, T_PRIMARY, TV_FALL),
                 (fl (366 - width), T_PRIMARY, TV_RISE), (366, T_PRIMARY, TV_FALL),
                 (fl (384 - width), T_PRIMARY, TV_RISE), (384, T_PRIMARY, TV_FALL),
                 (fl (fl (fl (magic + 180) - 87) - width), T_SECONDARY, TV_RISE),
                 (fl (fl (magic + 180) - 87), T_SECONDARY, TV_FALL),
                 (fl (fl (fl (magic + 180) - 55) - width), T_SECONDARY, TV_RISE),
                 (fl (fl (magic + 180) - 55), T_SECONDARY, TV_FALL),
                 (fl (fl (magic + 180) - width), T_SECONDARY, TV_RISE), (fl (magic + 180), T_SECONDARY, TV_FALL),
                 (fl (538 - width), T_PRIMARY, TV_RISE), (538, T_PRIMARY, TV_FALL),
                 (fl (fl (fl (magic + 360) - 87) - width), T_SECONDARY, TV_RISE),
                 (fl (fl (magic + 360) - 87), T_SECONDARY, TV_FALL),
                 (fl (fl (fl (magic + 360) - 55) - width), T_SECONDARY, TV_RISE),
                 (fl (fl (magic + 360) - 55), T_SECONDARY, TV_FALL),
                 (fl (fl (magic + 360) - width), T_SECONDARY, TV_RISE), (fl (magic + 360), T_SECONDARY, TV_FALL),
                 (fl (720 - width), T_PRIMARY, TV_RISE), (720, T_PRIMARY, TV_FALL)] s;
          s = setTriggerSynchronizationGap2 fl (fl (49 / 10)) 9 s;
          s = setTriggerSynchronizationGap3 fl 1 (Some (fl (6 / 10))) (fl (125 / 100)) s
      in s\<lparr>isSynchronizationNeeded := True, useOnlyPrimaryForSync := True\<rparr>)"

definition initializeRoverK :: "rounding \<Rightarrow> trigger_waveform \<Rightarrow> trigger_waveform" where
  "initializeRoverK fl s =
     (let s = initialize fl FOUR_STROKE_CRANK_SENSOR s;
          tooth = 20;
          s = setTriggerSynchronizationGap fl 2 s;
          s = setThirdTriggerSynchronizationGap fl 2 s;
          s = s\<lparr>isSynchronizationNeeded := True\<rparr>;
          base = 0;
          (s, base) = middle_teeth fl tooth 2 (s, base);
          base = fl (base + tooth);
          (s, base) = middle_teeth fl tooth 2 (s, base);
          base = fl (base + tooth);
          (s, base) = middle_teeth fl tooth 14 (s, base);
          base = fl (base + tooth);
          (s, base) = middle_teeth fl tooth 3 (s, base);
          base = fl (base + tooth);
          (s, base) = middle_teeth fl tooth 11 (s, base)
      in s)"

subsection \<open>Toyota (trigger\_toyota.cpp)\<close>

text \<open>A loop of \<open>k\<close> rounds, each with a rise and a fall at the next two multiples of \<open>crankD\<close>.\<close>

definition jz_teeth :: "rounding \<Rightarrow> float32 \<Rightarrow> nat \<Rightarrow> trigger_waveform \<times> float32 \<Rightarrow> trigger_waveform \<times> float32" where
  "jz_teeth fl crankD k = fold (\<lambda>i (s, crankAngle).
     let s = addEventClamped fl (fl (crankAngle + crankD)) T_SECONDARY TV_RISE (-1) 721 s;
         crankAngle = fl (crankAngle + crankD);
         s = addEventClamped fl (fl (crankAngle + crankD)) T_SECONDARY TV_FALL (-1) 721 s
     in (s, fl (crankAngle + crankD))) [0..<k]"

definition initialize2jzGE1_12 :: "rounding \<Rightarrow> trigger_waveform \<Rightarrow> trigger_waveform" where
  "initialize2jzGE1_12 fl s =
     (let s = initialize fl FOUR_STROKE_CAM_SENSOR s;
          crankD = of_int (360 div 12 div 2);
          crankAngle = 10;
          s = addEventClamped fl crankAngle T_SECONDARY TV_FALL (-1) 721 s;
          (s, crankAngle) = jz_teeth fl crankD 2 (s, crankAngle);
          s = addEventClamped fl 75 T_PRIMARY TV_FALL (-1) 721 s;
          (s, crankAngle) = jz_teeth fl crankD 21 (s, crankAngle);
          s = addEventClamped fl (fl (crankAngle + crankD)) T_SECONDARY TV_RISE (-1) 721 s;
          s = addEventClamped fl 720 T_PRIMARY TV_RISE (-1) 721 s
      in s\<lparr>isSynchronizationNeeded := False\<rparr>)"

definition initialize2jzGE3_34 :: "rounding \<Rightarrow> trigger_waveform \<Rightarrow> trigger_waveform" where
  "initialize2jzGE3_34 fl s = setToothedWheelConfiguration fl 36 2 FOUR_STROKE_CRANK_SENSOR s"

subsection \<open>Nissan (trigger\_nissan.cpp)\<close>

definition initializeNissanSR20VE_4_optional_360 :: "rounding \<Rightarrow> bool \<Rightarrow> trigger_waveform \<Rightarrow> trigger_waveform" where
  "initializeNissanSR20VE_4_optional_360 fl with2nd s =
     (let s = initialize fl FOUR_STROKE_CAM_SENSOR s;
          s = s\<lparr>isSynchronizationNeeded := True, gapBothDirections := True, useOnlyPrimaryForSync := True,
                tdcPosition := Some 630\<rparr>;
          width = 4;
          s = setTriggerSynchronizationGap2 fl (fl (967 / 100 * (75 / 100))) 16 s;
          left = 0; total = 360; base = 180;
          right = fl (base - 4 * width);
          s = (if with2nd then addSkippedToothTriggerEvents fl T_SECONDARY total 0 (1 / 2) 0 720 left right s else s);
          s = addEvent720 fl right T_PRIMARY TV_RISE s;
          left = right; right = base;
          s = (if with2nd then addSkippedToothTriggerEvents fl T_SECONDARY total 0 (1 / 2) 0 720 left right s else s);
          s = addEvent720 fl right T_PRIMARY TV_FALL s;
          base = fl (base + 180);
          right = fl (base - width);
          s = addEvent720 fl right T_PRIMARY TV_RISE s;
          right = base;
          s = addEvent720 fl right T_PRIMARY TV_FALL s;
          base = fl (base + 180);
          right = fl (base - width);
          s = addEvent720 fl right T_PRIMARY TV_RISE s;
          right = base;
          s = addEvent720 fl right T_PRIMARY TV_FALL s;
          base = fl (base + 180);
          right = fl (base - width);
          s = addEvent720 fl right T_PRIMARY TV_RISE s;
          right = base
      in addEvent720 fl right T_PRIMARY TV_FALL s)"

definition initializeNissanSR20VE_4 :: "rounding \<Rightarrow> trigger_waveform \<Rightarrow> trigger_waveform" where
  "initializeNissanSR20VE_4 fl s = initializeNissanSR20VE_4_optional_360 fl False s"

definition initializeNissanSR20VE_4_360 :: "rounding \<Rightarrow> trigger_waveform \<Rightarrow> trigger_waveform" where
  "initializeNissanSR20VE_4_360 fl s = initializeNissanSR20VE_4_optional_360 fl True s"

subsection \<open>Fiat (trigger\_misc.cpp)\<close>

definition configureFiatIAQ_P8 :: "rounding \<Rightarrow> trigger_waveform \<Rightarrow> trigger_waveform" where
  "configureFiatIAQ_P8 fl s =
     (let s = initialize fl FOUR_STROKE_CAM_SENSOR s;
          s = s\<lparr>isSynchronizationNeeded := True\<rparr>;
          width = 60;
          s = s\<lparr>tdcPosition := Some width\<rparr>;
          s = add720s fl [(width, T_PRIMARY, TV_RISE), (180, T_PRIMARY, TV_FALL),
                          (180 + width, T_PRIMARY, TV_RISE), (720, T_PRIMARY, TV_FALL)] s
      in setTriggerSynchronizationGap fl 3 s)"

subsection \<open>The choice of the wheel\<close>

datatype trigger_type_e = TT_TOOTHED_WHEEL int int | TT_FORD_ASPIRE | TT_DODGE_NEON_1995 | TT_MAZDA_MIATA_NA | TT_MAZDA_MIATA_NB1
  | TT_GM_7X | TT_MINI_COOPER_R50 | TT_MAZDA_SOHC_4 | TT_TOOTHED_WHEEL_60_2 | TT_TOOTHED_WHEEL_36_1 | TT_HONDA_4_24_1
  | TT_MITSUBISHI | TT_HONDA_4_24 | TT_HONDA_1_4_24 | TT_DODGE_NEON_2003_CAM | TT_MAZDA_DOHC_1_4 | TT_ONE_PLUS_ONE
  | TT_ONE_PLUS_TOOTHED_WHEEL_60_2 | TT_ONE | TT_DODGE_RAM | TT_60_2_VW | TT_HONDA_1_24 | TT_DODGE_STRATUS | TT_36_2_2_2
  | TT_NISSAN_SR20VE | TT_2JZ_3_34 | TT_ROVER_K | TT_GM_LS_24 | TT_HONDA_CBR_600 | TT_2JZ_1_12 | TT_HONDA_CBR_600_CUSTOM
  | TT_3_1_CAM | TT_DODGE_NEON_2003_CRANK | TT_MIATA_VVT | TT_HONDA_ACCORD_1_24_SHIFTED | TT_MAZDA_MIATA_VVT_TEST
  | TT_SUBARU_7_6 | TT_JEEP_18_2_2_2 | TT_NISSAN_SR20VE_360 | TT_DODGE_NEON_1995_ONLY_CRANK | TT_JEEP_4_CYL
  | TT_FIAT_IAW_P8 | TT_MAZDA_Z5 | TT_MIATA_NB2_VVT_CAM | TT_RENIX_44_2_2 | TT_RENIX_66_2_2_2 | TT_HONDA_K_12_1
  | TT_BOSCH_QUICK_START | TT_UNUSED

definition configure_wheel ::
    "rounding \<Rightarrow> trigger_type_e \<Rightarrow> operation_mode_e \<Rightarrow> trigger_waveform \<Rightarrow> trigger_waveform" where
  "configure_wheel fl tt ambiguousOperationMode s =
     (case tt of
        TT_TOOTHED_WHEEL teeth skipped \<Rightarrow> initializeSkippedToothTriggerWaveformExt fl teeth skipped ambiguousOperationMode s
      | TT_MAZDA_MIATA_NA \<Rightarrow> initializeMazdaMiataNaShape fl s
      | TT_MAZDA_MIATA_NB1 \<Rightarrow> initializeMazdaMiataNb1Shape fl s
      | TT_MAZDA_MIATA_VVT_TEST \<Rightarrow> initializeMazdaMiataVVtTestShape fl s
      | TT_MAZDA_Z5 \<Rightarrow> initialize_Mazda_Engine_z5_Shape fl s
      | TT_MIATA_NB2_VVT_CAM \<Rightarrow> initializeMazdaMiataVVtCamShape fl s
      | TT_RENIX_66_2_2_2 \<Rightarrow> initializeRenix66_2_2 fl s
      | TT_RENIX_44_2_2 \<Rightarrow> initializeRenix44_2_2 fl s
      | TT_MIATA_VVT \<Rightarrow> initializeMazdaMiataNb2Crank fl s
      | TT_DODGE_NEON_1995 \<Rightarrow> configureNeon1995TriggerWaveform fl s
      | TT_DODGE_NEON_1995_ONLY_CRANK \<Rightarrow> configureNeon1995TriggerWaveformOnlyCrank fl s
      | TT_DODGE_STRATUS \<Rightarrow> configureDodgeStratusTriggerWaveform fl s
      | TT_DODGE_NEON_2003_CAM \<Rightarrow> configureNeon2003TriggerWaveformCam fl s
      | TT_DODGE_NEON_2003_CRANK \<Rightarrow> configureNeon2003TriggerWaveformCam fl s
      | TT_FORD_ASPIRE \<Rightarrow> configureFordAspireTriggerWaveform fl s
      | TT_GM_7X \<Rightarrow> configureGmTriggerWaveform fl s
      | TT_MAZDA_DOHC_1_4 \<Rightarrow> configureMazdaProtegeLx fl s
      | TT_ONE_PLUS_ONE \<Rightarrow> configureOnePlusOne fl s
      | TT_3_1_CAM \<Rightarrow> configure3_1_cam fl s
      | TT_ONE_PLUS_TOOTHED_WHEEL_60_2 \<Rightarrow> configureOnePlus60_2 fl s
      | TT_ONE \<Rightarrow> setToothedWheelConfiguration fl 1 0 ambiguousOperationMode s
      | TT_MAZDA_SOHC_4 \<Rightarrow> configureMazdaProtegeSOHC fl s
      | TT_MINI_COOPER_R50 \<Rightarrow> configureMiniCooperTriggerWaveform fl s
      | TT_TOOTHED_WHEEL_60_2 \<Rightarrow> setToothedWheelConfiguration fl 60 2 ambiguousOperationMode s
      | TT_60_2_VW \<Rightarrow> setVwConfiguration fl s
      | TT_TOOTHED_WHEEL_36_1 \<Rightarrow> setToothedWheelConfiguration fl 36 1 ambiguousOperationMode s
      | TT_BOSCH_QUICK_START \<Rightarrow> configureQuickStartSenderWheel fl s
      | TT_HONDA_K_12_1 \<Rightarrow> configureHondaK_12_1 fl s
      | TT_HONDA_4_24_1 \<Rightarrow> (configureHonda_1_4_24 fl True True T_CHANNEL_3 T_PRIMARY 0 s)\<lparr>shapeWithoutTdc := True\<rparr>
      | TT_HONDA_4_24 \<Rightarrow> (configureHonda_1_4_24 fl False True T_NONE T_PRIMARY 0 s)\<lparr>shapeWithoutTdc := True\<rparr>
      | TT_HONDA_1_24 \<Rightarrow> configureHonda_1_4_24 fl True False T_PRIMARY T_NONE 10 s
      | TT_HONDA_ACCORD_1_24_SHIFTED \<Rightarrow> configureHondaAccordShifted fl s
      | TT_HONDA_1_4_24 \<Rightarrow> configureHondaAccordCDDip fl s
      | TT_HONDA_CBR_600 \<Rightarrow> configureHondaCbr600 fl s
      | TT_HONDA_CBR_600_CUSTOM \<Rightarrow> configureHondaCbr600custom fl s
      | TT_MITSUBISHI \<Rightarrow> initializeMitsubishi4g18 fl s
      | TT_DODGE_RAM \<Rightarrow> initDodgeRam fl s
      | TT_JEEP_4_CYL \<Rightarrow> initJeep_XJ_4cyl_2500 fl s
      | TT_JEEP_18_2_2_2 \<Rightarrow> initJeep18_2_2_2 fl s
      | TT_SUBARU_7_6 \<Rightarrow> initializeSubaru7_6 fl s
      | TT_36_2_2_2 \<Rightarrow> initialize36_2_2_2 fl s
      | TT_2JZ_3_34 \<Rightarrow> initialize2jzGE3_34 fl s
      | TT_2JZ_1_12 \<Rightarrow> initialize2jzGE1_12 fl s
      | TT_NISSAN_SR20VE \<Rightarrow> initializeNissanSR20VE_4 fl s
      | TT_NISSAN_SR20VE_360 \<Rightarrow> initializeNissanSR20VE_4_360 fl s
      | TT_ROVER_K \<Rightarrow> initializeRoverK fl s
      | TT_FIAT_IAW_P8 \<Rightarrow> configureFiatIAQ_P8 fl s
      | TT_GM_LS_24 \<Rightarrow> initGmLS24 fl s
      | TT_UNUSED \<Rightarrow> shape_report ''initializeTriggerWaveform() not implemented'' (setShapeDefinitionError True s))"

definition initializeTriggerWaveform ::
    "rounding \<Rightarrow> operation_mode_e \<Rightarrow> bool \<Rightarrow> trigger_type_e \<Rightarrow> trigger_waveform \<Rightarrow> trigger_waveform" where
  "initializeTriggerWaveform fl ambiguousOperationMode useOnlyRisingEdgeForTrigger tt s =
     (let s = s\<lparr>shapeDefinitionError := False, useOnlyRisingEdgeForTriggerTemp := useOnlyRisingEdgeForTrigger\<rparr>;
          s = configure_wheel fl tt ambiguousOperationMode s;
          s = calculateExpectedEventCounts useOnlyRisingEdgeForTrigger s;
          s = s\<lparr>shape_version := shape_version s + 1\<rparr>
      in if \<not> shapeDefinitionError s then s\<lparr>shape_log := shape_log s @ checkSwitchTimes (wave s) (getSize s)\<rparr> else s)"

end
