(* ===== verification/Trigger_Decoder.thy ===== *)
theory Trigger_Decoder
  imports Trigger_Makes Containers
begin

text \<open>
  The trigger decoder, src/firmware/controllers/trigger/trigger_decoder.cpp: \<open>TriggerState\<close>, which turns
  the edges of the shaft sensors into the position of the shaft, the simulation of a wheel
  (trigger_simulator.cpp) that locates its synchronization point, and the part of \<open>Engine\<close>
  (controllers/algo/engine.cpp) that listens to the decoder.  The clock the code reads is the sequence
  \<open>clock\<close> of the state; the members of the engine extend the record of the decoder.  The display of
  the current gap and of debug fields is left out.
\<close>

datatype trigger_event_e = SHAFT_PRIMARY_FALLING | SHAFT_PRIMARY_RISING | SHAFT_SECONDARY_FALLING
  | SHAFT_SECONDARY_RISING | SHAFT_3RD_FALLING | SHAFT_3RD_RISING

definition eventIndex :: "trigger_event_e \<Rightarrow> trigger_wheel_e" where
  "eventIndex e =
     (case e of SHAFT_PRIMARY_FALLING \<Rightarrow> T_PRIMARY | SHAFT_PRIMARY_RISING \<Rightarrow> T_PRIMARY
      | SHAFT_SECONDARY_FALLING \<Rightarrow> T_SECONDARY | SHAFT_SECONDARY_RISING \<Rightarrow> T_SECONDARY
      | SHAFT_3RD_FALLING \<Rightarrow> T_CHANNEL_3 | SHAFT_3RD_RISING \<Rightarrow> T_CHANNEL_3)"

definition eventType :: "trigger_event_e \<Rightarrow> trigger_value_e" where
  "eventType e =
     (case e of SHAFT_PRIMARY_FALLING \<Rightarrow> TV_FALL | SHAFT_PRIMARY_RISING \<Rightarrow> TV_RISE
      | SHAFT_SECONDARY_FALLING \<Rightarrow> TV_FALL | SHAFT_SECONDARY_RISING \<Rightarrow> TV_RISE
      | SHAFT_3RD_FALLING \<Rightarrow> TV_FALL | SHAFT_3RD_RISING \<Rightarrow> TV_RISE)"

record current_cycle_state_s =
  current_index :: u32
  eventCount :: "u32 list"
  timeOfPreviousEventNt :: "u32 list"
  totalTimeNt :: "u32 list"

record trigger_state =
  shaft_is_synchronized :: bool
  mostRecentSyncTime :: int
  previousShaftEventTimeNt :: int
  lastDecodingErrorTime :: int
  someSortOfTriggerError :: bool
  toothDurations :: "u32 list"
  toothed_previous_time :: int
  currentCycle :: current_cycle_state_s
  expectedTotalTime :: "u32 list"
  totalTriggerErrorCounter :: u32
  orderingErrorCounter :: u32
  startOfCycleNt :: int
  curSignal :: trigger_event_e
  prevSignal :: trigger_event_e
  totalEventCountBase :: int
  totalRevolutionCounter :: u32
  isFirstEvent :: bool
  clock :: "nat \<Rightarrow> int"
  clockReads :: nat
  decoder_log :: "string list"

text \<open>What the decoder reads of the configuration and the board.\<close>

record decoder_env =
  useOnlyRisingEdgeForTrigger :: bool
  ntPerUs :: int
  fl32 :: rounding

definition NT_PER_SECOND :: "decoder_env \<Rightarrow> int" where
  "NT_PER_SECOND env = 1000000 * ntPerUs env"

definition getTimeNowNt :: "'z trigger_state_scheme \<Rightarrow> int \<times> 'z trigger_state_scheme" where
  "getTimeNowNt s = (clock s (clockReads s), s\<lparr>clockReads := clockReads s + 1\<rparr>)"

definition decoder_report :: "string \<Rightarrow> 'z trigger_state_scheme \<Rightarrow> 'z trigger_state_scheme" where
  "decoder_report msg s = s\<lparr>decoder_log := decoder_log s @ [msg]\<rparr>"

subsection \<open>State\<close>

definition setShaftSynchronized :: "bool \<Rightarrow> 'z trigger_state_scheme \<Rightarrow> 'z trigger_state_scheme" where
  "setShaftSynchronized v s =
     (let s = (if v then
                 if \<not> shaft_is_synchronized s then (case getTimeNowNt s of (t, s) \<Rightarrow> s\<lparr>mostRecentSyncTime := t\<rparr>) else s
               else s\<lparr>mostRecentSyncTime := 0\<rparr>)
      in s\<lparr>shaft_is_synchronized := v\<rparr>)"

definition setTriggerErrorState :: "'z trigger_state_scheme \<Rightarrow> 'z trigger_state_scheme" where
  "setTriggerErrorState s =
     (case getTimeNowNt s of (t, s) \<Rightarrow> s\<lparr>lastDecodingErrorTime := t, someSortOfTriggerError := True\<rparr>)"

definition resetCurrentCycleState :: "'z trigger_state_scheme \<Rightarrow> 'z trigger_state_scheme" where
  "resetCurrentCycleState s =
     s\<lparr>currentCycle := \<lparr>current_index = 0, eventCount = replicate PWM_PHASE_MAX_WAVE_PER_PWM 0,
        timeOfPreviousEventNt = replicate PWM_PHASE_MAX_WAVE_PER_PWM 0, totalTimeNt = replicate PWM_PHASE_MAX_WAVE_PER_PWM 0\<rparr>\<rparr>"

text \<open>\<open>(efitimems_t) -10\<close> is the unsigned \<open>2 ^ 32 - 10\<close>.\<close>

definition resetTriggerState :: "decoder_env \<Rightarrow> 'z trigger_state_scheme \<Rightarrow> 'z trigger_state_scheme" where
  "resetTriggerState env s =
     (let s = setShaftSynchronized False s;
          s = s\<lparr>toothed_previous_time := 0, toothDurations := replicate (GAP_TRACKING_LENGTH + 1) 0,
                totalRevolutionCounter := 0, totalTriggerErrorCounter := 0, orderingErrorCounter := 0,
                previousShaftEventTimeNt := uint (- 10 :: u32) * NT_PER_SECOND env,
                lastDecodingErrorTime := - 10000000 * ntPerUs env, someSortOfTriggerError := False,
                curSignal := SHAFT_PRIMARY_FALLING, prevSignal := SHAFT_PRIMARY_FALLING, startOfCycleNt := 0\<rparr>;
          s = resetCurrentCycleState s
      in s\<lparr>expectedTotalTime := replicate PWM_PHASE_MAX_WAVE_PER_PWM 0, totalEventCountBase := 0, isFirstEvent := True\<rparr>)"

definition getTotalEventCounter :: "'z trigger_state_scheme \<Rightarrow> int" where
  "getTotalEventCounter s = totalEventCountBase s + uint (current_index (currentCycle s))"

text \<open>The counter is returned as an \<open>int\<close>.\<close>

definition getTotalRevolutionCounter :: "'z trigger_state_scheme \<Rightarrow> int" where
  "getTotalRevolutionCounter s = sint (totalRevolutionCounter s)"

definition getCurrentIndex :: "'z trigger_state_scheme \<Rightarrow> int" where
  "getCurrentIndex s = sint (current_index (currentCycle s))"

definition isEvenRevolution :: "'z trigger_state_scheme \<Rightarrow> bool" where
  "isEvenRevolution s = (totalRevolutionCounter s AND 1 \<noteq> 0)"

definition incrementTotalEventCounter :: "'z trigger_state_scheme \<Rightarrow> 'z trigger_state_scheme" where
  "incrementTotalEventCounter s = s\<lparr>totalRevolutionCounter := totalRevolutionCounter s + 1\<rparr>"

definition isValidIndex :: "trigger_waveform \<Rightarrow> 'z trigger_state_scheme \<Rightarrow> bool" where
  "isValidIndex shape s = (unat (current_index (currentCycle s)) < getSize shape)"

definition validateEventCounters :: "trigger_waveform \<Rightarrow> 'z trigger_state_scheme \<Rightarrow> bool" where
  "validateEventCounters shape s =
     (\<exists>i \<in> set [0..<PWM_PHASE_MAX_WAVE_PER_PWM]. eventCount (currentCycle s) ! i \<noteq> expectedEventCount shape ! i)"

definition onShaftSynchronization ::
    "('z trigger_state_scheme \<Rightarrow> 'z trigger_state_scheme) option \<Rightarrow> int \<Rightarrow> trigger_waveform \<Rightarrow>
     'z trigger_state_scheme \<Rightarrow> 'z trigger_state_scheme" where
  "onShaftSynchronization triggerCycleCallback nowNt shape s =
     (let s = (case triggerCycleCallback of None \<Rightarrow> s | Some cb \<Rightarrow> cb s);
          s = s\<lparr>startOfCycleNt := nowNt\<rparr>;
          s = resetCurrentCycleState s;
          s = incrementTotalEventCounter s
      in s\<lparr>totalEventCountBase := totalEventCountBase s + int (getSize shape)\<rparr>)"

subsection \<open>Decoding an event\<close>

record 'z trigger_listener =
  OnTriggerStateProperState :: "int \<Rightarrow> 'z trigger_state_scheme \<Rightarrow> 'z trigger_state_scheme"
  OnTriggerSyncronization :: "bool \<Rightarrow> 'z trigger_state_scheme \<Rightarrow> 'z trigger_state_scheme"
  OnTriggerInvalidIndex :: "u32 \<Rightarrow> 'z trigger_state_scheme \<Rightarrow> 'z trigger_state_scheme"
  OnTriggerSynchronizationLost :: "'z trigger_state_scheme \<Rightarrow> 'z trigger_state_scheme"

definition notify :: "'l option \<Rightarrow> ('l \<Rightarrow> 's \<Rightarrow> 's) \<Rightarrow> 's \<Rightarrow> 's" where
  "notify listener call s = (case listener of None \<Rightarrow> s | Some l \<Rightarrow> call l s)"

definition getCurrentGapDuration :: "int \<Rightarrow> 'z trigger_state_scheme \<Rightarrow> int" where
  "getCurrentGapDuration nowNt s = (if isFirstEvent s then 0 else nowNt - toothed_previous_time s)"

definition nextTriggerEvent :: "decoder_env \<Rightarrow> nat \<Rightarrow> int \<Rightarrow> 'z trigger_state_scheme \<Rightarrow> 'z trigger_state_scheme" where
  "nextTriggerEvent env wheel nowNt s =
     (let c = currentCycle s;
          prevTime = timeOfPreviousEventNt c ! wheel;
          c = (if prevTime \<noteq> 0
               then c\<lparr>totalTimeNt := (totalTimeNt c)[wheel := totalTimeNt c ! wheel + (word_of_int nowNt - prevTime)],
                      timeOfPreviousEventNt := (timeOfPreviousEventNt c)[wheel := 0]\<rparr>
               else c\<lparr>timeOfPreviousEventNt := (timeOfPreviousEventNt c)[wheel := word_of_int nowNt]\<rparr>);
          c = (if useOnlyRisingEdgeForTrigger env then c\<lparr>current_index := current_index c + 1\<rparr> else c);
          c = c\<lparr>current_index := current_index c + 1\<rparr>
      in s\<lparr>currentCycle := c\<rparr>)"

definition considerEventForGap :: "trigger_waveform \<Rightarrow> bool \<Rightarrow> bool" where
  "considerEventForGap shape isPrimary = (\<not> useOnlyPrimaryForSync shape \<or> isPrimary)"

definition needToSkipFall :: "trigger_waveform \<Rightarrow> trigger_value_e \<Rightarrow> bool" where
  "needToSkipFall shape type = (\<not> gapBothDirections shape \<and> (useRiseEdge shape \<and> type \<noteq> TV_RISE))"

definition needToSkipRise :: "trigger_waveform \<Rightarrow> trigger_value_e \<Rightarrow> bool" where
  "needToSkipRise shape type = (\<not> gapBothDirections shape \<and> (\<not> useRiseEdge shape \<and> type \<noteq> TV_FALL))"

text \<open>The comparison of two durations with the ratios, in single precision.\<close>

definition isGapCondition :: "rounding \<Rightarrow> float32 option \<Rightarrow> float32 \<Rightarrow> u32 \<Rightarrow> u32 \<Rightarrow> bool" where
  "isGapCondition fl from ratioTo current previous =
     (case from of
        None \<Rightarrow> True
      | Some f \<Rightarrow> fl (of_nat (unat current)) > fl (fl (of_nat (unat previous)) * f) \<and>
                  fl (of_nat (unat current)) < fl (fl (of_nat (unat previous)) * ratioTo))"

definition isSync :: "decoder_env \<Rightarrow> trigger_waveform \<Rightarrow> u32 list \<Rightarrow> bool" where
  "isSync env shape d =
     (\<forall>i \<in> set [0..<GAP_TRACKING_LENGTH].
        isGapCondition (fl32 env) (syncronizationRatioFrom shape ! i) (syncronizationRatioTo shape ! i) (d ! i) (d ! (i + 1)))"

definition endOfCycleIndex :: "decoder_env \<Rightarrow> trigger_waveform \<Rightarrow> u32" where
  "endOfCycleIndex env shape = word_of_nat (getSize shape) - (if useOnlyRisingEdgeForTrigger env then 2 else 1)"

definition isSynchronizationPoint :: "decoder_env \<Rightarrow> trigger_waveform \<Rightarrow> 'z trigger_state_scheme \<Rightarrow> bool" where
  "isSynchronizationPoint env shape s =
     (if isSynchronizationNeeded shape then isSync env shape (toothDurations s)
      else \<not> shaft_is_synchronized s \<or> current_index (currentCycle s) \<ge> endOfCycleIndex env shape)"

text \<open>The loop that moves the durations one place up.\<close>

definition shiftDurations :: "u32 list \<Rightarrow> u32 list" where
  "shiftDurations d = fold (\<lambda>i d. d[i := d ! (i - 1)]) (rev [1..<GAP_TRACKING_LENGTH + 1]) d"

text \<open>An edge that takes part in the measurement of the gaps.\<close>

definition important_event ::
    "decoder_env \<Rightarrow> trigger_waveform \<Rightarrow> ('z trigger_state_scheme \<Rightarrow> 'z trigger_state_scheme) option \<Rightarrow>
     'z trigger_listener option \<Rightarrow> nat \<Rightarrow> int \<Rightarrow> 'z trigger_state_scheme \<Rightarrow> 'z trigger_state_scheme" where
  "important_event env shape callback listener wheel nowNt s =
     (let s = s\<lparr>isFirstEvent := False\<rparr>;
          wasSynchronized = shaft_is_synchronized s;
          s = (if isSynchronizationPoint env shape s then
                 let s = notify listener (\<lambda>l. OnTriggerSyncronization l wasSynchronized) s;
                     s = setShaftSynchronized True s;
                     s = nextTriggerEvent env wheel nowNt s
                 in onShaftSynchronization callback nowNt shape s
               else nextTriggerEvent env wheel nowNt s);
          s = s\<lparr>toothDurations := shiftDurations (toothDurations s)\<rparr>
      in s\<lparr>toothed_previous_time := nowNt\<rparr>)"

definition after_event ::
    "decoder_env \<Rightarrow> trigger_waveform \<Rightarrow> 'z trigger_listener option \<Rightarrow> int \<Rightarrow> 'z trigger_state_scheme \<Rightarrow> 'z trigger_state_scheme" where
  "after_event env shape listener nowNt s =
     (let s = (if \<not> isValidIndex shape s
               then notify listener (\<lambda>l. OnTriggerInvalidIndex l (current_index (currentCycle s))) s else s);
          s = (if someSortOfTriggerError s then
                 (case getTimeNowNt s of (t, s) \<Rightarrow>
                    if t - lastDecodingErrorTime s > NT_PER_SECOND env then s\<lparr>someSortOfTriggerError := False\<rparr> else s)
               else s)
      in notify listener (\<lambda>l. OnTriggerStateProperState l nowNt) s)"

definition clip_duration :: "decoder_env \<Rightarrow> int \<Rightarrow> u32" where
  "clip_duration env d = word_of_int (if d > 10 * NT_PER_SECOND env then 10 * NT_PER_SECOND env else d)"

text \<open>The synchronization is dropped after a second without an event.\<close>

definition before_event ::
    "decoder_env \<Rightarrow> 'z trigger_listener option \<Rightarrow> int \<Rightarrow> 'z trigger_state_scheme \<Rightarrow> 'z trigger_state_scheme" where
  "before_event env listener nowNt s =
     (let s = (if nowNt - previousShaftEventTimeNt s > NT_PER_SECOND env
               then notify listener OnTriggerSynchronizationLost (setShaftSynchronized False s) else s)
      in s\<lparr>previousShaftEventTimeNt := nowNt\<rparr>)"

definition note_signal :: "decoder_env \<Rightarrow> trigger_event_e \<Rightarrow> nat \<Rightarrow> 'z trigger_state_scheme \<Rightarrow> 'z trigger_state_scheme" where
  "note_signal env signal wheel s =
     (let s = (if \<not> useOnlyRisingEdgeForTrigger env \<and> curSignal s = prevSignal s
               then s\<lparr>orderingErrorCounter := orderingErrorCounter s + 1\<rparr> else s);
          s = s\<lparr>prevSignal := curSignal s\<rparr>;
          s = s\<lparr>curSignal := signal\<rparr>
      in s\<lparr>currentCycle := (currentCycle s)\<lparr>eventCount := count_event wheel (eventCount (currentCycle s))\<rparr>\<rparr>)"

definition decodeTriggerEvent ::
    "decoder_env \<Rightarrow> trigger_waveform \<Rightarrow> ('z trigger_state_scheme \<Rightarrow> 'z trigger_state_scheme) option \<Rightarrow>
     'z trigger_listener option \<Rightarrow> trigger_event_e \<Rightarrow> int \<Rightarrow> 'z trigger_state_scheme \<Rightarrow> 'z trigger_state_scheme" where
  "decodeTriggerEvent env shape callback listener signal nowNt s =
     (let s = before_event env listener nowNt s;
          triggerWheel = eventIndex signal;
          wheel = wheel_index triggerWheel;
          type = eventType signal;
          s = note_signal env signal wheel s
      in if \<not> toothed_previous_time s \<le> nowNt then decoder_report ''toothed_previous_time after nowNt'' s
         else
           let currentDurationLong = getCurrentGapDuration nowNt s;
               s = s\<lparr>toothDurations := (toothDurations s)[0 := clip_duration env currentDurationLong]\<rparr>;
               isPrimary = (triggerWheel = T_PRIMARY);
               s = (if needToSkipFall shape type \<or> needToSkipRise shape type \<or> \<not> considerEventForGap shape isPrimary
                    then nextTriggerEvent env wheel nowNt s
                    else important_event env shape callback listener wheel nowNt s)
           in after_event env shape listener nowNt s)"

subsection \<open>The engine as listener\<close>

record engine_trigger = trigger_state +
  triggerErrorDetection :: cyclic_buffer
  rpmValue :: int
  triggerDecoderErrorPin :: bool
  engineCycleEventCount :: nat
  engineCycle :: nat

text \<open>The RPM calculator (\<open>setStopSpinning\<close>, \<open>setSpinningUp\<close>) and the running statistics are parameters.\<close>

record 'z engine_hooks =
  setStopSpinning :: "'z engine_trigger_scheme \<Rightarrow> 'z engine_trigger_scheme"
  setSpinningUp :: "int \<Rightarrow> 'z engine_trigger_scheme \<Rightarrow> 'z engine_trigger_scheme"
  runtimeStatistics :: "int \<Rightarrow> 'z engine_trigger_scheme \<Rightarrow> 'z engine_trigger_scheme"

definition isTriggerDecoderError :: "'z engine_trigger_scheme \<Rightarrow> bool" where
  "isTriggerDecoderError s = (cb_sum 6 (triggerErrorDetection s) > 4)"

definition engine_DecodingError :: "'z engine_trigger_scheme \<Rightarrow> 'z engine_trigger_scheme" where
  "engine_DecodingError s =
     (let s = decoder_report ''trigger not happy'' s;
          s = setTriggerErrorState s
      in s\<lparr>totalTriggerErrorCounter := totalTriggerErrorCounter s + 1\<rparr>)"

definition engine_Syncronization :: "trigger_waveform \<Rightarrow> bool \<Rightarrow> 'z engine_trigger_scheme \<Rightarrow> 'z engine_trigger_scheme" where
  "engine_Syncronization shape wasSynchronized s =
     (if wasSynchronized then
        let isDecodingError = validateEventCounters shape s;
            s = s\<lparr>triggerDecoderErrorPin := isDecodingError\<rparr>;
            s = (if isDecodingError then engine_DecodingError s else s);
            s = s\<lparr>triggerErrorDetection := cb_add (of_bool isDecodingError) (triggerErrorDetection s)\<rparr>
        in if isTriggerDecoderError s then decoder_report ''trigger decoding issue'' s else s
      else s)"

definition engine_InvalidIndex :: "u32 \<Rightarrow> 'z engine_trigger_scheme \<Rightarrow> 'z engine_trigger_scheme" where
  "engine_InvalidIndex index s =
     (if rpmValue s \<noteq> 0 then setTriggerErrorState (decoder_report ''sync error: index above total size'' s) else s)"

definition engine_listener :: "'z engine_hooks \<Rightarrow> trigger_waveform \<Rightarrow> 'z engine_trigger_ext trigger_listener" where
  "engine_listener hooks shape =
     \<lparr>OnTriggerStateProperState = (\<lambda>nowNt s. setSpinningUp hooks nowNt (runtimeStatistics hooks nowNt s)),
      OnTriggerSyncronization = engine_Syncronization shape,
      OnTriggerInvalidIndex = engine_InvalidIndex,
      OnTriggerSynchronizationLost = setStopSpinning hooks\<rparr>"

subsection \<open>Simulating a wheel\<close>

definition SIMULATION_CYCLE_PERIOD :: nat where "SIMULATION_CYCLE_PERIOD = 720000"

definition isRisingEdge :: "trigger_event_e \<Rightarrow> bool" where
  "isRisingEdge e = (eventType e = TV_RISE)"

definition isUsefulSignal :: "decoder_env \<Rightarrow> trigger_event_e \<Rightarrow> bool" where
  "isUsefulSignal env signal = (\<not> useOnlyRisingEdgeForTrigger env \<or> isRisingEdge signal)"

definition getPreviousIndex :: "nat \<Rightarrow> nat \<Rightarrow> nat" where
  "getPreviousIndex phaseIndex sz = (phaseIndex + sz - 1) mod sz"

definition needEvent :: "nat \<Rightarrow> nat \<Rightarrow> multi_wave \<Rightarrow> nat \<Rightarrow> bool" where
  "needEvent phaseIndex sz w channelIndex =
     (getChannelState w channelIndex (getPreviousIndex phaseIndex sz) \<noteq> getChannelState w channelIndex phaseIndex)"

definition riseEvents :: "trigger_event_e list" where
  "riseEvents = [SHAFT_PRIMARY_RISING, SHAFT_SECONDARY_RISING, SHAFT_3RD_RISING]"

definition fallEvents :: "trigger_event_e list" where
  "fallEvents = [SHAFT_PRIMARY_FALLING, SHAFT_SECONDARY_FALLING, SHAFT_3RD_FALLING]"

text \<open>The three blocks of \<open>feedSimulatedEvent\<close>, one for each channel.\<close>

definition feed_channel ::
    "decoder_env \<Rightarrow> ('z trigger_state_scheme \<Rightarrow> 'z trigger_state_scheme) option \<Rightarrow> trigger_waveform \<Rightarrow> nat \<Rightarrow> int \<Rightarrow> nat \<Rightarrow>
     'z trigger_state_scheme \<Rightarrow> 'z trigger_state_scheme" where
  "feed_channel env callback shape stateIndex time channel s =
     (if needEvent stateIndex (getSize shape) (wave shape) channel then
        let currentValue = getChannelState (wave shape) channel stateIndex;
            e = (if currentValue = TV_RISE then riseEvents else fallEvents) ! channel
        in if isUsefulSignal env e then decodeTriggerEvent env shape callback None e time s else s
      else s)"

definition feedSimulatedEvent ::
    "decoder_env \<Rightarrow> ('z trigger_state_scheme \<Rightarrow> 'z trigger_state_scheme) option \<Rightarrow> trigger_waveform \<Rightarrow> nat \<Rightarrow>
     'z trigger_state_scheme \<Rightarrow> 'z trigger_state_scheme" where
  "feedSimulatedEvent env callback shape i s =
     (if \<not> getSize shape > 0 then decoder_report ''size not zero'' s
      else
        let stateIndex = i mod getSize shape;
            loopIndex = i div getSize shape;
            time = \<lfloor>fl32 env (of_nat SIMULATION_CYCLE_PERIOD * fl32 env (of_nat loopIndex + getSwitchTime (wave shape) stateIndex))\<rfloor>
        in fold (feed_channel env callback shape stateIndex time) [0, 1, 2] s)"

text \<open>None: no synchronization point was found.\<close>

fun findTriggerSyncPoint_loop ::
    "decoder_env \<Rightarrow> trigger_waveform \<Rightarrow> nat \<Rightarrow> nat \<Rightarrow> 'z trigger_state_scheme \<Rightarrow> nat option \<times> 'z trigger_state_scheme" where
  "findTriggerSyncPoint_loop env shape i 0 s = (None, s)"
| "findTriggerSyncPoint_loop env shape i (Suc k) s =
     (let s = feedSimulatedEvent env None shape i s
      in if shaft_is_synchronized s then (Some i, s) else findTriggerSyncPoint_loop env shape (i + 1) k s)"

definition findTriggerSyncPoint ::
    "decoder_env \<Rightarrow> trigger_waveform \<Rightarrow> 'z trigger_state_scheme \<Rightarrow> nat option \<times> trigger_waveform \<times> 'z trigger_state_scheme" where
  "findTriggerSyncPoint env shape s =
     (case findTriggerSyncPoint_loop env shape 0 (4 * PWM_PHASE_MAX_COUNT) s of
        (Some i, s) \<Rightarrow> (Some i, shape, s)
      | (None, s) \<Rightarrow> (None, shape_report ''findTriggerZeroEventIndex() failed'' (setShapeDefinitionError True shape), s))"

definition onFindIndexCallback :: "'z trigger_state_scheme \<Rightarrow> 'z trigger_state_scheme" where
  "onFindIndexCallback s =
     s\<lparr>expectedTotalTime := map (\<lambda>i. totalTimeNt (currentCycle s) ! i) [0..<PWM_PHASE_MAX_WAVE_PER_PWM]\<rparr>"

definition assertSyncPositionAndSetDutyCycle ::
    "decoder_env \<Rightarrow> nat \<Rightarrow> trigger_waveform \<Rightarrow> 'z trigger_state_scheme \<Rightarrow> trigger_waveform \<times> 'z trigger_state_scheme" where
  "assertSyncPositionAndSetDutyCycle env syncIndex shape s =
     (let s = fold (feedSimulatedEvent env (Some onFindIndexCallback) shape)
                [syncIndex + 1..<syncIndex + GAP_TRACKING_LENGTH * getSize shape + 1] s
      in if getTotalRevolutionCounter s \<noteq> int GAP_TRACKING_LENGTH + 1
         then (setShapeDefinitionError True (shape_report ''sync failed/wrong gap parameters'' shape), s)
         else (shape\<lparr>shapeDefinitionError := False,
                     expectedDutyCycle := map (\<lambda>i. fl32 env (of_int (sint (expectedTotalTime s ! i)) / of_nat SIMULATION_CYCLE_PERIOD))
                       [0..<PWM_PHASE_MAX_WAVE_PER_PWM]\<rparr>, s))"

definition findTriggerZeroEventIndex ::
    "decoder_env \<Rightarrow> trigger_waveform \<Rightarrow> 'z trigger_state_scheme \<Rightarrow> nat option \<times> trigger_waveform \<times> 'z trigger_state_scheme" where
  "findTriggerZeroEventIndex env shape s =
     (let s = resetTriggerState env s
      in if shapeDefinitionError shape then (Some 0, shape, s)
         else
           (case findTriggerSyncPoint env shape s of
              (None, shape, s) \<Rightarrow> (None, shape, s)
            | (Some syncIndex, shape, s) \<Rightarrow>
                if getTotalRevolutionCounter s \<noteq> 1 then (None, shape, decoder_report ''findZero_revCounter'' s)
                else (case assertSyncPositionAndSetDutyCycle env syncIndex shape s of
                        (shape, s) \<Rightarrow> (Some (syncIndex mod getSize shape), shape, s))))"

text \<open>
  One event of the table of angles; \<open>None\<close> is the return of a failed assertion or a loop that does
  not end. \<open>rise\<close> is the index of the last front.
\<close>

definition synch_angle ::
    "decoder_env \<Rightarrow> nat \<Rightarrow> nat \<Rightarrow> float32 \<Rightarrow> nat \<Rightarrow> nat \<times> trigger_waveform \<Rightarrow> (nat \<times> trigger_waveform) option" where
  "synch_angle env cycle len firstAngle i p =
     (case p of (rise, shape) \<Rightarrow>
        if i = 0 then
          Some (rise, shape\<lparr>eventAngles := (eventAngles shape)[0 := 0, 1 := 0], riseOnlyIndexes := (riseOnlyIndexes shape)[0 := 0]\<rparr>)
        else
          let coordinate = (triggerShapeSynchPointIndex shape + i) mod len;
              definitionIndex = (if coordinate \<ge> privateTriggerDefinitionSize shape
                                 then coordinate - privateTriggerDefinitionSize shape else coordinate)
          in (case getAngle (fl32 env) shape coordinate of
                None \<Rightarrow> None
              | Some a \<Rightarrow>
                  (case fixAngle2 (fl32 env) (Some (fl32 env (a - firstAngle))) cycle of
                     None \<Rightarrow> None
                   | Some angle \<Rightarrow>
                       let (rise, shape) =
                             (if useOnlyRisingEdgeForTrigger env then
                                if isRiseEvent shape ! definitionIndex
                                then (rise + 2, shape\<lparr>eventAngles := (eventAngles shape)[rise + 2 := angle, rise + 3 := angle]\<rparr>)
                                else (rise, shape)
                              else (rise, shape\<lparr>eventAngles := (eventAngles shape)[i := angle]\<rparr>))
                       in Some (rise, shape\<lparr>riseOnlyIndexes := (riseOnlyIndexes shape)[i := int rise]\<rparr>))))"

fun synch_angles ::
    "decoder_env \<Rightarrow> nat \<Rightarrow> nat \<Rightarrow> float32 \<Rightarrow> nat \<Rightarrow> nat \<Rightarrow> nat \<times> trigger_waveform \<Rightarrow> (nat \<times> trigger_waveform) option" where
  "synch_angles env cycle len firstAngle i 0 p = Some p"
| "synch_angles env cycle len firstAngle i (Suc k) p =
     (case synch_angle env cycle len firstAngle i p of
        None \<Rightarrow> None
      | Some p \<Rightarrow> synch_angles env cycle len firstAngle (i + 1) k p)"

text \<open>
  The angles are brought into the engine cycle that the previous configuration left in \<open>engineCycle\<close>.
  Without a synchronization point the code goes on with the index \<open>-1\<close> and reads before the array of
  switch times; here the result is None.
\<close>

definition calculateTriggerSynchPoint ::
    "decoder_env \<Rightarrow> trigger_waveform \<Rightarrow> 'z trigger_state_scheme \<Rightarrow> 'y engine_trigger_scheme \<Rightarrow>
     (trigger_waveform \<times> 'z trigger_state_scheme \<times> 'y engine_trigger_scheme) option" where
  "calculateTriggerSynchPoint env shape s engine =
     (let engine = engine\<lparr>triggerErrorDetection := cb_clear (triggerErrorDetection engine)\<rparr>
      in case findTriggerZeroEventIndex env shape s of
           (None, shape, s) \<Rightarrow> None
         | (Some syncIndex, shape, s) \<Rightarrow>
             let shape = shape\<lparr>triggerShapeSynchPointIndex := syncIndex\<rparr>;
                 len = getLength shape;
                 engine = engine\<lparr>engineCycleEventCount := len\<rparr>
             in if \<not> len > 0 then Some (shape, decoder_report ''shapeLength=0'' s, engine)
                else if len \<ge> PWM_PHASE_MAX_COUNT
                then Some (setShapeDefinitionError True (shape_report ''Count above'' shape), s, engine)
                else
                  (case getAngle (fl32 env) shape syncIndex of
                     None \<Rightarrow> None
                   | Some firstAngle \<Rightarrow>
                       (case synch_angles env (engineCycle engine) len firstAngle 0 len (0, shape) of
                          None \<Rightarrow> None
                        | Some (rise, shape) \<Rightarrow> Some (shape, s, engine))))"

subsection \<open>What the listener leaves alone\<close>

text \<open>The position of the decoder: what the decoding itself computes.\<close>

definition same_position :: "'z engine_trigger_scheme \<Rightarrow> 'z engine_trigger_scheme \<Rightarrow> bool" where
  "same_position s s' \<longleftrightarrow>
     shaft_is_synchronized s' = shaft_is_synchronized s \<and> previousShaftEventTimeNt s' = previousShaftEventTimeNt s \<and>
     toothDurations s' = toothDurations s \<and> toothed_previous_time s' = toothed_previous_time s \<and>
     currentCycle s' = currentCycle s \<and> totalRevolutionCounter s' = totalRevolutionCounter s \<and>
     totalEventCountBase s' = totalEventCountBase s \<and> isFirstEvent s' = isFirstEvent s \<and>
     totalTriggerErrorCounter s' = totalTriggerErrorCounter s \<and> triggerErrorDetection s' = triggerErrorDetection s"

definition hooks_ok :: "'z engine_hooks \<Rightarrow> bool" where
  "hooks_ok hooks \<longleftrightarrow>
     (\<forall>s nowNt. same_position s (setStopSpinning hooks s) \<and> same_position s (setSpinningUp hooks nowNt s) \<and>
        same_position s (runtimeStatistics hooks nowNt s))"

lemma same_position_refl [simp]: "same_position s s"
  by (simp add: same_position_def)

lemma same_position_trans: "same_position a b \<Longrightarrow> same_position b c \<Longrightarrow> same_position a c"
  by (simp add: same_position_def)

lemma hooks_okD:
  assumes "hooks_ok hooks"
  shows "same_position s (setStopSpinning hooks s)" "same_position s (setSpinningUp hooks nowNt s)"
    "same_position s (runtimeStatistics hooks nowNt s)"
  using assms by (simp_all add: hooks_ok_def)

lemma same_position_report [simp]: "same_position s (decoder_report msg s)"
  by (simp add: same_position_def decoder_report_def)

lemma same_position_error [simp]: "same_position s (setTriggerErrorState s)"
  by (simp add: same_position_def setTriggerErrorState_def getTimeNowNt_def)

lemma same_position_invalid [simp]: "same_position s (engine_InvalidIndex i s)"
  by (simp add: engine_InvalidIndex_def same_position_trans [OF same_position_report same_position_error])

abbreviation engine_decode ::
    "decoder_env \<Rightarrow> 'z engine_hooks \<Rightarrow> trigger_waveform \<Rightarrow> trigger_event_e \<times> int \<Rightarrow> 'z engine_trigger_scheme \<Rightarrow> 'z engine_trigger_scheme" where
  "engine_decode env hooks shape e s \<equiv> decodeTriggerEvent env shape None (Some (engine_listener hooks shape)) (fst e) (snd e) s"

lemma after_event_position:
  assumes "hooks_ok hooks"
  shows "same_position s (after_event env shape (Some (engine_listener hooks shape)) nowNt s)"
proof -
  define s1 where "s1 = (if \<not> isValidIndex shape s
      then notify (Some (engine_listener hooks shape)) (\<lambda>l. OnTriggerInvalidIndex l (current_index (currentCycle s))) s else s)"
  define s2 where "s2 = (if someSortOfTriggerError s1 then
      (case getTimeNowNt s1 of (t, s) \<Rightarrow> if t - lastDecodingErrorTime s > NT_PER_SECOND env then s\<lparr>someSortOfTriggerError := False\<rparr> else s)
      else s1)"
  have "same_position s s1" by (simp add: s1_def notify_def engine_listener_def)
  moreover have "same_position s1 s2" by (simp add: s2_def getTimeNowNt_def same_position_def)
  moreover have "after_event env shape (Some (engine_listener hooks shape)) nowNt s =
      setSpinningUp hooks nowNt (runtimeStatistics hooks nowNt s2)"
    by (simp add: after_event_def Let_def s2_def s1_def notify_def engine_listener_def)
  ultimately show ?thesis using hooks_okD [OF assms] same_position_trans by metis
qed

text \<open>The state before the edge is looked at.\<close>

lemma before_event_position:
  assumes "hooks_ok hooks" and s': "s' = before_event env (Some (engine_listener hooks shape)) nowNt s"
  shows "previousShaftEventTimeNt s' = nowNt"
    "shaft_is_synchronized s' = (shaft_is_synchronized s \<and> \<not> nowNt - previousShaftEventTimeNt s > NT_PER_SECOND env)"
    "toothDurations s' = toothDurations s" "toothed_previous_time s' = toothed_previous_time s" "currentCycle s' = currentCycle s"
    "totalRevolutionCounter s' = totalRevolutionCounter s" "totalEventCountBase s' = totalEventCountBase s"
    "isFirstEvent s' = isFirstEvent s" "totalTriggerErrorCounter s' = totalTriggerErrorCounter s"
    "triggerErrorDetection s' = triggerErrorDetection s"
  using hooks_okD(1) [OF assms(1), of "setShaftSynchronized False s"]
  by (auto simp: s' before_event_def notify_def engine_listener_def setShaftSynchronized_def same_position_def Let_def)

text \<open>The duration measured at an edge.\<close>

definition measured :: "decoder_env \<Rightarrow> 'z trigger_state_scheme \<Rightarrow> int \<Rightarrow> u32" where
  "measured env s nowNt = clip_duration env (getCurrentGapDuration nowNt s)"

lemma nextTriggerEvent_position:
  assumes s': "s' = nextTriggerEvent env w nowNt s"
  shows "shaft_is_synchronized s' = shaft_is_synchronized s" "previousShaftEventTimeNt s' = previousShaftEventTimeNt s"
    "toothDurations s' = toothDurations s" "toothed_previous_time s' = toothed_previous_time s"
    "eventCount (currentCycle s') = eventCount (currentCycle s)"
    "current_index (currentCycle s') = current_index (currentCycle s) + (if useOnlyRisingEdgeForTrigger env then 2 else 1)"
    "totalRevolutionCounter s' = totalRevolutionCounter s" "totalEventCountBase s' = totalEventCountBase s"
    "isFirstEvent s' = isFirstEvent s" "totalTriggerErrorCounter s' = totalTriggerErrorCounter s"
  by (simp_all add: s' nextTriggerEvent_def Let_def)

lemma nextTriggerEvent_window: "triggerErrorDetection (nextTriggerEvent env w nowNt s) = triggerErrorDetection s"
  by (simp add: nextTriggerEvent_def Let_def)

text \<open>An edge the wheel does not measure: a falling edge, when gaps are taken between rising edges.\<close>

definition rise_wheel :: "decoder_env \<Rightarrow> trigger_waveform \<Rightarrow> bool" where
  "rise_wheel env shape \<longleftrightarrow> \<not> useOnlyRisingEdgeForTrigger env \<and> useRiseEdge shape \<and> \<not> gapBothDirections shape \<and>
     isSynchronizationNeeded shape"

lemma note_signal_position:
  assumes s': "s' = note_signal env signal w s"
  shows "shaft_is_synchronized s' = shaft_is_synchronized s" "previousShaftEventTimeNt s' = previousShaftEventTimeNt s"
    "toothDurations s' = toothDurations s" "toothed_previous_time s' = toothed_previous_time s"
    "currentCycle s' = (currentCycle s)\<lparr>eventCount := count_event w (eventCount (currentCycle s))\<rparr>"
    "totalRevolutionCounter s' = totalRevolutionCounter s" "totalEventCountBase s' = totalEventCountBase s"
    "isFirstEvent s' = isFirstEvent s" "totalTriggerErrorCounter s' = totalTriggerErrorCounter s"
  by (simp_all add: s' note_signal_def Let_def)

lemma note_signal_window: "triggerErrorDetection (note_signal env signal w s) = triggerErrorDetection s"
  by (simp add: note_signal_def Let_def)

text \<open>The state in which an edge of the primary channel is judged.\<close>

definition judged :: "decoder_env \<Rightarrow> 'z engine_hooks \<Rightarrow> trigger_waveform \<Rightarrow> trigger_event_e \<Rightarrow> int \<Rightarrow>
    'z engine_trigger_scheme \<Rightarrow> 'z engine_trigger_scheme" where
  "judged env hooks shape signal t s =
     (let s = note_signal env signal 0 (before_event env (Some (engine_listener hooks shape)) t s)
      in s\<lparr>toothDurations := (toothDurations s)[0 := clip_duration env (getCurrentGapDuration t s)]\<rparr>)"

lemma judged_position:
  assumes hooks: "hooks_ok hooks" and s': "s' = judged env hooks shape signal t s"
  shows "previousShaftEventTimeNt s' = t"
    "shaft_is_synchronized s' = (shaft_is_synchronized s \<and> \<not> t - previousShaftEventTimeNt s > NT_PER_SECOND env)"
    "toothDurations s' = (toothDurations s)[0 := measured env s t]" "toothed_previous_time s' = toothed_previous_time s"
    "current_index (currentCycle s') = current_index (currentCycle s)"
    "eventCount (currentCycle s') = count_event 0 (eventCount (currentCycle s))"
    "totalRevolutionCounter s' = totalRevolutionCounter s" "totalEventCountBase s' = totalEventCountBase s"
    "isFirstEvent s' = isFirstEvent s" "totalTriggerErrorCounter s' = totalTriggerErrorCounter s"
    "triggerErrorDetection s' = triggerErrorDetection s"
proof -
  define s0 where "s0 = before_event env (Some (engine_listener hooks shape)) t s"
  define s1 where "s1 = note_signal env signal 0 s0"
  note b = before_event_position [OF hooks s0_def]
  note n = note_signal_position [OF s1_def] note_signal_window [of env signal 0 s0, folded s1_def]
  have e: "s' = s1\<lparr>toothDurations := (toothDurations s1)[0 := clip_duration env (getCurrentGapDuration t s1)]\<rparr>"
    by (simp add: s' judged_def Let_def s0_def s1_def)
  show "previousShaftEventTimeNt s' = t"
    "shaft_is_synchronized s' = (shaft_is_synchronized s \<and> \<not> t - previousShaftEventTimeNt s > NT_PER_SECOND env)"
    "toothDurations s' = (toothDurations s)[0 := measured env s t]" "toothed_previous_time s' = toothed_previous_time s"
    "current_index (currentCycle s') = current_index (currentCycle s)"
    "eventCount (currentCycle s') = count_event 0 (eventCount (currentCycle s))"
    "totalRevolutionCounter s' = totalRevolutionCounter s" "totalEventCountBase s' = totalEventCountBase s"
    "isFirstEvent s' = isFirstEvent s" "totalTriggerErrorCounter s' = totalTriggerErrorCounter s"
    "triggerErrorDetection s' = triggerErrorDetection s"
    by (simp_all add: e n b measured_def getCurrentGapDuration_def)
qed

lemma decode_judged:
  assumes hooks: "hooks_ok hooks" and time: "toothed_previous_time s \<le> t" and prim: "eventIndex signal = T_PRIMARY"
  shows "engine_decode env hooks shape (signal, t) s =
    after_event env shape (Some (engine_listener hooks shape)) t
      (if needToSkipFall shape (eventType signal) \<or> needToSkipRise shape (eventType signal)
       then nextTriggerEvent env 0 t (judged env hooks shape signal t s)
       else important_event env shape None (Some (engine_listener hooks shape)) 0 t (judged env hooks shape signal t s))"
proof -
  define s1 where "s1 = note_signal env signal 0 (before_event env (Some (engine_listener hooks shape)) t s)"
  have "toothed_previous_time s1 \<le> t"
    using time before_event_position(4) [OF hooks refl, of env shape t s] note_signal_position(4) [OF s1_def] by simp
  then show ?thesis using prim
    by (simp add: decodeTriggerEvent_def Let_def judged_def s1_def [symmetric] wheel_index_def considerEventForGap_def cong: if_cong)
qed

lemma decode_fall:
  assumes hooks: "hooks_ok hooks" and wheel: "rise_wheel env shape" and time: "toothed_previous_time s \<le> t"
    and s': "s' = engine_decode env hooks shape (SHAFT_PRIMARY_FALLING, t) s"
  shows "previousShaftEventTimeNt s' = t"
    "shaft_is_synchronized s' = (shaft_is_synchronized s \<and> \<not> t - previousShaftEventTimeNt s > NT_PER_SECOND env)"
    "toothDurations s' = (toothDurations s)[0 := measured env s t]" "toothed_previous_time s' = toothed_previous_time s"
    "current_index (currentCycle s') = current_index (currentCycle s) + 1"
    "eventCount (currentCycle s') = count_event 0 (eventCount (currentCycle s))"
    "totalRevolutionCounter s' = totalRevolutionCounter s" "totalEventCountBase s' = totalEventCountBase s"
    "isFirstEvent s' = isFirstEvent s" "totalTriggerErrorCounter s' = totalTriggerErrorCounter s"
    "triggerErrorDetection s' = triggerErrorDetection s"
proof -
  define s3 where "s3 = judged env hooks shape SHAFT_PRIMARY_FALLING t s"
  define s4 where "s4 = nextTriggerEvent env 0 t s3"
  note j = judged_position [OF hooks s3_def]
  note n = nextTriggerEvent_position [OF s4_def] nextTriggerEvent_window [of env 0 t s3, folded s4_def]
  have "needToSkipFall shape TV_FALL" using wheel by (simp add: rise_wheel_def needToSkipFall_def)
  then have "s' = after_event env shape (Some (engine_listener hooks shape)) t s4"
    using decode_judged [OF hooks time, of SHAFT_PRIMARY_FALLING env shape]
    by (simp add: s' s3_def s4_def eventIndex_def eventType_def)
  then have "same_position s4 s'" using after_event_position [OF hooks] by simp
  then show "previousShaftEventTimeNt s' = t"
    "shaft_is_synchronized s' = (shaft_is_synchronized s \<and> \<not> t - previousShaftEventTimeNt s > NT_PER_SECOND env)"
    "toothDurations s' = (toothDurations s)[0 := measured env s t]" "toothed_previous_time s' = toothed_previous_time s"
    "current_index (currentCycle s') = current_index (currentCycle s) + 1"
    "eventCount (currentCycle s') = count_event 0 (eventCount (currentCycle s))"
    "totalRevolutionCounter s' = totalRevolutionCounter s" "totalEventCountBase s' = totalEventCountBase s"
    "isFirstEvent s' = isFirstEvent s" "totalTriggerErrorCounter s' = totalTriggerErrorCounter s"
    "triggerErrorDetection s' = triggerErrorDetection s"
    using wheel unfolding same_position_def rise_wheel_def by (simp_all add: n j)
qed

lemma shiftDurations_5:
  assumes "length d = 5"
  shows "shiftDurations d = d ! 0 # take 4 d"
proof -
  obtain a b c e f where d: "d = [a, b, c, e, f]"
    using assms by (auto simp: length_Suc_conv eval_nat_numeral)
  have "rev [1..<GAP_TRACKING_LENGTH + 1] = [4, 3, 2, 1]" by (simp add: GAP_TRACKING_LENGTH_def upt_rec)
  then show ?thesis by (simp add: shiftDurations_def d)
qed

text \<open>What the listener adds at a synchronization point.\<close>

lemma engine_Syncronization_position:
  assumes s': "s' = engine_Syncronization shape was s"
  defines "err \<equiv> was \<and> validateEventCounters shape s"
  shows "shaft_is_synchronized s' = shaft_is_synchronized s" "previousShaftEventTimeNt s' = previousShaftEventTimeNt s"
    "toothDurations s' = toothDurations s" "toothed_previous_time s' = toothed_previous_time s"
    "currentCycle s' = currentCycle s" "totalRevolutionCounter s' = totalRevolutionCounter s"
    "totalEventCountBase s' = totalEventCountBase s" "isFirstEvent s' = isFirstEvent s"
    "totalTriggerErrorCounter s' = totalTriggerErrorCounter s + of_bool err"
    "triggerErrorDetection s' = (if was then cb_add (of_bool err) (triggerErrorDetection s) else triggerErrorDetection s)"
  by (auto simp: s' err_def engine_Syncronization_def engine_DecodingError_def setTriggerErrorState_def getTimeNowNt_def
      decoder_report_def Let_def)

definition at_rise :: "decoder_env \<Rightarrow> trigger_waveform \<Rightarrow> int \<Rightarrow> 'z engine_trigger_scheme \<Rightarrow> 'z engine_trigger_scheme \<Rightarrow> bool" where
  "at_rise env shape t s3 s' \<longleftrightarrow>
     (let sp = isSync env shape (toothDurations s3);
          err = shaft_is_synchronized s3 \<and> validateEventCounters shape s3
      in previousShaftEventTimeNt s' = previousShaftEventTimeNt s3 \<and>
         shaft_is_synchronized s' = (sp \<or> shaft_is_synchronized s3) \<and>
         toothDurations s' = shiftDurations (toothDurations s3) \<and> toothed_previous_time s' = t \<and> \<not> isFirstEvent s' \<and>
         current_index (currentCycle s') = (if sp then 0 else current_index (currentCycle s3) + 1) \<and>
         eventCount (currentCycle s') = (if sp then [0, 0, 0] else eventCount (currentCycle s3)) \<and>
         totalRevolutionCounter s' = totalRevolutionCounter s3 + of_bool sp \<and>
         totalEventCountBase s' = totalEventCountBase s3 + (if sp then int (getSize shape) else 0) \<and>
         totalTriggerErrorCounter s' = totalTriggerErrorCounter s3 + of_bool (sp \<and> err) \<and>
         triggerErrorDetection s' =
           (if sp \<and> shaft_is_synchronized s3 then cb_add (of_bool err) (triggerErrorDetection s3) else triggerErrorDetection s3))"

lemma important_event_position:
  assumes wheel: "rise_wheel env shape"
  shows "at_rise env shape t s3 (important_event env shape None (Some (engine_listener hooks shape)) 0 t s3)"
proof (cases "isSync env shape (toothDurations s3)")
  case True
  define a where "a = s3\<lparr>isFirstEvent := False\<rparr>"
  define b where "b = engine_Syncronization shape (shaft_is_synchronized a) a"
  define c where "c = setShaftSynchronized True b"
  define e where "e = nextTriggerEvent env 0 t c"
  note pb = engine_Syncronization_position [OF b_def]
  note pe = nextTriggerEvent_position [OF e_def] nextTriggerEvent_window [of env 0 t c, folded e_def]
  have pc: "shaft_is_synchronized c" "previousShaftEventTimeNt c = previousShaftEventTimeNt b" "toothDurations c = toothDurations b"
    "toothed_previous_time c = toothed_previous_time b" "currentCycle c = currentCycle b"
    "totalRevolutionCounter c = totalRevolutionCounter b" "totalEventCountBase c = totalEventCountBase b"
    "isFirstEvent c = isFirstEvent b" "totalTriggerErrorCounter c = totalTriggerErrorCounter b"
    "triggerErrorDetection c = triggerErrorDetection b"
    by (simp_all add: c_def setShaftSynchronized_def getTimeNowNt_def Let_def)
  have va: "validateEventCounters shape a = validateEventCounters shape s3" by (simp add: a_def validateEventCounters_def)
  have "isSynchronizationPoint env shape a" using True wheel by (simp add: a_def isSynchronizationPoint_def rise_wheel_def)
  then have "important_event env shape None (Some (engine_listener hooks shape)) 0 t s3 =
      (onShaftSynchronization None t shape e)\<lparr>toothDurations := shiftDurations (toothDurations (onShaftSynchronization None t shape e)),
        toothed_previous_time := t\<rparr>"
    by (simp add: important_event_def Let_def a_def [symmetric] notify_def engine_listener_def b_def c_def e_def)
  moreover have "toothDurations (onShaftSynchronization None t shape e) = toothDurations s3"
    by (simp add: onShaftSynchronization_def Let_def resetCurrentCycleState_def incrementTotalEventCounter_def pe pc pb a_def)
  ultimately show ?thesis
    using True pb(9,10)
    by (simp add: at_rise_def onShaftSynchronization_def Let_def resetCurrentCycleState_def incrementTotalEventCounter_def
        pe pc pb va [unfolded a_def] a_def PWM_PHASE_MAX_WAVE_PER_PWM_def eval_nat_numeral)
next
  case False
  define a where "a = s3\<lparr>isFirstEvent := False\<rparr>"
  define e where "e = nextTriggerEvent env 0 t a"
  note pe = nextTriggerEvent_position [OF e_def] nextTriggerEvent_window [of env 0 t a, folded e_def]
  have "\<not> isSynchronizationPoint env shape a" using False wheel by (simp add: a_def isSynchronizationPoint_def rise_wheel_def)
  then have "important_event env shape None (Some (engine_listener hooks shape)) 0 t s3 =
      e\<lparr>toothDurations := shiftDurations (toothDurations e), toothed_previous_time := t\<rparr>"
    by (simp add: important_event_def Let_def a_def [symmetric] e_def)
  then show ?thesis using False wheel by (simp add: at_rise_def Let_def pe a_def rise_wheel_def)
qed

lemma decode_rise:
  assumes hooks: "hooks_ok hooks" and wheel: "rise_wheel env shape" and time: "toothed_previous_time s \<le> t"
    and s': "s' = engine_decode env hooks shape (SHAFT_PRIMARY_RISING, t) s"
  shows "at_rise env shape t (judged env hooks shape SHAFT_PRIMARY_RISING t s) s'"
proof -
  define s4 where "s4 = important_event env shape None (Some (engine_listener hooks shape)) 0 t (judged env hooks shape SHAFT_PRIMARY_RISING t s)"
  have "s' = after_event env shape (Some (engine_listener hooks shape)) t s4"
    using decode_judged [OF hooks time, of SHAFT_PRIMARY_RISING env shape] wheel
    by (simp add: s' s4_def eventIndex_def eventType_def needToSkipFall_def needToSkipRise_def rise_wheel_def)
  then have "same_position s4 s'" using after_event_position [OF hooks] by simp
  moreover have "at_rise env shape t (judged env hooks shape SHAFT_PRIMARY_RISING t s) s4"
    unfolding s4_def by (rule important_event_position [OF wheel])
  ultimately show ?thesis by (simp add: at_rise_def same_position_def Let_def)
qed

subsection \<open>A wheel with missing teeth\<close>

text \<open>The shape of a wheel with \<open>m\<close> teeth and a gap of \<open>k\<close> more, gaps measured between rising edges.\<close>

definition toothed_shape :: "rounding \<Rightarrow> trigger_waveform \<Rightarrow> nat \<Rightarrow> nat \<Rightarrow> bool" where
  "toothed_shape fl shape m k \<longleftrightarrow>
     2 \<le> m \<and> m \<le> 140 \<and> 1 \<le> k \<and> k < 2 ^ 16 \<and> isSynchronizationNeeded shape \<and> useRiseEdge shape \<and> \<not> gapBothDirections shape \<and>
     getSize shape = 2 * m \<and> expectedEventCount shape = [word_of_nat (2 * m), 0, 0] \<and>
     syncronizationRatioFrom shape = [Some (fl (of_nat (k + 1) * (3 / 4))), None, None, None] \<and>
     syncronizationRatioTo shape ! 0 = fl (of_nat (k + 1) * (5 / 4))"

text \<open>The rounded product of a duration and a ratio.\<close>

lemma ratio_bounds:
  assumes fl: "float_ok fl" and q: "1 \<le> q" "q \<le> 2 ^ 32" and K: "2 \<le> K" "K \<le> 2 ^ 17" and c: "3 / 4 \<le> c" "c \<le> 5 / 4"
  defines "x \<equiv> fl (fl q * fl (K * c))"
  shows "q * (K * c) * (1 - 1 / 2 ^ 20) \<le> x" "x \<le> q * (K * c) * (1 + 1 / 2 ^ 20)"
proof -
  let ?l = "1 - 1 / 2 ^ 24 :: rat" and ?h = "1 + 1 / 2 ^ 24 :: rat"
  have Kc: "3 / 2 \<le> K * c" "K * c \<le> 2 ^ 18"
    using mult_mono [OF K(1) c(1)] mult_mono [OF K(2) c(2)] K c by simp_all
  have fq: "q * ?l \<le> fl q" "fl q \<le> q * ?h" using float_okD [OF fl q(1)] q(2) by simp_all
  have fk: "K * c * ?l \<le> fl (K * c)" "fl (K * c) \<le> K * c * ?h" using float_okD [OF fl, of "K * c"] Kc by simp_all
  have pos: "0 \<le> fl q" "0 \<le> fl (K * c)" using fq(1) fk(1) q(1) Kc(1) by (auto intro: order_trans [rotated])
  have lo: "q * (K * c) * (?l * ?l) \<le> fl q * fl (K * c)"
    using mult_mono [OF fq(1) fk(1)] pos q(1) Kc(1) by (simp add: ac_simps)
  have hi: "fl q * fl (K * c) \<le> q * (K * c) * (?h * ?h)"
    using mult_mono [OF fq(2) fk(2)] pos q(1) by (simp add: ac_simps)
  have qk: "3 / 2 \<le> q * (K * c)" using mult_mono [OF q(1) Kc(1)] q(1) by simp
  have "3 / 2 * (?l * ?l) \<le> q * (K * c) * (?l * ?l)" by (rule mult_right_mono [OF qk]) simp
  then have "3 / 2 * (?l * ?l) \<le> fl q * fl (K * c)" using lo by (rule order_trans)
  moreover have "1 \<le> 3 / 2 * (?l * ?l)" by simp
  ultimately have one: "1 \<le> fl q * fl (K * c)" by (rule order_trans [rotated])
  have "q * (K * c) \<le> 2 ^ 32 * 2 ^ 18" using mult_mono [OF q(2) Kc(2)] Kc(1) by simp
  then have "q * (K * c) * (?h * ?h) \<le> 2 ^ 32 * 2 ^ 18 * (?h * ?h)" by (rule mult_right_mono) simp
  then have "fl q * fl (K * c) \<le> 2 ^ 32 * 2 ^ 18 * (?h * ?h)" using hi by (rule order_trans [rotated])
  moreover have "2 ^ 32 * 2 ^ 18 * (?h * ?h) \<le> 2 ^ 64" by simp
  ultimately have big: "fl q * fl (K * c) \<le> 2 ^ 64" by (rule order_trans)
  note fx = float_okD [OF fl one big, folded x_def]
  have qk0: "0 \<le> q * (K * c)" using qk by (rule order_trans [rotated]) simp
  have "q * (K * c) * (1 - 1 / 2 ^ 20) \<le> q * (K * c) * (?l * ?l * ?l)" by (rule mult_left_mono [OF _ qk0]) simp
  also have "\<dots> = q * (K * c) * (?l * ?l) * ?l" by (simp only: mult.assoc)
  also have "\<dots> \<le> fl q * fl (K * c) * ?l" by (rule mult_right_mono [OF lo]) simp
  finally show "q * (K * c) * (1 - 1 / 2 ^ 20) \<le> x" using fx(1) by (rule order_trans)
  have "x \<le> fl q * fl (K * c) * ?h" by (rule fx(2))
  also have "\<dots> \<le> q * (K * c) * (?h * ?h) * ?h" by (rule mult_right_mono [OF hi]) simp
  also have "\<dots> = q * (K * c) * (?h * ?h * ?h)" by (simp only: mult.assoc)
  also have "\<dots> \<le> q * (K * c) * (1 + 1 / 2 ^ 20)" by (rule mult_left_mono [OF _ qk0]) simp
  finally show "x \<le> q * (K * c) * (1 + 1 / 2 ^ 20)" .
qed

lemma duration_range:
  fixes d :: u32
  assumes "0 < unat d"
  shows "1 \<le> (of_nat (unat d) :: rat)" "(of_nat (unat d) :: rat) \<le> 2 ^ 32"
proof -
  have "unat d < 2 ^ 32" using unsigned_less [of d, where 'a = nat] by simp
  then have "of_nat (unat d) \<le> (of_nat (2 ^ 32) :: rat)" by (simp only: of_nat_le_iff)
  then show "(of_nat (unat d) :: rat) \<le> 2 ^ 32" by simp
  have "of_nat 1 \<le> (of_nat (unat d) :: rat)" using assms by (simp only: of_nat_le_iff)
  then show "1 \<le> (of_nat (unat d) :: rat)" by simp
qed

text \<open>The first gap condition tells the gap from the teeth, with a speed change of up to a fifth per tooth.\<close>

lemma gap_detected:
  assumes fl: "float_ok fl" and K: "2 \<le> K" "K \<le> 2 ^ 17" and pos: "0 < unat cur" "0 < unat prev"
    and lo: "5 * of_nat (unat prev) * K \<le> 6 * (of_nat (unat cur) :: rat)"
    and hi: "5 * of_nat (unat cur) \<le> 6 * (of_nat (unat prev) * K :: rat)"
  shows "isGapCondition fl (Some (fl (K * (3 / 4)))) (fl (K * (5 / 4))) cur prev"
proof -
  let ?c = "of_nat (unat cur) :: rat" and ?q = "of_nat (unat prev) :: rat"
  have c: "1 \<le> ?c" "?c \<le> 2 ^ 64" and q: "1 \<le> ?q" "?q \<le> 2 ^ 32"
    using duration_range [OF pos(1)] duration_range [OF pos(2)] by simp_all
  note fc = float_okD [OF fl c]
  have p: "0 < ?q * K" using q(1) K(1) by simp
  have "fl (fl ?q * fl (K * (3 / 4))) \<le> ?q * K * (3 / 4 * (1 + 1 / 2 ^ 20))"
    using ratio_bounds(2) [OF fl q K, of "3 / 4"] by (simp add: ac_simps)
  also have "\<dots> < ?q * K * (5 / 6 * (1 - 1 / 2 ^ 24))" by (rule mult_strict_left_mono [OF _ p]) simp
  also have "\<dots> \<le> ?c * (1 - 1 / 2 ^ 24)" using lo by (simp add: mult.commute mult.left_commute)
  also have "\<dots> \<le> fl ?c" by (rule fc(1))
  finally have 1: "fl (fl ?q * fl (K * (3 / 4))) < fl ?c" .
  have "fl ?c \<le> ?c * (1 + 1 / 2 ^ 24)" by (rule fc(2))
  also have "\<dots> \<le> ?q * K * (6 / 5 * (1 + 1 / 2 ^ 24))" using hi by (simp add: mult.commute mult.left_commute)
  also have "\<dots> < ?q * K * (5 / 4 * (1 - 1 / 2 ^ 20))" by (rule mult_strict_left_mono [OF _ p]) simp
  also have "\<dots> \<le> fl (fl ?q * fl (K * (5 / 4)))"
    using ratio_bounds(1) [OF fl q K, of "5 / 4"] by (simp add: ac_simps)
  finally show ?thesis using 1 by (simp add: isGapCondition_def)
qed

lemma tooth_no_gap:
  assumes fl: "float_ok fl" and K: "2 \<le> K" "K \<le> 2 ^ 17" and pos: "0 < unat cur" "0 < unat prev"
    and hi: "5 * of_nat (unat cur) \<le> 6 * (of_nat (unat prev) :: rat)"
  shows "\<not> isGapCondition fl (Some (fl (K * (3 / 4)))) t cur prev"
proof -
  let ?c = "of_nat (unat cur) :: rat" and ?q = "of_nat (unat prev) :: rat"
  have c: "1 \<le> ?c" "?c \<le> 2 ^ 64" and q: "1 \<le> ?q" "?q \<le> 2 ^ 32"
    using duration_range [OF pos(1)] duration_range [OF pos(2)] by simp_all
  have "fl ?c \<le> ?c * (1 + 1 / 2 ^ 24)" by (rule float_okD(2) [OF fl c])
  also have "\<dots> \<le> ?q * (6 / 5 * (1 + 1 / 2 ^ 24))" using hi by simp
  also have "\<dots> \<le> ?q * (3 / 2 * (1 - 1 / 2 ^ 20))" using q(1) by simp
  also have "\<dots> \<le> ?q * (K * (3 / 4) * (1 - 1 / 2 ^ 20))" using q(1) K(1) by simp
  also have "\<dots> \<le> fl (fl ?q * fl (K * (3 / 4)))"
    using ratio_bounds(1) [OF fl q K, of "3 / 4"] by (simp add: ac_simps)
  finally show ?thesis by (simp add: isGapCondition_def)
qed

end
