(* ===== verification/Rpm_Calculator.thy ===== *)
theory Rpm_Calculator
  imports Trigger_Decoder
begin

text \<open>
  The RPM calculator, src/firmware/controllers/engine_cycle/rpm_calculator.cpp, with the instant RPM of
  \<open>TriggerStateWithRunningStatistics\<close> (controllers/trigger/trigger_decoder.cpp). Its members extend the
  record of the decoder. An angle or a duration that is NaN is None. The periodic callback of the engine, the list of
  fuel events and the table of ignition pins are parameters; the sensor chart and the engine sniffer are left out.
\<close>

datatype spinning_state_e = STOPPED | SPINNING_UP | CRANKING | RUNNING

definition NOISY_RPM :: int where "NOISY_RPM = -1"
definition UNREALISTIC_RPM :: int where "UNREALISTIC_RPM = 30000"
definition RPM_LOW_THRESHOLD :: int where "RPM_LOW_THRESHOLD = 25"
definition NO_RPM_EVENTS_TIMEOUT_SECS :: int where "NO_RPM_EVENTS_TIMEOUT_SECS = 2"
definition PRE_SYNC_EVENTS :: nat where "PRE_SYNC_EVENTS = PWM_PHASE_MAX_COUNT div 4"

record engine_rpm = engine_trigger +
  previousRpmValue :: int
  oneDegreeUs :: "float32 option"
  lastRpmEventTimeNt :: int
  revolutionCounterSinceBoot :: u32
  revolutionCounterSinceStart :: u32
  rpmState :: spinning_state_e
  calculator_isSpinning :: bool
  stopEngineRequestTimeNt :: int
  spinningEventIndex :: nat
  spinningEvents :: "u32 list"
  timeOfLastEvent :: "u32 list"
  instantRpmValue :: "float32 list"
  prevInstantRpmValue :: float32

record rpm_config =
  fl64 :: rounding
  cranking_rpm :: int
  isFasterEngineSpinUpEnabled :: bool
  stackAvailable :: bool

record 'z rpm_calls =
  periodicFastCallback :: "'z engine_rpm_scheme \<Rightarrow> 'z engine_rpm_scheme"
  addFuelEvents :: "'z engine_rpm_scheme \<Rightarrow> 'z engine_rpm_scheme"
  prepareIgnitionPinIndices :: "'z engine_rpm_scheme \<Rightarrow> 'z engine_rpm_scheme"

text \<open>The conversion of a \<open>float\<close> to an \<open>int\<close> cuts the fraction off.\<close>

definition c_trunc :: "rat \<Rightarrow> int" where
  "c_trunc x = (if x < 0 then - \<lfloor>- x\<rfloor> else \<lfloor>x\<rfloor>)"

subsection \<open>State\<close>

definition isStopped :: "'z engine_rpm_scheme \<Rightarrow> bool" where
  "isStopped s = (rpmState s = STOPPED \<or> (rpmState s = SPINNING_UP \<and> rpmValue s = 0))"

definition isCranking :: "'z engine_rpm_scheme \<Rightarrow> bool" where
  "isCranking s = (rpmState s = CRANKING \<or> (rpmState s = SPINNING_UP \<and> rpmValue s > 0))"

definition isSpinningUp :: "'z engine_rpm_scheme \<Rightarrow> bool" where
  "isSpinningUp s = (rpmState s = SPINNING_UP)"

definition isRunning :: "'z engine_rpm_scheme \<Rightarrow> bool" where
  "isRunning s = (rpmState s = RUNNING)"

definition isValidRpm :: "int \<Rightarrow> bool" where
  "isValidRpm rpm = (rpm > 0 \<and> rpm < UNREALISTIC_RPM)"

definition needToStopEngine :: "decoder_env \<Rightarrow> int \<Rightarrow> 'z engine_rpm_scheme \<Rightarrow> bool" where
  "needToStopEngine env nowNt s =
     (stopEngineRequestTimeNt s \<noteq> 0 \<and> nowNt - stopEngineRequestTimeNt s < 3 * NT_PER_SECOND env)"

definition checkIfSpinning :: "decoder_env \<Rightarrow> int \<Rightarrow> 'z engine_rpm_scheme \<Rightarrow> bool" where
  "checkIfSpinning env nowNt s =
     (if needToStopEngine env nowNt s then False
      else
        let noRpmEventsForTooLong = nowNt - lastRpmEventTimeNt s \<ge> NT_PER_SECOND env * NO_RPM_EVENTS_TIMEOUT_SECS;
            noTriggerEventsForTooLong = nowNt - previousShaftEventTimeNt s \<ge> NT_PER_SECOND env
        in if noRpmEventsForTooLong \<or> noTriggerEventsForTooLong then False else True)"

text \<open>\<open>1000000.0f * 60 / 360 / rpm\<close>, each operation in single precision.\<close>

definition getOneDegreeTimeUs :: "rounding \<Rightarrow> float32 \<Rightarrow> float32" where
  "getOneDegreeTimeUs fl rpm = fl (fl (fl (1000000 * 60) / 360) / rpm)"

definition assignRpmValue ::
    "decoder_env \<Rightarrow> 'z rpm_calls \<Rightarrow> float32 \<Rightarrow> 'z engine_rpm_scheme \<Rightarrow> 'z engine_rpm_scheme" where
  "assignRpmValue env ext floatRpmValue s =
     (let s = s\<lparr>previousRpmValue := rpmValue s\<rparr>;
          s = s\<lparr>rpmValue := c_trunc floatRpmValue\<rparr>
      in if rpmValue s \<le> 0 then s\<lparr>oneDegreeUs := None\<rparr>
         else
           let s = s\<lparr>oneDegreeUs := Some (getOneDegreeTimeUs (fl32 env) floatRpmValue)\<rparr>
           in if previousRpmValue s = 0 then periodicFastCallback ext s else s)"

definition next_state :: "rpm_config \<Rightarrow> int \<Rightarrow> spinning_state_e \<Rightarrow> spinning_state_e" where
  "next_state cfg rpm st =
     (if rpm = 0 then STOPPED
      else if rpm \<ge> cranking_rpm cfg then RUNNING
      else if st = STOPPED \<or> st = SPINNING_UP then CRANKING
      else st)"

definition setRpmValue ::
    "decoder_env \<Rightarrow> rpm_config \<Rightarrow> 'z rpm_calls \<Rightarrow> float32 \<Rightarrow> 'z engine_rpm_scheme \<Rightarrow> 'z engine_rpm_scheme" where
  "setRpmValue env cfg ext v s =
     (let s = assignRpmValue env ext v s;
          oldState = rpmState s;
          s = s\<lparr>rpmState := next_state cfg (rpmValue s) (rpmState s)\<rparr>
      in if rpmState s \<noteq> oldState then addFuelEvents ext s else s)"

definition onNewEngineCycle :: "'z engine_rpm_scheme \<Rightarrow> 'z engine_rpm_scheme" where
  "onNewEngineCycle s =
     s\<lparr>revolutionCounterSinceBoot := revolutionCounterSinceBoot s + 1,
       revolutionCounterSinceStart := revolutionCounterSinceStart s + 1\<rparr>"

definition setStopped :: "decoder_env \<Rightarrow> 'z rpm_calls \<Rightarrow> 'z engine_rpm_scheme \<Rightarrow> 'z engine_rpm_scheme" where
  "setStopped env ext s =
     (let s = s\<lparr>revolutionCounterSinceStart := 0\<rparr>;
          s = (if rpmValue s \<noteq> 0 then decoder_report ''engine stopped'' (assignRpmValue env ext 0 s) else s)
      in s\<lparr>rpmState := STOPPED\<rparr>)"

definition calculator_setStopSpinning :: "decoder_env \<Rightarrow> 'z rpm_calls \<Rightarrow> 'z engine_rpm_scheme \<Rightarrow> 'z engine_rpm_scheme" where
  "calculator_setStopSpinning env ext s = setStopped env ext (s\<lparr>calculator_isSpinning := False\<rparr>)"

definition setLastEventTimeForInstantRpm :: "int \<Rightarrow> 'z engine_rpm_scheme \<Rightarrow> 'z engine_rpm_scheme" where
  "setLastEventTimeForInstantRpm nowNt s =
     (if shaft_is_synchronized s then s
      else if spinningEventIndex s \<ge> PRE_SYNC_EVENTS then s
      else s\<lparr>spinningEvents := (spinningEvents s)[spinningEventIndex s := word_of_int nowNt],
             spinningEventIndex := spinningEventIndex s + 1\<rparr>)"

definition calculator_setSpinningUp ::
    "rpm_config \<Rightarrow> 'z rpm_calls \<Rightarrow> int \<Rightarrow> 'z engine_rpm_scheme \<Rightarrow> 'z engine_rpm_scheme" where
  "calculator_setSpinningUp cfg ext nowNt s =
     (if \<not> isFasterEngineSpinUpEnabled cfg then s
      else
        let s = (if isStopped s \<and> \<not> calculator_isSpinning s
                 then s\<lparr>rpmState := SPINNING_UP, spinningEventIndex := 0, calculator_isSpinning := True\<rparr> else s);
            s = (if isSpinningUp s then setLastEventTimeForInstantRpm nowNt s else s)
        in prepareIgnitionPinIndices ext s)"

subsection \<open>Instant RPM\<close>

text \<open>
  The loop that places the events before the synchronization. None is an element outside the array: the
  index \<open>getTriggerSize() - i\<close> is unsigned and wraps around for \<open>i\<close> above the size.
\<close>

fun movePreSynch_loop :: "nat \<Rightarrow> u32 list \<Rightarrow> nat \<Rightarrow> nat \<Rightarrow> u32 list \<Rightarrow> u32 list option" where
  "movePreSynch_loop sz events i 0 ts = Some ts"
| "movePreSynch_loop sz events i (Suc k) ts =
     (if i \<le> sz \<and> sz - i < length ts then movePreSynch_loop sz events (i + 1) k (ts[sz - i := events ! i]) else None)"

definition movePreSynchTimestamps :: "trigger_waveform \<Rightarrow> 'z engine_rpm_scheme \<Rightarrow> 'z engine_rpm_scheme option" where
  "movePreSynchTimestamps shape s =
     map_option (\<lambda>ts. s\<lparr>timeOfLastEvent := ts\<rparr>)
       (movePreSynch_loop (privateTriggerDefinitionSize shape) (spinningEvents s) 0 (spinningEventIndex s) (timeOfLastEvent s))"

text \<open>\<open>(60000000.0 / 360 * US_TO_NT_MULTIPLIER) * angleDiff / time\<close> in double precision, stored in a \<open>float\<close>.\<close>

definition instant_rpm :: "decoder_env \<Rightarrow> rpm_config \<Rightarrow> float32 \<Rightarrow> u32 \<Rightarrow> float32" where
  "instant_rpm env cfg angleDiff time =
     fl32 env (fl64 cfg (fl64 cfg (fl64 cfg (fl64 cfg (60000000 / 360) * of_int (ntPerUs env)) * angleDiff) / of_nat (unat time)))"

text \<open>The result is the index a quarter turn ago and the RPM. None: a loop of \<open>fixAngle\<close> does not end.\<close>

definition calculateInstantRpm ::
    "decoder_env \<Rightarrow> rpm_config \<Rightarrow> trigger_waveform \<Rightarrow> int \<Rightarrow> 'z engine_rpm_scheme \<Rightarrow>
     (int \<times> float32 \<times> 'z engine_rpm_scheme) option" where
  "calculateInstantRpm env cfg shape nowNt s =
     (let i = unat (current_index (currentCycle s));
          s = s\<lparr>timeOfLastEvent := (timeOfLastEvent s)[i := word_of_int nowNt]\<rparr>;
          currentAngle = eventAngles shape ! i
      in case fixAngle2 (fl32 env) (Some (fl32 env (currentAngle - 90))) (engineCycle s) of
           None \<Rightarrow> None
         | Some prevAngle \<Rightarrow>
             let prevIndex = triggerIndexByAngle shape ! nat \<lfloor>prevAngle\<rfloor>;
                 prevIndexAngle = eventAngles shape ! nat prevIndex;
                 time90ago = timeOfLastEvent s ! nat prevIndex
             in if time90ago = 0 then Some (prevIndex, prevInstantRpmValue s, s)
                else
                  let time = (word_of_int (nowNt - uint time90ago) :: u32)
                  in case fixAngle2 (fl32 env) (Some (fl32 env (currentAngle - prevIndexAngle))) (engineCycle s) of
                       None \<Rightarrow> None
                     | Some angleDiff \<Rightarrow>
                         if time = 0 then Some (prevIndex, prevInstantRpmValue s, s)
                         else
                           let r = instant_rpm env cfg angleDiff time;
                               s = s\<lparr>instantRpmValue := (instantRpmValue s)[i := r]\<rparr>
                           in if r < of_int RPM_LOW_THRESHOLD then Some (prevIndex, prevInstantRpmValue s, s)
                              else Some (prevIndex, r, s\<lparr>prevInstantRpmValue := r\<rparr>))"

subsection \<open>The shaft position callback\<close>

text \<open>\<open>60.0 * NT_PER_SECOND * mult / diffNt\<close>, in double precision, stored in a \<open>float\<close>.\<close>

definition cycle_rpm :: "decoder_env \<Rightarrow> rpm_config \<Rightarrow> operation_mode_e \<Rightarrow> int \<Rightarrow> float32" where
  "cycle_rpm env cfg mode diffNt =
     (let mult = getEngineCycle mode div 360
      in fl32 env (fl64 cfg (fl64 cfg (fl64 cfg (60 * of_int (NT_PER_SECOND env)) * of_nat mult) / of_int diffNt)))"

text \<open>What happens at the first event of an engine cycle.\<close>

definition new_cycle ::
    "decoder_env \<Rightarrow> rpm_config \<Rightarrow> 'z rpm_calls \<Rightarrow> operation_mode_e \<Rightarrow> int \<Rightarrow> 'z engine_rpm_scheme \<Rightarrow> 'z engine_rpm_scheme" where
  "new_cycle env cfg ext mode nowNt s =
     (let s = (if checkIfSpinning env nowNt s then
                 let diffNt = nowNt - lastRpmEventTimeNt s
                 in if diffNt = 0 then setRpmValue env cfg ext (of_int NOISY_RPM) s
                    else
                      let rpm = cycle_rpm env cfg mode diffNt
                      in setRpmValue env cfg ext (if rpm > of_int UNREALISTIC_RPM then of_int NOISY_RPM else rpm) s
               else s);
          s = onNewEngineCycle s
      in s\<lparr>lastRpmEventTimeNt := nowNt\<rparr>)"

definition rpmShaftPositionCallback ::
    "decoder_env \<Rightarrow> rpm_config \<Rightarrow> 'z rpm_calls \<Rightarrow> trigger_waveform \<Rightarrow> operation_mode_e \<Rightarrow> u32 \<Rightarrow> int \<Rightarrow>
     'z engine_rpm_scheme \<Rightarrow> 'z engine_rpm_scheme option" where
  "rpmShaftPositionCallback env cfg ext shape mode index nowNt s =
     (if \<not> stackAvailable cfg then Some (decoder_report ''lowstckRCL'' s)
      else
        let s = (if index = 0 then new_cycle env cfg ext mode nowNt s else s)
        in if isSpinningUp s then
             (case movePreSynchTimestamps shape s of
                None \<Rightarrow> None
              | Some s \<Rightarrow>
                  (case calculateInstantRpm env cfg shape nowNt s of
                     None \<Rightarrow> None
                   | Some (prevIndex, instantRpm, s) \<Rightarrow>
                       Some (assignRpmValue env ext (of_int (min (c_trunc instantRpm) (cranking_rpm cfg - 1))) s)))
           else Some s)"

text \<open>\<open>getCrankshaftAngleNt\<close>; \<open>getOneDegreeTimeNt\<close> is \<open>US2NT(1000000) * 60.0f / 360 / rpm\<close>.\<close>

definition getOneDegreeTimeNt :: "decoder_env \<Rightarrow> int \<Rightarrow> float32" where
  "getOneDegreeTimeNt env rpm =
     (let fl = fl32 env in fl (fl (fl (fl (of_int (NT_PER_SECOND env)) * 60) / 360) / fl (of_int rpm)))"

definition getCrankshaftAngleNt :: "decoder_env \<Rightarrow> int \<Rightarrow> 'z engine_rpm_scheme \<Rightarrow> float32 option" where
  "getCrankshaftAngleNt env timeNt s =
     (let timeSinceZeroAngleNt = timeNt - lastRpmEventTimeNt s; rpm = rpmValue s
      in if rpm = 0 then None else Some (fl32 env (fl32 env (of_int timeSinceZeroAngleNt) / getOneDegreeTimeNt env rpm)))"

text \<open>The time at which \<open>scheduleByAngle\<close> asks the executor to run the action.\<close>

definition scheduleByAngle_time :: "decoder_env \<Rightarrow> int \<Rightarrow> float32 \<Rightarrow> 'z engine_rpm_scheme \<Rightarrow> int option" where
  "scheduleByAngle_time env edgeTimestamp angle s =
     map_option (\<lambda>oneDegree. edgeTimestamp + c_trunc (fl32 env (oneDegree * angle)) * ntPerUs env) (oneDegreeUs s)"

definition rpm_hooks :: "decoder_env \<Rightarrow> rpm_config \<Rightarrow> 'z rpm_calls \<Rightarrow> 'z engine_rpm_ext engine_hooks" where
  "rpm_hooks env cfg ext =
     \<lparr>setStopSpinning = calculator_setStopSpinning env ext, setSpinningUp = calculator_setSpinningUp cfg ext,
      runtimeStatistics = (\<lambda>nowNt s. s)\<rparr>"

subsection \<open>The calls out of the calculator\<close>

text \<open>The rest of the engine leaves the members of the calculator and the position of the decoder alone.\<close>

definition same_rpm :: "'z engine_rpm_scheme \<Rightarrow> 'z engine_rpm_scheme \<Rightarrow> bool" where
  "same_rpm s s' \<longleftrightarrow>
     rpmState s' = rpmState s \<and> rpmValue s' = rpmValue s \<and> oneDegreeUs s' = oneDegreeUs s \<and>
     spinningEventIndex s' = spinningEventIndex s \<and> length (spinningEvents s') = length (spinningEvents s) \<and>
     prevInstantRpmValue s' = prevInstantRpmValue s \<and> lastRpmEventTimeNt s' = lastRpmEventTimeNt s"

definition rpm_calls_ok :: "'z rpm_calls \<Rightarrow> bool" where
  "rpm_calls_ok ext \<longleftrightarrow>
     (\<forall>s. same_rpm s (periodicFastCallback ext s) \<and> same_position s (periodicFastCallback ext s) \<and>
          same_rpm s (addFuelEvents ext s) \<and> same_position s (addFuelEvents ext s) \<and>
          same_rpm s (prepareIgnitionPinIndices ext s) \<and> same_position s (prepareIgnitionPinIndices ext s))"

lemma same_rpm_refl [simp]: "same_rpm s s"
  by (simp add: same_rpm_def)

lemma same_rpm_trans: "same_rpm a b \<Longrightarrow> same_rpm b c \<Longrightarrow> same_rpm a c"
  by (simp add: same_rpm_def)

lemma assignRpmValue_effect:
  assumes "rpm_calls_ok ext" and s': "s' = assignRpmValue env ext v s"
  shows "rpmValue s' = c_trunc v" "oneDegreeUs s' = (if c_trunc v \<le> 0 then None else Some (getOneDegreeTimeUs (fl32 env) v))"
    "rpmState s' = rpmState s" "spinningEventIndex s' = spinningEventIndex s" "length (spinningEvents s') = length (spinningEvents s)"
    "prevInstantRpmValue s' = prevInstantRpmValue s" "lastRpmEventTimeNt s' = lastRpmEventTimeNt s" "same_position s s'"
  using assms(1) by (auto simp: s' assignRpmValue_def Let_def rpm_calls_ok_def same_rpm_def same_position_def)

lemma setRpmValue_effect:
  assumes "rpm_calls_ok ext" and s': "s' = setRpmValue env cfg ext v s"
  shows "rpmValue s' = c_trunc v" "oneDegreeUs s' = (if c_trunc v \<le> 0 then None else Some (getOneDegreeTimeUs (fl32 env) v))"
    "rpmState s' = next_state cfg (c_trunc v) (rpmState s)" "spinningEventIndex s' = spinningEventIndex s"
    "length (spinningEvents s') = length (spinningEvents s)" "prevInstantRpmValue s' = prevInstantRpmValue s"
    "lastRpmEventTimeNt s' = lastRpmEventTimeNt s" "same_position s s'"
proof -
  define s1 where "s1 = assignRpmValue env ext v s"
  note a = assignRpmValue_effect [OF assms(1) s1_def]
  define s2 where "s2 = s1\<lparr>rpmState := next_state cfg (rpmValue s1) (rpmState s1)\<rparr>"
  have "s' = (if rpmState s2 \<noteq> rpmState s1 then addFuelEvents ext s2 else s2)"
    by (simp add: s' setRpmValue_def Let_def s2_def s1_def)
  then have r: "same_rpm s2 s'" "same_position s2 s'" using assms(1) by (auto simp: rpm_calls_ok_def)
  then show "rpmValue s' = c_trunc v" "oneDegreeUs s' = (if c_trunc v \<le> 0 then None else Some (getOneDegreeTimeUs (fl32 env) v))"
    "rpmState s' = next_state cfg (c_trunc v) (rpmState s)" "spinningEventIndex s' = spinningEventIndex s"
    "length (spinningEvents s') = length (spinningEvents s)" "prevInstantRpmValue s' = prevInstantRpmValue s"
    "lastRpmEventTimeNt s' = lastRpmEventTimeNt s"
    by (simp_all add: same_rpm_def s2_def a)
  have "same_position s1 s2" by (simp add: s2_def same_position_def)
  then show "same_position s s'" using a(8) r(2) same_position_trans by blast
qed

lemma setStopped_effect:
  assumes "rpm_calls_ok ext" and s': "s' = setStopped env ext s"
  shows "rpmState s' = STOPPED" "rpmValue s' = 0" "oneDegreeUs s' = (if rpmValue s = 0 then oneDegreeUs s else None)"
    "spinningEventIndex s' = spinningEventIndex s" "length (spinningEvents s') = length (spinningEvents s)"
    "prevInstantRpmValue s' = prevInstantRpmValue s" "same_position s s'"
proof -
  define s0 where "s0 = s\<lparr>revolutionCounterSinceStart := 0\<rparr>"
  note a = assignRpmValue_effect [of ext _ env 0 s0, OF assms(1) refl]
  have t: "c_trunc 0 = 0" by (simp add: c_trunc_def)
  have e: "s' = (if rpmValue s \<noteq> 0 then decoder_report ''engine stopped'' (assignRpmValue env ext 0 s0) else s0)\<lparr>rpmState := STOPPED\<rparr>"
    by (simp add: s' setStopped_def Let_def s0_def)
  show "rpmState s' = STOPPED" "rpmValue s' = 0" "oneDegreeUs s' = (if rpmValue s = 0 then oneDegreeUs s else None)"
    "spinningEventIndex s' = spinningEventIndex s" "length (spinningEvents s') = length (spinningEvents s)"
    "prevInstantRpmValue s' = prevInstantRpmValue s"
    using a t by (simp_all add: e decoder_report_def s0_def)
  have "same_position s s0" by (simp add: s0_def same_position_def)
  moreover have "same_position s0 s'" using a(8) by (simp add: e decoder_report_def same_position_def)
  ultimately show "same_position s s'" by (rule same_position_trans)
qed

lemma calculator_setSpinningUp_effect:
  assumes "rpm_calls_ok ext" and s': "s' = calculator_setSpinningUp cfg ext nowNt s"
  shows "same_position s s'" "rpmValue s' = rpmValue s" "oneDegreeUs s' = oneDegreeUs s"
    "prevInstantRpmValue s' = prevInstantRpmValue s" "length (spinningEvents s') = length (spinningEvents s)"
    "rpmState s' = rpmState s \<or> (isStopped s \<and> rpmState s' = SPINNING_UP)"
    "spinningEventIndex s \<le> PRE_SYNC_EVENTS \<Longrightarrow> spinningEventIndex s' \<le> PRE_SYNC_EVENTS"
  using assms(1)
  by (auto simp: s' calculator_setSpinningUp_def Let_def setLastEventTimeForInstantRpm_def rpm_calls_ok_def same_rpm_def same_position_def)

lemma rpm_hooks_ok:
  assumes "rpm_calls_ok ext"
  shows "hooks_ok (rpm_hooks env cfg ext)"
proof -
  have "same_position s (calculator_setStopSpinning env ext s)" for s :: "'a engine_rpm_scheme"
    using setStopped_effect(7) [of ext _ env "s\<lparr>calculator_isSpinning := False\<rparr>", OF assms refl]
    by (simp add: calculator_setStopSpinning_def same_position_def)
  then show ?thesis
    using calculator_setSpinningUp_effect(1) [OF assms refl] by (simp add: hooks_ok_def rpm_hooks_def)
qed

subsection \<open>The states of the engine\<close>

definition rpm_inv :: "rpm_config \<Rightarrow> 'z engine_rpm_scheme \<Rightarrow> bool" where
  "rpm_inv cfg s \<longleftrightarrow>
     (rpmState s = STOPPED \<longrightarrow> rpmValue s = 0) \<and> (rpmState s = CRANKING \<or> rpmState s = RUNNING \<longrightarrow> rpmValue s \<noteq> 0) \<and>
     (rpmState s = SPINNING_UP \<longrightarrow> 0 \<le> rpmValue s \<and> rpmValue s < cranking_rpm cfg) \<and>
     (oneDegreeUs s = None \<longleftrightarrow> rpmValue s \<le> 0) \<and> 0 \<le> prevInstantRpmValue s \<and>
     spinningEventIndex s \<le> PRE_SYNC_EVENTS \<and> length (spinningEvents s) = PRE_SYNC_EVENTS"

lemma c_trunc_of_int [simp]: "c_trunc (of_int i) = i"
  by (simp add: c_trunc_def flip: of_int_minus)

lemma c_trunc_nonneg: "0 \<le> x \<Longrightarrow> 0 \<le> c_trunc x"
  by (simp add: c_trunc_def)

lemma next_state_not_spinning: "next_state cfg r st \<noteq> SPINNING_UP"
  by (auto simp: next_state_def)

lemma next_state_inv:
  "(next_state cfg r st = STOPPED \<longrightarrow> r = 0) \<and> (next_state cfg r st = CRANKING \<or> next_state cfg r st = RUNNING \<longrightarrow> r \<noteq> 0)"
  by (cases st) (auto simp: next_state_def)

lemma setRpmValue_inv:
  assumes "rpm_calls_ok ext" "rpm_inv cfg s"
  shows "rpm_inv cfg (setRpmValue env cfg ext v s)"
  using assms(2) next_state_inv [of cfg "c_trunc v" "rpmState s"] next_state_not_spinning [of cfg "c_trunc v" "rpmState s"]
  unfolding rpm_inv_def setRpmValue_effect [OF assms(1) refl] by auto

lemma new_cycle_inv:
  assumes "rpm_calls_ok ext" "rpm_inv cfg s"
  shows "rpm_inv cfg (new_cycle env cfg ext mode nowNt s)"
proof -
  have "rpm_inv cfg ((onNewEngineCycle s)\<lparr>lastRpmEventTimeNt := nowNt\<rparr>)" if "rpm_inv cfg s" for s :: "'a engine_rpm_scheme"
    using that by (simp add: rpm_inv_def onNewEngineCycle_def)
  moreover note setRpmValue_inv [OF assms]
  ultimately show ?thesis using assms(2) by (auto simp: new_cycle_def Let_def)
qed

lemma setStopped_inv: "rpm_calls_ok ext \<Longrightarrow> rpm_inv cfg s \<Longrightarrow> rpm_inv cfg (calculator_setStopSpinning env ext s)"
  unfolding calculator_setStopSpinning_def rpm_inv_def setStopped_effect [OF _ refl] by auto

lemma setSpinningUp_inv:
  assumes "rpm_calls_ok ext" "rpm_inv cfg s" "0 < cranking_rpm cfg"
  shows "rpm_inv cfg (calculator_setSpinningUp cfg ext nowNt s)"
  using calculator_setSpinningUp_effect [of ext _ cfg nowNt s, OF assms(1) refl] assms(2,3)
  by (auto simp: rpm_inv_def isStopped_def)

lemma calculateInstantRpm_effect:
  assumes "calculateInstantRpm env cfg shape nowNt s = Some (p, r, s')" "0 \<le> prevInstantRpmValue s"
  shows "0 \<le> r \<and> 0 \<le> prevInstantRpmValue s' \<and> rpmState s' = rpmState s \<and> rpmValue s' = rpmValue s \<and> oneDegreeUs s' = oneDegreeUs s \<and>
    spinningEventIndex s' = spinningEventIndex s \<and> spinningEvents s' = spinningEvents s"
  using assms by (auto simp: calculateInstantRpm_def Let_def RPM_LOW_THRESHOLD_def split: option.splits if_splits)

lemma shaft_callback_inv:
  assumes "rpm_calls_ok ext" "rpm_inv cfg s" "0 < cranking_rpm cfg"
    and "rpmShaftPositionCallback env cfg ext shape mode index nowNt s = Some s'"
  shows "rpm_inv cfg s'"
proof -
  define s1 where "s1 = (if index = 0 then new_cycle env cfg ext mode nowNt s else s)"
  have i1: "rpm_inv cfg s1" using new_cycle_inv [OF assms(1,2)] assms(2) by (simp add: s1_def)
  consider (low) "\<not> stackAvailable cfg" | (calm) "stackAvailable cfg" "\<not> isSpinningUp s1"
    | (spin) "stackAvailable cfg" "isSpinningUp s1" by blast
  then show ?thesis
  proof cases
    case low
    then show ?thesis using assms(2,4) by (auto simp: rpmShaftPositionCallback_def rpm_inv_def decoder_report_def)
  next
    case calm
    then have "s' = s1" using assms(4) by (simp add: rpmShaftPositionCallback_def s1_def Let_def)
    with i1 show ?thesis by simp
  next
    case spin
    then obtain s2 p r s3 where m: "movePreSynchTimestamps shape s1 = Some s2"
      and c: "calculateInstantRpm env cfg shape nowNt s2 = Some (p, r, s3)"
      and s': "s' = assignRpmValue env ext (of_int (min (c_trunc r) (cranking_rpm cfg - 1))) s3"
      using assms(4) by (fastforce simp: rpmShaftPositionCallback_def s1_def Let_def split: option.splits)
    have i2: "rpm_inv cfg s2" "rpmState s2 = SPINNING_UP"
      using m i1 spin(2) by (auto simp: movePreSynchTimestamps_def rpm_inv_def isSpinningUp_def)
    note e = calculateInstantRpm_effect [OF c]
    have "0 \<le> c_trunc r" using e i2(1) by (simp add: c_trunc_nonneg rpm_inv_def)
    then show ?thesis using e i2 assms(3) assignRpmValue_effect [OF assms(1) s'] by (auto simp: rpm_inv_def)
  qed
qed

text \<open>
  Any interleaving of the operations of the calculator with the rest of the engine, which may do anything to the
  members that are not its own.
\<close>

inductive rpm_reach :: "decoder_env \<Rightarrow> rpm_config \<Rightarrow> 'z rpm_calls \<Rightarrow> 'z engine_rpm_scheme \<Rightarrow> bool"
  for env cfg ext where
  boot: "rpmState s = STOPPED \<Longrightarrow> rpmValue s = 0 \<Longrightarrow> oneDegreeUs s = None \<Longrightarrow> spinningEventIndex s = 0 \<Longrightarrow>
    length (spinningEvents s) = PRE_SYNC_EVENTS \<Longrightarrow> prevInstantRpmValue s = 0 \<Longrightarrow> rpm_reach env cfg ext s"
| lost: "rpm_reach env cfg ext s \<Longrightarrow> rpm_reach env cfg ext (calculator_setStopSpinning env ext s)"
| spin: "rpm_reach env cfg ext s \<Longrightarrow> rpm_reach env cfg ext (calculator_setSpinningUp cfg ext nowNt s)"
| shaft: "rpm_reach env cfg ext s \<Longrightarrow> rpmShaftPositionCallback env cfg ext shape mode index nowNt s = Some s' \<Longrightarrow>
    rpm_reach env cfg ext s'"
| other: "rpm_reach env cfg ext s \<Longrightarrow> same_rpm s s' \<Longrightarrow> rpm_reach env cfg ext s'"

lemma rpm_reach_inv: "rpm_reach env cfg ext s \<Longrightarrow> rpm_calls_ok ext \<Longrightarrow> 0 < cranking_rpm cfg \<Longrightarrow> rpm_inv cfg s"
proof (induction rule: rpm_reach.induct)
  case (boot s)
  then show ?case by (simp add: rpm_inv_def)
next
  case (other s s')
  then show ?case by (simp add: rpm_inv_def same_rpm_def)
qed (blast intro: setStopped_inv setSpinningUp_inv shaft_callback_inv)+

text \<open>
  C17: in every reachable state the engine is exactly one of stopped, cranking and running (a running or cranking
  engine with a noisy signal has the RPM -1), the time of a degree is known exactly if the RPM is positive, a
  stopped engine has the RPM 0, and the events kept before the synchronization fit their array.
\<close>

theorem rpm_states_exclusive:
  assumes "rpm_reach env cfg ext s" "rpm_calls_ok ext" "0 < cranking_rpm cfg"
  shows "(isStopped s \<longleftrightarrow> \<not> isCranking s \<and> \<not> isRunning s) \<and> \<not> (isCranking s \<and> isRunning s) \<and> (isStopped s \<longleftrightarrow> rpmValue s = 0) \<and>
    (oneDegreeUs s \<noteq> None \<longleftrightarrow> 0 < rpmValue s) \<and> spinningEventIndex s \<le> length (spinningEvents s)"
  using rpm_reach_inv [OF assms]
  by (cases "rpmState s") (auto simp: rpm_inv_def isStopped_def isCranking_def isRunning_def)

subsection \<open>An engine at 168 MHz\<close>

definition boot_engine :: engine_rpm where
  "boot_engine =
     \<lparr>shaft_is_synchronized = False, mostRecentSyncTime = 0, previousShaftEventTimeNt = 0, lastDecodingErrorTime = 0,
      someSortOfTriggerError = False, toothDurations = [0, 0, 0, 0, 0], toothed_previous_time = 0,
      currentCycle = \<lparr>current_index = 0, eventCount = [0, 0, 0], timeOfPreviousEventNt = [0, 0, 0], totalTimeNt = [0, 0, 0]\<rparr>,
      expectedTotalTime = [0, 0, 0], totalTriggerErrorCounter = 0, orderingErrorCounter = 0, startOfCycleNt = 0,
      curSignal = SHAFT_PRIMARY_FALLING, prevSignal = SHAFT_PRIMARY_FALLING, totalEventCountBase = 0,
      totalRevolutionCounter = 0, isFirstEvent = True, clock = int, clockReads = 0, decoder_log = [],
      triggerErrorDetection = cyclic_buffer_new 6 6, rpmValue = 0, triggerDecoderErrorPin = False, engineCycleEventCount = 0,
      engineCycle = 720, previousRpmValue = 0, oneDegreeUs = None, lastRpmEventTimeNt = - 1680000000, revolutionCounterSinceBoot = 0,
      revolutionCounterSinceStart = 0, rpmState = STOPPED, calculator_isSpinning = False, stopEngineRequestTimeNt = 0,
      spinningEventIndex = 0, spinningEvents = replicate PRE_SYNC_EVENTS 0, timeOfLastEvent = replicate PWM_PHASE_MAX_COUNT 0,
      instantRpmValue = replicate PWM_PHASE_MAX_COUNT 0, prevInstantRpmValue = 0\<rparr>"

definition env168 :: decoder_env where
  "env168 = \<lparr>useOnlyRisingEdgeForTrigger = False, ntPerUs = 168, fl32 = id\<rparr>"

definition rpm_config168 :: rpm_config where
  "rpm_config168 = \<lparr>fl64 = id, cranking_rpm = 550, isFasterEngineSpinUpEnabled = True, stackAvailable = True\<rparr>"

definition no_calls :: "'z rpm_calls" where
  "no_calls = \<lparr>periodicFastCallback = id, addFuelEvents = id, prepareIgnitionPinIndices = id\<rparr>"

lemma no_calls_ok [simp]: "rpm_calls_ok no_calls"
  by (simp add: rpm_calls_ok_def no_calls_def same_position_def)

lemma boot_engine_reach: "rpm_reach env168 rpm_config168 no_calls boot_engine"
  by (rule rpm_reach.boot) (simp_all add: boot_engine_def)

theorem rpm_states_exclusive_witness:
  "\<exists>s :: engine_rpm. s = calculator_setSpinningUp rpm_config168 no_calls 1000 boot_engine \<and> rpmState s = SPINNING_UP \<and>
    isStopped s \<and> \<not> isCranking s \<and> \<not> isRunning s"
proof -
  let ?s = "calculator_setSpinningUp rpm_config168 no_calls 1000 boot_engine"
  have "rpmState ?s = SPINNING_UP" "rpmValue ?s = 0"
    by (simp_all add: calculator_setSpinningUp_def Let_def rpm_config168_def no_calls_def boot_engine_def isStopped_def
        isSpinningUp_def setLastEventTimeForInstantRpm_def PRE_SYNC_EVENTS_def PWM_PHASE_MAX_COUNT_def)
  moreover have "0 < cranking_rpm rpm_config168" by (simp add: rpm_config168_def)
  ultimately show ?thesis
    using rpm_states_exclusive [OF rpm_reach.spin [OF boot_engine_reach, of 1000] no_calls_ok] by blast
qed

subsection \<open>The RPM of a cycle\<close>

lemma cycle_rpm_app:
  assumes fl: "float_ok (fl32 env)" "float_ok (fl64 cfg)" and nt: "1 \<le> ntPerUs env" "ntPerUs env \<le> 400"
    and d: "0 < d" "d < 2 * NT_PER_SECOND env"
    and r_def: "r = 60 * of_int (NT_PER_SECOND env) * of_nat (getEngineCycle mode div 360) / (of_int d :: rat)"
  shows "app 4 (cycle_rpm env cfg mode d) r" "30 \<le> r"
proof -
  define N where "N = (of_int (NT_PER_SECOND env) :: rat)"
  define M where "M = (of_nat (getEngineCycle mode div 360) :: rat)"
  define D where "D = (of_int d :: rat)"
  have "of_int 1 \<le> (of_int (ntPerUs env) :: rat)" "of_int (ntPerUs env) \<le> (of_int 400 :: rat)" using nt by (simp_all only: of_int_le_iff)
  then have N: "1000000 \<le> N" "N \<le> 400000000" by (simp_all add: N_def NT_PER_SECOND_def)
  have M: "M = 1 \<or> M = 2" by (simp add: M_def getEngineCycle_def FOUR_STROKE_ENGINE_CYCLE_def)
  have "of_int 1 \<le> (of_int d :: rat)" "of_int d < (of_int (2 * NT_PER_SECOND env) :: rat)" using d by (simp_all only: of_int_le_iff of_int_less_iff)
  then have D: "1 \<le> D" "D \<le> 2 * N" by (simp_all add: D_def N_def)
  have r: "r = 60 * N * M / D" by (simp add: r_def N_def M_def D_def)
  have nm: "60 * N \<le> 60 * N * M" "60 * N * M \<le> 48000000000" using N M by auto
  have "60 * N / (2 * N) \<le> 60 * N * M / D" by (rule frac_le) (use N D nm in linarith)+
  moreover have "60 * N / (2 * N) = 30" using N by simp
  ultimately show r30: "30 \<le> r" by (simp add: r)
  have "60 * N * M / D \<le> 60 * N * M" using D N nm by (simp add: divide_le_eq mult_left_le)
  then have rmax: "r \<le> 48000000000" using nm(2) unfolding r by (rule order_trans)
  note rng = float_ok_bounds
  have a1: "app 1 (fl64 cfg (60 * N)) (60 * N)"
    using app_fl [OF fl(2) app_refl [of "60 * N" 0]] N by simp
  have "app 1 (fl64 cfg (60 * N) * M) (60 * N * M)" using app_mult [OF a1 app_refl [of M 0]] M by auto
  then have a2: "app 2 (fl64 cfg (fl64 cfg (60 * N) * M)) (60 * N * M)"
    using app_fl [OF fl(2), of 1 _ "60 * N * M"] nm N by (simp add: numeral_2_eq_2)
  have "app 2 (fl64 cfg (fl64 cfg (60 * N) * M) / D) r" unfolding r by (rule app_scale [OF a2]) (use D in simp)
  then have "app 3 (fl64 cfg (fl64 cfg (fl64 cfg (60 * N) * M) / D)) r"
    using app_fl [OF fl(2), of 2 _ r] r30 rmax by simp
  then have "app 4 (fl32 env (fl64 cfg (fl64 cfg (fl64 cfg (60 * N) * M) / D))) r"
    using app_fl [OF fl(1), of 3 _ r] r30 rmax by simp
  then show "app 4 (cycle_rpm env cfg mode d) r" by (simp add: cycle_rpm_def Let_def N_def M_def D_def)
qed

text \<open>
  C18: the RPM of an engine cycle is right. When an engine that is not spinning up comes to the first event of
  a cycle, less than two seconds after that of the previous one, the RPM becomes the true one up to the rounding of single and
  double precision and the fraction that is cut off, and the state follows it.
\<close>

theorem cycle_rpm_accurate:
  assumes "float_ok (fl32 env)" "float_ok (fl64 cfg)" "1 \<le> ntPerUs env" "ntPerUs env \<le> 400" "rpm_calls_ok ext" "stackAvailable cfg"
    and "\<not> isSpinningUp s" "checkIfSpinning env nowNt s" "lastRpmEventTimeNt s < nowNt"
    and "r = 60 * of_int (NT_PER_SECOND env) * of_nat (getEngineCycle mode div 360) / (of_int (nowNt - lastRpmEventTimeNt s) :: rat)"
    and "r \<le> 29000"
  shows "\<exists>s'. rpmShaftPositionCallback env cfg ext shape mode 0 nowNt s = Some s' \<and>
    r * (1 - 1 / 2 ^ 20) - 1 < of_int (rpmValue s') \<and> of_int (rpmValue s') \<le> r * (1 + 1 / 2 ^ 20) \<and>
    rpmState s' = next_state cfg (rpmValue s') (rpmState s) \<and> lastRpmEventTimeNt s' = nowNt"
proof -
  let ?d = "nowNt - lastRpmEventTimeNt s" and ?rpm = "cycle_rpm env cfg mode (nowNt - lastRpmEventTimeNt s)"
  have d: "0 < ?d" "?d < 2 * NT_PER_SECOND env"
    using assms(8,9) by (auto simp: checkIfSpinning_def Let_def NO_RPM_EVENTS_TIMEOUT_SECS_def split: if_splits)
  note a = app_6 [OF app_mono [OF cycle_rpm_app(1) [OF assms(1-4) d assms(10)]]]
  have b: "r * (1 - 1 / 2 ^ 20) \<le> ?rpm" "?rpm \<le> r * (1 + 1 / 2 ^ 20)" using a by simp_all
  have r: "30 \<le> r" using cycle_rpm_app(2) [OF assms(1-4) d assms(10)] .
  have "r * (1 + 1 / 2 ^ 20) \<le> 29000 * (1 + 1 / 2 ^ 20)" by (rule mult_right_mono [OF assms(11)]) simp
  then have real: "\<not> ?rpm > of_int UNREALISTIC_RPM" using b(2) by (simp add: UNREALISTIC_RPM_def)
  have "0 < r * (1 - 1 / 2 ^ 20)" using r by simp
  then have f: "c_trunc ?rpm = \<lfloor>?rpm\<rfloor>" using b(1) by (simp add: c_trunc_def)
  define s1 where "s1 = setRpmValue env cfg ext ?rpm s"
  note e = setRpmValue_effect [OF assms(5) s1_def]
  define s2 where "s2 = (onNewEngineCycle s1)\<lparr>lastRpmEventTimeNt := nowNt\<rparr>"
  have s2: "rpmValue s2 = \<lfloor>?rpm\<rfloor>" "rpmState s2 = next_state cfg (\<lfloor>?rpm\<rfloor>) (rpmState s)" "lastRpmEventTimeNt s2 = nowNt"
    using e by (simp_all add: s2_def onNewEngineCycle_def f)
  have "new_cycle env cfg ext mode nowNt s = s2" using assms(8) d real by (simp add: new_cycle_def Let_def s2_def s1_def)
  moreover have "\<not> isSpinningUp s2" using s2(2) next_state_not_spinning by (simp add: isSpinningUp_def)
  ultimately have "rpmShaftPositionCallback env cfg ext shape mode 0 nowNt s = Some s2"
    using assms(6) by (simp add: rpmShaftPositionCallback_def Let_def)
  moreover have "r * (1 - 1 / 2 ^ 20) - 1 < of_int \<lfloor>?rpm\<rfloor>" "of_int \<lfloor>?rpm\<rfloor> \<le> r * (1 + 1 / 2 ^ 20)"
    using b floor_correct [of ?rpm] by linarith+
  ultimately show ?thesis using s2 by auto
qed

theorem cycle_rpm_accurate_witness:
  "\<exists>s'. rpmShaftPositionCallback env168 rpm_config168 no_calls blank_waveform FOUR_STROKE_CRANK_SENSOR 0 16800000
      (boot_engine\<lparr>lastRpmEventTimeNt := 0\<rparr>) = Some s' \<and> rpmValue s' \<in> {1199, 1200} \<and> rpmState s' = RUNNING"
proof -
  let ?s = "boot_engine\<lparr>lastRpmEventTimeNt := 0\<rparr>"
  have fl: "float_ok (fl32 env168)" "float_ok (fl64 rpm_config168)" "1 \<le> ntPerUs env168" "ntPerUs env168 \<le> 400" "stackAvailable rpm_config168"
    by (simp_all add: env168_def rpm_config168_def float_ok_id)
  have s: "\<not> isSpinningUp ?s" "checkIfSpinning env168 16800000 ?s" "lastRpmEventTimeNt ?s < 16800000"
    "(1200 :: rat) = 60 * of_int (NT_PER_SECOND env168) * of_nat (getEngineCycle FOUR_STROKE_CRANK_SENSOR div 360) /
      of_int (16800000 - lastRpmEventTimeNt ?s)"
    by (simp_all add: isSpinningUp_def boot_engine_def checkIfSpinning_def needToStopEngine_def env168_def NT_PER_SECOND_def
        NO_RPM_EVENTS_TIMEOUT_SECS_def getEngineCycle_def FOUR_STROKE_ENGINE_CYCLE_def)
  from cycle_rpm_accurate [OF fl(1-4) no_calls_ok fl(5) s] obtain s'
    where s': "rpmShaftPositionCallback env168 rpm_config168 no_calls blank_waveform FOUR_STROKE_CRANK_SENSOR 0 16800000 ?s = Some s'"
      "1200 * (1 - 1 / 2 ^ 20) - 1 < (of_int (rpmValue s') :: rat)" "of_int (rpmValue s') \<le> (1200 * (1 + 1 / 2 ^ 20) :: rat)"
      "rpmState s' = next_state rpm_config168 (rpmValue s') (rpmState ?s)"
    by fastforce
  have "(of_int 1198 :: rat) < of_int (rpmValue s')" "of_int (rpmValue s') < (of_int 1201 :: rat)" using s'(2,3) by simp_all
  then have "1198 < rpmValue s'" "rpmValue s' < 1201" by (simp_all only: of_int_less_iff)
  then have "rpmValue s' \<in> {1199, 1200}" by auto
  with s' show ?thesis by (auto simp: next_state_def rpm_config168_def)
qed

end
