(* ===== verification/Toothed_Wheel.thy ===== *)
theory Toothed_Wheel
  imports Trigger_Decoder
begin

text \<open>
  The shape of a toothed wheel (\<open>TT_TOOTHED_WHEEL\<close>, with the 60/2 and 36/1 wheels among them) as
  \<open>initializeTriggerWaveform\<close> builds it, for any rounding of the angles that is single precision.
\<close>

subsection \<open>Angles that are apart\<close>

lemma app_apart:
  assumes x: "app 6 x (of_nat a / of_nat N)" and y: "app 6 y (of_nat b / of_nat N)" and ab: "a < b" "b \<le> N" "N \<le> 280"
  shows "1 / 300 \<le> y - x" "y - x \<le> 2"
proof -
  have "of_nat (Suc a) \<le> (of_nat b :: rat)" "of_nat b \<le> (of_nat N :: rat)" "of_nat N \<le> (of_nat 280 :: rat)"
    using ab by (simp_all only: of_nat_le_iff Suc_le_eq)
  then have b: "of_nat a + 1 \<le> (of_nat b :: rat)" "(of_nat b :: rat) \<le> of_nat N" "0 \<le> (of_nat a :: rat)"
    and N: "0 < (of_nat N :: rat)" "(of_nat N :: rat) \<le> 280" using ab by simp_all
  have ba: "of_nat b / of_nat N * (1 - 1 / 2 ^ 20) - of_nat a / of_nat N * (1 + 1 / 2 ^ 20) \<le> y - x"
    using app_6(2) [OF x] app_6(1) [OF y] by (rule diff_mono [rotated])
  have "of_nat a \<le> (280 :: rat)" "of_nat b \<le> (280 :: rat)" using b N(2) by linarith+
  then have "1 - 560 / 2 ^ 20 \<le> (of_nat b * (1 - 1 / 2 ^ 20) - of_nat a * (1 + 1 / 2 ^ 20) :: rat)"
    using b(1) by simp
  then have "(1 - 560 / 2 ^ 20) / of_nat N \<le> (of_nat b * (1 - 1 / 2 ^ 20) - of_nat a * (1 + 1 / 2 ^ 20) :: rat) / of_nat N"
    by (rule divide_right_mono) simp
  moreover have "1 / 300 \<le> (1 - 560 / 2 ^ 20) / (of_nat N :: rat)" using N by (simp add: field_simps)
  ultimately show "1 / 300 \<le> y - x" using ba by (simp add: diff_divide_distrib)
  have "0 < x" using x by (rule app_pos)
  moreover have "of_nat b / of_nat N \<le> (1 :: rat)" using b N by simp
  then have "of_nat b / of_nat N * (1 + 1 / 2 ^ 20) \<le> 1 * (1 + 1 / 2 ^ 20 :: rat)" by (rule mult_right_mono) simp
  then have "y \<le> 1 + 1 / 2 ^ 20" using app_6(2) [OF y] by (simp only: mult_1_left)
  moreover have "(1 + 1 / 2 ^ 20 :: rat) \<le> 2" by simp
  ultimately show "y - x \<le> 2" by linarith
qed

lemma apart_not_same:
  assumes fl: "float_ok fl" and d: "1 / 300 \<le> y - x" "y - x \<le> 2"
  shows "\<not> isSameF fl x y"
proof -
  have a: "\<bar>x - y\<bar> = y - x" using d(1) by (simp add: abs_if)
  have "1 / 2 ^ 20 \<le> \<bar>x - y\<bar>" "\<bar>x - y\<bar> \<le> 2 ^ 64" using d unfolding a by simp_all
  then have "\<bar>fl (x - y) - (x - y)\<bar> \<le> (y - x) / 2 ^ 24"
    using fl [unfolded float_ok_def, THEN conjunct1, rule_format, of "x - y"] by (simp only: a)
  then have "fl (x - y) \<le> (y - x) / 2 ^ 24 - (y - x)" by linarith
  moreover have "z / 2 ^ 24 - z \<le> - (1 / 1000)" if "1 / 300 \<le> z" for z :: rat using that by (simp add: field_simps)
  ultimately have "fl (x - y) \<le> - (1 / 1000)" using d(1) by (meson order_trans)
  then show ?thesis by (simp add: isSameF_def EPS_def)
qed

subsection \<open>Adding events in order\<close>

lemma findAngleMatch_None:
  "(\<And>i. i0 \<le> i \<Longrightarrow> i < i0 + k \<Longrightarrow> \<not> isSameF fl (ts ! i) a) \<Longrightarrow> findAngleMatch_loop fl ts a i0 k = None"
  by (induction k arbitrary: i0) auto

lemma findInsertionAngle_end: "0 < j \<Longrightarrow> ts ! (j - 1) < a \<Longrightarrow> findInsertionAngle ts a j = j"
  by (cases j) simp_all

lemma switchTimes_setState [simp]: "switchTimes (setState c i v w) = switchTimes w"
  by (simp add: setState_def)

lemma switchTimes_fold_setState:
  "switchTimes (fold (\<lambda>i w. setState (c i) (d i w) (v i w) w) is w) = switchTimes w"
  by (induction "is" arbitrary: w) simp_all

text \<open>What the decoder needs of the shape besides its events.\<close>

definition same_setup :: "trigger_waveform \<Rightarrow> trigger_waveform \<Rightarrow> bool" where
  "same_setup s s' \<longleftrightarrow>
     isSynchronizationNeeded s' = isSynchronizationNeeded s \<and> useRiseEdge s' = useRiseEdge s \<and>
     gapBothDirections s' = gapBothDirections s \<and> shapeWithoutTdc s' = shapeWithoutTdc s \<and>
     syncronizationRatioFrom s' = syncronizationRatioFrom s \<and> syncronizationRatioTo s' = syncronizationRatioTo s \<and>
     shape_log s' = shape_log s \<and> operationMode s' = operationMode s \<and> invertOnAdd s' = invertOnAdd s \<and>
     useOnlyRisingEdgeForTriggerTemp s' = useOnlyRisingEdgeForTriggerTemp s \<and> shapeDefinitionError s' = shapeDefinitionError s"

lemma same_setup_refl [simp]: "same_setup s s"
  by (simp add: same_setup_def)

lemma same_setup_trans: "same_setup a b \<Longrightarrow> same_setup b c \<Longrightarrow> same_setup a c"
  by (simp add: same_setup_def)

text \<open>
  \<open>j\<close> events were added, the last one at the angle \<open>a\<close>; \<open>nom\<close> gives the nominal angles, in units of \<open>1 / N\<close> of
  a cycle.
\<close>

definition built :: "nat \<Rightarrow> (nat \<Rightarrow> nat) \<Rightarrow> nat \<Rightarrow> trigger_waveform \<Rightarrow> bool" where
  "built N nom j s \<longleftrightarrow>
     privateTriggerDefinitionSize s = j \<and> length (switchTimes (wave s)) = PWM_PHASE_MAX_COUNT \<and>
     expectedEventCount s = [word_of_nat j, 0, 0] \<and>
     (\<forall>i < j. app 6 (switchTimes (wave s) ! i) (of_nat (nom i) / of_nat N)) \<and>
     (0 < j \<longrightarrow> previousAngle s = switchTimes (wave s) ! (j - 1))"

definition plain :: "trigger_waveform \<Rightarrow> bool" where
  "plain s \<longleftrightarrow> operationMode s \<noteq> OM_NONE \<and> \<not> invertOnAdd s \<and> \<not> useOnlyRisingEdgeForTriggerTemp s \<and> \<not> shapeDefinitionError s"

lemma addEvent_built:
  assumes fl: "float_ok fl" and s: "built N nom j s" and pl: "plain s" and j: "j < PWM_PHASE_MAX_COUNT" "N \<le> 280"
    and nom: "\<forall>i < j. nom i < nom j" "nom j \<le> N" and a: "app 6 a (of_nat (nom j) / of_nat N)"
    and s': "s' = addEvent fl a T_PRIMARY v s"
  shows "built N nom (Suc j) s'" "same_setup s s'" "switchTimes (wave s') = (switchTimes (wave s))[j := a]"
proof -
  let ?ts = "switchTimes (wave s)"
  have b: "privateTriggerDefinitionSize s = j" "length ?ts = PWM_PHASE_MAX_COUNT" "expectedEventCount s = [word_of_nat j, 0, 0]"
    "\<And>i. i < j \<Longrightarrow> app 6 (?ts ! i) (of_nat (nom i) / of_nat N)" "0 < j \<Longrightarrow> previousAngle s = ?ts ! (j - 1)"
    using s by (simp_all add: built_def)
  have pos: "0 < a" using a by (rule app_pos)
  have apart: "1 / 300 \<le> a - ?ts ! i" "a - ?ts ! i \<le> 2" if "i < j" for i
    using app_apart [OF b(4) [OF that] a _ nom(2) j(2)] nom(1) that by blast+
  have prev: "?ts ! (j - 1) < a" if "0 < j" using apart(1) [of "j - 1"] that by (simp add: less_le_trans)
  have "findAngleMatch fl (wave s) a j = None"
    unfolding findAngleMatch_def
    by (rule findAngleMatch_None) (use apart_not_same [OF fl apart] in simp)
  moreover have "findInsertionAngle ?ts a j = j" if "0 < j" by (rule findInsertionAngle_end [OF that prev [OF that]])
  ultimately have r: "privateTriggerDefinitionSize s' = Suc j \<and> expectedEventCount s' = count_event 0 (expectedEventCount s) \<and>
      switchTimes (wave s') = ?ts[j := a] \<and> previousAngle s' = a \<and> same_setup s s'"
    using pl pos prev b(1,5) unfolding s' plain_def
    by (cases "j = 0") (auto simp: addEvent_def Let_def add_first_def add_next_def wheel_index_def same_setup_def setSwitchTime_def
        switchTimes_fold_setState)
  then show "same_setup s s'" "switchTimes (wave s') = ?ts[j := a]" by simp_all
  have "app 6 (?ts[j := a] ! i) (of_nat (nom i) / of_nat N)" if "i < Suc j" for i
    using that a b(4) j(1) b(2) by (cases "i = j") simp_all
  then show "built N nom (Suc j) s'" using r b(2,3) j(1) by (simp add: built_def count_event_def add.commute)
qed

subsection \<open>The angles of the teeth\<close>

lemma engine_cycle_cases: "getEngineCycle om = 360 \<or> getEngineCycle om = 720"
  by (simp add: getEngineCycle_def FOUR_STROKE_ENGINE_CYCLE_def)

lemma angle_fl: "float_ok fl \<Longrightarrow> app n x y \<Longrightarrow> n \<le> 8 \<Longrightarrow> 1 / 10000 \<le> y \<Longrightarrow> y \<le> 1000 \<Longrightarrow> n' = Suc n \<Longrightarrow> app n' (fl x) y"
  using app_fl [of fl n x y] order_trans [of "1 / 2 ^ 19" "1 / 10000" y] order_trans [of y 1000 "2 ^ 63"] by simp

text \<open>Tooth \<open>i\<close> of \<open>n\<close> rises in the middle of its pitch and falls at the end of it.\<close>

lemma tooth_angles:
  fixes i n :: nat
  assumes fl: "float_ok fl" and i: "i < n" "n \<le> 140" and E: "E = 360 \<or> E = (720 :: rat)"
  defines "rise \<equiv> fl (0 + fl (fl (E / of_nat n) * fl (of_nat i + fl (1 - 1 / 2))))"
    and "fall \<equiv> fl (0 + fl (fl (E / of_nat n) * of_nat (i + 1)))"
  shows "rise > NO_LEFT_FILTER" "rise < NO_RIGHT_FILTER" "app 6 (fl (rise / E)) (of_nat (2 * i + 1) / of_nat (2 * n))"
    "fall > NO_LEFT_FILTER" "fall < NO_RIGHT_FILTER" "app 6 (fl (fall / E)) (of_nat (2 * i + 2) / of_nat (2 * n))"
proof -
  define I where "I = (of_nat i :: rat)"
  define N where "N = (of_nat n :: rat)"
  have "of_nat (Suc i) \<le> (of_nat n :: rat)" "of_nat n \<le> (of_nat 140 :: rat)" using i by (simp_all only: of_nat_le_iff Suc_le_eq)
  then have N: "0 \<le> I" "I + 1 \<le> N" "N \<le> 140" by (simp_all add: I_def N_def)
  have E': "360 \<le> E" "E \<le> 720" "0 < E" using E by auto
  have q: "2 \<le> E / N" "E / N \<le> 720" "0 < E / N" using N E' by (simp_all add: field_simps)
  have p1: "app 1 (fl (E / N)) (E / N)" by (rule angle_fl [OF fl app_refl [OF q(3), of 0]]) (use q in linarith)+
  have "app 0 (1 - 1 / 2) (1 / 2 :: rat)" using app_refl [of "1 / 2" 0] by simp
  then have h: "app 1 (fl (1 - 1 / 2)) (1 / 2)" by (rule angle_fl [OF fl]) simp_all
  have s: "app 1 (I + fl (1 - 1 / 2)) (I + 1 / 2)"
  proof (cases "I = 0")
    case True
    with h show ?thesis by simp
  next
    case False
    with N(1) have "0 < I" by simp
    from app_add [OF app_refl [OF this] h] show ?thesis .
  qed
  have s2: "app 2 (fl (I + fl (1 - 1 / 2))) (I + 1 / 2)" by (rule angle_fl [OF fl s]) (use N in linarith)+
  have y: "1 / 2 \<le> E / N * (I + 1 / 2)" "E / N * (I + 1 / 2) \<le> 720" "1 / 2 \<le> E / N * (I + 1)" "E / N * (I + 1) \<le> 720"
  proof -
    have "2 * (1 / 2) \<le> E / N * (I + 1 / 2)" "2 * (1 / 2) \<le> E / N * (I + 1)" using q N by (intro mult_mono; simp)+
    then show "1 / 2 \<le> E / N * (I + 1 / 2)" "1 / 2 \<le> E / N * (I + 1)" by linarith+
    have "E / N * (I + 1 / 2) \<le> E / N * N" "E / N * (I + 1) \<le> E / N * N" using q N by (intro mult_left_mono; simp)+
    moreover have "E / N * N = E" using N by simp
    ultimately show "E / N * (I + 1 / 2) \<le> 720" "E / N * (I + 1) \<le> 720" using E'(2) by simp_all
  qed
  have r3: "app 3 (fl (E / N) * fl (I + fl (1 - 1 / 2))) (E / N * (I + 1 / 2))" using app_mult [OF p1 s2] by (simp add: numeral_3_eq_3)
  have r4: "app 4 (fl (fl (E / N) * fl (I + fl (1 - 1 / 2)))) (E / N * (I + 1 / 2))"
    by (rule angle_fl [OF fl r3]) (use y in linarith)+
  have r5: "app 5 rise (E / N * (I + 1 / 2))" unfolding rise_def I_def [symmetric] N_def [symmetric] add_0_left by (rule angle_fl [OF fl r4]) (use y in linarith)+
  have f1: "app 1 (fl (E / N) * (I + 1)) (E / N * (I + 1))" using app_mult [OF p1 app_refl [of "I + 1" 0]] N by simp
  have f2: "app 2 (fl (fl (E / N) * (I + 1))) (E / N * (I + 1))" by (rule angle_fl [OF fl f1]) (use y in linarith)+
  have "(of_nat (i + 1) :: rat) = I + 1" by (simp add: I_def)
  then have f3: "app 3 fall (E / N * (I + 1))" unfolding fall_def N_def [symmetric] add_0_left
    by (simp only:) (rule angle_fl [OF fl f2], (use y in linarith)+)
  have f5: "app 5 fall (E / N * (I + 1))" by (rule app_mono [OF f3]) simp
  have c: "-1 < x \<and> x < 1000 \<and> app 6 (fl (x / E)) (z / E)" if x: "app 5 x z" and z: "1 / 2 \<le> z" "z \<le> 720" for x z
  proof -
    have "1 / 2 / 720 \<le> z / E" "z / E \<le> 720 / 360" using z E' by (intro frac_le; simp)+
    then have "app 6 (fl (x / E)) (z / E)" by - (rule angle_fl [OF fl app_scale [OF x E'(3)]]; linarith)
    moreover have "x \<le> z * (1 + 1 / 2 ^ 20)" using app_6(2) [OF app_mono [OF x]] by simp
    then have "x < 1000" using z by simp
    ultimately show ?thesis using app_pos [OF x] by simp
  qed
  note cr = c [OF r5 y(1,2)] and cf = c [OF f5 y(3,4)]
  have nr: "E / N * (I + 1 / 2) / E = of_nat (2 * i + 1) / of_nat (2 * n)"
    and nf: "E / N * (I + 1) / E = of_nat (2 * i + 2) / of_nat (2 * n)"
    using E' N by (simp_all add: I_def N_def field_simps)
  show "rise > NO_LEFT_FILTER" "rise < NO_RIGHT_FILTER" "fall > NO_LEFT_FILTER" "fall < NO_RIGHT_FILTER"
    using cr cf by (simp_all add: NO_LEFT_FILTER_def NO_RIGHT_FILTER_def)
  show "app 6 (fl (rise / E)) (of_nat (2 * i + 1) / of_nat (2 * n))" "app 6 (fl (fall / E)) (of_nat (2 * i + 2) / of_nat (2 * n))"
    using cr cf unfolding nr nf by blast+
qed

subsection \<open>The wheel\<close>

text \<open>The nominal angle of event \<open>j\<close>: the last tooth reaches over the gap.\<close>

definition wheel_nom :: "nat \<Rightarrow> nat \<Rightarrow> nat \<Rightarrow> nat" where
  "wheel_nom n m j = (if j = 2 * m - 1 then 2 * n else j + 1)"

lemma addEventClamped_in:
  "angle > filterLeft \<Longrightarrow> angle < filterRight \<Longrightarrow>
   addEventClamped fl angle c v filterLeft filterRight s = addEvent fl (fl (angle / of_nat (getEngineCycle (operationMode s)))) c v s"
  by (simp add: addEventClamped_def)

lemma clamped_built:
  assumes fl: "float_ok fl" and s: "built (2 * n) (wheel_nom n m) j s" "plain s" and j: "j < 2 * m" "m \<le> n" "n \<le> 140"
    and a: "angle > NO_LEFT_FILTER" "angle < NO_RIGHT_FILTER"
    "app 6 (fl (angle / of_nat (getEngineCycle (operationMode s)))) (of_nat (wheel_nom n m j) / of_nat (2 * n))"
    and s': "s' = addEventClamped fl angle T_PRIMARY v NO_LEFT_FILTER NO_RIGHT_FILTER s"
  shows "built (2 * n) (wheel_nom n m) (Suc j) s'" "same_setup s s'" "plain s'"
    "switchTimes (wave s') = (switchTimes (wave s))[j := fl (angle / of_nat (getEngineCycle (operationMode s)))]"
proof -
  have "\<forall>i < j. wheel_nom n m i < wheel_nom n m j" "wheel_nom n m j \<le> 2 * n" using j by (auto simp: wheel_nom_def)
  note b = addEvent_built [OF fl s _ _ this a(3) s' [unfolded addEventClamped_in [OF a(1,2)]]]
  have "j < PWM_PHASE_MAX_COUNT" "2 * n \<le> 280" using j by (simp_all add: PWM_PHASE_MAX_COUNT_def)
  note b = b [OF this]
  show "built (2 * n) (wheel_nom n m) (Suc j) s'" "same_setup s s'"
    "switchTimes (wave s') = (switchTimes (wave s))[j := fl (angle / of_nat (getEngineCycle (operationMode s)))]" by (rule b)+
  show "plain s'" using b(2) s(2) by (simp add: same_setup_def plain_def)
qed

lemma loop_built:
  assumes fl: "float_ok fl" and n: "m \<le> n" "n \<le> 140"
  shows "built (2 * n) (wheel_nom n m) (2 * i) s \<Longrightarrow> plain s \<Longrightarrow> i + kk < m \<Longrightarrow>
    s' = skipped_teeth_loop fl T_PRIMARY (int n) (1 / 2) 0 (of_nat (getEngineCycle (operationMode s))) NO_LEFT_FILTER NO_RIGHT_FILTER i kk s \<Longrightarrow>
    built (2 * n) (wheel_nom n m) (2 * (i + kk)) s' \<and> plain s' \<and> same_setup s s'"
proof (induction kk arbitrary: i s)
  case (Suc kk)
  let ?E = "of_nat (getEngineCycle (operationMode s)) :: rat"
  have E: "?E = 360 \<or> ?E = 720" using engine_cycle_cases [of "operationMode s"] by auto
  have i: "i < n" "Suc i < m" using Suc.prems(3) n by simp_all
  define rise where "rise = fl (0 + fl (fl (?E / of_nat n) * fl (of_nat i + fl (1 - 1 / 2))))"
  define fall where "fall = fl (0 + fl (fl (?E / of_nat n) * of_nat (i + 1)))"
  note t = tooth_angles [OF fl i(1) n(2) E, folded rise_def fall_def]
  define s1 where "s1 = addEventClamped fl rise T_PRIMARY TV_RISE NO_LEFT_FILTER NO_RIGHT_FILTER s"
  define s2 where "s2 = addEventClamped fl fall T_PRIMARY TV_FALL NO_LEFT_FILTER NO_RIGHT_FILTER s1"
  have nom: "wheel_nom n m (2 * i) = 2 * i + 1" "wheel_nom n m (Suc (2 * i)) = 2 * i + 2" using i(2) by (auto simp: wheel_nom_def)
  have j: "2 * i < 2 * m" "Suc (2 * i) < 2 * m" using i(2) by simp_all
  note b1 = clamped_built [OF fl Suc.prems(1,2) j(1) n t(1,2) _ s1_def, unfolded nom, OF t(3)]
  have om1: "operationMode s1 = operationMode s" using b1(2) by (simp add: same_setup_def)
  note b2 = clamped_built [OF fl b1(1,3) j(2) n t(4,5) _ s2_def, unfolded nom om1, OF t(6)]
  have om2: "operationMode s2 = operationMode s" using b2(2) om1 by (simp add: same_setup_def)
  have "s' = skipped_teeth_loop fl T_PRIMARY (int n) (1 / 2) 0 (of_nat (getEngineCycle (operationMode s2))) NO_LEFT_FILTER NO_RIGHT_FILTER (Suc i) kk s2"
    using Suc.prems(4) unfolding om2 skipped_teeth_loop.simps Let_def of_int_of_nat_eq
    by (fold rise_def fall_def) (simp add: s2_def s1_def)
  moreover have "built (2 * n) (wheel_nom n m) (2 * Suc i) s2" using b2(1) by simp
  ultimately show ?case using Suc.IH [of "Suc i" s2] b2(3) Suc.prems(3) same_setup_trans [OF same_setup_trans [OF b1(2) b2(2)]] by simp
qed simp

text \<open>The last tooth, and with it the whole wheel.\<close>

lemma teeth_built:
  assumes fl: "float_ok fl" and n: "0 < m" "m + k = n" "n \<le> 140" and s: "built (2 * n) (wheel_nom n m) 0 s" "plain s"
    and s': "s' = addSkippedToothTriggerEvents fl T_PRIMARY (int n) (int k) (1 / 2) 0 (of_nat (getEngineCycle (operationMode s)))
      NO_LEFT_FILTER NO_RIGHT_FILTER s"
  shows "built (2 * n) (wheel_nom n m) (2 * m) s'" "plain s'" "same_setup s s'" "switchTimes (wave s') ! (2 * m - 1) = 1"
proof -
  let ?E = "of_nat (getEngineCycle (operationMode s)) :: rat"
  have E: "?E = 360 \<or> ?E = 720" using engine_cycle_cases [of "operationMode s"] by auto
  have mn: "m \<le> n" "m - 1 < n" using n by simp_all
  have k: "nat (int n - int k - 1) = m - 1" "nat (int m - 1) = m - 1" "int n - int k - 1 = int (m - 1)" using n by simp_all
  define s1 where "s1 = skipped_teeth_loop fl T_PRIMARY (int n) (1 / 2) 0 ?E NO_LEFT_FILTER NO_RIGHT_FILTER 0 (m - 1) s"
  have b1: "built (2 * n) (wheel_nom n m) (2 * (m - 1)) s1" "plain s1" "same_setup s s1"
    using loop_built [OF fl mn(1) n(3), of 0 s "m - 1" s1] s n(1) s1_def by simp_all
  have om1: "operationMode s1 = operationMode s" using b1(3) by (simp add: same_setup_def)
  define rise where "rise = fl (0 + fl (fl (?E / of_nat n) * fl (of_nat (m - 1) + fl (1 - 1 / 2))))"
  note t = tooth_angles [OF fl mn(2) n(3) E, folded rise_def]
  define s2 where "s2 = addEventClamped fl rise T_PRIMARY TV_RISE NO_LEFT_FILTER NO_RIGHT_FILTER s1"
  have nom: "wheel_nom n m (2 * (m - 1)) = 2 * (m - 1) + 1" "wheel_nom n m (Suc (2 * (m - 1))) = 2 * n"
    using n(1) by (auto simp: wheel_nom_def)
  have j: "2 * (m - 1) < 2 * m" "Suc (2 * (m - 1)) < 2 * m" "Suc (Suc (2 * (m - 1))) = 2 * m" "Suc (2 * (m - 1)) = 2 * m - 1"
    using n(1) by simp_all
  note b2 = clamped_built [OF fl b1(1,2) j(1) mn(1) n(3) t(1,2) _ s2_def, unfolded nom om1, OF t(3)]
  have om2: "operationMode s2 = operationMode s" using b2(2) om1 by (simp add: same_setup_def)
  have i: "fl ?E = ?E" "fl 1 = 1"
    using float_ok_int [OF fl, of "int (getEngineCycle (operationMode s))"] float_ok_int [OF fl, of 1]
      engine_cycle_cases [of "operationMode s"] by auto
  have last: "?E > NO_LEFT_FILTER" "?E < NO_RIGHT_FILTER" "?E / ?E = 1" using E by (auto simp: NO_LEFT_FILTER_def NO_RIGHT_FILTER_def)
  have "app 6 1 (of_nat (2 * n) / of_nat (2 * n))" using n(1,2) app_refl [of 1 6] by simp
  moreover have r: "s' = addEventClamped fl ?E T_PRIMARY TV_FALL NO_LEFT_FILTER NO_RIGHT_FILTER s2"
    using s' n(1,2) unfolding addSkippedToothTriggerEvents_def Let_def k(1,3) of_int_of_nat_eq
    by (fold rise_def) (simp add: i(1) s2_def s1_def k(2))
  ultimately have b3: "built (2 * n) (wheel_nom n m) (Suc (Suc (2 * (m - 1)))) s'" "same_setup s2 s'" "plain s'"
      "switchTimes (wave s') = (switchTimes (wave s2))[Suc (2 * (m - 1)) := 1]"
    using clamped_built [OF fl b2(1,3) j(2) mn(1) n(3) last(1,2) _ r, unfolded nom om2 last(3) i(2)] by blast+
  show "built (2 * n) (wheel_nom n m) (2 * m) s'" "plain s'" using b3(1,3) unfolding j(3) by blast+
  show "same_setup s s'" using same_setup_trans [OF same_setup_trans [OF b1(3) b2(2)] b3(2)] .
  have "length (switchTimes (wave s2)) = 280" using b2(1) by (simp add: built_def PWM_PHASE_MAX_COUNT_def)
  then show "switchTimes (wave s') ! (2 * m - 1) = 1" using b3(4) n unfolding j(4) by simp
qed

lemma built_ascending:
  assumes "built (2 * n) (wheel_nom n m) (2 * m) s" "m \<le> n" "n \<le> 140" "i < 2 * m - 1"
  shows "switchTimes (wave s) ! i < switchTimes (wave s) ! (i + 1)"
proof -
  have b: "app 6 (switchTimes (wave s) ! i') (of_nat (wheel_nom n m i') / of_nat (2 * n))" if "i' < 2 * m" for i'
    using assms(1) that by (simp add: built_def)
  have "1 / 300 \<le> switchTimes (wave s) ! (i + 1) - switchTimes (wave s) ! i"
    by (rule app_apart(1) [OF b b]) (use assms in \<open>auto simp: wheel_nom_def\<close>)
  then show ?thesis by (simp add: less_le_trans)
qed

lemma checkSwitchTimes_ascending:
  "(\<And>i'. i \<le> i' \<Longrightarrow> i' < i + k \<Longrightarrow> ts ! i' < ts ! (i' + 1)) \<Longrightarrow> checkSwitchTimes_loop ts i k = []"
proof (induction k arbitrary: i)
  case (Suc k)
  have "checkSwitchTimes_loop ts (Suc i) k = []" by (rule Suc.IH) (use Suc.prems in simp)
  then show ?case using Suc.prems [of i] by simp
qed simp

text \<open>What \<open>initialize\<close> and the gap of a toothed wheel set up.\<close>

lemma initialize_setup:
  assumes "length (syncronizationRatioFrom s) = 4" "length (syncronizationRatioTo s) = 4"
    and s'_def: "s' = setTriggerSynchronizationGap fl g (initialize fl om s)"
  shows "syncronizationRatioFrom s' = [Some (fl (g * (3 / 4))), None, None, None]"
    "syncronizationRatioTo s' ! 0 = fl (g * (5 / 4))"
    "useRiseEdge s'" "\<not> gapBothDirections s'" "\<not> shapeDefinitionError s'" "\<not> invertOnAdd s'" "operationMode s' = om"
    "privateTriggerDefinitionSize s' = 0" "switchTimes (wave s') = replicate PWM_PHASE_MAX_COUNT 0"
    "expectedEventCount s' = [0, 0, 0]" "shape_log s' = shape_log s"
    "useOnlyRisingEdgeForTriggerTemp s' = useOnlyRisingEdgeForTriggerTemp s"
proof -
  obtain a b c d where f: "syncronizationRatioFrom s = [a, b, c, d]" using assms(1) by (auto simp: length_Suc_conv eval_nat_numeral)
  obtain a' b' c' d' where t: "syncronizationRatioTo s = [a', b', c', d']" using assms(2) by (auto simp: length_Suc_conv eval_nat_numeral)
  have i: "[1..<GAP_TRACKING_LENGTH] = [1, 2, 3]" "[Suc 0..<GAP_TRACKING_LENGTH] = [1, 2, 3]" "replicate PWM_PHASE_MAX_WAVE_PER_PWM 0 = [0, 0, 0 :: u32]"
    by (simp_all add: GAP_TRACKING_LENGTH_def PWM_PHASE_MAX_WAVE_PER_PWM_def upt_rec numeral_3_eq_3)
  note e = s'_def initialize_def Let_def setTriggerSynchronizationGap_def setTriggerSynchronizationGap3_def i f t
  show "syncronizationRatioFrom s' = [Some (fl (g * (3 / 4))), None, None, None]" "syncronizationRatioTo s' ! 0 = fl (g * (5 / 4))"
    by (simp_all add: e)
  show "useRiseEdge s'" "\<not> gapBothDirections s'" "\<not> shapeDefinitionError s'" "\<not> invertOnAdd s'" "operationMode s' = om"
    "privateTriggerDefinitionSize s' = 0" "switchTimes (wave s') = replicate PWM_PHASE_MAX_COUNT 0"
    "expectedEventCount s' = [0, 0, 0]" "shape_log s' = shape_log s"
    "useOnlyRisingEdgeForTriggerTemp s' = useOnlyRisingEdgeForTriggerTemp s"
    by (simp_all add: e wave_reset_def)
qed

text \<open>The shape from its description, whatever the previous one.\<close>

lemma toothed_waveform:
  assumes "float_ok fl" "1 \<le> k" "k + 2 \<le> n" "n \<le> 140" "om \<noteq> OM_NONE"
    and "length (syncronizationRatioFrom s) = 4" "length (syncronizationRatioTo s) = 4"
    and "sh = initializeTriggerWaveform fl om False (TT_TOOTHED_WHEEL (int n) (int k)) s"
  shows "toothed_shape fl sh (n - k) k" "\<not> shapeDefinitionError sh" "shape_log sh = shape_log s"
    "i < 2 * (n - k) - 1 \<Longrightarrow> switchTimes (wave sh) ! i < switchTimes (wave sh) ! (i + 1)"
    "switchTimes (wave sh) ! (2 * (n - k) - 1) = 1"
proof -
  define m where "m = n - k"
  have m: "0 < m" "m + k = n" "2 \<le> m" "m \<le> n" using assms(2,3) by (simp_all add: m_def)
  let ?s = "s\<lparr>shapeDefinitionError := False, useOnlyRisingEdgeForTriggerTemp := False\<rparr>"
  define g where "g = (of_nat (k + 1) :: rat)"
  have g: "of_int (int k + 1) = g" by (simp add: g_def)
  define s0 where "s0 = (setTriggerSynchronizationGap fl g (initialize fl om ?s))
    \<lparr>shapeWithoutTdc := int n > 1 \<and> int k = 0, isSynchronizationNeeded := int n > 2 \<and> int k \<noteq> 0\<rparr>"
  note i = initialize_setup [of ?s _ fl g om, OF _ _ refl]
  have built0: "built (2 * n) (wheel_nom n m) 0 s0" and plain0: "plain s0" and om0: "operationMode s0 = om"
    using i assms(5-7) by (simp_all add: s0_def built_def plain_def)
  define s1 where "s1 = addSkippedToothTriggerEvents fl T_PRIMARY (int n) (int k) (1 / 2) 0 (of_nat (getEngineCycle om))
      NO_LEFT_FILTER NO_RIGHT_FILTER s0"
  note b = teeth_built [OF assms(1) m(1,2) assms(4) built0 plain0 s1_def [folded om0]]
  have b1: "privateTriggerDefinitionSize s1 = 2 * m" "expectedEventCount s1 = [word_of_nat (2 * m), 0, 0]"
    using b(1) by (simp_all add: built_def)
  note same = b(3) [unfolded same_setup_def]
  have cfg: "isSynchronizationNeeded s1" "useRiseEdge s1" "\<not> gapBothDirections s1" "\<not> shapeWithoutTdc s1"
    "syncronizationRatioFrom s1 = [Some (fl (g * (3 / 4))), None, None, None]"
    "syncronizationRatioTo s1 ! 0 = fl (g * (5 / 4))" "shape_log s1 = shape_log s" "\<not> shapeDefinitionError s1"
    using same i assms(2,3,6,7) by (simp_all add: s0_def)
  note asc = built_ascending [OF b(1) m(4) assms(4)]
  have "checkSwitchTimes_loop (switchTimes (wave s1)) 0 (2 * m - 1) = []"
    by (rule checkSwitchTimes_ascending) (use asc in simp)
  then have check: "checkSwitchTimes (wave s1) (2 * m) = []" using b(4) by (simp add: checkSwitchTimes_def)
  have "unat (word_of_nat (2 * m) :: u32) = 2 * m"
    using m assms(4) by (subst unsigned_of_nat) (simp add: take_bit_nat_eq_self)
  then have "(word_of_nat (2 * m) :: u32) \<noteq> 2" using m(3) by auto
  then have exp: "calculateExpectedEventCounts False s1 = s1"
    using cfg b1 by (simp add: calculateExpectedEventCounts_def del: of_nat_mult)
  have "\<not> int n \<le> 0" using assms(3) by simp
  then have "configure_wheel fl (TT_TOOTHED_WHEEL (int n) (int k)) om ?s = s1"
    unfolding configure_wheel_def initializeSkippedToothTriggerWaveformExt_def Let_def s1_def s0_def
    by (simp only: trigger_type_e.case if_False g)
  then have "sh = s1\<lparr>shape_version := shape_version s1 + 1\<rparr>"
    unfolding assms(8) initializeTriggerWaveform_def Let_def using cfg check b1 exp by (simp add: getSize_def)
  then show "toothed_shape fl sh (n - k) k" "\<not> shapeDefinitionError sh" "shape_log sh = shape_log s"
    "i < 2 * (n - k) - 1 \<Longrightarrow> switchTimes (wave sh) ! i < switchTimes (wave sh) ! (i + 1)"
    "switchTimes (wave sh) ! (2 * (n - k) - 1) = 1"
    unfolding m_def [symmetric] toothed_shape_def g_def [symmetric]
    using cfg b1 b(4) asc m assms(2,4) by (simp_all add: getSize_def)
qed

text \<open>
  C25: the wave form of a toothed wheel. For every wheel of \<open>n\<close> up to 140 teeth with \<open>k \<ge> 1\<close> of them missing
  (60/2 and 36/1 among them), in every operation mode and for any single-precision rounding of the angles,
  \<open>initializeTriggerWaveform\<close> accepts the definition without an error or a warning: the switch times ascend strictly,
  the last one is exactly 1, and the gap is the synchronization point the decoder expects.
\<close>

theorem toothed_wheel_shape:
  assumes "float_ok fl" "1 \<le> k" "k + 2 \<le> n" "n \<le> 140" "om \<noteq> OM_NONE"
    and "length (syncronizationRatioFrom s) = 4" "length (syncronizationRatioTo s) = 4"
    and "sh = initializeTriggerWaveform fl om False (TT_TOOTHED_WHEEL (int n) (int k)) s"
  shows "toothed_shape fl sh (n - k) k \<and> \<not> shapeDefinitionError sh \<and> shape_log sh = shape_log s \<and>
    (\<forall>i < 2 * (n - k) - 1. switchTimes (wave sh) ! i < switchTimes (wave sh) ! (i + 1)) \<and>
    switchTimes (wave sh) ! (2 * (n - k) - 1) = 1"
  using toothed_waveform [OF assms] by blast

theorem toothed_wheel_shape_witness:
  "toothed_shape id (initializeTriggerWaveform id FOUR_STROKE_CRANK_SENSOR False (TT_TOOTHED_WHEEL 60 2) blank_waveform) 58 2"
proof -
  have len: "length (syncronizationRatioFrom blank_waveform) = 4" "length (syncronizationRatioTo blank_waveform) = 4"
    by (simp_all add: blank_waveform_def GAP_TRACKING_LENGTH_def)
  show ?thesis using toothed_wheel_shape [OF float_ok_id _ _ _ _ len refl, of 2 60 FOUR_STROKE_CRANK_SENSOR] by simp
qed

end
