(* ===== verification/Trigger_Wheel.thy ===== *)
theory Trigger_Wheel
  imports Toothed_Wheel
begin

text \<open>
  The decoder against a turning wheel.  The specification is the wheel itself: its position is the
  number of edges since the gap, and it is turned by events whose timing is that of a toothed wheel
  with missing teeth, with any change of speed of up to a fifth from one tooth to the next.
\<close>

record wheel_pos =
  w_pos :: nat
  w_rise :: int
  w_dur :: int
  w_time :: int

text \<open>The number of tooth pitches between the last two rising edges: the first tooth follows the gap.\<close>

definition pitch :: "nat \<Rightarrow> nat \<Rightarrow> int" where
  "pitch k p = (if p < 2 then int k + 1 else 1)"

definition next_pos :: "nat \<Rightarrow> nat \<Rightarrow> nat" where
  "next_pos m p = (p + 1) mod (2 * m)"

definition wheel_next :: "nat \<Rightarrow> wheel_pos \<Rightarrow> trigger_event_e \<times> int \<Rightarrow> wheel_pos" where
  "wheel_next m w e =
     (let p = next_pos m (w_pos w); t = snd e
      in if even p then \<lparr>w_pos = p, w_rise = t, w_dur = t - w_rise w, w_time = t\<rparr>
         else w\<lparr>w_pos := p, w_time := t\<rparr>)"

definition wheel_ok :: "nat \<Rightarrow> nat \<Rightarrow> int \<Rightarrow> wheel_pos \<Rightarrow> trigger_event_e \<times> int \<Rightarrow> bool" where
  "wheel_ok m k maxd w e =
     (let p = next_pos m (w_pos w); t = snd e; d = t - w_rise w
      in fst e = (if even p then SHAFT_PRIMARY_RISING else SHAFT_PRIMARY_FALLING) \<and> w_time w \<le> t \<and> d \<le> maxd \<and>
         (even p \<longrightarrow> 0 < d \<and> 5 * d * pitch k (w_pos w) \<le> 6 * w_dur w * pitch k p \<and>
                    5 * w_dur w * pitch k p \<le> 6 * d * pitch k (w_pos w)))"

fun turns :: "nat \<Rightarrow> nat \<Rightarrow> int \<Rightarrow> wheel_pos \<Rightarrow> (trigger_event_e \<times> int) list \<Rightarrow> bool" where
  "turns m k maxd w [] = True"
| "turns m k maxd w (e # es) = (wheel_ok m k maxd w e \<and> turns m k maxd (wheel_next m w e) es)"

definition wheel_inv :: "nat \<Rightarrow> int \<Rightarrow> wheel_pos \<Rightarrow> bool" where
  "wheel_inv m maxd w \<longleftrightarrow> w_pos w < 2 * m \<and> w_rise w \<le> w_time w \<and> 0 < w_dur w \<and> w_dur w \<le> maxd"

lemma wheel_inv_next: "wheel_inv m maxd w \<Longrightarrow> wheel_ok m k maxd w e \<Longrightarrow> 0 < m \<Longrightarrow> wheel_inv m maxd (wheel_next m w e)"
  by (auto simp: wheel_inv_def wheel_ok_def wheel_next_def next_pos_def Let_def)

lemma turns_append: "turns m k maxd w (xs @ ys) \<longleftrightarrow> turns m k maxd w xs \<and> turns m k maxd (foldl (wheel_next m) w xs) ys"
  by (induction xs arbitrary: w) auto

lemma w_pos_next [simp]: "w_pos (wheel_next m w e) = next_pos m (w_pos w)"
  by (simp add: wheel_next_def Let_def)

lemma w_pos_foldl: "w_pos w < 2 * m \<Longrightarrow> w_pos (foldl (wheel_next m) w es) = (w_pos w + length es) mod (2 * m)"
proof (induction es arbitrary: w)
  case (Cons e es)
  have "w_pos (wheel_next m w e) < 2 * m" using Cons.prems by (simp add: next_pos_def)
  from Cons.IH [OF this] show ?case by (simp add: next_pos_def mod_simps add.commute add.left_commute)
qed simp

subsection \<open>What the decoder knows\<close>

definition env_ok :: "decoder_env \<Rightarrow> bool" where
  "env_ok env \<longleftrightarrow> \<not> useOnlyRisingEdgeForTrigger env \<and> 1 \<le> ntPerUs env \<and> ntPerUs env \<le> 400"

definition usable :: "'z engine_trigger_scheme \<Rightarrow> wheel_pos \<Rightarrow> bool" where
  "usable s w \<longleftrightarrow> length (toothDurations s) = 5 \<and> length (eventCount (currentCycle s)) = 3 \<and>
     toothed_previous_time s \<le> w_time w"

text \<open>After one and after two rising edges of the wheel.\<close>

definition timed :: "'z engine_trigger_scheme \<Rightarrow> wheel_pos \<Rightarrow> bool" where
  "timed s w \<longleftrightarrow> usable s w \<and> \<not> isFirstEvent s \<and> toothed_previous_time s = w_rise w"

definition measures :: "'z engine_trigger_scheme \<Rightarrow> wheel_pos \<Rightarrow> bool" where
  "measures s w \<longleftrightarrow> timed s w \<and> toothDurations s ! 1 = word_of_int (w_dur w)"

text \<open>The decoder is at the position of the wheel.\<close>

definition tracks :: "'z engine_trigger_scheme \<Rightarrow> wheel_pos \<Rightarrow> bool" where
  "tracks s w \<longleftrightarrow> measures s w \<and> shaft_is_synchronized s \<and> previousShaftEventTimeNt s = w_time w \<and>
     current_index (currentCycle s) = word_of_nat (w_pos w) \<and> eventCount (currentCycle s) = [word_of_nat (w_pos w), 0, 0]"

lemma measured_duration:
  assumes "env_ok env" "timed s w" "t - w_rise w \<le> NT_PER_SECOND env"
  shows "measured env s t = word_of_int (t - w_rise w)"
  using assms by (simp add: measured_def clip_duration_def getCurrentGapDuration_def timed_def env_ok_def NT_PER_SECOND_def)

lemma unat_duration: "env_ok env \<Longrightarrow> 0 < d \<Longrightarrow> d \<le> NT_PER_SECOND env \<Longrightarrow> int (unat (word_of_int d :: u32)) = d"
  by (simp add: env_ok_def NT_PER_SECOND_def uint_word_of_int_eq flip: uint_nat) (simp add: take_bit_int_eq_self)

lemma isSync_first:
  assumes "toothed_shape fl shape m k"
  shows "isSync env shape d =
    isGapCondition (fl32 env) (Some (fl (of_nat (k + 1) * (3 / 4)))) (fl (of_nat (k + 1) * (5 / 4))) (d ! 0) (d ! 1)"
  using assms by (simp add: isSync_def toothed_shape_def GAP_TRACKING_LENGTH_def upt_rec isGapCondition_def)

text \<open>A rising edge is taken for the synchronization point exactly after the gap.\<close>

lemma sync_after_gap:
  assumes fl: "float_ok (fl32 env)" and shape: "toothed_shape (fl32 env) shape m k" and env: "env_ok env"
    and w: "wheel_inv m (NT_PER_SECOND env) w" and ok: "wheel_ok m k (NT_PER_SECOND env) w e" and rise: "even (next_pos m (w_pos w))"
    and d: "d ! 0 = word_of_int (snd e - w_rise w)" "d ! 1 = word_of_int (w_dur w)"
  shows "isSync env shape d \<longleftrightarrow> next_pos m (w_pos w) = 0"
proof -
  let ?p = "next_pos m (w_pos w)" and ?c = "snd e - w_rise w" and ?q = "w_dur w"
  have o: "0 < ?c" "?c \<le> NT_PER_SECOND env" "5 * ?c * pitch k (w_pos w) \<le> 6 * ?q * pitch k ?p"
    "5 * ?q * pitch k ?p \<le> 6 * ?c * pitch k (w_pos w)"
    using ok rise by (simp_all add: wheel_ok_def Let_def)
  have q: "0 < ?q" "?q \<le> NT_PER_SECOND env" using w by (simp_all add: wheel_inv_def)
  define cur where "cur = (word_of_int ?c :: u32)"
  define prv where "prv = (word_of_int ?q :: u32)"
  have u: "int (unat cur) = ?c" "int (unat prv) = ?q"
    unfolding cur_def prv_def using unat_duration [OF env] o q by blast+
  have pos: "0 < unat cur" "0 < unat prv" using u o(1) q(1) by linarith+
  have m: "2 \<le> m" "1 \<le> k" "k < 2 ^ 16" using shape by (simp_all add: toothed_shape_def)
  have K: "2 \<le> (of_nat (k + 1) :: rat)" "(of_nat (k + 1) :: rat) \<le> 2 ^ 17"
  proof -
    have "of_nat 2 \<le> (of_nat (k + 1) :: rat)" "of_nat (k + 1) \<le> (of_nat (2 ^ 17) :: rat)"
      using m by (simp_all only: of_nat_le_iff) simp_all
    then show "2 \<le> (of_nat (k + 1) :: rat)" "(of_nat (k + 1) :: rat) \<le> 2 ^ 17" by simp_all
  qed
  have real: "(of_nat (unat cur) :: rat) = of_int ?c" "(of_nat (unat prv) :: rat) = of_int ?q"
    by (simp_all only: u [symmetric] of_int_of_nat_eq)
  show ?thesis
  proof (cases "?p = 0")
    case True
    have "w_pos w + 1 = 2 * m"
      using True w m by (auto simp: next_pos_def wheel_inv_def mod_eq_0_iff_dvd dest!: dvd_imp_le)
    then have "pitch k (w_pos w) = 1" "pitch k ?p = int k + 1" using m True by (simp_all add: pitch_def)
    then have i: "5 * ?c \<le> 6 * (?q * (int k + 1))" "5 * ?q * (int k + 1) \<le> 6 * ?c" using o by simp_all
    have "isGapCondition (fl32 env) (Some (fl32 env (of_nat (k + 1) * (3 / 4)))) (fl32 env (of_nat (k + 1) * (5 / 4))) cur prv"
    proof (rule gap_detected [OF fl K pos])
      have "of_int (5 * ?q * (int k + 1)) \<le> (of_int (6 * ?c) :: rat)" using i(2) by (simp only: of_int_le_iff)
      then show "5 * of_nat (unat prv) * of_nat (k + 1) \<le> 6 * (of_nat (unat cur) :: rat)" unfolding real by (simp add: add.commute)
      have "of_int (5 * ?c) \<le> (of_int (6 * (?q * (int k + 1))) :: rat)" using i(1) by (simp only: of_int_le_iff)
      then show "5 * of_nat (unat cur) \<le> 6 * (of_nat (unat prv) * of_nat (k + 1) :: rat)" unfolding real by (simp add: add.commute)
    qed
    then show ?thesis using True isSync_first [OF shape, of env d] d by (simp add: cur_def prv_def)
  next
    case False
    have "\<not> ?p < 2" using False rise by (cases "?p = 1") auto
    then have "pitch k ?p = 1" by (simp add: pitch_def)
    moreover have "1 \<le> pitch k (w_pos w)" by (simp add: pitch_def)
    then have "5 * ?c * 1 \<le> 5 * ?c * pitch k (w_pos w)" using o(1) by (intro mult_left_mono) simp_all
    ultimately have i: "5 * ?c \<le> 6 * ?q" using o(3) by simp
    have "\<not> isGapCondition (fl32 env) (Some (fl32 env (of_nat (k + 1) * (3 / 4)))) (fl32 env (of_nat (k + 1) * (5 / 4))) cur prv"
    proof (rule tooth_no_gap [OF fl K pos])
      have "of_int (5 * ?c) \<le> (of_int (6 * ?q) :: rat)" using i by (simp only: of_int_le_iff)
      then show "5 * of_nat (unat cur) \<le> 6 * (of_nat (unat prv) :: rat)" unfolding real by simp
    qed
    then show ?thesis using False isSync_first [OF shape, of env d] d by (simp add: cur_def prv_def)
  qed
qed

subsection \<open>Steps\<close>

abbreviation decode_all ::
    "decoder_env \<Rightarrow> 'z engine_hooks \<Rightarrow> trigger_waveform \<Rightarrow> (trigger_event_e \<times> int) list \<Rightarrow> 'z engine_trigger_scheme \<Rightarrow> 'z engine_trigger_scheme" where
  "decode_all env hooks shape es s \<equiv> fold (engine_decode env hooks shape) es s"

lemma rise_wheelI: "env_ok env \<Longrightarrow> toothed_shape fl shape m k \<Longrightarrow> rise_wheel env shape"
  by (simp add: rise_wheel_def env_ok_def toothed_shape_def)

lemma count_event_length [simp]: "length (count_event i cs) = length cs"
  by (simp add: count_event_def)

lemma event_pair: "wheel_ok m k maxd w e \<Longrightarrow>
    e = (if even (next_pos m (w_pos w)) then SHAFT_PRIMARY_RISING else SHAFT_PRIMARY_FALLING, snd e)"
  by (cases e) (simp add: wheel_ok_def Let_def)

text \<open>One event: a falling edge keeps what is known, a rising edge adds to it.\<close>

lemma fall_step:
  assumes hooks: "hooks_ok hooks" and env: "env_ok env" and shape: "toothed_shape (fl32 env) shape m k"
    and ok: "wheel_ok m k maxd w e" and fall: "odd (next_pos m (w_pos w))" and s: "usable s w"
    and s': "s' = engine_decode env hooks shape e s"
  shows "usable s' (wheel_next m w e)" "timed s w \<Longrightarrow> timed s' (wheel_next m w e)" "measures s w \<Longrightarrow> measures s' (wheel_next m w e)"
proof -
  have t: "toothed_previous_time s \<le> snd e" using s ok by (simp add: usable_def wheel_ok_def Let_def)
  have "s' = engine_decode env hooks shape (SHAFT_PRIMARY_FALLING, snd e) s" using event_pair [OF ok] fall s' by simp
  note f = decode_fall [OF hooks rise_wheelI [OF env shape] t this]
  show 1: "usable s' (wheel_next m w e)" using s t by (simp add: usable_def f wheel_next_def Let_def fall)
  show 2: "timed s w \<Longrightarrow> timed s' (wheel_next m w e)" using 1 by (simp add: timed_def f wheel_next_def Let_def fall)
  show "measures s w \<Longrightarrow> measures s' (wheel_next m w e)"
    using 2 by (simp add: measures_def f wheel_next_def Let_def fall)
qed

lemma judged_durations:
  assumes hooks: "hooks_ok hooks" and s: "length (toothDurations s) = 5"
  shows "shiftDurations (toothDurations (judged env hooks shape sig t s)) =
    [measured env s t, measured env s t, toothDurations s ! 1, toothDurations s ! 2, toothDurations s ! 3]"
proof -
  obtain a b c e f where d: "toothDurations s = [a, b, c, e, f]"
    using s by (auto simp: length_Suc_conv eval_nat_numeral)
  then show ?thesis by (simp add: judged_position [OF hooks refl] shiftDurations_5)
qed

lemma rise_step:
  assumes hooks: "hooks_ok hooks" and env: "env_ok env" and shape: "toothed_shape (fl32 env) shape m k"
    and ok: "wheel_ok m k (NT_PER_SECOND env) w e" and rise: "even (next_pos m (w_pos w))" and s: "usable s w"
    and s': "s' = engine_decode env hooks shape e s"
  shows "timed s' (wheel_next m w e)" "timed s w \<Longrightarrow> measures s' (wheel_next m w e)"
proof -
  let ?j = "judged env hooks shape SHAFT_PRIMARY_RISING (snd e) s"
  have t: "toothed_previous_time s \<le> snd e" using s ok by (simp add: usable_def wheel_ok_def Let_def)
  have "s' = engine_decode env hooks shape (SHAFT_PRIMARY_RISING, snd e) s" using event_pair [OF ok] rise s' by simp
  note r = decode_rise [OF hooks rise_wheelI [OF env shape] t this]
  have len: "length (toothDurations s) = 5" "length (eventCount (currentCycle s)) = 3" using s by (simp_all add: usable_def)
  note d = judged_durations [OF hooks len(1), of env shape SHAFT_PRIMARY_RISING "snd e"]
  have r1: "toothDurations s' = shiftDurations (toothDurations ?j)" "toothed_previous_time s' = snd e" "\<not> isFirstEvent s'"
    "length (eventCount (currentCycle s')) = 3"
    using r len by (simp_all add: at_rise_def Let_def judged_position [OF hooks refl])
  show 1: "timed s' (wheel_next m w e)"
    by (simp add: timed_def usable_def r1 d wheel_next_def Let_def rise)
  have "measured env s (snd e) = word_of_int (snd e - w_rise w)" if "timed s w"
    using measured_duration [OF env that, of "snd e"] ok by (simp add: wheel_ok_def Let_def)
  then show "timed s w \<Longrightarrow> measures s' (wheel_next m w e)"
    using 1 by (simp add: measures_def r1 d wheel_next_def Let_def rise)
qed

text \<open>From a known duration on, the gap is the synchronization point.\<close>

lemma measured_rise:
  assumes hooks: "hooks_ok hooks" and env: "env_ok env" and fl: "float_ok (fl32 env)"
    and shape: "toothed_shape (fl32 env) shape m k" and w: "wheel_inv m (NT_PER_SECOND env) w"
    and ok: "wheel_ok m k (NT_PER_SECOND env) w e" and rise: "even (next_pos m (w_pos w))" and s: "measures s w"
    and s': "s' = engine_decode env hooks shape e s"
  defines "j \<equiv> judged env hooks shape SHAFT_PRIMARY_RISING (snd e) s"
  shows "at_rise env shape (snd e) j s'" "isSync env shape (toothDurations j) \<longleftrightarrow> next_pos m (w_pos w) = 0"
proof -
  have us: "usable s w" "timed s w" using s by (simp_all add: measures_def timed_def)
  have t: "toothed_previous_time s \<le> snd e" using us ok by (simp add: usable_def wheel_ok_def Let_def)
  have "s' = engine_decode env hooks shape (SHAFT_PRIMARY_RISING, snd e) s" using event_pair [OF ok] rise s' by simp
  from decode_rise [OF hooks rise_wheelI [OF env shape] t this] show "at_rise env shape (snd e) j s'" by (simp add: j_def)
  have "measured env s (snd e) = word_of_int (snd e - w_rise w)"
    using measured_duration [OF env us(2), of "snd e"] ok by (simp add: wheel_ok_def Let_def)
  then have "toothDurations j ! 0 = word_of_int (snd e - w_rise w)" "toothDurations j ! 1 = word_of_int (w_dur w)"
    using us s by (simp_all add: j_def judged_position [OF hooks refl] usable_def measures_def)
  from sync_after_gap [OF fl shape env w ok rise this] show "isSync env shape (toothDurations j) \<longleftrightarrow> next_pos m (w_pos w) = 0" .
qed

lemma measures_step:
  assumes hooks: "hooks_ok hooks" and env: "env_ok env" and fl: "float_ok (fl32 env)"
    and shape: "toothed_shape (fl32 env) shape m k" and w: "wheel_inv m (NT_PER_SECOND env) w"
    and ok: "wheel_ok m k (NT_PER_SECOND env) w e" and s: "measures s w"
    and s': "s' = engine_decode env hooks shape e s"
  shows "measures s' (wheel_next m w e)" "next_pos m (w_pos w) = 0 \<Longrightarrow> tracks s' (wheel_next m w e)"
proof -
  have us: "usable s w" "timed s w" using s by (simp_all add: measures_def timed_def)
  show 1: "measures s' (wheel_next m w e)"
    using fall_step(3) [OF hooks env shape ok _ us(1) s'] rise_step(2) [OF hooks env shape ok _ us(1) s'] s us(2)
    by (cases "even (next_pos m (w_pos w))") simp_all
  assume z: "next_pos m (w_pos w) = 0"
  then have rise: "even (next_pos m (w_pos w))" by simp
  note r = measured_rise [OF hooks env fl shape w ok rise s s']
  show "tracks s' (wheel_next m w e)"
    using 1 r z by (simp add: tracks_def at_rise_def Let_def wheel_next_def judged_position [OF hooks refl])
qed

lemma next_pos_cases:
  assumes "p < 2 * m"
  shows "next_pos m p = (if p + 1 = 2 * m then 0 else p + 1)"
  using assms by (auto simp: next_pos_def)

lemma small_index: "p < 2 * m \<Longrightarrow> m \<le> 140 \<Longrightarrow> uint (word_of_nat p :: u32) = int p"
  by (simp add: unsigned_of_nat take_bit_nat_eq_self)

lemma tracks_step:
  assumes hooks: "hooks_ok hooks" and env: "env_ok env" and fl: "float_ok (fl32 env)"
    and shape: "toothed_shape (fl32 env) shape m k" and w: "wheel_inv m (NT_PER_SECOND env) w"
    and ok: "wheel_ok m k (NT_PER_SECOND env) w e" and s: "tracks s w"
    and s': "s' = engine_decode env hooks shape e s"
  defines "z \<equiv> next_pos m (w_pos w) = 0"
  shows "tracks s' (wheel_next m w e)" "getTotalEventCounter s' = getTotalEventCounter s + 1"
    "totalRevolutionCounter s' = totalRevolutionCounter s + of_bool z"
    "totalTriggerErrorCounter s' = totalTriggerErrorCounter s"
    "triggerErrorDetection s' = (if z then cb_add 0 (triggerErrorDetection s) else triggerErrorDetection s)"
proof -
  have me: "measures s w" and us: "usable s w" using s by (simp_all add: tracks_def measures_def timed_def)
  have tr: "shaft_is_synchronized s" "previousShaftEventTimeNt s = w_time w" "current_index (currentCycle s) = word_of_nat (w_pos w)"
    "eventCount (currentCycle s) = [word_of_nat (w_pos w), 0, 0]" using s by (simp_all add: tracks_def)
  have live: "\<not> snd e - w_time w > NT_PER_SECOND env" using ok w by (simp add: wheel_ok_def wheel_inv_def Let_def)
  have p: "w_pos w < 2 * m" "m \<le> 140" "getSize shape = 2 * m" "expectedEventCount shape = [word_of_nat (2 * m), 0, 0]"
    using w shape by (simp_all add: wheel_inv_def toothed_shape_def)
  have sum: "word_of_nat (w_pos w) + 1 = (word_of_nat (w_pos w + 1) :: u32)" by simp
  have m1: "measures s' (wheel_next m w e)" by (rule measures_step(1) [OF hooks env fl shape w ok me s'])
  consider (fall) "odd (next_pos m (w_pos w))" | (gap) "z" | (tooth) "even (next_pos m (w_pos w))" "\<not> z" unfolding z_def by blast
  then have "tracks s' (wheel_next m w e) \<and> getTotalEventCounter s' = getTotalEventCounter s + 1 \<and>
    totalRevolutionCounter s' = totalRevolutionCounter s + of_bool z \<and> totalTriggerErrorCounter s' = totalTriggerErrorCounter s \<and>
    triggerErrorDetection s' = (if z then cb_add 0 (triggerErrorDetection s) else triggerErrorDetection s)"
  proof cases
    case fall
    then have nz: "\<not> z" "w_pos w + 1 < 2 * m" "next_pos m (w_pos w) = w_pos w + 1"
      using p(1) by (auto simp: z_def next_pos_cases split: if_splits)
    have t: "toothed_previous_time s \<le> snd e" using us ok by (simp add: usable_def wheel_ok_def Let_def)
    have "s' = engine_decode env hooks shape (SHAFT_PRIMARY_FALLING, snd e) s" using event_pair [OF ok] fall s' by simp
    note f = decode_fall [OF hooks rise_wheelI [OF env shape] t this]
    have "tracks s' (wheel_next m w e)"
      using m1 live nz by (simp add: tracks_def f tr sum count_event_def wheel_next_def Let_def fall[simplified])
    moreover have "getTotalEventCounter s' = getTotalEventCounter s + 1"
      using small_index [OF nz(2) p(2)] small_index [OF p(1,2)] by (simp add: getTotalEventCounter_def f tr sum del: of_nat_add of_nat_Suc)
    ultimately show ?thesis using nz(1) by (simp add: f)
  next
    case gap
    then have rise: "even (next_pos m (w_pos w))" by (simp add: z_def)
    note r = measured_rise [OF hooks env fl shape w ok rise me s']
    have pm: "w_pos w + 1 = 2 * m" using gap p(1) by (simp add: z_def next_pos_cases split: if_splits)
    then have "eventCount (currentCycle (judged env hooks shape SHAFT_PRIMARY_RISING (snd e) s)) = expectedEventCount shape"
      using p(4) by (simp add: judged_position [OF hooks refl] tr count_event_def sum)
    then have noerr: "\<not> validateEventCounters shape (judged env hooks shape SHAFT_PRIMARY_RISING (snd e) s)"
      by (simp add: validateEventCounters_def)
    have "int (w_pos w) + 1 = int (getSize shape)" using pm p(3) by simp
    then have "getTotalEventCounter s' = getTotalEventCounter s + 1"
      using r gap small_index [OF p(1,2)]
      by (simp add: at_rise_def Let_def z_def getTotalEventCounter_def judged_position [OF hooks refl] tr)
    moreover have "tracks s' (wheel_next m w e)"
      using measures_step(2) [OF hooks env fl shape w ok me s'] gap by (simp add: z_def)
    ultimately show ?thesis
      using r gap noerr live by (simp add: at_rise_def Let_def z_def judged_position [OF hooks refl] tr)
  next
    case tooth
    then have nz: "w_pos w + 1 < 2 * m" "next_pos m (w_pos w) = w_pos w + 1"
      using p(1) by (auto simp: z_def next_pos_cases split: if_splits)
    note r = measured_rise [OF hooks env fl shape w ok tooth(1) me s']
    have "tracks s' (wheel_next m w e)"
      using m1 r tooth live nz
      by (simp add: tracks_def at_rise_def Let_def z_def judged_position [OF hooks refl] tr count_event_def sum wheel_next_def)
    moreover have "getTotalEventCounter s' = getTotalEventCounter s + 1"
      using r tooth(2) small_index [OF nz(1) p(2)] small_index [OF p(1,2)]
      by (simp add: at_rise_def Let_def z_def getTotalEventCounter_def judged_position [OF hooks refl] tr sum del: of_nat_add of_nat_Suc)
    ultimately show ?thesis using r tooth(2) by (simp add: at_rise_def Let_def z_def judged_position [OF hooks refl])
  qed
  then show "tracks s' (wheel_next m w e)" "getTotalEventCounter s' = getTotalEventCounter s + 1"
    "totalRevolutionCounter s' = totalRevolutionCounter s + of_bool z"
    "totalTriggerErrorCounter s' = totalTriggerErrorCounter s"
    "triggerErrorDetection s' = (if z then cb_add 0 (triggerErrorDetection s) else triggerErrorDetection s)"
    by blast+
qed

lemma wheel_inv_turns:
  "wheel_inv m maxd w \<Longrightarrow> turns m k maxd w es \<Longrightarrow> 0 < m \<Longrightarrow> wheel_inv m maxd (foldl (wheel_next m) w es)"
  by (induction es arbitrary: w) (auto intro: wheel_inv_next)

lemma tracks_run:
  assumes hooks: "hooks_ok hooks" and env: "env_ok env" and fl: "float_ok (fl32 env)" and shape: "toothed_shape (fl32 env) shape m k"
  shows "wheel_inv m (NT_PER_SECOND env) w \<Longrightarrow> turns m k (NT_PER_SECOND env) w es \<Longrightarrow> tracks s w \<Longrightarrow> s' = decode_all env hooks shape es s \<Longrightarrow>
    tracks s' (foldl (wheel_next m) w es) \<and> getTotalEventCounter s' = getTotalEventCounter s + int (length es) \<and>
    totalRevolutionCounter s' = totalRevolutionCounter s + word_of_nat ((w_pos w + length es) div (2 * m)) \<and>
    totalTriggerErrorCounter s' = totalTriggerErrorCounter s \<and>
    triggerErrorDetection s' = (cb_add 0 ^^ ((w_pos w + length es) div (2 * m))) (triggerErrorDetection s)"
proof (induction es arbitrary: w s)
  case Nil
  then show ?case by (simp add: wheel_inv_def)
next
  case (Cons e es)
  have m: "0 < m" using shape by (simp add: toothed_shape_def)
  let ?w = "wheel_next m w e" and ?s = "engine_decode env hooks shape e s"
  have ok: "wheel_ok m k (NT_PER_SECOND env) w e" "turns m k (NT_PER_SECOND env) ?w es" using Cons.prems(2) by simp_all
  note st = tracks_step [OF hooks env fl shape Cons.prems(1) ok(1) Cons.prems(3) refl]
  have "s' = decode_all env hooks shape es ?s" using Cons.prems(4) by simp
  note ih = Cons.IH [OF wheel_inv_next [OF Cons.prems(1) ok(1) m] ok(2) st(1) this]
  have p: "w_pos w < 2 * m" using Cons.prems(1) by (simp add: wheel_inv_def)
  have d: "(w_pos w + length (e # es)) div (2 * m) =
      of_bool (next_pos m (w_pos w) = 0) + (next_pos m (w_pos w) + length es) div (2 * m)"
  proof (cases "w_pos w + 1 = 2 * m")
    case True
    then have "w_pos w + length (e # es) = 2 * m + length es" by simp
    then have "(w_pos w + length (e # es)) div (2 * m) = 1 + length es div (2 * m)"
      using m div_add_self1 [of "2 * m" "length es"] by (simp only:)
    with True p show ?thesis by (simp add: next_pos_cases)
  qed (use p in \<open>simp add: next_pos_cases\<close>)
  show ?case using ih st(2-5) unfolding d by (simp add: funpow_swap1)
qed

text \<open>From the measured state, the next gap puts the decoder on the position of the wheel.\<close>

lemma measures_run:
  assumes hooks: "hooks_ok hooks" and env: "env_ok env" and fl: "float_ok (fl32 env)" and shape: "toothed_shape (fl32 env) shape m k"
  shows "wheel_inv m (NT_PER_SECOND env) w \<Longrightarrow> turns m k (NT_PER_SECOND env) w es \<Longrightarrow> measures s w \<Longrightarrow> 2 * m \<le> w_pos w + length es \<Longrightarrow>
    tracks (decode_all env hooks shape es s) (foldl (wheel_next m) w es)"
proof (induction es arbitrary: w s)
  case Nil
  then show ?case by (simp add: wheel_inv_def)
next
  case (Cons e es)
  have m: "0 < m" using shape by (simp add: toothed_shape_def)
  have ok: "wheel_ok m k (NT_PER_SECOND env) w e" "turns m k (NT_PER_SECOND env) (wheel_next m w e) es" using Cons.prems(2) by simp_all
  note inv = wheel_inv_next [OF Cons.prems(1) ok(1) m]
  note st = measures_step [OF hooks env fl shape Cons.prems(1) ok(1) Cons.prems(3) refl]
  have p: "w_pos w < 2 * m" using Cons.prems(1) by (simp add: wheel_inv_def)
  show ?case
  proof (cases "next_pos m (w_pos w) = 0")
    case True
    from tracks_run [OF hooks env fl shape inv ok(2) st(2) [OF True] refl] show ?thesis by simp
  next
    case False
    then have "w_pos (wheel_next m w e) = w_pos w + 1" using p by (simp add: next_pos_cases split: if_splits)
    then show ?thesis using Cons.IH [OF inv ok(2) st(1)] Cons.prems(4) by simp
  qed
qed

text \<open>Two edges of the wheel hold a rising one.\<close>

lemma two_edges:
  assumes hooks: "hooks_ok hooks" and env: "env_ok env" and shape: "toothed_shape (fl32 env) shape m k"
    and w: "w_pos w < 2 * m" and ok: "turns m k (NT_PER_SECOND env) w [e1, e2]" and s: "usable s w"
  defines "s' \<equiv> decode_all env hooks shape [e1, e2] s" and "w' \<equiv> wheel_next m (wheel_next m w e1) e2"
  shows "timed s' w'" "timed s w \<Longrightarrow> measures s' w'"
proof -
  let ?p = "next_pos m (w_pos w)"
  have ok1: "wheel_ok m k (NT_PER_SECOND env) w e1" and ok2: "wheel_ok m k (NT_PER_SECOND env) (wheel_next m w e1) e2"
    using ok by simp_all
  let ?s1 = "engine_decode env hooks shape e1 s"
  note f1 = fall_step [OF hooks env shape ok1 _ s refl] and r1 = rise_step [OF hooks env shape ok1 _ s refl]
  have u1: "usable ?s1 (wheel_next m w e1)" using f1(1) r1(1) by (cases "even ?p") (simp_all add: timed_def)
  note f2 = fall_step [OF hooks env shape ok2 _ u1 refl] and r2 = rise_step [OF hooks env shape ok2 _ u1 refl]
  have par: "even (next_pos m ?p) \<longleftrightarrow> odd ?p"
  proof -
    have "?p < 2 * m" using w by (simp add: next_pos_def)
    moreover have "?p + 1 = 2 * m \<Longrightarrow> odd ?p" by presburger
    ultimately show ?thesis by (auto simp: next_pos_cases)
  qed
  show "timed s' w'" "timed s w \<Longrightarrow> measures s' w'"
    using f1 r1 f2 r2 par by (cases "even ?p"; simp add: s'_def w'_def)+
qed

subsection \<open>Properties\<close>

text \<open>
  C7: the decoder refines the wheel. Once it is at the position of a wheel with \<open>m\<close> teeth and a gap
  of \<open>k\<close>, then for every sequence of edges of that wheel, at any speed, with the speed changing by up to a
  fifth from tooth to tooth, it stays synchronized at the position of the wheel, counts every edge and
  every revolution, and reports no decoding error. The listener is the engine; single-precision rounding and the
  parts of the engine that are not modelled are parameters.
\<close>

theorem decoder_tracks_wheel:
  assumes "hooks_ok hooks" "env_ok env" "float_ok (fl32 env)" "toothed_shape (fl32 env) shape m k"
    and "wheel_inv m (NT_PER_SECOND env) w" "turns m k (NT_PER_SECOND env) w es" "tracks s w"
    and "s' = decode_all env hooks shape es s"
  shows "shaft_is_synchronized s' \<and> getCurrentIndex s' = int ((w_pos w + length es) mod (2 * m)) \<and>
    getTotalEventCounter s' = getTotalEventCounter s + int (length es) \<and>
    totalRevolutionCounter s' = totalRevolutionCounter s + word_of_nat ((w_pos w + length es) div (2 * m)) \<and>
    totalTriggerErrorCounter s' = totalTriggerErrorCounter s"
proof -
  have p: "w_pos w < 2 * m" and m: "m \<le> 140" using assms(4,5) by (simp_all add: wheel_inv_def toothed_shape_def)
  note r = tracks_run [OF assms(1-8)]
  have "(w_pos w + length es) mod (2 * m) < 2 ^ 31" using p m by (rule_tac less_trans [OF mod_less_divisor]) simp_all
  then have "sint (word_of_nat ((w_pos w + length es) mod (2 * m)) :: u32) = int ((w_pos w + length es) mod (2 * m))"
    by (simp add: signed_of_nat signed_take_bit_int_eq_self)
  then show ?thesis using r w_pos_foldl [OF p, of es] by (simp add: tracks_def getCurrentIndex_def)
qed

text \<open>A board at 168 MHz, an engine that was just switched on, and a turning wheel with a gap of two teeth.\<close>

definition stm32f4_env :: decoder_env where
  "stm32f4_env = \<lparr>useOnlyRisingEdgeForTrigger = False, ntPerUs = 168, fl32 = id\<rparr>"

definition no_hooks :: "unit engine_hooks" where
  "no_hooks = \<lparr>setStopSpinning = id, setSpinningUp = (\<lambda>_. id), runtimeStatistics = (\<lambda>_. id)\<rparr>"

definition blank_engine :: engine_trigger where
  "blank_engine =
     resetTriggerState stm32f4_env
       \<lparr>shaft_is_synchronized = False, mostRecentSyncTime = 0, previousShaftEventTimeNt = 0, lastDecodingErrorTime = 0,
        someSortOfTriggerError = False, toothDurations = [], toothed_previous_time = 0,
        currentCycle = \<lparr>current_index = 0, eventCount = [], timeOfPreviousEventNt = [], totalTimeNt = []\<rparr>,
        expectedTotalTime = [], totalTriggerErrorCounter = 0, orderingErrorCounter = 0, startOfCycleNt = 0,
        curSignal = SHAFT_PRIMARY_FALLING, prevSignal = SHAFT_PRIMARY_FALLING, totalEventCountBase = 0,
        totalRevolutionCounter = 0, isFirstEvent = True, clock = int, clockReads = 0, decoder_log = [],
        triggerErrorDetection = cyclic_buffer_new 6 6, rpmValue = 0, triggerDecoderErrorPin = False, engineCycleEventCount = 0, engineCycle = 720\<rparr>"

definition turning :: wheel_pos where
  "turning = \<lparr>w_pos = 0, w_rise = 0, w_dur = 3000, w_time = 0\<rparr>"

definition wheel_edges :: "(trigger_event_e \<times> int) list" where
  "wheel_edges =
     [(SHAFT_PRIMARY_FALLING, 500), (SHAFT_PRIMARY_RISING, 1000), (SHAFT_PRIMARY_FALLING, 3000),
      (SHAFT_PRIMARY_RISING, 4000), (SHAFT_PRIMARY_FALLING, 4500), (SHAFT_PRIMARY_RISING, 5000),
      (SHAFT_PRIMARY_FALLING, 7000), (SHAFT_PRIMARY_RISING, 8000)]"

lemma concrete_ok: "hooks_ok no_hooks" "env_ok stm32f4_env" "float_ok (fl32 stm32f4_env)"
  by (simp_all add: hooks_ok_def no_hooks_def env_ok_def stm32f4_env_def float_ok_id)

lemma concrete_shape:
  assumes "1 \<le> k" "k + 2 \<le> n" "n \<le> 140"
  shows "toothed_shape (fl32 stm32f4_env)
    (initializeTriggerWaveform id FOUR_STROKE_CRANK_SENSOR False (TT_TOOTHED_WHEEL (int n) (int k)) blank_waveform) (n - k) k"
  using toothed_waveform(1) [OF float_ok_id assms, of FOUR_STROKE_CRANK_SENSOR blank_waveform _, OF _ _ _ refl]
  by (simp add: stm32f4_env_def blank_waveform_def GAP_TRACKING_LENGTH_def)

lemma concrete_wheel:
  "2 \<le> m \<Longrightarrow> wheel_inv m (NT_PER_SECOND stm32f4_env) turning" "usable blank_engine turning"
  "turns 2 2 (NT_PER_SECOND stm32f4_env) turning wheel_edges"
  by (simp_all add: wheel_inv_def turning_def stm32f4_env_def NT_PER_SECOND_def usable_def blank_engine_def resetTriggerState_def
      resetCurrentCycleState_def setShaftSynchronized_def Let_def GAP_TRACKING_LENGTH_def PWM_PHASE_MAX_WAVE_PER_PWM_def
      wheel_edges_def wheel_ok_def wheel_next_def next_pos_def pitch_def)

definition synchronized_engine :: engine_trigger where
  "synchronized_engine = blank_engine\<lparr>shaft_is_synchronized := True, isFirstEvent := False,
     toothDurations := [0, 3000, 0, 0, 0], previousShaftEventTimeNt := 0\<rparr>"

lemma synchronized_engine_tracks:
  "tracks synchronized_engine turning" "totalRevolutionCounter synchronized_engine = 0"
  by (simp_all add: tracks_def measures_def timed_def usable_def turning_def synchronized_engine_def blank_engine_def resetTriggerState_def
      resetCurrentCycleState_def setShaftSynchronized_def Let_def PWM_PHASE_MAX_WAVE_PER_PWM_def numeral_3_eq_3)

theorem decoder_tracks_wheel_witness:
  "\<exists>s. s = decode_all stm32f4_env no_hooks
      (initializeTriggerWaveform id FOUR_STROKE_CRANK_SENSOR False (TT_TOOTHED_WHEEL 4 2) blank_waveform) wheel_edges synchronized_engine \<and>
    shaft_is_synchronized s \<and> getCurrentIndex s = 0 \<and> totalRevolutionCounter s = 2"
proof -
  have "length wheel_edges = 8" "w_pos turning = 0" by (simp_all add: wheel_edges_def turning_def)
  with decoder_tracks_wheel [OF concrete_ok concrete_shape [of 2 4] concrete_wheel(1) _ synchronized_engine_tracks(1) refl, of wheel_edges]
    concrete_wheel(3) synchronized_engine_tracks(2)
  show ?thesis by simp
qed

text \<open>
  C6: the decoder finds the wheel. From any state whatever that noise, another wheel or a stop
  left it in, synchronized or not, one revolution and two teeth of a wheel are enough: after that many edges,
  and after every later one, it is synchronized at the position of the wheel.
\<close>

theorem decoder_resynchronizes:
  assumes "hooks_ok hooks" "env_ok env" "float_ok (fl32 env)" "toothed_shape (fl32 env) shape m k"
    and "wheel_inv m (NT_PER_SECOND env) w" "turns m k (NT_PER_SECOND env) w es"
    and "usable s w" "2 * m + 4 \<le> length es"
  shows "tracks (decode_all env hooks shape es s) (foldl (wheel_next m) w es)"
proof -
  have "4 \<le> length es" using assms(8) by simp
  then obtain e1 e2 e3 e4 rest where "es = [e1, e2, e3, e4] @ rest" by (rule list4_exhaust)
  then have es: "es = [e1, e2] @ [e3, e4] @ rest" by simp
  have m: "0 < m" using assms(4) by (simp add: toothed_shape_def)
  let ?w2 = "foldl (wheel_next m) w [e1, e2]" and ?s2 = "decode_all env hooks shape [e1, e2] s"
  let ?w4 = "foldl (wheel_next m) ?w2 [e3, e4]" and ?s4 = "decode_all env hooks shape [e3, e4] ?s2"
  have t: "turns m k (NT_PER_SECOND env) w [e1, e2]" "turns m k (NT_PER_SECOND env) ?w2 [e3, e4]"
    "turns m k (NT_PER_SECOND env) ?w4 rest"
    using assms(6) unfolding es turns_append by simp_all
  have i2: "wheel_inv m (NT_PER_SECOND env) ?w2" by (rule wheel_inv_turns [OF assms(5) t(1) m])
  have i4: "wheel_inv m (NT_PER_SECOND env) ?w4" by (rule wheel_inv_turns [OF i2 t(2) m])
  have "timed ?s2 ?w2" using two_edges(1) [OF assms(1,2,4) _ t(1) assms(7)] assms(5) by (simp add: wheel_inv_def)
  then have "measures ?s4 ?w4"
    using two_edges(2) [OF assms(1,2,4) _ t(2)] i2 by (simp add: wheel_inv_def timed_def)
  from measures_run [OF assms(1-4) i4 t(3) this] show ?thesis using assms(8) by (simp add: es)
qed

theorem decoder_resynchronizes_witness:
  "tracks (decode_all stm32f4_env no_hooks
      (initializeTriggerWaveform id FOUR_STROKE_CRANK_SENSOR False (TT_TOOTHED_WHEEL 4 2) blank_waveform) wheel_edges blank_engine)
    (foldl (wheel_next 2) turning wheel_edges)"
  using decoder_resynchronizes [OF concrete_ok concrete_shape [of 2 4] concrete_wheel(1) _ concrete_wheel(2), of wheel_edges]
    concrete_wheel(3)
  by (simp add: wheel_edges_def)

end
