(* ===== verification/Trigger_Central.thy ===== *)
theory Trigger_Central
  imports Rpm_Calculator Trigger_Wheel "HOL-Library.Signed_Division"
begin

text \<open>
  The hub of the trigger events, src/firmware/controllers/trigger/trigger_central.cpp: the noise filter, the extension
  of the crank position to the engine cycle, the listeners, and the correction of the engine phase by the cam signal.
  The events handed to the listeners are also kept in \<open>delivered\<close>. The tooth logger, the engine sniffer and
  debug output are left out.
\<close>

datatype vvt_mode_e = VVT_FIRST_HALF | VVT_SECOND_HALF | VVT_2GZ | MIATA_NB2

record central = engine_rpm +
  hwEventCounters :: "int list"
  vvtCamCounter :: int
  vvtEventRiseCounter :: int
  vvtEventFallCounter :: int
  vvtPosition :: float32
  timeAtVirtualZeroNt :: int
  vvtSyncTimeNt :: int
  previousVvtCamTime :: int
  previousVvtCamDuration :: int
  lastSignalTimes :: "int list"
  accumSignalPeriods :: "int list"
  accumSignalPrevPeriods :: "int list"
  engine_isSpinning :: bool
  lastTriggerToothEventTimeNt :: int
  triggerReentraint :: int
  maxTriggerReentraint :: int
  triggerDuration :: u32
  triggerMaxDuration :: u32
  delivered :: "(trigger_event_e \<times> int \<times> int) list"

record central_config =
  useNoiselessTriggerDecoder :: bool
  trigger_type :: trigger_type_e
  ambiguousOperationMode :: operation_mode_e
  vvtMode :: vvt_mode_e
  vvtCamSensorUseRise :: bool
  vvtDisplayInverted :: bool
  vvtOffset :: float32
  globalTriggerAngleOffset :: float32

definition HW_EVENT_TYPES :: nat where "HW_EVENT_TYPES = 6"
definition SYMMETRICAL_CRANK_SENSOR_DIVIDER :: int where "SYMMETRICAL_CRANK_SENSOR_DIVIDER = 4"

definition event_number :: "trigger_event_e \<Rightarrow> nat" where
  "event_number e =
     (case e of SHAFT_PRIMARY_FALLING \<Rightarrow> 0 | SHAFT_PRIMARY_RISING \<Rightarrow> 1 | SHAFT_SECONDARY_FALLING \<Rightarrow> 2
      | SHAFT_SECONDARY_RISING \<Rightarrow> 3 | SHAFT_3RD_FALLING \<Rightarrow> 4 | SHAFT_3RD_RISING \<Rightarrow> 5)"

definition resetCounters :: "'z central_scheme \<Rightarrow> 'z central_scheme" where
  "resetCounters s = s\<lparr>hwEventCounters := replicate HW_EVENT_TYPES 0\<rparr>"

subsection \<open>The noise filter\<close>

definition resetAccumSignalData :: "'z central_scheme \<Rightarrow> 'z central_scheme" where
  "resetAccumSignalData s =
     s\<lparr>lastSignalTimes := replicate HW_EVENT_TYPES (-1), accumSignalPeriods := replicate HW_EVENT_TYPES 0,
       accumSignalPrevPeriods := replicate HW_EVENT_TYPES 0\<rparr>"

definition opposite :: "trigger_event_e \<Rightarrow> trigger_event_e" where
  "opposite e =
     (case e of SHAFT_PRIMARY_FALLING \<Rightarrow> SHAFT_PRIMARY_RISING | SHAFT_PRIMARY_RISING \<Rightarrow> SHAFT_PRIMARY_FALLING
      | SHAFT_SECONDARY_FALLING \<Rightarrow> SHAFT_SECONDARY_RISING | SHAFT_SECONDARY_RISING \<Rightarrow> SHAFT_SECONDARY_FALLING
      | SHAFT_3RD_FALLING \<Rightarrow> SHAFT_3RD_RISING | SHAFT_3RD_RISING \<Rightarrow> SHAFT_3RD_FALLING)"

text \<open>The next edge completes the events of the cycle: the gap follows.\<close>

definition isGapExpected :: "trigger_waveform \<Rightarrow> nat \<Rightarrow> 'z trigger_state_scheme \<Rightarrow> bool" where
  "isGapExpected shape ti s =
     (isSynchronizationNeeded shape \<and> shaft_is_synchronized s \<and>
      eventCount (currentCycle s) ! ti + 1 = expectedEventCount shape ! ti)"

definition noiseFilter :: "trigger_waveform \<Rightarrow> int \<Rightarrow> trigger_event_e \<Rightarrow> 'z central_scheme \<Rightarrow> bool \<times> 'z central_scheme" where
  "noiseFilter shape nowNt signal s =
     (let ti = eventIndex signal; sg = event_number signal; os = event_number (opposite signal)
      in if ti \<noteq> T_PRIMARY then (True, s)
         else
           let s = (if lastSignalTimes s ! sg \<noteq> -1
                    then s\<lparr>accumSignalPeriods := (accumSignalPeriods s)[sg := accumSignalPeriods s ! sg + (nowNt - lastSignalTimes s ! sg)]\<rparr>
                    else s);
               s = s\<lparr>lastSignalTimes := (lastSignalTimes s)[sg := nowNt]\<rparr>;
               currentPeriod = accumSignalPeriods s ! sg;
               gap = isGapExpected shape (wheel_index ti) s;
               allowedPeriod = accumSignalPrevPeriods s ! os * (if gap then syncRatioAvg shape else 1);
               minAllowedPeriod = c_div (2 * allowedPeriod) 3;
               maxAllowedPeriod = c_div (5 * allowedPeriod) 4
           in if currentPeriod \<ge> minAllowedPeriod then
                let s = (if \<not> gap \<and> (maxAllowedPeriod = 0 \<or> currentPeriod \<le> maxAllowedPeriod)
                         then s\<lparr>accumSignalPrevPeriods := (accumSignalPrevPeriods s)[sg := currentPeriod]\<rparr> else s)
                in (True, s\<lparr>accumSignalPeriods := (accumSignalPeriods s)[sg := 0]\<rparr>)
              else (False, s))"

subsection \<open>Shaft signals\<close>

definition doesTriggerImplyOperationMode :: "trigger_type_e \<Rightarrow> bool" where
  "doesTriggerImplyOperationMode tt =
     (case tt of TT_TOOTHED_WHEEL _ _ \<Rightarrow> False | TT_ONE \<Rightarrow> False | TT_ONE_PLUS_ONE \<Rightarrow> False | TT_3_1_CAM \<Rightarrow> False
      | TT_TOOTHED_WHEEL_60_2 \<Rightarrow> False | TT_TOOTHED_WHEEL_36_1 \<Rightarrow> False | _ \<Rightarrow> True)"

definition getOperationMode :: "central_config \<Rightarrow> trigger_waveform \<Rightarrow> operation_mode_e" where
  "getOperationMode cc shape =
     (if doesTriggerImplyOperationMode (trigger_type cc) then operationMode shape else ambiguousOperationMode cc)"

definition onTriggerSignalEvent :: "int \<Rightarrow> 'z central_scheme \<Rightarrow> 'z central_scheme" where
  "onTriggerSignalEvent nowNt s = s\<lparr>engine_isSpinning := True, lastTriggerToothEventTimeNt := nowNt\<rparr>"

text \<open>
  The index for the listeners: \<open>int\<close> and \<open>unsigned int\<close> are combined as unsigned, and the sum is an \<open>int\<close>
  again. The remainder has the sign of the counter.
\<close>

definition triggerIndexForListeners :: "operation_mode_e \<Rightarrow> trigger_waveform \<Rightarrow> 'z trigger_state_scheme \<Rightarrow> int" where
  "triggerIndexForListeners mode shape s =
     (if mode = FOUR_STROKE_CAM_SENSOR \<or> mode = TWO_STROKE then getCurrentIndex s
      else
        let crankDivider = (if mode = FOUR_STROKE_CRANK_SENSOR then 2 else SYMMETRICAL_CRANK_SENSOR_DIVIDER);
            crankInternalIndex = getTotalRevolutionCounter s smod crankDivider
        in to_i32 (getCurrentIndex s + crankInternalIndex * int (privateTriggerDefinitionSize shape)))"

text \<open>A listener that does not return is None.\<close>

type_synonym 'z shaft_listener = "trigger_event_e \<Rightarrow> int \<Rightarrow> int \<Rightarrow> 'z central_scheme \<Rightarrow> 'z central_scheme option"

fun run_listeners ::
    "'z shaft_listener list \<Rightarrow> trigger_event_e \<Rightarrow> int \<Rightarrow> int \<Rightarrow> 'z central_scheme \<Rightarrow> 'z central_scheme option" where
  "run_listeners [] signal index timestamp s = Some s"
| "run_listeners (l # ls) signal index timestamp s =
     (case l signal index timestamp s of None \<Rightarrow> None | Some s \<Rightarrow> run_listeners ls signal index timestamp s)"

definition deliver ::
    "'z shaft_listener list \<Rightarrow> trigger_event_e \<Rightarrow> int \<Rightarrow> int \<Rightarrow> 'z central_scheme \<Rightarrow> 'z central_scheme option" where
  "deliver listeners signal index timestamp s =
     run_listeners listeners signal index timestamp (s\<lparr>delivered := delivered s @ [(signal, index, timestamp)]\<rparr>)"

definition propagate ::
    "central_config \<Rightarrow> trigger_waveform \<Rightarrow> 'z shaft_listener list \<Rightarrow> trigger_event_e \<Rightarrow> int \<Rightarrow>
     'z central_scheme \<Rightarrow> 'z central_scheme option" where
  "propagate cc shape listeners signal timestamp s =
     (let index = triggerIndexForListeners (getOperationMode cc shape) shape s;
          s = (if index = 0 then s\<lparr>timeAtVirtualZeroNt := timestamp\<rparr> else s)
      in if \<not> shaft_is_synchronized s then Some s
         else if isValidIndex shape s then deliver listeners signal index timestamp s
         else Some s)"

definition handleShaftSignal ::
    "decoder_env \<Rightarrow> central_config \<Rightarrow> ('z central_ext engine_rpm_ext) engine_hooks \<Rightarrow> trigger_waveform \<Rightarrow>
     'z shaft_listener list \<Rightarrow> trigger_event_e \<Rightarrow> int \<Rightarrow> 'z central_scheme \<Rightarrow> 'z central_scheme option" where
  "handleShaftSignal env cc hooks shape listeners signal timestamp s =
     (if shapeDefinitionError shape then
        let s = decoder_report ''Shaft event while trigger is mis-configured'' s
        in Some (s\<lparr>hwEventCounters := (hwEventCounters s)[0 := 155]\<rparr>)
      else
        case (if useNoiselessTriggerDecoder cc then noiseFilter shape timestamp signal s else (True, s)) of
          (passed, s) \<Rightarrow>
            if \<not> passed \<or> (useNoiselessTriggerDecoder cc \<and> \<not> isUsefulSignal env signal) then Some s
            else
              let s = onTriggerSignalEvent timestamp s;
                  i = event_number signal;
                  s = s\<lparr>hwEventCounters := (hwEventCounters s)[i := hwEventCounters s ! i + 1]\<rparr>;
                  s = decodeTriggerEvent env shape None (Some (engine_listener hooks shape)) signal timestamp s
              in propagate cc shape listeners signal timestamp s)"

text \<open>
  The entry point of the interrupt. The clock is read before and after; a stack that is too low returns
  without decrementing the re-entrance counter.
\<close>

definition hwHandleShaftSignal ::
    "decoder_env \<Rightarrow> rpm_config \<Rightarrow> central_config \<Rightarrow> ('z central_ext engine_rpm_ext) engine_hooks \<Rightarrow> trigger_waveform \<Rightarrow>
     'z shaft_listener list \<Rightarrow> trigger_event_e \<Rightarrow> int \<Rightarrow> 'z central_scheme \<Rightarrow> 'z central_scheme option" where
  "hwHandleShaftSignal env cfg cc hooks shape listeners signal timestamp s =
     (if \<not> useNoiselessTriggerDecoder cc \<and> \<not> isUsefulSignal env signal then Some s
      else
        case getTimeNowNt s of
          (entry, s) \<Rightarrow>
            let s = (if triggerReentraint s > maxTriggerReentraint s then s\<lparr>maxTriggerReentraint := triggerReentraint s\<rparr> else s);
                s = s\<lparr>triggerReentraint := triggerReentraint s + 1\<rparr>
            in if \<not> stackAvailable cfg then Some (decoder_report ''lowstck#8'' s)
               else
                 (case handleShaftSignal env cc hooks shape listeners signal timestamp s of
                    None \<Rightarrow> None
                  | Some s \<Rightarrow>
                      let s = s\<lparr>triggerReentraint := triggerReentraint s - 1\<rparr>
                      in case getTimeNowNt s of
                           (now, s) \<Rightarrow>
                             let s = s\<lparr>triggerDuration := word_of_int now - word_of_int entry\<rparr>
                             in Some (if triggerDuration s > triggerMaxDuration s
                                      then s\<lparr>triggerMaxDuration := triggerDuration s\<rparr> else s)))"

subsection \<open>The cam signal\<close>

definition validateCamVvtCounters :: "'z central_scheme \<Rightarrow> 'z central_scheme" where
  "validateCamVvtCounters s =
     (let camVvtValidationIndex = sint ((word_of_int (getTotalRevolutionCounter s) :: u32) AND 0xFF)
      in if camVvtValidationIndex = 0 then s\<lparr>vvtCamCounter := 0\<rparr>
         else if camVvtValidationIndex = 0xFE \<and> vvtCamCounter s < 60 then decoder_report ''no CAM signals'' s
         else s)"

definition miataNb2VVTRatioFrom :: rat where "miataNb2VVTRatioFrom = 850 / 100 * (75 / 100)"
definition miataNb2VVTRatioTo :: rat where "miataNb2VVTRatioTo = 14"
definition miataNbIndex :: int where "miataNbIndex = 0"

text \<open>The loop that moves the symmetrical crank to phase 0.\<close>

partial_function (option) advance_to_nb_phase :: "'z central_scheme \<Rightarrow> 'z central_scheme option" where
  "advance_to_nb_phase s =
     (if getTotalRevolutionCounter s smod 4 \<noteq> miataNbIndex then advance_to_nb_phase (incrementTotalEventCounter s) else Some s)"

definition correct_phase :: "vvt_mode_e \<Rightarrow> 'z central_scheme \<Rightarrow> 'z central_scheme option" where
  "correct_phase mode s =
     (case mode of
        VVT_FIRST_HALF \<Rightarrow> Some (if \<not> isEvenRevolution s then incrementTotalEventCounter s else s)
      | VVT_SECOND_HALF \<Rightarrow> Some (if isEvenRevolution s then incrementTotalEventCounter s else s)
      | MIATA_NB2 \<Rightarrow> advance_to_nb_phase s
      | VVT_2GZ \<Rightarrow> Some s)"

text \<open>
  The ratio of the last two durations: None when the previous duration is 0 (infinite, or NaN with a current
  duration of 0, which passes neither comparison and goes on).
\<close>

definition nb2_gap_ok :: "rounding \<Rightarrow> u32 \<Rightarrow> int \<Rightarrow> bool" where
  "nb2_gap_ok fl currentDuration prevDuration =
     (if prevDuration = 0 then currentDuration = 0
      else
        let ratio = fl (fl (of_nat (unat currentDuration)) / fl (of_int prevDuration))
        in \<not> (ratio < miataNb2VVTRatioFrom \<or> ratio > miataNb2VVTRatioTo))"

text \<open>The position of the cam; None: a loop of \<open>fixAngle\<close> does not end.\<close>

definition cam_position ::
    "decoder_env \<Rightarrow> central_config \<Rightarrow> trigger_waveform \<Rightarrow> int \<Rightarrow> float32 \<Rightarrow> 'z central_scheme \<Rightarrow> float32 option" where
  "cam_position env cc shape nowNt oneDegree s =
     (let fl = fl32 env;
          offsetNt = nowNt - timeAtVirtualZeroNt s;
          p = fl (fl (of_int (c_div offsetNt (ntPerUs env))) / oneDegree);
          tdc = (case tdcPosition shape of None \<Rightarrow> None | Some t \<Rightarrow> Some (fl (p - fl (t + globalTriggerAngleOffset cc))))
      in case fixAngle2 fl tdc (engineCycle s) of
           None \<Rightarrow> None
         | Some p \<Rightarrow> Some (fl ((if vvtDisplayInverted cc then - p else p) + vvtOffset cc)))"

definition hwHandleVvtCamSignal ::
    "decoder_env \<Rightarrow> central_config \<Rightarrow> trigger_waveform \<Rightarrow> trigger_value_e \<Rightarrow> int \<Rightarrow> 'z central_scheme \<Rightarrow> 'z central_scheme option" where
  "hwHandleVvtCamSignal env cc shape front nowNt s =
     (let s = (if front = TV_RISE then s\<lparr>vvtEventRiseCounter := vvtEventRiseCounter s + 1\<rparr>
               else s\<lparr>vvtEventFallCounter := vvtEventFallCounter s + 1\<rparr>)
      in if vvtCamSensorUseRise cc \<noteq> (front \<noteq> TV_FALL) then Some s
         else
           case oneDegreeUs s of
             None \<Rightarrow> Some s
           | Some oneDegree \<Rightarrow>
               let s = s\<lparr>vvtCamCounter := vvtCamCounter s + 1\<rparr>;
                   currentDuration = (word_of_int (nowNt - previousVvtCamTime s) :: u32);
                   gapOk = nb2_gap_ok (fl32 env) currentDuration (previousVvtCamDuration s);
                   s = (if vvtMode cc = MIATA_NB2
                        then s\<lparr>previousVvtCamDuration := uint currentDuration, previousVvtCamTime := nowNt\<rparr> else s)
               in if vvtMode cc = MIATA_NB2 \<and> \<not> gapOk then Some s
                  else
                    let s = s\<lparr>vvtSyncTimeNt := nowNt\<rparr>
                    in case cam_position env cc shape nowNt oneDegree s of
                         None \<Rightarrow> None
                       | Some p \<Rightarrow> correct_phase (vvtMode cc) (s\<lparr>vvtPosition := p\<rparr>))"

text \<open>The RPM calculator as a listener.\<close>

definition rpm_listener ::
    "decoder_env \<Rightarrow> rpm_config \<Rightarrow> 'z central_ext rpm_calls \<Rightarrow> trigger_waveform \<Rightarrow> operation_mode_e \<Rightarrow> 'z shaft_listener" where
  "rpm_listener env cfg ext shape mode signal index timestamp s =
     rpmShaftPositionCallback env cfg ext shape mode (word_of_int index) timestamp s"

subsection \<open>What the clients of the decoder see\<close>

text \<open>The members that neither the decoder nor the rest of the engine touches.\<close>

definition client :: "'z central_scheme \<Rightarrow> bool \<times> u32 \<times> (trigger_event_e \<times> int \<times> int) list" where
  "client s = (isSpinningUp s, revolutionCounterSinceBoot s, delivered s)"

definition hooks_quiet :: "('z central_ext engine_rpm_ext) engine_hooks \<Rightarrow> bool" where
  "hooks_quiet hooks \<longleftrightarrow>
     (\<forall>s nowNt. \<not> isSpinningUp s \<longrightarrow> client (setStopSpinning hooks s) = client s \<and> client (setSpinningUp hooks nowNt s) = client s \<and>
        client (runtimeStatistics hooks nowNt s) = client s)"

lemma client_simps [simp]:
  "client (decoder_report msg s) = client s" "client (setTriggerErrorState s) = client s" "client (setShaftSynchronized b s) = client s"
  "client (nextTriggerEvent env w t s) = client s" "client (note_signal env sig w s) = client s"
  "client (onShaftSynchronization None t shape s) = client s" "client (snd (getTimeNowNt s)) = client s"
  by (simp_all add: client_def isSpinningUp_def decoder_report_def setTriggerErrorState_def getTimeNowNt_def setShaftSynchronized_def
      nextTriggerEvent_def note_signal_def onShaftSynchronization_def resetCurrentCycleState_def incrementTotalEventCounter_def Let_def)

lemma client_update [simp]:
  "client (s\<lparr>someSortOfTriggerError := b\<rparr>) = client s" "client (s\<lparr>previousShaftEventTimeNt := t\<rparr>) = client s"
  "client (s\<lparr>toothDurations := d\<rparr>) = client s" "client (s\<lparr>toothed_previous_time := t\<rparr>) = client s"
  "client (s\<lparr>isFirstEvent := b\<rparr>) = client s" "client (s\<lparr>triggerDecoderErrorPin := b\<rparr>) = client s"
  "client (s\<lparr>triggerErrorDetection := c\<rparr>) = client s" "client (s\<lparr>totalTriggerErrorCounter := n\<rparr>) = client s"
  "client (s\<lparr>timeAtVirtualZeroNt := t\<rparr>) = client s" "client (s\<lparr>hwEventCounters := h\<rparr>) = client s"
  "client (s\<lparr>clockReads := r\<rparr>) = client s" "client (onTriggerSignalEvent t s) = client s"
  by (simp_all add: client_def isSpinningUp_def onTriggerSignalEvent_def)

lemma client_DecodingError [simp]: "client (engine_DecodingError s) = client s"
  by (simp add: engine_DecodingError_def Let_def)

lemma client_Syncronization [simp]: "client (engine_Syncronization shape b s) = client s"
  by (simp add: engine_Syncronization_def Let_def)

lemma client_InvalidIndex [simp]: "client (engine_InvalidIndex i s) = client s"
  by (simp add: engine_InvalidIndex_def)

lemma client_spinning: "client s' = client s \<Longrightarrow> isSpinningUp s' = isSpinningUp s"
  by (simp add: client_def)

lemma client_before:
  "hooks_quiet hooks \<Longrightarrow> \<not> isSpinningUp s \<Longrightarrow> client (before_event env (Some (engine_listener hooks shape)) t s) = client s"
  using client_spinning [of "setShaftSynchronized False s" s]
  by (simp add: before_event_def Let_def notify_def engine_listener_def hooks_quiet_def)

lemma client_important:
  "client (important_event env shape None (Some (engine_listener hooks shape)) w t s) = client s"
  by (simp add: important_event_def Let_def notify_def engine_listener_def)

lemma client_after:
  assumes q: "hooks_quiet hooks" and n: "\<not> isSpinningUp s"
  shows "client (after_event env shape (Some (engine_listener hooks shape)) t s) = client s"
proof -
  have h: "client (setSpinningUp hooks t (runtimeStatistics hooks t s)) = client s" if ns: "\<not> isSpinningUp s" for s
  proof -
    have 1: "client (runtimeStatistics hooks t s) = client s" using q ns by (simp add: hooks_quiet_def)
    then have "\<not> isSpinningUp (runtimeStatistics hooks t s)" using ns client_spinning [OF 1] by simp
    with q 1 show ?thesis by (simp add: hooks_quiet_def)
  qed
  define s1 where "s1 = (if \<not> isValidIndex shape s then engine_InvalidIndex (current_index (currentCycle s)) s else s)"
  define s2 where "s2 = (if someSortOfTriggerError s1 then
      (case getTimeNowNt s1 of (t, s) \<Rightarrow> if t - lastDecodingErrorTime s > NT_PER_SECOND env then s\<lparr>someSortOfTriggerError := False\<rparr> else s)
      else s1)"
  have c: "client s1 = client s" "client s2 = client s1" by (simp_all add: s1_def s2_def getTimeNowNt_def)
  moreover have "\<not> isSpinningUp s2" using n client_spinning [OF c(1)] client_spinning [OF c(2)] by simp
  moreover have "after_event env shape (Some (engine_listener hooks shape)) t s = setSpinningUp hooks t (runtimeStatistics hooks t s2)"
    by (simp add: after_event_def Let_def s2_def s1_def notify_def engine_listener_def)
  ultimately show ?thesis using h [of s2] by simp
qed

lemma client_decode:
  assumes q: "hooks_quiet hooks" and n: "\<not> isSpinningUp s"
  shows "client (engine_decode env hooks shape e s) = client s"
proof -
  let ?l = "Some (engine_listener hooks shape)" and ?w = "wheel_index (eventIndex (fst e))" and ?t = "snd e"
  define s1 where "s1 = note_signal env (fst e) ?w (before_event env ?l ?t s)"
  have 1: "client s1 = client s" using client_before [OF q n] by (simp add: s1_def)
  define s2 where "s2 = s1\<lparr>toothDurations := (toothDurations s1)[0 := clip_duration env (getCurrentGapDuration ?t s1)]\<rparr>"
  define skip where "skip = (needToSkipFall shape (eventType (fst e)) \<or> needToSkipRise shape (eventType (fst e)) \<or>
      \<not> considerEventForGap shape (eventIndex (fst e) = T_PRIMARY))"
  define s3 where "s3 = (if skip then nextTriggerEvent env ?w ?t s2 else important_event env shape None ?l ?w ?t s2)"
  have 3: "client s3 = client s" using 1 client_important [of env shape hooks ?w ?t s2] by (simp add: s3_def s2_def)
  then have "\<not> isSpinningUp s3" using n client_spinning [OF 3] by simp
  from client_after [OF q this] have a: "client (after_event env shape ?l ?t s3) = client s" using 3 by simp
  have "engine_decode env hooks shape e s =
      (if \<not> toothed_previous_time s1 \<le> ?t then decoder_report ''toothed_previous_time after nowNt'' s1 else after_event env shape ?l ?t s3)"
    by (simp only: decodeTriggerEvent_def Let_def s3_def s2_def s1_def skip_def)
  then show ?thesis using 1 a by simp
qed

subsection \<open>The RPM calculator behind the hub\<close>

definition central_calls_ok :: "'z central_ext rpm_calls \<Rightarrow> bool" where
  "central_calls_ok ext \<longleftrightarrow> rpm_calls_ok ext \<and>
     (\<forall>s. client (periodicFastCallback ext s) = client s \<and> client (addFuelEvents ext s) = client s \<and>
          client (prepareIgnitionPinIndices ext s) = client s)"

lemma client_rpm_update [simp]:
  "client (s\<lparr>previousRpmValue := x\<rparr>) = client s" "client (s\<lparr>rpmValue := x\<rparr>) = client s" "client (s\<lparr>oneDegreeUs := d\<rparr>) = client s"
  "client (s\<lparr>revolutionCounterSinceStart := n\<rparr>) = client s" "client (s\<lparr>calculator_isSpinning := b\<rparr>) = client s"
  "client (s\<lparr>lastRpmEventTimeNt := t\<rparr>) = client s"
  by (simp_all add: client_def isSpinningUp_def)

lemma client_assign: "central_calls_ok ext \<Longrightarrow> client (assignRpmValue env ext v s) = client s"
  by (simp add: assignRpmValue_def Let_def central_calls_ok_def)

lemma rpm_hooks_quiet:
  assumes ext: "central_calls_ok ext" and cfg: "\<not> isFasterEngineSpinUpEnabled cfg"
  shows "hooks_quiet (rpm_hooks env cfg ext)"
proof -
  have "client (setStopped env ext s) = client s" if "\<not> isSpinningUp s" for s
  proof -
    define s1 where "s1 = (let s = s\<lparr>revolutionCounterSinceStart := 0\<rparr>
      in if rpmValue s \<noteq> 0 then decoder_report ''engine stopped'' (assignRpmValue env ext 0 s) else s)"
    have c: "client s1 = client s" by (simp add: s1_def Let_def client_assign [OF ext])
    have "client (s1\<lparr>rpmState := STOPPED\<rparr>) = client s1"
      using that client_spinning [OF c] by (simp add: client_def isSpinningUp_def)
    with c show ?thesis by (simp add: setStopped_def s1_def Let_def)
  qed
  then have "client (calculator_setStopSpinning env ext s) = client s" if "\<not> isSpinningUp s" for s
    using that by (simp add: calculator_setStopSpinning_def isSpinningUp_def)
  then show ?thesis using cfg by (simp add: hooks_quiet_def rpm_hooks_def calculator_setSpinningUp_def)
qed

text \<open>The calculator as a listener outside the spin-up.\<close>

lemma set_rpm_client:
  assumes "central_calls_ok ext" "\<not> isSpinningUp s"
  shows "client (setRpmValue env cfg ext v s) = client s"
proof -
  define s1 where "s1 = assignRpmValue env ext v s"
  have c: "client s1 = client s" by (simp add: s1_def client_assign [OF assms(1)])
  have "client (s1\<lparr>rpmState := next_state cfg (rpmValue s1) (rpmState s1)\<rparr>) = client s1"
    using assms(2) client_spinning [OF c] next_state_not_spinning by (simp add: client_def isSpinningUp_def)
  with c show ?thesis using assms(1) by (simp add: setRpmValue_def Let_def s1_def central_calls_ok_def)
qed

lemma rpm_listener_effect:
  assumes ext: "central_calls_ok ext" and cfg: "stackAvailable cfg" and n: "\<not> isSpinningUp s"
  obtains s' where "rpm_listener env cfg ext shape mode sig idx t s = Some s'" "same_position s s'"
    "client s' = (False, revolutionCounterSinceBoot s + of_bool (word_of_int idx = (0 :: u32)), delivered s)"
proof (cases "word_of_int idx = (0 :: u32)")
  case False
  then have "rpm_listener env cfg ext shape mode sig idx t s = Some s"
    using cfg n by (simp add: rpm_listener_def rpmShaftPositionCallback_def)
  then show ?thesis using that False n by (simp add: client_def)
next
  case True
  have set_pos: "same_position s (setRpmValue env cfg ext v s)" for v
    using setRpmValue_effect(8) [of ext _ env cfg v s, OF _ refl] ext by (simp add: central_calls_ok_def)
  obtain s1 where s1: "client s1 = client s" "same_position s s1"
      "new_cycle env cfg ext mode t s = (onNewEngineCycle s1)\<lparr>lastRpmEventTimeNt := t\<rparr>"
  proof
    let ?s = "if checkIfSpinning env t s then
        let diffNt = t - lastRpmEventTimeNt s
        in if diffNt = 0 then setRpmValue env cfg ext (of_int NOISY_RPM) s
           else let rpm = cycle_rpm env cfg mode diffNt
                in setRpmValue env cfg ext (if rpm > of_int UNREALISTIC_RPM then of_int NOISY_RPM else rpm) s
      else s"
    show "client ?s = client s" "same_position s ?s" using set_rpm_client [OF ext n] set_pos by (simp_all add: Let_def)
    show "new_cycle env cfg ext mode t s = (onNewEngineCycle ?s)\<lparr>lastRpmEventTimeNt := t\<rparr>" by (simp add: new_cycle_def Let_def)
  qed
  let ?s2 = "(onNewEngineCycle s1)\<lparr>lastRpmEventTimeNt := t\<rparr>"
  have "client ?s2 = (False, revolutionCounterSinceBoot s + 1, delivered s)"
    using s1(1) n by (simp add: client_def isSpinningUp_def onNewEngineCycle_def)
  moreover have "same_position s ?s2" using s1(2) by (simp add: same_position_def onNewEngineCycle_def)
  moreover have "rpm_listener env cfg ext shape mode sig idx t s = Some ?s2"
    using calculation(1) cfg True s1(3) by (simp add: rpm_listener_def rpmShaftPositionCallback_def client_def Let_def)
  ultimately show ?thesis using that True by simp
qed

subsection \<open>From the edges of the wheel to the engine cycle\<close>

text \<open>The position in the engine cycle: two revolutions of the crankshaft.\<close>

definition engine_phase :: "nat \<Rightarrow> 'z trigger_state_scheme \<Rightarrow> wheel_pos \<Rightarrow> nat" where
  "engine_phase m s w = unat (totalRevolutionCounter s) mod 2 * (2 * m) + w_pos w"

lemma tracks_same: "same_position s s' \<Longrightarrow> tracks s w \<Longrightarrow> tracks s' w"
  by (simp add: same_position_def tracks_def measures_def timed_def usable_def)

lemma next_phase:
  assumes "p < 2 * m" "p' = next_pos m p" "r' = r + of_bool (p' = 0)"
  shows "r' mod 2 * (2 * m) + p' = (r mod 2 * (2 * m) + p + 1) mod (4 * m)"
proof (cases "p + 1 = 2 * m")
  case True
  then have "p' = 0" "r' = r + 1" using assms by (simp_all add: next_pos_def)
  moreover have "r mod 2 = 0 \<or> r mod 2 = 1" by auto
  ultimately show ?thesis using True by (auto simp: mod_Suc)
next
  case False
  then have p: "p' = p + 1" "r' = r" "p + 1 < 2 * m" using assms by (simp_all add: next_pos_cases)
  have "r mod 2 = 0 \<or> r mod 2 = 1" by auto
  then have "r mod 2 * (2 * m) \<le> 2 * m" by auto
  then have "r mod 2 * (2 * m) + p + 1 < 4 * m" using p(3) by linarith
  with p show ?thesis by simp
qed

lemma sint_small:
  assumes "unat r < 2 ^ 31"
  shows "sint (r :: u32) = int (unat r)"
proof -
  define n where "n = unat r"
  have "sint (word_of_nat n :: u32) = int n"
    using assms by (simp add: n_def [symmetric] signed_of_nat signed_take_bit_int_eq_self)
  then show ?thesis by (simp add: n_def)
qed

lemma smod_nonneg: "0 \<le> a \<Longrightarrow> 0 < b \<Longrightarrow> a smod b = a mod (b :: int)"
  by (cases "a = 0") (simp_all add: signed_modulo_int_def)

lemma smod_2: "sint (r :: u32) = int (unat r) \<Longrightarrow> sint r smod 2 = int (unat r mod 2)"
  using smod_nonneg [of "int (unat r)" 2] by (simp only: zmod_int) simp

lemma central_step:
  assumes ext: "central_calls_ok ext" and cfg: "\<not> isFasterEngineSpinUpEnabled cfg" "stackAvailable cfg"
    and env: "env_ok env" and fl: "float_ok (fl32 env)"
    and shape: "toothed_shape (fl32 env) shape m k" "\<not> shapeDefinitionError shape"
    and cc: "\<not> useNoiselessTriggerDecoder cc" "getOperationMode cc shape = FOUR_STROKE_CRANK_SENSOR"
    and w: "wheel_inv m (NT_PER_SECOND env) w" and ok: "wheel_ok m k (NT_PER_SECOND env) w e"
    and s: "tracks s w" "\<not> isSpinningUp s" "unat (totalRevolutionCounter s) + 1 < 2 ^ 31"
  defines "z \<equiv> next_pos m (w_pos w) = 0" and "ph \<equiv> (engine_phase m s w + 1) mod (4 * m)"
  obtains s' where
    "handleShaftSignal env cc (rpm_hooks env cfg ext) shape [rpm_listener env cfg ext shape mode] (fst e) (snd e) s = Some s'"
    "tracks s' (wheel_next m w e)" "\<not> isSpinningUp s'"
    "unat (totalRevolutionCounter s') = unat (totalRevolutionCounter s) + of_bool z" "engine_phase m s' (wheel_next m w e) = ph"
    "delivered s' = delivered s @ [(fst e, int ph, snd e)]"
    "revolutionCounterSinceBoot s' = revolutionCounterSinceBoot s + of_bool (ph = 0)"
    "totalTriggerErrorCounter s' = totalTriggerErrorCounter s"
proof -
  let ?hooks = "rpm_hooks env cfg ext" and ?w = "wheel_next m w e"
  have hooks: "hooks_ok ?hooks" "hooks_quiet ?hooks"
    using rpm_hooks_ok rpm_hooks_quiet [OF ext cfg(1)] ext by (auto simp: central_calls_ok_def)
  define s1 where "s1 = (let s = onTriggerSignalEvent (snd e) s; i = event_number (fst e)
    in s\<lparr>hwEventCounters := (hwEventCounters s)[i := hwEventCounters s ! i + 1]\<rparr>)"
  have c1: "client s1 = client s" by (simp add: s1_def Let_def)
  have n1: "\<not> isSpinningUp s1" using s(2) client_spinning [OF c1] by simp
  have p1: "same_position s s1" by (simp add: s1_def Let_def same_position_def onTriggerSignalEvent_def)
  define s2 where "s2 = engine_decode env ?hooks shape e s1"
  note st = tracks_step [OF hooks(1) env fl shape(1) w ok tracks_same [OF p1 s(1)] s2_def]
  have c2: "client s2 = client s" using client_decode [OF hooks(2) n1] c1 by (simp add: s2_def)
  have n2: "\<not> isSpinningUp s2" using s(2) client_spinning [OF c2] by simp
  have r2: "unat (totalRevolutionCounter s2) = unat (totalRevolutionCounter s) + of_bool z"
    "totalTriggerErrorCounter s2 = totalTriggerErrorCounter s"
    using st(3,4) p1 s(3) by (simp_all add: same_position_def z_def unat_word_ariths)
  have m: "2 \<le> m" "m \<le> 140" "getSize shape = 2 * m" using shape(1) by (simp_all add: toothed_shape_def)
  have pos: "w_pos w < 2 * m" "w_pos ?w < 2 * m" using w m by (simp_all add: wheel_inv_def next_pos_def)
  have ph: "engine_phase m s2 ?w = ph"
    unfolding engine_phase_def ph_def by (rule next_phase [OF pos(1)]) (simp_all add: r2 z_def)
  have ci: "current_index (currentCycle s2) = word_of_nat (w_pos ?w)" "shaft_is_synchronized s2"
    using st(1) by (simp_all add: tracks_def)
  have sm: "unat (word_of_nat (w_pos ?w) :: u32) = w_pos ?w"
    using pos(2) m(2) by (simp add: unsigned_of_nat take_bit_nat_eq_self)
  have valid: "isValidIndex shape s2" using pos(2) m(3) sm by (simp only: isValidIndex_def ci(1))
  have "unat (totalRevolutionCounter s2) < 2 ^ 31" using r2(1) s(3) by simp
  then have "sint (totalRevolutionCounter s2) = int (unat (totalRevolutionCounter s2))"
    by (rule sint_small)
  then have rev: "getTotalRevolutionCounter s2 smod 2 = int (unat (totalRevolutionCounter s2) mod 2)"
    unfolding getTotalRevolutionCounter_def by (rule smod_2)
  have small: "ph < 4 * m" using m(1) by (simp add: ph_def)
  have "getCurrentIndex s2 = int (w_pos ?w)"
    using pos(2) m(2) by (simp add: getCurrentIndex_def ci(1) signed_of_nat signed_take_bit_int_eq_self)
  moreover have "int (w_pos ?w) + int (unat (totalRevolutionCounter s2) mod 2) * int (privateTriggerDefinitionSize shape) = int ph"
    using ph m(3) by (simp add: engine_phase_def getSize_def flip: ph)
  ultimately have idx: "triggerIndexForListeners (getOperationMode cc shape) shape s2 = int ph"
    using small m(2) rev by (simp add: triggerIndexForListeners_def cc(2) Let_def)
  define s3 where "s3 = (if int ph = 0 then s2\<lparr>timeAtVirtualZeroNt := snd e\<rparr> else s2)"
  define s4 where "s4 = s3\<lparr>delivered := delivered s3 @ [(fst e, int ph, snd e)]\<rparr>"
  have c3: "client s3 = client s" using c2 by (simp add: s3_def)
  have p4: "same_position s2 s4" by (simp add: s4_def s3_def same_position_def)
  have n4: "\<not> isSpinningUp s4" using s(2) client_spinning [OF c3] by (simp add: s4_def isSpinningUp_def)
  have d4: "delivered s4 = delivered s @ [(fst e, int ph, snd e)]" "revolutionCounterSinceBoot s4 = revolutionCounterSinceBoot s"
    using c3 by (simp_all add: s4_def client_def)
  obtain s' where s': "rpm_listener env cfg ext shape mode (fst e) (int ph) (snd e) s4 = Some s'" "same_position s4 s'"
    "client s' = (False, revolutionCounterSinceBoot s4 + of_bool (word_of_int (int ph) = (0 :: u32)), delivered s4)"
    using rpm_listener_effect [OF ext cfg(2) n4] by blast
  have "propagate cc shape [rpm_listener env cfg ext shape mode] (fst e) (snd e) s2 = Some s'"
    using s'(1) ci(2) valid unfolding propagate_def Let_def idx
    by (simp add: deliver_def isValidIndex_def s4_def s3_def)
  then have run: "handleShaftSignal env cc ?hooks shape [rpm_listener env cfg ext shape mode] (fst e) (snd e) s = Some s'"
    using shape(2) cc(1) by (simp add: handleShaftSignal_def Let_def s2_def s1_def)
  have zero: "word_of_int (int ph) = (0 :: u32) \<longleftrightarrow> ph = 0"
    using small m(2) by (auto simp: word_of_nat_eq_0_iff dest: dvd_imp_le)
  have keep: "totalRevolutionCounter s' = totalRevolutionCounter s2" "totalTriggerErrorCounter s' = totalTriggerErrorCounter s2"
    using p4 s'(2) by (simp_all add: same_position_def)
  show ?thesis
  proof (rule that [OF run])
    show "tracks s' ?w" by (rule tracks_same [OF s'(2) tracks_same [OF p4 st(1)]])
    show "\<not> isSpinningUp s'" "delivered s' = delivered s @ [(fst e, int ph, snd e)]"
      "revolutionCounterSinceBoot s' = revolutionCounterSinceBoot s + of_bool (ph = 0)"
      using s'(3) d4 zero by (simp_all add: client_def)
    show "unat (totalRevolutionCounter s') = unat (totalRevolutionCounter s) + of_bool z" "engine_phase m s' ?w = ph"
      "totalTriggerErrorCounter s' = totalTriggerErrorCounter s"
      using r2 ph keep by (simp_all add: engine_phase_def)
  qed
qed

text \<open>The interrupts of a sequence of edges.\<close>

fun central_run ::
    "decoder_env \<Rightarrow> central_config \<Rightarrow> ('z central_ext engine_rpm_ext) engine_hooks \<Rightarrow> trigger_waveform \<Rightarrow>
     'z shaft_listener list \<Rightarrow> (trigger_event_e \<times> int) list \<Rightarrow> 'z central_scheme \<Rightarrow> 'z central_scheme option" where
  "central_run env cc hooks shape ls [] s = Some s"
| "central_run env cc hooks shape ls (e # es) s =
     (case handleShaftSignal env cc hooks shape ls (fst e) (snd e) s of
        None \<Rightarrow> None
      | Some s \<Rightarrow> central_run env cc hooks shape ls es s)"

definition expected_deliveries :: "nat \<Rightarrow> nat \<Rightarrow> (trigger_event_e \<times> int) list \<Rightarrow> (trigger_event_e \<times> int \<times> int) list" where
  "expected_deliveries m p es = map (\<lambda>i. (fst (es ! i), int ((p + i + 1) mod (4 * m)), snd (es ! i))) [0..<length es]"

lemma expected_deliveries_Cons:
  "expected_deliveries m p (e # es) =
     (fst e, int ((p + 1) mod (4 * m)), snd e) # expected_deliveries m ((p + 1) mod (4 * m)) es"
proof -
  have "[0..<length (e # es)] = 0 # map Suc [0..<length es]" by (simp add: upt_conv_Cons map_Suc_upt del: upt_Suc)
  moreover have "((p + 1) mod (4 * m) + i + 1) mod (4 * m) = (p + Suc i + 1) mod (4 * m)" for i
  proof -
    have "((p + 1) mod (4 * m) + i + 1) mod (4 * m) = (p + 1 + (i + 1)) mod (4 * m)"
      using mod_add_left_eq [of "p + 1" "4 * m" "i + 1"] by (simp only: add.assoc)
    then show ?thesis by simp
  qed
  ultimately show ?thesis by (simp add: expected_deliveries_def comp_def del: upt_Suc)
qed

lemma cycle_count:
  assumes "p < M"
  shows "(p + Suc n) div M = of_bool ((p + 1) mod M = 0) + ((p + 1) mod M + n) div M"
proof (cases "p + 1 = M")
  case True
  then have "p + Suc n = M + n" "M \<noteq> 0" by simp_all
  then show ?thesis using True by (simp only: div_add_self1) simp
qed (use assms in simp)

lemma central_run_follows:
  assumes ext: "central_calls_ok ext" and cfg: "\<not> isFasterEngineSpinUpEnabled cfg" "stackAvailable cfg"
    and env: "env_ok env" and fl: "float_ok (fl32 env)"
    and shape: "toothed_shape (fl32 env) shape m k" "\<not> shapeDefinitionError shape"
    and cc: "\<not> useNoiselessTriggerDecoder cc" "getOperationMode cc shape = FOUR_STROKE_CRANK_SENSOR"
  shows "wheel_inv m (NT_PER_SECOND env) w \<Longrightarrow> turns m k (NT_PER_SECOND env) w es \<Longrightarrow> tracks s w \<Longrightarrow> \<not> isSpinningUp s \<Longrightarrow>
    unat (totalRevolutionCounter s) + length es < 2 ^ 31 \<Longrightarrow>
    \<exists>s'. central_run env cc (rpm_hooks env cfg ext) shape [rpm_listener env cfg ext shape mode] es s = Some s' \<and>
      tracks s' (foldl (wheel_next m) w es) \<and> delivered s' = delivered s @ expected_deliveries m (engine_phase m s w) es \<and>
      revolutionCounterSinceBoot s' = revolutionCounterSinceBoot s + word_of_nat ((engine_phase m s w + length es) div (4 * m)) \<and>
      totalTriggerErrorCounter s' = totalTriggerErrorCounter s"
proof (induction es arbitrary: w s)
  case Nil
  have "w_pos w < 2 * m" using Nil.prems(1) by (simp add: wheel_inv_def)
  moreover have "unat (totalRevolutionCounter s) mod 2 = 0 \<or> unat (totalRevolutionCounter s) mod 2 = 1" by auto
  ultimately have "engine_phase m s w < 4 * m" by (auto simp: engine_phase_def)
  with Nil show ?case by (simp add: expected_deliveries_def)
next
  case (Cons e es)
  have m: "0 < m" using shape(1) by (simp add: toothed_shape_def)
  have ok: "wheel_ok m k (NT_PER_SECOND env) w e" "turns m k (NT_PER_SECOND env) (wheel_next m w e) es" using Cons.prems(2) by simp_all
  have "unat (totalRevolutionCounter s) + 1 < 2 ^ 31" using Cons.prems(5) by simp
  from central_step [OF ext cfg env fl shape cc Cons.prems(1) ok(1) Cons.prems(3,4) this, of mode] obtain s1 where s1:
    "handleShaftSignal env cc (rpm_hooks env cfg ext) shape [rpm_listener env cfg ext shape mode] (fst e) (snd e) s = Some s1"
    "tracks s1 (wheel_next m w e)" "\<not> isSpinningUp s1"
    "unat (totalRevolutionCounter s1) = unat (totalRevolutionCounter s) + of_bool (next_pos m (w_pos w) = 0)"
    "engine_phase m s1 (wheel_next m w e) = (engine_phase m s w + 1) mod (4 * m)"
    "delivered s1 = delivered s @ [(fst e, int ((engine_phase m s w + 1) mod (4 * m)), snd e)]"
    "revolutionCounterSinceBoot s1 = revolutionCounterSinceBoot s + of_bool ((engine_phase m s w + 1) mod (4 * m) = 0)"
    "totalTriggerErrorCounter s1 = totalTriggerErrorCounter s"
    by blast
  have "unat (totalRevolutionCounter s1) + length es < 2 ^ 31" using s1(4) Cons.prems(5) by (simp split: if_splits)
  from Cons.IH [OF wheel_inv_next [OF Cons.prems(1) ok(1) m] ok(2) s1(2,3) this] obtain s' where s':
    "central_run env cc (rpm_hooks env cfg ext) shape [rpm_listener env cfg ext shape mode] es s1 = Some s'"
    "tracks s' (foldl (wheel_next m) (wheel_next m w e) es)"
    "delivered s' = delivered s1 @ expected_deliveries m ((engine_phase m s w + 1) mod (4 * m)) es"
    "revolutionCounterSinceBoot s' = revolutionCounterSinceBoot s1 +
       word_of_nat (((engine_phase m s w + 1) mod (4 * m) + length es) div (4 * m))"
    "totalTriggerErrorCounter s' = totalTriggerErrorCounter s1"
    unfolding s1(5) by blast
  have "w_pos w < 2 * m" using Cons.prems(1) by (simp add: wheel_inv_def)
  moreover have "unat (totalRevolutionCounter s) mod 2 = 0 \<or> unat (totalRevolutionCounter s) mod 2 = 1" by auto
  ultimately have "engine_phase m s w < 4 * m" by (auto simp: engine_phase_def)
  then have "(engine_phase m s w + length (e # es)) div (4 * m) =
      of_bool ((engine_phase m s w + 1) mod (4 * m) = 0) + ((engine_phase m s w + 1) mod (4 * m) + length es) div (4 * m)"
    using cycle_count [of "engine_phase m s w" "4 * m" "length es"] by simp
  then have "revolutionCounterSinceBoot s' = revolutionCounterSinceBoot s + word_of_nat ((engine_phase m s w + length (e # es)) div (4 * m))"
    using s'(4) s1(7) by simp
  then show ?case using s' s1(1,6,8) by (simp add: expected_deliveries_Cons)
qed

text \<open>
  C3: the engine cycle follows the crankshaft. Once the decoder is at the position of a toothed crank wheel with \<open>m\<close>
  teeth, every edge of the wheel that comes as an interrupt is handed to the listeners exactly once, in order, with the next index of the
  engine cycle of two revolutions (\<open>4 * m\<close> events); the RPM calculator, which is the listener, counts exactly the
  engine cycles; and no decoding error is reported.
\<close>

theorem central_follows_engine:
  assumes "central_calls_ok ext" "\<not> isFasterEngineSpinUpEnabled cfg" "stackAvailable cfg" "env_ok env" "float_ok (fl32 env)"
    and "toothed_shape (fl32 env) shape m k" "\<not> shapeDefinitionError shape"
    and "\<not> useNoiselessTriggerDecoder cc" "getOperationMode cc shape = FOUR_STROKE_CRANK_SENSOR"
    and "wheel_inv m (NT_PER_SECOND env) w" "turns m k (NT_PER_SECOND env) w es" "tracks s w" "\<not> isSpinningUp s"
    and "unat (totalRevolutionCounter s) + length es < 2 ^ 31"
  shows "\<exists>s'. central_run env cc (rpm_hooks env cfg ext) shape [rpm_listener env cfg ext shape mode] es s = Some s' \<and>
    delivered s' = delivered s @
      map (\<lambda>i. (fst (es ! i), int ((engine_phase m s w + i + 1) mod (4 * m)), snd (es ! i))) [0..<length es] \<and>
    revolutionCounterSinceBoot s' = revolutionCounterSinceBoot s + word_of_nat ((engine_phase m s w + length es) div (4 * m)) \<and>
    totalTriggerErrorCounter s' = totalTriggerErrorCounter s"
  using central_run_follows [OF assms, of mode] unfolding expected_deliveries_def by blast

text \<open>The controller of the witnesses: a wheel of four teeth with a gap of two.\<close>

definition wheel_config :: central_config where
  "wheel_config = \<lparr>useNoiselessTriggerDecoder = False, trigger_type = TT_TOOTHED_WHEEL 4 2,
     ambiguousOperationMode = FOUR_STROKE_CRANK_SENSOR, vvtMode = MIATA_NB2, vvtCamSensorUseRise = True,
     vvtDisplayInverted = False, vvtOffset = 0, globalTriggerAngleOffset = 0\<rparr>"

definition wheel_shape :: trigger_waveform where
  "wheel_shape = initializeTriggerWaveform id FOUR_STROKE_CRANK_SENSOR False (TT_TOOTHED_WHEEL 4 2) blank_waveform"

definition quiet_rpm_config :: rpm_config where
  "quiet_rpm_config = \<lparr>fl64 = id, cranking_rpm = 500, isFasterEngineSpinUpEnabled = False, stackAvailable = True\<rparr>"

definition running_engine :: central where
  "running_engine = engine_rpm.extend (engine_trigger.extend synchronized_engine
       \<lparr>previousRpmValue = 0, oneDegreeUs = Some 10, lastRpmEventTimeNt = 0, revolutionCounterSinceBoot = 0,
        revolutionCounterSinceStart = 0, rpmState = RUNNING, calculator_isSpinning = True, stopEngineRequestTimeNt = 0,
        spinningEventIndex = 0, spinningEvents = [], timeOfLastEvent = [], instantRpmValue = [], prevInstantRpmValue = 0\<rparr>)
     \<lparr>hwEventCounters = [], vvtCamCounter = 0, vvtEventRiseCounter = 0, vvtEventFallCounter = 0, vvtPosition = 0,
      timeAtVirtualZeroNt = 0, vvtSyncTimeNt = 0, previousVvtCamTime = 0, previousVvtCamDuration = 1000,
      lastSignalTimes = [], accumSignalPeriods = [], accumSignalPrevPeriods = [], engine_isSpinning = True,
      lastTriggerToothEventTimeNt = 0, triggerReentraint = 0, maxTriggerReentraint = 0, triggerDuration = 0,
      triggerMaxDuration = 0, delivered = []\<rparr>"

theorem central_follows_engine_witness:
  "\<exists>s'. central_run stm32f4_env wheel_config (rpm_hooks stm32f4_env quiet_rpm_config no_calls) wheel_shape
      [rpm_listener stm32f4_env quiet_rpm_config no_calls wheel_shape FOUR_STROKE_CRANK_SENSOR] wheel_edges running_engine = Some s' \<and>
    map (fst \<circ> snd) (delivered s') = [1, 2, 3, 4, 5, 6, 7, 0] \<and> revolutionCounterSinceBoot s' = 1 \<and>
    totalTriggerErrorCounter s' = totalTriggerErrorCounter running_engine"
proof -
  have calls: "central_calls_ok no_calls" by (simp add: central_calls_ok_def no_calls_def rpm_calls_ok_def same_position_def)
  have cfg: "\<not> isFasterEngineSpinUpEnabled quiet_rpm_config" "stackAvailable quiet_rpm_config"
    by (simp_all add: quiet_rpm_config_def)
  have shape: "toothed_shape (fl32 stm32f4_env) wheel_shape 2 2" "\<not> shapeDefinitionError wheel_shape"
    using concrete_shape [of 2 4] toothed_waveform(2) [OF float_ok_id, of 2 4 FOUR_STROKE_CRANK_SENSOR blank_waveform]
    by (simp_all add: wheel_shape_def blank_waveform_def GAP_TRACKING_LENGTH_def)
  have cc: "\<not> useNoiselessTriggerDecoder wheel_config" "getOperationMode wheel_config wheel_shape = FOUR_STROKE_CRANK_SENSOR"
    by (simp_all add: wheel_config_def getOperationMode_def doesTriggerImplyOperationMode_def)
  have "tracks running_engine turning"
    using synchronized_engine_tracks(1)
    by (simp add: tracks_def measures_def timed_def usable_def running_engine_def engine_rpm.defs engine_trigger.defs)
  moreover have "\<not> isSpinningUp running_engine" "totalRevolutionCounter running_engine = 0" "delivered running_engine = []"
      "revolutionCounterSinceBoot running_engine = 0"
    using synchronized_engine_tracks(2) by (simp_all add: isSpinningUp_def running_engine_def engine_rpm.defs engine_trigger.defs)
  moreover have "length wheel_edges = 8" "w_pos turning = 0" by (simp_all add: wheel_edges_def turning_def)
  ultimately show ?thesis
    using central_follows_engine [OF calls cfg concrete_ok(2,3) shape cc concrete_wheel(1,3), of running_engine FOUR_STROKE_CRANK_SENSOR]
    by (force simp: engine_phase_def comp_def upt_rec)
qed

subsection \<open>The phase of the cam\<close>

lemma rem_4: "getTotalRevolutionCounter s smod 4 = 0 \<longleftrightarrow> unat (totalRevolutionCounter s) mod 4 = 0"
proof -
  let ?r = "totalRevolutionCounter s"
  have "sint ?r smod 4 = 0 \<longleftrightarrow> 4 dvd sint ?r"
    by (auto simp: signed_modulo_int_def sgn_if dvd_eq_mod_eq_0 zmod_zminus1_eq_if split: if_splits)
  also have "\<dots> \<longleftrightarrow> uint ?r mod 4 = 0"
    using mod_mod_cancel [of 4 "2 ^ 32" "sint ?r"] by (simp add: uint_sint take_bit_eq_mod dvd_eq_mod_eq_0)
  also have "\<dots> \<longleftrightarrow> int (unat ?r) mod 4 = 0" by simp
  also have "\<dots> \<longleftrightarrow> unat ?r mod 4 = 0" by presburger
  finally show ?thesis by (simp only: getTotalRevolutionCounter_def)
qed

lemma next_rem_4: "unat ((r :: u32) + 1) mod 4 = (unat r mod 4 + 1) mod 4"
  using mod_mod_cancel [of 4 "2 ^ 32" "unat r + 1"] by (simp add: unat_word_ariths mod_Suc_eq)

lemma distance_4:
  assumes "(x :: nat) < 4" "(4 - x) mod 4 = Suc j"
  shows "(4 - (x + 1) mod 4) mod 4 = j \<and> x \<noteq> 0"
proof -
  have "x = 0 \<or> x = 1 \<or> x = 2 \<or> x = 3" using assms(1) by arith
  with assms(2) show ?thesis by (elim disjE) simp_all
qed

lemma advance_returns:
  "(4 - unat (totalRevolutionCounter s) mod 4) mod 4 = j \<Longrightarrow>
   advance_to_nb_phase s = Some (s\<lparr>totalRevolutionCounter := totalRevolutionCounter s + word_of_nat j\<rparr>) \<and>
   unat (totalRevolutionCounter s + word_of_nat j) mod 4 = 0"
proof (induction j arbitrary: s)
  case 0
  have "unat (totalRevolutionCounter s) mod 4 < 4" by simp
  with 0 have z: "unat (totalRevolutionCounter s) mod 4 = 0" by presburger
  then have "getTotalRevolutionCounter s smod 4 = miataNbIndex" by (simp only: rem_4 miataNbIndex_def)
  then have "advance_to_nb_phase s = Some s" by (subst advance_to_nb_phase.simps) simp
  with z show ?case by simp
next
  case (Suc j)
  let ?s = "incrementTotalEventCounter s"
  have r: "totalRevolutionCounter ?s = totalRevolutionCounter s + 1" by (simp add: incrementTotalEventCounter_def)
  have n: "(4 - unat (totalRevolutionCounter ?s) mod 4) mod 4 = j" "unat (totalRevolutionCounter s) mod 4 \<noteq> 0"
    unfolding r next_rem_4 using distance_4 [OF _ Suc.prems] by simp_all
  from n(2) have "getTotalRevolutionCounter s smod 4 \<noteq> miataNbIndex" by (simp only: rem_4 miataNbIndex_def simp_thms)
  then have "advance_to_nb_phase s = advance_to_nb_phase ?s" by (subst advance_to_nb_phase.simps) simp
  moreover have "?s\<lparr>totalRevolutionCounter := totalRevolutionCounter ?s + word_of_nat j\<rparr> =
      s\<lparr>totalRevolutionCounter := totalRevolutionCounter s + word_of_nat (Suc j)\<rparr>"
    by (simp add: incrementTotalEventCounter_def add.assoc)
  moreover have "totalRevolutionCounter ?s + word_of_nat j = totalRevolutionCounter s + word_of_nat (Suc j)"
    by (simp add: r add.assoc)
  ultimately show ?case using Suc.IH [OF n(1)] by (simp only: simp_thms)
qed

lemma even_revolution: "isEvenRevolution s \<longleftrightarrow> odd (totalRevolutionCounter s)"
  by (simp add: isEvenRevolution_def and_one_eq odd_iff_mod_2_eq_one)

definition right_phase :: "vvt_mode_e \<Rightarrow> 'z central_scheme \<Rightarrow> bool" where
  "right_phase mode s =
     (case mode of VVT_FIRST_HALF \<Rightarrow> isEvenRevolution s | VVT_SECOND_HALF \<Rightarrow> \<not> isEvenRevolution s
      | MIATA_NB2 \<Rightarrow> getTotalRevolutionCounter s smod 4 = miataNbIndex | VVT_2GZ \<Rightarrow> True)"

lemma correct_phase_returns:
  "\<exists>k < 4. correct_phase mode s = Some (s\<lparr>totalRevolutionCounter := totalRevolutionCounter s + word_of_nat k\<rparr>) \<and>
    right_phase mode (s\<lparr>totalRevolutionCounter := totalRevolutionCounter s + word_of_nat k\<rparr>)"
proof (cases mode)
  case VVT_FIRST_HALF
  then show ?thesis
    by (intro exI [of _ "of_bool (\<not> isEvenRevolution s)"])
      (simp add: correct_phase_def right_phase_def incrementTotalEventCounter_def even_revolution)
next
  case VVT_SECOND_HALF
  then show ?thesis
    by (intro exI [of _ "of_bool (isEvenRevolution s)"])
      (simp add: correct_phase_def right_phase_def incrementTotalEventCounter_def even_revolution)
next
  case VVT_2GZ
  then show ?thesis by (intro exI [of _ 0]) (simp add: correct_phase_def right_phase_def)
next
  case MIATA_NB2
  define j where "j = (4 - unat (totalRevolutionCounter s) mod 4) mod 4"
  have "j < 4" by (simp add: j_def)
  with advance_returns [OF j_def [symmetric]] MIATA_NB2 show ?thesis
    by (intro exI [of _ j]) (simp add: correct_phase_def right_phase_def rem_4 miataNbIndex_def)
qed

text \<open>
  C26: the cam signal sets the phase of the engine. Whenever the handler goes on to measure the position of the cam, it
  returns for every state, clock and offset: the position of the cam is within one engine cycle before the configured
  offset, the revolution counter has been advanced by less than four revolutions to the phase the cam mode asks for, and the
  position on the crank wheel is the same.
\<close>

theorem cam_sets_phase:
  assumes "mono (fl32 env)" "float_ok (fl32 env)" "0 < engineCycle s" "engineCycle s \<le> 1000"
    and "vvtCamSensorUseRise cc = (front \<noteq> TV_FALL)" "oneDegreeUs s = Some d"
    and "vvtMode cc = MIATA_NB2 \<longrightarrow> nb2_gap_ok (fl32 env) (word_of_int (nowNt - previousVvtCamTime s)) (previousVvtCamDuration s)"
  shows "\<exists>s' k p. hwHandleVvtCamSignal env cc shape front nowNt s = Some s' \<and>
    totalRevolutionCounter s' = totalRevolutionCounter s + word_of_nat k \<and> k < (4 :: nat) \<and> right_phase (vvtMode cc) s' \<and>
    0 \<le> p \<and> p < of_nat (engineCycle s) \<and>
    vvtPosition s' = fl32 env ((if vvtDisplayInverted cc then - p else p) + vvtOffset cc) \<and>
    currentCycle s' = currentCycle s \<and> vvtSyncTimeNt s' = nowNt"
proof -
  define s1 where "s1 = (if front = TV_RISE then s\<lparr>vvtEventRiseCounter := vvtEventRiseCounter s + 1\<rparr>
      else s\<lparr>vvtEventFallCounter := vvtEventFallCounter s + 1\<rparr>)"
  define s2 where "s2 = s1\<lparr>vvtCamCounter := vvtCamCounter s1 + 1\<rparr>"
  define c where "c = (word_of_int (nowNt - previousVvtCamTime s2) :: u32)"
  define s3 where "s3 = (if vvtMode cc = MIATA_NB2 then s2\<lparr>previousVvtCamDuration := uint c, previousVvtCamTime := nowNt\<rparr> else s2)"
  define s4 where "s4 = s3\<lparr>vvtSyncTimeNt := nowNt\<rparr>"
  define q where "q = (case tdcPosition shape of None \<Rightarrow> None | Some t \<Rightarrow>
      Some (fl32 env (fl32 env (fl32 env (of_int (c_div (nowNt - timeAtVirtualZeroNt s4) (ntPerUs env))) / d) -
        fl32 env (t + globalTriggerAngleOffset cc))))"
  have s: "totalRevolutionCounter s4 = totalRevolutionCounter s" "currentCycle s4 = currentCycle s" "engineCycle s4 = engineCycle s"
      "oneDegreeUs s1 = Some d" "previousVvtCamTime s2 = previousVvtCamTime s" "previousVvtCamDuration s2 = previousVvtCamDuration s"
      "vvtSyncTimeNt s4 = nowNt"
    using assms(6) by (simp_all add: s4_def s3_def s2_def s1_def)
  obtain p where p: "fixAngle2 (fl32 env) q (engineCycle s) = Some p" "0 \<le> p" "p < of_nat (engineCycle s)"
    using fixAngle2_range [OF assms(1-4)] by blast
  define r where "r = fl32 env ((if vvtDisplayInverted cc then - p else p) + vvtOffset cc)"
  have pos: "cam_position env cc shape nowNt d s4 = Some r"
    using p(1) s(3) by (simp add: cam_position_def Let_def r_def q_def)
  define s5 where "s5 = s4\<lparr>vvtPosition := r\<rparr>"
  obtain k where k: "k < 4" "correct_phase (vvtMode cc) s5 = Some (s5\<lparr>totalRevolutionCounter := totalRevolutionCounter s5 + word_of_nat k\<rparr>)"
      "right_phase (vvtMode cc) (s5\<lparr>totalRevolutionCounter := totalRevolutionCounter s5 + word_of_nat k\<rparr>)"
    using correct_phase_returns by blast
  have gap: "\<not> (vvtMode cc = MIATA_NB2 \<and> \<not> nb2_gap_ok (fl32 env) c (previousVvtCamDuration s2))"
    using assms(7) by (simp only: c_def s(5,6)) blast
  have "hwHandleVvtCamSignal env cc shape front nowNt s = correct_phase (vvtMode cc) s5"
    unfolding hwHandleVvtCamSignal_def Let_def s1_def [symmetric] s(4) option.case s2_def [symmetric] c_def [symmetric]
      s3_def [symmetric] s4_def [symmetric] pos s5_def
    by (simp only: assms(5) gap simp_thms if_False)
  with k p(2,3) s show ?thesis
    by (intro exI [of _ "s5\<lparr>totalRevolutionCounter := totalRevolutionCounter s5 + word_of_nat k\<rparr>"] exI [of _ k] exI [of _ p])
      (simp add: s5_def r_def)
qed

theorem cam_sets_phase_witness:
  "\<exists>s'. hwHandleVvtCamSignal stm32f4_env wheel_config wheel_shape TV_RISE 1000
      (running_engine\<lparr>totalRevolutionCounter := 3, previousVvtCamDuration := 100\<rparr>) = Some s' \<and>
    getTotalRevolutionCounter s' smod 4 = 0 \<and> vvtSyncTimeNt s' = 1000"
proof -
  let ?s = "running_engine\<lparr>totalRevolutionCounter := 3, previousVvtCamDuration := 100\<rparr>"
  have fl: "mono (fl32 stm32f4_env)" by (simp add: stm32f4_env_def monoI)
  have s: "0 < engineCycle ?s" "engineCycle ?s \<le> 1000" "oneDegreeUs ?s = Some 10" "previousVvtCamTime ?s = 0"
      "previousVvtCamDuration ?s = 100"
    by (simp_all add: running_engine_def engine_rpm.defs engine_trigger.defs synchronized_engine_def blank_engine_def
        resetTriggerState_def resetCurrentCycleState_def setShaftSynchronized_def Let_def)
  have cc: "vvtCamSensorUseRise wheel_config = (TV_RISE \<noteq> TV_FALL)" "vvtMode wheel_config = MIATA_NB2"
    by (simp_all add: wheel_config_def)
  have "nb2_gap_ok (fl32 stm32f4_env) (word_of_int (1000 - previousVvtCamTime ?s)) (previousVvtCamDuration ?s)"
    unfolding s(4,5) by (simp add: nb2_gap_ok_def stm32f4_env_def miataNb2VVTRatioFrom_def miataNb2VVTRatioTo_def)
  with cam_sets_phase [OF fl concrete_ok(3) s(1,2) cc(1) s(3), of 1000 wheel_shape] cc(2)
  show ?thesis by (fastforce simp: right_phase_def miataNbIndex_def)
qed

end
