(* ===== verification/Trigger_Index.thy ===== *)
theory Trigger_Index
  imports Trigger_Decoder
begin

text \<open>
  The table from crank angles to trigger events: the binary search of \<open>findAngleIndex\<close> on its
  \<open>uint32_t\<close> bounds, and the table that \<open>prepareShape\<close> fills with it.
\<close>

definition ascending_angles :: "float32 list \<Rightarrow> nat \<Rightarrow> bool" where
  "ascending_angles angles len \<longleftrightarrow>
     0 < len \<and> len \<le> length angles \<and> len < 2 ^ 31 \<and> (\<forall>i. i + 1 < len \<longrightarrow> angles ! i < angles ! (i + 1))"

text \<open>The last event that is not after the target.\<close>

definition event_before :: "float32 list \<Rightarrow> nat \<Rightarrow> float32 \<Rightarrow> nat \<Rightarrow> bool" where
  "event_before angles len target j \<longleftrightarrow> j < len \<and> angles ! j \<le> target \<and> (\<forall>i. j < i \<longrightarrow> i < len \<longrightarrow> target < angles ! i)"

lemma ascending_less: "ascending_angles angles len \<Longrightarrow> i < j \<Longrightarrow> j < len \<Longrightarrow> angles ! i < angles ! j"
proof (induction j)
  case (Suc j)
  have "angles ! j < angles ! Suc j" using Suc.prems by (simp add: ascending_angles_def)
  with Suc show ?case by (cases "i = j") auto
qed simp

lemma u32_half: "l < 2 ^ 31 \<Longrightarrow> r < 2 ^ 31 \<Longrightarrow> unat ((word_of_nat l + word_of_nat r) div (2 :: u32)) = (l + r) div 2"
  by (simp add: unat_div_distrib unsigned_of_nat take_bit_nat_eq_self flip: of_nat_add)

lemma sint_u32: "n < 2 ^ 31 \<Longrightarrow> sint (word_of_nat n :: u32) = int n"
  by (simp add: signed_of_nat signed_take_bit_int_eq_self)

lemma findAngleIndex_loop_finds:
  assumes asc: "ascending_angles angles len" and first: "angles ! 0 \<le> target"
  shows "l \<le> Suc r \<Longrightarrow> r < len \<Longrightarrow> (0 < l \<Longrightarrow> angles ! (l - 1) < target) \<Longrightarrow> (\<And>i. r < i \<Longrightarrow> i < len \<Longrightarrow> target < angles ! i) \<Longrightarrow>
    \<exists>j. findAngleIndex_loop angles target (word_of_nat l) (word_of_nat r) = Some (int j) \<and> event_before angles len target j"
proof (induction "Suc r - l" arbitrary: l r rule: less_induct)
  case less
  have len: "len < 2 ^ 31" "len \<le> length angles" using asc by (simp_all add: ascending_angles_def)
  have r: "l \<le> len" "l < 2 ^ 32" "r < 2 ^ 31" "r < 2 ^ 32" using less.prems len by simp_all
  have le: "(word_of_nat l :: u32) \<le> word_of_nat r \<longleftrightarrow> l \<le> r"
    using r by (simp add: word_le_nat_alt unsigned_of_nat take_bit_nat_eq_self)
  note unfold = findAngleIndex_loop.simps [of angles target "word_of_nat l" "word_of_nat r"]
  show ?case
  proof (cases "l \<le> r")
    case False
    then have l: "l = Suc r" using less.prems(1) by simp
    then have "findAngleIndex_loop angles target (word_of_nat l) (word_of_nat r) = Some (int r)"
      using le r(3) unfolding unfold by (simp add: sint_u32)
    moreover have "event_before angles len target r"
      using less.prems l by (auto simp: event_before_def)
    ultimately show ?thesis by blast
  next
    case True
    define m where "m = (l + r) div 2"
    have m: "l \<le> m" "m \<le> r" using True by (simp_all add: m_def)
    have u: "unat ((word_of_nat l + word_of_nat r) div (2 :: u32)) = m" using u32_half [of l r] True r by (simp add: m_def)
    then have mid: "(word_of_nat l + word_of_nat r) div (2 :: u32) = word_of_nat m" by (metis of_nat_unat ucast_id)
    have um: "unat (word_of_nat m :: u32) = m" using u mid by simp
    have in_array: "\<not> length angles \<le> m" using m less.prems(2) len by simp
    consider (up) "angles ! m < target" | (down) "target < angles ! m" | (here) "angles ! m = target" by linarith
    then show ?thesis
    proof cases
      case up
      have "findAngleIndex_loop angles target (word_of_nat l) (word_of_nat r) =
          findAngleIndex_loop angles target (word_of_nat (Suc m)) (word_of_nat r)"
        using True le up in_array unfolding unfold Let_def mid um by (simp add: add.commute)
      then show ?thesis using less.hyps [of r "Suc m"] less.prems m up by simp
    next
      case down
      have "m \<noteq> 0" using down first by (cases m) auto
      then obtain p where p: "m = Suc p" by (cases m) simp_all
      have "findAngleIndex_loop angles target (word_of_nat l) (word_of_nat r) =
          findAngleIndex_loop angles target (word_of_nat l) (word_of_nat p)"
        using True le down in_array unfolding unfold Let_def mid um by (simp add: p)
      moreover have "target < angles ! i" if "p < i" "i < len" for i
      proof -
        have "m \<le> i" using that p by simp
        then have "angles ! m \<le> angles ! i" using ascending_less [OF asc, of m i] that(2) by (cases "i = m") auto
        with down show ?thesis by simp
      qed
      ultimately show ?thesis using less.hyps [of p l] less.prems m p by simp
    next
      case here
      have "findAngleIndex_loop angles target (word_of_nat l) (word_of_nat r) = Some (int m)"
        using True le here in_array m r(3) unfolding unfold Let_def mid um by (simp add: sint_u32)
      moreover have "event_before angles len target m"
        using here ascending_less [OF asc] less.prems(2) m by (auto simp: event_before_def)
      ultimately show ?thesis by blast
    qed
  qed
qed

lemma findAngleIndex_finds:
  assumes "ascending_angles (eventAngles s) (getLength s)" "eventAngles s ! 0 \<le> target"
  obtains j where "findAngleIndex s target = Some (int j)" "event_before (eventAngles s) (getLength s) target j"
proof -
  have len: "0 < getLength s" using assms(1) by (simp add: ascending_angles_def)
  then have "target < eventAngles s ! i" if "getLength s - 1 < i" "i < getLength s" for i using that by simp
  then obtain j where "findAngleIndex_loop (eventAngles s) target (word_of_nat 0) (word_of_nat (getLength s - 1)) = Some (int j)"
    "event_before (eventAngles s) (getLength s) target j"
    using findAngleIndex_loop_finds [OF assms, of 0 "getLength s - 1"] len by auto
  then show ?thesis using len by (intro that [of j]) (simp_all add: findAngleIndex_def)
qed

text \<open>The table, as far as it is filled.\<close>

definition indexed :: "trigger_waveform \<Rightarrow> nat \<Rightarrow> nat \<Rightarrow> bool" where
  "indexed s a j \<longleftrightarrow> triggerIndexByAngle s ! a = int j \<and> event_before (eventAngles s) (getLength s) (of_nat a) j"

lemma prepareShape_loop_indexes:
  assumes "ascending_angles (eventAngles s) (getLength s)" "eventAngles s ! 0 = 0" "\<not> useOnlyRisingEdgeForTriggerTemp s"
    and "angle + k \<le> length (triggerIndexByAngle s)" "\<forall>a < angle. \<exists>j. indexed s a j"
  shows "\<exists>s'. prepareShape_loop angle k s = Some s' \<and> (\<forall>a < angle + k. \<exists>j. indexed s' a j) \<and>
    eventAngles s' = eventAngles s \<and> getLength s' = getLength s"
  using assms
proof (induction k arbitrary: angle s)
  case (Suc k)
  obtain j where j: "findAngleIndex s (of_nat angle) = Some (int j)" "event_before (eventAngles s) (getLength s) (of_nat angle) j"
    using findAngleIndex_finds [OF Suc.prems(1), of "of_nat angle"] Suc.prems(2) by auto
  let ?s = "s\<lparr>triggerIndexByAngle := (triggerIndexByAngle s)[angle := int j]\<rparr>"
  have same: "getLength ?s = getLength s" by (simp add: getLength_def getCycleDuration_def getSize_def)
  have "\<exists>j. indexed ?s a j" if "a < angle + 1" for a
  proof (cases "a = angle")
    case True
    with j(2) Suc.prems(4) show ?thesis unfolding indexed_def same by auto
  next
    case False
    with that have "\<exists>j. indexed s a j" using Suc.prems(5) by auto
    with False show ?thesis unfolding indexed_def same by auto
  qed
  then have "\<exists>s'. prepareShape_loop (angle + 1) k ?s = Some s' \<and> (\<forall>a < angle + 1 + k. \<exists>j. indexed s' a j) \<and>
      eventAngles s' = eventAngles ?s \<and> getLength s' = getLength ?s"
    using Suc.prems(1-4) by (intro Suc.IH) (simp_all add: same)
  moreover have "prepareShape_loop angle (Suc k) s = prepareShape_loop (angle + 1) k ?s"
    using j(1) Suc.prems(3) by (simp add: front_only_index_def)
  ultimately show ?case unfolding same by simp
qed auto

text \<open>
  C27: \<open>prepareShape\<close> returns (the binary search ends and reads no element beyond the array), and for every degree of the
  engine cycle the table holds exactly the last trigger event that is not after it.
\<close>

theorem prepareShape_indexes:
  assumes "ascending_angles (eventAngles s) (getLength s)" "eventAngles s ! 0 = 0" "\<not> useOnlyRisingEdgeForTriggerTemp s"
    and "length (triggerIndexByAngle s) = 720"
  shows "\<exists>s'. prepareShape s = Some s' \<and> (\<forall>a < getEngineCycle (operationMode s). \<exists>j. triggerIndexByAngle s' ! a = int j \<and>
    j < getLength s \<and> eventAngles s ! j \<le> of_nat a \<and> (\<forall>i. j < i \<longrightarrow> i < getLength s \<longrightarrow> of_nat a < eventAngles s ! i))"
proof -
  have "0 + getEngineCycle (operationMode s) \<le> length (triggerIndexByAngle s)"
    using assms(4) by (simp add: getEngineCycle_def FOUR_STROKE_ENGINE_CYCLE_def)
  from prepareShape_loop_indexes [OF assms(1-3) this] show ?thesis
    by (auto simp: prepareShape_def indexed_def event_before_def)
qed

text \<open>A cam wheel with two teeth.\<close>

definition two_teeth :: trigger_waveform where
  "two_teeth = blank_waveform\<lparr>operationMode := FOUR_STROKE_CAM_SENSOR, privateTriggerDefinitionSize := 4,
     eventAngles := [0, 180, 360, 540]\<rparr>"

theorem prepareShape_indexes_witness:
  "\<exists>s'. prepareShape two_teeth = Some s' \<and> (\<exists>j. triggerIndexByAngle s' ! 200 = int j \<and> j < 4 \<and> eventAngles two_teeth ! j \<le> 200)"
proof -
  have len: "getLength two_teeth = 4"
    by (simp add: getLength_def getCycleDuration_def getSize_def two_teeth_def cycle_duration_def getEngineCycle_def FOUR_STROKE_ENGINE_CYCLE_def)
  have "ascending_angles (eventAngles two_teeth) 4"
    unfolding ascending_angles_def by (auto simp: two_teeth_def nth_Cons')
  moreover have "eventAngles two_teeth ! 0 = 0" "\<not> useOnlyRisingEdgeForTriggerTemp two_teeth"
    "length (triggerIndexByAngle two_teeth) = 720" "getEngineCycle (operationMode two_teeth) = 720"
    by (simp_all add: two_teeth_def blank_waveform_def getEngineCycle_def FOUR_STROKE_ENGINE_CYCLE_def)
  ultimately obtain s' where s': "prepareShape two_teeth = Some s'"
    "\<forall>a < 720. \<exists>j. triggerIndexByAngle s' ! a = int j \<and> j < 4 \<and> eventAngles two_teeth ! j \<le> of_nat a \<and>
       (\<forall>i. j < i \<longrightarrow> i < 4 \<longrightarrow> of_nat a < eventAngles two_teeth ! i)"
    using prepareShape_indexes [of two_teeth, unfolded len] by auto
  then show ?thesis using s'(2) [rule_format, of 200] by auto
qed

end
