(* ===== verification/Wheel_Steps.thy ===== *)
theory Wheel_Steps
  imports Toothed_Wheel
begin

text \<open>
  Adding the events of a wheel one by one, for any single-precision rounding: the angles are known up to an error,
  and the step rules below keep track of it. They are what the wheels of Wheel_Acceptance are built with.
\<close>

subsection \<open>Numbers that are exact\<close>

text \<open>Single precision also represents the halves of whole numbers, and rounding is monotone.\<close>

definition float_exact :: "rounding \<Rightarrow> bool" where
  "float_exact fl \<longleftrightarrow> float_ok fl \<and> mono fl \<and> (\<forall>i :: int. \<bar>i\<bar> \<le> 2 ^ 24 \<longrightarrow> fl (of_int i / 2) = of_int i / 2)"

lemma float_exact_id: "float_exact id"
  by (simp add: float_exact_def float_ok_id mono_def)

lemma float_exact_ok: "float_exact fl \<Longrightarrow> float_ok fl"
  by (simp add: float_exact_def)

lemma exact_numeral:
  assumes "float_exact fl" "numeral k \<le> (16777216 :: int)"
  shows "fl (numeral k) = numeral k" "fl (- numeral k) = - numeral k" "fl (numeral k / 2) = numeral k / 2"
    "fl (- (numeral k / 2)) = - (numeral k / 2)"
  using float_ok_int [OF float_exact_ok [OF assms(1)], of "numeral k"] float_ok_int [OF float_exact_ok [OF assms(1)], of "- numeral k"]
    assms(1) [unfolded float_exact_def, THEN conjunct2, THEN conjunct2, rule_format, of "numeral k"]
    assms(1) [unfolded float_exact_def, THEN conjunct2, THEN conjunct2, rule_format, of "- numeral k"] assms(2)
  by simp_all

lemma exact_small:
  assumes "float_exact fl"
  shows "fl 0 = 0" "fl 1 = 1" "fl (1 / 2) = 1 / 2"
  using float_ok_int [OF float_exact_ok [OF assms], of 0] float_ok_int [OF float_exact_ok [OF assms], of 1]
    assms [unfolded float_exact_def, THEN conjunct2, THEN conjunct2, rule_format, of 1] by simp_all

lemmas exact = exact_numeral exact_small

subsection \<open>Numbers that are known up to an error\<close>

definition near :: "rat \<Rightarrow> rat \<Rightarrow> rat \<Rightarrow> bool" where
  "near e x y \<longleftrightarrow> \<bar>x - y\<bar> \<le> e"

lemma near_sub: "near e x y \<Longrightarrow> near d u v \<Longrightarrow> y = v \<Longrightarrow> \<bar>x - u\<bar> \<le> e + d"
  unfolding near_def by linarith

lemma near_exact: "near 0 x x"
  by (simp add: near_def)

lemma near_weak: "near e x y \<Longrightarrow> e \<le> e' \<Longrightarrow> y = y' \<Longrightarrow> near e' x y'"
  by (simp add: near_def)

lemma near_add: "near e x y \<Longrightarrow> near d u v \<Longrightarrow> near (e + d) (x + u) (y + v)"
  unfolding near_def by linarith

lemma near_diff: "near e x y \<Longrightarrow> near d u v \<Longrightarrow> near (e + d) (x - u) (y - v)"
  unfolding near_def by linarith

lemma near_div: "near e x y \<Longrightarrow> 0 < n \<Longrightarrow> near (e / n) (x / n) (y / n)"
  unfolding near_def diff_divide_distrib [symmetric] by (simp add: divide_right_mono)

lemma near_times: "near e x y \<Longrightarrow> 0 \<le> n \<Longrightarrow> near (n * e) (n * x) (n * y)"
  unfolding near_def right_diff_distrib [symmetric] by (simp add: abs_mult mult_left_mono)

lemma near_times2: "near e x y \<Longrightarrow> 0 \<le> n \<Longrightarrow> near (e * n) (x * n) (y * n)"
  using near_times [of e x y n] by (simp add: mult.commute)

lemma float_error:
  assumes "float_ok fl" "1 / 2 ^ 20 \<le> \<bar>x\<bar>" "\<bar>x\<bar> \<le> 2 ^ 64"
  shows "\<bar>fl x - x\<bar> \<le> \<bar>x\<bar> / 2 ^ 24"
  using assms by (simp add: float_ok_def)

lemma near_fl:
  assumes fl: "float_ok fl" and n: "near e x y" "e \<le> 1 / 4" "1 / 2 \<le> \<bar>y\<bar>" "\<bar>y\<bar> \<le> 1000"
  shows "near (e + 1 / 2 ^ 14) (fl x) y"
proof -
  have x: "\<bar>x - y\<bar> \<le> e" using n(1) by (simp add: near_def)
  have b: "1 / 4 \<le> \<bar>x\<bar>" "\<bar>x\<bar> \<le> 1001" using x n(2-4) by linarith+
  have "\<bar>fl x - x\<bar> \<le> \<bar>x\<bar> / 2 ^ 24"
    by (rule float_error [OF fl order_trans [OF _ b(1)] order_trans [OF b(2)]]) simp_all
  moreover have "\<bar>x\<bar> / 2 ^ 24 \<le> 1 / 2 ^ 14" using b(2) by simp
  ultimately show ?thesis using x unfolding near_def by linarith
qed

text \<open>A switch time is at most 1: the error is smaller.\<close>

lemma near_time:
  assumes fl: "float_ok fl" and n: "near e x y" "e \<le> 1 / 2000" "1 / 1000 \<le> y" "y \<le> 1"
  shows "near (e + 1 / 2 ^ 23) (fl x) y"
proof -
  have x: "\<bar>x - y\<bar> \<le> e" using n(1) by (simp add: near_def)
  have b: "1 / 2000 \<le> \<bar>x\<bar>" "\<bar>x\<bar> \<le> 2" using x n(2-4) by linarith+
  have "\<bar>fl x - x\<bar> \<le> \<bar>x\<bar> / 2 ^ 24"
    by (rule float_error [OF fl order_trans [OF _ b(1)] order_trans [OF b(2)]]) simp_all
  moreover have "\<bar>x\<bar> / 2 ^ 24 \<le> 1 / 2 ^ 23" using b(2) by simp
  ultimately show ?thesis using x unfolding near_def by linarith
qed

lemma apart_not_same2:
  assumes fl: "float_ok fl" and d: "1 / 9900 \<le> y - x" "y - x \<le> 2"
  shows "\<not> isSameF fl x y"
proof -
  have a: "\<bar>x - y\<bar> = y - x" using d(1) by (simp add: abs_if)
  have "\<bar>fl (x - y) - (x - y)\<bar> \<le> \<bar>x - y\<bar> / 2 ^ 24"
    by (rule float_error [OF fl]; unfold a) (use d in \<open>linarith | simp\<close>)+
  then have "\<bar>fl (x - y) + (y - x)\<bar> \<le> (y - x) / 2 ^ 24" unfolding a by (simp add: algebra_simps)
  then have "fl (x - y) \<le> (y - x) / 2 ^ 24 - (y - x)" by linarith
  also have "z / 2 ^ 24 - z < - (1 / 10000)" if "1 / 9900 \<le> z" for z :: rat using that by (simp add: field_simps)
  from this [OF d(1)] have "(y - x) / 2 ^ 24 - (y - x) < - (1 / 10000)" .
  finally show ?thesis by (simp add: isSameF_def EPS_def)
qed

subsection \<open>One event\<close>

text \<open>
  \<open>n\<close> events were added to the shape \<open>s0\<close>, \<open>c\<close> of them on the primary channel and counted, the last one at
  \<open>y\<close>, a part of the cycle, up to the error \<open>e\<close>.
\<close>

definition fresh :: "trigger_waveform \<Rightarrow> bool" where
  "fresh s \<longleftrightarrow> operationMode s \<noteq> OM_NONE \<and> \<not> invertOnAdd s \<and> \<not> shapeDefinitionError s \<and> privateTriggerDefinitionSize s = 0 \<and>
     length (switchTimes (wave s)) = PWM_PHASE_MAX_COUNT \<and> expectedEventCount s = [0, 0, 0] \<and> previousAngle s = 0"

definition grown :: "trigger_waveform \<Rightarrow> nat \<Rightarrow> rat \<Rightarrow> rat \<Rightarrow> nat \<Rightarrow> trigger_waveform \<Rightarrow> bool" where
  "grown s0 n e y c s \<longleftrightarrow>
     fresh s0 \<and> same_setup s0 s \<and> privateTriggerDefinitionSize s = n \<and> length (switchTimes (wave s)) = PWM_PHASE_MAX_COUNT \<and>
     length (expectedEventCount s) = 3 \<and> expectedEventCount s ! 0 = word_of_nat c \<and> near e (previousAngle s) y \<and>
     (0 < n \<longrightarrow> previousAngle s = switchTimes (wave s) ! (n - 1)) \<and>
     (\<forall>i < n. 0 < switchTimes (wave s) ! i \<and> switchTimes (wave s) ! i \<le> previousAngle s) \<and>
     (\<forall>i. Suc i < n \<longrightarrow> switchTimes (wave s) ! i < switchTimes (wave s) ! Suc i)"

definition counted :: "bool \<Rightarrow> trigger_wheel_e \<Rightarrow> trigger_value_e \<Rightarrow> nat" where
  "counted b ch v = (if ch = T_PRIMARY \<and> (b \<longrightarrow> v = TV_RISE) then 1 else 0)"

lemma fresh_grown: "fresh s \<Longrightarrow> grown s 0 0 0 0 s"
  by (simp add: grown_def fresh_def near_def)

text \<open>Where the events go, when the angle is far enough from the last one.\<close>

lemma addEvent_append:
  assumes "operationMode s \<noteq> OM_NONE" "\<not> invertOnAdd s" "0 < a" "privateTriggerDefinitionSize s = n"
    "findAngleMatch fl (wave s) a n = None" "0 < n \<Longrightarrow> previousAngle s = switchTimes (wave s) ! (n - 1) \<and> previousAngle s < a"
    and s': "s' = addEvent fl a ch v s"
  shows "privateTriggerDefinitionSize s' = Suc n" "same_setup s s'" "previousAngle s' = a"
    "switchTimes (wave s') = (switchTimes (wave s))[n := a]"
    "expectedEventCount s' = (if \<not> useOnlyRisingEdgeForTriggerTemp s \<or> v = TV_RISE
       then count_event (wheel_index ch) (expectedEventCount s) else expectedEventCount s)"
proof -
  have "findInsertionAngle (switchTimes (wave s)) a n = n" if "0 < n"
    by (rule findInsertionAngle_end [OF that]) (use assms(6) [OF that] in simp)
  then have "privateTriggerDefinitionSize s' = Suc n \<and> same_setup s s' \<and> previousAngle s' = a \<and>
      switchTimes (wave s') = (switchTimes (wave s))[n := a] \<and>
      expectedEventCount s' = (if \<not> useOnlyRisingEdgeForTriggerTemp s \<or> v = TV_RISE
       then count_event (wheel_index ch) (expectedEventCount s) else expectedEventCount s)"
    using assms(1-6) unfolding s'
    by (cases "n = 0") (auto simp: addEvent_def Let_def add_first_def add_next_def same_setup_def setSwitchTime_def
        switchTimes_fold_setState)
  then show "privateTriggerDefinitionSize s' = Suc n" "same_setup s s'" "previousAngle s' = a"
    "switchTimes (wave s') = (switchTimes (wave s))[n := a]"
    "expectedEventCount s' = (if \<not> useOnlyRisingEdgeForTriggerTemp s \<or> v = TV_RISE
       then count_event (wheel_index ch) (expectedEventCount s) else expectedEventCount s)" by blast+
qed

lemma event_grown:
  assumes fl: "float_ok fl" and g: "grown s0 n e y c s" and a: "near e' a y'" "y + e + e' + 1 / 9900 \<le> y'" "y' + e' \<le> 2"
    and n: "n < PWM_PHASE_MAX_COUNT" and y: "e \<le> y" and ch: "ch \<noteq> T_NONE"
  shows "grown s0 (Suc n) e' y' (c + counted (useOnlyRisingEdgeForTriggerTemp s0) ch v) (addEvent fl a ch v s)"
    "previousAngle (addEvent fl a ch v s) = a"
proof -
  let ?ts = "switchTimes (wave s)"
  note g' = g [unfolded grown_def]
  have pa: "\<bar>previousAngle s - y\<bar> \<le> e" and a': "\<bar>a - y'\<bar> \<le> e'" using g' a(1) by (simp_all add: near_def)
  have gap: "1 / 9900 \<le> a - previousAngle s" "a \<le> 2" "0 \<le> previousAngle s" using pa a' a(2,3) y by linarith+
  have fr: "operationMode s \<noteq> OM_NONE" "\<not> invertOnAdd s" "useOnlyRisingEdgeForTriggerTemp s = useOnlyRisingEdgeForTriggerTemp s0"
    using g' by (simp_all add: fresh_def same_setup_def)
  have "\<not> isSameF fl (?ts ! i) a" if "i < n" for i
  proof (rule apart_not_same2 [OF fl])
    have "0 < ?ts ! i" "?ts ! i \<le> previousAngle s" using g' that by blast+
    then show "1 / 9900 \<le> a - ?ts ! i" "a - ?ts ! i \<le> 2" using gap by linarith+
  qed
  then have "findAngleMatch fl (wave s) a n = None"
    unfolding findAngleMatch_def by (intro findAngleMatch_None) simp
  moreover have prev: "0 < a" "previousAngle s < a" using gap by linarith+
  ultimately have r: "privateTriggerDefinitionSize (addEvent fl a ch v s) = Suc n" "same_setup s (addEvent fl a ch v s)"
      "previousAngle (addEvent fl a ch v s) = a" "switchTimes (wave (addEvent fl a ch v s)) = ?ts[n := a]"
      "expectedEventCount (addEvent fl a ch v s) = (if \<not> useOnlyRisingEdgeForTriggerTemp s \<or> v = TV_RISE
         then count_event (wheel_index ch) (expectedEventCount s) else expectedEventCount s)"
    using addEvent_append [OF fr(1,2) _ _ _ _ refl, of a n fl ch v] g' by blast+
  show "previousAngle (addEvent fl a ch v s) = a" by (rule r(3))
  have len: "length ?ts = PWM_PHASE_MAX_COUNT" using g' by blast
  have cnt: "expectedEventCount (addEvent fl a ch v s) ! 0 = word_of_nat (c + counted (useOnlyRisingEdgeForTriggerTemp s0) ch v)"
    "length (expectedEventCount (addEvent fl a ch v s)) = 3"
    using g' ch fr(3) unfolding r(5)
    by (cases ch; simp add: counted_def count_event_def wheel_index_def nth_list_update)+
  have asc: "?ts[n := a] ! i < ?ts[n := a] ! Suc i" if "Suc i < Suc n" for i
  proof (cases "Suc i = n")
    case True
    then have "?ts ! i = previousAngle s" using g' by (metis diff_Suc_1 zero_less_Suc)
    then show ?thesis using True n len prev(2) by simp
  next
    case False
    then have "Suc i < n" using that by simp
    then show ?thesis using g' by simp
  qed
  have pos: "0 < ?ts[n := a] ! i \<and> ?ts[n := a] ! i \<le> a" if "i < Suc n" for i
  proof (cases "i = n")
    case True
    then show ?thesis using n len prev(1) by simp
  next
    case False
    then have "i < n" using that by simp
    then have "0 < ?ts ! i" "?ts ! i \<le> previousAngle s" using g' by blast+
    then show ?thesis using \<open>i < n\<close> prev(2) by simp
  qed
  have "same_setup s0 (addEvent fl a ch v s)" using same_setup_trans [OF _ r(2)] g' by blast
  then show "grown s0 (Suc n) e' y' (c + counted (useOnlyRisingEdgeForTriggerTemp s0) ch v) (addEvent fl a ch v s)"
    unfolding grown_def r(1,3,4) using g' a(1) cnt asc pos n len by simp
qed

subsection \<open>A run of events\<close>

text \<open>The events of a wheel, each at a part of the cycle that is rounded once more when it is added.\<close>

definition adds :: "rounding \<Rightarrow> (rat \<times> trigger_wheel_e \<times> trigger_value_e) list \<Rightarrow> trigger_waveform \<Rightarrow> trigger_waveform" where
  "adds fl = fold (\<lambda>(q, ch, v). addEvent fl (fl q) ch v)"

lemma adds_Nil [simp]: "adds fl [] s = s"
  by (simp add: adds_def)

lemma adds_Cons: "adds fl (e # es) s = adds fl es (addEvent fl (fl (fst e)) (fst (snd e)) (snd (snd e)) s)"
  by (simp add: adds_def split_def)

lemma adds_append: "adds fl ys (adds fl xs s) = adds fl (xs @ ys) s"
  by (simp add: adds_def)

lemma addEvent_setup [simp]:
  "isSynchronizationNeeded (addEvent fl a ch v s) = isSynchronizationNeeded s" "shapeWithoutTdc (addEvent fl a ch v s) = shapeWithoutTdc s"
  "operationMode (addEvent fl a ch v s) = operationMode s" "gapBothDirections (addEvent fl a ch v s) = gapBothDirections s"
  "useOnlyRisingEdgeForTriggerTemp (addEvent fl a ch v s) = useOnlyRisingEdgeForTriggerTemp s"
  by (simp_all add: addEvent_def Let_def add_first_def add_next_def shape_report_def setShapeDefinitionError_def)

lemma adds_setup [simp]:
  "isSynchronizationNeeded (adds fl es s) = isSynchronizationNeeded s" "shapeWithoutTdc (adds fl es s) = shapeWithoutTdc s"
  "operationMode (adds fl es s) = operationMode s" "gapBothDirections (adds fl es s) = gapBothDirections s"
  "useOnlyRisingEdgeForTriggerTemp (adds fl es s) = useOnlyRisingEdgeForTriggerTemp s"
  by (induction es arbitrary: s) (simp_all add: adds_Cons)

text \<open>The ways of the code to add an event.\<close>

lemma add_forms:
  "addEvent720 fl a ch v s = adds fl [(a / 720, ch, v)] s"
  "addEventAngle fl a ch v s = adds fl [(a / of_nat (getCycleDuration s), ch, v)] s"
  "addEventClamped fl a ch v l r s =
     adds fl (if l < a \<and> a < r then [(a / of_nat (getEngineCycle (operationMode s)), ch, v)] else []) s"
  "add720s fl es s = adds fl (map (\<lambda>(a, ch, v). (a / 720, ch, v)) es) s"
proof -
  show "add720s fl es s = adds fl (map (\<lambda>(a, ch, v). (a / 720, ch, v)) es) s"
    by (induction es arbitrary: s) (auto simp: add720s_def addEvent720_def adds_Cons)
qed (simp_all add: addEvent720_def addEventAngle_def addEventClamped_def adds_Cons)

lemma getCycleDuration_adds [simp]: "getCycleDuration (adds fl es s) = getCycleDuration s"
  by (simp add: getCycleDuration_def)

fun skip_events ::
    "rounding \<Rightarrow> trigger_wheel_e \<Rightarrow> int \<Rightarrow> rat \<Rightarrow> rat \<Rightarrow> rat \<Rightarrow> rat \<Rightarrow> rat \<Rightarrow> rat \<Rightarrow> nat \<Rightarrow> nat \<Rightarrow> (rat \<times> trigger_wheel_e \<times> trigger_value_e) list" where
  "skip_events fl ch teeth w off cyc l r D i 0 = []"
| "skip_events fl ch teeth w off cyc l r D i (Suc k) =
     (let down = fl (off + fl (fl (cyc / of_int teeth) * fl (of_nat i + fl (1 - w))));
          up = fl (off + fl (fl (cyc / of_int teeth) * of_nat (i + 1)))
      in (if l < down \<and> down < r then [(down / D, ch, TV_RISE)] else []) @
         (if l < up \<and> up < r then [(up / D, ch, TV_FALL)] else []) @ skip_events fl ch teeth w off cyc l r D (i + 1) k)"

lemma skip_events_numeral:
  "skip_events fl ch teeth w off cyc l r D i (numeral k) =
     (let down = fl (off + fl (fl (cyc / of_int teeth) * fl (of_nat i + fl (1 - w))));
          up = fl (off + fl (fl (cyc / of_int teeth) * of_nat (i + 1)))
      in (if l < down \<and> down < r then [(down / D, ch, TV_RISE)] else []) @
         (if l < up \<and> up < r then [(up / D, ch, TV_FALL)] else []) @
         skip_events fl ch teeth w off cyc l r D (i + 1) (pred_numeral k))"
  by (simp only: numeral_eq_Suc skip_events.simps)

lemma skipped_adds:
  "skipped_teeth_loop fl ch teeth w off cyc l r i k s =
     adds fl (skip_events fl ch teeth w off cyc l r (of_nat (getEngineCycle (operationMode s))) i k) s"
  by (induction k arbitrary: i s) (simp_all add: Let_def add_forms adds_append)

text \<open>
  Positions in half degrees, which are whole numbers for most wheels, and the teeth of half their pitch, with \<open>P\<close>
  degrees to a pitch: event \<open>j\<close> of the wheel is at \<open>P * j\<close> half degrees. \<open>l\<close> and \<open>r\<close> are the filter.
\<close>

type_synonym half_event = "int \<times> trigger_wheel_e \<times> trigger_value_e"

definition half_degrees :: "rat \<Rightarrow> half_event \<Rightarrow> rat \<times> trigger_wheel_e \<times> trigger_value_e" where
  "half_degrees D = (\<lambda>(m, ch, v). (of_int m / (2 * D), ch, v))"

definition half_events :: "trigger_wheel_e \<Rightarrow> int \<Rightarrow> int \<Rightarrow> int \<Rightarrow> int \<Rightarrow> int list \<Rightarrow> half_event list" where
  "half_events ch P off l r js =
     map (\<lambda>j. (2 * off + P * j, ch, if odd j then TV_RISE else TV_FALL))
       (filter (\<lambda>j. l < 2 * off + P * j \<and> 2 * off + P * j < r) js)"

lemma exact_half:
  assumes "float_exact fl" "\<bar>m\<bar> \<le> 16777216"
  shows "fl (of_int m / 2) = of_int m / 2" "fl (of_int m) = of_int m"
  using assms(1) [unfolded float_exact_def, THEN conjunct2, THEN conjunct2, rule_format, of m]
    float_ok_int [OF float_exact_ok [OF assms(1)], of m] assms(2) by simp_all

lemma skip_exact:
  assumes fl: "float_exact fl" and P: "fl (cyc / of_int teeth) = of_int P" "0 \<le> P" and off: "off' = of_int off" "0 \<le> off"
    and lr: "2 * l' = of_int l" "2 * r' = of_int r"
  shows "2 * off + P * (2 * (int i + int k) + 2) \<le> 16777216 \<Longrightarrow> 2 * (int i + int k) + 2 \<le> 16777216 \<Longrightarrow>
    skip_events fl ch teeth (1 / 2) off' cyc l' r' D i k =
      map (half_degrees D) (half_events ch P off l r [2 * int i + 1..2 * (int i + int k)])"
proof (induction k arbitrary: i)
  case (Suc k)
  have h: "fl (1 - 1 / 2) = 1 / 2" using exact_half(1) [OF fl, of 1] by simp
  have i: "fl (of_nat i + 1 / 2) = of_int (2 * int i + 1) / 2"
    using exact_half(1) [OF fl, of "2 * int i + 1"] Suc.prems(2) by (simp add: add_divide_distrib add.commute)
  have "P * (2 * int i + 1) \<le> P * (2 * (int i + int (Suc k)) + 2)" "P * (2 * int i + 2) \<le> P * (2 * (int i + int (Suc k)) + 2)"
    using P(2) by (intro mult_left_mono; simp)+
  then have b: "2 * off + P * (2 * int i + 1) \<le> 16777216" "2 * off + P * (2 * int i + 2) \<le> 16777216" using Suc.prems(1) by simp_all
  have e: "of_int P * (of_int (2 * int i + 1) / 2) = (of_int (P * (2 * int i + 1)) / 2 :: rat)"
    "of_int P * of_nat (i + 1) = (of_int (P * (2 * int i + 2)) / 2 :: rat)"
    "of_int off + (of_int (P * (2 * int i + 1)) / 2 :: rat) = of_int (2 * off + P * (2 * int i + 1)) / 2"
    "of_int off + (of_int (P * (2 * int i + 2)) / 2 :: rat) = of_int (2 * off + P * (2 * int i + 2)) / 2"
    by (simp_all add: field_simps)
  have "0 \<le> P * (2 * int i + 1)" "0 \<le> P * (2 * int i + 2)" using P(2) by simp_all
  then have m: "\<bar>P * (2 * int i + 1)\<bar> \<le> 16777216" "\<bar>P * (2 * int i + 2)\<bar> \<le> 16777216"
    and b': "\<bar>2 * off + P * (2 * int i + 1)\<bar> \<le> 16777216" "\<bar>2 * off + P * (2 * int i + 2)\<bar> \<le> 16777216" using b off(2) by linarith+
  have d: "fl (off' + fl (fl (cyc / of_int teeth) * fl (of_nat i + fl (1 - 1 / 2)))) = of_int (2 * off + P * (2 * int i + 1)) / 2"
    unfolding h i P(1) e(1) exact_half(1) [OF fl m(1)] off(1) e(3) exact_half(1) [OF fl b'(1)] ..
  have u: "fl (off' + fl (fl (cyc / of_int teeth) * of_nat (i + 1))) = of_int (2 * off + P * (2 * int i + 2)) / 2"
    unfolding P(1) e(2) exact_half(1) [OF fl m(2)] off(1) e(4) exact_half(1) [OF fl b'(2)] ..
  have up: "[2 * int i + 1..2 * (int i + int (Suc k))] =
      (2 * int i + 1) # (2 * int i + 2) # [2 * int (i + 1) + 1..2 * (int (i + 1) + int k)]"
    by (simp add: upto_rec1 algebra_simps)
  have IH: "skip_events fl ch teeth (1 / 2) off' cyc l' r' D (i + 1) k =
      map (half_degrees D) (half_events ch P off l r [2 * int (i + 1) + 1..2 * (int (i + 1) + int k)])"
    by (rule Suc.IH) (use Suc.prems in simp_all)
  have half: "(l' < of_int m / 2 \<and> of_int m / 2 < r') = (l < m \<and> m < r)" for m
    using lr of_int_less_iff [of l m, where ?'a = rat] of_int_less_iff [of m r, where ?'a = rat] by auto
  have odd: "odd (2 * int i + 1)" "even (2 * int i + 2)" and q: "m / 2 / D = m / (2 * D)" for m :: rat by simp_all
  show ?case
    unfolding skip_events.simps Let_def d u IH up half q half_events_def filter.simps list.map if_distrib [of "map _"]
    using odd by (cases "l < 2 * off + P * (2 * int i + 1) \<and> 2 * off + P * (2 * int i + 1) < r";
        cases "l < 2 * off + P * (2 * int i + 2) \<and> 2 * off + P * (2 * int i + 2) < r")
      (simp_all only: if_P if_not_P append_Nil append_Cons list.map simp_thms half_degrees_def split_conv)
qed (simp add: half_events_def)

lemma add_clamped:
  "l < a \<Longrightarrow> a < r \<Longrightarrow>
   addEventClamped fl a ch v l r s = adds fl [(a / of_nat (getEngineCycle (operationMode s)), ch, v)] s"
  "\<not> l < a \<Longrightarrow> addEventClamped fl a ch v l r s = s" "\<not> a < r \<Longrightarrow> addEventClamped fl a ch v l r s = s"
  by (simp_all add: add_forms)

lemmas event_list = add_forms(1,2,4) add_clamped skipped_adds adds_append

subsection \<open>Wheels that are accepted\<close>

definition accepted :: "nat \<Rightarrow> nat \<Rightarrow> string list \<Rightarrow> trigger_waveform \<Rightarrow> bool" where
  "accepted n c L s \<longleftrightarrow>
     0 < n \<and> privateTriggerDefinitionSize s = n \<and> \<not> shapeDefinitionError s \<and> shape_log s = L \<and>
     expectedEventCount s ! 0 = word_of_nat c \<and> switchTimes (wave s) ! (n - 1) = 1 \<and>
     (\<forall>i. Suc i < n \<longrightarrow> switchTimes (wave s) ! i < switchTimes (wave s) ! Suc i)"

fun spaced :: "rat \<Rightarrow> rat \<Rightarrow> rat list \<Rightarrow> bool" where
  "spaced e y [] = True"
| "spaced e y (q # qs) = (y + 2 * e + 1 / 9900 \<le> q \<and> 1 / 1000 \<le> q \<and> q \<le> 1 \<and> spaced e q qs)"

definition counts :: "bool \<Rightarrow> (rat \<times> trigger_wheel_e \<times> trigger_value_e) list \<Rightarrow> nat" where
  "counts b es = sum_list (map (\<lambda>(q, ch, v). counted b ch v) es)"

lemma counts_simps [simp]: "counts b [] = 0" "counts b ((q, ch, v) # es) = counted b ch v + counts b es"
  "counts b (es @ es') = counts b es + counts b es'"
  by (simp_all add: counts_def)

definition near_events :: "rat \<Rightarrow> (rat \<times> trigger_wheel_e \<times> trigger_value_e) list \<Rightarrow> rat list \<Rightarrow> bool" where
  "near_events d = list_all2 (\<lambda>(x, ch, v) q. near d x q \<and> ch \<noteq> T_NONE)"

lemma adds_grown:
  assumes fl: "float_ok fl" and d: "0 \<le> d" "d + 1 / 2 ^ 23 \<le> e" "e \<le> 1 / 2000"
  shows "grown s0 n e1 y c s \<Longrightarrow> e1 \<le> e \<Longrightarrow> e1 \<le> y \<Longrightarrow> near_events d es qs \<Longrightarrow> spaced e y qs \<Longrightarrow> n + length es \<le> PWM_PHASE_MAX_COUNT \<Longrightarrow>
    \<exists>e2. e2 \<le> e \<and> e2 \<le> last (y # qs) \<and>
      grown s0 (n + length es) e2 (last (y # qs)) (c + counts (useOnlyRisingEdgeForTriggerTemp s0) es) (adds fl es s) \<and>
      (es \<noteq> [] \<longrightarrow> previousAngle (adds fl es s) = fl (fst (last es)))"
proof (induction es arbitrary: qs n e1 y c s)
  case (Cons x es)
  obtain q ch v where x: "x = (q, ch, v)" by (cases x)
  obtain q' qs' where qs: "qs = q' # qs'" "near d q q'" "ch \<noteq> T_NONE" "near_events d es qs'"
    using Cons.prems(4) by (cases qs) (auto simp: near_events_def x)
  have sp: "y + 2 * e + 1 / 9900 \<le> q'" "1 / 1000 \<le> q'" "q' \<le> 1" "spaced e q' qs'" using Cons.prems(5) qs(1) by simp_all
  have e: "0 < e" "d \<le> 1 / 2000" using d by (simp_all add: less_le_trans)
  have "near e (fl q) q'"
    by (rule near_weak [OF near_time [OF fl qs(2) e(2) sp(2,3)] d(2) refl])
  note st = event_grown [OF fl Cons.prems(1) this _ _ _ Cons.prems(3) qs(3), of v]
  have g: "grown s0 (Suc n) e q' (c + counted (useOnlyRisingEdgeForTriggerTemp s0) ch v) (addEvent fl (fl q) ch v s)"
    "previousAngle (addEvent fl (fl q) ch v s) = fl q"
    using st Cons.prems(2,6) sp(1,3) d(3) by simp_all
  have "e \<le> q'" using sp(2) d(3) by linarith
  from Cons.IH [OF g(1) order_refl this qs(4) sp(4)] Cons.prems(6)
  obtain e2 where "e2 \<le> e" "e2 \<le> last (q' # qs')"
    "grown s0 (Suc n + length es) e2 (last (q' # qs')) (c + counted (useOnlyRisingEdgeForTriggerTemp s0) ch v +
       counts (useOnlyRisingEdgeForTriggerTemp s0) es) (adds fl es (addEvent fl (fl q) ch v s))"
    "es \<noteq> [] \<longrightarrow> previousAngle (adds fl es (addEvent fl (fl q) ch v s)) = fl (fst (last es))" by auto
  then show ?case using g(2) by (intro exI [of _ e2]) (auto simp: x qs(1) add.assoc adds_Cons)
qed (auto simp: near_events_def)

lemma grown_accepted: "grown s0 n e y c s \<Longrightarrow> 0 < n \<Longrightarrow> previousAngle s = 1 \<Longrightarrow> L = shape_log s0 \<Longrightarrow> accepted n c L s"
  by (auto simp: grown_def accepted_def same_setup_def fresh_def)

lemma accepted_adds:
  assumes fl: "float_exact fl" and d: "0 \<le> d" "d + 1 / 2 ^ 23 \<le> e" "e \<le> 1 / 2000"
    and "fresh s0" "near_events d es qs" "spaced e 0 qs" "es \<noteq> []" "length es \<le> 280" "fst (last es) = 1" "n = length es"
    "c = counts (useOnlyRisingEdgeForTriggerTemp s0) es" "L = shape_log s0"
  shows "accepted n c L (adds fl es s0)"
proof -
  have "0 \<le> e" using d(1,2) by (simp add: order_trans [OF _ d(2)])
  from adds_grown [OF float_exact_ok [OF fl] d fresh_grown [OF assms(5)] this order_refl assms(6,7)] assms(8-10)
  obtain e2 y where "grown s0 (length es) e2 y (counts (useOnlyRisingEdgeForTriggerTemp s0) es) (adds fl es s0)"
    "previousAngle (adds fl es s0) = fl 1" by (auto simp: PWM_PHASE_MAX_COUNT_def)
  then show ?thesis using grown_accepted assms(8,11-13) exact_small(2) [OF fl] by simp
qed

text \<open>The wheels whose angles are computed without an error.\<close>

fun exact_run :: "rat \<Rightarrow> (rat \<times> trigger_wheel_e \<times> trigger_value_e) list \<Rightarrow> bool" where
  "exact_run y [] = (y = 1)"
| "exact_run y ((q, ch, v) # es) = (y + 1 / 9000 \<le> q \<and> 1 / 1000 \<le> q \<and> q \<le> 1 \<and> ch \<noteq> T_NONE \<and> exact_run q es)"

lemma exact_run_spaced:
  "exact_run y es \<Longrightarrow> near_events 0 es (map fst es) \<and> spaced (1 / 2 ^ 23) y (map fst es) \<and> (es \<noteq> [] \<longrightarrow> fst (last es) = 1)"
proof (induction y es rule: exact_run.induct)
  case (2 y q ch v es)
  then have IH: "near_events 0 es (map fst es)" "spaced (1 / 2 ^ 23) q (map fst es)" "es \<noteq> [] \<longrightarrow> fst (last es) = 1"
    and h: "y + 1 / 9000 \<le> q" "1 / 1000 \<le> q" "q \<le> 1" "ch \<noteq> T_NONE" by auto
  have "y + 2 * (1 / 2 ^ 23) + 1 / 9900 \<le> q" using h(1) by (simp add: order_trans [OF _ h(1)])
  moreover have "es = [] \<Longrightarrow> q = 1" using 2(2) by simp
  ultimately show ?case using IH h by (simp add: near_events_def near_def)
qed (simp add: near_events_def)

lemma accepted_exact:
  assumes "float_exact fl" "fresh s0" "es \<noteq> []" "length es \<le> 280" "exact_run 0 es" "n = length es"
    "c = counts (useOnlyRisingEdgeForTriggerTemp s0) es" "L = shape_log s0"
  shows "accepted n c L (adds fl es s0)"
  by (rule accepted_adds [OF assms(1) _ _ _ assms(2), where d = 0 and e = "1 / 2 ^ 23" and qs = "map fst es"])
    (use assms(3-8) exact_run_spaced [OF assms(5)] in simp_all)

text \<open>The same in half degrees, where the conditions on the events are computed with whole numbers.\<close>

fun half_run :: "int \<Rightarrow> int \<Rightarrow> half_event list \<Rightarrow> bool" where
  "half_run E y [] = (y = E)"
| "half_run E y ((m, ch, v) # es) = (y < m \<and> 2 \<le> m \<and> m \<le> E \<and> ch \<noteq> T_NONE \<and> half_run E m es)"

fun half_counts :: "bool \<Rightarrow> half_event list \<Rightarrow> int" where
  "half_counts b [] = 0"
| "half_counts b ((m, ch, v) # es) = (if ch = T_PRIMARY \<and> (b \<longrightarrow> v = TV_RISE) then 1 else 0) + half_counts b es"

fun half_length :: "half_event list \<Rightarrow> int" where
  "half_length [] = 0"
| "half_length (e # es) = 1 + half_length es"

lemma half_lists: "half_length es = int (length es)" "half_counts b es = int (counts b (map (half_degrees D) es))"
  by (induction es) (auto simp: half_degrees_def counted_def)

lemma half_exact:
  assumes "of_int E = 2 * D" "0 < D" "D \<le> 720"
  shows "half_run E y es \<Longrightarrow> exact_run (of_int y / (2 * D)) (map (half_degrees D) es)"
proof (induction es arbitrary: y)
  case (Cons e es)
  obtain m ch v where e: "e = (m, ch, v)" by (cases e)
  have h: "y + 1 \<le> m" "2 \<le> m" "m \<le> E" "ch \<noteq> T_NONE" "half_run E m es" using Cons.prems by (simp_all add: e)
  have "of_int (y + 1) / (2 * D) \<le> of_int m / (2 * D)" "of_int 2 / (2 * D) \<le> of_int m / (2 * D)" "of_int m / (2 * D) \<le> of_int E / (2 * D)"
    using h(1-3) assms(2) by (intro divide_right_mono; simp only: of_int_le_iff; simp)+
  moreover have "1 / 9000 \<le> 1 / (2 * D)" using assms(2,3) by (simp add: field_simps)
  moreover have "1 / 1000 \<le> of_int 2 / (2 * D)" "of_int E / (2 * D) = 1" using assms by (simp_all add: field_simps)
  moreover have "of_int (y + 1) / (2 * D) = of_int y / (2 * D) + 1 / (2 * D)" by (simp add: add_divide_distrib)
  ultimately have "of_int y / (2 * D) + 1 / 9000 \<le> of_int m / (2 * D)" "1 / 1000 \<le> of_int m / (2 * D)" "of_int m / (2 * D) \<le> 1"
    by linarith+
  then show ?case using Cons.IH [OF h(5)] h(4) unfolding e half_degrees_def list.map split_conv exact_run.simps by blast
qed (use assms in \<open>simp add: half_degrees_def\<close>)

lemma accepted_half:
  assumes "float_exact fl" "of_int E = 2 * D" "0 < D" "D \<le> 720" "fresh s0" "half_run E 0 es" "E \<noteq> 0" "half_length es = int n" "n \<le> 280"
    "half_counts (useOnlyRisingEdgeForTriggerTemp s0) es = int c" "L = shape_log s0"
  shows "accepted n c L (adds fl (map (half_degrees D) es) s0)"
proof (rule accepted_exact [OF assms(1,5)])
  show "exact_run 0 (map (half_degrees D) es)" using half_exact [OF assms(2-4,6)] by simp
  show "map (half_degrees D) es \<noteq> []" using assms(6,7) by auto
qed (use assms(8-11) half_lists(1) [of es] half_lists(2) [of _ es D] in simp_all)

subsection \<open>Setting up\<close>

text \<open>What the choice of the gap leaves alone.\<close>

lemma gap_setup [simp]:
  "isSynchronizationNeeded (setTriggerSynchronizationGap3 fl i from to s)"
  "shapeWithoutTdc (setTriggerSynchronizationGap3 fl i from to s) = shapeWithoutTdc s"
  "operationMode (setTriggerSynchronizationGap3 fl i from to s) = operationMode s"
  "gapBothDirections (setTriggerSynchronizationGap3 fl i from to s) = gapBothDirections s"
  "useOnlyRisingEdgeForTriggerTemp (setTriggerSynchronizationGap3 fl i from to s) = useOnlyRisingEdgeForTriggerTemp s"
  "shape_log (setTriggerSynchronizationGap3 fl i from to s) = shape_log s"
  "fresh (setTriggerSynchronizationGap3 fl i from to s) = fresh s"
  "accepted n c L (setTriggerSynchronizationGap3 fl i from to s) = accepted n c L s"
  by (simp_all add: setTriggerSynchronizationGap3_def Let_def fresh_def accepted_def split: option.split)

lemmas gap_defs [simp] = setTriggerSynchronizationGap_def setTriggerSynchronizationGap2_def setSecondTriggerSynchronizationGap_def
  setSecondTriggerSynchronizationGap2_def setThirdTriggerSynchronizationGap_def

lemma initialize_fields [simp]:
  "isSynchronizationNeeded (initialize fl om s)" "shapeWithoutTdc (initialize fl om s) = False" "operationMode (initialize fl om s) = om"
  "gapBothDirections (initialize fl om s) = False" "shape_log (initialize fl om s) = shape_log s"
  "useOnlyRisingEdgeForTriggerTemp (initialize fl om s) = useOnlyRisingEdgeForTriggerTemp s"
  "fresh (initialize fl om s) = (om \<noteq> OM_NONE)"
  by (simp_all add: initialize_def Let_def fresh_def GAP_TRACKING_LENGTH_def PWM_PHASE_MAX_WAVE_PER_PWM_def upt_rec numeral_3_eq_3 wave_reset_def)

lemma update_setup [simp]:
  "fresh (s\<lparr>isSynchronizationNeeded := b\<rparr>) = fresh s" "fresh (s\<lparr>shapeWithoutTdc := b\<rparr>) = fresh s"
  "fresh (s\<lparr>useRiseEdge := b\<rparr>) = fresh s" "fresh (s\<lparr>gapBothDirections := b\<rparr>) = fresh s"
  "fresh (s\<lparr>bothFrontsRequired := b\<rparr>) = fresh s" "fresh (s\<lparr>useOnlyPrimaryForSync := b\<rparr>) = fresh s"
  "fresh (s\<lparr>tdcPosition := p\<rparr>) = fresh s" "fresh (s\<lparr>initialState := i\<rparr>) = fresh s"
  "accepted n c L (s\<lparr>isSynchronizationNeeded := b\<rparr>) = accepted n c L s" "accepted n c L (s\<lparr>shapeWithoutTdc := b\<rparr>) = accepted n c L s"
  "accepted n c L (s\<lparr>useOnlyPrimaryForSync := b\<rparr>) = accepted n c L s" "accepted n c L (s\<lparr>tdcPosition := p\<rparr>) = accepted n c L s"
  by (simp_all add: fresh_def accepted_def)

text \<open>What \<open>initializeTriggerWaveform\<close> makes of an accepted wheel.\<close>

definition wheel_ok :: "rounding \<Rightarrow> operation_mode_e \<Rightarrow> bool \<Rightarrow> trigger_type_e \<Rightarrow> nat \<Rightarrow> trigger_waveform \<Rightarrow> bool" where
  "wheel_ok fl om b tt n s \<longleftrightarrow>
     (let sh = initializeTriggerWaveform fl om b tt s in
        getSize sh = n \<and> \<not> shapeDefinitionError sh \<and> shape_log sh = shape_log s \<and>
        (\<forall>i < n - 1. switchTimes (wave sh) ! i < switchTimes (wave sh) ! (i + 1)) \<and> switchTimes (wave sh) ! (n - 1) = 1)"

definition sync_fits :: "nat \<Rightarrow> bool \<Rightarrow> trigger_waveform \<Rightarrow> bool" where
  "sync_fits c b s \<longleftrightarrow> c \<le> 280 \<and> (shapeWithoutTdc s \<or> isSynchronizationNeeded s = (c \<noteq> (if b then 1 else 2)))"

lemma wheel_okI:
  assumes "\<And>s. useOnlyRisingEdgeForTriggerTemp s = b \<Longrightarrow>
    accepted n c (shape_log s) (configure_wheel fl tt om s) \<and> sync_fits c b (configure_wheel fl tt om s)"
  shows "wheel_ok fl om b tt n s"
proof -
  define s1 where "s1 = configure_wheel fl tt om (s\<lparr>shapeDefinitionError := False, useOnlyRisingEdgeForTriggerTemp := b\<rparr>)"
  have a: "accepted n c (shape_log s) s1" "sync_fits c b s1"
    using assms [of "s\<lparr>shapeDefinitionError := False, useOnlyRisingEdgeForTriggerTemp := b\<rparr>"] by (simp_all add: s1_def)
  note acc = a(1) [unfolded accepted_def]
  have "c < 2 ^ 32" using a(2) by (simp add: sync_fits_def)
  then have "unat (word_of_nat c :: u32) = c" by (simp add: unat_of_nat)
  then have "(word_of_nat c :: u32) = 1 \<Longrightarrow> c = 1" "(word_of_nat c :: u32) = 2 \<Longrightarrow> c = 2" by auto
  then have w: "(word_of_nat c :: u32) = 1 \<longleftrightarrow> c = 1" "(word_of_nat c :: u32) = 2 \<longleftrightarrow> c = 2" by auto
  have e: "expectedEventCount s1 ! 0 = word_of_nat c" using acc by blast
  have cal: "calculateExpectedEventCounts b s1 = s1"
    using a(2) unfolding calculateExpectedEventCounts_def Let_def e w by (auto simp: sync_fits_def split: if_splits)
  have "checkSwitchTimes_loop (switchTimes (wave s1)) 0 (n - 1) = []"
    by (rule checkSwitchTimes_ascending) (use acc in simp)
  then have "checkSwitchTimes (wave s1) n = []" using acc by (simp add: checkSwitchTimes_def)
  then show ?thesis
    using acc cal unfolding wheel_ok_def initializeTriggerWaveform_def Let_def
    by (fold s1_def) (simp add: getSize_def)
qed

end
