(* ===== verification/Wheel_Acceptance.thy ===== *)
theory Wheel_Acceptance
  imports Wheel_Steps
begin

text \<open>
  The wheels of \<open>initializeTriggerWaveform\<close>, one lemma each: whatever the rounding does beyond what IEEE 754
  promises, the definition is accepted.
\<close>

lemmas wheel_setup = configure_wheel_def Let_def event_list half_events_def sync_fits_def upt_rec getCycleDuration_def
  cycle_duration_def getEngineCycle_def FOUR_STROKE_ENGINE_CYCLE_def NO_LEFT_FILTER_def NO_RIGHT_FILTER_def counted_def

subsection \<open>Wheels whose angles are exact\<close>

lemma wheel_z5:
  assumes fl: "float_exact fl"
  shows "wheel_ok fl om b TT_MAZDA_Z5 8 s"
  by (cases b; rule wheel_okI [where c = "if b then 4 else 8"];
    simp add: wheel_setup initialize_Mazda_Engine_z5_Shape_def exact [OF fl] accepted_exact [OF fl])

lemma wheel_rover:
  assumes fl: "float_exact fl"
  shows "wheel_ok fl om b TT_ROVER_K 64 s"
  by (cases b; rule wheel_okI [where c = "if b then 32 else 64"];
    simp add: wheel_setup initializeRoverK_def middle_teeth_def exact [OF fl] accepted_exact [OF fl])

lemma wheel_miata_vvt:
  assumes fl: "float_exact fl"
  shows "wheel_ok fl om b TT_MIATA_VVT 4 s"
  by (cases b; rule wheel_okI [where c = "if b then 2 else 4"];
    simp add: wheel_setup initializeMazdaMiataNb2Crank_def exact [OF fl] accepted_exact [OF fl])

lemma wheel_nb1:
  assumes fl: "float_exact fl"
  shows "wheel_ok fl om b TT_MAZDA_MIATA_NB1 22 s"
  by (cases b; rule wheel_okI [where c = "if b then 3 else 6"];
    simp add: wheel_setup initializeMazdaMiataNb1Shape_def initializeMazdaMiataNb1ShapeWithOffset_def exact [OF fl] accepted_exact [OF fl])

lemma wheel_vvt_test:
  assumes fl: "float_exact fl"
  shows "wheel_ok fl om b TT_MAZDA_MIATA_VVT_TEST 22 s"
  by (cases b; rule wheel_okI [where c = "if b then 3 else 6"];
    simp add: wheel_setup initializeMazdaMiataVVtTestShape_def initializeMazdaMiataNb1ShapeWithOffset_def exact [OF fl] accepted_exact [OF fl])

lemma wheel_vvt_cam:
  assumes fl: "float_exact fl"
  shows "wheel_ok fl om b TT_MIATA_NB2_VVT_CAM 6 s"
  by (cases b; rule wheel_okI [where c = "if b then 3 else 6"];
    simp add: wheel_setup initializeMazdaMiataVVtCamShape_def exact [OF fl] accepted_exact [OF fl])

lemma wheel_gm7x:
  assumes fl: "float_exact fl"
  shows "wheel_ok fl om b TT_GM_7X 14 s"
  by (cases b; rule wheel_okI [where c = "if b then 7 else 14"];
    simp add: wheel_setup configureGmTriggerWaveform_def CRANK_MODE_MULTIPLIER_def exact [OF fl] accepted_exact [OF fl])

lemma wheel_neon2003_cam:
  assumes fl: "float_exact fl"
  shows "wheel_ok fl om b TT_DODGE_NEON_2003_CAM 14 s"
  by (cases b; rule wheel_okI [where c = "if b then 7 else 14"];
    simp add: wheel_setup configureNeon2003TriggerWaveformCam_def exact [OF fl] accepted_exact [OF fl])

lemma wheel_neon2003_crank:
  assumes fl: "float_exact fl"
  shows "wheel_ok fl om b TT_DODGE_NEON_2003_CRANK 14 s"
  by (cases b; rule wheel_okI [where c = "if b then 7 else 14"];
    simp add: wheel_setup configureNeon2003TriggerWaveformCam_def exact [OF fl] accepted_exact [OF fl])

lemma wheel_stratus:
  assumes fl: "float_exact fl"
  shows "wheel_ok fl om b TT_DODGE_STRATUS 24 s"
  by (cases b; rule wheel_okI [where c = "if b then 12 else 24"];
    simp add: wheel_setup configureDodgeStratusTriggerWaveform_def exact [OF fl] accepted_exact [OF fl])

lemma wheel_neon1995:
  assumes fl: "float_exact fl"
  shows "wheel_ok fl om b TT_DODGE_NEON_1995 36 s"
  by (cases b; rule wheel_okI [where c = "if b then 2 else 4"];
    simp add: wheel_setup configureNeon1995TriggerWaveform_def configureNeon1995TriggerWaveformCommon_def exact [OF fl] accepted_exact [OF fl])

lemma wheel_neon1995_crank:
  assumes fl: "float_exact fl"
  shows "wheel_ok fl om b TT_DODGE_NEON_1995_ONLY_CRANK 16 s"
  by (cases b; rule wheel_okI [where c = "if b then 8 else 16"];
    simp add: wheel_setup configureNeon1995TriggerWaveformOnlyCrank_def configureNeon1995TriggerWaveformCommon_def exact [OF fl] accepted_exact [OF fl])

lemma wheel_jeep18:
  assumes fl: "float_exact fl"
  shows "wheel_ok fl om b TT_JEEP_18_2_2_2 50 s"
  by (cases b; rule wheel_okI [where c = "if b then 1 else 2"];
    simp add: wheel_setup initJeep18_2_2_2_def exact [OF fl] accepted_exact [OF fl])

lemma wheel_jeep4:
  assumes fl: "float_exact fl"
  shows "wheel_ok fl om b TT_JEEP_4_CYL 34 s"
  by (cases b; rule wheel_okI [where c = "if b then 1 else 2"];
    simp add: wheel_setup initJeep_XJ_4cyl_2500_def add4cylblock_def c_int_def exact [OF fl] accepted_exact [OF fl])

lemma wheel_cddip:
  assumes fl: "float_exact fl"
  shows "wheel_ok fl om b TT_HONDA_1_4_24 58 s"
  by (cases b; rule wheel_okI [where c = "if b then 1 else 2"];
    simp add: wheel_setup configureHondaAccordCDDip_def addAccordPairs3_def addAccordPair3_def DIP_def exact [OF fl] accepted_exact [OF fl])

lemma wheel_honda_1_24:
  assumes fl: "float_exact fl"
  shows "wheel_ok fl om b TT_HONDA_1_24 50 s"
  by (cases b; rule wheel_okI [where c = "if b then 1 else 2"];
    simp add: wheel_setup configureHonda_1_4_24_def event_if_def honda_quarter_def addAccordPairs_def addAccordPair_def S24_def exact [OF fl] accepted_exact [OF fl])

lemma wheel_w36_2_2_2:
  assumes fl: "float_exact fl"
  shows "wheel_ok fl om b TT_36_2_2_2 60 s"
  by (cases b; rule wheel_okI [where c = "if b then 30 else 60"];
    simp add: wheel_setup initialize36_2_2_2_def middle_teeth_def exact [OF fl] accepted_exact [OF fl])

lemma wheel_subaru:
  assumes fl: "float_exact fl"
  shows "wheel_ok fl om b TT_SUBARU_7_6 38 s"
  by (cases b; rule wheel_okI [where c = "if b then 7 else 14"];
    simp add: wheel_setup initializeSubaru7_6_def exact [OF fl] accepted_exact [OF fl])

lemma wheel_sr20ve:
  assumes fl: "float_exact fl"
  shows "wheel_ok fl om b TT_NISSAN_SR20VE 8 s"
  by (cases b; rule wheel_okI [where c = "if b then 4 else 8"];
    simp add: wheel_setup initializeNissanSR20VE_4_def initializeNissanSR20VE_4_optional_360_def exact [OF fl] accepted_exact [OF fl])

lemma wheel_fiat:
  assumes fl: "float_exact fl"
  shows "wheel_ok fl om b TT_FIAT_IAW_P8 4 s"
  by (cases b; rule wheel_okI [where c = "if b then 2 else 4"];
    simp add: wheel_setup configureFiatIAQ_P8_def exact [OF fl] accepted_exact [OF fl])

lemma wheel_honda_k:
  assumes fl: "float_exact fl"
  shows "wheel_ok fl om b TT_HONDA_K_12_1 26 s"
  by (cases b; rule wheel_okI [where c = "if b then 13 else 26"];
    simp add: wheel_setup configureHondaK_12_1_def exact [OF fl] accepted_exact [OF fl])

lemma wheel_one_one:
  assumes fl: "float_exact fl"
  shows "wheel_ok fl om b TT_ONE_PLUS_ONE 4 s"
  by (cases b; rule wheel_okI [where c = "if b then 1 else 2"];
    simp add: wheel_setup configureOnePlusOne_def exact [OF fl] accepted_exact [OF fl])

lemma wheel_cam_3_1:
  assumes fl: "float_exact fl"
  shows "wheel_ok fl om b TT_3_1_CAM 10 s"
  by (cases b; rule wheel_okI [where c = "if b then 1 else 2"];
    simp add: wheel_setup configure3_1_cam_def exact [OF fl] accepted_exact [OF fl])

lemma wheel_bosch:
  assumes fl: "float_exact fl"
  shows "wheel_ok fl om b TT_BOSCH_QUICK_START 8 s"
  by (cases b; rule wheel_okI [where c = "if b then 4 else 8"];
    simp add: wheel_setup configureQuickStartSenderWheel_def exact [OF fl] accepted_exact [OF fl])

subsection \<open>Wheels with many teeth\<close>

lemmas wheel_run = configure_wheel_def Let_def event_list sync_fits_def FOUR_STROKE_ENGINE_CYCLE_def
  NO_LEFT_FILTER_def NO_RIGHT_FILTER_def addSkippedToothTriggerEvents_def half_degrees_def

lemmas wheel_toothed = setToothedWheelConfiguration_def initializeSkippedToothTriggerWaveformExt_def

text \<open>The teeth out of the filter can be left out.\<close>

lemma half_events_range:
  assumes "0 \<le> P" "2 * off + P * (a' - 1) \<le> l" "r \<le> 2 * off + P * (b' + 1)" "a \<le> a'" "a' \<le> b' + 1" "b' < b"
  shows "half_events ch P off l r [a..b] = half_events ch P off l r [a'..b']"
proof -
  have "[a..b] = [a..a' - 1] @ [a'..b'] @ [b' + 1..b]"
    using upto_split1 [of a a' b] upto_split1 [of a' "b' + 1" b] assms(4-6) by simp
  moreover have "\<not> l < 2 * off + P * j" if "j \<le> a' - 1" for j using mult_left_mono [OF that assms(1)] assms(2) by linarith
  then have "half_events ch P off l r [a..a' - 1] = []" by (auto simp: half_events_def filter_empty_conv)
  moreover have "\<not> 2 * off + P * j < r" if "b' + 1 \<le> j" for j using mult_left_mono [OF that assms(1)] assms(3) by linarith
  then have "half_events ch P off l r [b' + 1..b] = []" by (auto simp: half_events_def filter_empty_conv)
  ultimately show ?thesis by (simp add: half_events_def)
qed

lemma half_wheel:
  fixes base :: "trigger_waveform \<Rightarrow> trigger_waveform"
  assumes "float_exact fl" "\<And>s. fresh (base s) \<and> useOnlyRisingEdgeForTriggerTemp (base s) = useOnlyRisingEdgeForTriggerTemp s \<and> shape_log (base s) = shape_log s"
    and "D = 360 \<or> D = 720" "half_run (2 * int D) 0 es" "half_length es = int n" "n \<le> 280" "half_counts b es = int c"
    and "\<And>s. useOnlyRisingEdgeForTriggerTemp s = b \<Longrightarrow>
      (\<forall>L. accepted n c L (configure_wheel fl tt om s) = accepted n c L (adds fl (map (half_degrees (of_nat D)) es) (base s))) \<and>
      sync_fits c b (configure_wheel fl tt om s)"
  shows "wheel_ok fl om b tt n s"
proof (rule wheel_okI)
  fix s :: trigger_waveform assume b: "useOnlyRisingEdgeForTriggerTemp s = b"
  have "accepted n c (shape_log s) (adds fl (map (half_degrees (of_nat D)) es) (base s))"
  proof (rule accepted_half [OF assms(1) _ _ _ _ assms(4) _ assms(5,6)])
    show "fresh (base s)" "shape_log s = shape_log (base s)" using assms(2) by simp_all
    show "half_counts (useOnlyRisingEdgeForTriggerTemp (base s)) es = int c" using assms(2,7) b by simp
    show "of_int (2 * int D) = 2 * (of_nat D :: rat)" "0 < (of_nat D :: rat)" "of_nat D \<le> (720 :: rat)" "2 * int D \<noteq> 0"
      using assms(3) by (elim disjE; simp)+
  qed
  then show "accepted n c (shape_log s) (configure_wheel fl tt om s) \<and> sync_fits c b (configure_wheel fl tt om s)"
    using assms(8) [OF b] by blast
qed

lemma wheel_vw:
  assumes fl: "float_exact fl"
  shows "wheel_ok fl om b TT_60_2_VW 116 s"
proof -
  let ?es = "half_events T_PRIMARY 12 0 (-2) 1380 [1..114] @ [(1404, T_PRIMARY, TV_RISE), (1440, T_PRIMARY, TV_FALL)]"
  show ?thesis
  proof (rule half_wheel [OF fl, where D = 720 and es = ?es and c = "if b then 58 else 116"
        and base = "\<lambda>s. initialize fl FOUR_STROKE_CRANK_SENSOR s\<lparr>isSynchronizationNeeded := True\<rparr>"])
    show "half_run (2 * int 720) 0 ?es" "half_length ?es = int 116" by code_simp+
    have "half_counts True ?es = 58" "half_counts False ?es = 116" by code_simp+
    then show "half_counts b ?es = int (if b then 58 else 116)" by (cases b) simp_all
  qed (simp_all add: wheel_run getEngineCycle_def exact [OF fl] setVwConfiguration_def skip_exact [OF fl, where P = 12 and off = 0 and l = "-2" and r = "1380"]
      del: upto_rec_numeral)
qed

lemma wheel_one_60_2:
  assumes fl: "float_exact fl"
  shows "wheel_ok fl om b TT_ONE_PLUS_TOOTHED_WHEEL_60_2 234 s"
proof -
  let ?es = "(4, T_PRIMARY, TV_RISE) # half_events T_SECONDARY 6 0 4 40 [1..114] @ (40, T_PRIMARY, TV_FALL) #
    half_events T_SECONDARY 6 0 40 2000 [1..114] @ [(690, T_SECONDARY, TV_RISE), (720, T_SECONDARY, TV_FALL)] @
    half_events T_SECONDARY 6 360 (-2) 2000 [1..114] @ [(1410, T_SECONDARY, TV_RISE), (1440, T_SECONDARY, TV_FALL)]"
  show ?thesis
  proof (rule half_wheel [OF fl, where D = 720 and es = ?es and c = "if b then 1 else 2"
        and base = "\<lambda>s. initialize fl FOUR_STROKE_CAM_SENSOR s"])
    show "half_run (2 * int 720) 0 ?es" "half_length ?es = int 234" by code_simp+
    have "half_counts True ?es = 1" "half_counts False ?es = 2" by code_simp+
    then show "half_counts b ?es = int (if b then 1 else 2)" by (cases b) simp_all
  qed (simp_all add: wheel_run getEngineCycle_def exact [OF fl] configureOnePlus60_2_def skip_exact [OF fl, where P = 6 and off = 0 and l = "4" and r = "40"]
      skip_exact [OF fl, where P = 6 and off = 0 and l = "40" and r = "2000"] skip_exact [OF fl, where P = 6 and off = 360 and l = "-2" and r = "2000"]
      del: upto_rec_numeral)
qed

lemma wheel_sr20ve_360:
  assumes fl: "float_exact fl"
  shows "wheel_ok fl om b TT_NISSAN_SR20VE_360 186 s"
proof -
  let ?es = "half_events T_SECONDARY 2 0 0 328 [1..163] @ (328, T_PRIMARY, TV_RISE) # half_events T_SECONDARY 2 0 328 360 [165..179] @
    [(360, T_PRIMARY, TV_FALL), (712, T_PRIMARY, TV_RISE), (720, T_PRIMARY, TV_FALL), (1072, T_PRIMARY, TV_RISE), (1080, T_PRIMARY, TV_FALL),
     (1432, T_PRIMARY, TV_RISE), (1440, T_PRIMARY, TV_FALL)]"
  show ?thesis
  proof (rule half_wheel [OF fl, where D = 720 and es = ?es and c = "if b then 4 else 8"
        and base = "\<lambda>s. setTriggerSynchronizationGap3 fl 0 (Some (fl (2901 / 400))) 16 (initialize fl FOUR_STROKE_CAM_SENSOR s\<lparr>isSynchronizationNeeded := True,
          gapBothDirections := True, useOnlyPrimaryForSync := True, tdcPosition := Some 630\<rparr>)"])
    show "half_run (2 * int 720) 0 ?es" "half_length ?es = int 186" by code_simp+
    have "half_counts True ?es = 4" "half_counts False ?es = 8" by code_simp+
    then show "half_counts b ?es = int (if b then 4 else 8)" by (cases b) simp_all
  qed (simp_all add: wheel_run getEngineCycle_def exact [OF fl] initializeNissanSR20VE_4_360_def
      initializeNissanSR20VE_4_optional_360_def skip_exact [OF fl, where P = 2 and off = 0 and l = "0" and r = "328"]
      skip_exact [OF fl, where P = 2 and off = 0 and l = "328" and r = "360"]
      half_events_range [where P = 2 and off = 0 and l = 0 and a = 1 and b = 718 and a' = 1 and b' = 163]
      half_events_range [where P = 2 and off = 0 and l = 328 and a = 1 and b = 718 and a' = 165 and b' = 179]
      del: upto_rec_numeral)
qed

lemma wheel_jz_3_34:
  assumes fl: "float_exact fl"
  shows "wheel_ok fl om b TT_2JZ_3_34 68 s"
proof -
  let ?es = "half_events T_PRIMARY 20 0 (-2) 2000 [1..66] @ [(1340, T_PRIMARY, TV_RISE), (1440, T_PRIMARY, TV_FALL)]"
  show ?thesis
  proof (rule half_wheel [OF fl, where D = 720 and es = ?es and c = "if b then 34 else 68"
        and base = "\<lambda>s. setTriggerSynchronizationGap3 fl 0 (Some (fl (3 * (3 / 4)))) (fl (3 * (5 / 4)))
          (initialize fl FOUR_STROKE_CRANK_SENSOR (s\<lparr>useRiseEdge := True\<rparr>))\<lparr>shapeWithoutTdc := False, isSynchronizationNeeded := True\<rparr>"])
    show "half_run (2 * int 720) 0 ?es" "half_length ?es = int 68" by code_simp+
    have "half_counts True ?es = 34" "half_counts False ?es = 68" by code_simp+
    then show "half_counts b ?es = int (if b then 34 else 68)" by (cases b) simp_all
  qed (simp_all add: wheel_run getEngineCycle_def exact [OF fl] initialize2jzGE3_34_def setToothedWheelConfiguration_def
      initializeSkippedToothTriggerWaveformExt_def skip_exact [OF fl, where P = 20 and off = 0 and l = "-2" and r = "2000"]
      del: upto_rec_numeral)
qed

text \<open>The wheels whose engine cycle depends on the mode that the user chose.\<close>

lemma wheel_w60_2:
  assumes fl: "float_exact fl" and om: "om \<noteq> OM_NONE"
  shows "wheel_ok fl om b TT_TOOTHED_WHEEL_60_2 116 s"
proof -
  have ok: "wheel_ok fl om b TT_TOOTHED_WHEEL_60_2 116 s"
    if "D = 720 \<and> P = 12 \<or> D = 360 \<and> P = 6" "getEngineCycle om = D" for P :: int and D :: nat
  proof -
    let ?es = "\<lambda>P D. half_events T_PRIMARY P 0 (-2) 2000 [1..114] @
      [(P * 115, T_PRIMARY, TV_RISE), (2 * int D, T_PRIMARY, TV_FALL)]"
    have "half_run (2 * int 720) 0 (?es 12 720)" "half_run (2 * int 360) 0 (?es 6 360)" by code_simp+
    moreover have "half_length (?es 12 720) = int 116" "half_length (?es 6 360) = int 116" by code_simp+
    moreover have "half_counts True (?es 12 720) = 58" "half_counts True (?es 6 360) = 58" by code_simp+
    moreover have "half_counts False (?es 12 720) = 116" "half_counts False (?es 6 360) = 116" by code_simp+
    ultimately have ground: "half_run (2 * int D) 0 (?es P D)" "half_length (?es P D) = int 116"
        "half_counts b (?es P D) = int (if b then 58 else 116)" using that(1) by (cases b; elim disjE conjE; simp only: if_True if_False of_nat_numeral)+
    show ?thesis
    proof (rule half_wheel [OF fl _ _ ground(1,2) _ ground(3), where base = "\<lambda>s. setTriggerSynchronizationGap3 fl 0 (Some (fl (3 * (3 / 4)))) (fl (3 * (5 / 4)))
          (initialize fl om (s\<lparr>useRiseEdge := True\<rparr>))\<lparr>shapeWithoutTdc := False, isSynchronizationNeeded := True\<rparr>"])
      show "D = 360 \<or> D = 720" using that(1) by blast
    qed (use that in \<open>elim disjE conjE; simp add: wheel_run wheel_toothed om exact [OF fl] skip_exact [OF fl, where P = 12 and off = 0 and l = "-2" and r = "2000"]
      skip_exact [OF fl, where P = 6 and off = 0 and l = "-2" and r = "2000"] del: upto_rec_numeral\<close>)+
  qed
  show ?thesis using ok [of 720 12] ok [of 360 6] engine_cycle_cases [of om] by blast
qed

lemma wheel_w36_1:
  assumes fl: "float_exact fl" and om: "om \<noteq> OM_NONE"
  shows "wheel_ok fl om b TT_TOOTHED_WHEEL_36_1 70 s"
proof -
  have ok: "wheel_ok fl om b TT_TOOTHED_WHEEL_36_1 70 s"
    if "D = 720 \<and> P = 20 \<or> D = 360 \<and> P = 10" "getEngineCycle om = D" for P :: int and D :: nat
  proof -
    let ?es = "\<lambda>P D. half_events T_PRIMARY P 0 (-2) 2000 [1..68] @
      [(P * 69, T_PRIMARY, TV_RISE), (2 * int D, T_PRIMARY, TV_FALL)]"
    have "half_run (2 * int 720) 0 (?es 20 720)" "half_run (2 * int 360) 0 (?es 10 360)" by code_simp+
    moreover have "half_length (?es 20 720) = int 70" "half_length (?es 10 360) = int 70" by code_simp+
    moreover have "half_counts True (?es 20 720) = 35" "half_counts True (?es 10 360) = 35" by code_simp+
    moreover have "half_counts False (?es 20 720) = 70" "half_counts False (?es 10 360) = 70" by code_simp+
    ultimately have ground: "half_run (2 * int D) 0 (?es P D)" "half_length (?es P D) = int 70"
        "half_counts b (?es P D) = int (if b then 35 else 70)" using that(1) by (cases b; elim disjE conjE; simp only: if_True if_False of_nat_numeral)+
    show ?thesis
    proof (rule half_wheel [OF fl _ _ ground(1,2) _ ground(3), where base = "\<lambda>s. setTriggerSynchronizationGap3 fl 0 (Some (fl (2 * (3 / 4)))) (fl (2 * (5 / 4)))
          (initialize fl om (s\<lparr>useRiseEdge := True\<rparr>))\<lparr>shapeWithoutTdc := False, isSynchronizationNeeded := True\<rparr>"])
      show "D = 360 \<or> D = 720" using that(1) by blast
    qed (use that in \<open>elim disjE conjE; simp add: wheel_run wheel_toothed om exact [OF fl] skip_exact [OF fl, where P = 20 and off = 0 and l = "-2" and r = "2000"]
      skip_exact [OF fl, where P = 10 and off = 0 and l = "-2" and r = "2000"] del: upto_rec_numeral\<close>)+
  qed
  show ?thesis using ok [of 720 20] ok [of 360 10] engine_cycle_cases [of om] by blast
qed

lemma wheel_one:
  assumes fl: "float_exact fl" and "om \<noteq> OM_NONE"
  shows "wheel_ok fl om b TT_ONE 2 s"
  by (cases b; cases "om = TWO_STROKE"; rule wheel_okI [where c = "if b then 1 else 2"];
    simp add: wheel_setup wheel_toothed addSkippedToothTriggerEvents_def assms(2) exact [OF fl] accepted_exact [OF fl])

text \<open>The bits of the code word of the GM wheel, and the crank teeth of the Toyota one.\<close>

fun gm_events :: "u32 \<Rightarrow> int \<Rightarrow> nat \<Rightarrow> half_event list" where
  "gm_events code m 0 = []"
| "gm_events code m (Suc k) =
     (2 * m + (if code AND 1 \<noteq> 0 then 20 else 40), T_PRIMARY, TV_RISE) # (2 * m + 60, T_PRIMARY, TV_FALL) #
     gm_events (drop_bit 1 code) (m + 30) k"

lemma gm_ls_adds:
  assumes fl: "float_exact fl"
  shows "0 \<le> m \<Longrightarrow> m + 30 * int k \<le> 720 \<Longrightarrow>
    gm_ls_loop fl k code m s = adds fl (map (half_degrees 720) (gm_events code m k)) s"
proof (induction k arbitrary: code m s)
  case (Suc k)
  define w where "w = (if code AND 1 \<noteq> 0 then 5 else 10) * \<lfloor>CRANK_MODE_MULTIPLIER\<rfloor>"
  have w: "0 \<le> w" "w \<le> 20" "2 * w = (if code AND 1 \<noteq> 0 then 20 else 40)" by (simp_all add: w_def CRANK_MODE_MULTIPLIER_def)
  have f: "fl (of_int m + of_int (\<lfloor>CRANK_MODE_MULTIPLIER\<rfloor> * 15)) = of_int (m + 30)" "fl (of_int m + of_int w) = of_int (m + w)"
    using exact_half(2) [OF fl, of "m + 30"] exact_half(2) [OF fl, of "m + w"] Suc.prems w
    by (simp_all add: CRANK_MODE_MULTIPLIER_def)
  have c: "c_int (of_int (m + 30)) = m + 30" using Suc.prems of_int_less_iff [of "m + 30" 0, where ?'a = rat] by (simp add: c_int_def)
  have p: "gm_tooth_pair fl (of_int m) (code AND 1 \<noteq> 0) s \<lfloor>CRANK_MODE_MULTIPLIER\<rfloor> =
      (adds fl [(of_int (m + w) / 720, T_PRIMARY, TV_RISE), (of_int (m + 30) / 720, T_PRIMARY, TV_FALL)] s, m + 30)"
    unfolding gm_tooth_pair_def Let_def w_def [symmetric] f c add_forms adds_append by simp
  have e: "map (half_degrees 720) (gm_events code m (Suc k)) =
      [(of_int (m + w) / 720, T_PRIMARY, TV_RISE), (of_int (m + 30) / 720, T_PRIMARY, TV_FALL)] @
      map (half_degrees 720) (gm_events (drop_bit 1 code) (m + 30) k)"
    unfolding gm_events.simps w(3) [symmetric] by (simp add: half_degrees_def field_simps)
  have "gm_ls_loop fl (Suc k) code m s = gm_ls_loop fl k (drop_bit 1 code) (m + 30)
      (adds fl [(of_int (m + w) / 720, T_PRIMARY, TV_RISE), (of_int (m + 30) / 720, T_PRIMARY, TV_FALL)] s)"
    unfolding gm_ls_loop.simps Let_def p split_conv ..
  also have "\<dots> = adds fl (map (half_degrees 720) (gm_events (drop_bit 1 code) (m + 30) k))
      (adds fl [(of_int (m + w) / 720, T_PRIMARY, TV_RISE), (of_int (m + 30) / 720, T_PRIMARY, TV_FALL)] s)"
    by (rule Suc.IH) (use Suc.prems in simp_all)
  finally show ?case unfolding e adds_append .
qed simp

lemma wheel_gm_ls:
  assumes fl: "float_exact fl"
  shows "wheel_ok fl om b TT_GM_LS_24 48 s"
proof -
  let ?es = "gm_events 0x0A33BE 0 24"
  show ?thesis
  proof (rule half_wheel [OF fl, where D = 720 and es = ?es and c = "if b then 24 else 48"
        and base = "\<lambda>s. initialize fl FOUR_STROKE_CRANK_SENSOR s"])
    show "half_run (2 * int 720) 0 ?es" "half_length ?es = int 48" by code_simp+
    have "half_counts True ?es = 24" "half_counts False ?es = 48" by code_simp+
    then show "half_counts b ?es = int (if b then 24 else 48)" by (cases b) simp_all
  qed (simp_all add: wheel_run initGmLS24_def gm_ls_adds [OF fl] half_degrees_def)
qed

lemma jz_teeth_Suc:
  assumes fl: "float_exact fl" and m: "0 \<le> m" "m + 30 < 721" and om: "getEngineCycle (operationMode s) = 720"
  shows "jz_teeth fl 15 (Suc k) (s, of_int m) =
    jz_teeth fl 15 k (adds fl [(of_int (m + 15) / 720, T_SECONDARY, TV_RISE), (of_int (m + 30) / 720, T_SECONDARY, TV_FALL)] s, of_int (m + 30))"
proof -
  have f: "fl (of_int m + 15) = of_int (m + 15)" "fl (of_int (m + 15) + 15) = of_int (m + 30)"
    using exact_half(2) [OF fl, of "m + 15"] exact_half(2) [OF fl, of "m + 30"] m by (simp_all add: add.assoc)
  have a: "- 1 < (of_int (m + 15) :: rat)" "(of_int (m + 15) :: rat) < 721" "- 1 < (of_int (m + 30) :: rat)" "(of_int (m + 30) :: rat) < 721"
    using m of_int_less_iff [of "-1" "m + 15", where ?'a = rat] of_int_less_iff [of "m + 15" 721, where ?'a = rat]
      of_int_less_iff [of "-1" "m + 30", where ?'a = rat] of_int_less_iff [of "m + 30" 721, where ?'a = rat] by simp_all
  have "fold (\<lambda>i. f) [0..<Suc k] x = fold (\<lambda>i. f) [0..<k] (f x)" for f and x :: "trigger_waveform \<times> rat"
    by (induction k) simp_all
  then show ?thesis unfolding jz_teeth_def by (simp only: Let_def split_conv f a add_clamped om adds_setup adds_append) simp
qed

fun jz_events :: "int \<Rightarrow> nat \<Rightarrow> half_event list" where
  "jz_events m 0 = []"
| "jz_events m (Suc k) = (2 * m + 30, T_SECONDARY, TV_RISE) # (2 * m + 60, T_SECONDARY, TV_FALL) # jz_events (m + 30) k"

lemma jz_teeth_adds:
  assumes fl: "float_exact fl"
  shows "0 \<le> m \<Longrightarrow> m + 30 * int k < 721 \<Longrightarrow> getEngineCycle (operationMode s) = 720 \<Longrightarrow>
    jz_teeth fl 15 k (s, of_int m) = (adds fl (map (half_degrees 720) (jz_events m k)) s, of_int (m + 30 * int k))"
proof (induction k arbitrary: m s)
  case (Suc k)
  have e: "map (half_degrees 720) (jz_events m (Suc k)) =
      [(of_int (m + 15) / 720, T_SECONDARY, TV_RISE), (of_int (m + 30) / 720, T_SECONDARY, TV_FALL)] @
      map (half_degrees 720) (jz_events (m + 30) k)"
    by (simp add: half_degrees_def field_simps)
  have "jz_teeth fl 15 (Suc k) (s, of_int m) = jz_teeth fl 15 k
      (adds fl [(of_int (m + 15) / 720, T_SECONDARY, TV_RISE), (of_int (m + 30) / 720, T_SECONDARY, TV_FALL)] s, of_int (m + 30))"
    by (rule jz_teeth_Suc [OF fl]) (use Suc.prems in simp_all)
  also have "\<dots> = (adds fl (map (half_degrees 720) (jz_events (m + 30) k))
      (adds fl [(of_int (m + 15) / 720, T_SECONDARY, TV_RISE), (of_int (m + 30) / 720, T_SECONDARY, TV_FALL)] s),
      of_int (m + 30 + 30 * int k))"
    by (rule Suc.IH) (use Suc.prems in simp_all)
  finally show ?case unfolding e adds_append by (simp add: algebra_simps)
qed (simp add: jz_teeth_def)

lemma wheel_jz_1_12:
  assumes fl: "float_exact fl"
  shows "wheel_ok fl om b TT_2JZ_1_12 50 s"
proof -
  let ?es = "(20, T_SECONDARY, TV_FALL) # jz_events 10 2 @ (150, T_PRIMARY, TV_FALL) # jz_events 70 21 @
    [(1430, T_SECONDARY, TV_RISE), (1440, T_PRIMARY, TV_RISE)]"
  show ?thesis
  proof (rule half_wheel [OF fl, where D = 720 and es = ?es and c = "if b then 1 else 2"
        and base = "\<lambda>s. initialize fl FOUR_STROKE_CAM_SENSOR s"])
    show "half_run (2 * int 720) 0 ?es" "half_length ?es = int 50" by code_simp+
    have "half_counts True ?es = 1" "half_counts False ?es = 2" by code_simp+
    then show "half_counts b ?es = int (if b then 1 else 2)" by (cases b) simp_all
  qed (simp_all add: wheel_run getEngineCycle_def initialize2jzGE1_12_def exact [OF fl]
      jz_teeth_adds [OF fl, where m = 10, simplified] jz_teeth_adds [OF fl, where m = 70, simplified])
qed

subsection \<open>Wheels whose angles are rounded\<close>

lemma near_events_Nil: "near_events d [] []"
  by (simp add: near_events_def)

lemma near_events_Cons:
  "near e x q \<Longrightarrow> e \<le> d \<Longrightarrow> ch \<noteq> T_NONE \<Longrightarrow> near_events d es qs \<Longrightarrow> near_events d ((x, ch, v) # es) (q # qs)"
  by (simp add: near_events_def near_def)

lemmas near_rules = near_add near_diff near_div near_times2 near_exact near_events_Cons near_events_Nil

lemma near_wheel:
  assumes "float_exact fl" "fresh s0" "near_events (1 / 2 ^ 17) es qs" "spaced (1 / 2 ^ 16) 0 qs" "es \<noteq> []" "length es \<le> 280"
    "fst (last es) = 1" "n = length es" "c = counts (useOnlyRisingEdgeForTriggerTemp s0) es" "L = shape_log s0"
  shows "accepted n c L (adds fl es s0)"
  by (rule accepted_adds [OF assms(1) _ _ _ assms(2-)]) simp_all

lemma wheel_miata_na:
  assumes fl: "float_exact fl"
  shows "wheel_ok fl om b TT_MAZDA_MIATA_NA 12 s"
proof -
  note f = near_fl [OF float_exact_ok [OF fl]]
  show ?thesis
    by (cases b; rule wheel_okI [where c = "if b then 2 else 4"];
      simp add: wheel_setup initializeMazdaMiataNaShape_def exact [OF fl];
      (rule near_wheel [OF fl], simp, (rule f near_rules | (simp add: counted_def; fail))+))
qed

lemma wheel_mitsubishi:
  assumes fl: "float_exact fl"
  shows "wheel_ok fl om b TT_MITSUBISHI 12 s"
proof -
  note f = near_fl [OF float_exact_ok [OF fl]]
  show ?thesis
    by (cases b; rule wheel_okI [where c = "if b then 2 else 4"];
      simp add: wheel_setup initializeMitsubishi4g18_def exact [OF fl];
      (rule near_wheel [OF fl], simp, (rule f near_rules | (simp add: counted_def; fail))+))
qed

lemma wheel_protege:
  assumes fl: "float_exact fl"
  shows "wheel_ok fl om b TT_MAZDA_DOHC_1_4 10 s"
proof -
  note f = near_fl [OF float_exact_ok [OF fl]]
  show ?thesis
    by (cases b; rule wheel_okI [where c = "if b then 1 else 2"];
      simp add: wheel_setup configureMazdaProtegeLx_def exact [OF fl];
      (rule near_wheel [OF fl], simp, (rule f near_rules | (simp add: counted_def; fail))+))
qed

lemma wheel_aspire:
  assumes fl: "float_exact fl"
  shows "wheel_ok fl om b TT_FORD_ASPIRE 10 s"
proof -
  note f = near_fl [OF float_exact_ok [OF fl]]
  show ?thesis
    by (cases b; rule wheel_okI [where c = "if b then 1 else 2"];
      simp add: wheel_setup configureFordAspireTriggerWaveform_def exact [OF fl];
      (rule near_wheel [OF fl], simp, (rule f near_rules | (simp add: counted_def; fail))+))
qed

lemma wheel_cbr_custom:
  assumes fl: "float_exact fl"
  shows "wheel_ok fl om b TT_HONDA_CBR_600_CUSTOM 52 s"
proof -
  note f = near_fl [OF float_exact_ok [OF fl]]
  show ?thesis
    by (cases b; rule wheel_okI [where c = "if b then 2 else 4"];
      simp add: wheel_setup configureHondaCbr600custom_def cbr_teeth_def exact [OF fl];
      (rule near_wheel [OF fl], simp, (rule f near_rules | (simp add: counted_def; fail))+))
qed

lemma wheel_accord:
  assumes fl: "float_exact fl"
  shows "wheel_ok fl om b TT_HONDA_ACCORD_1_24_SHIFTED 50 s"
proof -
  note f = near_fl [OF float_exact_ok [OF fl]]
  show ?thesis
    by (cases b; rule wheel_okI [where c = "if b then 1 else 2"];
      simp add: wheel_setup configureHondaAccordShifted_def addAccordPairs_def addAccordPair_def S24_def exact [OF fl];
      (rule near_wheel [OF fl], simp, (rule f near_rules | (simp add: counted_def; fail))+))
qed

lemma wheel_honda_4_24:
  assumes fl: "float_exact fl"
  shows "wheel_ok fl om b TT_HONDA_4_24 56 s"
proof -
  note f = near_fl [OF float_exact_ok [OF fl]]
  show ?thesis
    by (cases b; rule wheel_okI [where c = "if b then 4 else 8"];
      simp add: wheel_setup configureHonda_1_4_24_def event_if_def honda_quarter_def addAccordPairs_def addAccordPair_def S24_def exact [OF fl];
      (rule near_wheel [OF fl], simp, (rule f near_rules | (simp add: counted_def; fail))+))
qed

lemma wheel_honda_4_24_1:
  assumes fl: "float_exact fl"
  shows "wheel_ok fl om b TT_HONDA_4_24_1 58 s"
proof -
  note f = near_fl [OF float_exact_ok [OF fl]]
  show ?thesis
    by (cases b; rule wheel_okI [where c = "if b then 4 else 8"];
      simp add: wheel_setup configureHonda_1_4_24_def event_if_def honda_quarter_def addAccordPairs_def addAccordPair_def S24_def exact [OF fl];
      (rule near_wheel [OF fl], simp, (rule f near_rules | (simp add: counted_def; fail))+))
qed

subsection \<open>Wheels with long runs of rounded angles\<close>

text \<open>A tooth \<open>t\<close> after the other, each with a rise in its middle and a fall at its end.\<close>

fun tooth_events :: "rounding \<Rightarrow> rat \<Rightarrow> rat \<Rightarrow> rat \<Rightarrow> nat \<Rightarrow> (rat \<times> trigger_wheel_e \<times> trigger_value_e) list" where
  "tooth_events fl t D a 0 = []"
| "tooth_events fl t D a (Suc k) =
     (fl (a + fl (t / 2)) / D, T_PRIMARY, TV_RISE) # (fl (a + t) / D, T_PRIMARY, TV_FALL) # tooth_events fl t D (fl (a + t)) k"

fun tooth_end :: "rounding \<Rightarrow> rat \<Rightarrow> rat \<Rightarrow> nat \<Rightarrow> rat" where
  "tooth_end fl t a 0 = a"
| "tooth_end fl t a (Suc k) = tooth_end fl t (fl (a + t)) k"

fun tooth_angles :: "rat \<Rightarrow> rat \<Rightarrow> rat \<Rightarrow> nat \<Rightarrow> rat list" where
  "tooth_angles T D x 0 = []"
| "tooth_angles T D x (Suc k) = (x + T / 2) / D # (x + T) / D # tooth_angles T D (x + T) k"

lemma tooth_events_near:
  assumes fl: "float_ok fl" and t: "near (1 / 2 ^ 14) t T" "1 \<le> T" "0 < D"
  shows "near e a x \<Longrightarrow> 0 \<le> x \<Longrightarrow> x + T * of_nat (k + 1) \<le> 1000 \<Longrightarrow> e + of_nat k / 2 ^ 13 \<le> 1 / 8 \<Longrightarrow>
    (e + of_nat (k + 1) / 2 ^ 13) / D \<le> d \<Longrightarrow>
    near_events d (tooth_events fl t D a k) (tooth_angles T D x k) \<and> near (e + of_nat k / 2 ^ 13) (tooth_end fl t a k) (x + T * of_nat k)"
proof (induction k arbitrary: a x e)
  case (Suc k)
  have T: "0 \<le> T * of_nat k" using t(2) by simp
  have b: "x + T + (T + T * of_nat k) \<le> 1000" "e + 1 / 2 ^ 13 + of_nat k / 2 ^ 13 \<le> 1 / 8" "0 \<le> (of_nat k :: rat) / 2 ^ 13"
    using Suc.prems(3,4) by (simp_all add: algebra_simps add_divide_distrib)
  have T2: "T \<le> 1000" "x + T / 2 \<le> 1000" "x + T \<le> 1000" using b(1) T Suc.prems(2) t(2) by linarith+
  have t2: "near (1 / 2 ^ 14 / 2 + 1 / 2 ^ 14) (fl (t / 2)) (T / 2)"
    by (rule near_fl [OF fl near_div [OF t(1)]]) (use t(2) T2 in \<open>simp_all add: abs_if\<close>)
  have r: "near (e + (1 / 2 ^ 14 / 2 + 1 / 2 ^ 14) + 1 / 2 ^ 14) (fl (a + fl (t / 2))) (x + T / 2)"
    by (rule near_fl [OF fl near_add [OF Suc.prems(1) t2]]; use t(2) T2 b(2,3) Suc.prems(2) in \<open>simp add: abs_if\<close>)
  have f: "near (e + 1 / 2 ^ 14 + 1 / 2 ^ 14) (fl (a + t)) (x + T)"
    by (rule near_fl [OF fl near_add [OF Suc.prems(1) t(1)]]; use t(2) T2 b(2,3) Suc.prems(2) in \<open>simp add: abs_if\<close>)
  have f': "near (e + 1 / 2 ^ 13) (fl (a + t)) (x + T)" by (rule near_weak [OF f]) simp_all
  have IH: "near_events d (tooth_events fl t D (fl (a + t)) k) (tooth_angles T D (x + T) k) \<and>
      near (e + 1 / 2 ^ 13 + of_nat k / 2 ^ 13) (tooth_end fl t (fl (a + t)) k) (x + T + T * of_nat k)"
    by (rule Suc.IH [OF f']) (use Suc.prems(2,5) t(2) b in \<open>simp_all add: algebra_simps add_divide_distrib\<close>)
  have "(e + 1 / 2 ^ 13) / D \<le> (e + of_nat (Suc k + 1) / 2 ^ 13) / D" "(e + 1 / 2 ^ 12) / D \<le> (e + of_nat (Suc k + 1) / 2 ^ 13) / D"
    using t(3) b(3) by (intro divide_right_mono; simp add: add_divide_distrib)+
  then have d: "(e + 1 / 2 ^ 12) / D \<le> d" using Suc.prems(5) by (meson order_trans)
  have "(e + (1 / 2 ^ 14 / 2 + 1 / 2 ^ 14) + 1 / 2 ^ 14) / D \<le> (e + 1 / 2 ^ 12) / D" "(e + 1 / 2 ^ 13) / D \<le> (e + 1 / 2 ^ 12) / D"
    using t(3) by (intro divide_right_mono; simp)+
  then have "near d (fl (a + fl (t / 2)) / D) ((x + T / 2) / D)" "near d (fl (a + t) / D) ((x + T) / D)"
    using near_weak [OF near_div [OF r t(3)] _ refl, of d] near_weak [OF near_div [OF f' t(3)] _ refl, of d] d by (meson order_trans)+
  then show ?case using IH by (simp add: near_events_def algebra_simps add_divide_distrib)
qed (simp_all add: near_events_def)

lemma near_events_append: "near_events d es qs \<Longrightarrow> near_events d es' qs' \<Longrightarrow> near_events d (es @ es') (qs @ qs')"
  unfolding near_events_def by (rule list_all2_appendI)

lemma spaced_mono: "spaced e y qs \<Longrightarrow> y' \<le> y \<Longrightarrow> spaced e y' qs"
  by (cases qs) simp_all

lemma spaced_tooth:
  assumes "0 < D" "2 * e + 1 / 9900 \<le> T / 2 / D" "1 / 1000 \<le> T / 2 / D"
  shows "0 \<le> x \<Longrightarrow> y \<le> x / D \<Longrightarrow> (x + T * of_nat k) / D \<le> 1 \<Longrightarrow> spaced e ((x + T * of_nat k) / D) qs \<Longrightarrow>
    spaced e y (tooth_angles T D x k @ qs)"
proof (induction k arbitrary: x y)
  case (Suc k)
  have "0 < T / 2 / D" using assms(3) by (rule less_le_trans [rotated]) simp
  then have T: "0 < T" using assms(1) by (simp add: zero_less_divide_iff)
  have e: "(x + T / 2) / D = x / D + T / 2 / D" "(x + T) / D = (x + T / 2) / D + T / 2 / D"
    using assms(1) by (simp_all add: field_simps)
  have "(x + T) / D \<le> (x + T * of_nat (Suc k)) / D" using T assms(1) by (intro divide_right_mono) (simp_all add: algebra_simps)
  moreover have "0 \<le> x / D" using Suc.prems(1) assms(1) by simp
  moreover have "spaced e ((x + T) / D) (tooth_angles T D (x + T) k @ qs)"
    by (rule Suc.IH) (use Suc.prems T in \<open>simp_all add: algebra_simps\<close>)
  ultimately show ?case using Suc.prems(2,3) assms(2,3) unfolding tooth_angles.simps append_Cons spaced.simps e by linarith
qed (use spaced_mono in simp)

lemma renix_adds:
  "getCycleDuration s = D \<Longrightarrow>
   renix_teeth fl t k (s, a) = (adds fl (tooth_events fl t (of_nat D) a k) s, tooth_end fl t a k)"
proof -
  have "fold (\<lambda>i. f) [0..<Suc k] x = fold (\<lambda>i. f) [0..<k] (f x)" for f and x :: "trigger_waveform \<times> rat" and k
    by (induction k) simp_all
  note r = this
  show "getCycleDuration s = D \<Longrightarrow>
   renix_teeth fl t k (s, a) = (adds fl (tooth_events fl t (of_nat D) a k) s, tooth_end fl t a k)"
  proof (induction k arbitrary: s a)
    case (Suc k)
    then show ?case using Suc.IH [of "adds fl [(fl (a + fl (t / 2)) / of_nat D, T_PRIMARY, TV_RISE), (fl (a + t) / of_nat D, T_PRIMARY, TV_FALL)] s" "fl (a + t)"]
      unfolding renix_teeth_def r by (simp add: event_list)
  qed (simp add: renix_teeth_def)
qed

lemma renix_counts: "counts b (tooth_events fl t D a k) = (if b then k else 2 * k)" "length (tooth_events fl t D a k) = 2 * k"
  by (induction k arbitrary: a) (simp_all add: counted_def)

lemma commonRenix_accepted:
  assumes fl: "float_exact fl" and s: "fresh s" "getCycleDuration s = D" "D = 120 \<or> D = 180" "useOnlyRisingEdgeForTriggerTemp s = b"
  shows "accepted 42 (if b then 21 else 42) (shape_log s) (commonRenix fl s)"
proof -
  define t where "t = fl (of_nat D / 22)"
  let ?T = "of_nat D / 22 :: rat" and ?D = "of_nat D :: rat"
  note ok = float_exact_ok [OF fl]
  have D: "?D = 120 \<or> ?D = 180" using s(3) by auto
  have t: "near (1 / 2 ^ 14) t ?T" unfolding t_def
    by (rule near_weak [OF near_fl [OF ok near_exact]]) (use D in auto)
  let ?es = "tooth_events fl t ?D 0 20 @ [(fl (tooth_end fl t 0 20 + t) / ?D, T_PRIMARY, TV_RISE), (1, T_PRIMARY, TV_FALL)]"
  let ?qs = "tooth_angles ?T ?D 0 20 @ [?T * 21 / ?D, 1]"
  have n: "near_events (1 / 2 ^ 15) (tooth_events fl t ?D 0 20) (tooth_angles ?T ?D 0 20) \<and>
      near (0 + of_nat 20 / 2 ^ 13) (tooth_end fl t 0 20) (0 + ?T * of_nat 20)"
    by (rule tooth_events_near [OF ok t _ _ near_exact]) (use D in auto)
  have "near (0 + of_nat 20 / 2 ^ 13 + 1 / 2 ^ 14 + 1 / 2 ^ 14) (fl (tooth_end fl t 0 20 + t)) (0 + ?T * of_nat 20 + ?T)"
    by (rule near_fl [OF ok near_add [OF conjunct2 [OF n] t]]) (use D in auto)
  then have "near ((0 + of_nat 20 / 2 ^ 13 + 1 / 2 ^ 14 + 1 / 2 ^ 14) / ?D) (fl (tooth_end fl t 0 20 + t) / ?D) ((0 + ?T * of_nat 20 + ?T) / ?D)"
    by (rule near_div) (use D in auto)
  then have "near (1 / 2 ^ 15) (fl (tooth_end fl t 0 20 + t) / ?D) (?T * 21 / ?D)"
    by (rule near_weak) (use D in auto)
  then have ne: "near_events (1 / 2 ^ 15) ?es ?qs"
    using n by (intro near_events_append) (auto simp: near_events_def near_def)
  have sp: "spaced (1 / 2 ^ 14) 0 ?qs"
    by (rule spaced_tooth) (use D in \<open>auto simp: field_simps\<close>)
  have "commonRenix fl s = adds fl ?es s"
    using s(2) D by (auto simp: commonRenix_def Let_def t_def [symmetric] renix_adds event_list)
  moreover have "accepted 42 (if b then 21 else 42) (shape_log s) (adds fl ?es s)"
    by (rule accepted_adds [OF fl _ _ _ s(1) ne sp]) (simp_all add: renix_counts s(4) counted_def)
  ultimately show ?thesis by simp
qed

lemma commonRenix_setup:
  "isSynchronizationNeeded (commonRenix fl s) = isSynchronizationNeeded s" "shapeWithoutTdc (commonRenix fl s) = shapeWithoutTdc s"
  using renix_adds [OF refl, where fl = fl and s = s] by (simp_all add: commonRenix_def Let_def event_list)

lemma wheel_renix_44:
  assumes fl: "float_exact fl"
  shows "wheel_ok fl om b TT_RENIX_44_2_2 42 s"
proof (rule wheel_okI [where c = "if b then 21 else 42"])
  fix s :: trigger_waveform assume b: "useOnlyRisingEdgeForTriggerTemp s = b"
  show "accepted 42 (if b then 21 else 42) (shape_log s) (configure_wheel fl TT_RENIX_44_2_2 om s) \<and>
      sync_fits (if b then 21 else 42) b (configure_wheel fl TT_RENIX_44_2_2 om s)"
    using commonRenix_accepted [OF fl, of "initialize fl FOUR_STROKE_SYMMETRICAL_CRANK_SENSOR s" 180 b] b
    by (simp add: configure_wheel_def initializeRenix44_2_2_def sync_fits_def commonRenix_setup getCycleDuration_def cycle_duration_def)
qed

lemma wheel_renix_66:
  assumes fl: "float_exact fl"
  shows "wheel_ok fl om b TT_RENIX_66_2_2_2 42 s"
proof (rule wheel_okI [where c = "if b then 21 else 42"])
  fix s :: trigger_waveform assume b: "useOnlyRisingEdgeForTriggerTemp s = b"
  show "accepted 42 (if b then 21 else 42) (shape_log s) (configure_wheel fl TT_RENIX_66_2_2_2 om s) \<and>
      sync_fits (if b then 21 else 42) b (configure_wheel fl TT_RENIX_66_2_2_2 om s)"
    using commonRenix_accepted [OF fl, of "initialize fl FOUR_STROKE_THREE_TIMES_CRANK_SENSOR s" 120 b] b
    by (simp add: configure_wheel_def initializeRenix66_2_2_def sync_fits_def commonRenix_setup getCycleDuration_def cycle_duration_def)
qed

text \<open>The crank teeth of the Mini Cooper: pairs of events, \<open>w\<close> apart.\<close>

fun pair_events :: "rounding \<Rightarrow> rat \<Rightarrow> rat \<Rightarrow> nat \<Rightarrow> (rat \<times> trigger_wheel_e \<times> trigger_value_e) list" where
  "pair_events fl w a 0 = []"
| "pair_events fl w a (Suc k) =
     (a / 720, T_SECONDARY, TV_RISE) # (fl (a + w) / 720, T_SECONDARY, TV_FALL) # pair_events fl w (fl (fl (a + w) + w)) k"

fun pair_end :: "rounding \<Rightarrow> rat \<Rightarrow> rat \<Rightarrow> nat \<Rightarrow> rat" where
  "pair_end fl w a 0 = a"
| "pair_end fl w a (Suc k) = pair_end fl w (fl (fl (a + w) + w)) k"

fun pair_angles :: "rat \<Rightarrow> rat \<Rightarrow> nat \<Rightarrow> rat list" where
  "pair_angles W x 0 = []"
| "pair_angles W x (Suc k) = x / 720 # (x + W) / 720 # pair_angles W (x + W + W) k"

lemma pair_events_near:
  assumes fl: "float_ok fl" and w: "near (1 / 2 ^ 14) w W" "1 \<le> W" "W \<le> 400"
  shows "near e a x \<Longrightarrow> 0 \<le> x \<Longrightarrow> x + W * (2 * of_nat k) \<le> 1000 \<Longrightarrow> e + of_nat k / 2 ^ 12 \<le> 1 / 30 \<Longrightarrow>
    near_events (1 / 2 ^ 14) (pair_events fl w a k) (pair_angles W x k) \<and>
    near (e + of_nat k / 2 ^ 12) (pair_end fl w a k) (x + W * (2 * of_nat k))"
proof (induction k arbitrary: a x e)
  case (Suc k)
  have T: "0 \<le> W * (2 * of_nat k)" "0 \<le> (of_nat k :: rat)" using w(2) by simp_all
  have b: "x + W + W + W * (2 * of_nat k) \<le> 1000" "e + 1 / 2 ^ 12 + of_nat k / 2 ^ 12 \<le> 1 / 30" "e + 1 / 2 ^ 12 \<le> 1 / 30"
    using Suc.prems(3,4) T(2) by (simp_all add: algebra_simps add_divide_distrib)
  have T2: "x + W \<le> 1000" "x + W + W \<le> 1000" using b(1) T(1) w(2) by linarith+
  have f: "near (e + 1 / 2 ^ 14 + 1 / 2 ^ 14) (fl (a + w)) (x + W)"
    by (rule near_fl [OF fl near_add [OF Suc.prems(1) w(1)]]; use w(2) T2 b(3) Suc.prems(2) in \<open>simp add: abs_if\<close>)
  have g: "near (e + 1 / 2 ^ 14 + 1 / 2 ^ 14 + 1 / 2 ^ 14 + 1 / 2 ^ 14) (fl (fl (a + w) + w)) (x + W + W)"
    by (rule near_fl [OF fl near_add [OF f w(1)]]; use w(2) T2 b(3) Suc.prems(2) in \<open>simp add: abs_if\<close>)
  have g': "near (e + 1 / 2 ^ 12) (fl (fl (a + w) + w)) (x + W + W)" by (rule near_weak [OF g]) simp_all
  have IH: "near_events (1 / 2 ^ 14) (pair_events fl w (fl (fl (a + w) + w)) k) (pair_angles W (x + W + W) k) \<and>
      near (e + 1 / 2 ^ 12 + of_nat k / 2 ^ 12) (pair_end fl w (fl (fl (a + w) + w)) k) (x + W + W + W * (2 * of_nat k))"
    by (rule Suc.IH [OF g' _ b(1,2)]) (use Suc.prems(2) w(2) in simp)
  have "near (1 / 2 ^ 14) (a / 720) (x / 720)"
    by (rule near_weak [OF near_div [OF Suc.prems(1), of 720] _ refl]) (use b(3) in simp_all)
  moreover have "near (1 / 2 ^ 14) (fl (a + w) / 720) ((x + W) / 720)"
    by (rule near_weak [OF near_div [OF f, of 720] _ refl]) (use b(3) in simp_all)
  ultimately show ?case using IH by (simp add: near_events_def algebra_simps add_divide_distrib)
qed (simp_all add: near_events_def)

lemma addPairs_adds: "addPairs fl w k (s, a) = (adds fl (pair_events fl w a k) s, pair_end fl w a k)"
proof -
  have r: "fold (\<lambda>i. f) [0..<Suc k] x = fold (\<lambda>i. f) [0..<k] (f x)" for f and x :: "trigger_waveform \<times> rat" and k
    by (induction k) simp_all
  show ?thesis
  proof (induction k arbitrary: s a)
    case (Suc k)
    show ?case using Suc.IH [of "adds fl [(a / 720, T_SECONDARY, TV_RISE), (fl (a + w) / 720, T_SECONDARY, TV_FALL)] s" "fl (fl (a + w) + w)"]
      unfolding addPairs_def r by (simp add: addPair_def Let_def event_list)
  qed (simp add: addPairs_def)
qed

lemma pair_counts: "counts b (pair_events fl w a k) = 0" "length (pair_events fl w a k) = 2 * k"
  by (induction k arbitrary: a) (simp_all add: counted_def)

lemma spaced_pair:
  assumes "2 * e + 1 / 9900 \<le> W / 720" "1 / 1000 \<le> W / 720"
  shows "W \<le> x \<Longrightarrow> y + W / 720 \<le> x / 720 \<Longrightarrow> (x + W * (2 * of_nat k)) / 720 \<le> 1 + W / 720 \<Longrightarrow>
    spaced e ((x + W * (2 * of_nat k)) / 720 - W / 720) qs \<Longrightarrow> spaced e y (pair_angles W x k @ qs)"
proof (induction k arbitrary: x y)
  case (Suc k)
  have W: "0 < W / 720" using assms(2) by (rule less_le_trans [rotated]) simp
  have "0 \<le> W * (2 * of_nat k) / 720" using W by simp
  moreover have e: "(x + W) / 720 = x / 720 + W / 720" "(x + W + W) / 720 = x / 720 + W / 720 + W / 720"
    "(x + W * (2 * of_nat (Suc k))) / 720 = x / 720 + W / 720 + W / 720 + W * (2 * of_nat k) / 720"
    by (simp_all add: field_simps)
  moreover have "spaced e ((x + W) / 720) (pair_angles W (x + W + W) k @ qs)"
    by (rule Suc.IH) (use Suc.prems W in \<open>simp_all add: algebra_simps\<close>)
  moreover have "W / 720 \<le> x / 720" using Suc.prems(1) by simp
  ultimately show ?case using Suc.prems(2,3) assms unfolding pair_angles.simps append_Cons spaced.simps e by linarith
qed (use spaced_mono in simp)

lemma spaced_pairs:
  assumes "2 * e + 1 / 9900 \<le> W / 720" "1 / 1000 \<le> W / 720" "0 < k" "W \<le> x" "y + 2 * e + 1 / 9900 \<le> x / 720"
    "(x + W * (2 * of_nat k)) / 720 \<le> 1 + W / 720" "spaced e ((x + W * (2 * of_nat k)) / 720 - W / 720) qs"
  shows "spaced e y (pair_angles W x k @ qs)"
proof -
  obtain j where k: "k = Suc j" using assms(3) by (cases k) simp_all
  have W: "0 < W / 720" using assms(2) by (rule less_le_trans [rotated]) simp
  define Z where "Z = W * (2 * of_nat j) / 720"
  have "0 \<le> Z" using W by (simp add: Z_def)
  moreover have "x / 720 + W / 720 + W / 720 + Z \<le> 1 + W / 720"
    using assms(6) unfolding k Z_def by (simp add: field_simps)
  moreover have "W / 720 \<le> x / 720" using assms(4) by simp
  moreover have "spaced e ((x + W) / 720) (pair_angles W (x + W + W) j @ qs)"
  proof (rule spaced_pair [OF assms(1,2)])
    have r: "x + W + W + W * (2 * of_nat j) = x + W * (2 * of_nat k)" by (simp add: k algebra_simps)
    show "(x + W + W + W * (2 * of_nat j)) / 720 \<le> 1 + W / 720"
      "spaced e ((x + W + W + W * (2 * of_nat j)) / 720 - W / 720) qs" unfolding r by (rule assms(6,7))+
    have "0 < W" using W by (simp add: zero_less_divide_iff)
    then show "W \<le> x + W + W" using assms(4) by linarith
    show "(x + W) / 720 + W / 720 \<le> (x + W + W) / 720" by (simp only: add_divide_distrib order_refl)
  qed
  ultimately show ?thesis using assms(1,2,5) unfolding k pair_angles.simps append_Cons spaced.simps add_divide_distrib [of x W]
    by - (intro conjI, linarith+)
qed

text \<open>A difference that is close to nothing stays so when it is rounded.\<close>

lemma small_difference:
  assumes fl: "float_exact fl" and d: "\<bar>x\<bar> \<le> 1 / 20"
  shows "\<bar>fl x\<bar> < 1 / 10"
proof -
  have "mono fl" using fl by (simp add: float_exact_def)
  then have "fl (- (1 / 20)) \<le> fl x" "fl x \<le> fl (1 / 20)" using d by (auto intro: monoD)
  moreover have "\<bar>fl (1 / 20) - 1 / 20\<bar> \<le> 1 / 20 / 2 ^ 24" "\<bar>fl (- (1 / 20)) - - (1 / 20)\<bar> \<le> 1 / 20 / 2 ^ 24"
    using float_error [OF float_exact_ok [OF fl], of "1 / 20"] float_error [OF float_exact_ok [OF fl], of "- (1 / 20)"] by simp_all
  moreover have "1 / 20 / 2 ^ 24 < (1 / 40 :: rat)" by simp
  ultimately show ?thesis by linarith
qed

lemma wheel_mini:
  assumes fl: "float_exact fl"
  shows "wheel_ok fl om b TT_MINI_COOPER_R50 234 s"
proof (rule wheel_okI [where c = "if b then 1 else 2"])
  fix s :: trigger_waveform assume b: "useOnlyRisingEdgeForTriggerTemp s = b"
  note ok = float_exact_ok [OF fl] and f = near_fl [OF float_exact_ok [OF fl]]
  define W where "W = (360 / 121 :: rat)"
  define w where "w = fl (360 / 121)"
  define a0 where "a0 = fl (w / 2)"
  define a1 where "a1 = fl (a0 + w)"
  define a2 where "a2 = pair_end fl w a1 23"
  define a3 where "a3 = fl (a2 + fl (3 * w))"
  define a4 where "a4 = fl (a3 + fl (3 * w))"
  define a5 where "a5 = fl (a4 + w)"
  define a6 where "a6 = pair_end fl w a5 36"
  define a7 where "a7 = pair_end fl w a6 21"
  define a8 where "a8 = fl (a7 + fl (3 * w))"
  define a9 where "a9 = fl (a8 + fl (3 * w))"
  define a10 where "a10 = fl (a9 + w)"
  define a11 where "a11 = pair_end fl w a10 33"
  have w: "near (1 / 2 ^ 14) w W" unfolding w_def W_def by (rule near_weak [OF f [OF near_exact]]) simp_all
  have w3: "near (1 / 2 ^ 12) (fl (3 * w)) (3 * W)"
    by (rule near_weak [OF f [OF near_times [OF w]]]) (simp_all add: W_def)
  have n0: "near (1 / 2 ^ 13) a0 (W / 2)" unfolding a0_def
    by (rule near_weak [OF f [OF near_div [OF w]]]) (simp_all add: W_def)
  have n1: "near (1 / 2 ^ 12) a1 (3 / 2 * W)" unfolding a1_def
    by (rule near_weak [OF f [OF near_add [OF n0 w]]]) (simp_all add: W_def)
  note pairs = pair_events_near [OF ok w]
  have p1: "near_events (1 / 2 ^ 14) (pair_events fl w a1 23) (pair_angles W (3 / 2 * W) 23) \<and>
      near (1 / 2 ^ 12 + of_nat 23 / 2 ^ 12) a2 (3 / 2 * W + W * (2 * of_nat 23))" unfolding a2_def
    by (rule pairs [OF _ _ n1]) (simp_all add: W_def)
  have n3: "near (26 / 2 ^ 12) a3 (101 / 2 * W)" unfolding a3_def
    by (rule near_weak [OF f [OF near_add [OF conjunct2 [OF p1] w3]]]) (simp_all add: W_def)
  have n4: "near (28 / 2 ^ 12) a4 (107 / 2 * W)" unfolding a4_def
    by (rule near_weak [OF f [OF near_add [OF n3 w3]]]) (simp_all add: W_def)
  have n5: "near (29 / 2 ^ 12) a5 (109 / 2 * W)" unfolding a5_def
    by (rule near_weak [OF f [OF near_add [OF n4 w]]]) (simp_all add: W_def)
  have p2: "near_events (1 / 2 ^ 14) (pair_events fl w a5 36) (pair_angles W (109 / 2 * W) 36) \<and>
      near (29 / 2 ^ 12 + of_nat 36 / 2 ^ 12) a6 (109 / 2 * W + W * (2 * of_nat 36))" unfolding a6_def
    by (rule pairs [OF _ _ n5]) (simp_all add: W_def)
  have n6: "near (65 / 2 ^ 12) a6 (253 / 2 * W)" by (rule near_weak [OF conjunct2 [OF p2]]) (simp_all add: W_def)
  have p3: "near_events (1 / 2 ^ 14) (pair_events fl w a6 21) (pair_angles W (253 / 2 * W) 21) \<and>
      near (65 / 2 ^ 12 + of_nat 21 / 2 ^ 12) a7 (253 / 2 * W + W * (2 * of_nat 21))" unfolding a7_def
    by (rule pairs [OF _ _ n6]) (simp_all add: W_def)
  have n8: "near (88 / 2 ^ 12) a8 (343 / 2 * W)" unfolding a8_def
    by (rule near_weak [OF f [OF near_add [OF conjunct2 [OF p3] w3]]]) (simp_all add: W_def)
  have n9: "near (90 / 2 ^ 12) a9 (349 / 2 * W)" unfolding a9_def
    by (rule near_weak [OF f [OF near_add [OF n8 w3]]]) (simp_all add: W_def)
  have n10: "near (91 / 2 ^ 12) a10 (351 / 2 * W)" unfolding a10_def
    by (rule near_weak [OF f [OF near_add [OF n9 w]]]) (simp_all add: W_def)
  have p4: "near_events (1 / 2 ^ 14) (pair_events fl w a10 33) (pair_angles W (351 / 2 * W) 33) \<and>
      near (91 / 2 ^ 12 + of_nat 33 / 2 ^ 12) a11 (351 / 2 * W + W * (2 * of_nat 33))" unfolding a11_def
    by (rule pairs [OF _ _ n10]) (simp_all add: W_def)
  have n11: "near (124 / 2 ^ 12) a11 (483 / 2 * W)" by (rule near_weak [OF conjunct2 [OF p4]]) (simp_all add: W_def)
  have "near (27 / 2 ^ 12) (fl (a3 + 360)) (101 / 2 * W + 360)"
    by (rule near_weak [OF f [OF near_add [OF n3 near_exact]]]) (simp_all add: W_def)
  then have "\<bar>fl (a3 + 360) - a8\<bar> \<le> 27 / 2 ^ 12 + 88 / 2 ^ 12" by (rule near_sub [OF _ n8]) (simp add: W_def)
  then have c1: "\<bar>fl (fl (a3 + 360) - a8)\<bar> < 1 / 10" by (intro small_difference [OF fl]) (erule order_trans, simp)
  have "near (1 / 2 ^ 12) (fl (720 - fl (w / 2))) (720 - W / 2)" unfolding a0_def [symmetric]
    by (rule near_weak [OF f [OF near_diff [OF near_exact n0]]]) (simp_all add: W_def)
  then have "\<bar>fl (720 - fl (w / 2)) - a11\<bar> \<le> 1 / 2 ^ 12 + 124 / 2 ^ 12" by (rule near_sub [OF _ n11]) (simp add: W_def)
  then have c2: "\<bar>fl (fl (720 - fl (w / 2)) - a11)\<bar> < 1 / 10" by (intro small_difference [OF fl]) (erule order_trans, simp)
  let ?es = "[(a0 / 720, T_SECONDARY, TV_FALL)] @ pair_events fl w a1 23 @ [(a3 / 720, T_SECONDARY, TV_RISE), (a4 / 720, T_SECONDARY, TV_FALL)] @
    pair_events fl w a5 36 @ [(376 / 720, T_PRIMARY, TV_RISE)] @ pair_events fl w a6 21 @
    [(a8 / 720, T_SECONDARY, TV_RISE), (a9 / 720, T_SECONDARY, TV_FALL)] @ pair_events fl w a10 33 @
    [(a11 / 720, T_SECONDARY, TV_RISE), (1, T_PRIMARY, TV_FALL)]"
  let ?qs = "[W / 2 / 720] @ pair_angles W (3 / 2 * W) 23 @ [101 / 2 * W / 720, 107 / 2 * W / 720] @ pair_angles W (109 / 2 * W) 36 @
    [376 / 720] @ pair_angles W (253 / 2 * W) 21 @ [343 / 2 * W / 720, 349 / 2 * W / 720] @ pair_angles W (351 / 2 * W) 33 @
    [483 / 2 * W / 720, 1]"
  have one: "near (1 / 2 ^ 14) (a / 720) (x / 720)" if "near e a x" "e \<le> 1 / 30" for e a x
    by (rule near_weak [OF near_div [OF that(1), of 720]]) (use that(2) in simp_all)
  have ne: "near_events (1 / 2 ^ 14) ?es ?qs"
    using one [OF n0] one [OF n3] one [OF n4] one [OF n8] one [OF n9] one [OF n11] p1 p2 p3 p4
    by (intro near_events_append) (auto simp: near_events_def near_def)
  have sp: "spaced (1 / 2 ^ 13) 0 ?qs"
    by (simp add: W_def; (rule spaced_pairs | simp)+)
  have acc: "accepted 234 (if b then 1 else 2) (shape_log s) (adds fl ?es (initialize fl FOUR_STROKE_CAM_SENSOR s))"
    by (rule accepted_adds [OF fl _ _ _ _ ne sp]) (simp_all add: pair_counts b counted_def)
  have "configure_wheel fl TT_MINI_COOPER_R50 om s =
      adds fl ?es (initialize fl FOUR_STROKE_CAM_SENSOR s)\<lparr>isSynchronizationNeeded := False, useOnlyPrimaryForSync := True\<rparr>"
    using c1 c2
    by (simp add: configure_wheel_def configureMiniCooperTriggerWaveform_def Let_def w_def [symmetric] a0_def [symmetric] a1_def [symmetric]
        addPairs_adds a2_def [symmetric] a3_def [symmetric] a4_def [symmetric] a5_def [symmetric] a6_def [symmetric] a7_def [symmetric]
        a8_def [symmetric] a9_def [symmetric] a10_def [symmetric] a11_def [symmetric] event_list)
  then show "accepted 234 (if b then 1 else 2) (shape_log s) (configure_wheel fl TT_MINI_COOPER_R50 om s) \<and>
      sync_fits (if b then 1 else 2) b (configure_wheel fl TT_MINI_COOPER_R50 om s)"
    using acc by (simp add: sync_fits_def)
qed

text \<open>The other wheels with angles that are not whole.\<close>

lemma wheel_sohc:
  assumes fl: "float_exact fl"
  shows "wheel_ok fl om b TT_MAZDA_SOHC_4 8 s"
proof -
  note f = near_fl [OF float_exact_ok [OF fl]]
  have z: "near (1 / 2 ^ 23) (fl (93 / 1000)) (93 / 1000)"
    using near_time [OF float_exact_ok [OF fl] near_exact] by simp
  show ?thesis
    by (cases b; rule wheel_okI [where c = "if b then 4 else 8"];
      simp add: wheel_setup configureMazdaProtegeSOHC_def exact [OF fl];
      (rule near_wheel [OF fl], simp, (rule z f near_rules | (simp add: counted_def; fail))+))
qed

lemma wheel_cbr:
  assumes fl: "float_exact fl"
  shows "wheel_ok fl om b TT_HONDA_CBR_600 54 s"
proof -
  have up: "[1..46] = 1 # 2 # [3..46 :: int]" by (simp add: upto_rec1)
  note f = near_fl [OF float_exact_ok [OF fl]]
  show ?thesis
    by (cases b; rule wheel_okI [where c = "if b then 3 else 6"];
      simp add: wheel_setup configureHondaCbr600_def addSkippedToothTriggerEvents_def half_degrees_def up exact [OF fl]
        skip_exact [OF fl, where P = 30 and off = 0 and l = 0 and r = 698]
        skip_exact [OF fl, where P = 30 and off = 0 and l = 722 and r = 1298]
        skip_exact [OF fl, where P = 30 and off = 0 and l = 1322 and r = 1418];
      (rule near_wheel [OF fl], simp, (rule f near_rules | (simp add: counted_def; fail))+))
qed

text \<open>The teeth of the Dodge Ram: 6 percent of a pitch of 45 degrees.\<close>

lemma ram_down:
  assumes fl: "float_exact fl" and x: "near (1 / 2 ^ 13) x (94 / 100)" and i: "0 \<le> i" "i \<le> 7" and off: "off = - 25 \<or> off = 335"
  shows "near (1 / 100) (fl (off + fl (45 * fl (i + x)))) (off + 45 * (i + 94 / 100))"
proof -
  note f = near_fl [OF float_exact_ok [OF fl]]
  have "near (0 + 1 / 2 ^ 13 + 1 / 2 ^ 14) (fl (i + x)) (i + 94 / 100)"
    by (rule f [OF near_add [OF near_exact x]]) (use i in simp_all)
  then have "near (45 * (0 + 1 / 2 ^ 13 + 1 / 2 ^ 14) + 1 / 2 ^ 14) (fl (45 * fl (i + x))) (45 * (i + 94 / 100))"
    by (rule f [OF near_times]) (use i in simp_all)
  then have "near (0 + (45 * (0 + 1 / 2 ^ 13 + 1 / 2 ^ 14) + 1 / 2 ^ 14) + 1 / 2 ^ 14) (fl (off + fl (45 * fl (i + x)))) (off + 45 * (i + 94 / 100))"
    by (rule f [OF near_add [OF near_exact]]) (use i off in auto)
  then show ?thesis by (rule near_weak) simp_all
qed

fun ram_events :: "rounding \<Rightarrow> rat \<Rightarrow> rat \<Rightarrow> nat \<Rightarrow> nat \<Rightarrow> (rat \<times> trigger_wheel_e \<times> trigger_value_e) list" where
  "ram_events fl x off i 0 = []"
| "ram_events fl x off i (Suc k) = (fl (off + fl (45 * fl (of_nat i + x))) / 720, T_SECONDARY, TV_RISE) #
     ((off + 45 * of_nat (i + 1)) / 720, T_SECONDARY, TV_FALL) # ram_events fl x off (i + 1) k"

fun ram_angles :: "rat \<Rightarrow> nat \<Rightarrow> nat \<Rightarrow> rat list" where
  "ram_angles off i 0 = []"
| "ram_angles off i (Suc k) = (off + 45 * (of_nat i + 94 / 100)) / 720 # (off + 45 * of_nat (i + 1)) / 720 # ram_angles off (i + 1) k"

lemma ram_skip:
  assumes fl: "float_exact fl" and x: "near (1 / 2 ^ 13) (fl (1 - w)) (94 / 100)" and off: "off = - 25 \<or> off = 335"
  shows "i + k \<le> 7 \<Longrightarrow>
    skip_events fl T_SECONDARY 8 w off 360 0 720 720 i k = ram_events fl (fl (1 - w)) off i k \<and>
    near_events (1 / 2 ^ 15) (ram_events fl (fl (1 - w)) off i k) (ram_angles off i k)"
proof (induction k arbitrary: i)
  case (Suc k)
  have i: "i \<le> 6" "0 \<le> (of_nat i :: rat)" "(of_nat i :: rat) \<le> 6" using Suc.prems by simp_all
  have n: "near (1 / 100) (fl (off + fl (45 * fl (of_nat i + fl (1 - w))))) (off + 45 * (of_nat i + 94 / 100))"
    by (rule ram_down [OF fl x _ _ off]) (use i in simp_all)
  have r: "0 < fl (off + fl (45 * fl (of_nat i + fl (1 - w))))" "fl (off + fl (45 * fl (of_nat i + fl (1 - w)))) < 720"
  proof -
    have "off + 45 * (of_nat i + 94 / 100) - 1 / 100 \<le> fl (off + fl (45 * fl (of_nat i + fl (1 - w))))"
      "fl (off + fl (45 * fl (of_nat i + fl (1 - w)))) \<le> off + 45 * (of_nat i + 94 / 100) + 1 / 100"
      using n unfolding near_def by linarith+
    moreover have "0 < off + 45 * (of_nat i + 94 / 100) - 1 / 100" "off + 45 * (of_nat i + 94 / 100) + 1 / 100 < 720" using off i(2,3) by auto
    ultimately show "0 < fl (off + fl (45 * fl (of_nat i + fl (1 - w))))" "fl (off + fl (45 * fl (of_nat i + fl (1 - w)))) < 720" by linarith+
  qed
  have "i = 0 \<or> i = 1 \<or> i = 2 \<or> i = 3 \<or> i = 4 \<or> i = 5 \<or> i = 6" using i(1) by linarith
  then have u: "fl (off + fl (45 * of_nat (i + 1))) = off + 45 * of_nat (i + 1)" "0 < off + 45 * of_nat (i + 1)"
    "off + 45 * of_nat (i + 1) < 720" using off by (elim disjE; simp add: exact [OF fl])+
  have c: "fl (360 / of_int 8) = 45" by (simp add: exact [OF fl])
  have "near (1 / 2 ^ 15) (fl (off + fl (45 * fl (of_nat i + fl (1 - w)))) / 720) ((off + 45 * (of_nat i + 94 / 100)) / 720)"
    by (rule near_weak [OF near_div [OF n, of 720] _ refl]) simp_all
  then show ?case using Suc.IH [of "i + 1"] Suc.prems r u(2,3)
    unfolding skip_events.simps Let_def c u(1) by (simp add: near_events_def near_def)
qed (simp add: near_events_def)

lemma wheel_ram:
  assumes fl: "float_exact fl"
  shows "wheel_ok fl om b TT_DODGE_RAM 34 s"
proof (rule wheel_okI [where c = "if b then 1 else 2"])
  fix s :: trigger_waveform assume b: "useOnlyRisingEdgeForTriggerTemp s = b"
  note ok = float_exact_ok [OF fl]
  define w where "w = fl (3 / 50)"
  define x where "x = fl (1 - w)"
  have "near (1 / 2 ^ 23) w (3 / 50)" unfolding w_def using near_time [OF ok near_exact] by simp
  from near_fl [OF ok near_diff [OF near_exact this], of 1] have x: "near (1 / 2 ^ 13) x (94 / 100)" unfolding x_def
    by (simp add: near_def)
  define d where "d = (\<lambda>off. fl (off + fl (45 * fl (7 + x))))"
  have d: "near (1 / 100) (d off) (off + 45 * (7 + 94 / 100))" if "off = - 25 \<or> off = 335" for off
    unfolding d_def by (rule ram_down [OF fl x _ _ that]) simp_all
  have r: "0 < d (- 25)" "d (- 25) < 720" "0 < d 335" "d 335 < 720"
    using d [of "- 25"] d [of 335] by (simp_all add: near_def abs_if split: if_splits)
  have n: "near (1 / 2 ^ 15) (d off / 720) ((off + 45 * (7 + 94 / 100)) / 720)" if "off = - 25 \<or> off = 335" for off
    by (rule near_weak [OF near_div [OF d [OF that], of 720] _ refl]) simp_all
  note k = ram_skip [OF fl x [unfolded x_def], folded x_def, of _ 0 7, simplified]
  let ?es = "ram_events fl x (- 25) 0 7 @ [(d (- 25) / 720, T_SECONDARY, TV_RISE), (335 / 720, T_SECONDARY, TV_FALL),
    (360 / 720, T_PRIMARY, TV_RISE)] @ ram_events fl x 335 0 7 @ [(d 335 / 720, T_SECONDARY, TV_RISE), (695 / 720, T_SECONDARY, TV_FALL),
    (1, T_PRIMARY, TV_FALL)]"
  let ?qs = "ram_angles (- 25) 0 7 @ [(- 25 + 45 * (7 + 94 / 100)) / 720, 335 / 720, 360 / 720] @ ram_angles 335 0 7 @
    [(335 + 45 * (7 + 94 / 100)) / 720, 695 / 720, 1]"
  have ne: "near_events (1 / 2 ^ 15) ?es ?qs"
    using k [of "- 25"] k [of 335] n [of "- 25"] n [of 335]
    by (intro near_events_append) (simp_all add: near_events_def near_def)
  have sp: "spaced (1 / 2 ^ 14) 0 ?qs" by (simp add: numeral_eq_Suc)
  have acc: "accepted 34 (if b then 1 else 2) (shape_log s)
      (adds fl ?es (initialize fl FOUR_STROKE_CAM_SENSOR s\<lparr>useRiseEdge := True, isSynchronizationNeeded := False\<rparr>))"
    by (rule accepted_adds [OF fl _ _ _ _ ne sp]) (simp_all add: numeral_eq_Suc b counted_def)
  have "configure_wheel fl TT_DODGE_RAM om s =
      adds fl ?es (initialize fl FOUR_STROKE_CAM_SENSOR s\<lparr>useRiseEdge := True, isSynchronizationNeeded := False\<rparr>)\<lparr>useOnlyPrimaryForSync := True\<rparr>"
    using k [of "- 25"] k [of 335] r
    by (simp add: configure_wheel_def initDodgeRam_def addSkippedToothTriggerEvents_def Let_def event_list w_def [symmetric]
        x_def [symmetric] exact [OF fl] getEngineCycle_def FOUR_STROKE_ENGINE_CYCLE_def d_def)
  then show "accepted 34 (if b then 1 else 2) (shape_log s) (configure_wheel fl TT_DODGE_RAM om s) \<and>
      sync_fits (if b then 1 else 2) b (configure_wheel fl TT_DODGE_RAM om s)"
    using acc by (simp add: sync_fits_def)
qed

subsection \<open>All of them\<close>

text \<open>The wheels that need no numbers from the user, with the number of their events.\<close>

definition known_wheels :: "(trigger_type_e \<times> nat) list" where
  "known_wheels =
     [(TT_FORD_ASPIRE, 10), (TT_DODGE_NEON_1995, 36), (TT_MAZDA_MIATA_NA, 12), (TT_MAZDA_MIATA_NB1, 22), (TT_GM_7X, 14),
      (TT_MINI_COOPER_R50, 234), (TT_MAZDA_SOHC_4, 8), (TT_TOOTHED_WHEEL_60_2, 116), (TT_TOOTHED_WHEEL_36_1, 70),
      (TT_HONDA_4_24_1, 58), (TT_MITSUBISHI, 12), (TT_HONDA_4_24, 56), (TT_HONDA_1_4_24, 58), (TT_DODGE_NEON_2003_CAM, 14),
      (TT_MAZDA_DOHC_1_4, 10), (TT_ONE_PLUS_ONE, 4), (TT_ONE_PLUS_TOOTHED_WHEEL_60_2, 234), (TT_ONE, 2), (TT_DODGE_RAM, 34),
      (TT_60_2_VW, 116), (TT_HONDA_1_24, 50), (TT_DODGE_STRATUS, 24), (TT_36_2_2_2, 60), (TT_NISSAN_SR20VE, 8),
      (TT_2JZ_3_34, 68), (TT_ROVER_K, 64), (TT_GM_LS_24, 48), (TT_HONDA_CBR_600, 54), (TT_2JZ_1_12, 50),
      (TT_HONDA_CBR_600_CUSTOM, 52), (TT_3_1_CAM, 10), (TT_DODGE_NEON_2003_CRANK, 14), (TT_MIATA_VVT, 4),
      (TT_HONDA_ACCORD_1_24_SHIFTED, 50), (TT_MAZDA_MIATA_VVT_TEST, 22), (TT_SUBARU_7_6, 38), (TT_JEEP_18_2_2_2, 50),
      (TT_NISSAN_SR20VE_360, 186), (TT_DODGE_NEON_1995_ONLY_CRANK, 16), (TT_JEEP_4_CYL, 34), (TT_FIAT_IAW_P8, 4),
      (TT_MAZDA_Z5, 8), (TT_MIATA_NB2_VVT_CAM, 6), (TT_RENIX_44_2_2, 42), (TT_RENIX_66_2_2_2, 42), (TT_HONDA_K_12_1, 26),
      (TT_BOSCH_QUICK_START, 8)]"

lemmas wheel_lemmas = wheel_z5 wheel_rover wheel_miata_vvt wheel_nb1 wheel_vvt_test wheel_vvt_cam wheel_gm7x
  wheel_neon2003_cam wheel_neon2003_crank wheel_stratus wheel_neon1995 wheel_neon1995_crank wheel_jeep18 wheel_jeep4
  wheel_cddip wheel_honda_1_24 wheel_w36_2_2_2 wheel_subaru wheel_sr20ve wheel_fiat wheel_honda_k wheel_one_one
  wheel_cam_3_1 wheel_bosch wheel_vw wheel_one_60_2 wheel_sr20ve_360 wheel_jz_3_34 wheel_w60_2 wheel_w36_1 wheel_one
  wheel_gm_ls wheel_jz_1_12 wheel_miata_na wheel_mitsubishi wheel_protege wheel_aspire wheel_cbr_custom wheel_accord
  wheel_honda_4_24 wheel_honda_4_24_1 wheel_renix_44 wheel_renix_66 wheel_mini wheel_sohc wheel_cbr wheel_ram

lemma known_wheel_ok:
  "float_exact fl \<Longrightarrow> om \<noteq> OM_NONE \<Longrightarrow> (tt, n) \<in> set known_wheels \<Longrightarrow> wheel_ok fl om b tt n s"
  unfolding known_wheels_def list.set insert_iff prod.inject empty_iff
  by (elim disjE conjE; (erule FalseE | simp add: wheel_lemmas))

text \<open>
  C8: every wheel that the firmware knows (all the values of \<open>trigger_type_e\<close> but the free toothed wheel and the
  unused one) is accepted by \<open>initializeTriggerWaveform\<close>, for any rounding that is single precision, in
  every operation mode, and whether both edges are used or the rising ones only: no error and no report, the expected number of events,
  switch times that ascend strictly, and the last one exactly 1.
\<close>

theorem known_wheels_accepted:
  assumes "float_exact fl" "om \<noteq> OM_NONE" "(tt, n) \<in> set known_wheels" "sh = initializeTriggerWaveform fl om b tt s"
  shows "getSize sh = n \<and> \<not> shapeDefinitionError sh \<and> shape_log sh = shape_log s \<and>
    (\<forall>i < n - 1. switchTimes (wave sh) ! i < switchTimes (wave sh) ! (i + 1)) \<and> switchTimes (wave sh) ! (n - 1) = 1"
  using known_wheel_ok [OF assms(1-3)] unfolding wheel_ok_def Let_def assms(4) by blast

theorem known_wheels_accepted_witness:
  "getSize (initializeTriggerWaveform id FOUR_STROKE_CRANK_SENSOR True TT_MINI_COOPER_R50 blank_waveform) = 234 \<and>
   \<not> shapeDefinitionError (initializeTriggerWaveform id FOUR_STROKE_CRANK_SENSOR True TT_MINI_COOPER_R50 blank_waveform)"
  using known_wheels_accepted [OF float_exact_id _ _ refl, of FOUR_STROKE_CRANK_SENSOR TT_MINI_COOPER_R50 234 True blank_waveform]
  by (simp add: known_wheels_def)

end
