(* ===== verification/Cylinders.thy ===== *)
theory Cylinders
  imports Event_Queue "HOL-Library.Multiset"
begin

text \<open>
  Which cylinder, coil and injector is next: the firing orders and pin indices of
  src/firmware/controllers/math/engine_math.cpp, firing_order.h, and the numbers of sparks and injections per cycle of
  controllers/engine_cycle/spark_logic.cpp and controllers/algo/fuel_math.cpp. A value that the C enumeration does not name is
  the last constructor of each type.
\<close>

datatype firing_order_e =
    FO_1 | FO_1_2 | FO_1_2_3
  | FO_1_3_4_2 | FO_1_2_4_3 | FO_1_3_2_4 | FO_1_4_3_2
  | FO_1_2_4_5_3
  | FO_1_5_3_6_2_4 | FO_1_4_2_5_3_6 | FO_1_2_3_4_5_6 | FO_1_6_3_2_5_4
  | FO_1_8_4_3_6_5_7_2 | FO_1_8_7_2_6_5_4_3 | FO_1_5_4_2_6_3_7_8 | FO_1_2_7_8_4_5_6_3
  | FO_1_10_9_4_3_6_5_8_7_2
  | FO_1_7_5_11_3_9_6_12_2_8_4_10 | FO_1_7_4_10_2_8_6_12_3_9_5_11 | FO_1_12_5_8_3_10_6_7_2_11_4_9
  | FO_other

datatype ignition_mode_e = IM_ONE_COIL | IM_INDIVIDUAL_COILS | IM_WASTED_SPARK | IM_TWO_COILS | IM_other_ignition

datatype injection_mode_e = IM_SIMULTANEOUS | IM_SEQUENTIAL | IM_BATCH | IM_SINGLE_POINT | IM_other_injection

text \<open>
  The enumerations are finite: properties of all firing orders and modes are decided by evaluation.
\<close>

instantiation firing_order_e :: enum
begin

definition enum_firing_order_e :: "firing_order_e list" where
  "enum_firing_order_e =
     [FO_1, FO_1_2, FO_1_2_3, FO_1_3_4_2, FO_1_2_4_3, FO_1_3_2_4, FO_1_4_3_2, FO_1_2_4_5_3, FO_1_5_3_6_2_4, FO_1_4_2_5_3_6,
      FO_1_2_3_4_5_6, FO_1_6_3_2_5_4, FO_1_8_4_3_6_5_7_2, FO_1_8_7_2_6_5_4_3, FO_1_5_4_2_6_3_7_8, FO_1_2_7_8_4_5_6_3,
      FO_1_10_9_4_3_6_5_8_7_2, FO_1_7_5_11_3_9_6_12_2_8_4_10, FO_1_7_4_10_2_8_6_12_3_9_5_11, FO_1_12_5_8_3_10_6_7_2_11_4_9, FO_other]"

definition enum_all_firing_order_e :: "(firing_order_e \<Rightarrow> bool) \<Rightarrow> bool" where
  "enum_all_firing_order_e P = list_all P enum_class.enum"

definition enum_ex_firing_order_e :: "(firing_order_e \<Rightarrow> bool) \<Rightarrow> bool" where
  "enum_ex_firing_order_e P = list_ex P enum_class.enum"

lemma firing_order_listed: "fo \<in> set (enum_class.enum :: firing_order_e list)"
  by (cases fo) (simp_all add: enum_firing_order_e_def)

instance
proof
  show "(UNIV :: firing_order_e set) = set enum_class.enum" using firing_order_listed by blast
  show "distinct (enum_class.enum :: firing_order_e list)" by (simp add: enum_firing_order_e_def)
  fix P :: "firing_order_e \<Rightarrow> bool"
  show "enum_class.enum_all P \<longleftrightarrow> Ball UNIV P"
    using firing_order_listed by (auto simp: enum_all_firing_order_e_def list_all_iff)
  show "enum_class.enum_ex P \<longleftrightarrow> Bex UNIV P"
    using firing_order_listed by (auto simp: enum_ex_firing_order_e_def list_ex_iff)
qed

end

instantiation ignition_mode_e :: enum
begin

definition enum_ignition_mode_e :: "ignition_mode_e list" where
  "enum_ignition_mode_e = [IM_ONE_COIL, IM_INDIVIDUAL_COILS, IM_WASTED_SPARK, IM_TWO_COILS, IM_other_ignition]"

definition enum_all_ignition_mode_e :: "(ignition_mode_e \<Rightarrow> bool) \<Rightarrow> bool" where
  "enum_all_ignition_mode_e P = list_all P enum_class.enum"

definition enum_ex_ignition_mode_e :: "(ignition_mode_e \<Rightarrow> bool) \<Rightarrow> bool" where
  "enum_ex_ignition_mode_e P = list_ex P enum_class.enum"

lemma ignition_mode_listed: "mode \<in> set (enum_class.enum :: ignition_mode_e list)"
  by (cases mode) (simp_all add: enum_ignition_mode_e_def)

instance
proof
  show "(UNIV :: ignition_mode_e set) = set enum_class.enum" using ignition_mode_listed by blast
  show "distinct (enum_class.enum :: ignition_mode_e list)" by (simp add: enum_ignition_mode_e_def)
  fix P :: "ignition_mode_e \<Rightarrow> bool"
  show "enum_class.enum_all P \<longleftrightarrow> Ball UNIV P"
    using ignition_mode_listed by (auto simp: enum_all_ignition_mode_e_def list_all_iff)
  show "enum_class.enum_ex P \<longleftrightarrow> Bex UNIV P"
    using ignition_mode_listed by (auto simp: enum_ex_ignition_mode_e_def list_ex_iff)
qed

end

definition INJECTION_PIN_COUNT :: int where "INJECTION_PIN_COUNT = 12"

record engine_specs =
  cylindersCount :: int
  firingOrder :: firing_order_e

definition getFiringOrderLength :: "engine_specs \<Rightarrow> int \<times> fw_error list" where
  "getFiringOrderLength specs =
     (case firingOrder specs of
        FO_1 \<Rightarrow> (1, [])
      | FO_1_2 \<Rightarrow> (2, [])
      | FO_1_2_3 \<Rightarrow> (3, [])
      | FO_1_3_4_2 \<Rightarrow> (4, []) | FO_1_2_4_3 \<Rightarrow> (4, []) | FO_1_3_2_4 \<Rightarrow> (4, []) | FO_1_4_3_2 \<Rightarrow> (4, [])
      | FO_1_2_4_5_3 \<Rightarrow> (5, [])
      | FO_1_5_3_6_2_4 \<Rightarrow> (6, []) | FO_1_4_2_5_3_6 \<Rightarrow> (6, []) | FO_1_2_3_4_5_6 \<Rightarrow> (6, []) | FO_1_6_3_2_5_4 \<Rightarrow> (6, [])
      | FO_1_8_4_3_6_5_7_2 \<Rightarrow> (8, []) | FO_1_8_7_2_6_5_4_3 \<Rightarrow> (8, []) | FO_1_5_4_2_6_3_7_8 \<Rightarrow> (8, []) | FO_1_2_7_8_4_5_6_3 \<Rightarrow> (8, [])
      | FO_1_10_9_4_3_6_5_8_7_2 \<Rightarrow> (10, [])
      | FO_1_7_5_11_3_9_6_12_2_8_4_10 \<Rightarrow> (12, []) | FO_1_7_4_10_2_8_6_12_3_9_5_11 \<Rightarrow> (12, []) | FO_1_12_5_8_3_10_6_7_2_11_4_9 \<Rightarrow> (12, [])
      | FO_other \<Rightarrow> (1, [CUSTOM_OBD_UNKNOWN_FIRING_ORDER]))"

text \<open>The arrays \<open>order_1_2\<close> and so on.\<close>

definition firing_sequence :: "firing_order_e \<Rightarrow> int list option" where
  "firing_sequence fo =
     (case fo of
        FO_1 \<Rightarrow> Some [1]
      | FO_1_2 \<Rightarrow> Some [1, 2]
      | FO_1_2_3 \<Rightarrow> Some [1, 2, 3]
      | FO_1_3_4_2 \<Rightarrow> Some [1, 3, 4, 2]
      | FO_1_2_4_3 \<Rightarrow> Some [1, 2, 4, 3]
      | FO_1_3_2_4 \<Rightarrow> Some [1, 3, 2, 4]
      | FO_1_4_3_2 \<Rightarrow> Some [1, 4, 3, 2]
      | FO_1_2_4_5_3 \<Rightarrow> Some [1, 2, 4, 5, 3]
      | FO_1_5_3_6_2_4 \<Rightarrow> Some [1, 5, 3, 6, 2, 4]
      | FO_1_4_2_5_3_6 \<Rightarrow> Some [1, 4, 2, 5, 3, 6]
      | FO_1_2_3_4_5_6 \<Rightarrow> Some [1, 2, 3, 4, 5, 6]
      | FO_1_6_3_2_5_4 \<Rightarrow> Some [1, 6, 3, 2, 5, 4]
      | FO_1_8_4_3_6_5_7_2 \<Rightarrow> Some [1, 8, 4, 3, 6, 5, 7, 2]
      | FO_1_8_7_2_6_5_4_3 \<Rightarrow> Some [1, 8, 7, 2, 6, 5, 4, 3]
      | FO_1_5_4_2_6_3_7_8 \<Rightarrow> Some [1, 5, 4, 2, 6, 3, 7, 8]
      | FO_1_2_7_8_4_5_6_3 \<Rightarrow> Some [1, 2, 7, 8, 4, 5, 6, 3]
      | FO_1_10_9_4_3_6_5_8_7_2 \<Rightarrow> Some [1, 10, 9, 4, 3, 6, 5, 8, 7, 2]
      | FO_1_7_5_11_3_9_6_12_2_8_4_10 \<Rightarrow> Some [1, 7, 5, 11, 3, 9, 6, 12, 2, 8, 4, 10]
      | FO_1_7_4_10_2_8_6_12_3_9_5_11 \<Rightarrow> Some [1, 7, 4, 10, 2, 8, 6, 12, 3, 9, 5, 11]
      | FO_1_12_5_8_3_10_6_7_2_11_4_9 \<Rightarrow> Some [1, 12, 5, 8, 3, 10, 6, 7, 2, 11, 4, 9]
      | FO_other \<Rightarrow> None)"

text \<open>The cylinder, from 1, that is \<open>index\<close>-th in the firing order, from 0.\<close>

definition getCylinderId :: "engine_specs \<Rightarrow> int \<Rightarrow> int \<times> fw_error list" where
  "getCylinderId specs index =
     (let (firingOrderLength, reports) = getFiringOrderLength specs
      in if firingOrderLength < 1 \<or> firingOrderLength > INJECTION_PIN_COUNT then (1, reports @ [CUSTOM_ERR_6687])
         else if cylindersCount specs \<noteq> firingOrderLength then (1, reports @ [CUSTOM_OBD_WRONG_FIRING_ORDER])
         else if index < 0 \<or> index \<ge> firingOrderLength then (1, reports @ [CUSTOM_ERR_6686])
         else case firing_sequence (firingOrder specs) of
                Some order \<Rightarrow> (order ! nat index, reports)
              | None \<Rightarrow> (1, reports @ [CUSTOM_OBD_UNKNOWN_FIRING_ORDER]))"

text \<open>\<open>mode\<close> is the result of \<open>getCurrentIgnitionMode\<close>. None is a division by zero.\<close>

definition getCurrentIgnitionMode :: "ignition_mode_e \<Rightarrow> bool \<Rightarrow> ignition_mode_e" where
  "getCurrentIgnitionMode configured spinningUp =
     (if configured = IM_INDIVIDUAL_COILS \<and> spinningUp then IM_WASTED_SPARK else configured)"

definition c_mod :: "int \<Rightarrow> int \<Rightarrow> int option" where
  "c_mod a b = (if b = 0 then None else Some (a - b * c_div a b))"

definition getIgnitionPinForIndex :: "engine_specs \<Rightarrow> ignition_mode_e \<Rightarrow> int \<Rightarrow> (int \<times> fw_error list) option" where
  "getIgnitionPinForIndex specs mode cylinderIndex =
     (case mode of
        IM_ONE_COIL \<Rightarrow> Some (0, [])
      | IM_WASTED_SPARK \<Rightarrow>
          if cylindersCount specs = 1 then Some (0, [])
          else map_option (\<lambda>r. (r, [])) (c_mod cylinderIndex (c_div (cylindersCount specs) 2))
      | IM_INDIVIDUAL_COILS \<Rightarrow> Some (cylinderIndex, [])
      | IM_TWO_COILS \<Rightarrow> map_option (\<lambda>r. (r, [])) (c_mod cylinderIndex 2)
      | IM_other_ignition \<Rightarrow> Some (0, [CUSTOM_OBD_IGNITION_MODE]))"

definition getNumberOfSparks :: "engine_specs \<Rightarrow> ignition_mode_e \<Rightarrow> int \<times> fw_error list" where
  "getNumberOfSparks specs mode =
     (case mode of
        IM_ONE_COIL \<Rightarrow> (cylindersCount specs, [])
      | IM_TWO_COILS \<Rightarrow> (c_div (cylindersCount specs) 2, [])
      | IM_INDIVIDUAL_COILS \<Rightarrow> (1, [])
      | IM_WASTED_SPARK \<Rightarrow> (2, [])
      | IM_other_ignition \<Rightarrow> (1, [CUSTOM_ERR_IGNITION_MODE]))"

definition getNumberOfInjections :: "engine_specs \<Rightarrow> injection_mode_e \<Rightarrow> int \<times> fw_error list" where
  "getNumberOfInjections specs mode =
     (case mode of
        IM_SIMULTANEOUS \<Rightarrow> (cylindersCount specs, [])
      | IM_SINGLE_POINT \<Rightarrow> (cylindersCount specs, [])
      | IM_BATCH \<Rightarrow> (2, [])
      | IM_SEQUENTIAL \<Rightarrow> (1, [])
      | IM_other_injection \<Rightarrow> (1, [CUSTOM_ERR_INVALID_INJECTION_MODE]))"

subsection \<open>Every cylinder once, every coil as often as counted\<close>

definition matching_specs :: "engine_specs \<Rightarrow> bool" where
  "matching_specs specs \<longleftrightarrow> firingOrder specs \<noteq> FO_other \<and> cylindersCount specs = fst (getFiringOrderLength specs)"

definition known_orders :: "firing_order_e list" where
  "known_orders = filter (\<lambda>fo. fo \<noteq> FO_other) enum_class.enum"

lemma known_orders_complete: "fo \<in> set known_orders \<longleftrightarrow> fo \<noteq> FO_other"
  using firing_order_listed by (simp add: known_orders_def)

definition specs_of :: "firing_order_e \<Rightarrow> engine_specs" where
  "specs_of fo = \<lparr>cylindersCount = fst (getFiringOrderLength \<lparr>cylindersCount = 0, firingOrder = fo\<rparr>), firingOrder = fo\<rparr>"

lemma matching_specsE:
  assumes "matching_specs specs"
  obtains fo where "fo \<in> set known_orders" "specs = specs_of fo"
proof -
  have "specs = specs_of (firingOrder specs)"
    using assms by (cases specs) (auto simp: matching_specs_def specs_of_def getFiringOrderLength_def split: firing_order_e.splits)
  with assms show ?thesis using that [of "firingOrder specs"] by (simp add: matching_specs_def known_orders_complete)
qed

lemma matching_count: "matching_specs specs \<Longrightarrow> cylindersCount specs \<in> {1, 2, 3, 4, 5, 6, 8, 10, 12}"
  by (cases "firingOrder specs") (simp_all add: matching_specs_def getFiringOrderLength_def)

lemma orders_permute:
  "list_all (\<lambda>fo. let specs = specs_of fo; cyl = map (getCylinderId specs) [0..cylindersCount specs - 1]
     in sort (map fst cyl) = [1..cylindersCount specs] \<and> list_all (\<lambda>r. snd r = []) cyl) known_orders"
  by code_simp

lemma firing_permutes:
  assumes "matching_specs specs"
  shows "mset (map (fst \<circ> getCylinderId specs) [0..cylindersCount specs - 1]) = mset [1..cylindersCount specs] \<and>
    (\<forall>i\<in>{0..<cylindersCount specs}. snd (getCylinderId specs i) = [])"
proof -
  obtain fo where fo: "fo \<in> set known_orders" "specs = specs_of fo" using assms by (rule matching_specsE)
  with orders_permute have "sort (map fst (map (getCylinderId specs) [0..cylindersCount specs - 1])) = [1..cylindersCount specs]"
    and rep: "\<forall>r\<in>set (map (getCylinderId specs) [0..cylindersCount specs - 1]). snd r = []"
    unfolding list_all_iff Let_def by auto
  then have "mset (map fst (map (getCylinderId specs) [0..cylindersCount specs - 1])) = mset [1..cylindersCount specs]"
    by (metis mset_sort)
  then show ?thesis using rep by simp
qed

text \<open>
  In every firing order whose length is the configured number of cylinders each cylinder comes exactly once per engine
  cycle, and no warning or error is reported.
\<close>

theorem firing_order_is_permutation:
  assumes "matching_specs specs"
  shows "mset (map (fst \<circ> getCylinderId specs) [0..cylindersCount specs - 1]) = mset [1..cylindersCount specs] \<and>
    (\<forall>i\<in>{0..<cylindersCount specs}. snd (getCylinderId specs i) = [])"
  by (rule firing_permutes [OF assms])

theorem firing_order_is_permutation_witness:
  "mset (map (fst \<circ> getCylinderId (specs_of FO_1_8_4_3_6_5_7_2)) [0..7]) = mset [1..8]"
  using firing_order_is_permutation [of "specs_of FO_1_8_4_3_6_5_7_2"]
  by (simp add: matching_specs_def specs_of_def getFiringOrderLength_def)

lemma getCylinderId_range:
  assumes "matching_specs specs" "0 \<le> i" "i < cylindersCount specs"
  shows "1 \<le> fst (getCylinderId specs i)" "fst (getCylinderId specs i) \<le> cylindersCount specs"
proof -
  have "fst (getCylinderId specs i) \<in># mset (map (fst \<circ> getCylinderId specs) [0..cylindersCount specs - 1])" using assms(2,3) by auto
  then have "fst (getCylinderId specs i) \<in># mset [1..cylindersCount specs]"
    unfolding firing_permutes [OF assms(1), THEN conjunct1] .
  then show "1 \<le> fst (getCylinderId specs i)" "fst (getCylinderId specs i) \<le> cylindersCount specs" by simp_all
qed

lemma getCylinderId_inj:
  assumes "matching_specs specs" "0 \<le> i" "i < cylindersCount specs" "0 \<le> j" "j < cylindersCount specs"
    and "fst (getCylinderId specs i) = fst (getCylinderId specs j)"
  shows "i = j"
proof -
  have "distinct [1..cylindersCount specs]" by simp
  then have "distinct (map (fst \<circ> getCylinderId specs) [0..cylindersCount specs - 1])"
    by (metis firing_permutes [OF assms(1)] mset_eq_imp_distinct_iff)
  then have "inj_on (fst \<circ> getCylinderId specs) {0..cylindersCount specs - 1}" by (simp add: distinct_map)
  from inj_onD [OF this, of i j] show ?thesis using assms(2-6) by simp
qed

definition coil_shared :: "engine_specs \<Rightarrow> ignition_mode_e \<Rightarrow> int \<Rightarrow> int" where
  "coil_shared specs mode i =
     int (length (filter (\<lambda>j. getIgnitionPinForIndex specs mode j = getIgnitionPinForIndex specs mode i) [0..cylindersCount specs - 1]))"

lemma coils_shared:
  "list_all (\<lambda>n. list_all (\<lambda>mode. list_all (\<lambda>i. let specs = \<lparr>cylindersCount = n, firingOrder = FO_1\<rparr> in
     coil_shared specs mode i = fst (getNumberOfSparks specs mode) \<and> getIgnitionPinForIndex specs mode i \<noteq> None)
     [0..n - 1]) (removeAll IM_other_ignition enum_class.enum)) [2, 4, 6, 8, 10, 12]"
  by code_simp

lemma coils_shared_one:
  "list_all (\<lambda>n. list_all (\<lambda>mode. list_all (\<lambda>i. let specs = \<lparr>cylindersCount = n, firingOrder = FO_1\<rparr> in
     coil_shared specs mode i = fst (getNumberOfSparks specs mode) \<and> getIgnitionPinForIndex specs mode i \<noteq> None)
     [0..n - 1]) [IM_ONE_COIL, IM_INDIVIDUAL_COILS]) [1, 3, 5]"
  by code_simp

lemma pin_count_only:
  "getIgnitionPinForIndex specs mode i = getIgnitionPinForIndex \<lparr>cylindersCount = cylindersCount specs, firingOrder = FO_1\<rparr> mode i"
  by (cases mode) (simp_all add: getIgnitionPinForIndex_def)

lemma sparks_count_only:
  "getNumberOfSparks specs mode = getNumberOfSparks \<lparr>cylindersCount = cylindersCount specs, firingOrder = FO_1\<rparr> mode"
  by (cases mode) (simp_all add: getNumberOfSparks_def)

lemma shared_count_only:
  "coil_shared specs mode i = coil_shared \<lparr>cylindersCount = cylindersCount specs, firingOrder = FO_1\<rparr> mode i"
  by (simp add: coil_shared_def pin_count_only [of specs, symmetric])

text \<open>
  The number of sparks that the duty cycle of a coil is computed with is the number of cylinders the coil really serves. In
  the wasted spark mode and with two coils this needs an even number of cylinders.
\<close>

theorem sparks_per_coil:
  assumes "matching_specs specs" "mode \<noteq> IM_other_ignition" "even (cylindersCount specs) \<or> mode = IM_ONE_COIL \<or> mode = IM_INDIVIDUAL_COILS"
    and "0 \<le> i" "i < cylindersCount specs"
  shows "coil_shared specs mode i = fst (getNumberOfSparks specs mode) \<and> getIgnitionPinForIndex specs mode i \<noteq> None"
proof -
  have "cylindersCount specs \<in> {1, 2, 3, 4, 5, 6, 8, 10, 12}" by (rule matching_count [OF assms(1)])
  then consider (even) "cylindersCount specs \<in> set [2, 4, 6, 8, 10, 12]" | (odd) "cylindersCount specs \<in> set [1, 3, 5]" by auto
  then show ?thesis
  proof cases
    case even
    have "mode \<in> set (removeAll IM_other_ignition enum_class.enum)" using assms(2) ignition_mode_listed by simp
    moreover have "i \<in> set [0..cylindersCount specs - 1]" using assms(4,5) by simp
    ultimately show ?thesis
      using coils_shared even unfolding list_all_iff Let_def pin_count_only [of specs mode i] sparks_count_only [of specs mode] shared_count_only [of specs mode i] by blast
  next
    case odd
    then have "mode \<in> set [IM_ONE_COIL, IM_INDIVIDUAL_COILS]" using assms(3) by auto
    moreover have "i \<in> set [0..cylindersCount specs - 1]" using assms(4,5) by simp
    ultimately show ?thesis
      using coils_shared_one odd unfolding list_all_iff Let_def pin_count_only [of specs mode i] sparks_count_only [of specs mode] shared_count_only [of specs mode i] by blast
  qed
qed

theorem sparks_per_coil_witness:
  "coil_shared (specs_of FO_1_5_3_6_2_4) IM_WASTED_SPARK 4 = 2"
  using sparks_per_coil [of "specs_of FO_1_5_3_6_2_4" IM_WASTED_SPARK 4]
  by (simp add: matching_specs_def specs_of_def getFiringOrderLength_def getNumberOfSparks_def)

text \<open>With three cylinders the wasted spark mode drives a single coil, three times per cycle.\<close>

lemma three_cylinders_share_coil: "coil_shared (specs_of FO_1_2_3) IM_WASTED_SPARK 0 = 3 \<and> fst (getNumberOfSparks (specs_of FO_1_2_3) IM_WASTED_SPARK) = 2"
  by code_simp

end
