(* ===== verification/Tooth_Events.thy ===== *)
theory Tooth_Events
  imports Executor Output_Pins Trigger_Central Cylinders
begin

text \<open>
  Scheduling by crank angle: \<open>event_trigger_position_s::setAngle\<close> (src/firmware/controllers/trigger/decoders/
  trigger_structure.cpp), \<open>scheduleByAngle\<close> (controllers/engine_cycle/rpm_calculator.cpp) and the list of the events that wait
  for a tooth of the trigger wheel (controllers/engine_cycle/spark_logic.cpp). The state extends that of the executor, so an
  action the executor runs sees all of it. An \<open>AngleBasedEvent\<close> is known by a number; the list through \<open>nextToothEvent\<close>
  is the list of the numbers. The executor itself is the parameter \<open>sched\<close>.
\<close>

record AngleBasedEvent =
  abe_timer :: addr
  abe_position :: event_trigger_position_s
  abe_action :: action_s

record outputs = executor +
  ec :: central
  triggerShape :: trigger_waveform
  angleEvents :: "nat \<Rightarrow> AngleBasedEvent"
  angleBasedEvents :: "nat list"

record output_config =
  oc_fl :: rounding
  oc_central :: central_config
  oc_specs :: engine_specs

type_synonym 'w sched = "addr \<Rightarrow> int \<Rightarrow> action_s \<Rightarrow> 'w outputs_scheme \<Rightarrow> 'w outputs_scheme option"

definition assertAngle :: "fw_error \<Rightarrow> float32 \<Rightarrow> 'w event_queue_scheme \<Rightarrow> float32 \<times> 'w event_queue_scheme" where
  "assertAngle code angle e =
     (if angle > 10000000 \<or> angle < -10000000 then (0, firmwareError code e) else (angle, e))"

text \<open>What \<open>findTriggerPosition\<close> reports.\<close>

definition position_reports ::
    "rounding \<Rightarrow> trigger_waveform \<Rightarrow> float32 option \<Rightarrow> float32 option \<Rightarrow> 'w event_queue_scheme \<Rightarrow> 'w event_queue_scheme" where
  "position_reports fl shape angle goff e =
     (case angle of
        None \<Rightarrow> firmwareError CUSTOM_ERR_6574 e
      | Some a \<Rightarrow>
          let e = snd (assertAngle CUSTOM_ERR_6545 a e)
          in case tdcPosition shape of
               None \<Rightarrow> firmwareError CUSTOM_ERR_6575 e
             | Some tdc \<Rightarrow>
                 let e = snd (assertAngle CUSTOM_UNEXPECTED_TDC_ANGLE tdc e)
                 in case goff of
                      None \<Rightarrow> firmwareError CUSTOM_INVALID_GLOBAL_OFFSET e
                    | Some g \<Rightarrow>
                        let e = snd (assertAngle CUSTOM_INVALID_GLOBAL_OFFSET g e)
                        in if findTriggerPosition fl shape angle goff = Some None
                           then warning CUSTOM_OBD_ANGLE_CONSTRAINT_VIOLATION e else e)"

text \<open>None: the angle cannot be brought into the engine cycle.\<close>

definition setAngle ::
    "'c output_config_scheme \<Rightarrow> float32 option \<Rightarrow> event_trigger_position_s \<Rightarrow> 'w outputs_scheme \<Rightarrow>
     (event_trigger_position_s \<times> 'w outputs_scheme) option" where
  "setAngle oc angle p e =
     (let goff = Some (globalTriggerAngleOffset (oc_central oc))
      in case findTriggerPosition (oc_fl oc) (triggerShape e) angle goff of
           None \<Rightarrow> None
         | Some found \<Rightarrow>
             Some (case found of None \<Rightarrow> p | Some q \<Rightarrow> q, position_reports (oc_fl oc) (triggerShape e) angle goff e))"

text \<open>None: the time of one degree is not known (NaN), its conversion to an integer is not defined.\<close>

definition scheduleByAngle ::
    "'c output_config_scheme \<Rightarrow> 'w sched \<Rightarrow> addr \<Rightarrow> int \<Rightarrow> float32 \<Rightarrow> action_s \<Rightarrow> 'w outputs_scheme \<Rightarrow> (int \<times> 'w outputs_scheme) option" where
  "scheduleByAngle oc sched timer edgeTimestamp angle act e =
     (case oneDegreeUs (ec e) of
        None \<Rightarrow> None
      | Some d \<Rightarrow>
          let delayUs = oc_fl oc (d * angle);
              delayedTime = edgeTimestamp + US2NT e (c_trunc delayUs)
          in case sched timer delayedTime act e of None \<Rightarrow> None | Some e \<Rightarrow> Some (delayedTime, e))"

subsection \<open>The list of events that wait for a tooth\<close>

fun inToothList :: "nat list \<Rightarrow> nat \<Rightarrow> nat \<Rightarrow> fw_error option \<times> bool" where
  "inToothList [] el n = (None, False)"
| "inToothList (x # xs) el 0 = (Some CUSTOM_ERR_LOOPED_QUEUE, False)"
| "inToothList (x # xs) el (Suc n) =
     (if x = el then (Some CUSTOM_RE_ADDING_INTO_EXECUTION_QUEUE, True) else inToothList xs el n)"

definition assertNotInIgnitionList :: "nat \<Rightarrow> 'w outputs_scheme \<Rightarrow> bool \<times> 'w outputs_scheme" where
  "assertNotInIgnitionList el e =
     (case inToothList (angleBasedEvents e) el QUEUE_LENGTH_LIMIT of
        (None, r) \<Rightarrow> (r, e)
      | (Some code, True) \<Rightarrow> (True, warning code e)
      | (Some code, False) \<Rightarrow> (False, firmwareError code e))"

definition set_event :: "nat \<Rightarrow> AngleBasedEvent \<Rightarrow> 'w outputs_scheme \<Rightarrow> 'w outputs_scheme" where
  "set_event i v e = e\<lparr>angleEvents := (angleEvents e)(i := v)\<rparr>"

text \<open>\<open>trgEventIndex\<close> None is \<open>TRIGGER_EVENT_UNDEFINED\<close>.\<close>

definition scheduleOrQueue ::
    "'c output_config_scheme \<Rightarrow> 'w sched \<Rightarrow> nat \<Rightarrow> int option \<Rightarrow> int \<Rightarrow> float32 option \<Rightarrow> action_s \<Rightarrow> 'w outputs_scheme \<Rightarrow>
     (bool \<times> 'w outputs_scheme) option" where
  "scheduleOrQueue oc sched i trgEventIndex edgeTimestamp angle act e =
     (case setAngle oc angle (abe_position (angleEvents e i)) e of
        None \<Rightarrow> None
      | Some (p, e) \<Rightarrow>
          let event = (angleEvents e i)\<lparr>abe_position := p\<rparr>;
              e = set_event i event e
          in if trgEventIndex \<noteq> None \<and> trgEventIndex = Some (triggerEventIndex p)
             then (case scheduleByAngle oc sched (abe_timer event) edgeTimestamp (angleOffsetFromTriggerEvent p) act e of
                     None \<Rightarrow> None
                   | Some (t, e) \<Rightarrow> Some (True, e))
             else
               let e = set_event i (event\<lparr>abe_action := act\<rparr>) e;
                   (isPending, e) = assertNotInIgnitionList i e
               in Some (False, if isPending then e else e\<lparr>angleBasedEvents := angleBasedEvents e @ [i]\<rparr>))"

text \<open>The successor of an event in the list.\<close>

fun nextToothEvent :: "nat \<Rightarrow> nat list \<Rightarrow> nat option" where
  "nextToothEvent c [] = None"
| "nextToothEvent c (x # xs) =
     (if x = c then (case xs of [] \<Rightarrow> None | y # _ \<Rightarrow> Some y) else nextToothEvent c xs)"

text \<open>The successor is read before the event is removed and scheduled.\<close>

partial_function (option) scheduleAll_loop ::
    "'c output_config_scheme \<Rightarrow> 'w sched \<Rightarrow> int \<Rightarrow> int \<Rightarrow> nat option \<Rightarrow> 'w outputs_scheme \<Rightarrow> 'w outputs_scheme option" where
  "scheduleAll_loop oc sched trgEventIndex edgeTimestamp current e =
     (case current of
        None \<Rightarrow> Some e
      | Some c \<Rightarrow>
          let tmp = nextToothEvent c (angleBasedEvents e); event = angleEvents e c
          in if triggerEventIndex (abe_position event) = trgEventIndex then
               (case scheduleByAngle oc sched (abe_timer event) edgeTimestamp (angleOffsetFromTriggerEvent (abe_position event))
                       (abe_action event) (e\<lparr>angleBasedEvents := remove1 c (angleBasedEvents e)\<rparr>) of
                  None \<Rightarrow> None
                | Some r \<Rightarrow> scheduleAll_loop oc sched trgEventIndex edgeTimestamp tmp (snd r))
             else scheduleAll_loop oc sched trgEventIndex edgeTimestamp tmp e)"

definition scheduleAllSparkEventsUntilNextTriggerTooth ::
    "'c output_config_scheme \<Rightarrow> 'w sched \<Rightarrow> int \<Rightarrow> int \<Rightarrow> 'w outputs_scheme \<Rightarrow> 'w outputs_scheme option" where
  "scheduleAllSparkEventsUntilNextTriggerTooth oc sched trgEventIndex edgeTimestamp e =
     scheduleAll_loop oc sched trgEventIndex edgeTimestamp
       (case angleBasedEvents e of [] \<Rightarrow> None | c # _ \<Rightarrow> Some c) e"

end
