(* ===== verification/Spark_Logic.thy ===== *)
theory Spark_Logic
  imports Tooth_Events
begin

text \<open>
  Ignition, src/firmware/controllers/engine_cycle/spark_logic.cpp, with the events of controllers/algo/event_registry.h and the
  pin indices of controllers/math/engine_math.cpp. An output is known by its number in \<open>enginePins.coils\<close>, an event by its
  number in \<open>engine->ignitionEvents\<close>. A \<open>float\<close> that may be NaN is an option. The executor is the parameter \<open>sched\<close>;
  \<open>spark_runner\<close> is what it runs.
\<close>

record IgnitionOutputPin =
  coil_pin :: OutputPin
  signalFallSparkId :: int
  outOfOrder :: bool

definition IgnitionOutputPin_reset :: "IgnitionOutputPin \<Rightarrow> IgnitionOutputPin" where
  "IgnitionOutputPin_reset out = out\<lparr>outOfOrder := False, signalFallSparkId := 0\<rparr>"

text \<open>\<open>ie_spark\<close> is the number of the \<open>AngleBasedEvent\<close> \<open>sparkEvent\<close>, \<open>ie_dwellTimer\<close> the address of \<open>dwellStartTimer\<close>.\<close>

record IgnitionEvent =
  ie_outputs :: "nat option list"
  ie_dwellTimer :: addr
  ie_spark :: nat
  sparksRemaining :: nat
  sparkAngle :: "float32 option"
  ie_sparkDwell :: "float32 option"
  actualStartOfDwellNt :: u32
  dwellPosition :: event_trigger_position_s
  sparkId :: int
  cylinderIndex :: nat

record spark = outputs +
  coils :: "IgnitionOutputPin list"
  dizzyOutput :: OutputPin
  ignitionEvents :: "IgnitionEvent list"
  ignition_isReady :: bool
  ignitionErrorDetection :: cyclic_buffer
  prevSparkName :: "nat option"
  globalSparkIdCounter :: int
  ignitionPin :: "int list"
  ignitionPositionWithinEngineCycle :: "float32 list"
  ignitionModeForPinIndices :: "ignition_mode_e option"
  timingAdvance :: "float32 option"
  dwellAngle :: "float32 option"
  sparkDwell :: "float32 option"
  multispark_delay :: int
  multispark_dwell :: int
  multispark_count :: nat
  pin_log :: "pin_io list"

record spark_config = output_config +
  isIgnitionEnabled :: bool
  oc_ignitionMode :: ignition_mode_e
  dizzyAssigned :: bool
  twoWireBatchIgnition :: bool
  sc_cranking_rpm :: int
  timing_offset_cylinder :: "float32 option list"

definition report :: "fw_error \<Rightarrow> 'w event_queue_scheme \<Rightarrow> 'w event_queue_scheme" where
  "report code e =
     (if code \<in> {CUSTOM_ERR_6687, CUSTOM_ERR_IGNITION_MODE, CUSTOM_ERR_INVALID_INJECTION_MODE} then firmwareError code e
      else warning code e)"

definition isIgnitionTimingError :: "'w spark_scheme \<Rightarrow> bool" where
  "isIgnitionTimingError e = (cb_sum 6 (ignitionErrorDetection e) > 4)"

definition currentIgnitionMode :: "'c spark_config_scheme \<Rightarrow> 'w spark_scheme \<Rightarrow> ignition_mode_e" where
  "currentIgnitionMode cfg e = getCurrentIgnitionMode (oc_ignitionMode cfg) (isSpinningUp (ec e))"

definition engine_operation_mode :: "'c spark_config_scheme \<Rightarrow> 'w spark_scheme \<Rightarrow> operation_mode_e" where
  "engine_operation_mode cfg e = getOperationMode (oc_central cfg) (triggerShape e)"

definition set_ignition_event :: "nat \<Rightarrow> IgnitionEvent \<Rightarrow> 'w spark_scheme \<Rightarrow> 'w spark_scheme" where
  "set_ignition_event i v e = e\<lparr>ignitionEvents := (ignitionEvents e)[i := v]\<rparr>"

subsection \<open>The coil\<close>

definition set_coil :: "nat \<Rightarrow> int \<Rightarrow> 'w spark_scheme \<Rightarrow> 'w spark_scheme" where
  "set_coil c v e =
     (case setValue v (coil_pin (coils e ! c)) of
        (p, io) \<Rightarrow> e\<lparr>coils := (coils e)[c := (coils e ! c)\<lparr>coil_pin := p\<rparr>], pin_log := pin_log e @ io\<rparr>)"

definition set_dizzy :: "'c spark_config_scheme \<Rightarrow> int \<Rightarrow> 'w spark_scheme \<Rightarrow> 'w spark_scheme" where
  "set_dizzy cfg v e =
     (if dizzyAssigned cfg
      then case setValue v (dizzyOutput e) of (p, io) \<Rightarrow> e\<lparr>dizzyOutput := p, pin_log := pin_log e @ io\<rparr>
      else e)"

definition fireSparkBySettingPinLow :: "'c spark_config_scheme \<Rightarrow> nat \<Rightarrow> nat \<Rightarrow> 'w spark_scheme \<Rightarrow> 'w spark_scheme" where
  "fireSparkBySettingPinLow cfg i c e =
     (let e = e\<lparr>coils := (coils e)[c := (coils e ! c)\<lparr>signalFallSparkId := sparkId (ignitionEvents e ! i)\<rparr>]\<rparr>;
          e = (if currentLogicValue (coil_pin (coils e ! c)) = 0
               then warning CUSTOM_OUT_OF_ORDER_COIL (e\<lparr>coils := (coils e)[c := (coils e ! c)\<lparr>outOfOrder := True\<rparr>]\<rparr>)
               else e)
      in set_dizzy cfg 0 (set_coil c 0 e))"

definition startDwellByTurningSparkPinHigh :: "'c spark_config_scheme \<Rightarrow> nat \<Rightarrow> nat \<Rightarrow> 'w spark_scheme \<Rightarrow> 'w spark_scheme" where
  "startDwellByTurningSparkPinHigh cfg i c e =
     (let e = (if rpmValue (ec e) > 2 * sc_cranking_rpm cfg
               then (if prevSparkName e = Some c \<and> currentIgnitionMode cfg e \<noteq> IM_ONE_COIL then warning CUSTOM_OBD_SKIPPED_SPARK e else e)
                      \<lparr>prevSparkName := Some c\<rparr>
               else e)
      in if outOfOrder (coils e ! c) then
           let e = e\<lparr>coils := (coils e)[c := (coils e ! c)\<lparr>outOfOrder := False\<rparr>]\<rparr>
           in if signalFallSparkId (coils e ! c) = sparkId (ignitionEvents e ! i) then e
              else set_dizzy cfg 1 (set_coil c 1 e)
         else set_dizzy cfg 1 (set_coil c 1 e))"

text \<open>The loop over \<open>event->outputs\<close>.\<close>

fun for_outputs :: "(nat \<Rightarrow> 'w spark_scheme \<Rightarrow> 'w spark_scheme) \<Rightarrow> nat option list \<Rightarrow> 'w spark_scheme \<Rightarrow> 'w spark_scheme" where
  "for_outputs f [] e = e"
| "for_outputs f (None # os) e = for_outputs f os e"
| "for_outputs f (Some c # os) e = for_outputs f os (f c e)"

definition turnSparkPinHigh :: "'c spark_config_scheme \<Rightarrow> nat \<Rightarrow> 'w spark_scheme \<Rightarrow> 'w spark_scheme" where
  "turnSparkPinHigh cfg i e =
     (let (nowNt, e) = Executor.getTimeNowNt e;
          e = set_ignition_event i ((ignitionEvents e ! i)\<lparr>actualStartOfDwellNt := word_of_int nowNt\<rparr>) e
      in for_outputs (startDwellByTurningSparkPinHigh cfg i) (ie_outputs (ignitionEvents e ! i)) e)"

subsection \<open>Planning the next spark of a cylinder\<close>

definition assertPinAssigned :: "nat \<Rightarrow> 'w spark_scheme \<Rightarrow> 'w spark_scheme" where
  "assertPinAssigned c e =
     (if isInitialized (coil_pin (coils e ! c)) then e else warning CUSTOM_OBD_COIL_PIN_NOT_ASSIGNED e)"

definition coil_of_index :: "'c spark_config_scheme \<Rightarrow> int \<Rightarrow> 'w spark_scheme \<Rightarrow> nat \<times> 'w spark_scheme" where
  "coil_of_index cfg index e =
     (case getCylinderId (oc_specs cfg) index of (cylinderId, codes) \<Rightarrow> (nat (cylinderId - 1), fold report codes e))"

definition sum_angle :: "rounding \<Rightarrow> float32 option \<Rightarrow> float32 option \<Rightarrow> float32 option" where
  "sum_angle fl x y = (case (x, y) of (Some a, Some b) \<Rightarrow> Some (fl (a + b)) | _ \<Rightarrow> None)"

definition prepareCylinderIgnitionSchedule ::
    "'c spark_config_scheme \<Rightarrow> float32 option \<Rightarrow> float32 option \<Rightarrow> nat \<Rightarrow> 'w spark_scheme \<Rightarrow> 'w spark_scheme option" where
  "prepareCylinderIgnitionSchedule cfg dwellAngleDuration dwellMs i e =
     (let fl = oc_fl cfg;
          e = set_ignition_event i ((ignitionEvents e ! i)\<lparr>ie_sparkDwell := dwellMs\<rparr>) e;
          cyl = cylinderIndex (ignitionEvents e ! i);
          (position, e) = assertAngle CUSTOM_ERR_6566 (ignitionPositionWithinEngineCycle e ! cyl) e;
          angle = sum_angle fl (sum_angle fl (map_option uminus (timingAdvance e)) (Some position)) (timing_offset_cylinder cfg ! cyl)
      in if angle = None then Some (firmwareError CUSTOM_SPARK_ANGLE_9 e)
         else
           let index = ignitionPin e ! cyl;
               (coilIndex, e) = coil_of_index cfg index e;
               (secondOutput, e) =
                 (if currentIgnitionMode cfg e = IM_WASTED_SPARK \<and> twoWireBatchIgnition cfg then
                    let (second, e) = coil_of_index cfg (index + c_div (cylindersCount (oc_specs cfg)) 2) e
                    in (Some second, assertPinAssigned second e)
                  else (None, e));
               e = assertPinAssigned coilIndex e;
               e = set_ignition_event i ((ignitionEvents e ! i)\<lparr>ie_outputs := [Some coilIndex, secondOutput], sparkAngle := angle\<rparr>) e
           in case sum_angle fl angle (map_option uminus dwellAngleDuration) of
                None \<Rightarrow> Some (firmwareError CUSTOM_ERR_6590 e)
              | Some dwellStartAngle \<Rightarrow>
                  let (dwellStartAngle, e) = assertAngle CUSTOM_ERR_6550 dwellStartAngle e
                  in (case setAngle cfg (Some dwellStartAngle) (dwellPosition (ignitionEvents e ! i)) e of
                        None \<Rightarrow> None
                      | Some (p, e) \<Rightarrow> Some (set_ignition_event i ((ignitionEvents e ! i)\<lparr>dwellPosition := p\<rparr>) e)))"

subsection \<open>Firing\<close>

definition TURN_SPARK_PIN_HIGH :: nat where "TURN_SPARK_PIN_HIGH = 1"
definition FIRE_SPARK :: nat where "FIRE_SPARK = 2"

definition dwell_action :: "nat \<Rightarrow> action_s" where
  "dwell_action i = \<lparr>callback = Some TURN_SPARK_PIN_HIGH, param = i\<rparr>"

definition fire_action :: "nat \<Rightarrow> action_s" where
  "fire_action i = \<lparr>callback = Some FIRE_SPARK, param = i\<rparr>"

definition spark_timer :: "nat \<Rightarrow> 'w spark_scheme \<Rightarrow> addr" where
  "spark_timer i e = abe_timer (angleEvents e (ie_spark (ignitionEvents e ! i)))"

definition fireSparkAndPrepareNextSchedule ::
    "'c spark_config_scheme \<Rightarrow> 'w spark_ext sched \<Rightarrow> nat \<Rightarrow> 'w spark_scheme \<Rightarrow> 'w spark_scheme option" where
  "fireSparkAndPrepareNextSchedule cfg sched i e =
     (let e = for_outputs (fireSparkBySettingPinLow cfg i) (ie_outputs (ignitionEvents e ! i)) e
      in if dwellAngle e = None \<or> sparkDwell e = None then Some e
         else if sparksRemaining (ignitionEvents e ! i) > 0 then
           let e = set_ignition_event i ((ignitionEvents e ! i)\<lparr>sparksRemaining := sparksRemaining (ignitionEvents e ! i) - 1\<rparr>) e;
               (nowNt, e) = Executor.getTimeNowNt e;
               nextDwellStart = nowNt + multispark_delay e;
               nextFiring = nextDwellStart + multispark_dwell e
           in (case sched (ie_dwellTimer (ignitionEvents e ! i)) nextDwellStart (dwell_action i) e of
                 None \<Rightarrow> None
               | Some e \<Rightarrow> sched (spark_timer i e) nextFiring (fire_action i) e)
         else prepareCylinderIgnitionSchedule cfg (dwellAngle e) (sparkDwell e) i e)"

text \<open>What the executor runs. Inside the executor the re-entrance flag is up, so the inner executor runs nothing.\<close>

definition spark_runner :: "gpt_driver \<Rightarrow> 'c spark_config_scheme \<Rightarrow> 'w spark_ext outputs_ext runner" where
  "spark_runner gpt cfg act e =
     (if callback act = Some TURN_SPARK_PIN_HIGH then turnSparkPinHigh cfg (param act) e
      else if callback act = Some FIRE_SPARK then
        (case fireSparkAndPrepareNextSchedule cfg (scheduleByTimestampNt gpt (\<lambda>_ e. e)) (param act) e of
           None \<Rightarrow> e | Some e \<Rightarrow> e)
      else e)"

subsection \<open>The plan of the engine cycle\<close>

fun for_cylinders :: "(nat \<Rightarrow> 'w \<Rightarrow> 'w option) \<Rightarrow> nat list \<Rightarrow> 'w \<Rightarrow> 'w option" where
  "for_cylinders f [] e = Some e"
| "for_cylinders f (i # is) e = (case f i e of None \<Rightarrow> None | Some e \<Rightarrow> for_cylinders f is e)"

definition cylinder_range :: "'c output_config_scheme \<Rightarrow> nat list" where
  "cylinder_range cfg = [0..<nat (cylindersCount (oc_specs cfg))]"

definition initializeIgnitionActions :: "'c spark_config_scheme \<Rightarrow> 'w spark_scheme \<Rightarrow> 'w spark_scheme option" where
  "initializeIgnitionActions cfg e =
     (if timingAdvance e = None \<or> dwellAngle e = None then Some (e\<lparr>ignition_isReady := False\<rparr>)
      else if \<not> cylindersCount (oc_specs cfg) > 0 then Some (firmwareError CUSTOM_ERR_6592 e)
      else
        (case for_cylinders (\<lambda>i e'. prepareCylinderIgnitionSchedule cfg (dwellAngle e) (sparkDwell e) i
                 (set_ignition_event i ((ignitionEvents e' ! i)\<lparr>cylinderIndex := i\<rparr>) e')) (cylinder_range cfg) e of
           None \<Rightarrow> None
         | Some e \<Rightarrow> Some (e\<lparr>ignition_isReady := True\<rparr>)))"

text \<open>The longest dwell that is not warned about; None is infinity, the quotient by zero cylinders.\<close>

definition maxAllowedDwellAngle :: "'c spark_config_scheme \<Rightarrow> 'w spark_scheme \<Rightarrow> float32 option" where
  "maxAllowedDwellAngle cfg e =
     (let fl = oc_fl cfg; cycle = getEngineCycle (engine_operation_mode cfg e); n = cylindersCount (oc_specs cfg)
      in if currentIgnitionMode cfg e = IM_ONE_COIL
         then (if n = 0 then None else Some (fl (fl (of_nat cycle / of_int n) / (11 / 10))))
         else Some (of_nat (cycle div 2)))"

definition prepareIgnitionSchedule :: "'c spark_config_scheme \<Rightarrow> 'w spark_scheme \<Rightarrow> 'w spark_scheme option" where
  "prepareIgnitionSchedule cfg e =
     (let e = (if dwellAngle e = Some 0 then warning CUSTOM_ZERO_DWELL e else e);
          e = (case (dwellAngle e, maxAllowedDwellAngle cfg e) of
                 (Some d, Some m) \<Rightarrow> if d > m then warning CUSTOM_DWELL_TOO_LONG e else e
               | _ \<Rightarrow> e)
      in initializeIgnitionActions cfg e)"

subsection \<open>A tooth of the trigger wheel\<close>

definition handleSparkEvent ::
    "'c spark_config_scheme \<Rightarrow> 'w spark_ext sched \<Rightarrow> bool \<Rightarrow> int \<Rightarrow> nat \<Rightarrow> int \<Rightarrow> 'w spark_scheme \<Rightarrow> 'w spark_scheme option" where
  "handleSparkEvent cfg sched limitedSpark trgEventIndex i edgeTimestamp e =
     (let fl = oc_fl cfg; event = ignitionEvents e ! i
      in case sparkDwell e of
           None \<Rightarrow> Some (warning CUSTOM_DWELL e)
         | Some dwellMs \<Rightarrow>
             if dwellMs \<le> 0 then Some (warning CUSTOM_DWELL e)
             else
               (case sparkAngle event of
                  None \<Rightarrow> Some (warning CUSTOM_ERR_6688 e)
                | Some angle \<Rightarrow>
                    let chargeDelayUs = map_option (\<lambda>d. fl (d * angleOffsetFromTriggerEvent (dwellPosition event))) (oneDegreeUs (ec e));
                        isIgnitionError = (case chargeDelayUs of None \<Rightarrow> False | Some us \<Rightarrow> us < 0);
                        e = e\<lparr>ignitionErrorDetection := cb_add (of_bool isIgnitionError) (ignitionErrorDetection e)\<rparr>
                    in if isIgnitionError then Some e
                       else
                         let e = set_ignition_event i (event\<lparr>sparkId := globalSparkIdCounter e\<rparr>)
                                   (e\<lparr>globalSparkIdCounter := to_i32 (globalSparkIdCounter e + 1)\<rparr>);
                             planned =
                               (if \<not> limitedSpark then
                                  (case chargeDelayUs of
                                     None \<Rightarrow> None
                                   | Some us \<Rightarrow>
                                       map_option (\<lambda>e. set_ignition_event i ((ignitionEvents e ! i)\<lparr>sparksRemaining := multispark_count e\<rparr>) e)
                                         (sched (ie_dwellTimer event) (edgeTimestamp + US2NT e (c_trunc us)) (dwell_action i) e))
                                else Some (set_ignition_event i ((ignitionEvents e ! i)\<lparr>sparksRemaining := 0\<rparr>) e))
                         in (case planned of
                               None \<Rightarrow> None
                             | Some e \<Rightarrow>
                                 let (angle, e) = assertAngle CUSTOM_ERR_6549 angle e
                                 in map_option snd
                                      (scheduleOrQueue cfg sched (ie_spark event) (Some trgEventIndex) edgeTimestamp (Some angle)
                                         (fire_action i) e))))"

definition handle_cylinder ::
    "'c spark_config_scheme \<Rightarrow> 'w spark_ext sched \<Rightarrow> bool \<Rightarrow> int \<Rightarrow> int \<Rightarrow> nat \<Rightarrow> 'w spark_scheme \<Rightarrow> 'w spark_scheme option" where
  "handle_cylinder cfg sched limitedSpark trgEventIndex edgeTimestamp i e =
     (if triggerEventIndex (dwellPosition (ignitionEvents e ! i)) \<noteq> trgEventIndex then Some e
      else handleSparkEvent cfg sched limitedSpark trgEventIndex i edgeTimestamp e)"

definition onTriggerEventSparkLogic ::
    "'c spark_config_scheme \<Rightarrow> 'w spark_ext sched \<Rightarrow> bool \<Rightarrow> int \<Rightarrow> int \<Rightarrow> int \<Rightarrow> 'w spark_scheme \<Rightarrow> 'w spark_scheme option" where
  "onTriggerEventSparkLogic cfg sched limitedSpark trgEventIndex rpm edgeTimestamp e =
     (if \<not> isValidRpm rpm \<or> \<not> isIgnitionEnabled cfg then Some e
      else
        (case (if ignition_isReady e then Some e else prepareIgnitionSchedule cfg e) of
           None \<Rightarrow> None
         | Some e \<Rightarrow>
             (case scheduleAllSparkEventsUntilNextTriggerTooth cfg sched trgEventIndex edgeTimestamp e of
                None \<Rightarrow> None
              | Some e \<Rightarrow>
                  if ignition_isReady e
                  then for_cylinders (handle_cylinder cfg sched limitedSpark trgEventIndex edgeTimestamp) (cylinder_range cfg) e
                  else Some e)))"

text \<open>\<open>getCoilDutyCycle\<close>, in percent; None is NaN.\<close>

definition getCrankshaftRevolutionTimeMs :: "rounding \<Rightarrow> int \<Rightarrow> float32 option" where
  "getCrankshaftRevolutionTimeMs fl rpm =
     (if rpm = 0 then None else Some (fl (360 * fl (fl (fl (1000 * 60) / 360) / fl (of_int rpm)))))"

definition getEngineCycleDuration :: "'c spark_config_scheme \<Rightarrow> int \<Rightarrow> 'w spark_scheme \<Rightarrow> float32 option" where
  "getEngineCycleDuration cfg rpm e =
     map_option (\<lambda>ms. oc_fl cfg (ms * (if engine_operation_mode cfg e = TWO_STROKE then 1 else 2)))
       (getCrankshaftRevolutionTimeMs (oc_fl cfg) rpm)"

definition getCoilDutyCycle :: "'c spark_config_scheme \<Rightarrow> int \<Rightarrow> 'w spark_scheme \<Rightarrow> float32 option" where
  "getCoilDutyCycle cfg rpm e =
     (let fl = oc_fl cfg; sparks = fst (getNumberOfSparks (oc_specs cfg) (currentIgnitionMode cfg e))
      in case (sparkDwell e, getEngineCycleDuration cfg rpm e) of
           (Some dwell, Some duration) \<Rightarrow> Some (fl (fl (100 * fl (dwell * of_int sparks)) / duration))
         | _ \<Rightarrow> None)"

subsection \<open>Pin indices\<close>

text \<open>More than 12 cylinders would be written beyond the array. None is a division by zero.\<close>

definition prepareIgnitionPinIndices :: "'c spark_config_scheme \<Rightarrow> ignition_mode_e \<Rightarrow> 'w spark_scheme \<Rightarrow> 'w spark_scheme option" where
  "prepareIgnitionPinIndices cfg mode e =
     (if Some mode \<noteq> ignitionModeForPinIndices e then
        (case for_cylinders (\<lambda>i e. case getIgnitionPinForIndex (oc_specs cfg) (currentIgnitionMode cfg e) (int i) of
                  None \<Rightarrow> None
                | Some (pin, codes) \<Rightarrow> Some (fold report codes (e\<lparr>ignitionPin := (ignitionPin e)[i := pin]\<rparr>)))
                (cylinder_range cfg) e of
           None \<Rightarrow> None
         | Some e \<Rightarrow> Some (e\<lparr>ignitionModeForPinIndices := Some mode\<rparr>))
      else Some e)"

definition setPosition :: "'c spark_config_scheme \<Rightarrow> nat \<Rightarrow> 'w spark_scheme \<Rightarrow> 'w spark_scheme" where
  "setPosition cfg i e =
     (let fl = oc_fl cfg
      in e\<lparr>ignitionPositionWithinEngineCycle := (ignitionPositionWithinEngineCycle e)
             [i := fl (fl (of_nat (engineCycle (ec e)) * of_nat i) / of_int (cylindersCount (oc_specs cfg)))]\<rparr>)"

text \<open>The maxima of the timing tables that the function computes as well are not used.\<close>

definition prepareOutputSignals :: "'c spark_config_scheme \<Rightarrow> 'w spark_scheme \<Rightarrow> 'w spark_scheme option" where
  "prepareOutputSignals cfg e =
     (let e = e\<lparr>ec := (ec e)\<lparr>engineCycle := getEngineCycle (engine_operation_mode cfg e)\<rparr>\<rparr>;
          e = fold (setPosition cfg) (cylinder_range cfg) e
      in case prepareIgnitionPinIndices cfg (oc_ignitionMode cfg) e of
           None \<Rightarrow> None
         | Some e \<Rightarrow> map_option (\<lambda>shape. e\<lparr>triggerShape := shape\<rparr>) (prepareShape (triggerShape e)))"

end
