(* ===== verification/Spark_Safety.thy ===== *)
theory Spark_Safety
  imports Spark_Logic
begin

text \<open>
  A coil is not left charging: what the two edges of a spark do to their coils, in either order, and what two overlapping sparks
  on one coil can do.
\<close>

subsection \<open>The edges as operations of a coil\<close>

definition drive :: "int \<Rightarrow> IgnitionOutputPin \<Rightarrow> IgnitionOutputPin" where
  "drive v out = out\<lparr>coil_pin := fst (setValue v (coil_pin out))\<rparr>"

definition charge_coil :: "int \<Rightarrow> IgnitionOutputPin \<Rightarrow> IgnitionOutputPin" where
  "charge_coil k out =
     (if outOfOrder out \<and> signalFallSparkId out = k then out\<lparr>outOfOrder := False\<rparr> else drive 1 (out\<lparr>outOfOrder := False\<rparr>))"

definition fire_coil :: "int \<Rightarrow> IgnitionOutputPin \<Rightarrow> IgnitionOutputPin" where
  "fire_coil k out =
     drive 0 (out\<lparr>signalFallSparkId := k, outOfOrder := (outOfOrder out \<or> currentLogicValue (coil_pin out) = 0)\<rparr>)"

lemma set_dizzy_frame [simp]:
  "coils (set_dizzy cfg v e) = coils e" "ignitionEvents (set_dizzy cfg v e) = ignitionEvents e"
  by (simp_all add: set_dizzy_def split: prod.splits)

lemma set_coil_frame [simp]:
  "coils (set_coil c v e) = (coils e)[c := drive v (coils e ! c)]" "ignitionEvents (set_coil c v e) = ignitionEvents e"
  by (simp_all add: set_coil_def drive_def split: prod.splits)

lemma warning_spark_frame [simp]:
  "coils (warning c e) = coils e" "ignitionEvents (warning c e) = ignitionEvents e"
  by (simp_all add: warning_def)

lemma in_order_same: "\<not> outOfOrder out \<Longrightarrow> out\<lparr>outOfOrder := False\<rparr> = out"
  by (cases out) simp

lemma startDwell_coils:
  assumes "c < length (coils e)"
  shows "coils (startDwellByTurningSparkPinHigh cfg i c e) = (coils e)[c := charge_coil (sparkId (ignitionEvents e ! i)) (coils e ! c)] \<and>
    ignitionEvents (startDwellByTurningSparkPinHigh cfg i c e) = ignitionEvents e"
  using assms by (auto simp: startDwellByTurningSparkPinHigh_def charge_coil_def in_order_same Let_def)

lemma fireSpark_coils:
  assumes "c < length (coils e)"
  shows "coils (fireSparkBySettingPinLow cfg i c e) = (coils e)[c := fire_coil (sparkId (ignitionEvents e ! i)) (coils e ! c)] \<and>
    ignitionEvents (fireSparkBySettingPinLow cfg i c e) = ignitionEvents e"
  using assms by (auto simp: fireSparkBySettingPinLow_def fire_coil_def Let_def)

text \<open>The loop over the outputs of an event.\<close>

lemma for_outputs_coils:
  assumes step: "\<And>c e. c < length (coils e) \<Longrightarrow> ignitionEvents e = evs \<Longrightarrow>
      coils (f c e) = (coils e)[c := g (coils e ! c)] \<and> ignitionEvents (f c e) = evs"
  shows "\<forall>c. Some c \<in> set os \<longrightarrow> c < length (coils e) \<Longrightarrow> distinct (filter (\<lambda>v. v \<noteq> None) os) \<Longrightarrow> ignitionEvents e = evs \<Longrightarrow>
    length (coils (for_outputs f os e)) = length (coils e) \<and> ignitionEvents (for_outputs f os e) = evs \<and>
    (\<forall>c < length (coils e). coils (for_outputs f os e) ! c = (if Some c \<in> set os then g (coils e ! c) else coils e ! c))"
proof (induction os arbitrary: e)
  case (Cons v os)
  show ?case
  proof (cases v)
    case (Some c)
    have c: "coils (f c e) = (coils e)[c := g (coils e ! c)]" "ignitionEvents (f c e) = evs"
      using step [of c e] Cons.prems Some by auto
    have "c < length (coils e)" "Some c \<notin> set os" using Cons.prems Some by auto
    with Cons.IH [of "f c e"] Cons.prems c Some show ?thesis by (auto simp: nth_list_update)
  qed (use Cons in simp)
qed simp

text \<open>An event and the coils it drives.\<close>

definition driven :: "nat \<Rightarrow> 'w spark_scheme \<Rightarrow> nat set" where
  "driven i e = {c. Some c \<in> set (ie_outputs (ignitionEvents e ! i))}"

definition event_ok :: "nat \<Rightarrow> 'w spark_scheme \<Rightarrow> bool" where
  "event_ok i e \<longleftrightarrow> i < length (ignitionEvents e) \<and> (\<forall>c\<in>driven i e. c < length (coils e)) \<and>
     distinct (filter (\<lambda>v. v \<noteq> None) (ie_outputs (ignitionEvents e ! i)))"

text \<open>The first loop of \<open>fireSparkAndPrepareNextSchedule\<close>.\<close>

definition fire_pins :: "'c spark_config_scheme \<Rightarrow> nat \<Rightarrow> 'w spark_scheme \<Rightarrow> 'w spark_scheme" where
  "fire_pins cfg i e = for_outputs (fireSparkBySettingPinLow cfg i) (ie_outputs (ignitionEvents e ! i)) e"

lemma fire_pins_coils:
  assumes "event_ok i e"
  shows "length (coils (fire_pins cfg i e)) = length (coils e) \<and> ignitionEvents (fire_pins cfg i e) = ignitionEvents e \<and>
    (\<forall>c < length (coils e). coils (fire_pins cfg i e) ! c =
       (if c \<in> driven i e then fire_coil (sparkId (ignitionEvents e ! i)) (coils e ! c) else coils e ! c))"
proof -
  have "length (coils (for_outputs (fireSparkBySettingPinLow cfg i) (ie_outputs (ignitionEvents e ! i)) e)) = length (coils e) \<and>
    ignitionEvents (for_outputs (fireSparkBySettingPinLow cfg i) (ie_outputs (ignitionEvents e ! i)) e) = ignitionEvents e \<and>
    (\<forall>c < length (coils e). coils (for_outputs (fireSparkBySettingPinLow cfg i) (ie_outputs (ignitionEvents e ! i)) e) ! c =
      (if Some c \<in> set (ie_outputs (ignitionEvents e ! i)) then fire_coil (sparkId (ignitionEvents e ! i)) (coils e ! c) else coils e ! c))"
    by (rule for_outputs_coils) (use assms in \<open>auto simp: fireSpark_coils driven_def event_ok_def\<close>)
  then show ?thesis by (simp add: fire_pins_def driven_def)
qed

lemma turnSparkPinHigh_coils:
  assumes "event_ok i e"
  shows "length (coils (turnSparkPinHigh cfg i e)) = length (coils e) \<and>
    map sparkId (ignitionEvents (turnSparkPinHigh cfg i e)) = map sparkId (ignitionEvents e) \<and>
    map ie_outputs (ignitionEvents (turnSparkPinHigh cfg i e)) = map ie_outputs (ignitionEvents e) \<and>
    (\<forall>c < length (coils e). coils (turnSparkPinHigh cfg i e) ! c =
       (if c \<in> driven i e then charge_coil (sparkId (ignitionEvents e ! i)) (coils e ! c) else coils e ! c))"
proof -
  define e1 where "e1 = set_ignition_event i ((ignitionEvents e ! i)\<lparr>actualStartOfDwellNt := word_of_int (fst (Executor.getTimeNowNt e))\<rparr>)
    (snd (Executor.getTimeNowNt e))"
  have i: "i < length (ignitionEvents e)" using assms by (simp add: event_ok_def)
  have e1: "coils e1 = coils e" "ie_outputs (ignitionEvents e1 ! i) = ie_outputs (ignitionEvents e ! i)"
    "sparkId (ignitionEvents e1 ! i) = sparkId (ignitionEvents e ! i)" "map sparkId (ignitionEvents e1) = map sparkId (ignitionEvents e)"
    "map ie_outputs (ignitionEvents e1) = map ie_outputs (ignitionEvents e)"
    using i by (simp_all add: e1_def set_ignition_event_def Executor.getTimeNowNt_def map_update)
      (metis list_update_id map_update nth_map length_map)+
  have "turnSparkPinHigh cfg i e = for_outputs (startDwellByTurningSparkPinHigh cfg i) (ie_outputs (ignitionEvents e1 ! i)) e1"
    by (simp add: turnSparkPinHigh_def e1_def Executor.getTimeNowNt_def Let_def)
  moreover have "length (coils (for_outputs (startDwellByTurningSparkPinHigh cfg i) (ie_outputs (ignitionEvents e1 ! i)) e1)) = length (coils e1) \<and>
    ignitionEvents (for_outputs (startDwellByTurningSparkPinHigh cfg i) (ie_outputs (ignitionEvents e1 ! i)) e1) = ignitionEvents e1 \<and>
    (\<forall>c < length (coils e1). coils (for_outputs (startDwellByTurningSparkPinHigh cfg i) (ie_outputs (ignitionEvents e1 ! i)) e1) ! c =
      (if Some c \<in> set (ie_outputs (ignitionEvents e1 ! i)) then charge_coil (sparkId (ignitionEvents e1 ! i)) (coils e1 ! c)
       else coils e1 ! c))"
    by (rule for_outputs_coils) (use assms e1 in \<open>auto simp: startDwell_coils driven_def event_ok_def\<close>)
  ultimately show ?thesis using e1 by (simp add: driven_def)
qed

subsection \<open>One spark after the other\<close>

text \<open>A coil that is at rest between two sparks.\<close>

definition resting :: "IgnitionOutputPin \<Rightarrow> bool" where
  "resting out \<longleftrightarrow> isInitialized (coil_pin out) \<and> currentLogicValue (coil_pin out) = 0 \<and> \<not> outOfOrder out"

lemma setValue_initialized:
  assumes "isInitialized p" "v = 0 \<or> v = 1"
  shows "currentLogicValue (fst (setValue v p)) = v" "isInitialized (fst (setValue v p))"
  using assms by (auto simp: setValue_def setPinValue_def isInitialized_def Let_def split: option.splits)

lemma resting_in_order: "resting out \<Longrightarrow> resting (fire_coil k (charge_coil k out)) \<and> currentLogicValue (coil_pin (charge_coil k out)) = 1"
  by (simp add: resting_def fire_coil_def charge_coil_def drive_def setValue_initialized)

lemma resting_swapped: "resting out \<Longrightarrow> resting (charge_coil k (fire_coil k out)) \<and>
    currentLogicValue (coil_pin (fire_coil k out)) = 0 \<and> currentLogicValue (coil_pin (charge_coil k (fire_coil k out))) = 0"
  by (simp add: resting_def fire_coil_def charge_coil_def drive_def setValue_initialized)

text \<open>The two edges of spark number \<open>k\<close> of event \<open>i\<close>, which come in the wrong order when \<open>swapped\<close>.\<close>

definition spark_edges :: "'c spark_config_scheme \<Rightarrow> nat \<Rightarrow> int \<times> bool \<Rightarrow> 'w spark_scheme \<Rightarrow> 'w spark_scheme" where
  "spark_edges cfg i ks e =
     (case ks of (k, swapped) \<Rightarrow>
        let e = set_ignition_event i ((ignitionEvents e ! i)\<lparr>sparkId := k\<rparr>) e
        in if swapped then turnSparkPinHigh cfg i (fire_pins cfg i e) else fire_pins cfg i (turnSparkPinHigh cfg i e))"

definition at_rest :: "nat \<Rightarrow> 'w spark_scheme \<Rightarrow> bool" where
  "at_rest i e \<longleftrightarrow> event_ok i e \<and> (\<forall>c\<in>driven i e. resting (coils e ! c))"

lemma driven_cong: "map ie_outputs (ignitionEvents e') = map ie_outputs (ignitionEvents e) \<Longrightarrow> i < length (ignitionEvents e) \<Longrightarrow>
    ie_outputs (ignitionEvents e' ! i) = ie_outputs (ignitionEvents e ! i) \<and> length (ignitionEvents e') = length (ignitionEvents e) \<and>
    driven i e' = driven i e"
  by (metis driven_def length_map nth_map)

lemma spark_edges_rest:
  assumes "at_rest i e"
  shows "at_rest i (spark_edges cfg i ks e) \<and> driven i (spark_edges cfg i ks e) = driven i e"
proof -
  obtain k swapped where ks: "ks = (k, swapped)" by fastforce
  define e1 where "e1 = set_ignition_event i ((ignitionEvents e ! i)\<lparr>sparkId := k\<rparr>) e"
  have i: "i < length (ignitionEvents e)" using assms by (simp add: at_rest_def event_ok_def)
  have e1: "event_ok i e1" "driven i e1 = driven i e" "coils e1 = coils e" "sparkId (ignitionEvents e1 ! i) = k"
    using assms i by (auto simp: e1_def set_ignition_event_def at_rest_def event_ok_def driven_def)
  show ?thesis
  proof (cases swapped)
    case True
    let ?f = "fire_pins cfg i e1"
    note f = fire_pins_coils [OF e1(1), of cfg]
    have ok: "event_ok i ?f" "driven i ?f = driven i e" using f e1 by (auto simp: event_ok_def driven_def)
    note t = turnSparkPinHigh_coils [OF ok(1), of cfg]
    have "spark_edges cfg i ks e = turnSparkPinHigh cfg i ?f" by (simp add: spark_edges_def ks True e1_def)
    moreover have "driven i (turnSparkPinHigh cfg i ?f) = driven i e" "event_ok i (turnSparkPinHigh cfg i ?f)"
      using driven_cong [of "turnSparkPinHigh cfg i ?f" ?f i] t ok by (auto simp: event_ok_def)
    moreover have "resting (coils (turnSparkPinHigh cfg i ?f) ! c)" if "c \<in> driven i e" for c
    proof -
      have c: "c < length (coils e)" using assms that by (auto simp: at_rest_def event_ok_def)
      then have "coils (turnSparkPinHigh cfg i ?f) ! c = charge_coil k (fire_coil k (coils e ! c))" using t f e1 ok that by simp
      then show ?thesis using resting_swapped assms that by (auto simp: at_rest_def)
    qed
    ultimately show ?thesis by (simp add: at_rest_def)
  next
    case False
    let ?t = "turnSparkPinHigh cfg i e1"
    note t = turnSparkPinHigh_coils [OF e1(1), of cfg]
    have len: "i < length (ignitionEvents e1)" using e1 by (simp add: event_ok_def)
    have same: "driven i ?t = driven i e" "sparkId (ignitionEvents ?t ! i) = k" "event_ok i ?t"
      using driven_cong [of ?t e1 i] t e1 len by (auto simp: event_ok_def) (metis length_map nth_map)
    note f = fire_pins_coils [OF same(3), of cfg]
    have "spark_edges cfg i ks e = fire_pins cfg i ?t" by (simp add: spark_edges_def ks False e1_def)
    moreover have "driven i (fire_pins cfg i ?t) = driven i e" "event_ok i (fire_pins cfg i ?t)"
      using f same by (auto simp: event_ok_def driven_def)
    moreover have "resting (coils (fire_pins cfg i ?t) ! c)" if "c \<in> driven i e" for c
    proof -
      have c: "c < length (coils e)" using assms that by (auto simp: at_rest_def event_ok_def)
      then have "coils (fire_pins cfg i ?t) ! c = fire_coil k (charge_coil k (coils e ! c))" using t f e1 same that by simp
      then show ?thesis using resting_in_order assms that by (auto simp: at_rest_def)
    qed
    ultimately show ?thesis by (simp add: at_rest_def)
  qed
qed

text \<open>The sparks of one event leave the coils of the others alone, and at rest where they share a coil.\<close>

lemma spark_edges_frame:
  assumes "event_ok i e"
  shows "map ie_outputs (ignitionEvents (spark_edges cfg i ks e)) = map ie_outputs (ignitionEvents e) \<and>
    length (coils (spark_edges cfg i ks e)) = length (coils e) \<and>
    (\<forall>c. c \<notin> driven i e \<longrightarrow> c < length (coils e) \<longrightarrow> coils (spark_edges cfg i ks e) ! c = coils e ! c)"
proof -
  obtain k swapped where ks: "ks = (k, swapped)" by fastforce
  define e1 where "e1 = set_ignition_event i ((ignitionEvents e ! i)\<lparr>sparkId := k\<rparr>) e"
  have i: "i < length (ignitionEvents e)" using assms by (simp add: event_ok_def)
  then have e1: "event_ok i e1" "driven i e1 = driven i e" "coils e1 = coils e"
    "map ie_outputs (ignitionEvents e1) = map ie_outputs (ignitionEvents e)"
    using assms by (auto simp: e1_def set_ignition_event_def event_ok_def driven_def map_update)
      (metis list_update_id map_update nth_map length_map)
  show ?thesis
  proof (cases swapped)
    case True
    note f = fire_pins_coils [OF e1(1), of cfg]
    then have "event_ok i (fire_pins cfg i e1)" "driven i (fire_pins cfg i e1) = driven i e" using e1 by (auto simp: event_ok_def driven_def)
    with turnSparkPinHigh_coils [of i "fire_pins cfg i e1" cfg] f e1 show ?thesis by (auto simp: spark_edges_def ks True e1_def [symmetric])
  next
    case False
    note t = turnSparkPinHigh_coils [OF e1(1), of cfg]
    have "i < length (ignitionEvents e1)" using e1 by (simp add: event_ok_def)
    with driven_cong [of "turnSparkPinHigh cfg i e1" e1 i] t e1
    have "event_ok i (turnSparkPinHigh cfg i e1)" "driven i (turnSparkPinHigh cfg i e1) = driven i e" by (auto simp: event_ok_def)
    with fire_pins_coils [of i "turnSparkPinHigh cfg i e1" cfg] t e1 show ?thesis by (auto simp: spark_edges_def ks False e1_def [symmetric])
  qed
qed

lemma spark_edges_others:
  assumes "at_rest i e" "at_rest j e"
  shows "at_rest j (spark_edges cfg i ks e) \<and> driven j (spark_edges cfg i ks e) = driven j e"
proof -
  have ok: "event_ok i e" "event_ok j e" using assms by (simp_all add: at_rest_def)
  let ?e = "spark_edges cfg i ks e"
  note f = spark_edges_frame [OF ok(1), of cfg ks] and r = spark_edges_rest [OF assms(1), of cfg ks]
  have j: "j < length (ignitionEvents e)" using ok by (simp add: event_ok_def)
  with driven_cong [of ?e e j] f have d: "driven j ?e = driven j e" "event_ok j ?e" using ok by (auto simp: event_ok_def)
  moreover have "resting (coils ?e ! c)" if "c \<in> driven j e" for c
  proof (cases "c \<in> driven i e")
    case True
    with r show ?thesis by (auto simp: at_rest_def)
  next
    case False
    have "c < length (coils e)" using ok that by (auto simp: event_ok_def)
    with False f assms(2) that show ?thesis by (auto simp: at_rest_def)
  qed
  ultimately show ?thesis by (auto simp: at_rest_def)
qed

definition after_sparks :: "'c spark_config_scheme \<Rightarrow> (nat \<times> int \<times> bool) list \<Rightarrow> 'w spark_scheme \<Rightarrow> 'w spark_scheme" where
  "after_sparks cfg sparks e = foldl (\<lambda>e (i, ks). spark_edges cfg i ks e) e sparks"

lemma after_sparks_rest:
  "\<forall>j\<in>J. at_rest j e \<Longrightarrow> fst ` set sparks \<subseteq> J \<Longrightarrow>
    \<forall>j\<in>J. at_rest j (after_sparks cfg sparks e) \<and> driven j (after_sparks cfg sparks e) = driven j e"
proof (induction sparks arbitrary: e)
  case (Cons s sparks)
  obtain i ks where s: "s = (i, ks)" by (rule prod.exhaust)
  have "\<forall>j\<in>J. at_rest j (spark_edges cfg i ks e) \<and> driven j (spark_edges cfg i ks e) = driven j e"
    using Cons.prems s spark_edges_others [where cfg = cfg and ks = ks and i = i and e = e] by simp
  with Cons.IH [of "spark_edges cfg i ks e"] Cons.prems(2) s show ?case by (auto simp: after_sparks_def)
qed (simp add: after_sparks_def)

text \<open>
  C11: no coil is left charging. Whatever sparks of whatever events follow one another without overlapping, each with its two edges in the
  right or in the wrong order, when their coils are at rest at the start, afterwards every coil of these events is off and takes the next spark in order. When the
  edges of a spark come in the wrong order the coil is not switched on at all.
\<close>

theorem coils_off_between_sparks:
  fixes cfg :: "'c spark_config_scheme" and e :: "'w spark_scheme"
  assumes "\<forall>j\<in>J. at_rest j e" "fst ` set sparks \<subseteq> J" "i \<in> J" "c \<in> driven i e"
  defines "e' \<equiv> after_sparks cfg sparks e"
  shows "\<not> getLogicValue (coil_pin (coils e' ! c)) \<and> \<not> outOfOrder (coils e' ! c) \<and>
    \<not> getLogicValue (coil_pin (coils (fire_pins cfg i e') ! c)) \<and>
    \<not> getLogicValue (coil_pin (coils (turnSparkPinHigh cfg i (fire_pins cfg i e')) ! c))"
proof -
  have e': "at_rest i e'" "driven i e' = driven i e" using after_sparks_rest [OF assms(1,2), of cfg] assms(3) by (auto simp: e'_def)
  then have ok: "event_ok i e'" and c: "c < length (coils e')" and rest: "resting (coils e' ! c)"
    using assms(4) by (auto simp: at_rest_def event_ok_def)
  note f = fire_pins_coils [OF ok, of cfg]
  then have "event_ok i (fire_pins cfg i e')" "driven i (fire_pins cfg i e') = driven i e" using ok e' by (auto simp: event_ok_def driven_def)
  with turnSparkPinHigh_coils [of i "fire_pins cfg i e'" cfg] f c e' assms(4) resting_swapped [OF rest] rest
  show ?thesis by (auto simp: getLogicValue_def resting_def)
qed

text \<open>
  Two sparks that overlap on one coil and both come in the wrong order do charge it: the protection remembers one
  spark only, so the first charge is let through and nothing is left to end it.
\<close>

theorem overlapping_swapped_sparks_charge:
  assumes "event_ok i e" "event_ok j e" "c \<in> driven i e" "c \<in> driven j e" "resting (coils e ! c)"
    and "sparkId (ignitionEvents e ! i) \<noteq> sparkId (ignitionEvents e ! j)"
  shows "getLogicValue (coil_pin (coils (turnSparkPinHigh cfg j (turnSparkPinHigh cfg i (fire_pins cfg j (fire_pins cfg i e)))) ! c))"
proof -
  let ?ki = "sparkId (ignitionEvents e ! i)" and ?kj = "sparkId (ignitionEvents e ! j)"
  have c: "c < length (coils e)" "i < length (ignitionEvents e)" "j < length (ignitionEvents e)" using assms by (auto simp: event_ok_def)
  define e1 where "e1 = fire_pins cfg i e"
  define e2 where "e2 = fire_pins cfg j e1"
  define e3 where "e3 = turnSparkPinHigh cfg i e2"
  have e1: "event_ok i e1" "event_ok j e1" "driven i e1 = driven i e" "driven j e1 = driven j e" "length (coils e1) = length (coils e)"
    "ignitionEvents e1 = ignitionEvents e" "coils e1 ! c = fire_coil ?ki (coils e ! c)"
    using fire_pins_coils [OF assms(1), of cfg] assms c by (auto simp: e1_def event_ok_def driven_def)
  have e2: "event_ok i e2" "event_ok j e2" "driven i e2 = driven i e" "driven j e2 = driven j e" "length (coils e2) = length (coils e)"
    "ignitionEvents e2 = ignitionEvents e" "coils e2 ! c = fire_coil ?kj (fire_coil ?ki (coils e ! c))"
    using fire_pins_coils [OF e1(2), of cfg] assms c e1 by (auto simp: e2_def event_ok_def driven_def)
  note t = turnSparkPinHigh_coils [OF e2(1), of cfg, folded e3_def]
  have out: "map ie_outputs (ignitionEvents e3) = map ie_outputs (ignitionEvents e2)" using t by simp
  have "j < length (ignitionEvents e2)" using c e2 by simp
  from driven_cong [OF out this] t e2 c assms(3) have e3: "event_ok j e3" "driven j e3 = driven j e" "length (coils e3) = length (coils e)"
    "coils e3 ! c = charge_coil ?ki (fire_coil ?kj (fire_coil ?ki (coils e ! c)))"
    by (auto simp: event_ok_def)
  have "sparkId (ignitionEvents e3 ! j) = ?kj" using t e2 c by (metis length_map nth_map)
  with turnSparkPinHigh_coils [OF e3(1), of cfg] e3 c assms(4)
  have "coils (turnSparkPinHigh cfg j e3) ! c = charge_coil ?kj (charge_coil ?ki (fire_coil ?kj (fire_coil ?ki (coils e ! c))))" by simp
  also have "getLogicValue (coil_pin \<dots>)"
    using assms(5,6) by (simp add: resting_def fire_coil_def charge_coil_def drive_def setValue_initialized getLogicValue_def)
  finally show ?thesis by (simp add: e3_def e2_def e1_def)
qed

subsection \<open>An engine with four cylinders\<close>

definition four_teeth :: trigger_waveform where
  "four_teeth = blank_waveform\<lparr>operationMode := FOUR_STROKE_CAM_SENSOR, privateTriggerDefinitionSize := 4,
     eventAngles := [0, 180, 360, 540],
     triggerIndexByAngle := replicate 180 0 @ replicate 180 1 @ replicate 180 2 @ replicate 180 3\<rparr>"

definition quiet_coil :: "nat \<Rightarrow> IgnitionOutputPin" where
  "quiet_coil c = \<lparr>coil_pin = OutputPin_new\<lparr>op_port := Some 4, op_pad := c, currentLogicValue := 0\<rparr>, signalFallSparkId = 0, outOfOrder = False\<rparr>"

definition quiet_event :: "nat \<Rightarrow> IgnitionEvent" where
  "quiet_event i = \<lparr>ie_outputs = [Some i, None], ie_dwellTimer = 2 * i + 1, ie_spark = i, sparksRemaining = 0, sparkAngle = Some (180 * of_nat i - 10),
     ie_sparkDwell = Some 4, actualStartOfDwellNt = 0,
     dwellPosition = \<lparr>triggerEventIndex = (int i - 1) mod 4, angleOffsetFromTriggerEvent = 100\<rparr>, sparkId = int i, cylinderIndex = i\<rparr>"

definition four_cylinders :: spark where
  "four_cylinders = outputs.extend (executor.extend (demo_executor 168)
       \<lparr>ec = running_engine, triggerShape = four_teeth,
        angleEvents = (\<lambda>i. \<lparr>abe_timer = 2 * i + 2, abe_position = \<lparr>triggerEventIndex = 0, angleOffsetFromTriggerEvent = 0\<rparr>, abe_action = null_action\<rparr>),
        angleBasedEvents = []\<rparr>)
     \<lparr>coils = map quiet_coil [0..<12], dizzyOutput = OutputPin_new, ignitionEvents = map quiet_event [0..<12], ignition_isReady = True,
      ignitionErrorDetection = cyclic_buffer_new 128 128, prevSparkName = None, globalSparkIdCounter = 100,
      ignitionPin = [0, 1, 2, 3, 0, 0, 0, 0, 0, 0, 0, 0], ignitionPositionWithinEngineCycle = [0, 180, 360, 540, 0, 0, 0, 0, 0, 0, 0, 0],
      ignitionModeForPinIndices = Some IM_INDIVIDUAL_COILS, timingAdvance = Some 10, dwellAngle = Some 70, sparkDwell = Some 4,
      multispark_delay = 0, multispark_dwell = 0, multispark_count = 0, pin_log = []\<rparr>"

definition four_config :: spark_config where
  "four_config = output_config.extend \<lparr>oc_fl = id, oc_central = wheel_config, oc_specs = \<lparr>cylindersCount = 4, firingOrder = FO_1_3_4_2\<rparr>\<rparr>
     \<lparr>isIgnitionEnabled = True, oc_ignitionMode = IM_INDIVIDUAL_COILS, dizzyAssigned = False, twoWireBatchIgnition = False, sc_cranking_rpm = 500,
      timing_offset_cylinder = replicate 12 (Some 0)\<rparr>"

lemma four_cylinders_simps [simp]:
  "coils four_cylinders = map quiet_coil [0..<12]" "ignitionEvents four_cylinders = map quiet_event [0..<12]"
  "angleBasedEvents four_cylinders = []" "triggerShape four_cylinders = four_teeth" "ec four_cylinders = running_engine"
  "sparkDwell four_cylinders = Some 4" "timingAdvance four_cylinders = Some 10" "dwellAngle four_cylinders = Some 70"
  "executor.ntPerUs four_cylinders = 168" "readings four_cylinders k = 1000 + int k" "reentrantFlag four_cylinders = False"
  by (simp_all add: four_cylinders_def executor.defs outputs.defs demo_executor_def)

lemma four_cylinders_rest: "i < 12 \<Longrightarrow> at_rest i four_cylinders \<and> driven i four_cylinders = {i}"
  by (auto simp: at_rest_def event_ok_def driven_def resting_def quiet_event_def quiet_coil_def OutputPin_new_def isInitialized_def)

theorem coils_off_between_sparks_witness:
  "\<not> getLogicValue (coil_pin (coils (after_sparks four_config [(0, 5, False), (1, 6, True), (0, 7, True)] four_cylinders) ! 1))"
  using coils_off_between_sparks [of "{..<12}" four_cylinders "[(0, 5, False), (1, 6, True), (0, 7, True)]" 1 1 four_config] four_cylinders_rest
  by simp

text \<open>Cylinders 1 and 4 on one coil.\<close>

definition shared_coil :: spark where
  "shared_coil = set_ignition_event 2 ((quiet_event 2)\<lparr>ie_outputs := [Some 0, None]\<rparr>) four_cylinders"

theorem overlapping_swapped_sparks_charge_witness:
  "getLogicValue (coil_pin (coils (turnSparkPinHigh four_config 2 (turnSparkPinHigh four_config 0
     (fire_pins four_config 2 (fire_pins four_config 0 shared_coil)))) ! 0))"
  by (rule overlapping_swapped_sparks_charge)
    (simp_all add: shared_coil_def set_ignition_event_def event_ok_def driven_def quiet_event_def resting_def quiet_coil_def OutputPin_new_def
      isInitialized_def)

end
