(* ===== verification/Scheduler_Interface.thy ===== *)
theory Scheduler_Interface
  imports Executor
begin

text \<open>
  What the code that plans events relies on: \<open>scheduleByTimestampNt\<close> puts the task on the agenda, unless its record is still
  pending, and leaves everything outside the executor alone. The executor promises this to a callback it runs
  (the re-entrance flag is up) and to an interrupt, as long as nothing falls due while the interrupt is handled.
\<close>

definition agenda_add :: "addr \<Rightarrow> int \<Rightarrow> action_s \<Rightarrow> entry list \<Rightarrow> entry list" where
  "agenda_add s t act xs = (if s \<in> eaddr ` set xs then xs else agenda_insert (Entry t act s) xs)"

definition same_rest :: "'w executor_scheme \<Rightarrow> 'w executor_scheme \<Rightarrow> bool" where
  "same_rest e e' \<longleftrightarrow> executor.more e' = executor.more e \<and> ntPerUs e' = ntPerUs e"

lemma same_rest_refl [simp]: "same_rest e e"
  by (simp add: same_rest_def)

lemma same_rest_trans: "same_rest e e' \<Longrightarrow> same_rest e' e'' \<Longrightarrow> same_rest e e''"
  by (simp add: same_rest_def)

locale event_scheduler =
  fixes sched :: "addr \<Rightarrow> int \<Rightarrow> action_s \<Rightarrow> 'w executor_scheme \<Rightarrow> 'w executor_scheme option"
    and ready :: "'w executor_scheme \<Rightarrow> entry list \<Rightarrow> bool"
    and soon :: "int \<Rightarrow> bool"
  assumes ready_queue: "ready e xs \<Longrightarrow> queue_rep e xs"
    and ready_more: "ready e xs \<Longrightarrow> ready (executor.more_update f e) xs"
    and ready_report: "ready e xs \<Longrightarrow> ready (warning code e) xs \<and> ready (firmwareError code e) xs"
    and sched_adds: "ready e xs \<Longrightarrow> callback act \<noteq> None \<Longrightarrow> soon t \<Longrightarrow>
      \<exists>e'. sched s t act e = Some e' \<and> ready e' (agenda_add s t act xs) \<and> same_rest e e'"
begin

text \<open>A run of requests.\<close>

fun sched_all :: "(addr \<times> int \<times> action_s) list \<Rightarrow> 'w executor_scheme \<Rightarrow> 'w executor_scheme option" where
  "sched_all [] e = Some e"
| "sched_all ((s, t, act) # rs) e = (case sched s t act e of None \<Rightarrow> None | Some e \<Rightarrow> sched_all rs e)"

lemma sched_all_adds:
  "ready e xs \<Longrightarrow> \<forall>(s, t, act)\<in>set rs. callback act \<noteq> None \<and> soon t \<Longrightarrow>
     \<exists>e'. sched_all rs e = Some e' \<and> ready e' (fold (\<lambda>(s, t, act). agenda_add s t act) rs xs) \<and> same_rest e e'"
proof (induction rs arbitrary: e xs)
  case (Cons r rs)
  obtain s t act where r: "r = (s, t, act)" by (cases r)
  obtain e1 where e1: "sched s t act e = Some e1" "ready e1 (agenda_add s t act xs)" "same_rest e e1"
    using sched_adds [OF Cons.prems(1), of act t s] Cons.prems(2) r by auto
  from Cons.IH [OF e1(2)] Cons.prems(2) e1 r show ?case by (auto intro: same_rest_trans)
qed simp

end

subsection \<open>Inside a callback\<close>

definition callback_ready :: "int \<Rightarrow> int \<Rightarrow> 'w executor_scheme \<Rightarrow> entry list \<Rightarrow> bool" where
  "callback_ready lo hi e xs \<longleftrightarrow> queue_rep e xs \<and> reentrantFlag e \<and> 0 < ntPerUs e \<and>
     (\<forall>k. hi - readings e k < TOO_FAR_INTO_FUTURE_US * ntPerUs e \<and> readings e k - lo < 2 ^ 31 * ntPerUs e)"

lemma near_delta:
  assumes "0 < ntPerUs e" "- (2 ^ 31 * ntPerUs e) < d" "d < TOO_FAR_INTO_FUTURE_US * ntPerUs e"
  shows "to_i32 (NT2US e d) < TOO_FAR_INTO_FUTURE_US"
proof (cases "0 \<le> d")
  case True
  then show ?thesis using small_delta [of d e] assms by simp
next
  case False
  have "- d div ntPerUs e < 2 ^ 31" "0 \<le> - d div ntPerUs e"
    using assms False div_less_pos [of "ntPerUs e" "- d" "2 ^ 31"] by (simp_all add: pos_imp_zdiv_nonneg_iff)
  moreover have "NT2US e d = - (- d div ntPerUs e)" using assms(1) False by (simp add: NT2US_def c_div_def)
  ultimately have "- (2 ^ 31) \<le> NT2US e d" "NT2US e d \<le> 0" by linarith+
  then show ?thesis by (simp add: TOO_FAR_INTO_FUTURE_US_def)
qed

lemma executor_rest:
  assumes "event_queue.more e = event_queue.more (e' :: 'w executor_scheme)"
  shows "executor.more e = executor.more e'"
  using assms by (cases e; cases e') simp

lemma insertTask_adds:
  assumes "queue_rep e xs" "callback act \<noteq> None"
  obtains b e' where "insertTask e s t act = Some (b, e')" "queue_rep e' (agenda_add s t act xs)" "event_queue.more e' = event_queue.more e"
proof (cases "s \<in> eaddr ` set xs")
  case True
  then have "isScheduled (mem e s)" using assms(1) by (simp add: queue_rep_scheduled)
  with True assms insertTask_pending [of act e s t] show ?thesis by (intro that [of False e]) (simp_all add: agenda_add_def)
next
  case False
  then have "\<not> isScheduled (mem e s)" using assms(1) by (simp add: queue_rep_scheduled)
  from insertTask_agenda [OF assms this, of t] obtain e' where
    e': "insertTask e s t act = Some (xs = [] \<or> t < etime (hd xs), e')" "queue_rep e' (agenda_insert (Entry t act s) xs)" by blast
  with insertTask_frame [OF e'(1)] False show ?thesis by (intro that [of "xs = [] \<or> t < etime (hd xs)" e']) (simp_all add: agenda_add_def)
qed

lemma callback_sched:
  assumes "callback_ready lo hi e xs" "callback act \<noteq> None" "lo \<le> t" "t \<le> hi"
  shows "\<exists>e'. scheduleByTimestampNt gpt exec s t act e = Some e' \<and> callback_ready lo hi e' (agenda_add s t act xs) \<and> same_rest e e'"
proof -
  define e3 where "e3 = e\<lparr>readCount := Suc (readCount e), scheduleCounter := scheduleCounter e + 1\<rparr>"
  have rep: "queue_rep e3 xs" using assms(1) by (simp add: e3_def callback_ready_def)
  obtain b e4 where e4: "insertTask e3 s t act = Some (b, e4)" "queue_rep e4 (agenda_add s t act xs)"
    "event_queue.more e4 = event_queue.more e3"
    using insertTask_adds [OF rep assms(2)] by metis
  note f = same_more [OF e4(3)] executor_rest [OF e4(3)]
  have "hi - readings e (readCount e) < TOO_FAR_INTO_FUTURE_US * ntPerUs e" "readings e (readCount e) - lo < 2 ^ 31 * ntPerUs e"
    "0 < ntPerUs e" using assms(1) by (simp_all add: callback_ready_def)
  then have "to_i32 (NT2US e (t - readings e (readCount e))) < TOO_FAR_INTO_FUTURE_US" using assms(3,4) by (intro near_delta) simp_all
  then have "scheduleByTimestampNt gpt exec s t act e = Some e4"
    using e4(1) f assms(1)
    by (simp add: scheduleByTimestampNt_def getTimeNowNt_def Let_def e3_def NT2US_def callback_ready_def)
  then show ?thesis using e4(2) f assms(1) by (auto simp: callback_ready_def e3_def same_rest_def)
qed

lemma report_frame [simp]:
  "readings (warning code e) = readings e" "reentrantFlag (warning code e) = reentrantFlag e" "ntPerUs (warning code e) = ntPerUs e"
  "readings (firmwareError code e) = readings e" "reentrantFlag (firmwareError code e) = reentrantFlag e"
  "ntPerUs (firmwareError code e) = ntPerUs e"
  by (simp_all add: warning_def firmwareError_def)

lemma queue_rep_more [simp]: "queue_rep (executor.more_update f e) xs \<longleftrightarrow> queue_rep e xs"
  by (simp add: queue_rep_def)

lemma callback_ready_queue: "callback_ready lo hi e xs \<Longrightarrow> queue_rep e xs"
  by (simp add: callback_ready_def)

lemma callback_ready_more: "callback_ready lo hi e xs \<Longrightarrow> callback_ready lo hi (executor.more_update f e) xs"
  by (simp add: callback_ready_def)

lemma callback_ready_report: "callback_ready lo hi e xs \<Longrightarrow> callback_ready lo hi (warning code e) xs \<and> callback_ready lo hi (firmwareError code e) xs"
  by (simp add: callback_ready_def)

interpretation callback: event_scheduler "scheduleByTimestampNt gpt exec" "callback_ready lo hi" "\<lambda>t. lo \<le> t \<and> t \<le> hi" for gpt exec lo hi
  by unfold_locales (erule callback_ready_queue, erule callback_ready_more, erule callback_ready_report, blast intro: callback_sched)

subsection \<open>In an interrupt\<close>

definition interrupt_ready :: "int \<Rightarrow> int \<Rightarrow> 'w executor_scheme \<Rightarrow> entry list \<Rightarrow> bool" where
  "interrupt_ready lo hi e xs \<longleftrightarrow> queue_rep e xs \<and> \<not> reentrantFlag e \<and> 0 < ntPerUs e \<and>
     (\<forall>k. readings e k < lo \<and> hi - readings e k < TOO_FAR_INTO_FUTURE_US * ntPerUs e) \<and> (\<forall>x\<in>set xs. lo \<le> etime x)"

lemma scheduleTimerCallback_rest:
  "executor.more (scheduleTimerCallback gpt e) = executor.more e" "ntPerUs (scheduleTimerCallback gpt e) = ntPerUs e"
  "readings (scheduleTimerCallback gpt e) = readings e"
  by (simp_all add: scheduleTimerCallback_def setHardwareUsTimer_def getTimeNowNt_def firmwareError_def warning_def Let_def)

lemma set_agenda_add: "x \<in> set (agenda_add s t act xs) \<Longrightarrow> x = Entry t act s \<or> x \<in> set xs"
  by (auto simp: agenda_add_def split: if_splits)

lemma interrupt_sched:
  assumes "interrupt_ready lo hi e xs" "callback act \<noteq> None" "lo \<le> t" "t \<le> hi"
  shows "\<exists>e'. scheduleByTimestampNt gpt exec s t act e = Some e' \<and> interrupt_ready lo hi e' (agenda_add s t act xs) \<and> same_rest e e'"
proof -
  define e3 where "e3 = e\<lparr>readCount := Suc (readCount e), scheduleCounter := scheduleCounter e + 1, locked := True\<rparr>"
  have rep: "queue_rep e3 xs" using assms(1) by (simp add: e3_def interrupt_ready_def)
  obtain b e4 where e4: "insertTask e3 s t act = Some (b, e4)" "queue_rep e4 (agenda_add s t act xs)"
    "event_queue.more e4 = event_queue.more e3"
    using insertTask_adds [OF rep assms(2)] by metis
  note f = same_more [OF e4(3)] executor_rest [OF e4(3)]
  have late: "readings e k < etime x" if "x \<in> set (agenda_add s t act xs)" for x k
    using set_agenda_add [OF that] assms(1,3) by (auto simp: interrupt_ready_def intro: less_le_trans)
  define e5 where "e5 = e4\<lparr>doExecuteCounter := doExecuteCounter e4 + 1, reentrantFlag := False,
    readCount := Suc (readCount e4), lastExecutionCount := 0\<rparr>"
  have e5: "doExecute exec e4 = Some e5"
    unfolding e5_def using late f by (intro doExecute_idle [OF e4(2)]) (auto simp: e3_def)
  define e6 where "e6 = (if b then scheduleTimerCallback gpt e5 else e5)"
  define e7 where "e7 = (if \<not> locked e then unlockAnyContext e6 else e6)"
  have hi: "hi - readings e (readCount e) < TOO_FAR_INTO_FUTURE_US * ntPerUs e" "readings e (readCount e) < lo" "0 < ntPerUs e"
    using assms(1) by (simp_all add: interrupt_ready_def)
  then have "to_i32 (NT2US e (t - readings e (readCount e))) < TOO_FAR_INTO_FUTURE_US"
    using small_delta [of "t - readings e (readCount e)" e] assms(3,4) by simp
  moreover have "lockAnyContext (e\<lparr>readCount := Suc (readCount e), scheduleCounter := scheduleCounter e + 1\<rparr>) = (locked e, e3)"
    by (cases e) (simp add: lockAnyContext_def e3_def)
  moreover have "\<not> reentrantFlag e" "\<not> reentrantFlag e4" using assms(1) f by (simp_all add: interrupt_ready_def e3_def)
  ultimately have "scheduleByTimestampNt gpt exec s t act e = Some e7"
    using e4(1) e5 by (simp add: scheduleByTimestampNt_def getTimeNowNt_def Let_def e7_def e6_def NT2US_def)
  moreover have "queue_rep e7 (agenda_add s t act xs)" "\<not> reentrantFlag e7" "ntPerUs e7 = ntPerUs e" "readings e7 = readings e"
    "executor.more e7 = executor.more e"
    using e4(2) f by (simp_all add: e7_def e6_def unlockAnyContext_def scheduleTimerCallback_frame scheduleTimerCallback_rest e5_def e3_def)
  moreover have "\<forall>x\<in>set (agenda_add s t act xs). lo \<le> etime x"
    using set_agenda_add [of _ s t act xs] assms(1,3) by (fastforce simp: interrupt_ready_def)
  ultimately show ?thesis using assms(1) by (auto simp: interrupt_ready_def same_rest_def)
qed

lemma interrupt_ready_queue: "interrupt_ready lo hi e xs \<Longrightarrow> queue_rep e xs"
  by (simp add: interrupt_ready_def)

lemma interrupt_ready_more: "interrupt_ready lo hi e xs \<Longrightarrow> interrupt_ready lo hi (executor.more_update f e) xs"
  by (simp add: interrupt_ready_def)

lemma interrupt_ready_report: "interrupt_ready lo hi e xs \<Longrightarrow> interrupt_ready lo hi (warning code e) xs \<and> interrupt_ready lo hi (firmwareError code e) xs"
  by (simp add: interrupt_ready_def)

interpretation interrupt: event_scheduler "scheduleByTimestampNt gpt exec" "interrupt_ready lo hi" "\<lambda>t. lo \<le> t \<and> t \<le> hi" for gpt exec lo hi
  by unfold_locales (erule interrupt_ready_queue, erule interrupt_ready_more, erule interrupt_ready_report, blast intro: interrupt_sched)

end
