(* ===== verification/Spark_Planning.thy ===== *)
theory Spark_Planning
  imports Spark_Safety Scheduler_Interface
begin

text \<open>
  What a tooth of the trigger wheel puts on the agenda of the executor: the events that waited for it, and the two edges of the
  sparks whose dwell starts at it.
\<close>

subsection \<open>The events that wait for a tooth\<close>

locale tooth_scheduler = event_scheduler sched ready soon
  for sched :: "addr \<Rightarrow> int \<Rightarrow> action_s \<Rightarrow> 'w outputs_scheme \<Rightarrow> 'w outputs_scheme option"
    and ready :: "'w outputs_scheme \<Rightarrow> entry list \<Rightarrow> bool" and soon :: "int \<Rightarrow> bool"

definition at_tooth :: "int \<Rightarrow> 'w outputs_scheme \<Rightarrow> nat \<Rightarrow> bool" where
  "at_tooth trgEventIndex e c \<longleftrightarrow> triggerEventIndex (abe_position (angleEvents e c)) = trgEventIndex"

text \<open>The request for an event that waited: its own timer and action, at its angle after the tooth.\<close>

definition angle_time :: "rounding \<Rightarrow> float32 \<Rightarrow> int \<Rightarrow> float32 \<Rightarrow> 'w executor_scheme \<Rightarrow> int" where
  "angle_time fl oneDegree edgeTimestamp angle e = edgeTimestamp + US2NT e (c_trunc (fl (oneDegree * angle)))"

definition tooth_request :: "rounding \<Rightarrow> float32 \<Rightarrow> int \<Rightarrow> 'w outputs_scheme \<Rightarrow> nat \<Rightarrow> addr \<times> int \<times> action_s" where
  "tooth_request fl oneDegree edgeTimestamp e c =
     (let event = angleEvents e c
      in (abe_timer event, angle_time fl oneDegree edgeTimestamp (angleOffsetFromTriggerEvent (abe_position event)) e, abe_action event))"

definition add_requests :: "(addr \<times> int \<times> action_s) list \<Rightarrow> entry list \<Rightarrow> entry list" where
  "add_requests rs xs = fold (\<lambda>(s, t, act). agenda_add s t act) rs xs"

lemma same_rest_outputs:
  assumes "same_rest (e :: 'w outputs_scheme) e'"
  shows "ec e' = ec e" "triggerShape e' = triggerShape e" "angleEvents e' = angleEvents e" "angleBasedEvents e' = angleBasedEvents e"
    "outputs.more e' = outputs.more e" "executor.ntPerUs e' = executor.ntPerUs e"
  using assms by (cases e; cases e'; simp add: same_rest_def)+

lemma nextToothEvent_split:
  "c \<notin> set pre \<Longrightarrow> nextToothEvent c (pre @ c # L) = (case L of [] \<Rightarrow> None | y # _ \<Rightarrow> Some y)"
  by (induction pre) simp_all

lemma remove1_split: "c \<notin> set pre \<Longrightarrow> remove1 c (pre @ c # L) = pre @ L"
  by (induction pre) auto

lemma report_outputs [simp]:
  "executor.more (warning code e) = executor.more e" "executor.more (firmwareError code e) = executor.more e"
  by (simp_all add: warning_def firmwareError_def)

lemma same_rest_report: "same_rest e (warning code e)" "same_rest e (firmwareError code e)"
  by (simp_all add: same_rest_def)

lemma not_in_list: "length l \<le> n \<Longrightarrow> inToothList l i n = (if i \<in> set l then (Some CUSTOM_RE_ADDING_INTO_EXECUTION_QUEUE, True) else (None, False))"
  by (induction l i n rule: inToothList.induct) auto

context tooth_scheduler
begin

lemma ready_other:
  assumes "ready e xs" "e' = executor.more_update (\<lambda>_. executor.more e') e"
  shows "ready e' xs"
  using ready_more [OF assms(1), of "\<lambda>_. executor.more e'"] assms(2) by simp

lemma ready_list: "ready e xs \<Longrightarrow> ready (e\<lparr>angleBasedEvents := l\<rparr>) xs"
  by (erule ready_other) (cases e; simp)

lemma ready_events: "ready e xs \<Longrightarrow> ready (e\<lparr>angleEvents := m\<rparr>) xs"
  by (erule ready_other) (cases e; simp)

lemma ready_assertAngle: "ready e xs \<Longrightarrow> ready (snd (assertAngle code a e)) xs \<and> same_rest e (snd (assertAngle code a e))"
  using ready_report by (auto simp: assertAngle_def same_rest_report)

lemma ready_position: "ready e xs \<Longrightarrow> ready (position_reports fl shape a goff e) xs \<and> same_rest e (position_reports fl shape a goff e)"
proof -
  assume r: "ready e xs"
  have step: "ready (snd (assertAngle code x e')) xs \<and> same_rest e (snd (assertAngle code x e'))" if "ready e' xs \<and> same_rest e e'" for code x e'
    using ready_assertAngle [of e' xs code x] that by (auto intro: same_rest_trans)
  have report: "ready (warning code e') xs \<and> same_rest e (warning code e')" "ready (firmwareError code e') xs \<and> same_rest e (firmwareError code e')"
    if "ready e' xs \<and> same_rest e e'" for code e'
    using ready_report [of e' xs code] that same_rest_report [of e' code] by (auto intro: same_rest_trans)
  have "ready e xs \<and> same_rest e e" using r by simp
  then show ?thesis
    unfolding position_reports_def Let_def by (auto split: option.split intro!: report step simp del: same_rest_refl)
qed

lemma scheduleAll_loop_runs:
  assumes "oneDegreeUs (ec e) = Some d"
  shows "ready e xs \<Longrightarrow> oneDegreeUs (ec e) = Some d \<Longrightarrow> angleBasedEvents e = pre @ L \<Longrightarrow> distinct (pre @ L) \<Longrightarrow>
    \<forall>c\<in>set L. at_tooth trg e c \<longrightarrow> callback (abe_action (angleEvents e c)) \<noteq> None \<and>
      soon (fst (snd (tooth_request (oc_fl oc) d edge e c))) \<Longrightarrow>
    \<exists>e'. scheduleAll_loop oc sched trg edge (case L of [] \<Rightarrow> None | y # _ \<Rightarrow> Some y) e = Some e' \<and>
      ready e' (add_requests (map (tooth_request (oc_fl oc) d edge e) (filter (at_tooth trg e) L)) xs) \<and>
      angleBasedEvents e' = pre @ filter (\<lambda>c. \<not> at_tooth trg e c) L \<and>
      ec e' = ec e \<and> triggerShape e' = triggerShape e \<and> angleEvents e' = angleEvents e \<and> outputs.more e' = outputs.more e \<and>
      executor.ntPerUs e' = executor.ntPerUs e"
proof (induction L arbitrary: e xs pre)
  case Nil
  then show ?case by (subst scheduleAll_loop.simps) (simp add: add_requests_def)
next
  case (Cons c L)
  have c: "c \<notin> set pre" using Cons.prems(4) by auto
  let ?next = "case L of [] \<Rightarrow> None | y # _ \<Rightarrow> Some y"
  have nxt: "nextToothEvent c (angleBasedEvents e) = ?next" using Cons.prems(3) c by (simp add: nextToothEvent_split)
  show ?case
  proof (cases "at_tooth trg e c")
    case True
    define e1 where "e1 = e\<lparr>angleBasedEvents := pre @ L\<rparr>"
    have e1_rec: "e\<lparr>angleBasedEvents := remove1 c (angleBasedEvents e)\<rparr> = e1" "ec e1 = ec e" "US2NT e1 us = US2NT e us" for us
      using Cons.prems(3) c by (simp_all add: e1_def remove1_split US2NT_def)
    obtain s t act where r: "tooth_request (oc_fl oc) d edge e c = (s, t, act)" by (metis prod_cases3)
    have r': "s = abe_timer (angleEvents e c)" "act = abe_action (angleEvents e c)"
      "t = angle_time (oc_fl oc) d edge (angleOffsetFromTriggerEvent (abe_position (angleEvents e c))) e"
      using r by (auto simp: tooth_request_def Let_def)
    have "callback act \<noteq> None" "soon t" using Cons.prems(5) True r r' by auto
    then obtain e2 where e2: "sched s t act e1 = Some e2" "ready e2 (agenda_add s t act xs)" "same_rest e1 e2"
      using sched_adds [OF ready_list [OF Cons.prems(1), where l = "pre @ L"], where act = act and t = t and s = s] by (auto simp: e1_def)
    note f = same_rest_outputs [OF e2(3)]
    have f2: "ec e2 = ec e" "triggerShape e2 = triggerShape e" "angleEvents e2 = angleEvents e" "angleBasedEvents e2 = pre @ L"
      "outputs.more e2 = outputs.more e" "executor.ntPerUs e2 = executor.ntPerUs e"
      using f by (simp_all add: e1_def)
    have same: "at_tooth trg e2 = at_tooth trg e" "tooth_request (oc_fl oc) d edge e2 = tooth_request (oc_fl oc) d edge e"
      using f2 by (auto simp: at_tooth_def tooth_request_def angle_time_def US2NT_def fun_eq_iff)
    have "scheduleAll_loop oc sched trg edge (Some c) e = scheduleAll_loop oc sched trg edge ?next e2"
      using True e2(1) nxt r' Cons.prems(2)
      by (subst scheduleAll_loop.simps) (simp add: at_tooth_def Let_def scheduleByAngle_def angle_time_def e1_rec)
    moreover have "\<exists>e'. scheduleAll_loop oc sched trg edge ?next e2 = Some e' \<and>
        ready e' (add_requests (map (tooth_request (oc_fl oc) d edge e2) (filter (at_tooth trg e2) L)) (agenda_add s t act xs)) \<and>
        angleBasedEvents e' = pre @ filter (\<lambda>c. \<not> at_tooth trg e2 c) L \<and>
        ec e' = ec e2 \<and> triggerShape e' = triggerShape e2 \<and> angleEvents e' = angleEvents e2 \<and> outputs.more e' = outputs.more e2 \<and>
        executor.ntPerUs e' = executor.ntPerUs e2"
      by (rule Cons.IH [OF e2(2)]) (use Cons.prems f2 same in simp_all)
    ultimately show ?thesis using f2 same True r by (simp add: add_requests_def)
  next
    case False
    have "scheduleAll_loop oc sched trg edge (Some c) e = scheduleAll_loop oc sched trg edge ?next e"
      using False nxt by (subst scheduleAll_loop.simps) (simp add: at_tooth_def Let_def)
    with Cons.IH [of e xs "pre @ [c]"] Cons.prems False show ?thesis by simp
  qed
qed

lemma scheduleAll_runs:
  assumes "ready e xs" "oneDegreeUs (ec e) = Some d" "distinct (angleBasedEvents e)"
    and "\<forall>c\<in>set (angleBasedEvents e). at_tooth trg e c \<longrightarrow> callback (abe_action (angleEvents e c)) \<noteq> None \<and>
      soon (fst (snd (tooth_request (oc_fl oc) d edge e c)))"
  shows "\<exists>e'. scheduleAllSparkEventsUntilNextTriggerTooth oc sched trg edge e = Some e' \<and>
    ready e' (add_requests (map (tooth_request (oc_fl oc) d edge e) (filter (at_tooth trg e) (angleBasedEvents e))) xs) \<and>
    angleBasedEvents e' = filter (\<lambda>c. \<not> at_tooth trg e c) (angleBasedEvents e) \<and>
    ec e' = ec e \<and> triggerShape e' = triggerShape e \<and> angleEvents e' = angleEvents e \<and> outputs.more e' = outputs.more e \<and>
    executor.ntPerUs e' = executor.ntPerUs e"
  using scheduleAll_loop_runs [OF assms(2,1,2), of "[]" "angleBasedEvents e" trg oc edge] assms(3,4)
  by (simp add: scheduleAllSparkEventsUntilNextTriggerTooth_def)

lemma scheduleOrQueue_plans:
  fixes trg edge :: int
  assumes "ready e xs" "oneDegreeUs (ec e) = Some d" "callback act \<noteq> None" "length (angleBasedEvents e) \<le> QUEUE_LENGTH_LIMIT"
    and "findTriggerPosition (oc_fl oc) (triggerShape e) (Some a) (Some (globalTriggerAngleOffset (oc_central oc))) = Some (Some p)"
  defines "b \<equiv> triggerEventIndex p = trg" and "t \<equiv> angle_time (oc_fl oc) d edge (angleOffsetFromTriggerEvent p) e"
  assumes "b \<Longrightarrow> soon t"
  shows "\<exists>e'. scheduleOrQueue oc sched i (Some trg) edge (Some a) act e = Some (b, e') \<and>
    ready e' (if b then agenda_add (abe_timer (angleEvents e i)) t act xs else xs) \<and>
    angleBasedEvents e' = (if b \<or> i \<in> set (angleBasedEvents e) then angleBasedEvents e else angleBasedEvents e @ [i]) \<and>
    abe_position (angleEvents e' i) = p \<and> (\<not> b \<longrightarrow> abe_action (angleEvents e' i) = act) \<and>
    (\<forall>j. abe_timer (angleEvents e' j) = abe_timer (angleEvents e j)) \<and> (\<forall>j. j \<noteq> i \<longrightarrow> angleEvents e' j = angleEvents e j) \<and>
    ec e' = ec e \<and> triggerShape e' = triggerShape e \<and> outputs.more e' = outputs.more e \<and> executor.ntPerUs e' = executor.ntPerUs e"
proof -
  define e1 where "e1 = position_reports (oc_fl oc) (triggerShape e) (Some a) (Some (globalTriggerAngleOffset (oc_central oc))) e"
  have e1: "ready e1 xs" "same_rest e e1" using ready_position [OF assms(1)] by (simp_all add: e1_def)
  note f1 = same_rest_outputs [OF e1(2)]
  define ev where "ev = (angleEvents e i)\<lparr>abe_position := p\<rparr>"
  have timer: "abe_timer ev = abe_timer (angleEvents e i)" by (simp add: ev_def)
  define e2 where "e2 = set_event i ev e1"
  have e2: "ready e2 xs" using ready_events [OF e1(1)] by (simp add: e2_def set_event_def)
  have f2: "ec e2 = ec e" "triggerShape e2 = triggerShape e" "angleEvents e2 = (angleEvents e)(i := ev)" "angleBasedEvents e2 = angleBasedEvents e"
    "outputs.more e2 = outputs.more e" "executor.ntPerUs e2 = executor.ntPerUs e" "US2NT e2 us = US2NT e us" for us
    using f1 by (simp_all add: e2_def set_event_def US2NT_def)
  have set: "setAngle oc (Some a) (abe_position (angleEvents e i)) e = Some (p, e1)"
    using assms(5) by (simp add: setAngle_def Let_def e1_def)
  show ?thesis
  proof (cases b)
    case True
    then obtain e3 where e3: "sched (abe_timer ev) t act e2 = Some e3" "ready e3 (agenda_add (abe_timer ev) t act xs)" "same_rest e2 e3"
      using sched_adds [OF e2 assms(3), of t "abe_timer ev"] assms(8) by blast
    have "scheduleOrQueue oc sched i (Some trg) edge (Some a) act e = Some (True, e3)"
      using set True e3(1) f2 assms(2) f1 timer
      by (simp add: scheduleOrQueue_def Let_def ev_def [symmetric] e2_def [symmetric] b_def scheduleByAngle_def t_def angle_time_def)
    then show ?thesis using True e3 same_rest_outputs [OF e3(3)] f2 by (simp add: ev_def)
  next
    case False
    define e3 where "e3 = set_event i (ev\<lparr>abe_action := act\<rparr>) e2"
    have e3: "ready e3 xs" using ready_events [OF e2] by (simp add: e3_def set_event_def)
    have f3: "ec e3 = ec e" "triggerShape e3 = triggerShape e" "angleEvents e3 = (angleEvents e)(i := ev\<lparr>abe_action := act\<rparr>)"
      "angleBasedEvents e3 = angleBasedEvents e" "outputs.more e3 = outputs.more e" "executor.ntPerUs e3 = executor.ntPerUs e"
      using f2 by (simp_all add: e3_def set_event_def)
    define e4 where "e4 = (if i \<in> set (angleBasedEvents e) then warning CUSTOM_RE_ADDING_INTO_EXECUTION_QUEUE e3
      else e3\<lparr>angleBasedEvents := angleBasedEvents e @ [i]\<rparr>)"
    have "assertNotInIgnitionList i e3 = (i \<in> set (angleBasedEvents e),
        if i \<in> set (angleBasedEvents e) then warning CUSTOM_RE_ADDING_INTO_EXECUTION_QUEUE e3 else e3)"
      using assms(4) f3(4) by (simp add: assertNotInIgnitionList_def not_in_list)
    then have "scheduleOrQueue oc sched i (Some trg) edge (Some a) act e = Some (False, e4)"
      using set False f3 f1
      by (simp add: scheduleOrQueue_def Let_def ev_def [symmetric] e2_def [symmetric] e3_def [symmetric] b_def e4_def)
    moreover have "ready e4 xs" using ready_report [OF e3] ready_list [OF e3] by (simp add: e4_def)
    moreover have "outputs.more e4 = outputs.more e" "ec e4 = ec e" "triggerShape e4 = triggerShape e" "angleEvents e4 = angleEvents e3"
      "executor.ntPerUs e4 = executor.ntPerUs e"
      "angleBasedEvents e4 = (if i \<in> set (angleBasedEvents e) then angleBasedEvents e else angleBasedEvents e @ [i])"
      using f3 same_rest_outputs [OF same_rest_report(1) [of e3 CUSTOM_RE_ADDING_INTO_EXECUTION_QUEUE]] by (auto simp: e4_def)
    ultimately show ?thesis using False f3 by (simp add: ev_def)
  qed
qed

end

interpretation callback_tooth: tooth_scheduler "scheduleByTimestampNt gpt exec" "callback_ready lo hi" "\<lambda>t. lo \<le> t \<and> t \<le> hi"
  for gpt exec lo hi ..

interpretation interrupt_tooth: tooth_scheduler "scheduleByTimestampNt gpt exec" "interrupt_ready lo hi" "\<lambda>t. lo \<le> t \<and> t \<le> hi"
  for gpt exec lo hi ..

subsection \<open>The edges of a spark\<close>

locale spark_scheduler = tooth_scheduler sched ready soon
  for sched :: "addr \<Rightarrow> int \<Rightarrow> action_s \<Rightarrow> 'w spark_scheme \<Rightarrow> 'w spark_scheme option"
    and ready :: "'w spark_scheme \<Rightarrow> entry list \<Rightarrow> bool" and soon :: "int \<Rightarrow> bool"

lemma same_more_spark:
  assumes "outputs.more (e' :: 'w spark_scheme) = outputs.more e"
  shows "coils e' = coils e" "ignitionEvents e' = ignitionEvents e" "sparkDwell e' = sparkDwell e" "globalSparkIdCounter e' = globalSparkIdCounter e"
    "multispark_count e' = multispark_count e"
  using assms by (cases e; cases e'; simp)+

lemma action_known [simp]: "callback (dwell_action i) = Some TURN_SPARK_PIN_HIGH" "callback (fire_action i) = Some FIRE_SPARK"
  by (simp_all add: dwell_action_def fire_action_def)

context spark_scheduler
begin

lemma ready_spark:
  assumes "ready e xs"
  shows "ready (set_ignition_event i v e) xs" "ready (e\<lparr>globalSparkIdCounter := n\<rparr>) xs" "ready (e\<lparr>ignitionErrorDetection := b\<rparr>) xs"
  by (rule ready_other [OF assms], cases e, simp add: set_ignition_event_def)+

lemma handleSparkEvent_plans:
  fixes trg edge :: int and i :: nat and e :: "'w spark_scheme" and limited :: bool
  defines "ev \<equiv> ignitionEvents e ! i"
  assumes "ready e xs" "sparkDwell e = Some ms" "0 < ms" "sparkAngle ev = Some a" "\<bar>a\<bar> \<le> 10000000" "oneDegreeUs (ec e) = Some d"
    and "0 \<le> oc_fl cfg (d * angleOffsetFromTriggerEvent (dwellPosition ev))" "i < length (ignitionEvents e)"
    and "length (angleBasedEvents e) \<le> QUEUE_LENGTH_LIMIT"
    and "findTriggerPosition (oc_fl cfg) (triggerShape e) (Some a) (Some (globalTriggerAngleOffset (oc_central cfg))) = Some (Some p)"
  defines "td \<equiv> angle_time (oc_fl cfg) d edge (angleOffsetFromTriggerEvent (dwellPosition ev)) e"
    and "t \<equiv> angle_time (oc_fl cfg) d edge (angleOffsetFromTriggerEvent p) e"
    and "b \<equiv> triggerEventIndex p = trg"
  defines "ys \<equiv> if limited then xs else agenda_add (ie_dwellTimer ev) td (dwell_action i) xs"
  assumes "\<not> limited \<Longrightarrow> soon td" "b \<Longrightarrow> soon t"
  shows "\<exists>e'. handleSparkEvent cfg sched limited trg i edge e = Some e' \<and>
    ready e' (if b then agenda_add (spark_timer i e) t (fire_action i) ys else ys) \<and>
    (\<not> b \<longrightarrow> ie_spark ev \<in> set (angleBasedEvents e') \<and> abe_position (angleEvents e' (ie_spark ev)) = p \<and>
       abe_action (angleEvents e' (ie_spark ev)) = fire_action i) \<and>
    ignitionEvents e' = (ignitionEvents e)[i := ev\<lparr>sparkId := globalSparkIdCounter e, sparksRemaining := if limited then 0 else multispark_count e\<rparr>]"
proof -
  define e1 where "e1 = e\<lparr>ignitionErrorDetection := cb_add 0 (ignitionErrorDetection e)\<rparr>"
  define v where "v = ev\<lparr>sparkId := globalSparkIdCounter e1\<rparr>"
  have v: "v = ev\<lparr>sparkId := globalSparkIdCounter e\<rparr>" by (simp add: v_def e1_def)
  define e2 where "e2 = set_ignition_event i v (e1\<lparr>globalSparkIdCounter := to_i32 (globalSparkIdCounter e1 + 1)\<rparr>)"
  have e2: "ready e2 xs" unfolding e2_def e1_def using assms(2) by (intro ready_spark) simp_all
  have f2: "ec e2 = ec e" "triggerShape e2 = triggerShape e" "angleEvents e2 = angleEvents e" "angleBasedEvents e2 = angleBasedEvents e"
    "ignitionEvents e2 = (ignitionEvents e)[i := v]" "multispark_count e2 = multispark_count e" "US2NT e2 us = US2NT e us" for us
    by (simp_all add: e2_def e1_def set_ignition_event_def US2NT_def)
  obtain e3 where e3: "(if limited then Some e2 else sched (ie_dwellTimer ev) td (dwell_action i) e2) = Some e3" "ready e3 ys" "same_rest e2 e3"
    using sched_adds [OF e2, of "dwell_action i" td "ie_dwellTimer ev"] e2 assms(16) by (cases limited) (auto simp: ys_def)
  note f3 = same_rest_outputs [OF e3(3)] same_more_spark [OF same_rest_outputs(5) [OF e3(3)]]
  define e4 where "e4 = set_ignition_event i ((ignitionEvents e3 ! i)\<lparr>sparksRemaining := if limited then 0 else multispark_count e3\<rparr>) e3"
  have e4': "limited \<Longrightarrow> set_ignition_event i ((ignitionEvents e3 ! i)\<lparr>sparksRemaining := 0\<rparr>) e3 = e4"
    "\<not> limited \<Longrightarrow> set_ignition_event i ((ignitionEvents e3 ! i)\<lparr>sparksRemaining := multispark_count e3\<rparr>) e3 = e4"
    by (simp_all add: e4_def)
  have e4: "ready e4 ys" unfolding e4_def using e3(2) by (rule ready_spark)
  have f4: "ec e4 = ec e" "triggerShape e4 = triggerShape e" "angleEvents e4 = angleEvents e" "angleBasedEvents e4 = angleBasedEvents e"
    "ignitionEvents e4 = (ignitionEvents e)[i := v\<lparr>sparksRemaining := if limited then 0 else multispark_count e\<rparr>]"
    "executor.ntPerUs e4 = executor.ntPerUs e"
    using f3 f2 assms(9) by (simp_all add: e4_def set_ignition_event_def e2_def e1_def)
  have t: "angle_time (oc_fl cfg) d edge (angleOffsetFromTriggerEvent p) e4 = t" using f4 by (simp add: t_def angle_time_def US2NT_def)
  have "\<exists>e5. scheduleOrQueue cfg sched (ie_spark ev) (Some trg) edge (Some a) (fire_action i) e4 = Some (b, e5) \<and>
    ready e5 (if b then agenda_add (abe_timer (angleEvents e4 (ie_spark ev))) t (fire_action i) ys else ys) \<and>
    angleBasedEvents e5 = (if b \<or> ie_spark ev \<in> set (angleBasedEvents e4) then angleBasedEvents e4 else angleBasedEvents e4 @ [ie_spark ev]) \<and>
    abe_position (angleEvents e5 (ie_spark ev)) = p \<and> (\<not> b \<longrightarrow> abe_action (angleEvents e5 (ie_spark ev)) = fire_action i) \<and>
    outputs.more e5 = outputs.more e4"
    using scheduleOrQueue_plans [OF e4, of d "fire_action i" cfg a p trg edge "ie_spark ev"] assms f4 t by (auto simp: b_def)
  then obtain e5 where e5: "scheduleOrQueue cfg sched (ie_spark ev) (Some trg) edge (Some a) (fire_action i) e4 = Some (b, e5)"
    "ready e5 (if b then agenda_add (abe_timer (angleEvents e4 (ie_spark ev))) t (fire_action i) ys else ys)"
    "angleBasedEvents e5 = (if b \<or> ie_spark ev \<in> set (angleBasedEvents e4) then angleBasedEvents e4 else angleBasedEvents e4 @ [ie_spark ev])"
    "abe_position (angleEvents e5 (ie_spark ev)) = p" "\<not> b \<longrightarrow> abe_action (angleEvents e5 (ie_spark ev)) = fire_action i"
    "outputs.more e5 = outputs.more e4" by blast
  have "ignitionEvents e5 = ignitionEvents e4" using same_more_spark [OF e5(6)] by simp
  moreover have "assertAngle CUSTOM_ERR_6549 a e4 = (a, e4)" using assms(6) by (auto simp: assertAngle_def)
  moreover have "td = edge + US2NT e2 (c_trunc (oc_fl cfg (d * angleOffsetFromTriggerEvent (dwellPosition ev))))"
    using f2 by (simp add: td_def angle_time_def)
  ultimately have "handleSparkEvent cfg sched limited trg i edge e = Some e5"
    using e3(1) e5(1) assms(3-8)
    by (cases limited)
      (simp_all add: handleSparkEvent_def Let_def ev_def [symmetric] e1_def [symmetric] v_def [symmetric] e2_def [symmetric] e4')
  then show ?thesis
    using e5 f4 \<open>ignitionEvents e5 = ignitionEvents e4\<close> by (auto simp: v spark_timer_def ev_def)
qed

end

interpretation callback_spark: spark_scheduler "scheduleByTimestampNt gpt exec" "callback_ready lo hi" "\<lambda>t. lo \<le> t \<and> t \<le> hi"
  for gpt exec lo hi ..

interpretation interrupt_spark: spark_scheduler "scheduleByTimestampNt gpt exec" "interrupt_ready lo hi" "\<lambda>t. lo \<le> t \<and> t \<le> hi"
  for gpt exec lo hi ..

text \<open>The two contexts in which the executor is asked.\<close>

definition executor_ready :: "int \<Rightarrow> int \<Rightarrow> 'w executor_scheme \<Rightarrow> entry list \<Rightarrow> bool" where
  "executor_ready lo hi e xs \<longleftrightarrow> callback_ready lo hi e xs \<or> interrupt_ready lo hi e xs"

lemma executor_ready_queue: "executor_ready lo hi e xs \<Longrightarrow> queue_rep e xs"
  by (auto simp: executor_ready_def callback_ready_def interrupt_ready_def)

text \<open>
  C12: at a tooth the events that waited for it, and no others, leave the list, and the executor gets for each of them its
  timer and its action, for the time at which the crankshaft reaches its angle; the walk over the list ends although it
  removes elements. The request for a timer that is still pending is dropped. This is for a known speed, a list
  without duplicates, actions that have a callback, and times within the executor's horizon (\<open>executor_ready\<close>).
\<close>

theorem waiting_events_scheduled:
  fixes e :: "'w outputs_scheme"
  assumes "executor_ready lo hi e xs" "oneDegreeUs (ec e) = Some d" "distinct (angleBasedEvents e)"
    and "\<forall>c\<in>set (angleBasedEvents e). at_tooth trg e c \<longrightarrow> callback (abe_action (angleEvents e c)) \<noteq> None \<and>
      lo \<le> fst (snd (tooth_request (oc_fl oc) d edge e c)) \<and> fst (snd (tooth_request (oc_fl oc) d edge e c)) \<le> hi"
  shows "\<exists>e'. scheduleAllSparkEventsUntilNextTriggerTooth oc (scheduleByTimestampNt gpt exec) trg edge e = Some e' \<and>
    angleBasedEvents e' = filter (\<lambda>c. \<not> at_tooth trg e c) (angleBasedEvents e) \<and>
    queue_rep e' (add_requests (map (tooth_request (oc_fl oc) d edge e) (filter (at_tooth trg e) (angleBasedEvents e))) xs)"
  using assms(1) callback_tooth.scheduleAll_runs [OF _ assms(2-4), of xs gpt exec]
    interrupt_tooth.scheduleAll_runs [OF _ assms(2-4), of xs gpt exec] executor_ready_queue
  unfolding executor_ready_def by blast

text \<open>Two sparks wait, for different teeth.\<close>

definition waiting_sparks :: spark where
  "waiting_sparks = four_cylinders\<lparr>readings := (\<lambda>_. 1000), reentrantFlag := True, angleBasedEvents := [0, 1],
     angleEvents := (\<lambda>i. \<lparr>abe_timer = 2 * i + 2, abe_position = \<lparr>triggerEventIndex = int i + 2, angleOffsetFromTriggerEvent = 30\<rparr>,
       abe_action = fire_action i\<rparr>)\<rparr>"

lemma four_cylinders_queue: "queue_rep four_cylinders []"
  by (simp add: queue_rep_def four_cylinders_def executor.defs outputs.defs demo_executor_def fresh_scheduling_def)

lemma running_engine_degree [simp]: "oneDegreeUs running_engine = Some 10"
  by (simp add: running_engine_def engine_rpm.defs engine_trigger.defs)

lemma waiting_sparks_ready: "callback_ready 200000 300000 waiting_sparks []"
  using four_cylinders_queue by (simp add: callback_ready_def waiting_sparks_def queue_rep_def TOO_FAR_INTO_FUTURE_US_def)

theorem waiting_events_scheduled_witness:
  "\<exists>e'. scheduleAllSparkEventsUntilNextTriggerTooth four_config (scheduleByTimestampNt demo_gpt idle_exec) 2 200000 waiting_sparks = Some e' \<and>
     angleBasedEvents e' = [1] \<and> queue_rep e' [Entry 250400 (fire_action 0) 2]"
proof -
  have req: "tooth_request id 10 200000 waiting_sparks 0 = (2, 250400, fire_action 0)" "at_tooth 2 waiting_sparks 0" "\<not> at_tooth 2 waiting_sparks 1"
    by (simp_all add: tooth_request_def waiting_sparks_def angle_time_def at_tooth_def US2NT_def c_trunc_def Let_def)
  have "angleBasedEvents waiting_sparks = [0, 1]" "oneDegreeUs (ec waiting_sparks) = Some 10" "oc_fl four_config = id"
    "callback (abe_action (angleEvents waiting_sparks 0)) \<noteq> None"
    by (simp_all add: waiting_sparks_def four_config_def output_config.defs)
  with waiting_events_scheduled [of 200000 300000 waiting_sparks "[]" 10 2 four_config 200000 demo_gpt idle_exec] waiting_sparks_ready req
  show ?thesis by (simp add: executor_ready_def add_requests_def agenda_add_def)
qed

text \<open>
  C10: a coil that is charged is fired. When the dwell of a spark starts at a tooth, the executor gets the start of the
  charge (unless the spark is cut) at its angle after the tooth; the spark itself goes to the executor as well if it belongs to the same tooth,
  and otherwise waits, with its position and action, for its own tooth. A cut spark is not charged, but still fired. This is for a known positive dwell, a known
  spark angle and speed, a charge delay that is not negative, a position that \<open>findTriggerPosition\<close> finds, a waiting list
  within its limit, timers that are not pending, and times within the executor's horizon (\<open>executor_ready\<close>).
\<close>

theorem charging_coil_is_fired:
  fixes e :: "'w spark_scheme" and limited :: bool and i :: nat and edge trg :: int
  defines "ev \<equiv> ignitionEvents e ! i"
  assumes "executor_ready lo hi e xs" "sparkDwell e = Some ms" "0 < ms" "sparkAngle ev = Some a" "\<bar>a\<bar> \<le> 10000000" "oneDegreeUs (ec e) = Some d"
    and "0 \<le> oc_fl cfg (d * angleOffsetFromTriggerEvent (dwellPosition ev))" "i < length (ignitionEvents e)"
    and "length (angleBasedEvents e) \<le> QUEUE_LENGTH_LIMIT"
    and "findTriggerPosition (oc_fl cfg) (triggerShape e) (Some a) (Some (globalTriggerAngleOffset (oc_central cfg))) = Some (Some p)"
  defines "td \<equiv> angle_time (oc_fl cfg) d edge (angleOffsetFromTriggerEvent (dwellPosition ev)) e"
    and "t \<equiv> angle_time (oc_fl cfg) d edge (angleOffsetFromTriggerEvent p) e"
  assumes "ie_dwellTimer ev \<notin> eaddr ` set xs" "spark_timer i e \<notin> eaddr ` set xs" "spark_timer i e \<noteq> ie_dwellTimer ev"
    and "lo \<le> td" "td \<le> hi" "lo \<le> t" "t \<le> hi"
  shows "\<exists>e' ys. handleSparkEvent cfg (scheduleByTimestampNt gpt exec) limited trg i edge e = Some e' \<and> queue_rep e' ys \<and>
    set ys = set xs \<union> (if limited then {} else {Entry td (dwell_action i) (ie_dwellTimer ev)}) \<union>
      (if triggerEventIndex p = trg then {Entry t (fire_action i) (spark_timer i e)} else {}) \<and>
    (triggerEventIndex p \<noteq> trg \<longrightarrow> ie_spark ev \<in> set (angleBasedEvents e') \<and>
       abe_position (angleEvents e' (ie_spark ev)) = p \<and> abe_action (angleEvents e' (ie_spark ev)) = fire_action i)"
proof -
  let ?ys = "if limited then xs else agenda_add (ie_dwellTimer ev) td (dwell_action i) xs"
  let ?zs = "if triggerEventIndex p = trg then agenda_add (spark_timer i e) t (fire_action i) ?ys else ?ys"
  have "\<exists>e'. handleSparkEvent cfg (scheduleByTimestampNt gpt exec) limited trg i edge e = Some e' \<and> queue_rep e' ?zs \<and>
    (triggerEventIndex p \<noteq> trg \<longrightarrow> ie_spark ev \<in> set (angleBasedEvents e') \<and>
       abe_position (angleEvents e' (ie_spark ev)) = p \<and> abe_action (angleEvents e' (ie_spark ev)) = fire_action i)"
    using assms(2) unfolding executor_ready_def
  proof
    assume r: "callback_ready lo hi e xs"
    from callback_spark.handleSparkEvent_plans [OF r, where ms = ms and i = i and a = a and d = d and cfg = cfg and p = p and limited = limited
        and edge = edge and trg = trg and gpt = gpt and exec = exec] assms(3-)
    show ?thesis unfolding ev_def td_def t_def by (auto dest: callback_ready_queue)
  next
    assume r: "interrupt_ready lo hi e xs"
    from interrupt_spark.handleSparkEvent_plans [OF r, where ms = ms and i = i and a = a and d = d and cfg = cfg and p = p and limited = limited
        and edge = edge and trg = trg and gpt = gpt and exec = exec] assms(3-)
    show ?thesis unfolding ev_def td_def t_def by (auto dest: interrupt_ready_queue)
  qed
  moreover have "set ?zs = set xs \<union> (if limited then {} else {Entry td (dwell_action i) (ie_dwellTimer ev)}) \<union>
      (if triggerEventIndex p = trg then {Entry t (fire_action i) (spark_timer i e)} else {})"
    using assms(14-16) by (auto simp: agenda_add_def)
  ultimately show ?thesis by blast
qed

lemma position_170: "findTriggerPosition id four_teeth (Some 170) (Some 0) = Some (Some \<lparr>triggerEventIndex = 0, angleOffsetFromTriggerEvent = 170\<rparr>)"
proof -
  have "fixAngle2 id (Some 170) 720 = Some 170"
    by (simp add: fixAngle2_def assertAngleRange_def fixAngle_up.simps fixAngle_down.simps)
  then show ?thesis
    by (simp add: findTriggerPosition_def four_teeth_def blank_waveform_def assertAngleRange_def getEngineCycle_def
        FOUR_STROKE_ENGINE_CYCLE_def nth_append)
qed

theorem charging_coil_is_fired_witness:
  "\<exists>e' ys. handleSparkEvent four_config (scheduleByTimestampNt demo_gpt idle_exec) False 0 1 200000
       (four_cylinders\<lparr>readings := (\<lambda>_. 1000)\<rparr>) = Some e' \<and> queue_rep e' ys \<and>
     set ys = {Entry 368000 (dwell_action 1) 3, Entry 485600 (fire_action 1) 4}"
proof -
  let ?e = "four_cylinders\<lparr>readings := (\<lambda>_. 1000)\<rparr>"
  have "interrupt_ready 200000 500000 ?e []"
    using four_cylinders_queue by (simp add: interrupt_ready_def queue_rep_def TOO_FAR_INTO_FUTURE_US_def)
  moreover have "ignitionEvents ?e ! 1 = quiet_event 1" "sparkDwell ?e = Some 4" "oneDegreeUs (ec ?e) = Some 10" "length (ignitionEvents ?e) = 12"
    "angleBasedEvents ?e = []" "triggerShape ?e = four_teeth" "spark_timer 1 ?e = 4" "oc_fl four_config = id"
    "globalTriggerAngleOffset (oc_central four_config) = 0"
    by (simp_all add: spark_timer_def quiet_event_def four_config_def output_config.defs wheel_config_def)
      (simp add: four_cylinders_def executor.defs outputs.defs)
  moreover have "angle_time id 10 200000 100 ?e = 368000" "angle_time id 10 200000 170 ?e = 485600"
    by (simp_all add: angle_time_def US2NT_def c_trunc_def)
  ultimately show ?thesis
    using charging_coil_is_fired [of 200000 500000 ?e "[]" 4 1 170 10 four_config "\<lparr>triggerEventIndex = 0, angleOffsetFromTriggerEvent = 170\<rparr>"
        200000 demo_gpt idle_exec False 0] position_170
    by (simp add: executor_ready_def quiet_event_def insert_commute)
qed

end
