(* ===== verification/Ignition_Plan.thy ===== *)
theory Ignition_Plan
  imports Spark_Safety Trigger_Index
begin

text \<open>The plan of an engine cycle: which coil each cylinder gets and at which angle, from the pin indices to the ignition events.\<close>

text \<open>The planning changes the ignition events and what has been reported.\<close>

definition plan_frame :: "'w spark_scheme \<Rightarrow> 'w spark_scheme \<Rightarrow> bool" where
  "plan_frame e e' \<longleftrightarrow> e'\<lparr>ignitionEvents := [], firmwareErr := None, warningLog := []\<rparr> =
     e\<lparr>ignitionEvents := [], firmwareErr := None, warningLog := []\<rparr>"

lemma plan_frame_refl [simp]: "plan_frame e e"
  by (simp add: plan_frame_def)

lemma plan_frame_trans: "plan_frame e e' \<Longrightarrow> plan_frame e' e'' \<Longrightarrow> plan_frame e e''"
  by (simp add: plan_frame_def)

lemma plan_frame_steps [simp]:
  "plan_frame e (warning code e)" "plan_frame e (firmwareError code e)" "plan_frame e (set_ignition_event i v e)"
  "plan_frame e (snd (assertAngle code a e))" "plan_frame e (report code e)" "plan_frame e (assertPinAssigned c e)"
  by (simp_all add: plan_frame_def warning_def firmwareError_def set_ignition_event_def assertAngle_def report_def assertPinAssigned_def)

lemma plan_frame_fields:
  assumes "plan_frame e e'"
  shows "coils e' = coils e" "ignitionPin e' = ignitionPin e" "ignitionPositionWithinEngineCycle e' = ignitionPositionWithinEngineCycle e"
    "timingAdvance e' = timingAdvance e" "dwellAngle e' = dwellAngle e" "sparkDwell e' = sparkDwell e" "triggerShape e' = triggerShape e"
    "ec e' = ec e"
  using assms by (cases e; cases e'; simp add: plan_frame_def)+

text \<open>Reports leave the events alone too.\<close>

definition only_reports :: "'w spark_scheme \<Rightarrow> 'w spark_scheme \<Rightarrow> bool" where
  "only_reports e e' \<longleftrightarrow> plan_frame e e' \<and> ignitionEvents e' = ignitionEvents e"

lemma only_reports_refl [simp]: "only_reports e e"
  by (simp add: only_reports_def)

lemma only_reports_trans: "only_reports e e' \<Longrightarrow> only_reports e' e'' \<Longrightarrow> only_reports e e''"
  by (auto simp: only_reports_def intro: plan_frame_trans)

lemma only_reports_steps [simp]:
  "only_reports e (warning code e)" "only_reports e (firmwareError code e)"
  "only_reports e (snd (assertAngle code a e))" "only_reports e (report code e)" "only_reports e (assertPinAssigned c e)"
  by (auto simp: only_reports_def) (simp_all add: warning_def firmwareError_def assertAngle_def report_def assertPinAssigned_def)

lemma only_reports_fold: "only_reports e (fold report codes e)"
  by (induction codes arbitrary: e) (auto intro: only_reports_trans only_reports_steps)

lemma only_reports_coil: "coil_of_index cfg index e = (c, e') \<Longrightarrow>
    c = nat (fst (getCylinderId (oc_specs cfg) index) - 1) \<and> only_reports e e'"
  by (auto simp: coil_of_index_def only_reports_fold split: prod.splits)

lemma only_reports_position: "only_reports e (position_reports fl shape a goff e)"
proof -
  have "only_reports e (firmwareError code e')" "only_reports e (warning code e')" "only_reports e (snd (assertAngle code x e'))"
    if "only_reports e e'" for code x e' using that by (auto intro: only_reports_trans only_reports_steps)
  then show ?thesis unfolding position_reports_def Let_def by (auto split: option.split)
qed

lemma findTriggerPosition_found:
  assumes "mono fl" "float_ok fl"
  shows "findTriggerPosition fl shape a goff \<noteq> None"
proof -
  have "0 < getEngineCycle om" "getEngineCycle om \<le> 1000" for om by (simp_all add: getEngineCycle_def FOUR_STROKE_ENGINE_CYCLE_def)
  then have found: "\<exists>y. fixAngle2 fl x (getEngineCycle om) = Some y" for x om
    using fixAngle2_range [OF assms, of "getEngineCycle om" x] by auto
  show ?thesis
  proof (cases "\<exists>x tdc g. a = Some x \<and> tdcPosition shape = Some tdc \<and> goff = Some g")
    case True
    then obtain x tdc g where h: "a = Some x" "tdcPosition shape = Some tdc" "goff = Some g" by blast
    obtain y where "fixAngle2 fl (Some (fl (assertAngleRange x + fl (assertAngleRange tdc + assertAngleRange g))))
        (getEngineCycle (operationMode shape)) = Some y" using found by blast
    then show ?thesis by (simp add: findTriggerPosition_def Let_def h)
  qed (auto simp: findTriggerPosition_def split: option.splits)
qed

lemma setAngle_reports:
  assumes "mono (oc_fl cfg)" "float_ok (oc_fl cfg)"
  obtains p' e' where "setAngle cfg a p (e :: 'w spark_scheme) = Some (p', e')" "only_reports e e'"
proof -
  obtain r where "findTriggerPosition (oc_fl cfg) (triggerShape e) a (Some (globalTriggerAngleOffset (oc_central cfg))) = Some r"
    using findTriggerPosition_found [OF assms] by (metis not_None_eq)
  then have "setAngle cfg a p e = Some (case r of None \<Rightarrow> p | Some q \<Rightarrow> q,
      position_reports (oc_fl cfg) (triggerShape e) a (Some (globalTriggerAngleOffset (oc_central cfg))) e)"
    by (simp add: setAngle_def Let_def)
  from that [OF this only_reports_position] show ?thesis .
qed

subsection \<open>One cylinder\<close>

definition coil_index :: "'c spark_config_scheme \<Rightarrow> int \<Rightarrow> nat" where
  "coil_index cfg index = nat (fst (getCylinderId (oc_specs cfg) index) - 1)"

definition second_coil :: "'c spark_config_scheme \<Rightarrow> 'w spark_scheme \<Rightarrow> int \<Rightarrow> nat option" where
  "second_coil cfg e index =
     (if currentIgnitionMode cfg e = IM_WASTED_SPARK \<and> twoWireBatchIgnition cfg
      then Some (coil_index cfg (index + c_div (cylindersCount (oc_specs cfg)) 2)) else None)"

definition spark_angle :: "rounding \<Rightarrow> float32 \<Rightarrow> float32 \<Rightarrow> float32 \<Rightarrow> float32" where
  "spark_angle fl advance position correction = fl (fl (- advance + position) + correction)"

lemma currentIgnitionMode_frame: "plan_frame e e' \<Longrightarrow> currentIgnitionMode cfg e' = currentIgnitionMode cfg e"
  using plan_frame_fields(8) [of e e'] by (simp add: currentIgnitionMode_def)

lemma prepareCylinder_plans:
  assumes fl: "mono (oc_fl cfg)" "float_ok (oc_fl cfg)"
    and i: "i < length (ignitionEvents e)" and cyl: "cylinderIndex (ignitionEvents e ! i) = cyl"
    and adv: "timingAdvance e = Some adv" and corr: "timing_offset_cylinder cfg ! cyl = Some corr"
    and pos: "\<bar>ignitionPositionWithinEngineCycle e ! cyl\<bar> \<le> 10000000"
  shows "\<exists>e'. prepareCylinderIgnitionSchedule cfg (Some dw) ms i e = Some e' \<and> plan_frame e e' \<and>
    (\<exists>v. ignitionEvents e' = (ignitionEvents e)[i := v] \<and> cylinderIndex v = cyl \<and>
      ie_outputs v = [Some (coil_index cfg (ignitionPin e ! cyl)), second_coil cfg e (ignitionPin e ! cyl)] \<and>
      sparkAngle v = Some (spark_angle (oc_fl cfg) adv (ignitionPositionWithinEngineCycle e ! cyl) corr))"
proof -
  define pin where "pin = ignitionPin e ! cyl"
  define angle where "angle = spark_angle (oc_fl cfg) adv (ignitionPositionWithinEngineCycle e ! cyl) corr"
  define v1 where "v1 = (ignitionEvents e ! i)\<lparr>ie_sparkDwell := ms\<rparr>"
  define e1 where "e1 = set_ignition_event i v1 e"
  have e1: "plan_frame e e1" "ignitionEvents e1 = (ignitionEvents e)[i := v1]" by (simp_all add: e1_def) (simp add: set_ignition_event_def)
  note f1 = plan_frame_fields [OF e1(1)]
  have v1: "ignitionEvents e1 ! i = v1" "cylinderIndex v1 = cyl" using i cyl by (simp_all add: e1(2) v1_def)
  have range: "assertAngle CUSTOM_ERR_6566 (ignitionPositionWithinEngineCycle e ! cyl) e1 = (ignitionPositionWithinEngineCycle e ! cyl, e1)"
    using pos by (auto simp: assertAngle_def)
  obtain c e2 where c2: "coil_of_index cfg pin e1 = (c, e2)" by fastforce
  have e2: "c = coil_index cfg pin" "only_reports e1 e2" using only_reports_coil [OF c2] by (simp_all add: coil_index_def)
  define two where "two \<longleftrightarrow> currentIgnitionMode cfg e = IM_WASTED_SPARK \<and> twoWireBatchIgnition cfg"
  obtain s e3 where s3: "(if two then let (second, e) = coil_of_index cfg (pin + c_div (cylindersCount (oc_specs cfg)) 2) e2
        in (Some second, assertPinAssigned second e) else (None, e2)) = (s, e3)" by fastforce
  have e3: "s = second_coil cfg e pin" "only_reports e2 e3"
    using s3 by (auto simp: second_coil_def two_def coil_index_def dest!: only_reports_coil intro: only_reports_trans only_reports_steps
        split: if_splits prod.splits)
  define e4 where "e4 = assertPinAssigned c e3"
  have e4: "only_reports e1 e4" unfolding e4_def using e2(2) e3(2) by (blast intro: only_reports_trans only_reports_steps)
  define v2 where "v2 = v1\<lparr>ie_outputs := [Some c, s], sparkAngle := Some angle\<rparr>"
  define e5 where "e5 = set_ignition_event i v2 e4"
  have e5: "plan_frame e e5" "ignitionEvents e5 = (ignitionEvents e)[i := v2]" "ignitionEvents e4 ! i = v1"
    using e4 e1 i v1 by (auto simp: e5_def only_reports_def intro: plan_frame_trans) (simp add: set_ignition_event_def)
  define start where "start = oc_fl cfg (angle + - dw)"
  obtain a e6 where a6: "assertAngle CUSTOM_ERR_6550 start e5 = (a, e6)" by fastforce
  have e6: "only_reports e5 e6" using only_reports_steps(3) [of e5 CUSTOM_ERR_6550 start] a6 by simp
  obtain p e7 where s7: "setAngle cfg (Some a) (dwellPosition (ignitionEvents e6 ! i)) e6 = Some (p, e7)" "only_reports e6 e7"
    using setAngle_reports [OF fl] by blast
  have e7: "only_reports e5 e7" using e6 s7(2) by (rule only_reports_trans)
  have mode: "currentIgnitionMode cfg e2 = currentIgnitionMode cfg e"
    using e1(1) e2(2) by (auto simp: only_reports_def intro: currentIgnitionMode_frame plan_frame_trans)
  have pin2: "ignitionPin e1 ! cyl = pin" using f1 by (simp add: pin_def)
  have ang: "sum_angle (oc_fl cfg) (sum_angle (oc_fl cfg) (map_option uminus (timingAdvance e1)) (Some (ignitionPositionWithinEngineCycle e ! cyl)))
      (timing_offset_cylinder cfg ! cyl) = Some angle"
    using f1 adv corr by (simp add: sum_angle_def angle_def spark_angle_def)
  have "prepareCylinderIgnitionSchedule cfg (Some dw) ms i e = Some (set_ignition_event i ((ignitionEvents e7 ! i)\<lparr>dwellPosition := p\<rparr>) e7)"
    unfolding prepareCylinderIgnitionSchedule_def Let_def v1_def [symmetric] e1_def [symmetric] v1 f1(3) range prod.case ang pin2 c2
      option.distinct(2) if_False mode two_def [symmetric] s3 [unfolded Let_def] e4_def [symmetric] e5(3) v2_def [symmetric] e5_def [symmetric]
    using a6 s7 by (simp add: sum_angle_def start_def)
  moreover have "ignitionEvents e7 ! i = v2" using e7 e5 i by (simp add: only_reports_def)
  moreover have "plan_frame e (set_ignition_event i (v2\<lparr>dwellPosition := p\<rparr>) e7)"
    using e7 e5(1) by (auto simp: only_reports_def intro: plan_frame_trans)
  moreover have "ignitionEvents (set_ignition_event i (v2\<lparr>dwellPosition := p\<rparr>) e7) = (ignitionEvents e)[i := v2\<lparr>dwellPosition := p\<rparr>]"
    using e7 e5(2) by (simp add: set_ignition_event_def only_reports_def)
  ultimately show ?thesis
    using e2(1) e3(1) v1(2) by (intro exI [of _ "set_ignition_event i (v2\<lparr>dwellPosition := p\<rparr>) e7"] conjI exI [of _ "v2\<lparr>dwellPosition := p\<rparr>"])
      (simp_all add: v2_def pin_def angle_def)
qed

subsection \<open>All cylinders\<close>

lemma for_cylinders_snoc:
  "for_cylinders f (is @ [i]) e = (case for_cylinders f is e of None \<Rightarrow> None | Some e \<Rightarrow> f i e)"
  by (induction "is" arbitrary: e) (simp_all split: option.split)

text \<open>The pin indices of individual coils are the positions in the firing order.\<close>

lemma pin_indices:
  assumes "currentIgnitionMode cfg e = IM_INDIVIDUAL_COILS" "k \<le> length (ignitionPin e)"
  shows "for_cylinders (\<lambda>i e. case getIgnitionPinForIndex (oc_specs cfg) (currentIgnitionMode cfg e) (int i) of
                  None \<Rightarrow> None
                | Some (pin, codes) \<Rightarrow> Some (fold report codes (e\<lparr>ignitionPin := (ignitionPin e)[i := pin]\<rparr>))) [0..<k] e =
    Some (e\<lparr>ignitionPin := map int [0..<k] @ drop k (ignitionPin e)\<rparr>)"
  using assms(2)
proof (induction k)
  case (Suc k)
  let ?e = "e\<lparr>ignitionPin := map int [0..<k] @ drop k (ignitionPin e)\<rparr>"
  have "currentIgnitionMode cfg ?e = IM_INDIVIDUAL_COILS" using assms(1) by (simp add: currentIgnitionMode_def)
  moreover have "drop k (ignitionPin e) = ignitionPin e ! k # drop (Suc k) (ignitionPin e)"
    using Suc.prems by (intro Cons_nth_drop_Suc [symmetric]) simp
  then have "(ignitionPin ?e)[k := int k] = map int [0..<Suc k] @ drop (Suc k) (ignitionPin e)"
    by (simp add: list_update_append)
  ultimately show ?case
    using Suc by (simp add: for_cylinders_snoc getIgnitionPinForIndex_def)
qed simp

lemma plan_loop:
  fixes e :: "'w spark_scheme"
  assumes fl: "mono (oc_fl cfg)" "float_ok (oc_fl cfg)"
    and len: "k \<le> length (ignitionEvents e)" and adv: "timingAdvance e = Some adv"
    and corr: "\<And>i. i < k \<Longrightarrow> timing_offset_cylinder cfg ! i = Some (corr i)"
    and pos: "\<And>i. i < k \<Longrightarrow> \<bar>ignitionPositionWithinEngineCycle e ! i\<bar> \<le> 10000000"
  shows "\<exists>e'. for_cylinders (\<lambda>i e'. prepareCylinderIgnitionSchedule cfg (Some dw) ms i
                 (set_ignition_event i ((ignitionEvents e' ! i)\<lparr>cylinderIndex := i\<rparr>) e')) [0..<k] e = Some e' \<and> plan_frame e e' \<and>
    length (ignitionEvents e') = length (ignitionEvents e) \<and>
    (\<forall>i < k. let v = ignitionEvents e' ! i in cylinderIndex v = i \<and>
      ie_outputs v = [Some (coil_index cfg (ignitionPin e ! i)), second_coil cfg e (ignitionPin e ! i)] \<and>
      sparkAngle v = Some (spark_angle (oc_fl cfg) adv (ignitionPositionWithinEngineCycle e ! i) (corr i)))"
  using len corr pos
proof (induction k)
  case (Suc k)
  then obtain e1 where e1: "for_cylinders (\<lambda>i e'. prepareCylinderIgnitionSchedule cfg (Some dw) ms i
                 (set_ignition_event i ((ignitionEvents e' ! i)\<lparr>cylinderIndex := i\<rparr>) e')) [0..<k] e = Some e1" "plan_frame e e1"
    "length (ignitionEvents e1) = length (ignitionEvents e)"
    "\<forall>i < k. let v = ignitionEvents e1 ! i in cylinderIndex v = i \<and>
      ie_outputs v = [Some (coil_index cfg (ignitionPin e ! i)), second_coil cfg e (ignitionPin e ! i)] \<and>
      sparkAngle v = Some (spark_angle (oc_fl cfg) adv (ignitionPositionWithinEngineCycle e ! i) (corr i))"
    by fastforce
  define e2 where "e2 = set_ignition_event k ((ignitionEvents e1 ! k)\<lparr>cylinderIndex := k\<rparr>) e1"
  have k: "k < length (ignitionEvents e1)" using Suc.prems(1) e1(3) by simp
  have e2: "plan_frame e e2" "ignitionEvents e2 = (ignitionEvents e1)[k := (ignitionEvents e1 ! k)\<lparr>cylinderIndex := k\<rparr>]"
    using e1(2) by (auto simp: e2_def intro: plan_frame_trans) (simp add: set_ignition_event_def)
  note f = plan_frame_fields [OF e2(1)]
  have "second_coil cfg e2 x = second_coil cfg e x" for x
    by (simp add: second_coil_def currentIgnitionMode_frame [OF e2(1)])
  with prepareCylinder_plans [OF fl, of k e2 k adv "corr k" dw ms] k e2(2) f(2-4) adv Suc.prems(2,3)
  obtain e3 v where e3: "prepareCylinderIgnitionSchedule cfg (Some dw) ms k e2 = Some e3" "plan_frame e2 e3"
    "ignitionEvents e3 = (ignitionEvents e2)[k := v]" "cylinderIndex v = k"
    "ie_outputs v = [Some (coil_index cfg (ignitionPin e ! k)), second_coil cfg e (ignitionPin e ! k)]"
    "sparkAngle v = Some (spark_angle (oc_fl cfg) adv (ignitionPositionWithinEngineCycle e ! k) (corr k))"
    by auto
  have "ignitionEvents e3 = (ignitionEvents e1)[k := v]" using e3(3) e2(2) by simp
  moreover have "plan_frame e e3" using e2(1) e3(2) by (rule plan_frame_trans)
  ultimately show ?case
    using e1 e3 k by (intro exI [of _ e3]) (auto simp: for_cylinders_snoc e2_def [symmetric] less_Suc_eq Let_def nth_list_update)
qed simp

subsection \<open>From the configuration to the plan\<close>

text \<open>The ignition of cylinder \<open>i\<close> of the firing order lies that far into the cycle.\<close>

definition firing_position :: "rounding \<Rightarrow> nat \<Rightarrow> int \<Rightarrow> nat \<Rightarrow> float32" where
  "firing_position fl cycle n i = fl (fl (of_nat cycle * of_nat i) / of_int n)"

lemma firing_position_bound:
  assumes "mono fl" "float_ok fl" "cycle \<le> 1000" "int i < n" "n \<le> 12"
  shows "\<bar>firing_position fl cycle n i\<bar> \<le> 10000000"
proof -
  have fl: "fl 0 = 0" "fl 12000 = 12000"
    using float_ok_int [OF assms(2), of 0] float_ok_int [OF assms(2), of 12000] by simp_all
  have range: "0 \<le> fl x \<and> fl x \<le> 12000" if "0 \<le> x" "x \<le> 12000" for x
    using monoD [OF assms(1) that(1)] monoD [OF assms(1) that(2)] fl by simp
  have "cycle * i \<le> 1000 * 12" using assms(3-5) by (intro mult_le_mono) auto
  then have "rat_of_nat (cycle * i) \<le> of_nat (1000 * 12)" by (simp only: of_nat_le_iff)
  then have x: "0 \<le> fl (of_nat cycle * of_nat i)" "fl (of_nat cycle * of_nat i) \<le> 12000"
    using range [of "of_nat cycle * of_nat i"] by simp_all
  have n: "1 \<le> (of_int n :: rat)" using assms(4) by simp
  have "fl (of_nat cycle * of_nat i) / of_int n \<le> fl (of_nat cycle * of_nat i)"
    using x(1) n by (simp add: divide_le_eq mult_le_cancel_left1)
  with x n have "0 \<le> fl (of_nat cycle * of_nat i) / of_int n" "fl (of_nat cycle * of_nat i) / of_int n \<le> 12000" by simp_all
  from range [OF this] show ?thesis by (simp add: firing_position_def)
qed

lemma set_positions:
  fixes e :: "'w spark_scheme"
  assumes "k \<le> length (ignitionPositionWithinEngineCycle e)"
  shows "fold (setPosition cfg) [0..<k] e = e\<lparr>ignitionPositionWithinEngineCycle :=
    map (firing_position (oc_fl cfg) (engineCycle (ec e)) (cylindersCount (oc_specs cfg))) [0..<k] @
    drop k (ignitionPositionWithinEngineCycle e)\<rparr>"
  using assms
proof (induction k)
  case (Suc k)
  have "drop k (ignitionPositionWithinEngineCycle e) = ignitionPositionWithinEngineCycle e ! k # drop (Suc k) (ignitionPositionWithinEngineCycle e)"
    using Suc.prems by (intro Cons_nth_drop_Suc [symmetric]) simp
  then show ?case using Suc by (simp add: setPosition_def Let_def firing_position_def list_update_append)
qed simp

text \<open>The coils of a matching firing order, one for each cylinder.\<close>

lemma coil_permutation:
  assumes "matching_specs (oc_specs cfg)"
  defines "n \<equiv> nat (cylindersCount (oc_specs cfg))"
  shows "mset (map (\<lambda>i. coil_index cfg (int i)) [0..<n]) = mset [0..<n]"
proof -
  let ?n = "cylindersCount (oc_specs cfg)"
  have n: "?n = int n" using matching_count [OF assms(1)] by (auto simp: n_def)
  have upto: "[0..int n - 1] = map int [0..<n]" "map (\<lambda>j. nat (j - 1)) [1..int n] = [0..<n]" for n
  proof -
    show "[0..int n - 1] = map int [0..<n]"
      by (induction n) (simp_all add: upto_rec2)
    show "map (\<lambda>j. nat (j - 1)) [1..int n] = [0..<n]"
      by (induction n) (simp_all add: upto_rec2)
  qed
  have "mset (map (fst \<circ> getCylinderId (oc_specs cfg)) (map int [0..<n])) = mset [1..int n]"
    using firing_permutes [OF assms(1), THEN conjunct1] unfolding n upto(1) .
  then have "image_mset (\<lambda>j. nat (j - 1)) (mset (map (fst \<circ> getCylinderId (oc_specs cfg)) (map int [0..<n]))) =
      image_mset (\<lambda>j. nat (j - 1)) (mset [1..int n])" by (rule arg_cong)
  then have "mset (map (\<lambda>j. nat (j - 1)) (map (fst \<circ> getCylinderId (oc_specs cfg)) (map int [0..<n]))) =
      mset (map (\<lambda>j. nat (j - 1)) [1..int n])" by (simp only: mset_map)
  then show ?thesis by (simp only: upto(2) map_map) (simp add: comp_def coil_index_def)
qed

text \<open>The checks of the dwell angle only warn.\<close>

lemma schedule_reports: "\<exists>e'. only_reports e e' \<and> prepareIgnitionSchedule cfg e = initializeIgnitionActions cfg e'"
proof -
  define a where "a = (if dwellAngle e = Some 0 then warning CUSTOM_ZERO_DWELL e else e)"
  define b where "b = (case (dwellAngle a, maxAllowedDwellAngle cfg a) of
     (Some d, Some m) \<Rightarrow> if d > m then warning CUSTOM_DWELL_TOO_LONG a else a | _ \<Rightarrow> a)"
  have "only_reports e a" by (simp add: a_def)
  moreover have "only_reports a b" by (simp add: b_def split: option.split)
  ultimately have "only_reports e b" by (rule only_reports_trans)
  moreover have "prepareIgnitionSchedule cfg e = initializeIgnitionActions cfg b"
    unfolding prepareIgnitionSchedule_def Let_def a_def [symmetric] b_def [symmetric] ..
  ultimately show ?thesis by blast
qed

text \<open>
  C9: in an engine cycle every cylinder is fired by its own coil, at its own time. With individual coils, an engine that is not
  spinning up, pin indices that were not computed for that mode yet, a firing order that matches the number of cylinders, and known
  advance, dwell angle and corrections, \<open>prepareOutputSignals\<close> followed by
  \<open>prepareIgnitionSchedule\<close> makes the plan of the cycle ready: the events use every coil 0 .. n - 1 exactly once and no second one, the
  event at position \<open>i\<close> the coil of the cylinder at that position of the firing order, and its spark angle is its share
  \<open>i / n\<close> of the cycle, less the timing advance, plus the correction of that cylinder, each step rounded.
\<close>

theorem every_cylinder_has_its_coil:
  fixes e :: "'w spark_scheme"
  assumes "mono (oc_fl cfg)" "float_ok (oc_fl cfg)" "matching_specs (oc_specs cfg)"
    and "oc_ignitionMode cfg = IM_INDIVIDUAL_COILS" "\<not> isSpinningUp (ec e)" "ignitionModeForPinIndices e \<noteq> Some IM_INDIVIDUAL_COILS"
    and "timingAdvance e = Some adv" "dwellAngle e = Some dw" "prepareShape (triggerShape e) = Some shape"
    and n: "n = nat (cylindersCount (oc_specs cfg))"
    and "\<forall>i < n. timing_offset_cylinder cfg ! i = Some (corr i)"
    and "length (ignitionEvents e) = 12" "length (ignitionPin e) = 12" "length (ignitionPositionWithinEngineCycle e) = 12"
  shows "\<exists>e1 e2. prepareOutputSignals cfg e = Some e1 \<and> prepareIgnitionSchedule cfg e1 = Some e2 \<and> ignition_isReady e2 \<and>
    mset (map (\<lambda>v. hd (ie_outputs v)) (take n (ignitionEvents e2))) = mset (map Some [0..<n]) \<and>
    (\<forall>i < n. ie_outputs (ignitionEvents e2 ! i) = [Some (nat (fst (getCylinderId (oc_specs cfg) (int i)) - 1)), None] \<and>
       sparkAngle (ignitionEvents e2 ! i) = Some (spark_angle (oc_fl cfg) adv
         (firing_position (oc_fl cfg) (getEngineCycle (engine_operation_mode cfg e)) (int n) i) (corr i)))"
proof -
  let ?cycle = "getEngineCycle (engine_operation_mode cfg e)"
  have count: "cylindersCount (oc_specs cfg) = int n" "0 < n" "n \<le> 12" using matching_count [OF assms(3)] by (auto simp: n)
  have range: "cylinder_range cfg = [0..<n]" by (simp add: cylinder_range_def n)
  define pos where "pos = map (firing_position (oc_fl cfg) ?cycle (int n)) [0..<n] @ drop n (ignitionPositionWithinEngineCycle e)"
  define e0 where "e0 = e\<lparr>ec := (ec e)\<lparr>engineCycle := ?cycle\<rparr>, ignitionPositionWithinEngineCycle := pos\<rparr>"
  have mode0: "currentIgnitionMode cfg e0 = IM_INDIVIDUAL_COILS"
    using assms(4,5) by (simp add: currentIgnitionMode_def getCurrentIgnitionMode_def e0_def isSpinningUp_def)
  have p0: "fold (setPosition cfg) [0..<n] (e\<lparr>ec := (ec e)\<lparr>engineCycle := ?cycle\<rparr>\<rparr>) = e0"
    using set_positions [of n "e\<lparr>ec := (ec e)\<lparr>engineCycle := ?cycle\<rparr>\<rparr>" cfg] assms(14) count(1,3) by (simp add: e0_def pos_def)
  define e1 where "e1 = e0\<lparr>ignitionPin := map int [0..<n] @ drop n (ignitionPin e), ignitionModeForPinIndices := Some IM_INDIVIDUAL_COILS,
    triggerShape := shape\<rparr>"
  have "prepareIgnitionPinIndices cfg IM_INDIVIDUAL_COILS e0 =
      Some (e0\<lparr>ignitionPin := map int [0..<n] @ drop n (ignitionPin e), ignitionModeForPinIndices := Some IM_INDIVIDUAL_COILS\<rparr>)"
    using assms(6,13) count(3) pin_indices [OF mode0, of n] by (simp add: prepareIgnitionPinIndices_def range e0_def)
  then have e1: "prepareOutputSignals cfg e = Some e1"
    unfolding prepareOutputSignals_def Let_def range p0 assms(4) using assms(9) by (simp add: e1_def e0_def)
  obtain e2 where e2: "only_reports e1 e2" "prepareIgnitionSchedule cfg e1 = initializeIgnitionActions cfg e2"
    using schedule_reports by blast
  have pf: "plan_frame e1 e2" and ev: "ignitionEvents e2 = ignitionEvents e1" using e2(1) by (simp_all add: only_reports_def)
  note f = plan_frame_fields [OF pf]
  have s1: "ignitionPin e1 = map int [0..<n] @ drop n (ignitionPin e)" "ignitionPositionWithinEngineCycle e1 = pos"
    "timingAdvance e1 = Some adv" "dwellAngle e1 = Some dw" "length (ignitionEvents e1) = 12"
    using assms(7,8,12) by (simp_all add: e1_def e0_def)
  have "currentIgnitionMode cfg e2 = IM_INDIVIDUAL_COILS"
    using currentIgnitionMode_frame [OF pf, of cfg] mode0 by (simp add: e1_def currentIgnitionMode_def)
  then have second: "second_coil cfg e2 x = None" for x by (simp add: second_coil_def)
  have at: "ignitionPin e2 ! i = int i" "ignitionPositionWithinEngineCycle e2 ! i = firing_position (oc_fl cfg) ?cycle (int n) i" if "i < n" for i
    using that by (simp_all add: f s1 pos_def nth_append)
  have cycle: "?cycle \<le> 1000" by (simp add: getEngineCycle_def FOUR_STROKE_ENGINE_CYCLE_def)
  have bound: "\<bar>ignitionPositionWithinEngineCycle e2 ! i\<bar> \<le> 10000000" if "i < n" for i
    unfolding at(2) [OF that] using that count(3) by (intro firing_position_bound [OF assms(1,2) cycle]) simp_all
  obtain e3 where e3: "for_cylinders (\<lambda>i e'. prepareCylinderIgnitionSchedule cfg (Some dw) (sparkDwell e2) i
                 (set_ignition_event i ((ignitionEvents e' ! i)\<lparr>cylinderIndex := i\<rparr>) e')) [0..<n] e2 = Some e3"
    "length (ignitionEvents e3) = 12"
    "\<forall>i < n. let v = ignitionEvents e3 ! i in cylinderIndex v = i \<and>
      ie_outputs v = [Some (coil_index cfg (ignitionPin e2 ! i)), second_coil cfg e2 (ignitionPin e2 ! i)] \<and>
      sparkAngle v = Some (spark_angle (oc_fl cfg) adv (ignitionPositionWithinEngineCycle e2 ! i) (corr i))"
    using plan_loop [OF assms(1,2), of n e2 adv corr dw "sparkDwell e2"] assms(11) bound f s1 ev count(3) by auto
  have plan: "prepareIgnitionSchedule cfg e1 = Some (e3\<lparr>ignition_isReady := True\<rparr>)"
    using e3(1) count(1,2) f s1 by (simp add: e2(2) initializeIgnitionActions_def range)
  have events: "ie_outputs (ignitionEvents e3 ! i) = [Some (coil_index cfg (int i)), None]"
    "sparkAngle (ignitionEvents e3 ! i) = Some (spark_angle (oc_fl cfg) adv (firing_position (oc_fl cfg) ?cycle (int n) i) (corr i))"
    if "i < n" for i
    using e3(3) that at [OF that] by (simp_all add: Let_def second)
  have "map (\<lambda>v. hd (ie_outputs v)) (take n (ignitionEvents e3)) = map Some (map (\<lambda>i. coil_index cfg (int i)) [0..<n])"
    using e3(2) count(3) events(1) by (intro nth_equalityI) simp_all
  then have "mset (map (\<lambda>v. hd (ie_outputs v)) (take n (ignitionEvents e3))) = mset (map Some [0..<n])"
    using coil_permutation [OF assms(3)] unfolding n [symmetric] by (simp only: mset_map)
  then show ?thesis using e1 plan events
    by (intro exI [of _ e1] exI [of _ "e3\<lparr>ignition_isReady := True\<rparr>"]) (simp add: coil_index_def)
qed

text \<open>The four cylinders, with the pin indices of another ignition mode still in force.\<close>

theorem every_cylinder_has_its_coil_witness:
  "\<exists>e1 e2. prepareOutputSignals four_config (four_cylinders\<lparr>ignitionModeForPinIndices := None\<rparr>) = Some e1 \<and>
     prepareIgnitionSchedule four_config e1 = Some e2 \<and> ignition_isReady e2 \<and>
     map (\<lambda>v. (ie_outputs v, sparkAngle v)) (take 4 (ignitionEvents e2)) =
       [([Some 0, None], Some (- 10)), ([Some 2, None], Some 170), ([Some 3, None], Some 350), ([Some 1, None], Some 530)]"
proof -
  let ?e = "four_cylinders\<lparr>ignitionModeForPinIndices := None\<rparr>"
  have len: "getLength four_teeth = 4"
    by (simp add: getLength_def getCycleDuration_def getSize_def four_teeth_def cycle_duration_def getEngineCycle_def FOUR_STROKE_ENGINE_CYCLE_def)
  have "ascending_angles (eventAngles four_teeth) 4"
    unfolding ascending_angles_def by (auto simp: four_teeth_def nth_Cons')
  moreover have "eventAngles four_teeth ! 0 = 0" "\<not> useOnlyRisingEdgeForTriggerTemp four_teeth"
    "0 + getEngineCycle (operationMode four_teeth) \<le> length (triggerIndexByAngle four_teeth)"
    by (simp_all add: four_teeth_def blank_waveform_def getEngineCycle_def FOUR_STROKE_ENGINE_CYCLE_def)
  ultimately obtain shape where shape: "prepareShape (triggerShape ?e) = Some shape"
    using prepareShape_loop_indexes [of four_teeth 0 "getEngineCycle (operationMode four_teeth)", unfolded len]
    by (auto simp: prepareShape_def)
  have cfg: "mono (oc_fl four_config)" "float_ok (oc_fl four_config)" "matching_specs (oc_specs four_config)"
    "oc_ignitionMode four_config = IM_INDIVIDUAL_COILS" "4 = nat (cylindersCount (oc_specs four_config))"
    "\<forall>i < 4. timing_offset_cylinder four_config ! i = Some 0"
    by (simp_all add: four_config_def output_config.defs mono_def float_ok_id matching_specs_def getFiringOrderLength_def)
  have e: "\<not> isSpinningUp (ec ?e)" "ignitionModeForPinIndices ?e \<noteq> Some IM_INDIVIDUAL_COILS" "timingAdvance ?e = Some 10"
    "dwellAngle ?e = Some 70" "length (ignitionEvents ?e) = 12" "length (ignitionPin ?e) = 12"
    "length (ignitionPositionWithinEngineCycle ?e) = 12"
    by (simp_all add: isSpinningUp_def running_engine_def engine_rpm.defs engine_trigger.defs)
      (simp_all add: four_cylinders_def executor.defs outputs.defs)
  from every_cylinder_has_its_coil [OF cfg(1-4) e(1-4) shape cfg(5,6) e(5-7)]
  obtain e1 e2 where p: "prepareOutputSignals four_config ?e = Some e1" "prepareIgnitionSchedule four_config e1 = Some e2" "ignition_isReady e2"
    and v: "\<forall>i < 4. ie_outputs (ignitionEvents e2 ! i) = [Some (nat (fst (getCylinderId (oc_specs four_config) (int i)) - 1)), None] \<and>
       sparkAngle (ignitionEvents e2 ! i) = Some (spark_angle (oc_fl four_config) 10
         (firing_position (oc_fl four_config) (getEngineCycle (engine_operation_mode four_config ?e)) (int 4) i) 0)"
    and m: "mset (map (\<lambda>v. hd (ie_outputs v)) (take 4 (ignitionEvents e2))) = mset (map Some [0..<4])"
    by blast
  have "length (map (\<lambda>v. hd (ie_outputs v)) (take 4 (ignitionEvents e2))) = 4"
    using mset_eq_length [OF m] by simp
  then have "take 4 (ignitionEvents e2) = map (\<lambda>i. ignitionEvents e2 ! i) [0, 1, 2, 3]"
    by (intro nth_equalityI) (auto simp: less_Suc_eq nth_Cons' eval_nat_numeral)
  moreover have "getCylinderId (oc_specs four_config) i = ([1, 3, 4, 2] ! nat i, [])" if "i \<in> {0, 1, 2, 3}" for i
    using that by (auto simp: four_config_def output_config.defs getCylinderId_def getFiringOrderLength_def INJECTION_PIN_COUNT_def
      firing_sequence_def)
  moreover have "oc_fl four_config = id" "getEngineCycle (engine_operation_mode four_config ?e) = 720"
    by (simp_all add: four_config_def output_config.defs engine_operation_mode_def getOperationMode_def wheel_config_def
        doesTriggerImplyOperationMode_def getEngineCycle_def FOUR_STROKE_ENGINE_CYCLE_def)
  ultimately show ?thesis using p v
    by (intro exI [of _ e1] exI [of _ e2]) (simp add: spark_angle_def firing_position_def)
qed

end
