(* ===== verification/Spec2Isabelle.thy ===== *)
theory Spec2Isabelle
  imports Fsio_Relays Executor Flash_Main Tle6240 Mc33972 Mc33810 Tle8888 Trigger_Central Trigger_Index Wheel_Acceptance
    Spark_Planning Ignition_Plan
begin

text \<open>
  A verification library for the firmware of an engine control unit (src/firmware, derived from rusEFI): the part from the teeth of the
  crankshaft wheel to the sparks, the language that drives the auxiliary outputs, the drivers of the external output chips and the storage of
  the settings. All paths below are relative to src/firmware.

  \<^bold>\<open>How the program works.\<close> A wheel on the crankshaft (or camshaft) produces edges. The trigger decoder recognizes the gap of the
  wheel, counts the events of a revolution and hands every edge, with its index in the engine cycle, to listeners: the RPM calculator, and the
  handler that schedules injections and sparks. These are not carried out at once but as tasks of an event queue, served by one hardware timer.
  Beside this, a periodic task evaluates formulas of a small stack language for relays and user outputs, a thread per driver chip keeps external
  outputs in step over SPI, and the settings are written in two copies with checksums to the internal flash.

  \<^bold>\<open>Shared theories.\<close>
  \<^item> Prelude: C integers as functions on \<open>int\<close> (\<open>to_i32\<close>, \<open>c_div\<close>), lemmas on lists and words, and the two collections of
    simplification rules. Float_Values: single precision as rational numbers with a rounding function as parameter (\<open>float_ok\<close>: relative error
    at most 2^-24 in the range used, exact on whole numbers up to 2^24), and values that may be NaN or infinite.
  \<^item> Containers (util/containers): ring buffer with its window specification (locale \<open>sample_window\<close>), stack, list. Crc (util/math/crc.c):
    both checksums with their tables. Efi_Lib (util/efilib.cpp): numbers and strings.

  \<^bold>\<open>Scheduler\<close> (controllers/system/timer).
  \<^item> Event_Queue: event_queue.cpp. The intrusive list lives in a store \<open>mem\<close> from addresses to records; \<open>queue_rep q xs\<close> says that it
    is the time-sorted agenda \<open>xs\<close>. The locale \<open>timer_queue\<close> is what the executor needs of it. A callback is a function of the whole state;
    \<open>orderly\<close> callbacks keep the queue well-formed and leave due tasks alone. \<open>executed\<close> says what serving a list of tasks means.
  \<^item> Executor: single_timer_executor.cpp, hw_layer/microsecond_timer.cpp. The cycle counter is a stream of readings. Termination of the
    pass, what a pass serves (\<open>served\<close>), and when the alarm is armed.
  \<^item> Scheduler_Interface: the executor as seen by clients (locale \<open>event_scheduler\<close>), interpreted for calls from inside a callback and from
    an interrupt.

  \<^bold>\<open>Trigger and RPM\<close> (controllers/trigger, controllers/engine_cycle/rpm_calculator.cpp).
  \<^item> Trigger_Shape, Toothed_Wheel: the description of a wheel and the universal wheels with missing teeth (trigger_structure.cpp,
    decoders/trigger_universal.cpp). Trigger_Makes: the wheels of particular makes (the other files of decoders). Wheel_Steps: one rule per
    operation for building a wheel. Wheel_Acceptance: all 47 wheels are accepted, for any rounding.
  \<^item> Trigger_Decoder, Trigger_Wheel: trigger_decoder.cpp; the decoder follows and finds again any wheel from any state. Trigger_Index: the table
    from angles to events. Rpm_Calculator: RPM and the state of the engine. Trigger_Central: trigger_central.cpp, from an edge at the pin to the
    listeners, and the cam phase.

  \<^bold>\<open>Ignition\<close> (controllers/engine_cycle/spark_logic.cpp, controllers/math/engine_math.cpp).
  \<^item> Cylinders: firing orders, coils and their numbers of sparks. Tooth_Events: events that wait for a trigger tooth. Spark_Logic: planning,
    charging and firing; its state extends that of the executor, so that scheduling a spark really inserts into the agenda.
  \<^item> Spark_Safety: no coil is left charging by sparks whose edges are swapped; where that protection ends. Spark_Planning: what is scheduled
    at a tooth (locales \<open>tooth_scheduler\<close>, \<open>spark_scheduler\<close>). Ignition_Plan: from the configuration to the plan of an engine cycle.
  \<^item> Output_Pins: pads and injectors (controllers/system/efi_gpio.cpp and the two handlers of injector edges).

  \<^bold>\<open>Flexible logic\<close> (controllers/core, controllers/system_fsio.h).
  \<^item> Fsio_Core: fsio_core.cpp, tokens, parser and stack machine. Fsio_Eval: a tree semantics and the proof that parsing and running a
    formula computes it. Fsio_Impl: fsio_impl.cpp, the periodic run, the console commands and the hard-coded alternative. Fsio_System:
    invariants of the reachable states. Fsio_Relays: what the system formulas do to the relays.

  \<^bold>\<open>Chips and pins\<close> (hw_layer).
  \<^item> Gpio_Core: drivers/gpio/core.c, the registry of chips, and the contract of a driver (locale \<open>gpiochip_driver\<close>). Pin_Repository:
    pin_repository.cpp and the numbering of pins (locale \<open>pin_registry\<close>). Spi_Bus: the bus as the trace of what was sent, with the device's
    answer a function of the trace.
  \<^item> Tle6240, Mc33972, Mc33810, Tle8888: one theory per driver, each interpreting the contract.

  \<^bold>\<open>Settings\<close>.
  \<^item> Flash_Int: hw_layer/ports/stm32/flash_int.c on a memory that programs bits from 1 to 0 and erases sectors (locale \<open>nor_flash\<close>, interpreted
    for the two chips). Flash_Main: controllers/flash_main.cpp, both copies, with a power loss at any operation.

  \<^bold>\<open>Parameters.\<close> What is not under src/firmware, or reaches out of it, is an argument of the definitions: the rounding of the compiler's
  floating point, the callbacks of the scheduler, the general purpose timer (after a stop and after a start), the answers of an SPI device
  (any function of what was sent), the state of the engine as formulas see it (\<open>engine_view\<close>), table lookups, and the free stack space. What
  the proofs need of them is a named hypothesis (\<open>float_ok\<close>, \<open>mono\<close>, \<open>orderly\<close>, \<open>tame\<close>, \<open>timer_ready\<close>), and each property
  with hypotheses has a witness at concrete values.

  \<^bold>\<open>Bounds and termination.\<close> Loops that may not end are \<open>partial_function (option)\<close>: None means that the code does not return, or that it
  leaves an array; the properties state when they return. Bounded by the code itself are the walks of \<open>checkIfPending\<close> and the list of tooth
  events (1000), tokens (64 bytes), the calculator's stack (32) and trace (64), the pools of formula elements (128 for the user), a trigger
  wheel (280 events) and the coils (12). No property assumes more fuel than the code has.

  \<^bold>\<open>Main relay.\<close> Whether \<open>runFsio\<close> evaluates the formula of the main relay depends on EFI_MAIN_RELAY_CONTROL, a field of the
  configuration in the model; it is FALSE in every build of the repository.

  \<^bold>\<open>Not modelled\<close>: the vendored code under ext and hw_layer/ports (operating system, drivers of the microcontroller, file system), the
  generated configuration structures, the settings of particular engines (config/engines), the computations of fuel, advance and air mass
  in floating point, idle, throttle, boost and alternator control, sensors, CAN, the console and TunerStudio protocols, displays, the bootloader
  protocol, and the development tools. Of the files modelled, log messages and debug metrics are left out.
\<close>

end
